(* ===== verification/Prelude.thy ===== *)
theory Prelude
  imports Main "HOL-Library.AList" "HOL-Library.Product_Lexorder" "HOL-Library.List_Lexorder"
    "HOL-Library.Char_ord" "HOL-Library.Multiset"
begin

text \<open>
  Shared vocabulary of the development.

  \<^item> Machine integers.  Millisecond time stamps, counters, lengths and thresholds (\<open>u64\<close>,
    \<open>usize\<close>, \<open>u32\<close>, \<open>u8\<close>) are natural numbers.  The operations that depend on the width are written
    out: \<open>saturating_sub\<close> stops at 0 and \<open>saturating_add\<close> at the largest \<open>u64\<close>.  Plain \<open>+= 1\<close> on
    a statistics counter is addition on \<open>nat\<close>: the code would need \<open>2 ^ 64\<close> events to overflow one.
    Hashes, where the code wraps on purpose, are \<open>64 word\<close> (theory \<open>Router\<close>).
  \<^item> \<open>IndexMap\<close> and \<open>HashMap\<close>.  Both are association lists with distinct keys.  For an
    \<open>IndexMap\<close> the list order is the insertion order which the crate documents: \<open>insert\<close> keeps the
    position of an existing key and appends a new one, \<open>shift_remove\<close> keeps the order of the rest.
    For a \<open>HashMap\<close> the list order stands for the unspecified iteration order.  The laws that the
    proofs use are collected in the locale \<open>index_map\<close>.
  \<^item> The locale \<open>invariant_machine\<close>: any component whose operations keep an invariant keeps it over
    every sequence of operations.
\<close>

named_theorems op_simps \<open>unfolding rules of the operations of a component\<close>

named_theorems wf_intros \<open>preservation of well-formedness by the operations\<close>


section \<open>Integers\<close>

definition u64_max :: nat where
  "u64_max = 2 ^ 64 - 1"

definition saturating_sub :: "nat \<Rightarrow> nat \<Rightarrow> nat" where
  "saturating_sub a b = (if a < b then 0 else a - b)"

definition saturating_add :: "nat \<Rightarrow> nat \<Rightarrow> nat" where
  "saturating_add a b = (if a + b \<le> u64_max then a + b else u64_max)"

lemma saturating_sub_eq [simp]: "saturating_sub a b = a - b"
  by (simp add: saturating_sub_def)

lemma saturating_add_bounds: "a \<le> u64_max \<Longrightarrow> a \<le> saturating_add a b \<and> saturating_add a b \<le> u64_max"
  by (simp add: saturating_add_def)


section \<open>Strings\<close>

text \<open>
  A Rust \<open>String\<close> is its sequence of UTF-8 bytes, one \<open>char\<close> per byte, so \<open>length\<close> is \<open>len()\<close>.
\<close>

definition starts_with :: "string \<Rightarrow> string \<Rightarrow> bool" where
  "starts_with s p \<longleftrightarrow> take (length p) s = p"

definition strip_prefix :: "string \<Rightarrow> string \<Rightarrow> string option" where
  "strip_prefix p s = (if starts_with s p then Some (drop (length p) s) else None)"

definition strip_suffix :: "string \<Rightarrow> string \<Rightarrow> string option" where
  "strip_suffix p s =
     (if length p \<le> length s \<and> drop (length s - length p) s = p then Some (take (length s - length p) s)
      else None)"

definition utf8 :: "nat list \<Rightarrow> string" where
  "utf8 bytes = map char_of bytes"

fun str_join :: "string \<Rightarrow> string list \<Rightarrow> string" where
  "str_join sep [] = []"
| "str_join sep [x] = x"
| "str_join sep (x # y # xs) = x @ sep @ str_join sep (y # xs)"

fun dec :: "nat \<Rightarrow> string" where
  "dec n = (if n < 10 then [char_of (48 + n)] else dec (n div 10) @ [char_of (48 + n mod 10)])"

declare dec.simps [simp del]

text \<open>
  The quoting of \<open>{:?}\<close> on a string: quotes, backslashes and the usual control characters are
  escaped (the \<open>\u{..}\<close> form of unprintable code points is not modelled).
\<close>

definition debug_char :: "char \<Rightarrow> string" where
  "debug_char c =
     (if c = CHR 0x22 \<or> c = CHR 0x5C then [CHR 0x5C, c]
      else if c = CHR 0x0A then [CHR 0x5C, CHR ''n'']
      else if c = CHR 0x0D then [CHR 0x5C, CHR ''r'']
      else if c = CHR 0x09 then [CHR 0x5C, CHR ''t'']
      else [c])"

definition debug_str :: "string \<Rightarrow> string" where
  "debug_str s = [CHR 0x22] @ concat (map debug_char s) @ [CHR 0x22]"

text \<open>\<open>chars().take(n)\<close>: the bytes of the first \<open>n\<close> code points.  A byte \<open>10xxxxxx\<close> continues one.\<close>

definition utf8_continues :: "char \<Rightarrow> bool" where
  "utf8_continues c \<longleftrightarrow> of_char c div 64 = (2 :: nat)"

fun take_chars :: "nat \<Rightarrow> string \<Rightarrow> string" where
  "take_chars n [] = []"
| "take_chars n (c # cs) =
     (if utf8_continues c then c # take_chars n cs
      else if n = 0 then [] else c # take_chars (n - 1) cs)"

definition count_chars :: "string \<Rightarrow> nat" where
  "count_chars s = length (filter (\<lambda>c. \<not> utf8_continues c) s)"

lemma strip_prefix_append [simp]: "strip_prefix p (p @ s) = Some s"
  by (simp add: strip_prefix_def starts_with_def)

lemma strip_prefix_Some: "strip_prefix p s = Some r \<Longrightarrow> s = p @ r"
  by (auto simp: strip_prefix_def starts_with_def split: if_splits)
    (metis append_take_drop_id)

lemma count_take_chars: "count_chars (take_chars n s) \<le> n"
  by (induction n s rule: take_chars.induct) (auto simp: count_chars_def)

lemma take_chars_all: "count_chars s \<le> n \<Longrightarrow> take_chars n s = s"
  by (induction n s rule: take_chars.induct) (auto simp: count_chars_def split: if_splits)


section \<open>Ordered maps\<close>

type_synonym ('k, 'v) imap = "('k \<times> 'v) list"

abbreviation im_insert :: "'k \<Rightarrow> 'v \<Rightarrow> ('k, 'v) imap \<Rightarrow> ('k, 'v) imap" where
  "im_insert \<equiv> AList.update"

abbreviation im_remove :: "'k \<Rightarrow> ('k, 'v) imap \<Rightarrow> ('k, 'v) imap" where
  "im_remove \<equiv> AList.delete"

text \<open>\<open>if let Some(x) = m.get_mut(k) { .. }\<close>\<close>

abbreviation im_modify :: "'k \<Rightarrow> ('v \<Rightarrow> 'v) \<Rightarrow> ('k, 'v) imap \<Rightarrow> ('k, 'v) imap" where
  "im_modify \<equiv> AList.map_entry"

text \<open>\<open>f(m.entry(k).or_insert(d))\<close>\<close>

definition im_entry :: "'k \<Rightarrow> 'v \<Rightarrow> ('v \<Rightarrow> 'v) \<Rightarrow> ('k, 'v) imap \<Rightarrow> ('k, 'v) imap" where
  "im_entry k d f m = AList.map_default k (f d) f m"

abbreviation im_keys :: "('k, 'v) imap \<Rightarrow> 'k list" where
  "im_keys m \<equiv> map fst m"

abbreviation im_values :: "('k, 'v) imap \<Rightarrow> 'v list" where
  "im_values m \<equiv> map snd m"

definition im_wf :: "('k, 'v) imap \<Rightarrow> bool" where
  "im_wf m \<longleftrightarrow> distinct (im_keys m)"

locale index_map =
  fixes get :: "'m \<Rightarrow> 'k \<Rightarrow> 'v option"
    and ins :: "'k \<Rightarrow> 'v \<Rightarrow> 'm \<Rightarrow> 'm"
    and del :: "'k \<Rightarrow> 'm \<Rightarrow> 'm"
    and keys :: "'m \<Rightarrow> 'k list"
  assumes get_ins: "get (ins k v m) = (get m)(k \<mapsto> v)"
    and get_del: "get (del k m) = (get m)(k := None)"
    and get_dom: "dom (get m) = set (keys m)"
    and keys_ins: "keys (ins k v m) = (if k \<in> set (keys m) then keys m else keys m @ [k])"
    and keys_del: "keys (del k m) = filter (\<lambda>x. x \<noteq> k) (keys m)"
begin

lemma distinct_ins: "distinct (keys m) \<Longrightarrow> distinct (keys (ins k v m))"
  by (simp add: keys_ins)

lemma distinct_del: "distinct (keys m) \<Longrightarrow> distinct (keys (del k m))"
  by (simp add: keys_del)

lemma length_ins_le: "length (keys (ins k v m)) \<le> Suc (length (keys m))"
  by (simp add: keys_ins)

lemma length_ins_mem: "k \<in> set (keys m) \<Longrightarrow> length (keys (ins k v m)) = length (keys m)"
  by (simp add: keys_ins)

lemma length_del_mem:
  "distinct (keys m) \<Longrightarrow> k \<in> set (keys m) \<Longrightarrow> Suc (length (keys (del k m))) = length (keys m)"
proof -
  assume d: "distinct (keys m)" and k: "k \<in> set (keys m)"
  have "card (set (keys m) - {k}) = card (set (keys m)) - 1"
    using k by simp
  moreover have "set (filter (\<lambda>x. x \<noteq> k) (keys m)) = set (keys m) - {k}"
    by auto
  ultimately have "length (keys (del k m)) = length (keys m) - 1"
    using d by (metis distinct_card distinct_filter keys_del)
  moreover have "keys m \<noteq> []"
    using k by auto
  ultimately show ?thesis
    by (cases "keys m") auto
qed

lemma get_del_all: "get (fold del ks m) k = (if k \<in> set ks then None else get m k)"
  by (induction ks arbitrary: m) (auto simp: get_del)

lemma keys_del_all: "keys (fold del ks m) = filter (\<lambda>k. k \<notin> set ks) (keys m)"
  by (induction ks arbitrary: m) (auto simp: keys_del intro!: filter_cong)

lemma get_Some_key: "get m k = Some v \<Longrightarrow> k \<in> set (keys m)"
  using get_dom [of m] by auto

end

lemma update_im_keys:
  "im_keys (im_insert k v m) = (if k \<in> set (im_keys m) then im_keys m else im_keys m @ [k])"
  by (simp add: update_keys)

interpretation im: index_map map_of im_insert im_remove "map fst"
proof unfold_locales
  fix k v and m :: "('k, 'v) imap"
  show "map_of (im_insert k v m) = (map_of m)(k \<mapsto> v)"
    by (rule update_conv')
  show "map_of (im_remove k m) = (map_of m)(k := None)"
    by (rule delete_conv')
  show "dom (map_of m) = set (im_keys m)"
    by (simp add: dom_map_of_conv_image_fst)
  show "im_keys (im_insert k v m) = (if k \<in> set (im_keys m) then im_keys m else im_keys m @ [k])"
    by (rule update_im_keys)
  show "im_keys (im_remove k m) = filter (\<lambda>x. x \<noteq> k) (im_keys m)"
    by (simp add: delete_keys removeAll_filter_not_eq fun_eq_iff)
      (metis (lifting) filter_cong)
qed

lemma im_insert_fresh: "k \<notin> set (im_keys m) \<Longrightarrow> im_insert k v m = m @ [(k, v)]"
  by (induction m) auto

lemma im_wf_Nil [simp, intro]: "im_wf []"
  by (simp add: im_wf_def)

lemma im_wf_insert [wf_intros]: "im_wf m \<Longrightarrow> im_wf (im_insert k v m)"
  unfolding im_wf_def by (rule im.distinct_ins)

lemma im_wf_remove [wf_intros]: "im_wf m \<Longrightarrow> im_wf (im_remove k m)"
  unfolding im_wf_def by (rule im.distinct_del)

lemma im_keys_modify [simp]: "im_keys (im_modify k f m) = im_keys m"
  by (induction m) auto

lemma im_wf_modify [wf_intros]: "im_wf m \<Longrightarrow> im_wf (im_modify k f m)"
  by (simp add: im_wf_def)

lemma im_wf_entry [wf_intros]: "im_wf m \<Longrightarrow> im_wf (im_entry k d f m)"
  unfolding im_wf_def im_entry_def by (rule distinct_map_default)

lemma im_keys_entry:
  "im_keys (im_entry k d f m) = (if k \<in> set (im_keys m) then im_keys m else im_keys m @ [k])"
  by (induction m) (auto simp: im_entry_def)

lemma im_entry_cases:
  "im_entry k d f m = (if k \<in> set (im_keys m) then im_modify k f m else m @ [(k, f d)])"
  by (induction m) (auto simp: im_entry_def)

lemma im_get_modify:
  "map_of (im_modify k f m) k' = (if k' = k then map_option f (map_of m k) else map_of m k')"
  by (simp add: map_of_map_entry split: option.split)

lemma im_get_entry:
  "map_of (im_entry k d f m) k' =
     (if k' = k then Some (case map_of m k of None \<Rightarrow> f d | Some v \<Rightarrow> f v) else map_of m k')"
  by (simp add: im_entry_def map_of_map_default split: option.split)

lemma im_get_values: "map_of m k = Some v \<Longrightarrow> v \<in> set (im_values m)"
  using map_of_SomeD [of m k v] by force

lemma im_values_get: "im_wf m \<Longrightarrow> (k, v) \<in> set m \<Longrightarrow> map_of m k = Some v"
  by (simp add: im_wf_def)

text \<open>A property of every entry, under the operations.\<close>

lemma list_all_modify:
  "list_all (\<lambda>(i, v). P i v) m \<Longrightarrow> (\<And>v. P k v \<Longrightarrow> P k (f v)) \<Longrightarrow> list_all (\<lambda>(i, v). P i v) (im_modify k f m)"
  by (induction m) auto

lemma list_all_update:
  "list_all (\<lambda>(i, v). P i v) m \<Longrightarrow> P k v \<Longrightarrow> list_all (\<lambda>(i, v). P i v) (im_insert k v m)"
  by (induction m) auto

lemma list_all_delete: "list_all P m \<Longrightarrow> list_all P (im_remove k m)"
  by (induction m) auto

lemma list_all_entry:
  "list_all (\<lambda>(i, v). P i v) m \<Longrightarrow> P k (f d) \<Longrightarrow> (\<And>v. P k v \<Longrightarrow> P k (f v)) \<Longrightarrow>
   list_all (\<lambda>(i, v). P i v) (im_entry k d f m)"
  by (induction m) (auto simp: im_entry_def)

lemmas map_ops = im_wf_insert im_wf_remove im_wf_modify im_wf_entry list_all_modify list_all_update
  list_all_delete list_all_entry

lemma set_keys_entry: "set (im_keys (im_entry k d f m)) = insert k (set (im_keys m))"
  by (auto simp: im_keys_entry)

lemma set_keys_remove: "set (im_keys (im_remove k m)) = set (im_keys m) - {k}"
  by (simp add: delete_keys)

lemma set_keys_insert: "set (im_keys (im_insert k v m)) = insert k (set (im_keys m))"
  by (auto simp: update_im_keys)


section \<open>Sequences of operations\<close>

locale invariant_machine =
  fixes step :: "'e \<Rightarrow> 's \<Rightarrow> 's" and inv :: "'s \<Rightarrow> bool"
  assumes step_inv: "inv s \<Longrightarrow> inv (step e s)"
begin

lemma run_inv: "inv s \<Longrightarrow> inv (fold step es s)"
  by (induction es arbitrary: s) (auto intro: step_inv)

lemma run_inv_prefix: "inv s \<Longrightarrow> inv (fold step (take n es) s)"
  by (rule run_inv)

end

locale measured_machine = invariant_machine step inv
  for step :: "'e \<Rightarrow> 's \<Rightarrow> 's" and inv :: "'s \<Rightarrow> bool" +
  fixes meas :: "'s \<Rightarrow> nat"
  assumes step_mono: "inv s \<Longrightarrow> meas s \<le> meas (step e s)"
begin

lemma run_mono: "inv s \<Longrightarrow> meas s \<le> meas (fold step es s)"
proof (induction es arbitrary: s)
  case Nil
  then show ?case by simp
next
  case (Cons e es)
  have "meas s \<le> meas (step e s)"
    using Cons.prems by (rule step_mono)
  also have "\<dots> \<le> meas (fold step es (step e s))"
    by (rule Cons.IH) (rule step_inv [OF Cons.prems])
  finally show ?case by simp
qed

end


section \<open>Reversed keys\<close>

text \<open>\<open>std::cmp::Reverse\<close>, the key wrapper of the code's descending sorts.\<close>

datatype 'a reverse = Reverse (unreverse: 'a)

instantiation reverse :: (linorder) linorder
begin

definition less_eq_reverse :: "'a reverse \<Rightarrow> 'a reverse \<Rightarrow> bool" where
  "less_eq_reverse a b \<longleftrightarrow> unreverse b \<le> unreverse a"

definition less_reverse :: "'a reverse \<Rightarrow> 'a reverse \<Rightarrow> bool" where
  "less_reverse a b \<longleftrightarrow> unreverse b < unreverse a"

instance
  by standard (auto simp: less_eq_reverse_def less_reverse_def reverse.expand)

end


section \<open>Stable sorting\<close>

text \<open>
  \<open>sort_by\<close> and \<open>sort_by_key\<close> are stable, as \<open>sort_key\<close> is.  Sorting after every push is one stable
  sort at the end, and the first element is the earliest of the least keys.
\<close>

lemma sort_key_filter_eq: "filter (\<lambda>x. f k = f x) (sort_key f xs) = filter (\<lambda>x. f k = f x) xs"
  using sort_key_stable [of f "f k" xs] by (simp add: eq_commute)

lemma sort_key_snoc: "sort_key f (sort_key f xs @ [x]) = sort_key f (xs @ [x])"
  by (rule properties_for_sort_key) (simp_all add: sort_key_filter_eq)

lemma sort_key_fold: "fold (\<lambda>x acc. sort_key f (acc @ [x])) xs (sort_key f ys) = sort_key f (ys @ xs)"
proof (induction xs arbitrary: ys)
  case (Cons x xs)
  then show ?case
    using Cons.IH [of "ys @ [x]"] by (simp add: sort_key_snoc)
qed simp

lemma hd_sort_key:
  fixes f :: "'a \<Rightarrow> 'b :: linorder"
  assumes "xs \<noteq> []"
  shows "hd (sort_key f xs) = hd (filter (\<lambda>x. f x = Min (f ` set xs)) xs)"
proof -
  obtain y ys where y: "sort_key f xs = y # ys"
    using assms by (cases "sort_key f xs") (auto dest: arg_cong [of _ _ length])
  have "sorted (map f (y # ys))"
    using sorted_sort_key [of f xs] y by simp
  then have "\<forall>z \<in> set (y # ys). f y \<le> f z"
    by auto
  moreover have "set (y # ys) = set xs"
    using y set_sort [of f xs] by metis
  ultimately have m: "f y = Min (f ` set xs)"
    by (intro Min_eqI [symmetric]) auto
  have "filter (\<lambda>x. f x = f y) xs = filter (\<lambda>x. f x = f y) (y # ys)"
    using sort_key_stable [of f "f y" xs] y by simp
  then show ?thesis
    using y m by simp
qed

end
