(* ===== verification/Json.thy ===== *)
theory Json
  imports Prelude
begin

text \<open>
  \<open>serde_json::Value\<close> as the runtime uses it.  An object is an association list; \<open>Value::get\<close> with a
  string key is \<open>json_get\<close>, which is \<open>None\<close> on everything that is not an object.  Numbers are the
  integers: the modelled code stores counters, indices and time stamps in them and never a fraction.
  Serialisation to text (\<open>serde_json::to_string\<close>) is library code; what depends on it takes it as a
  parameter \<open>json_text\<close>.
\<close>

datatype json =
    JNull
  | JBool bool
  | JNumber int
  | JString string
  | JArray "json list"
  | JObject "(string \<times> json) list"

fun json_get :: "string \<Rightarrow> json \<Rightarrow> json option" where
  "json_get k (JObject kvs) = map_of kvs k"
| "json_get k _ = None"

fun as_str :: "json \<Rightarrow> string option" where
  "as_str (JString s) = Some s"
| "as_str _ = None"

fun as_bool :: "json \<Rightarrow> bool option" where
  "as_bool (JBool b) = Some b"
| "as_bool _ = None"

fun as_array :: "json \<Rightarrow> json list option" where
  "as_array (JArray js) = Some js"
| "as_array _ = None"

fun as_u64 :: "json \<Rightarrow> nat option" where
  "as_u64 (JNumber n) = (if 0 \<le> n then Some (nat n) else None)"
| "as_u64 _ = None"

fun is_object :: "json \<Rightarrow> bool" where
  "is_object (JObject _) = True"
| "is_object _ = False"

definition json_str :: "string \<Rightarrow> json \<Rightarrow> string option" where
  "json_str k j = Option.bind (json_get k j) as_str"

definition json_bool :: "string \<Rightarrow> json \<Rightarrow> bool option" where
  "json_bool k j = Option.bind (json_get k j) as_bool"

definition unwrap_or :: "'a \<Rightarrow> 'a option \<Rightarrow> 'a" where
  "unwrap_or d x = (case x of None \<Rightarrow> d | Some y \<Rightarrow> y)"

definition or_else :: "'a option \<Rightarrow> 'a option \<Rightarrow> 'a option" where
  "or_else x y = (case x of None \<Rightarrow> y | Some _ \<Rightarrow> x)"

lemma unwrap_or_simps [simp]: "unwrap_or d None = d" "unwrap_or d (Some y) = y"
  by (simp_all add: unwrap_or_def)

lemma or_else_simps [simp]: "or_else None y = y" "or_else (Some x) y = Some x" "or_else y None = y"
  by (simp_all add: or_else_def split: option.split)

lemma json_str_simps [simp]:
  "json_str k (JObject kvs) = Option.bind (map_of kvs k) as_str"
  "json_str k JNull = None" "json_str k (JBool b) = None" "json_str k (JNumber n) = None"
  "json_str k (JString s) = None" "json_str k (JArray js) = None"
  by (simp_all add: json_str_def)

lemma json_bool_simps [simp]:
  "json_bool k (JObject kvs) = Option.bind (map_of kvs k) as_bool"
  "json_bool k JNull = None" "json_bool k (JArray js) = None" "json_bool k (JString s) = None"
  by (simp_all add: json_bool_def)

end
