(* ===== verification/Messages.thy ===== *)
theory Messages
  imports Json
begin

text \<open>
  The message layer of the runtime (\<open>messages/types.rs\<close>, \<open>normalize.rs\<close>, \<open>lookup.rs\<close>,
  \<open>pairing.rs\<close>): content blocks and their wire format, the clean-up of a conversation before it is
  sent to the model, and the repair of tool calls that have no result.
\<close>


section \<open>Messages and the wire format\<close>

datatype message_role = User | Assistant | System

datatype content_block =
    Text string
  | ToolUse string string json
  | ToolResult string json bool
  | Thinking string
  | Json json

record api_msg =
  role :: message_role
  content :: json

record internal_msg =
  msg_role :: message_role
  blocks :: "content_block list"
  message_id :: string
  tool_use_id :: "string option"
  filtered :: bool
  metadata :: json

fun value_from_block :: "content_block \<Rightarrow> json" where
  "value_from_block (Text t) = JObject [(''type'', JString ''text''), (''text'', JString t)]"
| "value_from_block (ToolUse i n inp) =
     JObject [(''type'', JString ''tool_use''), (''id'', JString i), (''name'', JString n), (''input'', inp)]"
| "value_from_block (ToolResult i c e) =
     JObject [(''type'', JString ''tool_result''), (''tool_use_id'', JString i), (''content'', c),
              (''is_error'', JBool e)]"
| "value_from_block (Thinking t) = JObject [(''type'', JString ''thinking''), (''thinking'', JString t)]"
| "value_from_block (Json v) = v"

fun value_from_blocks :: "content_block list \<Rightarrow> json" where
  "value_from_blocks [Text t] = JString t"
| "value_from_blocks bs = JArray (map value_from_block bs)"

definition block_from_value :: "json \<Rightarrow> string option \<Rightarrow> content_block" where
  "block_from_value item fallback =
     (case json_str ''type'' item of
        None \<Rightarrow> Json item
      | Some ty \<Rightarrow>
          if ty = ''text'' then Text (unwrap_or [] (json_str ''text'' item))
          else if ty = ''tool_use'' then
            ToolUse (unwrap_or [] (json_str ''id'' item)) (unwrap_or [] (json_str ''name'' item))
              (unwrap_or JNull (json_get ''input'' item))
          else if ty = ''tool_result'' then
            ToolResult (unwrap_or [] (or_else (json_str ''tool_use_id'' item) fallback))
              (unwrap_or JNull (json_get ''content'' item))
              (unwrap_or False (json_bool ''is_error'' item))
          else if ty = ''thinking'' then Thinking (unwrap_or [] (json_str ''thinking'' item))
          else Json item)"

fun blocks_from_value :: "json \<Rightarrow> string option \<Rightarrow> content_block list" where
  "blocks_from_value (JArray items) fallback = map (\<lambda>i. block_from_value i fallback) items"
| "blocks_from_value (JString t) _ = [Text t]"
| "blocks_from_value other _ = [Json other]"


section \<open>Normalisation\<close>

fun merge_content :: "json \<Rightarrow> json \<Rightarrow> json" where
  "merge_content (JString a) (JString b) = JString (a @ ''\<newline>'' @ b)"
| "merge_content existing new = JArray [existing, new]"

definition api_of :: "internal_msg \<Rightarrow> api_msg" where
  "api_of m = \<lparr>role = msg_role m, content = value_from_blocks (blocks m)\<rparr>"

text \<open>One round of the loop; the result vector grows at its end.\<close>

definition normalize_step :: "internal_msg \<Rightarrow> api_msg list \<Rightarrow> api_msg list" where
  "normalize_step m result =
     (if filtered m then result
      else if result \<noteq> [] \<and> role (last result) = role (api_of m)
      then butlast result @
             [(last result)\<lparr>content := merge_content (content (last result)) (content (api_of m))\<rparr>]
      else result @ [api_of m])"

definition normalize_messages_for_api :: "internal_msg list \<Rightarrow> api_msg list" where
  "normalize_messages_for_api messages =
     (let result = fold normalize_step messages []
      in if (case result of [] \<Rightarrow> False | m # _ \<Rightarrow> role m = User) then result
         else \<lparr>role = User, content = JString []\<rparr> # result)"


section \<open>Lookup tables and pairing\<close>

record message_lookups =
  tool_result_by_use_id :: "(string, nat) imap"
  tool_use_by_id :: "(string, nat) imap"

definition lookup_step :: "nat \<times> internal_msg \<Rightarrow> message_lookups \<Rightarrow> message_lookups" where
  "lookup_step im l =
     (case tool_use_id (snd im) of
        None \<Rightarrow> l
      | Some t \<Rightarrow>
          if msg_role (snd im) = Assistant
          then l\<lparr>tool_use_by_id := im_insert t (fst im) (tool_use_by_id l)\<rparr>
          else l\<lparr>tool_result_by_use_id := im_insert t (fst im) (tool_result_by_use_id l)\<rparr>)"

definition build_message_lookups :: "internal_msg list \<Rightarrow> message_lookups" where
  "build_message_lookups messages =
     fold lookup_step (enumerate 0 messages) \<lparr>tool_result_by_use_id = [], tool_use_by_id = []\<rparr>"

definition placeholder_for :: "internal_msg \<Rightarrow> string \<Rightarrow> internal_msg" where
  "placeholder_for m t =
     \<lparr>msg_role = User, blocks = [ToolResult t (JString []) False],
      message_id = message_id m @ ''_auto_result'', tool_use_id = Some t, filtered = False,
      metadata = JObject [(''auto_generated'', JBool True)]\<rparr>"

definition placeholder_inserts ::
  "message_lookups \<Rightarrow> nat \<times> internal_msg \<Rightarrow> (nat \<times> internal_msg) list" where
  "placeholder_inserts l im =
     (case tool_use_id (snd im) of
        None \<Rightarrow> []
      | Some t \<Rightarrow>
          if msg_role (snd im) = Assistant \<and> map_of (tool_result_by_use_id l) t = None
          then [(fst im + 1, placeholder_for (snd im) t)] else [])"

definition vec_insert :: "nat \<times> 'a \<Rightarrow> 'a list \<Rightarrow> 'a list" where
  "vec_insert px xs = take (fst px) xs @ snd px # drop (fst px) xs"

text \<open>The insertions run from the last position to the first, so earlier positions stay valid.\<close>

definition ensure_tool_result_pairing :: "internal_msg list \<Rightarrow> internal_msg list" where
  "ensure_tool_result_pairing messages =
     (let l = build_message_lookups messages;
          inserts = concat (map (placeholder_inserts l) (enumerate 0 messages))
      in fold vec_insert (rev inserts) messages)"


section \<open>Lemmas on the wire format\<close>

definition recognised_type :: "json \<Rightarrow> bool" where
  "recognised_type j \<longleftrightarrow>
     (case json_str ''type'' j of None \<Rightarrow> False
      | Some t \<Rightarrow> t \<in> {''text'', ''tool_use'', ''tool_result'', ''thinking''})"

fun plain_block :: "content_block \<Rightarrow> bool" where
  "plain_block (Json v) = (\<not> recognised_type v)"
| "plain_block _ = True"

lemma block_roundtrip: "plain_block b \<Longrightarrow> block_from_value (value_from_block b) fb = b"
  by (cases b) (auto simp: block_from_value_def recognised_type_def split: option.splits)

lemma value_from_blocks_cases:
  obtains t where "bs = [Text t]" "value_from_blocks bs = JString t"
  | "\<nexists>t. bs = [Text t]" "value_from_blocks bs = JArray (map value_from_block bs)"
  by (cases bs rule: value_from_blocks.cases) auto


section \<open>Lemmas on normalisation\<close>

lemma normalize_step_filtered: "fold normalize_step ms r = fold normalize_step (filter (Not \<circ> filtered) ms) r"
  by (induction ms arbitrary: r) (auto simp: normalize_step_def)

definition roles_alternate :: "api_msg list \<Rightarrow> bool" where
  "roles_alternate ms \<longleftrightarrow> successively (\<lambda>a b. role a \<noteq> role b) ms"

lemma successively_butlast_snoc:
  assumes "successively P xs" "xs \<noteq> []" "\<And>a. P a (last xs) \<Longrightarrow> P a y"
  shows "successively P (butlast xs @ [y])"
proof -
  obtain ys x where xs: "xs = ys @ [x]"
    using assms(2) by (cases xs rule: rev_cases) auto
  show ?thesis
    using assms(1,3) unfolding xs by (auto simp: successively_append_iff)
qed

lemma normalize_step_alternate: "roles_alternate r \<Longrightarrow> roles_alternate (normalize_step m r)"
  by (cases r rule: rev_cases)
    (auto simp: normalize_step_def roles_alternate_def successively_append_iff)

interpretation normalizer: invariant_machine normalize_step roles_alternate
  by unfold_locales (rule normalize_step_alternate)

text \<open>The groups the loop builds: maximal runs of messages with one role.\<close>

fun role_runs :: "internal_msg list \<Rightarrow> internal_msg list list" where
  "role_runs [] = []"
| "role_runs (m # ms) =
     (case role_runs ms of
        (m' # g) # gs \<Rightarrow> if msg_role m' = msg_role m then (m # m' # g) # gs else [m] # (m' # g) # gs
      | gs \<Rightarrow> [m] # gs)"

definition merge_run :: "internal_msg list \<Rightarrow> api_msg" where
  "merge_run g =
     \<lparr>role = msg_role (hd g),
      content = foldl (\<lambda>c m. merge_content c (value_from_blocks (blocks m)))
                  (value_from_blocks (blocks (hd g))) (tl g)\<rparr>"

lemma role_runs_ne: "g \<in> set (role_runs ms) \<Longrightarrow> g \<noteq> []"
  by (induction ms arbitrary: g) (auto split: list.splits if_splits)

lemma role_runs_hd: "ms \<noteq> [] \<Longrightarrow> \<exists>g gs. role_runs ms = (hd ms # g) # gs"
  by (cases ms) (auto split: list.splits)

lemma role_runs_join:
  "role_runs ms = (m' # g) # gs \<Longrightarrow> msg_role m' = msg_role m \<Longrightarrow> role_runs (m # ms) = (m # m' # g) # gs"
  by simp

lemma role_runs_new:
  "role_runs ms = (m' # g) # gs \<Longrightarrow> msg_role m' \<noteq> msg_role m \<Longrightarrow> role_runs (m # ms) = [m] # (m' # g) # gs"
  by simp

lemma role_runs_run:
  "\<forall>x \<in> set (m # g). msg_role x = \<rho> \<Longrightarrow> role_runs (m # g) = [m # g]"
proof (induction g arbitrary: m)
  case (Cons y g)
  have "role_runs (y # g) = [y # g]"
    by (rule Cons.IH) (use Cons.prems in simp)
  moreover have "msg_role y = msg_role m"
    using Cons.prems by simp
  ultimately show ?case
    by (rule role_runs_join)
qed simp

lemma role_runs_split:
  "\<forall>x \<in> set (y # g). msg_role x = \<rho> \<Longrightarrow> msg_role m \<noteq> \<rho> \<Longrightarrow>
   role_runs ((y # g) @ m # ms) = (y # g) # role_runs (m # ms)"
proof (induction g arbitrary: y)
  case Nil
  obtain h hs where h: "role_runs (m # ms) = (m # h) # hs"
    using role_runs_hd [of "m # ms"] by auto
  have "msg_role m \<noteq> msg_role y"
    using Nil.prems by simp
  from role_runs_new [OF h this] show ?case
    by (simp only: h append_Cons append_Nil)
next
  case (Cons z g)
  have "role_runs ((z # g) @ m # ms) = (z # g) # role_runs (m # ms)"
    by (rule Cons.IH) (use Cons.prems in simp_all)
  moreover have "msg_role z = msg_role y"
    using Cons.prems by simp
  ultimately show ?case
    by (simp only: append_Cons) (rule role_runs_join)
qed

lemma merge_run_snoc:
  "g \<noteq> [] \<Longrightarrow> merge_run (g @ [m]) =
     (merge_run g)\<lparr>content := merge_content (content (merge_run g)) (value_from_blocks (blocks m))\<rparr>"
  by (cases g) (simp_all add: merge_run_def)

lemma normalize_open_run:
  assumes "\<forall>m \<in> set ms. \<not> filtered m" "g \<noteq> []" "\<forall>m \<in> set g. msg_role m = \<rho>"
  shows "fold normalize_step ms (r @ [merge_run g]) = r @ map merge_run (role_runs (g @ ms))"
  using assms
proof (induction ms arbitrary: g r \<rho>)
  case Nil
  then show ?case using role_runs_run [of "hd g" "tl g" \<rho>] by simp
next
  case (Cons m ms)
  have role_g: "role (merge_run g) = \<rho>"
    using Cons.prems by (cases g) (simp_all add: merge_run_def)
  have nf: "\<not> filtered m" "\<forall>m \<in> set ms. \<not> filtered m"
    using Cons.prems(1) by simp_all
  show ?case
  proof (cases "msg_role m = \<rho>")
    case True
    have "normalize_step m (r @ [merge_run g]) = r @ [merge_run (g @ [m])]"
      using nf(1) role_g True by (simp add: normalize_step_def merge_run_snoc [OF Cons.prems(2)] api_of_def)
    moreover have "fold normalize_step ms (r @ [merge_run (g @ [m])])
        = r @ map merge_run (role_runs ((g @ [m]) @ ms))"
      by (rule Cons.IH [where \<rho> = \<rho>]) (use nf Cons.prems(3) True in auto)
    ultimately show ?thesis by simp
  next
    case False
    have "normalize_step m (r @ [merge_run g]) = (r @ [merge_run g]) @ [merge_run [m]]"
      using nf(1) role_g False by (auto simp: normalize_step_def api_of_def merge_run_def)
    moreover have "fold normalize_step ms ((r @ [merge_run g]) @ [merge_run [m]])
        = (r @ [merge_run g]) @ map merge_run (role_runs ([m] @ ms))"
      by (rule Cons.IH [where \<rho> = "msg_role m"]) (use nf in auto)
    moreover have "role_runs (g @ m # ms) = g # role_runs (m # ms)"
      using role_runs_split [of "hd g" "tl g" \<rho> m ms] Cons.prems(2,3) False by simp
    ultimately show ?thesis by simp
  qed
qed

lemma normalize_fold_runs:
  "fold normalize_step ms [] = map merge_run (role_runs (filter (Not \<circ> filtered) ms))"
proof (subst normalize_step_filtered, cases "filter (Not \<circ> filtered) ms")
  case Nil
  then show "fold normalize_step (filter (Not \<circ> filtered) ms) []
      = map merge_run (role_runs (filter (Not \<circ> filtered) ms))" by simp
next
  case (Cons m ms')
  have nf: "\<forall>x \<in> set (m # ms'). \<not> filtered x"
    by (simp only: Cons [symmetric]) simp
  have "fold normalize_step (m # ms') [] = fold normalize_step ms' ([] @ [merge_run [m]])"
    using nf by (simp add: normalize_step_def api_of_def merge_run_def)
  also have "\<dots> = [] @ map merge_run (role_runs ([m] @ ms'))"
    using nf by (intro normalize_open_run [where \<rho> = "msg_role m"]) auto
  finally show "fold normalize_step (filter (Not \<circ> filtered) ms) []
      = map merge_run (role_runs (filter (Not \<circ> filtered) ms))"
    by (simp only: Cons append_Nil append_Cons)
qed


section \<open>Lemmas on pairing\<close>

lemma vec_insert_at: "vec_insert (Suc (length ys), p) (ys @ x # xs) = ys @ x # p # xs"
  by (simp add: vec_insert_def)

lemma vec_insert_all:
  assumes f: "\<And>i m. f (i, m) = [] \<or> (\<exists>p. f (i, m) = [(i + 1, p)])"
  shows "fold vec_insert (rev (concat (map f (enumerate (length ys) xs)))) (ys @ xs)
       = ys @ concat (map (\<lambda>im. snd im # map snd (f im)) (enumerate (length ys) xs))"
proof (induction xs arbitrary: ys)
  case Nil
  then show ?case by simp
next
  case (Cons x xs)
  have "fold vec_insert (rev (concat (map f (enumerate (Suc (length ys)) xs)))) (ys @ x # xs)
      = ys @ x # concat (map (\<lambda>im. snd im # map snd (f im)) (enumerate (Suc (length ys)) xs))"
    using Cons.IH [of "ys @ [x]"] by simp
  then show ?case
    using f [of "length ys" x] by (auto simp: vec_insert_at)
qed

lemma lookup_fold:
  "map_of (tool_result_by_use_id (fold lookup_step ims l)) t = None \<longleftrightarrow>
   map_of (tool_result_by_use_id l) t = None \<and>
   (\<forall>im \<in> set ims. \<not> (msg_role (snd im) \<noteq> Assistant \<and> tool_use_id (snd im) = Some t))"
proof (induction ims arbitrary: l)
  case (Cons im ims)
  show ?case
    by (simp only: fold_simps Cons.IH)
      (auto simp: lookup_step_def im.get_ins split: option.splits)
qed simp

definition has_tool_result :: "internal_msg list \<Rightarrow> string \<Rightarrow> bool" where
  "has_tool_result ms t \<longleftrightarrow> list_ex (\<lambda>m. msg_role m \<noteq> Assistant \<and> tool_use_id m = Some t) ms"

lemma lookup_has_result:
  "map_of (tool_result_by_use_id (build_message_lookups ms)) t = None \<longleftrightarrow> \<not> has_tool_result ms t"
proof -
  have "set ms = snd ` set (enumerate 0 ms)"
    by (metis list.set_map map_snd_enumerate)
  then show ?thesis
    by (simp add: build_message_lookups_def lookup_fold has_tool_result_def list_ex_iff)
qed

text \<open>The one-pass reference: each unanswered tool call is followed by its placeholder.\<close>

definition repair_one :: "internal_msg list \<Rightarrow> internal_msg \<Rightarrow> internal_msg list" where
  "repair_one ms m =
     m # (case tool_use_id m of
            None \<Rightarrow> []
          | Some t \<Rightarrow> if msg_role m = Assistant \<and> \<not> has_tool_result ms t then [placeholder_for m t] else [])"

lemma placeholder_inserts_repair:
  "snd im # map snd (placeholder_inserts (build_message_lookups ms) im) = repair_one ms (snd im)"
  by (auto simp: placeholder_inserts_def repair_one_def lookup_has_result split: option.splits)

lemma concat_map_snd_enumerate: "concat (map (\<lambda>im. f (snd im)) (enumerate n xs)) = concat (map f xs)"
  by (induction xs arbitrary: n) simp_all

lemma placeholder_inserts_shape:
  "placeholder_inserts l (i, m) = [] \<or> (\<exists>p. placeholder_inserts l (i, m) = [(i + 1, p)])"
  by (simp add: placeholder_inserts_def split: option.split)

lemma pairing_one_pass: "ensure_tool_result_pairing ms = concat (map (repair_one ms) ms)"
proof -
  let ?l = "build_message_lookups ms"
  have "ensure_tool_result_pairing ms
      = concat (map (\<lambda>im. snd im # map snd (placeholder_inserts ?l im)) (enumerate 0 ms))"
    using vec_insert_all [of "placeholder_inserts ?l" "[]" ms, OF placeholder_inserts_shape]
    unfolding ensure_tool_result_pairing_def Let_def by (simp only: list.size append_Nil)
  also have "\<dots> = concat (map (repair_one ms) ms)"
    unfolding placeholder_inserts_repair by (rule concat_map_snd_enumerate)
  finally show ?thesis .
qed

lemma placeholder_simps [simp]:
  "msg_role (placeholder_for m t) = User" "tool_use_id (placeholder_for m t) = Some t"
  by (simp_all add: placeholder_for_def)

lemma in_repair_one:
  "x \<in> set (repair_one ms m) \<longleftrightarrow>
   x = m \<or> (\<exists>t. tool_use_id m = Some t \<and> msg_role m = Assistant \<and> \<not> has_tool_result ms t
              \<and> x = placeholder_for m t)"
  by (cases "tool_use_id m") (auto simp: repair_one_def)

lemma has_tool_result_mono: "set xs \<subseteq> set ys \<Longrightarrow> has_tool_result xs t \<Longrightarrow> has_tool_result ys t"
  by (auto simp: has_tool_result_def list_ex_iff)

definition all_paired :: "internal_msg list \<Rightarrow> bool" where
  "all_paired ms \<longleftrightarrow>
     list_all (\<lambda>m. msg_role m = Assistant \<longrightarrow>
       (case tool_use_id m of None \<Rightarrow> True | Some t \<Rightarrow> has_tool_result ms t)) ms"

lemma all_paired_repair: "all_paired ms \<Longrightarrow> ensure_tool_result_pairing ms = ms"
proof -
  assume "all_paired ms"
  then have "\<And>m. m \<in> set ms \<Longrightarrow> repair_one ms m = [m]"
    by (auto simp: all_paired_def list_all_iff repair_one_def split: option.splits)
  then have "concat (map (repair_one ms) ms) = concat (map (\<lambda>m. [m]) ms)"
    by (metis (mono_tags, lifting) map_eq_conv)
  then show ?thesis by (simp add: pairing_one_pass)
qed

lemma repair_all_paired: "all_paired (ensure_tool_result_pairing ms)"
proof -
  let ?r = "concat (map (repair_one ms) ms)"
  have sub: "set ms \<subseteq> set ?r"
    by (auto simp: in_repair_one)
  have "has_tool_result ?r t" if "m \<in> set ?r" "msg_role m = Assistant" "tool_use_id m = Some t" for m t
  proof (cases "has_tool_result ms t")
    case True
    then show ?thesis using sub by (rule has_tool_result_mono [rotated])
  next
    case False
    have "\<exists>m' \<in> set ms. m \<in> set (repair_one ms m')"
      using that(1) by (simp only: set_concat set_map UN_iff) blast
    then obtain m' where m': "m' \<in> set ms" "m \<in> set (repair_one ms m')"
      by (rule bexE)
    then have "m = m'"
      using that(2) by (auto simp: in_repair_one)
    then have "placeholder_for m t \<in> set ?r"
      using m' that False by (auto simp: in_repair_one)
    then show ?thesis
      by (force simp: has_tool_result_def list_ex_iff)
  qed
  then show ?thesis
    by (auto simp: all_paired_def list_all_iff pairing_one_pass split: option.splits)
qed


section \<open>Properties\<close>

text \<open>
  Wire round trip: \<open>blocks_from_value\<close> gives back exactly the blocks that \<open>value_from_blocks\<close>
  serialised, for every list of blocks, with any fallback id, provided a \<open>Json\<close> block does not itself
  carry one of the four reserved \<open>type\<close> tags.
\<close>
theorem wire_roundtrip:
  assumes "list_all plain_block bs"
  shows "blocks_from_value (value_from_blocks bs) fb = bs"
proof (cases rule: value_from_blocks_cases [of bs])
  case 2
  have "map (\<lambda>b. block_from_value (value_from_block b) fb) bs = bs"
    using assms by (intro map_idI) (auto simp: list_all_iff block_roundtrip)
  then show ?thesis
    using 2(2) by (simp add: comp_def)
qed simp

lemma wire_roundtrip_witness:
  "blocks_from_value
     (value_from_blocks [Text ''a'', ToolUse ''t'' ''ls'' JNull, ToolResult ''t'' (JString ''x'') True, Json (JNumber 3)])
     None = [Text ''a'', ToolUse ''t'' ''ls'' JNull, ToolResult ''t'' (JString ''x'') True, Json (JNumber 3)]"
  by (rule wire_roundtrip) (simp add: recognised_type_def)

text \<open>
  What the API receives: the incremental clean-up loop of \<open>normalize_messages_for_api\<close> computes the
  maximal runs of equal roles among the messages that are not filtered, merges each run into one
  message from left to right, and puts an empty user message in front when the first run is not the
  user's (or there is none).
\<close>
theorem normalize_equals_merged_runs:
  "normalize_messages_for_api ms =
     (let merged = map merge_run (role_runs (filter (Not \<circ> filtered) ms))
      in if merged \<noteq> [] \<and> role (hd merged) = User then merged
         else \<lparr>role = User, content = JString []\<rparr> # merged)"
  by (simp add: normalize_messages_for_api_def Let_def normalize_fold_runs split: list.split)

text \<open>
  The shape the provider demands: whatever the history, the normalised conversation is not empty,
  starts with the user, and no two neighbours have the same role.
\<close>
theorem normalize_alternates_from_user:
  "normalize_messages_for_api ms \<noteq> [] \<and> role (hd (normalize_messages_for_api ms)) = User
   \<and> roles_alternate (normalize_messages_for_api ms)"
proof -
  have "roles_alternate (fold normalize_step ms [])"
    by (rule normalizer.run_inv) (simp add: roles_alternate_def)
  then show ?thesis
    by (auto simp: normalize_messages_for_api_def Let_def roles_alternate_def split: list.splits)
qed

text \<open>
  Merging is lossy for tool results: when two visible neighbours of one role carry structured
  content (anything but a single text), the merged content is the two-element array of their arrays,
  and reading it back yields two opaque \<open>Json\<close> blocks and not one \<open>ToolResult\<close>.
\<close>
theorem merged_tool_results_become_opaque:
  assumes "\<not> filtered a" "\<not> filtered b" "msg_role a = User" "msg_role b = User"
    and "blocks a = [ToolResult i c e]" "blocks b = [ToolResult j d f]"
  shows "\<exists>m. normalize_messages_for_api [a, b] = [m] \<and>
    blocks_from_value (content m) fb =
      [Json (value_from_blocks (blocks a)), Json (value_from_blocks (blocks b))]"
  using assms
  by (simp add: normalize_messages_for_api_def normalize_step_def api_of_def block_from_value_def)

lemma merged_tool_results_become_opaque_witness:
  "\<exists>m. normalize_messages_for_api
     [\<lparr>msg_role = User, blocks = [ToolResult ''t1'' (JString ''ok'') False], message_id = ''m1'',
       tool_use_id = Some ''t1'', filtered = False, metadata = JNull\<rparr>,
      \<lparr>msg_role = User, blocks = [ToolResult ''t2'' (JString ''ok'') False], message_id = ''m2'',
       tool_use_id = Some ''t2'', filtered = False, metadata = JNull\<rparr>] = [m] \<and>
    blocks_from_value (content m) None =
      [Json (value_from_blocks [ToolResult ''t1'' (JString ''ok'') False]),
       Json (value_from_blocks [ToolResult ''t2'' (JString ''ok'') False])]"
  using merged_tool_results_become_opaque
    [of "\<lparr>msg_role = User, blocks = [ToolResult ''t1'' (JString ''ok'') False], message_id = ''m1'',
          tool_use_id = Some ''t1'', filtered = False, metadata = JNull\<rparr>"
        "\<lparr>msg_role = User, blocks = [ToolResult ''t2'' (JString ''ok'') False], message_id = ''m2'',
          tool_use_id = Some ''t2'', filtered = False, metadata = JNull\<rparr>"
        "''t1''" "JString ''ok''" False "''t2''" "JString ''ok''" False None]
  by simp

text \<open>
  Pairing repair: the two-phase algorithm (collect positions, insert from the back) equals the
  one-pass reference that puts a placeholder right behind every unanswered tool call; afterwards every
  assistant message with a tool id is answered, and a second run changes nothing.
\<close>
theorem pairing_repair:
  "ensure_tool_result_pairing ms = concat (map (repair_one ms) ms)
   \<and> all_paired (ensure_tool_result_pairing ms)
   \<and> ensure_tool_result_pairing (ensure_tool_result_pairing ms) = ensure_tool_result_pairing ms"
  using pairing_one_pass repair_all_paired all_paired_repair [OF repair_all_paired] by blast

end
