(* ===== verification/Compaction.thy ===== *)
theory Compaction
  imports Complex_Main Messages
begin

text \<open>
  Automatic compaction of the conversation (\<open>messages/compact.rs\<close>).  The token estimate of a message
  depends on the length of its serialised content, so every operation takes the serialiser
  \<open>json_text\<close>; no law of it is needed.  The threshold \<open>context_window * threshold_ratio\<close> is computed
  exactly on the rationals (the code rounds in \<open>f64\<close> before it truncates).
\<close>

type_synonym serializer = "json \<Rightarrow> string"

record compact_config =
  context_window :: nat
  threshold_ratio :: rat
  buffer_tokens :: nat
  preserve_recent_turns :: nat

definition default_compact_config :: compact_config where
  "default_compact_config =
     \<lparr>context_window = 200000, threshold_ratio = 87 / 100, buffer_tokens = 13000,
      preserve_recent_turns = 1\<rparr>"

record compact_result =
  did_compact :: bool
  tokens_before :: nat
  tokens_after :: nat
  cleared_tokens :: nat
  filtered_tokens :: nat

definition estimate_msg_tokens :: "serializer \<Rightarrow> internal_msg \<Rightarrow> nat" where
  "estimate_msg_tokens json_text m = length (json_text (value_from_blocks (blocks m))) div 4 + 20"

definition estimate_total_tokens :: "serializer \<Rightarrow> internal_msg list \<Rightarrow> nat" where
  "estimate_total_tokens json_text ms =
     sum_list (map (estimate_msg_tokens json_text) (filter (\<lambda>m. \<not> filtered m) ms))"

definition is_tool_result_msg :: "internal_msg \<Rightarrow> bool" where
  "is_tool_result_msg m \<longleftrightarrow> msg_role m = User \<and> tool_use_id m \<noteq> None"


section \<open>The protected turns\<close>

text \<open>The inner loop walks back over trailing tool results, but never below index 0.\<close>

fun skip_results :: "internal_msg list \<Rightarrow> nat \<Rightarrow> nat" where
  "skip_results ms 0 = 0"
| "skip_results ms (Suc i) =
     (if is_tool_result_msg (ms ! Suc i) then skip_results ms i else Suc i)"

lemma skip_results_le: "skip_results ms i \<le> i"
  by (induction ms i rule: skip_results.induct) auto

function boundary_loop :: "internal_msg list \<Rightarrow> nat \<Rightarrow> nat \<Rightarrow> nat \<Rightarrow> nat" where
  "boundary_loop ms preserve found 0 = 0"
| "boundary_loop ms preserve found (Suc i) =
     (let j = skip_results ms i in
      if msg_role (ms ! j) = Assistant then
        (if preserve \<le> found + 1 then j else boundary_loop ms preserve (found + 1) j)
      else boundary_loop ms preserve found j)"
  by pat_completeness auto
termination
  by (relation "measure (\<lambda>(ms, p, f, i). i)") (auto simp: skip_results_le le_imp_less_Suc)

definition find_recent_turn_boundary :: "internal_msg list \<Rightarrow> nat \<Rightarrow> nat" where
  "find_recent_turn_boundary ms preserve =
     (if ms = [] \<or> preserve = 0 then length ms else boundary_loop ms preserve 0 (length ms))"


section \<open>Phase one: clearing old tool results\<close>

definition clear_one :: "serializer \<Rightarrow> internal_msg \<Rightarrow> internal_msg \<times> nat" where
  "clear_one json_text m =
     (if msg_role m \<noteq> User \<or> tool_use_id m = None \<or> filtered m
         \<or> json_get ''compacted'' (metadata m) \<noteq> None
      then (m, 0)
      else
        let original = estimate_msg_tokens json_text m;
            i = unwrap_or [] (tool_use_id m);
            m' = m\<lparr>blocks := [ToolResult i (JString (''[cleared: '' @ dec original @ '' tokens]'')) False],
                   metadata := JObject [(''compacted'', JBool True), (''original_tokens'', JNumber (int original))]\<rparr>;
            new = estimate_msg_tokens json_text m'
        in (m', if new < original then original - new else 0))"

definition clear_old_tool_results ::
  "serializer \<Rightarrow> internal_msg list \<Rightarrow> nat \<Rightarrow> internal_msg list \<times> nat" where
  "clear_old_tool_results json_text ms boundary =
     (let e = min boundary (length ms);
          rs = map (clear_one json_text) (take e ms)
      in (map fst rs @ drop e ms, sum_list (map snd rs)))"


section \<open>Phase two: filtering the oldest messages\<close>

type_synonym filter_state = "internal_msg list \<times> nat"

definition mark_filtered :: "serializer \<Rightarrow> nat \<Rightarrow> filter_state \<Rightarrow> filter_state" where
  "mark_filtered json_text i st =
     ((fst st)[i := (fst st ! i)\<lparr>filtered := True\<rparr>], snd st + estimate_msg_tokens json_text (fst st ! i))"

function filter_results :: "serializer \<Rightarrow> nat \<Rightarrow> nat \<Rightarrow> filter_state \<Rightarrow> filter_state \<times> nat" where
  "filter_results json_text e j st =
     (if j < e \<and> is_tool_result_msg (fst st ! j) then
        filter_results json_text e (Suc j)
          (if filtered (fst st ! j) then st else mark_filtered json_text j st)
      else (st, j))"
  by pat_completeness auto
termination
  by (relation "measure (\<lambda>(t, e, j, st). e - j)") auto

declare filter_results.simps [simp del]

lemma filter_results_ge: "filter_results json_text e j st = (st', j') \<Longrightarrow> j \<le> j'"
proof (induction json_text e j st rule: filter_results.induct)
  case (1 json_text e j st)
  show ?case
  proof (cases "j < e \<and> is_tool_result_msg (fst st ! j)")
    case True
    then show ?thesis
      using 1(1) [OF True] 1(2) filter_results.simps [of json_text e j st] by (metis Suc_leD)
  next
    case False
    then show ?thesis
      using 1(2) filter_results.simps [of json_text e j st] by (simp only: if_False prod.inject)
  qed
qed

function filter_loop :: "serializer \<Rightarrow> nat \<Rightarrow> nat \<Rightarrow> nat \<Rightarrow> filter_state \<Rightarrow> filter_state" where
  "filter_loop json_text e target i st =
     (if i < e \<and> snd st < target then
        if filtered (fst st ! i) then filter_loop json_text e target (Suc i) st
        else if msg_role (fst st ! i) = Assistant then
          (case filter_results json_text e (Suc i) (mark_filtered json_text i st) of
             (st', j) \<Rightarrow> filter_loop json_text e target j st')
        else filter_loop json_text e target (Suc i) (mark_filtered json_text i st)
      else st)"
  by pat_completeness auto
termination
  by (relation "measure (\<lambda>(t, e, target, i, st). e - i)")
    (auto dest!: filter_results_ge [OF sym])

declare filter_loop.simps [simp del]

definition filter_oldest_messages ::
  "serializer \<Rightarrow> internal_msg list \<Rightarrow> nat \<Rightarrow> nat \<Rightarrow> internal_msg list \<times> nat" where
  "filter_oldest_messages json_text ms boundary target =
     filter_loop json_text (min boundary (length ms)) target 1 (ms, 0)"


section \<open>Entry point\<close>

definition compact_threshold :: "compact_config \<Rightarrow> nat" where
  "compact_threshold config = nat \<lfloor>of_nat (context_window config) * threshold_ratio config\<rfloor>"

definition compact_if_needed ::
  "serializer \<Rightarrow> internal_msg list \<Rightarrow> compact_config \<Rightarrow> internal_msg list \<times> compact_result" where
  "compact_if_needed json_text ms config =
     (let total = estimate_total_tokens json_text ms;
          threshold = compact_threshold config
      in if total < threshold then
           (ms, \<lparr>did_compact = False, tokens_before = total, tokens_after = total,
                 cleared_tokens = 0, filtered_tokens = 0\<rparr>)
         else
           let safe_target = saturating_sub threshold (buffer_tokens config);
               need_to_free = saturating_sub total safe_target;
               boundary = find_recent_turn_boundary ms (preserve_recent_turns config);
               (ms1, cleared) = clear_old_tool_results json_text ms boundary;
               after_phase1 = estimate_total_tokens json_text ms1
           in if after_phase1 < threshold then
                (ms1, \<lparr>did_compact = True, tokens_before = total, tokens_after = after_phase1,
                       cleared_tokens = cleared, filtered_tokens = 0\<rparr>)
              else
                let remaining = saturating_sub need_to_free cleared;
                    (ms2, freed) = filter_oldest_messages json_text ms1 boundary remaining
                in (ms2, \<lparr>did_compact = True, tokens_before = total,
                          tokens_after = estimate_total_tokens json_text ms2,
                          cleared_tokens = cleared, filtered_tokens = freed\<rparr>))"


section \<open>Lemmas: what filtering may change\<close>

text \<open>
  The relation between the states before and after a part of the loop: only messages of the window
  \<open>[i, e)\<close> that were visible may have become filtered, nothing else of them changed, and the counter
  grew by exactly what the visible total lost.
\<close>

definition filter_rel :: "serializer \<Rightarrow> nat \<Rightarrow> nat \<Rightarrow> filter_state \<Rightarrow> filter_state \<Rightarrow> bool" where
  "filter_rel json_text i e st st' \<longleftrightarrow>
     length (fst st') = length (fst st) \<and>
     estimate_total_tokens json_text (fst st') + snd st' = estimate_total_tokens json_text (fst st) + snd st \<and>
     (\<forall>k < length (fst st). fst st' ! k = fst st ! k \<or>
        i \<le> k \<and> k < e \<and> \<not> filtered (fst st ! k) \<and> fst st' ! k = (fst st ! k)\<lparr>filtered := True\<rparr>)"

lemma filter_rel_refl [simp]: "filter_rel json_text i e st st"
  by (simp add: filter_rel_def)

lemma filter_rel_trans:
  assumes "filter_rel t i e st st'" "filter_rel t j e st' st''" "i \<le> j"
  shows "filter_rel t i e st st''"
  unfolding filter_rel_def
proof (intro conjI allI impI)
  fix k assume k: "k < length (fst st)"
  have 1: "fst st' ! k = fst st ! k \<or>
      i \<le> k \<and> k < e \<and> \<not> filtered (fst st ! k) \<and> fst st' ! k = (fst st ! k)\<lparr>filtered := True\<rparr>"
    using assms(1) k by (simp add: filter_rel_def)
  have 2: "fst st'' ! k = fst st' ! k \<or>
      j \<le> k \<and> k < e \<and> \<not> filtered (fst st' ! k) \<and> fst st'' ! k = (fst st' ! k)\<lparr>filtered := True\<rparr>"
    using assms(1,2) k by (simp add: filter_rel_def)
  show "fst st'' ! k = fst st ! k \<or>
      i \<le> k \<and> k < e \<and> \<not> filtered (fst st ! k) \<and> fst st'' ! k = (fst st ! k)\<lparr>filtered := True\<rparr>"
    using 1 2 assms(3) by (elim disjE) auto
qed (use assms in \<open>simp_all add: filter_rel_def\<close>)

lemma mark_total:
  "i < length ms \<Longrightarrow> \<not> filtered (ms ! i) \<Longrightarrow>
   estimate_total_tokens t (ms[i := (ms ! i)\<lparr>filtered := True\<rparr>]) + estimate_msg_tokens t (ms ! i)
     = estimate_total_tokens t ms"
proof (induction ms arbitrary: i)
  case (Cons m ms)
  then show ?case
    by (cases i) (auto simp: estimate_total_tokens_def)
qed simp

lemma filter_rel_mark:
  "i < e \<Longrightarrow> e \<le> length (fst st) \<Longrightarrow> \<not> filtered (fst st ! i) \<Longrightarrow> filter_rel t i e st (mark_filtered t i st)"
  using mark_total [of i "fst st" t] by (auto simp: filter_rel_def mark_filtered_def nth_list_update)

lemma filter_rel_length: "filter_rel t i e st st' \<Longrightarrow> length (fst st') = length (fst st)"
  by (simp add: filter_rel_def)

lemma filter_rel_filtered:
  "filter_rel t i e st st' \<Longrightarrow> k < length (fst st) \<Longrightarrow> filtered (fst st ! k) \<Longrightarrow> filtered (fst st' ! k)"
  by (auto simp: filter_rel_def)

lemma filter_rel_same:
  "filter_rel t i e st st' \<Longrightarrow> k < length (fst st) \<Longrightarrow>
   msg_role (fst st' ! k) = msg_role (fst st ! k) \<and> is_tool_result_msg (fst st' ! k) = is_tool_result_msg (fst st ! k)"
  by (auto simp: filter_rel_def is_tool_result_msg_def)

lemma filter_rel_below: "filter_rel t i e st st' \<Longrightarrow> k < length (fst st) \<Longrightarrow> k < i \<Longrightarrow> fst st' ! k = fst st ! k"
  by (auto simp: filter_rel_def)

lemma filter_results_rel:
  "filter_results t e j st = (st', j') \<Longrightarrow> e \<le> length (fst st) \<Longrightarrow>
   filter_rel t j e st st' \<and> (\<forall>k. j \<le> k \<and> k < j' \<longrightarrow> filtered (fst st' ! k) \<and> is_tool_result_msg (fst st ! k))
   \<and> (j' < e \<longrightarrow> \<not> is_tool_result_msg (fst st ! j')) \<and> j' \<le> max j e"
proof (induction t e j st rule: filter_results.induct)
  case (1 t e j st)
  show ?case
  proof (cases "j < e \<and> is_tool_result_msg (fst st ! j)")
    case False
    then show ?thesis
      using 1(2) filter_results.simps [of t e j st] by auto
  next
    case True
    define st1 where "st1 = (if filtered (fst st ! j) then st else mark_filtered t j st)"
    have r1: "filter_rel t j e st st1"
      using True 1(3) filter_rel_mark [of j e st t] by (simp add: st1_def)
    have f1: "filtered (fst st1 ! j)"
      using True 1(3) by (simp add: st1_def mark_filtered_def)
    have rec: "filter_results t e (Suc j) st1 = (st', j')"
      using True 1(2) filter_results.simps [of t e j st] by (simp add: st1_def)
    have len: "e \<le> length (fst st1)"
      using r1 1(3) by (simp add: filter_rel_def)
    have ih: "filter_rel t (Suc j) e st1 st'"
      "\<forall>k. Suc j \<le> k \<and> k < j' \<longrightarrow> filtered (fst st' ! k) \<and> is_tool_result_msg (fst st1 ! k)"
      "j' < e \<longrightarrow> \<not> is_tool_result_msg (fst st1 ! j')" "j' \<le> max (Suc j) e"
      using 1(1) [OF True] rec len by (auto simp: st1_def)
    have same: "k < length (fst st) \<Longrightarrow> is_tool_result_msg (fst st1 ! k) = is_tool_result_msg (fst st ! k)" for k
      using filter_rel_same [OF r1] by blast
    have fj: "filtered (fst st' ! j)"
      using filter_rel_filtered [OF ih(1) _ f1] True len by simp
    have rel: "filter_rel t j e st st'"
      by (rule filter_rel_trans [OF r1 ih(1)]) simp
    have mid: "filtered (fst st' ! k) \<and> is_tool_result_msg (fst st ! k)" if "j \<le> k" "k < j'" for k
    proof (cases "k = j")
      case True
      then show ?thesis using fj \<open>j < e \<and> is_tool_result_msg (fst st ! j)\<close> by simp
    next
      case False
      then have "Suc j \<le> k" "k < length (fst st)"
        using that ih(4) \<open>j < e \<and> is_tool_result_msg (fst st ! j)\<close> 1(3) by auto
      then show ?thesis using ih(2) same that by blast
    qed
    show ?thesis
      using rel mid ih(3,4) same True 1(3) by auto
  qed
qed

lemma filter_loop_rel:
  "e \<le> length (fst st) \<Longrightarrow> filter_rel t i e st (filter_loop t e target i st)"
proof (induction t e target i st rule: filter_loop.induct)
  case (1 t e target i st)
  show ?case
  proof (cases "i < e \<and> snd st < target")
    case False
    then show ?thesis by (subst filter_loop.simps) auto
  next
    case go: True
    consider "filtered (fst st ! i)" | "\<not> filtered (fst st ! i)" "msg_role (fst st ! i) = Assistant"
      | "\<not> filtered (fst st ! i)" "msg_role (fst st ! i) \<noteq> Assistant" by blast
    then show ?thesis
    proof cases
      case 1
      have "filter_rel t (Suc i) e st (filter_loop t e target (Suc i) st)"
        using "1.IH"(1) [OF go 1] "1.prems" by simp
      then have "filter_rel t i e st (filter_loop t e target (Suc i) st)"
        using filter_rel_trans [OF filter_rel_refl] by (meson le_SucI order_refl)
      then show ?thesis
        using go 1 by (subst filter_loop.simps) simp
    next
      case 2
      let ?st1 = "mark_filtered t i st"
      obtain st' j where fr: "filter_results t e (Suc i) ?st1 = (st', j)"
        by (cases "filter_results t e (Suc i) ?st1")
      have r1: "filter_rel t i e st ?st1"
        using go 2 "1.prems" by (intro filter_rel_mark) auto
      have r2: "filter_rel t (Suc i) e ?st1 st'"
        using filter_results_rel [OF fr] filter_rel_length [OF r1] "1.prems" by simp
      have r12: "filter_rel t i e st st'"
        by (rule filter_rel_trans [OF r1 r2]) simp
      have r3: "filter_rel t j e st' (filter_loop t e target j st')"
        using "1.IH"(2) [OF go 2 fr [symmetric]] filter_rel_length [OF r12] "1.prems" by simp
      have "filter_rel t i e st (filter_loop t e target j st')"
        using filter_results_ge [OF fr] by (intro filter_rel_trans [OF r12 r3]) simp
      then show ?thesis
        using go 2 fr by (subst filter_loop.simps) simp
    next
      case 3
      let ?st1 = "mark_filtered t i st"
      have r1: "filter_rel t i e st ?st1"
        using go 3 "1.prems" by (intro filter_rel_mark) auto
      have r2: "filter_rel t (Suc i) e ?st1 (filter_loop t e target (Suc i) ?st1)"
        using "1.IH"(3) [OF go 3] filter_rel_length [OF r1] "1.prems" by simp
      have "filter_rel t i e st (filter_loop t e target (Suc i) ?st1)"
        by (rule filter_rel_trans [OF r1 r2]) simp
      then show ?thesis
        using go 3 by (subst filter_loop.simps) simp
    qed
  qed
qed

lemma filter_loop_covers:
  "e \<le> length (fst st) \<Longrightarrow>
   target \<le> snd (filter_loop t e target i st) \<or> (\<forall>k. i \<le> k \<and> k < e \<longrightarrow> filtered (fst (filter_loop t e target i st) ! k))"
proof (induction t e target i st rule: filter_loop.induct)
  case (1 t e target i st)
  have later: "filtered (fst (filter_loop t e target j st') ! k)"
    if "filtered (fst st' ! k)" "k < e" "e \<le> length (fst st')" for j st' k
    using filter_rel_filtered [OF filter_loop_rel [OF that(3)]] that by simp
  show ?case
  proof (cases "i < e \<and> snd st < target")
    case False
    then show ?thesis by (subst (1 2) filter_loop.simps) auto
  next
    case go: True
    have split_i: "(\<forall>k. i \<le> k \<and> k < e \<longrightarrow> P k) \<longleftrightarrow> (\<forall>k. i \<le> k \<and> k < j \<and> k < e \<longrightarrow> P k) \<and> (\<forall>k. j \<le> k \<and> k < e \<longrightarrow> P k)"
      if "i \<le> j" for j and P :: "nat \<Rightarrow> bool"
      using that by (meson le_trans not_le)
    have mlen: "e \<le> length (fst (mark_filtered t i st))"
      using "1.prems" by (simp add: mark_filtered_def)
    have mi: "filtered (fst (mark_filtered t i st) ! i)"
      using go "1.prems" by (simp add: mark_filtered_def)
    consider "filtered (fst st ! i)" | "\<not> filtered (fst st ! i)" "msg_role (fst st ! i) = Assistant"
      | "\<not> filtered (fst st ! i)" "msg_role (fst st ! i) \<noteq> Assistant" by blast
    then show ?thesis
    proof cases
      case 1
      have "filter_loop t e target i st = filter_loop t e target (Suc i) st"
        using go 1 by (subst filter_loop.simps) simp
      then show ?thesis
        using "1.IH"(1) [OF go 1 "1.prems"] later [of st i] go 1 "1.prems"
        by (auto simp: split_i [of "Suc i"] less_Suc_eq)
    next
      case 2
      obtain st' j where fr: "filter_results t e (Suc i) (mark_filtered t i st) = (st', j)"
        by (cases "filter_results t e (Suc i) (mark_filtered t i st)")
      note r = filter_results_rel [OF fr mlen]
      have len: "e \<le> length (fst st')"
        using r mlen by (simp add: filter_rel_def)
      have "filtered (fst st' ! k)" if "i \<le> k" "k < j" "k < e" for k
        using r that mi filter_rel_filtered [of t "Suc i" e "mark_filtered t i st" st' i] mlen
        by (cases "k = i") auto
      then have "\<forall>k. i \<le> k \<and> k < j \<and> k < e \<longrightarrow> filtered (fst (filter_loop t e target j st') ! k)"
        using later len by blast
      moreover have "filter_loop t e target i st = filter_loop t e target j st'"
        using go 2 fr by (subst filter_loop.simps) simp
      moreover have "i \<le> j"
        using filter_results_ge [OF fr] by simp
      ultimately show ?thesis
        using "1.IH"(2) [OF go 2 fr [symmetric] len] by (simp add: split_i [of j])
    next
      case 3
      have "filter_loop t e target i st = filter_loop t e target (Suc i) (mark_filtered t i st)"
        using go 3 by (subst filter_loop.simps) simp
      then show ?thesis
        using "1.IH"(3) [OF go 3 mlen] later [OF mi _ mlen] go
        by (auto simp: split_i [of "Suc i"] less_Suc_eq)
    qed
  qed
qed

lemma filter_results_above:
  "filter_results t e j st = (st', j') \<Longrightarrow> j' \<le> k \<Longrightarrow> fst st' ! k = fst st ! k"
proof (induction t e j st rule: filter_results.induct)
  case (1 t e j st)
  define st1 where "st1 = (if filtered (fst st ! j) then st else mark_filtered t j st)"
  show ?case
  proof (cases "j < e \<and> is_tool_result_msg (fst st ! j)")
    case True
    then have rec: "filter_results t e (Suc j) st1 = (st', j')"
      using 1(2) filter_results.simps [of t e j st] by (simp add: st1_def)
    then have "fst st' ! k = fst st1 ! k"
      using 1(1) [OF True] 1(3) by (simp only: st1_def)
    moreover have "k \<noteq> j"
      using filter_results_ge [OF rec] 1(3) by simp
    ultimately show ?thesis
      by (simp add: st1_def mark_filtered_def)
  qed (use 1(2) filter_results.simps [of t e j st] in auto)
qed

text \<open>A removed assistant message takes its whole group of tool results with it.\<close>

definition group_closed :: "nat \<Rightarrow> nat \<Rightarrow> internal_msg list \<Rightarrow> internal_msg list \<Rightarrow> bool" where
  "group_closed i e ms ms' \<longleftrightarrow>
     (\<forall>a k. i \<le> a \<and> a < k \<and> k < e \<and> msg_role (ms ! a) = Assistant \<and> \<not> filtered (ms ! a) \<and>
        filtered (ms' ! a) \<and> (\<forall>x. a < x \<and> x \<le> k \<longrightarrow> is_tool_result_msg (ms ! x)) \<longrightarrow> filtered (ms' ! k))"

lemma group_closed_later:
  assumes "group_closed j e ms1 ms'" "i \<le> j"
    and "\<And>k. k < e \<Longrightarrow> msg_role (ms1 ! k) = msg_role (ms ! k) \<and> is_tool_result_msg (ms1 ! k) = is_tool_result_msg (ms ! k)"
    and "\<And>k. j \<le> k \<Longrightarrow> k < e \<Longrightarrow> filtered (ms1 ! k) = filtered (ms ! k)"
    and "\<And>a k. i \<le> a \<Longrightarrow> a < j \<Longrightarrow> a < k \<Longrightarrow> k < e \<Longrightarrow> msg_role (ms ! a) = Assistant \<Longrightarrow> \<not> filtered (ms ! a) \<Longrightarrow>
           (\<forall>x. a < x \<and> x \<le> k \<longrightarrow> is_tool_result_msg (ms ! x)) \<Longrightarrow> filtered (ms' ! k)"
  shows "group_closed i e ms ms'"
  unfolding group_closed_def
proof (intro allI impI, elim conjE)
  fix a k
  assume a: "i \<le> a" "a < k" "k < e" "msg_role (ms ! a) = Assistant" "\<not> filtered (ms ! a)"
    "filtered (ms' ! a)" "\<forall>x. a < x \<and> x \<le> k \<longrightarrow> is_tool_result_msg (ms ! x)"
  show "filtered (ms' ! k)"
  proof (cases "a < j")
    case True
    then show ?thesis using assms(5) a by blast
  next
    case False
    have "msg_role (ms1 ! a) = Assistant" "\<not> filtered (ms1 ! a)"
      using a False assms(3) [of a] assms(4) [of a] by auto
    moreover have "\<forall>x. a < x \<and> x \<le> k \<longrightarrow> is_tool_result_msg (ms1 ! x)"
      using a assms(3) by (meson le_less_trans)
    ultimately show ?thesis
      using assms(1) a False unfolding group_closed_def by (meson not_less)
  qed
qed

lemma filter_loop_groups:
  "e \<le> length (fst st) \<Longrightarrow> group_closed i e (fst st) (fst (filter_loop t e target i st))"
proof (induction t e target i st rule: filter_loop.induct)
  case (1 t e target i st)
  have mlen: "e \<le> length (fst (mark_filtered t i st))"
    using "1.prems" by (simp add: mark_filtered_def)
  have msame: "msg_role (fst (mark_filtered t i st) ! k) = msg_role (fst st ! k)"
    "is_tool_result_msg (fst (mark_filtered t i st) ! k) = is_tool_result_msg (fst st ! k)" for k
    by (cases "k = i \<and> i < length (fst st)";
        auto simp: mark_filtered_def is_tool_result_msg_def list_update_beyond)+
  have moth: "k \<noteq> i \<Longrightarrow> fst (mark_filtered t i st) ! k = fst st ! k" for k
    by (simp add: mark_filtered_def)
  show ?case
  proof (cases "i < e \<and> snd st < target")
    case False
    then show ?thesis by (subst filter_loop.simps) (auto simp: group_closed_def)
  next
    case go: True
    consider "filtered (fst st ! i)" | "\<not> filtered (fst st ! i)" "msg_role (fst st ! i) = Assistant"
      | "\<not> filtered (fst st ! i)" "msg_role (fst st ! i) \<noteq> Assistant" by blast
    then show ?thesis
    proof cases
      case 1
      have eq: "filter_loop t e target i st = filter_loop t e target (Suc i) st"
        using go 1 by (subst filter_loop.simps) simp
      show ?thesis
        unfolding eq
        by (rule group_closed_later [OF "1.IH"(1) [OF go 1 "1.prems"]])
          (use 1 in \<open>auto simp: less_Suc_eq\<close>)
    next
      case 2
      obtain st' j where fr: "filter_results t e (Suc i) (mark_filtered t i st) = (st', j)"
        by (cases "filter_results t e (Suc i) (mark_filtered t i st)")
      note r = filter_results_rel [OF fr mlen]
      have len: "e \<le> length (fst st')"
        using r mlen by (simp add: filter_rel_def)
      have eq: "filter_loop t e target i st = filter_loop t e target j st'"
        using go 2 fr by (subst filter_loop.simps) simp
      have j: "Suc i \<le> j"
        by (rule filter_results_ge [OF fr])
      have group: "filtered (fst (filter_loop t e target j st') ! k)"
        if k: "i \<le> a" "a < j" "a < k" "k < e" "msg_role (fst st ! a) = Assistant"
          "\<forall>x. a < x \<and> x \<le> k \<longrightarrow> is_tool_result_msg (fst st ! x)" for a k
      proof -
        have "a = i"
        proof (rule ccontr)
          assume "a \<noteq> i"
          then have "is_tool_result_msg (fst st ! a)"
            using r k(1,2) msame(2) by auto
          then show False using k(5) by (simp add: is_tool_result_msg_def)
        qed
        then have "k < j"
          using r k msame(2) j by (metis Suc_le_lessD le_less_trans not_le)
        then have "filtered (fst st' ! k)"
          using r k(3) \<open>a = i\<close> by simp
        then show ?thesis
          using filter_rel_filtered [OF filter_loop_rel [OF len]] len k(4) by simp
      qed
      have same: "msg_role (fst st' ! k) = msg_role (fst st ! k) \<and>
          is_tool_result_msg (fst st' ! k) = is_tool_result_msg (fst st ! k)" if "k < e" for k
        using filter_rel_same [of t "Suc i" e "mark_filtered t i st" st' k] r that mlen msame by simp
      have above: "filtered (fst st' ! k) = filtered (fst st ! k)" if "j \<le> k" for k
        using filter_results_above [OF fr that] moth [of k] that j by simp
      show ?thesis
        unfolding eq
        by (rule group_closed_later [OF "1.IH"(2) [OF go 2 fr [symmetric] len]])
          (use j same above group in auto)
    next
      case 3
      have eq: "filter_loop t e target i st = filter_loop t e target (Suc i) (mark_filtered t i st)"
        using go 3 by (subst filter_loop.simps) simp
      show ?thesis
        unfolding eq
        by (rule group_closed_later [OF "1.IH"(3) [OF go 3 mlen]])
          (use 3 msame moth in \<open>auto simp: less_Suc_eq\<close>)
    qed
  qed
qed


section \<open>Lemmas: clearing and the entry point\<close>

text \<open>
  Replacing a small result by its note may enlarge it.  The growth is what the estimate gains there;
  the code does not see it.
\<close>

definition clear_growth :: "serializer \<Rightarrow> internal_msg list \<Rightarrow> nat \<Rightarrow> nat" where
  "clear_growth t ms boundary =
     sum_list (map (\<lambda>m. estimate_msg_tokens t (fst (clear_one t m)) - estimate_msg_tokens t m)
       (take (min boundary (length ms)) ms))"

lemma total_append: "estimate_total_tokens t (xs @ ys) = estimate_total_tokens t xs + estimate_total_tokens t ys"
  by (simp add: estimate_total_tokens_def)

lemma clear_one_account:
  "estimate_total_tokens t [fst (clear_one t m)] + snd (clear_one t m)
     = estimate_total_tokens t [m] + (estimate_msg_tokens t (fst (clear_one t m)) - estimate_msg_tokens t m)"
  by (simp add: clear_one_def Let_def estimate_total_tokens_def)

lemma clear_list_account:
  "estimate_total_tokens t (map (fst \<circ> clear_one t) ms) + sum_list (map (snd \<circ> clear_one t) ms)
     = estimate_total_tokens t ms
       + sum_list (map (\<lambda>m. estimate_msg_tokens t (fst (clear_one t m)) - estimate_msg_tokens t m) ms)"
proof (induction ms)
  case (Cons m ms)
  show ?case
    using Cons clear_one_account [of t m] total_append [of t "[m]" ms]
      total_append [of t "[fst (clear_one t m)]" "map (fst \<circ> clear_one t) ms"]
    by (simp add: comp_def)
qed (simp add: estimate_total_tokens_def)

lemma clear_account:
  "clear_old_tool_results t ms b = (ms1, cleared) \<Longrightarrow>
   estimate_total_tokens t ms1 + cleared = estimate_total_tokens t ms + clear_growth t ms b"
  using clear_list_account [of t "take (min b (length ms)) ms"]
    total_append [of t "take (min b (length ms)) ms" "drop (min b (length ms)) ms"]
  by (auto simp: clear_old_tool_results_def Let_def clear_growth_def total_append comp_def)

lemma clear_length: "clear_old_tool_results t ms b = (ms1, c) \<Longrightarrow> length ms1 = length ms"
  by (auto simp: clear_old_tool_results_def Let_def)

lemma clear_nth:
  "clear_old_tool_results t ms b = (ms1, c) \<Longrightarrow> k < length ms \<Longrightarrow>
   ms1 ! k = (if k < b then fst (clear_one t (ms ! k)) else ms ! k)"
  by (auto simp: clear_old_tool_results_def Let_def nth_append)

lemma clear_one_filtered [simp]: "filtered (fst (clear_one t m)) = filtered m"
  by (simp add: clear_one_def Let_def)

lemma filter_oldest_rel:
  "filter_oldest_messages t ms b target = (ms', freed) \<Longrightarrow>
   filter_rel t 1 (min b (length ms)) (ms, 0) (ms', freed)"
  using filter_loop_rel [of "min b (length ms)" "(ms, 0)" t 1 target]
  by (simp add: filter_oldest_messages_def)

lemma filter_oldest_covers:
  "filter_oldest_messages t ms b target = (ms', freed) \<Longrightarrow>
   target \<le> freed \<or> (\<forall>k. 1 \<le> k \<and> k < min b (length ms) \<longrightarrow> filtered (ms' ! k))"
  using filter_loop_covers [of "min b (length ms)" "(ms, 0)" target t 1]
  by (simp add: filter_oldest_messages_def)

lemma filter_oldest_groups:
  "filter_oldest_messages t ms b target = (ms', freed) \<Longrightarrow> group_closed 1 (min b (length ms)) ms ms'"
  using filter_loop_groups [of "min b (length ms)" "(ms, 0)" 1 t target]
  by (simp add: filter_oldest_messages_def)

lemma boundary_loop_assistant:
  "boundary_loop ms p found i = j \<Longrightarrow> j \<le> i \<and> (0 < j \<longrightarrow> msg_role (ms ! j) = Assistant)"
proof (induction ms p found i rule: boundary_loop.induct)
  case (2 ms p found i)
  show ?case
    using 2 skip_results_le [of ms i] by (auto simp: Let_def split: if_splits)
qed simp


section \<open>Properties\<close>

text \<open>
  C20. Phase two is exact and atomic: the reported number of freed tokens is precisely what the visible
  estimate lost; message 0 and everything from the boundary on are untouched, and a message in between
  is either unchanged or newly filtered; the loop stops only with the target reached or everything in
  the window filtered; and a removed assistant message takes all its tool results with it.
\<close>
theorem filter_oldest_exact:
  assumes "filter_oldest_messages t ms boundary target = (ms', freed)"
  shows "length ms' = length ms
    \<and> estimate_total_tokens t ms' + freed = estimate_total_tokens t ms
    \<and> (\<forall>k < length ms. ms' ! k = ms ! k \<or>
         1 \<le> k \<and> k < boundary \<and> \<not> filtered (ms ! k) \<and> ms' ! k = (ms ! k)\<lparr>filtered := True\<rparr>)
    \<and> (target \<le> freed \<or> (\<forall>k. 1 \<le> k \<and> k < boundary \<and> k < length ms \<longrightarrow> filtered (ms' ! k)))
    \<and> group_closed 1 (min boundary (length ms)) ms ms'"
  using filter_oldest_rel [OF assms] filter_oldest_covers [OF assms] filter_oldest_groups [OF assms]
  unfolding filter_rel_def by auto

definition demo_msg :: "message_role \<Rightarrow> string option \<Rightarrow> internal_msg" where
  "demo_msg r i = \<lparr>msg_role = r, blocks = [Text ''hello''], message_id = ''m'', tool_use_id = i,
                   filtered = False, metadata = JNull\<rparr>"

definition demo_history :: "internal_msg list" where
  "demo_history = [demo_msg User None, demo_msg Assistant None, demo_msg User (Some ''t1''),
                   demo_msg User None, demo_msg Assistant None]"

lemma filter_oldest_exact_witness:
  "case filter_oldest_messages (\<lambda>_. []) demo_history 4 30 of (ms', freed) \<Rightarrow>
     freed = 40 \<and> map filtered ms' = [False, True, True, False, False] \<and>
     estimate_total_tokens (\<lambda>_. []) ms' + freed = estimate_total_tokens (\<lambda>_. []) demo_history"
proof -
  have v: "case filter_oldest_messages (\<lambda>_. []) demo_history 4 30 of (ms', freed) \<Rightarrow>
     freed = 40 \<and> map filtered ms' = [False, True, True, False, False]"
    by code_simp
  obtain ms' freed where r: "filter_oldest_messages (\<lambda>_. []) demo_history 4 30 = (ms', freed)"
    by (cases "filter_oldest_messages (\<lambda>_. []) demo_history 4 30")
  show ?thesis
    using filter_oldest_exact [OF r] v unfolding r by simp
qed

text \<open>
  C22. The report of \<open>compact_if_needed\<close> is truthful and the protected part is untouched: the recorded
  totals before and after are the estimates of the two message lists, compaction happens exactly when
  the threshold is reached, freed and cleared tokens balance (up to the growth of small results that
  the clearing replaced by a longer note), no message is dropped, the messages from the turn boundary
  on are identical, and the first message is never filtered.
\<close>
theorem compact_report_truthful:
  assumes "compact_if_needed t ms config = (ms', r)"
  shows "tokens_before r = estimate_total_tokens t ms \<and> tokens_after r = estimate_total_tokens t ms'
    \<and> (did_compact r \<longleftrightarrow> compact_threshold config \<le> estimate_total_tokens t ms)
    \<and> (did_compact r \<longrightarrow> tokens_after r + filtered_tokens r + cleared_tokens r
         = tokens_before r + clear_growth t ms (find_recent_turn_boundary ms (preserve_recent_turns config)))
    \<and> length ms' = length ms
    \<and> (\<forall>k. find_recent_turn_boundary ms (preserve_recent_turns config) \<le> k \<and> k < length ms \<longrightarrow> ms' ! k = ms ! k)
    \<and> (ms \<noteq> [] \<longrightarrow> filtered (ms' ! 0) = filtered (ms ! 0))"
proof (cases "estimate_total_tokens t ms < compact_threshold config")
  case True
  then show ?thesis
    using assms by (auto simp: compact_if_needed_def Let_def)
next
  case False
  let ?b = "find_recent_turn_boundary ms (preserve_recent_turns config)"
  obtain ms1 cleared where c: "clear_old_tool_results t ms ?b = (ms1, cleared)"
    by (cases "clear_old_tool_results t ms ?b")
  note c' = clear_account [OF c] clear_length [OF c] clear_nth [OF c]
  show ?thesis
  proof (cases "estimate_total_tokens t ms1 < compact_threshold config")
    case True
    then show ?thesis
      using assms False c c' by (auto simp: compact_if_needed_def Let_def)
  next
    case go: False
    define target where "target = estimate_total_tokens t ms - (compact_threshold config - buffer_tokens config) - cleared"
    obtain ms2 freed where f: "filter_oldest_messages t ms1 ?b target = (ms2, freed)"
      by (cases "filter_oldest_messages t ms1 ?b target")
    have "ms' = ms2" and r: "did_compact r" "tokens_before r = estimate_total_tokens t ms"
      "tokens_after r = estimate_total_tokens t ms2" "cleared_tokens r = cleared" "filtered_tokens r = freed"
      using assms False go c f by (auto simp: compact_if_needed_def Let_def target_def)
    moreover have "ms \<noteq> [] \<Longrightarrow> filtered (ms2 ! 0) = filtered (ms ! 0)"
      using filter_rel_below [OF filter_oldest_rel [OF f], of 0] c'(2) c'(3) [of 0] by simp
    ultimately show ?thesis
      using filter_oldest_rel [OF f] False c' unfolding filter_rel_def by auto
  qed
qed

lemma compact_report_truthful_witness:
  "case compact_if_needed (\<lambda>_. []) demo_history
     \<lparr>context_window = 100, threshold_ratio = 87 / 100, buffer_tokens = 10, preserve_recent_turns = 1\<rparr> of
   (ms', r) \<Rightarrow> did_compact r \<and> map filtered ms' = [False, True, True, False, False] \<and> ms' ! 4 = demo_history ! 4"
proof -
  let ?c = "\<lparr>context_window = 100, threshold_ratio = 87 / 100, buffer_tokens = 10, preserve_recent_turns = 1\<rparr>"
  have v: "case compact_if_needed (\<lambda>_. []) demo_history ?c of (ms', r) \<Rightarrow>
     did_compact r \<and> map filtered ms' = [False, True, True, False, False]"
    by code_simp
  have b: "find_recent_turn_boundary demo_history (preserve_recent_turns ?c) = 4" "length demo_history = 5"
    by code_simp+
  obtain ms' r where r: "compact_if_needed (\<lambda>_. []) demo_history ?c = (ms', r)"
    by (cases "compact_if_needed (\<lambda>_. []) demo_history ?c")
  have "ms' ! 4 = demo_history ! 4"
    using compact_report_truthful [OF r] unfolding b by simp
  then show ?thesis
    using v unfolding r by simp
qed

text \<open>
  C23. What compaction achieves: afterwards the estimate is below the threshold, or within the safe
  target (threshold minus buffer) up to the growth of cleared small results, or nothing that may be
  filtered is left before the protected turns.
\<close>
theorem compact_reaches_target:
  assumes "compact_if_needed t ms config = (ms', r)"
  shows "tokens_after r < compact_threshold config
    \<or> tokens_after r \<le> (compact_threshold config - buffer_tokens config)
         + clear_growth t ms (find_recent_turn_boundary ms (preserve_recent_turns config))
    \<or> list_all filtered (drop 1 (take (find_recent_turn_boundary ms (preserve_recent_turns config)) ms'))"
proof (cases "estimate_total_tokens t ms < compact_threshold config")
  case True
  then show ?thesis
    using assms by (auto simp: compact_if_needed_def Let_def)
next
  case False
  let ?b = "find_recent_turn_boundary ms (preserve_recent_turns config)"
  obtain ms1 cleared where c: "clear_old_tool_results t ms ?b = (ms1, cleared)"
    by (cases "clear_old_tool_results t ms ?b")
  define target where "target = estimate_total_tokens t ms - (compact_threshold config - buffer_tokens config) - cleared"
  obtain ms2 freed where f: "filter_oldest_messages t ms1 ?b target = (ms2, freed)"
    by (cases "filter_oldest_messages t ms1 ?b target")
  show ?thesis
  proof (cases "estimate_total_tokens t ms1 < compact_threshold config")
    case True
    then show ?thesis
      using assms False c by (auto simp: compact_if_needed_def Let_def)
  next
    case go: False
    have r: "ms' = ms2" "tokens_after r = estimate_total_tokens t ms2"
      using assms False go c f by (auto simp: compact_if_needed_def Let_def target_def)
    have acc: "estimate_total_tokens t ms2 + freed = estimate_total_tokens t ms1"
      and len: "length ms2 = length ms1"
      using filter_oldest_rel [OF f] by (simp_all add: filter_rel_def)
    from filter_oldest_covers [OF f] show ?thesis
    proof
      assume "target \<le> freed"
      then show ?thesis
        using acc clear_account [OF c] r(2) False unfolding target_def by linarith
    next
      assume "\<forall>k. 1 \<le> k \<and> k < min ?b (length ms1) \<longrightarrow> filtered (ms2 ! k)"
      then show ?thesis
        using r(1) len by (auto simp: list_all_length less_diff_conv min_def split: if_splits)
    qed
  qed
qed

lemma compact_reaches_target_witness:
  "case compact_if_needed (\<lambda>_. replicate 40 (CHR ''x'')) demo_history
     \<lparr>context_window = 100, threshold_ratio = 1 / 2, buffer_tokens = 10, preserve_recent_turns = 1\<rparr> of
   (ms', r) \<Rightarrow> list_all filtered (drop 1 (take 4 ms')) \<and> \<not> tokens_after r < 50"
proof -
  let ?t = "\<lambda>_ :: json. replicate 40 (CHR ''x'')"
  let ?c = "\<lparr>context_window = 100, threshold_ratio = 1 / 2, buffer_tokens = 10, preserve_recent_turns = 1\<rparr>"
  have v: "case compact_if_needed ?t demo_history ?c of (ms', r) \<Rightarrow> \<not> tokens_after r < 50"
    by code_simp
  have b: "find_recent_turn_boundary demo_history (preserve_recent_turns ?c) = 4"
    "clear_growth ?t demo_history 4 = 0" "compact_threshold ?c - buffer_tokens ?c = 40" "compact_threshold ?c = 50"
    by code_simp+
  obtain ms' r where r: "compact_if_needed ?t demo_history ?c = (ms', r)"
    by (cases "compact_if_needed ?t demo_history ?c")
  show ?thesis
    using compact_reaches_target [OF r] v unfolding r b by simp
qed

end
