(* ===== verification/Provider.thy ===== *)
theory Provider
  imports Messages
begin

text \<open>
  What the loop exchanges with a model provider (\<open>provider/types.rs\<close>, \<open>provider/error.rs\<close>,
  \<open>provider/mod.rs\<close>) and the parsing of a response (\<open>execution/agentic_loop.rs\<close>).  A provider is a trait
  object: its two methods are functions on the world.
\<close>

datatype chat_role = ChatUser | ChatAssistant

record chat_message =
  chat_role :: chat_role
  chat_content :: "content_block list"

record chat_request =
  req_messages :: "chat_message list"
  req_system :: "string option"
  req_tools :: "json list option"
  req_model :: "string option"
  req_temperature :: "json option"
  req_max_tokens :: "nat option"
  req_metadata :: json

definition default_chat_request :: chat_request where
  "default_chat_request = \<lparr>req_messages = [], req_system = None, req_tools = None, req_model = None,
     req_temperature = None, req_max_tokens = None, req_metadata = JNull\<rparr>"

definition chat_request_from_text :: "string \<Rightarrow> chat_request" where
  "chat_request_from_text p =
     default_chat_request\<lparr>req_messages := [\<lparr>chat_role = ChatUser, chat_content = [Text p]\<rparr>]\<rparr>"

datatype stop_reason = EndTurn | StopToolUse | MaxTokens | StopSequence

record chat_response =
  resp_content :: "content_block list"
  resp_stop_reason :: stop_reason
  resp_raw :: json

definition block_texts :: "content_block list \<Rightarrow> string list" where
  "block_texts bs = concat (map (\<lambda>b. case b of Text t \<Rightarrow> [t] | _ \<Rightarrow> []) bs)"

definition chat_response_text :: "chat_response \<Rightarrow> string" where
  "chat_response_text r = str_join ''\<newline>'' (block_texts (resp_content r))"

definition has_tool_use :: "chat_response \<Rightarrow> bool" where
  "has_tool_use r = list_ex (\<lambda>b. case b of ToolUse _ _ _ \<Rightarrow> True | _ \<Rightarrow> False) (resp_content r)"

datatype provider_error_kind =
  Authentication | RateLimit | InvalidRequest | ProviderTimeout | StreamFailed | Network | ProviderInternal

record provider_error =
  pe_kind :: provider_error_kind
  pe_message :: string

definition internal_error :: "string \<Rightarrow> provider_error" where
  "internal_error m = \<lparr>pe_kind = ProviderInternal, pe_message = m\<rparr>"


section \<open>Parsed responses\<close>

record parsed_tool_use =
  tu_id :: string
  tu_name :: string
  tu_input :: json

record parsed_response =
  pr_text :: string
  pr_tool_uses :: "parsed_tool_use list"
  pr_thinking :: "string option"
  pr_stop_reason :: stop_reason

definition stop_reason_of :: "string option \<Rightarrow> stop_reason" where
  "stop_reason_of s =
     (case s of
        None \<Rightarrow> EndTurn
      | Some r \<Rightarrow>
          if r = ''max_tokens'' \<or> r = ''length'' then MaxTokens
          else if r = ''tool_use'' \<or> r = ''tool_calls'' then StopToolUse
          else if r = ''stop_sequence'' then StopSequence
          else EndTurn)"

definition join_thinking :: "string list \<Rightarrow> string option" where
  "join_thinking parts = (if parts = [] then None else Some (str_join ''\<newline>'' parts))"

definition option_list :: "'a option \<Rightarrow> 'a list" where
  "option_list x = (case x of None \<Rightarrow> [] | Some v \<Rightarrow> [v])"

text \<open>One round of the loop over the content parts: texts, tool calls and thoughts in order.\<close>

fun parse_parts :: "json list \<Rightarrow> string list \<Rightarrow> parsed_tool_use list \<Rightarrow> string list \<Rightarrow>
    string list \<times> parsed_tool_use list \<times> string list" where
  "parse_parts [] ts us ks = (ts, us, ks)"
| "parse_parts (p # ps) ts us ks =
     (let ty = unwrap_or [] (json_str ''type'' p) in
      if ty = ''text'' then parse_parts ps (ts @ option_list (json_str ''text'' p)) us ks
      else if ty = ''tool_use'' then
        parse_parts ps ts (us @ [\<lparr>tu_id = unwrap_or [] (json_str ''id'' p),
                                 tu_name = unwrap_or [] (json_str ''name'' p),
                                 tu_input = unwrap_or (JObject []) (json_get ''input'' p)\<rparr>]) ks
      else if ty = ''thinking'' then parse_parts ps ts us (ks @ option_list (json_str ''thinking'' p))
      else parse_parts ps ts us ks)"

definition parse_response :: "(json \<Rightarrow> string) \<Rightarrow> json \<Rightarrow> string + parsed_response" where
  "parse_response json_text response =
     (let sr = stop_reason_of (json_str ''stop_reason'' response)
      in case json_get ''content'' response of
           Some (JString t) \<Rightarrow>
             Inr \<lparr>pr_text = t, pr_tool_uses = [], pr_thinking = None, pr_stop_reason = sr\<rparr>
         | Some (JArray parts) \<Rightarrow>
             (case parse_parts parts [] [] [] of (ts, us, ks) \<Rightarrow>
                Inr \<lparr>pr_text = str_join ''\<newline>'' ts, pr_tool_uses = us, pr_thinking = join_thinking ks,
                     pr_stop_reason = sr\<rparr>)
         | _ \<Rightarrow>
             (case as_str response of
                Some t \<Rightarrow> Inr \<lparr>pr_text = t, pr_tool_uses = [], pr_thinking = None, pr_stop_reason = sr\<rparr>
              | None \<Rightarrow> Inl (''unexpected response structure: '' @ json_text response)))"

fun parse_blocks :: "content_block list \<Rightarrow> string list \<Rightarrow> parsed_tool_use list \<Rightarrow> string list \<Rightarrow>
    string list \<times> parsed_tool_use list \<times> string list" where
  "parse_blocks [] ts us ks = (ts, us, ks)"
| "parse_blocks (b # bs) ts us ks =
     (case b of
        Text t \<Rightarrow> parse_blocks bs (ts @ [t]) us ks
      | ToolUse i n inp \<Rightarrow> parse_blocks bs ts (us @ [\<lparr>tu_id = i, tu_name = n, tu_input = inp\<rparr>]) ks
      | Thinking t \<Rightarrow> parse_blocks bs ts us (ks @ [t])
      | _ \<Rightarrow> parse_blocks bs ts us ks)"

definition parse_chat_response :: "chat_response \<Rightarrow> parsed_response" where
  "parse_chat_response r =
     (case parse_blocks (resp_content r) [] [] [] of (ts, us, ks) \<Rightarrow>
        \<lparr>pr_text = str_join ''\<newline>'' ts, pr_tool_uses = us, pr_thinking = join_thinking ks,
         pr_stop_reason = resp_stop_reason r\<rparr>)"


section \<open>Lemmas\<close>

lemma str_join_single [simp]: "str_join sep (option_list x) = unwrap_or [] x"
  by (cases x) (simp_all add: option_list_def)

lemma parse_parts_tools:
  "parse_parts (map (\<lambda>(i, n, inp). value_from_block (ToolUse i n inp)) ts) txt us ks
     = (txt, us @ map (\<lambda>(i, n, inp). \<lparr>tu_id = i, tu_name = n, tu_input = inp\<rparr>) ts, ks)"
  by (induction ts arbitrary: us) auto

lemma parse_parts_blocks:
  "list_all plain_block bs \<Longrightarrow>
   parse_parts (map value_from_block bs) ts us ks = parse_blocks bs ts us ks"
proof (induction bs arbitrary: ts us ks)
  case (Cons b bs)
  show ?case
  proof (cases b)
    case (Json v)
    have "unwrap_or [] (json_str ''type'' v) \<notin> {''text'', ''tool_use'', ''thinking''}"
      using Cons.prems Json by (auto simp: recognised_type_def split: option.splits)
    then show ?thesis
      using Cons Json by simp
  qed (use Cons in \<open>auto simp: option_list_def\<close>)
qed simp

end
