(* ===== verification/Streaming.thy ===== *)
theory Streaming
  imports Provider
begin

text \<open>
  Streamed responses (\<open>streaming/types.rs\<close>, \<open>streaming/api_parser.rs\<close>, \<open>streaming/executor.rs\<close>): the
  parser of one event, the accumulator of tool input and thoughts per content block, and the consumers
  that turn a whole stream into a parsed response and the equivalent response value.  \<open>json_parse\<close> is
  \<open>serde_json::from_str\<close>; the list order of the accumulator's maps stands for the iteration order of
  the \<open>HashMap\<close>s.
\<close>

datatype stream_block =
    StreamText string
  | StreamToolUse string string json
  | StreamThinking string

datatype content_delta =
    TextDelta string
  | InputJsonDelta string
  | ThinkingDelta string

datatype stream_event =
    MessageStart string
  | ContentBlockStart nat stream_block
  | ContentBlockDelta nat content_delta
  | ContentBlockStop nat
  | MessageDelta "string option"
  | MessageStop
  | Ping
  | StreamError string string

type_synonym json_parser = "string \<Rightarrow> string + json"


section \<open>Parsing one event\<close>

definition json_pointer2 :: "string \<Rightarrow> string \<Rightarrow> json \<Rightarrow> json option" where
  "json_pointer2 a b j = Option.bind (json_get a j) (json_get b)"

definition parse_content_block :: "json \<Rightarrow> stream_block option" where
  "parse_content_block v =
     Option.bind (json_str ''type'' v) (\<lambda>ty.
       if ty = ''text'' then Some (StreamText (unwrap_or [] (json_str ''text'' v)))
       else if ty = ''tool_use'' then
         Option.bind (json_str ''id'' v) (\<lambda>i. Option.bind (json_str ''name'' v) (\<lambda>n.
           Some (StreamToolUse i n (unwrap_or (JObject []) (json_get ''input'' v)))))
       else if ty = ''thinking'' then Some (StreamThinking (unwrap_or [] (json_str ''thinking'' v)))
       else None)"

definition parse_content_delta :: "json \<Rightarrow> content_delta option" where
  "parse_content_delta v =
     Option.bind (json_str ''type'' v) (\<lambda>ty.
       if ty = ''text_delta'' then map_option TextDelta (json_str ''text'' v)
       else if ty = ''input_json_delta'' then map_option InputJsonDelta (json_str ''partial_json'' v)
       else if ty = ''thinking_delta'' then map_option ThinkingDelta (json_str ''thinking'' v)
       else None)"

definition json_index :: "json \<Rightarrow> nat option" where
  "json_index v = Option.bind (json_get ''index'' v) as_u64"

definition parse_sse_value :: "json \<Rightarrow> stream_event option" where
  "parse_sse_value v =
     Option.bind (json_str ''type'' v) (\<lambda>ty.
       if ty = ''message_start'' then
         Some (MessageStart (unwrap_or [] (Option.bind (json_pointer2 ''message'' ''id'' v) as_str)))
       else if ty = ''content_block_start'' then
         Option.bind (json_index v) (\<lambda>i. Option.bind (json_get ''content_block'' v) (\<lambda>cb.
           map_option (ContentBlockStart i) (parse_content_block cb)))
       else if ty = ''content_block_delta'' then
         Option.bind (json_index v) (\<lambda>i. Option.bind (json_get ''delta'' v) (\<lambda>d.
           map_option (ContentBlockDelta i) (parse_content_delta d)))
       else if ty = ''content_block_stop'' then map_option ContentBlockStop (json_index v)
       else if ty = ''message_delta'' then
         Some (MessageDelta (Option.bind (json_pointer2 ''delta'' ''stop_reason'' v) as_str))
       else if ty = ''message_stop'' then Some MessageStop
       else if ty = ''ping'' then Some Ping
       else if ty = ''error'' then
         Some (StreamError (unwrap_or ''unknown'' (Option.bind (json_pointer2 ''error'' ''type'' v) as_str))
                           (unwrap_or [] (Option.bind (json_pointer2 ''error'' ''message'' v) as_str)))
       else None)"

definition parse_sse_event :: "json_parser \<Rightarrow> string \<Rightarrow> stream_event option" where
  "parse_sse_event json_parse data =
     (case json_parse data of Inl _ \<Rightarrow> None | Inr v \<Rightarrow> parse_sse_value v)"


section \<open>The accumulator\<close>

record tool_acc_state =
  acc_id :: string
  acc_name :: string
  json_buf :: string
  complete :: bool

record stream_accumulator =
  acc_tools :: "(nat, tool_acc_state) imap"
  thinking_bufs :: "(nat, string) imap"

definition new_accumulator :: stream_accumulator where
  "new_accumulator = \<lparr>acc_tools = [], thinking_bufs = []\<rparr>"

definition on_thinking_start :: "nat \<Rightarrow> string \<Rightarrow> stream_accumulator \<Rightarrow> stream_accumulator" where
  "on_thinking_start i t a = a\<lparr>thinking_bufs := im_insert i t (thinking_bufs a)\<rparr>"

definition on_thinking_delta :: "nat \<Rightarrow> string \<Rightarrow> stream_accumulator \<Rightarrow> stream_accumulator" where
  "on_thinking_delta i t a = a\<lparr>thinking_bufs := im_modify i (\<lambda>b. b @ t) (thinking_bufs a)\<rparr>"

definition on_tool_start :: "nat \<Rightarrow> string \<Rightarrow> string \<Rightarrow> stream_accumulator \<Rightarrow> stream_accumulator" where
  "on_tool_start i tid n a =
     a\<lparr>acc_tools := im_insert i \<lparr>acc_id = tid, acc_name = n, json_buf = [], complete = False\<rparr> (acc_tools a)\<rparr>"

definition on_input_delta :: "nat \<Rightarrow> string \<Rightarrow> stream_accumulator \<Rightarrow> stream_accumulator" where
  "on_input_delta i s a = a\<lparr>acc_tools := im_modify i (\<lambda>t. t\<lparr>json_buf := json_buf t @ s\<rparr>) (acc_tools a)\<rparr>"

definition on_tool_stop :: "nat \<Rightarrow> stream_accumulator \<Rightarrow> stream_accumulator" where
  "on_tool_stop i a = a\<lparr>acc_tools := im_modify i (\<lambda>t. t\<lparr>complete := True\<rparr>) (acc_tools a)\<rparr>"

definition drain_thinking :: "stream_accumulator \<Rightarrow> string option" where
  "drain_thinking a =
     (if thinking_bufs a = [] then None
      else let combined = str_join ''\<newline>'' (map snd (sort_key fst (thinking_bufs a)))
           in if combined = [] then None else Some combined)"

definition malformed_message :: "tool_acc_state \<Rightarrow> string \<Rightarrow> string" where
  "malformed_message t err =
     ''malformed tool JSON for '' @ [CHR 0x27] @ acc_name t @ [CHR 0x27] @ '' (id='' @ acc_id t @ ''): '' @ err
       @ utf8 [32, 226, 128, 148, 32] @ ''raw: '' @ debug_str (json_buf t)"

fun drain_loop :: "json_parser \<Rightarrow> (nat, tool_acc_state) imap \<Rightarrow> (nat \<times> string \<times> string \<times> json) list \<Rightarrow>
    string + (nat \<times> string \<times> string \<times> json) list" where
  "drain_loop json_parse [] acc = Inr acc"
| "drain_loop json_parse ((i, t) # rest) acc =
     (if complete t then
        (case json_parse (json_buf t) of
           Inl err \<Rightarrow> Inl (malformed_message t err)
         | Inr v \<Rightarrow> drain_loop json_parse rest (acc @ [(i, acc_id t, acc_name t, v)]))
      else drain_loop json_parse rest acc)"

definition drain_ready :: "json_parser \<Rightarrow> stream_accumulator \<Rightarrow> string + (string \<times> string \<times> json) list" where
  "drain_ready json_parse a =
     (case drain_loop json_parse (acc_tools a) [] of
        Inl err \<Rightarrow> Inl err
      | Inr indexed \<Rightarrow> Inr (map snd (sort_key fst indexed)))"


section \<open>Consuming a stream\<close>

record stream_state =
  text_buf :: string
  accum :: stream_accumulator
  stream_message_id :: string
  stream_stop_reason :: "string option"

definition init_stream :: stream_state where
  "init_stream = \<lparr>text_buf = [], accum = new_accumulator, stream_message_id = [], stream_stop_reason = None\<rparr>"

definition stream_error_text :: "string \<Rightarrow> string \<Rightarrow> string" where
  "stream_error_text ty m = ''stream error ['' @ ty @ '']: '' @ m"

text \<open>The \<open>match\<close> on one event; \<open>Inl\<close> is the early return on an error event.\<close>

fun stream_step :: "stream_event \<Rightarrow> stream_state \<Rightarrow> string + stream_state" where
  "stream_step (MessageStart i) s = Inr (s\<lparr>stream_message_id := i\<rparr>)"
| "stream_step (ContentBlockStart i (StreamToolUse tid n inp)) s = Inr (s\<lparr>accum := on_tool_start i tid n (accum s)\<rparr>)"
| "stream_step (ContentBlockStart i (StreamText t)) s = Inr (s\<lparr>text_buf := text_buf s @ t\<rparr>)"
| "stream_step (ContentBlockStart i (StreamThinking t)) s = Inr (s\<lparr>accum := on_thinking_start i t (accum s)\<rparr>)"
| "stream_step (ContentBlockDelta i (TextDelta t)) s = Inr (s\<lparr>text_buf := text_buf s @ t\<rparr>)"
| "stream_step (ContentBlockDelta i (InputJsonDelta p)) s = Inr (s\<lparr>accum := on_input_delta i p (accum s)\<rparr>)"
| "stream_step (ContentBlockDelta i (ThinkingDelta t)) s = Inr (s\<lparr>accum := on_thinking_delta i t (accum s)\<rparr>)"
| "stream_step (ContentBlockStop i) s = Inr (s\<lparr>accum := on_tool_stop i (accum s)\<rparr>)"
| "stream_step (MessageDelta sr) s = Inr (s\<lparr>stream_stop_reason := sr\<rparr>)"
| "stream_step (StreamError ty m) s = Inl (stream_error_text ty m)"
| "stream_step MessageStop s = Inr s"
| "stream_step Ping s = Inr s"

definition response_value_of ::
  "stream_state \<Rightarrow> string option \<Rightarrow> (string \<times> string \<times> json) list \<Rightarrow> json" where
  "response_value_of s thinking tools =
     JObject [(''id'', JString (stream_message_id s)),
       (''content'', JArray (
          map (\<lambda>t. JObject [(''type'', JString ''thinking''), (''thinking'', JString t)]) (option_list thinking) @
          (if text_buf s = [] then [] else [JObject [(''type'', JString ''text''), (''text'', JString (text_buf s))]]) @
          map (\<lambda>(i, n, inp). JObject [(''type'', JString ''tool_use''), (''id'', JString i), (''name'', JString n),
                                      (''input'', inp)]) tools)),
       (''stop_reason'', case stream_stop_reason s of None \<Rightarrow> JNull | Some r \<Rightarrow> JString r)]"

definition finish_stream :: "json_parser \<Rightarrow> stream_state \<Rightarrow> string + parsed_response \<times> json" where
  "finish_stream json_parse s =
     (case drain_ready json_parse (accum s) of
        Inl err \<Rightarrow> Inl err
      | Inr tools \<Rightarrow>
          let thinking = drain_thinking (accum s)
          in Inr (\<lparr>pr_text = text_buf s,
                   pr_tool_uses = map (\<lambda>(i, n, inp). \<lparr>tu_id = i, tu_name = n, tu_input = inp\<rparr>) tools,
                   pr_thinking = thinking, pr_stop_reason = stop_reason_of (stream_stop_reason s)\<rparr>,
                  response_value_of s thinking tools))"

type_synonym 'w stream_callback = "stream_event \<Rightarrow> 'w \<Rightarrow> 'w"

fun stream_loop :: "(provider_error + stream_event) list \<Rightarrow> 'w stream_callback option \<Rightarrow> stream_state \<Rightarrow> 'w \<Rightarrow>
    (provider_error + stream_state) \<times> 'w" where
  "stream_loop [] cb s w = (Inr s, w)"
| "stream_loop (Inl err # rest) cb s w = (Inl err, w)"
| "stream_loop (Inr ev # rest) cb s w =
     (let w' = (case cb of None \<Rightarrow> w | Some f \<Rightarrow> f ev w)
      in case stream_step ev s of
           Inl m \<Rightarrow> (Inl \<lparr>pe_kind = StreamFailed, pe_message = m\<rparr>, w')
         | Inr s' \<Rightarrow> stream_loop rest cb s' w')"

definition consume_stream_events ::
  "json_parser \<Rightarrow> (provider_error + stream_event) list \<Rightarrow> 'w stream_callback option \<Rightarrow> 'w \<Rightarrow>
   (provider_error + parsed_response \<times> json) \<times> 'w" where
  "consume_stream_events json_parse stream cb w =
     (case stream_loop stream cb init_stream w of
        (Inl err, w') \<Rightarrow> (Inl err, w')
      | (Inr s, w') \<Rightarrow>
          (case finish_stream json_parse s of
             Inl m \<Rightarrow> (Inl (internal_error m), w')
           | Inr r \<Rightarrow> (Inr r, w')))"


section \<open>Lemmas\<close>

lemma finish_stream_parse:
  assumes "finish_stream json_parse s = Inr (parsed, v)"
  shows "parse_response json_text v = Inr parsed"
proof -
  obtain tools where d: "drain_ready json_parse (accum s) = Inr tools"
    using assms by (auto simp: finish_stream_def split: sum.splits)
  have th: "unwrap_or [] (drain_thinking (accum s)) = [] \<Longrightarrow> drain_thinking (accum s) = None"
    by (auto simp: drain_thinking_def Let_def split: if_splits)
  let ?th = "drain_thinking (accum s)"
  let ?txt = "if text_buf s = [] then [] else [text_buf s]"
  have "parse_parts
      (map (\<lambda>t. JObject [(''type'', JString ''thinking''), (''thinking'', JString t)]) (option_list ?th) @
       (if text_buf s = [] then [] else [JObject [(''type'', JString ''text''), (''text'', JString (text_buf s))]]) @
       map (\<lambda>(i, n, inp). JObject [(''type'', JString ''tool_use''), (''id'', JString i), (''name'', JString n),
                                   (''input'', inp)]) tools) [] [] []
    = (?txt, map (\<lambda>(i, n, inp). \<lparr>tu_id = i, tu_name = n, tu_input = inp\<rparr>) tools, option_list ?th)"
    using parse_parts_tools [of tools ?txt "[]" "option_list ?th"]
    by (cases ?th) (auto simp: option_list_def)
  moreover have "join_thinking (option_list ?th) = ?th"
    by (cases ?th) (simp_all add: join_thinking_def option_list_def)
  moreover have "str_join ''\<newline>'' ?txt = text_buf s"
    by simp
  moreover have "stop_reason_of (Option.bind (Some (case stream_stop_reason s of None \<Rightarrow> JNull | Some r \<Rightarrow> JString r)) as_str)
      = stop_reason_of (stream_stop_reason s)"
    by (cases "stream_stop_reason s") simp_all
  moreover have "parsed = \<lparr>pr_text = text_buf s,
        pr_tool_uses = map (\<lambda>(i, n, inp). \<lparr>tu_id = i, tu_name = n, tu_input = inp\<rparr>) tools,
        pr_thinking = ?th, pr_stop_reason = stop_reason_of (stream_stop_reason s)\<rparr>"
    and "v = response_value_of s ?th tools"
    using assms d by (simp_all add: finish_stream_def Let_def)
  ultimately show ?thesis
    by (simp add: response_value_of_def parse_response_def del: str_join_single)
qed

text \<open>
  The reference for one content block: what happens to the tool of index \<open>i\<close>, looking at nothing else.
\<close>

fun tool_event :: "nat \<Rightarrow> stream_event \<Rightarrow> tool_acc_state option \<Rightarrow> tool_acc_state option" where
  "tool_event i (ContentBlockStart j (StreamToolUse tid n inp)) st =
     (if j = i then Some \<lparr>acc_id = tid, acc_name = n, json_buf = [], complete = False\<rparr> else st)"
| "tool_event i (ContentBlockDelta j (InputJsonDelta p)) st =
     (if j = i then map_option (\<lambda>t. t\<lparr>json_buf := json_buf t @ p\<rparr>) st else st)"
| "tool_event i (ContentBlockStop j) st =
     (if j = i then map_option (\<lambda>t. t\<lparr>complete := True\<rparr>) st else st)"
| "tool_event i _ st = st"

fun text_event :: "stream_event \<Rightarrow> string" where
  "text_event (ContentBlockStart _ (StreamText t)) = t"
| "text_event (ContentBlockDelta _ (TextDelta t)) = t"
| "text_event _ = []"

lemmas accumulator_ops = on_tool_start_def on_input_delta_def on_tool_stop_def on_thinking_start_def on_thinking_delta_def

lemma stream_step_tool:
  "stream_step ev s = Inr s' \<Longrightarrow>
   map_of (acc_tools (accum s')) i = tool_event i ev (map_of (acc_tools (accum s)) i) \<and>
   text_buf s' = text_buf s @ text_event ev"
  by (cases "(ev, s)" rule: stream_step.cases)
    (auto simp: accumulator_ops im.get_ins im_get_modify)

lemma stream_loop_tool:
  "stream_loop evs cb s w = (Inr s', w') \<Longrightarrow>
   map_of (acc_tools (accum s')) i = fold (tool_event i) (map projr evs) (map_of (acc_tools (accum s)) i) \<and>
   text_buf s' = text_buf s @ concat (map (text_event \<circ> projr) evs)"
proof (induction evs cb s w rule: stream_loop.induct)
  case (3 ev rest cb s w)
  show ?case
  proof (cases "stream_step ev s")
    case (Inr s1)
    then show ?thesis
      using 3 stream_step_tool [OF Inr, of i] by (simp add: Let_def)
  qed (use 3(2) in \<open>simp add: Let_def\<close>)
qed auto

lemma drain_loop_keys:
  "drain_loop json_parse ts acc = Inr out \<Longrightarrow>
   map fst out = map fst acc @ map fst (filter (\<lambda>(i, t). complete t) ts)"
  by (induction json_parse ts acc rule: drain_loop.induct) (auto split: if_splits sum.splits)


section \<open>Properties\<close>

text \<open>
  C15. The two results of a stream agree: the response value that \<open>consume_stream_events\<close> builds for the
  history parses, by the parser of unstreamed responses, to exactly the parsed response it returns
  (text, tool calls with their inputs, thoughts and stop reason).
\<close>
theorem stream_results_agree:
  assumes "consume_stream_events json_parse stream cb w = (Inr (parsed, v), w')"
  shows "parse_response json_text v = Inr parsed"
  using assms by (auto simp: consume_stream_events_def split: prod.splits sum.splits intro: finish_stream_parse)

definition demo_stream :: "(provider_error + stream_event) list" where
  "demo_stream = map Inr
     [MessageStart ''m'', ContentBlockStart 0 (StreamText ''hi ''), ContentBlockStart 1 (StreamToolUse ''t1'' ''ls'' JNull),
      ContentBlockDelta 1 (InputJsonDelta ''{''), ContentBlockDelta 0 (TextDelta ''there''),
      ContentBlockDelta 1 (InputJsonDelta ''}''), ContentBlockStop 1, MessageDelta (Some ''tool_use''), MessageStop]"

definition demo_parse :: json_parser where
  "demo_parse s = (if s = ''{}'' then Inr (JObject []) else Inl ''bad'')"

lemma stream_results_agree_witness:
  "\<exists>parsed v. consume_stream_events demo_parse demo_stream None () = (Inr (parsed, v), ()) \<and>
     parse_response (\<lambda>_. []) v = Inr parsed"
proof -
  have v: "case fst (consume_stream_events demo_parse demo_stream None ()) of
      Inl _ \<Rightarrow> False | Inr (p, v) \<Rightarrow> pr_text p = ''hi there'' \<and> pr_stop_reason p = StopToolUse"
    by code_simp
  then obtain p v w' where r: "consume_stream_events demo_parse demo_stream None () = (Inr (p, v), w')"
    by (cases "consume_stream_events demo_parse demo_stream None ()") (auto split: sum.splits)
  show ?thesis
    using r stream_results_agree [OF r] by auto
qed

text \<open>
  Blocks do not interfere: however the provider interleaves them, the state of the tool call of
  index \<open>i\<close> after the stream is what the events of index \<open>i\<close> alone make of it, in their order, and the
  text is the concatenation of all text pieces in arrival order.
\<close>
theorem stream_blocks_independent:
  assumes "stream_loop stream cb init_stream w = (Inr s, w')"
  shows "map_of (acc_tools (accum s)) i = fold (tool_event i) (map projr stream) None
    \<and> text_buf s = concat (map (text_event \<circ> projr) stream)"
  using stream_loop_tool [OF assms, of i] by (simp add: init_stream_def new_accumulator_def)

lemma stream_blocks_independent_witness:
  "\<exists>s. stream_loop demo_stream None init_stream () = (Inr s, ()) \<and>
     map_of (acc_tools (accum s)) 1 = Some \<lparr>acc_id = ''t1'', acc_name = ''ls'', json_buf = ''{}'', complete = True\<rparr>"
proof -
  have "case fst (stream_loop demo_stream None init_stream ()) of Inl _ \<Rightarrow> False | Inr _ \<Rightarrow> True"
    by code_simp
  then obtain s w' where r: "stream_loop demo_stream None init_stream () = (Inr s, w')"
    by (cases "stream_loop demo_stream None init_stream ()") (auto split: sum.splits)
  have "fold (tool_event 1) (map projr demo_stream) None
      = Some \<lparr>acc_id = ''t1'', acc_name = ''ls'', json_buf = ''{}'', complete = True\<rparr>"
    by (simp add: demo_stream_def)
  then show ?thesis
    using r stream_blocks_independent [OF r, of 1] by auto
qed

text \<open>
  Argument-free tool calls break the turn: when a tool block is started and stopped without an input
  delta, its buffer is empty and the \<open>input\<close> sent with the start event is ignored, so with any parser
  that rejects the empty string (as JSON does) the whole stream ends in an error.
\<close>
theorem stream_empty_input_fails:
  assumes "json_parse [] = Inl err"
  shows "\<exists>e. consume_stream_events json_parse
      (map Inr [MessageStart m, ContentBlockStart i (StreamToolUse tid n (JObject [])), ContentBlockStop i, MessageStop])
      None w = (Inl e, w)"
  using assms by (simp add: consume_stream_events_def init_stream_def new_accumulator_def accumulator_ops
      finish_stream_def drain_ready_def)

lemma stream_empty_input_fails_witness:
  "\<exists>e. consume_stream_events demo_parse
      (map Inr [MessageStart ''m'', ContentBlockStart 0 (StreamToolUse ''t'' ''pwd'' (JObject [])), ContentBlockStop 0, MessageStop])
      None () = (Inl e, ())"
  by (rule stream_empty_input_fails [of demo_parse "''bad''"]) (simp add: demo_parse_def)

end
