(* ===== verification/Tools.thy ===== *)
theory Tools
  imports Json
begin

text \<open>
  Tool results, the tool trait, the tool registry and the hook registry (\<open>tools/result.rs\<close>,
  \<open>tools/definition.rs\<close>, \<open>tools/registry.rs\<close>, \<open>hooks/types.rs\<close>, \<open>hooks/registry.rs\<close>).

  A tool and a hook are trait objects: user code the registry only calls.  A tool is a record of
  functions and a hook handler is a function; both may act on the outside, an abstract world \<open>'w\<close> that is
  threaded through every call in the order the code makes the calls.
\<close>

datatype tool_result_block =
    ResText string
  | ResJson json
  | ResBinary string string

record tool_result =
  res_blocks :: "tool_result_block list"
  res_is_error :: bool

definition result_text :: "string \<Rightarrow> tool_result" where
  "result_text c = \<lparr>res_blocks = [ResText c], res_is_error = False\<rparr>"

definition result_error :: "string \<Rightarrow> tool_result" where
  "result_error c = \<lparr>res_blocks = [ResText c], res_is_error = True\<rparr>"

definition result_json :: "json \<Rightarrow> tool_result" where
  "result_json v = \<lparr>res_blocks = [ResJson v], res_is_error = False\<rparr>"

datatype tool_error =
    ValidationFailed string
  | PermissionDenied string
  | Timeout string nat
  | Internal string

fun tool_error_text :: "tool_error \<Rightarrow> string" where
  "tool_error_text (ValidationFailed m) = ''validation failed: '' @ m"
| "tool_error_text (PermissionDenied m) = ''permission denied: '' @ m"
| "tool_error_text (Timeout n ms) = ''tool '' @ [CHR 0x27] @ n @ [CHR 0x27] @ '' timed out after '' @ dec ms @ ''ms''"
| "tool_error_text (Internal m) = ''internal error: '' @ m"

record tool_context =
  session_id :: string
  trace_id :: string
  ctx_metadata :: json

record 'w tool =
  tool_name :: string
  input_schema :: json
  description :: string
  validate_input :: "json \<Rightarrow> string + unit"
  tool_call :: "json \<Rightarrow> tool_context \<Rightarrow> 'w \<Rightarrow> (tool_error + tool_result) \<times> 'w"
  is_concurrency_safe :: bool


section \<open>Tool registry\<close>

type_synonym 'w tool_registry = "(string, 'w tool) imap"

definition register_tool :: "'w tool \<Rightarrow> 'w tool_registry \<Rightarrow> 'w tool_registry" where
  "register_tool t reg = im_insert (tool_name t) t reg"

definition unregister_tool :: "string \<Rightarrow> 'w tool_registry \<Rightarrow> 'w tool_registry \<times> 'w tool option" where
  "unregister_tool n reg = (im_remove n reg, map_of reg n)"

definition get_tool :: "'w tool_registry \<Rightarrow> string \<Rightarrow> 'w tool option" where
  "get_tool reg n = map_of reg n"

definition tool_definitions :: "'w tool_registry \<Rightarrow> json list" where
  "tool_definitions reg =
     map (\<lambda>t. JObject [(''name'', JString (tool_name t)), (''description'', JString (description t)),
                       (''input_schema'', input_schema t)]) (im_values reg)"

definition registry_wf :: "'w tool_registry \<Rightarrow> bool" where
  "registry_wf reg \<longleftrightarrow> im_wf reg \<and> list_all (\<lambda>(n, t). tool_name t = n) reg"


section \<open>Hooks\<close>

datatype hook_event =
    PreToolUse string json
  | PostToolUse string tool_result
  | PreSendMessage string
  | PostSendMessage string "string option"

datatype hook_result =
    Continue
  | Block string
  | Transform json
  | TransformToolResult tool_result

datatype post_tool_hook_result =
    PostContinue
  | PostBlock string
  | PostTransform tool_result

type_synonym 'w hook_handler = "hook_event \<Rightarrow> 'w \<Rightarrow> hook_result \<times> 'w"

record 'w hook_registry =
  pre_hooks :: "'w hook_handler list"
  post_hooks :: "'w hook_handler list"

definition register_pre_hook :: "'w hook_handler \<Rightarrow> 'w hook_registry \<Rightarrow> 'w hook_registry" where
  "register_pre_hook h r = r\<lparr>pre_hooks := pre_hooks r @ [h]\<rparr>"

definition register_post_hook :: "'w hook_handler \<Rightarrow> 'w hook_registry \<Rightarrow> 'w hook_registry" where
  "register_post_hook h r = r\<lparr>post_hooks := post_hooks r @ [h]\<rparr>"

fun run_hooks :: "'w hook_handler list \<Rightarrow> hook_event \<Rightarrow> 'w \<Rightarrow> 'w" where
  "run_hooks [] e w = w"
| "run_hooks (h # hs) e w = run_hooks hs e (snd (h e w))"

definition run_pre_hooks :: "'w hook_registry \<Rightarrow> hook_event \<Rightarrow> 'w \<Rightarrow> 'w" where
  "run_pre_hooks r = run_hooks (pre_hooks r)"

definition run_post_hooks :: "'w hook_registry \<Rightarrow> hook_event \<Rightarrow> 'w \<Rightarrow> 'w" where
  "run_post_hooks r = run_hooks (post_hooks r)"

fun pre_tool_loop ::
  "'w hook_handler list \<Rightarrow> string \<Rightarrow> json \<Rightarrow> bool \<Rightarrow> 'w \<Rightarrow> hook_result \<times> 'w" where
  "pre_tool_loop [] n eff transformed w = (if transformed then Transform eff else Continue, w)"
| "pre_tool_loop (h # hs) n eff transformed w =
     (case h (PreToolUse n eff) w of
        (Continue, w') \<Rightarrow> pre_tool_loop hs n eff transformed w'
      | (Transform v, w') \<Rightarrow> pre_tool_loop hs n v True w'
      | (Block reason, w') \<Rightarrow> (Block reason, w')
      | (TransformToolResult _, w') \<Rightarrow> pre_tool_loop hs n eff transformed w')"

definition run_pre_tool_hooks :: "'w hook_registry \<Rightarrow> string \<Rightarrow> json \<Rightarrow> 'w \<Rightarrow> hook_result \<times> 'w" where
  "run_pre_tool_hooks r n input w = pre_tool_loop (pre_hooks r) n input False w"

fun post_tool_loop ::
  "'w hook_handler list \<Rightarrow> string \<Rightarrow> tool_result \<Rightarrow> bool \<Rightarrow> 'w \<Rightarrow> post_tool_hook_result \<times> 'w" where
  "post_tool_loop [] n eff transformed w = (if transformed then PostTransform eff else PostContinue, w)"
| "post_tool_loop (h # hs) n eff transformed w =
     (case h (PostToolUse n eff) w of
        (Continue, w') \<Rightarrow> post_tool_loop hs n eff transformed w'
      | (TransformToolResult r, w') \<Rightarrow> post_tool_loop hs n r True w'
      | (Block reason, w') \<Rightarrow> (PostBlock reason, w')
      | (Transform _, w') \<Rightarrow> post_tool_loop hs n eff transformed w')"

definition run_post_tool_hooks ::
  "'w hook_registry \<Rightarrow> string \<Rightarrow> tool_result \<Rightarrow> 'w \<Rightarrow> post_tool_hook_result \<times> 'w" where
  "run_post_tool_hooks r n res w = post_tool_loop (post_hooks r) n res False w"


section \<open>Lemmas\<close>

lemma registry_wf_Nil [simp]: "registry_wf []"
  by (simp add: registry_wf_def)

lemma registry_wf_register [wf_intros]: "registry_wf reg \<Longrightarrow> registry_wf (register_tool t reg)"
proof -
  have "list_all (\<lambda>(n, t). tool_name t = n) m \<Longrightarrow>
      list_all (\<lambda>(n, t). tool_name t = n) (im_insert (tool_name t) t m)" for m
    by (induction m) auto
  then show "registry_wf reg \<Longrightarrow> registry_wf (register_tool t reg)"
    by (simp add: registry_wf_def register_tool_def im_wf_insert)
qed

lemma set_delete_subset: "set (im_remove k m) \<subseteq> set m"
  by (induction m) auto

lemma registry_wf_unregister [wf_intros]: "registry_wf reg \<Longrightarrow> registry_wf (fst (unregister_tool n reg))"
  using set_delete_subset [of n reg] by (auto simp: registry_wf_def unregister_tool_def im_wf_remove list_all_iff)

lemma get_registered: "get_tool (register_tool t reg) n = (if n = tool_name t then Some t else get_tool reg n)"
  by (simp add: get_tool_def register_tool_def im.get_ins)

text \<open>The pre-tool chain never yields a tool result, and what it transforms is what the last handler saw.\<close>

lemma pre_tool_loop_no_result: "fst (pre_tool_loop hs n i t w) \<noteq> TransformToolResult r"
  by (induction hs arbitrary: i t w) (auto split: prod.split hook_result.split)

lemma run_pre_tool_hooks_no_result: "run_pre_tool_hooks r n i w \<noteq> (TransformToolResult x, w')"
  using pre_tool_loop_no_result [of "pre_hooks r" n i False w x] by (auto simp: run_pre_tool_hooks_def)

lemma get_tool_name: "registry_wf reg \<Longrightarrow> get_tool reg n = Some t \<Longrightarrow> tool_name t = n"
  by (auto simp: registry_wf_def get_tool_def list_all_iff dest!: map_of_SomeD)

end
