(* ===== verification/Permissions.thy ===== *)
theory Permissions
  imports Json
begin

text \<open>
  Permission decisions for tools (\<open>permissions/types.rs\<close>, \<open>checker.rs\<close>, \<open>policy.rs\<close>).  A custom
  policy is a trait object: here a function from the tool name and the input to a decision.
\<close>

datatype permission_risk_level = Low | High

record permission_request =
  req_tool_name :: string
  prompt :: string
  options :: "string list"
  risk_level :: permission_risk_level
  requires_user_confirmation :: bool
  raw_input :: json
  input_preview :: string

datatype permission_decision = Allow | Deny string | Ask permission_request

record permission_rule =
  tool_pattern :: string
  decision :: permission_decision
  priority :: nat

datatype permission_mode = AllowAll | DenyAll | RuleBased

type_synonym permission_policy = "string \<Rightarrow> json \<Rightarrow> permission_decision"

definition allow_all_policy :: permission_policy where
  "allow_all_policy = (\<lambda>_ _. Allow)"

definition deny_all_policy :: permission_policy where
  "deny_all_policy = (\<lambda>tool_name _. Deny (''all tools denied: '' @ tool_name))"

record permission_checker =
  mode :: permission_mode
  rules :: "permission_rule list"
  policy :: "permission_policy option"

definition new_checker :: "permission_mode \<Rightarrow> permission_checker" where
  "new_checker m = \<lparr>mode = m, rules = [], policy = None\<rparr>"

definition add_rule :: "permission_rule \<Rightarrow> permission_checker \<Rightarrow> permission_checker" where
  "add_rule r c = c\<lparr>rules := sort_key (\<lambda>r. Reverse (priority r)) (rules c @ [r])\<rparr>"

definition set_policy :: "permission_policy \<Rightarrow> permission_checker \<Rightarrow> permission_checker" where
  "set_policy p c = c\<lparr>policy := Some p\<rparr>"

definition classify_risk_level :: "string \<Rightarrow> permission_risk_level" where
  "classify_risk_level tool_name =
     (if tool_name \<in> set [''bash_exec'', ''file_write'', ''file_edit''] then High else Low)"

definition build_input_preview :: "(json \<Rightarrow> string) \<Rightarrow> json \<Rightarrow> string" where
  "build_input_preview json_text input =
     (let serialized = json_text input;
          preview = take_chars 200 serialized
      in if 200 < count_chars serialized then preview @ utf8 [226, 128, 166] else preview)"

text \<open>The prompt is the Chinese text of the source in UTF-8.\<close>

definition default_permission_request :: "(json \<Rightarrow> string) \<Rightarrow> string \<Rightarrow> json \<Rightarrow> permission_request" where
  "default_permission_request json_text name input =
     \<lparr>req_tool_name = name,
      prompt = utf8 [229, 133, 129, 232, 174, 184, 229, 183, 165, 229, 133, 183, 32, 39] @ name @ utf8 [39, 32, 228, 189, 191, 231, 148, 168, 229, 189, 147, 229, 137, 141, 229, 143, 130, 230, 149, 176, 230, 137, 167, 232, 161, 140, 229, 144, 151, 239, 188, 159],
      options = [''allow'', ''deny''],
      risk_level = classify_risk_level name,
      requires_user_confirmation = True,
      raw_input = input,
      input_preview = build_input_preview json_text input\<rparr>"

definition tool_matches :: "string \<Rightarrow> string \<Rightarrow> bool" where
  "tool_matches pattern tool_name =
     (if pattern = ''*'' then True
      else case strip_suffix ''*'' pattern of
        Some prefix \<Rightarrow> starts_with tool_name prefix
      | None \<Rightarrow> pattern = tool_name)"

fun first_match :: "permission_rule list \<Rightarrow> string \<Rightarrow> permission_decision option" where
  "first_match [] tool_name = None"
| "first_match (r # rs) tool_name =
     (if tool_matches (tool_pattern r) tool_name then Some (decision r) else first_match rs tool_name)"

definition has_permission ::
  "(json \<Rightarrow> string) \<Rightarrow> permission_checker \<Rightarrow> string \<Rightarrow> json \<Rightarrow> permission_decision" where
  "has_permission json_text c tool_name input =
     (case mode c of
        AllowAll \<Rightarrow> Allow
      | DenyAll \<Rightarrow> Deny ''deny-all mode''
      | RuleBased \<Rightarrow>
          (case first_match (rules c) tool_name of
             Some d \<Rightarrow> d
           | None \<Rightarrow>
               (case policy c of
                  Some p \<Rightarrow> p tool_name input
                | None \<Rightarrow> Ask (default_permission_request json_text tool_name input))))"


section \<open>Lemmas\<close>

lemma add_rules: "rules (fold add_rule rs (new_checker m)) = sort_key (\<lambda>r. Reverse (priority r)) rs"
proof -
  have "rules (fold add_rule rs c) = fold (\<lambda>r acc. sort_key (\<lambda>r. Reverse (priority r)) (acc @ [r])) rs (rules c)" for c
    by (induction rs arbitrary: c) (simp_all add: add_rule_def)
  then show ?thesis
    using sort_key_fold [of "\<lambda>r. Reverse (priority r)" rs "[]"] by (simp add: new_checker_def)
qed

lemma add_rules_rest:
  "mode (fold add_rule rs c) = mode c" "policy (fold add_rule rs c) = policy c"
  by (induction rs arbitrary: c) (simp_all add: add_rule_def)

lemma new_checker_simps [simp]: "mode (new_checker m) = m" "policy (new_checker m) = None"
  by (simp_all add: new_checker_def)

lemma first_match_filter:
  "first_match rs n = (case filter (\<lambda>r. tool_matches (tool_pattern r) n) rs of [] \<Rightarrow> None | r # _ \<Rightarrow> Some (decision r))"
  by (induction rs) simp_all

lemma Min_Reverse:
  "finite A \<Longrightarrow> A \<noteq> {} \<Longrightarrow> Min (Reverse ` A) = Reverse (Max A)"
  by (rule Min_eqI) (auto simp: less_eq_reverse_def)

lemma first_match_priority:
  assumes "filter (\<lambda>r. tool_matches (tool_pattern r) n) rs = ms" "ms \<noteq> []"
  shows "first_match (sort_key (\<lambda>r. Reverse (priority r)) rs) n
    = Some (decision (hd (filter (\<lambda>r. priority r = Max (priority ` set ms)) ms)))"
proof -
  let ?f = "\<lambda>r. Reverse (priority r)"
  have "filter (\<lambda>r. tool_matches (tool_pattern r) n) (sort_key ?f rs) = sort_key ?f ms"
    using assms(1) by (simp add: filter_sort)
  moreover have "sort_key ?f ms \<noteq> []"
    using assms(2) by (metis length_0_conv length_sort)
  moreover have "?f ` set ms = Reverse ` priority ` set ms"
    by auto
  then have "hd (sort_key ?f ms) = hd (filter (\<lambda>r. priority r = Max (priority ` set ms)) ms)"
    using hd_sort_key [OF assms(2), of ?f] assms(2) by (simp add: Min_Reverse)
  ultimately show ?thesis
    by (auto simp: first_match_filter split: list.split)
qed


section \<open>Properties\<close>

text \<open>
  C37. Rule resolution: however the rules were added, the checker answers with the decision of the
  matching rule of highest priority, the earliest added one among equals; without a matching rule the
  custom policy decides, and without a policy the user is asked about exactly this call.
\<close>
theorem permission_highest_priority_first:
  "has_permission json_text ((fold add_rule rs (new_checker RuleBased))\<lparr>policy := p\<rparr>) n input =
     (let matching = filter (\<lambda>r. tool_matches (tool_pattern r) n) rs
      in if matching \<noteq> [] then decision (hd (filter (\<lambda>r. priority r = Max (priority ` set matching)) matching))
         else case p of Some f \<Rightarrow> f n input
              | None \<Rightarrow> Ask (default_permission_request json_text n input))"
proof (cases "filter (\<lambda>r. tool_matches (tool_pattern r) n) rs = []")
  case True
  then have "first_match (sort_key (\<lambda>r. Reverse (priority r)) rs) n = None"
    by (simp add: first_match_filter filter_sort)
  then show ?thesis
    using True by (simp add: has_permission_def add_rules add_rules_rest Let_def
        del: filter_empty_conv)
next
  case False
  then show ?thesis
    using first_match_priority [OF refl False]
    by (simp add: has_permission_def add_rules add_rules_rest Let_def del: filter_empty_conv)
qed

end
