(* ===== verification/Tool_Execution.thy ===== *)
theory Tool_Execution
  imports Tools Permissions
begin

text \<open>
  One tool invocation (\<open>tools/execution.rs\<close>): pre-hooks, input validation, permission check, call,
  post-hooks, with the invocation record and the lifecycle events.  The clock, the id generator and the
  lifecycle callback are the environment's functions on the abstract world \<open>'w\<close>; each call of the source
  is one application, in the same order.
\<close>

datatype tool_invocation_phase =
    Detected | ValidatingInput | PermissionChecking | PermissionRequested | PermissionResolved
  | Executing | Completed | Failed | ResultRecorded

datatype tool_permission_state = NotRequired | Checking | Requested | Allowed | Denied

record tool_invocation_record =
  invocation_id :: string
  inv_tool_name :: string
  phase :: tool_invocation_phase
  permission_state :: tool_permission_state
  started_at_ms :: nat
  finished_at_ms :: "nat option"
  inv_tool_use_id :: "string option"
  result_summary :: "string option"
  error_summary :: "string option"

record run_tool_options =
  opt_tool_name :: string
  opt_input :: json
  opt_context :: tool_context
  opt_invocation_id :: "string option"

record awaiting_tool_permission =
  aw_invocation :: tool_invocation_record
  aw_input :: json
  aw_permission_request :: permission_request
  aw_context :: tool_context

datatype run_tool_use_outcome =
    OutcomeCompleted tool_invocation_record tool_result
  | AwaitingPermission awaiting_tool_permission

record 'w env =
  now_ms :: "'w \<Rightarrow> nat \<times> 'w"
  uuid_v4 :: "'w \<Rightarrow> string \<times> 'w"
  json_text :: "json \<Rightarrow> string"

type_synonym 'w lifecycle_callback = "string \<Rightarrow> json \<Rightarrow> 'w \<Rightarrow> 'w"

fun phase_name :: "tool_invocation_phase \<Rightarrow> string" where
  "phase_name Detected = ''detected''"
| "phase_name ValidatingInput = ''validating_input''"
| "phase_name PermissionChecking = ''permission_checking''"
| "phase_name PermissionRequested = ''permission_requested''"
| "phase_name PermissionResolved = ''permission_resolved''"
| "phase_name Executing = ''executing''"
| "phase_name Completed = ''completed''"
| "phase_name Failed = ''failed''"
| "phase_name ResultRecorded = ''result_recorded''"

fun permission_state_name :: "tool_permission_state \<Rightarrow> string" where
  "permission_state_name NotRequired = ''not_required''"
| "permission_state_name Checking = ''checking''"
| "permission_state_name Requested = ''requested''"
| "permission_state_name Allowed = ''allowed''"
| "permission_state_name Denied = ''denied''"

definition opt_json :: "('a \<Rightarrow> json) \<Rightarrow> 'a option \<Rightarrow> json" where
  "opt_json f x = (case x of None \<Rightarrow> JNull | Some v \<Rightarrow> f v)"

definition new_invocation ::
  "'w env \<Rightarrow> string \<Rightarrow> string \<Rightarrow> string option \<Rightarrow> 'w \<Rightarrow> tool_invocation_record \<times> 'w" where
  "new_invocation e iid n tuid w =
     (case now_ms e w of (t, w') \<Rightarrow>
       (\<lparr>invocation_id = iid, inv_tool_name = n, phase = Detected, permission_state = NotRequired,
         started_at_ms = t, finished_at_ms = None, inv_tool_use_id = tuid, result_summary = None,
         error_summary = None\<rparr>, w'))"

definition mark_phase ::
  "'w env \<Rightarrow> tool_invocation_phase \<Rightarrow> tool_invocation_record \<Rightarrow> 'w \<Rightarrow> tool_invocation_record \<times> 'w" where
  "mark_phase e p iv w =
     (if p = Completed \<or> p = Failed then
        (case now_ms e w of (t, w') \<Rightarrow> (iv\<lparr>phase := p, finished_at_ms := Some t\<rparr>, w'))
      else (iv\<lparr>phase := p\<rparr>, w))"

definition summarize_tool_result :: "(json \<Rightarrow> string) \<Rightarrow> tool_result \<Rightarrow> string option" where
  "summarize_tool_result jt r =
     (let parts = map (\<lambda>b. case b of
                  ResText t \<Rightarrow> t
                | ResJson v \<Rightarrow> jt v
                | ResBinary mime d \<Rightarrow> ''[binary: '' @ mime @ '', '' @ dec (length d) @ '' bytes]'')
                (take 2 (res_blocks r))
      in if parts = [] then None else Some (take_chars 240 (str_join ''\<newline>'' parts)))"

definition set_permission_state ::
  "tool_permission_state \<Rightarrow> tool_invocation_record \<Rightarrow> tool_invocation_record" where
  "set_permission_state s iv = iv\<lparr>permission_state := s\<rparr>"

definition set_result :: "'w env \<Rightarrow> tool_result \<Rightarrow> tool_invocation_record \<Rightarrow> tool_invocation_record" where
  "set_result e r iv = iv\<lparr>result_summary := summarize_tool_result (json_text e) r\<rparr>"

definition set_error :: "string \<Rightarrow> tool_invocation_record \<Rightarrow> tool_invocation_record" where
  "set_error m iv = iv\<lparr>error_summary := Some m\<rparr>"

definition emit_tool_lifecycle_event ::
  "'w lifecycle_callback option \<Rightarrow> string \<Rightarrow> tool_invocation_record \<Rightarrow> json \<Rightarrow> 'w \<Rightarrow> 'w" where
  "emit_tool_lifecycle_event cb event iv details w =
     (case cb of None \<Rightarrow> w
      | Some f \<Rightarrow> f event (JObject
          [(''invocation_id'', JString (invocation_id iv)), (''tool_name'', JString (inv_tool_name iv)),
           (''tool_use_id'', opt_json JString (inv_tool_use_id iv)),
           (''phase'', JString (phase_name (phase iv))),
           (''permission_state'', JString (permission_state_name (permission_state iv))),
           (''started_at_ms'', JNumber (int (started_at_ms iv))),
           (''finished_at_ms'', opt_json (\<lambda>t. JNumber (int t)) (finished_at_ms iv)),
           (''result_summary'', opt_json JString (result_summary iv)),
           (''error_summary'', opt_json JString (error_summary iv)),
           (''details'', details)]) w)"


section \<open>The call with its post-hooks\<close>

definition apply_post_hooks ::
  "'w hook_registry option \<Rightarrow> string \<Rightarrow> tool_result \<Rightarrow> 'w \<Rightarrow> tool_result \<times> 'w" where
  "apply_post_hooks hooks n r w =
     (case hooks of
        None \<Rightarrow> (r, w)
      | Some h \<Rightarrow>
          (case run_post_tool_hooks h n r (run_post_hooks h (PostToolUse n r) w) of
             (PostContinue, w') \<Rightarrow> (r, w')
           | (PostTransform r', w') \<Rightarrow> (r', w')
           | (PostBlock feedback, w') \<Rightarrow> (result_error feedback, w')))"

definition execute_tool_call ::
  "'w env \<Rightarrow> 'w tool \<Rightarrow> run_tool_options \<Rightarrow> 'w hook_registry option \<Rightarrow> 'w lifecycle_callback option \<Rightarrow>
   tool_invocation_record \<Rightarrow> 'w \<Rightarrow> (tool_error + tool_invocation_record \<times> tool_result) \<times> 'w" where
  "execute_tool_call e tool opts hooks cb iv w =
     (let (iv1, w1) = mark_phase e Executing iv w;
          w2 = emit_tool_lifecycle_event cb ''tool_execution_started'' iv1
                 (JObject [(''tool_input'', opt_input opts)]) w1
      in case tool_call tool (opt_input opts) (opt_context opts) w2 of
           (Inl err, w3) \<Rightarrow>
             let (iv2, w4) = mark_phase e Failed iv1 w3;
                 iv3 = set_error (tool_error_text err) iv2;
                 w5 = emit_tool_lifecycle_event cb ''tool_execution_failed'' iv3
                        (JObject [(''error'', JString (tool_error_text err))]) w4
             in (Inl err, w5)
         | (Inr r, w3) \<Rightarrow>
             let (r', w4) = apply_post_hooks hooks (opt_tool_name opts) r w3;
                 (iv2, w5) = mark_phase e Completed iv1 w4;
                 iv3 = set_result e r' iv2;
                 w6 = emit_tool_lifecycle_event cb ''tool_execution_finished'' iv3
                        (JObject [(''is_error'', JBool (res_is_error r'))]) w5
             in (Inr (iv3, r'), w6))"


section \<open>The full flow\<close>

text \<open>
  The pre-hook stage and the validation stage are written twice in the source, with the same text, in
  \<open>run_tool_use\<close> and \<open>execute_tool_after_permission\<close>.
\<close>

definition pre_hook_stage ::
  "'w env \<Rightarrow> 'w hook_registry option \<Rightarrow> 'w lifecycle_callback option \<Rightarrow> tool_invocation_record \<Rightarrow> string \<Rightarrow>
   json \<Rightarrow> 'w \<Rightarrow> (tool_error + json) \<times> 'w" where
  "pre_hook_stage e hooks cb iv n input w =
     (case hooks of
        None \<Rightarrow> (Inr input, w)
      | Some h \<Rightarrow>
          (case run_pre_tool_hooks h n input w of
             (Continue, w1) \<Rightarrow> (Inr input, w1)
           | (Transform v, w1) \<Rightarrow> (Inr v, w1)
           | (Block reason, w1) \<Rightarrow>
               let msg = ''blocked by hook: '' @ reason;
                   (iv1, w2) = mark_phase e Failed iv w1;
                   w3 = emit_tool_lifecycle_event cb ''tool_execution_failed'' (set_error msg iv1)
                          (JObject [(''error'', JString msg), (''stage'', JString ''pre_hook'')]) w2
               in (Inl (PermissionDenied msg), w3)
           | (TransformToolResult _, w1) \<Rightarrow> (Inr input, w1)))"

definition validation_stage ::
  "'w env \<Rightarrow> 'w tool \<Rightarrow> 'w lifecycle_callback option \<Rightarrow> tool_invocation_record \<Rightarrow> json \<Rightarrow> 'w \<Rightarrow>
   (tool_error + tool_invocation_record) \<times> 'w" where
  "validation_stage e tool cb iv input w =
     (let (iv1, w1) = mark_phase e ValidatingInput iv w
      in case validate_input tool input of
           Inr _ \<Rightarrow> (Inr iv1, w1)
         | Inl msg \<Rightarrow>
             let (iv2, w2) = mark_phase e Failed iv1 w1;
                 w3 = emit_tool_lifecycle_event cb ''tool_execution_failed'' (set_error msg iv2)
                        (JObject [(''error'', JString msg), (''stage'', JString ''validate_input'')]) w2
             in (Inl (ValidationFailed msg), w3))"

datatype permission_verdict =
    Granted tool_invocation_record
  | Refused string
  | Suspended tool_invocation_record permission_request

definition permission_stage ::
  "'w env \<Rightarrow> 'w tool \<Rightarrow> permission_checker option \<Rightarrow> 'w lifecycle_callback option \<Rightarrow> tool_invocation_record \<Rightarrow>
   json \<Rightarrow> 'w \<Rightarrow> permission_verdict \<times> 'w" where
  "permission_stage e tool checker cb iv input w =
     (let (iv1, w1) = mark_phase e PermissionChecking iv w;
          iv2 = set_permission_state (if checker \<noteq> None then Checking else NotRequired) iv1
      in case checker of
           None \<Rightarrow> (Granted iv2, w1)
         | Some c \<Rightarrow>
             (case has_permission (json_text e) c (tool_name tool) input of
                Allow \<Rightarrow>
                  let (iv3, w2) = mark_phase e PermissionResolved (set_permission_state Allowed iv2) w1;
                      w3 = emit_tool_lifecycle_event cb ''tool_permission_resolved'' iv3
                             (JObject [(''decision'', JString ''allow''), (''source'', JString ''permission_checker'')]) w2
                  in (Granted iv3, w3)
              | Deny reason \<Rightarrow>
                  let (iv3, w2) = mark_phase e Failed (set_permission_state Denied iv2) w1;
                      iv4 = set_error reason iv3;
                      w3 = emit_tool_lifecycle_event cb ''tool_permission_resolved'' iv4
                             (JObject [(''decision'', JString ''deny''), (''source'', JString ''permission_checker''),
                                       (''reason'', JString reason)]) w2
                  in (Refused reason, w3)
              | Ask req \<Rightarrow>
                  let (iv3, w2) = mark_phase e PermissionRequested (set_permission_state Requested iv2) w1;
                      w3 = emit_tool_lifecycle_event cb ''tool_permission_requested'' iv3
                             (JObject [(''prompt'', JString (prompt req)),
                                       (''options'', JArray (map JString (options req))),
                                       (''input_preview'', JString (input_preview req))]) w2
                  in (Suspended iv3 req, w3)))"

definition start_invocation ::
  "'w env \<Rightarrow> run_tool_options \<Rightarrow> 'w lifecycle_callback option \<Rightarrow> 'w \<Rightarrow> tool_invocation_record \<times> 'w" where
  "start_invocation e opts cb w =
     (let (iid, w1) = (case opt_invocation_id opts of Some i \<Rightarrow> (i, w)
                       | None \<Rightarrow> (case uuid_v4 e w of (u, w') \<Rightarrow> (''toolinv_'' @ u, w')));
          (iv, w2) = new_invocation e iid (opt_tool_name opts) None w1
      in (iv, emit_tool_lifecycle_event cb ''tool_invocation_detected'' iv
                (JObject [(''tool_input'', opt_input opts)]) w2))"

definition run_tool_use ::
  "'w env \<Rightarrow> 'w tool \<Rightarrow> run_tool_options \<Rightarrow> permission_checker option \<Rightarrow> 'w hook_registry option \<Rightarrow>
   'w lifecycle_callback option \<Rightarrow> 'w \<Rightarrow> (tool_error + run_tool_use_outcome) \<times> 'w" where
  "run_tool_use e tool opts checker hooks cb w =
     (case start_invocation e opts cb w of (iv, w1) \<Rightarrow>
        (case pre_hook_stage e hooks cb iv (opt_tool_name opts) (opt_input opts) w1 of
           (Inl err, w2) \<Rightarrow> (Inl err, w2)
         | (Inr input, w2) \<Rightarrow>
             (case validation_stage e tool cb iv input w2 of
                (Inl err, w3) \<Rightarrow> (Inl err, w3)
              | (Inr iv1, w3) \<Rightarrow>
                  (case permission_stage e tool checker cb iv1 input w3 of
                     (Refused reason, w4) \<Rightarrow> (Inl (PermissionDenied reason), w4)
                   | (Suspended iv2 req, w4) \<Rightarrow>
                       (Inr (AwaitingPermission
                          \<lparr>aw_invocation = iv2, aw_input = input, aw_permission_request = req,
                           aw_context = opt_context opts\<rparr>), w4)
                   | (Granted iv2, w4) \<Rightarrow>
                       (case execute_tool_call e tool (opts\<lparr>opt_input := input\<rparr>) hooks cb iv2 w4 of
                          (Inl err, w5) \<Rightarrow> (Inl err, w5)
                        | (Inr (iv3, r), w5) \<Rightarrow> (Inr (OutcomeCompleted iv3 r), w5))))))"

definition execute_tool_after_permission ::
  "'w env \<Rightarrow> 'w tool \<Rightarrow> run_tool_options \<Rightarrow> 'w hook_registry option \<Rightarrow> tool_invocation_record \<Rightarrow>
   'w lifecycle_callback option \<Rightarrow> 'w \<Rightarrow> (tool_error + tool_invocation_record \<times> tool_result) \<times> 'w" where
  "execute_tool_after_permission e tool opts hooks iv cb w =
     (case pre_hook_stage e hooks cb iv (opt_tool_name opts) (opt_input opts) w of
        (Inl err, w1) \<Rightarrow> (Inl err, w1)
      | (Inr input, w1) \<Rightarrow>
          (case validation_stage e tool cb iv input w1 of
             (Inl err, w2) \<Rightarrow> (Inl err, w2)
           | (Inr iv1, w2) \<Rightarrow>
               let (iv2, w3) = mark_phase e PermissionResolved (set_permission_state Allowed iv1) w2;
                   w4 = emit_tool_lifecycle_event cb ''tool_permission_resolved'' iv2
                          (JObject [(''decision'', JString ''allow''), (''source'', JString ''resume'')]) w3
               in execute_tool_call e tool (opts\<lparr>opt_input := input\<rparr>) hooks cb iv2 w4))"


section \<open>Lemmas: what each stage records\<close>

lemma mark_phase_record:
  "mark_phase e p iv w = (iv', w') \<Longrightarrow>
   phase iv' = p \<and> permission_state iv' = permission_state iv \<and> invocation_id iv' = invocation_id iv \<and>
   inv_tool_name iv' = inv_tool_name iv \<and> started_at_ms iv' = started_at_ms iv \<and>
   finished_at_ms iv' = (if p = Completed \<or> p = Failed then finished_at_ms iv' else finished_at_ms iv) \<and>
   (p = Completed \<or> p = Failed \<longrightarrow> finished_at_ms iv' \<noteq> None)"
  by (auto simp: mark_phase_def split: if_splits prod.splits)

lemma mark_phase_open:
  "p \<noteq> Completed \<Longrightarrow> p \<noteq> Failed \<Longrightarrow> mark_phase e p iv w = (iv\<lparr>phase := p\<rparr>, w)"
  by (simp add: mark_phase_def)

lemma set_record_simps [simp]:
  "phase (set_permission_state s iv) = phase iv"
  "permission_state (set_permission_state s iv) = s"
  "invocation_id (set_permission_state s iv) = invocation_id iv"
  "finished_at_ms (set_permission_state s iv) = finished_at_ms iv"
  "phase (set_result e r iv) = phase iv"
  "permission_state (set_result e r iv) = permission_state iv"
  "invocation_id (set_result e r iv) = invocation_id iv"
  "finished_at_ms (set_result e r iv) = finished_at_ms iv"
  by (simp_all add: set_permission_state_def set_result_def)

definition open_invocation :: "tool_invocation_record \<Rightarrow> string \<Rightarrow> bool" where
  "open_invocation iv iid \<longleftrightarrow> finished_at_ms iv = None \<and> invocation_id iv = iid"

lemma new_invocation_open: "new_invocation e iid n t w = (iv, w') \<Longrightarrow> open_invocation iv iid"
  by (cases "now_ms e w") (simp add: new_invocation_def open_invocation_def, auto)

lemma start_invocation_open:
  assumes "start_invocation e opts cb w = (iv, w')"
  shows "open_invocation iv (invocation_id iv) \<and> (\<forall>i. opt_invocation_id opts = Some i \<longrightarrow> invocation_id iv = i)"
proof -
  obtain iid w1 where i: "(case opt_invocation_id opts of Some i \<Rightarrow> (i, w)
      | None \<Rightarrow> (case uuid_v4 e w of (u, w') \<Rightarrow> (''toolinv_'' @ u, w'))) = (iid, w1)"
    by fastforce
  obtain iv' w2 where n: "new_invocation e iid (opt_tool_name opts) None w1 = (iv', w2)"
    by fastforce
  have "iv = iv'"
    using assms by (simp add: start_invocation_def i n)
  then have "open_invocation iv iid"
    using new_invocation_open [OF n] by simp
  moreover have "opt_invocation_id opts = Some j \<longrightarrow> iid = j" for j
    using i by auto
  ultimately show ?thesis
    by (auto simp: open_invocation_def)
qed

lemma validation_stage_Inr:
  "validation_stage e tool cb iv input w = (Inr iv', w') \<longleftrightarrow>
   validate_input tool input = Inr () \<and> iv' = iv\<lparr>phase := ValidatingInput\<rparr> \<and> w' = w"
proof (cases "validate_input tool input")
  case (Inl msg)
  then show ?thesis
    by (simp add: validation_stage_def mark_phase_open Let_def split: prod.split)
next
  case (Inr u)
  then show ?thesis
    by (auto simp: validation_stage_def mark_phase_open)
qed

lemma permission_stage_cases:
  obtains (no_checker) w1 where "checker = None"
      "permission_stage e tool checker cb iv input w
         = (Granted (iv\<lparr>phase := PermissionChecking, permission_state := NotRequired\<rparr>), w1)"
  | (allow) c w1 where "checker = Some c" "has_permission (json_text e) c (tool_name tool) input = Allow"
      "permission_stage e tool checker cb iv input w
         = (Granted (iv\<lparr>phase := PermissionResolved, permission_state := Allowed\<rparr>), w1)"
  | (deny) c reason w1 where "checker = Some c" "has_permission (json_text e) c (tool_name tool) input = Deny reason"
      "permission_stage e tool checker cb iv input w = (Refused reason, w1)"
  | (ask) c req w1 where "checker = Some c" "has_permission (json_text e) c (tool_name tool) input = Ask req"
      "permission_stage e tool checker cb iv input w
         = (Suspended (iv\<lparr>phase := PermissionRequested, permission_state := Requested\<rparr>) req, w1)"
proof (cases checker)
  case None
  then show thesis
    by (intro no_checker) (simp_all add: permission_stage_def mark_phase_open set_permission_state_def)
next
  case (Some c)
  show thesis
  proof (cases "has_permission (json_text e) c (tool_name tool) input")
    case Allow
    then show thesis
      by (intro allow [OF Some]) (simp_all add: permission_stage_def Some mark_phase_open set_permission_state_def)
  next
    case (Deny reason)
    obtain iv3 w2 where m: "mark_phase e Failed
        (set_permission_state Denied (set_permission_state Checking (iv\<lparr>phase := PermissionChecking\<rparr>))) w = (iv3, w2)"
      by fastforce
    show thesis
      by (intro deny [OF Some Deny]) (simp add: permission_stage_def Some Deny mark_phase_open m)
  next
    case (Ask req)
    then show thesis
      by (intro ask [OF Some]) (simp_all add: permission_stage_def Some mark_phase_open set_permission_state_def)
  qed
qed

lemma execute_tool_call_Inr:
  assumes "execute_tool_call e tool opts hooks cb iv w = (Inr (iv', r), w')"
  shows "phase iv' = Completed \<and> finished_at_ms iv' \<noteq> None \<and> permission_state iv' = permission_state iv \<and>
    invocation_id iv' = invocation_id iv"
proof -
  define w2 where "w2 = emit_tool_lifecycle_event cb ''tool_execution_started'' (iv\<lparr>phase := Executing\<rparr>)
    (JObject [(''tool_input'', opt_input opts)]) w"
  obtain x w3 where c: "tool_call tool (opt_input opts) (opt_context opts) w2 = (x, w3)"
    by fastforce
  obtain r0 where x: "x = Inr r0"
    using assms c by (cases x)
      (simp_all add: execute_tool_call_def mark_phase_open w2_def [symmetric] Let_def split: prod.splits)
  obtain r' w4 where p: "apply_post_hooks hooks (opt_tool_name opts) r0 w3 = (r', w4)"
    by fastforce
  obtain iv2 w5 where m: "mark_phase e Completed (iv\<lparr>phase := Executing\<rparr>) w4 = (iv2, w5)"
    by fastforce
  have "iv' = set_result e r' iv2"
    using assms c x p m by (clarsimp simp: execute_tool_call_def mark_phase_open w2_def [symmetric] Let_def)
  then show ?thesis
    using mark_phase_record [OF m] by simp
qed

text \<open>
  The input that reaches the call: what the pre-hooks made of the given one, when it validates and the
  checker allows it.
\<close>

definition admitted_input ::
  "'w env \<Rightarrow> 'w tool \<Rightarrow> run_tool_options \<Rightarrow> permission_checker option \<Rightarrow> 'w hook_registry option \<Rightarrow>
   'w lifecycle_callback option \<Rightarrow> 'w \<Rightarrow> json option" where
  "admitted_input e tool opts checker hooks cb w =
     (case start_invocation e opts cb w of (iv, w1) \<Rightarrow>
        (case pre_hook_stage e hooks cb iv (opt_tool_name opts) (opt_input opts) w1 of
           (Inl _, _) \<Rightarrow> None
         | (Inr input, _) \<Rightarrow>
             if validate_input tool input = Inr () \<and>
                (case checker of None \<Rightarrow> True
                 | Some c \<Rightarrow> has_permission (json_text e) c (tool_name tool) input = Allow)
             then Some input else None))"

text \<open>The record and the world with which an admitted call starts.\<close>

definition admitted_record :: "permission_checker option \<Rightarrow> tool_invocation_record \<Rightarrow> tool_invocation_record" where
  "admitted_record checker iv =
     (if checker = None then iv\<lparr>phase := PermissionChecking, permission_state := NotRequired\<rparr>
      else iv\<lparr>permission_state := Allowed, phase := PermissionResolved\<rparr>)"

definition admitted_world ::
  "permission_checker option \<Rightarrow> 'w lifecycle_callback option \<Rightarrow> tool_invocation_record \<Rightarrow> 'w \<Rightarrow> 'w" where
  "admitted_world checker cb iv w =
     (if checker = None then w
      else emit_tool_lifecycle_event cb ''tool_permission_resolved'' iv
             (JObject [(''decision'', JString ''allow''), (''source'', JString ''permission_checker'')]) w)"

lemma stages_other_call:
  "validation_stage e (tool\<lparr>tool_call := f\<rparr>) cb iv input w = validation_stage e tool cb iv input w"
  "permission_stage e (tool\<lparr>tool_call := f\<rparr>) checker cb iv input w = permission_stage e tool checker cb iv input w"
proof -
  have t: "tool_name (tool\<lparr>tool_call := f\<rparr>) = tool_name tool"
    "validate_input (tool\<lparr>tool_call := f\<rparr>) = validate_input tool"
    by simp_all
  show "validation_stage e (tool\<lparr>tool_call := f\<rparr>) cb iv input w = validation_stage e tool cb iv input w"
    unfolding validation_stage_def t ..
  show "permission_stage e (tool\<lparr>tool_call := f\<rparr>) checker cb iv input w = permission_stage e tool checker cb iv input w"
    unfolding permission_stage_def t ..
qed

lemma run_tool_use_stages:
  assumes "start_invocation e opts cb w = (iv, w1)"
    and "pre_hook_stage e hooks cb iv (opt_tool_name opts) (opt_input opts) w1 = (Inr input, w2)"
    and "validate_input tool input = Inr ()"
  shows "run_tool_use e tool opts checker hooks cb w =
    (case permission_stage e tool checker cb (iv\<lparr>phase := ValidatingInput\<rparr>) input w2 of
       (Refused reason, w4) \<Rightarrow> (Inl (PermissionDenied reason), w4)
     | (Suspended iv2 req, w4) \<Rightarrow>
         (Inr (AwaitingPermission
            \<lparr>aw_invocation = iv2, aw_input = input, aw_permission_request = req,
             aw_context = opt_context opts\<rparr>), w4)
     | (Granted iv2, w4) \<Rightarrow>
         (case execute_tool_call e tool (opts\<lparr>opt_input := input\<rparr>) hooks cb iv2 w4 of
            (Inl err, w5) \<Rightarrow> (Inl err, w5)
          | (Inr (iv3, r), w5) \<Rightarrow> (Inr (OutcomeCompleted iv3 r), w5)))"
proof -
  have v: "validation_stage e tool cb iv input w2 = (Inr (iv\<lparr>phase := ValidatingInput\<rparr>), w2)"
    using assms(3) by (simp add: validation_stage_Inr)
  show ?thesis
    by (simp add: run_tool_use_def assms(1,2) v)
qed


section \<open>Properties\<close>

text \<open>
  C1. No call without admission: when a pre-hook blocks, the (transformed) input fails validation, or the
  checker does not allow it, \<open>run_tool_use\<close> returns the same result and leaves the same world for every
  possible implementation of the tool's \<open>call\<close>: it never runs it.
\<close>
theorem call_never_runs_unadmitted:
  assumes "admitted_input e tool opts checker hooks cb w = None"
  shows "run_tool_use e (tool\<lparr>tool_call := f\<rparr>) opts checker hooks cb w = run_tool_use e tool opts checker hooks cb w"
proof -
  obtain iv w1 where i: "start_invocation e opts cb w = (iv, w1)"
    by fastforce
  obtain x w2 where h: "pre_hook_stage e hooks cb iv (opt_tool_name opts) (opt_input opts) w1 = (x, w2)"
    by fastforce
  show ?thesis
  proof (cases x)
    case (Inl err)
    then show ?thesis by (simp add: run_tool_use_def i h)
  next
    case (Inr input)
    note h' = h [unfolded Inr]
    show ?thesis
    proof (cases "validate_input tool input")
      case (Inl msg)
      then obtain err w3 where "validation_stage e tool cb iv input w2 = (Inl err, w3)"
        by (cases "fst (validation_stage e tool cb iv input w2)";
            cases "validation_stage e tool cb iv input w2") (auto simp: validation_stage_Inr)
      then show ?thesis
        by (simp add: run_tool_use_def i h' stages_other_call)
    next
      case (Inr u)
      then have v: "validate_input tool input = Inr ()" "validate_input (tool\<lparr>tool_call := f\<rparr>) input = Inr ()"
        by simp_all
      have na: "\<not> (case checker of None \<Rightarrow> True
          | Some c \<Rightarrow> has_permission (json_text e) c (tool_name tool) input = Allow)"
        using assms v by (simp add: admitted_input_def i h' split: if_splits)
      show ?thesis
        unfolding run_tool_use_stages [OF i h' v(1)] run_tool_use_stages [OF i h' v(2)] stages_other_call
        by (cases rule: permission_stage_cases [of checker e tool cb "iv\<lparr>phase := ValidatingInput\<rparr>" input w2])
          (use na in auto)
    qed
  qed
qed

text \<open>
  C2. The call gets exactly the admitted input: when what the pre-hooks made of the input passes the
  validation, which the code runs after them, and the checker allows it, the whole run is the call with its
  post-hooks on that input.  The call starts from the record of the start of the invocation, still
  unfinished, whose phase and permission state say whether a checker was asked, and in the world the
  pre-hooks left, to which only the event of the checker's decision is added, when there is a checker.
\<close>
theorem call_runs_on_admitted_input:
  assumes "admitted_input e tool opts checker hooks cb w = Some input"
    and "start_invocation e opts cb w = (iv, w1)"
    and "pre_hook_stage e hooks cb iv (opt_tool_name opts) (opt_input opts) w1 = (x, w2)"
  shows "x = Inr input \<and> validate_input tool input = Inr () \<and> finished_at_ms iv = None \<and>
    run_tool_use e tool opts checker hooks cb w =
      (case execute_tool_call e tool (opts\<lparr>opt_input := input\<rparr>) hooks cb (admitted_record checker iv)
              (admitted_world checker cb (admitted_record checker iv) w2) of
         (Inl err, w3) \<Rightarrow> (Inl err, w3)
       | (Inr (iv3, r), w3) \<Rightarrow> (Inr (OutcomeCompleted iv3 r), w3))"
proof -
  have x: "x = Inr input" and v: "validate_input tool input = Inr ()"
    and p: "case checker of None \<Rightarrow> True
        | Some c \<Rightarrow> has_permission (json_text e) c (tool_name tool) input = Allow"
    using assms by (auto simp: admitted_input_def split: sum.splits if_splits)
  have "permission_stage e tool checker cb (iv\<lparr>phase := ValidatingInput\<rparr>) input w2
      = (Granted (admitted_record checker iv), admitted_world checker cb (admitted_record checker iv) w2)"
    using p by (auto simp: permission_stage_def mark_phase_open set_permission_state_def admitted_record_def
        admitted_world_def split: option.splits)
  then show ?thesis
    using x v start_invocation_open [OF assms(2)] run_tool_use_stages [OF assms(2) assms(3) [unfolded x] v]
    by (simp add: open_invocation_def)
qed

text \<open>A recording environment for the witnesses: the world is the trace of what happened.\<close>

definition demo_env :: "string list env" where
  "demo_env = \<lparr>now_ms = (\<lambda>w. (length w, w)), uuid_v4 = (\<lambda>w. (''u'', w)), json_text = (\<lambda>_. ''{}'')\<rparr>"

definition demo_tool :: "string list tool" where
  "demo_tool = \<lparr>tool_name = ''ls'', input_schema = JNull, description = [], validate_input = (\<lambda>_. Inr ()),
     tool_call = (\<lambda>i c w. (Inr (result_json i), w @ [''call''])), is_concurrency_safe = True\<rparr>"

definition demo_opts :: run_tool_options where
  "demo_opts = \<lparr>opt_tool_name = ''ls'', opt_input = JNumber 1,
     opt_context = \<lparr>session_id = [], trace_id = [], ctx_metadata = JNull\<rparr>, opt_invocation_id = Some ''i''\<rparr>"

lemma call_never_runs_unadmitted_witness:
  "snd (run_tool_use demo_env demo_tool demo_opts (Some (new_checker DenyAll)) None None []) = []"
proof -
  have "admitted_input demo_env demo_tool demo_opts (Some (new_checker DenyAll)) None None [] = None"
    by code_simp
  from call_never_runs_unadmitted [OF this, of "\<lambda>i c w. (Inr (result_json i), w)"]
  have "run_tool_use demo_env demo_tool demo_opts (Some (new_checker DenyAll)) None None []
      = run_tool_use demo_env (demo_tool\<lparr>tool_call := \<lambda>i c w. (Inr (result_json i), w)\<rparr>) demo_opts
          (Some (new_checker DenyAll)) None None []"
    by (rule sym)
  moreover have "snd (run_tool_use demo_env (demo_tool\<lparr>tool_call := \<lambda>i c w. (Inr (result_json i), w)\<rparr>) demo_opts
          (Some (new_checker DenyAll)) None None []) = []"
    by code_simp
  ultimately show ?thesis by simp
qed

lemma call_runs_on_admitted_input_witness:
  "run_tool_use demo_env demo_tool demo_opts (Some (new_checker AllowAll)) None None [] =
     (case execute_tool_call demo_env demo_tool (demo_opts\<lparr>opt_input := JNumber 1\<rparr>) None None
        (admitted_record (Some (new_checker AllowAll)) (fst (start_invocation demo_env demo_opts None [])))
        (admitted_world (Some (new_checker AllowAll)) None
           (admitted_record (Some (new_checker AllowAll)) (fst (start_invocation demo_env demo_opts None []))) []) of
        (Inl err, w3) \<Rightarrow> (Inl err, w3)
      | (Inr (iv3, r), w3) \<Rightarrow> (Inr (OutcomeCompleted iv3 r), w3))"
proof -
  have a: "admitted_input demo_env demo_tool demo_opts (Some (new_checker AllowAll)) None None [] = Some (JNumber 1)"
    by code_simp
  have i: "start_invocation demo_env demo_opts None [] = (fst (start_invocation demo_env demo_opts None []), [])"
    by code_simp
  have h: "pre_hook_stage demo_env None None iv n input w = (Inr input, w)" for iv n input and w :: "string list"
    by (simp add: pre_hook_stage_def)
  show ?thesis
    using call_runs_on_admitted_input [OF a i h] by simp
qed

text \<open>
  C12. The record tells the truth: a completed outcome carries a finished record in phase Completed whose
  permission state is Allowed exactly when a checker was asked; a suspended outcome carries an
  unfinished record in phase PermissionRequested, the effective input, and precisely the request with
  which the checker answered for that input.
\<close>
theorem outcome_record_truthful:
  assumes "run_tool_use e tool opts checker hooks cb w = (Inr out, w')"
  shows "(case out of
      OutcomeCompleted iv r \<Rightarrow> phase iv = Completed \<and> finished_at_ms iv \<noteq> None \<and>
        permission_state iv = (if checker = None then NotRequired else Allowed)
    | AwaitingPermission a \<Rightarrow> phase (aw_invocation a) = PermissionRequested \<and>
        permission_state (aw_invocation a) = Requested \<and> finished_at_ms (aw_invocation a) = None \<and>
        aw_context a = opt_context opts \<and> validate_input tool (aw_input a) = Inr () \<and>
        (\<exists>c. checker = Some c \<and>
             has_permission (json_text e) c (tool_name tool) (aw_input a) = Ask (aw_permission_request a)))"
proof -
  obtain iv w1 where i: "start_invocation e opts cb w = (iv, w1)"
    by fastforce
  obtain x w2 where h: "pre_hook_stage e hooks cb iv (opt_tool_name opts) (opt_input opts) w1 = (x, w2)"
    by fastforce
  obtain input where x: "x = Inr input"
    using assms by (cases x) (simp_all add: run_tool_use_def i h)
  note h' = h [unfolded x]
  have v: "validate_input tool input = Inr ()"
    using assms by (auto simp: run_tool_use_def i h' validation_stage_Inr split: prod.splits sum.splits)
  note st = run_tool_use_stages [OF i h' v]
  have op: "finished_at_ms iv = None"
    using start_invocation_open [OF i] by (simp add: open_invocation_def)
  show ?thesis
  proof (cases rule: permission_stage_cases [of checker e tool cb "iv\<lparr>phase := ValidatingInput\<rparr>" input w2])
    case (no_checker w3)
    then show ?thesis
      using assms by (auto simp: st split: prod.splits sum.splits dest!: execute_tool_call_Inr)
  next
    case (allow c w3)
    then show ?thesis
      using assms by (auto simp: st split: prod.splits sum.splits dest!: execute_tool_call_Inr)
  next
    case (deny c reason w3)
    then show ?thesis
      using assms by (simp add: st)
  next
    case (ask c req w3)
    then show ?thesis
      using assms op v by (auto simp: st)
  qed
qed

lemma outcome_record_truthful_witness:
  "case run_tool_use demo_env demo_tool demo_opts (Some (new_checker RuleBased)) None None [] of
     (Inr (AwaitingPermission a), w') \<Rightarrow>
       phase (aw_invocation a) = PermissionRequested \<and> finished_at_ms (aw_invocation a) = None
   | _ \<Rightarrow> False"
proof -
  have v: "case run_tool_use demo_env demo_tool demo_opts (Some (new_checker RuleBased)) None None [] of
      (Inr (AwaitingPermission a), w') \<Rightarrow> True | _ \<Rightarrow> False"
    by code_simp
  obtain y w' where r: "run_tool_use demo_env demo_tool demo_opts (Some (new_checker RuleBased)) None None [] = (y, w')"
    by fastforce
  obtain a where y: "y = Inr (AwaitingPermission a)"
    using v unfolding r by (auto split: sum.splits run_tool_use_outcome.splits)
  show ?thesis
    using outcome_record_truthful [OF r [unfolded y]] unfolding r y by simp
qed

text \<open>
  Post-hooks run twice per successful call: the generic \<open>run_post_hooks\<close> and the aggregating
  \<open>run_post_tool_hooks\<close> both invoke every registered post-hook, so a side effect of a handler happens
  twice (stated for handlers that record their name in the world and continue).
\<close>
theorem post_hooks_run_twice:
  "apply_post_hooks (Some \<lparr>pre_hooks = ps, post_hooks = map (\<lambda>i ev w. (Continue, w @ [i])) names\<rparr>) n r w
     = (r, w @ names @ names)"
proof -
  have "run_hooks (map (\<lambda>i ev w. (Continue, w @ [i])) names) ev v = v @ names" for ev v
    by (induction names arbitrary: v) auto
  moreover have "post_tool_loop (map (\<lambda>i ev w. (Continue, w @ [i])) names) n r False v = (PostContinue, v @ names)" for v
    by (induction names arbitrary: v) auto
  ultimately show ?thesis
    by (simp add: apply_post_hooks_def run_post_tool_hooks_def run_post_hooks_def)
qed

text \<open>
  The approved input is not the executed input: a pre-hook that rewrites its input by \<open>f\<close> is applied
  once before the user is asked and once more after the approval, so with a tool that accepts and echoes
  every input the user approves \<open>f input\<close> and the tool runs on \<open>f (f input)\<close>.
\<close>
theorem approved_input_transformed_again:
  assumes "validate_input tool = (\<lambda>_. Inr ())"
    and "tool_call tool = (\<lambda>i c w. (Inr (result_json i), w))"
    and "hooks = \<lparr>pre_hooks = [\<lambda>ev w. (case ev of PreToolUse n i \<Rightarrow> Transform (f i) | _ \<Rightarrow> Continue, w)], post_hooks = []\<rparr>"
    and "run_tool_use e tool opts checker (Some hooks) cb w = (Inr (AwaitingPermission a), w1)"
  shows "aw_input a = f (opt_input opts) \<and>
    (\<exists>iv w2. execute_tool_after_permission e tool (opts\<lparr>opt_input := aw_input a\<rparr>) (Some hooks) (aw_invocation a) cb w1
       = (Inr (iv, result_json (f (f (opt_input opts)))), w2))"
proof -
  have hook: "pre_hook_stage e (Some hooks) cb iv n i v = (Inr (f i), v)" for iv n i v
    by (simp add: assms(3) pre_hook_stage_def run_pre_tool_hooks_def)
  have vs: "validation_stage e tool cb iv i v = (Inr (iv\<lparr>phase := ValidatingInput\<rparr>), v)" for iv i v
    by (simp add: validation_stage_Inr assms(1))
  obtain iv v1 where i: "start_invocation e opts cb w = (iv, v1)"
    by fastforce
  have vi: "validate_input tool (f (opt_input opts)) = Inr ()"
    by (simp add: assms(1))
  note st = run_tool_use_stages [OF i hook vi]
  have a: "aw_input a = f (opt_input opts)"
    using assms(4) unfolding st
    by (cases rule: permission_stage_cases [of checker e tool cb "iv\<lparr>phase := ValidatingInput\<rparr>" "f (opt_input opts)" v1])
      (auto split: prod.splits sum.splits)
  have call: "\<exists>iv' v'. execute_tool_call e tool o' (Some hooks) cb iv v = (Inr (iv', result_json (opt_input o')), v')" for o' iv v
    by (simp add: execute_tool_call_def mark_phase_open assms(2,3) apply_post_hooks_def run_post_hooks_def
        run_post_tool_hooks_def Let_def split: prod.split)
  show ?thesis
    using a call [of "opts\<lparr>opt_input := f (f (opt_input opts))\<rparr>"]
    by (simp add: execute_tool_after_permission_def hook vs mark_phase_open)
qed

lemma approved_input_transformed_again_witness:
  "\<exists>a w1 iv w2.
     run_tool_use demo_env (demo_tool\<lparr>tool_call := \<lambda>i c w. (Inr (result_json i), w)\<rparr>) demo_opts
       (Some (new_checker RuleBased))
       (Some \<lparr>pre_hooks = [\<lambda>ev w. (case ev of PreToolUse n i \<Rightarrow> Transform (JArray [i]) | _ \<Rightarrow> Continue, w)],
              post_hooks = []\<rparr>) None [] = (Inr (AwaitingPermission a), w1) \<and>
     aw_input a = JArray [JNumber 1] \<and>
     execute_tool_after_permission demo_env (demo_tool\<lparr>tool_call := \<lambda>i c w. (Inr (result_json i), w)\<rparr>)
       (demo_opts\<lparr>opt_input := aw_input a\<rparr>)
       (Some \<lparr>pre_hooks = [\<lambda>ev w. (case ev of PreToolUse n i \<Rightarrow> Transform (JArray [i]) | _ \<Rightarrow> Continue, w)],
              post_hooks = []\<rparr>) (aw_invocation a) None w1
       = (Inr (iv, result_json (JArray [JArray [JNumber 1]])), w2)"
proof -
  let ?t = "demo_tool\<lparr>tool_call := \<lambda>i c w. (Inr (result_json i), w)\<rparr>"
  let ?h = "\<lparr>pre_hooks = [\<lambda>ev w. (case ev of PreToolUse n i \<Rightarrow> Transform (JArray [i]) | _ \<Rightarrow> Continue, w)],
              post_hooks = []\<rparr> :: string list hook_registry"
  have v: "case run_tool_use demo_env ?t demo_opts (Some (new_checker RuleBased)) (Some ?h) None [] of
      (Inr (AwaitingPermission a), w') \<Rightarrow> True | _ \<Rightarrow> False"
    by code_simp
  obtain y w1 where r: "run_tool_use demo_env ?t demo_opts (Some (new_checker RuleBased)) (Some ?h) None [] = (y, w1)"
    by fastforce
  obtain a where y: "y = Inr (AwaitingPermission a)"
    using v unfolding r by (auto split: sum.splits run_tool_use_outcome.splits)
  have t: "validate_input ?t = (\<lambda>_. Inr ())" "tool_call ?t = (\<lambda>i c w. (Inr (result_json i), w))"
    by (simp_all add: demo_tool_def)
  have o: "opt_input demo_opts = JNumber 1"
    by (simp add: demo_opts_def)
  show ?thesis
    using approved_input_transformed_again [OF t refl r [unfolded y]] r [unfolded y] unfolding o by blast
qed

end
