(* ===== verification/Agentic_Loop.thy ===== *)
theory Agentic_Loop
  imports Compaction Streaming Tool_Execution
begin

text \<open>
  The model-driven tool loop (\<open>execution/agentic_loop.rs\<close>): request, response, tool calls in segments,
  suspension for a permission, resumption, continuation of truncated answers, iteration limit.

  The provider, the tools, the hooks, the callbacks, the clock and the id generator act on the abstract
  world \<open>'w\<close>.  The tools of a concurrency-safe segment of two or more run on scoped threads, which are
  joined in order and whose outcomes are sorted by index; the model runs the threads in index order, one of
  the schedules.  A thread that panics is joined as an error outcome, as in the source.  A panic of a tool
  that runs on the loop's own thread (a segment of one, or of unsafe tools) unwinds out of the loop: such a
  run has no result and is outside this theory.
\<close>

record 'w provider =
  chat :: "chat_request \<Rightarrow> 'w \<Rightarrow> (provider_error + chat_response) \<times> 'w"
  chat_stream :: "chat_request \<Rightarrow> 'w \<Rightarrow> (provider_error + (provider_error + stream_event) list) \<times> 'w"

record 'w agentic_loop_config =
  max_iterations :: nat
  cfg_session_id :: string
  cfg_trace_id :: string
  cfg_compact :: "compact_config option"
  system_prompt :: "string option"
  cfg_tool_definitions :: "json list option"
  streaming :: bool
  on_stream_event :: "'w stream_callback option"
  on_tool_lifecycle_event :: "'w lifecycle_callback option"

definition default_loop_config :: "'w agentic_loop_config" where
  "default_loop_config = \<lparr>max_iterations = 10, cfg_session_id = [], cfg_trace_id = [], cfg_compact = None,
     system_prompt = None, cfg_tool_definitions = None, streaming = False, on_stream_event = None,
     on_tool_lifecycle_event = None\<rparr>"

text \<open>
  The arguments that every function of the loop passes on.  \<open>rt_thread_panic\<close> is a behaviour of the code
  behind the trait objects (tool, hooks, callback): \<open>Some w'\<close> when the thread that runs the call in world
  \<open>w\<close> panics and leaves \<open>w'\<close>.
\<close>

record 'w runtime =
  rt_env :: "'w env"
  rt_json_parse :: json_parser
  rt_provider :: "'w provider"
  rt_tools :: "'w tool_registry"
  rt_checker :: "permission_checker option"
  rt_hooks :: "'w hook_registry option"
  rt_thread_panic :: "parsed_tool_use \<Rightarrow> 'w \<Rightarrow> 'w option"
  rt_config :: "'w agentic_loop_config"

record agentic_loop_result =
  final_text :: string
  res_messages :: "internal_msg list"
  res_iterations :: nat
  hit_limit :: bool
  res_compact_count :: nat

record suspended_tool_invocation =
  st_tool_use_id :: string
  st_tool_name :: string
  st_tool_input :: json
  st_permission_request :: permission_request
  st_invocation :: tool_invocation_record

record agentic_loop_suspension =
  suspended_tool :: suspended_tool_invocation
  sus_messages :: "internal_msg list"
  sus_iterations :: nat
  sus_compact_count :: nat

datatype agentic_loop_outcome =
    LoopCompleted agentic_loop_result
  | LoopSuspended agentic_loop_suspension

datatype agentic_loop_error =
    ApiCall provider_error
  | ResponseParse string
  | ToolExecutionError tool_error
  | AllToolsFailed string

fun loop_error_text :: "agentic_loop_error \<Rightarrow> string" where
  "loop_error_text (ApiCall e) = ''API call failed: '' @ pe_message e"
| "loop_error_text (ResponseParse m) = ''response parse error: '' @ m"
| "loop_error_text (ToolExecutionError e) = ''tool execution failed: '' @ tool_error_text e"
| "loop_error_text (AllToolsFailed m) = ''all tools failed: '' @ m"


section \<open>Building messages and requests\<close>

definition build_assistant_msg :: "'w env \<Rightarrow> json \<Rightarrow> 'w \<Rightarrow> internal_msg \<times> 'w" where
  "build_assistant_msg e response w =
     (case uuid_v4 e w of (u, w') \<Rightarrow>
        (\<lparr>msg_role = Assistant,
          blocks = blocks_from_value (unwrap_or (JString []) (json_get ''content'' response)) None,
          message_id = u, tool_use_id = None, filtered = False, metadata = JObject []\<rparr>, w'))"

definition tool_result_content :: "(json \<Rightarrow> string) \<Rightarrow> tool_result \<Rightarrow> string" where
  "tool_result_content jt r = str_join ''\<newline>'' (map (\<lambda>b. case b of
       ResText t \<Rightarrow> t
     | ResJson v \<Rightarrow> jt v
     | ResBinary mime d \<Rightarrow> ''[binary: '' @ mime @ '', '' @ dec (length d) @ '' bytes]'') (res_blocks r))"

definition invocation_json :: "tool_invocation_record \<Rightarrow> json" where
  "invocation_json iv = JObject
     [(''invocation_id'', JString (invocation_id iv)), (''tool_name'', JString (inv_tool_name iv)),
      (''tool_use_id'', opt_json JString (inv_tool_use_id iv)),
      (''phase'', JString (phase_name (phase iv))),
      (''permission_state'', JString (permission_state_name (permission_state iv))),
      (''started_at_ms'', JNumber (int (started_at_ms iv))),
      (''finished_at_ms'', opt_json (\<lambda>t. JNumber (int t)) (finished_at_ms iv)),
      (''result_summary'', opt_json JString (result_summary iv)),
      (''error_summary'', opt_json JString (error_summary iv))]"

definition build_tool_result_msg ::
  "'w env \<Rightarrow> string \<Rightarrow> tool_result \<Rightarrow> tool_invocation_record option \<Rightarrow> 'w \<Rightarrow> internal_msg \<times> 'w" where
  "build_tool_result_msg e tuid r iv w =
     (case uuid_v4 e w of (u, w') \<Rightarrow>
        (\<lparr>msg_role = User, blocks = [ToolResult tuid (JString (tool_result_content (json_text e) r)) (res_is_error r)],
          message_id = u, tool_use_id = Some tuid, filtered = False,
          metadata = JObject ((''auto_generated'', JBool True) #
            (case iv of None \<Rightarrow> [] | Some i \<Rightarrow> [(''tool_invocation'', invocation_json i)]))\<rparr>, w'))"

fun role_name :: "message_role \<Rightarrow> string" where
  "role_name User = ''user''"
| "role_name Assistant = ''assistant''"
| "role_name System = ''system''"

definition build_api_payload ::
  "api_msg list \<Rightarrow> string option \<Rightarrow> json list option \<Rightarrow> bool \<Rightarrow> json" where
  "build_api_payload ms sp tools strm = JObject
     ([(''messages'', JArray (map (\<lambda>m. JObject [(''role'', JString (role_name (role m))), (''content'', content m)]) ms))]
      @ (case sp of None \<Rightarrow> [] | Some s \<Rightarrow> [(''system'', JString s)])
      @ (case tools of None \<Rightarrow> [] | Some ts \<Rightarrow> [(''tools'', JArray ts)])
      @ (if strm then [(''stream'', JBool True)] else []))"

definition chat_message_of :: "api_msg \<Rightarrow> chat_message" where
  "chat_message_of m =
     \<lparr>chat_role = (case role m of User \<Rightarrow> ChatUser | System \<Rightarrow> ChatUser | Assistant \<Rightarrow> ChatAssistant),
      chat_content = blocks_from_value (content m) None\<rparr>"

definition build_chat_request ::
  "api_msg list \<Rightarrow> string option \<Rightarrow> json list option \<Rightarrow> string \<Rightarrow> chat_request" where
  "build_chat_request ms sp tools sid =
     default_chat_request\<lparr>req_messages := map chat_message_of ms, req_system := sp, req_tools := tools,
       req_metadata := JObject [(''session_id'', JString sid)]\<rparr>"

definition extract_last_assistant_text :: "internal_msg list \<Rightarrow> string" where
  "extract_last_assistant_text ms =
     (case find (\<lambda>m. msg_role m = Assistant) (rev ms) of
        None \<Rightarrow> []
      | Some m \<Rightarrow> str_join ''\<newline>'' (block_texts (blocks m)))"


section \<open>One tool\<close>

datatype single_tool_outcome =
    SingleCompleted tool_invocation_record tool_result
  | SingleAwaiting awaiting_tool_permission

definition loop_context :: "'w agentic_loop_config \<Rightarrow> tool_context" where
  "loop_context cfg = \<lparr>session_id = cfg_session_id cfg, trace_id = cfg_trace_id cfg, ctx_metadata = JObject []\<rparr>"

definition not_found_text :: "string \<Rightarrow> string" where
  "not_found_text n = ''tool '' @ [CHR 0x27] @ n @ [CHR 0x27] @ '' not found in registry''"

definition execute_single_tool :: "'w runtime \<Rightarrow> parsed_tool_use \<Rightarrow> 'w \<Rightarrow> single_tool_outcome \<times> 'w" where
  "execute_single_tool rt tu w =
     (let e = rt_env rt; cb = on_tool_lifecycle_event (rt_config rt);
          (u, w1) = uuid_v4 e w;
          (base, w2) = new_invocation e (''toolinv_'' @ u) (tu_name tu) (Some (tu_id tu)) w1;
          w3 = emit_tool_lifecycle_event cb ''tool_invocation_detected'' base
                 (JObject [(''tool_input'', tu_input tu), (''source'', JString ''agentic_loop'')]) w2
      in case get_tool (rt_tools rt) (tu_name tu) of
           None \<Rightarrow>
             let (iv, w4) = mark_phase e Failed base w3;
                 iv' = set_error (not_found_text (tu_name tu)) iv;
                 w5 = emit_tool_lifecycle_event cb ''tool_execution_failed'' iv'
                        (JObject [(''error'', opt_json JString (error_summary iv')), (''stage'', JString ''tool_lookup'')]) w4
             in (SingleCompleted iv' (result_error (not_found_text (tu_name tu))), w5)
         | Some tool \<Rightarrow>
             let opts = \<lparr>opt_tool_name = tu_name tu, opt_input = tu_input tu, opt_context = loop_context (rt_config rt),
                         opt_invocation_id = Some (invocation_id base)\<rparr>
             in case run_tool_use e tool opts (rt_checker rt) (rt_hooks rt) cb w3 of
                  (Inr (OutcomeCompleted iv r), w4) \<Rightarrow>
                    (SingleCompleted (iv\<lparr>inv_tool_use_id := Some (tu_id tu)\<rparr>) r, w4)
                | (Inr (AwaitingPermission a), w4) \<Rightarrow>
                    (SingleAwaiting (a\<lparr>aw_invocation := (aw_invocation a)\<lparr>inv_tool_use_id := Some (tu_id tu)\<rparr>\<rparr>), w4)
                | (Inl err, w4) \<Rightarrow>
                    let (iv, w5) = mark_phase e Failed base w4
                    in (SingleCompleted (set_error (tool_error_text err) iv)
                          (result_error (''tool execution error: '' @ tool_error_text err)), w5))"

definition is_tool_use_concurrency_safe :: "'w runtime \<Rightarrow> parsed_tool_use \<Rightarrow> bool" where
  "is_tool_use_concurrency_safe rt tu =
     (case get_tool (rt_tools rt) (tu_name tu) of None \<Rightarrow> False | Some t \<Rightarrow> is_concurrency_safe t)"


section \<open>Segments of tool calls\<close>

record indexed_tool_use =
  itu_index :: nat
  itu_tool_use :: parsed_tool_use

record indexed_tool_outcome =
  ito_index :: nat
  ito_tool_use_id :: string
  ito_outcome :: single_tool_outcome

definition index_tool_uses :: "parsed_tool_use list \<Rightarrow> indexed_tool_use list" where
  "index_tool_uses tus = map (\<lambda>(i, tu). \<lparr>itu_index = i, itu_tool_use = tu\<rparr>) (enumerate 0 tus)"

definition execute_indexed :: "'w runtime \<Rightarrow> indexed_tool_use \<Rightarrow> 'w \<Rightarrow> indexed_tool_outcome \<times> 'w" where
  "execute_indexed rt item w =
     (case execute_single_tool rt (itu_tool_use item) w of
        (out, w') \<Rightarrow>
          (\<lparr>ito_index = itu_index item, ito_tool_use_id = tu_id (itu_tool_use item), ito_outcome = out\<rparr>, w'))"

text \<open>One call after the other on the loop's own thread.\<close>

fun run_inline :: "'w runtime \<Rightarrow> indexed_tool_use list \<Rightarrow> 'w \<Rightarrow> indexed_tool_outcome list \<times> 'w" where
  "run_inline rt [] w = ([], w)"
| "run_inline rt (item # items) w =
     (let (out, w1) = execute_indexed rt item w; (outs, w2) = run_inline rt items w1 in (out # outs, w2))"

text \<open>The bodies of the threads; \<open>None\<close> is a handle whose join gives an error.\<close>

fun run_threads :: "'w runtime \<Rightarrow> indexed_tool_use list \<Rightarrow> 'w \<Rightarrow> indexed_tool_outcome option list \<times> 'w" where
  "run_threads rt [] w = ([], w)"
| "run_threads rt (item # items) w =
     (case rt_thread_panic rt (itu_tool_use item) w of
        Some w1 \<Rightarrow> (case run_threads rt items w1 of (handles, w2) \<Rightarrow> (None # handles, w2))
      | None \<Rightarrow>
          (case execute_indexed rt item w of
             (out, w1) \<Rightarrow> (case run_threads rt items w1 of (handles, w2) \<Rightarrow> (Some out # handles, w2))))"

text \<open>The outcome of a thread that panicked; its index counts from the start of the segment.\<close>

definition panicked_outcome ::
  "'w env \<Rightarrow> nat \<Rightarrow> parsed_tool_use \<Rightarrow> 'w \<Rightarrow> indexed_tool_outcome \<times> 'w" where
  "panicked_outcome e i tu w =
     (let (u, w1) = uuid_v4 e w;
          (iv, w2) = new_invocation e u (tu_name tu) (Some (tu_id tu)) w1
      in (\<lparr>ito_index = i, ito_tool_use_id = tu_id tu,
           ito_outcome = SingleCompleted iv (result_error ''tool execution thread panicked'')\<rparr>, w2))"

fun join_threads ::
  "'w env \<Rightarrow> nat \<Rightarrow> indexed_tool_use list \<Rightarrow> indexed_tool_outcome option list \<Rightarrow> 'w \<Rightarrow>
   indexed_tool_outcome list \<times> 'w" where
  "join_threads e i (item # items) (Some out # handles) w =
     (case join_threads e (Suc i) items handles w of (outs, w') \<Rightarrow> (out # outs, w'))"
| "join_threads e i (item # items) (None # handles) w =
     (case panicked_outcome e i (itu_tool_use item) w of
        (out, w1) \<Rightarrow> (case join_threads e (Suc i) items handles w1 of (outs, w2) \<Rightarrow> (out # outs, w2)))"
| "join_threads e i _ _ w = ([], w)"

definition execute_tool_segment ::
  "'w runtime \<Rightarrow> indexed_tool_use list \<Rightarrow> 'w \<Rightarrow> indexed_tool_outcome list \<times> 'w" where
  "execute_tool_segment rt segment w =
     (if segment = [] then ([], w)
      else if length segment = 1 then (case execute_indexed rt (hd segment) w of (out, w') \<Rightarrow> ([out], w'))
      else
        (case run_threads rt segment w of
           (handles, w1) \<Rightarrow>
             (case join_threads (rt_env rt) 0 segment handles w1 of
                (outcomes, w2) \<Rightarrow> (sort_key ito_index outcomes, w2))))"

fun earliest_permission :: "indexed_tool_outcome list \<Rightarrow> (string \<times> awaiting_tool_permission) option" where
  "earliest_permission [] = None"
| "earliest_permission (item # items) =
     (case ito_outcome item of
        SingleAwaiting a \<Rightarrow> Some (ito_tool_use_id item, a)
      | SingleCompleted _ _ \<Rightarrow> earliest_permission items)"

text \<open>The first case is the source's \<open>unreachable!()\<close>: recording follows the search for a suspension.\<close>

fun record_outcomes :: "'w runtime \<Rightarrow> indexed_tool_outcome list \<Rightarrow> internal_msg list \<Rightarrow> 'w \<Rightarrow>
    internal_msg list \<times> 'w" where
  "record_outcomes rt [] ms w = (ms, w)"
| "record_outcomes rt (item # items) ms w =
     (case ito_outcome item of
        SingleAwaiting a \<Rightarrow> (ms, w)
      | SingleCompleted iv r \<Rightarrow>
          (let (iv1, w1) = mark_phase (rt_env rt) ResultRecorded iv w;
               w2 = emit_tool_lifecycle_event (on_tool_lifecycle_event (rt_config rt)) ''tool_result_recorded'' iv1
                      (JObject [(''is_error'', JBool (res_is_error r))]) w1;
               (m, w3) = build_tool_result_msg (rt_env rt) (ito_tool_use_id item) r (Some iv1) w2
           in record_outcomes rt items (ms @ [m]) w3))"

function run_segments :: "'w runtime \<Rightarrow> indexed_tool_use list \<Rightarrow> internal_msg list \<Rightarrow> 'w \<Rightarrow>
    ((string \<times> awaiting_tool_permission) option \<times> internal_msg list) \<times> 'w" where
  "run_segments rt [] ms w = ((None, ms), w)"
| "run_segments rt (item # items) ms w =
     (let safe = is_tool_use_concurrency_safe rt (itu_tool_use item);
          same = (\<lambda>t. is_tool_use_concurrency_safe rt (itu_tool_use t) = safe);
          segment = item # takeWhile same items
      in case (if safe then execute_tool_segment rt segment w else run_inline rt segment w) of
           (outcomes, w1) \<Rightarrow>
             (case earliest_permission outcomes of
                Some p \<Rightarrow> ((Some p, ms), w1)
              | None \<Rightarrow>
                  (case record_outcomes rt outcomes ms w1 of
                     (ms', w2) \<Rightarrow> run_segments rt (dropWhile same items) ms' w2)))"
  by pat_completeness auto
termination
  by (relation "measure (\<lambda>(rt, items, ms, w). length items)") (auto simp: le_imp_less_Suc length_dropWhile_le)


section \<open>The loop\<close>

record loop_state =
  ls_messages :: "internal_msg list"
  ls_iterations :: nat
  ls_compact_count :: nat
  ls_truncated :: "string list"

datatype loop_step_result =
    Return agentic_loop_outcome
  | Raise agentic_loop_error
  | Again loop_state

text \<open>Before the request: repair the pairing, then compact when a configuration is given.\<close>

definition prepare_messages :: "'w runtime \<Rightarrow> internal_msg list \<Rightarrow> nat \<Rightarrow> internal_msg list \<times> nat" where
  "prepare_messages rt ms compact_count =
     (let ms1 = ensure_tool_result_pairing ms
      in case cfg_compact (rt_config rt) of
           None \<Rightarrow> (ms1, compact_count)
         | Some c \<Rightarrow>
             (case compact_if_needed (json_text (rt_env rt)) ms1 c of
                (ms2, r) \<Rightarrow> (ms2, if did_compact r then compact_count + 1 else compact_count)))"

definition request_of :: "'w runtime \<Rightarrow> internal_msg list \<Rightarrow> chat_request" where
  "request_of rt ms =
     build_chat_request (normalize_messages_for_api ms) (system_prompt (rt_config rt))
       (cfg_tool_definitions (rt_config rt)) (cfg_session_id (rt_config rt))"

text \<open>One exchange with the provider: the parsed response and the assistant message for the history.\<close>

definition model_turn ::
  "'w runtime \<Rightarrow> chat_request \<Rightarrow> 'w \<Rightarrow> (agentic_loop_error + parsed_response \<times> internal_msg) \<times> 'w" where
  "model_turn rt req w =
     (if streaming (rt_config rt) then
        (case chat_stream (rt_provider rt) req w of
           (Inl err, w1) \<Rightarrow> (Inl (ApiCall err), w1)
         | (Inr stream, w1) \<Rightarrow>
             (case consume_stream_events (rt_json_parse rt) stream (on_stream_event (rt_config rt)) w1 of
                (Inl err, w2) \<Rightarrow> (Inl (ApiCall err), w2)
              | (Inr (parsed, v), w2) \<Rightarrow>
                  (case build_assistant_msg (rt_env rt) v w2 of (m, w3) \<Rightarrow> (Inr (parsed, m), w3))))
      else
        (case chat (rt_provider rt) req w of
           (Inl err, w1) \<Rightarrow> (Inl (ApiCall err), w1)
         | (Inr response, w1) \<Rightarrow>
             (case build_assistant_msg (rt_env rt) (resp_raw response) w1 of
                (m, w2) \<Rightarrow> (Inr (parse_chat_response response, m), w2))))"

definition continuation_text :: string where
  "continuation_text = ''Your previous response was cut off. Please continue from where you left off.''"

definition continuation_msg :: "'w env \<Rightarrow> 'w \<Rightarrow> internal_msg \<times> 'w" where
  "continuation_msg e w =
     (case uuid_v4 e w of (u, w') \<Rightarrow>
        (\<lparr>msg_role = User, blocks = [Text continuation_text], message_id = u, tool_use_id = None,
          filtered = False, metadata = JObject []\<rparr>, w'))"

text \<open>A response without tool calls: continue a truncated answer, or finish.\<close>

definition finish_turn ::
  "'w runtime \<Rightarrow> loop_state \<Rightarrow> parsed_response \<Rightarrow> 'w \<Rightarrow> loop_step_result \<times> 'w" where
  "finish_turn rt s parsed w =
     (if pr_stop_reason parsed = MaxTokens then
        (case continuation_msg (rt_env rt) w of (m, w1) \<Rightarrow>
           (Again (s\<lparr>ls_messages := ls_messages s @ [m], ls_truncated := ls_truncated s @ [pr_text parsed],
                     ls_iterations := ls_iterations s + 1\<rparr>), w1))
      else
        (Return (LoopCompleted
           \<lparr>final_text = (if ls_truncated s = [] then pr_text parsed
                          else concat (ls_truncated s @ [pr_text parsed])),
            res_messages = ls_messages s, res_iterations = ls_iterations s + 1, hit_limit = False,
            res_compact_count = ls_compact_count s\<rparr>), w))"

definition suspend ::
  "loop_state \<Rightarrow> internal_msg list \<Rightarrow> string \<times> awaiting_tool_permission \<Rightarrow> agentic_loop_suspension" where
  "suspend s ms p =
     (case p of (tuid, a) \<Rightarrow>
       \<lparr>suspended_tool =
          \<lparr>st_tool_use_id = tuid, st_tool_name = inv_tool_name (aw_invocation a), st_tool_input = aw_input a,
           st_permission_request = aw_permission_request a, st_invocation = aw_invocation a\<rparr>,
        sus_messages = ms, sus_iterations = ls_iterations s, sus_compact_count = ls_compact_count s\<rparr>)"

definition loop_step :: "'w runtime \<Rightarrow> loop_state \<Rightarrow> 'w \<Rightarrow> loop_step_result \<times> 'w" where
  "loop_step rt s w =
     (if max_iterations (rt_config rt) \<le> ls_iterations s then
        (Return (LoopCompleted
           \<lparr>final_text = extract_last_assistant_text (ls_messages s), res_messages = ls_messages s,
            res_iterations = ls_iterations s, hit_limit = True, res_compact_count = ls_compact_count s\<rparr>), w)
      else
        (case prepare_messages rt (ls_messages s) (ls_compact_count s) of (ms1, cc) \<Rightarrow>
           (case model_turn rt (request_of rt ms1) w of
              (Inl err, w1) \<Rightarrow> (Raise err, w1)
            | (Inr (parsed, m), w1) \<Rightarrow>
                let s1 = s\<lparr>ls_messages := ms1 @ [m], ls_compact_count := cc\<rparr> in
                if pr_tool_uses parsed = [] then finish_turn rt s1 parsed w1
                else
                  (case run_segments rt (index_tool_uses (pr_tool_uses parsed)) (ls_messages s1) w1 of
                     ((Some p, ms2), w2) \<Rightarrow> (Return (LoopSuspended (suspend s1 ms2 p)), w2)
                   | ((None, ms2), w2) \<Rightarrow>
                       (Again (s1\<lparr>ls_messages := ms2, ls_iterations := ls_iterations s1 + 1\<rparr>), w2)))))"

lemma finish_turn_iterations:
  "finish_turn rt s parsed w = (Again s', w') \<Longrightarrow> ls_iterations s' = ls_iterations s + 1"
  by (auto simp: finish_turn_def split: if_splits prod.splits)

lemma loop_step_iterations:
  assumes "loop_step rt s w = (Again s', w')"
  shows "ls_iterations s' = ls_iterations s + 1 \<and> ls_iterations s < max_iterations (rt_config rt)"
  using assms
  by (auto simp: loop_step_def Let_def split: if_splits prod.splits sum.splits option.splits
      dest!: finish_turn_iterations)

function loop_from :: "'w runtime \<Rightarrow> loop_state \<Rightarrow> 'w \<Rightarrow> (agentic_loop_error + agentic_loop_outcome) \<times> 'w" where
  "loop_from rt s w =
     (case loop_step rt s w of
        (Return out, w') \<Rightarrow> (Inr out, w')
      | (Raise err, w') \<Rightarrow> (Inl err, w')
      | (Again s', w') \<Rightarrow> loop_from rt s' w')"
  by pat_completeness auto
termination
  by (relation "measure (\<lambda>(rt, s, w). max_iterations (rt_config rt) - ls_iterations s)")
    (auto dest!: loop_step_iterations [OF sym])

declare loop_from.simps [simp del]

definition continue_agentic_loop ::
  "'w runtime \<Rightarrow> internal_msg list \<Rightarrow> nat \<Rightarrow> nat \<Rightarrow> 'w \<Rightarrow> (agentic_loop_error + agentic_loop_outcome) \<times> 'w" where
  "continue_agentic_loop rt ms iterations compact_count w =
     loop_from rt \<lparr>ls_messages = ms, ls_iterations = iterations, ls_compact_count = compact_count, ls_truncated = []\<rparr> w"

definition run_agentic_loop ::
  "'w runtime \<Rightarrow> internal_msg list \<Rightarrow> 'w \<Rightarrow> (agentic_loop_error + agentic_loop_outcome) \<times> 'w" where
  "run_agentic_loop rt ms w = continue_agentic_loop rt ms 0 0 w"


section \<open>Resumption\<close>

definition denied_text :: "permission_request \<Rightarrow> string" where
  "denied_text r = ''tool execution denied by user: '' @ prompt r"

text \<open>The record and the result after the user's answer; \<open>Inl\<close> is the early return of \<open>?\<close>.\<close>

definition resumed_result ::
  "'w runtime \<Rightarrow> agentic_loop_suspension \<Rightarrow> bool \<Rightarrow> 'w \<Rightarrow>
   (agentic_loop_error + tool_invocation_record \<times> tool_result) \<times> 'w" where
  "resumed_result rt sus allowed w =
     (let st = suspended_tool sus; cb = on_tool_lifecycle_event (rt_config rt) in
      if allowed then
        (case get_tool (rt_tools rt) (st_tool_name st) of
           None \<Rightarrow> (Inl (AllToolsFailed (not_found_text (st_tool_name st) @ '' during resume'')), w)
         | Some tool \<Rightarrow>
             let opts = \<lparr>opt_tool_name = st_tool_name st, opt_input = st_tool_input st,
                         opt_context = loop_context (rt_config rt),
                         opt_invocation_id = Some (invocation_id (st_invocation st))\<rparr>
             in case execute_tool_after_permission (rt_env rt) tool opts (rt_hooks rt) (st_invocation st) cb w of
                  (Inl err, w1) \<Rightarrow> (Inl (ToolExecutionError err), w1)
                | (Inr r, w1) \<Rightarrow> (Inr r, w1))
      else
        let (iv, w1) = mark_phase (rt_env rt) Failed (set_permission_state Denied (st_invocation st)) w;
            iv' = set_error (denied_text (st_permission_request st)) iv;
            w2 = emit_tool_lifecycle_event cb ''tool_permission_resolved'' iv'
                   (JObject [(''decision'', JString ''deny''), (''source'', JString ''resume'')]) w1
        in (Inr (iv', result_error (denied_text (st_permission_request st))), w2))"

definition resume_suspended_tool_invocation ::
  "'w runtime \<Rightarrow> agentic_loop_suspension \<Rightarrow> bool \<Rightarrow> 'w \<Rightarrow> (agentic_loop_error + internal_msg list) \<times> 'w" where
  "resume_suspended_tool_invocation rt sus allowed w =
     (case resumed_result rt sus allowed w of
        (Inl err, w1) \<Rightarrow> (Inl err, w1)
      | (Inr (iv, r), w1) \<Rightarrow>
          let (iv1, w2) = mark_phase (rt_env rt) ResultRecorded iv w1;
              w3 = emit_tool_lifecycle_event (on_tool_lifecycle_event (rt_config rt)) ''tool_result_recorded'' iv1
                     (JObject [(''is_error'', JBool (res_is_error r))]) w2;
              (m, w4) = build_tool_result_msg (rt_env rt) (st_tool_use_id (suspended_tool sus)) r (Some iv1) w3
          in (Inr (sus_messages sus @ [m]), w4))"


section \<open>Lemmas\<close>



lemma index_tool_uses_simps [simp]:
  "map itu_index (index_tool_uses tus) = [0..<length tus]"
  "map itu_tool_use (index_tool_uses tus) = tus"
  "length (index_tool_uses tus) = length tus"
  by (simp_all add: index_tool_uses_def comp_def case_prod_unfold enumerate_eq_zip)






text \<open>A recorded result: a user message with exactly one tool-result block for the given id.\<close>

definition is_result_for :: "internal_msg \<Rightarrow> string \<Rightarrow> bool" where
  "is_result_for m i \<longleftrightarrow>
     msg_role m = User \<and> tool_use_id m = Some i \<and> \<not> filtered m \<and> (\<exists>c e. blocks m = [ToolResult i c e])"

lemma build_tool_result_is_result:
  "build_tool_result_msg e i r iv w = (m, w') \<Longrightarrow> is_result_for m i"
  by (auto simp: build_tool_result_msg_def is_result_for_def split: prod.splits)







lemma denied_resume_result:
  "\<exists>m w'. resume_suspended_tool_invocation rt sus False w = (Inr (sus_messages sus @ [m]), w') \<and>
     is_result_for m (st_tool_use_id (suspended_tool sus)) \<and>
     blocks m = [ToolResult (st_tool_use_id (suspended_tool sus))
                   (JString (denied_text (st_permission_request (suspended_tool sus)))) True]"
proof -
  let ?st = "suspended_tool sus"
  obtain iv w1 where r: "resumed_result rt sus False w = (Inr (iv, result_error (denied_text (st_permission_request ?st))), w1)"
    by (cases "mark_phase (rt_env rt) Failed (set_permission_state Denied (st_invocation ?st)) w")
      (auto simp: resumed_result_def Let_def)
  obtain iv1 w2 where p: "mark_phase (rt_env rt) ResultRecorded iv w1 = (iv1, w2)"
    by fastforce
  define w3 where "w3 = emit_tool_lifecycle_event (on_tool_lifecycle_event (rt_config rt)) ''tool_result_recorded'' iv1
      (JObject [(''is_error'', JBool (res_is_error (result_error (denied_text (st_permission_request ?st)))))]) w2"
  obtain m w4 where m: "build_tool_result_msg (rt_env rt) (st_tool_use_id ?st)
      (result_error (denied_text (st_permission_request ?st))) (Some iv1) w3 = (m, w4)"
    by fastforce
  have "resume_suspended_tool_invocation rt sus False w = (Inr (sus_messages sus @ [m]), w4)"
    using m by (simp add: resume_suspended_tool_invocation_def r p w3_def)
  moreover have "blocks m = [ToolResult (st_tool_use_id ?st) (JString (denied_text (st_permission_request ?st))) True]"
    using m by (auto simp: build_tool_result_msg_def tool_result_content_def result_error_def split: prod.splits)
  ultimately show ?thesis
    using build_tool_result_is_result [OF m] by blast
qed


section \<open>Properties\<close>

text \<open>A runtime for the witnesses: the model calls \<open>ls\<close> twice in its first answer, then says it is done.\<close>

definition demo_provider :: "string list provider" where
  "demo_provider = \<lparr>chat = (\<lambda>req w.
       let r = (if w = [] then [ToolUse ''t1'' ''ls'' JNull, ToolUse ''t2'' ''ls'' JNull] else [Text ''done''])
       in (Inr \<lparr>resp_content = r, resp_stop_reason = EndTurn,
                resp_raw = JObject [(''content'', value_from_blocks r)]\<rparr>, w @ [''chat''])),
     chat_stream = (\<lambda>req w. (Inl (internal_error ''streaming not supported''), w))\<rparr>"

definition demo_runtime :: "nat \<Rightarrow> permission_mode \<Rightarrow> string list runtime" where
  "demo_runtime n pm = \<lparr>rt_env = demo_env, rt_json_parse = demo_parse, rt_provider = demo_provider,
     rt_tools = register_tool demo_tool [], rt_checker = Some (new_checker pm), rt_hooks = None, rt_thread_panic = (\<lambda>_ _. None),
     rt_config = default_loop_config\<lparr>max_iterations := n\<rparr>\<rparr>"


definition demo_call :: "string \<Rightarrow> string \<Rightarrow> parsed_tool_use" where
  "demo_call i n = \<lparr>tu_id = i, tu_name = n, tu_input = JNull\<rparr>"


text \<open>
  A panicked call is misplaced: the outcome of a thread that panicked carries the position within its
  segment as index, so in a segment of two calls that starts at the third call of the response or later, a
  panic of the second call puts its result before the one of the first.
\<close>
theorem panicked_call_misplaced:
  assumes "2 \<le> k"
    and "rt_thread_panic rt t1 w = None" "execute_single_tool rt t1 w = (out, w1)"
    and "rt_thread_panic rt t2 w1 = Some w2"
  shows "\<exists>o1 o2 w3. execute_tool_segment rt
      [\<lparr>itu_index = k, itu_tool_use = t1\<rparr>, \<lparr>itu_index = k + 1, itu_tool_use = t2\<rparr>] w = ([o2, o1], w3) \<and>
    ito_tool_use_id o1 = tu_id t1 \<and> ito_outcome o1 = out \<and> ito_tool_use_id o2 = tu_id t2 \<and>
    (\<exists>iv. ito_outcome o2 = SingleCompleted iv (result_error ''tool execution thread panicked''))"
proof -
  obtain p v where p: "panicked_outcome (rt_env rt) 1 t2 w2 = (p, v)"
    by fastforce
  then have "ito_index p = 1" "ito_tool_use_id p = tu_id t2"
    "\<exists>iv. ito_outcome p = SingleCompleted iv (result_error ''tool execution thread panicked'')"
    by (auto simp: panicked_outcome_def split: prod.splits)
  then show ?thesis
    using assms p by (simp add: execute_tool_segment_def execute_indexed_def)
qed

definition demo_panic_runtime :: "string list runtime" where
  "demo_panic_runtime = (demo_runtime 5 AllowAll)
     \<lparr>rt_thread_panic := (\<lambda>t w. if tu_id t = ''t4'' then Some (w @ [''panic'']) else None)\<rparr>"

lemma panicked_call_misplaced_run:
  "map tool_use_id (snd (fst (run_segments demo_panic_runtime
       (index_tool_uses [demo_call ''t1'' ''gone'', demo_call ''t2'' ''gone'', demo_call ''t3'' ''ls'', demo_call ''t4'' ''ls''])
       [] [])))
     = [Some ''t1'', Some ''t2'', Some ''t4'', Some ''t3'']"
  by code_simp

text \<open>
  A completed call is lost on suspension: of two concurrency-safe calls in one response, the first
  completes (its side effects have happened) and the second waits for a permission.  The suspension then
  carries the history without the first result, and after the user's answer the resumed history contains
  exactly one new message, the result of the second call.
\<close>
theorem completed_call_lost_on_suspension:
  assumes "is_tool_use_concurrency_safe rt t1" "is_tool_use_concurrency_safe rt t2"
    and "rt_thread_panic rt t1 w = None" "execute_single_tool rt t1 w = (SingleCompleted iv r, w1)"
    and "rt_thread_panic rt t2 w1 = None" "execute_single_tool rt t2 w1 = (SingleAwaiting a, w2)"
    and "resume_suspended_tool_invocation rt (suspend s ms (tu_id t2, a)) allowed v = (Inr ms', v')"
  shows "run_segments rt (index_tool_uses [t1, t2]) ms w = ((Some (tu_id t2, a), ms), w2)
    \<and> (\<exists>m. ms' = ms @ [m] \<and> is_result_for m (tu_id t2))"
proof
  show "run_segments rt (index_tool_uses [t1, t2]) ms w = ((Some (tu_id t2, a), ms), w2)"
    using assms by (simp add: index_tool_uses_def execute_tool_segment_def execute_indexed_def)
  show "\<exists>m. ms' = ms @ [m] \<and> is_result_for m (tu_id t2)"
    using assms(7) by (auto simp: resume_suspended_tool_invocation_def suspend_def Let_def
        split: prod.splits sum.splits intro: build_tool_result_is_result)
qed

definition demo_ask_tool :: "string list tool" where
  "demo_ask_tool = demo_tool\<lparr>tool_name := ''rm''\<rparr>"

definition demo_ask_runtime :: "string list runtime" where
  "demo_ask_runtime = (demo_runtime 5 RuleBased)
     \<lparr>rt_tools := register_tool demo_ask_tool (register_tool demo_tool []),
      rt_checker := Some (add_rule \<lparr>tool_pattern = ''ls'', decision = Allow, priority = 1\<rparr> (new_checker RuleBased))\<rparr>"

lemma completed_call_lost_on_suspension_witness:
  "\<exists>a m v'. run_segments demo_ask_runtime (index_tool_uses [demo_call ''t1'' ''ls'', demo_call ''t2'' ''rm'']) [] []
       = ((Some (''t2'', a), []), [''call'']) \<and>
     resume_suspended_tool_invocation demo_ask_runtime
       (suspend \<lparr>ls_messages = [], ls_iterations = 0, ls_compact_count = 0, ls_truncated = []\<rparr> [] (''t2'', a)) False [''call'']
       = (Inr [m], v') \<and> is_result_for m ''t2''"
proof -
  let ?rt = demo_ask_runtime and ?t1 = "demo_call ''t1'' ''ls''" and ?t2 = "demo_call ''t2'' ''rm''"
  let ?s = "\<lparr>ls_messages = [], ls_iterations = 0, ls_compact_count = 0, ls_truncated = []\<rparr> :: loop_state"
  have safe: "is_tool_use_concurrency_safe ?rt ?t1" "is_tool_use_concurrency_safe ?rt ?t2"
    by code_simp+
  have calm: "rt_thread_panic ?rt t v = None" for t v
    by (simp add: demo_ask_runtime_def demo_runtime_def)
  have "case execute_single_tool ?rt ?t1 [] of (SingleCompleted iv r, w1) \<Rightarrow> w1 = [''call''] | _ \<Rightarrow> False"
    by code_simp
  then obtain iv r where e1: "execute_single_tool ?rt ?t1 [] = (SingleCompleted iv r, [''call''])"
    by (cases "execute_single_tool ?rt ?t1 []") (auto split: single_tool_outcome.splits)
  have "case execute_single_tool ?rt ?t2 [''call''] of (SingleAwaiting a, w2) \<Rightarrow> w2 = [''call''] | _ \<Rightarrow> False"
    by code_simp
  then obtain a where e2: "execute_single_tool ?rt ?t2 [''call''] = (SingleAwaiting a, [''call''])"
    by (cases "execute_single_tool ?rt ?t2 [''call'']") (auto split: single_tool_outcome.splits)
  have i2: "tu_id ?t2 = ''t2''"
    by (simp add: demo_call_def)
  obtain ms' v' where res: "resume_suspended_tool_invocation ?rt (suspend ?s [] (tu_id ?t2, a)) False [''call''] = (Inr ms', v')"
    using denied_resume_result [of ?rt "suspend ?s [] (tu_id ?t2, a)" "[''call'']"] by auto
  show ?thesis
    using completed_call_lost_on_suspension [OF safe calm e1 calm e2 res] res unfolding i2 by auto
qed

text \<open>
  C7. A denial never reaches the tool: resuming with \<open>allowed = false\<close> does not depend on the registered
  tools or hooks, always succeeds, and appends one error result for the suspended call that carries the
  denied prompt.
\<close>
theorem denied_resume_runs_nothing:
  "resume_suspended_tool_invocation rt sus False w
     = resume_suspended_tool_invocation (rt\<lparr>rt_tools := tools, rt_hooks := hooks\<rparr>) sus False w
   \<and> (\<exists>m. fst (resume_suspended_tool_invocation rt sus False w) = Inr (sus_messages sus @ [m]) \<and>
        is_result_for m (st_tool_use_id (suspended_tool sus)) \<and>
        blocks m = [ToolResult (st_tool_use_id (suspended_tool sus))
                      (JString (denied_text (st_permission_request (suspended_tool sus)))) True])"
proof
  let ?rt = "rt\<lparr>rt_tools := tools, rt_hooks := hooks\<rparr>"
  have same: "rt_env ?rt = rt_env rt" "rt_config ?rt = rt_config rt"
    by simp_all
  have "resumed_result ?rt sus False w = resumed_result rt sus False w"
    by (simp add: resumed_result_def)
  then show "resume_suspended_tool_invocation rt sus False w = resume_suspended_tool_invocation ?rt sus False w"
    unfolding resume_suspended_tool_invocation_def same by simp
qed (use denied_resume_result [of rt sus w] in auto)

end
