(* ===== verification/Loop_Turns.thy ===== *)
theory Loop_Turns
  imports Agentic_Loop
begin

text \<open>
  How often the loop calls the model (\<open>execution/agentic_loop.rs\<close>).  A counter \<open>c\<close> reads the number of
  provider calls off the world: each call of the provider adds one and nothing else the loop uses changes it.
  Any world can be given such a counter, as a component of its own that only the provider touches.
\<close>

definition quiet :: "('w \<Rightarrow> nat) \<Rightarrow> ('w \<Rightarrow> 'a \<times> 'w) \<Rightarrow> bool" where
  "quiet c f \<longleftrightarrow> (\<forall>w. c (snd (f w)) = c w)"

definition counts_calls :: "('w \<Rightarrow> nat) \<Rightarrow> 'w provider \<Rightarrow> bool" where
  "counts_calls c p \<longleftrightarrow>
     (\<forall>req w. c (snd (chat p req w)) = c w + 1 \<and> c (snd (chat_stream p req w)) = c w + 1)"

definition quiet_env :: "('w \<Rightarrow> nat) \<Rightarrow> 'w env \<Rightarrow> bool" where
  "quiet_env c e \<longleftrightarrow> quiet c (now_ms e) \<and> quiet c (uuid_v4 e)"

definition quiet_hooks :: "('w \<Rightarrow> nat) \<Rightarrow> 'w hook_registry option \<Rightarrow> bool" where
  "quiet_hooks c hooks \<longleftrightarrow>
     (\<forall>h. hooks = Some h \<longrightarrow> (\<forall>f \<in> set (pre_hooks h) \<union> set (post_hooks h). \<forall>ev. quiet c (f ev)))"

definition quiet_lifecycle :: "('w \<Rightarrow> nat) \<Rightarrow> 'w lifecycle_callback option \<Rightarrow> bool" where
  "quiet_lifecycle c cb \<longleftrightarrow> (\<forall>f. cb = Some f \<longrightarrow> (\<forall>n j w. c (f n j w) = c w))"

definition quiet_stream :: "('w \<Rightarrow> nat) \<Rightarrow> 'w stream_callback option \<Rightarrow> bool" where
  "quiet_stream c cb \<longleftrightarrow> (\<forall>f. cb = Some f \<longrightarrow> (\<forall>ev w. c (f ev w) = c w))"

definition quiet_tool :: "('w \<Rightarrow> nat) \<Rightarrow> 'w tool \<Rightarrow> bool" where
  "quiet_tool c t \<longleftrightarrow> (\<forall>i ctx. quiet c (tool_call t i ctx))"

definition quiet_runtime :: "('w \<Rightarrow> nat) \<Rightarrow> 'w runtime \<Rightarrow> bool" where
  "quiet_runtime c rt \<longleftrightarrow>
     quiet_env c (rt_env rt) \<and> quiet_hooks c (rt_hooks rt) \<and>
     quiet_lifecycle c (on_tool_lifecycle_event (rt_config rt)) \<and> quiet_stream c (on_stream_event (rt_config rt)) \<and>
     (\<forall>(n, t) \<in> set (rt_tools rt). quiet_tool c t) \<and>
     (\<forall>tu w w'. rt_thread_panic rt tu w = Some w' \<longrightarrow> c w' = c w)"

named_theorems quiets \<open>the counter after an operation that does not call the provider\<close>

lemma quietD: "quiet c f \<Longrightarrow> f w = (x, w') \<Longrightarrow> c w' = c w"
  by (metis quiet_def snd_conv)

lemma quiet_envD:
  assumes "quiet_env c e"
  shows "now_ms e w = (t, w') \<Longrightarrow> c w' = c w" "uuid_v4 e w = (u, w') \<Longrightarrow> c w' = c w"
  using assms by (auto simp: quiet_env_def dest: quietD)

lemma quiet_emit [simp]: "quiet_lifecycle c cb \<Longrightarrow> c (emit_tool_lifecycle_event cb n iv d w) = c w"
  by (cases cb) (simp_all add: emit_tool_lifecycle_event_def quiet_lifecycle_def)


section \<open>One tool\<close>

lemma quiet_new_invocation [quiets]: "new_invocation e i n t w = (iv, w') \<Longrightarrow> quiet_env c e \<Longrightarrow> c w' = c w"
  by (auto simp: new_invocation_def split: prod.splits dest: quiet_envD)

lemma quiet_mark_phase [quiets]: "mark_phase e p iv w = (iv', w') \<Longrightarrow> quiet_env c e \<Longrightarrow> c w' = c w"
  by (auto simp: mark_phase_def split: prod.splits if_splits dest: quiet_envD)

lemma quiet_uuid [quiets]: "uuid_v4 e w = (u, w') \<Longrightarrow> quiet_env c e \<Longrightarrow> c w' = c w"
  by (rule quiet_envD)

lemma quiet_run_hooks: "(\<And>f ev. f \<in> set hs \<Longrightarrow> quiet c (f ev)) \<Longrightarrow> c (run_hooks hs ev w) = c w"
  by (induction hs arbitrary: w) (auto simp: quiet_def)

lemma quiet_pre_tool_loop:
  "(\<And>f ev. f \<in> set hs \<Longrightarrow> quiet c (f ev)) \<Longrightarrow> c (snd (pre_tool_loop hs n eff tr w)) = c w"
proof (induction hs arbitrary: eff tr w)
  case (Cons h hs)
  obtain x w1 where h: "h (PreToolUse n eff) w = (x, w1)"
    by fastforce
  have "c w1 = c w"
    using quietD [OF Cons.prems [of h] h] by simp
  then show ?case
    using Cons h by (auto split: hook_result.splits)
qed simp

lemma quiet_post_tool_loop:
  "(\<And>f ev. f \<in> set hs \<Longrightarrow> quiet c (f ev)) \<Longrightarrow> c (snd (post_tool_loop hs n eff tr w)) = c w"
proof (induction hs arbitrary: eff tr w)
  case (Cons h hs)
  obtain x w1 where h: "h (PostToolUse n eff) w = (x, w1)"
    by fastforce
  have "c w1 = c w"
    using quietD [OF Cons.prems [of h] h] by simp
  then show ?case
    using Cons h by (auto split: hook_result.splits)
qed simp

lemma quiet_pre_hooks [quiets]:
  "run_pre_tool_hooks h n i w = (x, w') \<Longrightarrow> quiet_hooks c (Some h) \<Longrightarrow> c w' = c w"
  using quiet_pre_tool_loop [of "pre_hooks h" c n i False w]
  by (auto simp: run_pre_tool_hooks_def quiet_hooks_def)

lemma quiet_post_hooks [quiets]:
  "apply_post_hooks hooks n r w = (r', w') \<Longrightarrow> quiet_hooks c hooks \<Longrightarrow> c w' = c w"
proof (cases hooks)
  case (Some h)
  assume a: "apply_post_hooks hooks n r w = (r', w')" and q: "quiet_hooks c hooks"
  have post: "quiet c (f ev)" if "f \<in> set (post_hooks h)" for f ev
    using q that by (auto simp: quiet_hooks_def Some)
  let ?v = "run_hooks (post_hooks h) (PostToolUse n r) w"
  have "w' = snd (post_tool_loop (post_hooks h) n r False ?v)"
    using a by (auto simp: apply_post_hooks_def Some run_post_tool_hooks_def run_post_hooks_def
        split: prod.splits post_tool_hook_result.splits)
  then show "c w' = c w"
    using quiet_post_tool_loop [of "post_hooks h" c n r False ?v] quiet_run_hooks [of "post_hooks h" c _ w] post by simp
qed (simp add: apply_post_hooks_def)

lemma quiet_tool_call [quiets]: "tool_call t i ctx w = (x, w') \<Longrightarrow> quiet_tool c t \<Longrightarrow> c w' = c w"
  by (auto simp: quiet_tool_def dest: quietD)

lemma quiet_execute_tool_call [quiets]:
  "execute_tool_call e tool opts hooks cb iv w = (x, w') \<Longrightarrow>
   quiet_env c e \<Longrightarrow> quiet_hooks c hooks \<Longrightarrow> quiet_lifecycle c cb \<Longrightarrow> quiet_tool c tool \<Longrightarrow> c w' = c w"
  by (auto simp: execute_tool_call_def Let_def split: prod.splits sum.splits dest!: quiets [where c = c])

lemma quiet_pre_hook_stage [quiets]:
  "pre_hook_stage e hooks cb iv n i w = (x, w') \<Longrightarrow>
   quiet_env c e \<Longrightarrow> quiet_hooks c hooks \<Longrightarrow> quiet_lifecycle c cb \<Longrightarrow> c w' = c w"
  by (auto simp: pre_hook_stage_def Let_def split: prod.splits option.splits hook_result.splits dest!: quiets [where c = c])

lemma quiet_validation_stage [quiets]:
  "validation_stage e tool cb iv i w = (x, w') \<Longrightarrow> quiet_env c e \<Longrightarrow> quiet_lifecycle c cb \<Longrightarrow> c w' = c w"
  by (auto simp: validation_stage_def Let_def split: prod.splits sum.splits dest!: quiets [where c = c])

lemma quiet_permission_stage [quiets]:
  "permission_stage e tool checker cb iv i w = (x, w') \<Longrightarrow> quiet_env c e \<Longrightarrow> quiet_lifecycle c cb \<Longrightarrow> c w' = c w"
  by (auto simp: permission_stage_def Let_def split: prod.splits option.splits permission_decision.splits dest!: quiets [where c = c])

lemma quiet_start_invocation [quiets]:
  "start_invocation e opts cb w = (iv, w') \<Longrightarrow> quiet_env c e \<Longrightarrow> quiet_lifecycle c cb \<Longrightarrow> c w' = c w"
  by (auto simp: start_invocation_def Let_def split: prod.splits option.splits dest!: quiets [where c = c])

lemma quiet_run_tool_use [quiets]:
  "run_tool_use e tool opts checker hooks cb w = (x, w') \<Longrightarrow>
   quiet_env c e \<Longrightarrow> quiet_hooks c hooks \<Longrightarrow> quiet_lifecycle c cb \<Longrightarrow> quiet_tool c tool \<Longrightarrow> c w' = c w"
  by (auto simp: run_tool_use_def split: prod.splits sum.splits permission_verdict.splits dest!: quiets [where c = c])

lemma quiet_single_tool [quiets]:
  "execute_single_tool rt tu w = (x, w') \<Longrightarrow> quiet_runtime c rt \<Longrightarrow> c w' = c w"
  by (auto simp: execute_single_tool_def get_tool_def Let_def quiet_runtime_def
      split: prod.splits sum.splits option.splits run_tool_use_outcome.splits
      dest!: quiets [where c = c] map_of_SomeD dest: bspec)


section \<open>The tool calls of one response\<close>

lemma quiet_execute_indexed [quiets]:
  "execute_indexed rt item w = (out, w') \<Longrightarrow> quiet_runtime c rt \<Longrightarrow> c w' = c w"
  by (auto simp: execute_indexed_def split: prod.splits dest!: quiets [where c = c])

lemma quiet_run_inline [quiets]:
  "run_inline rt items w = (outs, w') \<Longrightarrow> quiet_runtime c rt \<Longrightarrow> c w' = c w"
  by (induction items arbitrary: w outs) (auto simp: Let_def split: prod.splits dest!: quiets [where c = c])

lemma quiet_thread_panic: "quiet_runtime c rt \<Longrightarrow> rt_thread_panic rt tu w = Some w' \<Longrightarrow> c w' = c w"
  by (auto simp: quiet_runtime_def)

lemma quiet_run_threads [quiets]:
  "run_threads rt items w = (hs, w') \<Longrightarrow> quiet_runtime c rt \<Longrightarrow> c w' = c w"
  by (induction items arbitrary: w hs)
    (fastforce split: prod.splits option.splits dest!: quiets [where c = c] dest: quiet_thread_panic [of c])+

lemma quiet_join_threads [quiets]:
  "join_threads e i items hs w = (outs, w') \<Longrightarrow> quiet_env c e \<Longrightarrow> c w' = c w"
  by (induction e i items hs w arbitrary: outs rule: join_threads.induct)
    (auto simp: panicked_outcome_def Let_def split: prod.splits dest!: quiets [where c = c])

lemma quiet_segment [quiets]:
  "execute_tool_segment rt seg w = (outs, w') \<Longrightarrow> quiet_runtime c rt \<Longrightarrow> c w' = c w"
  by (auto simp: execute_tool_segment_def
      split: if_splits prod.splits dest!: quiets [where c = c] dest: quiet_runtime_def [THEN iffD1])

lemma quiet_tool_result_msg [quiets]:
  "build_tool_result_msg e i r iv w = (m, w') \<Longrightarrow> quiet_env c e \<Longrightarrow> c w' = c w"
  by (auto simp: build_tool_result_msg_def split: prod.splits dest!: quiets [where c = c])

lemma quiet_assistant_msg [quiets]:
  "build_assistant_msg e v w = (m, w') \<Longrightarrow> quiet_env c e \<Longrightarrow> c w' = c w"
  by (auto simp: build_assistant_msg_def split: prod.splits dest!: quiets [where c = c])

lemma quiet_continuation_msg [quiets]:
  "continuation_msg e w = (m, w') \<Longrightarrow> quiet_env c e \<Longrightarrow> c w' = c w"
  by (auto simp: continuation_msg_def split: prod.splits dest!: quiets [where c = c])

lemma quiet_record_outcomes [quiets]:
  "record_outcomes rt outs ms w = (ms', w') \<Longrightarrow> quiet_runtime c rt \<Longrightarrow> c w' = c w"
proof (induction rt outs ms w rule: record_outcomes.induct)
  case (2 rt item items ms w)
  have q: "quiet_env c (rt_env rt)" "quiet_lifecycle c (on_tool_lifecycle_event (rt_config rt))"
    using "2.prems"(2) by (simp_all add: quiet_runtime_def)
  show ?case
    using 2 q by (auto simp: Let_def split: single_tool_outcome.splits prod.splits dest!: quiets [where c = c])
qed simp

lemma quiet_run_segments [quiets]:
  "run_segments rt items ms w = (r, w') \<Longrightarrow> quiet_runtime c rt \<Longrightarrow> c w' = c w"
proof (induction rt items ms w rule: run_segments.induct)
  case (2 rt item items ms w)
  show ?case
    using 2 by (auto simp: Let_def split: prod.splits option.splits if_splits dest!: quiets [where c = c])
qed simp


section \<open>The loop\<close>

lemma quiet_stream_loop [quiets]:
  "stream_loop evs cb s w = (x, w') \<Longrightarrow> quiet_stream c cb \<Longrightarrow> c w' = c w"
  by (induction evs cb s w rule: stream_loop.induct)
    (auto simp: Let_def quiet_stream_def split: sum.splits option.splits)

lemma quiet_consume [quiets]:
  "consume_stream_events jp evs cb w = (x, w') \<Longrightarrow> quiet_stream c cb \<Longrightarrow> c w' = c w"
  by (auto simp: consume_stream_events_def split: prod.splits sum.splits dest!: quiets [where c = c])

lemma model_turn_calls:
  assumes "model_turn rt req w = (x, w')" "counts_calls c (rt_provider rt)" "quiet_runtime c rt"
  shows "c w' = c w + 1"
proof -
  have q: "quiet_env c (rt_env rt)" "quiet_stream c (on_stream_event (rt_config rt))"
    using assms(3) by (simp_all add: quiet_runtime_def)
  have call: "chat (rt_provider rt) req w = (y, w1) \<Longrightarrow> c w1 = c w + 1"
    "chat_stream (rt_provider rt) req w = (z, w1) \<Longrightarrow> c w1 = c w + 1" for y z w1
    using assms(2) unfolding counts_calls_def by (metis snd_conv)+
  show ?thesis
    using assms(1) q
    by (auto simp: model_turn_def split: if_splits prod.splits sum.splits dest!: quiets [where c = c] call)
qed

text \<open>One pass of the loop body: at the limit nothing is called, below it the model is called once.\<close>

lemma finish_turn_calls:
  assumes "finish_turn rt s parsed w = (x, w')" "quiet_runtime c rt"
  shows "c w' = c w" "x \<noteq> Raise err" "x \<noteq> Return (LoopSuspended sus)"
    and "x = Return (LoopCompleted r) \<Longrightarrow> \<not> hit_limit r \<and> res_iterations r = ls_iterations s + 1"
proof -
  have q: "quiet_env c (rt_env rt)"
    using assms(2) by (simp add: quiet_runtime_def)
  show "c w' = c w" "x \<noteq> Raise err" "x \<noteq> Return (LoopSuspended sus)"
    "x = Return (LoopCompleted r) \<Longrightarrow> \<not> hit_limit r \<and> res_iterations r = ls_iterations s + 1"
    using assms(1) q by (auto simp: finish_turn_def split: if_splits prod.splits dest!: quiets [where c = c])
qed

lemma loop_step_calls:
  assumes "loop_step rt s w = (x, w')" "counts_calls c (rt_provider rt)" "quiet_runtime c rt"
    "ls_iterations s < max_iterations (rt_config rt)"
  shows "c w' = c w + 1"
    and "x = Return (LoopCompleted r) \<Longrightarrow> \<not> hit_limit r \<and> res_iterations r = ls_iterations s + 1"
    and "x = Return (LoopSuspended sus) \<Longrightarrow> sus_iterations sus = ls_iterations s"
proof -
  obtain ms1 cc where p: "prepare_messages rt (ls_messages s) (ls_compact_count s) = (ms1, cc)"
    by fastforce
  obtain y w1 where m: "model_turn rt (request_of rt ms1) w = (y, w1)"
    by fastforce
  note step = assms(1) [unfolded loop_step_def]
  have w1: "c w1 = c w + 1"
    by (rule model_turn_calls [OF m assms(2,3)])
  show "c w' = c w + 1"
    using step assms(3,4) p m w1
    by (auto simp: Let_def split: if_splits prod.splits sum.splits option.splits dest!: quiets [where c = c]
        dest: finish_turn_calls(1) [where c = c])
  show "x = Return (LoopCompleted r) \<Longrightarrow> \<not> hit_limit r \<and> res_iterations r = ls_iterations s + 1"
    using step assms(3,4) p m
    by (auto simp: Let_def split: if_splits prod.splits sum.splits option.splits
        dest: finish_turn_calls(4) [where c = c])
  show "x = Return (LoopSuspended sus) \<Longrightarrow> sus_iterations sus = ls_iterations s"
    using step assms(3,4) p m
    by (auto simp: Let_def suspend_def split: if_splits prod.splits sum.splits option.splits
        dest: finish_turn_calls(3) [where c = c])
qed

lemma loop_step_limit:
  "max_iterations (rt_config rt) \<le> ls_iterations s \<Longrightarrow>
   loop_step rt s w = (Return (LoopCompleted
      \<lparr>final_text = extract_last_assistant_text (ls_messages s), res_messages = ls_messages s,
       res_iterations = ls_iterations s, hit_limit = True, res_compact_count = ls_compact_count s\<rparr>), w)"
  by (simp add: loop_step_def)

text \<open>What a run that starts at iteration \<open>i\<close> does with \<open>calls\<close> provider calls, under the limit \<open>n\<close>.\<close>

definition turns_accounted ::
  "nat \<Rightarrow> nat \<Rightarrow> nat \<Rightarrow> agentic_loop_error + agentic_loop_outcome \<Rightarrow> bool" where
  "turns_accounted n i calls out \<longleftrightarrow> calls \<le> n - i \<and>
     (case out of
        Inl err \<Rightarrow> 0 < calls
      | Inr (LoopCompleted r) \<Rightarrow> res_iterations r = i + calls \<and>
          (if hit_limit r then res_iterations r = max i n \<and> final_text r = extract_last_assistant_text (res_messages r)
           else 0 < calls)
      | Inr (LoopSuspended sus) \<Rightarrow> sus_iterations sus + 1 = i + calls \<and> sus_iterations sus < n)"

lemma turns_accounted_Again:
  "turns_accounted n (i + 1) k out \<Longrightarrow> i < n \<Longrightarrow> turns_accounted n i (k + 1) out"
  by (auto simp: turns_accounted_def split: sum.splits agentic_loop_outcome.splits if_splits)

lemma loop_from_calls:
  "loop_from rt s w = (out, w') \<Longrightarrow> counts_calls c (rt_provider rt) \<Longrightarrow> quiet_runtime c rt \<Longrightarrow>
   \<exists>calls. c w' = c w + calls \<and> turns_accounted (max_iterations (rt_config rt)) (ls_iterations s) calls out"
proof (induction rt s w rule: loop_from.induct)
  case (1 rt s w)
  obtain x w1 where st: "loop_step rt s w = (x, w1)"
    by fastforce
  show ?case
  proof (cases "ls_iterations s < max_iterations (rt_config rt)")
    case False
    then show ?thesis
      using "1.prems"(1) loop_step_limit [of rt s w]
      by (auto simp: loop_from.simps [of rt s w] turns_accounted_def)
  next
    case True
    note calls = loop_step_calls [OF st "1.prems"(2,3) True]
    show ?thesis
    proof (cases x)
      case (Return o')
      then show ?thesis
        using "1.prems"(1) st calls(1) calls(2,3) Return True
        by (cases o') (auto simp: loop_from.simps [of rt s w] turns_accounted_def intro!: exI [of _ 1])
    next
      case (Raise err)
      then show ?thesis
        using "1.prems"(1) st calls(1) True
        by (auto simp: loop_from.simps [of rt s w] turns_accounted_def intro!: exI [of _ 1])
    next
      case (Again s')
      note st' = st [unfolded Again]
      have rec: "loop_from rt s' w1 = (out, w')"
        using "1.prems"(1) st' by (simp add: loop_from.simps [of rt s w])
      obtain k where "c w' = c w1 + k" "turns_accounted (max_iterations (rt_config rt)) (ls_iterations s') k out"
        using "1.IH" [OF st' [symmetric] refl rec "1.prems"(2,3)] by blast
      then show ?thesis
        using calls(1) loop_step_iterations [OF st'] turns_accounted_Again [of _ "ls_iterations s" k out]
        by (intro exI [of _ "k + 1"]) simp
    qed
  qed
qed


section \<open>Properties\<close>

text \<open>
  C3. The loop ends within its limit: whatever the provider, the tools and the hooks do,
  \<open>continue_agentic_loop\<close>, a total function, comes to a result, and on the way to it the model is called at
  most \<open>max_iterations - i\<close> times, not at all when the run starts at or over the limit.  The count is the
  one on the world, and it is exact: a completed run reports \<open>i\<close> plus its calls, has reached the limit
  when \<open>hit_limit\<close> says so (the answer is then the last assistant text) and has called the model
  otherwise; a suspended run reports one less, since its last turn is not over, and has an iteration left
  for its resumption; a failed run has called the model at least once.
\<close>
theorem loop_within_limit:
  assumes "counts_calls c (rt_provider rt)" "quiet_runtime c rt"
  shows "\<exists>out w' calls. continue_agentic_loop rt ms i cc w = (out, w') \<and> c w' = c w + calls \<and>
    calls \<le> max_iterations (rt_config rt) - i \<and>
    (case out of
       Inl err \<Rightarrow> 0 < calls
     | Inr (LoopCompleted r) \<Rightarrow> res_iterations r = i + calls \<and>
         (if hit_limit r then res_iterations r = max i (max_iterations (rt_config rt)) \<and>
            final_text r = extract_last_assistant_text (res_messages r)
          else 0 < calls)
     | Inr (LoopSuspended sus) \<Rightarrow> sus_iterations sus + 1 = i + calls \<and>
         sus_iterations sus < max_iterations (rt_config rt))"
proof -
  obtain out w' where run: "continue_agentic_loop rt ms i cc w = (out, w')"
    by fastforce
  show ?thesis
    using loop_from_calls [OF run [unfolded continue_agentic_loop_def] assms] run
    by (auto simp: turns_accounted_def)
qed

definition demo_calls :: "string list \<Rightarrow> nat" where
  "demo_calls w = length (filter (\<lambda>s. s = ''chat'') w)"

definition demo_limited :: "string list runtime" where
  "demo_limited = (demo_runtime 1 AllowAll)\<lparr>rt_provider := demo_provider
     \<lparr>chat_stream := (\<lambda>req w. (Inl (internal_error ''streaming not supported''), w @ [''chat'']))\<rparr>\<rparr>"

lemma demo_limited_counted: "counts_calls demo_calls (rt_provider demo_limited)" "quiet_runtime demo_calls demo_limited"
  by (auto simp: counts_calls_def quiet_runtime_def demo_calls_def demo_limited_def demo_runtime_def demo_provider_def
      demo_env_def demo_tool_def register_tool_def quiet_def quiet_env_def quiet_hooks_def quiet_lifecycle_def
      quiet_stream_def quiet_tool_def default_loop_config_def)

lemma loop_within_limit_witness:
  "demo_calls (snd (run_agentic_loop demo_limited [] [])) \<le> 1"
  using loop_within_limit [OF demo_limited_counted, of "[]" 0 0 "[]"]
  by (auto simp: run_agentic_loop_def demo_limited_def demo_runtime_def demo_calls_def [of "[]"])

lemma demo_limited_run:
  "case run_agentic_loop demo_limited [] [] of
     (Inr (LoopCompleted r), w') \<Rightarrow> hit_limit r \<and> w' = [''chat'', ''call'', ''call''] | _ \<Rightarrow> False"
  by code_simp

end
