(* ===== verification/Circuit.thy ===== *)
theory Circuit
  imports Prelude
begin

text \<open>
  The three states of a circuit, used by the circuit breaker and by the health records of the load
  balancer (two enums with the same cases in the source), and the contract that both keep: recording
  results alone trips a circuit but never reopens it half-way; that is left to time.
\<close>

datatype circuit_state = Closed | Open | HalfOpen

fun circuit_state_str :: "circuit_state \<Rightarrow> string" where
  "circuit_state_str Closed = ''closed''"
| "circuit_state_str Open = ''open''"
| "circuit_state_str HalfOpen = ''half-open''"

locale circuit_contract =
  fixes circ :: "'s \<Rightarrow> circuit_state"
    and succeed :: "'t \<Rightarrow> 's \<Rightarrow> 's"
    and fail :: "'t \<Rightarrow> 's \<Rightarrow> 's"
  assumes succeed_closed: "circ s = Closed \<Longrightarrow> circ (succeed t s) = Closed"
    and succeed_open: "circ s = Open \<Longrightarrow> circ (succeed t s) = Open"
    and succeed_half: "circ s = HalfOpen \<Longrightarrow> circ (succeed t s) \<noteq> Open"
    and fail_closed: "circ s = Closed \<Longrightarrow> circ (fail t s) \<noteq> HalfOpen"
    and fail_open: "circ s = Open \<Longrightarrow> circ (fail t s) = Open"
    and fail_half: "circ s = HalfOpen \<Longrightarrow> circ (fail t s) = Open"
begin

definition outcome :: "bool \<times> 't \<Rightarrow> 's \<Rightarrow> 's" where
  "outcome r s = (if fst r then succeed (snd r) s else fail (snd r) s)"

lemma open_absorbing: "circ s = Open \<Longrightarrow> circ (fold outcome rs s) = Open"
  by (induction rs arbitrary: s) (simp_all add: outcome_def succeed_open fail_open)

lemma never_half_open: "circ s \<noteq> HalfOpen \<Longrightarrow> circ (fold outcome rs s) \<noteq> HalfOpen"
proof (induction rs arbitrary: s)
  case (Cons x rs)
  have "circ (outcome x s) \<noteq> HalfOpen"
    using Cons.prems succeed_closed succeed_open fail_closed fail_open
    by (cases "circ s") (auto simp: outcome_def)
  then show ?case
    using Cons.IH by simp
qed simp

end

end
