(* ===== verification/Circuit_Breaker.thy ===== *)
theory Circuit_Breaker
  imports Circuit
begin

text \<open>
  The circuit breaker of the dispatcher (\<open>dispatcher/circuit_breaker.rs\<close>).  Every field sits behind its
  own mutex; a method is one step.  \<open>execute\<close> runs the protected closure between the admission and the
  recording, so concurrent calls interleave there: the step relation \<open>cb_step\<close> has admission, success and
  failure as separate events, and \<open>execute\<close> is their composition for one caller.  Each reading of the
  clock is a parameter.
\<close>

record circuit_breaker_config =
  failure_threshold :: nat
  success_threshold :: nat
  timeout_ms :: nat
  half_open_max_calls :: nat

definition default_breaker_config :: circuit_breaker_config where
  "default_breaker_config =
     \<lparr>failure_threshold = 5, success_threshold = 3, timeout_ms = 60000, half_open_max_calls = 5\<rparr>"

record circuit_breaker_stats =
  total_failures :: nat
  total_successes :: nat
  total_rejections :: nat
  last_failure_ms :: "nat option"
  last_success_ms :: "nat option"
  tripped_at_ms :: "nat option"

record circuit_breaker =
  cb_id :: string
  cb_state :: circuit_state
  failure_count :: nat
  success_count :: nat
  cb_config :: circuit_breaker_config
  cb_stats :: circuit_breaker_stats

datatype 'a circuit_breaker_result =
    CbOk 'a
  | CbRejected "nat option"
  | CbFailed string

definition new_breaker :: "string \<Rightarrow> circuit_breaker_config \<Rightarrow> circuit_breaker" where
  "new_breaker uid config =
     \<lparr>cb_id = uid, cb_state = Closed, failure_count = 0, success_count = 0, cb_config = config,
      cb_stats = \<lparr>total_failures = 0, total_successes = 0, total_rejections = 0, last_failure_ms = None,
                  last_success_ms = None, tripped_at_ms = None\<rparr>\<rparr>"

definition breaker_with_id :: "string \<Rightarrow> circuit_breaker \<Rightarrow> circuit_breaker" where
  "breaker_with_id i b = b\<lparr>cb_id := i\<rparr>"

definition allows_request :: "circuit_breaker \<Rightarrow> bool" where
  "allows_request b =
     (case cb_state b of
        Closed \<Rightarrow> True
      | HalfOpen \<Rightarrow> success_count b < half_open_max_calls (cb_config b)
      | Open \<Rightarrow> False)"

definition valid_transition :: "circuit_state \<Rightarrow> circuit_state \<Rightarrow> bool" where
  "valid_transition a b \<longleftrightarrow>
     (a, b) \<in> set [(Closed, Open), (Open, HalfOpen), (HalfOpen, Closed), (HalfOpen, Open)]"

definition transition_to :: "circuit_state \<Rightarrow> circuit_breaker \<Rightarrow> circuit_breaker \<times> bool" where
  "transition_to s b = (if valid_transition (cb_state b) s then (b\<lparr>cb_state := s\<rparr>, True) else (b, False))"

definition set_tripped :: "nat \<Rightarrow> circuit_breaker \<Rightarrow> circuit_breaker" where
  "set_tripped t b = b\<lparr>cb_stats := (cb_stats b)\<lparr>tripped_at_ms := Some t\<rparr>\<rparr>"

definition check_timeout :: "nat \<Rightarrow> circuit_breaker \<Rightarrow> circuit_breaker" where
  "check_timeout now b =
     (if cb_state b \<noteq> Open then b
      else case tripped_at_ms (cb_stats b) of
             None \<Rightarrow> b
           | Some tripped_at \<Rightarrow>
               if timeout_ms (cb_config b) < saturating_sub now tripped_at then
                 (case transition_to HalfOpen b of (b', ok) \<Rightarrow> if ok then b'\<lparr>success_count := 0\<rparr> else b')
               else b)"

definition record_failure :: "nat \<Rightarrow> nat \<Rightarrow> circuit_breaker \<Rightarrow> circuit_breaker" where
  "record_failure now1 now2 b =
     (let state = cb_state b;
          b1 = b\<lparr>failure_count := failure_count b + 1,
                 cb_stats := (cb_stats b)\<lparr>total_failures := total_failures (cb_stats b) + 1,
                                          last_failure_ms := Some now1\<rparr>\<rparr>
      in case state of
           Closed \<Rightarrow>
             if failure_threshold (cb_config b1) \<le> failure_count b1 then
               (case transition_to Open b1 of (b2, ok) \<Rightarrow> if ok then set_tripped now2 b2 else b2)
             else b1
         | HalfOpen \<Rightarrow> set_tripped now2 ((fst (transition_to Open b1))\<lparr>success_count := 0\<rparr>)
         | Open \<Rightarrow> b1)"

definition record_success :: "nat \<Rightarrow> circuit_breaker \<Rightarrow> circuit_breaker" where
  "record_success now b =
     (let state = cb_state b;
          b1 = b\<lparr>cb_stats := (cb_stats b)\<lparr>total_successes := total_successes (cb_stats b) + 1,
                                          last_success_ms := Some now\<rparr>\<rparr>
      in case state of
           Closed \<Rightarrow> b1\<lparr>failure_count := 0\<rparr>
         | HalfOpen \<Rightarrow>
             let b2 = b1\<lparr>success_count := success_count b1 + 1\<rparr> in
             if success_threshold (cb_config b2) \<le> success_count b2 then
               (case transition_to Closed b2 of
                  (b3, ok) \<Rightarrow> if ok then b3\<lparr>failure_count := 0, success_count := 0\<rparr> else b3)
             else b2
         | Open \<Rightarrow> b1)"

text \<open>The part of \<open>execute\<close> before the closure: \<open>Some r\<close> is a rejection with its retry hint.\<close>

definition admit :: "nat \<Rightarrow> nat \<Rightarrow> circuit_breaker \<Rightarrow> circuit_breaker \<times> nat option option" where
  "admit now1 now2 b =
     (let b1 = check_timeout now1 b in
      if allows_request b1 then (b1, None)
      else
        (b1\<lparr>cb_stats := (cb_stats b1)\<lparr>total_rejections := total_rejections (cb_stats b1) + 1\<rparr>\<rparr>,
         Some (map_option (\<lambda>t. saturating_sub (timeout_ms (cb_config b1)) (saturating_sub now2 t))
                 (tripped_at_ms (cb_stats b1)))))"

text \<open>The closure acts on a world \<open>'w\<close>; the clock is read before it (twice) and after it (twice).\<close>

definition execute ::
  "nat \<Rightarrow> nat \<Rightarrow> nat \<Rightarrow> nat \<Rightarrow> ('w \<Rightarrow> (string + 'a) \<times> 'w) \<Rightarrow> circuit_breaker \<Rightarrow> 'w \<Rightarrow>
   'a circuit_breaker_result \<times> circuit_breaker \<times> 'w" where
  "execute now1 now2 now3 now4 f b w =
     (case admit now1 now2 b of
        (b1, Some retry) \<Rightarrow> (CbRejected retry, b1, w)
      | (b1, None) \<Rightarrow>
          (case f w of
             (Inr v, w') \<Rightarrow> (CbOk v, record_success now3 b1, w')
           | (Inl err, w') \<Rightarrow> (CbFailed err, record_failure now3 now4 b1, w')))"

definition trip :: "nat \<Rightarrow> circuit_breaker \<Rightarrow> circuit_breaker" where
  "trip now b = (if cb_state b = Closed then set_tripped now (fst (transition_to Open b)) else b)"

definition reset_breaker :: "circuit_breaker \<Rightarrow> circuit_breaker" where
  "reset_breaker b = b\<lparr>cb_state := Closed, failure_count := 0, success_count := 0\<rparr>"

record circuit_breaker_status =
  cs_id :: string
  cs_state :: circuit_state
  cs_failure_count :: nat
  cs_success_count :: nat
  cs_stats :: circuit_breaker_stats
  cs_config :: circuit_breaker_config

definition breaker_status :: "circuit_breaker \<Rightarrow> circuit_breaker_status" where
  "breaker_status b = \<lparr>cs_id = cb_id b, cs_state = cb_state b, cs_failure_count = failure_count b,
     cs_success_count = success_count b, cs_stats = cb_stats b, cs_config = cb_config b\<rparr>"


section \<open>Interleaved use\<close>

datatype cb_event =
    Admit nat nat
  | Success nat
  | Failure nat nat
  | Trip nat
  | Reset

fun cb_step :: "cb_event \<Rightarrow> circuit_breaker \<Rightarrow> circuit_breaker" where
  "cb_step (Admit n1 n2) b = fst (admit n1 n2 b)"
| "cb_step (Success n) b = record_success n b"
| "cb_step (Failure n1 n2) b = record_failure n1 n2 b"
| "cb_step (Trip n) b = trip n b"
| "cb_step Reset b = reset_breaker b"


section \<open>Lemmas\<close>

lemmas breaker_ops = admit_def check_timeout_def record_failure_def record_success_def trip_def
  reset_breaker_def transition_to_def valid_transition_def set_tripped_def allows_request_def Let_def

definition breaker_inv :: "circuit_breaker \<Rightarrow> bool" where
  "breaker_inv b \<longleftrightarrow>
     (cb_state b = Open \<longrightarrow> tripped_at_ms (cb_stats b) \<noteq> None) \<and>
     (cb_state b = Closed \<longrightarrow> failure_count b < max 1 (failure_threshold (cb_config b))) \<and>
     (cb_state b = HalfOpen \<longrightarrow> success_count b < max 1 (success_threshold (cb_config b))) \<and>
     (cb_state b \<noteq> HalfOpen \<longrightarrow> success_count b = 0)"

lemma breaker_inv_step: "breaker_inv b \<Longrightarrow> breaker_inv (cb_step e b)"
  by (cases e; cases "cb_state b")
    (auto simp: breaker_inv_def breaker_ops split: option.splits)

lemma config_step [simp]: "cb_config (cb_step e b) = cb_config b"
  by (cases e; cases "cb_state b") (auto simp: breaker_ops split: option.splits)

interpretation breaker_circuit: circuit_contract cb_state
  "\<lambda>t b. record_success (fst t) b" "\<lambda>t b. record_failure (fst t) (snd t) b"
  by unfold_locales (auto simp: breaker_ops)

interpretation breaker: invariant_machine cb_step breaker_inv
  by unfold_locales (rule breaker_inv_step)

lemma valid_step: "e \<noteq> Reset \<Longrightarrow> cb_state (cb_step e b) \<noteq> cb_state b \<Longrightarrow> valid_transition (cb_state b) (cb_state (cb_step e b))"
  by (cases e; cases "cb_state b")
    (auto simp: breaker_ops split: option.splits if_splits)

fun event_time :: "cb_event \<Rightarrow> nat" where
  "event_time (Admit n1 n2) = n1"
| "event_time _ = 0"

lemma open_step:
  assumes "cb_state b = Open" "tripped_at_ms (cb_stats b) = Some t" "e \<noteq> Reset"
    "event_time e \<le> t + timeout_ms (cb_config b)"
  shows "cb_state (cb_step e b) = Open \<and> tripped_at_ms (cb_stats (cb_step e b)) = Some t"
  using assms by (cases e) (auto simp: breaker_ops)

lemma open_run:
  "cb_state b = Open \<Longrightarrow> tripped_at_ms (cb_stats b) = Some t \<Longrightarrow>
   \<forall>e \<in> set es. e \<noteq> Reset \<and> event_time e \<le> t + timeout_ms (cb_config b) \<Longrightarrow>
   cb_state (fold cb_step es b) = Open \<and> tripped_at_ms (cb_stats (fold cb_step es b)) = Some t \<and>
   cb_config (fold cb_step es b) = cb_config b"
proof (induction es arbitrary: b)
  case (Cons e es)
  then show ?case
    using open_step [of b t e] Cons.IH [of "cb_step e b"] by simp
qed simp

lemma failures_from_closed:
  "cb_state b = Closed \<Longrightarrow> failure_count b + length ts < failure_threshold (cb_config b) \<Longrightarrow>
   cb_state (fold (\<lambda>(n1, n2). record_failure n1 n2) ts b) = Closed \<and>
   failure_count (fold (\<lambda>(n1, n2). record_failure n1 n2) ts b) = failure_count b + length ts \<and>
   cb_config (fold (\<lambda>(n1, n2). record_failure n1 n2) ts b) = cb_config b"
proof (induction ts arbitrary: b)
  case (Cons p ts)
  obtain n1 n2 where p: "p = (n1, n2)"
    by fastforce
  show ?case
    using Cons.IH [of "record_failure n1 n2 b"] Cons.prems p by (simp add: record_failure_def)
qed simp

lemma failures_open:
  "cb_state b = Open \<Longrightarrow> cb_state (fold (\<lambda>(n1, n2). record_failure n1 n2) ts b) = Open"
proof (induction ts arbitrary: b)
  case (Cons p ts)
  then show ?case
    by (cases p) (simp add: record_failure_def)
qed simp

lemma admit_rejects:
  assumes "\<not> allows_request (check_timeout n1 b)"
  shows "execute n1 n2 n3 n4 f b w =
    (CbRejected (map_option (\<lambda>t. timeout_ms (cb_config b) - (n2 - t)) (tripped_at_ms (cb_stats (check_timeout n1 b)))),
     fst (admit n1 n2 b), w)"
proof -
  have "cb_config (check_timeout n1 b) = cb_config b"
    by (auto simp: breaker_ops split: option.splits)
  then show ?thesis
    using assms by (simp add: execute_def admit_def Let_def)
qed

text \<open>Executions by one caller after the other, with their results.\<close>

fun executes :: "(nat \<times> nat \<times> nat \<times> nat \<times> ('w \<Rightarrow> (string + 'a) \<times> 'w)) list \<Rightarrow> circuit_breaker \<Rightarrow> 'w \<Rightarrow>
    'a circuit_breaker_result list \<times> circuit_breaker \<times> 'w" where
  "executes [] b w = ([], b, w)"
| "executes ((n1, n2, n3, n4, f) # cs) b w =
     (case execute n1 n2 n3 n4 f b w of (r, b', w') \<Rightarrow>
        (case executes cs b' w' of (rs, b'', w'') \<Rightarrow> (r # rs, b'', w'')))"

definition is_rejected :: "'a circuit_breaker_result \<Rightarrow> bool" where
  "is_rejected r = (case r of CbRejected _ \<Rightarrow> True | _ \<Rightarrow> False)"

lemma half_open_full_execute:
  assumes "cb_state b = HalfOpen" "half_open_max_calls (cb_config b) \<le> success_count b"
  shows "\<exists>r b'. execute n1 n2 n3 n4 f b w = (CbRejected r, b', w) \<and> cb_state b' = HalfOpen \<and>
    success_count b' = success_count b \<and> cb_config b' = cb_config b"
  using assms by (simp add: execute_def admit_def check_timeout_def allows_request_def Let_def)

lemma half_open_full_executes:
  "cb_state b = HalfOpen \<Longrightarrow> half_open_max_calls (cb_config b) \<le> success_count b \<Longrightarrow>
   executes cs b w = (rs, b', w') \<Longrightarrow> list_all is_rejected rs \<and> w' = w \<and> cb_state b' = HalfOpen"
proof (induction cs arbitrary: b rs b' w')
  case (Cons c cs)
  obtain n1 n2 n3 n4 f where c: "c = (n1, n2, n3, n4, f)"
    by (cases c)
  obtain r b1 where e: "execute n1 n2 n3 n4 f b w = (CbRejected r, b1, w)" "cb_state b1 = HalfOpen"
    "success_count b1 = success_count b" "cb_config b1 = cb_config b"
    using half_open_full_execute [OF Cons.prems(1,2), of n1 n2 n3 n4 f w] by blast
  obtain rs1 b2 w2 where x: "executes cs b1 w = (rs1, b2, w2)"
    by (cases "executes cs b1 w")
  show ?case
    using Cons.IH [OF _ _ x] Cons.prems e x c by (auto simp: is_rejected_def)
qed simp


section \<open>Properties\<close>

text \<open>
  Invariant and legal moves: under every interleaving of admissions, recorded successes and failures,
  manual trips and resets, an open breaker knows when it was tripped, a closed one has fewer consecutive
  failures than the threshold, a half-open one fewer successes than needed, and every step other than a
  reset either keeps the state or moves along one of the four legal transitions.
\<close>
theorem breaker_invariant:
  "breaker_inv (fold cb_step es (new_breaker i config))
   \<and> (e \<noteq> Reset \<longrightarrow>
        cb_state (cb_step e b) = cb_state b \<or> valid_transition (cb_state b) (cb_state (cb_step e b)))"
proof
  show "breaker_inv (fold cb_step es (new_breaker i config))"
    by (rule breaker.run_inv) (simp add: breaker_inv_def new_breaker_def)
  show "e \<noteq> Reset \<longrightarrow> cb_state (cb_step e b) = cb_state b \<or> valid_transition (cb_state b) (cb_state (cb_step e b))"
    using valid_step by blast
qed

definition demo_breaker :: circuit_breaker where
  "demo_breaker = new_breaker ''b'' default_breaker_config"

lemma breaker_invariant_witness:
  "breaker_inv (fold cb_step [Admit 1 1, Failure 2 2] demo_breaker) \<and>
   (cb_state (cb_step (Trip 5) demo_breaker) = cb_state demo_breaker \<or>
    valid_transition (cb_state demo_breaker) (cb_state (cb_step (Trip 5) demo_breaker)))"
  using breaker_invariant [of "[Admit 1 1, Failure 2 2]" "''b''" default_breaker_config "Trip 5" demo_breaker]
  by (simp add: demo_breaker_def del: fold_simps)

text \<open>
  Protection: from the moment a breaker is tripped until its timeout has passed, no matter what other
  callers do in between (short of a manual reset), it stays open and every execution is rejected without
  running the closure, with the remaining waiting time as the retry hint.
\<close>
theorem open_breaker_protects:
  assumes "cb_state b = Open" "tripped_at_ms (cb_stats b) = Some t"
    and "\<forall>e \<in> set es. e \<noteq> Reset \<and> event_time e \<le> t + timeout_ms (cb_config b)"
    and "n1 \<le> t + timeout_ms (cb_config b)"
  shows "cb_state (fold cb_step es b) = Open \<and>
    (\<exists>b'. execute n1 n2 n3 n4 f (fold cb_step es b) w = (CbRejected (Some (timeout_ms (cb_config b) - (n2 - t))), b', w))"
proof -
  let ?b = "fold cb_step es b"
  have o: "cb_state ?b = Open" "tripped_at_ms (cb_stats ?b) = Some t" "cb_config ?b = cb_config b"
    using open_run [OF assms(1,2,3)] by simp_all
  then have c: "check_timeout n1 ?b = ?b"
    using assms(4) by (simp add: check_timeout_def)
  have "\<not> allows_request (check_timeout n1 ?b)"
    using o c by (simp add: allows_request_def)
  from admit_rejects [OF this, of n2 n3 n4 f w] show ?thesis
    using o unfolding c by simp
qed

lemma open_breaker_protects_witness:
  "\<exists>b'. execute 200 300 0 0 (\<lambda>w. (Inr (), Suc w)) (fold cb_step [Admit 150 150, Success 160] (trip 100 demo_breaker)) (0 :: nat)
     = (CbRejected (Some (60000 - 200)), b', 0)"
proof -
  let ?b = "trip 100 demo_breaker"
  have s: "cb_state ?b = Open" "tripped_at_ms (cb_stats ?b) = Some 100" "timeout_ms (cb_config ?b) = 60000"
    by (simp_all add: demo_breaker_def new_breaker_def default_breaker_config_def trip_def transition_to_def
        valid_transition_def set_tripped_def)
  have e: "\<forall>e \<in> set [Admit 150 150, Success 160]. e \<noteq> Reset \<and> event_time e \<le> 100 + timeout_ms (cb_config ?b)"
    "200 \<le> 100 + timeout_ms (cb_config ?b)"
    by (simp_all add: s)
  show ?thesis
    using open_breaker_protects [OF s(1,2) e, of 300 0 0 "\<lambda>w. (Inr (), Suc w)" 0] unfolding s(3) by simp
qed

text \<open>
  The breaker trips exactly at the threshold: consecutive failures of a new breaker leave it closed
  below \<open>failure_threshold\<close> (at least 1) and open from the threshold on.
\<close>
theorem trips_exactly_at_threshold:
  assumes "0 < failure_threshold config"
  shows "cb_state (fold (\<lambda>(n1, n2). record_failure n1 n2) ts (new_breaker i config)) =
    (if length ts < failure_threshold config then Closed else Open)"
proof (cases "length ts < failure_threshold config")
  case True
  then show ?thesis
    using failures_from_closed [of "new_breaker i config" ts] by (simp add: new_breaker_def)
next
  case False
  define k where "k = failure_threshold config - 1"
  have k: "k < length ts" "failure_threshold config = Suc k"
    using False assms by (auto simp: k_def)
  let ?f = "\<lambda>(n1, n2). record_failure n1 n2"
  let ?b = "fold ?f (take k ts) (new_breaker i config)"
  have b: "cb_state ?b = Closed" "failure_count ?b = k" "cb_config ?b = config"
    using failures_from_closed [of "new_breaker i config" "take k ts"] k by (simp_all add: new_breaker_def)
  have "cb_state (?f (ts ! k) ?b) = Open"
    using b k by (simp add: record_failure_def transition_to_def valid_transition_def set_tripped_def Let_def split: prod.split)
  then have "cb_state (fold ?f (drop (Suc k) ts) (?f (ts ! k) ?b)) = Open"
    by (rule failures_open)
  moreover have "ts = take k ts @ ts ! k # drop (Suc k) ts"
    using k(1) by (simp add: id_take_nth_drop)
  then have "fold ?f ts (new_breaker i config) = fold ?f (drop (Suc k) ts) (?f (ts ! k) ?b)"
    by (metis fold_append fold_simps(2) comp_apply)
  ultimately show ?thesis
    using False by simp
qed

lemma trips_exactly_at_threshold_witness:
  "cb_state (fold (\<lambda>(n1, n2). record_failure n1 n2) (replicate 5 (1, 1)) (new_breaker ''b'' default_breaker_config)) = Open"
  using trips_exactly_at_threshold [of default_breaker_config "replicate 5 (1, 1)" "''b''"]
  by (simp add: default_breaker_config_def)

text \<open>
  A half-open breaker can lock up: the limit \<open>half_open_max_calls\<close> is compared with the number of
  successes.  Once that many successes are recorded without closing the breaker (which happens when
  \<open>success_threshold\<close> is larger), every later execution is rejected at any time, without end: only a
  manual reset helps.  Below the limit, on the other hand, any number of calls in flight is admitted.
\<close>
theorem half_open_limit_counts_successes:
  assumes "cb_state b = HalfOpen"
  shows "(half_open_max_calls (cb_config b) \<le> success_count b \<longrightarrow>
      list_all is_rejected (fst (executes cs b w)) \<and> snd (snd (executes cs b w)) = w
      \<and> cb_state (fst (snd (executes cs b w))) = HalfOpen)
    \<and> (success_count b < half_open_max_calls (cb_config b) \<longrightarrow>
      fold (\<lambda>(n1, n2). cb_step (Admit n1 n2)) ts b = b \<and> snd (admit n1 n2 b) = None)"
proof (intro conjI impI)
  assume full: "half_open_max_calls (cb_config b) \<le> success_count b"
  obtain rs b' w' where x: "executes cs b w = (rs, b', w')"
    by (cases "executes cs b w")
  show "list_all is_rejected (fst (executes cs b w))" "snd (snd (executes cs b w)) = w"
    "cb_state (fst (snd (executes cs b w))) = HalfOpen"
    using half_open_full_executes [OF assms full x] x by simp_all
next
  assume free: "success_count b < half_open_max_calls (cb_config b)"
  have a: "admit n1 n2 b = (b, None)" for n1 n2
    using assms free by (simp add: admit_def check_timeout_def allows_request_def)
  show "fold (\<lambda>(n1, n2). cb_step (Admit n1 n2)) ts b = b"
    by (induction ts) (auto simp: a)
  show "snd (admit n1 n2 b) = None"
    by (simp add: a)
qed

lemma half_open_limit_counts_successes_witness:
  "list_all is_rejected
     (fst (executes (replicate 2 (9, 9, 9, 9, \<lambda>w. (Inr (), w)))
        (demo_breaker\<lparr>cb_state := HalfOpen, success_count := 5\<rparr>) ()))"
  using half_open_limit_counts_successes
    [of "demo_breaker\<lparr>cb_state := HalfOpen, success_count := 5\<rparr>" "replicate 2 (9, 9, 9, 9, \<lambda>w. (Inr (), w))" "()"]
  by (simp add: demo_breaker_def new_breaker_def default_breaker_config_def del: executes.simps)

end
