(* ===== verification/Router.thy ===== *)
theory Router
  imports Prelude "HOL-Library.Word"
begin

text \<open>
  The routing algorithms of the balancer (\<open>dispatcher/router.rs\<close>): round robin and FNV-1a hashing on
  64-bit words, where \<open>wrapping_mul\<close> is the multiplication of \<open>64 word\<close>.
\<close>

definition fnv_offset_basis :: "64 word" where
  "fnv_offset_basis = 0xcbf29ce484222325"

definition fnv_prime :: "64 word" where
  "fnv_prime = 0x100000001b3"

definition stable_hash :: "string \<Rightarrow> 64 word" where
  "stable_hash input = foldl (\<lambda>h c. xor h (word_of_nat (of_char c)) * fnv_prime) fnv_offset_basis input"

definition round_robin_index :: "nat option \<Rightarrow> nat \<Rightarrow> nat option" where
  "round_robin_index last_index len =
     (if len = 0 then None
      else Some (case last_index of Some i \<Rightarrow> (i + 1) mod len | None \<Rightarrow> 0))"

definition constant_hashing_index :: "string \<Rightarrow> nat \<Rightarrow> nat option" where
  "constant_hashing_index key len = (if len = 0 then None else Some (unat (stable_hash key) mod len))"


section \<open>Lemmas\<close>

lemma round_robin_index_bound: "round_robin_index c n = Some i \<Longrightarrow> i < n"
  by (auto simp: round_robin_index_def split: if_splits option.splits)

lemma round_robin_index_None: "round_robin_index c n = None \<longleftrightarrow> n = 0"
  by (simp add: round_robin_index_def)

lemma constant_hashing_index_bound: "constant_hashing_index k n = Some i \<Longrightarrow> i < n"
  by (auto simp: constant_hashing_index_def split: if_splits)

text \<open>The index after a cursor, as a start offset, and a sequence of selections from a fixed list.\<close>

definition rr_start :: "nat option \<Rightarrow> nat" where
  "rr_start c = (case c of None \<Rightarrow> 0 | Some i \<Rightarrow> i + 1)"

fun rr_run :: "nat \<Rightarrow> nat \<Rightarrow> nat option \<Rightarrow> nat list" where
  "rr_run n 0 c = []"
| "rr_run n (Suc k) c =
     (case round_robin_index c n of None \<Rightarrow> [] | Some i \<Rightarrow> i # rr_run n k (Some i))"

lemma round_robin_index_start: "0 < n \<Longrightarrow> round_robin_index c n = Some (rr_start c mod n)"
  by (simp add: round_robin_index_def rr_start_def split: option.split)

lemma mod_shift: "Suc (a mod n + j) mod n = Suc (a + j) mod (n :: nat)"
  using mod_add_left_eq [of a n "j + 1"] by simp

lemma rr_run_indices: "0 < n \<Longrightarrow> rr_run n k c = map (\<lambda>j. (rr_start c + j) mod n) [0..<k]"
proof (induction k arbitrary: c)
  case (Suc k)
  have "rr_run n (Suc k) c = rr_start c mod n # map (\<lambda>j. (rr_start c mod n + 1 + j) mod n) [0..<k]"
    using Suc by (simp add: round_robin_index_start rr_start_def)
  also have "map (\<lambda>j. (rr_start c mod n + 1 + j) mod n) [0..<k] = map (\<lambda>j. (rr_start c + j) mod n) [1..<Suc k]"
    by (simp add: map_Suc_upt [symmetric] del: upt_Suc) (simp add: mod_shift)
  finally show ?case
    by (simp add: upt_conv_Cons del: upt_Suc)
qed simp

lemma rr_run_rotate: "xs \<noteq> [] \<Longrightarrow> map ((!) xs) (rr_run (length xs) (length xs) c) = rotate (rr_start c) xs"
  by (intro nth_equalityI) (simp_all add: rr_run_indices nth_rotate)

lemma rr_run_fair: "xs \<noteq> [] \<Longrightarrow> mset (map ((!) xs) (rr_run (length xs) (length xs) c)) = mset xs"
proof -
  have "mset (rotate k ys) = mset ys" for k and ys :: "'a list"
  proof (induction k)
    case (Suc k)
    have "mset (rotate1 zs) = mset zs" for zs :: "'a list"
      by (cases zs) simp_all
    then show ?case
      using Suc by simp
  qed simp
  then show "xs \<noteq> [] \<Longrightarrow> ?thesis"
    by (simp add: rr_run_rotate)
qed


section \<open>Properties\<close>

text \<open>
  Round robin is fair: over any full round (as many selections as there are targets, from any cursor
  position), the selected targets are the list rotated to the position after the cursor, so every target
  is selected exactly once.
\<close>
theorem round_robin_fair:
  assumes "xs \<noteq> []"
  shows "map ((!) xs) (rr_run (length xs) (length xs) c) = rotate (rr_start c) xs
    \<and> mset (map ((!) xs) (rr_run (length xs) (length xs) c)) = mset xs"
  using rr_run_rotate [OF assms] rr_run_fair [OF assms] by blast

lemma round_robin_fair_witness:
  "map ((!) [10, 20, 30 :: nat]) (rr_run (length [10, 20, 30 :: nat]) (length [10, 20, 30 :: nat]) (Some 0)) = [20, 30, 10]"
  using round_robin_fair [of "[10, 20, 30 :: nat]" "Some 0"] by (simp add: rr_start_def)

end
