(* ===== verification/Balancer.thy ===== *)
theory Balancer
  imports Circuit Router Json
begin

text \<open>
  The load balancer (\<open>dispatcher/balancer.rs\<close>): targets, their load and health, the circuit of each
  target, the four selection strategies and the diagnostics of a selection.  Each method is one step
  (the locks of the source are taken one after the other inside it).  A reading of the clock is a
  parameter; \<open>now0\<close> is the reading of a health record created on first use.
\<close>

datatype target_status = Available | Busy | Offline

record target_load =
  active :: nat
  total :: nat
  errors :: nat
  last_error_at :: "nat option"

definition default_load :: target_load where
  "default_load = \<lparr>active = 0, total = 0, errors = 0, last_error_at = None\<rparr>"

record target =
  target_id :: string
  weight :: nat
  capacity :: nat
  target_metadata :: json
  status :: target_status
  load :: target_load

definition new_target :: "string \<Rightarrow> target" where
  "new_target i = \<lparr>target_id = i, weight = 1, capacity = 10, target_metadata = JObject [], status = Available,
     load = default_load\<rparr>"

record target_options =
  o_weight :: "nat option"
  o_capacity :: "nat option"
  o_metadata :: "json option"
  o_status :: "target_status option"
  o_load :: "target_load option"

definition make_target :: "string \<Rightarrow> string option \<Rightarrow> target_options \<Rightarrow> target" where
  "make_target uid i opts =
     \<lparr>target_id = unwrap_or uid i, weight = max (unwrap_or 1 (o_weight opts)) 1,
      capacity = unwrap_or 10 (o_capacity opts), target_metadata = unwrap_or (JObject []) (o_metadata opts),
      status = unwrap_or Available (o_status opts), load = unwrap_or default_load (o_load opts)\<rparr>"

datatype balancer_strategy = RoundRobin | Weighted | LeastConnections | Hashing

record target_breaker_config =
  failure_threshold :: nat
  success_threshold :: nat
  cooldown_ms :: nat

definition default_target_breaker :: target_breaker_config where
  "default_target_breaker = \<lparr>failure_threshold = 3, success_threshold = 1, cooldown_ms = 30000\<rparr>"

record health_policy =
  heartbeat_ttl_ms :: nat
  check_on_select :: bool

definition default_health_policy :: health_policy where
  "default_health_policy = \<lparr>heartbeat_ttl_ms = 30000, check_on_select = True\<rparr>"

record balancer_runtime_config =
  circuit_breaker :: "target_breaker_config option"
  health :: "health_policy option"

definition runtime_enabled :: "balancer_runtime_config \<Rightarrow> bool" where
  "runtime_enabled c \<longleftrightarrow> circuit_breaker c \<noteq> None \<or> health c \<noteq> None"

record target_health =
  healthy :: bool
  last_checked_at :: "nat option"
  last_heartbeat_at :: "nat option"
  consecutive_failures :: nat
  consecutive_successes :: nat
  circuit :: circuit_state
  circuit_opened_at :: "nat option"

definition default_health :: target_health where
  "default_health = \<lparr>healthy = True, last_checked_at = None, last_heartbeat_at = None, consecutive_failures = 0,
     consecutive_successes = 0, circuit = Closed, circuit_opened_at = None\<rparr>"

datatype load_update = Inc | Dec | Error | ResetLoad

datatype target_exclude_reason =
  StatusBusy | StatusOffline | Unhealthy | HeartbeatExpired | CircuitOpen | PreferClosedOverHalfOpen
  | ExHashingKeyMissing

datatype selection_reason = ByRoundRobin | ByWeightedRoundRobin | ByLeastConnections | ByHashing

datatype balancer_miss_reason =
  NoTargetsConfigured | NoAvailableTargets | NoHealthyTargets | AllCircuitsOpen | HashingKeyMissing
  | NoEligibleTargets | StrategyReturnedNone

record balancer_target_diagnostic =
  d_target_id :: string
  eligible :: bool
  excluded_reasons :: "target_exclude_reason list"
  d_status :: target_status
  d_healthy :: bool
  d_circuit :: circuit_state
  d_active :: nat
  d_weight :: nat
  d_capacity :: nat

record balancer_selection_diagnostic =
  selection_key :: "string option"
  sel_strategy :: balancer_strategy
  candidate_ids :: "string list"
  selected_target_id :: "string option"
  selected_reason :: "selection_reason option"
  target_diagnostics :: "(string, balancer_target_diagnostic) imap"
  miss_reason :: "balancer_miss_reason option"

record balancer_diagnostics =
  last_selection :: "balancer_selection_diagnostic option"
  miss_reason_counts :: "(balancer_miss_reason, nat) imap"
  exclude_reason_counts :: "(target_exclude_reason, nat) imap"

record balancer_stats =
  selections :: nat
  failures :: nat

record balancer =
  balancer_id :: string
  strategy :: balancer_strategy
  config :: json
  runtime :: "balancer_runtime_config option"
  targets :: "(string, target) imap"
  runtime_health :: "(string, target_health) imap"
  round_robin_cursor :: "nat option"
  stats :: balancer_stats
  diagnostics :: balancer_diagnostics

record balancer_options =
  b_id :: "string option"
  b_strategy :: balancer_strategy
  b_config :: json
  b_runtime :: "balancer_runtime_config option"

definition new_balancer :: "string \<Rightarrow> balancer_options \<Rightarrow> balancer" where
  "new_balancer uid opts =
     \<lparr>balancer_id = unwrap_or uid (b_id opts), strategy = b_strategy opts, config = b_config opts,
      runtime = (case b_runtime opts of Some c \<Rightarrow> if runtime_enabled c then Some c else None | None \<Rightarrow> None),
      targets = [], runtime_health = [], round_robin_cursor = None, stats = \<lparr>selections = 0, failures = 0\<rparr>,
      diagnostics = \<lparr>last_selection = None, miss_reason_counts = [], exclude_reason_counts = []\<rparr>\<rparr>"


section \<open>Policies\<close>

definition breaker_config_of :: "balancer \<Rightarrow> target_breaker_config option" where
  "breaker_config_of b = Option.bind (runtime b) circuit_breaker"

definition health_policy_of :: "balancer \<Rightarrow> health_policy option" where
  "health_policy_of b = Option.bind (runtime b) health"

definition failure_threshold_of :: "balancer \<Rightarrow> nat" where
  "failure_threshold_of b =
     (case breaker_config_of b of Some c \<Rightarrow> max (failure_threshold c) 1 | None \<Rightarrow> u64_max)"

definition success_threshold_of :: "balancer \<Rightarrow> nat" where
  "success_threshold_of b =
     (case breaker_config_of b of Some c \<Rightarrow> max (success_threshold c) 1 | None \<Rightarrow> u64_max)"

definition heartbeat_expired :: "balancer \<Rightarrow> target_health \<Rightarrow> nat \<Rightarrow> bool" where
  "heartbeat_expired b h now =
     (case health_policy_of b of
        None \<Rightarrow> False
      | Some p \<Rightarrow>
          (case last_heartbeat_at h of
             None \<Rightarrow> False
           | Some beat \<Rightarrow> heartbeat_ttl_ms p < saturating_sub (max (unwrap_or now (last_checked_at h)) now) beat))"

definition cooldown_elapsed :: "balancer \<Rightarrow> target_health \<Rightarrow> nat \<Rightarrow> bool" where
  "cooldown_elapsed b h now =
     (case breaker_config_of b of
        None \<Rightarrow> False
      | Some c \<Rightarrow>
          (case circuit_opened_at h of None \<Rightarrow> False | Some t \<Rightarrow> cooldown_ms c \<le> saturating_sub now t))"

definition open_circuit :: "nat \<Rightarrow> target_health \<Rightarrow> target_health" where
  "open_circuit now h = h\<lparr>circuit := Open, circuit_opened_at := Some now, consecutive_successes := 0\<rparr>"

definition close_circuit :: "target_health \<Rightarrow> target_health" where
  "close_circuit h = h\<lparr>circuit := Closed, circuit_opened_at := None, consecutive_failures := 0\<rparr>"

definition initial_target_health :: "balancer \<Rightarrow> nat \<Rightarrow> target_health" where
  "initial_target_health b now =
     default_health\<lparr>last_checked_at := Some now,
       last_heartbeat_at := (if health_policy_of b \<noteq> None then Some now else None)\<rparr>"

text \<open>The effect of each kind of event on one health record.\<close>

definition on_success :: "balancer \<Rightarrow> nat \<Rightarrow> target_health \<Rightarrow> target_health" where
  "on_success b now h =
     (let h1 = h\<lparr>last_checked_at := Some now, healthy := True, consecutive_failures := 0,
                 consecutive_successes := consecutive_successes h + 1\<rparr>
      in if circuit h1 = HalfOpen \<and> success_threshold_of b \<le> consecutive_successes h1 then close_circuit h1 else h1)"

definition on_failure :: "balancer \<Rightarrow> nat \<Rightarrow> target_health \<Rightarrow> target_health" where
  "on_failure b now h =
     (let h1 = h\<lparr>last_checked_at := Some now, consecutive_failures := consecutive_failures h + 1,
                 consecutive_successes := 0\<rparr>
      in case circuit h1 of
           HalfOpen \<Rightarrow> open_circuit now h1
         | Closed \<Rightarrow> if failure_threshold_of b \<le> consecutive_failures h1 then open_circuit now h1 else h1
         | Open \<Rightarrow> h1)"

definition on_heartbeat :: "nat \<Rightarrow> bool \<Rightarrow> target_health \<Rightarrow> target_health" where
  "on_heartbeat now ok h =
     h\<lparr>healthy := ok, last_checked_at := Some now, last_heartbeat_at := Some now,
       consecutive_successes := (if ok then consecutive_successes h + 1 else 0)\<rparr>"

definition on_refresh :: "balancer \<Rightarrow> nat \<Rightarrow> target_health \<Rightarrow> target_health" where
  "on_refresh b now h =
     (let h1 = h\<lparr>last_checked_at := Some now\<rparr>;
          h2 = (if circuit h1 = Open \<and> cooldown_elapsed b h1 now
                then h1\<lparr>circuit := HalfOpen, circuit_opened_at := None, consecutive_successes := 0\<rparr> else h1)
      in if heartbeat_expired b h2 now then h2\<lparr>healthy := False\<rparr> else h2)"


section \<open>Operations on targets\<close>

definition ensure_target_health :: "string \<Rightarrow> nat \<Rightarrow> balancer \<Rightarrow> balancer" where
  "ensure_target_health i now0 b =
     b\<lparr>runtime_health := im_entry i (initial_target_health b now0) (\<lambda>h. h) (runtime_health b)\<rparr>"

definition add_target :: "target \<Rightarrow> nat \<Rightarrow> balancer \<Rightarrow> balancer \<times> target" where
  "add_target t now0 b =
     (let b1 = b\<lparr>targets := im_insert (target_id t) t (targets b)\<rparr>
      in (if runtime b1 \<noteq> None then ensure_target_health (target_id t) now0 b1 else b1, t))"

definition realign_cursor :: "nat \<Rightarrow> balancer \<Rightarrow> balancer" where
  "realign_cursor len b =
     b\<lparr>round_robin_cursor :=
        (if len = 0 then None else map_option (\<lambda>i. min i (saturating_sub len 1)) (round_robin_cursor b))\<rparr>"

definition remove_target :: "string \<Rightarrow> balancer \<Rightarrow> balancer \<times> target option" where
  "remove_target i b =
     (case map_of (targets b) i of
        None \<Rightarrow> (b, None)
      | Some t \<Rightarrow>
          let ts = im_remove i (targets b);
              b1 = realign_cursor (length ts) (b\<lparr>targets := ts\<rparr>)
          in (b1\<lparr>runtime_health := im_remove i (runtime_health b1)\<rparr>, Some t))"

definition get_target :: "balancer \<Rightarrow> string \<Rightarrow> target option" where
  "get_target b i = map_of (targets b) i"

definition list_targets :: "balancer \<Rightarrow> target list" where
  "list_targets b = im_values (targets b)"

definition list_available_targets :: "balancer \<Rightarrow> target list" where
  "list_available_targets b = filter (\<lambda>t. status t = Available) (im_values (targets b))"

definition load_after :: "load_update \<Rightarrow> nat \<Rightarrow> target_load \<Rightarrow> target_load" where
  "load_after op now l =
     (case op of
        Inc \<Rightarrow> l\<lparr>active := active l + 1, total := total l + 1\<rparr>
      | Dec \<Rightarrow> l\<lparr>active := saturating_sub (active l) 1\<rparr>
      | Error \<Rightarrow> l\<lparr>active := saturating_sub (active l) 1, errors := errors l + 1, last_error_at := Some now\<rparr>
      | ResetLoad \<Rightarrow> l\<lparr>active := 0\<rparr>)"

definition update_load :: "string \<Rightarrow> load_update \<Rightarrow> nat \<Rightarrow> balancer \<Rightarrow> balancer \<times> target_load option" where
  "update_load i op now b =
     (case map_of (targets b) i of
        None \<Rightarrow> (b, None)
      | Some t \<Rightarrow>
          let l = load_after op now (load t)
          in (b\<lparr>targets := im_modify i (\<lambda>t. t\<lparr>load := l\<rparr>) (targets b)\<rparr>, Some l))"

definition get_load :: "balancer \<Rightarrow> string \<Rightarrow> target_load option" where
  "get_load b i = map_option load (map_of (targets b) i)"

definition get_active_count :: "balancer \<Rightarrow> string \<Rightarrow> nat option" where
  "get_active_count b i = map_option active (get_load b i)"

definition set_target_status :: "string \<Rightarrow> target_status \<Rightarrow> balancer \<Rightarrow> balancer \<times> target_status option" where
  "set_target_status i st b =
     (case map_of (targets b) i of
        None \<Rightarrow> (b, None)
      | Some _ \<Rightarrow> (b\<lparr>targets := im_modify i (\<lambda>t. t\<lparr>status := st\<rparr>) (targets b)\<rparr>, Some st))"

definition mark_target_available :: "string \<Rightarrow> balancer \<Rightarrow> balancer \<times> target_status option" where
  "mark_target_available i = set_target_status i Available"

definition mark_target_busy :: "string \<Rightarrow> balancer \<Rightarrow> balancer \<times> target_status option" where
  "mark_target_busy i = set_target_status i Busy"

definition mark_target_offline :: "string \<Rightarrow> balancer \<Rightarrow> balancer \<times> target_status option" where
  "mark_target_offline i = set_target_status i Offline"


section \<open>Operations on health\<close>

text \<open>\<open>health_entry_mut\<close> followed by the update of the record, under one lock.\<close>

definition update_health ::
  "string \<Rightarrow> nat \<Rightarrow> (target_health \<Rightarrow> target_health) \<Rightarrow> balancer \<Rightarrow> balancer \<times> target_health option" where
  "update_health i now0 f b =
     (let hs = im_entry i (initial_target_health b now0) f (runtime_health b)
      in (b\<lparr>runtime_health := hs\<rparr>, map_of hs i))"

definition record_target_success :: "string \<Rightarrow> nat \<Rightarrow> nat \<Rightarrow> balancer \<Rightarrow> balancer \<times> target_health option" where
  "record_target_success i now now0 b =
     (if map_of (targets b) i = None then (b, None)
      else if runtime b = None then (b, Some default_health)
      else update_health i now0 (on_success b now) b)"

definition record_target_failure :: "string \<Rightarrow> nat \<Rightarrow> nat \<Rightarrow> balancer \<Rightarrow> balancer \<times> target_health option" where
  "record_target_failure i now now0 b =
     (if map_of (targets b) i = None then (b, None)
      else if runtime b = None then (b, Some default_health)
      else update_health i now0 (on_failure b now) b)"

definition record_target_heartbeat ::
  "string \<Rightarrow> bool \<Rightarrow> nat \<Rightarrow> nat \<Rightarrow> balancer \<Rightarrow> balancer \<times> target_health option" where
  "record_target_heartbeat i ok now now0 b =
     (if map_of (targets b) i = None then (b, None)
      else if runtime b = None then
        (b, Some (default_health\<lparr>healthy := ok, last_checked_at := Some now, last_heartbeat_at := Some now\<rparr>))
      else update_health i now0 (on_heartbeat now ok) b)"

text \<open>
  A target of a balancer with a runtime always has its record (lemma \<open>balancer_wf_step\<close> below), so a
  refresh never creates one and the clock reading of a new record does not matter here.
\<close>

definition refresh_target_health :: "nat \<Rightarrow> string \<Rightarrow> balancer \<Rightarrow> balancer \<times> target_health option" where
  "refresh_target_health now i b =
     (if map_of (targets b) i = None then (b, None)
      else if runtime b = None then (b, Some default_health)
      else update_health i now (on_refresh b now) b)"

definition refresh_targets :: "nat \<Rightarrow> balancer \<Rightarrow> balancer" where
  "refresh_targets now b =
     (if runtime b = None then b
      else fold (\<lambda>i b. fst (refresh_target_health now i b)) (im_keys (targets b)) b)"

definition target_health_of :: "balancer \<Rightarrow> string \<Rightarrow> target_health option" where
  "target_health_of b i =
     (if runtime b = None then map_option (\<lambda>_. default_health) (map_of (targets b) i)
      else map_of (runtime_health b) i)"

definition target_health_snapshot :: "balancer \<Rightarrow> (string, target_health) imap" where
  "target_health_snapshot b =
     (if runtime b = None then map (\<lambda>i. (i, default_health)) (im_keys (targets b)) else runtime_health b)"

definition is_target_routable :: "string \<Rightarrow> nat \<Rightarrow> balancer \<Rightarrow> balancer \<times> bool" where
  "is_target_routable i now b =
     (case get_target b i of
        None \<Rightarrow> (b, False)
      | Some t \<Rightarrow>
          if status t \<noteq> Available then (b, False)
          else (case refresh_target_health now i b of
                  (b', None) \<Rightarrow> (b', False)
                | (b', Some h) \<Rightarrow> (b', circuit h \<noteq> Open \<and> healthy h)))"


section \<open>Strategies\<close>

definition select_round_robin :: "target list \<Rightarrow> nat option \<Rightarrow> target option \<times> nat option" where
  "select_round_robin ts cursor =
     (case round_robin_index cursor (length ts) of
        None \<Rightarrow> (None, cursor)
      | Some next \<Rightarrow> (if next < length ts then Some (ts ! next) else None, Some next))"

definition weighted_list :: "target list \<Rightarrow> target list" where
  "weighted_list ts = concat (map (\<lambda>t. replicate (max (weight t) 1) t) ts)"

definition select_weighted :: "target list \<Rightarrow> nat option \<Rightarrow> target option \<times> nat option" where
  "select_weighted ts cursor = select_round_robin (weighted_list ts) cursor"

text \<open>\<open>min_by_key\<close> keeps the first of several minima.\<close>

fun select_least_connections :: "target list \<Rightarrow> target option" where
  "select_least_connections [] = None"
| "select_least_connections (t # ts) =
     (case select_least_connections ts of
        None \<Rightarrow> Some t
      | Some u \<Rightarrow> if active (load t) \<le> active (load u) then Some t else Some u)"

definition select_hashing :: "target list \<Rightarrow> string option \<Rightarrow> target option" where
  "select_hashing ts key =
     Option.bind key (\<lambda>k. Option.bind (constant_hashing_index k (length ts)) (\<lambda>i.
       if i < length ts then Some (ts ! i) else None))"

definition run_strategy ::
  "balancer_strategy \<Rightarrow> target list \<Rightarrow> string option \<Rightarrow> nat option \<Rightarrow> target option \<times> nat option" where
  "run_strategy st ts key cursor =
     (case st of
        RoundRobin \<Rightarrow> select_round_robin ts cursor
      | Weighted \<Rightarrow> select_weighted ts cursor
      | LeastConnections \<Rightarrow> (select_least_connections ts, cursor)
      | Hashing \<Rightarrow> (select_hashing ts key, cursor))"

definition selection_reason_for :: "balancer_strategy \<Rightarrow> selection_reason" where
  "selection_reason_for st =
     (case st of RoundRobin \<Rightarrow> ByRoundRobin | Weighted \<Rightarrow> ByWeightedRoundRobin
      | LeastConnections \<Rightarrow> ByLeastConnections | Hashing \<Rightarrow> ByHashing)"


section \<open>Selection\<close>

text \<open>Whether a target counts as healthy for a selection at time \<open>now\<close>.\<close>

definition selection_healthy :: "balancer \<Rightarrow> nat \<Rightarrow> target_health \<Rightarrow> bool" where
  "selection_healthy b now h = (if runtime b \<noteq> None then healthy h \<and> \<not> heartbeat_expired b h now else True)"

definition health_in :: "(string, target_health) imap \<Rightarrow> string \<Rightarrow> target_health" where
  "health_in hs i = unwrap_or default_health (map_of hs i)"

record selection_scan =
  available_status_count :: nat
  healthy_available_count :: nat
  open_circuit_available_count :: nat
  closed_candidate_ids :: "string list"
  half_open_candidate_ids :: "string list"

definition scan_target ::
  "balancer \<Rightarrow> nat \<Rightarrow> (string, target_health) imap \<Rightarrow> target \<Rightarrow> selection_scan \<Rightarrow> selection_scan" where
  "scan_target b now hs t s =
     (if status t \<noteq> Available then s
      else
        let s1 = s\<lparr>available_status_count := available_status_count s + 1\<rparr>;
            h = health_in hs (target_id t)
        in if \<not> selection_healthy b now h then s1
           else
             let s2 = s1\<lparr>healthy_available_count := healthy_available_count s1 + 1\<rparr>
             in case circuit h of
                  Closed \<Rightarrow> s2\<lparr>closed_candidate_ids := closed_candidate_ids s2 @ [target_id t]\<rparr>
                | HalfOpen \<Rightarrow> s2\<lparr>half_open_candidate_ids := half_open_candidate_ids s2 @ [target_id t]\<rparr>
                | Open \<Rightarrow> s2\<lparr>open_circuit_available_count := open_circuit_available_count s2 + 1\<rparr>)"

definition empty_scan :: selection_scan where
  "empty_scan = \<lparr>available_status_count = 0, healthy_available_count = 0, open_circuit_available_count = 0,
     closed_candidate_ids = [], half_open_candidate_ids = []\<rparr>"

definition target_excluded_reasons ::
  "balancer \<Rightarrow> target \<Rightarrow> target_health \<Rightarrow> nat \<Rightarrow> bool \<Rightarrow> string list \<Rightarrow> string list \<Rightarrow> bool \<Rightarrow>
   target_exclude_reason list" where
  "target_excluded_reasons b t h now prefer_closed closed_set candidate_set hashing_key_missing =
     (case status t of Busy \<Rightarrow> [StatusBusy] | Offline \<Rightarrow> [StatusOffline] | Available \<Rightarrow> []) @
     (if status t = Available \<and> runtime b \<noteq> None then
        (if heartbeat_expired b h now then [HeartbeatExpired] else if \<not> healthy h then [Unhealthy] else []) @
        (if circuit h = Open then [CircuitOpen] else []) @
        (if prefer_closed \<and> circuit h = HalfOpen \<and> target_id t \<notin> set closed_set
         then [PreferClosedOverHalfOpen] else [])
      else []) @
     (if status t = Available \<and> hashing_key_missing \<and> target_id t \<in> set candidate_set
      then [ExHashingKeyMissing] else [])"

definition determine_miss_reason ::
  "balancer \<Rightarrow> nat \<Rightarrow> nat \<Rightarrow> nat \<Rightarrow> nat \<Rightarrow> string list \<Rightarrow> string option \<Rightarrow> balancer_miss_reason" where
  "determine_miss_reason b target_count available healthy_n open_n candidates key =
     (if target_count = 0 then NoTargetsConfigured
      else if strategy b = Hashing \<and> key = None \<and> candidates \<noteq> [] then HashingKeyMissing
      else if available = 0 then NoAvailableTargets
      else if runtime b \<noteq> None then
        (if healthy_n = 0 then NoHealthyTargets
         else if candidates = [] \<and> 0 < open_n then AllCircuitsOpen
         else if candidates = [] then NoEligibleTargets
         else StrategyReturnedNone)
      else if candidates = [] then NoAvailableTargets
      else StrategyReturnedNone)"

definition target_diagnostic ::
  "balancer \<Rightarrow> nat \<Rightarrow> (string, target_health) imap \<Rightarrow> bool \<Rightarrow> string list \<Rightarrow> string list \<Rightarrow> bool \<Rightarrow>
   string \<times> target \<Rightarrow> string \<times> balancer_target_diagnostic" where
  "target_diagnostic b now hs prefer_closed closed_set candidate_set key_missing it =
     (let h = health_in hs (fst it); t = snd it;
          reasons = target_excluded_reasons b t h now prefer_closed closed_set candidate_set key_missing
      in (fst it,
          \<lparr>d_target_id = fst it, eligible = (reasons = []), excluded_reasons = reasons, d_status = status t,
           d_healthy = selection_healthy b now h, d_circuit = circuit h, d_active = active (load t),
           d_weight = weight t, d_capacity = capacity t\<rparr>))"

definition refresh_on_select :: "nat \<Rightarrow> balancer \<Rightarrow> balancer" where
  "refresh_on_select now b =
     (if (case health_policy_of b of Some p \<Rightarrow> check_on_select p | None \<Rightarrow> False) then refresh_targets now b else b)"

definition compute_selection ::
  "(string, target) imap \<Rightarrow> string option \<Rightarrow> nat \<Rightarrow> balancer \<Rightarrow>
   balancer \<times> target option \<times> balancer_selection_diagnostic" where
  "compute_selection ts key now b =
     (let b1 = refresh_on_select now b;
          hs = target_health_snapshot b1;
          s = fold (scan_target b1 now hs) (im_values ts) empty_scan;
          prefer_closed = (closed_candidate_ids s \<noteq> []);
          candidates = (if prefer_closed then closed_candidate_ids s else half_open_candidate_ids s);
          key_missing = (strategy b1 = Hashing \<and> key = None \<and> candidates \<noteq> []);
          diags = map (target_diagnostic b1 now hs prefer_closed (closed_candidate_ids s) candidates key_missing) ts;
          pool = List.map_filter (map_of ts) candidates;
          (selected, cursor) = run_strategy (strategy b1) pool key (round_robin_cursor b1)
      in (b1\<lparr>round_robin_cursor := cursor\<rparr>, selected,
          \<lparr>selection_key = key, sel_strategy = strategy b1, candidate_ids = candidates,
           selected_target_id = map_option target_id selected,
           selected_reason = map_option (\<lambda>_. selection_reason_for (strategy b1)) selected,
           target_diagnostics = diags,
           miss_reason = (if selected = None then
              Some (determine_miss_reason b1 (length ts) (available_status_count s) (healthy_available_count s)
                      (open_circuit_available_count s) candidates key) else None)\<rparr>))"

definition count_one :: "'k \<Rightarrow> ('k, nat) imap \<Rightarrow> ('k, nat) imap" where
  "count_one k m = im_entry k 0 (\<lambda>n. n + 1) m"

definition record_selection ::
  "balancer_selection_diagnostic \<Rightarrow> balancer_diagnostics \<Rightarrow> balancer_diagnostics" where
  "record_selection sel d =
     (let ex = fold (\<lambda>td m. fold count_one (excluded_reasons td) m)
                 (im_values (target_diagnostics sel)) (exclude_reason_counts d);
          ms = (case miss_reason sel of None \<Rightarrow> miss_reason_counts d | Some r \<Rightarrow> count_one r (miss_reason_counts d))
      in \<lparr>last_selection = Some sel, miss_reason_counts = ms, exclude_reason_counts = ex\<rparr>)"

definition select_target :: "string option \<Rightarrow> nat \<Rightarrow> balancer \<Rightarrow> balancer \<times> target option" where
  "select_target key now b =
     (case compute_selection (targets b) key now b of (b1, selected, diag) \<Rightarrow>
        (b1\<lparr>stats := (if selected \<noteq> None then (stats b1)\<lparr>selections := selections (stats b1) + 1\<rparr>
                      else (stats b1)\<lparr>failures := failures (stats b1) + 1\<rparr>),
            diagnostics := record_selection diag (diagnostics b1)\<rparr>, selected))"


section \<open>Status and metrics\<close>

record balancer_metrics =
  total_targets :: nat
  available_targets :: nat
  busy_targets :: nat
  offline_targets :: nat
  healthy_targets :: nat
  unhealthy_targets :: nat
  open_circuits :: nat
  half_open_circuits :: nat
  total_active :: nat
  total_errors :: nat

definition count_of :: "('a \<Rightarrow> bool) \<Rightarrow> 'a list \<Rightarrow> nat" where
  "count_of P xs = length (filter P xs)"

definition balancer_metrics_of :: "balancer \<Rightarrow> balancer_metrics" where
  "balancer_metrics_of b =
     (let ts = im_values (targets b); hs = target_health_snapshot b;
          ok = count_of (\<lambda>i. case map_of hs i of Some h \<Rightarrow> healthy h | None \<Rightarrow> True) (im_keys (targets b))
      in \<lparr>total_targets = length ts,
          available_targets = count_of (\<lambda>t. status t = Available) ts,
          busy_targets = count_of (\<lambda>t. status t = Busy) ts,
          offline_targets = count_of (\<lambda>t. status t = Offline) ts,
          healthy_targets = ok,
          unhealthy_targets = saturating_sub (length ts) ok,
          open_circuits = count_of (\<lambda>h. circuit h = Open) (im_values hs),
          half_open_circuits = count_of (\<lambda>h. circuit h = HalfOpen) (im_values hs),
          total_active = sum_list (map (\<lambda>t. active (load t)) ts),
          total_errors = sum_list (map (\<lambda>t. errors (load t)) ts)\<rparr>)"


section \<open>The contract of a strategy\<close>

text \<open>
  What the selection needs of a strategy: it answers with one of the given targets, and with none only
  when there is none.
\<close>

locale target_selector =
  fixes pick :: "'c \<Rightarrow> 't list \<Rightarrow> 't option \<times> 'c"
  assumes pick_mem: "pick c ts = (Some t, c') \<Longrightarrow> t \<in> set ts"
    and pick_None: "fst (pick c ts) = None \<longleftrightarrow> ts = []"
begin

lemma pick_cases:
  obtains (empty) "ts = []" "fst (pick c ts) = None"
  | (picked) t where "t \<in> set ts" "fst (pick c ts) = Some t"
proof (cases "fst (pick c ts)")
  case None
  then show thesis using empty pick_None by blast
next
  case (Some t)
  then show thesis using picked pick_mem [of c ts t "snd (pick c ts)"] by (metis prod.collapse)
qed

end

lemma select_least_connections_None: "select_least_connections ts = None \<longleftrightarrow> ts = []"
  by (cases ts) (auto split: option.splits)

lemma select_least_connections_min:
  "select_least_connections ts = Some t \<Longrightarrow> t \<in> set ts \<and> (\<forall>u \<in> set ts. active (load t) \<le> active (load u))"
  by (induction ts arbitrary: t)
    (auto simp: select_least_connections_None split: option.splits if_splits intro: le_trans)

lemma select_hashing_no_key [simp]: "select_hashing ts None = None"
  by (simp add: select_hashing_def)

lemma weighted_list_set [simp]: "set (weighted_list ts) = set ts"
  by (auto simp: weighted_list_def)

lemma weighted_list_Nil [simp]: "weighted_list ts = [] \<longleftrightarrow> ts = []"
  by (cases ts) (auto simp: weighted_list_def)

interpretation round_robin: target_selector "\<lambda>c ts. select_round_robin ts c"
proof unfold_locales
  fix c ts t c'
  show "select_round_robin ts c = (Some t, c') \<Longrightarrow> t \<in> set ts"
    by (auto simp: select_round_robin_def split: option.splits if_splits)
  show "fst (select_round_robin ts c) = None \<longleftrightarrow> ts = []"
    using round_robin_index_bound [of c "length ts"]
    by (auto simp: select_round_robin_def round_robin_index_None split: option.splits)
qed

interpretation weighted: target_selector "\<lambda>c ts. select_weighted ts c"
proof unfold_locales
  fix c ts t c'
  show "select_weighted ts c = (Some t, c') \<Longrightarrow> t \<in> set ts"
    using round_robin.pick_mem [of "weighted_list ts" c t c'] by (simp add: select_weighted_def)
  show "fst (select_weighted ts c) = None \<longleftrightarrow> ts = []"
    using round_robin.pick_None [of "weighted_list ts" c] by (simp add: select_weighted_def)
qed

interpretation least_connections: target_selector "\<lambda>c ts. (select_least_connections ts, c)"
  by unfold_locales (auto simp: select_least_connections_None dest: select_least_connections_min)

interpretation hashing: target_selector "\<lambda>c ts. (select_hashing ts (Some k), c)"
  by unfold_locales
    (auto simp: select_hashing_def constant_hashing_index_def split: if_splits)

lemma run_strategy_mem:
  assumes "run_strategy st ts key c = (Some t, c')"
  shows "t \<in> set ts"
proof (cases st)
  case RoundRobin
  then show ?thesis using assms round_robin.pick_mem by (simp add: run_strategy_def)
next
  case Weighted
  then show ?thesis using assms weighted.pick_mem by (simp add: run_strategy_def)
next
  case LeastConnections
  then show ?thesis using assms least_connections.pick_mem [of ts c t c] by (simp add: run_strategy_def)
next
  case Hashing
  then show ?thesis using assms hashing.pick_mem [of ts _ c t c]
    by (cases key) (auto simp: run_strategy_def)
qed

lemma run_strategy_None:
  "fst (run_strategy st ts key c) = None \<longleftrightarrow> ts = [] \<or> st = Hashing \<and> key = None"
  using round_robin.pick_None [of ts c] weighted.pick_None [of ts c]
    least_connections.pick_None [of ts c] hashing.pick_None [of ts "the key" c]
  by (cases st; cases key) (auto simp: run_strategy_def)


section \<open>Well-formedness\<close>

definition health_wf :: "target_health \<Rightarrow> bool" where
  "health_wf h \<longleftrightarrow> (circuit h = Open \<longleftrightarrow> circuit_opened_at h \<noteq> None)"

definition balancer_wf :: "balancer \<Rightarrow> bool" where
  "balancer_wf b \<longleftrightarrow>
     im_wf (targets b) \<and> im_wf (runtime_health b) \<and>
     list_all (\<lambda>(i, t). target_id t = i) (targets b) \<and>
     list_all (\<lambda>(i, h). health_wf h) (runtime_health b) \<and>
     set (im_keys (runtime_health b)) = (if runtime b = None then {} else set (im_keys (targets b)))"

lemma health_wf_events [simp]:
  "health_wf (initial_target_health b now)"
  "health_wf h \<Longrightarrow> health_wf (on_success b now h)"
  "health_wf h \<Longrightarrow> health_wf (on_failure b now h)"
  "health_wf h \<Longrightarrow> health_wf (on_heartbeat now ok h)"
  "health_wf h \<Longrightarrow> health_wf (on_refresh b now h)"
  by (auto simp: health_wf_def initial_target_health_def default_health_def on_success_def close_circuit_def
      on_failure_def open_circuit_def on_heartbeat_def on_refresh_def Let_def split: circuit_state.splits)

interpretation target_circuit: circuit_contract circuit "on_success b" "on_failure b"
  by unfold_locales (auto simp: on_success_def on_failure_def open_circuit_def close_circuit_def Let_def)


section \<open>Events\<close>

datatype balancer_event =
    AddTarget target nat
  | RemoveTarget string
  | UpdateLoad string load_update nat
  | SetStatus string target_status
  | TargetSuccess string nat nat
  | TargetFailure string nat nat
  | Heartbeat string bool nat nat
  | Refresh nat
  | Select "string option" nat

fun balancer_step :: "balancer_event \<Rightarrow> balancer \<Rightarrow> balancer" where
  "balancer_step (AddTarget t now0) b = fst (add_target t now0 b)"
| "balancer_step (RemoveTarget i) b = fst (remove_target i b)"
| "balancer_step (UpdateLoad i op now) b = fst (update_load i op now b)"
| "balancer_step (SetStatus i st) b = fst (set_target_status i st b)"
| "balancer_step (TargetSuccess i now now0) b = fst (record_target_success i now now0 b)"
| "balancer_step (TargetFailure i now now0) b = fst (record_target_failure i now now0 b)"
| "balancer_step (Heartbeat i ok now now0) b = fst (record_target_heartbeat i ok now now0 b)"
| "balancer_step (Refresh now) b = refresh_targets now b"
| "balancer_step (Select key now) b = fst (select_target key now b)"

lemma update_health_wf:
  assumes "balancer_wf b" "map_of (targets b) i \<noteq> None" "runtime b \<noteq> None"
    and "\<And>h. health_wf h \<Longrightarrow> health_wf (f h)"
  shows "balancer_wf (fst (update_health i now0 f b))"
proof -
  have i: "i \<in> set (im_keys (targets b))"
    using assms(2) im.get_Some_key [of "targets b" i] by auto
  show ?thesis
    using assms i
    by (auto simp: balancer_wf_def update_health_def Let_def im_wf_entry set_keys_entry simp del: set_map
        intro!: list_all_entry [where P = "\<lambda>_ h. health_wf h"])
qed

lemma refresh_target_wf: "balancer_wf b \<Longrightarrow> balancer_wf (fst (refresh_target_health now i b))"
  by (auto simp: refresh_target_health_def intro!: update_health_wf)

lemma refresh_target_same:
  "targets (fst (refresh_target_health now i b)) = targets b \<and> runtime (fst (refresh_target_health now i b)) = runtime b
   \<and> strategy (fst (refresh_target_health now i b)) = strategy b
   \<and> round_robin_cursor (fst (refresh_target_health now i b)) = round_robin_cursor b"
  by (simp add: refresh_target_health_def update_health_def Let_def)

lemma refresh_fold:
  "balancer_wf b \<Longrightarrow>
   balancer_wf (fold (\<lambda>i b. fst (refresh_target_health now i b)) is b) \<and>
   targets (fold (\<lambda>i b. fst (refresh_target_health now i b)) is b) = targets b \<and>
   runtime (fold (\<lambda>i b. fst (refresh_target_health now i b)) is b) = runtime b \<and>
   strategy (fold (\<lambda>i b. fst (refresh_target_health now i b)) is b) = strategy b \<and>
   round_robin_cursor (fold (\<lambda>i b. fst (refresh_target_health now i b)) is b) = round_robin_cursor b"
proof (induction "is" arbitrary: b)
  case (Cons i ids)
  then show ?case
    using refresh_target_wf [of b now i] refresh_target_same [of now i b] by simp
qed simp

lemma refresh_targets_wf:
  "balancer_wf b \<Longrightarrow> balancer_wf (refresh_targets now b) \<and> targets (refresh_targets now b) = targets b \<and>
   runtime (refresh_targets now b) = runtime b \<and> strategy (refresh_targets now b) = strategy b \<and>
   round_robin_cursor (refresh_targets now b) = round_robin_cursor b"
  using refresh_fold [of b now "im_keys (targets b)"] by (simp add: refresh_targets_def)

lemma refresh_on_select_wf:
  "balancer_wf b \<Longrightarrow> balancer_wf (refresh_on_select now b) \<and> targets (refresh_on_select now b) = targets b \<and>
   runtime (refresh_on_select now b) = runtime b \<and> strategy (refresh_on_select now b) = strategy b \<and>
   round_robin_cursor (refresh_on_select now b) = round_robin_cursor b"
  using refresh_targets_wf [of b now] by (simp add: refresh_on_select_def)

lemma select_target_wf: "balancer_wf b \<Longrightarrow> balancer_wf (fst (select_target key now b))"
  using refresh_on_select_wf [of b now]
  by (auto simp: select_target_def compute_selection_def Let_def balancer_wf_def split: prod.splits)

lemma realign_same [simp]:
  "targets (realign_cursor n b) = targets b" "runtime_health (realign_cursor n b) = runtime_health b"
  "runtime (realign_cursor n b) = runtime b"
  by (simp_all add: realign_cursor_def)

lemma balancer_wf_step: "balancer_wf b \<Longrightarrow> balancer_wf (balancer_step e b)"
proof (cases e)
  case (AddTarget t now0)
  assume "balancer_wf b"
  then show ?thesis
    using AddTarget
    by (auto simp: balancer_wf_def add_target_def ensure_target_health_def Let_def map_ops set_keys_insert set_keys_entry
        simp del: set_map intro!: list_all_entry [where P = "\<lambda>_ h. health_wf h"])
next
  case (RemoveTarget i)
  assume "balancer_wf b"
  then show ?thesis
    using RemoveTarget
    by (auto simp: balancer_wf_def remove_target_def Let_def map_ops set_keys_remove
        simp del: set_map split: option.split)
next
  case (UpdateLoad i op now)
  assume "balancer_wf b"
  then show ?thesis
    using UpdateLoad
    by (auto simp: balancer_wf_def update_load_def Let_def map_ops simp del: set_map split: option.split)
next
  case (SetStatus i st)
  assume "balancer_wf b"
  then show ?thesis
    using SetStatus
    by (auto simp: balancer_wf_def set_target_status_def Let_def map_ops simp del: set_map split: option.split)
qed (auto simp: record_target_success_def record_target_failure_def record_target_heartbeat_def refresh_targets_wf
    intro!: update_health_wf select_target_wf)

interpretation balancing: invariant_machine balancer_step balancer_wf
  by unfold_locales (rule balancer_wf_step)


section \<open>Selection lemmas\<close>

text \<open>A target that may serve at time \<open>now\<close>, judged by the health records \<open>hs\<close>.\<close>

definition serviceable :: "balancer \<Rightarrow> nat \<Rightarrow> (string, target_health) imap \<Rightarrow> target \<Rightarrow> bool" where
  "serviceable b now hs t \<longleftrightarrow> status t = Available \<and> selection_healthy b now (health_in hs (target_id t))"

definition in_circuit :: "balancer \<Rightarrow> nat \<Rightarrow> (string, target_health) imap \<Rightarrow> circuit_state \<Rightarrow> target \<Rightarrow> bool" where
  "in_circuit b now hs c t \<longleftrightarrow> serviceable b now hs t \<and> circuit (health_in hs (target_id t)) = c"

lemma scan_fold:
  "fold (scan_target b now hs) ts s =
     \<lparr>available_status_count = available_status_count s + length (filter (\<lambda>t. status t = Available) ts),
      healthy_available_count = healthy_available_count s + length (filter (serviceable b now hs) ts),
      open_circuit_available_count = open_circuit_available_count s + length (filter (in_circuit b now hs Open) ts),
      closed_candidate_ids = closed_candidate_ids s @ map target_id (filter (in_circuit b now hs Closed) ts),
      half_open_candidate_ids = half_open_candidate_ids s @ map target_id (filter (in_circuit b now hs HalfOpen) ts)\<rparr>"
proof (induction ts arbitrary: s)
  case (Cons t ts)
  then show ?case
    by (cases "circuit (health_in hs (target_id t))")
      (auto simp: scan_target_def in_circuit_def serviceable_def Let_def)
qed simp

text \<open>The pool a strategy chooses from: closed circuits when there are any, else half-open ones.\<close>

definition selection_pool :: "balancer \<Rightarrow> nat \<Rightarrow> target list" where
  "selection_pool b now =
     (let b1 = refresh_on_select now b; hs = target_health_snapshot b1; ts = im_values (targets b);
          closed = filter (in_circuit b1 now hs Closed) ts
      in if closed \<noteq> [] then closed else filter (in_circuit b1 now hs HalfOpen) ts)"

lemma pool_of_ids:
  assumes "im_wf m" "list_all (\<lambda>(i, t). target_id t = i) m" "set xs \<subseteq> set (im_values m)"
  shows "List.map_filter (map_of m) (map target_id xs) = xs"
  using assms(3)
proof (induction xs)
  case (Cons x xs)
  obtain i where i: "(i, x) \<in> set m"
    using Cons.prems by auto
  then have "target_id x = i"
    using assms(2) by (auto simp: list_all_iff)
  then have "map_of m (target_id x) = Some x"
    using im_values_get [OF assms(1) i] by simp
  then show ?case
    using Cons by (simp add: map_filter_simps)
qed (simp add: map_filter_simps)

lemma compute_selection_pool:
  assumes "balancer_wf b" "compute_selection (targets b) key now b = (b', sel, diag)"
  shows "run_strategy (strategy b) (selection_pool b now) key (round_robin_cursor b) = (sel, round_robin_cursor b')
    \<and> candidate_ids diag = map target_id (selection_pool b now)
    \<and> selected_target_id diag = map_option target_id sel
    \<and> b' = (refresh_on_select now b)\<lparr>round_robin_cursor := round_robin_cursor b'\<rparr>"
proof -
  let ?b1 = "refresh_on_select now b"
  let ?hs = "target_health_snapshot ?b1"
  let ?ts = "im_values (targets b)"
  have same: "strategy ?b1 = strategy b" "round_robin_cursor ?b1 = round_robin_cursor b"
    using refresh_on_select_wf [OF assms(1)] by simp_all
  have "List.map_filter (map_of (targets b)) (map target_id (filter P ?ts)) = filter P ?ts" for P
    using assms(1) by (intro pool_of_ids) (auto simp: balancer_wf_def)
  then show ?thesis
    using assms(2)
    by (auto simp: compute_selection_def Let_def scan_fold empty_scan_def selection_pool_def same
        filter_empty_conv split: prod.splits if_splits)
qed

lemma not_Open: "c \<noteq> Open \<longleftrightarrow> c = Closed \<or> c = HalfOpen"
  by (cases c) simp_all

lemma select_target_compute:
  obtains b1 diag where "compute_selection (targets b) key now b = (b1, snd (select_target key now b), diag)"
    "miss_reason diag = None \<longleftrightarrow> snd (select_target key now b) \<noteq> None"
proof -
  obtain b1 sel diag where c: "compute_selection (targets b) key now b = (b1, sel, diag)"
    by (cases "compute_selection (targets b) key now b")
  then have "snd (select_target key now b) = sel"
    by (simp add: select_target_def)
  moreover have "miss_reason diag = None \<longleftrightarrow> sel \<noteq> None"
    using c by (clarsimp simp: compute_selection_def Let_def split: prod.splits)
  ultimately show thesis
    using that c by simp
qed

lemma pool_mem:
  "t \<in> set (selection_pool b now) \<longleftrightarrow>
   t \<in> set (im_values (targets b)) \<and>
   (let b1 = refresh_on_select now b; hs = target_health_snapshot b1
    in in_circuit b1 now hs Closed t \<or>
       in_circuit b1 now hs HalfOpen t \<and> (\<forall>u \<in> set (im_values (targets b)). \<not> in_circuit b1 now hs Closed u))"
  by (auto simp: selection_pool_def Let_def filter_empty_conv in_circuit_def)

lemma pool_empty:
  "selection_pool b now = [] \<longleftrightarrow>
    (let b1 = refresh_on_select now b; hs = target_health_snapshot b1
     in \<not> list_ex (\<lambda>t. serviceable b1 now hs t \<and> circuit (health_in hs (target_id t)) \<noteq> Open) (im_values (targets b)))"
  by (auto simp: selection_pool_def Let_def filter_empty_conv in_circuit_def list_ex_iff not_Open)

lemma select_target_None:
  assumes "balancer_wf b"
  shows "snd (select_target key now b) = None \<longleftrightarrow> selection_pool b now = [] \<or> strategy b = Hashing \<and> key = None"
proof -
  obtain b1 diag where c: "compute_selection (targets b) key now b = (b1, snd (select_target key now b), diag)"
    by (rule select_target_compute)
  show ?thesis
    using compute_selection_pool [OF assms c]
      run_strategy_None [of "strategy b" "selection_pool b now" key "round_robin_cursor b"] by simp
qed

lemma select_target_Some:
  assumes "balancer_wf b" "snd (select_target key now b) = Some t"
  shows "t \<in> set (selection_pool b now)"
proof -
  obtain b1 diag where c: "compute_selection (targets b) key now b = (b1, snd (select_target key now b), diag)"
    by (rule select_target_compute)
  show ?thesis
    using compute_selection_pool [OF assms(1) c] assms(2) by (auto intro: run_strategy_mem)
qed


section \<open>Properties\<close>

text \<open>
  Well-formedness under every history: from a new balancer, whatever sequence of additions, removals,
  load and status updates, recorded results, heartbeats, refreshes and selections runs, target and
  health tables have distinct keys, each target is filed under its id, exactly the current targets have
  a health record (when a runtime is configured), and a circuit has an opening time precisely while it is open.
\<close>
theorem balancer_wf_always:
  "balancer_wf (fold balancer_step es (new_balancer uid opts))"
  by (rule balancing.run_inv) (simp add: balancer_wf_def new_balancer_def)

text \<open>
  C39. Selection is sound: a selected target is a current target, available, healthy with an unexpired
  heartbeat, its circuit is not open, and it is half-open only if no serviceable target has a closed
  circuit (health judged after the refresh of this selection).
\<close>
theorem selection_sound:
  assumes "balancer_wf b" "select_target key now b = (b', Some t)"
  shows "let b1 = refresh_on_select now b; hs = target_health_snapshot b1; h = health_in hs (target_id t)
    in map_of (targets b) (target_id t) = Some t \<and> status t = Available \<and> selection_healthy b1 now h
       \<and> circuit h \<noteq> Open
       \<and> (circuit h = HalfOpen \<longrightarrow> \<not> list_ex (in_circuit b1 now hs Closed) (im_values (targets b)))"
proof -
  have t: "t \<in> set (selection_pool b now)"
    using select_target_Some [OF assms(1), of key now t] assms(2) by simp
  then obtain i where i: "(i, t) \<in> set (targets b)"
    by (auto simp: pool_mem)
  then have "target_id t = i" "map_of (targets b) i = Some t"
    using assms(1) im_values_get [of "targets b" i t] by (auto simp: balancer_wf_def list_all_iff)
  then show ?thesis
    using t by (auto simp: pool_mem in_circuit_def serviceable_def Let_def list_ex_iff)
qed

text \<open>
  C40. Selection is complete: a selection fails exactly when no current target is serviceable with a circuit
  that is not open, or when the hashing strategy gets no key.
\<close>
theorem selection_complete:
  assumes "balancer_wf b"
  shows "snd (select_target key now b) = None \<longleftrightarrow>
    (let b1 = refresh_on_select now b; hs = target_health_snapshot b1
     in \<not> list_ex (\<lambda>t. serviceable b1 now hs t \<and> circuit (health_in hs (target_id t)) \<noteq> Open) (im_values (targets b)))
    \<or> strategy b = Hashing \<and> key = None"
  using select_target_None [OF assms] pool_empty [of b now] by simp

definition demo_options :: balancer_options where
  "demo_options = \<lparr>b_id = Some ''b'', b_strategy = LeastConnections, b_config = JNull,
     b_runtime = Some \<lparr>circuit_breaker = Some \<lparr>failure_threshold = 1, success_threshold = 1, cooldown_ms = 5\<rparr>, health = None\<rparr>\<rparr>"

definition demo_balancer :: balancer where
  "demo_balancer = fold balancer_step
     [AddTarget (new_target ''a'') 1, AddTarget (new_target ''c'') 1, UpdateLoad ''a'' Inc 2] (new_balancer ''u'' demo_options)"

lemma demo_balancer_wf: "balancer_wf demo_balancer"
  unfolding demo_balancer_def by (rule balancing.run_inv) (simp add: balancer_wf_def new_balancer_def)

lemma selection_sound_witness:
  "\<exists>b' t. select_target None 5 demo_balancer = (b', Some t) \<and> target_id t = ''c'' \<and> status t = Available"
proof -
  have v: "map_option target_id (snd (select_target None 5 demo_balancer)) = Some ''c''"
    by code_simp
  obtain b' x where s: "select_target None 5 demo_balancer = (b', x)"
    by fastforce
  obtain t where x: "x = Some t" and i: "target_id t = ''c''"
    using v unfolding s by (cases x) simp_all
  have "status t = Available"
    using selection_sound [OF demo_balancer_wf s [unfolded x]] unfolding Let_def by blast
  then show ?thesis
    using s x i by blast
qed

lemma selection_complete_witness:
  "snd (select_target None 5 (demo_balancer\<lparr>strategy := Hashing\<rparr>)) = None"
proof -
  have "balancer_wf (demo_balancer\<lparr>strategy := Hashing\<rparr>)"
    using demo_balancer_wf by (simp add: balancer_wf_def)
  from selection_complete [OF this] show ?thesis
    by simp
qed

lemma exclusion_empty:
  "target_excluded_reasons b1 t h now pc cs cand km = [] \<longleftrightarrow>
    status t = Available \<and>
    (runtime b1 \<noteq> None \<longrightarrow> healthy h \<and> \<not> heartbeat_expired b1 h now \<and> circuit h \<noteq> Open \<and>
       \<not> (pc \<and> circuit h = HalfOpen \<and> target_id t \<notin> set cs)) \<and>
    \<not> (km \<and> target_id t \<in> set cand)"
  by (cases "status t") (auto simp: target_excluded_reasons_def)

lemma target_filed:
  "balancer_wf b \<Longrightarrow> t \<in> set (im_values (targets b)) \<Longrightarrow> map_of (targets b) (target_id t) = Some t"
  using im_values_get [of "targets b" "target_id t" t] by (force simp: balancer_wf_def list_all_iff)

lemma id_mem_filter:
  "balancer_wf b \<Longrightarrow> t \<in> set (im_values (targets b)) \<Longrightarrow>
   target_id t \<in> set (map target_id (filter P (im_values (targets b)))) \<longleftrightarrow> P t"
proof -
  assume wf: "balancer_wf b" and t: "t \<in> set (im_values (targets b))"
  have inj: "u = t" if "u \<in> set (im_values (targets b))" "target_id u = target_id t" for u
    using target_filed [OF wf that(1)] target_filed [OF wf t] that(2) by (metis option.inject)
  let ?fs = "filter P (im_values (targets b))"
  have img: "target_id t \<in> set (map target_id ?fs) \<longleftrightarrow> target_id t \<in> target_id ` set ?fs"
    by (simp only: set_map [of target_id])
  show ?thesis
    unfolding img
  proof
    assume "target_id t \<in> target_id ` set ?fs"
    then obtain u where "u \<in> set ?fs" "target_id t = target_id u"
      by (rule imageE)
    then show "P t"
      using inj [of u] unfolding set_filter mem_Collect_eq by metis
  next
    assume "P t"
    then show "target_id t \<in> target_id ` set ?fs"
      using t by (intro imageI) (simp only: set_filter mem_Collect_eq simp_thms)
  qed
qed

lemma snapshot_default:
  assumes "runtime b = None"
  shows "health_in (target_health_snapshot b) i = default_health"
proof -
  have "unwrap_or default_health (map_of (map (\<lambda>i. (i, default_health)) ks) i) = default_health" for ks
    by (induction ks) auto
  then show ?thesis
    unfolding health_in_def target_health_snapshot_def using assms by (simp only: simp_thms if_True)
qed

lemma diagnostic_lookup:
  "map_of (map (target_diagnostic b now hs pc cs cand km) m) i =
   map_option (\<lambda>t. snd (target_diagnostic b now hs pc cs cand km (i, t))) (map_of m i)"
  by (induction m) (auto simp: target_diagnostic_def Let_def)

lemma eligible_pool:
  fixes b :: balancer and t :: target and now :: nat and km :: bool
  assumes "balancer_wf b" "t \<in> set (im_values (targets b))"
  defines "b1 \<equiv> refresh_on_select now b"
  defines "hs \<equiv> target_health_snapshot b1"
  defines "cs \<equiv> map target_id (filter (in_circuit b1 now hs Closed) (im_values (targets b)))"
  shows "target_excluded_reasons b1 t (health_in hs (target_id t)) now (cs \<noteq> []) cs
      (map target_id (selection_pool b now)) km = []
    \<longleftrightarrow> t \<in> set (selection_pool b now) \<and> \<not> km"
proof -
  have cs: "target_id t \<in> set cs \<longleftrightarrow> in_circuit b1 now hs Closed t"
    unfolding cs_def by (rule id_mem_filter [OF assms(1,2)])
  have pc: "cs \<noteq> [] \<longleftrightarrow> (\<exists>u \<in> set (im_values (targets b)). in_circuit b1 now hs Closed u)"
    by (auto simp: cs_def filter_empty_conv)
  have pool: "t \<in> set (selection_pool b now) \<longleftrightarrow>
      in_circuit b1 now hs Closed t \<or> in_circuit b1 now hs HalfOpen t \<and> cs = []"
    using assms(2) pc by (auto simp: pool_mem Let_def b1_def hs_def)
  have ids: "target_id t \<in> set (map target_id (selection_pool b now)) \<longleftrightarrow> t \<in> set (selection_pool b now)"
  proof -
    have "selection_pool b now = (if cs \<noteq> [] then filter (in_circuit b1 now hs Closed) (im_values (targets b))
        else filter (in_circuit b1 now hs HalfOpen) (im_values (targets b)))"
      by (auto simp: selection_pool_def Let_def b1_def hs_def cs_def filter_empty_conv)
    then show ?thesis
      using id_mem_filter [OF assms(1,2)] assms(2) by simp
  qed
  have dflt: "runtime b1 = None \<Longrightarrow> health_in hs (target_id t) = default_health"
    unfolding hs_def by (rule snapshot_default)
  show ?thesis
    unfolding exclusion_empty ids pool cs
    by (cases "runtime b1 = None"; cases "circuit (health_in hs (target_id t))")
      (auto simp: in_circuit_def serviceable_def selection_healthy_def dflt, auto simp: default_health_def)
qed

text \<open>
  The diagnosis agrees with the choice: a target is reported eligible exactly when it is a candidate
  of the selection and the hashing key is not missing, and the selected target is reported eligible.
\<close>
theorem eligible_iff_candidate:
  assumes "balancer_wf b" "compute_selection (targets b) key now b = (b', sel, diag)"
    and "map_of (target_diagnostics diag) i = Some d"
  shows "(eligible d \<longleftrightarrow> i \<in> set (candidate_ids diag) \<and> \<not> (strategy b = Hashing \<and> key = None))
    \<and> (selected_target_id diag = Some i \<longrightarrow> eligible d)"
proof -
  let ?b1 = "refresh_on_select now b"
  let ?hs = "target_health_snapshot ?b1"
  let ?cs = "map target_id (filter (in_circuit ?b1 now ?hs Closed) (im_values (targets b)))"
  let ?km = "strategy b = Hashing \<and> key = None \<and> candidate_ids diag \<noteq> []"
  note cp = compute_selection_pool [OF assms(1,2)]
  have same: "strategy ?b1 = strategy b"
    using refresh_on_select_wf [OF assms(1)] by simp
  have dg: "target_diagnostics diag = map (target_diagnostic ?b1 now ?hs (?cs \<noteq> []) ?cs (candidate_ids diag) ?km) (targets b)"
    using assms(2) by (clarsimp simp: compute_selection_def Let_def scan_fold empty_scan_def same split: prod.splits)
  obtain t where t: "map_of (targets b) i = Some t"
    and d: "d = snd (target_diagnostic ?b1 now ?hs (?cs \<noteq> []) ?cs (candidate_ids diag) ?km (i, t))"
    using assms(3) unfolding dg diagnostic_lookup by auto
  have tm: "t \<in> set (im_values (targets b))"
    by (rule im_get_values [OF t])
  have ti: "target_id t = i"
    using assms(1) map_of_SomeD [OF t] by (auto simp: balancer_wf_def list_all_iff)
  have "eligible d \<longleftrightarrow> target_excluded_reasons ?b1 t (health_in ?hs (target_id t)) now (?cs \<noteq> []) ?cs
      (map target_id (selection_pool b now)) ?km = []"
    unfolding d using cp by (simp add: target_diagnostic_def Let_def ti)
  then have el: "eligible d \<longleftrightarrow> t \<in> set (selection_pool b now) \<and> \<not> ?km"
    unfolding eligible_pool [OF assms(1) tm] .
  have mem: "i \<in> set (candidate_ids diag) \<longleftrightarrow> t \<in> set (selection_pool b now)"
  proof
    assume "i \<in> set (candidate_ids diag)"
    then obtain u where u: "u \<in> set (selection_pool b now)" "target_id u = i"
      using cp by auto
    then have "map_of (targets b) i = Some u"
      using target_filed [OF assms(1), of u] by (simp add: pool_mem)
    then show "t \<in> set (selection_pool b now)"
      using t u by simp
  next
    assume "t \<in> set (selection_pool b now)"
    then show "i \<in> set (candidate_ids diag)"
      using cp ti by auto
  qed
  have sel: "eligible d" if s: "selected_target_id diag = Some i"
  proof -
    obtain u where u: "sel = Some u" "target_id u = i"
      using s cp by auto
    then have up: "u \<in> set (selection_pool b now)"
      using cp run_strategy_mem by blast
    then have "u = t"
      using target_filed [OF assms(1), of u] t u by (simp add: pool_mem)
    moreover have "\<not> (strategy b = Hashing \<and> key = None)"
      using cp u run_strategy_None [of "strategy b" "selection_pool b now" key "round_robin_cursor b"] by auto
    ultimately show ?thesis
      using el up by blast
  qed
  show ?thesis
    using el mem sel by (cases "candidate_ids diag = []") auto
qed

lemma eligible_iff_candidate_witness:
  "\<exists>b' sel diag d. compute_selection (targets demo_balancer) None 5 demo_balancer = (b', sel, diag) \<and>
     map_of (target_diagnostics diag) ''a'' = Some d \<and> (eligible d \<longleftrightarrow> ''a'' \<in> set (candidate_ids diag))"
proof -
  have v: "map_of (target_diagnostics (snd (snd (compute_selection (targets demo_balancer) None 5 demo_balancer)))) ''a'' \<noteq> None"
    "strategy demo_balancer \<noteq> Hashing"
    by code_simp+
  obtain b' sel diag where c: "compute_selection (targets demo_balancer) None 5 demo_balancer = (b', sel, diag)"
    by (cases "compute_selection (targets demo_balancer) None 5 demo_balancer")
  obtain d where d: "map_of (target_diagnostics diag) ''a'' = Some d"
    using v(1) unfolding c by auto
  show ?thesis
    using eligible_iff_candidate [OF demo_balancer_wf c d] c d v(2) by blast
qed

lemma determine_without_candidates:
  "ts \<noteq> [] \<Longrightarrow> list_ex S ts \<longrightarrow> list_ex Op ts \<and> list_ex P ts \<Longrightarrow> list_ex P ts \<longrightarrow> runtime b \<noteq> None \<Longrightarrow>
     determine_miss_reason b (length ts) (length (filter P ts)) (length (filter S ts)) (length (filter Op ts)) [] key =
       (if \<not> list_ex P ts then NoAvailableTargets
        else if \<not> list_ex S ts then NoHealthyTargets else AllCircuitsOpen)"
  by (auto simp: determine_miss_reason_def list_ex_iff filter_empty_conv)

lemma compute_miss_reason:
  assumes "balancer_wf b" "compute_selection (targets b) key now b = (b', sel, diag)"
  shows "let b1 = refresh_on_select now b; hs = target_health_snapshot b1; ts = im_values (targets b) in
    miss_reason diag = (if sel = None then
      Some (determine_miss_reason b1 (length ts) (length (filter (\<lambda>t. status t = Available) ts))
        (length (filter (serviceable b1 now hs) ts)) (length (filter (in_circuit b1 now hs Open) ts))
        (candidate_ids diag) key) else None) \<and>
    (sel = None \<longleftrightarrow> selection_pool b now = [] \<or> strategy b = Hashing \<and> key = None) \<and>
    (candidate_ids diag = [] \<longleftrightarrow> selection_pool b now = []) \<and> strategy b1 = strategy b"
  using assms(2) compute_selection_pool [OF assms] refresh_on_select_wf [OF assms(1), of now]
    run_strategy_None [of "strategy b" "selection_pool b now" key "round_robin_cursor b"]
  by (clarsimp simp: compute_selection_def Let_def scan_fold empty_scan_def split: prod.splits)

lemma empty_pool_tables:
  assumes "balancer_wf b" "selection_pool b now = []"
  shows "let b1 = refresh_on_select now b; hs = target_health_snapshot b1; ts = im_values (targets b) in
    list_all (\<lambda>t. serviceable b1 now hs t \<longrightarrow> circuit (health_in hs (target_id t)) = Open) ts \<and>
    (list_ex (serviceable b1 now hs) ts \<longrightarrow>
       list_ex (in_circuit b1 now hs Open) ts \<and> list_ex (\<lambda>t. status t = Available) ts) \<and>
    (list_ex (\<lambda>t. status t = Available) ts \<longrightarrow> runtime b1 \<noteq> None)"
proof -
  let ?b1 = "refresh_on_select now b"
  let ?hs = "target_health_snapshot ?b1"
  have same: "runtime ?b1 = runtime b"
    using refresh_on_select_wf [OF assms(1)] by simp
  have all_open: "\<forall>t \<in> set (im_values (targets b)). serviceable ?b1 now ?hs t \<longrightarrow> circuit (health_in ?hs (target_id t)) = Open"
    using pool_empty [of b now] assms(2) by (auto simp: Let_def list_ex_iff)
  have plain: "runtime b = None \<Longrightarrow> serviceable ?b1 now ?hs t \<longleftrightarrow> status t = Available"
    "runtime b = None \<Longrightarrow> circuit (health_in ?hs i) = Closed" for t i
    using snapshot_default [of ?b1] by (simp_all add: same serviceable_def selection_healthy_def default_health_def)
  have "runtime ?b1 \<noteq> None" if "list_ex (\<lambda>t. status t = Available) (im_values (targets b))"
    using that all_open plain unfolding list_ex_iff same by (metis circuit_state.distinct(1))
  then show ?thesis
    using all_open unfolding Let_def list_all_iff list_ex_iff in_circuit_def serviceable_def by blast
qed

lemma empty_pool_reason:
  assumes "balancer_wf b" "compute_selection (targets b) key now b = (b', sel, diag)"
    and "im_values (targets b) \<noteq> []" "selection_pool b now = []"
  shows "let b1 = refresh_on_select now b; hs = target_health_snapshot b1; ts = im_values (targets b) in
    sel = None \<and> miss_reason diag = Some
      (if \<not> list_ex (\<lambda>t. status t = Available) ts then NoAvailableTargets
       else if \<not> list_ex (serviceable b1 now hs) ts then NoHealthyTargets else AllCircuitsOpen)"
proof -
  note tables = empty_pool_tables [OF assms(1,4), unfolded Let_def, THEN conjunct2]
  note reason = determine_without_candidates [OF assms(3) tables [THEN conjunct1] tables [THEN conjunct2]]
  show ?thesis
    using compute_miss_reason [OF assms(1,2)] assms(4) by (simp only: Let_def reason if_True simp_thms)
qed

text \<open>
  The miss reason is the right one: it is present exactly when nothing was selected, each reported
  reason describes the targets as they are, and two of the seven reasons, \<open>NoEligibleTargets\<close> and
  \<open>StrategyReturnedNone\<close>, can never be reported.
\<close>
theorem miss_reason_exact:
  assumes "balancer_wf b" "compute_selection (targets b) key now b = (b', sel, diag)"
  shows "let b1 = refresh_on_select now b; hs = target_health_snapshot b1; ts = im_values (targets b) in
    (case miss_reason diag of
       None \<Rightarrow> sel \<noteq> None
     | Some r \<Rightarrow> sel = None \<and>
         (case r of
            NoTargetsConfigured \<Rightarrow> ts = []
          | HashingKeyMissing \<Rightarrow> strategy b = Hashing \<and> key = None \<and> selection_pool b now \<noteq> []
          | NoAvailableTargets \<Rightarrow> ts \<noteq> [] \<and> \<not> list_ex (\<lambda>t. status t = Available) ts
          | NoHealthyTargets \<Rightarrow> list_ex (\<lambda>t. status t = Available) ts \<and> \<not> list_ex (serviceable b1 now hs) ts
          | AllCircuitsOpen \<Rightarrow> list_ex (serviceable b1 now hs) ts \<and>
              list_all (\<lambda>t. serviceable b1 now hs t \<longrightarrow> circuit (health_in hs (target_id t)) = Open) ts
          | NoEligibleTargets \<Rightarrow> False
          | StrategyReturnedNone \<Rightarrow> False))"
proof (cases "im_values (targets b) \<noteq> [] \<and> selection_pool b now = []")
  case True
  then show ?thesis
    using empty_pool_reason [OF assms] empty_pool_tables [OF assms(1)]
    by (auto simp: Let_def list_ex_iff serviceable_def)
next
  case False
  then show ?thesis
    using compute_miss_reason [OF assms] by (auto simp: Let_def determine_miss_reason_def)
qed

lemma miss_reason_exact_witness:
  "\<exists>b' sel diag. compute_selection (targets (demo_balancer\<lparr>strategy := Hashing\<rparr>)) None 5 (demo_balancer\<lparr>strategy := Hashing\<rparr>) =
     (b', sel, diag) \<and> (miss_reason diag = None \<longrightarrow> sel \<noteq> None) \<and> miss_reason diag = Some HashingKeyMissing"
proof -
  let ?d = "demo_balancer\<lparr>strategy := Hashing\<rparr>"
  have v: "miss_reason (snd (snd (compute_selection (targets ?d) None 5 ?d))) = Some HashingKeyMissing"
    by code_simp
  have w: "balancer_wf ?d"
    by code_simp
  obtain b' sel diag where c: "compute_selection (targets ?d) None 5 ?d = (b', sel, diag)"
    by (cases "compute_selection (targets ?d) None 5 ?d")
  show ?thesis
    using miss_reason_exact [OF w c] c v by (auto simp: Let_def)
qed

end
