(* ===== verification/Balancer_Policies.thy ===== *)
theory Balancer_Policies
  imports Balancer
begin

text \<open>
  What the strategies of \<open>Balancer\<close> give over several selections: sequences of \<open>select_target\<close>
  calls on one balancer, the weighted round, the least-loaded choice, and a target whose circuit nothing
  reopens.
\<close>

fun select_seq :: "(string option \<times> nat) list \<Rightarrow> balancer \<Rightarrow> target option list" where
  "select_seq [] b = []"
| "select_seq (q # qs) b =
     (case select_target (fst q) (snd q) b of (b', r) \<Rightarrow> r # select_seq qs b')"


section \<open>Lemmas\<close>

lemma select_target_step:
  assumes "balancer_wf b"
  obtains b' r where "select_target key now b = (b', r)" "balancer_wf b'"
    "run_strategy (strategy b) (selection_pool b now) key (round_robin_cursor b) = (r, round_robin_cursor b')"
    "targets b' = targets b" "runtime b' = runtime b" "strategy b' = strategy b"
    "runtime_health b' = runtime_health (refresh_on_select now b)"
proof -
  obtain b1 sel diag where c: "compute_selection (targets b) key now b = (b1, sel, diag)"
    by (cases "compute_selection (targets b) key now b")
  note cp = compute_selection_pool [OF assms c]
  obtain b' r where s: "select_target key now b = (b', r)"
    by (cases "select_target key now b")
  have "r = sel" "targets b' = targets b1" "runtime b' = runtime b1" "strategy b' = strategy b1"
    "runtime_health b' = runtime_health b1" "round_robin_cursor b' = round_robin_cursor b1"
    using s c by (auto simp: select_target_def)
  moreover obtain c1 where "b1 = (refresh_on_select now b)\<lparr>round_robin_cursor := c1\<rparr>"
    using cp by blast
  ultimately show thesis
    using that [OF s] cp refresh_on_select_wf [OF assms, of now] select_target_wf [OF assms, of key now] s
    by simp
qed

text \<open>Without a runtime configuration the pool is the available targets, at every time.\<close>

lemma pool_plain: "runtime b = None \<Longrightarrow> selection_pool b now = filter (\<lambda>t. status t = Available) (im_values (targets b))"
proof -
  assume r: "runtime b = None"
  then have rf: "refresh_on_select now b = b"
    by (simp add: refresh_on_select_def health_policy_of_def)
  have "circuit (health_in (target_health_snapshot b) i) = Closed" for i
    using snapshot_default [OF r] by (simp add: default_health_def)
  moreover have "serviceable b now (target_health_snapshot b) t \<longleftrightarrow> status t = Available" for t
    using snapshot_default [OF r] r by (simp add: serviceable_def selection_healthy_def default_health_def)
  ultimately have "in_circuit b now (target_health_snapshot b) c t \<longleftrightarrow> status t = Available \<and> c = Closed" for c t
    by (auto simp: in_circuit_def)
  then have "in_circuit b now (target_health_snapshot b) Closed = (\<lambda>t. status t = Available)"
    "in_circuit b now (target_health_snapshot b) HalfOpen = (\<lambda>t. False)"
    by auto
  then show ?thesis
    unfolding selection_pool_def Let_def rf by (simp only: filter_False if_False split: if_split) simp
qed

lemma select_seq_weighted:
  assumes "balancer_wf b" "runtime b = None" "strategy b = Weighted"
    "weighted_list (selection_pool b 0) = ws" "ws \<noteq> []"
  shows "select_seq qs b = map (Some \<circ> (!) ws) (rr_run (length ws) (length qs) (round_robin_cursor b))"
  using assms
proof (induction qs arbitrary: b)
  case (Cons q qs)
  obtain b' r where s: "select_target (fst q) (snd q) b = (b', r)" "balancer_wf b'"
    "run_strategy (strategy b) (selection_pool b (snd q)) (fst q) (round_robin_cursor b) = (r, round_robin_cursor b')"
    "targets b' = targets b" "runtime b' = runtime b" "strategy b' = strategy b"
    by (rule select_target_step [OF Cons.prems(1)])
  have p: "selection_pool b (snd q) = selection_pool b 0" "selection_pool b' 0 = selection_pool b 0"
    using pool_plain [of b] pool_plain [of b'] Cons.prems(2) s(4,5) by simp_all
  obtain i where i: "round_robin_index (round_robin_cursor b) (length ws) = Some i"
    using Cons.prems(5) round_robin_index_None [of "round_robin_cursor b" "length ws"] by fastforce
  have "i < length ws"
    by (rule round_robin_index_bound [OF i])
  then have "r = Some (ws ! i)" "round_robin_cursor b' = Some i"
    using s(3) i Cons.prems(3,4) unfolding p(1)
    by (simp_all add: run_strategy_def select_weighted_def select_round_robin_def)
  moreover have "select_seq qs b' = map (Some \<circ> (!) ws) (rr_run (length ws) (length qs) (round_robin_cursor b'))"
    using s p Cons.prems by (intro Cons.IH) simp_all
  ultimately show ?case
    using s(1) i by simp
qed simp

lemma count_replicate: "count (mset (replicate n x)) y = (if x = y then n else 0)"
  by (induction n) auto

lemma count_concat_replicate:
  "distinct ts \<Longrightarrow> count (mset (concat (map (\<lambda>t. replicate (f t) t) ts))) t = (if t \<in> set ts then f t else 0)"
  by (induction ts) (auto simp: count_replicate)

lemma count_map_Some: "count (mset (map Some xs)) (Some x) = count (mset xs) x"
  by (induction xs) auto

lemma distinct_pool: "balancer_wf b \<Longrightarrow> distinct (selection_pool b now)"
proof -
  assume wf: "balancer_wf b"
  have "map target_id (im_values (targets b)) = im_keys (targets b)"
    using wf by (auto simp: balancer_wf_def list_all_iff)
  moreover have "distinct (im_keys (targets b))"
    using wf by (simp add: balancer_wf_def im_wf_def)
  ultimately have "distinct (map target_id (im_values (targets b)))"
    by (simp only:)
  then have "distinct (im_values (targets b))"
    unfolding distinct_map [of target_id] by blast
  then show ?thesis
    unfolding selection_pool_def Let_def by (simp only: distinct_filter split: if_split) blast
qed


section \<open>Properties\<close>

text \<open>
  Weights are shares: on a weighted balancer whose targets do not change, any full round of selections
  (as many as the weights of the available targets add up to, a weight of 0 counting as 1) selects every
  available target exactly its weight times, from whatever position the cursor starts.
\<close>
theorem weighted_round_exact:
  assumes "balancer_wf b" "runtime b = None" "strategy b = Weighted"
    and "t \<in> set (im_values (targets b))" "status t = Available"
    and "length qs = length (weighted_list (selection_pool b 0))"
  shows "count (mset (select_seq qs b)) (Some t) = max (weight t) 1"
proof -
  let ?ws = "weighted_list (selection_pool b 0)"
  have t: "t \<in> set (selection_pool b 0)"
    using assms(4,5) unfolding pool_plain [OF assms(2)] by simp
  then have ne: "?ws \<noteq> []"
    by fastforce
  have "select_seq qs b = map Some (map ((!) ?ws) (rr_run (length ?ws) (length ?ws) (round_robin_cursor b)))"
    using select_seq_weighted [OF assms(1-3) refl ne, of qs] assms(6) by simp
  then have "count (mset (select_seq qs b)) (Some t) = count (mset ?ws) t"
    using rr_run_fair [OF ne] by (simp only: count_map_Some)
  also have "\<dots> = max (weight t) 1"
    using count_concat_replicate [OF distinct_pool [OF assms(1)], of "\<lambda>t. max (weight t) 1" 0 t] t
    by (simp add: weighted_list_def)
  finally show ?thesis .
qed

text \<open>
  Least connections: the selected target has the fewest active requests among all candidates of the
  selection.
\<close>
theorem least_loaded_selected:
  assumes "balancer_wf b" "strategy b = LeastConnections" "select_target key now b = (b', Some t)"
  shows "t \<in> set (selection_pool b now) \<and>
    list_all (\<lambda>u. active (load t) \<le> active (load u)) (selection_pool b now)"
proof -
  obtain b2 r where s: "select_target key now b = (b2, r)"
    "run_strategy (strategy b) (selection_pool b now) key (round_robin_cursor b) = (r, round_robin_cursor b2)"
    by (rule select_target_step [OF assms(1)])
  then have "select_least_connections (selection_pool b now) = Some t"
    using assms(2,3) by (simp add: run_strategy_def)
  from select_least_connections_min [OF this] show ?thesis
    by (simp add: list_all_iff)
qed

text \<open>
  Selection alone never reopens a circuit: unless the balancer has a health policy with
  \<open>check_on_select\<close>, a target whose circuit is open is never selected, by any number of selections at
  any times (so however long the cooldown has been over); only an explicit refresh lets it back in.
\<close>
theorem open_target_stays_out:
  assumes "balancer_wf b" "map_option circuit (target_health_of b i) = Some Open"
    and "\<not> (case health_policy_of b of Some p \<Rightarrow> check_on_select p | None \<Rightarrow> False)"
  shows "list_all (\<lambda>r. map_option target_id r \<noteq> Some i) (select_seq qs b)"
  using assms
proof (induction qs arbitrary: b)
  case (Cons q qs)
  obtain b' r where s: "select_target (fst q) (snd q) b = (b', r)" "balancer_wf b'"
    "targets b' = targets b" "runtime b' = runtime b"
    "runtime_health b' = runtime_health (refresh_on_select (snd q) b)"
    by (rule select_target_step [OF Cons.prems(1)])
  have rf: "refresh_on_select (snd q) b = b"
    using Cons.prems(3) unfolding refresh_on_select_def by (rule if_not_P)
  have h: "target_health_of b' i = target_health_of b i" "health_policy_of b' = health_policy_of b"
    using s rf by (simp_all add: target_health_of_def health_policy_of_def)
  have rt: "runtime b \<noteq> None"
    using Cons.prems(2) by (auto simp: target_health_of_def default_health_def split: if_splits)
  have "map_option target_id r \<noteq> Some i"
  proof
    assume "map_option target_id r = Some i"
    then obtain t where t: "r = Some t" "target_id t = i"
      by auto
    have "circuit (health_in (target_health_snapshot b) i) \<noteq> Open"
      using selection_sound [OF Cons.prems(1) s(1) [unfolded t(1)]] t(2) by (simp add: Let_def rf)
    then show False
      using Cons.prems(2) rt by (auto simp: target_health_of_def target_health_snapshot_def health_in_def)
  qed
  then show ?case
    using Cons.IH [OF s(2)] Cons.prems(2,3) h s(1) by simp
qed simp

text \<open>Concrete instances.\<close>

definition weighted_demo :: balancer where
  "weighted_demo = fold balancer_step
     [AddTarget ((new_target ''a'')\<lparr>weight := 2\<rparr>) 1, AddTarget (new_target ''c'') 1]
     (new_balancer ''u'' (demo_options\<lparr>b_strategy := Weighted, b_runtime := None\<rparr>))"

lemma weighted_round_exact_witness:
  "count (mset (select_seq [(None, 1), (None, 2), (Some ''k'', 3)] weighted_demo)) (Some ((new_target ''a'')\<lparr>weight := 2\<rparr>)) = 2"
proof -
  have w: "balancer_wf weighted_demo"
    unfolding weighted_demo_def by (rule balancing.run_inv) (simp add: balancer_wf_def new_balancer_def)
  have "runtime weighted_demo = None" "strategy weighted_demo = Weighted"
    "(new_target ''a'')\<lparr>weight := 2\<rparr> \<in> set (im_values (targets weighted_demo))"
    "status ((new_target ''a'')\<lparr>weight := 2\<rparr>) = Available"
    "length [(None, 1 :: nat), (None, 2), (Some ''k'', 3)] = length (weighted_list (selection_pool weighted_demo 0))"
    by code_simp+
  from weighted_round_exact [OF w this] show ?thesis
    by (simp add: new_target_def)
qed

lemma least_loaded_selected_witness:
  "\<exists>b' t. select_target None 5 demo_balancer = (b', Some t) \<and>
     list_all (\<lambda>u. active (load t) \<le> active (load u)) (selection_pool demo_balancer 5)"
proof -
  have v: "snd (select_target None 5 demo_balancer) \<noteq> None" "strategy demo_balancer = LeastConnections"
    by code_simp+
  obtain b' t where s: "select_target None 5 demo_balancer = (b', Some t)"
    using v(1) by (cases "select_target None 5 demo_balancer") auto
  show ?thesis
    using least_loaded_selected [OF demo_balancer_wf v(2) s] s by blast
qed

text \<open>One failure opens the circuit of target a; a long time after its cooldown of 5 it is still avoided.\<close>

lemma open_target_stays_out_witness:
  "list_all (\<lambda>r. map_option target_id r \<noteq> Some ''a'')
     (select_seq [(None, 50), (None, 60)] (balancer_step (TargetFailure ''a'' 2 2) demo_balancer))"
proof (rule open_target_stays_out)
  show "balancer_wf (balancer_step (TargetFailure ''a'' 2 2) demo_balancer)"
    by (rule balancer_wf_step [OF demo_balancer_wf])
  show "map_option circuit (target_health_of (balancer_step (TargetFailure ''a'' 2 2) demo_balancer) ''a'') = Some Open"
    by code_simp
  show "\<not> (case health_policy_of (balancer_step (TargetFailure ''a'' 2 2) demo_balancer) of
           Some p \<Rightarrow> check_on_select p | None \<Rightarrow> False)"
    by code_simp
qed

end
