(* ===== verification/Plan_Graph.thy ===== *)
theory Plan_Graph
  imports Json
begin

text \<open>
  Orchestration plans as graphs (\<open>orchestrator/core.rs\<close>): subtasks with their dependencies, the depth-first
  execution order and the parallel groups.  A set of dependencies is a list in its iteration order, which
  the source leaves unspecified.
\<close>

record subtask =
  sub_id :: string
  parent_id :: string
  sub_parent_job_id :: string
  sub_trace_id :: string
  sub_name :: string
  sub_task_type :: string
  description :: string
  dependencies :: "string list"
  sub_priority :: nat
  specialist_type :: string
  sub_payload :: json
  sub_started_at :: "nat option"
  sub_completed_at :: "nat option"

type_synonym subtasks = "(string, subtask) imap"

definition deps_of :: "subtasks \<Rightarrow> string \<Rightarrow> string list" where
  "deps_of m n = (case map_of m n of None \<Rightarrow> [] | Some st \<Rightarrow> dependencies st)"


section \<open>Topological sort\<close>

record visit_state =
  visited :: "string set"
  visiting :: "string set"
  order :: "string list"

lemma deps_of_key: "deps_of m n \<noteq> [] \<Longrightarrow> n \<in> set (im_keys m)"
  by (auto simp: deps_of_def split: option.splits dest: map_of_SomeD intro: rev_image_eqI)

definition unvisiting :: "subtasks \<Rightarrow> visit_state \<Rightarrow> nat" where
  "unvisiting m s = card (set (im_keys m) - visiting s)"

lemma unvisiting_less:
  "n \<notin> visiting s \<Longrightarrow> deps_of m n \<noteq> [] \<Longrightarrow> unvisiting m (s\<lparr>visiting := insert n (visiting s)\<rparr>) < unvisiting m s"
proof -
  assume n: "n \<notin> visiting s" "deps_of m n \<noteq> []"
  then have "n \<in> set (im_keys m) - visiting s"
    using deps_of_key by blast
  then show ?thesis
    unfolding unvisiting_def by (intro psubset_card_mono) auto
qed

lemma unvisiting_le: "unvisiting m (s\<lparr>visiting := insert n (visiting s)\<rparr>) \<le> unvisiting m s"
  unfolding unvisiting_def by (rule card_mono) auto

text \<open>\<open>visit_names m ns\<close> is the loop that calls \<open>visit\<close> on each of \<open>ns\<close>.\<close>

function visit_names :: "subtasks \<Rightarrow> string list \<Rightarrow> visit_state \<Rightarrow> visit_state" where
  "visit_names m [] s = s"
| "visit_names m (n # ns) s =
     (if n \<in> visited s \<or> n \<in> visiting s then visit_names m ns s
      else
        let s1 = visit_names m (deps_of m n) (s\<lparr>visiting := insert n (visiting s)\<rparr>)
        in visit_names m ns
             \<lparr>visited = insert n (visited s1), visiting = visiting s1 - {n}, order = order s1 @ [n]\<rparr>)"
  by pat_completeness auto

termination
proof (relation "measures [\<lambda>(m, ns, s). unvisiting m s, \<lambda>(m, ns, s). length ns]")
  fix m n ns and s :: visit_state
  assume "\<not> (n \<in> visited s \<or> n \<in> visiting s)"
  then show "((m, deps_of m n, s\<lparr>visiting := insert n (visiting s)\<rparr>), m, n # ns, s)
      \<in> measures [\<lambda>(m, ns, s). unvisiting m s, \<lambda>(m, ns, s). length ns]"
    using unvisiting_less [of n s m] unvisiting_le [of m n s] by (cases "deps_of m n = []") (auto simp: order_less_le)
next
  fix m n ns and s x :: visit_state
  assume n: "\<not> (n \<in> visited s \<or> n \<in> visiting s)"
    and x: "x = visit_names m (deps_of m n) (s\<lparr>visiting := insert n (visiting s)\<rparr>)"
    and d: "visit_names_dom (m, deps_of m n, s\<lparr>visiting := insert n (visiting s)\<rparr>)"
  have keeps: "visiting (visit_names m ns s) = visiting s" if "visit_names_dom (m, ns, s)" for m ns s
    using that
  proof (induction rule: visit_names.pinduct)
    case (2 m n ns s)
    then show ?case
      by (cases "n \<in> visited s \<or> n \<in> visiting s") (auto simp: visit_names.psimps Let_def)
  qed (simp add: visit_names.psimps)
  from n x have "visiting x - {n} = visiting s"
    using keeps [OF d] by auto
  then show "((m, ns, \<lparr>visited = insert n (visited x), visiting = visiting x - {n}, order = order x @ [n]\<rparr>), m, n # ns, s)
      \<in> measures [\<lambda>(m, ns, s). unvisiting m s, \<lambda>(m, ns, s). length ns]"
    by (simp add: unvisiting_def)
qed auto

definition topological_sort :: "subtasks \<Rightarrow> string list" where
  "topological_sort m = order (visit_names m (im_keys m) \<lparr>visited = {}, visiting = {}, order = []\<rparr>)"


section \<open>Parallel groups\<close>

definition known :: "subtasks \<Rightarrow> string \<Rightarrow> bool" where
  "known m n \<longleftrightarrow> map_of m n \<noteq> None"

definition deps_satisfied :: "subtasks \<Rightarrow> string list \<Rightarrow> string \<Rightarrow> bool" where
  "deps_satisfied m completed n \<longleftrightarrow> list_all (\<lambda>d. d \<in> set completed) (deps_of m n)"

text \<open>One pass over the remaining names: the group, and the names for the next pass.\<close>

definition next_group :: "subtasks \<Rightarrow> string list \<Rightarrow> string list \<Rightarrow> string list \<times> string list" where
  "next_group m completed remaining =
     (let batch = filter (\<lambda>n. known m n \<and> deps_satisfied m completed n) remaining;
          still_remaining = filter (\<lambda>n. known m n \<and> \<not> deps_satisfied m completed n) remaining
      in if batch = [] then (still_remaining, []) else (batch, still_remaining))"

lemma next_group_shrinks:
  "remaining \<noteq> [] \<Longrightarrow> length (snd (next_group m completed remaining)) < length remaining"
proof -
  assume ne: "remaining \<noteq> []"
  let ?P = "\<lambda>n. known m n \<and> deps_satisfied m completed n"
  have "length (filter (\<lambda>n. known m n \<and> \<not> deps_satisfied m completed n) remaining) < length remaining"
    if "filter ?P remaining \<noteq> []"
  proof -
    obtain x where "x \<in> set remaining" "?P x"
      using \<open>filter ?P remaining \<noteq> []\<close> by (auto simp: filter_empty_conv)
    then show ?thesis
      by (intro length_filter_less [of x]) simp_all
  qed
  then show ?thesis
    using ne by (simp add: next_group_def Let_def)
qed

function groups_loop :: "subtasks \<Rightarrow> string list \<Rightarrow> string list \<Rightarrow> string list list" where
  "groups_loop m completed remaining =
     (if remaining = [] then []
      else case next_group m completed remaining of
             (batch, rest) \<Rightarrow> batch # groups_loop m (completed @ batch) rest)"
  by pat_completeness auto
termination
  by (relation "measure (\<lambda>(m, completed, remaining). length remaining)")
    (simp, metis next_group_shrinks in_measure old.prod.case snd_conv)

declare groups_loop.simps [simp del]

definition compute_parallel_groups :: "subtasks \<Rightarrow> string list \<Rightarrow> string list list" where
  "compute_parallel_groups m execution_order = groups_loop m [] execution_order"


section \<open>Lemmas on the order\<close>

declare visit_names.simps(2) [simp del]

lemma visit_visiting [simp]: "visiting (visit_names m ns s) = visiting s"
proof (induction m ns s rule: visit_names.induct)
  case (2 m n ns s)
  then show ?case
    by (cases "n \<in> visited s \<or> n \<in> visiting s") (auto simp: visit_names.simps(2) Let_def)
qed simp

text \<open>Names whose dependencies were all seen before them, along a list.\<close>

fun deps_ordered :: "subtasks \<Rightarrow> string set \<Rightarrow> string list \<Rightarrow> bool" where
  "deps_ordered m seen [] \<longleftrightarrow> True"
| "deps_ordered m seen (x # xs) \<longleftrightarrow> set (deps_of m x) \<subseteq> seen \<and> deps_ordered m (insert x seen) xs"

lemma deps_ordered_append:
  "deps_ordered m seen (xs @ ys) \<longleftrightarrow> deps_ordered m seen xs \<and> deps_ordered m (seen \<union> set xs) ys"
  by (induction xs arbitrary: seen) auto

definition dep_rel :: "subtasks \<Rightarrow> (string \<times> string) set" where
  "dep_rel m = {(d, n). d \<in> set (deps_of m n)}"

definition visit_wf :: "visit_state \<Rightarrow> bool" where
  "visit_wf s \<longleftrightarrow> distinct (order s) \<and> visited s = set (order s) \<and> visited s \<inter> visiting s = {}"

lemma visit_names_spec:
  assumes "visit_wf s"
  shows "visit_wf (visit_names m ns s) \<and> set ns \<subseteq> visited (visit_names m ns s) \<union> visiting s
    \<and> (\<exists>ext. order (visit_names m ns s) = order s @ ext \<and> (\<forall>x \<in> set ext. \<exists>n \<in> set ns. (x, n) \<in> (dep_rel m)\<^sup>*))"
  using assms
proof (induction m ns s rule: visit_names.induct)
  case (2 m n ns s)
  show ?case
  proof (cases "n \<in> visited s \<or> n \<in> visiting s")
    case True
    then have v: "visit_names m (n # ns) s = visit_names m ns s"
      by (simp add: visit_names.simps(2))
    show ?thesis
      using "2.IH"(1) [OF True "2.prems"] True "2.prems" by (unfold v visit_wf_def) fastforce
  next
    case False
    let ?s0 = "s\<lparr>visiting := insert n (visiting s)\<rparr>"
    let ?s1 = "visit_names m (deps_of m n) ?s0"
    let ?s2 = "\<lparr>visited = insert n (visited ?s1), visiting = visiting ?s1 - {n}, order = order ?s1 @ [n]\<rparr>"
    have v: "visit_names m (n # ns) s = visit_names m ns ?s2"
      using False by (simp add: visit_names.simps(2) Let_def)
    have w0: "visit_wf ?s0"
      using "2.prems"(1) False by (auto simp: visit_wf_def)
    obtain e1 where e1: "visit_wf ?s1" "order ?s1 = order s @ e1"
      "\<forall>x \<in> set e1. \<exists>d \<in> set (deps_of m n). (x, d) \<in> (dep_rel m)\<^sup>*"
      using "2.IH"(2) [OF False w0] by auto
    have n1: "n \<notin> visited ?s1"
      using e1(1) by (auto simp: visit_wf_def)
    then have w2: "visit_wf ?s2"
      using e1(1) by (auto simp: visit_wf_def)
    obtain e2 where e2: "visit_wf (visit_names m ns ?s2)" "order (visit_names m ns ?s2) = order ?s2 @ e2"
      "set ns \<subseteq> visited (visit_names m ns ?s2) \<union> visiting ?s2"
      "\<forall>x \<in> set e2. \<exists>k \<in> set ns. (x, k) \<in> (dep_rel m)\<^sup>*"
      using "2.IH"(3) [OF False refl w2] by auto
    have "\<forall>x \<in> set e1. (x, n) \<in> (dep_rel m)\<^sup>*"
      using e1(3) by (auto simp: dep_rel_def intro: rtrancl_into_rtrancl)
    moreover have "n \<in> visited (visit_names m ns ?s2)"
      using e2(1,2) by (auto simp: visit_wf_def)
    ultimately show ?thesis
      unfolding v using e1(2) e2 by (intro conjI exI [of _ "e1 @ n # e2"]) auto
  qed
qed auto

text \<open>Without a cycle a name under visit never depends on a name visited below it.\<close>

lemma visit_names_ordered:
  assumes "acyclic (dep_rel m)" "visit_wf s" "deps_ordered m {} (order s)"
    and "\<forall>x \<in> set ns. \<forall>v \<in> visiting s. (x, v) \<in> (dep_rel m)\<^sup>+"
  shows "deps_ordered m {} (order (visit_names m ns s))"
  using assms
proof (induction m ns s rule: visit_names.induct)
  case (2 m n ns s)
  show ?case
  proof (cases "n \<in> visited s \<or> n \<in> visiting s")
    case True
    then show ?thesis
      using "2.IH"(1) "2.prems" by (auto simp: visit_names.simps(2))
  next
    case False
    let ?s0 = "s\<lparr>visiting := insert n (visiting s)\<rparr>"
    let ?s1 = "visit_names m (deps_of m n) ?s0"
    let ?s2 = "\<lparr>visited = insert n (visited ?s1), visiting = visiting ?s1 - {n}, order = order ?s1 @ [n]\<rparr>"
    have v: "visit_names m (n # ns) s = visit_names m ns ?s2"
      using False by (simp add: visit_names.simps(2) Let_def)
    have w0: "visit_wf ?s0"
      using "2.prems"(2) False by (auto simp: visit_wf_def)
    have path: "(d, x) \<in> (dep_rel m)\<^sup>+" if "d \<in> set (deps_of m n)" "x \<in> insert n (visiting s)" for d x
      using that "2.prems"(4) by (auto simp: dep_rel_def intro: trancl_trans [OF r_into_trancl])
    have o1: "deps_ordered m {} (order ?s1)"
      using "2.IH"(2) [OF False "2.prems"(1) w0] "2.prems"(3) path by simp
    have "set (deps_of m n) \<subseteq> visited ?s1 \<union> insert n (visiting s)"
      using visit_names_spec [OF w0, of m "deps_of m n"] by simp
    moreover have "d \<notin> insert n (visiting s)" if "d \<in> set (deps_of m n)" for d
      using path [OF that] "2.prems"(1) by (auto simp: acyclic_def)
    ultimately have "set (deps_of m n) \<subseteq> set (order ?s1)"
      using visit_names_spec [OF w0, of m "deps_of m n"] by (auto simp: visit_wf_def)
    then have o2: "deps_ordered m {} (order ?s2)"
      using o1 by (simp add: deps_ordered_append)
    have w2: "visit_wf ?s2"
      using visit_names_spec [OF w0, of m "deps_of m n"] by (auto simp: visit_wf_def)
    show ?thesis
      unfolding v using "2.IH"(3) [OF False refl "2.prems"(1) w2] o2 "2.prems"(4) by simp
  qed
qed simp

lemma topological_sort_spec:
  "distinct (topological_sort m) \<and> set (im_keys m) \<subseteq> set (topological_sort m)
   \<and> set (topological_sort m) \<subseteq> {x. \<exists>n \<in> set (im_keys m). (x, n) \<in> (dep_rel m)\<^sup>*}"
  using visit_names_spec [of "\<lparr>visited = {}, visiting = {}, order = []\<rparr>" m "im_keys m"]
  by (auto simp: topological_sort_def visit_wf_def)


section \<open>Lemmas on the groups\<close>

text \<open>A task is resolvable when all it depends on, directly or not, is a task and no cycle is met.\<close>

inductive resolvable :: "subtasks \<Rightarrow> string \<Rightarrow> bool" for m where
  "known m n \<Longrightarrow> \<forall>d \<in> set (deps_of m n). resolvable m d \<Longrightarrow> resolvable m n"

inductive_simps resolvable_simps: "resolvable m n"

lemma resolvable_stuck:
  assumes "\<forall>x. resolvable m x \<longrightarrow> x \<in> set completed \<union> set remaining"
    and "\<forall>x \<in> set remaining. known m x \<longrightarrow> \<not> deps_satisfied m completed x"
    and "resolvable m n"
  shows "n \<in> set completed"
  using assms(3)
proof (induction rule: resolvable.induct)
  case (1 n)
  then have "deps_satisfied m completed n" "resolvable m n"
    by (auto simp: deps_satisfied_def list_all_iff intro: resolvable.intros)
  then show ?case
    using assms(1,2) 1 by blast
qed

text \<open>What the groups promise, read from the front.\<close>

fun groups_spec :: "subtasks \<Rightarrow> string set \<Rightarrow> string list list \<Rightarrow> bool" where
  "groups_spec m seen [] \<longleftrightarrow> True"
| "groups_spec m seen (g # gs) \<longleftrightarrow>
     (if \<exists>n \<in> set g. \<not> resolvable m n then gs = [] \<and> (\<forall>n \<in> set g. \<not> resolvable m n)
      else (\<forall>n \<in> set g. set (deps_of m n) \<subseteq> seen) \<and> groups_spec m (seen \<union> set g) gs)"

lemma groups_loop_spec:
  assumes "\<forall>x. resolvable m x \<longrightarrow> x \<in> set completed \<union> set remaining"
    and "\<forall>x \<in> set completed. resolvable m x" "distinct remaining" "set completed \<inter> set remaining = {}"
  shows "groups_spec m (set completed) (groups_loop m completed remaining)"
  using assms
proof (induction m completed remaining rule: groups_loop.induct)
  case (1 m completed remaining)
  let ?P = "\<lambda>n. known m n \<and> deps_satisfied m completed n"
  let ?N = "\<lambda>n. known m n \<and> \<not> deps_satisfied m completed n"
  consider "remaining = []" | "remaining \<noteq> []" "filter ?P remaining = []" | "filter ?P remaining \<noteq> []"
    by fastforce
  then show ?case
  proof cases
    case 1
    then show ?thesis
      by (simp add: groups_loop.simps)
  next
    case 2
    have "\<not> resolvable m n" if "n \<in> set remaining" for n
    proof
      assume "resolvable m n"
      then have "n \<in> set completed"
        using resolvable_stuck [OF "1.prems"(1)] 2(2) by (auto simp: filter_empty_conv)
      then show False
        using that "1.prems"(4) by blast
    qed
    then show ?thesis
      using 2 by (simp add: groups_loop.simps [of m completed remaining] groups_loop.simps [of m _ "[]"] next_group_def)
  next
    case 3
    then have ne: "remaining \<noteq> []"
      by auto
    have ng: "next_group m completed remaining = (filter ?P remaining, filter ?N remaining)"
      using 3 by (simp add: next_group_def)
    have res: "resolvable m x" if "x \<in> set (filter ?P remaining)" for x
      using that "1.prems"(2) by (intro resolvable.intros [of m x]) (auto simp: deps_satisfied_def list_all_iff)
    have known: "known m x" if "resolvable m x" for x
      using that by (auto elim: resolvable.cases)
    have "groups_spec m (set (completed @ filter ?P remaining))
        (groups_loop m (completed @ filter ?P remaining) (filter ?N remaining))"
    proof (rule "1.IH" [OF ne ng [symmetric]])
      show "\<forall>x. resolvable m x \<longrightarrow> x \<in> set (completed @ filter ?P remaining) \<union> set (filter ?N remaining)"
        using "1.prems"(1) known by auto
      show "\<forall>x \<in> set (completed @ filter ?P remaining). resolvable m x"
        using "1.prems"(2) res by auto
      show "distinct (filter ?N remaining)"
        using "1.prems"(3) by simp
      show "set (completed @ filter ?P remaining) \<inter> set (filter ?N remaining) = {}"
        using "1.prems"(4) by auto
    qed
    moreover have "groups_loop m completed remaining =
        filter ?P remaining # groups_loop m (completed @ filter ?P remaining) (filter ?N remaining)"
      using ne ng by (simp add: groups_loop.simps [of m completed remaining])
    moreover have "\<forall>n \<in> set (filter ?P remaining). set (deps_of m n) \<subseteq> set completed"
      by (auto simp: deps_satisfied_def list_all_iff)
    moreover have "\<not> (\<exists>n \<in> set (filter ?P remaining). \<not> resolvable m n)"
      using res by blast
    ultimately show ?thesis
      by (simp only: groups_spec.simps set_append if_False simp_thms)
  qed
qed

lemma groups_loop_mset: "mset (concat (groups_loop m completed remaining)) = mset (filter (known m) remaining)"
proof (induction m completed remaining rule: groups_loop.induct)
  case (1 m completed remaining)
  let ?P = "\<lambda>n. known m n \<and> deps_satisfied m completed n"
  let ?N = "\<lambda>n. known m n \<and> \<not> deps_satisfied m completed n"
  have split: "mset (filter (known m) xs) = mset (filter ?P xs) + mset (filter ?N xs)" for xs
    by (induction xs) auto
  obtain g r where ng: "next_group m completed remaining = (g, r)"
    by fastforce
  have same: "filter (known m) (filter ?N remaining) = filter ?N remaining"
    by (rule filter_True) simp
  have "mset g + mset (filter (known m) r) = mset (filter (known m) remaining)"
  proof (cases "filter ?P remaining = []")
    case True
    then have "g = filter ?N remaining" "r = []"
      using ng by (simp_all add: next_group_def Let_def)
    then show ?thesis
      using True split [of remaining] by simp
  next
    case False
    then have "g = filter ?P remaining" "r = filter ?N remaining"
      using ng unfolding next_group_def Let_def by auto
    then show ?thesis
      using same split [of remaining] by (simp only:)
  qed
  then show ?case
    using "1.IH" [OF _ ng [symmetric]] ng
    by (cases "remaining = []") (simp_all add: groups_loop.simps [of m completed])
qed

lemma groups_loop_nonempty:
  "remaining = [] \<or> list_ex (known m) remaining \<Longrightarrow> [] \<notin> set (groups_loop m completed remaining)"
proof (induction m completed remaining rule: groups_loop.induct)
  case (1 m completed remaining)
  obtain g r where ng: "next_group m completed remaining = (g, r)"
    by fastforce
  show ?case
  proof (cases "remaining = []")
    case False
    then obtain k where k: "k \<in> set remaining" "known m k"
      using "1.prems" by (auto simp: list_ex_iff)
    have "g \<noteq> []"
      using ng k by (auto simp: next_group_def Let_def filter_empty_conv split: if_splits)
    moreover have "r = [] \<or> list_ex (known m) r"
      using ng by (cases r) (auto simp: next_group_def Let_def list_ex_iff filter_eq_Cons_iff split: if_splits)
    ultimately show ?thesis
      using "1.IH" [OF False ng [symmetric]] False ng
      by (auto simp: groups_loop.simps [of m completed remaining])
  qed (simp add: groups_loop.simps)
qed

lemma groups_spec_nth:
  "groups_spec m seen gs \<Longrightarrow> i < length gs \<Longrightarrow> n \<in> set (gs ! i) \<Longrightarrow>
   (if resolvable m n then set (deps_of m n) \<subseteq> seen \<union> \<Union> (set ` set (take i gs)) else i = length gs - 1)"
proof (induction gs arbitrary: seen i)
  case (Cons g gs)
  show ?case
  proof (cases i)
    case 0
    then show ?thesis
      using Cons.prems by (auto split: if_splits)
  next
    case (Suc j)
    then have "\<not> (\<exists>n \<in> set g. \<not> resolvable m n)" "groups_spec m (seen \<union> set g) gs"
      using Cons.prems(1,2) by (auto split: if_splits)
    then show ?thesis
      using Cons.IH [of "seen \<union> set g" j] Cons.prems Suc by (auto split: if_splits)
  qed
qed simp

lemma take_groups: "i < length gs \<Longrightarrow> x \<in> \<Union> (set ` set (take i gs)) \<longleftrightarrow> (\<exists>j < i. x \<in> set (gs ! j))"
proof -
  assume "i < length gs"
  then have "set (take i gs) = (!) gs ` {0..<i}"
    by (simp add: nth_image)
  then show ?thesis
    by auto
qed

lemma known_keys: "known m n \<longleftrightarrow> n \<in> set (im_keys m)"
  by (simp add: known_def map_of_eq_None_iff image_iff)

lemma resolvable_known: "resolvable m n \<Longrightarrow> n \<in> set (im_keys m)"
  by (simp add: resolvable_simps [of m n] known_keys)

lemma resolvable_acyclic:
  assumes "acyclic (dep_rel m)" "\<forall>n. set (deps_of m n) \<subseteq> set (im_keys m)" "n \<in> set (im_keys m)"
  shows "resolvable m n"
proof -
  have "dep_rel m \<subseteq> set (im_keys m) \<times> set (im_keys m)"
  proof (rule subrelI)
    fix d n
    assume "(d, n) \<in> dep_rel m"
    then have d: "d \<in> set (deps_of m n)"
      by (simp add: dep_rel_def)
    then have "deps_of m n \<noteq> []"
      by auto
    then show "(d, n) \<in> set (im_keys m) \<times> set (im_keys m)"
      using d assms(2) deps_of_key [of m n] by blast
  qed
  then have "finite (dep_rel m)"
    by (rule finite_subset) simp
  then have "wf (dep_rel m)"
    using assms(1) by (rule finite_acyclic_wf)
  then show ?thesis
    using assms(3)
  proof (induction n rule: wf_induct_rule)
    case (less n)
    show ?case
    proof (rule resolvable.intros)
      show "known m n"
        using less.prems by (simp only: known_keys)
      show "\<forall>d \<in> set (deps_of m n). resolvable m d"
        using less.IH assms(2) unfolding dep_rel_def by blast
    qed
  qed
qed


lemma parallel_groups_spec:
  assumes "im_wf m"
  defines "gs \<equiv> compute_parallel_groups m (topological_sort m)"
  shows "mset (concat gs) = mset (im_keys m) \<and> [] \<notin> set gs \<and>
    (\<forall>i < length gs. \<forall>n \<in> set (gs ! i).
       if resolvable m n then \<forall>d \<in> set (deps_of m n). \<exists>j < i. d \<in> set (gs ! j) else i = length gs - 1)"
proof -
  let ?o = "topological_sort m" and ?gs = "compute_parallel_groups m (topological_sort m)"
  note ts = topological_sort_spec [of m]
  have keys: "filter (known m) ?o \<in> {xs. distinct xs \<and> set xs = set (im_keys m)}"
    using ts by (auto simp: known_keys)
  have ms: "mset (concat ?gs) = mset (im_keys m)"
    unfolding compute_parallel_groups_def groups_loop_mset
    using keys assms unfolding im_wf_def by (intro iffD1 [OF set_eq_iff_mset_eq_distinct]) auto
  have "?o = [] \<or> list_ex (known m) ?o"
  proof (cases m)
    case Nil
    then show ?thesis
      by (simp add: topological_sort_def)
  next
    case (Cons p m')
    then have "fst p \<in> set ?o" "known m (fst p)"
      using ts by (auto simp: known_keys)
    then show ?thesis
      unfolding list_ex_iff by blast
  qed
  then have ne: "[] \<notin> set ?gs"
    unfolding compute_parallel_groups_def by (rule groups_loop_nonempty)
  have sp: "groups_spec m (set []) ?gs"
    unfolding compute_parallel_groups_def
    by (rule groups_loop_spec) (use ts resolvable_known in auto)
  have "if resolvable m n then \<forall>d \<in> set (deps_of m n). \<exists>j < i. d \<in> set (?gs ! j) else i = length ?gs - 1"
    if that_in: "i < length ?gs" "n \<in> set (?gs ! i)" for i n
  proof (cases "resolvable m n")
    case True
    then have "d \<in> \<Union> (set ` set (take i ?gs))" if "d \<in> set (deps_of m n)" for d
      using groups_spec_nth [OF sp that_in] that by auto
    then show ?thesis
      using True take_groups [OF that_in(1)] by simp
  next
    case False
    then show ?thesis
      using groups_spec_nth [OF sp that_in] by simp
  qed
  then show ?thesis
    using ms ne unfolding gs_def by blast
qed


section \<open>Properties\<close>

text \<open>
  C17. The execution order: it names every subtask once, it names nothing else but (transitive)
  dependencies of subtasks, and without a dependency cycle each name comes after all its dependencies.
\<close>
theorem execution_order_correct:
  "distinct (topological_sort m) \<and> set (im_keys m) \<subseteq> set (topological_sort m)
   \<and> set (topological_sort m) \<subseteq> {x. \<exists>n \<in> set (im_keys m). (x, n) \<in> (dep_rel m)\<^sup>*}
   \<and> (acyclic (dep_rel m) \<longrightarrow> deps_ordered m {} (topological_sort m))"
  using topological_sort_spec [of m]
    visit_names_ordered [of m "\<lparr>visited = {}, visiting = {}, order = []\<rparr>" "im_keys m"]
  by (simp add: topological_sort_def visit_wf_def)

definition plan_task :: "string \<Rightarrow> string list \<Rightarrow> string \<times> subtask" where
  "plan_task n ds = (n, \<lparr>sub_id = n, parent_id = [], sub_parent_job_id = [], sub_trace_id = [], sub_name = n,
     sub_task_type = ''generic'', description = [], dependencies = ds, sub_priority = 5, specialist_type = ''default'',
     sub_payload = JNull, sub_started_at = None, sub_completed_at = None\<rparr>)"

lemma execution_order_correct_witness:
  "deps_ordered [plan_task ''b'' [''a''], plan_task ''a'' []] {} [''a'', ''b'']"
proof -
  let ?m = "[plan_task ''b'' [''a''], plan_task ''a'' []]"
  have "dep_rel ?m = {(''a'', ''b'')}"
    by (auto simp: dep_rel_def deps_of_def plan_task_def split: if_splits option.splits)
  then have "acyclic (dep_rel ?m)"
    by (simp add: acyclic_def trancl_insert rtrancl_insert)
  moreover have "topological_sort ?m = [''a'', ''b'']"
    by code_simp
  ultimately show ?thesis
    using execution_order_correct [of ?m] by simp
qed

text \<open>
  C16. The parallel groups of a plan run every subtask exactly once, without empty groups; a subtask whose
  dependencies can all be resolved runs in a later group than each of them, and the rest (a dependency
  that is no subtask, or a cycle) is put into the last group together.  Without cycles and unknown
  names every subtask is resolvable.
\<close>
theorem parallel_groups_correct:
  assumes "im_wf m"
  shows "let gs = compute_parallel_groups m (topological_sort m) in
    mset (concat gs) = mset (im_keys m) \<and> [] \<notin> set gs \<and>
    (\<forall>i < length gs. \<forall>n \<in> set (gs ! i).
       if resolvable m n then \<forall>d \<in> set (deps_of m n). \<exists>j < i. d \<in> set (gs ! j) else i = length gs - 1) \<and>
    (acyclic (dep_rel m) \<and> (\<forall>n. set (deps_of m n) \<subseteq> set (im_keys m)) \<longrightarrow> list_all (resolvable m) (im_keys m))"
  unfolding Let_def using parallel_groups_spec [OF assms] resolvable_acyclic [of m]
  by (intro conjI impI) (simp_all only: list_all_iff, blast+)

lemma parallel_groups_correct_witness:
  "mset (concat (compute_parallel_groups [plan_task ''b'' [''a''], plan_task ''a'' []]
     (topological_sort [plan_task ''b'' [''a''], plan_task ''a'' []]))) = {#''b'', ''a''#}"
proof -
  have "im_wf [plan_task ''b'' [''a''], plan_task ''a'' []]"
    by code_simp
  from parallel_groups_correct [OF this] show ?thesis
    by (simp add: Let_def plan_task_def)
qed

text \<open>
  A dependency that is no subtask (a misspelt name, say) makes the ordering of everything behind it
  disappear: the task that names it and any task that depends on that one are put into one group, to run
  side by side.
\<close>
theorem unknown_dependency_shares_group:
  assumes "im_wf m" "d \<in> set (deps_of m n1)" "d \<notin> set (im_keys m)" "n1 \<in> set (deps_of m n2)"
  shows "{n1, n2} \<subseteq> set (last (compute_parallel_groups m (topological_sort m)))"
proof -
  let ?gs = "compute_parallel_groups m (topological_sort m)"
  have r: "\<not> resolvable m n1"
    using assms(2,3) resolvable_known [of m d] by (auto simp: resolvable_simps [of m n1])
  then have "\<not> resolvable m n2"
    using assms(4) by (auto simp: resolvable_simps [of m n2])
  moreover have "n \<in> set (last ?gs)" if n: "n \<in> set (im_keys m)" "\<not> resolvable m n" for n
  proof -
    have "set (concat ?gs) = set (im_keys m)"
      using parallel_groups_spec [OF assms(1)] by (metis set_mset_mset)
    then obtain g where "g \<in> set ?gs" "n \<in> set g"
      using n(1) by (metis UN_E set_concat)
    then obtain i where "i < length ?gs" "n \<in> set (?gs ! i)"
      by (metis in_set_conv_nth)
    then show ?thesis
      using parallel_groups_spec [OF assms(1)] n(2) by (metis last_conv_nth length_0_conv not_less_zero)
  qed
  ultimately show ?thesis
    using r assms(2,4) deps_of_key [of m] by (metis empty_iff empty_set empty_subsetI insert_subset)
qed

lemma unknown_dependency_shares_group_witness:
  "{''a'', ''b''} \<subseteq> set (last (compute_parallel_groups [plan_task ''a'' [''setup''], plan_task ''b'' [''a'']]
     (topological_sort [plan_task ''a'' [''setup''], plan_task ''b'' [''a'']])))"
  by (rule unknown_dependency_shares_group [of _ "''setup''"]) (code_simp+)

end
