(* ===== verification/Dispatch_Queue.thy ===== *)
theory Dispatch_Queue
  imports Json
begin

text \<open>
  Messages on their way to a channel (\<open>dispatcher/message.rs\<close>) and the queue they wait in
  (\<open>dispatcher/queue.rs\<close>): per channel and priority a first-in first-out lane, with a time before which
  an envelope is not attempted.  The abstract specification is a function from (channel, priority) to the
  lane's envelopes; the queue refines it.
\<close>


section \<open>Messages\<close>

record outbound_message =
  om_id :: string
  om_channel :: string
  om_account_id :: string
  om_chat_id :: "string option"
  om_content :: string
  om_media :: "string list"
  om_stage :: string
  om_reply_target :: "string option"
  om_sender_id :: "string option"

record dispatch_message =
  dm_id :: string
  channel :: string
  account_id :: string
  chat_id :: "string option"
  content :: string
  media :: "string list"
  stage :: string
  reply_target :: "string option"
  sender_id :: "string option"
  dm_priority :: nat
  dm_routing_key :: "string option"
  dm_session_key :: "string option"
  dm_metadata :: json
  created_at :: nat

definition from_outbound :: "nat \<Rightarrow> outbound_message \<Rightarrow> dispatch_message" where
  "from_outbound now m =
     (let session_key = map_option (\<lambda>c. ''anima.session.'' @ c) (om_chat_id m)
      in \<lparr>dm_id = om_id m, channel = om_channel m, account_id = om_account_id m, chat_id = om_chat_id m,
          content = om_content m, media = om_media m, stage = om_stage m, reply_target = om_reply_target m,
          sender_id = om_sender_id m, dm_priority = 5, dm_routing_key = session_key, dm_session_key = session_key,
          dm_metadata = JObject [], created_at = now\<rparr>)"

definition message_target :: "dispatch_message \<Rightarrow> string" where
  "message_target m = unwrap_or [] (or_else (reply_target m) (sender_id m))"

definition message_selection_key :: "dispatch_message \<Rightarrow> string option" where
  "message_selection_key m = or_else (or_else (dm_session_key m) (chat_id m)) (sender_id m)"


section \<open>Envelopes\<close>

datatype dispatch_failure_stage = BalancerSelection | ChannelLookup | Send

record envelope =
  message :: dispatch_message
  priority :: nat
  routing_key :: "string option"
  session_key :: "string option"
  retry_count :: nat
  max_retries :: nat
  backoff_ms :: nat
  next_attempt_at_ms :: nat
  retryable_stages :: "dispatch_failure_stage list"
  enqueue_timestamp_ms :: nat

definition from_message :: "nat \<Rightarrow> dispatch_message \<Rightarrow> envelope" where
  "from_message now m =
     \<lparr>message = m, priority = dm_priority m, routing_key = dm_routing_key m, session_key = dm_session_key m,
      retry_count = 0, max_retries = 0, backoff_ms = 0, next_attempt_at_ms = now, retryable_stages = [Send],
      enqueue_timestamp_ms = now\<rparr>"

definition with_retry_policy :: "nat \<Rightarrow> nat \<Rightarrow> envelope \<Rightarrow> envelope" where
  "with_retry_policy retries backoff e = e\<lparr>max_retries := retries, backoff_ms := backoff\<rparr>"

definition with_retryable_stages :: "dispatch_failure_stage list \<Rightarrow> envelope \<Rightarrow> envelope" where
  "with_retryable_stages ss e = e\<lparr>retryable_stages := ss\<rparr>"

definition can_retry :: "envelope \<Rightarrow> bool" where
  "can_retry e \<longleftrightarrow> retry_count e < max_retries e"

definition should_retry_for_stage :: "dispatch_failure_stage option \<Rightarrow> envelope \<Rightarrow> bool" where
  "should_retry_for_stage s e = (case s of Some st \<Rightarrow> st \<in> set (retryable_stages e) \<and> can_retry e | None \<Rightarrow> False)"

definition next_retry :: "nat \<Rightarrow> envelope \<Rightarrow> envelope option" where
  "next_retry now e =
     (if \<not> can_retry e then None
      else Some (e\<lparr>retry_count := retry_count e + 1, next_attempt_at_ms := saturating_add now (backoff_ms e)\<rparr>))"


section \<open>The queue\<close>

type_synonym lanes = "(nat, envelope list) imap"

record dispatch_queue =
  routes :: "(string, lanes) imap"
  last_route_key :: "string option"

definition new_queue :: dispatch_queue where
  "new_queue = \<lparr>routes = [], last_route_key = None\<rparr>"

definition enqueue :: "envelope \<Rightarrow> dispatch_queue \<Rightarrow> dispatch_queue" where
  "enqueue e q =
     q\<lparr>routes := im_entry (channel (message e)) [] (im_entry (priority e) [] (\<lambda>l. l @ [e])) (routes q)\<rparr>"

definition min_opt :: "nat list \<Rightarrow> nat option" where
  "min_opt xs = (if xs = [] then None else Some (Min (set xs)))"

definition front_due :: "nat \<Rightarrow> nat \<times> envelope list \<Rightarrow> nat option" where
  "front_due now pl = (case snd pl of [] \<Rightarrow> None | e # _ \<Rightarrow> if next_attempt_at_ms e \<le> now then Some (fst pl) else None)"

definition route_min_priorities :: "nat \<Rightarrow> dispatch_queue \<Rightarrow> (string \<times> nat) list" where
  "route_min_priorities now q =
     List.map_filter (\<lambda>rl. map_option (\<lambda>p. (fst rl, p)) (min_opt (List.map_filter (front_due now) (snd rl)))) (routes q)"

fun position :: "string \<Rightarrow> string list \<Rightarrow> nat option" where
  "position x [] = None"
| "position x (y # ys) = (if y = x then Some 0 else map_option Suc (position x ys))"

definition select_next_route :: "string list \<Rightarrow> string option \<Rightarrow> string option" where
  "select_next_route eligible last_key =
     (if eligible = [] then None
      else
        let next = (case last_key of
              Some l \<Rightarrow> (case position l eligible of Some i \<Rightarrow> (i + 1) mod length eligible | None \<Rightarrow> 0)
            | None \<Rightarrow> 0)
        in if next < length eligible then Some (eligible ! next) else None)"

text \<open>Taking the front of one lane, dropping the lane and the route that this empties.\<close>

definition pop_lane :: "string \<Rightarrow> nat \<Rightarrow> dispatch_queue \<Rightarrow> dispatch_queue \<times> envelope option" where
  "pop_lane r p q =
     (case map_of (routes q) r of
        None \<Rightarrow> (q, None)
      | Some ls \<Rightarrow>
          (case map_of ls p of
             None \<Rightarrow> (q, None)
           | Some l \<Rightarrow>
               let l' = tl l; item = (case l of [] \<Rightarrow> None | e # _ \<Rightarrow> Some e);
                   ls' = (if l' = [] then im_remove p ls else im_modify p (\<lambda>_. l') ls)
               in if ls' = [] then
                    (\<lparr>routes = im_remove r (routes q),
                      last_route_key = (if last_route_key q = Some r then None else last_route_key q)\<rparr>, item)
                  else (q\<lparr>routes := im_modify r (\<lambda>_. ls') (routes q)\<rparr>, item)))"

definition dequeue :: "nat \<Rightarrow> dispatch_queue \<Rightarrow> dispatch_queue \<times> envelope option" where
  "dequeue now q =
     (let mins = route_min_priorities now q
      in case min_opt (map snd mins) of
           None \<Rightarrow> (q, None)
         | Some p \<Rightarrow>
             (case select_next_route (map fst (filter (\<lambda>rp. snd rp = p) mins)) (last_route_key q) of
                None \<Rightarrow> (q, None)
              | Some r \<Rightarrow> pop_lane r p (q\<lparr>last_route_key := Some r\<rparr>)))"

definition queue_len :: "dispatch_queue \<Rightarrow> nat" where
  "queue_len q = sum_list (map length (concat (map im_values (im_values (routes q)))))"

definition queue_is_empty :: "dispatch_queue \<Rightarrow> bool" where
  "queue_is_empty q \<longleftrightarrow> queue_len q = 0"

record queue_snapshot =
  total_len :: nat
  by_priority :: "(nat, nat) imap"
  by_route :: "(string, nat) imap"

definition snapshot :: "dispatch_queue \<Rightarrow> queue_snapshot" where
  "snapshot q =
     (let bp = fold (\<lambda>rl m. fold (\<lambda>pl m. im_entry (fst pl) 0 (\<lambda>n. n + length (snd pl)) m) (snd rl) m) (routes q) [];
          br = fold (\<lambda>rl m. im_insert (fst rl) (sum_list (map length (im_values (snd rl)))) m) (routes q) []
      in \<lparr>total_len = sum_list (im_values br), by_priority = bp, by_route = br\<rparr>)"


section \<open>The abstract queue\<close>

type_synonym fifo = "string \<times> nat \<Rightarrow> envelope list"

definition lane :: "dispatch_queue \<Rightarrow> fifo" where
  "lane q k = unwrap_or [] (Option.bind (map_of (routes q) (fst k)) (\<lambda>ls. map_of ls (snd k)))"

definition head_due :: "nat \<Rightarrow> envelope list \<Rightarrow> bool" where
  "head_due now l = (case l of [] \<Rightarrow> False | e # _ \<Rightarrow> next_attempt_at_ms e \<le> now)"

definition env_key :: "envelope \<Rightarrow> string \<times> nat" where
  "env_key e = (channel (message e), priority e)"

datatype queue_op = Enqueue envelope | Dequeue nat

text \<open>What a step may do and answer: any due front of the least priority may be taken.\<close>

inductive fifo_step :: "queue_op \<Rightarrow> fifo \<Rightarrow> fifo \<Rightarrow> envelope option \<Rightarrow> bool" where
  put: "fifo_step (Enqueue e) L (L(env_key e := L (env_key e) @ [e])) None"
| wait: "\<forall>k. \<not> head_due now (L k) \<Longrightarrow> fifo_step (Dequeue now) L L None"
| take: "L k = e # l \<Longrightarrow> head_due now (L k) \<Longrightarrow> \<forall>k'. head_due now (L k') \<longrightarrow> snd k \<le> snd k' \<Longrightarrow>
    fifo_step (Dequeue now) L (L(k := l)) (Some e)"

inductive fifo_run :: "queue_op list \<Rightarrow> fifo \<Rightarrow> fifo \<Rightarrow> envelope option list \<Rightarrow> bool" where
  finish: "fifo_run [] L L []"
| advance: "fifo_step x L L1 r \<Longrightarrow> fifo_run xs L1 L2 rs \<Longrightarrow> fifo_run (x # xs) L L2 (r # rs)"

inductive_cases fifo_run_Cons: "fifo_run (x # xs) L L2 rs"

fun queue_step :: "queue_op \<Rightarrow> dispatch_queue \<Rightarrow> dispatch_queue \<times> envelope option" where
  "queue_step (Enqueue e) q = (enqueue e q, None)"
| "queue_step (Dequeue now) q = dequeue now q"

fun queue_run :: "queue_op list \<Rightarrow> dispatch_queue \<Rightarrow> dispatch_queue \<times> envelope option list" where
  "queue_run [] q = (q, [])"
| "queue_run (x # xs) q =
     (case queue_step x q of (q1, r) \<Rightarrow> (case queue_run xs q1 of (q2, rs) \<Rightarrow> (q2, r # rs)))"


section \<open>Well-formedness\<close>

definition lanes_wf :: "string \<Rightarrow> lanes \<Rightarrow> bool" where
  "lanes_wf r ls \<longleftrightarrow> ls \<noteq> [] \<and> im_wf ls \<and> list_all (\<lambda>(p, l). l \<noteq> [] \<and> list_all (\<lambda>e. env_key e = (r, p)) l) ls"

definition queue_wf :: "dispatch_queue \<Rightarrow> bool" where
  "queue_wf q \<longleftrightarrow> im_wf (routes q) \<and> list_all (\<lambda>(r, ls). lanes_wf r ls) (routes q)"

lemma queue_wf_lanes: "queue_wf q \<Longrightarrow> (r, ls) \<in> set (routes q) \<Longrightarrow> lanes_wf r ls"
  by (auto simp: queue_wf_def list_all_iff)

lemma lanes_wf_lane:
  "lanes_wf r ls \<Longrightarrow> (p, l) \<in> set ls \<Longrightarrow> l \<noteq> [] \<and> (\<forall>e \<in> set l. env_key e = (r, p))"
  by (auto simp: lanes_wf_def list_all_iff)

lemma lanes_wf_im: "lanes_wf r ls \<Longrightarrow> im_wf ls"
  by (simp add: lanes_wf_def)

lemma lane_of: "lane q (r, p) = (case map_of (routes q) r of None \<Rightarrow> [] | Some ls \<Rightarrow> unwrap_or [] (map_of ls p))"
  by (simp add: lane_def split: option.split)

lemma lane_enqueue: "lane (enqueue e q) = (lane q)(env_key e := lane q (env_key e) @ [e])"
proof
  fix k
  show "lane (enqueue e q) k = ((lane q)(env_key e := lane q (env_key e) @ [e])) k"
    by (cases k) (auto simp: lane_of enqueue_def env_key_def im_get_entry split: option.splits)
qed

lemma im_entry_nonempty: "im_entry k d f m \<noteq> []"
  by (cases m) (auto simp: im_entry_def)

lemma lanes_wf_entry:
  assumes "ls = [] \<or> lanes_wf (channel (message e)) ls"
  shows "lanes_wf (channel (message e)) (im_entry (priority e) [] (\<lambda>l. l @ [e]) ls)"
  using assms unfolding lanes_wf_def
  by (auto simp: im_entry_nonempty env_key_def intro!: im_wf_entry list_all_entry)

lemma enqueue_wf: "queue_wf q \<Longrightarrow> queue_wf (enqueue e q)"
  unfolding queue_wf_def enqueue_def
  by (auto intro!: im_wf_entry list_all_entry lanes_wf_entry)

lemma min_opt_None [simp]: "min_opt xs = None \<longleftrightarrow> xs = []"
  by (simp add: min_opt_def)

lemma min_opt_Some: "min_opt xs = Some m \<Longrightarrow> m \<in> set xs \<and> (\<forall>x \<in> set xs. m \<le> x)"
  by (auto simp: min_opt_def split: if_splits)

lemma set_map_filter: "set (List.map_filter f xs) = {y. \<exists>x \<in> set xs. f x = Some y}"
  by (auto simp: List.map_filter_def intro: rev_image_eqI)

lemma position_bound: "position x xs = Some i \<Longrightarrow> i < length xs \<and> xs ! i = x"
  by (induction xs arbitrary: i) (auto split: if_splits)

lemma select_next_route_mem: "select_next_route rs k = Some r \<Longrightarrow> r \<in> set rs"
  by (auto simp: select_next_route_def Let_def split: if_splits)

lemma select_next_route_None: "select_next_route rs k = None \<longleftrightarrow> rs = []"
  by (cases "rs = []") (auto simp: select_next_route_def Let_def split: option.splits)

lemma front_due_Some: "front_due now (p, l) = Some p' \<longleftrightarrow> p' = p \<and> head_due now l"
  by (auto simp: front_due_def head_due_def split: list.splits)

lemma due_lanes:
  "im_wf ls \<Longrightarrow> x \<in> set (List.map_filter (front_due now) ls) \<longleftrightarrow> head_due now (unwrap_or [] (map_of ls x))"
proof -
  assume "im_wf ls"
  then have eq: "map_of ls x = Some l \<longleftrightarrow> (x, l) \<in> set ls" for l
    unfolding im_wf_def by (rule map_of_eq_Some_iff)
  have "x \<in> set (List.map_filter (front_due now) ls) \<longleftrightarrow> (\<exists>l. (x, l) \<in> set ls \<and> head_due now l)"
    by (force simp: set_map_filter front_due_Some)
  then show ?thesis
    unfolding eq [symmetric] by (cases "map_of ls x") (simp_all add: head_due_def)
qed

lemma route_mins:
  assumes "queue_wf q"
  shows "(r, p) \<in> set (route_min_priorities now q) \<longleftrightarrow>
    head_due now (lane q (r, p)) \<and> (\<forall>p'. head_due now (lane q (r, p')) \<longrightarrow> p \<le> p')"
proof -
  have ls: "map_of (routes q) r = Some ls \<longleftrightarrow> (r, ls) \<in> set (routes q)" for ls
    using assms unfolding queue_wf_def im_wf_def by (intro map_of_eq_Some_iff) simp
  have m: "(r, p) \<in> set (route_min_priorities now q) \<longleftrightarrow>
      (\<exists>ls. map_of (routes q) r = Some ls \<and> min_opt (List.map_filter (front_due now) ls) = Some p)"
    unfolding ls route_min_priorities_def set_map_filter mem_Collect_eq
    by (simp only: map_option_eq_Some prod.inject) (metis fst_conv snd_conv prod.collapse)
  show ?thesis
  proof (cases "map_of (routes q) r")
    case None
    then show ?thesis
      by (simp add: m lane_of head_due_def)
  next
    case (Some ls')
    then have "im_wf ls'"
      using assms by (auto simp: queue_wf_def lanes_wf_def list_all_iff ls)
    then have "min_opt (List.map_filter (front_due now) ls') = Some p \<longleftrightarrow>
        head_due now (lane q (r, p)) \<and> (\<forall>p'. head_due now (lane q (r, p')) \<longrightarrow> p \<le> p')"
      using Some due_lanes [of ls' _ now] min_opt_Some [of "List.map_filter (front_due now) ls'"]
      by (auto simp: lane_of min_opt_def intro!: Min_eqI split: if_splits)
    then show ?thesis
      using Some by (simp add: m)
  qed
qed

lemma least_due:
  assumes "queue_wf q" "head_due now (lane q (c, p))"
  shows "\<exists>p'. (c, p') \<in> set (route_min_priorities now q) \<and> p' \<le> p"
proof -
  let ?D = "\<lambda>p. head_due now (lane q (c, p))"
  have "?D (LEAST p. ?D p)" "\<forall>p'. ?D p' \<longrightarrow> (LEAST p. ?D p) \<le> p'"
    using LeastI [of ?D p] Least_le [of ?D] assms(2) by blast+
  then show ?thesis
    unfolding route_mins [OF assms(1)] using assms(2) by blast
qed

text \<open>Popping a lane removes its first envelope and changes no other lane.\<close>

lemma pop_lane_spec:
  assumes "queue_wf q" "lane q (r, p) = e # l"
  shows "\<exists>q'. pop_lane r p q = (q', Some e) \<and> queue_wf q' \<and> lane q' = (lane q)((r, p) := l)"
proof -
  obtain ls where ls: "map_of (routes q) r = Some ls" "map_of ls p = Some (e # l)"
    using assms(2) by (cases "map_of (routes q) r"; cases "map_of (the (map_of (routes q) r)) p") (simp_all add: lane_of)
  have wf: "im_wf (routes q)" "lanes_wf r ls" "im_wf ls"
    using assms(1) queue_wf_lanes [OF assms(1) map_of_SomeD [OF ls(1)]] by (simp_all add: queue_wf_def lanes_wf_im)
  define ls' where "ls' = (if l = [] then im_remove p ls else im_modify p (\<lambda>_. l) ls)"
  have get: "map_of ls' x = (if x = p then if l = [] then None else Some l else map_of ls x)" for x
    using ls(2) by (simp add: ls'_def im.get_del im_get_modify)
  have wf': "ls' = [] \<or> lanes_wf r ls'"
  proof (cases "l = []")
    case True
    then show ?thesis
      using wf(2) unfolding lanes_wf_def ls'_def by (simp add: im_wf_remove list_all_delete)
  next
    case False
    have "list_all (\<lambda>e. env_key e = (r, p)) (e # l)"
      using wf(2) map_of_SomeD [OF ls(2)] by (auto simp: lanes_wf_def list_all_iff)
    then have "list_all (\<lambda>(p, l). l \<noteq> [] \<and> list_all (\<lambda>e. env_key e = (r, p)) l) (im_modify p (\<lambda>_. l) ls)"
      using wf(2) False unfolding lanes_wf_def by (intro list_all_modify) simp_all
    moreover have "im_modify p (\<lambda>_. l) ls \<noteq> []"
      using wf(2) by (cases ls) (auto simp: lanes_wf_def)
    ultimately show ?thesis
      using False wf(3) by (simp add: ls'_def lanes_wf_def im_wf_modify)
  qed
  show ?thesis
  proof (cases "ls' = []")
    case True
    then have n: "(if x = p then if l = [] then None else Some l else map_of ls x) = None" for x
      using get [of x] by simp
    have "lane q (r, x) = (if x = p then e # l else [])" for x
      using n [of x] ls by (simp add: lane_of split: if_splits)
    moreover have "l = []"
      using n [of p] by (simp split: if_splits)
    ultimately have "lane \<lparr>routes = im_remove r (routes q), last_route_key = k\<rparr> = (lane q)((r, p) := l)" for k
      by (auto simp: fun_eq_iff lane_of [of _ _] im.get_del)
    then show ?thesis
      using True ls wf(1) assms(1) unfolding ls'_def
      by (auto simp: pop_lane_def queue_wf_def im_wf_remove list_all_delete split: if_splits)
  next
    case False
    have "lane (q\<lparr>routes := im_modify r (\<lambda>_. ls') (routes q)\<rparr>) = (lane q)((r, p) := l)"
      using ls get by (auto simp: fun_eq_iff lane_of im_get_modify)
    moreover have "queue_wf (q\<lparr>routes := im_modify r (\<lambda>_. ls') (routes q)\<rparr>)"
      using assms(1) wf' False by (auto simp: queue_wf_def im_wf_modify intro!: list_all_modify)
    ultimately show ?thesis
      using False ls unfolding ls'_def by (auto simp: pop_lane_def Let_def)
  qed
qed

text \<open>Dequeuing refines the abstract queue.\<close>

lemma dequeue_spec:
  assumes "queue_wf q" "dequeue now q = (q', r)"
  shows "queue_wf q' \<and> fifo_step (Dequeue now) (lane q) (lane q') r"
proof (cases "route_min_priorities now q = []")
  case True
  have "\<not> head_due now (lane q k)" for k
    using least_due [OF assms(1), of now "fst k" "snd k"] True by auto
  then show ?thesis
    using assms True by (auto simp: dequeue_def min_opt_def intro: fifo_step.wait)
next
  case False
  let ?mins = "route_min_priorities now q"
  obtain p where p: "min_opt (map snd ?mins) = Some p"
    using False by (cases "min_opt (map snd ?mins)") simp_all
  let ?el = "map fst (filter (\<lambda>rp. snd rp = p) ?mins)"
  have "?el \<noteq> []"
    using min_opt_Some [OF p] by (auto simp: filter_empty_conv)
  then obtain c where c: "select_next_route ?el (last_route_key q) = Some c"
    using select_next_route_None [of ?el "last_route_key q"] by fastforce
  then have cm: "(c, p) \<in> set ?mins"
    using select_next_route_mem by fastforce
  have low: "p \<le> snd k'" if "head_due now (lane q k')" for k'
    using least_due [OF assms(1), of now "fst k'" "snd k'"] that min_opt_Some [OF p] by fastforce
  have hd: "head_due now (lane q (c, p))"
    using route_mins [OF assms(1)] cm by blast
  then obtain e l where l: "lane q (c, p) = e # l"
    by (auto simp: head_due_def split: list.splits)
  have w: "queue_wf (q\<lparr>last_route_key := Some c\<rparr>)" "lane (q\<lparr>last_route_key := Some c\<rparr>) = lane q"
    using assms(1) by (simp_all add: queue_wf_def fun_eq_iff lane_def)
  obtain q2 where q2: "pop_lane c p (q\<lparr>last_route_key := Some c\<rparr>) = (q2, Some e)" "queue_wf q2"
    "lane q2 = (lane q)((c, p) := l)"
    using pop_lane_spec [OF w(1), of c p e l] l w(2) by auto
  have "dequeue now q = (q2, Some e)"
    using p c q2(1) by (simp add: dequeue_def Let_def)
  then show ?thesis
    using assms(2) q2 fifo_step.take [of "lane q" "(c, p)" e l now] l hd low by simp
qed

lemma dequeue_none_same: "queue_wf q \<Longrightarrow> dequeue now q = (q', None) \<Longrightarrow> q' = q"
proof -
  assume wf: "queue_wf q" and d: "dequeue now q = (q', None)"
  have "\<not> head_due now (lane q k)" for k
    using dequeue_spec [OF wf d] by (auto elim!: fifo_step.cases)
  then have "route_min_priorities now q = []"
    using route_mins [OF wf, of _ _ now] by (metis list.set_intros(1) neq_Nil_conv surj_pair)
  then show "q' = q"
    using d by (simp add: dequeue_def min_opt_def)
qed

lemma queue_step_spec:
  assumes "queue_wf q" "queue_step x q = (q', r)"
  shows "queue_wf q' \<and> fifo_step x (lane q) (lane q') r"
proof (cases x)
  case (Enqueue e)
  then have "q' = enqueue e q" "r = None"
    using assms(2) by simp_all
  then show ?thesis
    using enqueue_wf [OF assms(1)] fifo_step.put [of e "lane q"] Enqueue by (simp add: lane_enqueue)
next
  case (Dequeue now)
  then show ?thesis
    using dequeue_spec [OF assms(1)] assms(2) by simp
qed

lemma queue_run_spec:
  "queue_wf q \<Longrightarrow> queue_run xs q = (q', rs) \<Longrightarrow> queue_wf q' \<and> fifo_run xs (lane q) (lane q') rs"
proof (induction xs arbitrary: q rs)
  case (Cons x xs)
  obtain q1 r where s: "queue_step x q = (q1, r)"
    by fastforce
  obtain rs1 where run: "queue_run xs q1 = (q', rs1)" "rs = r # rs1"
    using Cons.prems(2) s by (auto split: prod.splits)
  show ?case
    using queue_step_spec [OF Cons.prems(1) s] Cons.IH [OF _ run(1)] run(2) by (auto intro: fifo_run.advance)
qed (simp add: fifo_run.finish)


section \<open>Contents\<close>

definition contents :: "dispatch_queue \<Rightarrow> envelope list" where
  "contents q = concat (map (\<lambda>rl. concat (im_values (snd rl))) (routes q))"

lemma queue_len_contents: "queue_len q = length (contents q)"
proof -
  have "sum_list (map length (concat (map im_values ms))) = length (concat (map (\<lambda>ls. concat (im_values ls)) ms))"
    for ms :: "lanes list"
    by (induction ms) (simp_all add: length_concat)
  from this [of "im_values (routes q)"] show ?thesis
    by (simp add: queue_len_def contents_def comp_def)
qed

lemma mset_entries:
  assumes "im_wf m" "map_of m k = Some v"
  shows "mset (concat (map g m)) = mset (g (k, v)) + mset (concat (map g (im_remove k m)))"
    and "mset (concat (map g (im_modify k f m))) = mset (g (k, f v)) + mset (concat (map g (im_remove k m)))"
proof -
  have fresh: "k \<notin> fst ` set m \<Longrightarrow> im_remove k m = m" for k and m :: "('a \<times> 'b) list"
    by (rule delete_id) simp
  show "mset (concat (map g m)) = mset (g (k, v)) + mset (concat (map g (im_remove k m)))"
    using assms by (induction m) (auto simp: im_wf_def fresh)
  show "mset (concat (map g (im_modify k f m))) = mset (g (k, f v)) + mset (concat (map g (im_remove k m)))"
    using assms by (induction m) (auto simp: im_wf_def fresh)
qed

lemma contents_mem:
  assumes "queue_wf q" "e \<in> set (contents q)"
  shows "e \<in> set (lane q (env_key e))"
proof -
  obtain r ls p l where m: "(r, ls) \<in> set (routes q)" "(p, l) \<in> set ls" "e \<in> set l"
    using assms(2) by (auto simp: contents_def)
  note wf = queue_wf_lanes [OF assms(1) m(1)]
  have "env_key e = (r, p)"
    using lanes_wf_lane [OF wf m(2)] m(3) by simp
  moreover have "lane q (r, p) = l"
    using assms(1) m lanes_wf_im [OF wf] by (simp add: lane_of queue_wf_def im_values_get)
  ultimately show ?thesis
    using m(3) by simp
qed

lemma lane_mem: "e \<in> set (lane q k) \<Longrightarrow> e \<in> set (contents q)"
proof -
  assume e: "e \<in> set (lane q k)"
  obtain r p where k: "k = (r, p)"
    by (cases k)
  obtain ls l where "map_of (routes q) r = Some ls" "map_of ls p = Some l" "e \<in> set l"
    using e unfolding k by (cases "map_of (routes q) r"; cases "map_of (the (map_of (routes q) r)) p") (simp_all add: lane_of)
  then have "(r, ls) \<in> set (routes q)" "(p, l) \<in> set ls" "e \<in> set l"
    by (simp_all add: map_of_SomeD)
  then show ?thesis
    by (force simp: contents_def)
qed

lemma lane_key:
  assumes "queue_wf q" "e \<in> set (lane q k)"
  shows "env_key e = k"
proof -
  obtain r p where k: "k = (r, p)"
    by (cases k)
  obtain ls l where "map_of (routes q) r = Some ls" "map_of ls p = Some l" "e \<in> set l"
    using assms(2) unfolding k
    by (cases "map_of (routes q) r"; cases "map_of (the (map_of (routes q) r)) p") (simp_all add: lane_of)
  then show ?thesis
    using lanes_wf_lane [OF queue_wf_lanes [OF assms(1)], of r ls p l] by (simp add: map_of_SomeD k)
qed

lemma pop_lane_contents:
  assumes "queue_wf q" "lane q (r, p) = e # l" "pop_lane r p q = (q', x)"
  shows "mset (contents q) = add_mset e (mset (contents q'))"
proof -
  obtain ls where ls: "map_of (routes q) r = Some ls" "map_of ls p = Some (e # l)"
    using assms(2) by (cases "map_of (routes q) r"; cases "map_of (the (map_of (routes q) r)) p") (simp_all add: lane_of)
  have wf: "im_wf (routes q)" "im_wf ls"
    using assms(1) queue_wf_lanes [OF assms(1) map_of_SomeD [OF ls(1)]] by (simp_all add: queue_wf_def lanes_wf_im)
  define ls' where "ls' = (if l = [] then im_remove p ls else im_modify p (\<lambda>_. l) ls)"
  have inner: "mset (concat (im_values ls)) = add_mset e (mset (concat (im_values ls')))"
    using mset_entries(1) [OF wf(2) ls(2), of snd] mset_entries(2) [OF wf(2) ls(2), of snd "\<lambda>_. l"]
    by (simp add: ls'_def)
  let ?g = "\<lambda>rl. concat (im_values (snd rl))"
  have "routes q' = (if ls' = [] then im_remove r (routes q) else im_modify r (\<lambda>_. ls') (routes q))"
    using assms(3) ls by (auto simp: pop_lane_def Let_def ls'_def split: if_splits)
  then have "mset (contents q') = mset (concat (im_values ls')) + mset (concat (map ?g (im_remove r (routes q))))"
    using mset_entries(2) [OF wf(1) ls(1), of ?g "\<lambda>_. ls'"] by (simp add: contents_def)
  then show ?thesis
    using mset_entries(1) [OF wf(1) ls(1), of ?g] inner by (simp add: contents_def)
qed

text \<open>A successful dequeue takes one envelope out; while everything is due it succeeds.\<close>

lemma dequeue_contents:
  assumes "queue_wf q" "dequeue now q = (q', Some e)"
  shows "mset (contents q) = add_mset e (mset (contents q'))"
proof -
  obtain p r where pr: "pop_lane r p (q\<lparr>last_route_key := Some r\<rparr>) = (q', Some e)"
    using assms(2) by (auto simp: dequeue_def Let_def split: option.splits)
  have w: "queue_wf (q\<lparr>last_route_key := Some r\<rparr>)"
    using assms(1) by (simp add: queue_wf_def)
  have "lane (q\<lparr>last_route_key := Some r\<rparr>) (r, p) \<noteq> []"
    using pr by (auto simp: pop_lane_def lane_of Let_def split: option.splits list.splits if_splits)
  then obtain e' l where l: "lane (q\<lparr>last_route_key := Some r\<rparr>) (r, p) = e' # l"
    by (meson list.exhaust)
  have "e' = e"
    using pop_lane_spec [OF w l] pr by auto
  then show ?thesis
    using pop_lane_contents [OF w l pr] by (simp add: contents_def)
qed

inductive_cases fifo_dequeue_None: "fifo_step (Dequeue now) L L' None"

inductive_cases fifo_dequeue_Some: "fifo_step (Dequeue now) L L' (Some e)"

lemma due_front:
  assumes "queue_wf q" "list_all (\<lambda>e. next_attempt_at_ms e \<le> now) (contents q)" "e \<in> set (contents q)"
  shows "head_due now (lane q (env_key e))"
  using contents_mem [OF assms(1,3)] assms(2) lane_mem [of _ q "env_key e"]
  by (cases "lane q (env_key e)") (auto simp: head_due_def list_all_iff)

lemma drain_run:
  assumes "queue_wf q" "list_all (\<lambda>e. next_attempt_at_ms e \<le> now) (contents q)" "length (contents q) = n"
  shows "\<exists>q' es. queue_run (replicate n (Dequeue now)) q = (q', map Some es) \<and> contents q' = [] \<and>
    mset es = mset (contents q) \<and> sorted (map priority es)"
  using assms
proof (induction n arbitrary: q)
  case (Suc n)
  obtain q1 r where d: "dequeue now q = (q1, r)"
    by fastforce
  note spec = dequeue_spec [OF Suc.prems(1) d]
  obtain e0 where "e0 \<in> set (contents q)"
    using Suc.prems(3) by (cases "contents q") auto
  then have "head_due now (lane q (env_key e0))"
    using due_front Suc.prems by blast
  then have "r \<noteq> None"
    using spec by (auto elim!: fifo_step.cases)
  then obtain e where r: "r = Some e"
    by auto
  have ms: "mset (contents q) = add_mset e (mset (contents q1))"
    using dequeue_contents [OF Suc.prems(1)] d r by simp
  have len: "length (contents q1) = n"
    using arg_cong [OF ms, of size] Suc.prems(3) by simp
  have sub: "set (contents q) = insert e (set (contents q1))"
    using arg_cong [OF ms, of set_mset] by simp
  then obtain q' es where run: "queue_run (replicate n (Dequeue now)) q1 = (q', map Some es)" "contents q' = []"
    "mset es = mset (contents q1)" "sorted (map priority es)"
    using Suc.IH [of q1] spec Suc.prems(2) len by (auto simp: list_all_iff)
  have "priority e \<le> priority x" if "x \<in> set (contents q)" for x
  proof -
    have "head_due now (lane q (env_key x))"
      using due_front [OF Suc.prems(1,2) that] .
    moreover obtain k l where k: "lane q k = e # l" "\<forall>k'. head_due now (lane q k') \<longrightarrow> snd k \<le> snd k'"
      using spec unfolding r by (auto elim!: fifo_dequeue_Some)
    moreover have "env_key e = k"
      using lane_key [OF Suc.prems(1), of e k] k(1) by simp
    ultimately show ?thesis
      by (force simp: env_key_def)
  qed
  then have "sorted (map priority (e # es))"
    using run(3,4) sub by (auto dest: mset_eq_setD)
  then show ?case
    using d r run ms by (intro exI [of _ q'] exI [of _ "e # es"]) simp
qed auto

lemma fold_insert_fresh:
  "distinct (im_keys m @ map fst xs) \<Longrightarrow>
   fold (\<lambda>x m. im_insert (fst x) (f x) m) xs m = m @ map (\<lambda>x. (fst x, f x)) xs"
proof (induction xs arbitrary: m)
  case (Cons x xs)
  have "im_insert (fst x) (f x) m = m @ [(fst x, f x)]"
    using Cons.prems by (intro im_insert_fresh) auto
  then show ?case
    using Cons.IH [of "m @ [(fst x, f x)]"] Cons.prems by simp
qed simp


section \<open>Properties\<close>

text \<open>
  C24. The queue refines the abstract one: for every sequence of enqueues and dequeues from the empty queue,
  the answers are answers of the abstract queue, in which every (channel, priority) lane is first-in
  first-out and a dequeue takes a due front envelope of the least due priority, or waits when no front
  envelope is due.
\<close>
theorem queue_refines_fifo:
  "fifo_run xs (\<lambda>_. []) (lane (fst (queue_run xs new_queue))) (snd (queue_run xs new_queue))"
proof -
  have "queue_wf new_queue" "lane new_queue = (\<lambda>_. [])"
    by (auto simp: queue_wf_def new_queue_def lane_def)
  then show ?thesis
    using queue_run_spec [of new_queue xs] by (metis prod.collapse)
qed

text \<open>
  C28. Nothing is stuck: when every waiting envelope is due, as many dequeues as there are envelopes empty
  the queue, each answering with an envelope, every envelope exactly once, in order of priority.
\<close>
theorem queue_drains:
  assumes "queue_wf q" "list_all (\<lambda>e. next_attempt_at_ms e \<le> now) (contents q)"
  shows "\<exists>q' es. queue_run (replicate (queue_len q) (Dequeue now)) q = (q', map Some es) \<and> queue_is_empty q' \<and>
    mset es = mset (contents q) \<and> sorted (map priority es)"
proof -
  obtain q' es where "queue_run (replicate (queue_len q) (Dequeue now)) q = (q', map Some es)" "contents q' = []"
    "mset es = mset (contents q)" "sorted (map priority es)"
    using drain_run [OF assms, of "queue_len q"] by (auto simp: queue_len_contents)
  then show ?thesis
    by (auto simp: queue_is_empty_def queue_len_contents)
qed

definition demo_message :: "string \<Rightarrow> string \<Rightarrow> nat \<Rightarrow> dispatch_message" where
  "demo_message i c p =
     \<lparr>dm_id = i, channel = c, account_id = ''acc'', chat_id = None, content = ''hi'', media = [], stage = [],
      reply_target = None, sender_id = Some ''s'', dm_priority = p, dm_routing_key = None, dm_session_key = None,
      dm_metadata = JNull, created_at = 1\<rparr>"

definition demo_queue :: dispatch_queue where
  "demo_queue = fold enqueue [from_message 1 (demo_message ''m1'' ''mail'' 5), from_message 1 (demo_message ''m2'' ''chat'' 2)] new_queue"

lemma queue_drains_witness:
  "\<exists>q' es. queue_run (replicate (queue_len demo_queue) (Dequeue 3)) demo_queue = (q', map Some es) \<and> queue_is_empty q' \<and>
     mset es = mset (contents demo_queue) \<and> sorted (map priority es)"
proof -
  have "queue_wf demo_queue"
    by (auto simp: demo_queue_def queue_wf_def new_queue_def intro!: enqueue_wf [unfolded queue_wf_def])
  moreover have "list_all (\<lambda>e. next_attempt_at_ms e \<le> 3) (contents demo_queue)"
    by code_simp
  ultimately show ?thesis
    by (rule queue_drains)
qed

text \<open>
  The snapshot is truthful: its total is the number of waiting envelopes, and the depth it gives for a
  route adds up the lanes of that route.
\<close>
theorem queue_snapshot_truthful:
  assumes "queue_wf q"
  shows "total_len (snapshot q) = queue_len q \<and>
    map_of (by_route (snapshot q)) r =
      map_option (\<lambda>ls. sum_list (map length (im_values ls))) (map_of (routes q) r)"
proof -
  have br: "by_route (snapshot q) = map (\<lambda>rl. (fst rl, sum_list (map length (im_values (snd rl))))) (routes q)"
    using assms fold_insert_fresh [of "[]" "routes q"] by (simp add: snapshot_def Let_def queue_wf_def im_wf_def)
  have "sum_list (map (\<lambda>rl. sum_list (map length (im_values (snd rl)))) ms) =
      sum_list (map length (concat (map im_values (im_values ms))))" for ms :: "(string, lanes) imap"
    by (induction ms) simp_all
  then have "total_len (snapshot q) = queue_len q"
    using br by (simp add: snapshot_def Let_def queue_len_def comp_def)
  moreover have "map_of (map (\<lambda>rl. (fst rl, f (snd rl))) ms) r = map_option f (map_of ms r)"
    for f and ms :: "(string, lanes) imap"
    by (induction ms) auto
  ultimately show ?thesis
    by (simp add: br)
qed

lemma queue_snapshot_truthful_witness:
  "total_len (snapshot demo_queue) = 2 \<and> map_of (by_route (snapshot demo_queue)) ''chat'' = Some 1"
proof -
  have "queue_wf demo_queue"
    by (auto simp: demo_queue_def queue_wf_def new_queue_def intro!: enqueue_wf [unfolded queue_wf_def])
  moreover have "queue_len demo_queue = 2"
    "map_option (\<lambda>ls. sum_list (map length (im_values ls))) (map_of (routes demo_queue) ''chat'') = Some 1"
    by code_simp+
  ultimately show ?thesis
    using queue_snapshot_truthful [of demo_queue "''chat''"] by simp
qed

end
