(* ===== verification/Channel_Registry.thy ===== *)
theory Channel_Registry
  imports Dispatch_Queue
begin

text \<open>
  Channels and their registry (\<open>channel/adapter.rs\<close>, \<open>channel/registry.rs\<close>) and the plain delivery of an
  outbound message (\<open>channel/dispatch.rs\<close>).  A channel is a trait object: its methods act on an abstract
  world \<open>'w\<close>.
\<close>

record send_result =
  success :: bool
  send_error :: "string option"
  send_data :: "json option"

definition send_ok :: "json option \<Rightarrow> send_result" where
  "send_ok d = \<lparr>success = True, send_error = None, send_data = d\<rparr>"

definition send_err :: "string \<Rightarrow> json option \<Rightarrow> send_result" where
  "send_err m d = \<lparr>success = False, send_error = Some m, send_data = d\<rparr>"

record send_options =
  opt_media :: "string list"
  opt_stage :: "string option"

record 'w channel =
  channel_name :: string
  channel_start :: "'w \<Rightarrow> 'w"
  channel_stop :: "'w \<Rightarrow> 'w"
  send_message :: "string \<Rightarrow> string \<Rightarrow> send_options \<Rightarrow> 'w \<Rightarrow> send_result \<times> 'w"
  health_check :: "'w \<Rightarrow> bool \<times> 'w"

type_synonym 'w channel_registry = "(string, (string, 'w channel) imap) imap"

datatype channel_lookup_reason = ExactMatch | DefaultFallback | FirstAvailableFallback | ChannelMissing

record channel_lookup =
  requested_channel :: string
  requested_account_id :: "string option"
  matched_account_id :: "string option"
  lookup_reason :: channel_lookup_reason

definition default_account :: string where
  "default_account = ''default''"

definition register_channel :: "'w channel \<Rightarrow> string option \<Rightarrow> 'w channel_registry \<Rightarrow> 'w channel_registry" where
  "register_channel c account reg =
     im_entry (channel_name c) [] (im_insert (unwrap_or default_account account) c) reg"

definition unregister_channel :: "string \<Rightarrow> 'w channel_registry \<Rightarrow> 'w channel_registry" where
  "unregister_channel n reg = im_remove n reg"

definition unregister_with_account :: "string \<Rightarrow> string \<Rightarrow> 'w channel_registry \<Rightarrow> 'w channel_registry" where
  "unregister_with_account n account reg =
     (if account = default_account then im_remove n reg else im_modify n (im_remove account) reg)"

definition find_channel_with_lookup ::
  "'w channel_registry \<Rightarrow> string \<Rightarrow> string option \<Rightarrow> 'w channel option \<times> channel_lookup" where
  "find_channel_with_lookup reg n account =
     (let found = \<lambda>matched reason. \<lparr>requested_channel = n, requested_account_id = account,
                    matched_account_id = matched, lookup_reason = reason\<rparr>
      in case map_of reg n of
           None \<Rightarrow> (None, found None ChannelMissing)
         | Some accounts \<Rightarrow>
             let requested = unwrap_or default_account account in
             (case map_of accounts requested of
                Some c \<Rightarrow> (Some c, found (Some requested) ExactMatch)
              | None \<Rightarrow>
                  (case map_of accounts default_account of
                     Some c \<Rightarrow> (Some c, found (Some default_account) DefaultFallback)
                   | None \<Rightarrow>
                       (case accounts of
                          (a, c) # _ \<Rightarrow> (Some c, found (Some a) FirstAvailableFallback)
                        | [] \<Rightarrow> (None, found None ChannelMissing)))))"

definition find_channel :: "'w channel_registry \<Rightarrow> string \<Rightarrow> string option \<Rightarrow> 'w channel option" where
  "find_channel reg n account = fst (find_channel_with_lookup reg n account)"

definition all_channels :: "'w channel_registry \<Rightarrow> 'w channel list" where
  "all_channels reg = concat (map im_values (im_values reg))"

definition channel_names :: "'w channel_registry \<Rightarrow> string list" where
  "channel_names reg = im_keys reg"

definition registry_entries :: "'w channel_registry \<Rightarrow> (string \<times> string) list" where
  "registry_entries reg = concat (map (\<lambda>ca. map (\<lambda>a. (fst ca, a)) (im_keys (snd ca))) reg)"

definition channel_count :: "'w channel_registry \<Rightarrow> nat" where
  "channel_count reg = sum_list (map length (im_values reg))"

definition start_all :: "'w channel_registry \<Rightarrow> 'w \<Rightarrow> 'w" where
  "start_all reg w = fold channel_start (all_channels reg) w"

definition stop_all :: "'w channel_registry \<Rightarrow> 'w \<Rightarrow> 'w" where
  "stop_all reg w = fold channel_stop (all_channels reg) w"

record health_report =
  healthy_channels :: nat
  unhealthy_channels :: nat
  total_channels :: nat
  all_healthy :: bool
  channel_health :: "(string \<times> string) list"

fun check_all :: "'w channel list \<Rightarrow> 'w \<Rightarrow> (string \<times> string) list \<times> 'w" where
  "check_all [] w = ([], w)"
| "check_all (c # cs) w =
     (case health_check c w of (ok, w1) \<Rightarrow>
        (case check_all cs w1 of (ds, w2) \<Rightarrow>
           ((channel_name c, if ok then ''healthy'' else ''unhealthy'') # ds, w2)))"

definition health_report_of :: "'w channel_registry \<Rightarrow> 'w \<Rightarrow> health_report \<times> 'w" where
  "health_report_of reg w =
     (case check_all (all_channels reg) w of (details, w') \<Rightarrow>
        let h = length (filter (\<lambda>d. snd d = ''healthy'') details); t = length details
        in (\<lparr>healthy_channels = h, unhealthy_channels = saturating_sub t h, total_channels = t,
             all_healthy = (0 < t \<and> h = t), channel_health = details\<rparr>, w'))"


section \<open>Plain delivery\<close>

record dispatch_stats =
  plain_dispatched :: nat
  plain_errors :: nat
  plain_channel_not_found :: nat

definition reset_dispatch_stats :: "dispatch_stats \<Rightarrow> dispatch_stats" where
  "reset_dispatch_stats s = \<lparr>plain_dispatched = 0, plain_errors = 0, plain_channel_not_found = 0\<rparr>"

definition dispatch_outbound_message ::
  "outbound_message \<Rightarrow> 'w channel_registry \<Rightarrow> dispatch_stats \<Rightarrow> 'w \<Rightarrow> send_result \<times> dispatch_stats \<times> 'w" where
  "dispatch_outbound_message m reg s w =
     (case find_channel reg (om_channel m) (Some (om_account_id m)) of
        None \<Rightarrow> (send_err ''Channel not found'' None, s\<lparr>plain_channel_not_found := plain_channel_not_found s + 1\<rparr>, w)
      | Some c \<Rightarrow>
          (case send_message c (unwrap_or [] (or_else (om_reply_target m) (om_sender_id m))) (om_content m)
                  \<lparr>opt_media = om_media m, opt_stage = Some (om_stage m)\<rparr> w of
             (r, w') \<Rightarrow>
               (r, if success r then s\<lparr>plain_dispatched := plain_dispatched s + 1\<rparr>
                   else s\<lparr>plain_errors := plain_errors s + 1\<rparr>, w')))"


section \<open>Lemmas\<close>

lemma find_channel_registered:
  "find_channel_with_lookup (register_channel c account reg) (channel_name c) account =
     (Some c, \<lparr>requested_channel = channel_name c, requested_account_id = account,
               matched_account_id = Some (unwrap_or default_account account), lookup_reason = ExactMatch\<rparr>)"
  by (simp add: find_channel_with_lookup_def register_channel_def im_get_entry im.get_ins Let_def split: option.splits)

lemma find_channel_other:
  "n \<noteq> channel_name c \<Longrightarrow>
   find_channel_with_lookup (register_channel c account reg) n a = find_channel_with_lookup reg n a"
  by (simp add: find_channel_with_lookup_def register_channel_def im_get_entry)

lemma find_channel_missing:
  "fst (find_channel_with_lookup reg n a) = None \<longleftrightarrow> map_of reg n = None \<or> map_of reg n = Some []"
  by (auto simp: find_channel_with_lookup_def Let_def split: option.splits list.splits)


section \<open>Properties\<close>

text \<open>
  The lookup agrees with the registry: a channel is found exactly when some account of that name is
  registered, what is found is registered under the account the lookup reports, and the reason is the
  first that applies: the requested account, the account "default", the earliest account.
\<close>
theorem channel_lookup_exact:
  "case find_channel_with_lookup reg n account of (c, l) \<Rightarrow>
     (c \<noteq> None \<longleftrightarrow> (\<exists>accounts. map_of reg n = Some accounts \<and> accounts \<noteq> [])) \<and>
     (case matched_account_id l of
        None \<Rightarrow> c = None \<and> lookup_reason l = ChannelMissing
      | Some a \<Rightarrow> Option.bind (map_of reg n) (\<lambda>accounts. map_of accounts a) = c \<and> c \<noteq> None) \<and>
     (case lookup_reason l of
        ExactMatch \<Rightarrow> matched_account_id l = Some (unwrap_or default_account account)
      | DefaultFallback \<Rightarrow> matched_account_id l = Some default_account \<and>
          Option.bind (map_of reg n) (\<lambda>accounts. map_of accounts (unwrap_or default_account account)) = None
      | FirstAvailableFallback \<Rightarrow> matched_account_id l = map_option (fst \<circ> hd) (map_of reg n) \<and>
          Option.bind (map_of reg n) (\<lambda>accounts. map_of accounts default_account) = None
      | ChannelMissing \<Rightarrow> matched_account_id l = None)"
  by (auto simp: find_channel_with_lookup_def Let_def split: option.splits list.splits prod.splits)

end
