(* ===== verification/Dispatcher.thy ===== *)
theory Dispatcher
  imports Balancer_Policies Channel_Registry
begin

text \<open>
  The dispatcher (\<open>dispatcher/core.rs\<close>, \<open>diagnostics.rs\<close>, \<open>control.rs\<close>): it takes envelopes from the queue,
  lets the balancer of the channel choose a target, looks the channel up and sends, with statistics, a
  diagnostic of the last dispatch and retries.  Balancers are shared (\<open>Arc\<close>): a channel is bound to an
  address, and the store maps addresses to balancers.  The clock is a function on the world; a reading
  that a balancer method takes for a health record it creates on first use is the method's own reading.
\<close>

datatype dispatcher_state = Stopped | Running | Paused | Draining

datatype dispatch_outcome_reason = SelectedAndSent | BalancerMiss | ChannelNotFound | SendFailed

record dispatch_diagnostic =
  dd_message_id :: string
  dd_channel :: string
  dd_account_id :: string
  dd_selection_key :: "string option"
  dd_selected_target_id :: "string option"
  dd_balancer_miss_reason :: "balancer_miss_reason option"
  dd_channel_lookup_reason :: "channel_lookup_reason option"
  failure_stage :: "dispatch_failure_stage option"
  dd_send_error :: "string option"
  dispatch_outcome :: dispatch_outcome_reason
  timestamp_ms :: nat

record route_target_stats =
  rts_selected :: nat
  rts_success :: nat
  rts_failures :: nat
  rts_last_failure_at :: "nat option"

record dispatcher_stats =
  dispatched :: nat
  dispatch_errors :: nat
  channel_not_found :: nat
  balancer_selected :: nat
  balancer_misses :: nat
  balancer_miss_reasons :: "(balancer_miss_reason, nat) imap"
  channel_lookup_failures :: "(channel_lookup_reason, nat) imap"
  target_stats :: "(string, route_target_stats) imap"

definition new_target_stats :: route_target_stats where
  "new_target_stats = \<lparr>rts_selected = 0, rts_success = 0, rts_failures = 0, rts_last_failure_at = None\<rparr>"

definition new_dispatcher_stats :: dispatcher_stats where
  "new_dispatcher_stats =
     \<lparr>dispatched = 0, dispatch_errors = 0, channel_not_found = 0, balancer_selected = 0, balancer_misses = 0,
      balancer_miss_reasons = [], channel_lookup_failures = [], target_stats = []\<rparr>"

definition record_balancer_selected :: "string \<Rightarrow> dispatcher_stats \<Rightarrow> dispatcher_stats" where
  "record_balancer_selected i s =
     s\<lparr>balancer_selected := balancer_selected s + 1,
       target_stats := im_entry i new_target_stats (\<lambda>t. t\<lparr>rts_selected := rts_selected t + 1\<rparr>) (target_stats s)\<rparr>"

definition record_balancer_miss :: "balancer_miss_reason option \<Rightarrow> dispatcher_stats \<Rightarrow> dispatcher_stats" where
  "record_balancer_miss r s =
     s\<lparr>balancer_misses := balancer_misses s + 1,
       balancer_miss_reasons :=
         (case r of None \<Rightarrow> balancer_miss_reasons s | Some x \<Rightarrow> count_one x (balancer_miss_reasons s))\<rparr>"

definition record_dispatch_success :: "string option \<Rightarrow> dispatcher_stats \<Rightarrow> dispatcher_stats" where
  "record_dispatch_success target s =
     s\<lparr>dispatched := dispatched s + 1,
       target_stats := (case target of None \<Rightarrow> target_stats s
         | Some i \<Rightarrow> im_entry i new_target_stats (\<lambda>t. t\<lparr>rts_success := rts_success t + 1\<rparr>) (target_stats s))\<rparr>"

definition count_target_failure ::
  "string option \<Rightarrow> nat \<Rightarrow> (string, route_target_stats) imap \<Rightarrow> (string, route_target_stats) imap" where
  "count_target_failure target now m =
     (case target of None \<Rightarrow> m
      | Some i \<Rightarrow> im_entry i new_target_stats
          (\<lambda>t. t\<lparr>rts_failures := rts_failures t + 1, rts_last_failure_at := Some now\<rparr>) m)"

definition record_dispatch_error :: "string option \<Rightarrow> nat \<Rightarrow> dispatcher_stats \<Rightarrow> dispatcher_stats" where
  "record_dispatch_error target now s =
     s\<lparr>dispatch_errors := dispatch_errors s + 1, target_stats := count_target_failure target now (target_stats s)\<rparr>"

definition record_channel_not_found ::
  "string option \<Rightarrow> channel_lookup_reason \<Rightarrow> nat \<Rightarrow> dispatcher_stats \<Rightarrow> dispatcher_stats" where
  "record_channel_not_found target reason now s =
     s\<lparr>channel_not_found := channel_not_found s + 1,
       channel_lookup_failures := count_one reason (channel_lookup_failures s),
       target_stats := count_target_failure target now (target_stats s)\<rparr>"


section \<open>State\<close>

record dispatcher_config =
  dispatch_timeout_ms :: nat
  receive_timeout_ms :: nat
  default_priority :: nat
  config_metadata :: json

definition default_dispatcher_config :: dispatcher_config where
  "default_dispatcher_config =
     \<lparr>dispatch_timeout_ms = 5000, receive_timeout_ms = 25, default_priority = 5, config_metadata = JObject []\<rparr>"

record 'w dispatcher =
  d_config :: dispatcher_config
  d_registry :: "'w channel_registry"
  d_stats :: dispatcher_stats
  d_state :: dispatcher_state
  last_dispatch_at :: nat
  last_error_time :: nat
  last_diagnostic :: "dispatch_diagnostic option"
  bound_balancers :: "(string, nat) imap"
  balancer_store :: "nat \<Rightarrow> balancer"
  d_queue :: dispatch_queue

definition new_dispatcher :: "'w channel_registry \<Rightarrow> dispatcher_config option \<Rightarrow> (nat \<Rightarrow> balancer) \<Rightarrow> 'w dispatcher" where
  "new_dispatcher reg cfg store =
     \<lparr>d_config = unwrap_or default_dispatcher_config cfg, d_registry = reg, d_stats = new_dispatcher_stats,
      d_state = Stopped, last_dispatch_at = 0, last_error_time = 0, last_diagnostic = None,
      bound_balancers = [], balancer_store = store, d_queue = new_queue\<rparr>"

definition add_balancer :: "string \<Rightarrow> nat \<Rightarrow> 'w dispatcher \<Rightarrow> 'w dispatcher" where
  "add_balancer c b d = d\<lparr>bound_balancers := im_insert c b (bound_balancers d)\<rparr>"

definition remove_balancer :: "string \<Rightarrow> 'w dispatcher \<Rightarrow> 'w dispatcher \<times> nat option" where
  "remove_balancer c d = (d\<lparr>bound_balancers := im_remove c (bound_balancers d)\<rparr>, map_of (bound_balancers d) c)"

definition get_balancer :: "'w dispatcher \<Rightarrow> string \<Rightarrow> nat option" where
  "get_balancer d c = map_of (bound_balancers d) c"

definition on_balancer :: "nat \<Rightarrow> (balancer \<Rightarrow> balancer) \<Rightarrow> 'w dispatcher \<Rightarrow> 'w dispatcher" where
  "on_balancer b f d = d\<lparr>balancer_store := (balancer_store d)(b := f (balancer_store d b))\<rparr>"

definition set_state :: "dispatcher_state \<Rightarrow> 'w dispatcher \<Rightarrow> 'w dispatcher" where
  "set_state s d = d\<lparr>d_state := s\<rparr>"

definition enqueue_message :: "nat \<Rightarrow> dispatch_message \<Rightarrow> 'w dispatcher \<Rightarrow> 'w dispatcher" where
  "enqueue_message now m d = d\<lparr>d_queue := enqueue (from_message now m) (d_queue d)\<rparr>"

definition enqueue_envelope :: "envelope \<Rightarrow> 'w dispatcher \<Rightarrow> 'w dispatcher" where
  "enqueue_envelope e d = d\<lparr>d_queue := enqueue e (d_queue d)\<rparr>"

definition route_queue_depth :: "'w dispatcher \<Rightarrow> string \<Rightarrow> nat" where
  "route_queue_depth d c = unwrap_or 0 (map_of (by_route (snapshot (d_queue d))) c)"


section \<open>Dispatching one message\<close>

record dispatch_selection =
  sel_balancer :: "nat option"
  sel_target :: "target option"
  sel_miss :: "balancer_miss_reason option"

definition select_for ::
  "('w \<Rightarrow> nat \<times> 'w) \<Rightarrow> dispatch_message \<Rightarrow> 'w dispatcher \<Rightarrow> 'w \<Rightarrow> dispatch_selection \<times> 'w dispatcher \<times> 'w" where
  "select_for clock m d w =
     (case get_balancer d (channel m) of
        None \<Rightarrow> (\<lparr>sel_balancer = None, sel_target = None, sel_miss = None\<rparr>, d, w)
      | Some b \<Rightarrow>
          (case clock w of (t1, w1) \<Rightarrow>
             (case clock w1 of (t2, w2) \<Rightarrow>
                (case select_target (message_selection_key m) t2 (refresh_targets t1 (balancer_store d b)) of
                   (bal, selected) \<Rightarrow>
                     let miss = Option.bind (last_selection (diagnostics bal)) miss_reason;
                         d1 = on_balancer b (\<lambda>_. bal) d;
                         d2 = (case selected of
                                 Some t \<Rightarrow> on_balancer b (\<lambda>x. fst (update_load (target_id t) Inc t2 x))
                                   (d1\<lparr>d_stats := record_balancer_selected (target_id t) (d_stats d1)\<rparr>)
                               | None \<Rightarrow> d1\<lparr>d_stats := record_balancer_miss miss (d_stats d1)\<rparr>)
                     in (\<lparr>sel_balancer = Some b, sel_target = selected, sel_miss = miss\<rparr>, d2, w2)))))"

definition after_dispatch ::
  "('w \<Rightarrow> nat \<times> 'w) \<Rightarrow> dispatch_selection \<Rightarrow> bool \<Rightarrow> bool \<Rightarrow> 'w dispatcher \<Rightarrow> 'w \<Rightarrow> 'w dispatcher \<times> 'w" where
  "after_dispatch clock sel ok send_attempted d w =
     (case (sel_balancer sel, sel_target sel) of
        (Some b, Some t) \<Rightarrow>
          (case clock w of (t1, w1) \<Rightarrow>
             if ok then
               (on_balancer b (\<lambda>x. fst (update_load (target_id t) Dec t1 (fst (record_target_success (target_id t) t1 t1 x)))) d, w1)
             else if send_attempted then
               (case clock w1 of (t2, w2) \<Rightarrow>
                  (on_balancer b (\<lambda>x. fst (update_load (target_id t) Error t2 (fst (record_target_failure (target_id t) t1 t1 x)))) d, w2))
             else (on_balancer b (\<lambda>x. fst (update_load (target_id t) Error t1 x)) d, w1))
      | _ \<Rightarrow> (d, w))"

definition diagnostic_for ::
  "dispatch_message \<Rightarrow> dispatch_selection \<Rightarrow> channel_lookup_reason option \<Rightarrow> dispatch_failure_stage option \<Rightarrow>
   string option \<Rightarrow> dispatch_outcome_reason \<Rightarrow> nat \<Rightarrow> dispatch_diagnostic" where
  "diagnostic_for m sel lookup fstage err out now =
     \<lparr>dd_message_id = dm_id m, dd_channel = channel m, dd_account_id = account_id m,
      dd_selection_key = message_selection_key m,
      dd_selected_target_id = map_option target_id (sel_target sel),
      dd_balancer_miss_reason = sel_miss sel, dd_channel_lookup_reason = lookup, failure_stage = fstage,
      dd_send_error = err, dispatch_outcome = out, timestamp_ms = now\<rparr>"

text \<open>\<open>record_dispatch_diagnostic\<close> with the time stamp read when the record is built.\<close>

definition record_diagnostic :: "('w \<Rightarrow> nat \<times> 'w) \<Rightarrow> (nat \<Rightarrow> dispatch_diagnostic) \<Rightarrow> 'w dispatcher \<Rightarrow> 'w \<Rightarrow> 'w dispatcher \<times> 'w" where
  "record_diagnostic clock f d w = (case clock w of (t, w') \<Rightarrow> (d\<lparr>last_diagnostic := Some (f t)\<rparr>, w'))"

text \<open>After a failed look-up, a successful send and a failed one: statistics, time stamp, diagnostic.\<close>

definition report_not_found ::
  "('w \<Rightarrow> nat \<times> 'w) \<Rightarrow> dispatch_message \<Rightarrow> dispatch_selection \<Rightarrow> channel_lookup_reason \<Rightarrow> 'w dispatcher \<Rightarrow> 'w \<Rightarrow> 'w dispatcher \<times> 'w" where
  "report_not_found clock m sel reason d w =
     (case clock w of (t1, w1) \<Rightarrow>
        (case clock w1 of (t2, w2) \<Rightarrow>
           record_diagnostic clock (diagnostic_for m sel (Some reason) (Some ChannelLookup) None ChannelNotFound)
             (d\<lparr>d_stats := record_channel_not_found (map_option target_id (sel_target sel)) reason t1 (d_stats d),
                last_error_time := t2\<rparr>) w2))"

definition report_sent ::
  "('w \<Rightarrow> nat \<times> 'w) \<Rightarrow> dispatch_message \<Rightarrow> dispatch_selection \<Rightarrow> channel_lookup_reason \<Rightarrow> 'w dispatcher \<Rightarrow> 'w \<Rightarrow> 'w dispatcher \<times> 'w" where
  "report_sent clock m sel reason d w =
     (case clock w of (t1, w1) \<Rightarrow>
        record_diagnostic clock (diagnostic_for m sel (Some reason) None None SelectedAndSent)
          (d\<lparr>d_stats := record_dispatch_success (map_option target_id (sel_target sel)) (d_stats d),
             last_dispatch_at := t1\<rparr>) w1)"

definition report_send_failed ::
  "('w \<Rightarrow> nat \<times> 'w) \<Rightarrow> dispatch_message \<Rightarrow> dispatch_selection \<Rightarrow> channel_lookup_reason \<Rightarrow> string option \<Rightarrow> 'w dispatcher \<Rightarrow> 'w \<Rightarrow> 'w dispatcher \<times> 'w" where
  "report_send_failed clock m sel reason err d w =
     (case clock w of (t1, w1) \<Rightarrow>
        (case clock w1 of (t2, w2) \<Rightarrow>
           record_diagnostic clock (diagnostic_for m sel (Some reason) (Some Send) err SendFailed)
             (d\<lparr>d_stats := record_dispatch_error (map_option target_id (sel_target sel)) t1 (d_stats d),
                last_error_time := t2\<rparr>) w2))"

definition dispatch ::
  "('w \<Rightarrow> nat \<times> 'w) \<Rightarrow> dispatch_message \<Rightarrow> 'w dispatcher \<Rightarrow> 'w \<Rightarrow> send_result \<times> 'w dispatcher \<times> 'w" where
  "dispatch clock m d w =
     (case select_for clock m (set_state Running d) w of (sel, d1, w1) \<Rightarrow>
        (case (if sel_target sel = None \<and> sel_balancer sel \<noteq> None then
                 record_diagnostic clock
                   (diagnostic_for m sel None (Some BalancerSelection) None BalancerMiss) d1 w1
               else (d1, w1)) of (d2, w2) \<Rightarrow>
           let account = (case sel_target sel of Some t \<Rightarrow> target_id t | None \<Rightarrow> account_id m)
           in case find_channel_with_lookup (d_registry d2) (channel m) (Some account) of
                (None, look) \<Rightarrow>
                  (case report_not_found clock m sel (lookup_reason look) d2 w2 of (d3, w3) \<Rightarrow>
                     (case after_dispatch clock sel False False d3 w3 of (d4, w4) \<Rightarrow>
                        (send_err ''Channel not found'' None, d4, w4)))
              | (Some c, look) \<Rightarrow>
                  (case send_message c (message_target m) (content m) \<lparr>opt_media = media m, opt_stage = Some (stage m)\<rparr> w2 of
                     (r, w3) \<Rightarrow>
                       (case (if success r then report_sent clock m sel (lookup_reason look) d2 w3
                              else report_send_failed clock m sel (lookup_reason look) (send_error r) d2 w3) of (d3, w4) \<Rightarrow>
                          (case after_dispatch clock sel (success r) True d3 w4 of (d4, w5) \<Rightarrow> (r, d4, w5))))))"


section \<open>Draining the queue\<close>

definition retry_failed :: "('w \<Rightarrow> nat \<times> 'w) \<Rightarrow> envelope \<Rightarrow> 'w dispatcher \<Rightarrow> 'w \<Rightarrow> 'w dispatcher \<times> 'w" where
  "retry_failed clock e d w =
     (if should_retry_for_stage (Option.bind (last_diagnostic d) failure_stage) e then
        (case clock w of (t, w') \<Rightarrow>
           (case next_retry t e of
              Some e' \<Rightarrow> (d\<lparr>d_queue := enqueue e' (d_queue d)\<rparr>, w')
            | None \<Rightarrow> (d, w')))
      else (d, w))"

definition drain_one :: "('w \<Rightarrow> nat \<times> 'w) \<Rightarrow> 'w dispatcher \<Rightarrow> 'w \<Rightarrow> send_result option \<times> 'w dispatcher \<times> 'w" where
  "drain_one clock d w =
     (if d_state d = Paused \<or> d_state d = Stopped then (None, d, w)
      else
        (case clock w of (now, w1) \<Rightarrow>
           (case dequeue now (d_queue d) of
              (q, None) \<Rightarrow> (None, d\<lparr>d_queue := q\<rparr>, w1)
            | (q, Some e) \<Rightarrow>
                (case dispatch clock (message e) (d\<lparr>d_queue := q\<rparr>) w1 of (r, d1, w2) \<Rightarrow>
                   (case (if success r then (d1, w2) else retry_failed clock e d1 w2) of (d2, w3) \<Rightarrow>
                      (Some r, d2, w3))))))"

text \<open>The loop \<open>while self.drain_one().is_some() {}\<close>, with fuel (lemma \<open>drain_terminates\<close> gives enough).\<close>

fun drain_loop :: "nat \<Rightarrow> ('w \<Rightarrow> nat \<times> 'w) \<Rightarrow> 'w dispatcher \<Rightarrow> 'w \<Rightarrow> ('w dispatcher \<times> 'w) option" where
  "drain_loop 0 clock d w = None"
| "drain_loop (Suc n) clock d w =
     (case drain_one clock d w of
        (None, d', w') \<Rightarrow> Some (d', w')
      | (Some r, d', w') \<Rightarrow> drain_loop n clock d' w')"

definition drain :: "nat \<Rightarrow> ('w \<Rightarrow> nat \<times> 'w) \<Rightarrow> 'w dispatcher \<Rightarrow> 'w \<Rightarrow> ('w dispatcher \<times> 'w) option" where
  "drain n clock d w =
     map_option (\<lambda>(d', w'). (set_state Stopped d', w')) (drain_loop n clock (set_state Draining d) w)"

datatype dispatcher_command = Start | Pause | Resume | Drain | Stop

definition apply_control ::
  "nat \<Rightarrow> ('w \<Rightarrow> nat \<times> 'w) \<Rightarrow> dispatcher_command \<Rightarrow> 'w dispatcher \<Rightarrow> 'w \<Rightarrow> ('w dispatcher \<times> 'w) option" where
  "apply_control n clock c d w =
     (case c of
        Start \<Rightarrow> Some (set_state Running d, w)
      | Pause \<Rightarrow> Some (set_state Paused d, w)
      | Resume \<Rightarrow> Some (set_state Running d, w)
      | Drain \<Rightarrow> drain n clock d w
      | Stop \<Rightarrow> Some (set_state Stopped d, w))"

end
