(* ===== verification/Dispatch_Runs.thy ===== *)
theory Dispatch_Runs
  imports Dispatcher
begin

text \<open>
  What the dispatcher guarantees over whole dispatches and drains: the load accounting of the balancers,
  the truth of its diagnostic, and the end of every drain.
\<close>


section \<open>Load accounting\<close>

lemma active_count: "get_active_count b i = map_option (\<lambda>t. active (load t)) (map_of (targets b) i)"
  by (simp add: get_active_count_def get_load_def option.map_comp comp_def)

lemma update_load_active:
  "get_active_count (fst (update_load i op t b)) j =
     (if j = i then map_option (\<lambda>n. case op of Inc \<Rightarrow> n + 1 | ResetLoad \<Rightarrow> 0 | _ \<Rightarrow> n - 1) (get_active_count b i)
      else get_active_count b j)"
  by (cases op) (auto simp: active_count update_load_def load_after_def im_get_modify Let_def split: option.splits)

lemma record_target_same:
  "targets (fst (record_target_success i t t0 b)) = targets b"
  "targets (fst (record_target_failure i t t0 b)) = targets b"
  by (simp_all add: record_target_success_def record_target_failure_def update_health_def Let_def)

lemma balancer_ops_wf:
  assumes "balancer_wf b"
  shows "balancer_wf (fst (update_load i op t b))" "balancer_wf (fst (record_target_success i t1 t2 b))"
    "balancer_wf (fst (record_target_failure i t1 t2 b))" "balancer_wf (refresh_targets t b)"
    "balancer_wf (fst (select_target key t b))"
  using balancer_wf_step [OF assms, of "UpdateLoad i op t"] balancer_wf_step [OF assms, of "TargetSuccess i t1 t2"]
    balancer_wf_step [OF assms, of "TargetFailure i t1 t2"] balancer_wf_step [OF assms, of "Refresh t"]
    balancer_wf_step [OF assms, of "Select key t"] by simp_all

lemma selection_keeps_targets:
  assumes "balancer_wf b"
  shows "targets (fst (select_target key t2 (refresh_targets t1 b))) = targets b"
proof -
  obtain b' r where "select_target key t2 (refresh_targets t1 b) = (b', r)" "targets b' = targets (refresh_targets t1 b)"
    using select_target_step [OF balancer_ops_wf(4) [OF assms]] by metis
  then show ?thesis
    using refresh_targets_wf [OF assms, of t1] by simp
qed

definition store_wf :: "'w dispatcher \<Rightarrow> bool" where
  "store_wf d \<longleftrightarrow> (\<forall>b. balancer_wf (balancer_store d b))"

text \<open>The active count of a target, seen through the dispatcher.\<close>

definition active_at :: "'w dispatcher \<Rightarrow> nat \<Rightarrow> string \<Rightarrow> nat option" where
  "active_at d b i = get_active_count (balancer_store d b) i"

definition reserved :: "dispatch_selection \<Rightarrow> nat \<Rightarrow> string \<Rightarrow> bool" where
  "reserved sel b i \<longleftrightarrow> sel_balancer sel = Some b \<and> map_option target_id (sel_target sel) = Some i"

lemma select_for_active:
  assumes "store_wf d" "select_for clock m d w = (sel, d', w')"
  shows "store_wf d' \<and> (\<forall>b i. active_at d' b i = map_option (\<lambda>n. if reserved sel b i then n + 1 else n) (active_at d b i))"
proof (cases "get_balancer d (channel m)")
  case None
  then show ?thesis
    using assms by (auto simp: select_for_def reserved_def option.map_ident)
next
  case (Some b)
  obtain t1 w1 t2 w2 where w: "clock w = (t1, w1)" "clock w1 = (t2, w2)"
    by (meson surj_pair)
  obtain bal s where s: "select_target (message_selection_key m) t2 (refresh_targets t1 (balancer_store d b)) = (bal, s)"
    by fastforce
  have wf: "balancer_wf (balancer_store d b)" "balancer_wf bal"
    using assms(1) balancer_ops_wf(5) [OF balancer_ops_wf(4)] s by (simp add: store_wf_def, metis fst_conv store_wf_def)
  have t: "targets bal = targets (balancer_store d b)"
    using selection_keeps_targets [OF wf(1)] s by (metis fst_conv)
  then have a: "get_active_count bal i = get_active_count (balancer_store d b) i" for i
    by (simp add: active_count)
  show ?thesis
    using assms Some w s wf(2) a
    by (cases s) (auto simp: select_for_def Let_def reserved_def on_balancer_def active_at_def store_wf_def
        update_load_active option.map_comp comp_def option.map_ident intro!: balancer_ops_wf)
qed

lemma after_dispatch_active:
  assumes "store_wf d" "after_dispatch clock sel ok att d w = (d', w')"
  shows "store_wf d' \<and> (\<forall>b i. active_at d' b i = map_option (\<lambda>n. if reserved sel b i then n - 1 else n) (active_at d b i))"
proof (cases "\<exists>b t. sel_balancer sel = Some b \<and> sel_target sel = Some t")
  case False
  then show ?thesis
    using assms by (auto simp: after_dispatch_def reserved_def option.map_ident split: option.splits)
next
  case True
  then obtain b t where sel: "sel_balancer sel = Some b" "sel_target sel = Some t"
    by blast
  have wf: "balancer_wf (balancer_store d b)" for b
    using assms(1) by (simp add: store_wf_def)
  have act: "get_active_count (fst (record_target_success i t t0 x)) j = get_active_count x j"
    "get_active_count (fst (record_target_failure i t t0 x)) j = get_active_count x j" for i t t0 x j
    by (simp_all add: active_count record_target_same)
  show ?thesis
    using assms sel
    by (auto simp: after_dispatch_def reserved_def on_balancer_def active_at_def store_wf_def update_load_active act
        option.map_comp comp_def option.map_ident split: prod.splits if_splits intro!: balancer_ops_wf wf)
qed


section \<open>One dispatch\<close>

definition attempts :: "'w dispatcher \<Rightarrow> nat" where
  "attempts d = dispatched (d_stats d) + dispatch_errors (d_stats d) + channel_not_found (d_stats d)"

text \<open>The parts of the dispatcher that a step leaves alone.\<close>

definition same_tables :: "'w dispatcher \<Rightarrow> 'w dispatcher \<Rightarrow> bool" where
  "same_tables d d' \<longleftrightarrow> d_queue d' = d_queue d \<and> d_registry d' = d_registry d \<and> bound_balancers d' = bound_balancers d
     \<and> d_state d' = d_state d"

lemma select_for_frame:
  "select_for clock m d w = (sel, d', w') \<Longrightarrow> same_tables d d' \<and> attempts d' = attempts d"
  by (auto simp: select_for_def same_tables_def attempts_def on_balancer_def Let_def record_balancer_selected_def
      record_balancer_miss_def split: option.splits prod.splits)

lemma after_dispatch_frame:
  "after_dispatch clock sel ok att d w = (d', w') \<Longrightarrow>
   same_tables d d' \<and> attempts d' = attempts d \<and> last_diagnostic d' = last_diagnostic d"
  by (auto simp: after_dispatch_def same_tables_def attempts_def on_balancer_def
      split: option.splits prod.splits if_splits)

lemma record_diagnostic_frame:
  "record_diagnostic clock f d w = (d', w') \<Longrightarrow>
   same_tables d d' \<and> attempts d' = attempts d \<and> balancer_store d' = balancer_store d \<and> (\<exists>t. last_diagnostic d' = Some (f t))"
  by (auto simp: record_diagnostic_def same_tables_def attempts_def split: prod.splits)

text \<open>The three reports: one more attempt, and the diagnostic of the outcome.\<close>

definition reported ::
  "dispatch_message \<Rightarrow> dispatch_failure_stage option \<Rightarrow> dispatch_outcome_reason \<Rightarrow> 'w dispatcher \<Rightarrow> 'w dispatcher \<Rightarrow> bool" where
  "reported m st out d d' \<longleftrightarrow>
     same_tables d d' \<and> balancer_store d' = balancer_store d \<and> attempts d' = attempts d + 1 \<and>
     (\<exists>g. last_diagnostic d' = Some g \<and> dd_message_id g = dm_id m \<and> failure_stage g = st \<and> dispatch_outcome g = out)"

lemma reports:
  "report_not_found clock m sel reason d w = (d', w') \<Longrightarrow> reported m (Some ChannelLookup) ChannelNotFound d d'"
  "report_sent clock m sel reason d w = (d', w') \<Longrightarrow> reported m None SelectedAndSent d d'"
  "report_send_failed clock m sel reason err d w = (d', w') \<Longrightarrow> reported m (Some Send) SendFailed d d'"
  by (auto simp: report_not_found_def report_sent_def report_send_failed_def record_diagnostic_def reported_def
      same_tables_def attempts_def diagnostic_for_def record_channel_not_found_def record_dispatch_success_def
      record_dispatch_error_def split: prod.splits)

text \<open>A dispatch is a selection, at most one note of a balancer miss, one report and the release.\<close>

lemma dispatch_stages:
  assumes "dispatch clock m d w = (r, d', w')"
  obtains sel d1 w1 d2 d3 w3 w4 att st out where
    "select_for clock m (set_state Running d) w = (sel, d1, w1)"
    "same_tables d1 d2" "attempts d2 = attempts d1" "balancer_store d2 = balancer_store d1"
    "reported m st out d2 d3" "st = None \<longleftrightarrow> success r" "st \<noteq> Some BalancerSelection" "out \<noteq> BalancerMiss"
    "after_dispatch clock sel (success r) att d3 w3 = (d', w4)"
proof -
  obtain sel d1 w1 where s: "select_for clock m (set_state Running d) w = (sel, d1, w1)"
    by (metis prod_cases3)
  obtain d2 w2 where n: "(if sel_target sel = None \<and> sel_balancer sel \<noteq> None then
      record_diagnostic clock (diagnostic_for m sel None (Some BalancerSelection) None BalancerMiss) d1 w1
      else (d1, w1)) = (d2, w2)"
    by fastforce
  have f: "same_tables d1 d2" "attempts d2 = attempts d1" "balancer_store d2 = balancer_store d1"
    using n record_diagnostic_frame [of clock _ d1 w1 d2 w2] by (auto simp: same_tables_def split: if_splits)
  let ?acc = "case sel_target sel of Some t \<Rightarrow> target_id t | None \<Rightarrow> account_id m"
  obtain co look where c: "find_channel_with_lookup (d_registry d2) (channel m) (Some ?acc) = (co, look)"
    by fastforce
  show thesis
  proof (cases co)
    case None
    obtain d3 w3 where rep: "report_not_found clock m sel (lookup_reason look) d2 w2 = (d3, w3)"
      by fastforce
    then have r: "r = send_err ''Channel not found'' None" "after_dispatch clock sel False False d3 w3 = (d', w')"
      using assms s n c None by (auto simp: dispatch_def Let_def split: prod.splits)
    show thesis
      by (rule that [OF s f reports(1) [OF rep]]) (use r in \<open>simp_all add: send_err_def\<close>)
  next
    case (Some ch)
    obtain r1 w3 where snd: "send_message ch (message_target m) (content m) \<lparr>opt_media = media m, opt_stage = Some (stage m)\<rparr> w2 = (r1, w3)"
      by fastforce
    obtain d3 w4 where rep: "(if success r1 then report_sent clock m sel (lookup_reason look) d2 w3
        else report_send_failed clock m sel (lookup_reason look) (send_error r1) d2 w3) = (d3, w4)"
      by fastforce
    then have r: "r = r1" "after_dispatch clock sel (success r) True d3 w4 = (d', w')"
      using assms s n c Some snd by (auto simp: dispatch_def Let_def split: prod.splits)
    have "reported m (if success r1 then None else Some Send) (if success r1 then SelectedAndSent else SendFailed) d2 d3"
      using rep reports(2,3) [of clock m sel "lookup_reason look"] by (auto split: if_splits)
    then show thesis
      by (rule that [OF s f]) (use r in \<open>auto split: if_splits\<close>)
  qed
qed

lemma same_tables_trans: "same_tables a b \<Longrightarrow> same_tables b c \<Longrightarrow> same_tables a c"
  by (simp add: same_tables_def)

lemma dispatch_frame:
  assumes "dispatch clock m d w = (r, d', w')"
  shows "same_tables (set_state Running d) d' \<and> attempts d' = attempts d + 1 \<and>
    (\<exists>g. last_diagnostic d' = Some g \<and> dd_message_id g = dm_id m \<and> (failure_stage g = None \<longleftrightarrow> success r) \<and>
       failure_stage g \<noteq> Some BalancerSelection \<and> dispatch_outcome g \<noteq> BalancerMiss)"
proof -
  obtain sel d1 w1 d2 d3 w3 w4 att st out where s: "select_for clock m (set_state Running d) w = (sel, d1, w1)"
    "same_tables d1 d2" "attempts d2 = attempts d1" "reported m st out d2 d3" "st = None \<longleftrightarrow> success r"
    "st \<noteq> Some BalancerSelection" "out \<noteq> BalancerMiss" "after_dispatch clock sel (success r) att d3 w3 = (d', w4)"
    by (rule dispatch_stages [OF assms]) blast
  have "attempts (set_state Running d) = attempts d"
    by (simp add: attempts_def set_state_def)
  then show ?thesis
    using select_for_frame [OF s(1)] s(2-7) after_dispatch_frame [OF s(8)]
    by (auto simp: reported_def intro: same_tables_trans)
qed

lemma dispatch_active:
  assumes "store_wf d" "dispatch clock m d w = (r, d', w')"
  shows "store_wf d' \<and> active_at d' = active_at d"
proof -
  obtain sel d1 w1 d2 d3 w3 w4 att st out where s: "select_for clock m (set_state Running d) w = (sel, d1, w1)"
    "balancer_store d2 = balancer_store d1" "reported m st out d2 d3"
    "after_dispatch clock sel (success r) att d3 w3 = (d', w4)"
    by (rule dispatch_stages [OF assms(2)]) blast
  have st: "balancer_store d3 = balancer_store d1"
    using s(2,3) by (simp add: reported_def)
  have w: "store_wf (set_state Running d)" "active_at (set_state Running d) = active_at d"
    using assms(1) by (simp_all add: store_wf_def set_state_def active_at_def fun_eq_iff)
  note a = select_for_active [OF w(1) s(1)]
  have "store_wf d3" "active_at d3 = active_at d1"
    using a st by (simp_all add: store_wf_def active_at_def fun_eq_iff)
  note b = after_dispatch_active [OF this(1) s(4)]
  have "active_at d' i j = active_at d i j" for i j
    using a b w(2) \<open>active_at d3 = active_at d1\<close> by (cases "active_at d i j") simp_all
  then show ?thesis
    using b by blast
qed


section \<open>Draining\<close>

text \<open>The work an envelope can still cause: this attempt and the retries left.\<close>

definition work_of :: "envelope \<Rightarrow> nat" where
  "work_of e = 1 + (max_retries e - retry_count e)"

definition work :: "dispatch_queue \<Rightarrow> nat" where
  "work q = sum_list (map work_of (contents q))"

lemma work_mset: "work q = sum_mset (image_mset work_of (mset (contents q)))"
  by (simp add: work_def sum_mset_sum_list [symmetric])

lemma contents_enqueue:
  assumes "queue_wf q"
  shows "mset (contents (enqueue e q)) = add_mset e (mset (contents q))"
proof -
  let ?g = "\<lambda>rl. concat (im_values (snd rl))"
  have inner: "mset (concat (im_values (im_entry p [] (\<lambda>l. l @ [e]) ls))) = add_mset e (mset (concat (im_values ls)))"
    if "im_wf ls" for ls p
  proof (cases "map_of ls p")
    case None
    then show ?thesis
      by (simp add: im_entry_cases map_of_eq_None_iff)
  next
    case (Some l)
    then show ?thesis
      using mset_entries [OF that Some, of snd] im.get_Some_key [OF Some] by (simp add: im_entry_cases del: set_map)
  qed
  show ?thesis
  proof (cases "map_of (routes q) (channel (message e))")
    case None
    then show ?thesis
      using inner [of "[]"] by (simp add: enqueue_def contents_def im_entry_cases map_of_eq_None_iff)
  next
    case (Some ls)
    have wf: "im_wf (routes q)" "im_wf ls"
      using assms queue_wf_lanes [OF assms map_of_SomeD [OF Some]] by (simp_all add: queue_wf_def lanes_wf_im)
    show ?thesis
      using mset_entries [OF wf(1) Some, of ?g] inner [OF wf(2)] im.get_Some_key [OF Some]
      by (simp add: enqueue_def contents_def im_entry_cases del: set_map)
  qed
qed

lemma retry_failed_spec:
  assumes "queue_wf (d_queue d)" "retry_failed clock e d w = (d', w')"
  shows "queue_wf (d_queue d') \<and> work (d_queue d') + 1 \<le> work (d_queue d) + work_of e \<and> d_state d' = d_state d"
proof -
  have retry: "work_of e' + 1 \<le> work_of e" if "next_retry t e = Some e'" for t e'
    using that by (auto simp: next_retry_def can_retry_def work_of_def split: if_splits)
  have "work_of e \<ge> 1"
    by (simp add: work_of_def)
  then show ?thesis
    using assms retry
    by (fastforce simp: retry_failed_def work_mset contents_enqueue enqueue_wf split: if_splits prod.splits option.splits)
qed

lemma drain_one_Some:
  assumes "queue_wf (d_queue d)" "drain_one clock d w = (Some r, d', w')"
  shows "queue_wf (d_queue d') \<and> work (d_queue d') < work (d_queue d) \<and> d_state d' = Running"
proof -
  obtain now w1 where now: "clock w = (now, w1)"
    by fastforce
  obtain q e where q: "dequeue now (d_queue d) = (q, Some e)"
    using assms(2) now by (auto simp: drain_one_def split: if_splits prod.splits option.splits)
  obtain r1 d1 w2 where ds: "dispatch clock (message e) (d\<lparr>d_queue := q\<rparr>) w1 = (r1, d1, w2)"
    by (metis prod_cases3)
  have q1: "d_queue d1 = q" "d_state d1 = Running"
    using dispatch_frame [OF ds] by (simp_all add: same_tables_def set_state_def)
  have wf: "queue_wf q" "work (d_queue d) = work_of e + work q"
    using dequeue_spec [OF assms(1) q] dequeue_contents [OF assms(1) q] by (simp_all add: work_mset)
  have "d' = d1 \<or> retry_failed clock e d1 w2 = (d', w')"
    using assms(2) now q ds by (auto simp: drain_one_def split: if_splits prod.splits)
  then show ?thesis
    using retry_failed_spec [of d1 clock e w2 d' w'] q1 wf by (auto simp: work_of_def)
qed

lemma drain_one_None:
  assumes "queue_wf (d_queue d)" "drain_one clock d w = (None, d', w')" "d_state d \<noteq> Paused" "d_state d \<noteq> Stopped"
  shows "d' = d \<and> w' = snd (clock w) \<and> (\<forall>k. \<not> head_due (fst (clock w)) (lane (d_queue d) k))"
proof -
  obtain now w1 where now: "clock w = (now, w1)"
    by fastforce
  obtain q where q: "dequeue now (d_queue d) = (q, None)" "d' = d\<lparr>d_queue := q\<rparr>" "w' = w1"
    using assms(2-4) now by (auto simp: drain_one_def split: if_splits prod.splits option.splits)
  have "\<forall>k. \<not> head_due now (lane (d_queue d) k)"
    using dequeue_spec [OF assms(1) q(1)] by (auto elim!: fifo_step.cases)
  moreover have "q = d_queue d"
    using dequeue_none_same [OF assms(1) q(1)] .
  ultimately show ?thesis
    using q(2,3) now by simp
qed

text \<open>One turn of the loop that takes an envelope.\<close>

definition drains :: "('w \<Rightarrow> nat \<times> 'w) \<Rightarrow> 'w dispatcher \<times> 'w \<Rightarrow> 'w dispatcher \<times> 'w \<Rightarrow> bool" where
  "drains clock = (\<lambda>(d, w) (d', w'). \<exists>r. drain_one clock d w = (Some r, d', w'))"

lemma drain_loop_spec:
  assumes "queue_wf (d_queue d)" "work (d_queue d) < n" "d_state d = Draining \<or> d_state d = Running"
  shows "\<exists>m d' w0. m \<le> work (d_queue d) \<and> (drains clock ^^ m) (d, w) (d', w0) \<and>
    drain_loop n clock d w = Some (d', snd (clock w0)) \<and> queue_wf (d_queue d') \<and>
    (\<forall>k. \<not> head_due (fst (clock w0)) (lane (d_queue d') k))"
  using assms
proof (induction n arbitrary: d w)
  case (Suc n)
  obtain r d1 w1 where one: "drain_one clock d w = (r, d1, w1)"
    by (metis prod_cases3)
  show ?case
  proof (cases r)
    case None
    then show ?thesis
      using drain_one_None [OF Suc.prems(1)] one Suc.prems
      by (intro exI [of _ 0] exI [of _ d] exI [of _ w]) auto
  next
    case (Some x)
    have step: "queue_wf (d_queue d1)" "work (d_queue d1) < work (d_queue d)" "d_state d1 = Draining \<or> d_state d1 = Running"
      using drain_one_Some [OF Suc.prems(1)] one Some by auto
    then obtain m d' w0 where ih: "m \<le> work (d_queue d1)" "(drains clock ^^ m) (d1, w1) (d', w0)"
      "drain_loop n clock d1 w1 = Some (d', snd (clock w0))" "queue_wf (d_queue d')"
      "\<forall>k. \<not> head_due (fst (clock w0)) (lane (d_queue d') k)"
      using Suc.IH [of d1 w1] Suc.prems(2) by fastforce
    have "drains clock (d, w) (d1, w1)"
      using one Some by (simp add: drains_def)
    then have "(drains clock ^^ Suc m) (d, w) (d', w0)"
      using ih(2) by (rule relpowp_Suc_I2)
    then show ?thesis
      using ih step(2) one Some by (intro exI [of _ "Suc m"] exI [of _ d'] exI [of _ w0]) simp
  qed
qed simp


section \<open>A small dispatcher\<close>

text \<open>The world is the log of sent messages; the clock stands at 5.\<close>

definition demo_clock :: "string list \<Rightarrow> nat \<times> string list" where
  "demo_clock w = (5, w)"

definition demo_channel :: "string list channel" where
  "demo_channel = \<lparr>channel_name = ''chat'', channel_start = (\<lambda>w. w), channel_stop = (\<lambda>w. w),
     send_message = (\<lambda>to text opts w. (if text = ''hi'' then send_ok None else send_err ''bad'' None, w @ [to])),
     health_check = (\<lambda>w. (True, w))\<rparr>"

definition demo_dispatcher :: "balancer \<Rightarrow> string list dispatcher" where
  "demo_dispatcher b =
     add_balancer ''chat'' 0
       ((new_dispatcher (register_channel demo_channel None []) None (\<lambda>_. b))\<lparr>d_state := Running, d_queue := demo_queue\<rparr>)"

lemma demo_queue_wf: "queue_wf demo_queue"
  by (auto simp: demo_queue_def queue_wf_def new_queue_def intro!: enqueue_wf [unfolded queue_wf_def])

lemma demo_dispatcher_parts:
  "balancer_store (demo_dispatcher b) = (\<lambda>_. b)" "d_queue (demo_dispatcher b) = demo_queue"
  by (simp_all add: demo_dispatcher_def add_balancer_def new_dispatcher_def)


section \<open>Properties\<close>

text \<open>
  C25. No load is leaked: whatever the outcome of a dispatch (no target, no channel, sent, failed), the active
  count of every target of every balancer is afterwards what it was before, and the balancers stay well
  formed.
\<close>
theorem dispatch_load_restored:
  assumes "store_wf d" "dispatch clock m d w = (r, d', w')"
  shows "get_active_count (balancer_store d' b) i = get_active_count (balancer_store d b) i \<and> store_wf d'"
  using dispatch_active [OF assms] by (simp add: active_at_def fun_eq_iff)

lemma dispatch_load_restored_witness:
  "\<exists>r d' w'. dispatch demo_clock (demo_message ''m'' ''chat'' 5) (demo_dispatcher demo_balancer) [] = (r, d', w') \<and>
     get_active_count (balancer_store d' 0) ''c'' = get_active_count demo_balancer ''c''"
proof -
  obtain r d' w' where d: "dispatch demo_clock (demo_message ''m'' ''chat'' 5) (demo_dispatcher demo_balancer) [] = (r, d', w')"
    by (metis prod_cases3)
  have "store_wf (demo_dispatcher demo_balancer)"
    by (simp add: store_wf_def demo_dispatcher_parts demo_balancer_wf)
  from dispatch_load_restored [OF this d, of 0 "''c''"] d show ?thesis
    by (simp add: demo_dispatcher_parts)
qed

text \<open>
  Every dispatch is counted once and diagnosed truthfully: exactly one of the three counters grows, the
  last diagnostic is of this message and names a failure stage exactly when the send result is a failure.
  The stage is never the balancer selection (so the retry stage of that name can never apply), and the
  dispatcher is running afterwards, even when it was paused or draining before.
\<close>
theorem dispatch_diagnosed:
  assumes "dispatch clock m d w = (r, d', w')"
  shows "attempts d' = attempts d + 1 \<and> d_state d' = Running \<and> d_queue d' = d_queue d \<and>
    (\<exists>g. last_diagnostic d' = Some g \<and> dd_message_id g = dm_id m \<and> (failure_stage g = None \<longleftrightarrow> success r) \<and>
       failure_stage g \<noteq> Some BalancerSelection \<and> dispatch_outcome g \<noteq> BalancerMiss)"
  using dispatch_frame [OF assms] by (auto simp: same_tables_def set_state_def)

lemma dispatch_diagnosed_witness:
  "\<exists>r d' w'. dispatch demo_clock (demo_message ''m'' ''chat'' 5) (set_state Paused (demo_dispatcher demo_balancer)) [] = (r, d', w')
     \<and> d_state d' = Running"
proof -
  obtain r d' w' where d: "dispatch demo_clock (demo_message ''m'' ''chat'' 5) (set_state Paused (demo_dispatcher demo_balancer)) [] = (r, d', w')"
    by (metis prod_cases3)
  from dispatch_diagnosed [OF d] d show ?thesis
    by blast
qed

text \<open>
  A balancer that finds no target does not stop the message: when the selection misses (all circuits
  open, say), the dispatcher still looks up the channel by the account of the message and sends there.
\<close>
theorem balancer_miss_still_sends:
  assumes "get_balancer d (channel m) = Some b"
    and "snd (select_target (message_selection_key m) (fst (clock (snd (clock w))))
          (refresh_targets (fst (clock w)) (balancer_store d b))) = None"
    and "find_channel (d_registry d) (channel m) (Some (account_id m)) = Some c"
  shows "fst (dispatch clock m d w) =
    fst (send_message c (message_target m) (content m) \<lparr>opt_media = media m, opt_stage = Some (stage m)\<rparr>
      (snd (clock (snd (clock (snd (clock w)))))))"
proof -
  obtain look where c: "find_channel_with_lookup (d_registry d) (channel m) (Some (account_id m)) = (Some c, look)"
    using assms(3) by (cases "find_channel_with_lookup (d_registry d) (channel m) (Some (account_id m))")
      (simp add: find_channel_def)
  have b: "get_balancer (set_state Running d) (channel m) = Some b" "balancer_store (set_state Running d) = balancer_store d"
    using assms(1) by (simp_all add: get_balancer_def set_state_def)
  obtain bal where sel: "select_target (message_selection_key m) (fst (clock (snd (clock w))))
      (refresh_targets (fst (clock w)) (balancer_store d b)) = (bal, None)"
    using assms(2) by (cases "select_target (message_selection_key m) (fst (clock (snd (clock w))))
      (refresh_targets (fst (clock w)) (balancer_store d b))") simp
  obtain d1 miss where s: "select_for clock m (set_state Running d) w =
      (\<lparr>sel_balancer = Some b, sel_target = None, sel_miss = miss\<rparr>, d1, snd (clock (snd (clock w))))"
    "d_registry d1 = d_registry d"
    by (simp add: select_for_def b sel split_beta Let_def) (simp add: on_balancer_def set_state_def)
  show ?thesis
    using s c by (simp add: dispatch_def record_diagnostic_def Let_def split: prod.splits)
qed

definition tripped_balancer :: balancer where
  "tripped_balancer = fold balancer_step [TargetFailure ''a'' 2 2, TargetFailure ''c'' 2 2] demo_balancer"

lemma balancer_miss_still_sends_witness:
  "fst (dispatch demo_clock (demo_message ''m'' ''chat'' 5) (demo_dispatcher tripped_balancer) []) = send_ok None"
proof -
  let ?m = "demo_message ''m'' ''chat'' 5" and ?d = "demo_dispatcher tripped_balancer"
  have a: "get_balancer ?d (channel ?m) = Some 0"
    by code_simp
  have "snd (select_target (message_selection_key ?m) 5 (refresh_targets 5 tripped_balancer)) = None"
    by code_simp
  then have s: "snd (select_target (message_selection_key ?m) (fst (demo_clock (snd (demo_clock []))))
      (refresh_targets (fst (demo_clock [])) (balancer_store ?d 0))) = None"
    by (simp add: demo_clock_def demo_dispatcher_parts)
  have "find_channel (d_registry ?d) (channel ?m) (Some (account_id ?m)) = Some demo_channel"
    by (simp add: demo_dispatcher_def add_balancer_def new_dispatcher_def find_channel_def find_channel_with_lookup_def
        register_channel_def demo_channel_def demo_message_def im_entry_def default_account_def Let_def)
  from balancer_miss_still_sends [OF a s this] show ?thesis
    by (simp add: demo_channel_def demo_message_def)
qed

text \<open>
  C26. Every drain ends: with as many steps as there are attempts and retries left, whatever the channels
  answer, the loop returns.  It takes \<open>m\<close> envelopes, at most one per attempt or retry, and after the last one
  reads the clock once more, in the world \<open>w0\<close> that the \<open>m\<close> turns lead to: the drain ends in the world
  after that very reading, the dispatcher is stopped, and no lane of the queue has a head that is due at it.
\<close>
theorem drain_terminates:
  assumes "queue_wf (d_queue d)" "work (d_queue d) < n"
  shows "\<exists>m d' w0. m \<le> work (d_queue d) \<and> (drains clock ^^ m) (set_state Draining d, w) (d', w0) \<and>
    drain n clock d w = Some (set_state Stopped d', snd (clock w0)) \<and> queue_wf (d_queue d') \<and>
    (\<forall>k. \<not> head_due (fst (clock w0)) (lane (d_queue d') k))"
proof -
  have "queue_wf (d_queue (set_state Draining d))" "work (d_queue (set_state Draining d)) < n"
    "d_state (set_state Draining d) = Draining \<or> d_state (set_state Draining d) = Running"
    using assms by (simp_all add: set_state_def)
  from drain_loop_spec [OF this, of clock w] show ?thesis
    by (auto simp: drain_def set_state_def)
qed

lemma drain_terminates_witness:
  "\<exists>d' w'. drain 3 demo_clock (demo_dispatcher demo_balancer) [] = Some (set_state Stopped d', w') \<and>
     (\<forall>k. \<not> head_due 5 (lane (d_queue d') k))"
proof -
  have "work demo_queue < 3"
    by code_simp
  then show ?thesis
    using drain_terminates [of "demo_dispatcher demo_balancer" 3 demo_clock "[]"] demo_queue_wf
    unfolding demo_dispatcher_parts demo_clock_def fst_conv snd_conv by blast
qed

text \<open>
  A drain does not wait for retries: envelopes whose next attempt lies in the future stay in the queue
  while the dispatcher stops.
\<close>
theorem drain_leaves_undue:
  assumes "queue_wf (d_queue d)" "list_all (\<lambda>e. fst (clock w) < next_attempt_at_ms e) (contents (d_queue d))"
  shows "drain (Suc n) clock d w = Some (set_state Stopped d, snd (clock w))"
proof -
  obtain q r where q: "dequeue (fst (clock w)) (d_queue d) = (q, r)"
    by fastforce
  have "r = None"
  proof (rule ccontr)
    assume "r \<noteq> None"
    then obtain e where e: "dequeue (fst (clock w)) (d_queue d) = (q, Some e)"
      using q by auto
    obtain k l where "lane (d_queue d) k = e # l" "head_due (fst (clock w)) (lane (d_queue d) k)"
      using dequeue_spec [OF assms(1) e] by (auto elim!: fifo_dequeue_Some)
    then show False
      using lane_mem [of e "d_queue d" k] assms(2) by (auto simp: head_due_def list_all_iff)
  qed
  then have "dequeue (fst (clock w)) (d_queue d) = (d_queue d, None)"
    using dequeue_none_same [OF assms(1)] q by blast
  then show ?thesis
    by (simp add: drain_def drain_one_def set_state_def split_beta)
qed

lemma drain_leaves_undue_witness:
  "\<exists>d'. drain 1 demo_clock ((demo_dispatcher demo_balancer)\<lparr>d_queue := enqueue (from_message 9 (demo_message ''m'' ''chat'' 5)) new_queue\<rparr>) []
      = Some (d', []) \<and> queue_len (d_queue d') = 1"
proof -
  let ?d = "(demo_dispatcher demo_balancer)\<lparr>d_queue := enqueue (from_message 9 (demo_message ''m'' ''chat'' 5)) new_queue\<rparr>"
  have "queue_wf (d_queue ?d)"
    using enqueue_wf [of new_queue] by (simp add: queue_wf_def new_queue_def)
  moreover have "list_all (\<lambda>e. fst (demo_clock []) < next_attempt_at_ms e) (contents (d_queue ?d))"
    "queue_len (d_queue (set_state Stopped ?d)) = 1"
    by code_simp+
  ultimately show ?thesis
    using drain_leaves_undue [of ?d demo_clock "[]" 0] by (simp add: demo_clock_def)
qed

end
