(* ===== verification/Task_Records.thy ===== *)
theory Task_Records
  imports Messages
begin

text \<open>
  The records of the runtime state (\<open>tasks/model.rs\<close>, \<open>transcript/model.rs\<close>), the status changes of a
  task (\<open>tasks/lifecycle.rs\<close>), the scheduler that picks the tasks that can run
  (\<open>tasks/scheduler.rs\<close>), and the check that a transcript answers each of its tool calls
  (\<open>transcript/pairing.rs\<close>).
\<close>


section \<open>Records\<close>

datatype run_status = RunRunning | RunCompleted | RunFailed

datatype turn_status = TurnRunning | TurnWaiting | TurnCompleted | TurnFailed

datatype task_kind = Main | Plan | Subtask | Followup | Question | ToolInvocation | Requirement

datatype task_status = Pending | Running | Suspended | Completed | Failed

datatype suspension_kind =
  SQuestion | ToolPermission | FollowupWait | ExternalCallback | HumanApproval | SubtaskBlocked

datatype suspension_status = SActive | Resolved | Cleared

datatype requirement_status =
  RActive | Satisfied | WaitingUserInput | FollowupScheduled | Exhausted

record run_record =
  run_id :: string
  run_trace_id :: string
  run_job_id :: string
  run_chat_id :: "string option"
  run_channel :: string
  run_status :: run_status
  current_turn_id :: "string option"
  latest_error :: "string option"
  run_created_at :: nat
  run_updated_at :: nat
  run_completed_at :: "nat option"

record turn_record =
  turn_id :: string
  turn_run_id :: string
  turn_source :: string
  turn_status :: turn_status
  transcript_checkpoint :: nat
  turn_requirement_id :: "string option"
  turn_suspension_id :: "string option"
  turn_started_at :: nat
  turn_updated_at :: nat
  turn_completed_at :: "nat option"

record task_record =
  task_id :: string
  task_run_id :: string
  task_turn_id :: "string option"
  parent_task_id :: "string option"
  task_trace_id :: string
  task_job_id :: string
  task_parent_job_id :: "string option"
  plan_id :: "string option"
  kind :: task_kind
  task_name :: string
  task_type :: string
  description :: string
  status :: task_status
  execution_mode :: "string option"
  result_kind :: "string option"
  specialist_type :: "string option"
  dependencies :: "string list"
  task_metadata :: json
  started_at :: "nat option"
  updated_at :: nat
  completed_at :: "nat option"
  error :: "string option"

record suspension_record =
  suspension_id :: string
  susp_run_id :: string
  susp_turn_id :: string
  susp_task_id :: "string option"
  susp_question_id :: "string option"
  susp_invocation_id :: "string option"
  susp_kind :: suspension_kind
  susp_status :: suspension_status
  susp_prompt :: "string option"
  susp_options :: "string list"
  susp_raw_payload :: json
  resolution_source :: "string option"
  susp_answer_summary :: "string option"
  susp_created_at :: nat
  susp_updated_at :: nat
  susp_resolved_at :: "nat option"
  susp_cleared_at :: "nat option"

record tool_invocation_record =
  invocation_id :: string
  inv_run_id :: string
  inv_turn_id :: "string option"
  inv_task_id :: "string option"
  inv_tool_name :: string
  inv_tool_use_id :: "string option"
  inv_phase :: string
  inv_permission_state :: string
  inv_input_preview :: "string option"
  inv_result_summary :: "string option"
  inv_error_summary :: "string option"
  inv_started_at :: nat
  inv_finished_at :: "nat option"

record requirement_record =
  requirement_id :: string
  req_run_id :: string
  req_turn_id :: "string option"
  req_job_id :: string
  original_user_request :: string
  attempted_rounds :: nat
  max_rounds :: nat
  last_result_fingerprint :: "string option"
  last_reason :: "string option"
  req_status :: requirement_status
  req_created_at :: nat
  req_updated_at :: nat

record message_record =
  msg_record_id :: string
  msg_run_id :: string
  msg_turn_id :: "string option"
  record_role :: message_role
  record_blocks :: "content_block list"
  record_tool_use_id :: "string option"
  record_metadata :: json
  record_filtered :: bool
  appended_at :: nat


section \<open>Life cycle of a task\<close>

definition start_stamp :: "nat \<Rightarrow> task_record \<Rightarrow> task_record" where
  "start_stamp now t = (if started_at t = None then t\<lparr>started_at := Some now\<rparr> else t)"

definition mark_task_running :: "nat \<Rightarrow> task_record \<Rightarrow> task_record" where
  "mark_task_running now t = start_stamp now (t\<lparr>status := Running, updated_at := now\<rparr>)"

definition mark_task_suspended :: "nat \<Rightarrow> task_record \<Rightarrow> task_record" where
  "mark_task_suspended now t = start_stamp now (t\<lparr>status := Suspended, updated_at := now\<rparr>)"

definition mark_task_completed :: "nat \<Rightarrow> string option \<Rightarrow> task_record \<Rightarrow> task_record" where
  "mark_task_completed now rk t =
     (start_stamp now (t\<lparr>status := Completed, updated_at := now, completed_at := Some now\<rparr>))
       \<lparr>result_kind := rk\<rparr>"

definition mark_task_failed :: "nat \<Rightarrow> string option \<Rightarrow> task_record \<Rightarrow> task_record" where
  "mark_task_failed now err t =
     (start_stamp now (t\<lparr>status := Failed, updated_at := now, completed_at := Some now\<rparr>))\<lparr>error := err\<rparr>"


section \<open>Scheduling\<close>

definition dependency_met :: "task_record list \<Rightarrow> string \<Rightarrow> bool" where
  "dependency_met all_tasks d =
     (case find (\<lambda>c. task_id c = d) all_tasks of None \<Rightarrow> True | Some c \<Rightarrow> status c = Completed)"

definition ready_task_ids :: "task_record list \<Rightarrow> string list" where
  "ready_task_ids all_tasks =
     map task_id
       (filter (\<lambda>t. list_all (dependency_met all_tasks) (dependencies t))
         (filter (\<lambda>t. status t = Pending) all_tasks))"


section \<open>Transcript\<close>

definition from_internal :: "string \<Rightarrow> string option \<Rightarrow> nat \<Rightarrow> internal_msg \<Rightarrow> message_record" where
  "from_internal run turn now m =
     \<lparr>msg_record_id = message_id m, msg_run_id = run, msg_turn_id = turn, record_role = msg_role m,
      record_blocks = blocks m, record_tool_use_id = tool_use_id m, record_metadata = metadata m,
      record_filtered = filtered m, appended_at = now\<rparr>"

definition to_internal :: "message_record \<Rightarrow> internal_msg" where
  "to_internal r =
     \<lparr>msg_role = record_role r, blocks = record_blocks r, message_id = msg_record_id r,
      tool_use_id = record_tool_use_id r, filtered = record_filtered r, metadata = record_metadata r\<rparr>"

definition append_internal_message ::
  "string \<Rightarrow> string option \<Rightarrow> nat \<Rightarrow> internal_msg \<Rightarrow> message_record list \<Rightarrow> message_record list \<times> nat" where
  "append_internal_message run turn now m transcript =
     (let t = transcript @ [from_internal run turn now m] in (t, length t))"

datatype transcript_violation = MissingToolResult | DuplicateToolResult

record pairing_scan =
  used :: "string list"
  answered :: "string list"
  violations :: "transcript_violation list"

fun scan_block :: "content_block \<Rightarrow> pairing_scan \<Rightarrow> pairing_scan" where
  "scan_block (ToolUse i n inp) s = s\<lparr>used := List.insert i (used s)\<rparr>"
| "scan_block (ToolResult i c e) s =
     (if i \<in> set (answered s) then s\<lparr>violations := violations s @ [DuplicateToolResult]\<rparr>
      else s\<lparr>answered := i # answered s\<rparr>)"
| "scan_block _ s = s"

definition validate_pairing :: "message_record list \<Rightarrow> transcript_violation list" where
  "validate_pairing messages =
     (let s = fold scan_block (concat (map record_blocks messages)) \<lparr>used = [], answered = [], violations = []\<rparr>
      in violations s @ map (\<lambda>_. MissingToolResult) (filter (\<lambda>i. i \<notin> set (answered s)) (used s)))"

definition result_ids :: "content_block list \<Rightarrow> string list" where
  "result_ids bs = concat (map (\<lambda>b. case b of ToolResult i _ _ \<Rightarrow> [i] | _ \<Rightarrow> []) bs)"

definition use_ids :: "content_block list \<Rightarrow> string list" where
  "use_ids bs = concat (map (\<lambda>b. case b of ToolUse i _ _ \<Rightarrow> [i] | _ \<Rightarrow> []) bs)"


section \<open>Properties\<close>

lemma internal_roundtrip: "to_internal (from_internal run turn now m) = m"
  by (simp add: to_internal_def from_internal_def)

lemma ids_simps [simp]:
  "result_ids [] = []" "use_ids [] = []"
  "result_ids (b # bs) = (case b of ToolResult i _ _ \<Rightarrow> [i] | _ \<Rightarrow> []) @ result_ids bs"
  "use_ids (b # bs) = (case b of ToolUse i _ _ \<Rightarrow> [i] | _ \<Rightarrow> []) @ use_ids bs"
  by (simp_all add: result_ids_def use_ids_def)

lemma scan_block_sets:
  "set (used (scan_block b s)) = set (used s) \<union> set (use_ids [b])"
  "set (answered (scan_block b s)) = set (answered s) \<union> set (result_ids [b])"
  "distinct (used s) \<Longrightarrow> distinct (used (scan_block b s))"
  "distinct (answered s) \<Longrightarrow> distinct (answered (scan_block b s))"
  by (cases b; auto)+

lemma scan_sets:
  "set (used (fold scan_block bs s)) = set (used s) \<union> set (use_ids bs) \<and>
   set (answered (fold scan_block bs s)) = set (answered s) \<union> set (result_ids bs) \<and>
   (distinct (used s) \<longrightarrow> distinct (used (fold scan_block bs s))) \<and>
   (distinct (answered s) \<longrightarrow> distinct (answered (fold scan_block bs s)))"
  by (induction bs arbitrary: s) (auto simp: scan_block_sets)

lemma scan_violations:
  "\<exists>n. violations (fold scan_block bs s) = violations s @ replicate n DuplicateToolResult \<and>
     n + length (answered (fold scan_block bs s)) = length (answered s) + length (result_ids bs)"
proof (induction bs arbitrary: s)
  case (Cons b bs)
  obtain n where n: "violations (fold scan_block bs (scan_block b s)) =
      violations (scan_block b s) @ replicate n DuplicateToolResult"
    "n + length (answered (fold scan_block bs (scan_block b s))) =
      length (answered (scan_block b s)) + length (result_ids bs)"
    using Cons.IH by blast
  show ?case
    using n by (cases b) (auto simp: replicate_app_Cons_same intro: exI [of _ n] exI [of _ "Suc n"])
qed simp

text \<open>
  The transcript check reports exactly one \<open>DuplicateToolResult\<close> for each repeated answer and one
  \<open>MissingToolResult\<close> for each tool call without an answer, whatever their order in the transcript.
\<close>
theorem pairing_check_exact:
  "validate_pairing messages =
     (let bs = concat (map record_blocks messages)
      in replicate (length (result_ids bs) - card (set (result_ids bs))) DuplicateToolResult @
         replicate (card (set (use_ids bs) - set (result_ids bs))) MissingToolResult)"
proof -
  let ?bs = "concat (map record_blocks messages)"
  let ?s = "fold scan_block ?bs \<lparr>used = [], answered = [], violations = []\<rparr>"
  have sets: "set (used ?s) = set (use_ids ?bs)" "set (answered ?s) = set (result_ids ?bs)"
    "distinct (used ?s)" "distinct (answered ?s)"
    using scan_sets [of ?bs "\<lparr>used = [], answered = [], violations = []\<rparr>"] by simp_all
  obtain n where n: "violations ?s = replicate n DuplicateToolResult"
    "n + length (answered ?s) = length (result_ids ?bs)"
    using scan_violations [of ?bs "\<lparr>used = [], answered = [], violations = []\<rparr>"] by auto
  have "length (answered ?s) = card (set (result_ids ?bs))"
    using sets distinct_card by metis
  then have "n = length (result_ids ?bs) - card (set (result_ids ?bs))"
    using n(2) by simp
  moreover have "length (filter (\<lambda>i. i \<notin> set (answered ?s)) (used ?s)) = card (set (use_ids ?bs) - set (result_ids ?bs))"
    using distinct_card [of "filter (\<lambda>i. i \<notin> set (answered ?s)) (used ?s)"] sets
    by (simp add: set_diff_eq)
  ultimately show ?thesis
    using n(1) by (simp add: validate_pairing_def Let_def map_replicate_const)
qed

lemma find_own:
  "distinct (map task_id ts) \<Longrightarrow> c \<in> set ts \<Longrightarrow> find (\<lambda>x. task_id x = task_id c) ts = Some c"
  by (induction ts) (auto simp: rev_image_eqI)

lemma dependency_met_iff:
  "distinct (map task_id ts) \<Longrightarrow>
     dependency_met ts d \<longleftrightarrow> (\<forall>c \<in> set ts. task_id c = d \<longrightarrow> status c = Completed)"
  by (auto simp: dependency_met_def find_None_iff dest: find_own split: option.split_asm option.split)
    (auto simp: find_Some_iff)

lemma ready_iff:
  "distinct (map task_id ts) \<Longrightarrow> t \<in> set ts \<Longrightarrow>
     task_id t \<in> set (ready_task_ids ts) \<longleftrightarrow>
       status t = Pending \<and> (\<forall>c \<in> set ts. task_id c \<in> set (dependencies t) \<longrightarrow> status c = Completed)"
  by (auto simp: ready_task_ids_def list_all_iff dependency_met_iff) (metis find_own option.inject)+

text \<open>
  The scheduler offers a task exactly when it is pending and each of its dependencies in the list is
  completed, and it is never stuck: when the dependencies have no cycle (\<open>rank\<close> grows along them) and no
  task has failed or is under way, a pending task means that some task is offered.
\<close>
theorem scheduler_offers_ready_tasks:
  assumes ids: "distinct (map task_id ts)"
    and t: "t \<in> set ts"
  shows "(task_id t \<in> set (ready_task_ids ts) \<longleftrightarrow>
      status t = Pending \<and> (\<forall>c \<in> set ts. task_id c \<in> set (dependencies t) \<longrightarrow> status c = Completed)) \<and>
    ((\<forall>c \<in> set ts. status c = Pending \<or> status c = Completed) \<longrightarrow>
     (\<forall>c \<in> set ts. \<forall>d \<in> set (dependencies c). (rank :: string \<Rightarrow> nat) d < rank (task_id c)) \<longrightarrow>
     status t = Pending \<longrightarrow> ready_task_ids ts \<noteq> [])"
proof (intro conjI impI)
  show "task_id t \<in> set (ready_task_ids ts) \<longleftrightarrow>
      status t = Pending \<and> (\<forall>c \<in> set ts. task_id c \<in> set (dependencies t) \<longrightarrow> status c = Completed)"
    by (rule ready_iff [OF assms])
next
  assume settled: "\<forall>c \<in> set ts. status c = Pending \<or> status c = Completed"
    and rank: "\<forall>c \<in> set ts. \<forall>d \<in> set (dependencies c). rank d < rank (task_id c)"
    and "status t = Pending"
  then obtain m where m: "m \<in> set ts" "status m = Pending"
    and least: "\<forall>c. c \<in> set ts \<and> status c = Pending \<longrightarrow> rank (task_id m) \<le> rank (task_id c)"
    using t ex_has_least_nat [of "\<lambda>c. c \<in> set ts \<and> status c = Pending" t "\<lambda>c. rank (task_id c)"] by blast
  have "status c = Completed" if "c \<in> set ts" "task_id c \<in> set (dependencies m)" for c
    using that settled rank m least by (meson leD)
  then have "task_id m \<in> set (ready_task_ids ts)"
    using m ready_iff [OF ids m(1)] by blast
  then show "ready_task_ids ts \<noteq> []"
    by auto
qed

definition demo_task :: "string \<Rightarrow> string list \<Rightarrow> task_status \<Rightarrow> task_record" where
  "demo_task i deps st =
     \<lparr>task_id = i, task_run_id = ''r'', task_turn_id = None, parent_task_id = None, task_trace_id = ''t'',
      task_job_id = ''j'', task_parent_job_id = None, plan_id = Some ''p'', kind = Subtask, task_name = i,
      task_type = ''generic'', description = [], status = st, execution_mode = None, result_kind = None,
      specialist_type = None, dependencies = deps, task_metadata = JNull, started_at = None, updated_at = 0,
      completed_at = None, error = None\<rparr>"

lemma scheduler_offers_ready_tasks_witness:
  "ready_task_ids [demo_task ''b'' [''a''] Pending, demo_task ''a'' [''x''] Pending] = [''a''] \<and>
   ready_task_ids [demo_task ''b'' [''a''] Pending, demo_task ''a'' [''x''] Pending] \<noteq> []"
proof -
  let ?ts = "[demo_task ''b'' [''a''] Pending, demo_task ''a'' [''x''] Pending]"
  have "ready_task_ids ?ts = [''a'']"
    by code_simp
  moreover have "ready_task_ids ?ts \<noteq> []"
    using scheduler_offers_ready_tasks [of ?ts "demo_task ''a'' [''x''] Pending"
        "\<lambda>d. if d = ''b'' then 2 else if d = ''a'' then 1 else 0"]
    by (simp add: demo_task_def)
  ultimately show ?thesis
    by blast
qed

text \<open>The clock stamps of a task that only the life cycle changes.\<close>

definition stamps_ok :: "task_record \<Rightarrow> bool" where
  "stamps_ok t \<longleftrightarrow>
     (status t \<in> {Running, Suspended, Completed, Failed} \<longrightarrow> started_at t \<noteq> None) \<and>
     (status t \<in> {Completed, Failed} \<longrightarrow> completed_at t = Some (updated_at t))"

lemma marked_stamps:
  "stamps_ok (mark_task_running now t)" "stamps_ok (mark_task_suspended now t)"
  "stamps_ok (mark_task_completed now rk t)" "stamps_ok (mark_task_failed now err t)"
  by (auto simp: stamps_ok_def start_stamp_def mark_task_running_def mark_task_suspended_def
      mark_task_completed_def mark_task_failed_def)

end
