(* ===== verification/Runtime_State.thy ===== *)
theory Runtime_State
  imports Task_Records
begin

text \<open>
  The runtime state (\<open>runtime/snapshot.rs\<close>, \<open>events.rs\<close>, \<open>reducer.rs\<close>): tables of records with
  their indices, changed only by domain events, plus the removal of a chat session
  (\<open>purge_session_from_snapshot\<close> of \<open>state_store.rs\<close>) and the queries of \<open>tasks/query.rs\<close>.
  The locale \<open>table_writes\<close> states what an event log promises of a table: the last write to a key wins.
\<close>


section \<open>State and events\<close>

record task_index =
  run_ids_by_job_id :: "(string, string) imap"
  task_ids_by_plan_id :: "(string, string list) imap"
  suspension_ids_by_question_id :: "(string, string) imap"
  invocation_ids_by_question_id :: "(string, string) imap"

record event_envelope =
  env_sequence :: nat
  recorded_at :: nat
  event_type :: string

record snapshot =
  runs :: "(string, run_record) imap"
  turns :: "(string, turn_record) imap"
  tasks :: "(string, task_record) imap"
  suspensions :: "(string, suspension_record) imap"
  tool_invocations :: "(string, tool_invocation_record) imap"
  requirements :: "(string, requirement_record) imap"
  transcript :: "message_record list"
  recent_events :: "event_envelope list"
  projection_hints :: "(string, (string, json) imap) imap"
  index :: task_index
  session_titles :: "(string, string) imap"

definition empty_index :: task_index where
  "empty_index =
     \<lparr>run_ids_by_job_id = [], task_ids_by_plan_id = [], suspension_ids_by_question_id = [],
      invocation_ids_by_question_id = []\<rparr>"

definition empty_snapshot :: snapshot where
  "empty_snapshot =
     \<lparr>runs = [], turns = [], tasks = [], suspensions = [], tool_invocations = [], requirements = [],
      transcript = [], recent_events = [], projection_hints = [], index = empty_index, session_titles = []\<rparr>"

datatype domain_event =
    RunUpserted run_record
  | TurnUpserted turn_record
  | TaskUpserted task_record
  | SuspensionUpserted suspension_record
  | ToolInvocationUpserted tool_invocation_record
  | RequirementUpserted requirement_record
  | MessageAppended message_record
  | ProjectionHintRecorded string string string json

fun event_name :: "domain_event \<Rightarrow> string" where
  "event_name (RunUpserted _) = ''run_upserted''"
| "event_name (TurnUpserted _) = ''turn_upserted''"
| "event_name (TaskUpserted _) = ''task_upserted''"
| "event_name (SuspensionUpserted _) = ''suspension_upserted''"
| "event_name (ToolInvocationUpserted _) = ''tool_invocation_upserted''"
| "event_name (RequirementUpserted _) = ''requirement_upserted''"
| "event_name (MessageAppended _) = ''message_appended''"
| "event_name (ProjectionHintRecorded _ _ _ _) = ''projection_hint_recorded''"


section \<open>The reducer\<close>

definition index_task :: "task_record \<Rightarrow> task_index \<Rightarrow> task_index" where
  "index_task t ix =
     (case plan_id t of
        None \<Rightarrow> ix
      | Some p \<Rightarrow> ix\<lparr>task_ids_by_plan_id :=
          im_entry p [] (\<lambda>ids. if task_id t \<in> set ids then ids else ids @ [task_id t]) (task_ids_by_plan_id ix)\<rparr>)"

definition index_suspension :: "suspension_record \<Rightarrow> task_index \<Rightarrow> task_index" where
  "index_suspension s ix =
     (case susp_question_id s of
        None \<Rightarrow> ix
      | Some q \<Rightarrow>
          (let ix1 = ix\<lparr>suspension_ids_by_question_id :=
                 im_insert q (suspension_id s) (suspension_ids_by_question_id ix)\<rparr>
           in case susp_invocation_id s of
                None \<Rightarrow> ix1
              | Some i \<Rightarrow> ix1\<lparr>invocation_ids_by_question_id :=
                  im_insert q i (invocation_ids_by_question_id ix1)\<rparr>))"

fun apply_event :: "domain_event \<Rightarrow> snapshot \<Rightarrow> snapshot" where
  "apply_event (RunUpserted r) s =
     s\<lparr>index := (index s)\<lparr>run_ids_by_job_id := im_insert (run_job_id r) (run_id r) (run_ids_by_job_id (index s))\<rparr>,
       runs := im_insert (run_id r) r (runs s)\<rparr>"
| "apply_event (TurnUpserted t) s =
     s\<lparr>runs := im_modify (turn_run_id t)
         (\<lambda>r. r\<lparr>current_turn_id := Some (turn_id t), run_updated_at := turn_updated_at t\<rparr>) (runs s),
       turns := im_insert (turn_id t) t (turns s)\<rparr>"
| "apply_event (TaskUpserted t) s =
     s\<lparr>index := index_task t (index s), tasks := im_insert (task_id t) t (tasks s)\<rparr>"
| "apply_event (SuspensionUpserted p) s =
     s\<lparr>index := index_suspension p (index s), suspensions := im_insert (suspension_id p) p (suspensions s)\<rparr>"
| "apply_event (ToolInvocationUpserted i) s =
     s\<lparr>tool_invocations := im_insert (invocation_id i) i (tool_invocations s)\<rparr>"
| "apply_event (RequirementUpserted r) s =
     s\<lparr>requirements := im_insert (requirement_id r) r (requirements s)\<rparr>"
| "apply_event (MessageAppended m) s = s\<lparr>transcript := transcript s @ [m]\<rparr>"
| "apply_event (ProjectionHintRecorded r scope k v) s =
     s\<lparr>projection_hints := im_entry r [] (im_insert (scope @ ''.'' @ k) v) (projection_hints s)\<rparr>"

definition recent_limit :: nat where
  "recent_limit = 200"

definition push_envelope :: "event_envelope \<Rightarrow> event_envelope list \<Rightarrow> event_envelope list" where
  "push_envelope e es =
     (let es1 = es @ [e] in if recent_limit < length es1 then drop (length es1 - recent_limit) es1 else es1)"

definition reduce_event :: "snapshot \<Rightarrow> domain_event \<Rightarrow> nat \<Rightarrow> nat \<Rightarrow> snapshot" where
  "reduce_event s e sequence now =
     (let s1 = apply_event e s
      in s1\<lparr>recent_events :=
           push_envelope \<lparr>env_sequence = sequence, recorded_at = now, event_type = event_name e\<rparr> (recent_events s1)\<rparr>)"


section \<open>Removal of a session\<close>

definition im_filter :: "('k \<Rightarrow> 'v \<Rightarrow> bool) \<Rightarrow> ('k, 'v) imap \<Rightarrow> ('k, 'v) imap" where
  "im_filter P m = filter (\<lambda>(k, v). P k v) m"

definition keys_where :: "('v \<Rightarrow> bool) \<Rightarrow> ('k, 'v) imap \<Rightarrow> 'k list" where
  "keys_where P m = map fst (filter (\<lambda>(k, v). P v) m)"

definition purge_run :: "string \<Rightarrow> snapshot \<times> string list \<Rightarrow> snapshot \<times> string list" where
  "purge_run r st =
     (let s = fst st;
          s1 = s\<lparr>runs := im_remove r (runs s),
                 index := (index s)\<lparr>run_ids_by_job_id := im_filter (\<lambda>j v. v \<noteq> r) (run_ids_by_job_id (index s))\<rparr>\<rparr>
      in (s1, snd st @ keys_where (\<lambda>t. turn_run_id t = r) (turns s1)))"

definition purge_session_from_snapshot :: "string \<Rightarrow> snapshot \<Rightarrow> snapshot \<times> string list \<times> string list" where
  "purge_session_from_snapshot chat s =
     (let run_ids = keys_where (\<lambda>r. run_chat_id r = Some chat) (runs s);
          (s1, turn_ids) = fold purge_run run_ids (s, []);
          s2 = s1\<lparr>turns := fold im_remove turn_ids (turns s1)\<rparr>;
          s3 = s2\<lparr>tasks := fold im_remove (keys_where (\<lambda>t. task_run_id t \<in> set run_ids) (tasks s2)) (tasks s2)\<rparr>;
          s4 = s3\<lparr>suspensions :=
                 fold im_remove (keys_where (\<lambda>p. susp_run_id p \<in> set run_ids) (suspensions s3)) (suspensions s3)\<rparr>;
          s5 = s4\<lparr>tool_invocations :=
                 fold im_remove (keys_where (\<lambda>i. inv_run_id i \<in> set run_ids) (tool_invocations s4)) (tool_invocations s4)\<rparr>;
          s6 = s5\<lparr>requirements :=
                 fold im_remove (keys_where (\<lambda>r. req_run_id r \<in> set run_ids) (requirements s5)) (requirements s5)\<rparr>
      in (s6\<lparr>transcript := filter (\<lambda>m. msg_run_id m \<notin> set run_ids) (transcript s6),
             session_titles := im_remove chat (session_titles s6)\<rparr>, run_ids, turn_ids))"


section \<open>Queries\<close>

definition run_by_job_id :: "snapshot \<Rightarrow> string \<Rightarrow> run_record option" where
  "run_by_job_id s j = Option.bind (map_of (run_ids_by_job_id (index s)) j) (map_of (runs s))"

definition active_turn :: "snapshot \<Rightarrow> string \<Rightarrow> turn_record option" where
  "active_turn s r = Option.bind (Option.bind (map_of (runs s) r) current_turn_id) (map_of (turns s))"

definition task_sort_key :: "task_record \<Rightarrow> nat \<times> nat reverse \<times> string" where
  "task_sort_key t = (unwrap_or (updated_at t) (started_at t), Reverse (updated_at t), task_id t)"

definition tasks_for_run :: "snapshot \<Rightarrow> string \<Rightarrow> task_record list" where
  "tasks_for_run s r = sort_key task_sort_key (filter (\<lambda>t. task_run_id t = r) (im_values (tasks s)))"

definition tasks_for_job :: "snapshot \<Rightarrow> string \<Rightarrow> task_record list" where
  "tasks_for_job s j = (case run_by_job_id s j of None \<Rightarrow> [] | Some r \<Rightarrow> tasks_for_run s (run_id r))"

definition tasks_for_plan :: "snapshot \<Rightarrow> string \<Rightarrow> task_record list" where
  "tasks_for_plan s p =
     sort_key task_sort_key
       (List.map_filter (map_of (tasks s)) (unwrap_or [] (map_of (task_ids_by_plan_id (index s)) p)))"

definition plan_task :: "snapshot \<Rightarrow> string \<Rightarrow> task_record option" where
  "plan_task s p = find (\<lambda>t. parent_task_id t = None) (tasks_for_plan s p)"

definition subtasks_for_plan :: "snapshot \<Rightarrow> string \<Rightarrow> task_record list" where
  "subtasks_for_plan s p = sort_key task_sort_key (filter (\<lambda>t. parent_task_id t \<noteq> None) (tasks_for_plan s p))"

definition active_suspension :: "snapshot \<Rightarrow> string \<Rightarrow> suspension_record option" where
  "active_suspension s r = find (\<lambda>p. susp_run_id p = r \<and> susp_status p = SActive) (im_values (suspensions s))"

definition suspension_by_question_id :: "snapshot \<Rightarrow> string \<Rightarrow> suspension_record option" where
  "suspension_by_question_id s q =
     Option.bind (map_of (suspension_ids_by_question_id (index s)) q) (map_of (suspensions s))"

definition active_requirement :: "snapshot \<Rightarrow> string \<Rightarrow> requirement_record option" where
  "active_requirement s r = find (\<lambda>q. req_run_id q = r) (im_values (requirements s))"

text \<open>\<open>max_by_key\<close> answers with the last of the greatest elements.\<close>

fun max_by_key :: "('a \<Rightarrow> nat) \<Rightarrow> 'a list \<Rightarrow> 'a option" where
  "max_by_key f [] = None"
| "max_by_key f (x # xs) =
     (case max_by_key f xs of None \<Rightarrow> Some x | Some y \<Rightarrow> if f y < f x then Some x else Some y)"

definition latest_tool_invocation :: "snapshot \<Rightarrow> string \<Rightarrow> tool_invocation_record option" where
  "latest_tool_invocation s r =
     max_by_key inv_started_at (filter (\<lambda>i. inv_run_id i = r) (im_values (tool_invocations s)))"

definition invocation_by_question_id :: "snapshot \<Rightarrow> string \<Rightarrow> tool_invocation_record option" where
  "invocation_by_question_id s q =
     Option.bind (map_of (invocation_ids_by_question_id (index s)) q) (map_of (tool_invocations s))"


section \<open>The abstract store\<close>

text \<open>
  What the trait \<open>StateStore\<close> promises: a sequence counter and a snapshot, changed by these operations
  and by nothing else.  Both back ends are shown to implement it (theory \<open>Runtime_Store\<close>).
\<close>

datatype store_op =
    Append domain_event nat
  | DeleteSession string
  | SetSessionTitle string string
  | DeleteSessionTitle string

fun spec_op :: "store_op \<Rightarrow> nat \<times> snapshot \<Rightarrow> nat \<times> snapshot" where
  "spec_op (Append e now) (n, s) = (n + 1, reduce_event s e (n + 1) now)"
| "spec_op (DeleteSession chat) (n, s) = (n, fst (purge_session_from_snapshot chat s))"
| "spec_op (SetSessionTitle chat t) (n, s) = (n, s\<lparr>session_titles := im_insert chat t (session_titles s)\<rparr>)"
| "spec_op (DeleteSessionTitle chat) (n, s) = (n, s\<lparr>session_titles := im_remove chat (session_titles s)\<rparr>)"

definition spec_run :: "store_op list \<Rightarrow> nat \<times> snapshot" where
  "spec_run os = fold spec_op os (0, empty_snapshot)"


section \<open>Last write wins\<close>

locale table_writes =
  fixes tbl :: "'s \<Rightarrow> 'k \<Rightarrow> 'v option"
    and step :: "'e \<Rightarrow> 's \<Rightarrow> 's"
    and wr :: "'e \<Rightarrow> ('k \<times> 'v) option"
  assumes step_tbl: "tbl (step e s) = (case wr e of None \<Rightarrow> tbl s | Some (k, v) \<Rightarrow> (tbl s)(k \<mapsto> v))"
begin

lemma run_tbl: "tbl (fold step es s) = tbl s ++ map_of (rev (List.map_filter wr es))"
proof (induction es arbitrary: s)
  case (Cons e es)
  then show ?case
    by (cases "wr e") (auto simp: step_tbl List.map_filter_simps)
qed (simp add: List.map_filter_simps)

lemma run_tbl_new: "tbl s = Map.empty \<Longrightarrow> tbl (fold step es s) = map_of (rev (List.map_filter wr es))"
  by (simp add: run_tbl)

end

fun turn_write :: "domain_event \<Rightarrow> (string \<times> turn_record) option" where
  "turn_write (TurnUpserted t) = Some (turn_id t, t)"
| "turn_write _ = None"

fun task_write :: "domain_event \<Rightarrow> (string \<times> task_record) option" where
  "task_write (TaskUpserted t) = Some (task_id t, t)"
| "task_write _ = None"

fun suspension_write :: "domain_event \<Rightarrow> (string \<times> suspension_record) option" where
  "suspension_write (SuspensionUpserted p) = Some (suspension_id p, p)"
| "suspension_write _ = None"

fun invocation_write :: "domain_event \<Rightarrow> (string \<times> tool_invocation_record) option" where
  "invocation_write (ToolInvocationUpserted i) = Some (invocation_id i, i)"
| "invocation_write _ = None"

fun requirement_write :: "domain_event \<Rightarrow> (string \<times> requirement_record) option" where
  "requirement_write (RequirementUpserted r) = Some (requirement_id r, r)"
| "requirement_write _ = None"

interpretation turns: table_writes "\<lambda>s. map_of (turns s)" apply_event turn_write
proof unfold_locales
  show "map_of (turns (apply_event e s)) =
      (case turn_write e of None \<Rightarrow> map_of (turns s) | Some (k, v) \<Rightarrow> (map_of (turns s))(k \<mapsto> v))" for e s
    by (cases e) (simp_all add: update_conv')
qed

interpretation tasks: table_writes "\<lambda>s. map_of (tasks s)" apply_event task_write
proof unfold_locales
  show "map_of (tasks (apply_event e s)) =
      (case task_write e of None \<Rightarrow> map_of (tasks s) | Some (k, v) \<Rightarrow> (map_of (tasks s))(k \<mapsto> v))" for e s
    by (cases e) (simp_all add: update_conv')
qed

interpretation suspensions: table_writes "\<lambda>s. map_of (suspensions s)" apply_event suspension_write
proof unfold_locales
  show "map_of (suspensions (apply_event e s)) =
      (case suspension_write e of None \<Rightarrow> map_of (suspensions s) | Some (k, v) \<Rightarrow> (map_of (suspensions s))(k \<mapsto> v))" for e s
    by (cases e) (simp_all add: update_conv')
qed

interpretation invocations: table_writes "\<lambda>s. map_of (tool_invocations s)" apply_event invocation_write
proof unfold_locales
  show "map_of (tool_invocations (apply_event e s)) =
      (case invocation_write e of None \<Rightarrow> map_of (tool_invocations s) | Some (k, v) \<Rightarrow> (map_of (tool_invocations s))(k \<mapsto> v))" for e s
    by (cases e) (simp_all add: update_conv')
qed

interpretation requirements: table_writes "\<lambda>s. map_of (requirements s)" apply_event requirement_write
proof unfold_locales
  show "map_of (requirements (apply_event e s)) =
      (case requirement_write e of None \<Rightarrow> map_of (requirements s) | Some (k, v) \<Rightarrow> (map_of (requirements s))(k \<mapsto> v))" for e s
    by (cases e) (simp_all add: update_conv')
qed


section \<open>The invariant\<close>

definition table_ok :: "('v \<Rightarrow> string) \<Rightarrow> (string, 'v) imap \<Rightarrow> bool" where
  "table_ok key m \<longleftrightarrow> im_wf m \<and> list_all (\<lambda>(k, v). key v = k) m"

definition plan_index_ok :: "(string, task_record) imap \<Rightarrow> (string, string list) imap \<Rightarrow> bool" where
  "plan_index_ok ts ix \<longleftrightarrow>
     im_wf ix \<and> list_all (\<lambda>(p, ids). distinct ids) ix \<and>
     list_all (\<lambda>(k, t). case plan_id t of None \<Rightarrow> True | Some p \<Rightarrow> k \<in> set (unwrap_or [] (map_of ix p))) ts"

definition question_index_ok :: "(string, suspension_record) imap \<Rightarrow> (string, string) imap \<Rightarrow> bool" where
  "question_index_ok ps ix \<longleftrightarrow>
     list_all (\<lambda>(k, p). case susp_question_id p of None \<Rightarrow> True | Some q \<Rightarrow> map_of ix q \<noteq> None) ps"

definition snapshot_wf :: "snapshot \<Rightarrow> bool" where
  "snapshot_wf s \<longleftrightarrow>
     table_ok run_id (runs s) \<and> table_ok turn_id (turns s) \<and> table_ok task_id (tasks s) \<and>
     table_ok suspension_id (suspensions s) \<and> table_ok invocation_id (tool_invocations s) \<and>
     table_ok requirement_id (requirements s) \<and>
     plan_index_ok (tasks s) (task_ids_by_plan_id (index s)) \<and>
     question_index_ok (suspensions s) (suspension_ids_by_question_id (index s)) \<and>
     length (recent_events s) \<le> recent_limit"

lemma table_ok_insert [wf_intros]: "table_ok key m \<Longrightarrow> key v = k \<Longrightarrow> table_ok key (im_insert k v m)"
  by (simp add: table_ok_def im_wf_insert list_all_update)

lemma table_ok_modify [wf_intros]:
  "table_ok key m \<Longrightarrow> (\<And>v. key (f v) = key v) \<Longrightarrow> table_ok key (im_modify k f m)"
  by (simp add: table_ok_def im_wf_modify list_all_modify)

lemma im_wf_filter: "im_wf m \<Longrightarrow> im_wf (im_filter P m)"
  by (auto simp: im_wf_def im_filter_def distinct_map inj_on_def)

lemma list_all_im_filter: "list_all Q m \<Longrightarrow> list_all Q (im_filter P m)"
  by (auto simp: list_all_iff im_filter_def)

lemma table_ok_filter [wf_intros]: "table_ok key m \<Longrightarrow> table_ok key (im_filter P m)"
  by (simp add: table_ok_def im_wf_filter list_all_im_filter)

lemma plan_index_insert:
  assumes "plan_index_ok ts ix" and k: "k = task_id t"
    and ix': "ix' = task_ids_by_plan_id (index_task t j)" and j: "ix = task_ids_by_plan_id j"
  shows "plan_index_ok (im_insert k t ts) ix'"
proof -
  have grows: "k \<in> set (unwrap_or [] (map_of ix p)) \<Longrightarrow> k \<in> set (unwrap_or [] (map_of ix' p))" for k p
    by (auto simp: ix' j index_task_def im_get_entry split: option.splits)
  have own: "plan_id t = Some p \<Longrightarrow> task_id t \<in> set (unwrap_or [] (map_of ix' p))" for p
    by (auto simp: ix' index_task_def im_get_entry split: option.splits)
  have "im_wf ix' \<and> list_all (\<lambda>(p, ids). distinct ids) ix'"
    using assms(1) by (auto simp: ix' j plan_index_ok_def index_task_def im_wf_entry intro!: list_all_entry split: option.split)
  moreover have "list_all (\<lambda>(k, t). case plan_id t of None \<Rightarrow> True | Some p \<Rightarrow> k \<in> set (unwrap_or [] (map_of ix' p))) ts"
    using assms(1) grows by (auto simp: plan_index_ok_def list_all_iff split: option.splits)
  ultimately show ?thesis
    unfolding plan_index_ok_def k using own by (intro conjI list_all_update) (simp_all split: option.split)
qed

lemma index_frames:
  "task_ids_by_plan_id (index_suspension p ix) = task_ids_by_plan_id ix"
  "suspension_ids_by_question_id (index_task t ix) = suspension_ids_by_question_id ix"
  "run_ids_by_job_id (index_suspension p ix) = run_ids_by_job_id ix"
  "run_ids_by_job_id (index_task t ix) = run_ids_by_job_id ix"
  by (simp_all add: index_suspension_def index_task_def Let_def split: option.split)

lemma question_index_insert:
  "question_index_ok ps (suspension_ids_by_question_id ix) \<Longrightarrow>
     question_index_ok (im_insert k p ps) (suspension_ids_by_question_id (index_suspension p ix))"
  unfolding question_index_ok_def
  by (rule list_all_update)
    (auto simp: list_all_iff index_suspension_def Let_def im.get_ins split: option.splits)

lemma push_envelope_length: "length es \<le> recent_limit \<Longrightarrow> length (push_envelope e es) \<le> recent_limit"
  by (auto simp: push_envelope_def Let_def)

lemma apply_event_recent [simp]: "recent_events (apply_event e s) = recent_events s"
  by (cases e) simp_all

lemma apply_event_wf: "snapshot_wf s \<Longrightarrow> snapshot_wf (apply_event e s)"
  by (cases e)
    (auto simp: snapshot_wf_def index_frames intro!: wf_intros plan_index_insert question_index_insert)

lemma reduce_event_wf: "snapshot_wf s \<Longrightarrow> snapshot_wf (reduce_event s e n now)"
  using apply_event_wf [of s e] push_envelope_length by (auto simp: reduce_event_def Let_def snapshot_wf_def)


section \<open>Purging\<close>

lemma im_filter_simps [simp]:
  "im_filter P [] = []"
  "im_filter P ((k, v) # m) = (if P k v then (k, v) # im_filter P m else im_filter P m)"
  by (simp_all add: im_filter_def)

lemma im_filter_filter: "im_filter P (im_filter Q m) = im_filter (\<lambda>k v. Q k v \<and> P k v) m"
  by (induction m) auto

lemma im_filter_cong: "(\<And>k v. (k, v) \<in> set m \<Longrightarrow> P k v = Q k v) \<Longrightarrow> im_filter P m = im_filter Q m"
  unfolding im_filter_def by (rule filter_cong) auto

lemma remove_filter: "im_remove k m = im_filter (\<lambda>k' v. k' \<noteq> k) m"
  by (induction m) auto

lemma remove_all_filter: "fold im_remove ks m = im_filter (\<lambda>k v. k \<notin> set ks) m"
proof (induction ks arbitrary: m)
  case Nil
  show ?case
    by (simp add: im_filter_def case_prod_unfold)
next
  case (Cons k ks)
  then show ?case
    by (auto simp: remove_filter im_filter_filter intro: im_filter_cong)
qed

lemma keys_where_mem: "im_wf m \<Longrightarrow> (k, v) \<in> set m \<Longrightarrow> k \<in> set (keys_where P m) \<longleftrightarrow> P v"
  by (auto simp: keys_where_def image_iff im_wf_def dest: eq_key_imp_eq_value)

lemma remove_where: "im_wf m \<Longrightarrow> fold im_remove (keys_where P m) m = im_filter (\<lambda>k v. \<not> P v) m"
  unfolding remove_all_filter by (rule im_filter_cong) (simp add: keys_where_mem)

lemma purge_run_pair:
  "purge_run r (s, ids) =
     (s\<lparr>runs := im_filter (\<lambda>k v. k \<noteq> r) (runs s),
        index := (index s)\<lparr>run_ids_by_job_id := im_filter (\<lambda>j v. v \<noteq> r) (run_ids_by_job_id (index s))\<rparr>\<rparr>,
      ids @ keys_where (\<lambda>t. turn_run_id t = r) (turns s))"
  by (simp add: purge_run_def Let_def remove_filter)

lemma keys_where_get: "im_wf m \<Longrightarrow> k \<in> set (keys_where P m) \<longleftrightarrow> (\<exists>v. map_of m k = Some v \<and> P v)"
  by (auto simp: keys_where_def image_iff im_wf_def dest: map_of_SomeD)

lemma purge_runs_fold:
  "fold purge_run rs (s, ids) =
     (s\<lparr>runs := im_filter (\<lambda>k v. k \<notin> set rs) (runs s),
        index := (index s)\<lparr>run_ids_by_job_id := im_filter (\<lambda>j v. v \<notin> set rs) (run_ids_by_job_id (index s))\<rparr>\<rparr>,
      ids @ concat (map (\<lambda>r. keys_where (\<lambda>t. turn_run_id t = r) (turns s)) rs))"
proof (induction rs arbitrary: s ids)
  case Nil
  show ?case
    by (simp add: im_filter_def case_prod_unfold)
next
  case (Cons r rs)
  show ?case
    by (simp add: purge_run_pair Cons.IH im_filter_filter)
qed

definition purged :: "string \<Rightarrow> string list \<Rightarrow> snapshot \<Rightarrow> snapshot" where
  "purged chat rs s = s
     \<lparr>runs := im_filter (\<lambda>k r. run_chat_id r \<noteq> Some chat) (runs s),
      turns := im_filter (\<lambda>k t. turn_run_id t \<notin> set rs) (turns s),
      tasks := im_filter (\<lambda>k t. task_run_id t \<notin> set rs) (tasks s),
      suspensions := im_filter (\<lambda>k p. susp_run_id p \<notin> set rs) (suspensions s),
      tool_invocations := im_filter (\<lambda>k i. inv_run_id i \<notin> set rs) (tool_invocations s),
      requirements := im_filter (\<lambda>k r. req_run_id r \<notin> set rs) (requirements s),
      transcript := filter (\<lambda>m. msg_run_id m \<notin> set rs) (transcript s),
      index := (index s)\<lparr>run_ids_by_job_id := im_filter (\<lambda>j r. r \<notin> set rs) (run_ids_by_job_id (index s))\<rparr>,
      session_titles := im_remove chat (session_titles s)\<rparr>"

lemma table_wf: "table_ok key m \<Longrightarrow> im_wf m"
  by (simp add: table_ok_def)

lemma purge_eq:
  assumes "snapshot_wf s"
  shows "let rs = keys_where (\<lambda>r. run_chat_id r = Some chat) (runs s)
    in fst (purge_session_from_snapshot chat s) = purged chat rs s \<and>
       fst (snd (purge_session_from_snapshot chat s)) = rs"
proof -
  let ?rs = "keys_where (\<lambda>r. run_chat_id r = Some chat) (runs s)"
  have wf: "im_wf (runs s)" "im_wf (turns s)" "im_wf (tasks s)" "im_wf (suspensions s)"
    "im_wf (tool_invocations s)" "im_wf (requirements s)"
    using assms by (auto simp: snapshot_wf_def dest: table_wf)
  have rs: "im_filter (\<lambda>k v. k \<notin> set ?rs) (runs s) = im_filter (\<lambda>k r. run_chat_id r \<noteq> Some chat) (runs s)"
    by (rule im_filter_cong) (simp add: keys_where_mem [OF wf(1)])
  have ts: "fold im_remove (concat (map (\<lambda>r. keys_where (\<lambda>t. turn_run_id t = r) (turns s)) ?rs)) (turns s) =
      im_filter (\<lambda>k t. turn_run_id t \<notin> set ?rs) (turns s)"
    unfolding remove_all_filter by (rule im_filter_cong) (simp add: keys_where_mem [OF wf(2)])
  show ?thesis
    by (simp add: purge_session_from_snapshot_def purge_runs_fold Let_def purged_def rs ts wf remove_where)
qed

lemma plan_index_filter: "plan_index_ok ts ix \<Longrightarrow> plan_index_ok (im_filter P ts) ix"
  by (simp add: plan_index_ok_def list_all_im_filter)

lemma purged_wf: "snapshot_wf s \<Longrightarrow> snapshot_wf (purged chat rs s)"
  by (auto simp: snapshot_wf_def purged_def question_index_ok_def intro!: wf_intros plan_index_filter list_all_im_filter)

lemma spec_op_wf: "snapshot_wf (snd s) \<Longrightarrow> snapshot_wf (snd (spec_op op s))"
  using purge_eq [of "snd s"] by (cases op; cases s) (auto simp: Let_def intro: reduce_event_wf purged_wf, simp_all add: snapshot_wf_def)

interpretation runtime: invariant_machine spec_op "\<lambda>s. snapshot_wf (snd s)"
  by unfold_locales (rule spec_op_wf)

lemma empty_snapshot_wf: "snapshot_wf empty_snapshot"
  by (simp add: snapshot_wf_def empty_snapshot_def empty_index_def table_ok_def plan_index_ok_def question_index_ok_def)

text \<open>
  C31. Whatever operations the runtime performs on its state, each table is keyed by its records' own ids
  without duplicates, each task of a plan is in the plan's index, whose lists have no duplicates, each
  suspension's question is indexed, and at most 200 recent events are kept.
\<close>
theorem runtime_state_invariant: "snapshot_wf (snd (spec_run os))"
  unfolding spec_run_def by (rule runtime.run_inv) (simp add: empty_snapshot_wf)

text \<open>
  C36. Deleting the session of a chat removes its runs and everything that belongs to them (turns, tasks,
  suspensions, tool invocations, requirements, messages, the title) and reports the number of runs;
  nothing of another run is touched.
\<close>
theorem purge_session_exact:
  "let s = snd (spec_run os); (s', run_ids, turn_ids) = purge_session_from_snapshot chat s;
       gone = \<lambda>r. \<exists>run. map_of (runs s) r = Some run \<and> run_chat_id run = Some chat
    in (\<forall>r. r \<in> set run_ids \<longleftrightarrow> gone r) \<and> distinct run_ids \<and>
       runs s' = im_filter (\<lambda>r run. \<not> gone r) (runs s) \<and>
       turns s' = im_filter (\<lambda>i t. \<not> gone (turn_run_id t)) (turns s) \<and>
       tasks s' = im_filter (\<lambda>i t. \<not> gone (task_run_id t)) (tasks s) \<and>
       suspensions s' = im_filter (\<lambda>i p. \<not> gone (susp_run_id p)) (suspensions s) \<and>
       tool_invocations s' = im_filter (\<lambda>i t. \<not> gone (inv_run_id t)) (tool_invocations s) \<and>
       requirements s' = im_filter (\<lambda>i r. \<not> gone (req_run_id r)) (requirements s) \<and>
       transcript s' = filter (\<lambda>m. \<not> gone (msg_run_id m)) (transcript s) \<and>
       session_titles s' = im_remove chat (session_titles s) \<and>
       projection_hints s' = projection_hints s"
proof -
  let ?s = "snd (spec_run os)"
  obtain s' run_ids turn_ids where p: "purge_session_from_snapshot chat ?s = (s', run_ids, turn_ids)"
    by (rule prod_cases3)
  have wf: "snapshot_wf ?s"
    unfolding spec_run_def by (rule runtime.run_inv) (simp add: empty_snapshot_wf)
  then have runs_wf: "im_wf (runs ?s)"
    by (auto simp: snapshot_wf_def dest: table_wf)
  have s': "s' = purged chat run_ids ?s" and ids: "run_ids = keys_where (\<lambda>r. run_chat_id r = Some chat) (runs ?s)"
    using purge_eq [OF wf, of chat] p by (simp_all add: Let_def)
  have gone: "r \<in> set run_ids \<longleftrightarrow> (\<exists>run. map_of (runs ?s) r = Some run \<and> run_chat_id run = Some chat)" for r
    unfolding ids by (rule keys_where_get [OF runs_wf])
  have "runs s' = im_filter (\<lambda>r run. r \<notin> set run_ids) (runs ?s)"
    unfolding s' purged_def by (simp, rule im_filter_cong) (simp add: ids keys_where_mem [OF runs_wf])
  moreover have "distinct run_ids"
    using runs_wf by (auto simp: ids keys_where_def im_wf_def distinct_map inj_on_def)
  ultimately show ?thesis
    unfolding Let_def p case_prod_conv gone [symmetric] s' by (simp add: purged_def)
qed


section \<open>The event log\<close>

fun envelopes :: "nat \<Rightarrow> store_op list \<Rightarrow> event_envelope list" where
  "envelopes n [] = []"
| "envelopes n (Append e now # os) =
     \<lparr>env_sequence = n + 1, recorded_at = now, event_type = event_name e\<rparr> # envelopes (n + 1) os"
| "envelopes n (_ # os) = envelopes n os"

definition latest :: "nat \<Rightarrow> 'a list \<Rightarrow> 'a list" where
  "latest k xs = drop (length xs - k) xs"

lemma latest_snoc: "latest k (latest k xs @ ys) = latest k (xs @ ys)"
  by (cases "k \<le> length xs") (simp_all add: latest_def add.commute)

lemma push_latest: "push_envelope e (latest recent_limit es) = latest recent_limit (es @ [e])"
proof -
  have "push_envelope e (latest recent_limit es) = latest recent_limit (latest recent_limit es @ [e])"
    by (auto simp: push_envelope_def Let_def latest_def)
  then show ?thesis
    by (simp add: latest_snoc)
qed

lemma purge_recent [simp]: "recent_events (fst (purge_session_from_snapshot chat s)) = recent_events s"
proof -
  have "recent_events (fst (fold purge_run rs (s, ids))) = recent_events s" for rs ids
    by (simp add: purge_runs_fold)
  then show ?thesis
    by (simp add: purge_session_from_snapshot_def purge_runs_fold Let_def)
qed

lemma spec_fold_events:
  "recent_events s = latest recent_limit es \<Longrightarrow>
   fst (fold spec_op os (n, s)) = n + length (envelopes n os) \<and>
   recent_events (snd (fold spec_op os (n, s))) = latest recent_limit (es @ envelopes n os)"
proof (induction os arbitrary: n s es)
  case (Cons op os)
  show ?case
  proof (cases op)
    case (Append e now)
    have "recent_events (reduce_event s e (n + 1) now) =
        latest recent_limit (es @ [\<lparr>env_sequence = n + 1, recorded_at = now, event_type = event_name e\<rparr>])"
      using Cons.prems push_latest by (simp add: reduce_event_def Let_def)
    from Cons.IH [OF this, of "n + 1"] show ?thesis
      using Append by simp
  qed (use Cons.IH [of _ es n] Cons.prems in simp_all)
qed simp

text \<open>
  Event sequence numbers have no gap and no repetition, whatever else happens in between: the counter
  is the number of appended events, and the recent events are exactly the latest 200 of them, in order.
\<close>
theorem recent_events_latest:
  "fst (spec_run os) = length (envelopes 0 os) \<and>
   recent_events (snd (spec_run os)) = latest 200 (envelopes 0 os) \<and>
   map env_sequence (envelopes 0 os) = [1..<length (envelopes 0 os) + 1]"
proof -
  have "map env_sequence (envelopes n os) = [n + 1..<n + length (envelopes n os) + 1]" for n
  proof (induction n os rule: envelopes.induct)
    case (2 n e now os)
    then show ?case
      by (simp add: upt_conv_Cons del: upt.simps)
  qed simp_all
  from this [of 0] show ?thesis
    using spec_fold_events [of empty_snapshot "[]" os 0]
    by (simp add: spec_run_def recent_limit_def) (simp add: empty_snapshot_def latest_def)
qed


section \<open>Tasks of a plan\<close>

fun task_written :: "store_op \<Rightarrow> task_record option" where
  "task_written (Append (TaskUpserted t) _) = Some t"
| "task_written _ = None"

definition plans_stable :: "(string \<Rightarrow> string option) \<Rightarrow> snapshot \<Rightarrow> bool" where
  "plans_stable plan_of s \<longleftrightarrow>
     list_all (\<lambda>(k, t). plan_id t = plan_of k) (tasks s) \<and>
     list_all (\<lambda>(p, ids). \<forall>i \<in> set ids. plan_of i = Some p) (task_ids_by_plan_id (index s))"

lemma plans_stable_op:
  assumes "plans_stable plan_of (snd st)" "\<And>t. task_written op = Some t \<Longrightarrow> plan_id t = plan_of (task_id t)"
    and "snapshot_wf (snd st)"
  shows "plans_stable plan_of (snd (spec_op op st))"
proof (cases op)
  case (Append e now)
  show ?thesis
  proof (cases e)
    case (TaskUpserted t)
    then have "plan_id t = plan_of (task_id t)"
      using assms(2) Append by simp
    then show ?thesis
      using assms(1) TaskUpserted Append
      by (cases st) (auto simp: plans_stable_def reduce_event_def Let_def index_task_def
          intro!: list_all_update list_all_entry split: option.split if_splits)
  qed (use assms(1) Append in \<open>cases st, auto simp: plans_stable_def reduce_event_def Let_def index_frames\<close>)+
next
  case (DeleteSession chat)
  then show ?thesis
    using assms(1,3) purge_eq [of "snd st" chat]
    by (cases st) (auto simp: plans_stable_def Let_def purged_def list_all_im_filter)
qed (use assms(1) in \<open>cases st, simp add: plans_stable_def\<close>)+

lemma plans_stable_run:
  "plans_stable plan_of (snd st) \<Longrightarrow> snapshot_wf (snd st) \<Longrightarrow>
   \<forall>t \<in> set (List.map_filter task_written os). plan_id t = plan_of (task_id t) \<Longrightarrow>
   plans_stable plan_of (snd (fold spec_op os st))"
proof (induction os arbitrary: st)
  case (Cons op os)
  have "plans_stable plan_of (snd (spec_op op st))"
    using Cons.prems by (intro plans_stable_op) (auto simp: List.map_filter_def)
  then show ?case
    using Cons.prems Cons.IH [of "spec_op op st"] spec_op_wf by (auto simp: List.map_filter_def split: if_splits)
qed simp

lemma list_all_lookup:
  "list_all (\<lambda>(k, v). P k v) m \<Longrightarrow> P k d \<Longrightarrow> P k (unwrap_or d (map_of m k))"
  by (cases "map_of m k") (auto simp: list_all_iff dest: map_of_SomeD)

lemma distinct_looked_up:
  assumes "list_all (\<lambda>(k, v). key v = k) m" "distinct ks"
  shows "distinct (map key (List.map_filter (map_of m) ks))"
proof -
  have key: "map_of m k = Some v \<Longrightarrow> key v = k" for k v
    using assms(1) by (auto simp: list_all_iff dest: map_of_SomeD)
  then have "map key (List.map_filter (map_of m) ks) = filter (\<lambda>k. map_of m k \<noteq> None) ks"
    by (induction ks) (auto simp: List.map_filter_simps split: option.split)
  then show ?thesis
    using assms(2) by simp
qed

text \<open>
  When no update moves a task to another plan, \<open>tasks_for_plan\<close> answers with exactly the plan's tasks,
  each once, sorted by start, and its subtasks are those with a parent.
\<close>
theorem plan_query_exact:
  assumes "\<forall>t \<in> set (List.map_filter task_written os). plan_id t = plan_of (task_id t)"
  shows "let s = snd (spec_run os); ts = tasks_for_plan s p
    in (\<forall>t. t \<in> set ts \<longleftrightarrow> t \<in> set (im_values (tasks s)) \<and> plan_id t = Some p) \<and>
       distinct (map task_id ts) \<and> sorted (map task_sort_key ts) \<and>
       set (subtasks_for_plan s p) = {t \<in> set ts. parent_task_id t \<noteq> None} \<and>
       length (subtasks_for_plan s p) = length (filter (\<lambda>t. parent_task_id t \<noteq> None) ts)"
proof -
  let ?s = "snd (spec_run os)"
  let ?ids = "unwrap_or [] (map_of (task_ids_by_plan_id (index ?s)) p)"
  have wf: "snapshot_wf ?s"
    unfolding spec_run_def by (rule runtime.run_inv) (simp add: empty_snapshot_wf)
  have stable: "plans_stable plan_of ?s"
    unfolding spec_run_def by (rule plans_stable_run [OF _ _ assms])
      (simp_all add: empty_snapshot_wf, simp add: plans_stable_def empty_snapshot_def empty_index_def)
  have table: "im_wf (tasks ?s)" "list_all (\<lambda>(k, t). task_id t = k) (tasks ?s)"
    using wf by (auto simp: snapshot_wf_def table_ok_def)
  have ids: "distinct ?ids"
    by (rule list_all_lookup [where P = "\<lambda>_. distinct"]) (use wf in \<open>simp_all add: snapshot_wf_def plan_index_ok_def\<close>)
  have mem: "t \<in> set (tasks_for_plan ?s p) \<longleftrightarrow> t \<in> set (im_values (tasks ?s)) \<and> plan_id t = Some p" for t
  proof
    assume "t \<in> set (tasks_for_plan ?s p)"
    then obtain i where i: "i \<in> set ?ids" "map_of (tasks ?s) i = Some t"
      by (auto simp: tasks_for_plan_def List.map_filter_def)
    have "\<forall>i \<in> set ?ids. plan_of i = Some p"
      by (rule list_all_lookup) (use stable in \<open>simp_all add: plans_stable_def\<close>)
    then show "t \<in> set (im_values (tasks ?s)) \<and> plan_id t = Some p"
      using i stable by (auto simp: plans_stable_def list_all_iff dest!: map_of_SomeD intro: rev_image_eqI)
  next
    assume t: "t \<in> set (im_values (tasks ?s)) \<and> plan_id t = Some p"
    then have e: "(task_id t, t) \<in> set (tasks ?s)"
      using table(2) by (auto simp: list_all_iff)
    then have "task_id t \<in> set ?ids"
      using wf t by (auto simp: snapshot_wf_def plan_index_ok_def list_all_iff)
    then show "t \<in> set (tasks_for_plan ?s p)"
      using im_values_get [OF table(1) e] by (auto simp: tasks_for_plan_def List.map_filter_def intro: rev_image_eqI)
  qed
  have "distinct (map task_id (tasks_for_plan ?s p))"
    unfolding tasks_for_plan_def distinct_map
    using distinct_looked_up [OF table(2) ids] by (simp add: distinct_map)
  then show ?thesis
    using mem by (simp add: Let_def subtasks_for_plan_def) (simp add: tasks_for_plan_def)
qed

lemma plan_query_exact_witness:
  "let s = snd (spec_run [Append (TaskUpserted (demo_task ''b'' [] Pending)) 3, Append (TaskUpserted (demo_task ''a'' [] Pending)) 4])
   in map task_id (tasks_for_plan s ''p'') = [''a'', ''b''] \<and> distinct (map task_id (tasks_for_plan s ''p''))"
proof -
  let ?os = "[Append (TaskUpserted (demo_task ''b'' [] Pending)) 3, Append (TaskUpserted (demo_task ''a'' [] Pending)) 4]"
  have "map task_id (tasks_for_plan (snd (spec_run ?os)) ''p'') = [''a'', ''b'']"
    by code_simp
  moreover have "distinct (map task_id (tasks_for_plan (snd (spec_run ?os)) ''p''))"
    using plan_query_exact [of ?os "\<lambda>_. Some ''p''" "''p''"]
    by (simp add: Let_def List.map_filter_def demo_task_def)
  ultimately show ?thesis
    by (simp add: Let_def)
qed

end
