(* ===== verification/Runtime_Store.thy ===== *)
theory Runtime_Store
  imports Runtime_State
begin

text \<open>
  The two back ends of the runtime state (\<open>runtime/state_store.rs\<close>): the JSON file and the SQLite tables
  of \<open>anima-store\<close> (\<open>sqlite.rs\<close>).  Both implement the abstract store of \<open>Runtime_State\<close> (locale
  \<open>state_store\<close>); what a restart restores is stated for each.  Serialisation is library code: a
  \<open>codec\<close> is a parameter.  SQLite is modelled by what its statements do to the rows of a table, in
  \<open>rowid\<close> order, and by its errors (no such table, a violated primary key); faults of the disk are not
  modelled.  A JSON write may fail: each operation carries the outcome of its write.
\<close>


section \<open>SqliteStore\<close>

datatype sql_error = NoSuchTable string | UniqueViolation string

type_synonym rows = "(string, string) imap"
type_synonym db = "(string, rows) imap"

definition ensure_table :: "string \<Rightarrow> db \<Rightarrow> db" where
  "ensure_table t d = (if map_of d t = None then im_insert t [] d else d)"

definition with_table :: "string \<Rightarrow> db \<Rightarrow> (rows \<Rightarrow> sql_error + 'a) \<Rightarrow> sql_error + 'a" where
  "with_table t d f = (case map_of d t of None \<Rightarrow> Inl (NoSuchTable t) | Some rs \<Rightarrow> f rs)"

text \<open>\<open>INSERT OR REPLACE\<close> deletes the old row and adds the new one at the end.\<close>

definition upsert_row :: "string \<Rightarrow> string \<Rightarrow> rows \<Rightarrow> rows" where
  "upsert_row i x rs = im_remove i rs @ [(i, x)]"

definition upsert :: "string \<Rightarrow> string \<Rightarrow> string \<Rightarrow> db \<Rightarrow> sql_error + db" where
  "upsert t i x d = with_table t d (\<lambda>rs. Inr (im_insert t (upsert_row i x rs) d))"

definition get :: "string \<Rightarrow> string \<Rightarrow> db \<Rightarrow> sql_error + string option" where
  "get t i d = with_table t d (\<lambda>rs. Inr (map_of rs i))"

definition get_all :: "string \<Rightarrow> db \<Rightarrow> sql_error + rows" where
  "get_all t d = with_table t d Inr"

definition append_row :: "string \<Rightarrow> string \<Rightarrow> string \<Rightarrow> db \<Rightarrow> sql_error + db" where
  "append_row t i x d =
     with_table t d (\<lambda>rs. if i \<in> set (im_keys rs) then Inl (UniqueViolation i) else Inr (im_insert t (rs @ [(i, x)]) d))"

definition get_all_ordered :: "string \<Rightarrow> db \<Rightarrow> sql_error + rows" where
  "get_all_ordered t d = with_table t d Inr"

definition with_transaction :: "(db \<Rightarrow> sql_error + ('a \<times> db)) \<Rightarrow> db \<Rightarrow> (sql_error + 'a) \<times> db" where
  "with_transaction f d = (case f d of Inl e \<Rightarrow> (Inl e, d) | Inr (x, d') \<Rightarrow> (Inr x, d'))"

fun upsert_all :: "string \<Rightarrow> (string \<times> string) list \<Rightarrow> db \<Rightarrow> sql_error + db" where
  "upsert_all t [] d = Inr d"
| "upsert_all t ((i, x) # ops) d = (case upsert t i x d of Inl e \<Rightarrow> Inl e | Inr d' \<Rightarrow> upsert_all t ops d')"

definition execute_in_transaction :: "string \<Rightarrow> (string \<times> string) list \<Rightarrow> db \<Rightarrow> (sql_error + unit) \<times> db" where
  "execute_in_transaction t ops d = with_transaction (\<lambda>d. map_sum id (Pair ()) (upsert_all t ops d)) d"

definition count_rows :: "string \<Rightarrow> db \<Rightarrow> sql_error + nat" where
  "count_rows t d = with_table t d (\<lambda>rs. Inr (length rs))"

definition delete_row :: "string \<Rightarrow> string \<Rightarrow> db \<Rightarrow> sql_error + (bool \<times> db)" where
  "delete_row t i d =
     with_table t d (\<lambda>rs. Inr (i \<in> set (im_keys rs), im_insert t (im_remove i rs) d))"

text \<open>\<open>let _ = ..\<close>: an error is dropped and the tables stay as they are.\<close>

definition ignore :: "db \<Rightarrow> sql_error + db \<Rightarrow> db" where
  "ignore d r = (case r of Inl _ \<Rightarrow> d | Inr d' \<Rightarrow> d')"

definition delete_ignore :: "string \<Rightarrow> string \<Rightarrow> db \<Rightarrow> db" where
  "delete_ignore t i d = ignore d (map_sum id snd (delete_row t i d))"


section \<open>Encoded records\<close>

record codec =
  run_text :: "run_record \<Rightarrow> string"
  run_parse :: "string \<Rightarrow> run_record option"
  turn_text :: "turn_record \<Rightarrow> string"
  turn_parse :: "string \<Rightarrow> turn_record option"
  task_text :: "task_record \<Rightarrow> string"
  task_parse :: "string \<Rightarrow> task_record option"
  suspension_text :: "suspension_record \<Rightarrow> string"
  suspension_parse :: "string \<Rightarrow> suspension_record option"
  invocation_text :: "tool_invocation_record \<Rightarrow> string"
  invocation_parse :: "string \<Rightarrow> tool_invocation_record option"
  requirement_text :: "requirement_record \<Rightarrow> string"
  requirement_parse :: "string \<Rightarrow> requirement_record option"
  message_text :: "message_record \<Rightarrow> string"
  message_parse :: "string \<Rightarrow> message_record option"
  hint_text :: "json \<Rightarrow> string"
  row_run_id :: "string \<Rightarrow> string option"

text \<open>\<open>str::parse::<u64>\<close>: an optional plus sign, at least one digit, no overflow.\<close>

definition digit :: "char \<Rightarrow> nat option" where
  "digit c = (if 48 \<le> (of_char c :: nat) \<and> (of_char c :: nat) \<le> 57 then Some (of_char c - 48) else None)"

fun parse_digits :: "nat \<Rightarrow> string \<Rightarrow> nat option" where
  "parse_digits n [] = Some n"
| "parse_digits n (c # cs) =
     (case digit c of
        None \<Rightarrow> None
      | Some k \<Rightarrow> if 10 * n + k \<le> u64_max then parse_digits (10 * n + k) cs else None)"

definition parse_u64 :: "string \<Rightarrow> nat option" where
  "parse_u64 s = (let t = (case s of [] \<Rightarrow> [] | c # cs \<Rightarrow> if c = CHR ''+'' then cs else s)
     in if t = [] then None else parse_digits 0 t)"


section \<open>SqliteStateStore\<close>

definition title_key :: "string \<Rightarrow> string" where
  "title_key chat = ''session_title:'' @ chat"

record sqlite_store =
  tables :: db
  sql_next :: nat
  sql_snapshot :: snapshot

definition TABLES :: "string list" where
  "TABLES = [''runs'', ''turns'', ''tasks'', ''suspensions'', ''tool_invocations'', ''requirements'',
     ''transcript'', ''events'', ''meta'']"

definition load_run :: "string \<Rightarrow> run_record \<Rightarrow> snapshot \<Rightarrow> snapshot" where
  "load_run i r s =
     s\<lparr>index := (index s)\<lparr>run_ids_by_job_id := im_insert (run_job_id r) i (run_ids_by_job_id (index s))\<rparr>,
       runs := im_insert i r (runs s)\<rparr>"

definition load_turn :: "string \<Rightarrow> turn_record \<Rightarrow> snapshot \<Rightarrow> snapshot" where
  "load_turn i t s = s\<lparr>turns := im_insert i t (turns s)\<rparr>"

definition load_task :: "string \<Rightarrow> task_record \<Rightarrow> snapshot \<Rightarrow> snapshot" where
  "load_task i t s =
     s\<lparr>index := (case plan_id t of
          None \<Rightarrow> index s
        | Some p \<Rightarrow> (index s)\<lparr>task_ids_by_plan_id :=
            im_entry p [] (\<lambda>ids. ids @ [i]) (task_ids_by_plan_id (index s))\<rparr>),
       tasks := im_insert i t (tasks s)\<rparr>"

definition load_suspension :: "string \<Rightarrow> suspension_record \<Rightarrow> snapshot \<Rightarrow> snapshot" where
  "load_suspension i p s =
     s\<lparr>index := index_suspension (p\<lparr>suspension_id := i\<rparr>) (index s), suspensions := im_insert i p (suspensions s)\<rparr>"

definition load_invocation :: "string \<Rightarrow> tool_invocation_record \<Rightarrow> snapshot \<Rightarrow> snapshot" where
  "load_invocation i r s = s\<lparr>tool_invocations := im_insert i r (tool_invocations s)\<rparr>"

definition load_requirement :: "string \<Rightarrow> requirement_record \<Rightarrow> snapshot \<Rightarrow> snapshot" where
  "load_requirement i r s = s\<lparr>requirements := im_insert i r (requirements s)\<rparr>"

definition load_message :: "string \<Rightarrow> message_record \<Rightarrow> snapshot \<Rightarrow> snapshot" where
  "load_message i m s = s\<lparr>transcript := transcript s @ [m]\<rparr>"

definition load_title :: "string \<Rightarrow> string \<Rightarrow> snapshot \<Rightarrow> snapshot" where
  "load_title i x s =
     (case strip_prefix ''session_title:'' i of
        None \<Rightarrow> s
      | Some chat \<Rightarrow> s\<lparr>session_titles := im_insert chat x (session_titles s)\<rparr>)"

definition load_step ::
  "(string \<Rightarrow> 'r option) \<Rightarrow> (string \<Rightarrow> 'r \<Rightarrow> snapshot \<Rightarrow> snapshot) \<Rightarrow> string \<times> string \<Rightarrow> snapshot \<Rightarrow> snapshot" where
  "load_step parse add row s = (case parse (snd row) of None \<Rightarrow> s | Some v \<Rightarrow> add (fst row) v s)"

definition load_rows ::
  "string \<Rightarrow> (string \<Rightarrow> 'r option) \<Rightarrow> (string \<Rightarrow> 'r \<Rightarrow> snapshot \<Rightarrow> snapshot) \<Rightarrow> db \<Rightarrow>
   sql_error + snapshot \<Rightarrow> sql_error + snapshot" where
  "load_rows t parse add d r =
     (case r of
        Inl e \<Rightarrow> Inl e
      | Inr s \<Rightarrow> with_table t d (\<lambda>rs. Inr (fold (load_step parse add) rs s)))"

definition load_snapshot :: "codec \<Rightarrow> db \<Rightarrow> sql_error + snapshot" where
  "load_snapshot c d =
     load_rows ''meta'' Some load_title d
      (load_rows ''transcript'' (message_parse c) load_message d
       (load_rows ''requirements'' (requirement_parse c) load_requirement d
        (load_rows ''tool_invocations'' (invocation_parse c) load_invocation d
         (load_rows ''suspensions'' (suspension_parse c) load_suspension d
          (load_rows ''tasks'' (task_parse c) load_task d
           (load_rows ''turns'' (turn_parse c) load_turn d
            (load_rows ''runs'' (run_parse c) load_run d (Inr empty_snapshot))))))))"

definition sqlite_init :: "codec \<Rightarrow> db \<Rightarrow> sql_error + sqlite_store" where
  "sqlite_init c d0 =
     (let d = fold ensure_table TABLES d0
      in case get ''meta'' ''next_sequence'' d of
           Inl e \<Rightarrow> Inl e
         | Inr x \<Rightarrow>
             (case load_snapshot c d of
                Inl e \<Rightarrow> Inl e
              | Inr s \<Rightarrow> Inr \<lparr>tables = d, sql_next = unwrap_or 0 (Option.bind x parse_u64), sql_snapshot = s\<rparr>))"

fun persist_record :: "codec \<Rightarrow> domain_event \<Rightarrow> db \<Rightarrow> db" where
  "persist_record c (RunUpserted r) d = ignore d (upsert ''runs'' (run_id r) (run_text c r) d)"
| "persist_record c (TurnUpserted t) d = ignore d (upsert ''turns'' (turn_id t) (turn_text c t) d)"
| "persist_record c (TaskUpserted t) d = ignore d (upsert ''tasks'' (task_id t) (task_text c t) d)"
| "persist_record c (SuspensionUpserted p) d =
     ignore d (upsert ''suspensions'' (suspension_id p) (suspension_text c p) d)"
| "persist_record c (ToolInvocationUpserted i) d =
     ignore d (upsert ''tool_invocations'' (invocation_id i) (invocation_text c i) d)"
| "persist_record c (RequirementUpserted r) d =
     ignore d (upsert ''requirements'' (requirement_id r) (requirement_text c r) d)"
| "persist_record c (MessageAppended m) d =
     ignore d (append_row ''transcript'' (msg_record_id m) (message_text c m) d)"
| "persist_record c (ProjectionHintRecorded r scope k v) d =
     ignore d (upsert ''meta'' (''hint:'' @ r @ ''.'' @ scope @ ''.'' @ k) (hint_text c v) d)"

definition persist_event :: "codec \<Rightarrow> domain_event \<Rightarrow> nat \<Rightarrow> db \<Rightarrow> db" where
  "persist_event c e sequence d =
     (let d1 = persist_record c e d;
          d2 = ignore d1 (upsert ''meta'' ''next_sequence'' (dec sequence) d1)
      in ignore d2 (append_row ''events'' (dec sequence) (event_name e) d2))"

definition sqlite_append :: "codec \<Rightarrow> domain_event \<Rightarrow> nat \<Rightarrow> sqlite_store \<Rightarrow> nat \<times> sqlite_store" where
  "sqlite_append c e now st =
     (let n = sql_next st + 1
      in (n, st\<lparr>sql_next := n, tables := persist_event c e n (tables st),
                sql_snapshot := reduce_event (sql_snapshot st) e n now\<rparr>))"

definition delete_rows_of ::
  "codec \<Rightarrow> string list \<Rightarrow> (string \<Rightarrow> db \<Rightarrow> sql_error + rows) \<Rightarrow> string \<Rightarrow> db \<Rightarrow> db" where
  "delete_rows_of c run_ids fetch t d =
     (case fetch t d of
        Inl _ \<Rightarrow> d
      | Inr rs \<Rightarrow> fold (\<lambda>(i, x) d.
          case row_run_id c x of
            None \<Rightarrow> d
          | Some r \<Rightarrow> if r \<in> set run_ids then delete_ignore t i d else d) rs d)"

definition sqlite_delete_session :: "codec \<Rightarrow> string \<Rightarrow> sqlite_store \<Rightarrow> nat \<times> sqlite_store" where
  "sqlite_delete_session c chat st =
     (let (s', run_ids, turn_ids) = purge_session_from_snapshot chat (sql_snapshot st);
          d1 = fold (delete_ignore ''runs'') run_ids (tables st);
          d2 = fold (delete_ignore ''turns'') turn_ids d1;
          d3 = fold (delete_rows_of c run_ids get_all) [''tasks'', ''suspensions'', ''tool_invocations'', ''requirements''] d2;
          d4 = delete_rows_of c run_ids get_all_ordered ''transcript'' d3;
          d5 = delete_ignore ''meta'' (title_key chat) d4
      in (length run_ids, st\<lparr>sql_snapshot := s', tables := d5\<rparr>))"

definition sqlite_set_title :: "string \<Rightarrow> string \<Rightarrow> sqlite_store \<Rightarrow> sqlite_store" where
  "sqlite_set_title chat t st =
     st\<lparr>sql_snapshot := (sql_snapshot st)\<lparr>session_titles := im_insert chat t (session_titles (sql_snapshot st))\<rparr>,
        tables := ignore (tables st) (upsert ''meta'' (title_key chat) t (tables st))\<rparr>"

definition sqlite_delete_title :: "string \<Rightarrow> sqlite_store \<Rightarrow> sqlite_store" where
  "sqlite_delete_title chat st =
     st\<lparr>sql_snapshot := (sql_snapshot st)\<lparr>session_titles := im_remove chat (session_titles (sql_snapshot st))\<rparr>,
        tables := delete_ignore ''meta'' (title_key chat) (tables st)\<rparr>"

fun sqlite_op :: "codec \<Rightarrow> store_op \<Rightarrow> sqlite_store \<Rightarrow> nat \<times> sqlite_store" where
  "sqlite_op c (Append e now) st = sqlite_append c e now st"
| "sqlite_op c (DeleteSession chat) st = sqlite_delete_session c chat st"
| "sqlite_op c (SetSessionTitle chat t) st = (0, sqlite_set_title chat t st)"
| "sqlite_op c (DeleteSessionTitle chat) st = (0, sqlite_delete_title chat st)"


section \<open>JsonStateStore\<close>

record persisted =
  version :: nat
  saved_next :: nat
  saved_snapshot :: snapshot

definition PERSISTENCE_VERSION :: nat where
  "PERSISTENCE_VERSION = 1"

text \<open>\<open>disk\<close> is the content of the file at \<open>persistence_path\<close>; \<open>None\<close> when there is no file.\<close>

record json_store =
  json_next :: nat
  json_snapshot :: snapshot
  has_path :: bool
  disk :: "string option"

definition load_persisted_state :: "(string \<Rightarrow> persisted option) \<Rightarrow> string option \<Rightarrow> persisted option" where
  "load_persisted_state parse f =
     (case Option.bind f parse of
        None \<Rightarrow> None
      | Some p \<Rightarrow> if version p \<noteq> PERSISTENCE_VERSION then None else Some p)"

definition new_json_store :: json_store where
  "new_json_store = \<lparr>json_next = 0, json_snapshot = empty_snapshot, has_path = False, disk = None\<rparr>"

definition with_persistence :: "(string \<Rightarrow> persisted option) \<Rightarrow> string option \<Rightarrow> json_store" where
  "with_persistence parse f =
     (let p = unwrap_or \<lparr>version = PERSISTENCE_VERSION, saved_next = 0, saved_snapshot = empty_snapshot\<rparr>
                (load_persisted_state parse f)
      in \<lparr>json_next = saved_next p, json_snapshot = saved_snapshot p, has_path = True, disk = f\<rparr>)"

definition persisted_of :: "json_store \<Rightarrow> persisted" where
  "persisted_of st =
     \<lparr>version = PERSISTENCE_VERSION, saved_next = json_next st, saved_snapshot = json_snapshot st\<rparr>"

text \<open>
  \<open>persist_state\<close> writes a temporary file and renames it, so a failed write (\<open>ok\<close> is false) leaves the
  file as it was.
\<close>

definition persist_state :: "(persisted \<Rightarrow> string) \<Rightarrow> bool \<Rightarrow> json_store \<Rightarrow> json_store" where
  "persist_state enc ok st = (if has_path st \<and> ok then st\<lparr>disk := Some (enc (persisted_of st))\<rparr> else st)"

fun json_op :: "(persisted \<Rightarrow> string) \<Rightarrow> store_op \<times> bool \<Rightarrow> json_store \<Rightarrow> nat \<times> json_store" where
  "json_op enc (Append e now, ok) st =
     (let n = json_next st + 1
      in (n, persist_state enc ok (st\<lparr>json_next := n, json_snapshot := reduce_event (json_snapshot st) e n now\<rparr>)))"
| "json_op enc (DeleteSession chat, ok) st =
     (let (s', run_ids, turn_ids) = purge_session_from_snapshot chat (json_snapshot st);
          st1 = st\<lparr>json_snapshot := s'\<rparr>; n = length run_ids
      in (n, if 0 < n then persist_state enc ok st1 else st1))"
| "json_op enc (SetSessionTitle chat t, ok) st =
     (0, persist_state enc ok
           (st\<lparr>json_snapshot := (json_snapshot st)\<lparr>session_titles := im_insert chat t (session_titles (json_snapshot st))\<rparr>\<rparr>))"
| "json_op enc (DeleteSessionTitle chat, ok) st =
     (let st1 = st\<lparr>json_snapshot :=
            (json_snapshot st)\<lparr>session_titles := im_remove chat (session_titles (json_snapshot st))\<rparr>\<rparr>
      in (0, if map_of (session_titles (json_snapshot st)) chat \<noteq> None then persist_state enc ok st1 else st1))"


section \<open>Both stores implement the abstract one\<close>

fun spec_answer :: "store_op \<Rightarrow> nat \<times> snapshot \<Rightarrow> nat" where
  "spec_answer (Append e now) (n, s) = n + 1"
| "spec_answer (DeleteSession chat) (n, s) = length (keys_where (\<lambda>r. run_chat_id r = Some chat) (runs s))"
| "spec_answer _ _ = 0"

fun run_ops :: "('x \<Rightarrow> 's \<Rightarrow> nat \<times> 's) \<Rightarrow> 'x list \<Rightarrow> 's \<Rightarrow> nat list \<times> 's" where
  "run_ops op [] s = ([], s)"
| "run_ops op (x # xs) s = (let (n, s1) = op x s; (ns, s2) = run_ops op xs s1 in (n # ns, s2))"

definition spec_step :: "store_op \<Rightarrow> nat \<times> snapshot \<Rightarrow> nat \<times> (nat \<times> snapshot)" where
  "spec_step x s = (spec_answer x s, spec_op x s)"

locale state_store =
  fixes op :: "'x \<Rightarrow> 's \<Rightarrow> nat \<times> 's" and what :: "'x \<Rightarrow> store_op" and view :: "'s \<Rightarrow> nat \<times> snapshot"
  assumes answer_op: "fst (op x s) = spec_answer (what x) (view s)"
    and view_op: "view (snd (op x s)) = spec_op (what x) (view s)"
begin

lemma refines:
  "fst (run_ops op xs s) = fst (run_ops spec_step (map what xs) (view s)) \<and>
   view (snd (run_ops op xs s)) = snd (run_ops spec_step (map what xs) (view s))"
proof (induction xs arbitrary: s)
  case (Cons x xs)
  then show ?case
    by (simp add: spec_step_def answer_op view_op case_prod_beta flip: answer_op view_op)
qed simp

end

lemma run_spec: "snd (run_ops spec_step xs s) = fold spec_op xs s"
  by (induction xs arbitrary: s) (auto simp: spec_step_def case_prod_beta)

lemma purge_ids:
  "fst (snd (purge_session_from_snapshot chat s)) = keys_where (\<lambda>r. run_chat_id r = Some chat) (runs s)"
  by (simp add: purge_session_from_snapshot_def Let_def case_prod_beta)

lemma persist_state_same [simp]:
  "json_next (persist_state enc ok st) = json_next st" "json_snapshot (persist_state enc ok st) = json_snapshot st"
  "has_path (persist_state enc ok st) = has_path st"
  by (simp_all add: persist_state_def)

interpretation json: state_store "json_op enc" fst "\<lambda>st. (json_next st, json_snapshot st)" for enc
proof unfold_locales
  fix x s
  show "fst (json_op enc x s) = spec_answer (fst x) (json_next s, json_snapshot s)"
    by (cases "(enc, x, s)" rule: json_op.cases) (auto simp: Let_def purge_ids [symmetric] case_prod_beta)
  show "(json_next (snd (json_op enc x s)), json_snapshot (snd (json_op enc x s))) =
      spec_op (fst x) (json_next s, json_snapshot s)"
    by (cases "(enc, x, s)" rule: json_op.cases) (auto simp: Let_def case_prod_beta)
qed

interpretation sqlite: state_store "sqlite_op c" "\<lambda>x. x" "\<lambda>st. (sql_next st, sql_snapshot st)" for c
proof unfold_locales
  fix x s
  show "fst (sqlite_op c x s) = spec_answer x (sql_next s, sql_snapshot s)"
    by (cases x) (auto simp: Let_def sqlite_append_def sqlite_delete_session_def purge_ids [symmetric] case_prod_beta)
  show "(sql_next (snd (sqlite_op c x s)), sql_snapshot (snd (sqlite_op c x s))) =
      spec_op x (sql_next s, sql_snapshot s)"
    by (cases x) (auto simp: Let_def sqlite_append_def sqlite_delete_session_def sqlite_set_title_def
        sqlite_delete_title_def case_prod_beta)
qed

text \<open>
  C33. The two back ends are interchangeable: for every sequence of operations, whatever JSON writes fail and
  however records are encoded, the JSON store and the SQLite store give the answers of the abstract store
  and reach its state.
\<close>
theorem state_stores_refine_spec:
  "let js = run_ops (json_op enc) xs new_json_store;
       qs = run_ops (sqlite_op c) (map fst xs) \<lparr>tables = d, sql_next = 0, sql_snapshot = empty_snapshot\<rparr>
   in fst js = fst qs \<and>
      (json_next (snd js), json_snapshot (snd js)) = spec_run (map fst xs) \<and>
      (sql_next (snd qs), sql_snapshot (snd qs)) = spec_run (map fst xs)"
  using json.refines [of enc xs new_json_store]
    sqlite.refines [of c "map fst xs" "\<lparr>tables = d, sql_next = 0, sql_snapshot = empty_snapshot\<rparr>"]
  by (simp add: Let_def new_json_store_def run_spec spec_run_def)


section \<open>Restart from the file\<close>

text \<open>The operations that write the file: those that change the state.\<close>

fun json_writes :: "store_op \<Rightarrow> json_store \<Rightarrow> bool" where
  "json_writes (Append e now) st = True"
| "json_writes (DeleteSession chat) st = (keys_where (\<lambda>r. run_chat_id r = Some chat) (runs (json_snapshot st)) \<noteq> [])"
| "json_writes (SetSessionTitle chat t) st = True"
| "json_writes (DeleteSessionTitle chat) st = (map_of (session_titles (json_snapshot st)) chat \<noteq> None)"

lemma json_write_disk:
  "has_path st \<Longrightarrow> json_writes x st \<Longrightarrow>
     disk (snd (json_op enc (x, True) st)) = Some (enc (persisted_of (snd (json_op enc (x, True) st))))"
  by (cases x) (auto simp: Let_def persist_state_def persisted_of_def purge_ids [symmetric] case_prod_beta)

lemma json_has_path: "has_path (snd (run_ops (json_op enc) xs st)) = has_path st"
proof (induction xs arbitrary: st)
  case (Cons x xs)
  have "has_path (snd (json_op enc x st)) = has_path st"
    by (cases "(enc, x, st)" rule: json_op.cases) (auto simp: Let_def case_prod_beta)
  then show ?case
    using Cons.IH by (simp add: case_prod_beta)
qed simp

text \<open>
  C34. A JSON store is durable: after any history, failed writes included, an operation that changes the state
  and whose write succeeds leaves a file from which a restart restores the sequence counter and the whole
  snapshot (provided the file decodes to what was encoded).
\<close>
theorem json_restart:
  assumes "st = snd (run_ops (json_op enc) xs (with_persistence parse f))"
    and "json_writes x st" "st' = snd (json_op enc (x, True) st)"
    and "parse (enc (persisted_of st')) = Some (persisted_of st')"
  shows "json_next (with_persistence parse (disk st')) = json_next st' \<and>
         json_snapshot (with_persistence parse (disk st')) = json_snapshot st'"
proof -
  have "has_path st"
    unfolding assms(1) json_has_path by (simp add: with_persistence_def Let_def)
  then have "disk st' = Some (enc (persisted_of st'))"
    using json_write_disk assms(2,3) by blast
  then show ?thesis
    using assms(4) by (simp add: with_persistence_def load_persisted_state_def Let_def) (simp add: persisted_of_def)
qed

lemma json_restart_witness:
  "let st = with_persistence (\<lambda>_. None) None; st' = snd (json_op (\<lambda>_. ''x'') (SetSessionTitle ''c'' ''t'', True) st)
   in json_snapshot (with_persistence (\<lambda>_. Some (persisted_of st')) (disk st')) = json_snapshot st'"
proof -
  let ?st' = "snd (json_op (\<lambda>_. ''x'') (SetSessionTitle ''c'' ''t'', True) (with_persistence (\<lambda>_. None) None))"
  let ?parse = "\<lambda>s. if s = ''x'' then Some (persisted_of ?st') else None"
  have w: "with_persistence ?parse None = with_persistence (\<lambda>_. None) None"
    by (simp add: with_persistence_def load_persisted_state_def)
  have d: "disk ?st' = Some ''x''"
    by (simp add: persist_state_def with_persistence_def Let_def)
  have "json_snapshot (with_persistence ?parse (disk ?st')) = json_snapshot ?st'"
    using json_restart [of "with_persistence (\<lambda>_. None) None" "\<lambda>_. ''x''" "[]" ?parse None
        "SetSessionTitle ''c'' ''t''" ?st'] w by simp
  then show ?thesis
    unfolding Let_def d by (simp add: with_persistence_def load_persisted_state_def)
qed

text \<open>
  Deleting the session of a chat that has a title but no run is not durable in the JSON store: the title
  is gone from the snapshot, the file is not written, and a restart brings the title back.
\<close>
theorem json_deleted_title_returns:
  assumes "st = snd (json_op enc (SetSessionTitle chat t, True) (with_persistence parse None))"
    and "parse (enc (persisted_of st)) = Some (persisted_of st)"
    and "st' = snd (json_op enc (DeleteSession chat, True) st)"
  shows "map_of (session_titles (json_snapshot st')) chat = None \<and>
         map_of (session_titles (json_snapshot (with_persistence parse (disk st')))) chat = Some t"
proof -
  have st: "json_snapshot st = empty_snapshot\<lparr>session_titles := [(chat, t)]\<rparr>" "has_path st"
    "disk st = Some (enc (persisted_of st))"
    unfolding assms(1) by (simp_all add: with_persistence_def load_persisted_state_def Let_def persist_state_def
        empty_snapshot_def persisted_of_def)
  have "keys_where (\<lambda>r. run_chat_id r = Some chat) (runs (json_snapshot st)) = []"
    by (simp add: st keys_where_def empty_snapshot_def)
  then have "disk st' = disk st" "session_titles (json_snapshot st') = im_remove chat (session_titles (json_snapshot st))"
    unfolding assms(3) using purge_eq [of "json_snapshot st" chat]
    by (simp_all add: Let_def case_prod_beta purge_ids purge_session_from_snapshot_def)
  then show ?thesis
    using assms(2) st(3) by (simp add: with_persistence_def load_persisted_state_def)
      (simp add: persisted_of_def st im.get_del)
qed

lemma json_deleted_title_returns_witness:
  "let parse = (\<lambda>s. Some \<lparr>version = 1, saved_next = 0, saved_snapshot = empty_snapshot\<lparr>session_titles := [(''c'', ''t'')]\<rparr>\<rparr>);
       st = snd (json_op (\<lambda>_. ''x'') (SetSessionTitle ''c'' ''t'', True) (with_persistence parse None));
       st' = snd (json_op (\<lambda>_. ''x'') (DeleteSession ''c'', True) st)
   in map_of (session_titles (json_snapshot (with_persistence parse (disk st')))) ''c'' = Some ''t''"
proof -
  let ?parse = "\<lambda>s :: string. Some \<lparr>version = 1, saved_next = 0, saved_snapshot = empty_snapshot\<lparr>session_titles := [(''c'', ''t'')]\<rparr>\<rparr>"
  let ?st = "snd (json_op (\<lambda>_. ''x'') (SetSessionTitle ''c'' ''t'', True) (with_persistence ?parse None))"
  have "?parse ''x'' = Some (persisted_of ?st)"
    by (simp add: persisted_of_def with_persistence_def load_persisted_state_def PERSISTENCE_VERSION_def empty_snapshot_def Let_def)
  then show ?thesis
    unfolding Let_def using json_deleted_title_returns [OF refl _ refl, of ?parse "\<lambda>_. ''x''" "''c''" "''t''"] by simp
qed

end
