(* ===== verification/Sqlite_Restart.thy ===== *)
theory Sqlite_Restart
  imports Runtime_Store
begin

text \<open>
  What a restart restores from SQLite (\<open>SqliteStateStore\<close> of \<open>runtime/state_store.rs\<close>): the invariant
  \<open>mirrors\<close> relates the rows of each table to the snapshot in memory, every operation keeps it, and
  \<open>load_snapshot\<close> reads the tables back.
\<close>


section \<open>Rows\<close>

definition rows_of :: "db \<Rightarrow> string \<Rightarrow> rows" where
  "rows_of d t = unwrap_or [] (map_of d t)"

definition tables_ok :: "db \<Rightarrow> bool" where
  "tables_ok d \<longleftrightarrow> (\<forall>t \<in> set TABLES. map_of d t \<noteq> None)"

lemma table_there: "tables_ok d \<Longrightarrow> t \<in> set TABLES \<Longrightarrow> map_of d t = Some (rows_of d t)"
  by (auto simp: tables_ok_def rows_of_def)

lemma rows_insert: "rows_of (im_insert t rs d) t' = (if t' = t then rs else rows_of d t')"
  by (simp add: rows_of_def im.get_ins)

lemma tables_insert: "tables_ok d \<Longrightarrow> tables_ok (im_insert t rs d)"
  by (simp add: tables_ok_def im.get_ins)

lemma sql_ops:
  assumes "tables_ok d" "t \<in> set TABLES"
  shows "ignore d (upsert t i x d) = im_insert t (upsert_row i x (rows_of d t)) d"
    and "ignore d (append_row t i x d) =
      (if i \<in> set (im_keys (rows_of d t)) then d else im_insert t (rows_of d t @ [(i, x)]) d)"
    and "delete_ignore t i d = im_insert t (im_remove i (rows_of d t)) d"
    and "get_all t d = Inr (rows_of d t)" "get_all_ordered t d = Inr (rows_of d t)"
    and "get t i d = Inr (map_of (rows_of d t) i)"
  by (simp_all add: ignore_def upsert_def append_row_def delete_ignore_def delete_row_def get_all_def
      get_all_ordered_def get_def with_table_def table_there [OF assms])

lemma title_key_simps [simp]:
  "title_key chat \<noteq> ''next_sequence''" "''next_sequence'' \<noteq> title_key chat"
  "title_key chat \<noteq> CHR ''h'' # k" "CHR ''h'' # k \<noteq> title_key chat" "title_key a = title_key b \<longleftrightarrow> a = b"
  by (simp_all add: title_key_def)

declare persist_record.simps [simp del]

lemma TABLES_mem [simp]:
  "''runs'' \<in> set TABLES" "''turns'' \<in> set TABLES" "''tasks'' \<in> set TABLES" "''suspensions'' \<in> set TABLES"
  "''tool_invocations'' \<in> set TABLES" "''requirements'' \<in> set TABLES" "''transcript'' \<in> set TABLES"
  "''events'' \<in> set TABLES" "''meta'' \<in> set TABLES"
  by (simp_all add: TABLES_def)

lemma map_of_upsert: "map_of (upsert_row i x rs) = (map_of rs)(i \<mapsto> x)"
proof
  show "map_of (upsert_row i x rs) j = ((map_of rs)(i \<mapsto> x)) j" for j
    by (auto simp: upsert_row_def map_add_def im.get_del split: option.split)
qed

lemma im_wf_upsert: "im_wf rs \<Longrightarrow> im_wf (upsert_row i x rs)"
  by (auto simp: upsert_row_def im_wf_def delete_keys distinct_removeAll)

lemma im_wf_snoc: "k \<notin> set (im_keys m) \<Longrightarrow> im_wf (m @ [(k, v)]) \<longleftrightarrow> im_wf m"
  by (simp add: im_wf_def)

lemma map_of_im_filter:
  "im_wf m \<Longrightarrow> map_of (im_filter P m) i = Option.bind (map_of m i) (\<lambda>v. if P i v then Some v else None)"
proof (induction m)
  case (Cons kv m)
  obtain k v where kv: "kv = (k, v)"
    by (cases kv)
  have "im_wf m" "k \<notin> fst ` set m"
    using Cons.prems kv by (auto simp: im_wf_def)
  then have "map_of (im_filter P m) k = None"
    by (auto simp: map_of_eq_None_iff im_filter_def)
  then show ?case
    using Cons.IH \<open>im_wf m\<close> kv by auto
qed simp

lemma delete_all_rows:
  "tables_ok d \<Longrightarrow> t \<in> set TABLES \<Longrightarrow>
     rows_of (fold (delete_ignore t) ids d) t' =
       (if t' = t then im_filter (\<lambda>i x. i \<notin> set ids) (rows_of d t) else rows_of d t') \<and>
     tables_ok (fold (delete_ignore t) ids d)"
proof (induction ids arbitrary: d)
  case Nil
  then show ?case
    by (simp add: im_filter_def case_prod_unfold)
next
  case (Cons i ids)
  have "delete_ignore t i d = im_insert t (im_remove i (rows_of d t)) d"
    using Cons.prems by (rule sql_ops(3))
  then show ?case
    using Cons.IH [of "delete_ignore t i d"] Cons.prems tables_insert
    by (simp add: rows_insert remove_filter im_filter_filter)
qed

lemma delete_owned_fold:
  assumes "tables_ok d" "t \<in> set TABLES"
  shows "fold (\<lambda>(i, x) d. case owner x of None \<Rightarrow> d | Some r \<Rightarrow> if r \<in> S then delete_ignore t i d else d) rs d =
    fold (delete_ignore t) (keys_where (\<lambda>x. \<exists>r. owner x = Some r \<and> r \<in> S) rs) d"
  by (induction rs arbitrary: d) (auto simp: keys_where_def split: option.split)

lemma delete_rows_of_rows:
  assumes "tables_ok d" "t \<in> set TABLES" "fetch t d = Inr (rows_of d t)" "im_wf (rows_of d t)"
  shows "rows_of (delete_rows_of c ids fetch t d) t' =
      (if t' = t then im_filter (\<lambda>i x. \<not> (\<exists>r. row_run_id c x = Some r \<and> r \<in> set ids)) (rows_of d t) else rows_of d t') \<and>
    tables_ok (delete_rows_of c ids fetch t d)"
proof -
  let ?ks = "keys_where (\<lambda>x. \<exists>r. row_run_id c x = Some r \<and> r \<in> set ids) (rows_of d t)"
  have "delete_rows_of c ids fetch t d = fold (delete_ignore t) ?ks d"
    by (simp add: delete_rows_of_def assms(3) delete_owned_fold [OF assms(1,2)])
  moreover have "im_filter (\<lambda>i x. i \<notin> set ?ks) (rows_of d t) =
      im_filter (\<lambda>i x. \<not> (\<exists>r. row_run_id c x = Some r \<and> r \<in> set ids)) (rows_of d t)"
    by (rule im_filter_cong) (simp add: keys_where_mem [OF assms(4)])
  ultimately show ?thesis
    using delete_all_rows [OF assms(1,2), of ?ks t'] by simp
qed


section \<open>The sequence counter as text\<close>

lemma digit_char: "k < 10 \<Longrightarrow> digit (char_of (48 + k)) = Some k \<and> char_of (48 + k :: nat) \<noteq> CHR ''+''"
proof -
  assume k: "k < 10"
  then have c: "of_char (char_of (48 + k :: nat)) = 48 + k"
    by (simp add: of_char_of)
  then have "(of_char (char_of (48 + k :: nat)) :: nat) \<noteq> of_char CHR ''+''"
    using k by simp
  then have "char_of (48 + k :: nat) \<noteq> CHR ''+''"
    by metis
  then show ?thesis
    using c k unfolding digit_def by simp
qed

lemma parse_dec: "n \<le> u64_max \<Longrightarrow> parse_digits 0 (dec n @ cs) = parse_digits n cs"
proof (induction n arbitrary: cs rule: dec.induct)
  case (1 n)
  show ?case
  proof (cases "n < 10")
    case True
    then show ?thesis
      using 1 digit_char [of n] by (simp add: dec.simps [of n])
  next
    case False
    have m: "n div 10 \<le> u64_max" "10 * (n div 10) + n mod 10 = n"
      using 1 by (simp_all add: div_le_dividend order_trans)
    have "parse_digits 0 (dec n @ cs) = parse_digits 0 (dec (n div 10) @ char_of (48 + n mod 10) # cs)"
      using False by (simp add: dec.simps [of n])
    also have "\<dots> = parse_digits (n div 10) (char_of (48 + n mod 10) # cs)"
      using False m(1) by (rule 1(1))
    also have "\<dots> = parse_digits n cs"
      using digit_char [of "n mod 10"] m(2) 1(2) by simp
    finally show ?thesis .
  qed
qed

lemma dec_start: "\<exists>c cs. dec n = c # cs \<and> c \<noteq> CHR ''+''"
proof (induction n rule: dec.induct)
  case (1 n)
  then show ?case
    using digit_char [of n] by (cases "n < 10") (auto simp: dec.simps [of n])
qed

lemma parse_u64_dec: "n \<le> u64_max \<Longrightarrow> parse_u64 (dec n) = Some n"
proof -
  assume "n \<le> u64_max"
  then have "parse_digits 0 (dec n) = Some n"
    using parse_dec [of n "[]"] by simp
  then show ?thesis
    using dec_start [of n] by (auto simp: parse_u64_def Let_def)
qed


section \<open>Rows and records\<close>

definition mirrored ::
  "(string \<Rightarrow> 'r option) \<Rightarrow> (string \<Rightarrow> 'r \<Rightarrow> bool) \<Rightarrow> rows \<Rightarrow> (string \<Rightarrow> 'r option) \<Rightarrow> bool" where
  "mirrored parse tie rs m \<longleftrightarrow>
     im_wf rs \<and> (\<forall>i. m i = Option.bind (map_of rs i) parse) \<and>
     (\<forall>(i, x) \<in> set rs. \<exists>r. parse x = Some r \<and> tie x r)"

lemma mirrored_upsert:
  "mirrored parse tie rs m \<Longrightarrow> parse x = Some r \<Longrightarrow> tie x r \<Longrightarrow> m' = m(i \<mapsto> r) \<Longrightarrow>
     mirrored parse tie (upsert_row i x rs) m'"
  by (auto simp: mirrored_def im_wf_upsert map_of_upsert) (auto simp: upsert_row_def remove_filter im_filter_def)

lemma mirrored_row: "mirrored parse tie rs m \<Longrightarrow> map_of rs i = Some x \<Longrightarrow> \<exists>r. parse x = Some r \<and> m i = Some r \<and> tie x r"
  by (fastforce simp: mirrored_def dest: map_of_SomeD)

lemma mirrored_filter:
  assumes m: "mirrored parse tie rs (map_of tbl)" and wf: "im_wf tbl"
    and same: "\<And>i x r. map_of rs i = Some x \<Longrightarrow> parse x = Some r \<Longrightarrow> tie x r \<Longrightarrow> map_of tbl i = Some r \<Longrightarrow> P i x \<longleftrightarrow> Q i r"
  shows "mirrored parse tie (im_filter P rs) (map_of (im_filter Q tbl))"
proof -
  have rs: "im_wf rs"
    using m by (simp add: mirrored_def)
  have "map_of (im_filter Q tbl) i = Option.bind (map_of (im_filter P rs) i) parse" for i
  proof (cases "map_of rs i")
    case None
    then show ?thesis
      using m by (simp add: map_of_im_filter [OF rs] map_of_im_filter [OF wf] mirrored_def)
  next
    case (Some x)
    then show ?thesis
      using mirrored_row [OF m Some] same [OF Some] by (auto simp: map_of_im_filter [OF rs] map_of_im_filter [OF wf])
  qed
  moreover have "\<forall>(i, x) \<in> set (im_filter P rs). \<exists>r. parse x = Some r \<and> tie x r"
    using m by (auto simp: mirrored_def im_filter_def)
  ultimately show ?thesis
    by (simp add: mirrored_def im_wf_filter rs)
qed

definition run_core :: "run_record \<Rightarrow> run_record" where
  "run_core r = r\<lparr>current_turn_id := None, run_updated_at := 0\<rparr>"

definition message_row :: "codec \<Rightarrow> string \<times> string \<Rightarrow> message_record \<Rightarrow> bool" where
  "message_row c row m \<longleftrightarrow>
     fst row = msg_record_id m \<and> message_parse c (snd row) = Some m \<and> row_run_id c (snd row) = Some (msg_run_id m)"

abbreviation owned :: "codec \<Rightarrow> ('r \<Rightarrow> string) \<Rightarrow> string \<Rightarrow> 'r \<Rightarrow> bool" where
  "owned c f \<equiv> \<lambda>x r. row_run_id c x = Some (f r)"

definition mirrors :: "codec \<Rightarrow> sqlite_store \<Rightarrow> bool" where
  "mirrors c st \<longleftrightarrow> tables_ok (tables st) \<and> snapshot_wf (sql_snapshot st) \<and>
     (let d = rows_of (tables st); s = sql_snapshot st
      in mirrored (\<lambda>x. map_option run_core (run_parse c x)) (\<lambda>_ _. True) (d ''runs'')
           (\<lambda>i. map_option run_core (map_of (runs s) i)) \<and>
         mirrored (turn_parse c) (\<lambda>_ _. True) (d ''turns'') (map_of (turns s)) \<and>
         mirrored (task_parse c) (owned c task_run_id) (d ''tasks'') (map_of (tasks s)) \<and>
         mirrored (suspension_parse c) (owned c susp_run_id) (d ''suspensions'') (map_of (suspensions s)) \<and>
         mirrored (invocation_parse c) (owned c inv_run_id) (d ''tool_invocations'') (map_of (tool_invocations s)) \<and>
         mirrored (requirement_parse c) (owned c req_run_id) (d ''requirements'') (map_of (requirements s)) \<and>
         list_all2 (message_row c) (d ''transcript'') (transcript s) \<and> im_wf (d ''transcript'') \<and> im_wf (d ''meta'') \<and>
         map_of (d ''meta'') ''next_sequence'' = (if sql_next st = 0 then None else Some (dec (sql_next st))) \<and>
         (\<forall>chat. map_of (d ''meta'') (title_key chat) = map_of (session_titles s) chat))"

text \<open>What is asked of the codec for one event: its record decodes to itself and names its run.\<close>

fun codec_ok :: "codec \<Rightarrow> domain_event \<Rightarrow> bool" where
  "codec_ok c (RunUpserted r) \<longleftrightarrow> run_parse c (run_text c r) = Some r"
| "codec_ok c (TurnUpserted t) \<longleftrightarrow> turn_parse c (turn_text c t) = Some t"
| "codec_ok c (TaskUpserted t) \<longleftrightarrow>
     task_parse c (task_text c t) = Some t \<and> row_run_id c (task_text c t) = Some (task_run_id t)"
| "codec_ok c (SuspensionUpserted p) \<longleftrightarrow>
     suspension_parse c (suspension_text c p) = Some p \<and> row_run_id c (suspension_text c p) = Some (susp_run_id p)"
| "codec_ok c (ToolInvocationUpserted i) \<longleftrightarrow>
     invocation_parse c (invocation_text c i) = Some i \<and> row_run_id c (invocation_text c i) = Some (inv_run_id i)"
| "codec_ok c (RequirementUpserted r) \<longleftrightarrow>
     requirement_parse c (requirement_text c r) = Some r \<and> row_run_id c (requirement_text c r) = Some (req_run_id r)"
| "codec_ok c (MessageAppended m) \<longleftrightarrow>
     message_parse c (message_text c m) = Some m \<and> row_run_id c (message_text c m) = Some (msg_run_id m)"
| "codec_ok c (ProjectionHintRecorded r scope k v) \<longleftrightarrow> True"

lemma record_rows:
  assumes "tables_ok d"
  shows "tables_ok (persist_record c e d)"
    and "t \<noteq> ''transcript'' \<Longrightarrow> rows_of (persist_record c e d) t =
      (case e of
         RunUpserted r \<Rightarrow> if t = ''runs'' then upsert_row (run_id r) (run_text c r) (rows_of d t) else rows_of d t
       | TurnUpserted u \<Rightarrow> if t = ''turns'' then upsert_row (turn_id u) (turn_text c u) (rows_of d t) else rows_of d t
       | TaskUpserted u \<Rightarrow> if t = ''tasks'' then upsert_row (task_id u) (task_text c u) (rows_of d t) else rows_of d t
       | SuspensionUpserted p \<Rightarrow>
           if t = ''suspensions'' then upsert_row (suspension_id p) (suspension_text c p) (rows_of d t) else rows_of d t
       | ToolInvocationUpserted i \<Rightarrow>
           if t = ''tool_invocations'' then upsert_row (invocation_id i) (invocation_text c i) (rows_of d t) else rows_of d t
       | RequirementUpserted r \<Rightarrow>
           if t = ''requirements'' then upsert_row (requirement_id r) (requirement_text c r) (rows_of d t) else rows_of d t
       | MessageAppended m \<Rightarrow> rows_of d t
       | ProjectionHintRecorded r scope k v \<Rightarrow>
           if t = ''meta'' then upsert_row (''hint:'' @ r @ ''.'' @ scope @ ''.'' @ k) (hint_text c v) (rows_of d t)
           else rows_of d t)"
    and "rows_of (persist_record c e d) ''transcript'' =
      (case e of
         MessageAppended m \<Rightarrow>
           if msg_record_id m \<in> set (im_keys (rows_of d ''transcript'')) then rows_of d ''transcript''
           else rows_of d ''transcript'' @ [(msg_record_id m, message_text c m)]
       | _ \<Rightarrow> rows_of d ''transcript'')"
  using assms by (cases e; auto simp: persist_record.simps sql_ops rows_insert tables_insert)+

lemma event_rows:
  assumes "tables_ok d"
  shows "tables_ok (persist_event c e n d)"
    and "t \<noteq> ''events'' \<Longrightarrow> rows_of (persist_event c e n d) t =
      (if t = ''meta'' then upsert_row ''next_sequence'' (dec n) (rows_of (persist_record c e d) t)
       else rows_of (persist_record c e d) t)"
  using record_rows(1) [OF assms, of c e]
  by (auto simp: persist_event_def Let_def sql_ops rows_insert tables_insert)


section \<open>Every operation keeps the mirror\<close>

lemma reduce_event_fields [simp]:
  "runs (reduce_event s e n now) = runs (apply_event e s)" "turns (reduce_event s e n now) = turns (apply_event e s)"
  "tasks (reduce_event s e n now) = tasks (apply_event e s)"
  "suspensions (reduce_event s e n now) = suspensions (apply_event e s)"
  "tool_invocations (reduce_event s e n now) = tool_invocations (apply_event e s)"
  "requirements (reduce_event s e n now) = requirements (apply_event e s)"
  "transcript (reduce_event s e n now) = transcript (apply_event e s)"
  "session_titles (reduce_event s e n now) = session_titles (apply_event e s)"
  by (simp_all add: reduce_event_def Let_def)

lemma core_modify:
  "map_option run_core (map_of (im_modify k (\<lambda>r. r\<lparr>current_turn_id := t, run_updated_at := u\<rparr>) m) i) =
   map_option run_core (map_of m i)"
  by (cases "map_of m i") (auto simp: im_get_modify run_core_def)

lemma core_insert:
  "(\<lambda>i. map_option run_core (map_of (im_insert k r m) i)) =
   (\<lambda>i. map_option run_core (map_of m i))(k \<mapsto> run_core r)"
  by (auto simp: im.get_ins)

lemma mirrors_append:
  assumes m: "mirrors c st" and ok: "codec_ok c e"
    and fresh: "\<And>x. e = MessageAppended x \<Longrightarrow> msg_record_id x \<notin> msg_record_id ` set (transcript (sql_snapshot st))"
  shows "mirrors c (snd (sqlite_append c e now st))"
proof -
  have t: "tables_ok (tables st)" and wf: "snapshot_wf (sql_snapshot st)"
    using m by (simp_all add: mirrors_def)
  have keys: "im_keys (rows_of (tables st) ''transcript'') = map msg_record_id (transcript (sql_snapshot st))"
    using m by (auto simp: mirrors_def Let_def message_row_def list_all2_conv_all_nth intro: nth_equalityI)
  note rows = event_rows [OF t] record_rows [OF t]
  note facts = m [unfolded mirrors_def Let_def]
  show ?thesis
    unfolding mirrors_def sqlite_append_def Let_def
    using facts ok fresh
    by (cases e)
      (auto simp: rows reduce_event_wf map_of_upsert im_wf_upsert core_insert core_modify keys update_conv'
        message_row_def list_all2_appendI im_wf_snoc intro!: mirrored_upsert ext)
qed

lemma purge_turn_ids:
  "snd (snd (purge_session_from_snapshot chat s)) =
     concat (map (\<lambda>r. keys_where (\<lambda>t. turn_run_id t = r) (turns s)) (keys_where (\<lambda>r. run_chat_id r = Some chat) (runs s)))"
  by (simp add: purge_session_from_snapshot_def purge_runs_fold Let_def case_prod_beta)

lemma list_all2_filter:
  "list_all2 P xs ys \<Longrightarrow> (\<And>x y. P x y \<Longrightarrow> f x = g y) \<Longrightarrow> list_all2 P (filter f xs) (filter g ys)"
  by (induction rule: list_all2_induct) auto

lemma session_rows:
  assumes t: "tables_ok (tables st)"
    and wf: "\<And>t. t \<in> {''tasks'', ''suspensions'', ''tool_invocations'', ''requirements'', ''transcript''} \<Longrightarrow> im_wf (rows_of (tables st) t)"
    and p: "purge_session_from_snapshot chat (sql_snapshot st) = (s', run_ids, turn_ids)"
  shows "let d = tables (snd (sqlite_delete_session c chat st)); old = rows_of (tables st);
             kept = im_filter (\<lambda>i x. \<not> (\<exists>r. row_run_id c x = Some r \<and> r \<in> set run_ids))
    in tables_ok d \<and> rows_of d ''runs'' = im_filter (\<lambda>i x. i \<notin> set run_ids) (old ''runs'') \<and>
       rows_of d ''turns'' = im_filter (\<lambda>i x. i \<notin> set turn_ids) (old ''turns'') \<and>
       rows_of d ''tasks'' = kept (old ''tasks'') \<and> rows_of d ''suspensions'' = kept (old ''suspensions'') \<and>
       rows_of d ''tool_invocations'' = kept (old ''tool_invocations'') \<and>
       rows_of d ''requirements'' = kept (old ''requirements'') \<and> rows_of d ''transcript'' = kept (old ''transcript'') \<and>
       rows_of d ''meta'' = im_remove (title_key chat) (old ''meta'')"
proof -
  define d1 where "d1 = fold (delete_ignore ''runs'') run_ids (tables st)"
  define d2 where "d2 = fold (delete_ignore ''turns'') turn_ids d1"
  define d3 where "d3 = delete_rows_of c run_ids get_all ''tasks'' d2"
  define d4 where "d4 = delete_rows_of c run_ids get_all ''suspensions'' d3"
  define d5 where "d5 = delete_rows_of c run_ids get_all ''tool_invocations'' d4"
  define d6 where "d6 = delete_rows_of c run_ids get_all ''requirements'' d5"
  define d7 where "d7 = delete_rows_of c run_ids get_all_ordered ''transcript'' d6"
  have d: "tables (snd (sqlite_delete_session c chat st)) = delete_ignore ''meta'' (title_key chat) d7"
    by (simp add: sqlite_delete_session_def p d1_def d2_def d3_def d4_def d5_def d6_def d7_def Let_def)
  have t1: "tables_ok d1" and r1: "rows_of d1 u = (if u = ''runs'' then im_filter (\<lambda>i x. i \<notin> set run_ids) (rows_of (tables st) ''runs'') else rows_of (tables st) u)" for u
    using delete_all_rows [OF t, of "''runs''" run_ids] by (simp_all add: d1_def)
  have t2: "tables_ok d2" and r2: "rows_of d2 u = (if u = ''turns'' then im_filter (\<lambda>i x. i \<notin> set turn_ids) (rows_of d1 ''turns'') else rows_of d1 u)" for u
    using delete_all_rows [OF t1, of "''turns''" turn_ids] by (simp_all add: d2_def)
  note step = delete_rows_of_rows [of _ _ get_all c run_ids] delete_rows_of_rows [of _ _ get_all_ordered c run_ids]
  have t3: "tables_ok d3" and r3: "rows_of d3 u = (if u = ''tasks'' then im_filter (\<lambda>i x. \<not> (\<exists>r. row_run_id c x = Some r \<and> r \<in> set run_ids)) (rows_of d2 u) else rows_of d2 u)" for u
    using step(1) [OF t2, of "''tasks''"] wf by (simp_all add: d3_def sql_ops [OF t2] r1 r2)
  have t4: "tables_ok d4" and r4: "rows_of d4 u = (if u = ''suspensions'' then im_filter (\<lambda>i x. \<not> (\<exists>r. row_run_id c x = Some r \<and> r \<in> set run_ids)) (rows_of d3 u) else rows_of d3 u)" for u
    using step(1) [OF t3, of "''suspensions''"] wf by (simp_all add: d4_def sql_ops [OF t3] r1 r2 r3)
  have t5: "tables_ok d5" and r5: "rows_of d5 u = (if u = ''tool_invocations'' then im_filter (\<lambda>i x. \<not> (\<exists>r. row_run_id c x = Some r \<and> r \<in> set run_ids)) (rows_of d4 u) else rows_of d4 u)" for u
    using step(1) [OF t4, of "''tool_invocations''"] wf by (simp_all add: d5_def sql_ops [OF t4] r1 r2 r3 r4)
  have t6: "tables_ok d6" and r6: "rows_of d6 u = (if u = ''requirements'' then im_filter (\<lambda>i x. \<not> (\<exists>r. row_run_id c x = Some r \<and> r \<in> set run_ids)) (rows_of d5 u) else rows_of d5 u)" for u
    using step(1) [OF t5, of "''requirements''"] wf by (simp_all add: d6_def sql_ops [OF t5] r1 r2 r3 r4 r5)
  have t7: "tables_ok d7" and r7: "rows_of d7 u = (if u = ''transcript'' then im_filter (\<lambda>i x. \<not> (\<exists>r. row_run_id c x = Some r \<and> r \<in> set run_ids)) (rows_of d6 u) else rows_of d6 u)" for u
    using step(2) [OF t6, of "''transcript''"] wf by (simp_all add: d7_def sql_ops [OF t6] r1 r2 r3 r4 r5 r6)
  show ?thesis
    unfolding d Let_def sql_ops(3) [OF t7 TABLES_mem(9)]
    by (simp add: rows_insert tables_insert [OF t7] r7 r6 r5 r4 r3 r2 r1)
qed


lemma mirrored_wf: "mirrored parse tie rs m \<Longrightarrow> im_wf rs"
  by (simp add: mirrored_def)

lemma map_core: "(\<lambda>i. map_option run_core (map_of m i)) = map_of (map (\<lambda>(k, r). (k, run_core r)) m)"
  by (rule ext) (simp add: map_of_map)

lemma filter_core:
  "im_filter (\<lambda>i r. P i) (map (\<lambda>(k, r). (k, f r)) m) = map (\<lambda>(k, r). (k, f r)) (im_filter (\<lambda>i r. P i) m)"
  by (induction m) auto

lemma mirrors_delete_session:
  assumes m: "mirrors c st"
  shows "mirrors c (snd (sqlite_delete_session c chat st))"
proof -
  obtain s' run_ids turn_ids where p: "purge_session_from_snapshot chat (sql_snapshot st) = (s', run_ids, turn_ids)"
    by (rule prod_cases3)
  let ?s = "sql_snapshot st" and ?d = "tables (snd (sqlite_delete_session c chat st))"
  note facts = m [unfolded mirrors_def Let_def]
  have wf: "snapshot_wf ?s" and t: "tables_ok (tables st)"
    using facts by simp_all
  then have tables_wf: "im_wf (runs ?s)" "im_wf (turns ?s)" "im_wf (tasks ?s)" "im_wf (suspensions ?s)"
    "im_wf (tool_invocations ?s)" "im_wf (requirements ?s)"
    by (auto simp: snapshot_wf_def dest: table_wf)
  have s': "s' = purged chat run_ids ?s" and run_ids: "run_ids = keys_where (\<lambda>r. run_chat_id r = Some chat) (runs ?s)"
    using purge_eq [OF wf, of chat] p by (simp_all add: Let_def)
  have turn_ids: "i \<in> set turn_ids \<longleftrightarrow> (\<exists>u. map_of (turns ?s) i = Some u \<and> turn_run_id u \<in> set run_ids)" for i
    using purge_turn_ids [of chat ?s] p by (auto simp: run_ids keys_where_get [OF tables_wf(2)])
  have rows: "tables_ok ?d \<and> rows_of ?d ''runs'' = im_filter (\<lambda>i x. i \<notin> set run_ids) (rows_of (tables st) ''runs'') \<and>
       rows_of ?d ''turns'' = im_filter (\<lambda>i x. i \<notin> set turn_ids) (rows_of (tables st) ''turns'') \<and>
       (\<forall>t \<in> {''tasks'', ''suspensions'', ''tool_invocations'', ''requirements'', ''transcript''}.
         rows_of ?d t = im_filter (\<lambda>i x. \<not> (\<exists>r. row_run_id c x = Some r \<and> r \<in> set run_ids)) (rows_of (tables st) t)) \<and>
       rows_of ?d ''meta'' = im_remove (title_key chat) (rows_of (tables st) ''meta'')"
    using session_rows [OF t _ p, of c] facts by (auto simp: Let_def dest: mirrored_wf)
  have snap: "sql_snapshot (snd (sqlite_delete_session c chat st)) = s'" "sql_next (snd (sqlite_delete_session c chat st)) = sql_next st"
    by (simp_all add: sqlite_delete_session_def p Let_def)
  have runs_map: "(\<lambda>i. map_option run_core (map_of (runs ?s) i)) = map_of (map (\<lambda>(k, r). (k, run_core r)) (runs ?s))"
    "(\<lambda>i. map_option run_core (map_of (runs s') i)) =
       map_of (im_filter (\<lambda>i r. i \<notin> set run_ids) (map (\<lambda>(k, r). (k, run_core r)) (runs ?s)))"
  proof -
    show "(\<lambda>i. map_option run_core (map_of (runs ?s) i)) = map_of (map (\<lambda>(k, r). (k, run_core r)) (runs ?s))"
      by (rule map_core)
    have "runs s' = im_filter (\<lambda>i r. i \<notin> set run_ids) (runs ?s)"
      unfolding s' purged_def by (simp, rule im_filter_cong) (simp add: run_ids keys_where_mem [OF tables_wf(1)])
    then show "(\<lambda>i. map_option run_core (map_of (runs s') i)) =
       map_of (im_filter (\<lambda>i r. i \<notin> set run_ids) (map (\<lambda>(k, r). (k, run_core r)) (runs ?s)))"
      by (simp only: map_core filter_core)
  qed
  have core_wf: "im_wf (map (\<lambda>(k, r). (k, run_core r)) (runs ?s))"
    using tables_wf(1) by (simp add: im_wf_def comp_def case_prod_unfold)
  have "mirrored (\<lambda>x. map_option run_core (run_parse c x)) (\<lambda>_ _. True) (rows_of ?d ''runs'')
      (\<lambda>i. map_option run_core (map_of (runs s') i))"
    unfolding runs_map using rows facts runs_map(1) by (auto intro!: mirrored_filter core_wf)
  moreover have "mirrored (turn_parse c) (\<lambda>_ _. True) (rows_of ?d ''turns'') (map_of (turns s'))"
    using rows facts by (auto simp: s' purged_def turn_ids intro!: mirrored_filter tables_wf)
  moreover have "mirrored (task_parse c) (owned c task_run_id) (rows_of ?d ''tasks'') (map_of (tasks s'))"
    "mirrored (suspension_parse c) (owned c susp_run_id) (rows_of ?d ''suspensions'') (map_of (suspensions s'))"
    "mirrored (invocation_parse c) (owned c inv_run_id) (rows_of ?d ''tool_invocations'') (map_of (tool_invocations s'))"
    "mirrored (requirement_parse c) (owned c req_run_id) (rows_of ?d ''requirements'') (map_of (requirements s'))"
    using rows facts by (auto simp: s' purged_def intro!: mirrored_filter tables_wf)
  moreover have "list_all2 (message_row c) (rows_of ?d ''transcript'') (transcript s')"
    using rows facts by (auto simp: s' purged_def im_filter_def message_row_def intro!: list_all2_filter)
  moreover have "im_wf (rows_of ?d ''transcript'')" "im_wf (rows_of ?d ''meta'')"
    using rows facts by (simp_all add: im_wf_filter im_wf_remove)
  moreover have "map_of (rows_of ?d ''meta'') ''next_sequence'' = map_of (rows_of (tables st) ''meta'') ''next_sequence''"
    "map_of (rows_of ?d ''meta'') (title_key x) = map_of (session_titles s') x" for x
    using rows facts by (auto simp: im.get_del s' purged_def)
  ultimately show ?thesis
    using rows facts purged_wf [OF wf] by (auto simp: mirrors_def Let_def snap s')
qed

lemma mirrors_titles:
  assumes "mirrors c st"
  shows "mirrors c (sqlite_set_title chat x st)" "mirrors c (sqlite_delete_title chat st)"
proof -
  note facts = assms [unfolded mirrors_def Let_def]
  have t: "tables_ok (tables st)"
    using facts by simp
  show "mirrors c (sqlite_set_title chat x st)"
    unfolding mirrors_def Let_def sqlite_set_title_def sql_ops(1) [OF t TABLES_mem(9)]
    using facts by (auto simp: rows_insert tables_insert map_of_upsert im_wf_upsert im.get_ins snapshot_wf_def)
  show "mirrors c (sqlite_delete_title chat st)"
    unfolding mirrors_def Let_def sqlite_delete_title_def sql_ops(3) [OF t TABLES_mem(9)]
    using facts by (auto simp: rows_insert tables_insert im.get_del im_wf_remove snapshot_wf_def)
qed


section \<open>Reading the tables back\<close>

lemma load_fold_get:
  assumes add: "\<And>i v s. map_of (f (add i v s)) = (map_of (f s))(i \<mapsto> v)" and wf: "im_wf rs"
  shows "map_of (f (fold (load_step parse add) rs s)) = map_of (f s) ++ (\<lambda>i. Option.bind (map_of rs i) parse)"
proof -
  let ?wr = "\<lambda>row. map_option (Pair (fst row)) (parse (snd row))"
  have "table_writes (\<lambda>s. map_of (f s)) (load_step parse add) ?wr"
    by unfold_locales (auto simp: load_step_def add split: option.split)
  then have "map_of (f (fold (load_step parse add) rs s)) = map_of (f s) ++ map_of (rev (List.map_filter ?wr rs))"
    by (rule table_writes.run_tbl)
  moreover have "map_of (rev (List.map_filter ?wr rs)) i = Option.bind (map_of rs i) parse" for i
    using wf
  proof (induction rs)
    case (Cons row rs)
    have none: "map_of rs (fst row) = None"
      using Cons.prems by (simp add: im_wf_def map_of_eq_None_iff)
    have "im_wf rs"
      using Cons.prems by (simp add: im_wf_def)
    then show ?case
      using Cons.IH none by (cases "parse (snd row)") (auto simp: List.map_filter_simps map_add_def split: option.split)
  qed (simp add: List.map_filter_simps)
  ultimately show ?thesis
    by presburger
qed

lemma load_fold_frame: "(\<And>i v s. f (add i v s) = f s) \<Longrightarrow> f (fold (load_step parse add) rs s) = f s"
  by (induction rs arbitrary: s) (auto simp: load_step_def split: option.split)

lemmas load_defs = load_run_def load_turn_def load_task_def load_suspension_def load_invocation_def
  load_requirement_def load_message_def load_title_def

lemmas load_frames = load_fold_frame [where f = runs] load_fold_frame [where f = turns]
  load_fold_frame [where f = tasks] load_fold_frame [where f = suspensions]
  load_fold_frame [where f = tool_invocations] load_fold_frame [where f = requirements]
  load_fold_frame [where f = transcript] load_fold_frame [where f = session_titles]

lemmas load_gets = load_fold_get [where f = runs and add = load_run]
  load_fold_get [where f = turns and add = load_turn] load_fold_get [where f = tasks and add = load_task]
  load_fold_get [where f = suspensions and add = load_suspension]
  load_fold_get [where f = tool_invocations and add = load_invocation]
  load_fold_get [where f = requirements and add = load_requirement]

lemma load_fold_transcript:
  "list_all2 (message_row c) rs ms \<Longrightarrow>
     transcript (fold (load_step (message_parse c) load_message) rs s) = transcript s @ ms"
  by (induction rs ms arbitrary: s rule: list_all2_induct)
    (auto simp: load_step_def message_row_def load_message_def)

lemma load_title_get:
  "map_of (session_titles (load_title i x s)) chat = (if i = title_key chat then Some x else map_of (session_titles s) chat)"
proof (cases "strip_prefix ''session_title:'' i")
  case None
  then have "i \<noteq> title_key chat"
    using strip_prefix_append [of "''session_title:''" chat] unfolding title_key_def by force
  then show ?thesis
    using None by (simp add: load_title_def)
next
  case (Some k)
  then have "i = title_key k"
    unfolding title_key_def by (rule strip_prefix_Some)
  then show ?thesis
    using Some by (simp add: load_title_def im.get_ins)
qed

lemma load_fold_titles:
  "im_wf rs \<Longrightarrow> map_of (session_titles (fold (load_step Some load_title) rs s)) chat =
     or_else (map_of rs (title_key chat)) (map_of (session_titles s) chat)"
proof (induction rs arbitrary: s)
  case (Cons row rs)
  have none: "map_of rs (fst row) = None" and wf: "im_wf rs"
    using Cons.prems by (simp_all add: im_wf_def map_of_eq_None_iff)
  have "map_of (session_titles (fold (load_step Some load_title) rs (load_step Some load_title row s))) chat =
      or_else (map_of rs (title_key chat)) (map_of (session_titles (load_step Some load_title row s)) chat)"
    by (rule Cons.IH [OF wf])
  moreover have "load_step Some load_title row s = load_title (fst row) (snd row) s"
    by (simp add: load_step_def)
  ultimately show ?case
    using none by (cases row) (auto simp: load_title_get)
qed simp

lemma load_snapshot_rows:
  assumes t: "tables_ok d"
  shows "load_snapshot c d =
    Inr (fold (load_step Some load_title) (rows_of d ''meta'')
         (fold (load_step (message_parse c) load_message) (rows_of d ''transcript'')
          (fold (load_step (requirement_parse c) load_requirement) (rows_of d ''requirements'')
           (fold (load_step (invocation_parse c) load_invocation) (rows_of d ''tool_invocations'')
            (fold (load_step (suspension_parse c) load_suspension) (rows_of d ''suspensions'')
             (fold (load_step (task_parse c) load_task) (rows_of d ''tasks'')
              (fold (load_step (turn_parse c) load_turn) (rows_of d ''turns'')
               (fold (load_step (run_parse c) load_run) (rows_of d ''runs'') empty_snapshot))))))))"
  by (simp add: load_snapshot_def load_rows_def with_table_def table_there [OF t])

definition same_tables :: "snapshot \<Rightarrow> snapshot \<Rightarrow> bool" where
  "same_tables s s' \<longleftrightarrow>
     (\<forall>i. map_option run_core (map_of (runs s) i) = map_option run_core (map_of (runs s') i)) \<and>
     map_of (turns s) = map_of (turns s') \<and> map_of (tasks s) = map_of (tasks s') \<and>
     map_of (suspensions s) = map_of (suspensions s') \<and>
     map_of (tool_invocations s) = map_of (tool_invocations s') \<and>
     map_of (requirements s) = map_of (requirements s') \<and>
     transcript s = transcript s' \<and> map_of (session_titles s) = map_of (session_titles s')"

lemma ensure_there: "tables_ok d \<Longrightarrow> fold ensure_table TABLES d = d"
proof -
  assume t: "tables_ok d"
  have "set ts \<subseteq> set TABLES \<Longrightarrow> fold ensure_table ts d = d" for ts
    using t by (induction ts) (auto simp: ensure_table_def tables_ok_def)
  then show ?thesis
    by simp
qed

lemma mirrored_map:
  "mirrored parse tie rs (map_of m) \<Longrightarrow> (\<lambda>i. Option.bind (map_of rs i) parse) = map_of m"
  by (rule ext) (simp add: mirrored_def)

lemma empty_snapshot_tables [simp]:
  "runs empty_snapshot = []" "turns empty_snapshot = []" "tasks empty_snapshot = []" "suspensions empty_snapshot = []"
  "tool_invocations empty_snapshot = []" "requirements empty_snapshot = []" "transcript empty_snapshot = []"
  "session_titles empty_snapshot = []"
  by (simp_all add: empty_snapshot_def)

lemma mirrors_reload:
  assumes m: "mirrors c st" and n: "sql_next st \<le> u64_max"
  shows "\<exists>st'. sqlite_init c (tables st) = Inr st' \<and> sql_next st' = sql_next st \<and> tables st' = tables st \<and>
    same_tables (sql_snapshot st) (sql_snapshot st')"
proof -
  note facts = m [unfolded mirrors_def Let_def]
  have t: "tables_ok (tables st)"
    using facts by simp
  obtain s where s: "load_snapshot c (tables st) = Inr s"
    using load_snapshot_rows [OF t] by blast
  have wf: "im_wf (rows_of (tables st) ''runs'')" "im_wf (rows_of (tables st) ''turns'')" "im_wf (rows_of (tables st) ''tasks'')"
    "im_wf (rows_of (tables st) ''suspensions'')" "im_wf (rows_of (tables st) ''tool_invocations'')"
    "im_wf (rows_of (tables st) ''requirements'')" "im_wf (rows_of (tables st) ''meta'')"
    using facts by (auto dest: mirrored_wf)
  note eq = s [unfolded load_snapshot_rows [OF t], simplified sum.inject, symmetric]
  have maps: "(\<lambda>i. Option.bind (map_of (rows_of (tables st) ''turns'') i) (turn_parse c)) = map_of (turns (sql_snapshot st))"
    "(\<lambda>i. Option.bind (map_of (rows_of (tables st) ''tasks'') i) (task_parse c)) = map_of (tasks (sql_snapshot st))"
    "(\<lambda>i. Option.bind (map_of (rows_of (tables st) ''suspensions'') i) (suspension_parse c)) = map_of (suspensions (sql_snapshot st))"
    "(\<lambda>i. Option.bind (map_of (rows_of (tables st) ''tool_invocations'') i) (invocation_parse c)) = map_of (tool_invocations (sql_snapshot st))"
    "(\<lambda>i. Option.bind (map_of (rows_of (tables st) ''requirements'') i) (requirement_parse c)) = map_of (requirements (sql_snapshot st))"
    by (rule mirrored_map, use facts in blast)+
  have "map_option run_core (map_of (runs s) i) = map_option run_core (map_of (runs (sql_snapshot st)) i)" for i
  proof -
    have "map_of (runs s) = (\<lambda>i. Option.bind (map_of (rows_of (tables st) ''runs'') i) (run_parse c))"
      unfolding eq by (simp add: load_frames load_gets load_defs im.get_ins wf split: option.split)
    then show ?thesis
      using facts by (cases "map_of (rows_of (tables st) ''runs'') i") (simp_all add: mirrored_def)
  qed
  moreover have "map_of (turns s) = map_of (turns (sql_snapshot st))" "map_of (tasks s) = map_of (tasks (sql_snapshot st))"
    "map_of (suspensions s) = map_of (suspensions (sql_snapshot st))"
    "map_of (tool_invocations s) = map_of (tool_invocations (sql_snapshot st))"
    "map_of (requirements s) = map_of (requirements (sql_snapshot st))"
    unfolding eq by (simp_all add: load_frames load_gets load_defs im.get_ins wf maps split: option.split)
  moreover have "transcript s = transcript (sql_snapshot st)"
    unfolding eq using facts load_fold_transcript [of c "rows_of (tables st) ''transcript''" "transcript (sql_snapshot st)"]
    by (simp add: load_frames load_defs split: option.split)
  moreover have "map_of (session_titles s) = map_of (session_titles (sql_snapshot st))"
  proof
    fix chat
    have "map_of (session_titles s) chat = or_else (map_of (rows_of (tables st) ''meta'') (title_key chat)) None"
      unfolding eq load_fold_titles [OF wf(7)] by (simp add: load_frames load_defs split: option.split)
    then show "map_of (session_titles s) chat = map_of (session_titles (sql_snapshot st)) chat"
      using facts by simp
  qed
  ultimately have "same_tables (sql_snapshot st) s"
    by (simp add: same_tables_def)
  moreover have "sqlite_init c (tables st) = Inr \<lparr>tables = tables st, sql_next = sql_next st, sql_snapshot = s\<rparr>"
    using facts n by (simp add: sqlite_init_def ensure_there [OF t] sql_ops(6) [OF t] s parse_u64_dec)
  ultimately show ?thesis
    by auto
qed

definition events_of :: "store_op list \<Rightarrow> domain_event list" where
  "events_of os = List.map_filter (\<lambda>op. case op of Append e _ \<Rightarrow> Some e | _ \<Rightarrow> None) os"

definition messages_of :: "store_op list \<Rightarrow> message_record list" where
  "messages_of os = List.map_filter (\<lambda>op. case op of Append (MessageAppended m) _ \<Rightarrow> Some m | _ \<Rightarrow> None) os"

lemma events_simps [simp]:
  "events_of [] = []" "messages_of [] = []"
  "events_of (op # os) = (case op of Append e _ \<Rightarrow> [e] | _ \<Rightarrow> []) @ events_of os"
  "messages_of (op # os) = (case op of Append (MessageAppended m) _ \<Rightarrow> [m] | _ \<Rightarrow> []) @ messages_of os"
  by (auto simp: events_of_def messages_of_def List.map_filter_simps split: store_op.split domain_event.split)

lemma apply_event_transcript:
  "transcript (apply_event e s) = transcript s @ (case e of MessageAppended m \<Rightarrow> [m] | _ \<Rightarrow> [])"
  by (cases e) simp_all

lemma mirrors_run:
  "mirrors c st \<Longrightarrow> \<forall>e \<in> set (events_of os). codec_ok c e \<Longrightarrow>
   distinct (map msg_record_id (transcript (sql_snapshot st)) @ map msg_record_id (messages_of os)) \<Longrightarrow>
   mirrors c (snd (run_ops (sqlite_op c) os st))"
proof (induction os arbitrary: st)
  case (Cons op os)
  let ?st = "snd (sqlite_op c op st)"
  have "mirrors c ?st \<and> distinct (map msg_record_id (transcript (sql_snapshot ?st)) @ map msg_record_id (messages_of os))"
  proof (cases op)
    case (Append e now)
    have "mirrors c ?st"
      using Append Cons.prems by (auto intro!: mirrors_append)
    then show ?thesis
      using Append Cons.prems(3)
      by (auto simp: sqlite_append_def Let_def apply_event_transcript split: domain_event.split_asm domain_event.split)
  next
    case (DeleteSession chat)
    have "snapshot_wf (sql_snapshot st)"
      using Cons.prems(1) by (simp add: mirrors_def)
    then have "transcript (sql_snapshot ?st) = filter (\<lambda>m. msg_run_id m \<notin> set (keys_where (\<lambda>r. run_chat_id r = Some chat) (runs (sql_snapshot st)))) (transcript (sql_snapshot st))"
      using DeleteSession purge_eq [of "sql_snapshot st" chat]
      by (auto simp: sqlite_delete_session_def Let_def case_prod_beta purged_def)
    then show ?thesis
      using DeleteSession Cons.prems mirrors_delete_session by (auto simp: distinct_map_filter)
  qed (use Cons.prems mirrors_titles in \<open>auto simp: sqlite_set_title_def sqlite_delete_title_def\<close>)
  then show ?case
    using Cons.IH [of ?st] Cons.prems(2) by (simp add: case_prod_beta)
qed simp

text \<open>\<open>open_in_memory\<close>: a new database.\<close>

definition open_in_memory :: sqlite_store where
  "open_in_memory = \<lparr>tables = fold ensure_table TABLES [], sql_next = 0, sql_snapshot = empty_snapshot\<rparr>"

lemma open_mirrors: "mirrors c open_in_memory"
proof -
  have "tables_ok (tables open_in_memory)"
    by (simp add: open_in_memory_def tables_ok_def TABLES_def ensure_table_def)
  moreover have "t \<in> set TABLES \<Longrightarrow> rows_of (tables open_in_memory) t = []" for t
    by (auto simp: open_in_memory_def TABLES_def ensure_table_def rows_of_def)
  ultimately show ?thesis
    unfolding mirrors_def Let_def
    by (simp add: mirrored_def open_in_memory_def [THEN arg_cong [of _ _ sql_snapshot]]
        open_in_memory_def [THEN arg_cong [of _ _ sql_next]] empty_snapshot_wf)
qed

text \<open>
  C35. The SQLite store survives a restart, up to what it never reloads: after every sequence of operations
  on a new database in which no message id is used twice and each event's record decodes to itself, opening
  the tables again restores the sequence counter, the turns, tasks, suspensions, tool invocations,
  requirements, the transcript and the titles exactly, and every run up to its current turn and time of
  update.  The rows of the projection hints and of the events are written and never read back, so hints are
  not restored; a message id that is used twice loses its second message, \<open>sqlite_loses_reused_message\<close>.
\<close>
theorem sqlite_restart:
  assumes "\<forall>e \<in> set (events_of os). codec_ok c e"
    and "distinct (map msg_record_id (messages_of os))"
    and "st = snd (run_ops (sqlite_op c) os open_in_memory)" "sql_next st \<le> u64_max"
  shows "\<exists>st'. sqlite_init c (tables st) = Inr st' \<and> sql_next st' = sql_next st \<and>
    same_tables (sql_snapshot st) (sql_snapshot st')"
proof -
  have "mirrors c st"
    unfolding assms(3) using assms(1,2) by (intro mirrors_run open_mirrors) (simp_all add: open_in_memory_def)
  then show ?thesis
    using mirrors_reload assms(4) by blast
qed


lemma init_new: "sqlite_init c [] = Inr open_in_memory"
proof -
  have t: "tables_ok (tables open_in_memory)" and d: "fold ensure_table TABLES [] = tables open_in_memory"
    using open_mirrors by (simp_all add: mirrors_def) (simp add: open_in_memory_def)
  have r: "t \<in> set TABLES \<Longrightarrow> rows_of (tables open_in_memory) t = []" for t
    by (auto simp: open_in_memory_def TABLES_def ensure_table_def rows_of_def)
  show ?thesis
    by (simp add: sqlite_init_def d sql_ops(6) [OF t] r load_snapshot_rows [OF t])
      (simp add: open_in_memory_def)
qed

definition demo_run :: run_record where
  "demo_run =
     \<lparr>run_id = ''r'', run_trace_id = ''t'', run_job_id = ''j'', run_chat_id = Some ''c'', run_channel = ''web'',
      run_status = RunRunning, current_turn_id = None, latest_error = None, run_created_at = 1,
      run_updated_at = 1, run_completed_at = None\<rparr>"

definition demo_turn :: turn_record where
  "demo_turn =
     \<lparr>turn_id = ''u'', turn_run_id = ''r'', turn_source = ''main'', turn_status = TurnRunning,
      transcript_checkpoint = 0, turn_requirement_id = None, turn_suspension_id = None, turn_started_at = 2,
      turn_updated_at = 2, turn_completed_at = None\<rparr>"

definition demo_codec :: codec where
  "demo_codec =
     \<lparr>run_text = \<lambda>_. ''run'', run_parse = \<lambda>_. Some demo_run, turn_text = \<lambda>_. ''turn'', turn_parse = \<lambda>_. Some demo_turn,
      task_text = \<lambda>_. [], task_parse = \<lambda>_. None, suspension_text = \<lambda>_. [], suspension_parse = \<lambda>_. None,
      invocation_text = \<lambda>_. [], invocation_parse = \<lambda>_. None, requirement_text = \<lambda>_. [],
      requirement_parse = \<lambda>_. None, message_text = \<lambda>_. [], message_parse = \<lambda>_. None, hint_text = \<lambda>_. [],
      row_run_id = \<lambda>_. Some ''r''\<rparr>"

lemma demo_codec_ok: "codec_ok demo_codec (RunUpserted demo_run)" "codec_ok demo_codec (TurnUpserted demo_turn)"
  by (simp_all add: demo_codec_def)

lemma sqlite_restart_witness:
  "let st = snd (run_ops (sqlite_op demo_codec) [Append (RunUpserted demo_run) 1, Append (TurnUpserted demo_turn) 2] open_in_memory)
   in sql_next st = 2 \<and> (\<exists>st'. sqlite_init demo_codec (tables st) = Inr st' \<and> sql_next st' = 2 \<and>
        same_tables (sql_snapshot st) (sql_snapshot st'))"
proof -
  let ?os = "[Append (RunUpserted demo_run) 1, Append (TurnUpserted demo_turn) 2]"
  have n: "sql_next (snd (run_ops (sqlite_op demo_codec) ?os open_in_memory)) = 2"
    by (simp add: sqlite_append_def Let_def open_in_memory_def)
  then show ?thesis
    unfolding Let_def
    using sqlite_restart [of ?os demo_codec "snd (run_ops (sqlite_op demo_codec) ?os open_in_memory)"] demo_codec_ok
    by (simp add: u64_max_def del: run_ops.simps)
qed

text \<open>
  A turn that is upserted changes its run in memory only: the row of the run is not written again, so a
  restart forgets the run's current turn.
\<close>
theorem sqlite_forgets_current_turn:
  assumes "codec_ok c (RunUpserted r)" "codec_ok c (TurnUpserted t)" "turn_run_id t = run_id r"
    and "st = snd (run_ops (sqlite_op c) [Append (RunUpserted r) n1, Append (TurnUpserted t) n2] open_in_memory)"
  shows "map_option current_turn_id (map_of (runs (sql_snapshot st)) (run_id r)) = Some (Some (turn_id t)) \<and>
    (\<exists>st'. sqlite_init c (tables st) = Inr st' \<and> map_of (runs (sql_snapshot st')) (run_id r) = Some r)"
proof -
  let ?d0 = "tables open_in_memory"
  let ?d1 = "persist_event c (RunUpserted r) 1 ?d0"
  have d: "tables st = persist_event c (TurnUpserted t) 2 ?d1"
    unfolding assms(4) by (simp add: sqlite_append_def Let_def) (simp add: open_in_memory_def numeral_2_eq_2)
  have t0: "tables_ok ?d0" and r0: "rows_of ?d0 ''runs'' = []"
    using open_mirrors by (simp_all add: mirrors_def) (simp add: open_in_memory_def TABLES_def ensure_table_def rows_of_def)
  have t1: "tables_ok ?d1" and t2: "tables_ok (tables st)"
    using event_rows(1) t0 d by simp_all
  have rows: "rows_of (tables st) ''runs'' = [(run_id r, run_text c r)]"
    unfolding d using event_rows(2) [OF t1] event_rows(2) [OF t0] record_rows(2) [OF t1] record_rows(2) [OF t0] r0
    by (simp add: upsert_row_def)
  have "mirrors c st"
    unfolding assms(4) using assms(1,2) by (intro mirrors_run open_mirrors) (simp_all add: open_in_memory_def)
  moreover have "sql_next st \<le> u64_max"
    unfolding assms(4) by (simp add: sqlite_append_def Let_def) (simp add: open_in_memory_def u64_max_def)
  ultimately obtain st' where st': "sqlite_init c (tables st) = Inr st'"
    using mirrors_reload by blast
  then have "load_snapshot c (tables st) = Inr (sql_snapshot st')"
    by (auto simp: sqlite_init_def ensure_there [OF t2] Let_def split: sum.splits)
  note eq = this [unfolded load_snapshot_rows [OF t2], simplified sum.inject, symmetric]
  have "map_of (runs (sql_snapshot st')) (run_id r) = Some r"
    unfolding eq using assms(1)
    by (simp add: load_frames load_defs rows load_step_def im.get_ins split: option.split)
  then show ?thesis
    using st' assms(3) unfolding assms(4)
    by (simp add: sqlite_append_def Let_def reduce_event_def open_in_memory_def)
qed

lemma sqlite_forgets_current_turn_witness:
  "\<exists>st'. sqlite_init demo_codec
     (tables (snd (run_ops (sqlite_op demo_codec) [Append (RunUpserted demo_run) 1, Append (TurnUpserted demo_turn) 2] open_in_memory))) = Inr st' \<and>
   map_option current_turn_id (map_of (runs (sql_snapshot st')) ''r'') = Some None"
  using sqlite_forgets_current_turn [OF demo_codec_ok _ refl, of 1 2]
  by (auto simp: demo_run_def demo_turn_def)

text \<open>
  A message whose id was used before is lost at the next restart: the transcript in memory takes it, the
  insertion of its row fails on the primary key, and the error is dropped.
\<close>
theorem sqlite_loses_reused_message:
  assumes "codec_ok c (MessageAppended m1)" "msg_record_id m2 = msg_record_id m1"
    and "st = snd (run_ops (sqlite_op c) [Append (MessageAppended m1) n1, Append (MessageAppended m2) n2] open_in_memory)"
  shows "transcript (sql_snapshot st) = [m1, m2] \<and>
    (\<exists>st'. sqlite_init c (tables st) = Inr st' \<and> transcript (sql_snapshot st') = [m1])"
proof -
  let ?d0 = "tables open_in_memory"
  let ?d1 = "persist_event c (MessageAppended m1) 1 ?d0"
  have d: "tables st = persist_event c (MessageAppended m2) 2 ?d1"
    unfolding assms(3) by (simp add: sqlite_append_def Let_def) (simp add: open_in_memory_def numeral_2_eq_2)
  have t0: "tables_ok ?d0" and r0: "rows_of ?d0 ''transcript'' = []"
    using open_mirrors by (simp_all add: mirrors_def) (simp add: open_in_memory_def TABLES_def ensure_table_def rows_of_def)
  have t1: "tables_ok ?d1" and t2: "tables_ok (tables st)"
    using event_rows(1) t0 d by simp_all
  have appended: "rows_of (persist_event c (MessageAppended m) n e) ''transcript'' =
      (if msg_record_id m \<in> set (im_keys (rows_of e ''transcript'')) then rows_of e ''transcript''
       else rows_of e ''transcript'' @ [(msg_record_id m, message_text c m)])" if "tables_ok e" for m n e
    using event_rows(2) [OF that, of "''transcript''"] by (simp add: persist_record.simps sql_ops [OF that] rows_insert)
  have "rows_of ?d1 ''transcript'' = [(msg_record_id m1, message_text c m1)]"
    by (simp add: appended [OF t0] r0)
  then have rows: "rows_of (tables st) ''transcript'' = [(msg_record_id m1, message_text c m1)]"
    unfolding d appended [OF t1] by (simp add: assms(2))
  obtain s where s: "load_snapshot c (tables st) = Inr s"
    by (simp add: load_snapshot_rows [OF t2])
  note eq = this [unfolded load_snapshot_rows [OF t2], simplified sum.inject, symmetric]
  have "transcript s = [m1]"
    unfolding eq using assms(1)
    by (simp add: load_frames load_defs rows load_step_def empty_snapshot_def split: option.split)
  moreover have "\<exists>st'. sqlite_init c (tables st) = Inr st' \<and> sql_snapshot st' = s"
    by (simp add: sqlite_init_def ensure_there [OF t2] sql_ops(6) [OF t2] s Let_def)
  moreover have "transcript (sql_snapshot st) = [m1, m2]"
    unfolding assms(3) by (simp add: sqlite_append_def Let_def reduce_event_def open_in_memory_def empty_snapshot_def)
  ultimately show ?thesis
    by auto
qed

end
