(* ===== verification/Task_Types.thy ===== *)
theory Task_Types
  imports Json
begin

text \<open>
  Tasks, their results and execution plans (\<open>anima-types/src/task.rs\<close>), and the update of an object field
  (\<open>payload["k"] = v\<close>) as the runtime builds its event payloads.  Fresh identifiers are parameters.
\<close>

record task =
  tk_id :: string
  tk_trace_id :: string
  tk_type :: string
  tk_payload :: json
  tk_priority :: nat
  tk_timeout_ms :: nat
  tk_metadata :: json

record make_task_input =
  mt_trace_id :: "string option"
  mt_type :: string
  mt_payload :: "json option"
  mt_priority :: "nat option"
  mt_timeout_ms :: "nat option"
  mt_metadata :: "json option"

definition make_task :: "string \<Rightarrow> string \<Rightarrow> make_task_input \<Rightarrow> task" where
  "make_task fresh_id fresh_trace m =
     \<lparr>tk_id = fresh_id, tk_trace_id = unwrap_or fresh_trace (mt_trace_id m), tk_type = mt_type m,
      tk_payload = unwrap_or (JObject []) (mt_payload m), tk_priority = unwrap_or 5 (mt_priority m),
      tk_timeout_ms = unwrap_or 60000 (mt_timeout_ms m), tk_metadata = unwrap_or (JObject []) (mt_metadata m)\<rparr>"

record task_result =
  res_task_id :: string
  res_trace_id :: string
  res_status :: string
  res_result :: "json option"
  res_error :: "string option"
  res_duration_ms :: nat
  res_worker_id :: "string option"
  res_blocked_reason :: "json option"

record make_task_result_input =
  mr_task_id :: string
  mr_trace_id :: string
  mr_status :: string
  mr_result :: "json option"
  mr_error :: "string option"
  mr_duration_ms :: nat
  mr_worker_id :: "string option"

definition make_task_result :: "make_task_result_input \<Rightarrow> task_result" where
  "make_task_result m =
     \<lparr>res_task_id = mr_task_id m, res_trace_id = mr_trace_id m, res_status = mr_status m, res_result = mr_result m,
      res_error = mr_error m, res_duration_ms = mr_duration_ms m, res_worker_id = mr_worker_id m,
      res_blocked_reason = None\<rparr>"

datatype execution_plan_kind = PlanDirect | PlanSingle | PlanSequential | PlanParallel | PlanSpecialistRoute

record execution_plan =
  ep_kind :: execution_plan_kind
  ep_type :: string
  ep_tasks :: "task list"
  ep_specialist :: "string option"


section \<open>Objects\<close>

fun json_set :: "string \<Rightarrow> json \<Rightarrow> json \<Rightarrow> json" where
  "json_set k v (JObject kvs) = JObject (im_insert k v kvs)"
| "json_set k v j = j"

definition with_fields :: "(string \<times> json) list \<Rightarrow> json \<Rightarrow> json" where
  "with_fields kvs j = fold (\<lambda>(k, v). json_set k v) kvs j"

definition get_or_null :: "string \<Rightarrow> json \<Rightarrow> json" where
  "get_or_null k j = unwrap_or JNull (json_get k j)"

definition opt_json :: "('a \<Rightarrow> json) \<Rightarrow> 'a option \<Rightarrow> json" where
  "opt_json f x = (case x of None \<Rightarrow> JNull | Some y \<Rightarrow> f y)"

abbreviation jnat :: "nat \<Rightarrow> json" where
  "jnat n \<equiv> JNumber (int n)"

lemma with_fields_simps [simp]:
  "with_fields [] j = j"
  "with_fields ((k, v) # kvs) j = with_fields kvs (json_set k v j)"
  by (simp_all add: with_fields_def)

lemma is_object_set [simp]: "is_object (json_set k v j) = is_object j"
  by (cases j) simp_all

lemma json_get_set: "is_object j \<Longrightarrow> json_get k' (json_set k v j) = (if k' = k then Some v else json_get k' j)"
proof (cases j)
  case (JObject kvs)
  then show ?thesis
    by (simp only: json_set.simps json_get.simps im.get_ins fun_upd_apply)
qed simp_all

lemma is_object_with_fields [simp]: "is_object (with_fields kvs j) = is_object j"
proof (induction kvs arbitrary: j)
  case (Cons x kvs)
  then show ?case
    by (cases x) (simp only: with_fields_simps is_object_set)
qed simp

lemma json_get_with_fields:
  "is_object j \<Longrightarrow> json_get k (with_fields kvs j) = (case map_of (rev kvs) k of Some v \<Rightarrow> Some v | None \<Rightarrow> json_get k j)"
proof (induction kvs arbitrary: j)
  case (Cons x kvs)
  obtain k' v where x: "x = (k', v)"
    by (cases x)
  have "json_get k (with_fields kvs (json_set k' v j)) =
      (case map_of (rev kvs) k of Some u \<Rightarrow> Some u | None \<Rightarrow> json_get k (json_set k' v j))"
    by (rule Cons.IH) (simp add: Cons.prems)
  then show ?case
    by (cases "map_of (rev kvs) k") (simp_all add: x json_get_set [OF Cons.prems] map_add_def)
qed simp

end
