(* ===== verification/Runtime_Error.thy ===== *)
theory Runtime_Error
  imports Strings Tools
begin

text \<open>
  The errors of the agent layer (\<open>agent/runtime_error.rs\<close>): typed errors of an executor, and the
  classification of an error text into a code, a stage and a message for the user.
\<close>

datatype error_stage = SessionCreate | PlanExecute | WorkerPool | TaskExecution

fun stage_str :: "error_stage \<Rightarrow> string" where
  "stage_str SessionCreate = ''session_create''"
| "stage_str PlanExecute = ''plan_execute''"
| "stage_str WorkerPool = ''worker_pool''"
| "stage_str TaskExecution = ''task_execution''"

datatype error_kind =
    SessionCreateFailed
  | UpstreamTimeout
  | UpstreamStreamFailed
  | ResponseParseFailed
  | ToolValidationFailed
  | ToolPermissionDenied
  | ToolTimeout
  | ToolExecutionFailed
  | WorkerUnavailable
  | WorkerCapacityExhausted
  | InvalidTaskPayload
  | UnknownTaskType
  | TaskExecutionFailed

fun as_code :: "error_kind \<Rightarrow> string" where
  "as_code SessionCreateFailed = ''session_create_failed''"
| "as_code UpstreamTimeout = ''upstream_timeout''"
| "as_code UpstreamStreamFailed = ''upstream_stream_failed''"
| "as_code ResponseParseFailed = ''task_execution_failed''"
| "as_code ToolValidationFailed = ''tool_validation_failed''"
| "as_code ToolPermissionDenied = ''tool_permission_denied''"
| "as_code ToolTimeout = ''tool_timeout''"
| "as_code ToolExecutionFailed = ''task_execution_failed''"
| "as_code WorkerUnavailable = ''worker_unavailable''"
| "as_code WorkerCapacityExhausted = ''worker_capacity_exhausted''"
| "as_code InvalidTaskPayload = ''invalid_task_payload''"
| "as_code UnknownTaskType = ''unknown_task_type''"
| "as_code TaskExecutionFailed = ''task_execution_failed''"

fun user_message :: "error_kind \<Rightarrow> string" where
  "user_message SessionCreateFailed = utf8
      [230, 151, 160, 230, 179, 149, 229, 136, 155, 229, 187, 186, 228, 184, 138, 230, 184, 184, 228,
       188, 154, 232, 175, 157, 239, 188, 140, 232, 175, 183, 231, 161, 174, 232, 174, 164, 32, 111,
       112, 101, 110, 99, 111, 100, 101, 45, 115, 101, 114, 118, 101, 114, 32, 230, 152, 175, 229,
       144, 166, 230, 173, 163, 229, 184, 184, 232, 191, 144, 232, 161, 140, 227, 128, 130]"
| "user_message UpstreamTimeout = utf8
      [228, 184, 138, 230, 184, 184, 230, 168, 161, 229, 158, 139, 229, 147, 141, 229, 186, 148, 232,
       182, 133, 230, 151, 182, 239, 188, 140, 232, 175, 183, 231, 168, 141, 229, 144, 142, 233, 135,
       141, 232, 175, 149, 227, 128, 130]"
| "user_message UpstreamStreamFailed = utf8
      [228, 184, 138, 230, 184, 184, 230, 168, 161, 229, 158, 139, 230, 181, 129, 229, 188, 143, 229,
       147, 141, 229, 186, 148, 229, 188, 130, 229, 184, 184, 228, 184, 173, 230, 150, 173, 239, 188,
       140, 232, 175, 183, 231, 168, 141, 229, 144, 142, 233, 135, 141, 232, 175, 149, 230, 136, 150,
       230, 163, 128, 230, 159, 165, 228, 187, 163, 231, 144, 134, 230, 156, 141, 229, 138, 161, 231,
       138, 182, 230, 128, 129, 227, 128, 130]"
| "user_message WorkerUnavailable = utf8
      [229, 189, 147, 229, 137, 141, 230, 137, 167, 232, 161, 140, 229, 153, 168, 230, 156, 170, 229,
       176, 177, 231, 187, 170, 239, 188, 140, 230, 154, 130, 230, 151, 182, 230, 151, 160, 230, 179,
       149, 229, 164, 132, 231, 144, 134, 232, 175, 183, 230, 177, 130, 227, 128, 130]"
| "user_message WorkerCapacityExhausted = utf8
      [229, 189, 147, 229, 137, 141, 230, 137, 167, 232, 161, 140, 233, 152, 159, 229, 136, 151, 231,
       185, 129, 229, 191, 153, 239, 188, 140, 232, 175, 183, 231, 168, 141, 229, 144, 142, 229, 134,
       141, 232, 175, 149, 227, 128, 130]"
| "user_message InvalidTaskPayload = utf8
      [232, 191, 144, 232, 161, 140, 230, 151, 182, 231, 148, 159, 230, 136, 144, 228, 186, 134, 230,
       151, 160, 230, 149, 136, 228, 187, 187, 229, 138, 161, 239, 188, 140, 232, 175, 183, 230, 163,
       128, 230, 159, 165, 228, 184, 187, 233, 147, 190, 232, 183, 175, 228, 187, 187, 229, 138, 161,
       230, 158, 132, 229, 187, 186, 233, 128, 187, 232, 190, 145, 227, 128, 130]"
| "user_message UnknownTaskType = utf8
      [232, 191, 144, 232, 161, 140, 230, 151, 182, 231, 148, 159, 230, 136, 144, 228, 186, 134, 230,
       156, 170, 230, 148, 175, 230, 140, 129, 231, 154, 132, 228, 187, 187, 229, 138, 161, 231, 177,
       187, 229, 158, 139, 227, 128, 130]"
| "user_message ToolValidationFailed = utf8
      [229, 183, 165, 229, 133, 183, 232, 190, 147, 229, 133, 165, 230, 160, 161, 233, 170, 140, 229,
       164, 177, 232, 180, 165, 239, 188, 140, 232, 175, 183, 230, 163, 128, 230, 159, 165, 229, 143,
       130, 230, 149, 176, 229, 144, 142, 233, 135, 141, 232, 175, 149, 227, 128, 130]"
| "user_message ToolPermissionDenied = utf8
      [229, 183, 165, 229, 133, 183, 232, 176, 131, 231, 148, 168, 230, 156, 170, 232, 142, 183, 230,
       142, 136, 230, 157, 131, 239, 188, 140, 229, 183, 178, 229, 129, 156, 230, 173, 162, 229, 189,
       147, 229, 137, 141, 229, 183, 165, 229, 133, 183, 230, 137, 167, 232, 161, 140, 227, 128, 130]"
| "user_message ToolTimeout = utf8
      [229, 183, 165, 229, 133, 183, 230, 137, 167, 232, 161, 140, 232, 182, 133, 230, 151, 182, 239,
       188, 140, 232, 175, 183, 231, 168, 141, 229, 144, 142, 233, 135, 141, 232, 175, 149, 230, 136,
       150, 231, 188, 169, 229, 176, 143, 230, 147, 141, 228, 189, 156, 232, 140, 131, 229, 155, 180,
       227, 128, 130]"
| "user_message _ = utf8
      [228, 187, 187, 229, 138, 161, 230, 137, 167, 232, 161, 140, 229, 164, 177, 232, 180, 165, 239,
       188, 140, 232, 175, 183, 230, 159, 165, 231, 156, 139, 232, 191, 144, 232, 161, 140, 230, 151,
       182, 228, 186, 139, 228, 187, 182, 232, 142, 183, 229, 143, 150, 232, 175, 166, 231, 187, 134,
       229, 142, 159, 229, 155, 160, 227, 128, 130]"

record runtime_error =
  re_kind :: error_kind
  re_stage :: error_stage
  internal_message :: string

record error_info =
  info_code :: string
  info_stage :: string
  info_user_message :: string
  info_internal_message :: string

definition runtime_error :: "error_kind \<Rightarrow> error_stage \<Rightarrow> string \<Rightarrow> runtime_error" where
  "runtime_error k s m = \<lparr>re_kind = k, re_stage = s, internal_message = m\<rparr>"

fun from_tool_error :: "tool_error \<Rightarrow> error_stage \<Rightarrow> runtime_error" where
  "from_tool_error (ValidationFailed m) s = runtime_error ToolValidationFailed s m"
| "from_tool_error (PermissionDenied m) s = runtime_error ToolPermissionDenied s m"
| "from_tool_error (Timeout n ms) s =
     runtime_error ToolTimeout s
       (''tool '' @ [CHR 0x27] @ n @ [CHR 0x27] @ '' timed out after '' @ dec ms @ ''ms'')"
| "from_tool_error (Internal m) s = runtime_error ToolExecutionFailed s m"

definition error_info_of :: "runtime_error \<Rightarrow> error_info" where
  "error_info_of e =
     \<lparr>info_code = as_code (re_kind e), info_stage = stage_str (re_stage e),
      info_user_message = user_message (re_kind e), info_internal_message = internal_message e\<rparr>"

definition error_from_text :: "string \<Rightarrow> runtime_error" where
  "error_from_text m = runtime_error TaskExecutionFailed TaskExecution m"


section \<open>Classification of an error text\<close>

definition any_in :: "string list \<Rightarrow> string \<Rightarrow> bool" where
  "any_in ps s = list_ex (\<lambda>p. str_contains p s) ps"

definition session_create_text :: "string \<Rightarrow> string \<Rightarrow> bool" where
  "session_create_text raw lower \<longleftrightarrow>
     any_in [''OpenCode session'', ''no ID returned'', ''Failed to create session''] raw \<or>
     any_in [''create session'', ''session-create'', ''http transport error'', ''error sending request'',
       ''/session)'', ''/session '', ''/session?''] lower \<or> ends_with lower ''/session''"

definition classify_session_create_error :: "string \<Rightarrow> string \<Rightarrow> error_info option" where
  "classify_session_create_error raw lower =
     (if session_create_text raw lower
      then Some (error_info_of (runtime_error SessionCreateFailed SessionCreate raw)) else None)"

definition classify_plan_execute_error :: "string \<Rightarrow> string \<Rightarrow> error_info option" where
  "classify_plan_execute_error raw lower =
     (if any_in [''request timeout'', ''408 request timeout'', ''timed out'', ''timeout''] lower
      then Some (error_info_of (runtime_error UpstreamTimeout PlanExecute raw))
      else if any_in [''empty_stream'', ''upstream stream closed before first payload'',
         ''stream disconnected before completion'', ''stream closed before response.completed''] lower
      then Some (error_info_of (runtime_error UpstreamStreamFailed PlanExecute raw))
      else None)"

definition classify_worker_pool_error :: "string \<Rightarrow> error_info option" where
  "classify_worker_pool_error raw =
     (if any_in [''Worker pool is not running'', ''Worker is not running''] raw
      then Some (error_info_of (runtime_error WorkerUnavailable WorkerPool raw))
      else if any_in [''Worker is busy'', ''No available worker''] raw
      then Some (error_info_of (runtime_error WorkerCapacityExhausted WorkerPool raw))
      else None)"

definition fallback_stage_of :: "string option \<Rightarrow> error_stage" where
  "fallback_stage_of s =
     (if s = Some ''session_create'' then SessionCreate
      else if s = Some ''plan_execute'' then PlanExecute
      else if s = Some ''worker_pool'' then WorkerPool
      else TaskExecution)"

definition classify_rest :: "string \<Rightarrow> string option \<Rightarrow> error_info" where
  "classify_rest raw fallback =
     (case classify_worker_pool_error raw of
        Some info \<Rightarrow> info
      | None \<Rightarrow>
          if any_in [''Missing required fields'', ''Missing query'', ''Missing transform data''] raw
          then error_info_of (runtime_error InvalidTaskPayload (fallback_stage_of fallback) raw)
          else if str_contains ''Unknown task type'' raw
          then error_info_of (runtime_error UnknownTaskType (fallback_stage_of fallback) raw)
          else error_info_of (runtime_error TaskExecutionFailed (fallback_stage_of fallback) raw))"

definition classify_runtime_error :: "string option \<Rightarrow> string option \<Rightarrow> error_info" where
  "classify_runtime_error err fallback =
     (let raw = unwrap_or ''Unknown runtime error'' err;
          lower = ascii_lower raw;
          session = (if fallback = Some (stage_str SessionCreate)
                     then classify_session_create_error raw lower else None);
          plan = (if fallback = Some (stage_str PlanExecute)
                  then classify_plan_execute_error raw lower else None)
      in case session of
           Some info \<Rightarrow> info
         | None \<Rightarrow> (case plan of Some info \<Rightarrow> info | None \<Rightarrow> classify_rest raw fallback))"


section \<open>Lemmas\<close>

lemma any_in_mem: "p \<in> set ps \<Longrightarrow> str_contains p s \<Longrightarrow> any_in ps s"
  by (auto simp: any_in_def list_ex_iff)

lemma info_code_of [simp]: "info_code (error_info_of (runtime_error k s m)) = as_code k"
  by (simp add: error_info_of_def runtime_error_def)

lemma info_fields [simp]:
  "info_internal_message (error_info_of (runtime_error k s m)) = m"
  "info_stage (error_info_of (runtime_error k s m)) = stage_str s"
  "info_user_message (error_info_of (runtime_error k s m)) = user_message k"
  by (simp_all add: error_info_of_def runtime_error_def)

text \<open>
  The classification loses nothing and promises a stage: whatever the text, the original text is the
  internal message, the code is that of an error kind, and the stage is the fallback stage (or task
  execution) unless the text is one of the worker pool's.
\<close>
theorem classification_total:
  "\<exists>k s. classify_runtime_error err fallback = error_info_of (runtime_error k s (unwrap_or ''Unknown runtime error'' err)) \<and>
     (s = WorkerPool \<and> classify_worker_pool_error (unwrap_or ''Unknown runtime error'' err) \<noteq> None \<or>
      s = fallback_stage_of fallback)"
proof -
  let ?raw = "unwrap_or ''Unknown runtime error'' err"
  have rest: "\<exists>k s. classify_rest ?raw fallback = error_info_of (runtime_error k s ?raw) \<and>
     (s = WorkerPool \<and> classify_worker_pool_error ?raw \<noteq> None \<or> s = fallback_stage_of fallback)"
    by (auto simp: classify_rest_def classify_worker_pool_error_def)
  show ?thesis
  proof (cases "fallback = Some ''session_create'' \<and> session_create_text ?raw (ascii_lower ?raw)")
    case True
    then have "classify_runtime_error err fallback = error_info_of (runtime_error SessionCreateFailed SessionCreate ?raw)"
      "fallback_stage_of fallback = SessionCreate"
      by (simp_all add: classify_runtime_error_def Let_def classify_session_create_error_def fallback_stage_of_def)
    then show ?thesis
      by (intro exI [of _ SessionCreateFailed] exI [of _ SessionCreate]) simp
  next
    case False
    let ?plan = "classify_plan_execute_error ?raw (ascii_lower ?raw)"
    show ?thesis
    proof (cases "fallback = Some ''plan_execute'' \<and> ?plan \<noteq> None")
      case True
      then have "classify_runtime_error err fallback = the ?plan" "fallback_stage_of fallback = PlanExecute"
        by (auto simp: classify_runtime_error_def Let_def fallback_stage_of_def)
      moreover have "\<exists>k. the ?plan = error_info_of (runtime_error k PlanExecute ?raw)"
        using True by (auto simp: classify_plan_execute_error_def)
      ultimately show ?thesis
        by metis
    next
      case other: False
      then have "classify_runtime_error err fallback = classify_rest ?raw fallback"
        using False by (auto simp: classify_runtime_error_def Let_def classify_session_create_error_def)
      then show ?thesis
        using rest by simp
    qed
  qed
qed

end
