(* ===== verification/Stream_Lines.thy ===== *)
theory Stream_Lines
  imports Streaming Strings Runtime_Error
begin

text \<open>
  Streams of server-sent event lines (\<open>streaming/executor.rs\<close>): the events handed to the user interface,
  the consumer of a stream of lines, and the executor that tracks tool calls while they arrive.  The lines
  are the items of \<open>UnifiedStreamSource\<close>, each a line or a transport error; the steps on the parsed
  events are those of \<open>Streaming\<close>.
\<close>

datatype runtime_stream_event =
    MessageStarted string
  | ContentBlockStarted nat stream_block
  | RuntimeBlockDelta nat content_delta
  | ContentBlockStopped nat
  | RuntimeMessageDelta "string option"
  | MessageStopped
  | RuntimePing
  | RuntimeError string string

fun from_stream_event :: "stream_event \<Rightarrow> runtime_stream_event" where
  "from_stream_event (MessageStart i) = MessageStarted i"
| "from_stream_event (ContentBlockStart i b) = ContentBlockStarted i b"
| "from_stream_event (ContentBlockDelta i d) = RuntimeBlockDelta i d"
| "from_stream_event (ContentBlockStop i) = ContentBlockStopped i"
| "from_stream_event (MessageDelta r) = RuntimeMessageDelta r"
| "from_stream_event MessageStop = MessageStopped"
| "from_stream_event Ping = RuntimePing"
| "from_stream_event (StreamError t m) = RuntimeError t m"

fun runtime_stream_event_to_stream_event :: "runtime_stream_event \<Rightarrow> stream_event" where
  "runtime_stream_event_to_stream_event (MessageStarted i) = MessageStart i"
| "runtime_stream_event_to_stream_event (ContentBlockStarted i b) = ContentBlockStart i b"
| "runtime_stream_event_to_stream_event (RuntimeBlockDelta i d) = ContentBlockDelta i d"
| "runtime_stream_event_to_stream_event (ContentBlockStopped i) = ContentBlockStop i"
| "runtime_stream_event_to_stream_event (RuntimeMessageDelta r) = MessageDelta r"
| "runtime_stream_event_to_stream_event MessageStopped = MessageStop"
| "runtime_stream_event_to_stream_event RuntimePing = Ping"
| "runtime_stream_event_to_stream_event (RuntimeError t m) = StreamError t m"

lemma to_from_stream_event [simp]: "runtime_stream_event_to_stream_event (from_stream_event e) = e"
  by (cases e) simp_all

lemma from_to_stream_event [simp]: "from_stream_event (runtime_stream_event_to_stream_event e) = e"
  by (cases e) simp_all


section \<open>Consuming lines\<close>

type_synonym stream_line = "runtime_error + string"

definition line_data :: "string \<Rightarrow> string option" where
  "line_data line = or_else (strip_prefix ''data: '' line) (strip_prefix ''data:'' line)"

text \<open>The event of a line, or \<open>None\<close> for the lines the loop skips.\<close>

definition line_event :: "json_parser \<Rightarrow> string \<Rightarrow> stream_event option" where
  "line_event json_parse line =
     (case line_data line of
        None \<Rightarrow> None
      | Some data \<Rightarrow> if trim data = ''[DONE]'' then None else parse_sse_event json_parse data)"

type_synonym 'w runtime_callback = "runtime_stream_event \<Rightarrow> 'w \<Rightarrow> 'w"

fun lines_loop :: "json_parser \<Rightarrow> stream_line list \<Rightarrow> 'w runtime_callback option \<Rightarrow> stream_state \<Rightarrow> 'w \<Rightarrow>
    (runtime_error + stream_state) \<times> 'w" where
  "lines_loop json_parse [] cb s w = (Inr s, w)"
| "lines_loop json_parse (Inl err # rest) cb s w = (Inl err, w)"
| "lines_loop json_parse (Inr line # rest) cb s w =
     (case line_event json_parse line of
        None \<Rightarrow> lines_loop json_parse rest cb s w
      | Some ev \<Rightarrow>
          let w' = (case cb of None \<Rightarrow> w | Some f \<Rightarrow> f (from_stream_event ev) w)
          in case stream_step ev s of
               Inl m \<Rightarrow> (Inl (runtime_error UpstreamStreamFailed PlanExecute m), w')
             | Inr s' \<Rightarrow> lines_loop json_parse rest cb s' w')"

definition consume_runtime_stream ::
  "json_parser \<Rightarrow> stream_line list \<Rightarrow> 'w runtime_callback option \<Rightarrow> 'w \<Rightarrow>
   (runtime_error + parsed_response \<times> json) \<times> 'w" where
  "consume_runtime_stream json_parse lines cb w =
     (case lines_loop json_parse lines cb init_stream w of
        (Inl err, w') \<Rightarrow> (Inl err, w')
      | (Inr s, w') \<Rightarrow>
          (case finish_stream json_parse s of
             Inl m \<Rightarrow> (Inl (runtime_error ResponseParseFailed PlanExecute m), w')
           | Inr r \<Rightarrow> (Inr r, w')))"

definition consume_sse_stream ::
  "json_parser \<Rightarrow> stream_line list \<Rightarrow> 'w stream_callback option \<Rightarrow> 'w \<Rightarrow>
   (runtime_error + parsed_response \<times> json) \<times> 'w" where
  "consume_sse_stream json_parse lines on_event w =
     consume_runtime_stream json_parse lines
       (Some (\<lambda>ev w. case on_event of None \<Rightarrow> w | Some f \<Rightarrow> f (runtime_stream_event_to_stream_event ev) w)) w"


section \<open>Tool calls while they arrive\<close>

datatype tracked_tool_state =
    ReceivingInput string string string
  | ReadyToExecute string string json
  | Executing string string
  | ToolCompleted string string json

record streaming_tool_executor =
  tracked :: "(nat, tracked_tool_state) imap"

definition new_tool_executor :: streaming_tool_executor where
  "new_tool_executor = \<lparr>tracked = []\<rparr>"

definition on_tool_use_start :: "nat \<Rightarrow> string \<Rightarrow> string \<Rightarrow> streaming_tool_executor \<Rightarrow> streaming_tool_executor" where
  "on_tool_use_start index tid n e = e\<lparr>tracked := im_insert index (ReceivingInput tid n []) (tracked e)\<rparr>"

definition on_tool_input_delta :: "nat \<Rightarrow> string \<Rightarrow> streaming_tool_executor \<Rightarrow> streaming_tool_executor" where
  "on_tool_input_delta index p e =
     e\<lparr>tracked := im_modify index
        (\<lambda>st. case st of ReceivingInput tid n acc \<Rightarrow> ReceivingInput tid n (acc @ p) | _ \<Rightarrow> st) (tracked e)\<rparr>"

fun finish_tool_input :: "json_parser \<Rightarrow> tracked_tool_state \<Rightarrow> tracked_tool_state" where
  "finish_tool_input json_parse (ReceivingInput tid n acc) =
     (case json_parse acc of
        Inr input \<Rightarrow> ReadyToExecute tid n input
      | Inl err \<Rightarrow> ReadyToExecute tid n
          (JObject [(''__parse_error'', JString (''malformed tool JSON: '' @ err)), (''__raw'', JString acc)]))"
| "finish_tool_input json_parse st = st"

definition on_tool_use_stop ::
  "json_parser \<Rightarrow> nat \<Rightarrow> streaming_tool_executor \<Rightarrow> tracked_tool_state option \<times> streaming_tool_executor" where
  "on_tool_use_stop json_parse index e =
     (case map_of (tracked e) index of
        None \<Rightarrow> (None, e)
      | Some st \<Rightarrow>
          let e' = (case st of
                      ReceivingInput _ _ _ \<Rightarrow> e\<lparr>tracked := im_insert index (finish_tool_input json_parse st) (tracked e)\<rparr>
                    | _ \<Rightarrow> e)
          in (map_of (tracked e') index, e'))"

definition get_tool_state :: "nat \<Rightarrow> streaming_tool_executor \<Rightarrow> tracked_tool_state option" where
  "get_tool_state index e = map_of (tracked e) index"

definition tracked_indices :: "streaming_tool_executor \<Rightarrow> nat list" where
  "tracked_indices e = im_keys (tracked e)"


section \<open>Lemmas\<close>

definition line_events :: "json_parser \<Rightarrow> stream_line list \<Rightarrow> (runtime_error + stream_event) list" where
  "line_events json_parse lines =
     List.map_filter (\<lambda>l. case l of Inl err \<Rightarrow> Some (Inl err) | Inr line \<Rightarrow> map_option Inr (line_event json_parse line)) lines"

lemma line_events_simps [simp]:
  "line_events json_parse [] = []"
  "line_events json_parse (Inl err # ls) = Inl err # line_events json_parse ls"
  "line_events json_parse (Inr line # ls) =
     (case line_event json_parse line of None \<Rightarrow> line_events json_parse ls
      | Some ev \<Rightarrow> Inr ev # line_events json_parse ls)"
  by (simp_all add: line_events_def List.map_filter_simps split: option.split)

text \<open>A loop over lines that succeeds is the loop over their events.\<close>

lemma lines_loop_Inr:
  "lines_loop json_parse lines cb s w = (Inr s', w') \<Longrightarrow>
   stream_loop (map (map_sum f id) (line_events json_parse lines))
    (map_option (\<lambda>g ev. g (from_stream_event ev)) cb) s w = (Inr s', w')"
proof (induction json_parse lines cb s w rule: lines_loop.induct)
  case (3 json_parse line rest cb s w)
  show ?case
  proof (cases "line_event json_parse line")
    case None
    then show ?thesis
      using 3 by simp
  next
    case (Some ev)
    then show ?thesis
      using "3.IH"(2) [OF Some refl] "3.prems"
      by (cases "stream_step ev s"; cases cb) (simp_all add: Let_def)
  qed
qed simp_all

text \<open>The calls to the callback are the events of the lines, up to and including an error event.\<close>

fun events_until_error :: "(runtime_error + stream_event) list \<Rightarrow> stream_event list" where
  "events_until_error [] = []"
| "events_until_error (Inl _ # _) = []"
| "events_until_error (Inr ev # rest) =
     (case ev of StreamError _ _ \<Rightarrow> [ev] | _ \<Rightarrow> ev # events_until_error rest)"

lemma stream_step_Inl: "stream_step ev s = Inl m \<longleftrightarrow> (\<exists>t x. ev = StreamError t x \<and> m = stream_error_text t x)"
  by (cases "(ev, s)" rule: stream_step.cases) auto

lemma events_until_error_Inr:
  "stream_step ev s = Inr s' \<Longrightarrow> events_until_error (Inr ev # rest) = ev # events_until_error rest"
  by (cases ev) auto

lemma lines_loop_world:
  "snd (lines_loop json_parse lines (Some f) s w) =
     fold (\<lambda>ev. f (from_stream_event ev)) (events_until_error (line_events json_parse lines)) w"
proof (induction json_parse lines "Some f" s w rule: lines_loop.induct)
  case (3 json_parse line rest s w)
  show ?case
  proof (cases "line_event json_parse line")
    case None
    then show ?thesis
      using 3(1) by simp
  next
    case (Some ev)
    show ?thesis
    proof (cases "stream_step ev s")
      case (Inl m)
      then show ?thesis
        using Some by (auto simp: stream_step_Inl Let_def)
    next
      case (Inr s')
      then show ?thesis
        using Some 3(2) [OF Some refl, of s'] events_until_error_Inr [OF Inr, of "line_events json_parse rest"]
        by (simp add: Let_def)
    qed
  qed
qed simp_all

lemma consume_runtime_stream_world:
  "snd (consume_runtime_stream json_parse lines (Some f) w) =
     fold (\<lambda>ev. f (from_stream_event ev)) (events_until_error (line_events json_parse lines)) w"
  using lines_loop_world [of json_parse lines f init_stream w]
  by (auto simp: consume_runtime_stream_def split: prod.splits sum.splits)


section \<open>Properties\<close>

text \<open>
  The line stream and the event stream of a provider give the same response: whatever lines are
  skipped, when the consumer of lines succeeds, the consumer of the events of those lines succeeds with
  the same parsed response and the same response value.
\<close>
theorem line_stream_equals_event_stream:
  assumes "consume_runtime_stream json_parse lines None w = (Inr r, w')"
  shows "consume_stream_events json_parse
    (map (map_sum (\<lambda>e. internal_error (internal_message e)) id) (line_events json_parse lines)) None w = (Inr r, w')"
proof -
  obtain s where l: "lines_loop json_parse lines None init_stream w = (Inr s, w')"
    and f: "finish_stream json_parse s = Inr r"
    using assms by (auto simp: consume_runtime_stream_def split: prod.splits sum.splits)
  show ?thesis
    using lines_loop_Inr [OF l, of "\<lambda>e. internal_error (internal_message e)"] f
    by (simp add: consume_stream_events_def)
qed

definition demo_line_parser :: json_parser where
  "demo_line_parser s =
     (if s = ''{}'' then Inr (JObject [])
      else if s = ''start'' then Inr (JObject [(''type'', JString ''message_start'')])
      else if s = ''stop'' then Inr (JObject [(''type'', JString ''message_stop'')])
      else Inl ''bad'')"

lemma line_stream_equals_event_stream_witness:
  "\<exists>r. consume_stream_events demo_line_parser
    (map (map_sum (\<lambda>e. internal_error (internal_message e)) id)
      (line_events demo_line_parser [Inr '': hi'', Inr ''data: start'', Inr ''data:stop'', Inr ''data: [DONE] '']))
      None () = (Inr r, ())"
proof -
  have v: "case fst (consume_runtime_stream demo_line_parser
      [Inr '': hi'', Inr ''data: start'', Inr ''data:stop'', Inr ''data: [DONE] ''] None ()) of
      Inl _ \<Rightarrow> False | Inr _ \<Rightarrow> True"
    by code_simp
  then obtain r where "consume_runtime_stream demo_line_parser
      [Inr '': hi'', Inr ''data: start'', Inr ''data:stop'', Inr ''data: [DONE] ''] None () = (Inr r, ())"
    by (cases "consume_runtime_stream demo_line_parser
      [Inr '': hi'', Inr ''data: start'', Inr ''data:stop'', Inr ''data: [DONE] ''] None ()") (auto split: sum.splits)
  from line_stream_equals_event_stream [OF this] show ?thesis
    by blast
qed

text \<open>
  A tool call that arrives in pieces is tracked like the accumulator's: after a start, any deltas and
  a stop of the same index, the executor is ready with the parse of the concatenated pieces, or with a
  record of the parse error and the raw text, and a later stop or delta changes nothing.
\<close>
theorem tracked_tool_ready:
  "let e1 = fold (on_tool_input_delta i) ps (on_tool_use_start i tid n e);
       (st, e2) = on_tool_use_stop json_parse i e1
   in st = Some (finish_tool_input json_parse (ReceivingInput tid n (concat ps)))
      \<and> get_tool_state i (on_tool_input_delta i p e2) = st \<and> on_tool_use_stop json_parse i e2 = (st, e2)"
proof -
  have d: "map_of (tracked (fold (on_tool_input_delta i) ps e')) i = Some (ReceivingInput t m (acc @ concat ps))"
    if "map_of (tracked e') i = Some (ReceivingInput t m acc)" for e' t m acc
    using that
  proof (induction ps arbitrary: e' acc)
    case (Cons q ps)
    have "map_of (tracked (on_tool_input_delta i q e')) i = Some (ReceivingInput t m (acc @ q))"
      using Cons.prems by (simp add: on_tool_input_delta_def im_get_modify)
    from Cons.IH [OF this] show ?case
      by simp
  qed simp
  have r: "\<exists>t m j. finish_tool_input json_parse (ReceivingInput tid n x) = ReadyToExecute t m j" for x
    by (cases "json_parse x") simp_all
  obtain t m j where f: "finish_tool_input json_parse (ReceivingInput tid n (concat ps)) = ReadyToExecute t m j"
    using r by blast
  have "map_of (tracked (fold (on_tool_input_delta i) ps (on_tool_use_start i tid n e))) i
      = Some (ReceivingInput tid n (concat ps))"
    using d [of "on_tool_use_start i tid n e" tid n "[]"] by (simp add: on_tool_use_start_def im.get_ins)
  then have "on_tool_use_stop json_parse i (fold (on_tool_input_delta i) ps (on_tool_use_start i tid n e)) =
      (Some (ReadyToExecute t m j), (fold (on_tool_input_delta i) ps (on_tool_use_start i tid n e))
        \<lparr>tracked := im_insert i (ReadyToExecute t m j) (tracked (fold (on_tool_input_delta i) ps (on_tool_use_start i tid n e)))\<rparr>)"
    using f by (simp add: on_tool_use_stop_def im.get_ins Let_def del: finish_tool_input.simps)
  then show ?thesis
    using f by (simp add: on_tool_use_stop_def im.get_ins get_tool_state_def on_tool_input_delta_def im_get_modify
        Let_def del: finish_tool_input.simps)
qed

end
