(* ===== verification/Worker.thy ===== *)
theory Worker
  imports Task_Types Stream_Lines "HOL-Library.State_Monad"
begin

text \<open>
  One worker (\<open>worker/core.rs\<close>, \<open>WorkerAgent\<close>): what its thread does with a task.  The code of the
  thread is in the state monad over \<open>worker_run\<close>: the outside world \<open>'w\<close> (the executor's provider and the
  clock act on it), the calls to the event publisher in order, and the worker's current task and metrics.
  \<open>worker_env\<close> holds what the thread only reads.  The executor (\<open>dyn TaskExecutor\<close>) and the clock are
  parameters; the lines of a streamed answer are fixed when the stream is opened.
\<close>

record current_task_info =
  ct_task_id :: string
  ct_trace_id :: string
  ct_task_type :: string
  ct_started_ms :: nat
  ct_content_preview :: string
  ct_phase :: string
  ct_last_progress_at_ms :: nat
  ct_session_id :: "string option"

record worker_metrics =
  tasks_completed :: nat
  timeouts :: nat
  errors :: nat
  total_duration_ms :: nat

definition zero_metrics :: worker_metrics where
  "zero_metrics = \<lparr>tasks_completed = 0, timeouts = 0, errors = 0, total_duration_ms = 0\<rparr>"

record 'w executor =
  send_prompt :: "string \<Rightarrow> json \<Rightarrow> 'w \<Rightarrow> (runtime_error + json) \<times> 'w"
  create_session :: "'w \<Rightarrow> (runtime_error + json) \<times> 'w"
  send_prompt_streaming :: "string \<Rightarrow> json \<Rightarrow> 'w \<Rightarrow> (runtime_error + stream_line list) \<times> 'w"
  provider_label :: string

record 'w worker_env =
  we_id :: string
  executor :: "'w executor"
  has_publisher :: bool
  clock :: "'w \<Rightarrow> nat \<times> 'w"
  json_from_str :: json_parser

type_synonym event_log = "(string \<times> string \<times> json) list"

record 'w worker_run =
  run_world :: 'w
  published :: event_log
  current_task :: "current_task_info option"
  metrics :: worker_metrics

type_synonym ('w, 'a) worker_m = "('w worker_run, 'a) state"

definition in_world :: "('w \<Rightarrow> 'a \<times> 'w) \<Rightarrow> ('w, 'a) worker_m" where
  "in_world f = State (\<lambda>s. (fst (f (run_world s)), s\<lparr>run_world := snd (f (run_world s))\<rparr>))"

definition now_ms :: "'w worker_env \<Rightarrow> ('w, nat) worker_m" where
  "now_ms E = in_world (clock E)"

definition modify_run :: "('w worker_run \<Rightarrow> 'w worker_run) \<Rightarrow> ('w, unit) worker_m" where
  "modify_run f = State (\<lambda>s. ((), f s))"

definition publish_runtime_event :: "'w worker_env \<Rightarrow> string \<Rightarrow> string \<Rightarrow> json \<Rightarrow> ('w, unit) worker_m" where
  "publish_runtime_event E trace event payload =
     modify_run (\<lambda>s. if has_publisher E then s\<lparr>published := published s @ [(trace, event, payload)]\<rparr> else s)"

definition update_current_task_phase :: "'w worker_env \<Rightarrow> string \<Rightarrow> ('w, unit) worker_m" where
  "update_current_task_phase E phase = do {
     s \<leftarrow> State_Monad.get;
     case current_task s of
       None \<Rightarrow> State_Monad.return ()
     | Some t \<Rightarrow> do {
         now \<leftarrow> now_ms E;
         modify_run (\<lambda>s. s\<lparr>current_task := Some (t\<lparr>ct_phase := phase, ct_last_progress_at_ms := now\<rparr>)\<rparr>)
       }
   }"

definition should_stream_api_call :: "task \<Rightarrow> bool" where
  "should_stream_api_call t \<longleftrightarrow>
     tk_type t = ''api-call'' \<and>
     unwrap_or False (json_bool ''orchestration_subtask'' (tk_metadata t)) \<and>
     unwrap_or False (json_bool ''streaming_observable'' (tk_metadata t))"

definition api_call_event_payload :: "'w worker_env \<Rightarrow> task \<Rightarrow> string \<Rightarrow> string \<Rightarrow> nat \<Rightarrow> json" where
  "api_call_event_payload E t session phase at = JObject
     [(''worker_id'', JString (we_id E)), (''task_id'', JString (tk_id t)), (''trace_id'', JString (tk_trace_id t)),
      (''task_type'', JString (tk_type t)), (''opencode_session_id'', JString session),
      (''worker_timeout_ms'', jnat (tk_timeout_ms t)),
      (''parent_job_id'', get_or_null ''parent_job_id'' (tk_payload t)),
      (''plan_id'', get_or_null ''plan_id'' (tk_payload t)),
      (''subtask_id'', get_or_null ''subtask_id'' (tk_payload t)),
      (''subtask_name'', get_or_null ''subtask_name'' (tk_payload t)),
      (''original_task_type'', get_or_null ''original_task_type'' (tk_payload t)),
      (''phase'', JString phase), (''occurred_at_ms'', jnat at)]"


section \<open>Events of a stream\<close>

definition publish_streaming_diagnostic_event ::
  "'w worker_env \<Rightarrow> task \<Rightarrow> string \<Rightarrow> string \<Rightarrow> string \<Rightarrow> nat option \<Rightarrow> (string \<times> json) list \<Rightarrow> ('w, unit) worker_m" where
  "publish_streaming_diagnostic_event E t session event phase started_at details = do {
     at \<leftarrow> now_ms E;
     update_current_task_phase E phase;
     publish_runtime_event E (tk_trace_id t) event
       (with_fields
         ((case started_at of None \<Rightarrow> []
           | Some st \<Rightarrow> [(''started_at_ms'', jnat st), (''elapsed_ms'', jnat (saturating_sub at st))]) @ details)
         (api_call_event_payload E t session phase at))
   }"

fun stream_event_phase :: "runtime_stream_event \<Rightarrow> string" where
  "stream_event_phase (MessageStarted _) = ''api_call_stream_message_started''"
| "stream_event_phase (ContentBlockStarted _ (StreamText _)) = ''api_call_stream_texting''"
| "stream_event_phase (RuntimeBlockDelta _ (TextDelta _)) = ''api_call_stream_texting''"
| "stream_event_phase (ContentBlockStarted _ (StreamToolUse _ _ _)) = ''api_call_stream_tool_input''"
| "stream_event_phase (RuntimeBlockDelta _ (InputJsonDelta _)) = ''api_call_stream_tool_input''"
| "stream_event_phase (ContentBlockStarted _ (StreamThinking _)) = ''api_call_stream_thinking''"
| "stream_event_phase (RuntimeBlockDelta _ (ThinkingDelta _)) = ''api_call_stream_thinking''"
| "stream_event_phase (ContentBlockStopped _) = ''api_call_stream_block_completed''"
| "stream_event_phase (RuntimeMessageDelta _) = ''api_call_stream_message_delta''"
| "stream_event_phase MessageStopped = ''api_call_stream_completed''"
| "stream_event_phase RuntimePing = ''api_call_stream_open''"
| "stream_event_phase (RuntimeError _ _) = ''api_call_failed''"

fun stream_event_name :: "runtime_stream_event \<Rightarrow> string" where
  "stream_event_name (MessageStarted _) = ''sdk_stream_message_started''"
| "stream_event_name (ContentBlockStarted _ _) = ''sdk_stream_content_block_started''"
| "stream_event_name (RuntimeBlockDelta _ _) = ''sdk_stream_content_block_delta''"
| "stream_event_name (ContentBlockStopped _) = ''sdk_stream_content_block_stopped''"
| "stream_event_name (RuntimeMessageDelta _) = ''sdk_stream_message_delta''"
| "stream_event_name MessageStopped = ''sdk_stream_message_stopped''"
| "stream_event_name RuntimePing = ''worker_api_call_streaming_started''"
| "stream_event_name (RuntimeError _ _) = ''worker_api_call_streaming_failed''"

fun block_started_fields :: "nat \<Rightarrow> stream_block \<Rightarrow> (string \<times> json) list" where
  "block_started_fields i (StreamText text) =
     [(''content_block_kind'', JString ''text''), (''part_id'', JString (''text-'' @ dec i)),
      (''raw_event_type'', JString ''content_block_start'')] @
     (if text = [] then []
      else [(''text_delta'', JString text), (''accumulated_text_preview'', JString (take_chars 120 text))])"
| "block_started_fields i (StreamToolUse tid n input) =
     [(''content_block_kind'', JString ''tool_use''), (''tool_use_id'', JString tid), (''part_id'', JString tid),
      (''tool_name'', JString n), (''partial_json'', input), (''raw_event_type'', JString ''content_block_start'')]"
| "block_started_fields i (StreamThinking thinking) =
     [(''content_block_kind'', JString ''thinking''), (''part_id'', JString (''thinking-'' @ dec i)),
      (''raw_event_type'', JString ''content_block_start'')] @
     (if thinking = [] then [] else [(''thinking_delta'', JString thinking)])"

fun delta_fields :: "nat \<Rightarrow> content_delta \<Rightarrow> (string \<times> json) list" where
  "delta_fields i (TextDelta text) =
     [(''delta_kind'', JString ''text_delta''), (''part_id'', JString (''text-'' @ dec i)),
      (''text_delta'', JString text), (''accumulated_text_preview'', JString (take_chars 120 text))]"
| "delta_fields i (InputJsonDelta p) =
     [(''delta_kind'', JString ''input_json_delta''), (''part_id'', JString (''tool-'' @ dec i)),
      (''partial_json'', JString p)]"
| "delta_fields i (ThinkingDelta thinking) =
     [(''delta_kind'', JString ''thinking_delta''), (''part_id'', JString (''thinking-'' @ dec i)),
      (''thinking_delta'', JString thinking)]"

fun stream_event_fields :: "runtime_stream_event \<Rightarrow> (string \<times> json) list" where
  "stream_event_fields (MessageStarted i) =
     [(''message_id'', JString i), (''raw_event_type'', JString ''message_start'')]"
| "stream_event_fields (ContentBlockStarted i b) = (''content_block_index'', jnat i) # block_started_fields i b"
| "stream_event_fields (RuntimeBlockDelta i d) =
     [(''content_block_index'', jnat i), (''raw_event_type'', JString ''content_block_delta'')] @ delta_fields i d"
| "stream_event_fields (ContentBlockStopped i) =
     [(''content_block_index'', jnat i), (''part_id'', JString (''block-'' @ dec i)),
      (''raw_event_type'', JString ''content_block_stop'')]"
| "stream_event_fields (RuntimeMessageDelta r) =
     (''raw_event_type'', JString ''message_delta'') #
       (case r of None \<Rightarrow> [] | Some x \<Rightarrow> [(''stop_reason'', JString x)])"
| "stream_event_fields MessageStopped = [(''raw_event_type'', JString ''message_stop'')]"
| "stream_event_fields RuntimePing = []"
| "stream_event_fields (RuntimeError ty m) = [(''error_kind'', JString ty), (''error'', JString m)]"

definition publish_stream_runtime_event ::
  "'w worker_env \<Rightarrow> task \<Rightarrow> string \<Rightarrow> runtime_stream_event \<Rightarrow> ('w, unit) worker_m" where
  "publish_stream_runtime_event E t session ev = do {
     at \<leftarrow> now_ms E;
     update_current_task_phase E (stream_event_phase ev);
     publish_runtime_event E (tk_trace_id t) (stream_event_name ev)
       (with_fields (stream_event_fields ev) (api_call_event_payload E t session (stream_event_phase ev) at))
   }"

fun stream_event_kind :: "runtime_stream_event \<Rightarrow> string" where
  "stream_event_kind (MessageStarted _) = ''message_start''"
| "stream_event_kind (ContentBlockStarted _ _) = ''content_block_start''"
| "stream_event_kind (RuntimeBlockDelta _ _) = ''content_block_delta''"
| "stream_event_kind (ContentBlockStopped _) = ''content_block_stop''"
| "stream_event_kind (RuntimeMessageDelta _) = ''message_delta''"
| "stream_event_kind MessageStopped = ''message_stop''"
| "stream_event_kind RuntimePing = ''ping''"
| "stream_event_kind (RuntimeError _ _) = ''error''"

end
