(* ===== verification/Worker_Events.thy ===== *)
theory Worker_Events
  imports Worker_Calls
begin

text \<open>
  What a worker publishes and returns.  \<open>yields m P\<close> is the contract of a piece of the worker's code:
  it appends events to the log, keeps the metrics and the identity of the current task, and its result
  and its events satisfy \<open>P\<close>; the rules \<open>yields_rules\<close> compute it along the code.
\<close>

definition event_names :: "event_log \<Rightarrow> string list" where
  "event_names es = map (\<lambda>(trace, event, payload). event) es"

lemma event_names_simps [simp]:
  "event_names [] = []" "event_names (e # es) = fst (snd e) # event_names es"
  "event_names (es @ fs) = event_names es @ event_names fs"
  by (simp_all add: event_names_def split: prod.split)

definition task_identity :: "'w worker_run \<Rightarrow> (string \<times> string \<times> string \<times> nat) option" where
  "task_identity s =
     map_option (\<lambda>c. (ct_task_id c, ct_trace_id c, ct_task_type c, ct_started_ms c)) (current_task s)"

definition yields :: "('w, 'a) worker_m \<Rightarrow> ('a \<Rightarrow> event_log \<Rightarrow> bool) \<Rightarrow> bool" where
  "yields m P \<longleftrightarrow> (\<forall>s. \<exists>r s' es. run_state m s = (r, s') \<and> published s' = published s @ es \<and> P r es \<and>
     metrics s' = metrics s \<and> task_identity s' = task_identity s)"

named_theorems yields_rules \<open>the contract of the worker's code, step by step\<close>

lemma yieldsE:
  assumes "yields m P" "run_state m s = (r, s')"
  obtains es where "published s' = published s @ es" "P r es" "metrics s' = metrics s" "task_identity s' = task_identity s"
  using assms unfolding yields_def by (metis prod.inject)

lemma yields_return [yields_rules]: "P a [] \<Longrightarrow> yields (State_Monad.return a) P"
  by (simp add: yields_def)

lemma yields_bind [yields_rules]:
  assumes "yields m (\<lambda>a es. yields (f a) (\<lambda>b fs. P b (es @ fs)))"
  shows "yields (State_Monad.bind m f) P"
  unfolding yields_def
proof
  fix s
  obtain a s1 es where 1: "run_state m s = (a, s1)" "published s1 = published s @ es"
    "yields (f a) (\<lambda>b fs. P b (es @ fs))" "metrics s1 = metrics s" "task_identity s1 = task_identity s"
    using assms unfolding yields_def [of m] by blast
  then obtain b s2 fs where 2: "run_state (f a) s1 = (b, s2)" "published s2 = published s1 @ fs"
    "P b (es @ fs)" "metrics s2 = metrics s1" "task_identity s2 = task_identity s1"
    unfolding yields_def [of "f a"] by blast
  show "\<exists>r s' es. run_state (State_Monad.bind m f) s = (r, s') \<and> published s' = published s @ es \<and> P r es \<and>
     metrics s' = metrics s \<and> task_identity s' = task_identity s"
    using 1 2 by (intro exI [of _ b] exI [of _ s2] exI [of _ "es @ fs"]) simp
qed

lemma yields_mono: "yields m P \<Longrightarrow> (\<And>r es. P r es \<Longrightarrow> Q r es) \<Longrightarrow> yields m Q"
  unfolding yields_def by metis

lemma yields_world [yields_rules]: "(\<And>w. P (fst (f w)) []) \<Longrightarrow> yields (in_world f) P"
  by (simp add: yields_def in_world_def task_identity_def)

lemma yields_now [yields_rules]: "(\<And>n. P n []) \<Longrightarrow> yields (now_ms E) P"
  unfolding now_ms_def by (rule yields_world) simp

definition when_published :: "'w worker_env \<Rightarrow> 'a list \<Rightarrow> 'a list" where
  "when_published E ns = (if has_publisher E then ns else [])"

lemma when_published_simps [simp]:
  "when_published E [] = []"
  "event_names (when_published E es) = when_published E (event_names es)"
  "when_published E ns @ when_published E ms = when_published E (ns @ ms)"
  "when_published E ns @ when_published E ms @ xs = when_published E (ns @ ms) @ xs"
  by (simp_all add: when_published_def)

lemma yields_publish [yields_rules]:
  "P () (when_published E [(trace, event, payload)]) \<Longrightarrow> yields (publish_runtime_event E trace event payload) P"
  by (cases "has_publisher E")
    (simp_all add: yields_def publish_runtime_event_def modify_run_def task_identity_def when_published_def)

lemma yields_sum [yields_rules]:
  "(\<And>x. r = Inl x \<Longrightarrow> yields (f x) P) \<Longrightarrow> (\<And>y. r = Inr y \<Longrightarrow> yields (g y) P) \<Longrightarrow>
   yields (case r of Inl x \<Rightarrow> f x | Inr y \<Rightarrow> g y) P"
  by (cases r) auto

lemma yields_if [yields_rules]:
  "(b \<Longrightarrow> yields m P) \<Longrightarrow> (\<not> b \<Longrightarrow> yields n P) \<Longrightarrow> yields (if b then m else n) P"
  by simp

lemma yields_prod [yields_rules]:
  "(\<And>x y. r = (x, y) \<Longrightarrow> yields (f x y) P) \<Longrightarrow> yields (case r of (x, y) \<Rightarrow> f x y) P"
  by (cases r) auto

lemma yields_call_event [yields_rules]:
  "P () (when_published E [(tk_trace_id t, event, with_fields fs (api_call_event_payload E t session phase at))])
   \<Longrightarrow> yields (publish_call_event E t session event phase at fs) P"
  unfolding publish_call_event_def by (rule yields_publish)

lemma yields_phase [yields_rules]:
  assumes "P () []"
  shows "yields (update_current_task_phase E phase) P"
  unfolding yields_def
proof
  fix s :: "'a worker_run"
  show "\<exists>r s' es. run_state (update_current_task_phase E phase) s = (r, s') \<and> published s' = published s @ es \<and> P r es \<and>
     metrics s' = metrics s \<and> task_identity s' = task_identity s"
    using assms
    by (cases "current_task s")
      (simp_all add: update_current_task_phase_def now_ms_def in_world_def modify_run_def task_identity_def)
qed

lemma yields_diagnostic [yields_rules]:
  assumes "\<And>payload. P () (when_published E [(tk_trace_id t, event, payload)])"
  shows "yields (publish_streaming_diagnostic_event E t session event phase started details) P"
  unfolding publish_streaming_diagnostic_event_def using assms by (intro yields_rules) simp

lemma yields_stream_event [yields_rules]:
  assumes "\<And>payload. P () (when_published E [(tk_trace_id t, stream_event_name ev, payload)])"
  shows "yields (publish_stream_runtime_event E t session ev) P"
  unfolding publish_stream_runtime_event_def using assms by (intro yields_rules) simp


section \<open>Streams\<close>

text \<open>The result of a stream does not depend on the callback.\<close>

lemma lines_loop_result: "fst (lines_loop json_parse lines cb s w) = fst (lines_loop json_parse lines cb' s w')"
proof (induction json_parse lines cb s w arbitrary: cb' w' rule: lines_loop.induct)
  case (3 json_parse line rest cb s w)
  show ?case
  proof (cases "line_event json_parse line")
    case None
    then show ?thesis
      using 3(1) by simp
  next
    case (Some ev)
    show ?thesis
    proof (cases "stream_step ev s")
      case (Inr s')
      then show ?thesis
        using Some "3.IH"(2) [OF Some refl Inr] by (simp add: Let_def)
    qed (simp add: Some Let_def)
  qed
qed simp_all

lemma consume_result:
  "fst (consume_runtime_stream json_parse lines cb w) = fst (consume_runtime_stream json_parse lines None ())"
proof -
  have "fst (lines_loop json_parse lines cb init_stream w) = fst (lines_loop json_parse lines None init_stream ())"
    by (rule lines_loop_result)
  then show ?thesis
    by (auto simp: consume_runtime_stream_def split: prod.splits sum.splits)
qed

definition stream_outcome :: "'w worker_env \<Rightarrow> stream_line list \<Rightarrow> runtime_error + parsed_response \<times> json" where
  "stream_outcome E lines = fst (consume_runtime_stream (json_from_str E) lines None ())"

definition seen_events :: "'w worker_env \<Rightarrow> stream_line list \<Rightarrow> runtime_stream_event list" where
  "seen_events E lines = map from_stream_event (events_until_error (line_events (json_from_str E) lines))"

definition stream_event_names :: "runtime_stream_event list \<Rightarrow> string list" where
  "stream_event_names evs =
     (if evs = [] then [] else ''sdk_stream_first_event_observed'' # map stream_event_name evs)"

definition first_event :: "bool \<Rightarrow> string list" where
  "first_event seen = (if seen then [] else [''sdk_stream_first_event_observed''])"

lemma yields_observe:
  "yields (observe_stream_event E t session sdk seen ev)
     (\<lambda>r es. event_names es = when_published E (first_event seen @ [stream_event_name ev]))"
  unfolding observe_stream_event_def
  by (intro yields_rules) (simp_all add: first_event_def)

lemma on_stream_event_step:
  "\<exists>s' es. on_stream_event E t session sdk ev (seen, s) = (True, s') \<and> published s' = published s @ es \<and>
     event_names es = when_published E (first_event seen @ [stream_event_name ev]) \<and>
     metrics s' = metrics s \<and> task_identity s' = task_identity s"
proof -
  obtain r s' where r: "run_state (observe_stream_event E t session sdk seen ev) s = (r, s')"
    by (cases "run_state (observe_stream_event E t session sdk seen ev) s")
  from yieldsE [OF yields_observe r] obtain es where "published s' = published s @ es"
    "event_names es = when_published E (first_event seen @ [stream_event_name ev])"
    "metrics s' = metrics s" "task_identity s' = task_identity s"
    by blast
  then show ?thesis
    using r by (intro exI [of _ s'] exI [of _ es]) (simp add: on_stream_event_def)
qed

lemma on_stream_events:
  "\<exists>s' es. fold (on_stream_event E t session sdk) evs (seen, s) = (seen \<or> evs \<noteq> [], s') \<and> published s' = published s @ es \<and>
     event_names es = when_published E (if seen then map stream_event_name evs else stream_event_names evs) \<and>
     metrics s' = metrics s \<and> task_identity s' = task_identity s"
proof (induction evs arbitrary: seen s)
  case Nil
  show ?case
    by (simp add: stream_event_names_def)
next
  case (Cons ev evs)
  obtain s1 es where 1: "on_stream_event E t session sdk ev (seen, s) = (True, s1)" "published s1 = published s @ es"
    "event_names es = when_published E (first_event seen @ [stream_event_name ev])"
    "metrics s1 = metrics s" "task_identity s1 = task_identity s"
    using on_stream_event_step [of E t session sdk ev seen s] by blast
  obtain s2 fs where 2: "fold (on_stream_event E t session sdk) evs (True, s1) = (True, s2)" "published s2 = published s1 @ fs"
    "event_names fs = when_published E (map stream_event_name evs)"
    "metrics s2 = metrics s1" "task_identity s2 = task_identity s1"
    using Cons.IH [of True s1] by auto
  show ?case
    using 1 2 by (intro exI [of _ s2] exI [of _ "es @ fs"]) (simp add: stream_event_names_def first_event_def)
qed

lemma yields_lines [yields_rules]:
  assumes "\<And>es. event_names es = when_published E (stream_event_names (seen_events E lines)) \<Longrightarrow>
    P (stream_outcome E lines) es"
  shows "yields (consume_lines E t session sdk lines) P"
  unfolding yields_def
proof
  fix s
  let ?c = "consume_runtime_stream (json_from_str E) lines (Some (on_stream_event E t session sdk)) (False, s)"
  have "snd ?c = fold (on_stream_event E t session sdk) (seen_events E lines) (False, s)"
    by (simp add: consume_runtime_stream_world seen_events_def fold_map comp_def)
  then obtain s' es where "snd ?c = (seen_events E lines \<noteq> [], s')" "published s' = published s @ es"
    "event_names es = when_published E (stream_event_names (seen_events E lines))"
    "metrics s' = metrics s" "task_identity s' = task_identity s"
    using on_stream_events [of E t session sdk "seen_events E lines" False s] by auto
  moreover have "fst ?c = stream_outcome E lines"
    unfolding stream_outcome_def by (rule consume_result)
  ultimately show "\<exists>r s' es. run_state (consume_lines E t session sdk lines) s = (r, s') \<and>
      published s' = published s @ es \<and> P r es \<and> metrics s' = metrics s \<and> task_identity s' = task_identity s"
    using assms
    by (intro exI [of _ "stream_outcome E lines"] exI [of _ s'] exI [of _ es])
      (auto simp: consume_lines_def split: prod.split)
qed


section \<open>Calls\<close>

definition blocking_trace :: "'w worker_env \<Rightarrow> runtime_error + json \<Rightarrow> string list" where
  "blocking_trace E answer = when_published E ([''worker_api_call_started'', ''sdk_send_prompt_started''] @
     (case answer of
        Inr _ \<Rightarrow> [''sdk_send_prompt_finished'', ''worker_api_call_finished'']
      | Inl _ \<Rightarrow> [''sdk_send_prompt_failed'', ''worker_api_call_failed'']))"

fun result_of :: "runtime_error + json \<Rightarrow> execute_result" where
  "result_of (Inr v) = er_success v"
| "result_of (Inl e) = executor_failure e"

lemma yields_blocking [yields_rules]:
  assumes "\<And>w es. event_names es = blocking_trace E (fst (send_prompt (executor E) session prompt w)) \<Longrightarrow>
    P (result_of (fst (send_prompt (executor E) session prompt w))) es"
  shows "yields (execute_api_call_blocking E t session prompt) P"
proof -
  have ok: "P (er_success v) es"
    if "fst (send_prompt (executor E) session prompt w) = Inr v" "event_names es = blocking_trace E (Inr v)" for w v es
    using assms [of es w] that by simp
  have err: "P (executor_failure e) es"
    if "fst (send_prompt (executor E) session prompt w) = Inl e" "event_names es = blocking_trace E (Inl e)" for w e es
    using assms [of es w] that by simp
  show ?thesis
    unfolding execute_api_call_blocking_def
    by (intro yields_rules; (rule ok, assumption | rule err, assumption); simp add: blocking_trace_def)
qed

text \<open>The events of a streamed call, after the answer of the executor.\<close>

definition streaming_trace :: "'w worker_env \<Rightarrow> stream_line list \<Rightarrow> string list" where
  "streaming_trace E lines = when_published E (
     [''worker_api_call_started'', ''worker_api_call_streaming_started'', ''sdk_send_prompt_started'',
      ''sdk_stream_http_request_started'', ''sdk_stream_http_response_opened'', ''sdk_stream_sse_consume_started''] @
     stream_event_names (seen_events E lines) @
     (case stream_outcome E lines of
        Inr _ \<Rightarrow> [''sdk_send_prompt_finished'', ''worker_api_call_streaming_finished'', ''worker_api_call_finished'']
      | Inl _ \<Rightarrow> [''sdk_send_prompt_failed'', ''worker_api_call_streaming_failed'', ''worker_api_call_failed'']))"

definition refused_trace :: "'w worker_env \<Rightarrow> string list" where
  "refused_trace E = when_published E
     [''worker_api_call_started'', ''worker_api_call_streaming_started'', ''sdk_send_prompt_started'',
      ''sdk_stream_http_request_started'', ''sdk_send_prompt_failed'', ''worker_api_call_streaming_failed'',
      ''worker_api_call_failed'']"

definition opened_trace :: "'w worker_env \<Rightarrow> string list" where
  "opened_trace E = when_published E
     [''worker_api_call_started'', ''worker_api_call_streaming_started'', ''sdk_send_prompt_started'',
      ''sdk_stream_http_request_started'']"

lemma yields_open [yields_rules]:
  assumes "\<And>x y z es. event_names es = opened_trace E \<Longrightarrow> P (x, y, z) es"
  shows "yields (open_streaming_call E t session) P"
  unfolding open_streaming_call_def
  by (intro yields_rules; rule assms; simp add: opened_trace_def)

lemma yields_failure [yields_rules]:
  assumes "\<And>es. event_names es = when_published E
      [''sdk_send_prompt_failed'', ''worker_api_call_streaming_failed'', ''worker_api_call_failed''] \<Longrightarrow>
    P (executor_failure err) es"
  shows "yields (publish_streaming_failure E t session st op sdk err) P"
  unfolding publish_streaming_failure_def
  by (intro yields_rules; rule assms; simp)

lemma yields_success [yields_rules]:
  assumes "\<And>es. event_names es = when_published E
      [''sdk_send_prompt_finished'', ''worker_api_call_streaming_finished'', ''worker_api_call_finished''] \<Longrightarrow>
    P (er_success v) es"
  shows "yields (publish_streaming_success E t session st op sdk v) P"
  unfolding publish_streaming_success_def
  by (intro yields_rules; rule assms; simp)

text \<open>What a streamed call returns and publishes, for each answer of the executor.\<close>

definition streaming_spec ::
  "'w worker_env \<Rightarrow> string \<Rightarrow> json \<Rightarrow> execute_result \<Rightarrow> string list \<Rightarrow> bool" where
  "streaming_spec E session prompt r names \<longleftrightarrow>
     (\<exists>w. case fst (send_prompt_streaming (executor E) session prompt w) of
        Inr lines \<Rightarrow> r = result_of (map_sum id snd (stream_outcome E lines)) \<and> names = streaming_trace E lines
      | Inl e \<Rightarrow>
          if is_streaming_unsupported e
          then (\<exists>w'. let answer = fst (send_prompt (executor E) session prompt w')
                in r = result_of answer \<and> names = opened_trace E @ blocking_trace E answer)
          else r = executor_failure e \<and> names = refused_trace E)"

lemma yields_streaming [yields_rules]:
  assumes "\<And>r es. streaming_spec E session prompt r (event_names es) \<Longrightarrow> P r es"
  shows "yields (execute_api_call_streaming E t session prompt) P"
proof -
  have done1: "P (er_success v) es"
    if "fst (send_prompt_streaming (executor E) session prompt w) = Inr lines" "stream_outcome E lines = Inr q" "q = (p, v)"
      "event_names es = streaming_trace E lines" for w lines q p v es
    using that by (intro assms) (auto simp: streaming_spec_def intro!: exI [of _ w])
  have done2: "P (executor_failure e) es"
    if "fst (send_prompt_streaming (executor E) session prompt w) = Inr lines" "stream_outcome E lines = Inl e"
      "event_names es = streaming_trace E lines" for w lines e es
    using that by (intro assms) (auto simp: streaming_spec_def intro!: exI [of _ w])
  have refused: "P (executor_failure e) es"
    if "fst (send_prompt_streaming (executor E) session prompt w) = Inl e" "\<not> is_streaming_unsupported e"
      "event_names es = refused_trace E" for w e es
    using that by (intro assms) (auto simp: streaming_spec_def intro!: exI [of _ w])
  have fell_back: "P (result_of (fst (send_prompt (executor E) session prompt w'))) es"
    if "fst (send_prompt_streaming (executor E) session prompt w) = Inl e" "is_streaming_unsupported e"
      "event_names es = opened_trace E @ blocking_trace E (fst (send_prompt (executor E) session prompt w'))" for w w' e es
    by (rule assms, unfold streaming_spec_def, rule exI [of _ w]) (use that in \<open>auto simp: Let_def\<close>)
  show ?thesis
    unfolding execute_api_call_streaming_def
    by (intro yields_rules;
        (rule fell_back, assumption, assumption | rule refused, assumption, assumption
         | rule done1, assumption, assumption, assumption | rule done2, assumption, assumption);
        simp add: streaming_trace_def refused_trace_def opened_trace_def)
qed


section \<open>Tasks\<close>

definition malformed_task :: "task \<Rightarrow> bool" where
  "malformed_task t \<longleftrightarrow>
     tk_type t = ''api-call'' \<and>
       (json_str ''opencode-session-id'' (tk_payload t) = None \<or> json_get ''content'' (tk_payload t) = None) \<or>
     tk_type t = ''transform'' \<and> json_get ''data'' (tk_payload t) = None \<or>
     tk_type t = ''query'' \<and>
       (Option.bind (json_get ''query'' (tk_payload t)) as_array = None \<or> json_get ''context'' (tk_payload t) = None)"

text \<open>Every result of a task is one of the two shapes.\<close>

definition result_shape :: "execute_result \<Rightarrow> bool" where
  "result_shape r \<longleftrightarrow> (\<exists>v. r = er_success v) \<or> (\<exists>e. r = er_failure e)"

lemma result_shape_intros [simp]:
  "result_shape (er_success v)" "result_shape (er_failure e)" "result_shape (executor_failure x)"
  "result_shape (result_of a)"
  by (cases a; auto simp: result_shape_def executor_failure_def)+

lemma streaming_spec_shape:
  assumes "streaming_spec E session prompt r names"
  shows "result_shape r"
proof -
  obtain w where w: "case fst (send_prompt_streaming (executor E) session prompt w) of
        Inr lines \<Rightarrow> r = result_of (map_sum id snd (stream_outcome E lines)) \<and> names = streaming_trace E lines
      | Inl e \<Rightarrow>
          if is_streaming_unsupported e
          then (\<exists>w'. let answer = fst (send_prompt (executor E) session prompt w')
                in r = result_of answer \<and> names = opened_trace E @ blocking_trace E answer)
          else r = executor_failure e \<and> names = refused_trace E"
    using assms unfolding streaming_spec_def by blast
  show ?thesis
    using w by (cases "fst (send_prompt_streaming (executor E) session prompt w)") (auto simp: Let_def split: if_splits)
qed

lemma execute_api_call:
  "tk_type t = ''api-call'' \<Longrightarrow> execute_task E t =
     (case (json_str ''opencode-session-id'' (tk_payload t), json_get ''content'' (tk_payload t)) of
        (Some session, Some prompt) \<Rightarrow>
          if should_stream_api_call t then execute_api_call_streaming E t session prompt
          else execute_api_call_blocking E t session prompt
      | _ \<Rightarrow> State_Monad.return (er_failure ''Missing required fields: opencode-session-id or content''))"
  unfolding execute_task_def by (rule if_P)

lemma execute_transform:
  "tk_type t = ''transform'' \<Longrightarrow> execute_task E t = State_Monad.return
     (case json_get ''data'' (tk_payload t) of Some d \<Rightarrow> er_success d | None \<Rightarrow> er_failure ''Missing transform data'')"
  unfolding execute_task_def by simp

lemma execute_query:
  "tk_type t = ''query'' \<Longrightarrow> execute_task E t = State_Monad.return
     (case (Option.bind (json_get ''query'' (tk_payload t)) as_array, json_get ''context'' (tk_payload t)) of
        (Some path, Some ctx) \<Rightarrow> (case query_path path ctx of Inl e \<Rightarrow> er_failure e | Inr v \<Rightarrow> er_success v)
      | _ \<Rightarrow> er_failure ''Missing query or context'')"
  unfolding execute_task_def by simp

lemma yields_task: "yields (execute_task E t) (\<lambda>r es. result_shape r)"
  unfolding execute_task_def
  by (auto intro!: yields_rules dest: streaming_spec_shape split: option.split sum.split)

definition missing_texts :: "string list" where
  "missing_texts = [''Missing required fields: opencode-session-id or content'', ''Missing transform data'',
     ''Missing query or context'']"

definition unclassified_text :: "string \<Rightarrow> bool" where
  "unclassified_text raw \<longleftrightarrow> \<not> session_create_text raw (ascii_lower raw) \<and>
     classify_plan_execute_error raw (ascii_lower raw) = None \<and> classify_worker_pool_error raw = None"

lemma classify_unclassified:
  "unclassified_text raw \<Longrightarrow> classify_runtime_error (Some raw) stage = classify_rest raw stage"
  by (simp add: unclassified_text_def classify_runtime_error_def classify_session_create_error_def Let_def)

lemma missing_text_class:
  assumes "e \<in> set missing_texts"
  shows "classify_runtime_error (Some e) stage = error_info_of (runtime_error InvalidTaskPayload (fallback_stage_of stage) e)"
proof -
  have "list_all (\<lambda>e. unclassified_text e \<and>
      any_in [''Missing required fields'', ''Missing query'', ''Missing transform data''] e) missing_texts"
    by code_simp
  then have "unclassified_text e" "any_in [''Missing required fields'', ''Missing query'', ''Missing transform data''] e"
    using assms by (auto simp: list_all_iff)
  then show ?thesis
    unfolding classify_unclassified [OF \<open>unclassified_text e\<close>]
    by (simp add: classify_rest_def unclassified_text_def)
qed


section \<open>Properties\<close>

text \<open>
  C13. The calls of a worker are traced exactly: an api-call task publishes, whatever the executor answers,
  the events of its branch and no others, each opened span closed by the event of the outcome (a streamed
  call also has one event per stream event, in order), and its result is the executor's answer.
\<close>
theorem api_call_events_exact:
  assumes "tk_type t = ''api-call''" "json_str ''opencode-session-id'' (tk_payload t) = Some session"
    "json_get ''content'' (tk_payload t) = Some prompt" "run_state (execute_task E t) s = (r, s')"
  shows "\<exists>es. published s' = published s @ es \<and>
    (if should_stream_api_call t then streaming_spec E session prompt r (event_names es)
     else \<exists>w. r = result_of (fst (send_prompt (executor E) session prompt w)) \<and>
            event_names es = blocking_trace E (fst (send_prompt (executor E) session prompt w)))"
proof -
  have "yields (execute_task E t) (\<lambda>r es. if should_stream_api_call t then streaming_spec E session prompt r (event_names es)
     else \<exists>w. r = result_of (fst (send_prompt (executor E) session prompt w)) \<and>
            event_names es = blocking_trace E (fst (send_prompt (executor E) session prompt w)))"
    using assms(1-3) unfolding execute_task_def by (auto intro!: yields_rules)
  from yieldsE [OF this assms(4)] show ?thesis
    by metis
qed

definition demo_executor :: "unit executor" where
  "demo_executor = \<lparr>send_prompt = (\<lambda>sid c w. (Inr c, w)), create_session = (\<lambda>w. (Inr JNull, w)),
     send_prompt_streaming = (\<lambda>sid c w. (Inr [Inr ''data: start'', Inr ''data:stop''], w)), provider_label = ''demo''\<rparr>"

definition demo_env :: "unit worker_env" where
  "demo_env = \<lparr>we_id = ''w1'', executor = demo_executor, has_publisher = True, clock = (\<lambda>w. (7, w)),
     json_from_str = demo_line_parser\<rparr>"

definition demo_call :: "bool \<Rightarrow> task" where
  "demo_call streamed = \<lparr>tk_id = ''t1'', tk_trace_id = ''tr'', tk_type = ''api-call'',
     tk_payload = JObject [(''opencode-session-id'', JString ''s1''), (''content'', JString ''hi'')],
     tk_priority = 5, tk_timeout_ms = 60000,
     tk_metadata = JObject [(''orchestration_subtask'', JBool True), (''streaming_observable'', JBool streamed)]\<rparr>"

definition demo_run :: "unit worker_run" where
  "demo_run = \<lparr>run_world = (), published = [], current_task = None, metrics = zero_metrics\<rparr>"

lemma api_call_events_exact_witness:
  "\<exists>s'. run_state (execute_task demo_env (demo_call False)) demo_run = (er_success (JString ''hi''), s') \<and>
     event_names (published s') = [''worker_api_call_started'', ''sdk_send_prompt_started'', ''sdk_send_prompt_finished'',
       ''worker_api_call_finished'']"
proof -
  obtain r s' where r: "run_state (execute_task demo_env (demo_call False)) demo_run = (r, s')"
    by (cases "run_state (execute_task demo_env (demo_call False)) demo_run")
  have "tk_type (demo_call False) = ''api-call''"
    "json_str ''opencode-session-id'' (tk_payload (demo_call False)) = Some ''s1''"
    "json_get ''content'' (tk_payload (demo_call False)) = Some (JString ''hi'')"
    by (simp_all add: demo_call_def)
  from api_call_events_exact [OF this r] obtain es where "published s' = published demo_run @ es"
    "r = er_success (JString ''hi'')" "event_names es = blocking_trace demo_env (Inr (JString ''hi''))"
    by (auto simp: should_stream_api_call_def demo_call_def demo_env_def demo_executor_def)
  then show ?thesis
    using r by (simp add: demo_run_def blocking_trace_def when_published_def demo_env_def)
qed

text \<open>
  C14. A worker is clean after every task: its current task is cleared, the result carries the identifiers of
  the task and of the worker and has either a value or an error, the metrics count the task once as
  completed or as an error and add its duration (never a timeout), and the last event is the clean-up.
\<close>
theorem worker_thread_clean:
  "case run_state (worker_thread E t) s of (r, s') \<Rightarrow>
     current_task s' = None \<and> res_task_id r = tk_id t \<and> res_trace_id r = tk_trace_id t \<and>
     res_worker_id r = Some (we_id E) \<and>
     (res_status r, res_result r = None, res_error r = None) \<in> {(''success'', False, True), (''failure'', True, False)} \<and>
     metrics s' = (metrics s)
       \<lparr>tasks_completed := tasks_completed (metrics s) + (if res_status r = ''success'' then 1 else 0),
        errors := errors (metrics s) + (if res_status r = ''success'' then 0 else 1),
        total_duration_ms := total_duration_ms (metrics s) + res_duration_ms r\<rparr> \<and>
     (\<exists>es. event_names (published s') = event_names (published s) @ es
        @ when_published E [''worker_task_cleanup_finished''])"
proof -
  obtain s1 where 1: "run_state (start_task E t) s = ((), s1)"
    by (cases "run_state (start_task E t) s") auto
  obtain n s2 where 2: "run_state (now_ms E) s1 = (n, s2)"
    by (cases "run_state (now_ms E) s1")
  obtain r s3 where 3: "run_state (execute_task E t) s2 = (r, s3)"
    by (cases "run_state (execute_task E t) s2")
  obtain m s4 where 4: "run_state (now_ms E) s3 = (m, s4)"
    by (cases "run_state (now_ms E) s3")
  obtain res s5 where 5: "run_state (finish_task E t r (saturating_sub m n)) s4 = (res, s5)"
    by (cases "run_state (finish_task E t r (saturating_sub m n)) s4")
  have s1: "published s1 = published s" "metrics s1 = metrics s"
    using 1 by (auto simp: start_task_def now_ms_def in_world_def modify_run_def)
  have s2: "published s2 = published s1" "metrics s2 = metrics s1"
    using 2 by (auto simp: now_ms_def in_world_def)
  obtain es where s3: "published s3 = published s2 @ es" "metrics s3 = metrics s2" "result_shape r"
    using yieldsE [OF yields_task 3] by metis
  have s4: "published s4 = published s3" "metrics s4 = metrics s3"
    using 4 by (auto simp: now_ms_def in_world_def)
  have "run_state (worker_thread E t) s = (res, s5)"
    using 1 2 3 4 5 by (simp add: worker_thread_def)
  moreover have "event_names (published s5) = event_names (published s4) @ when_published E [''worker_task_cleanup_finished'']"
    using 5 by (auto simp: finish_task_def now_ms_def in_world_def modify_run_def publish_runtime_event_def when_published_def)
  moreover have "current_task s5 = None" "res_task_id res = tk_id t" "res_trace_id res = tk_trace_id t"
    "res_worker_id res = Some (we_id E)" "res_status res = er_status r" "res_result res = er_result r"
    "res_error res = er_error r" "res_duration_ms res = saturating_sub m n"
    "metrics s5 = count_result (er_status r) (saturating_sub m n) (metrics s4)"
    using 5 by (auto simp: finish_task_def now_ms_def in_world_def modify_run_def publish_runtime_event_def make_task_result_def)
  ultimately show ?thesis
    using s1 s2 s3 s4
    by (auto simp: result_shape_def er_success_def er_failure_def count_result_def)
qed

text \<open>
  The failures a worker reports itself are recognised from their text: a task with a missing field never
  reaches the executor, and at every stage its error is classified as an invalid payload.
\<close>
theorem malformed_task_classified:
  assumes "malformed_task t"
  shows "\<exists>e. run_state (execute_task E t) s = (er_failure e, s) \<and>
     classify_runtime_error (Some e) stage = error_info_of (runtime_error InvalidTaskPayload (fallback_stage_of stage) e)"
proof -
  have "\<exists>e \<in> set missing_texts. run_state (execute_task E t) s = (er_failure e, s)"
    using assms unfolding malformed_task_def
    by (elim disjE conjE) (simp_all add: execute_api_call execute_transform execute_query missing_texts_def split: option.split)
  then show ?thesis
    using missing_text_class by blast
qed

lemma malformed_task_classified_witness:
  "\<exists>e. run_state (execute_task demo_env \<lparr>tk_id = ''t'', tk_trace_id = ''r'', tk_type = ''transform'', tk_payload = JObject [],
      tk_priority = 5, tk_timeout_ms = 60000, tk_metadata = JObject []\<rparr>) demo_run = (er_failure e, demo_run) \<and>
     info_code (classify_runtime_error (Some e) (Some ''plan_execute'')) = ''invalid_task_payload''"
proof -
  have "malformed_task \<lparr>tk_id = ''t'', tk_trace_id = ''r'', tk_type = ''transform'', tk_payload = JObject [],
      tk_priority = 5, tk_timeout_ms = 60000, tk_metadata = JObject []\<rparr>"
    by (simp add: malformed_task_def)
  from malformed_task_classified [OF this, of demo_env demo_run "Some ''plan_execute''"] show ?thesis
    by auto
qed

end
