(* ===== verification/Worker_Pool.thy ===== *)
theory Worker_Pool
  imports Worker_Events
begin

text \<open>
  The worker pool (\<open>worker/core.rs\<close>, \<open>WorkerPool\<close>) with its clients and threads.  Workers are shared
  objects (\<open>Arc\<close>): \<open>agents\<close> is the store, an address is a position in it, and \<open>slots\<close> is the vector of
  the pool, so a worker that was scaled away still finishes its task.  The atomic actions of the spawned
  threads are the rules of \<open>thread_step\<close>, those of the callers of \<open>submit_task\<close> and of the operators the
  other rules of \<open>pool_step\<close>; between choosing a worker and the swap of its busy flag any other action may
  happen, as in the code.  A thread whose task panics unwinds: its guard frees the worker, and its caller
  finds the channel closed.
\<close>

record agent =
  ag_id :: string
  ag_running :: bool
  ag_busy :: bool
  ag_metrics :: worker_metrics
  ag_current :: "current_task_info option"
  ag_publisher :: bool
  ag_timeout_ms :: nat

definition new_agent :: "string \<Rightarrow> nat option \<Rightarrow> agent" where
  "new_agent uuid timeout =
     \<lparr>ag_id = uuid, ag_running = False, ag_busy = False, ag_metrics = zero_metrics, ag_current = None,
      ag_publisher = False, ag_timeout_ms = unwrap_or 60000 timeout\<rparr>"

definition agent_status :: "agent \<Rightarrow> string" where
  "agent_status a = (if \<not> ag_running a then ''stopped'' else if ag_busy a then ''busy'' else ''idle'')"

record worker_status =
  ws_id :: string
  ws_status :: string
  ws_metrics :: worker_metrics
  ws_current :: "current_task_info option"

definition worker_status_of :: "agent \<Rightarrow> worker_status" where
  "worker_status_of a =
     \<lparr>ws_id = ag_id a, ws_status = agent_status a, ws_metrics = ag_metrics a, ws_current = ag_current a\<rparr>"

record worker_pool =
  agents :: "agent list"
  slots :: "nat list"
  pool_running :: bool
  next_index :: nat
  max_wait_ms :: nat
  min_size :: nat
  max_size :: nat
  pool_publisher :: bool
  worker_timeout :: "nat option"

definition at :: "worker_pool \<Rightarrow> nat \<Rightarrow> agent" where
  "at p a = agents p ! a"

definition set_agent :: "nat \<Rightarrow> (agent \<Rightarrow> agent) \<Rightarrow> worker_pool \<Rightarrow> worker_pool" where
  "set_agent a f p = p\<lparr>agents := (agents p)[a := f (at p a)]\<rparr>"

definition new_pool :: "string list \<Rightarrow> nat option \<Rightarrow> nat option \<Rightarrow> nat option \<Rightarrow> worker_pool" where
  "new_pool uuids initial_size timeout max_wait =
     (let size = max (unwrap_or 2 initial_size) 1
      in \<lparr>agents = map (\<lambda>u. new_agent u timeout) (take size uuids), slots = [0..<length (take size uuids)],
          pool_running = False, next_index = 0, max_wait_ms = unwrap_or 5000 max_wait, min_size = 1, max_size = 16,
          pool_publisher = False, worker_timeout = timeout\<rparr>)"

definition with_bounds :: "nat \<Rightarrow> nat \<Rightarrow> worker_pool \<Rightarrow> worker_pool" where
  "with_bounds lo hi p = p\<lparr>min_size := max lo 1, max_size := max hi (max lo 1)\<rparr>"

text \<open>The publisher is set while the pool is built and no worker is shared yet.\<close>

definition with_pool_publisher :: "worker_pool \<Rightarrow> worker_pool" where
  "with_pool_publisher p =
     fold (\<lambda>a. set_agent a (\<lambda>w. w\<lparr>ag_publisher := True\<rparr>)) (slots p) (p\<lparr>pool_publisher := True\<rparr>)"

definition start_pool :: "worker_pool \<Rightarrow> worker_pool" where
  "start_pool p = fold (\<lambda>a. set_agent a (\<lambda>w. w\<lparr>ag_running := True\<rparr>)) (slots p) (p\<lparr>pool_running := True\<rparr>)"

definition stop_pool :: "worker_pool \<Rightarrow> worker_pool" where
  "stop_pool p = fold (\<lambda>a. set_agent a (\<lambda>w. w\<lparr>ag_running := False\<rparr>)) (slots p) (p\<lparr>pool_running := False\<rparr>)"

definition pool_size :: "worker_pool \<Rightarrow> nat" where
  "pool_size p = length (slots p)"

definition pool_status :: "worker_pool \<Rightarrow> string \<times> nat \<times> worker_status list" where
  "pool_status p =
     (if pool_running p then ''running'' else ''stopped'', pool_size p, map (\<lambda>a. worker_status_of (at p a)) (slots p))"


section \<open>Scaling\<close>

definition clamp :: "nat \<Rightarrow> nat \<Rightarrow> nat \<Rightarrow> nat" where
  "clamp x lo hi = (if x < lo then lo else if hi < x then hi else x)"

definition add_worker :: "string \<Rightarrow> worker_pool \<Rightarrow> worker_pool" where
  "add_worker uuid p =
     (let w = new_agent uuid (worker_timeout p);
          w = (if pool_publisher p then w\<lparr>ag_publisher := True\<rparr> else w);
          w = (if pool_running p then w\<lparr>ag_running := True\<rparr> else w)
      in p\<lparr>agents := agents p @ [w], slots := slots p @ [length (agents p)]\<rparr>)"

definition pop_worker :: "worker_pool \<Rightarrow> worker_pool" where
  "pop_worker p =
     (if slots p = [] then p
      else set_agent (List.last (slots p)) (\<lambda>w. w\<lparr>ag_running := False\<rparr>) (p\<lparr>slots := butlast (slots p)\<rparr>))"

definition scale_to :: "string list \<Rightarrow> nat \<Rightarrow> worker_pool \<Rightarrow> nat \<times> worker_pool" where
  "scale_to uuids target p =
     (let target = clamp target (min_size p) (max_size p);
          cur = length (slots p);
          p' = (if cur < target then fold add_worker (take (target - cur) uuids) p
                else (pop_worker ^^ (cur - target)) p)
      in (length (slots p'), p'))"


section \<open>Submitting\<close>

text \<open>\<open>next_available_worker\<close>: round robin over the slots.\<close>

fun scan_slots :: "worker_pool \<Rightarrow> nat \<Rightarrow> nat list \<Rightarrow> nat option" where
  "scan_slots p start [] = None"
| "scan_slots p start (offset # os) =
     (let a = slots p ! ((start + offset) mod length (slots p))
      in if ag_running (at p a) \<and> \<not> ag_busy (at p a) then Some a else scan_slots p start os)"

definition next_available_worker :: "worker_pool \<Rightarrow> nat option \<times> worker_pool" where
  "next_available_worker p =
     (if slots p = [] then (None, p)
      else (scan_slots p (next_index p) [0..<length (slots p)], p\<lparr>next_index := next_index p + 1\<rparr>))"

definition refusal :: "string \<Rightarrow> nat \<Rightarrow> string option \<Rightarrow> task \<Rightarrow> task_result" where
  "refusal err duration wid t = make_task_result
     \<lparr>mr_task_id = tk_id t, mr_trace_id = tk_trace_id t, mr_status = ''failure'', mr_result = None,
      mr_error = Some err, mr_duration_ms = duration, mr_worker_id = wid\<rparr>"

text \<open>\<open>WorkerAgent::submit_task\<close>: an immediate refusal, or a spawned thread and a busy worker.\<close>

definition agent_submit :: "nat \<Rightarrow> task \<Rightarrow> worker_pool \<Rightarrow> task_result option \<times> worker_pool" where
  "agent_submit a t p =
     (if \<not> ag_running (at p a) then (Some (refusal ''Worker is not running'' 0 (Some (ag_id (at p a))) t), p)
      else if ag_busy (at p a) then (Some (refusal ''Worker is busy'' 0 (Some (ag_id (at p a))) t), p)
      else (None, set_agent a (\<lambda>w. w\<lparr>ag_busy := True\<rparr>) p))"


section \<open>Clients and threads\<close>

datatype client_phase =
    Entering
  | Scanning nat
  | Chose nat
  | Accepted
  | Refused task_result
  | Answered task_result
  | Disconnected

record client =
  cl_task :: task
  cl_phase :: client_phase

datatype thread_phase = Spawned | Started nat | Sent | Unwinding

record pool_thread =
  th_client :: nat
  th_agent :: nat
  th_phase :: thread_phase

text \<open>
  \<open>pe_panic\<close> is a behaviour of the code behind the trait objects (executor, publisher): \<open>Some w'\<close> when the
  run of the task that starts in world \<open>w\<close> panics and leaves \<open>w'\<close>.
\<close>

record 'w pool_env =
  pe_executor :: "'w executor"
  pe_clock :: "'w \<Rightarrow> nat \<times> 'w"
  pe_json :: json_parser
  pe_panic :: "task \<Rightarrow> 'w \<Rightarrow> 'w option"

record 'w pool_run =
  pool :: worker_pool
  clients :: "client list"
  threads :: "pool_thread list"
  pool_world :: 'w
  pool_log :: event_log

definition agent_env :: "'w pool_env \<Rightarrow> agent \<Rightarrow> 'w worker_env" where
  "agent_env P w =
     \<lparr>we_id = ag_id w, executor = pe_executor P, has_publisher = ag_publisher w, clock = pe_clock P,
      json_from_str = pe_json P\<rparr>"

definition set_phase :: "nat \<Rightarrow> client_phase \<Rightarrow> 'w pool_run \<Rightarrow> 'w pool_run" where
  "set_phase i ph s = s\<lparr>clients := (clients s)[i := (clients s ! i)\<lparr>cl_phase := ph\<rparr>]\<rparr>"

text \<open>A thread runs a piece of the worker's code on its own worker, the world and the log.\<close>

definition run_on_agent :: "'w pool_env \<Rightarrow> nat \<Rightarrow> ('w worker_env \<Rightarrow> ('w, 'a) worker_m) \<Rightarrow> 'w pool_run \<Rightarrow> 'a \<times> 'w pool_run" where
  "run_on_agent P a m s =
     (let w = at (pool s) a;
          (r, s') = run_state (m (agent_env P w))
            \<lparr>run_world = pool_world s, published = pool_log s, current_task = ag_current w, metrics = ag_metrics w\<rparr>
      in (r, s\<lparr>pool := set_agent a (\<lambda>w. w\<lparr>ag_current := current_task s', ag_metrics := metrics s'\<rparr>) (pool s),
               pool_world := run_world s', pool_log := published s'\<rparr>))"

text \<open>The first two lines of the thread, and the rest up to the sending of the result.\<close>

definition thread_begin :: "task \<Rightarrow> 'w worker_env \<Rightarrow> ('w, nat) worker_m" where
  "thread_begin t E = do { start_task E t; now_ms E }"

definition thread_end :: "task \<Rightarrow> nat \<Rightarrow> 'w worker_env \<Rightarrow> ('w, task_result) worker_m" where
  "thread_end t start E = do {
     result \<leftarrow> execute_task E t;
     stop \<leftarrow> now_ms E;
     finish_task E t result (saturating_sub stop start)
   }"

lemma worker_thread_split: "worker_thread E t = do { start \<leftarrow> thread_begin t E; thread_end t start E }"
  by (simp add: worker_thread_def thread_begin_def thread_end_def)

text \<open>The drop of \<open>PanicGuard\<close>, at the end of the thread or on unwinding.\<close>

definition drop_guard :: "nat \<Rightarrow> worker_pool \<Rightarrow> worker_pool" where
  "drop_guard a p = set_agent a (\<lambda>w. w\<lparr>ag_busy := False\<rparr>) p"

definition remove_at :: "nat \<Rightarrow> 'a list \<Rightarrow> 'a list" where
  "remove_at j xs = take j xs @ drop (Suc j) xs"

text \<open>
  The current task that a panic leaves on the worker: the one of the thread, with the phase it had reached,
  or none when the panic comes from the publisher in the cleanup.
\<close>

definition abandoned_task :: "current_task_info option \<Rightarrow> current_task_info option \<Rightarrow> bool" where
  "abandoned_task cur cur' \<longleftrightarrow> cur' = None \<or>
     (\<exists>ph at. cur' = map_option (\<lambda>i. i\<lparr>ct_phase := ph, ct_last_progress_at_ms := at\<rparr>) cur)"

text \<open>
  The actions of the thread of client \<open>i\<close>.  On unwinding the guard is dropped first, and then the sender of
  the channel with the other captures of the closure; nobody can act on the closed channel in between, so
  this is one action.
\<close>

inductive thread_step :: "'w pool_env \<Rightarrow> nat \<Rightarrow> 'w pool_run \<Rightarrow> 'w pool_run \<Rightarrow> bool"
  for P :: "'w pool_env" and i :: nat where
  thread_started:
    "j < length (threads s) \<Longrightarrow> th_client (threads s ! j) = i \<Longrightarrow> th_phase (threads s ! j) = Spawned \<Longrightarrow>
     run_on_agent P (th_agent (threads s ! j)) (thread_begin (cl_task (clients s ! i))) s = (t0, s') \<Longrightarrow>
     thread_step P i s (s'\<lparr>threads := (threads s)[j := (threads s ! j)\<lparr>th_phase := Started t0\<rparr>]\<rparr>)"
| thread_sent:
    "j < length (threads s) \<Longrightarrow> th_client (threads s ! j) = i \<Longrightarrow> th_phase (threads s ! j) = Started t0 \<Longrightarrow>
     pe_panic P (cl_task (clients s ! i)) (pool_world s) = None \<Longrightarrow>
     run_on_agent P (th_agent (threads s ! j)) (thread_end (cl_task (clients s ! i)) t0) s = (r, s') \<Longrightarrow>
     thread_step P i s (set_phase i (Answered r)
       (s'\<lparr>threads := (threads s)[j := (threads s ! j)\<lparr>th_phase := Sent\<rparr>]\<rparr>))"
| thread_panicked:
    "j < length (threads s) \<Longrightarrow> th_client (threads s ! j) = i \<Longrightarrow> th_phase (threads s ! j) = Started t0 \<Longrightarrow>
     pe_panic P (cl_task (clients s ! i)) (pool_world s) = Some w \<Longrightarrow>
     abandoned_task (ag_current (at (pool s) (th_agent (threads s ! j)))) cur \<Longrightarrow>
     thread_step P i s (s\<lparr>pool := set_agent (th_agent (threads s ! j)) (\<lambda>x. x\<lparr>ag_current := cur\<rparr>) (pool s),
       threads := (threads s)[j := (threads s ! j)\<lparr>th_phase := Unwinding\<rparr>],
       pool_world := w, pool_log := pool_log s @ events\<rparr>)"
| thread_released:
    "j < length (threads s) \<Longrightarrow> th_client (threads s ! j) = i \<Longrightarrow> th_phase (threads s ! j) = Sent \<Longrightarrow>
     thread_step P i s (s\<lparr>pool := drop_guard (th_agent (threads s ! j)) (pool s), threads := remove_at j (threads s)\<rparr>)"
| thread_unwound:
    "j < length (threads s) \<Longrightarrow> th_client (threads s ! j) = i \<Longrightarrow> th_phase (threads s ! j) = Unwinding \<Longrightarrow>
     thread_step P i s (set_phase i Disconnected
       (s\<lparr>pool := drop_guard (th_agent (threads s ! j)) (pool s), threads := remove_at j (threads s)\<rparr>))"

inductive pool_step :: "'w pool_env \<Rightarrow> 'w pool_run \<Rightarrow> 'w pool_run \<Rightarrow> bool" for P :: "'w pool_env" where
  call: "pool_step P s (s\<lparr>clients := clients s @ [\<lparr>cl_task = t, cl_phase = Entering\<rparr>]\<rparr>)"
| start: "pool_step P s (s\<lparr>pool := start_pool (pool s)\<rparr>)"
| stop: "pool_step P s (s\<lparr>pool := stop_pool (pool s)\<rparr>)"
| scale: "pool_step P s (s\<lparr>pool := snd (scale_to uuids target (pool s))\<rparr>)"
| enter_stopped:
    "i < length (clients s) \<Longrightarrow> cl_phase (clients s ! i) = Entering \<Longrightarrow> \<not> pool_running (pool s) \<Longrightarrow>
     pool_step P s (set_phase i (Refused (refusal ''Worker pool is not running'' 0 None (cl_task (clients s ! i)))) s)"
| enter:
    "i < length (clients s) \<Longrightarrow> cl_phase (clients s ! i) = Entering \<Longrightarrow> pool_running (pool s) \<Longrightarrow>
     pe_clock P (pool_world s) = (now, w) \<Longrightarrow>
     pool_step P s (set_phase i (Scanning now) (s\<lparr>pool_world := w\<rparr>))"
| scan_found:
    "i < length (clients s) \<Longrightarrow> cl_phase (clients s ! i) = Scanning started \<Longrightarrow>
     next_available_worker (pool s) = (Some a, p) \<Longrightarrow>
     pool_step P s (set_phase i (Chose a) (s\<lparr>pool := p\<rparr>))"
| scan_none:
    "i < length (clients s) \<Longrightarrow> cl_phase (clients s ! i) = Scanning started \<Longrightarrow>
     next_available_worker (pool s) = (None, p) \<Longrightarrow> pe_clock P (pool_world s) = (now, w) \<Longrightarrow>
     pool_step P s (set_phase i
       (if max_wait_ms p \<le> saturating_sub now started
        then Refused (refusal ''No available worker'' (saturating_sub now started) None (cl_task (clients s ! i)))
        else Scanning started)
       (s\<lparr>pool := p, pool_world := w\<rparr>))"
| submit_refused:
    "i < length (clients s) \<Longrightarrow> cl_phase (clients s ! i) = Chose a \<Longrightarrow>
     agent_submit a (cl_task (clients s ! i)) (pool s) = (Some r, p) \<Longrightarrow>
     pool_step P s (set_phase i (Refused r) (s\<lparr>pool := p\<rparr>))"
| submit_accepted:
    "i < length (clients s) \<Longrightarrow> cl_phase (clients s ! i) = Chose a \<Longrightarrow>
     agent_submit a (cl_task (clients s ! i)) (pool s) = (None, p) \<Longrightarrow>
     pool_step P s (set_phase i Accepted
       (s\<lparr>pool := p, threads := threads s @ [\<lparr>th_client = i, th_agent = a, th_phase = Spawned\<rparr>]\<rparr>))"
| thread: "thread_step P i s s' \<Longrightarrow> pool_step P s s'"

definition initial_run :: "worker_pool \<Rightarrow> 'w \<Rightarrow> 'w pool_run" where
  "initial_run p w = \<lparr>pool = p, clients = [], threads = [], pool_world = w, pool_log = []\<rparr>"

definition pool_reachable :: "'w pool_env \<Rightarrow> worker_pool \<Rightarrow> 'w \<Rightarrow> 'w pool_run \<Rightarrow> bool" where
  "pool_reachable P p w s \<longleftrightarrow> (pool_step P)\<^sup>*\<^sup>* (initial_run p w) s"

end
