(* ===== verification/Pool_Safety.thy ===== *)
theory Pool_Safety
  imports Worker_Pool
begin

text \<open>
  The invariants of the worker pool under every interleaving of its clients, threads and operators: a
  worker runs one task at a time and is busy exactly while it has a thread, every accepted task has one
  thread and is answered with its own identifiers, every refusal is one of the pool's own texts, and only a
  panic disconnects a caller.
\<close>

section \<open>The store of workers\<close>

text \<open>What starting, stopping and scaling leave alone.\<close>

definition core :: "agent \<Rightarrow> string \<times> bool \<times> current_task_info option \<times> worker_metrics" where
  "core w = (ag_id w, ag_busy w, ag_current w, ag_metrics w)"

lemma set_agent_simps [simp]:
  "length (agents (set_agent a f p)) = length (agents p)" "slots (set_agent a f p) = slots p"
  "pool_running (set_agent a f p) = pool_running p" "next_index (set_agent a f p) = next_index p"
  "min_size (set_agent a f p) = min_size p" "max_size (set_agent a f p) = max_size p"
  "pool_publisher (set_agent a f p) = pool_publisher p" "worker_timeout (set_agent a f p) = worker_timeout p"
  by (simp_all add: set_agent_def)

lemma at_set_agent: "at (set_agent a f p) b = (if b = a \<and> a < length (agents p) then f (at p a) else at p b)"
  by (cases "a < length (agents p)") (auto simp: set_agent_def at_def list_update_beyond not_less)

lemma core_set_agent:
  "(\<And>w. core (f w) = core w) \<Longrightarrow> map core (agents (set_agent a f p)) = map core (agents p)"
  by (simp add: set_agent_def at_def map_update) (metis length_map list_update_beyond list_update_id not_less nth_map)

lemma core_fold_agents:
  "(\<And>w. core (f w) = core w) \<Longrightarrow>
   map core (agents (fold (\<lambda>a. set_agent a f) as p)) = map core (agents p) \<and> slots (fold (\<lambda>a. set_agent a f) as p) = slots p"
  by (induction as arbitrary: p) (simp_all add: core_set_agent)

lemma core_start: "map core (agents (start_pool p)) = map core (agents p)" "slots (start_pool p) = slots p"
  using core_fold_agents [of "\<lambda>w. w\<lparr>ag_running := True\<rparr>" "slots p" "p\<lparr>pool_running := True\<rparr>"]
  by (simp_all add: start_pool_def core_def)

lemma core_stop: "map core (agents (stop_pool p)) = map core (agents p)" "slots (stop_pool p) = slots p"
  using core_fold_agents [of "\<lambda>w. w\<lparr>ag_running := False\<rparr>" "slots p" "p\<lparr>pool_running := False\<rparr>"]
  by (simp_all add: stop_pool_def core_def)

definition pool_ok :: "worker_pool \<Rightarrow> bool" where
  "pool_ok p \<longleftrightarrow> distinct (slots p) \<and> (\<forall>a \<in> set (slots p). a < length (agents p))"

text \<open>\<open>p'\<close> has the workers of \<open>p\<close>, with what they do, and possibly new idle ones.\<close>

definition extends :: "worker_pool \<Rightarrow> worker_pool \<Rightarrow> bool" where
  "extends p p' \<longleftrightarrow> length (agents p) \<le> length (agents p') \<and>
     (\<forall>a < length (agents p). core (at p' a) = core (at p a)) \<and>
     (\<forall>a. length (agents p) \<le> a \<longrightarrow> a < length (agents p') \<longrightarrow>
        \<not> ag_busy (at p' a) \<and> ag_current (at p' a) = None \<and> ag_metrics (at p' a) = zero_metrics)"

lemma extends_refl [simp]: "extends p p"
  by (simp add: extends_def)

lemma core_eqD: "core v = core w \<Longrightarrow> ag_busy v = ag_busy w \<and> ag_current v = ag_current w \<and> ag_metrics v = ag_metrics w \<and> ag_id v = ag_id w"
  by (simp add: core_def)

lemma extends_trans:
  assumes "extends p q" "extends q r"
  shows "extends p r"
  unfolding extends_def
proof (intro conjI allI impI)
  show "length (agents p) \<le> length (agents r)"
    using assms by (simp add: extends_def)
  show "core (at r a) = core (at p a)" if "a < length (agents p)" for a
    using assms that by (auto simp: extends_def)
  fix a assume a: "length (agents p) \<le> a" "a < length (agents r)"
  show "\<not> ag_busy (at r a)" "ag_current (at r a) = None" "ag_metrics (at r a) = zero_metrics"
    using assms a core_eqD [of "at r a" "at q a"] by (cases "a < length (agents q)"; simp add: extends_def)+
qed

lemma extends_core: "map core (agents p') = map core (agents p) \<Longrightarrow> extends p p'"
  by (auto simp: extends_def at_def dest: map_eq_imp_length_eq) (metis length_map nth_map)+

lemma extends_add: "extends p (add_worker u p)"
  by (simp add: extends_def add_worker_def Let_def at_def nth_append new_agent_def)

lemma pool_ok_add: "pool_ok p \<Longrightarrow> pool_ok (add_worker u p)"
  by (auto simp: pool_ok_def add_worker_def Let_def less_Suc_eq)

lemma extends_pop: "extends p (pop_worker p)"
  by (rule extends_core) (simp add: pop_worker_def core_set_agent core_def)

lemma pool_ok_pop: "pool_ok p \<Longrightarrow> pool_ok (pop_worker p)"
  by (auto simp: pool_ok_def pop_worker_def distinct_butlast dest: in_set_butlastD)

lemma length_slots_add: "length (slots (add_worker u p)) = Suc (length (slots p))"
  by (simp add: add_worker_def Let_def)

lemma length_slots_pop: "length (slots (pop_worker p)) = length (slots p) - 1"
  by (simp add: pop_worker_def)

lemma fold_add_workers:
  "extends p (fold add_worker us p) \<and> (pool_ok p \<longrightarrow> pool_ok (fold add_worker us p)) \<and>
   length (slots (fold add_worker us p)) = length (slots p) + length us"
proof (induction us arbitrary: p)
  case (Cons u us)
  then show ?case
    using extends_trans [OF extends_add Cons [THEN conjunct1]] pool_ok_add [of p u] by (simp add: length_slots_add)
qed simp

lemma pop_workers:
  "extends p ((pop_worker ^^ n) p) \<and> (pool_ok p \<longrightarrow> pool_ok ((pop_worker ^^ n) p)) \<and>
   length (slots ((pop_worker ^^ n) p)) = length (slots p) - n"
proof (induction n)
  case (Suc n)
  then show ?case
    using extends_trans [OF Suc [THEN conjunct1] extends_pop] pool_ok_pop by (simp add: length_slots_pop)
qed simp

lemma extends_scale: "extends p (snd (scale_to us n p))"
  by (simp add: scale_to_def Let_def fold_add_workers pop_workers)

lemma pool_ok_scale: "pool_ok p \<Longrightarrow> pool_ok (snd (scale_to us n p))"
  by (simp add: scale_to_def Let_def fold_add_workers pop_workers)

lemma scan_slots_Some:
  "scan_slots p start os = Some a \<Longrightarrow> a \<in> (\<lambda>k. slots p ! ((start + k) mod length (slots p))) ` set os \<and>
     ag_running (at p a) \<and> \<not> ag_busy (at p a)"
  by (induction os) (auto simp: Let_def split: if_splits)

lemma next_available_props:
  assumes "next_available_worker p = (r, p')"
  shows "agents p' = agents p" "slots p' = slots p" "r = Some a \<Longrightarrow> a \<in> set (slots p) \<and> ag_running (at p a) \<and> \<not> ag_busy (at p a)"
proof -
  show "agents p' = agents p" "slots p' = slots p"
    using assms by (auto simp: next_available_worker_def split: if_splits)
  assume "r = Some a"
  then have "slots p \<noteq> []" "scan_slots p (next_index p) [0..<length (slots p)] = Some a"
    using assms by (auto simp: next_available_worker_def split: if_splits)
  then show "a \<in> set (slots p) \<and> ag_running (at p a) \<and> \<not> ag_busy (at p a)"
    using scan_slots_Some [of p "next_index p" "[0..<length (slots p)]" a] by auto
qed



section \<open>Threads and busy flags\<close>

definition on_agents :: "'w pool_run \<Rightarrow> nat list" where
  "on_agents s = map th_agent (threads s)"

definition exclusive :: "'w pool_run \<Rightarrow> bool" where
  "exclusive s \<longleftrightarrow> pool_ok (pool s) \<and> distinct (on_agents s) \<and>
     (\<forall>a < length (agents (pool s)). ag_busy (at (pool s) a) \<longleftrightarrow> a \<in> set (on_agents s)) \<and>
     (\<forall>a \<in> set (on_agents s). a < length (agents (pool s))) \<and>
     (\<forall>c \<in> set (clients s). \<forall>a. cl_phase c = Chose a \<longrightarrow> a < length (agents (pool s)))"

lemma exclusive_extends:
  assumes "exclusive s" "extends (pool s) p" "pool_ok p"
  shows "exclusive (s\<lparr>pool := p\<rparr>)"
proof -
  have "ag_busy (at p a) \<longleftrightarrow> a \<in> set (on_agents s)" if "a < length (agents p)" for a
    using assms that core_eqD [of "at p a" "at (pool s) a"]
    by (cases "a < length (agents (pool s))") (auto simp: exclusive_def extends_def)
  then show ?thesis
    using assms by (auto simp: exclusive_def extends_def on_agents_def dest: order_less_le_trans)
qed

lemma exclusive_phase:
  "exclusive s \<Longrightarrow> (\<And>a. ph = Chose a \<Longrightarrow> a < length (agents (pool s))) \<Longrightarrow> exclusive (set_phase i ph s)"
  by (auto simp: exclusive_def set_phase_def on_agents_def dest!: set_update_subset_insert [THEN subsetD])

lemma exclusive_world: "exclusive (s\<lparr>pool_world := w\<rparr>) = exclusive s" "exclusive (s\<lparr>pool_log := l\<rparr>) = exclusive s"
  by (simp_all add: exclusive_def on_agents_def)

lemma set_phase_simps [simp]:
  "threads (set_phase i ph s) = threads s" "pool (set_phase i ph s) = pool s" "length (clients (set_phase i ph s)) = length (clients s)"
  "pool_world (set_phase i ph s) = pool_world s"
  by (simp_all add: set_phase_def)

lemma clients_set_phase:
  "i < length (clients s) \<Longrightarrow> clients (set_phase i ph s) ! k =
     (if k = i then (clients s ! i)\<lparr>cl_phase := ph\<rparr> else clients s ! k)"
  by (simp add: set_phase_def nth_list_update)

text \<open>Running a worker's code changes only its current task and metrics.\<close>

lemma run_on_agent_frame:
  assumes "run_on_agent P a m s = (r, s')"
  shows "clients s' = clients s" "threads s' = threads s" "slots (pool s') = slots (pool s)"
    "length (agents (pool s')) = length (agents (pool s))"
    "\<And>b. ag_busy (at (pool s') b) = ag_busy (at (pool s) b)"
    "\<And>b. b \<noteq> a \<Longrightarrow> at (pool s') b = at (pool s) b"
  using assms by (auto simp: run_on_agent_def Let_def at_set_agent split: prod.splits if_splits)

lemma exclusive_run:
  assumes "run_on_agent P a m s = (r, s')" "exclusive s"
  shows "exclusive s'"
  using assms(2) run_on_agent_frame [OF assms(1)]
  by (simp add: exclusive_def pool_ok_def on_agents_def)

lemma exclusive_thread_phase:
  assumes "exclusive s" "j < length (threads s)"
  shows "exclusive (s\<lparr>threads := (threads s)[j := (threads s ! j)\<lparr>th_phase := ph\<rparr>]\<rparr>)"
proof -
  have "map th_agent ((threads s)[j := (threads s ! j)\<lparr>th_phase := ph\<rparr>]) = map th_agent (threads s)"
    using assms(2) by (simp add: map_update) (metis length_map list_update_id nth_map)
  then show ?thesis
    using assms(1) by (simp add: exclusive_def on_agents_def del: map_update)
qed

lemma exclusive_spawn:
  assumes "exclusive s" "agent_submit a t (pool s) = (None, p)" "a < length (agents (pool s))"
  shows "exclusive (s\<lparr>pool := p, threads := threads s @ [\<lparr>th_client = i, th_agent = a, th_phase = ph\<rparr>]\<rparr>)"
proof -
  have p: "p = set_agent a (\<lambda>w. w\<lparr>ag_busy := True\<rparr>) (pool s)" "\<not> ag_busy (at (pool s) a)"
    using assms(2) by (auto simp: agent_submit_def split: if_splits)
  then show ?thesis
    using assms(1,3) by (auto simp: exclusive_def pool_ok_def on_agents_def at_set_agent)
qed

lemma exclusive_release:
  assumes "exclusive s" "j < length (threads s)"
  shows "exclusive (s\<lparr>pool := drop_guard (th_agent (threads s ! j)) (pool s), threads := remove_at j (threads s)\<rparr>)"
proof -
  let ?a = "th_agent (threads s ! j)"
  have split: "threads s = take j (threads s) @ threads s ! j # drop (Suc j) (threads s)"
    using assms(2) by (rule id_take_nth_drop)
  have d: "distinct (map th_agent (take j (threads s) @ threads s ! j # drop (Suc j) (threads s)))"
    using assms(1) split unfolding exclusive_def on_agents_def by metis
  have m: "a \<in> set (on_agents s) \<longleftrightarrow> a = ?a \<or> a \<in> set (map th_agent (take j (threads s) @ drop (Suc j) (threads s)))" for a
    unfolding on_agents_def by (subst split) auto
  have "?a \<notin> set (map th_agent (take j (threads s) @ drop (Suc j) (threads s)))"
    using d by auto
  then show ?thesis
    using assms(1) d m
    by (auto simp: exclusive_def pool_ok_def on_agents_def at_set_agent drop_guard_def remove_at_def
        dest: in_set_takeD in_set_dropD)
qed

lemma exclusive_current:
  "exclusive s \<Longrightarrow> exclusive (s\<lparr>pool := set_agent a (\<lambda>w. w\<lparr>ag_current := cur\<rparr>) (pool s)\<rparr>)"
  by (auto simp: exclusive_def pool_ok_def on_agents_def at_set_agent)

lemma exclusive_same_core:
  assumes "exclusive s" "map core (agents p) = map core (agents (pool s))" "slots p = slots (pool s)"
  shows "exclusive (s\<lparr>pool := p\<rparr>)"
  using map_eq_imp_length_eq [OF assms(2)] assms(1,3)
  by (intro exclusive_extends extends_core assms) (simp add: exclusive_def pool_ok_def)

lemma exclusive_thread_step:
  assumes "thread_step P i s s'" "exclusive s"
  shows "exclusive s'"
  using assms(1)
proof (cases rule: thread_step.cases)
  case (thread_started j t0 s1)
  show ?thesis
    unfolding thread_started(1)
    using exclusive_thread_phase [OF exclusive_run [OF thread_started(5) assms(2)], of j "Started t0"]
      run_on_agent_frame [OF thread_started(5)] thread_started(2) by simp
next
  case (thread_sent j t0 r s1)
  show ?thesis
    unfolding thread_sent(1)
    using exclusive_thread_phase [OF exclusive_run [OF thread_sent(6) assms(2)], of j Sent]
      run_on_agent_frame [OF thread_sent(6)] thread_sent(2) by (intro exclusive_phase) auto
next
  case (thread_panicked j t0 w cur events)
  show ?thesis
    unfolding thread_panicked(1)
    using exclusive_thread_phase [OF exclusive_current [OF assms(2)], where j = j and ph = Unwinding] thread_panicked(2)
    by (simp add: exclusive_def on_agents_def)
next
  case (thread_released j)
  then show ?thesis
    using exclusive_release [OF assms(2)] by simp
next
  case (thread_unwound j)
  then show ?thesis
    using exclusive_release [OF assms(2), of j] by (auto intro!: exclusive_phase)
qed

lemma exclusive_step:
  assumes "pool_step P s s'" "exclusive s"
  shows "exclusive s'"
  using assms
proof (cases rule: pool_step.cases)
  case (call t)
  then show ?thesis
    using assms(2) by (auto simp: exclusive_def on_agents_def)
next
  case start
  then show ?thesis
    using exclusive_same_core [OF assms(2) core_start] by simp
next
  case stop
  then show ?thesis
    using exclusive_same_core [OF assms(2) core_stop] by simp
next
  case (scale us n)
  then show ?thesis
    using exclusive_extends [OF assms(2) extends_scale pool_ok_scale] assms(2) by (simp add: exclusive_def)
next
  case (enter i now w)
  then show ?thesis
    using assms(2) by (auto intro!: exclusive_phase simp: exclusive_world)
next
  case (scan_found i st a p)
  have "exclusive (s\<lparr>pool := p\<rparr>)" "a < length (agents p)"
    using assms(2) next_available_props [OF scan_found(4)]
    by (auto intro!: exclusive_same_core) (auto simp: exclusive_def pool_ok_def)
  then show ?thesis
    unfolding scan_found(1) by (intro exclusive_phase) auto
next
  case (scan_none i st p now w)
  have "exclusive (s\<lparr>pool := p\<rparr>)"
    using assms(2) next_available_props [OF scan_none(4)] by (intro exclusive_same_core) auto
  then show ?thesis
    unfolding scan_none(1) using exclusive_world(1) [of w "s\<lparr>pool := p\<rparr>"] by (intro exclusive_phase) (auto split: if_splits)
next
  case (submit_refused i a r p)
  then have "p = pool s"
    by (auto simp: agent_submit_def split: if_splits)
  then show ?thesis
    unfolding submit_refused(1) using assms(2) by (intro exclusive_phase) auto
next
  case (submit_accepted i a p)
  then have "a < length (agents (pool s))"
    using assms(2) by (auto simp: exclusive_def)
  then show ?thesis
    unfolding submit_accepted(1) using exclusive_spawn [OF assms(2) submit_accepted(4)] by (intro exclusive_phase) auto
next
  case (thread i)
  then show ?thesis
    using exclusive_thread_step assms(2) by blast
qed (auto intro!: exclusive_phase)



section \<open>Clients and answers\<close>

definition unsent :: "pool_thread \<Rightarrow> bool" where
  "unsent th \<longleftrightarrow> th_phase th \<noteq> Sent"

definition refusal_texts :: "string list" where
  "refusal_texts =
     [''Worker pool is not running'', ''Worker is not running'', ''Worker is busy'', ''No available worker'']"

definition phase_ok :: "task \<Rightarrow> client_phase \<Rightarrow> bool" where
  "phase_ok t ph =
     (case ph of
        Refused r \<Rightarrow> (\<exists>e \<in> set refusal_texts. \<exists>d wid. r = refusal e d wid t)
      | Answered r \<Rightarrow> res_task_id r = tk_id t \<and> res_trace_id r = tk_trace_id t \<and>
          (res_status r, res_result r = None, res_error r = None) \<in> {(''success'', False, True), (''failure'', True, False)}
      | _ \<Rightarrow> True)"

definition accounted :: "'w pool_run \<Rightarrow> bool" where
  "accounted s \<longleftrightarrow>
     distinct (map th_client (filter unsent (threads s))) \<and>
     (\<forall>i. i \<in> set (map th_client (filter unsent (threads s))) \<longleftrightarrow>
        i < length (clients s) \<and> cl_phase (clients s ! i) = Accepted) \<and>
     (\<forall>c \<in> set (clients s). phase_ok (cl_task c) (cl_phase c))"

lemma accounted_pool: "accounted (s\<lparr>pool := p\<rparr>) = accounted s" "accounted (s\<lparr>pool_world := w\<rparr>) = accounted s"
  by (simp_all add: accounted_def)

lemma accounted_phase:
  assumes "accounted s" "i < length (clients s)" "cl_phase (clients s ! i) \<noteq> Accepted" "ph \<noteq> Accepted"
    "phase_ok (cl_task (clients s ! i)) ph"
  shows "accounted (set_phase i ph s)"
proof -
  have "phase_ok (cl_task c) (cl_phase c)" if "c \<in> set (clients (set_phase i ph s))" for c
    using that assms(1,5) unfolding accounted_def
    by (auto simp: set_phase_def dest!: set_update_subset_insert [THEN subsetD])
  moreover have "cl_phase (clients (set_phase i ph s) ! k) = Accepted \<longleftrightarrow> cl_phase (clients s ! k) = Accepted" for k
    using assms(2-4) by (simp add: clients_set_phase)
  ultimately show ?thesis
    using assms(1) unfolding accounted_def by simp
qed

lemma accounted_run:
  "run_on_agent P a m s = (r, s') \<Longrightarrow> accounted s \<Longrightarrow> accounted s'"
  using run_on_agent_frame [of P a m s r s'] by (simp add: accounted_def)

lemma filter_at:
  "j < length xs \<Longrightarrow> filter Q xs = filter Q (take j xs) @ (if Q (xs ! j) then [xs ! j] else []) @ filter Q (drop (Suc j) xs)"
  using arg_cong [OF id_take_nth_drop [of j xs], of "filter Q"] by simp

lemma filter_at_update:
  "j < length xs \<Longrightarrow> filter Q (xs[j := y]) = filter Q (take j xs) @ (if Q y then [y] else []) @ filter Q (drop (Suc j) xs)"
  by (simp add: upd_conv_take_nth_drop)

lemma filter_thread_phase:
  assumes "j < length ths" "unsent (ths ! j) = unsent ((ths ! j)\<lparr>th_phase := ph\<rparr>)"
  shows "map th_client (filter unsent (ths[j := (ths ! j)\<lparr>th_phase := ph\<rparr>])) = map th_client (filter unsent ths)"
  using assms(2) by (simp add: filter_at [OF assms(1), of unsent] filter_at_update [OF assms(1)])

text \<open>A thread that sends its result, and one that ends.\<close>

lemma filter_thread_sent:
  assumes "j < length ths" "unsent (ths ! j)"
  shows "map th_client (filter unsent ths) =
    map th_client (filter unsent (take j ths)) @ th_client (ths ! j) # map th_client (filter unsent (drop (Suc j) ths))"
    "filter unsent (ths[j := (ths ! j)\<lparr>th_phase := Sent\<rparr>]) = filter unsent (take j ths) @ filter unsent (drop (Suc j) ths)"
  using assms(2) by (simp_all add: filter_at [OF assms(1), of unsent] filter_at_update [OF assms(1)] unsent_def)

lemma accounted_end:
  assumes "accounted s" "j < length (threads s)" "unsent (threads s ! j)" "ph \<noteq> Accepted"
    "phase_ok (cl_task (clients s ! th_client (threads s ! j))) ph"
    "filter unsent ths = filter unsent (take j (threads s)) @ filter unsent (drop (Suc j) (threads s))"
  shows "accounted (set_phase (th_client (threads s ! j)) ph (s\<lparr>threads := ths\<rparr>))"
proof -
  let ?i = "th_client (threads s ! j)"
  let ?l = "map th_client (filter unsent (take j (threads s)))" and ?r = "map th_client (filter unsent (drop (Suc j) (threads s)))"
  note split = filter_thread_sent [OF assms(2,3)]
  have d: "distinct (?l @ ?i # ?r)"
    and mem: "\<And>i. i \<in> set (?l @ ?i # ?r) \<longleftrightarrow> i < length (clients s) \<and> cl_phase (clients s ! i) = Accepted"
    using assms(1) unfolding accounted_def split by auto
  have i: "?i < length (clients s)"
    using mem [of ?i] by simp
  have "phase_ok (cl_task c) (cl_phase c)" if "c \<in> set (clients (set_phase ?i ph s))" for c
    using that assms(1,5) unfolding accounted_def
    by (auto simp: set_phase_def dest!: set_update_subset_insert [THEN subsetD])
  moreover have "k \<in> set (?l @ ?r) \<longleftrightarrow> k < length (clients s) \<and> cl_phase (clients (set_phase ?i ph s) ! k) = Accepted" for k
    using mem [of k] d i assms(4) by (auto simp: clients_set_phase)
  ultimately show ?thesis
    using d by (auto simp: accounted_def set_phase_def assms(6))
qed

lemma accounted_spawn:
  assumes "accounted s" "i < length (clients s)" "cl_phase (clients s ! i) = Chose a"
  shows "accounted (set_phase i Accepted
    (s\<lparr>threads := threads s @ [\<lparr>th_client = i, th_agent = a, th_phase = Spawned\<rparr>]\<rparr>))"
proof -
  have "i \<notin> set (map th_client (filter unsent (threads s)))"
    using assms unfolding accounted_def by simp
  moreover have "phase_ok (cl_task c) (cl_phase c)" if "c \<in> set (clients (set_phase i Accepted s))" for c
    using that assms(1) unfolding accounted_def
    by (auto simp: set_phase_def phase_ok_def dest!: set_update_subset_insert [THEN subsetD])
  ultimately show ?thesis
    using assms by (auto simp: accounted_def set_phase_def unsent_def nth_list_update)
qed

lemma accounted_release:
  assumes "accounted s" "j < length (threads s)" "th_phase (threads s ! j) = Sent"
  shows "accounted (s\<lparr>threads := remove_at j (threads s)\<rparr>)"
proof -
  have "filter unsent (threads s) = filter unsent (take j (threads s)) @ filter unsent (drop (Suc j) (threads s))"
    using assms(3) by (simp add: filter_at [OF assms(2), of unsent] unsent_def)
  then show ?thesis
    using assms(1) by (simp add: accounted_def remove_at_def)
qed

text \<open>What a thread sends is the result of its task.\<close>

lemma thread_end_result:
  assumes "run_on_agent P a (thread_end t t0) s = (r, s')"
  shows "phase_ok t (Answered r)"
proof -
  let ?E = "agent_env P (at (pool s) a)"
  obtain s0 s2 where s0: "run_state (thread_end t t0 ?E) s0 = (r, s2)"
    using assms by (auto simp: run_on_agent_def Let_def split: prod.splits)
  obtain er s1 where 1: "run_state (execute_task ?E t) s0 = (er, s1)"
    by (cases "run_state (execute_task ?E t) s0")
  have "result_shape er"
    using yieldsE [OF yields_task 1] by metis
  moreover have "res_task_id r = tk_id t" "res_trace_id r = tk_trace_id t" "res_status r = er_status er"
    "res_result r = er_result er" "res_error r = er_error er"
    using s0 1 by (auto simp: thread_end_def finish_task_def now_ms_def in_world_def modify_run_def
        publish_runtime_event_def make_task_result_def)
  ultimately show ?thesis
    by (auto simp: phase_ok_def result_shape_def er_success_def er_failure_def)
qed

lemma refusal_phase_ok: "e \<in> set refusal_texts \<Longrightarrow> phase_ok t (Refused (refusal e d wid t))"
  by (auto simp: phase_ok_def)

lemma accounted_thread_step:
  assumes "thread_step P i s s'" "accounted s"
  shows "accounted s'"
  using assms(1)
proof (cases rule: thread_step.cases)
  case (thread_started j t0 s1)
  have "map th_client (filter unsent ((threads s)[j := (threads s ! j)\<lparr>th_phase := Started t0\<rparr>]))
      = map th_client (filter unsent (threads s))"
    using thread_started(2,4) by (intro filter_thread_phase) (simp_all add: unsent_def)
  then show ?thesis
    unfolding thread_started(1)
    using accounted_run [OF thread_started(5) assms(2)] run_on_agent_frame(1,2) [OF thread_started(5)]
    by (simp add: accounted_def)
next
  case (thread_sent j t0 r s1)
  note s1 = run_on_agent_frame(1,2) [OF thread_sent(6)]
  have "unsent (threads s1 ! j)"
    using thread_sent(4) s1 by (simp add: unsent_def)
  from accounted_end [OF accounted_run [OF thread_sent(6) assms(2)] _ this, of "Answered r"
      "(threads s)[j := (threads s ! j)\<lparr>th_phase := Sent\<rparr>]"]
  show ?thesis
    unfolding thread_sent(1)
    using thread_sent(2,3) thread_end_result [OF thread_sent(6)] s1 filter_thread_sent(2) [of j "threads s"]
      \<open>unsent (threads s1 ! j)\<close> by simp
next
  case (thread_panicked j t0 w cur events)
  have "map th_client (filter unsent ((threads s)[j := (threads s ! j)\<lparr>th_phase := Unwinding\<rparr>]))
      = map th_client (filter unsent (threads s))"
    using thread_panicked(2,4) by (intro filter_thread_phase) (simp_all add: unsent_def)
  then show ?thesis
    unfolding thread_panicked(1) using assms(2) by (simp add: accounted_def)
next
  case (thread_released j)
  then show ?thesis
    using accounted_release [OF assms(2)] accounted_pool(1) by (simp add: accounted_def)
next
  case (thread_unwound j)
  have "unsent (threads s ! j)"
    using thread_unwound(4) by (simp add: unsent_def)
  from accounted_end [OF assms(2) thread_unwound(2) this, of Disconnected "remove_at j (threads s)"]
  show ?thesis
    unfolding thread_unwound(1) using thread_unwound(3) by (simp add: phase_ok_def remove_at_def accounted_def set_phase_def)
qed

lemma accounted_step:
  assumes "pool_step P s s'" "accounted s"
  shows "accounted s'"
  using assms
proof (cases rule: pool_step.cases)
  case (call t)
  then show ?thesis
    using assms(2) by (auto simp: accounted_def phase_ok_def nth_append less_Suc_eq)
next
  case (enter i now w)
  then show ?thesis
    using assms(2) by (auto intro!: accounted_phase simp: accounted_pool phase_ok_def)
next
  case (submit_refused i a r p)
  then have "phase_ok (cl_task (clients s ! i)) (Refused r)"
    by (auto simp: agent_submit_def refusal_texts_def intro!: refusal_phase_ok split: if_splits)
  then show ?thesis
    using assms(2) submit_refused by (auto intro!: accounted_phase simp: accounted_pool)
next
  case (scan_none i st p now w)
  then show ?thesis
    using assms(2)
    by (auto intro!: accounted_phase refusal_phase_ok simp: accounted_pool refusal_texts_def split: if_splits)
      (auto simp: phase_ok_def)
next
  case (submit_accepted i a p)
  show ?thesis
    unfolding submit_accepted(1)
    using accounted_spawn [OF assms(2) submit_accepted(2,3)] by (simp add: accounted_def set_phase_def)
next
  case (thread i)
  then show ?thesis
    using accounted_thread_step assms(2) by blast
qed (use assms(2) in \<open>auto intro!: accounted_phase refusal_phase_ok simp: accounted_pool refusal_texts_def phase_ok_def\<close>)



section \<open>Threads and their callers\<close>

definition may_panic :: "'w pool_env \<Rightarrow> task \<Rightarrow> bool" where
  "may_panic P t \<longleftrightarrow> (\<exists>w. pe_panic P t w \<noteq> None)"

text \<open>Where the caller stands while a thread works for it.\<close>

definition serves :: "'w pool_env \<Rightarrow> pool_thread \<Rightarrow> client \<Rightarrow> bool" where
  "serves P th c \<longleftrightarrow>
     (case th_phase th of
        Sent \<Rightarrow> \<exists>r. cl_phase c = Answered r
      | Unwinding \<Rightarrow> cl_phase c = Accepted \<and> may_panic P (cl_task c)
      | _ \<Rightarrow> cl_phase c = Accepted)"

definition settled :: "'w pool_env \<Rightarrow> 'w pool_run \<Rightarrow> bool" where
  "settled P s \<longleftrightarrow> distinct (map th_client (threads s)) \<and>
     (\<forall>th \<in> set (threads s). th_client th < length (clients s) \<and> serves P th (clients s ! th_client th)) \<and>
     (\<forall>c \<in> set (clients s). cl_phase c = Disconnected \<longrightarrow> may_panic P (cl_task c))"

lemma settled_frame:
  "settled P s \<Longrightarrow> clients s' = clients s \<Longrightarrow> threads s' = threads s \<Longrightarrow> settled P s'"
  by (simp add: settled_def)

lemma settled_at:
  assumes "settled P s" "j < length (threads s)" "th_client (threads s ! j) = i"
  shows "i < length (clients s)" "serves P (threads s ! j) (clients s ! i)"
  using assms by (auto simp: settled_def dest: nth_mem)

lemma unserved:
  assumes "settled P s" "th \<in> set (threads s)" "cl_phase (clients s ! i) \<noteq> Accepted"
    "\<And>r. cl_phase (clients s ! i) \<noteq> Answered r"
  shows "th_client th \<noteq> i"
proof
  assume "th_client th = i"
  then have "serves P th (clients s ! i)"
    using assms(1,2) by (auto simp: settled_def)
  then show False
    using assms(3,4) by (auto simp: serves_def split: thread_phase.splits)
qed

text \<open>A caller without a thread moves on, and gets one.\<close>

lemma settled_phase:
  assumes "settled P s" "i < length (clients s)" "\<And>th. th \<in> set (threads s) \<Longrightarrow> th_client th \<noteq> i" "ph \<noteq> Disconnected"
  shows "settled P (set_phase i ph s)"
  using assms by (auto simp: settled_def clients_set_phase) (auto simp: set_phase_def dest!: set_update_subset_insert [THEN subsetD])

lemma settled_move:
  assumes "settled P s" "i < length (clients s)" "cl_phase (clients s ! i) \<noteq> Accepted"
    "\<And>r. cl_phase (clients s ! i) \<noteq> Answered r" "ph \<noteq> Disconnected"
  shows "settled P (set_phase i ph s)"
  by (rule settled_phase [OF assms(1,2) unserved [OF assms(1) _ assms(3,4)] assms(5)])

lemma settled_spawn:
  assumes "settled P s" "i < length (clients s)" "cl_phase (clients s ! i) = Chose a"
  shows "settled P (set_phase i Accepted (s\<lparr>threads := threads s @ [\<lparr>th_client = i, th_agent = a, th_phase = Spawned\<rparr>]\<rparr>))"
proof -
  have free: "th_client th \<noteq> i" if "th \<in> set (threads s)" for th
    using unserved [OF assms(1) that, of i] assms(3) by simp
  then have "i \<notin> th_client ` set (threads s)"
    by auto
  then show ?thesis
    using settled_phase [OF assms(1,2) free, of Accepted] assms(2)
    by (auto simp: settled_def serves_def clients_set_phase set_phase_def)
qed

text \<open>A thread advances, and its caller with it; a thread ends.\<close>

lemma settled_advance:
  assumes "settled P s" "j < length (threads s)" "th_client (threads s ! j) = i"
    "serves P ((threads s ! j)\<lparr>th_phase := tp\<rparr>) ((clients s ! i)\<lparr>cl_phase := cp\<rparr>)" "cp \<noteq> Disconnected"
  shows "settled P (set_phase i cp (s\<lparr>threads := (threads s)[j := (threads s ! j)\<lparr>th_phase := tp\<rparr>]\<rparr>))"
proof -
  let ?ths = "(threads s)[j := (threads s ! j)\<lparr>th_phase := tp\<rparr>]"
  have same: "map th_client ?ths = map th_client (threads s)"
    using assms(2) by (simp add: map_update) (metis length_map list_update_id nth_map)
  have i: "i < length (clients s)"
    using assms(1-3) by (auto simp: settled_def)
  have at: "th_client (?ths ! k) < length (clients s) \<and>
      serves P (?ths ! k) (if th_client (?ths ! k) = i then (clients s ! i)\<lparr>cl_phase := cp\<rparr> else clients s ! th_client (?ths ! k))"
    if "k < length (threads s)" for k
  proof (cases "k = j")
    case True
    then show ?thesis
      using assms i that by simp
  next
    case False
    have "th_client (threads s ! k) \<noteq> th_client (threads s ! j)"
      using assms(1,2) that False nth_eq_iff_index_eq [of "map th_client (threads s)" k j] by (simp add: settled_def)
    then show ?thesis
      using assms(1,3) that False by (simp add: settled_def)
  qed
  have "distinct (map th_client ?ths)"
    unfolding same using assms(1) by (simp add: settled_def)
  moreover have "th_client th < length (clients s) \<and> serves P th (clients (set_phase i cp s) ! th_client th)"
    if in_ths: "th \<in> set ?ths" for th
  proof -
    obtain k where "k < length (threads s)" "th = ?ths ! k"
      using in_ths by (metis in_set_conv_nth length_list_update)
    then show ?thesis
      using at [of k] i by (simp add: clients_set_phase)
  qed
  moreover have "cl_phase c = Disconnected \<longrightarrow> may_panic P (cl_task c)" if "c \<in> set (clients (set_phase i cp s))" for c
    using that assms(1,5) unfolding settled_def
    by (auto simp: set_phase_def dest!: set_update_subset_insert [THEN subsetD])
  ultimately show ?thesis
    by (simp add: settled_def set_phase_def)
qed

lemma remove_at_facts:
  assumes "j < length xs" "distinct (map f xs)"
  shows "set (remove_at j xs) \<subseteq> set xs" "distinct (map f (remove_at j xs))" "f (xs ! j) \<notin> f ` set (remove_at j xs)"
proof -
  have "distinct (map f (take j xs @ xs ! j # drop (Suc j) xs))"
    using assms by (simp add: id_take_nth_drop [symmetric])
  then show "distinct (map f (remove_at j xs))" "f (xs ! j) \<notin> f ` set (remove_at j xs)"
    by (auto simp: remove_at_def)
  show "set (remove_at j xs) \<subseteq> set xs"
    by (auto simp: remove_at_def dest: in_set_takeD in_set_dropD)
qed

lemma settled_remove:
  assumes "settled P s" "j < length (threads s)"
  shows "settled P (s\<lparr>threads := remove_at j (threads s)\<rparr>)"
    and "\<And>th. th \<in> set (remove_at j (threads s)) \<Longrightarrow> th_client th \<noteq> th_client (threads s ! j)"
proof -
  have d: "distinct (map th_client (threads s))"
    using assms(1) by (simp add: settled_def)
  note facts = remove_at_facts [OF assms(2) d]
  show "settled P (s\<lparr>threads := remove_at j (threads s)\<rparr>)"
    using assms(1) facts(1,2) by (auto simp: settled_def)
  show "th_client th \<noteq> th_client (threads s ! j)" if "th \<in> set (remove_at j (threads s))" for th
    using facts(3) that by (metis image_eqI)
qed

lemma set_phase_same: "i < length (clients s) \<Longrightarrow> cl_phase (clients s ! i) = ph \<Longrightarrow> set_phase i ph s = s"
proof -
  assume "i < length (clients s)" "cl_phase (clients s ! i) = ph"
  then have "(clients s ! i)\<lparr>cl_phase := ph\<rparr> = clients s ! i"
    by (cases "clients s ! i") simp
  then show "set_phase i ph s = s"
    by (cases s) (simp add: set_phase_def)
qed

lemma settled_thread_step:
  assumes "thread_step P i s s'" "settled P s"
  shows "settled P s'"
  using assms(1)
proof (cases rule: thread_step.cases)
  case (thread_started j t0 s1)
  let ?s = "s\<lparr>threads := (threads s)[j := (threads s ! j)\<lparr>th_phase := Started t0\<rparr>]\<rparr>"
  note at = settled_at [OF assms(2) thread_started(2,3)]
  have c: "cl_phase (clients s ! i) = Accepted"
    using at(2) thread_started(4) by (simp add: serves_def)
  have "settled P (set_phase i Accepted ?s)"
    by (rule settled_advance [OF assms(2) thread_started(2,3)]) (simp_all add: serves_def)
  moreover have "set_phase i Accepted ?s = ?s"
    using at(1) c by (intro set_phase_same) simp_all
  ultimately have "settled P ?s"
    by simp
  then show ?thesis
    unfolding thread_started(1) by (rule settled_frame) (simp_all add: run_on_agent_frame(1) [OF thread_started(5)])
next
  case (thread_sent j t0 r s1)
  have "settled P (set_phase i (Answered r) (s\<lparr>threads := (threads s)[j := (threads s ! j)\<lparr>th_phase := Sent\<rparr>]\<rparr>))"
    by (rule settled_advance [OF assms(2) thread_sent(2,3)]) (simp_all add: serves_def)
  then show ?thesis
    unfolding thread_sent(1)
    by (rule settled_frame) (simp_all add: run_on_agent_frame(1) [OF thread_sent(6)] set_phase_def)
next
  case (thread_panicked j t0 w cur events)
  let ?s = "s\<lparr>threads := (threads s)[j := (threads s ! j)\<lparr>th_phase := Unwinding\<rparr>]\<rparr>"
  note at = settled_at [OF assms(2) thread_panicked(2,3)]
  have c: "cl_phase (clients s ! i) = Accepted"
    using at(2) thread_panicked(4) by (simp add: serves_def)
  have "settled P (set_phase i Accepted ?s)"
    by (rule settled_advance [OF assms(2) thread_panicked(2,3)])
      (use thread_panicked(5) in \<open>auto simp: serves_def may_panic_def\<close>)
  moreover have "set_phase i Accepted ?s = ?s"
    using at(1) c by (intro set_phase_same) simp_all
  ultimately have "settled P ?s"
    by simp
  then show ?thesis
    unfolding thread_panicked(1) by (rule settled_frame) simp_all
next
  case (thread_released j)
  show ?thesis
    unfolding thread_released(1) by (rule settled_frame [OF settled_remove(1) [OF assms(2) thread_released(2)]]) simp_all
next
  case (thread_unwound j)
  note at = settled_at [OF assms(2) thread_unwound(2,3)]
  have c: "may_panic P (cl_task (clients s ! i))"
    using at(2) thread_unwound(4) by (simp add: serves_def)
  show ?thesis
    unfolding thread_unwound(1) using settled_remove [OF assms(2) thread_unwound(2)] thread_unwound(3) c at(1)
    by (auto simp: settled_def clients_set_phase) (auto simp: set_phase_def dest!: set_update_subset_insert [THEN subsetD])
qed

lemma settled_step:
  assumes "pool_step P s s'" "settled P s"
  shows "settled P s'"
  using assms
proof (cases rule: pool_step.cases)
  case (call t)
  then show ?thesis
    using assms(2) by (auto simp: settled_def nth_append)
next
  case (submit_accepted i a p)
  show ?thesis
    unfolding submit_accepted(1)
    by (rule settled_frame [OF settled_spawn [OF assms(2) submit_accepted(2,3)]]) (simp_all add: set_phase_def)
next
  case (thread i)
  then show ?thesis
    using settled_thread_step assms(2) by blast
next
  case (scan_none i st p now w)
  then have "settled P (set_phase i (if max_wait_ms p \<le> saturating_sub now st
        then Refused (refusal ''No available worker'' (saturating_sub now st) None (cl_task (clients s ! i)))
        else Scanning st) s)"
    by (intro settled_move [OF assms(2)]) simp_all
  then show ?thesis
    unfolding scan_none(1) by (rule settled_frame) (simp_all add: set_phase_def)
next
  case (enter i now w)
  have "settled P (set_phase i (Scanning now) s)"
    using enter by (intro settled_move [OF assms(2)]) simp_all
  then show ?thesis
    unfolding enter(1) by (rule settled_frame) (simp_all add: set_phase_def)
next
  case (scan_found i st a p)
  have "settled P (set_phase i (Chose a) s)"
    using scan_found by (intro settled_move [OF assms(2)]) simp_all
  then show ?thesis
    unfolding scan_found(1) by (rule settled_frame) (simp_all add: set_phase_def)
next
  case (submit_refused i a r p)
  have "settled P (set_phase i (Refused r) s)"
    using submit_refused by (intro settled_move [OF assms(2)]) simp_all
  then show ?thesis
    unfolding submit_refused(1) by (rule settled_frame) (simp_all add: set_phase_def)
next
  case (enter_stopped i)
  then show ?thesis
    by (auto intro!: settled_move [OF assms(2)])
qed (use assms(2) in \<open>simp_all add: settled_def\<close>)

end
