(* ===== verification/Pool_Properties.thy ===== *)
theory Pool_Properties
  imports Pool_Safety
begin

text \<open>
  The properties of the worker pool: mutual exclusion, the answers of its clients, the round robin against
  its reference, scaling within bounds, and the race between choosing a worker and taking it.
\<close>

definition fresh_pool :: "worker_pool \<Rightarrow> bool" where
  "fresh_pool p \<longleftrightarrow> pool_ok p \<and> (\<forall>w \<in> set (agents p). \<not> ag_busy w)"

lemma fresh_new_pool: "fresh_pool (new_pool uuids sz timeout max_wait)"
  by (auto simp: fresh_pool_def pool_ok_def new_pool_def Let_def new_agent_def)

lemma fresh_bounds: "fresh_pool p \<Longrightarrow> fresh_pool (with_bounds lo hi p)"
  by (simp add: fresh_pool_def pool_ok_def with_bounds_def)

lemma fresh_same_core:
  assumes "map core (agents q) = map core (agents p)" "slots q = slots p" "fresh_pool p"
  shows "fresh_pool q"
proof -
  have l: "length (agents q) = length (agents p)"
    by (rule map_eq_imp_length_eq [OF assms(1)])
  have "\<not> ag_busy w" if "w \<in> set (agents q)" for w
  proof -
    obtain a where a: "a < length (agents q)" "w = agents q ! a"
      using \<open>w \<in> set (agents q)\<close> by (auto simp: in_set_conv_nth)
    have "map core (agents q) ! a = map core (agents p) ! a"
      by (simp only: assms(1))
    then have "core w = core (agents p ! a)"
      using a l by simp
    moreover have "agents p ! a \<in> set (agents p)"
      using a l by simp
    ultimately show ?thesis
      using assms(3) core_eqD [of w "agents p ! a"] by (simp add: fresh_pool_def)
  qed
  then show ?thesis
    using assms(2,3) l by (simp add: fresh_pool_def pool_ok_def)
qed

lemma core_publisher:
  "map core (agents (with_pool_publisher p)) = map core (agents p)" "slots (with_pool_publisher p) = slots p"
  using core_fold_agents [of "\<lambda>w. w\<lparr>ag_publisher := True\<rparr>" "slots p" "p\<lparr>pool_publisher := True\<rparr>"]
  by (simp_all add: with_pool_publisher_def core_def)

lemma fresh_publisher: "fresh_pool p \<Longrightarrow> fresh_pool (with_pool_publisher p)"
  by (rule fresh_same_core [OF core_publisher])

lemma fresh_start: "fresh_pool p \<Longrightarrow> fresh_pool (start_pool p)"
  by (rule fresh_same_core [OF core_start])

lemma reachable_refl: "pool_reachable P p w (initial_run p w)"
  by (simp add: pool_reachable_def)

lemma reachable_step: "pool_reachable P p w s \<Longrightarrow> pool_step P s s' \<Longrightarrow> pool_reachable P p w s'"
  unfolding pool_reachable_def by (rule rtranclp.rtrancl_into_rtrancl)

lemma initial_invariants:
  "fresh_pool p \<Longrightarrow> exclusive (initial_run p w) \<and> accounted (initial_run p w) \<and> settled P (initial_run p w)"
  by (simp add: exclusive_def accounted_def settled_def initial_run_def on_agents_def fresh_pool_def at_def)

lemma reachable_invariants:
  assumes "pool_reachable P p w s" "fresh_pool p"
  shows "exclusive s \<and> accounted s \<and> settled P s"
  using assms(1) unfolding pool_reachable_def
proof (induction rule: rtranclp_induct)
  case base
  then show ?case
    using assms(2) by (rule initial_invariants)
next
  case (step s s')
  then show ?case
    using exclusive_step accounted_step settled_step by blast
qed

lemma refusals_classified:
  assumes "e \<in> set refusal_texts"
  shows "info_stage (classify_runtime_error (Some e) stage) = ''worker_pool''"
proof -
  have "list_all (\<lambda>e. \<not> session_create_text e (ascii_lower e) \<and> classify_plan_execute_error e (ascii_lower e) = None \<and>
      (any_in [''Worker pool is not running'', ''Worker is not running''] e \<or>
       any_in [''Worker is busy'', ''No available worker''] e)) refusal_texts"
    by code_simp
  then have "\<not> session_create_text e (ascii_lower e)" "classify_plan_execute_error e (ascii_lower e) = None"
    "any_in [''Worker pool is not running'', ''Worker is not running''] e \<or>
     any_in [''Worker is busy'', ''No available worker''] e"
    using assms by (auto simp: list_all_iff)
  then show ?thesis
    by (auto simp: classify_runtime_error_def classify_session_create_error_def Let_def classify_rest_def
        classify_worker_pool_error_def)
qed

lemma length_fold_add: "length (slots (fold add_worker us p)) = length (slots p) + length us"
  by (simp add: fold_add_workers)


section \<open>Round robin\<close>

lemma scan_find:
  "scan_slots p start os =
     map_option (\<lambda>k. slots p ! ((start + k) mod length (slots p)))
       (find (\<lambda>k. ag_running (at p (slots p ! ((start + k) mod length (slots p)))) \<and>
                  \<not> ag_busy (at p (slots p ! ((start + k) mod length (slots p))))) os)"
  by (induction os) (auto simp: Let_def)

lemma find_map: "find Q (map f xs) = map_option f (find (Q \<circ> f) xs)"
  by (induction xs) auto

lemma rotate_nth: "rotate n xs = map (\<lambda>k. xs ! ((n + k) mod length xs)) [0..<length xs]"
  by (rule nth_equalityI) (simp_all add: nth_rotate)

text \<open>
  Round robin: the pool hands out the first running and idle worker of its vector, read from the position
  of the call counter and around, and none exactly if there is none.
\<close>
theorem next_available_round_robin:
  "fst (next_available_worker p) =
     find (\<lambda>a. ag_running (at p a) \<and> \<not> ag_busy (at p a)) (rotate (next_index p) (slots p))"
  by (simp add: next_available_worker_def scan_find rotate_nth find_map comp_def)


section \<open>Safety\<close>

text \<open>
  C8. Mutual exclusion: whatever the interleaving of callers, threads, starts, stops and scalings, no worker
  has two tasks at the same time, and a worker is marked busy exactly while a thread runs on it.
\<close>
theorem pool_mutual_exclusion:
  assumes "pool_reachable P p w s" "fresh_pool p"
  shows "distinct (map th_agent (threads s)) \<and>
    (\<forall>a < length (agents (pool s)). ag_busy (at (pool s) a) \<longleftrightarrow> (\<exists>th \<in> set (threads s). th_agent th = a))"
  using reachable_invariants [OF assms] by (auto simp: exclusive_def on_agents_def)

text \<open>
  C9. Every caller gets its own answer: an accepted task has exactly one thread, an answer carries the task
  and trace identifiers of the caller's task and either a value or an error, a refusal carries the same
  identifiers and an error text that the classification attributes to the worker pool, and only a caller
  whose task can panic finds its channel closed.
\<close>
theorem pool_answers_own_task:
  assumes "pool_reachable P p w s" "fresh_pool p" "i < length (clients s)"
  shows "case cl_phase (clients s ! i) of
      Accepted \<Rightarrow> \<exists>!th. th \<in> set (filter unsent (threads s)) \<and> th_client th = i
    | Answered r \<Rightarrow> res_task_id r = tk_id (cl_task (clients s ! i)) \<and>
        res_trace_id r = tk_trace_id (cl_task (clients s ! i)) \<and>
        (res_status r, res_result r = None, res_error r = None) \<in> {(''success'', False, True), (''failure'', True, False)}
    | Refused r \<Rightarrow> res_task_id r = tk_id (cl_task (clients s ! i)) \<and>
        res_trace_id r = tk_trace_id (cl_task (clients s ! i)) \<and>
        (\<exists>e. res_error r = Some e \<and> info_stage (classify_runtime_error (Some e) stage) = ''worker_pool'')
    | Disconnected \<Rightarrow> may_panic P (cl_task (clients s ! i))
    | _ \<Rightarrow> True"
proof -
  have acc: "accounted s" and set: "settled P s"
    using reachable_invariants [OF assms(1,2)] by blast+
  then have ok: "phase_ok (cl_task (clients s ! i)) (cl_phase (clients s ! i))"
    using assms(3) by (simp add: accounted_def)
  show ?thesis
  proof (cases "cl_phase (clients s ! i)")
    case Accepted
    then have "i \<in> set (map th_client (filter unsent (threads s)))"
      using acc assms(3) unfolding accounted_def by blast
    moreover have "inj_on th_client (set (filter unsent (threads s)))"
      using acc unfolding accounted_def distinct_map by blast
    ultimately show ?thesis
      using Accepted by (auto simp: inj_on_def)
  next
    case (Refused r)
    then obtain e d wid where "e \<in> set refusal_texts" "r = refusal e d wid (cl_task (clients s ! i))"
      using ok by (auto simp: phase_ok_def)
    then show ?thesis
      using Refused refusals_classified [of e stage] by (simp add: refusal_def make_task_result_def)
  next
    case (Answered r)
    then show ?thesis
      using ok by (simp add: phase_ok_def)
  next
    case Disconnected
    then show ?thesis
      using set assms(3) by (simp add: settled_def)
  qed simp_all
qed


section \<open>Scaling\<close>

text \<open>
  Scaling is exact: with enough fresh identifiers the pool ends at the target clamped to its bounds, no
  worker's task, busy flag or metrics are touched, and the workers that are kept keep their positions.
\<close>
theorem scale_to_exact:
  assumes "target \<le> length (slots p) + length uuids" "max_size p \<le> length (slots p) + length uuids" "pool_ok p"
    "min_size p \<le> max_size p"
  shows "case scale_to uuids target p of (n, p') \<Rightarrow>
    n = clamp target (min_size p) (max_size p) \<and> n = pool_size p' \<and> min_size p \<le> n \<and> n \<le> max_size p \<and>
    extends p p' \<and> pool_ok p' \<and> take n (slots p) = take (pool_size p) (slots p')"
proof -
  let ?t = "clamp target (min_size p) (max_size p)"
  have t: "?t \<le> length (slots p) + length uuids" "min_size p \<le> ?t" "?t \<le> max_size p"
    using assms by (auto simp: clamp_def)
  have add: "take (length (slots p)) (slots (fold add_worker us p)) = slots p" for us
  proof (induction us rule: rev_induct)
    case (snoc u us)
    have "slots (add_worker u q) = slots q @ [length (agents q)]" for q
      by (simp add: add_worker_def Let_def)
    then show ?case
      using snoc by (simp add: length_fold_add)
  qed simp
  have pop: "slots ((pop_worker ^^ n) p) = take (length (slots p) - n) (slots p)" for n
  proof (induction n)
    case (Suc n)
    have "slots (pop_worker q) = butlast (slots q)" for q
      by (simp add: pop_worker_def)
    then show ?case
      using Suc by (simp add: butlast_take)
  qed simp
  show ?thesis
  proof (cases "length (slots p) < ?t")
    case True
    then have l: "length (take (?t - length (slots p)) uuids) = ?t - length (slots p)"
      using t(1) by simp
    show ?thesis
      using True t l add [of "take (?t - length (slots p)) uuids"] fold_add_workers [of p "take (?t - length (slots p)) uuids"] assms(3)
      by (simp add: scale_to_def Let_def pool_size_def)
  next
    case False
    then show ?thesis
      using t pop_workers [where p = p and n = "length (slots p) - ?t"] assms(3) pop [of "length (slots p) - ?t"]
      by (simp add: scale_to_def Let_def pool_size_def)
  qed
qed


lemma scale_to_exact_witness:
  "fst (scale_to [''c'', ''d'', ''e''] 99 (with_bounds 2 4 (new_pool [''a'', ''b''] None None None))) = 4"
proof -
  let ?p = "with_bounds 2 4 (new_pool [''a'', ''b''] None None None)"
  have p: "length (slots ?p) = 2" "min_size ?p = 2" "max_size ?p = 4" "pool_ok ?p"
    using fresh_bounds [OF fresh_new_pool, of 2 4 "[''a'', ''b'']" None None None]
    by (simp_all add: new_pool_def with_bounds_def Let_def fresh_pool_def)
  have "2 \<le> length (slots ?p) + length [''c'', ''d'', ''e'']" "max_size ?p \<le> length (slots ?p) + length [''c'', ''d'', ''e'']"
    "min_size ?p \<le> max_size ?p"
    by (simp_all add: p)
  from scale_to_exact [OF _ this(2) p(4) this(3), of 5] show ?thesis
    by (simp add: p clamp_def scale_to_def Let_def split: prod.splits)
qed


section \<open>The race between choosing and taking a worker\<close>

definition demo_pool_env :: "unit pool_env" where
  "demo_pool_env = \<lparr>pe_executor = demo_executor, pe_clock = (\<lambda>w. (7, w)), pe_json = demo_line_parser,
     pe_panic = (\<lambda>_ _. None)\<rparr>"

definition demo_pool :: "nat \<Rightarrow> bool \<Rightarrow> worker_pool" where
  "demo_pool n b =
     (let p = start_pool (new_pool [''a'', ''b''] None None None)
      in (set_agent 0 (\<lambda>w. w\<lparr>ag_busy := b\<rparr>) p)\<lparr>next_index := n\<rparr>)"

definition demo_state :: "nat \<Rightarrow> bool \<Rightarrow> client_phase list \<Rightarrow> pool_thread list \<Rightarrow> unit pool_run" where
  "demo_state n b phs ths =
     \<lparr>pool = demo_pool n b, clients = map (\<lambda>ph. \<lparr>cl_task = demo_call False, cl_phase = ph\<rparr>) phs, threads = ths,
      pool_world = (), pool_log = []\<rparr>"

lemma demo_pool_eq:
  "demo_pool n b = \<lparr>agents = [(new_agent ''a'' None)\<lparr>ag_running := True, ag_busy := b\<rparr>, (new_agent ''b'' None)\<lparr>ag_running := True\<rparr>],
     slots = [0, 1], pool_running = True, next_index = n, max_wait_ms = 5000, min_size = 1, max_size = 16,
     pool_publisher = False, worker_timeout = None\<rparr>"
  by (simp add: demo_pool_def Let_def new_pool_def start_pool_def set_agent_def at_def new_agent_def upt_rec)

lemma demo_call_step: "pool_step demo_pool_env (demo_state n b phs ths) (demo_state n b (phs @ [Entering]) ths)"
  using pool_step.call [of demo_pool_env "demo_state n b phs ths" "demo_call False"] by (simp add: demo_state_def)

lemma demo_enter_step:
  assumes "i < length phs" "phs ! i = Entering"
  shows "pool_step demo_pool_env (demo_state n b phs ths) (demo_state n b (phs[i := Scanning 7]) ths)"
  using pool_step.enter [of i "demo_state n b phs ths" demo_pool_env 7 "()"] assms
  by (simp add: demo_state_def demo_pool_env_def demo_pool_eq set_phase_def map_update)

lemma demo_scan_step:
  assumes "i < length phs" "phs ! i = Scanning st" "n < 3"
  shows "pool_step demo_pool_env (demo_state n False phs ths) (demo_state (Suc n) False (phs[i := Chose (n mod 2)]) ths)"
proof -
  have "next_available_worker (demo_pool n False) = (Some (n mod 2), demo_pool (Suc n) False)"
  proof -
    consider "n = 0" | "n = 1" | "n = 2"
      using assms(3) by linarith
    then show ?thesis
      by cases (simp_all add: next_available_worker_def demo_pool_eq at_def new_agent_def upt_rec Let_def
          mod_Suc numeral_2_eq_2 numeral_3_eq_3)
  qed
  then show ?thesis
    using pool_step.scan_found [of i "demo_state n False phs ths" st "n mod 2" "demo_pool (Suc n) False" demo_pool_env] assms
    by (simp add: demo_state_def set_phase_def map_update)
qed

lemma demo_submit_step:
  assumes "i < length phs" "phs ! i = Chose 0"
  shows "pool_step demo_pool_env (demo_state n False phs ths)
    (demo_state n True (phs[i := Accepted]) (ths @ [\<lparr>th_client = i, th_agent = 0, th_phase = Spawned\<rparr>]))"
proof -
  have "agent_submit 0 t (demo_pool n False) = (None, demo_pool n True)" for t
    by (simp add: agent_submit_def demo_pool_eq at_def set_agent_def new_agent_def)
  then show ?thesis
    using pool_step.submit_accepted [of i "demo_state n False phs ths" 0 "demo_pool n True" demo_pool_env] assms
    by (simp add: demo_state_def set_phase_def map_update)
qed

lemma demo_refused_step:
  assumes "i < length phs" "phs ! i = Chose 0"
  shows "pool_step demo_pool_env (demo_state n True phs ths)
    (demo_state n True (phs[i := Refused (refusal ''Worker is busy'' 0 (Some ''a'') (demo_call False))]) ths)"
proof -
  have "agent_submit 0 t (demo_pool n True) = (Some (refusal ''Worker is busy'' 0 (Some ''a'') t), demo_pool n True)" for t
    by (simp add: agent_submit_def demo_pool_eq at_def new_agent_def)
  then show ?thesis
    using pool_step.submit_refused [of i "demo_state n True phs ths" 0 _ "demo_pool n True" demo_pool_env] assms
    by (simp add: demo_state_def set_phase_def map_update)
qed

lemmas demo_steps = demo_call_step demo_enter_step demo_scan_step demo_submit_step demo_refused_step

lemma demo_initial: "initial_run (demo_pool 0 False) () = demo_state 0 False [] []"
  by (simp add: initial_run_def demo_state_def)

lemma demo_accepted: "pool_reachable demo_pool_env (demo_pool 0 False) ()
    (demo_state 1 True [Accepted] [\<lparr>th_client = 0, th_agent = 0, th_phase = Spawned\<rparr>])"
proof -
  have "pool_reachable demo_pool_env (demo_pool 0 False) () (demo_state 0 False [] [])"
    using reachable_refl [of demo_pool_env "demo_pool 0 False" "()"] by (simp add: demo_initial)
  from reachable_step [OF this demo_call_step]
  have "pool_reachable demo_pool_env (demo_pool 0 False) () (demo_state 0 False [Entering] [])"
    by simp
  from reachable_step [OF this demo_enter_step [of 0]]
  have "pool_reachable demo_pool_env (demo_pool 0 False) () (demo_state 0 False [Scanning 7] [])"
    by simp
  from reachable_step [OF this demo_scan_step [of 0 _ 7]]
  have "pool_reachable demo_pool_env (demo_pool 0 False) () (demo_state 1 False [Chose 0] [])"
    by simp
  from reachable_step [OF this demo_submit_step [of 0]] show ?thesis
    by simp
qed

lemma demo_fresh: "fresh_pool (demo_pool 0 False)"
  by (simp add: fresh_pool_def pool_ok_def demo_pool_eq new_agent_def)

lemma pool_mutual_exclusion_witness:
  "ag_busy (at (demo_pool 1 True) 0) \<and> \<not> ag_busy (at (demo_pool 1 True) 1)"
  using pool_mutual_exclusion [OF demo_accepted demo_fresh] by (simp add: demo_state_def demo_pool_eq)

lemma pool_answers_own_task_witness:
  "\<exists>!th. th \<in> set (filter unsent [\<lparr>th_client = 0, th_agent = 0, th_phase = Spawned\<rparr>]) \<and> th_client th = 0"
  using pool_answers_own_task [OF demo_accepted demo_fresh, of 0] by (simp add: demo_state_def)

text \<open>
  The wait of a caller can be cut short: choosing a worker and taking it are two actions, so with two
  callers on the same worker the second is refused with \<open>Worker is busy\<close> at once, although another worker
  runs and is idle and no time of its waiting period has passed.
\<close>
theorem pool_submit_race:
  "\<exists>s. pool_reachable demo_pool_env (demo_pool 0 False) () s \<and>
     (\<exists>r. cl_phase (clients s ! 2) = Refused r \<and> res_error r = Some ''Worker is busy'') \<and>
     (\<exists>a \<in> set (slots (pool s)). ag_running (at (pool s) a) \<and> \<not> ag_busy (at (pool s) a)) \<and>
     0 < max_wait_ms (pool s) \<and> fst (pe_clock demo_pool_env (pool_world s)) = 7"
proof -
  let ?R = "pool_reachable demo_pool_env (demo_pool 0 False) ()"
  have "?R (demo_state 0 False [] [])"
    using reachable_refl [of demo_pool_env "demo_pool 0 False" "()"] by (simp add: demo_initial)
  from reachable_step [OF reachable_step [OF reachable_step [OF this demo_call_step] demo_call_step] demo_call_step]
  have "?R (demo_state 0 False [Entering, Entering, Entering] [])"
    by simp
  from reachable_step [OF this demo_enter_step [of 0]]
  have "?R (demo_state 0 False [Scanning 7, Entering, Entering] [])"
    by simp
  from reachable_step [OF this demo_enter_step [of 1]]
  have "?R (demo_state 0 False [Scanning 7, Scanning 7, Entering] [])"
    by simp
  from reachable_step [OF this demo_enter_step [of 2]]
  have "?R (demo_state 0 False [Scanning 7, Scanning 7, Scanning 7] [])"
    by simp
  from reachable_step [OF this demo_scan_step [of 0 _ 7]]
  have "?R (demo_state 1 False [Chose 0, Scanning 7, Scanning 7] [])"
    by simp
  from reachable_step [OF this demo_scan_step [of 1 _ 7]]
  have "?R (demo_state 2 False [Chose 0, Chose 1, Scanning 7] [])"
    by (simp add: numeral_2_eq_2)
  from reachable_step [OF this demo_scan_step [of 2 _ 7]]
  have "?R (demo_state 3 False [Chose 0, Chose 1, Chose 0] [])"
    by (simp add: numeral_2_eq_2 numeral_3_eq_3)
  from reachable_step [OF this demo_submit_step [of 0]]
  have accepted: "?R (demo_state 3 True [Accepted, Chose 1, Chose 0] [\<lparr>th_client = 0, th_agent = 0, th_phase = Spawned\<rparr>])"
    by simp
  let ?r = "refusal ''Worker is busy'' 0 (Some ''a'') (demo_call False)"
  let ?s = "demo_state 3 True [Accepted, Chose 1, Refused ?r] [\<lparr>th_client = 0, th_agent = 0, th_phase = Spawned\<rparr>]"
  have "?R ?s"
    using reachable_step [OF accepted demo_refused_step [of 2]] by simp
  moreover have "cl_phase (clients ?s ! 2) = Refused ?r" "pool ?s = demo_pool 3 True" "pool_world ?s = ()"
    by (simp_all add: demo_state_def)
  moreover have "res_error ?r = Some ''Worker is busy''"
    by (simp add: refusal_def make_task_result_def)
  moreover have "1 \<in> set (slots (demo_pool 3 True))" "ag_running (at (demo_pool 3 True) 1)"
    "\<not> ag_busy (at (demo_pool 3 True) 1)" "0 < max_wait_ms (demo_pool 3 True)"
    by (simp_all add: demo_pool_eq at_def new_agent_def)
  moreover have "fst (pe_clock demo_pool_env ()) = 7"
    by (simp add: demo_pool_env_def)
  ultimately show ?thesis
    by (intro exI [of _ ?s]) (auto simp del: One_nat_def)
qed

end
