(* ===== verification/Pool_Liveness.thy ===== *)
theory Pool_Liveness
  imports Pool_Properties
begin

text \<open>
  Completion of the tasks of the worker pool (\<open>worker/core.rs\<close>): in every infinite run of its callers,
  threads and operators that is weakly fair to the thread of an accepted task, the caller is answered, or,
  when the task panics, disconnected, and the worker is freed.
\<close>

definition pool_execution :: "'w pool_env \<Rightarrow> worker_pool \<Rightarrow> 'w \<Rightarrow> (nat \<Rightarrow> 'w pool_run) \<Rightarrow> bool" where
  "pool_execution P p w \<sigma> \<longleftrightarrow> pool_reachable P p w (\<sigma> 0) \<and> (\<forall>k. pool_step P (\<sigma> k) (\<sigma> (Suc k)))"

text \<open>Weak fairness: a thread that can act from some point on does act.\<close>

definition fair_to :: "'w pool_env \<Rightarrow> nat \<Rightarrow> (nat \<Rightarrow> 'w pool_run) \<Rightarrow> bool" where
  "fair_to P i \<sigma> \<longleftrightarrow>
     (\<forall>k. (\<forall>m\<ge>k. \<exists>s'. thread_step P i (\<sigma> m) s') \<longrightarrow> (\<exists>m\<ge>k. thread_step P i (\<sigma> m) (\<sigma> (Suc m))))"

lemma execution_reachable: "pool_execution P p w \<sigma> \<Longrightarrow> pool_reachable P p w (\<sigma> k)"
  by (induction k) (auto simp: pool_execution_def intro: reachable_step)

lemma execution_settled: "pool_execution P p w \<sigma> \<Longrightarrow> fresh_pool p \<Longrightarrow> settled P (\<sigma> k)"
  by (rule reachable_invariants [OF execution_reachable, THEN conjunct2, THEN conjunct2])

lemma execution_exclusive: "pool_execution P p w \<sigma> \<Longrightarrow> fresh_pool p \<Longrightarrow> exclusive (\<sigma> k)"
  by (rule reachable_invariants [OF execution_reachable, THEN conjunct1])


section \<open>One step\<close>

lemma in_update: "x \<in> set xs \<Longrightarrow> j < length xs \<Longrightarrow> x \<noteq> xs ! j \<Longrightarrow> x \<in> set (xs[j := y])"
  by (metis in_set_conv_nth length_list_update nth_list_update_neq)

lemma in_remove: "x \<in> set xs \<Longrightarrow> j < length xs \<Longrightarrow> x \<noteq> xs ! j \<Longrightarrow> x \<in> set (remove_at j xs)"
  using id_take_nth_drop [of j xs] unfolding remove_at_def by (metis Un_iff set_ConsD set_append)

lemma set_phase_other: "k \<noteq> i \<Longrightarrow> clients (set_phase i ph s) ! k = clients s ! k"
  by (simp add: set_phase_def)

text \<open>What the thread of another client does leaves a thread and its caller alone.\<close>

lemma other_thread_keeps:
  assumes "thread_step P i' s s'" "i' \<noteq> i"
  shows "clients s' ! i = clients s ! i" "length (clients s') = length (clients s)"
    and "th \<in> set (threads s) \<Longrightarrow> th_client th = i \<Longrightarrow> th \<in> set (threads s')"
proof -
  show "clients s' ! i = clients s ! i" "length (clients s') = length (clients s)"
    using assms by (cases rule: thread_step.cases; auto simp: set_phase_other dest: run_on_agent_frame(1))+
  assume th: "th \<in> set (threads s)" "th_client th = i"
  show "th \<in> set (threads s')"
    using assms(1)
  proof (cases rule: thread_step.cases)
    case (thread_started j t0 s1)
    then show ?thesis
      using th assms(2) by (auto intro!: in_update)
  next
    case (thread_sent j t0 r s1)
    then show ?thesis
      using th assms(2) by (auto intro!: in_update)
  next
    case (thread_panicked j t0 w cur events)
    then show ?thesis
      using th assms(2) by (auto intro!: in_update)
  next
    case (thread_released j)
    then show ?thesis
      using th assms(2) by (auto intro!: in_remove)
  next
    case (thread_unwound j)
    then show ?thesis
      using th assms(2) by (auto intro!: in_remove)
  qed
qed

text \<open>A step of anybody else leaves a caller alone that has been accepted.\<close>

definition waiting :: "client_phase \<Rightarrow> bool" where
  "waiting ph \<longleftrightarrow> (case ph of Entering \<Rightarrow> True | Scanning _ \<Rightarrow> True | Chose _ \<Rightarrow> True | _ \<Rightarrow> False)"

lemma step_keeps:
  assumes "pool_step P s s'" "\<not> thread_step P i s s'" "i < length (clients s)" "\<not> waiting (cl_phase (clients s ! i))"
  shows "clients s' ! i = clients s ! i" "length (clients s) \<le> length (clients s')"
    and "th \<in> set (threads s) \<Longrightarrow> th_client th = i \<Longrightarrow> th \<in> set (threads s')"
proof -
  have "clients s' ! i = clients s ! i \<and> length (clients s) \<le> length (clients s') \<and>
      (th \<in> set (threads s) \<longrightarrow> th_client th = i \<longrightarrow> th \<in> set (threads s'))"
    using assms(1)
  proof (cases rule: pool_step.cases)
    case (thread i')
    then have "i' \<noteq> i"
      using assms(2) by auto
    then show ?thesis
      using other_thread_keeps [OF thread] by auto
  qed (use assms(3,4) in \<open>auto simp: waiting_def set_phase_def nth_append nth_list_update\<close>)
  then show "clients s' ! i = clients s ! i" "length (clients s) \<le> length (clients s')"
    "th \<in> set (threads s) \<Longrightarrow> th_client th = i \<Longrightarrow> th \<in> set (threads s')"
    by auto
qed

lemma thread_enabled:
  assumes "th \<in> set (threads s)" "th_client th = i"
  shows "\<exists>s'. thread_step P i s s'"
proof -
  obtain j where j: "j < length (threads s)" "threads s ! j = th"
    using assms(1) by (metis in_set_conv_nth)
  note jc = j(1) trans [OF arg_cong [OF j(2), of th_client] assms(2)]
  show ?thesis
  proof (cases "th_phase th")
    case Spawned
    obtain t0 s' where "run_on_agent P (th_agent (threads s ! j)) (thread_begin (cl_task (clients s ! i))) s = (t0, s')"
      by fastforce
    from thread_step.thread_started [OF jc _ this] show ?thesis
      using Spawned j(2) by blast
  next
    case (Started t0)
    obtain r s' where run: "run_on_agent P (th_agent (threads s ! j)) (thread_end (cl_task (clients s ! i)) t0) s = (r, s')"
      by fastforce
    have "abandoned_task cur None" for cur
      by (simp add: abandoned_task_def)
    then show ?thesis
      using thread_step.thread_sent [OF jc _ _ run] thread_step.thread_panicked [OF jc] Started j(2)
      by (cases "pe_panic P (cl_task (clients s ! i)) (pool_world s)") blast+
  next
    case Sent
    then show ?thesis
      using thread_step.thread_released [OF jc] j(2) by blast
  next
    case Unwinding
    then show ?thesis
      using thread_step.thread_unwound [OF jc] j(2) by blast
  qed
qed

text \<open>What the thread's own step does, phase by phase.\<close>

lemma the_thread:
  assumes "settled P s" "j < length (threads s)" "th_client (threads s ! j) = i" "th \<in> set (threads s)" "th_client th = i"
  shows "threads s ! j = th"
proof -
  have "inj_on th_client (set (threads s))"
    using assms(1) by (simp add: settled_def distinct_map)
  moreover have "th_client (threads s ! j) = th_client th"
    using assms(3,5) by simp
  ultimately show ?thesis
    by (rule inj_onD) (use assms(2,4) in simp_all)
qed

definition freed :: "nat \<Rightarrow> nat \<Rightarrow> 'w pool_run \<Rightarrow> bool" where
  "freed i a s \<longleftrightarrow> i \<notin> th_client ` set (threads s) \<and> \<not> ag_busy (at (pool s) a)"

definition advanced :: "'w pool_env \<Rightarrow> nat \<Rightarrow> pool_thread \<Rightarrow> client \<Rightarrow> 'w pool_run \<Rightarrow> bool" where
  "advanced P i th c s \<longleftrightarrow>
     (case th_phase th of
        Spawned \<Rightarrow> clients s ! i = c \<and> (\<exists>t0. th\<lparr>th_phase := Started t0\<rparr> \<in> set (threads s))
      | Started t0 \<Rightarrow>
          clients s ! i = c \<and> th\<lparr>th_phase := Unwinding\<rparr> \<in> set (threads s) \<or>
          (\<exists>r. clients s ! i = c\<lparr>cl_phase := Answered r\<rparr>) \<and> th\<lparr>th_phase := Sent\<rparr> \<in> set (threads s)
      | Sent \<Rightarrow> clients s ! i = c \<and> freed i (th_agent th) s
      | Unwinding \<Rightarrow> clients s ! i = c\<lparr>cl_phase := Disconnected\<rparr> \<and> freed i (th_agent th) s)"

lemma thread_advances:
  assumes "thread_step P i s s'" "settled P s" "exclusive s" "th \<in> set (threads s)" "th_client th = i"
  shows "advanced P i th (clients s ! i) s'"
proof -
  have i: "i < length (clients s)" and a: "th_agent th < length (agents (pool s))"
    using assms(2-5) by (auto simp: settled_def exclusive_def on_agents_def)
  have gone: "i \<notin> th_client ` set (remove_at j (threads s))" if "j < length (threads s)" "th_client (threads s ! j) = i" for j
    using settled_remove(2) [OF assms(2) that(1)] that(2) unfolding image_iff by metis
  show ?thesis
    using assms(1)
  proof (cases rule: thread_step.cases)
    case (thread_started j t0 s1)
    have "threads s ! j = th"
      using the_thread [OF assms(2) thread_started(2,3) assms(4,5)] .
    then show ?thesis
      unfolding thread_started(1) using thread_started(2,4) run_on_agent_frame(1) [OF thread_started(5)]
      by (auto simp: advanced_def intro!: exI [of _ t0] set_update_memI)
  next
    case (thread_sent j t0 r s1)
    have "threads s ! j = th"
      using the_thread [OF assms(2) thread_sent(2,3) assms(4,5)] .
    then show ?thesis
      unfolding thread_sent(1) using thread_sent(2,4) run_on_agent_frame(1) [OF thread_sent(6)] i
      by (auto simp: advanced_def set_update_memI clients_set_phase)
  next
    case (thread_panicked j t0 w cur events)
    have "threads s ! j = th"
      using the_thread [OF assms(2) thread_panicked(2,3) assms(4,5)] .
    then show ?thesis
      unfolding thread_panicked(1) using thread_panicked(2,4) by (auto simp: advanced_def set_update_memI)
  next
    case (thread_released j)
    have "threads s ! j = th"
      using the_thread [OF assms(2) thread_released(2,3) assms(4,5)] .
    then show ?thesis
      unfolding thread_released(1) using thread_released(4) gone [OF thread_released(2,3)] a
      by (simp add: advanced_def freed_def drop_guard_def at_set_agent)
  next
    case (thread_unwound j)
    have "threads s ! j = th"
      using the_thread [OF assms(2) thread_unwound(2,3) assms(4,5)] .
    then show ?thesis
      unfolding thread_unwound(1) using thread_unwound(4) gone [OF thread_unwound(2,3)] a i
      by (simp add: advanced_def freed_def drop_guard_def at_set_agent clients_set_phase)
  qed
qed


section \<open>Runs\<close>

text \<open>A thread keeps its phase until its own next step, which a fair run takes.\<close>

lemma next_own_step:
  assumes "pool_execution P p w \<sigma>" "fresh_pool p" "fair_to P i \<sigma>" "th \<in> set (threads (\<sigma> k))" "th_client th = i"
  shows "\<exists>m\<ge>k. thread_step P i (\<sigma> m) (\<sigma> (Suc m)) \<and> th \<in> set (threads (\<sigma> m)) \<and> clients (\<sigma> m) ! i = clients (\<sigma> k) ! i"
proof -
  have step: "pool_step P (\<sigma> m) (\<sigma> (Suc m))" for m
    using assms(1) by (simp add: pool_execution_def)
  have stays: "th \<in> set (threads (\<sigma> (k + d))) \<and> clients (\<sigma> (k + d)) ! i = clients (\<sigma> k) ! i"
    if "\<And>m. k \<le> m \<Longrightarrow> m < k + d \<Longrightarrow> \<not> thread_step P i (\<sigma> m) (\<sigma> (Suc m))" for d
    using that
  proof (induction d)
    case (Suc d)
    have ih: "th \<in> set (threads (\<sigma> (k + d)))" "clients (\<sigma> (k + d)) ! i = clients (\<sigma> k) ! i"
      using Suc by auto
    have srv: "i < length (clients (\<sigma> (k + d)))" "serves P th (clients (\<sigma> (k + d)) ! i)"
      using execution_settled [OF assms(1,2), of "k + d"] ih(1) assms(5) by (auto simp: settled_def)
    then have "\<not> waiting (cl_phase (clients (\<sigma> (k + d)) ! i))"
      by (auto simp: serves_def waiting_def split: thread_phase.splits)
    from step_keeps [OF step Suc.prems [of "k + d"] srv(1) this] show ?case
      using ih assms(5) by simp
  qed (simp add: assms(4))
  have "\<exists>m\<ge>k. thread_step P i (\<sigma> m) (\<sigma> (Suc m))"
  proof (rule ccontr)
    assume none: "\<not> (\<exists>m\<ge>k. thread_step P i (\<sigma> m) (\<sigma> (Suc m)))"
    have "\<exists>s'. thread_step P i (\<sigma> m) s'" if "m \<ge> k" for m
      using stays [of "m - k"] none that assms(5) by (auto intro: thread_enabled)
    then show False
      using assms(3) none unfolding fair_to_def by blast
  qed
  then obtain m where m: "k \<le> m" "thread_step P i (\<sigma> m) (\<sigma> (Suc m))"
    and least: "\<And>n. k \<le> n \<Longrightarrow> n < m \<Longrightarrow> \<not> thread_step P i (\<sigma> n) (\<sigma> (Suc n))"
    using exists_least_iff [of "\<lambda>m. k \<le> m \<and> thread_step P i (\<sigma> m) (\<sigma> (Suc m))"] by blast
  show ?thesis
    using m stays [of "m - k"] least by auto
qed

text \<open>So every thread advances, within the run.\<close>

lemma eventually_advanced:
  assumes "pool_execution P p w \<sigma>" "fresh_pool p" "fair_to P i \<sigma>" "th \<in> set (threads (\<sigma> k))" "th_client th = i"
  shows "\<exists>m>k. advanced P i th (clients (\<sigma> k) ! i) (\<sigma> m)"
proof -
  obtain m where "k \<le> m" "thread_step P i (\<sigma> m) (\<sigma> (Suc m))" "th \<in> set (threads (\<sigma> m))"
    "clients (\<sigma> m) ! i = clients (\<sigma> k) ! i"
    using next_own_step [OF assms] by blast
  then show ?thesis
    using thread_advances [OF _ execution_settled [OF assms(1,2)] execution_exclusive [OF assms(1,2)] _ assms(5), of m]
    by (intro exI [of _ "Suc m"]) simp
qed

text \<open>What an answer or a disconnection leaves.\<close>

definition final :: "client_phase \<Rightarrow> bool" where
  "final ph \<longleftrightarrow> (case ph of Answered _ \<Rightarrow> True | Disconnected \<Rightarrow> True | _ \<Rightarrow> False)"

lemma final_stays:
  assumes "pool_step P s s'" "settled P s" "i < length (clients s)" "final (cl_phase (clients s ! i))"
  shows "clients s' ! i = clients s ! i"
proof (cases "thread_step P i s s'")
  case True
  then show ?thesis
  proof (cases rule: thread_step.cases)
    case (thread_sent j t0 r s1)
    then show ?thesis
      using settled_at [OF assms(2) thread_sent(2,3)] assms(4) by (simp add: serves_def final_def)
  next
    case (thread_unwound j)
    then show ?thesis
      using settled_at [OF assms(2) thread_unwound(2,3)] assms(4) by (simp add: serves_def final_def)
  qed (auto dest: run_on_agent_frame(1))
next
  case False
  have "\<not> waiting (cl_phase (clients s ! i))"
    using assms(4) by (auto simp: final_def waiting_def split: client_phase.splits)
  from step_keeps(1) [OF assms(1) False assms(3) this] show ?thesis .
qed

lemma clients_grow:
  assumes "pool_execution P p w \<sigma>" "m \<le> n"
  shows "length (clients (\<sigma> m)) \<le> length (clients (\<sigma> n))"
proof (rule lift_Suc_mono_le [OF _ assms(2)])
  fix a
  have "pool_step P (\<sigma> a) (\<sigma> (Suc a))"
    using assms(1) by (simp add: pool_execution_def)
  then show "length (clients (\<sigma> a)) \<le> length (clients (\<sigma> (Suc a)))"
    by (cases rule: pool_step.cases) (auto elim!: thread_step.cases dest: run_on_agent_frame(1))
qed

lemma final_forever:
  assumes "pool_execution P p w \<sigma>" "fresh_pool p" "i < length (clients (\<sigma> m))" "final (cl_phase (clients (\<sigma> m) ! i))" "m \<le> n"
  shows "clients (\<sigma> n) ! i = clients (\<sigma> m) ! i \<and> i < length (clients (\<sigma> n))"
  using assms(5)
proof (induction n rule: dec_induct)
  case (step n)
  have st: "pool_step P (\<sigma> n) (\<sigma> (Suc n))"
    using assms(1) by (simp add: pool_execution_def)
  have len: "length (clients (\<sigma> n)) \<le> length (clients (\<sigma> (Suc n)))"
    by (rule clients_grow [OF assms(1)]) simp
  show ?case
    using final_stays [OF st execution_settled [OF assms(1,2)]] step.IH assms(4) len by simp
qed (simp add: assms(3))


section \<open>Completion\<close>

lemma pool_answers_ids:
  assumes "pool_reachable P p w s" "fresh_pool p" "i < length (clients s)"
  shows "case cl_phase (clients s ! i) of
      Answered r \<Rightarrow> res_task_id r = tk_id (cl_task (clients s ! i)) \<and> res_trace_id r = tk_trace_id (cl_task (clients s ! i))
    | Disconnected \<Rightarrow> may_panic P (cl_task (clients s ! i))
    | _ \<Rightarrow> True"
  using reachable_invariants [OF assms(1,2)] assms(3)
  by (auto simp: accounted_def settled_def phase_ok_def split: client_phase.splits)

definition completes :: "(nat \<Rightarrow> 'w pool_run) \<Rightarrow> nat \<Rightarrow> nat \<Rightarrow> nat \<Rightarrow> bool" where
  "completes \<sigma> i a k \<longleftrightarrow> (\<exists>m>k. \<exists>n\<ge>m. i < length (clients (\<sigma> m)) \<and> final (cl_phase (clients (\<sigma> m) ! i)) \<and>
     cl_task (clients (\<sigma> m) ! i) = cl_task (clients (\<sigma> k) ! i) \<and> freed i a (\<sigma> n))"

lemma completes_earlier:
  "completes \<sigma> i a k1 \<Longrightarrow> k < k1 \<Longrightarrow> cl_task (clients (\<sigma> k1) ! i) = cl_task (clients (\<sigma> k) ! i) \<Longrightarrow> completes \<sigma> i a k"
  unfolding completes_def by (metis order.strict_trans)

text \<open>The last steps of a thread that unwinds, and of one that has begun.\<close>

lemma unwinding_completes:
  assumes "pool_execution P p w \<sigma>" "fresh_pool p" "fair_to P i \<sigma>"
    and "th \<in> set (threads (\<sigma> k))" "th_client th = i" "th_phase th = Unwinding"
  shows "completes \<sigma> i (th_agent th) k"
proof -
  obtain m where m: "k < m" "clients (\<sigma> m) ! i = (clients (\<sigma> k) ! i)\<lparr>cl_phase := Disconnected\<rparr>" "freed i (th_agent th) (\<sigma> m)"
    using eventually_advanced [OF assms(1-5)] assms(6) by (auto simp: advanced_def)
  have "i < length (clients (\<sigma> k))"
    using execution_settled [OF assms(1,2), of k] assms(4,5) by (auto simp: settled_def)
  then have "i < length (clients (\<sigma> m))"
    using clients_grow [OF assms(1), of k m] m(1) by simp
  then show ?thesis
    unfolding completes_def using m by (intro exI [of _ m] conjI) (simp_all add: final_def)
qed

lemma started_completes:
  assumes "pool_execution P p w \<sigma>" "fresh_pool p" "fair_to P i \<sigma>"
    and "th \<in> set (threads (\<sigma> k))" "th_client th = i" "th_phase th = Started t0"
  shows "completes \<sigma> i (th_agent th) k"
proof -
  obtain k1 where k1: "k < k1" "advanced P i th (clients (\<sigma> k) ! i) (\<sigma> k1)"
    using eventually_advanced [OF assms(1-5)] by blast
  from k1(2) consider
      (unwinding) "clients (\<sigma> k1) ! i = clients (\<sigma> k) ! i" "th\<lparr>th_phase := Unwinding\<rparr> \<in> set (threads (\<sigma> k1))"
    | (sent) r where "clients (\<sigma> k1) ! i = (clients (\<sigma> k) ! i)\<lparr>cl_phase := Answered r\<rparr>"
        "th\<lparr>th_phase := Sent\<rparr> \<in> set (threads (\<sigma> k1))"
    using assms(6) by (auto simp: advanced_def)
  then show ?thesis
  proof cases
    case unwinding
    have "completes \<sigma> i (th_agent th) k1"
      using unwinding_completes [OF assms(1-3) unwinding(2)] assms(5) by simp
    then show ?thesis
      by (rule completes_earlier) (simp_all add: k1(1) unwinding(1))
  next
    case sent
    obtain k2 where k2: "k1 < k2" "freed i (th_agent th) (\<sigma> k2)"
      using eventually_advanced [OF assms(1-3) sent(2)] assms(5) by (auto simp: advanced_def)
    have "i < length (clients (\<sigma> k1))"
      using execution_settled [OF assms(1,2), of k1] sent(2) assms(5) by (force simp: settled_def)
    then show ?thesis
      unfolding completes_def using k1(1) k2 sent(1)
      by (intro exI [of _ k1] conjI exI [of _ k2]) (simp_all add: final_def)
  qed
qed

text \<open>
  C10. Accepted tasks complete: in every infinite run of callers, threads, starts, stops and scalings that is
  weakly fair to the thread of the caller (if it can act from some point on, it acts), an accepted caller is
  answered with the identifiers of its task, or, only if its task can panic, finds its channel closed; that
  outcome stays, and the worker of its thread is then freed, by the thread's end or by its panic guard.
\<close>
theorem accepted_task_completes:
  assumes "fresh_pool p" "pool_execution P p w \<sigma>" "fair_to P i \<sigma>"
    and "i < length (clients (\<sigma> k))" "cl_phase (clients (\<sigma> k) ! i) = Accepted"
  shows "\<exists>m>k. (\<forall>n\<ge>m. clients (\<sigma> n) ! i = clients (\<sigma> m) ! i) \<and>
    (case cl_phase (clients (\<sigma> m) ! i) of
       Answered r \<Rightarrow> res_task_id r = tk_id (cl_task (clients (\<sigma> k) ! i)) \<and>
         res_trace_id r = tk_trace_id (cl_task (clients (\<sigma> k) ! i))
     | Disconnected \<Rightarrow> may_panic P (cl_task (clients (\<sigma> k) ! i))
     | _ \<Rightarrow> False) \<and>
    (\<exists>th \<in> set (threads (\<sigma> k)). th_client th = i \<and>
       (\<exists>n\<ge>m. i \<notin> th_client ` set (threads (\<sigma> n)) \<and> \<not> ag_busy (at (pool (\<sigma> n)) (th_agent th))))"
proof -
  note run = assms(2,1,3)
  have "accounted (\<sigma> k)" and set: "settled P (\<sigma> k)"
    using reachable_invariants [OF execution_reachable [OF assms(2)] assms(1)] by blast+
  then have "i \<in> set (map th_client (filter unsent (threads (\<sigma> k))))"
    using assms(4,5) unfolding accounted_def by blast
  then obtain th where th: "th \<in> set (threads (\<sigma> k))" "unsent th" "th_client th = i"
    by auto
  have "completes \<sigma> i (th_agent th) k"
  proof (cases "th_phase th")
    case Spawned
    then obtain k1 t0 where k1: "k < k1" "clients (\<sigma> k1) ! i = clients (\<sigma> k) ! i"
      "th\<lparr>th_phase := Started t0\<rparr> \<in> set (threads (\<sigma> k1))"
      using eventually_advanced [OF run th(1,3)] by (auto simp: advanced_def)
    have "completes \<sigma> i (th_agent th) k1"
      using started_completes [OF run k1(3)] th(3) by simp
    then show ?thesis
      by (rule completes_earlier) (simp_all add: k1(1,2))
  next
    case (Started t0)
    then show ?thesis
      by (rule started_completes [OF run th(1,3)])
  next
    case Unwinding
    then show ?thesis
      by (rule unwinding_completes [OF run th(1,3)])
  qed (use th(2) in \<open>simp add: unsent_def\<close>)
  then obtain m n where m: "k < m" "m \<le> n" "i < length (clients (\<sigma> m))" "final (cl_phase (clients (\<sigma> m) ! i))"
    "cl_task (clients (\<sigma> m) ! i) = cl_task (clients (\<sigma> k) ! i)" "freed i (th_agent th) (\<sigma> n)"
    unfolding completes_def by blast
  have "case cl_phase (clients (\<sigma> m) ! i) of
       Answered r \<Rightarrow> res_task_id r = tk_id (cl_task (clients (\<sigma> k) ! i)) \<and>
         res_trace_id r = tk_trace_id (cl_task (clients (\<sigma> k) ! i))
     | Disconnected \<Rightarrow> may_panic P (cl_task (clients (\<sigma> k) ! i))
     | _ \<Rightarrow> False"
    using pool_answers_ids [OF execution_reachable [OF assms(2), of m] assms(1) m(3)] m(4,5)
    by (auto simp: final_def split: client_phase.splits)
  moreover have "\<forall>n\<ge>m. clients (\<sigma> n) ! i = clients (\<sigma> m) ! i"
    using final_forever [OF run(1,2) m(3,4)] by blast
  ultimately show ?thesis
    using m(1,2,6) th(1,3) unfolding freed_def by blast
qed

text \<open>A fair run for the witness: the thread takes its three steps, and then the operator stops the pool, again and again.\<close>

definition stopping :: "'w pool_run \<Rightarrow> 'w pool_run" where
  "stopping s = s\<lparr>pool := stop_pool (pool s)\<rparr>"

definition run_of :: "'w pool_run \<Rightarrow> 'w pool_run \<Rightarrow> 'w pool_run \<Rightarrow> 'w pool_run \<Rightarrow> nat \<Rightarrow> 'w pool_run" where
  "run_of s0 s1 s2 s3 n = (if n = 0 then s0 else if n = 1 then s1 else if n = 2 then s2 else (stopping ^^ (n - 3)) s3)"

lemma run_of_fair:
  assumes "pool_reachable P p w s0" "thread_step P i s0 s1" "thread_step P i s1 s2" "thread_step P i s2 s3"
    "i \<notin> th_client ` set (threads s3)"
  shows "pool_execution P p w (run_of s0 s1 s2 s3)" "fair_to P i (run_of s0 s1 s2 s3)"
proof -
  have stop: "pool_step P s (stopping s)" for s
    unfolding stopping_def by (rule pool_step.stop)
  have "pool_step P (run_of s0 s1 s2 s3 k) (run_of s0 s1 s2 s3 (Suc k))" for k
  proof -
    consider "k = 0" | "k = 1" | "k = 2" | d where "k = Suc (Suc (Suc d))"
      by (metis One_nat_def Suc_1 not0_implies_Suc)
    then show ?thesis
      using assms(2-4) stop by cases (simp_all add: run_of_def pool_step.thread)
  qed
  then show "pool_execution P p w (run_of s0 s1 s2 s3)"
    using assms(1) by (simp add: pool_execution_def run_of_def)
  have same: "threads ((stopping ^^ d) s3) = threads s3" for d
    by (induction d) (simp_all add: stopping_def)
  have own: "i \<in> th_client ` set (threads s)" if "thread_step P i s s'" for s s'
    using that by (cases rule: thread_step.cases) (auto intro: nth_mem)
  have idle: "\<not> thread_step P i (run_of s0 s1 s2 s3 m) s'" if "3 \<le> m" for m s'
    using own [of "(stopping ^^ (m - 3)) s3" s'] assms(5) that unfolding same by (simp add: run_of_def) blast
  show "fair_to P i (run_of s0 s1 s2 s3)"
    unfolding fair_to_def
  proof (intro allI impI)
    fix k
    assume "\<forall>m\<ge>k. \<exists>s'. thread_step P i (run_of s0 s1 s2 s3 m) s'"
    then obtain s' where "thread_step P i (run_of s0 s1 s2 s3 (max k 3)) s'"
      by (meson max.cobounded1)
    then show "\<exists>m\<ge>k. thread_step P i (run_of s0 s1 s2 s3 m) (run_of s0 s1 s2 s3 (Suc m))"
      using idle [of "max k 3" s'] by simp
  qed
qed

lemma accepted_task_completes_witness:
  "\<exists>\<sigma> m r. pool_execution demo_pool_env (demo_pool 0 False) () \<sigma> \<and> fair_to demo_pool_env 0 \<sigma> \<and>
     cl_phase (clients (\<sigma> m) ! 0) = Answered r \<and> res_task_id r = tk_id (demo_call False)"
proof -
  let ?P = demo_pool_env and ?th = "\<lparr>th_client = 0, th_agent = 0, th_phase = Spawned\<rparr>"
  let ?s0 = "demo_state 1 True [Accepted] [?th]"
  have adv: "\<exists>s'. thread_step ?P 0 s s' \<and> pool_reachable ?P (demo_pool 0 False) () s' \<and> advanced ?P 0 th (clients s ! 0) s'"
    if reach: "pool_reachable ?P (demo_pool 0 False) () s" and th: "th \<in> set (threads s)" "th_client th = 0" for s th
  proof -
    obtain s' where "thread_step ?P 0 s s'"
      using thread_enabled [OF th] by blast
    then show ?thesis
      using thread_advances [OF _ _ _ th] reachable_invariants [OF reach demo_fresh] reachable_step [OF reach] pool_step.thread
      by blast
  qed
  obtain s1 t0 where s1: "thread_step ?P 0 ?s0 s1" "pool_reachable ?P (demo_pool 0 False) () s1"
    "?th\<lparr>th_phase := Started t0\<rparr> \<in> set (threads s1)"
    using adv [OF demo_accepted, of ?th] by (auto simp: demo_state_def advanced_def)
  obtain s2 th2 where s2: "thread_step ?P 0 s1 s2" "pool_reachable ?P (demo_pool 0 False) () s2"
    "th2 \<in> set (threads s2)" "th_client th2 = 0" "th_phase th2 = Sent \<or> th_phase th2 = Unwinding"
    using adv [OF s1(2,3)] by (fastforce simp: advanced_def)
  obtain s3 where s3: "thread_step ?P 0 s2 s3" "0 \<notin> th_client ` set (threads s3)"
    using adv [OF s2(2-4)] s2(5) by (auto simp: advanced_def freed_def)
  note run = run_of_fair [OF demo_accepted s1(1) s2(1) s3]
  have start: "0 < length (clients (run_of ?s0 s1 s2 s3 0))" "cl_phase (clients (run_of ?s0 s1 s2 s3 0) ! 0) = Accepted"
    "cl_task (clients (run_of ?s0 s1 s2 s3 0) ! 0) = demo_call False"
    by (simp_all add: run_of_def demo_state_def)
  have calm: "\<not> may_panic ?P t" for t
    by (simp add: may_panic_def demo_pool_env_def)
  obtain m where "case cl_phase (clients (run_of ?s0 s1 s2 s3 m) ! 0) of
       Answered r \<Rightarrow> res_task_id r = tk_id (demo_call False) \<and> res_trace_id r = tk_trace_id (demo_call False)
     | Disconnected \<Rightarrow> may_panic ?P (demo_call False) | _ \<Rightarrow> False"
    using accepted_task_completes [OF demo_fresh run start(1,2)] unfolding start(3) by blast
  then show ?thesis
    using run calm by (intro exI [of _ "run_of ?s0 s1 s2 s3"] exI [of _ m]) (auto split: client_phase.splits)
qed

text \<open>
  A panic leaves the task on the worker: the guard clears the busy flag and nothing else, so after the
  unwinding the worker is idle and still reports the task as its current one, and no metric counts it.
\<close>
theorem panicked_worker_keeps_task:
  assumes "j < length (threads s)" "th_client (threads s ! j) = i" "th_phase (threads s ! j) = Started t0"
    and "pe_panic P (cl_task (clients s ! i)) (pool_world s) = Some w"
    and "th_agent (threads s ! j) = a" "a < length (agents (pool s))" "ag_current (at (pool s) a) = Some info"
  shows "\<exists>s1 s2. thread_step P i s s1 \<and> thread_step P i s1 s2 \<and> \<not> ag_busy (at (pool s2) a) \<and>
    ag_current (at (pool s2) a) = Some info \<and> ag_metrics (at (pool s2) a) = ag_metrics (at (pool s) a)"
proof -
  have "abandoned_task (Some info) (Some info)"
    by (cases info) (auto simp: abandoned_task_def)
  then have abandoned: "abandoned_task (ag_current (at (pool s) (th_agent (threads s ! j)))) (Some info)"
    using assms(5,7) by simp
  let ?s1 = "s\<lparr>pool := set_agent a (\<lambda>x. x\<lparr>ag_current := Some info\<rparr>) (pool s),
    threads := (threads s)[j := (threads s ! j)\<lparr>th_phase := Unwinding\<rparr>], pool_world := w, pool_log := pool_log s @ []\<rparr>"
  have 1: "thread_step P i s ?s1"
    using thread_step.thread_panicked [OF assms(1-4) abandoned, of "[]"] assms(5) by simp
  have "j < length (threads ?s1)" "th_client (threads ?s1 ! j) = i" "th_phase (threads ?s1 ! j) = Unwinding"
    using assms(1,2) by simp_all
  from thread_step.thread_unwound [OF this, of P] show ?thesis
    using 1 assms(1,5,6)
    by (intro exI [of _ ?s1] exI conjI) (assumption, assumption, simp_all add: drop_guard_def at_set_agent)
qed

end
