(* ===== verification/Parallel_Pool.thy ===== *)
theory Parallel_Pool
  imports Complex_Main Task_Types Strings
begin

text \<open>
  Batches of tasks (\<open>orchestrator/parallel_pool.rs\<close>).  A worker pool is seen through its interface:
  \<open>submit\<close> hands a task in and gives a receiver, \<open>receive\<close> waits on a receiver, for ever or up to a
  timeout; both act on the outside world \<open>'w\<close>.  The ratios (\<open>f64\<close>) are exact rationals.  A chunk size of
  zero makes \<open>chunks\<close> panic, which is the value \<open>None\<close>.
\<close>

datatype received = Got task_result | RecvTimedOut | RecvClosed

record ('w, 'r) pool_ops =
  submit :: "task \<Rightarrow> 'w \<Rightarrow> 'r \<times> 'w"
  recv :: "'r \<Rightarrow> 'w \<Rightarrow> task_result option \<times> 'w"
  recv_timeout :: "'r \<Rightarrow> nat \<Rightarrow> 'w \<Rightarrow> received \<times> 'w"
  pool_now :: "'w \<Rightarrow> nat \<times> 'w"
  fresh_uuid :: "'w \<Rightarrow> string \<times> 'w"

record parallel_config =
  max_concurrent :: nat
  default_timeout_ms :: nat
  fail_fast :: bool
  min_success_ratio :: rat

definition default_parallel_config :: parallel_config where
  "default_parallel_config =
     \<lparr>max_concurrent = 10, default_timeout_ms = 60000, fail_fast = False, min_success_ratio = 1 / 2\<rparr>"

record parallel_metrics =
  batches_executed :: nat
  total_tasks :: nat
  successful_tasks :: nat
  failed_tasks :: nat
  timed_out_tasks :: nat

definition zero_parallel_metrics :: parallel_metrics where
  "zero_parallel_metrics =
     \<lparr>batches_executed = 0, total_tasks = 0, successful_tasks = 0, failed_tasks = 0, timed_out_tasks = 0\<rparr>"

record parallel_pool =
  pp_running :: bool
  pp_config :: parallel_config
  pp_metrics :: parallel_metrics

definition with_parallel_config :: "parallel_config \<Rightarrow> parallel_pool" where
  "with_parallel_config c = \<lparr>pp_running = False, pp_config = c, pp_metrics = zero_parallel_metrics\<rparr>"

definition new_parallel_pool :: parallel_pool where
  "new_parallel_pool = with_parallel_config default_parallel_config"

definition start_parallel :: "parallel_pool \<Rightarrow> parallel_pool" where
  "start_parallel p = p\<lparr>pp_running := True\<rparr>"

definition stop_parallel :: "parallel_pool \<Rightarrow> parallel_pool" where
  "stop_parallel p = p\<lparr>pp_running := False\<rparr>"

record parallel_result =
  batch_id :: string
  pr_results :: "task_result list"
  pr_successful :: nat
  pr_failed :: nat
  pr_timed_out :: nat
  pr_duration_ms :: nat
  pr_success_ratio :: rat

definition task_failure :: "string \<Rightarrow> nat \<Rightarrow> task \<Rightarrow> task_result" where
  "task_failure err duration t = make_task_result
     \<lparr>mr_task_id = tk_id t, mr_trace_id = tk_trace_id t, mr_status = ''failure'', mr_result = None,
      mr_error = Some err, mr_duration_ms = duration, mr_worker_id = None\<rparr>"

definition succeeded :: "task_result \<Rightarrow> bool" where
  "succeeded r \<longleftrightarrow> res_status r = ''success''"


section \<open>All at once\<close>

fun submit_all :: "('w, 'r) pool_ops \<Rightarrow> task list \<Rightarrow> 'w \<Rightarrow> (task \<times> 'r) list \<times> 'w" where
  "submit_all P [] w = ([], w)"
| "submit_all P (t # ts) w =
     (let (rx, w) = submit P t w; (rest, w) = submit_all P ts w in ((t, rx) # rest, w))"

definition or_closed :: "task \<Rightarrow> task_result option \<Rightarrow> task_result" where
  "or_closed t r = unwrap_or (task_failure ''Task result channel closed'' 0 t) r"

fun recv_all :: "('w, 'r) pool_ops \<Rightarrow> (task \<times> 'r) list \<Rightarrow> 'w \<Rightarrow> task_result list \<times> 'w" where
  "recv_all P [] w = ([], w)"
| "recv_all P ((t, rx) # rest) w =
     (let (r, w) = recv P rx w; (rs, w) = recv_all P rest w in (or_closed t r # rs, w))"

definition combined_result :: "string \<Rightarrow> string \<Rightarrow> task_result list \<Rightarrow> task_result" where
  "combined_result tid trace rs = make_task_result
     \<lparr>mr_task_id = tid, mr_trace_id = trace, mr_status = ''success'',
      mr_result = Some (JObject [(''results'', JArray (map (\<lambda>r. unwrap_or JNull (res_result r)) rs))]),
      mr_error = None, mr_duration_ms = sum_list (map res_duration_ms rs), mr_worker_id = None\<rparr>"

definition execute_parallel :: "('w, 'r) pool_ops \<Rightarrow> task list \<Rightarrow> 'w \<Rightarrow> task_result \<times> 'w" where
  "execute_parallel P ts w =
     (let (rxs, w) = submit_all P ts w; (rs, w) = recv_all P rxs w
      in case find (\<lambda>r. \<not> succeeded r) rs of
           Some failed \<Rightarrow> (failed, w)
         | None \<Rightarrow>
             let (tid, w) = fresh_uuid P w;
                 (trace, w) = (case rs of [] \<Rightarrow> fresh_uuid P w | r # _ \<Rightarrow> (res_trace_id r, w))
             in (combined_result tid trace rs, w))"


section \<open>In chunks\<close>

function chunks :: "nat \<Rightarrow> 'a list \<Rightarrow> 'a list list" where
  "chunks n xs = (if n = 0 \<or> xs = [] then [] else take n xs # chunks n (drop n xs))"
  by pat_completeness auto
termination
  by (relation "measure (\<lambda>(n, xs). length xs)") auto

declare chunks.simps [simp del]

record batch_state =
  b_results :: "task_result list"
  b_successful :: nat
  b_failed :: nat
  b_timed_out :: nat

definition empty_batch :: batch_state where
  "empty_batch = \<lparr>b_results = [], b_successful = 0, b_failed = 0, b_timed_out = 0\<rparr>"

fun batch_result :: "parallel_config \<Rightarrow> task \<Rightarrow> received \<Rightarrow> task_result" where
  "batch_result c t (Got r) = r"
| "batch_result c t RecvTimedOut = task_failure ''Task timed out'' (default_timeout_ms c) t"
| "batch_result c t RecvClosed = task_failure ''Task result channel closed'' 0 t"

definition says_timed_out :: "task_result \<Rightarrow> bool" where
  "says_timed_out r \<longleftrightarrow> (case res_error r of None \<Rightarrow> False | Some e \<Rightarrow> str_contains ''timed out'' e)"

definition count_received :: "parallel_config \<Rightarrow> task \<Rightarrow> received \<Rightarrow> batch_state \<Rightarrow> batch_state" where
  "count_received c t rc st =
     (let r = batch_result c t rc;
          st = (if rc = RecvTimedOut then st\<lparr>b_timed_out := b_timed_out st + 1\<rparr> else st);
          st = (if succeeded r then st\<lparr>b_successful := b_successful st + 1\<rparr>
                else if \<not> says_timed_out r then st\<lparr>b_failed := b_failed st + 1\<rparr>
                else st)
      in st\<lparr>b_results := b_results st @ [r]\<rparr>)"

definition must_abort :: "parallel_config \<Rightarrow> batch_state \<Rightarrow> bool" where
  "must_abort c st \<longleftrightarrow> fail_fast c \<and> b_failed st + b_timed_out st > 0"

fun recv_chunk :: "('w, 'r) pool_ops \<Rightarrow> parallel_config \<Rightarrow> (task \<times> 'r) list \<Rightarrow> batch_state \<Rightarrow> 'w \<Rightarrow> batch_state \<times> 'w" where
  "recv_chunk P c [] st w = (st, w)"
| "recv_chunk P c ((t, rx) # rest) st w =
     (let (rc, w) = recv_timeout P rx (default_timeout_ms c) w;
          st = count_received c t rc st
      in if must_abort c st then (st, w) else recv_chunk P c rest st w)"

definition hopeless :: "parallel_config \<Rightarrow> nat \<Rightarrow> batch_state \<Rightarrow> bool" where
  "hopeless c n st \<longleftrightarrow>
     b_results st \<noteq> [] \<and>
     of_nat (b_successful st + (n - length (b_results st))) / of_nat n < min_success_ratio c"

fun run_chunks :: "('w, 'r) pool_ops \<Rightarrow> parallel_config \<Rightarrow> nat \<Rightarrow> task list list \<Rightarrow> batch_state \<Rightarrow> 'w \<Rightarrow> batch_state \<times> 'w" where
  "run_chunks P c n [] st w = (st, w)"
| "run_chunks P c n (chunk # rest) st w =
     (let (rxs, w) = submit_all P chunk w; (st, w) = recv_chunk P c rxs st w
      in if hopeless c n st \<or> must_abort c st then (st, w) else run_chunks P c n rest st w)"

definition success_ratio :: "batch_state \<Rightarrow> rat" where
  "success_ratio st = (if b_results st = [] then 0 else of_nat (b_successful st) / of_nat (length (b_results st)))"

definition add_batch :: "batch_state \<Rightarrow> parallel_metrics \<Rightarrow> parallel_metrics" where
  "add_batch st m = m
     \<lparr>batches_executed := batches_executed m + 1, total_tasks := total_tasks m + length (b_results st),
      successful_tasks := successful_tasks m + b_successful st, failed_tasks := failed_tasks m + b_failed st,
      timed_out_tasks := timed_out_tasks m + b_timed_out st\<rparr>"

definition execute_batch ::
  "('w, 'r) pool_ops \<Rightarrow> task list \<Rightarrow> parallel_config option \<Rightarrow> parallel_pool \<Rightarrow> 'w \<Rightarrow>
   (parallel_result \<times> parallel_pool \<times> 'w) option" where
  "execute_batch P ts opts p w =
     (let c = unwrap_or (pp_config p) opts;
          (started, w) = pool_now P w;
          (bid, w) = fresh_uuid P w
      in if max_concurrent c = 0 then None
         else
           let (st, w) = run_chunks P c (length ts) (chunks (max_concurrent c) ts) empty_batch w;
               (ended, w) = pool_now P w
           in Some
             (\<lparr>batch_id = bid, pr_results = b_results st, pr_successful = b_successful st, pr_failed = b_failed st,
               pr_timed_out = b_timed_out st, pr_duration_ms = saturating_sub ended started,
               pr_success_ratio = success_ratio st\<rparr>,
              p\<lparr>pp_metrics := add_batch st (pp_metrics p)\<rparr>, w))"

definition parallel_status :: "parallel_pool \<Rightarrow> bool \<times> parallel_config \<times> parallel_metrics" where
  "parallel_status p = (pp_running p, pp_config p, pp_metrics p)"


section \<open>Lemmas\<close>

lemma concat_chunks: "0 < n \<Longrightarrow> concat (chunks n xs) = xs"
  by (induction n xs rule: chunks.induct) (subst chunks.simps, auto)

lemma length_chunk: "c \<in> set (chunks n xs) \<Longrightarrow> length c \<le> n \<and> c \<noteq> []"
proof (induction n xs rule: chunks.induct)
  case (1 n xs)
  then show ?case
    using chunks.simps [of n xs] by (auto split: if_splits)
qed

lemma submit_all_tasks: "submit_all P ts w = (rxs, w') \<Longrightarrow> map fst rxs = ts"
  by (induction P ts w arbitrary: rxs w' rule: submit_all.induct) (auto split: prod.splits)

text \<open>
  What is counted: every result is a success, a failure, or says it timed out.  When the pool answers each
  receiver with the task that was submitted for it, the results are those of the first tasks, in order.
\<close>

definition batch_ok :: "task list \<Rightarrow> batch_state \<Rightarrow> bool" where
  "batch_ok ts st \<longleftrightarrow>
     b_successful st = length (filter succeeded (b_results st)) \<and>
     b_failed st = length (filter (\<lambda>r. \<not> succeeded r \<and> \<not> says_timed_out r) (b_results st)) \<and>
     b_timed_out st \<le> length (filter (\<lambda>r. \<not> succeeded r \<and> says_timed_out r) (b_results st)) \<and>
     length (b_results st) \<le> length ts"

definition ids_ok :: "task list \<Rightarrow> batch_state \<Rightarrow> bool" where
  "ids_ok ts st \<longleftrightarrow> map res_task_id (b_results st) = map tk_id (take (length (b_results st)) ts)"

definition answers :: "('w, 'r) pool_ops \<Rightarrow> task \<Rightarrow> 'r \<Rightarrow> bool" where
  "answers P t rx \<longleftrightarrow> (\<forall>ms w r w'. recv_timeout P rx ms w = (Got r, w') \<longrightarrow> res_task_id r = tk_id t)"

definition pool_answers :: "('w, 'r) pool_ops \<Rightarrow> bool" where
  "pool_answers P \<longleftrightarrow> (\<forall>t w rx w'. submit P t w = (rx, w') \<longrightarrow> answers P t rx)"

lemma submit_all_answers:
  "submit_all P ts w = (rxs, w') \<Longrightarrow> pool_answers P \<Longrightarrow> list_all (\<lambda>(t, rx). answers P t rx) rxs"
proof (induction P ts w arbitrary: rxs w' rule: submit_all.induct)
  case (2 P t ts w)
  obtain rx w1 where s: "submit P t w = (rx, w1)"
    by (cases "submit P t w")
  obtain rest w2 where r: "submit_all P ts w1 = (rest, w2)"
    by (cases "submit_all P ts w1")
  have "answers P t rx"
    using 2(3) s unfolding pool_answers_def by blast
  then show ?case
    using 2(2) s r "2.IH" [OF s [symmetric] refl r "2.prems"(2)] by auto
qed simp

lemma timed_out_result: "\<not> succeeded (batch_result c t RecvTimedOut) \<and> says_timed_out (batch_result c t RecvTimedOut)"
  by (simp add: succeeded_def task_failure_def make_task_result_def says_timed_out_def starts_with_def)

lemma count_received_length [simp]: "length (b_results (count_received c t rc st)) = Suc (length (b_results st))"
  by (simp add: count_received_def Let_def)

lemma count_received_ok:
  assumes "batch_ok ts st" "length (b_results st) < length ts"
  shows "batch_ok ts (count_received c t rc st)"
  using assms timed_out_result [of c t]
  by (cases rc) (auto simp: batch_ok_def count_received_def Let_def)

lemma count_received_ids:
  assumes "ids_ok ts st" "length (b_results st) < length ts" "t = ts ! length (b_results st)"
    "\<And>r. rc = Got r \<Longrightarrow> res_task_id r = tk_id t"
  shows "ids_ok ts (count_received c t rc st)"
proof -
  have "res_task_id (batch_result c t rc) = tk_id t"
    using assms(4) by (cases rc) (simp_all add: task_failure_def make_task_result_def)
  moreover have "b_results (count_received c t rc st) = b_results st @ [batch_result c t rc]"
    by (simp add: count_received_def Let_def)
  ultimately show ?thesis
    using assms(1-3) by (simp add: ids_ok_def take_Suc_conv_app_nth)
qed

text \<open>Without an abort the next result belongs to the next task.\<close>

lemma recv_chunk_ok:
  assumes "recv_chunk P c rxs st w = (st', w')" "batch_ok ts st"
    "length (b_results st) + length rxs \<le> length ts"
    "map fst rxs = take (length rxs) (drop (length (b_results st)) ts)"
    "ids_ok ts st \<and> list_all (\<lambda>(t, rx). answers P t rx) rxs \<or> \<not> ans"
  shows "batch_ok ts st' \<and> (ans \<longrightarrow> ids_ok ts st') \<and> length (b_results st') \<le> length (b_results st) + length rxs \<and>
    (\<not> must_abort c st' \<longrightarrow> length (b_results st') = length (b_results st) + length rxs)"
  using assms
proof (induction P c rxs st w arbitrary: st' w' rule: recv_chunk.induct)
  case (2 P c t rx rest st w)
  obtain rc w1 where rc: "recv_timeout P rx (default_timeout_ms c) w = (rc, w1)"
    by (cases "recv_timeout P rx (default_timeout_ms c) w")
  let ?st = "count_received c t rc st"
  have d: "drop (length (b_results st)) ts = t # drop (Suc (length (b_results st))) ts"
    using 2(4,5) by (cases "drop (length (b_results st)) ts") (auto simp: drop_Suc tl_drop dest: arg_cong [where f = tl])
  then have t: "t = ts ! length (b_results st)" "length (b_results st) < length ts"
    using 2(4) nth_via_drop [OF d] by simp_all
  have ok: "batch_ok ts ?st"
    using 2(3) t(2) by (rule count_received_ok)
  have ids: "ids_ok ts ?st \<and> list_all (\<lambda>(t, rx). answers P t rx) rest \<or> \<not> ans"
    using 2(6) rc t count_received_ids [of ts st t rc c] by (auto simp: answers_def)
  show ?case
  proof (cases "must_abort c ?st")
    case True
    then show ?thesis
      using 2(2) rc ok ids by (auto simp: Let_def)
  next
    case False
    have "recv_chunk P c rest ?st w1 = (st', w')"
      using 2(2) rc False by (simp add: Let_def)
    moreover have "length (b_results ?st) + length rest \<le> length ts"
      using 2(4) by simp
    moreover have "map fst rest = take (length rest) (drop (length (b_results ?st)) ts)"
      using 2(5) d by simp
    ultimately show ?thesis
      using 2(1) [OF rc [symmetric] refl refl False] ok ids by simp
  qed
qed auto

lemma run_chunks_ok:
  assumes "run_chunks P c (length ts) cs st w = (st', w')" "batch_ok ts st"
    "concat cs = drop (length (b_results st)) ts" "ids_ok ts st \<and> pool_answers P \<or> \<not> ans"
  shows "batch_ok ts st' \<and> (ans \<longrightarrow> ids_ok ts st') \<and> (length (b_results st') = length ts \<or> must_abort c st' \<or> hopeless c (length ts) st')"
  using assms
proof (induction P c "length ts" cs st w arbitrary: st' w' rule: run_chunks.induct)
  case (1 P c st w)
  then show ?case
    by (auto simp: batch_ok_def)
next
  case (2 P c chunk rest st w)
  obtain rxs w1 where s: "submit_all P chunk w = (rxs, w1)"
    by (cases "submit_all P chunk w")
  obtain st1 w2 where r: "recv_chunk P c rxs st w1 = (st1, w2)"
    by (cases "recv_chunk P c rxs st w1")
  have l: "length rxs = length chunk" and m: "map fst rxs = chunk"
    using submit_all_tasks [OF s] by (metis length_map, metis)
  have d: "drop (length (b_results st)) ts = chunk @ concat rest"
    using 2(4) by simp
  then have "length ts - length (b_results st) = length chunk + length (concat rest)"
    by (metis length_append length_drop)
  then have bound: "length (b_results st) + length chunk \<le> length ts"
    using 2(3) unfolding batch_ok_def by linarith
  have "ids_ok ts st \<and> list_all (\<lambda>(t, rx). answers P t rx) rxs \<or> \<not> ans"
    using 2(5) submit_all_answers [OF s] by blast
  then have one: "batch_ok ts st1 \<and> (ans \<longrightarrow> ids_ok ts st1) \<and> length (b_results st1) \<le> length (b_results st) + length rxs \<and>
    (\<not> must_abort c st1 \<longrightarrow> length (b_results st1) = length (b_results st) + length rxs)"
    using recv_chunk_ok [OF r 2(3)] l m d bound by simp
  show ?case
  proof (cases "hopeless c (length ts) st1 \<or> must_abort c st1")
    case True
    then show ?thesis
      using 2(2) s r one by (auto simp: Let_def)
  next
    case False
    then have "length (b_results st1) = length (b_results st) + length chunk"
      using one l by simp
    then have "concat rest = drop (length (b_results st1)) ts"
      using arg_cong [OF d, of "drop (length chunk)"] by (simp add: drop_drop add.commute)
    moreover have "run_chunks P c (length ts) rest st1 w2 = (st', w')"
      using 2(2) s r False by (simp add: Let_def)
    moreover have "ids_ok ts st1 \<and> pool_answers P \<or> \<not> ans"
      using one 2(5) by auto
    ultimately show ?thesis
      using 2(1) [OF s [symmetric] refl r [symmetric] refl] False one by simp
  qed
qed



section \<open>Properties\<close>

text \<open>
  A batch is accounted exactly: with a chunk size, the counters of the answer count the results that are
  successes and those that are failures without saying that they timed out, the ratio is that of the
  results, and the batch stops before its last task only after a counted failure in fail-fast mode or when
  even success of all remaining tasks would miss the required ratio.
\<close>
theorem batch_accounted:
  assumes "execute_batch P ts opts p w = Some (r, p', w')"
  shows "pr_successful r = length (filter succeeded (pr_results r)) \<and>
    pr_failed r = length (filter (\<lambda>x. \<not> succeeded x \<and> \<not> says_timed_out x) (pr_results r)) \<and>
    pr_timed_out r \<le> length (filter (\<lambda>x. \<not> succeeded x \<and> says_timed_out x) (pr_results r)) \<and>
    pr_success_ratio r * of_nat (length (pr_results r)) = of_nat (pr_successful r) \<and>
    (length (pr_results r) = length ts \<or>
     fail_fast (unwrap_or (pp_config p) opts) \<and> pr_failed r + pr_timed_out r > 0 \<or>
     of_nat (pr_successful r + (length ts - length (pr_results r))) / of_nat (length ts)
       < min_success_ratio (unwrap_or (pp_config p) opts)) \<and>
    total_tasks (pp_metrics p') = total_tasks (pp_metrics p) + length (pr_results r)"
proof -
  let ?c = "unwrap_or (pp_config p) opts"
  obtain st w1 w2 where run: "run_chunks P ?c (length ts) (chunks (max_concurrent ?c) ts) empty_batch w1 = (st, w2)"
    and c: "max_concurrent ?c > 0"
    and r: "pr_results r = b_results st" "pr_successful r = b_successful st" "pr_failed r = b_failed st"
      "pr_timed_out r = b_timed_out st" "pr_success_ratio r = success_ratio st"
    and p: "pp_metrics p' = add_batch st (pp_metrics p)"
    using assms by (auto simp: execute_batch_def Let_def split: prod.splits if_splits)
  have "batch_ok ts empty_batch" "concat (chunks (max_concurrent ?c) ts) = drop (length (b_results empty_batch)) ts"
    using concat_chunks [OF c] by (simp_all add: batch_ok_def empty_batch_def)
  from run_chunks_ok [OF run this, of False] have
    "batch_ok ts st" "length (b_results st) = length ts \<or> must_abort ?c st \<or> hopeless ?c (length ts) st"
    by auto
  then show ?thesis
    unfolding r p by (auto simp: batch_ok_def must_abort_def hopeless_def success_ratio_def add_batch_def)
qed

text \<open>
  The results of a batch are those of its first tasks, in their order: when every receiver of the pool
  delivers the result of the task it was created for.
\<close>
theorem batch_in_order:
  assumes "execute_batch P ts opts p w = Some (r, p', w')" "pool_answers P"
  shows "map res_task_id (pr_results r) = map tk_id (take (length (pr_results r)) ts)"
proof -
  let ?c = "unwrap_or (pp_config p) opts"
  obtain st w1 w2 where run: "run_chunks P ?c (length ts) (chunks (max_concurrent ?c) ts) empty_batch w1 = (st, w2)"
    and c: "max_concurrent ?c > 0" and r: "pr_results r = b_results st"
    using assms(1) by (auto simp: execute_batch_def Let_def split: prod.splits if_splits)
  have "batch_ok ts empty_batch" "concat (chunks (max_concurrent ?c) ts) = drop (length (b_results empty_batch)) ts"
    "ids_ok ts empty_batch"
    using concat_chunks [OF c] by (simp_all add: batch_ok_def empty_batch_def ids_ok_def)
  then show ?thesis
    using run_chunks_ok [OF run, of True] assms(2) r by (simp add: ids_ok_def)
qed

definition demo_task_named :: "string \<Rightarrow> task" where
  "demo_task_named i = \<lparr>tk_id = i, tk_trace_id = ''tr'', tk_type = ''query'', tk_payload = JNull, tk_priority = 5,
     tk_timeout_ms = 60000, tk_metadata = JNull\<rparr>"

text \<open>A pool whose answer to each task is the name of the task as an error text.\<close>

definition demo_pool_ops :: "(unit, task) pool_ops" where
  "demo_pool_ops = \<lparr>submit = (\<lambda>t w. (t, w)), recv = (\<lambda>t w. (Some (task_failure (tk_id t) 1 t), w)),
     recv_timeout = (\<lambda>t ms w. (Got (task_failure (tk_id t) 1 t), w)), pool_now = (\<lambda>w. (5, w)),
     fresh_uuid = (\<lambda>w. (''u'', w))\<rparr>"

definition demo_fast :: parallel_config where
  "demo_fast = \<lparr>max_concurrent = 2, default_timeout_ms = 10, fail_fast = True, min_success_ratio = 0\<rparr>"

lemma demo_batch:
  "map_option (\<lambda>(r, p, w). (map res_task_id (pr_results r), pr_failed r, pr_timed_out r))
     (execute_batch demo_pool_ops (map demo_task_named [''request timed out'', ''b'', ''c'']) (Some demo_fast) new_parallel_pool ())
   = Some ([''request timed out'', ''b''], 1, 0)"
  by (simp add: execute_batch_def demo_fast_def chunks.simps demo_pool_ops_def demo_task_named_def count_received_def
      task_failure_def make_task_result_def succeeded_def says_timed_out_def starts_with_def must_abort_def
      hopeless_def empty_batch_def Let_def new_parallel_pool_def with_parallel_config_def)

lemma demo_batch_result: "\<exists>r p w. execute_batch demo_pool_ops (map demo_task_named [''request timed out'', ''b'', ''c''])
    (Some demo_fast) new_parallel_pool () = Some (r, p, w) \<and>
    map res_task_id (pr_results r) = [''request timed out'', ''b''] \<and> pr_failed r = 1 \<and> pr_timed_out r = 0"
  using demo_batch by auto

lemma demo_pool_answers: "pool_answers demo_pool_ops"
  by (simp add: pool_answers_def answers_def demo_pool_ops_def task_failure_def make_task_result_def)

lemma batch_accounted_witness:
  "\<exists>r p w. execute_batch demo_pool_ops (map demo_task_named [''request timed out'', ''b'', ''c''])
     (Some demo_fast) new_parallel_pool () = Some (r, p, w) \<and> pr_successful r = length (filter succeeded (pr_results r))"
proof -
  obtain r p w where e: "execute_batch demo_pool_ops (map demo_task_named [''request timed out'', ''b'', ''c''])
      (Some demo_fast) new_parallel_pool () = Some (r, p, w)"
    using demo_batch_result by metis
  show ?thesis
    using e batch_accounted [OF e] by auto
qed

lemma batch_in_order_witness:
  "\<exists>r p w. execute_batch demo_pool_ops (map demo_task_named [''request timed out'', ''b'', ''c''])
     (Some demo_fast) new_parallel_pool () = Some (r, p, w) \<and>
     map res_task_id (pr_results r) = map tk_id (take (length (pr_results r)) (map demo_task_named [''request timed out'', ''b'', ''c'']))"
proof -
  obtain r p w where e: "execute_batch demo_pool_ops (map demo_task_named [''request timed out'', ''b'', ''c''])
      (Some demo_fast) new_parallel_pool () = Some (r, p, w)"
    using demo_batch_result by metis
  show ?thesis
    using e batch_in_order [OF e demo_pool_answers] by auto
qed

text \<open>
  A failure can slip through fail-fast: a task that fails with a text of its own that contains
  \<open>timed out\<close> is counted neither as failed nor as timed out, and the fail-fast batch goes on.
\<close>
theorem fail_fast_misses_timeout_text:
  "\<exists>r p w. execute_batch demo_pool_ops (map demo_task_named [''request timed out'', ''b'', ''c''])
     (Some demo_fast) new_parallel_pool () = Some (r, p, w) \<and>
     map res_task_id (pr_results r) = [''request timed out'', ''b''] \<and> filter succeeded (pr_results r) = [] \<and>
     pr_failed r + pr_timed_out r = 1"
proof -
  obtain r p w where e: "execute_batch demo_pool_ops (map demo_task_named [''request timed out'', ''b'', ''c''])
      (Some demo_fast) new_parallel_pool () = Some (r, p, w)"
    "map res_task_id (pr_results r) = [''request timed out'', ''b'']" "pr_failed r = 1" "pr_timed_out r = 0"
    using demo_batch_result by metis
  have "map_option (\<lambda>(r, p, w). filter succeeded (pr_results r))
     (execute_batch demo_pool_ops (map demo_task_named [''request timed out'', ''b'', ''c'']) (Some demo_fast) new_parallel_pool ())
     = Some []"
    by (simp add: execute_batch_def demo_fast_def chunks.simps demo_pool_ops_def demo_task_named_def count_received_def
        task_failure_def make_task_result_def succeeded_def says_timed_out_def starts_with_def must_abort_def
        hopeless_def empty_batch_def Let_def new_parallel_pool_def with_parallel_config_def)
  then show ?thesis
    using e by auto
qed

end
