(* ===== verification/Specialist_Pool.thy ===== *)
theory Specialist_Pool
  imports Parallel_Pool "HOL-Library.Word"
begin

text \<open>
  The specialist pool (\<open>orchestrator/specialist_pool.rs\<close>).  Specialists are shared objects (\<open>Arc\<close>):
  \<open>store\<close> holds them, the registry maps an id to an address in it, and a route in flight keeps its
  address even when the id is registered again or removed.  Worker pools are handles, used through
  \<open>pool_ops\<close>.  A route has two actions, the choice with the load counted and the answer with the load
  released; routes of several callers interleave between them.
\<close>

datatype specialist_status = SpActive | SpInactive | SpOverloaded

datatype balance_strategy = SpLeastLoaded | SpRoundRobin | SpRandom

record specialist =
  sp_id :: string
  sp_name :: string
  sp_capabilities :: "string list"
  sp_priority :: nat
  sp_max_concurrent :: nat
  sp_load :: nat
  sp_status :: specialist_status
  sp_completed :: nat
  sp_failed :: nat
  sp_duration_ms :: nat
  sp_pool :: nat

record specialist_info =
  si_id :: string
  si_name :: string
  si_capabilities :: "string list"
  si_priority :: nat
  si_max_concurrent :: nat
  si_load :: nat
  si_status :: specialist_status

definition info_of :: "specialist \<Rightarrow> specialist_info" where
  "info_of s =
     \<lparr>si_id = sp_id s, si_name = sp_name s, si_capabilities = sp_capabilities s, si_priority = sp_priority s,
      si_max_concurrent = sp_max_concurrent s, si_load = sp_load s, si_status = sp_status s\<rparr>"

record specialist_config =
  sc_timeout_ms :: nat
  sc_max_retries :: nat
  fallback_to_worker :: bool
  load_balance_strategy :: balance_strategy

definition default_specialist_config :: specialist_config where
  "default_specialist_config =
     \<lparr>sc_timeout_ms = 60000, sc_max_retries = 0, fallback_to_worker = True, load_balance_strategy = SpLeastLoaded\<rparr>"

record register_opts =
  ro_id :: string
  ro_name :: string
  ro_capabilities :: "string list"
  ro_priority :: nat
  ro_max_concurrent :: nat
  ro_pool :: nat

record pool_counters =
  pc_total :: nat
  pc_successful :: nat
  pc_failed :: nat
  pc_routed :: nat
  pc_fallback :: nat

record specialist_pool =
  default_pool :: nat
  sp_config :: specialist_config
  legacy :: "(string, nat) imap"
  store :: "specialist list"
  sp_registry :: "(string, nat) imap"
  cap_index :: "(string, string list) imap"
  sp_running :: bool
  rr_counter :: nat
  counters :: pool_counters

definition with_specialist_config :: "nat \<Rightarrow> specialist_config \<Rightarrow> specialist_pool" where
  "with_specialist_config dp c =
     \<lparr>default_pool = dp, sp_config = c, legacy = [], store = [], sp_registry = [], cap_index = [], sp_running = False,
      rr_counter = 0, counters = \<lparr>pc_total = 0, pc_successful = 0, pc_failed = 0, pc_routed = 0, pc_fallback = 0\<rparr>\<rparr>"

definition new_specialist_pool :: "nat \<Rightarrow> specialist_pool" where
  "new_specialist_pool dp = with_specialist_config dp default_specialist_config"


section \<open>By name\<close>

definition register_legacy :: "string \<Rightarrow> nat \<Rightarrow> specialist_pool \<Rightarrow> specialist_pool" where
  "register_legacy n h p = p\<lparr>legacy := im_insert n h (legacy p)\<rparr>"

definition resolve_legacy :: "string \<Rightarrow> specialist_pool \<Rightarrow> nat" where
  "resolve_legacy n p = unwrap_or (default_pool p) (map_of (legacy p) n)"

definition execute_legacy ::
  "(nat \<Rightarrow> ('w, 'r) pool_ops) \<Rightarrow> string \<Rightarrow> task \<Rightarrow> specialist_pool \<Rightarrow> 'w \<Rightarrow> task_result \<times> 'w" where
  "execute_legacy Ps n t p w =
     (let P = Ps (resolve_legacy n p);
          (rx, w) = submit P t w;
          (r, w) = recv P rx w;
          r = or_closed t r
      in if \<not> succeeded r then (r, w)
         else
           let (tid, w) = fresh_uuid P w
           in (make_task_result
                 \<lparr>mr_task_id = tid, mr_trace_id = res_trace_id r, mr_status = ''success'',
                  mr_result = Some (JObject [(''specialist'', JString n), (''result'', unwrap_or JNull (res_result r))]),
                  mr_error = None, mr_duration_ms = res_duration_ms r, mr_worker_id = res_worker_id r\<rparr>, w))"


section \<open>Registration\<close>

definition push_id :: "string \<Rightarrow> string \<Rightarrow> (string, string list) imap \<Rightarrow> (string, string list) imap" where
  "push_id c i m = im_entry c [] (\<lambda>ids. ids @ [i]) m"

definition drop_id :: "string \<Rightarrow> string \<Rightarrow> (string, string list) imap \<Rightarrow> (string, string list) imap" where
  "drop_id c i m =
     (case map_of m c of
        None \<Rightarrow> m
      | Some ids \<Rightarrow>
          let ids' = filter (\<lambda>x. x \<noteq> i) ids
          in if ids' = [] then im_remove c m else im_insert c ids' m)"

definition register_specialist :: "register_opts \<Rightarrow> specialist_pool \<Rightarrow> specialist_pool" where
  "register_specialist opts p =
     p\<lparr>store := store p @
         [\<lparr>sp_id = ro_id opts, sp_name = ro_name opts, sp_capabilities = ro_capabilities opts, sp_priority = ro_priority opts,
           sp_max_concurrent = ro_max_concurrent opts, sp_load = 0, sp_status = SpActive, sp_completed = 0, sp_failed = 0,
           sp_duration_ms = 0, sp_pool = ro_pool opts\<rparr>],
       sp_registry := im_insert (ro_id opts) (length (store p)) (sp_registry p),
       cap_index := fold (\<lambda>c. push_id c (ro_id opts)) (ro_capabilities opts) (cap_index p)\<rparr>"

definition lookup :: "string \<Rightarrow> specialist_pool \<Rightarrow> specialist option" where
  "lookup i p = map_option (\<lambda>a. store p ! a) (map_of (sp_registry p) i)"

definition unregister_specialist :: "string \<Rightarrow> specialist_pool \<Rightarrow> bool \<times> specialist_pool" where
  "unregister_specialist i p =
     (case lookup i p of
        None \<Rightarrow> (False, p)
      | Some s \<Rightarrow>
          (True, p\<lparr>cap_index := fold (\<lambda>c. drop_id c i) (sp_capabilities s) (cap_index p),
                   sp_registry := im_remove i (sp_registry p)\<rparr>))"

definition get_specialist :: "string \<Rightarrow> specialist_pool \<Rightarrow> specialist_info option" where
  "get_specialist i p = map_option info_of (lookup i p)"

definition list_specialists :: "specialist_pool \<Rightarrow> specialist_info list" where
  "list_specialists p = map (\<lambda>(i, a). info_of (store p ! a)) (sp_registry p)"

definition list_specialists_by_capability :: "string \<Rightarrow> specialist_pool \<Rightarrow> specialist_info list" where
  "list_specialists_by_capability c p =
     (case map_of (cap_index p) c of
        None \<Rightarrow> []
      | Some ids \<Rightarrow> List.map_filter (\<lambda>i. get_specialist i p) ids)"

definition list_capabilities :: "specialist_pool \<Rightarrow> string list" where
  "list_capabilities p = im_keys (cap_index p)"

definition set_specialist :: "nat \<Rightarrow> (specialist \<Rightarrow> specialist) \<Rightarrow> specialist_pool \<Rightarrow> specialist_pool" where
  "set_specialist a f p = p\<lparr>store := (store p)[a := f (store p ! a)]\<rparr>"

definition add_capability :: "string \<Rightarrow> string \<Rightarrow> specialist_pool \<Rightarrow> specialist_pool" where
  "add_capability i c p =
     (case map_of (sp_registry p) i of
        None \<Rightarrow> p
      | Some a \<Rightarrow>
          let p = set_specialist a (\<lambda>s. if c \<in> set (sp_capabilities s) then s
                    else s\<lparr>sp_capabilities := sp_capabilities s @ [c]\<rparr>) p
          in p\<lparr>cap_index := im_entry c [] (\<lambda>ids. if i \<in> set ids then ids else ids @ [i]) (cap_index p)\<rparr>)"

definition remove_capability :: "string \<Rightarrow> string \<Rightarrow> specialist_pool \<Rightarrow> specialist_pool" where
  "remove_capability i c p =
     (let p = (case map_of (sp_registry p) i of
                 None \<Rightarrow> p
               | Some a \<Rightarrow> set_specialist a (\<lambda>s. s\<lparr>sp_capabilities := filter (\<lambda>x. x \<noteq> c) (sp_capabilities s)\<rparr>) p)
      in p\<lparr>cap_index := drop_id c i (cap_index p)\<rparr>)"


section \<open>Routing\<close>

definition candidates :: "string \<Rightarrow> specialist_pool \<Rightarrow> nat list" where
  "candidates c p =
     filter (\<lambda>a. sp_status (store p ! a) = SpActive)
       (List.map_filter (\<lambda>i. map_of (sp_registry p) i) (unwrap_or [] (map_of (cap_index p) c)))"

definition random_index :: "nat \<Rightarrow> nat \<Rightarrow> nat" where
  "random_index idx n = unat ((of_nat idx :: 64 word) * 6364136223846793005 + 1) mod n"

definition pick_specialist_for :: "string \<Rightarrow> specialist_pool \<Rightarrow> nat option \<times> specialist_pool" where
  "pick_specialist_for c p =
     (let cs = candidates c p
      in if cs = [] then (None, p)
         else case load_balance_strategy (sp_config p) of
             SpLeastLoaded \<Rightarrow> (Some (hd (sort_key (\<lambda>a. sp_load (store p ! a)) cs)), p)
           | SpRoundRobin \<Rightarrow> (Some (cs ! (rr_counter p mod length cs)), p\<lparr>rr_counter := rr_counter p + 1\<rparr>)
           | SpRandom \<Rightarrow> (Some (cs ! random_index (rr_counter p) (length cs)), p\<lparr>rr_counter := rr_counter p + 1\<rparr>))"

definition count :: "(pool_counters \<Rightarrow> pool_counters) \<Rightarrow> specialist_pool \<Rightarrow> specialist_pool" where
  "count f p = p\<lparr>counters := f (counters p)\<rparr>"

text \<open>\<open>Inl\<close>: no specialist and no fallback; \<open>Inr\<close>: the specialist, or the default pool.\<close>

definition no_specialist :: "task \<Rightarrow> task_result" where
  "no_specialist t =
     task_failure (''No specialist found for capability '' @ [CHR 0x27] @ tk_type t @ [CHR 0x27]) 0 t"

definition begin_route :: "task \<Rightarrow> specialist_pool \<Rightarrow> (task_result + nat option) \<times> specialist_pool" where
  "begin_route t p =
     (let p = count (\<lambda>m. m\<lparr>pc_total := pc_total m + 1\<rparr>) p
      in case pick_specialist_for (tk_type t) p of
           (Some a, p) \<Rightarrow>
             (Inr (Some a), set_specialist a (\<lambda>s. s\<lparr>sp_load := sp_load s + 1\<rparr>) (count (\<lambda>m. m\<lparr>pc_routed := pc_routed m + 1\<rparr>) p))
         | (None, p) \<Rightarrow>
             if fallback_to_worker (sp_config p)
             then (Inr None, count (\<lambda>m. m\<lparr>pc_fallback := pc_fallback m + 1\<rparr>) p)
             else (Inl (no_specialist t), count (\<lambda>m. m\<lparr>pc_failed := pc_failed m + 1\<rparr>) p))"

definition route_pool :: "nat option \<Rightarrow> specialist_pool \<Rightarrow> nat" where
  "route_pool r p = (case r of None \<Rightarrow> default_pool p | Some a \<Rightarrow> sp_pool (store p ! a))"

definition end_route :: "nat option \<Rightarrow> task_result \<Rightarrow> specialist_pool \<Rightarrow> specialist_pool" where
  "end_route r res p =
     (let p = (case r of
                 None \<Rightarrow> p
               | Some a \<Rightarrow> set_specialist a (\<lambda>s.
                   let s = s\<lparr>sp_load := sp_load s - 1, sp_duration_ms := sp_duration_ms s + res_duration_ms res\<rparr>
                   in if succeeded res then s\<lparr>sp_completed := sp_completed s + 1\<rparr>
                      else s\<lparr>sp_failed := sp_failed s + 1\<rparr>) p)
      in if succeeded res then count (\<lambda>m. m\<lparr>pc_successful := pc_successful m + 1\<rparr>) p
         else count (\<lambda>m. m\<lparr>pc_failed := pc_failed m + 1\<rparr>) p)"

definition route_task ::
  "(nat \<Rightarrow> ('w, 'r) pool_ops) \<Rightarrow> task \<Rightarrow> specialist_pool \<Rightarrow> 'w \<Rightarrow> task_result \<times> specialist_pool \<times> 'w" where
  "route_task Ps t p w =
     (case begin_route t p of
        (Inl r, p) \<Rightarrow> (r, p, w)
      | (Inr route, p) \<Rightarrow>
          let P = Ps (route_pool route p);
              (rx, w) = submit P t w;
              (r, w) = recv P rx w;
              r = or_closed t r
          in (r, end_route route r p, w))"

definition start_specialists :: "specialist_pool \<Rightarrow> specialist_pool" where
  "start_specialists p = p\<lparr>sp_running := True\<rparr>"

definition stop_specialists :: "specialist_pool \<Rightarrow> specialist_pool" where
  "stop_specialists p = p\<lparr>sp_running := False\<rparr>"

definition status_name :: "specialist_status \<Rightarrow> string" where
  "status_name s = (case s of SpActive \<Rightarrow> ''Active'' | SpInactive \<Rightarrow> ''Inactive'' | SpOverloaded \<Rightarrow> ''Overloaded'')"

definition strategy_name :: "balance_strategy \<Rightarrow> string" where
  "strategy_name s = (case s of SpLeastLoaded \<Rightarrow> ''LeastLoaded'' | SpRoundRobin \<Rightarrow> ''RoundRobin'' | SpRandom \<Rightarrow> ''Random'')"

definition info_json :: "specialist_info \<Rightarrow> json" where
  "info_json i = JObject
     [(''id'', JString (si_id i)), (''name'', JString (si_name i)),
      (''capabilities'', JArray (map JString (si_capabilities i))), (''priority'', jnat (si_priority i)),
      (''max_concurrent'', jnat (si_max_concurrent i)), (''current_load'', jnat (si_load i)),
      (''status'', JString (status_name (si_status i)))]"

definition specialist_status_json :: "specialist_pool \<Rightarrow> json" where
  "specialist_status_json p = JObject
     [(''running'', JBool (sp_running p)), (''specialists'', JArray (map info_json (list_specialists p))),
      (''metrics'', JObject
        [(''total_tasks'', jnat (pc_total (counters p))), (''successful_tasks'', jnat (pc_successful (counters p))),
         (''failed_tasks'', jnat (pc_failed (counters p))), (''routed_tasks'', jnat (pc_routed (counters p))),
         (''fallback_tasks'', jnat (pc_fallback (counters p)))])]"

definition health_check :: "specialist_pool \<Rightarrow> json" where
  "health_check p = JObject
     [(''running'', JBool (sp_running p)), (''specialist_count'', jnat (length (sp_registry p))),
      (''capability_count'', jnat (length (cap_index p))), (''legacy_specialist_count'', jnat (length (legacy p))),
      (''load_balance_strategy'', JString (strategy_name (load_balance_strategy (sp_config p)))),
      (''fallback_to_worker'', JBool (fallback_to_worker (sp_config p)))]"

end
