(* ===== verification/Specialist_Props.thy ===== *)
theory Specialist_Props
  imports Specialist_Pool
begin

text \<open>
  The invariants of the specialist pool: loads and counters are exact under every interleaving of routes,
  registrations and removals; the capability index lists exactly the registered specialists that have the
  capability as long as no id is registered twice; and a route goes to an active, least loaded specialist.
\<close>

section \<open>Loads and counters\<close>

record routing =
  rt_pool :: specialist_pool
  rt_flight :: "nat option list"

datatype route_event =
    BeginRoute task
  | EndRoute nat task_result
  | Register register_opts
  | Unregister string
  | AddCap string string
  | RemoveCap string string
  | RegisterLegacy string nat
  | StartPool
  | StopPool

fun route_step :: "route_event \<Rightarrow> routing \<Rightarrow> routing" where
  "route_step (BeginRoute t) s =
     (case begin_route t (rt_pool s) of
        (Inl r, p) \<Rightarrow> s\<lparr>rt_pool := p\<rparr>
      | (Inr route, p) \<Rightarrow> s\<lparr>rt_pool := p, rt_flight := rt_flight s @ [route]\<rparr>)"
| "route_step (EndRoute k r) s =
     (if k < length (rt_flight s)
      then s\<lparr>rt_pool := end_route (rt_flight s ! k) r (rt_pool s),
             rt_flight := take k (rt_flight s) @ drop (Suc k) (rt_flight s)\<rparr>
      else s)"
| "route_step (Register opts) s = s\<lparr>rt_pool := register_specialist opts (rt_pool s)\<rparr>"
| "route_step (Unregister i) s = s\<lparr>rt_pool := snd (unregister_specialist i (rt_pool s))\<rparr>"
| "route_step (AddCap i c) s = s\<lparr>rt_pool := add_capability i c (rt_pool s)\<rparr>"
| "route_step (RemoveCap i c) s = s\<lparr>rt_pool := remove_capability i c (rt_pool s)\<rparr>"
| "route_step (RegisterLegacy n h) s = s\<lparr>rt_pool := register_legacy n h (rt_pool s)\<rparr>"
| "route_step StartPool s = s\<lparr>rt_pool := start_specialists (rt_pool s)\<rparr>"
| "route_step StopPool s = s\<lparr>rt_pool := stop_specialists (rt_pool s)\<rparr>"

definition loads :: "specialist_pool \<Rightarrow> nat list" where
  "loads p = map sp_load (store p)"

definition registry_ok :: "specialist_pool \<Rightarrow> bool" where
  "registry_ok p \<longleftrightarrow> list_all (\<lambda>(i, a). a < length (store p)) (sp_registry p)"

definition routing_ok :: "routing \<Rightarrow> bool" where
  "routing_ok s \<longleftrightarrow>
     (\<forall>a < length (store (rt_pool s)). sp_load (store (rt_pool s) ! a) = count_list (rt_flight s) (Some a)) \<and>
     (\<forall>a. Some a \<in> set (rt_flight s) \<longrightarrow> a < length (store (rt_pool s))) \<and>
     registry_ok (rt_pool s) \<and>
     pc_total (counters (rt_pool s)) =
       pc_successful (counters (rt_pool s)) + pc_failed (counters (rt_pool s)) + length (rt_flight s)"

lemma set_filtered: "a \<in> set (List.map_filter f xs) \<longleftrightarrow> (\<exists>x \<in> set xs. f x = Some a)"
  by (induction xs) (auto simp: List.map_filter_simps split: option.splits)

lemma candidates_bound: "registry_ok p \<Longrightarrow> a \<in> set (candidates c p) \<Longrightarrow> a < length (store p)"
  by (auto simp: candidates_def registry_ok_def set_filtered list_all_iff dest!: map_of_SomeD)

lemma hd_sort_mem: "xs \<noteq> [] \<Longrightarrow> hd (sort_key f xs) \<in> set xs"
  by (metis hd_in_set set_sort set_empty)

lemma specialist_pick_cases:
  assumes "pick_specialist_for c p = (r, p')"
  shows "store p' = store p" "sp_registry p' = sp_registry p" "counters p' = counters p" "cap_index p' = cap_index p"
    "sp_config p' = sp_config p" "default_pool p' = default_pool p"
    "r = None \<longleftrightarrow> candidates c p = []" "r = Some a \<Longrightarrow> a \<in> set (candidates c p)"
  using assms hd_sort_mem [of "candidates c p" "\<lambda>a. sp_load (store p ! a)"]
  by (auto simp: pick_specialist_for_def Let_def random_index_def split: if_splits balance_strategy.splits
      intro!: nth_mem)

lemma set_specialist_simps [simp]:
  "length (store (set_specialist a f p)) = length (store p)" "counters (set_specialist a f p) = counters p"
  "sp_registry (set_specialist a f p) = sp_registry p" "cap_index (set_specialist a f p) = cap_index p"
  "sp_config (set_specialist a f p) = sp_config p" "default_pool (set_specialist a f p) = default_pool p"
  by (simp_all add: set_specialist_def)

lemma store_set_specialist:
  "a < length (store p) \<Longrightarrow> store (set_specialist a f p) ! b = (if b = a then f (store p ! a) else store p ! b)"
  by (simp add: set_specialist_def nth_list_update)

lemma set_specialist_loads:
  "(\<And>s. sp_load (f s) = sp_load s) \<Longrightarrow> sp_load (store (set_specialist a f p) ! b) = sp_load (store p ! b)"
  by (cases "a < length (store p)") (simp_all add: set_specialist_def nth_list_update list_update_beyond)

lemma count_simps [simp]:
  "store (count f p) = store p" "counters (count f p) = f (counters p)" "sp_registry (count f p) = sp_registry p"
  "cap_index (count f p) = cap_index p" "sp_config (count f p) = sp_config p" "default_pool (count f p) = default_pool p"
  by (simp_all add: count_def)

lemma candidates_count [simp]: "candidates c (count f p) = candidates c p"
  by (simp add: candidates_def)

lemma registry_ok_count [simp]: "registry_ok (count f p) = registry_ok p"
  by (simp add: registry_ok_def)

lemma registry_ok_set [simp]: "registry_ok (set_specialist a f p) = registry_ok p"
  by (simp add: registry_ok_def)

lemma count_list_at:
  assumes "k < length xs"
  shows "count_list xs x = count_list (take k xs @ drop (Suc k) xs) x + (if xs ! k = x then 1 else 0)"
  using arg_cong [OF id_take_nth_drop [OF assms], of "\<lambda>l. count_list l x"] by (simp add: count_list_append)

lemma begin_route_ok:
  assumes "routing_ok s"
  shows "routing_ok (route_step (BeginRoute t) s)"
proof -
  let ?p = "count (\<lambda>m. m\<lparr>pc_total := pc_total m + 1\<rparr>) (rt_pool s)"
  obtain r p where pick: "pick_specialist_for (tk_type t) ?p = (r, p)"
    by (cases "pick_specialist_for (tk_type t) ?p")
  note props = specialist_pick_cases [OF pick]
  show ?thesis
  proof (cases r)
    case None
    then show ?thesis
      using assms pick props(1-5)
      by (auto simp: begin_route_def Let_def routing_ok_def registry_ok_def count_list_append)
  next
    case (Some a)
    then have "a < length (store (rt_pool s))"
      using props(8) [OF Some] candidates_bound [of "rt_pool s" a "tk_type t"] assms by (simp add: routing_ok_def)
    then show ?thesis
      using assms pick props(1-5) Some
      by (auto simp: begin_route_def Let_def routing_ok_def store_set_specialist count_list_append registry_ok_def)
  qed
qed

lemma end_route_props:
  "store (end_route None r p) = store p"
  "a < length (store p) \<Longrightarrow> sp_load (store (end_route (Some a) r p) ! b) = sp_load (store p ! b) - (if b = a then 1 else 0)"
  "length (store (end_route x r p)) = length (store p)"
  "sp_registry (end_route x r p) = sp_registry p"
  "pc_total (counters (end_route x r p)) = pc_total (counters p)"
  "pc_successful (counters (end_route x r p)) + pc_failed (counters (end_route x r p)) =
     Suc (pc_successful (counters p) + pc_failed (counters p))"
  by (auto simp: end_route_def Let_def store_set_specialist split: option.split)

lemma end_route_ok:
  assumes "routing_ok s"
  shows "routing_ok (route_step (EndRoute k r) s)"
proof (cases "k < length (rt_flight s)")
  case True
  let ?x = "rt_flight s ! k" and ?rest = "take k (rt_flight s) @ drop (Suc k) (rt_flight s)"
  have x: "?x \<in> set (rt_flight s)"
    using True by simp
  have l: "length (rt_flight s) = Suc (length ?rest)"
    using True by simp
  have bound: "Some a \<in> set ?rest \<Longrightarrow> a < length (store (rt_pool s))" for a
    using assms by (auto simp: routing_ok_def dest: in_set_takeD in_set_dropD)
  have load: "sp_load (store (end_route ?x r (rt_pool s)) ! a) = count_list ?rest (Some a)"
    if a: "a < length (store (rt_pool s))" for a
  proof (cases ?x)
    case None
    then show ?thesis
      using assms a count_list_at [OF True, of "Some a"] by (simp add: end_route_props routing_ok_def)
  next
    case (Some b)
    then have "b < length (store (rt_pool s))"
      using assms x by (auto simp: routing_ok_def)
    then show ?thesis
      using assms a Some count_list_at [OF True, of "Some a"] by (simp add: end_route_props routing_ok_def)
  qed
  have "registry_ok (end_route ?x r (rt_pool s))"
    using assms by (simp add: registry_ok_def end_route_props routing_ok_def)
  moreover have "pc_total (counters (rt_pool s)) =
      pc_successful (counters (end_route ?x r (rt_pool s))) + pc_failed (counters (end_route ?x r (rt_pool s))) + length ?rest"
    using assms l end_route_props(6) [of ?x r "rt_pool s"] unfolding routing_ok_def by linarith
  ultimately show ?thesis
    using True load bound end_route_props(3,5) [of ?x r "rt_pool s"] by (simp add: routing_ok_def)
qed (use assms in simp)

lemma other_ops_ok:
  assumes "routing_ok s" "length (store (rt_pool s)) \<le> length (store p)"
    "\<And>a. a < length (store (rt_pool s)) \<Longrightarrow> sp_load (store p ! a) = sp_load (store (rt_pool s) ! a)"
    "\<And>a. length (store (rt_pool s)) \<le> a \<Longrightarrow> a < length (store p) \<Longrightarrow> sp_load (store p ! a) = 0"
    "registry_ok p" "counters p = counters (rt_pool s)"
  shows "routing_ok (s\<lparr>rt_pool := p\<rparr>)"
proof -
  have "sp_load (store p ! a) = count_list (rt_flight s) (Some a)" if "a < length (store p)" for a
  proof (cases "a < length (store (rt_pool s))")
    case False
    then have "Some a \<notin> set (rt_flight s)"
      using assms(1) by (auto simp: routing_ok_def)
    then have "count_list (rt_flight s) (Some a) = 0"
      by (simp add: count_list_0_iff)
    then show ?thesis
      using assms(4) [of a] that False by simp
  qed (use assms(1,3) in \<open>simp add: routing_ok_def\<close>)
  then show ?thesis
    using assms(1,2,5,6) by (auto simp: routing_ok_def dest: order_less_le_trans)
qed

lemma routing_step_ok:
  assumes "routing_ok s"
  shows "routing_ok (route_step e s)"
proof (cases e)
  case (BeginRoute t)
  then show ?thesis
    using begin_route_ok [OF assms] by simp
next
  case (EndRoute k r)
  then show ?thesis
    using end_route_ok [OF assms] by simp
next
  case (Register opts)
  have "registry_ok (register_specialist opts (rt_pool s))"
    using assms unfolding routing_ok_def registry_ok_def register_specialist_def
    by (auto intro!: list_all_update) (auto simp: list_all_iff)
  then show ?thesis
    using assms Register by (auto intro!: other_ops_ok simp: register_specialist_def nth_append)
next
  case (Unregister i)
  have "registry_ok (snd (unregister_specialist i (rt_pool s)))"
    using assms unfolding routing_ok_def registry_ok_def unregister_specialist_def
    by (auto split: option.split intro!: list_all_delete)
  then show ?thesis
    using assms Unregister
    by (auto intro!: other_ops_ok simp: unregister_specialist_def split: option.split)
next
  case (AddCap i c)
  then show ?thesis
    using assms
    by (auto intro!: other_ops_ok simp: add_capability_def Let_def set_specialist_loads registry_ok_def routing_ok_def
        split: option.split)
next
  case (RemoveCap i c)
  then show ?thesis
    using assms
    by (auto intro!: other_ops_ok simp: remove_capability_def Let_def set_specialist_loads registry_ok_def routing_ok_def
        split: option.split)
qed (use assms in \<open>auto intro!: other_ops_ok simp: register_legacy_def start_specialists_def stop_specialists_def
      registry_ok_def routing_ok_def\<close>)

interpretation routing: invariant_machine route_step routing_ok
  by unfold_locales (rule routing_step_ok)

lemma initial_routing_ok: "routing_ok \<lparr>rt_pool = with_specialist_config dp c, rt_flight = []\<rparr>"
  by (simp add: routing_ok_def with_specialist_config_def registry_ok_def)


section \<open>Properties\<close>

text \<open>
  Loads are exact: after any sequence of route beginnings and ends, registrations, removals and capability
  changes, the load of every specialist is the number of its routes in flight, so it falls back to zero when
  they end, and every route that was begun is in flight or counted once as successful or failed.
\<close>
theorem specialist_loads_exact:
  "let s = fold route_step es \<lparr>rt_pool = with_specialist_config dp c, rt_flight = []\<rparr>
   in (\<forall>a \<in> {..< length (store (rt_pool s))}. sp_load (store (rt_pool s) ! a) = count_list (rt_flight s) (Some a)) \<and>
      pc_total (counters (rt_pool s)) =
        pc_successful (counters (rt_pool s)) + pc_failed (counters (rt_pool s)) + length (rt_flight s)"
  using routing.run_inv [OF initial_routing_ok, of es dp c] by (simp add: Let_def routing_ok_def)

lemma specialist_loads_exact_witness:
  "let s = fold route_step [Register \<lparr>ro_id = ''s'', ro_name = ''S'', ro_capabilities = [''go''], ro_priority = 0,
       ro_max_concurrent = 1, ro_pool = 7\<rparr>] \<lparr>rt_pool = with_specialist_config 0 default_specialist_config, rt_flight = []\<rparr>
   in sp_load (store (rt_pool s) ! 0) = 0"
  using specialist_loads_exact [of "[Register \<lparr>ro_id = ''s'', ro_name = ''S'', ro_capabilities = [''go''], ro_priority = 0,
       ro_max_concurrent = 1, ro_pool = 7\<rparr>]" 0 default_specialist_config]
  by (simp add: Let_def register_specialist_def with_specialist_config_def)

text \<open>
  A route goes where it should: it takes the fallback or fails exactly if no active specialist is listed for
  the capability, and otherwise an active listed one, under the default strategy one of least load.
\<close>
theorem specialist_pick_sound:
  "case pick_specialist_for c p of
     (None, p') \<Rightarrow> candidates c p = []
   | (Some a, p') \<Rightarrow> a \<in> set (candidates c p) \<and> sp_status (store p ! a) = SpActive \<and>
       (load_balance_strategy (sp_config p) \<noteq> SpLeastLoaded \<or>
        sp_load (store p ! a) = Min ((\<lambda>b. sp_load (store p ! b)) ` set (candidates c p)))"
proof -
  obtain r p' where pick: "pick_specialist_for c p = (r, p')"
    by (cases "pick_specialist_for c p")
  note props = specialist_pick_cases [OF pick]
  show ?thesis
  proof (cases r)
    case None
    then show ?thesis
      using pick props(7) by simp
  next
    case (Some a)
    then have a: "a \<in> set (candidates c p)" "candidates c p \<noteq> []"
      using props(7,8) by auto
    moreover have "sp_status (store p ! a) = SpActive"
      using a(1) by (simp add: candidates_def)
    moreover have "sp_load (store p ! a) = Min ((\<lambda>b. sp_load (store p ! b)) ` set (candidates c p))"
      if "load_balance_strategy (sp_config p) = SpLeastLoaded"
    proof -
      have h: "hd (sort_key (\<lambda>a. sp_load (store p ! a)) (candidates c p)) = a"
        using pick Some that a(2) by (auto simp: pick_specialist_for_def Let_def)
      have "a = hd (sort_key (\<lambda>a. sp_load (store p ! a)) (candidates c p))"
        by (rule h [symmetric])
      also have "\<dots> = hd (filter (\<lambda>x. sp_load (store p ! x) = Min ((\<lambda>b. sp_load (store p ! b)) ` set (candidates c p))) (candidates c p))"
        using a(2) by (rule hd_sort_key)
      also have "\<dots> \<in> set (filter (\<lambda>x. sp_load (store p ! x) = Min ((\<lambda>b. sp_load (store p ! b)) ` set (candidates c p))) (candidates c p))"
      proof (rule hd_in_set)
        have "Min ((\<lambda>b. sp_load (store p ! b)) ` set (candidates c p)) \<in> (\<lambda>b. sp_load (store p ! b)) ` set (candidates c p)"
          using a(2) by (intro Min_in) auto
        then show "filter (\<lambda>x. sp_load (store p ! x) = Min ((\<lambda>b. sp_load (store p ! b)) ` set (candidates c p))) (candidates c p) \<noteq> []"
          by (auto simp: filter_empty_conv)
      qed
      finally show ?thesis
        by simp
    qed
    ultimately show ?thesis
      using pick Some by auto
  qed
qed



section \<open>The capability index\<close>

definition listed :: "specialist_pool \<Rightarrow> string \<Rightarrow> string list" where
  "listed p c = unwrap_or [] (map_of (cap_index p) c)"

definition has_capability :: "specialist_pool \<Rightarrow> string \<Rightarrow> string \<Rightarrow> bool" where
  "has_capability p i c \<longleftrightarrow> (case lookup i p of None \<Rightarrow> False | Some s \<Rightarrow> c \<in> set (sp_capabilities s))"

definition index_ok :: "specialist_pool \<Rightarrow> bool" where
  "index_ok p \<longleftrightarrow>
     registry_ok p \<and> inj_on (\<lambda>i. map_of (sp_registry p) i) (dom (map_of (sp_registry p))) \<and>
     (\<forall>c i. count_list (listed p c) i = (if has_capability p i c then 1 else 0))"

text \<open>The operations on the index, with the guard that an id is registered at most once at a time.\<close>

datatype index_op = OpRegister register_opts | OpUnregister string | OpAdd string string | OpRemove string string

fun index_step :: "index_op \<Rightarrow> specialist_pool \<Rightarrow> specialist_pool" where
  "index_step (OpRegister opts) p =
     (if map_of (sp_registry p) (ro_id opts) = None \<and> distinct (ro_capabilities opts)
      then register_specialist opts p else p)"
| "index_step (OpUnregister i) p = snd (unregister_specialist i p)"
| "index_step (OpAdd i c) p = add_capability i c p"
| "index_step (OpRemove i c) p = remove_capability i c p"

lemma push_id_count:
  "count_list (unwrap_or [] (map_of (push_id c i m) d)) j =
   count_list (unwrap_or [] (map_of m d)) j + (if c = d \<and> i = j then 1 else 0)"
  by (auto simp: push_id_def im_get_entry count_list_append split: option.split)

lemma push_ids_count:
  "distinct cs \<Longrightarrow> count_list (unwrap_or [] (map_of (fold (\<lambda>c. push_id c i) cs m) d)) j =
   count_list (unwrap_or [] (map_of m d)) j + (if d \<in> set cs \<and> i = j then 1 else 0)"
proof (induction cs arbitrary: m)
  case (Cons c cs)
  then show ?case
    using push_id_count [of c i m d j] by auto
qed simp

lemma count_list_filter_neq: "count_list (filter (\<lambda>x. x \<noteq> i) xs) j = (if i = j then 0 else count_list xs j)"
  by (induction xs) auto

lemma drop_id_count:
  "count_list (unwrap_or [] (map_of (drop_id c i m) d)) j =
   (if c = d \<and> i = j then 0 else count_list (unwrap_or [] (map_of m d)) j)"
proof (cases "map_of m c")
  case None
  then show ?thesis
    by (auto simp: drop_id_def)
next
  case (Some ids)
  have "count_list (filter (\<lambda>x. x \<noteq> i) ids) j = (if i = j then 0 else count_list ids j)"
    by (rule count_list_filter_neq)
  then show ?thesis
    using Some by (auto simp: drop_id_def Let_def im.get_ins im.get_del)
qed

lemma drop_ids_count:
  "count_list (unwrap_or [] (map_of (fold (\<lambda>c. drop_id c i) cs m) d)) j =
   (if d \<in> set cs \<and> i = j then 0 else count_list (unwrap_or [] (map_of m d)) j)"
proof (induction cs arbitrary: m)
  case (Cons c cs)
  then show ?case
    using drop_id_count [of c i m d j] by auto
qed simp

lemma index_register:
  assumes "index_ok p" "map_of (sp_registry p) (ro_id opts) = None" "distinct (ro_capabilities opts)"
  shows "index_ok (register_specialist opts p)"
proof -
  let ?p = "register_specialist opts p"
  have reg: "map_of (sp_registry ?p) j = (if j = ro_id opts then Some (length (store p)) else map_of (sp_registry p) j)" for j
    by (simp add: register_specialist_def im.get_ins)
  have bound: "map_of (sp_registry p) j = Some a \<Longrightarrow> a < length (store p)" for j a
    using assms(1) by (auto simp: index_ok_def registry_ok_def list_all_iff dest: map_of_SomeD)
  have ro: "registry_ok ?p"
    using assms(1) unfolding index_ok_def registry_ok_def register_specialist_def
    by (auto intro!: list_all_update) (auto simp: list_all_iff)
  have inj: "inj_on (\<lambda>i. map_of (sp_registry ?p) i) (dom (map_of (sp_registry ?p)))"
    using assms(1) bound by (fastforce simp: inj_on_def reg index_ok_def dom_def split: if_splits)
  have st: "a < length (store p) \<Longrightarrow> store ?p ! a = store p ! a"
    "sp_capabilities (store ?p ! length (store p)) = ro_capabilities opts" for a
    by (simp_all add: register_specialist_def nth_append)
  have "lookup j ?p = (if j = ro_id opts then Some (store ?p ! length (store p)) else lookup j p)" for j
    using bound [of j] by (cases "map_of (sp_registry p) j") (simp_all add: lookup_def reg st)
  then have hc: "has_capability ?p j c = (if j = ro_id opts then c \<in> set (ro_capabilities opts) else has_capability p j c)" for j c
    by (simp add: has_capability_def st)
  have new: "\<not> has_capability p (ro_id opts) c" for c
    using assms(2) by (simp add: has_capability_def lookup_def)
  have ci: "cap_index ?p = fold (\<lambda>c. push_id c (ro_id opts)) (ro_capabilities opts) (cap_index p)"
    by (simp add: register_specialist_def)
  have "count_list (listed ?p c) i = (if has_capability ?p i c then 1 else 0)" for c i
    using assms(1,3) push_ids_count [OF assms(3), of "ro_id opts" "cap_index p" c i] new [of c]
    by (auto simp: index_ok_def listed_def ci hc)
  then show ?thesis
    using ro inj unfolding index_ok_def by blast
qed

lemma index_unregister:
  assumes "index_ok p"
  shows "index_ok (snd (unregister_specialist i p))"
proof (cases "lookup i p")
  case None
  then show ?thesis
    using assms by (simp add: unregister_specialist_def)
next
  case (Some s)
  let ?p = "snd (unregister_specialist i p)"
  have p: "sp_registry ?p = im_remove i (sp_registry p)" "store ?p = store p"
    "cap_index ?p = fold (\<lambda>c. drop_id c i) (sp_capabilities s) (cap_index p)"
    using Some by (simp_all add: unregister_specialist_def)
  have reg: "map_of (sp_registry ?p) j = (if j = i then None else map_of (sp_registry p) j)" for j
    by (simp add: p im.get_del)
  have "registry_ok ?p"
    using assms by (simp add: index_ok_def registry_ok_def p list_all_delete)
  moreover have "inj_on (\<lambda>i. map_of (sp_registry ?p) i) (dom (map_of (sp_registry ?p)))"
    using assms by (fastforce simp: inj_on_def reg index_ok_def dom_def split: if_splits)
  moreover have "has_capability ?p j c = (j \<noteq> i \<and> has_capability p j c)" for j c
    by (simp add: has_capability_def lookup_def reg p(2))
  moreover have "has_capability p i c \<longleftrightarrow> c \<in> set (sp_capabilities s)" for c
    using Some by (simp add: has_capability_def)
  ultimately show ?thesis
    using assms drop_ids_count [of i "sp_capabilities s" "cap_index p"]
    unfolding index_ok_def listed_def p(3) by auto
qed

text \<open>Changing one specialist's capability changes nobody else's.\<close>

lemma has_capability_set:
  assumes "index_ok p" "map_of (sp_registry p) i = Some a"
  shows "has_capability (set_specialist a f p\<lparr>cap_index := m\<rparr>) j c =
    (if j = i then c \<in> set (sp_capabilities (f (store p ! a))) else has_capability p j c)"
proof -
  have "a < length (store p)"
    using assms by (auto simp: index_ok_def registry_ok_def list_all_iff dest: map_of_SomeD)
  moreover have "j = i" if "map_of (sp_registry p) j = Some a"
    using assms that unfolding index_ok_def inj_on_def by (metis domI)
  ultimately show ?thesis
    using assms(2)
    by (cases "map_of (sp_registry p) j") (auto simp: has_capability_def lookup_def store_set_specialist)
qed

lemma index_set:
  assumes "index_ok p" "map_of (sp_registry p) i = Some a"
    "\<And>c j. count_list (unwrap_or [] (map_of m c)) j =
       (if (if j = i then c \<in> set (sp_capabilities (f (store p ! a))) else has_capability p j c) then 1 else 0)"
  shows "index_ok (set_specialist a f p\<lparr>cap_index := m\<rparr>)"
  unfolding index_ok_def
proof (intro conjI allI)
  show "registry_ok (set_specialist a f p\<lparr>cap_index := m\<rparr>)"
    using assms(1) by (simp add: index_ok_def registry_ok_def)
  show "inj_on (\<lambda>i. map_of (sp_registry (set_specialist a f p\<lparr>cap_index := m\<rparr>)) i)
      (dom (map_of (sp_registry (set_specialist a f p\<lparr>cap_index := m\<rparr>))))"
    using assms(1) by (simp add: index_ok_def)
  fix c j
  show "count_list (listed (set_specialist a f p\<lparr>cap_index := m\<rparr>) c) j =
      (if has_capability (set_specialist a f p\<lparr>cap_index := m\<rparr>) j c then 1 else 0)"
    unfolding has_capability_set [OF assms(1,2)] using assms(3) [of c j] by (simp add: listed_def)
qed

lemma index_add:
  assumes "index_ok p"
  shows "index_ok (add_capability i c p)"
proof (cases "map_of (sp_registry p) i")
  case (Some a)
  let ?f = "\<lambda>s. if c \<in> set (sp_capabilities s) then s else s\<lparr>sp_capabilities := sp_capabilities s @ [c]\<rparr>"
  have has: "has_capability p i d \<longleftrightarrow> d \<in> set (sp_capabilities (store p ! a))" for d
    using Some by (simp add: has_capability_def lookup_def)
  have old: "count_list (unwrap_or [] (map_of (cap_index p) d)) j = (if has_capability p j d then 1 else 0)" for d j
    using assms by (simp add: index_ok_def listed_def)
  have mem: "i \<in> set (unwrap_or [] (map_of (cap_index p) d)) \<longleftrightarrow> has_capability p i d" for d
    using old [of d i] by (metis count_list_0_iff zero_neq_one)
  have "index_ok (set_specialist a ?f p\<lparr>cap_index :=
      im_entry c [] (\<lambda>ids. if i \<in> set ids then ids else ids @ [i]) (cap_index p)\<rparr>)"
  proof (rule index_set [OF assms Some])
    fix d j
    show "count_list (unwrap_or [] (map_of (im_entry c [] (\<lambda>ids. if i \<in> set ids then ids else ids @ [i]) (cap_index p)) d)) j =
       (if (if j = i then d \<in> set (sp_capabilities (?f (store p ! a))) else has_capability p j d) then 1 else 0)"
    proof (cases "d = c")
      case True
      have "unwrap_or [] (map_of (im_entry c [] (\<lambda>ids. if i \<in> set ids then ids else ids @ [i]) (cap_index p)) c)
          = (if has_capability p i c then unwrap_or [] (map_of (cap_index p) c) else unwrap_or [] (map_of (cap_index p) c) @ [i])"
        using mem [of c] by (auto simp: im_get_entry split: option.split)
      then show ?thesis
        using True old [of c j] has [of c] by (auto simp: count_list_append)
    next
      case False
      then show ?thesis
        using old [of d j] has [of d] by (auto simp: im_get_entry)
    qed
  qed
  then show ?thesis
    using Some by (simp add: add_capability_def Let_def)
qed (use assms in \<open>simp add: add_capability_def\<close>)

lemma index_remove:
  assumes "index_ok p"
  shows "index_ok (remove_capability i c p)"
proof (cases "map_of (sp_registry p) i")
  case None
  then have "\<not> has_capability p i c"
    by (simp add: has_capability_def lookup_def)
  then have "count_list (unwrap_or [] (map_of (drop_id c i (cap_index p)) d)) j = count_list (unwrap_or [] (map_of (cap_index p) d)) j" for d j
    using assms drop_id_count [of c i "cap_index p" d j] by (auto simp: index_ok_def listed_def)
  then show ?thesis
    using None assms
    by (simp add: remove_capability_def index_ok_def listed_def has_capability_def lookup_def registry_ok_def)
next
  case (Some a)
  let ?f = "\<lambda>s. s\<lparr>sp_capabilities := filter (\<lambda>x. x \<noteq> c) (sp_capabilities s)\<rparr>"
  have has: "has_capability p i d \<longleftrightarrow> d \<in> set (sp_capabilities (store p ! a))" for d
    using Some by (simp add: has_capability_def lookup_def)
  have old: "count_list (unwrap_or [] (map_of (cap_index p) d)) j = (if has_capability p j d then 1 else 0)" for d j
    using assms by (simp add: index_ok_def listed_def)
  have "index_ok (set_specialist a ?f p\<lparr>cap_index := drop_id c i (cap_index p)\<rparr>)"
    by (rule index_set [OF assms Some]) (auto simp: drop_id_count old has)
  then show ?thesis
    using Some by (simp add: remove_capability_def Let_def)
qed

lemma index_step_ok: "index_ok p \<Longrightarrow> index_ok (index_step op p)"
  by (cases op) (simp_all add: index_register index_unregister index_add index_remove)

interpretation cap_index: invariant_machine index_step index_ok
  by unfold_locales (rule index_step_ok)

text \<open>
  The capability index is exact: after any sequence of registrations of fresh ids, removals and capability
  changes, an id is listed under a capability once if it is registered with it, and not at all otherwise.
\<close>
theorem capability_index_exact:
  "count_list (listed (fold index_step ops (with_specialist_config dp c)) cap) i =
     (if has_capability (fold index_step ops (with_specialist_config dp c)) i cap then 1 else 0)"
proof -
  have "index_ok (with_specialist_config dp c)"
    by (simp add: index_ok_def with_specialist_config_def registry_ok_def listed_def has_capability_def lookup_def)
  from cap_index.run_inv [OF this, of ops] show ?thesis
    by (simp add: index_ok_def)
qed

definition demo_opts :: "string list \<Rightarrow> register_opts" where
  "demo_opts cs = \<lparr>ro_id = ''s'', ro_name = ''S'', ro_capabilities = cs, ro_priority = 0, ro_max_concurrent = 1, ro_pool = 7\<rparr>"

text \<open>
  The guard on fresh ids is needed: registering an id again with other capabilities leaves it listed under
  the old ones, so a task for a capability the specialist no longer has is still routed to it.
\<close>
theorem reregistration_keeps_old_capability:
  "let p = register_specialist (demo_opts [''rust'']) (register_specialist (demo_opts [''go'']) (new_specialist_pool 0))
   in \<not> has_capability p ''s'' ''go'' \<and> fst (pick_specialist_for ''go'' p) = Some 1 \<and>
      lookup ''s'' p = Some (store p ! 1)"
  by (simp add: demo_opts_def register_specialist_def new_specialist_pool_def with_specialist_config_def push_id_def
      im_entry_def has_capability_def lookup_def pick_specialist_for_def candidates_def List.map_filter_simps
      default_specialist_config_def Let_def)

end
