(* ===== verification/Lru_Cache.thy ===== *)
theory Lru_Cache
  imports Complex_Main Json "HOL-Library.Word"
begin

unbundle bit_operations_syntax

text \<open>
  The LRU cache (\<open>cache/lru.rs\<close>): entries, the access order beside them, eviction, expiry and
  statistics, the keys of the cache and the size estimate.  \<open>get\<close> and \<open>set\<close> take their two mutexes one
  after the other; \<open>get_entry\<close> and \<open>get_touch\<close> are the two critical sections of \<open>get\<close>.  Clock readings
  are arguments, one for the expiry test and one for the stamp.  The eviction loop of \<open>set\<close> is a
  \<open>partial_function\<close>: \<open>None\<close> says that it does not return.
\<close>

record cache_entry =
  ce_key :: string
  ce_value :: json
  ce_created_at :: nat
  ce_accessed_at :: nat
  ce_access_count :: nat
  ce_ttl :: "nat option"
  ce_size :: nat
  ce_metadata :: json

record cache_stats =
  hits :: nat
  misses :: nat
  evictions :: nat
  writes :: nat
  size_bytes :: nat
  entry_count :: nat
  hit_rate :: rat

definition zero_stats :: cache_stats where
  "zero_stats = \<lparr>hits = 0, misses = 0, evictions = 0, writes = 0, size_bytes = 0, entry_count = 0, hit_rate = 0\<rparr>"

fun estimate_size :: "json \<Rightarrow> nat" where
  "estimate_size JNull = 0"
| "estimate_size (JBool _) = 1"
| "estimate_size (JNumber _) = 8"
| "estimate_size (JString s) = length s"
| "estimate_size (JArray js) = sum_list (map estimate_size js)"
| "estimate_size (JObject kvs) = sum_list (map (\<lambda>(k, v). length k + estimate_size v) kvs)"

fun stable_hash_from :: "64 word \<Rightarrow> string \<Rightarrow> 64 word" where
  "stable_hash_from h [] = h"
| "stable_hash_from h (c # cs) = stable_hash_from ((h XOR of_nat (of_char c)) * 1099511628211) cs"

definition stable_hash :: "string \<Rightarrow> 64 word" where
  "stable_hash s = stable_hash_from 1469598103934665603 s"

definition make_api_cache_key :: "string \<Rightarrow> string \<Rightarrow> string" where
  "make_api_cache_key session content = ''api:'' @ session @ '':'' @ dec (unat (stable_hash content))"

definition make_task_cache_key :: "string \<Rightarrow> string \<Rightarrow> string" where
  "make_task_cache_key ty payload = ''task:'' @ ty @ '':'' @ dec (unat (stable_hash payload))"

definition make_session_cache_key :: "string \<Rightarrow> string \<Rightarrow> string" where
  "make_session_cache_key session ty = ''session:'' @ session @ '':'' @ dec (unat (stable_hash ty))"


section \<open>The access order\<close>

text \<open>\<open>LruEvictionPolicy\<close>, and the same order inside the cache.\<close>

definition touch :: "string \<Rightarrow> string list \<Rightarrow> string list" where
  "touch k xs = filter (\<lambda>x. x \<noteq> k) xs @ [k]"

definition forget :: "string \<Rightarrow> string list \<Rightarrow> string list" where
  "forget k xs = filter (\<lambda>x. x \<noteq> k) xs"

definition select_for_eviction :: "string list \<Rightarrow> string option" where
  "select_for_eviction xs = (case xs of [] \<Rightarrow> None | x # _ \<Rightarrow> Some x)"


section \<open>The cache\<close>

record lru_cache =
  lru_entries :: "(string, cache_entry) imap"
  access_order :: "string list"
  max_entries :: nat
  default_ttl :: nat
  lru_stats :: cache_stats

definition new_lru :: "nat option \<Rightarrow> nat option \<Rightarrow> lru_cache" where
  "new_lru m ttl =
     \<lparr>lru_entries = [], access_order = [], max_entries = unwrap_or 1000 m, default_ttl = unwrap_or 300000 ttl,
      lru_stats = zero_stats\<rparr>"

definition entry_expired :: "nat \<Rightarrow> cache_entry \<Rightarrow> bool" where
  "entry_expired now e = (case ce_ttl e of None \<Rightarrow> False | Some ttl \<Rightarrow> ttl < saturating_sub now (ce_created_at e))"

definition bump_lru :: "(cache_stats \<Rightarrow> cache_stats) \<Rightarrow> lru_cache \<Rightarrow> lru_cache" where
  "bump_lru f c = c\<lparr>lru_stats := f (lru_stats c)\<rparr>"

datatype get_outcome = Expired | Hit json | Missing

definition get_entry :: "nat \<Rightarrow> nat \<Rightarrow> string \<Rightarrow> lru_cache \<Rightarrow> get_outcome \<times> lru_cache" where
  "get_entry now now' k c =
     (case map_of (lru_entries c) k of
        None \<Rightarrow> (Missing, c)
      | Some e \<Rightarrow>
          if entry_expired now e then (Expired, c\<lparr>lru_entries := im_remove k (lru_entries c)\<rparr>)
          else (Hit (ce_value e), c\<lparr>lru_entries :=
                 im_insert k (e\<lparr>ce_access_count := ce_access_count e + 1, ce_accessed_at := now'\<rparr>) (lru_entries c)\<rparr>))"

fun get_touch :: "string \<Rightarrow> get_outcome \<Rightarrow> lru_cache \<Rightarrow> json option \<times> lru_cache" where
  "get_touch k Expired c =
     (None, bump_lru (\<lambda>s. s\<lparr>misses := misses s + 1\<rparr>) (c\<lparr>access_order := forget k (access_order c)\<rparr>))"
| "get_touch k Missing c = (None, bump_lru (\<lambda>s. s\<lparr>misses := misses s + 1\<rparr>) c)"
| "get_touch k (Hit v) c =
     (Some v, bump_lru (\<lambda>s. s\<lparr>hits := hits s + 1\<rparr>) (c\<lparr>access_order := touch k (access_order c)\<rparr>))"

definition lru_get :: "nat \<Rightarrow> nat \<Rightarrow> string \<Rightarrow> lru_cache \<Rightarrow> json option \<times> lru_cache" where
  "lru_get now now' k c = (case get_entry now now' k c of (out, c) \<Rightarrow> get_touch k out c)"

definition lru_delete :: "string \<Rightarrow> lru_cache \<Rightarrow> bool \<times> lru_cache" where
  "lru_delete k c =
     (case map_of (lru_entries c) k of
        None \<Rightarrow> (False, c)
      | Some _ \<Rightarrow> (True, c\<lparr>lru_entries := im_remove k (lru_entries c), access_order := forget k (access_order c)\<rparr>))"

definition has_room :: "string \<Rightarrow> lru_cache \<Rightarrow> bool" where
  "has_room k c \<longleftrightarrow> length (lru_entries c) < max_entries c \<or> map_of (lru_entries c) k \<noteq> None"

definition evict_one :: "string \<Rightarrow> lru_cache \<Rightarrow> lru_cache" where
  "evict_one k c = bump_lru (\<lambda>s. s\<lparr>evictions := evictions s + 1\<rparr>) (snd (lru_delete k c))"

partial_function (option) evict_loop :: "string \<Rightarrow> lru_cache \<Rightarrow> lru_cache option" where
  "evict_loop k c =
     (if has_room k c then Some c
      else case select_for_eviction (access_order c) of
             None \<Rightarrow> Some c
           | Some old \<Rightarrow> evict_loop k (evict_one old c))"

declare evict_loop.simps [code]

definition insert_entry :: "nat \<Rightarrow> string \<Rightarrow> json \<Rightarrow> nat option \<Rightarrow> lru_cache \<Rightarrow> lru_cache" where
  "insert_entry now k v ttl c =
     bump_lru (\<lambda>s. s\<lparr>writes := writes s + 1\<rparr>)
       (c\<lparr>lru_entries := im_insert k
            \<lparr>ce_key = k, ce_value = v, ce_created_at = now, ce_accessed_at = now, ce_access_count = 0,
             ce_ttl = or_else ttl (Some (default_ttl c)), ce_size = estimate_size v, ce_metadata = JObject []\<rparr>
            (lru_entries c),
          access_order := touch k (access_order c)\<rparr>)"

definition lru_set :: "nat \<Rightarrow> string \<Rightarrow> json \<Rightarrow> nat option \<Rightarrow> lru_cache \<Rightarrow> (json \<times> lru_cache) option" where
  "lru_set now k v ttl c = map_option (\<lambda>c. (v, insert_entry now k v ttl c)) (evict_loop k c)"

definition lru_get_or_compute ::
  "nat \<Rightarrow> nat \<Rightarrow> nat \<Rightarrow> string \<Rightarrow> (unit \<Rightarrow> json) \<Rightarrow> lru_cache \<Rightarrow> (json \<times> lru_cache) option" where
  "lru_get_or_compute now now' now'' k f c =
     (case lru_get now now' k c of
        (Some v, c) \<Rightarrow> Some (v, c)
      | (None, c) \<Rightarrow> lru_set now'' k (f ()) None c)"

definition lru_statistics :: "lru_cache \<Rightarrow> cache_stats" where
  "lru_statistics c =
     (let s = lru_stats c; n = hits s + misses s
      in s\<lparr>entry_count := length (lru_entries c), size_bytes := sum_list (map ce_size (im_values (lru_entries c))),
           hit_rate := (if 0 < n then of_nat (hits s) / of_nat n else 0)\<rparr>)"


section \<open>Lemmas\<close>

definition lru_wf :: "lru_cache \<Rightarrow> bool" where
  "lru_wf c \<longleftrightarrow> im_wf (lru_entries c) \<and> distinct (access_order c) \<and> set (access_order c) = set (im_keys (lru_entries c))"

definition stored_value :: "lru_cache \<Rightarrow> string \<Rightarrow> json option" where
  "stored_value c k = map_option ce_value (map_of (lru_entries c) k)"

lemma bump_lru_simps [simp]:
  "lru_entries (bump_lru f c) = lru_entries c" "access_order (bump_lru f c) = access_order c"
  "max_entries (bump_lru f c) = max_entries c" "default_ttl (bump_lru f c) = default_ttl c"
  by (simp_all add: bump_lru_def)

lemma touch_props: "distinct xs \<Longrightarrow> distinct (touch k xs)" "set (touch k xs) = insert k (set xs)"
  by (auto simp: touch_def)

lemma forget_props: "distinct xs \<Longrightarrow> distinct (forget k xs)" "set (forget k xs) = set xs - {k}"
  by (auto simp: forget_def)

lemma keys_insert [simp]: "fst ` set (im_insert k v m) = insert k (fst ` set m)"
  using set_keys_insert [of k v m] by (simp only: set_map)

lemma keys_remove [simp]: "fst ` set (im_remove k m) = fst ` set m - {k}"
  using set_keys_remove [of k m] by (simp only: set_map)

lemma key_iff: "map_of m k = None \<longleftrightarrow> k \<notin> set (im_keys m)"
  by (simp add: map_of_eq_None_iff)

lemma lru_wf_new [simp]: "lru_wf (new_lru m ttl)"
  by (simp add: lru_wf_def new_lru_def)

lemma lru_wf_delete: "lru_wf c \<Longrightarrow> lru_wf (snd (lru_delete k c))"
  by (auto simp: lru_wf_def lru_delete_def forget_props im_wf_remove set_keys_remove split: option.split)

lemma lru_wf_get: "lru_wf c \<Longrightarrow> lru_wf (snd (lru_get now now' k c))"
  using key_iff [of "lru_entries c" k]
  by (auto simp: lru_wf_def lru_get_def get_entry_def forget_props touch_props im_wf_remove im_wf_insert
      set_keys_remove set_keys_insert split: option.split)

lemma lru_wf_evict: "lru_wf c \<Longrightarrow> lru_wf (evict_one k c)"
  using lru_wf_delete [of c k] by (simp add: evict_one_def lru_wf_def)

lemma lru_wf_insert: "lru_wf c \<Longrightarrow> lru_wf (insert_entry now k v ttl c)"
  by (simp add: lru_wf_def insert_entry_def im_wf_insert touch_props set_keys_insert)

lemma delete_present:
  assumes "lru_wf c" "access_order c = k # rest"
  shows "Suc (length (lru_entries (snd (lru_delete k c)))) = length (lru_entries c)"
    "access_order (snd (lru_delete k c)) = rest"
proof -
  have k: "k \<in> set (im_keys (lru_entries c))" "distinct (im_keys (lru_entries c))" "k \<notin> set rest"
    using assms by (auto simp: lru_wf_def im_wf_def)
  have "Suc (length (im_keys (im_remove k (lru_entries c)))) = length (im_keys (lru_entries c))"
    using k(2,1) by (rule im.length_del_mem)
  then show "Suc (length (lru_entries (snd (lru_delete k c)))) = length (lru_entries c)"
    using k(1) key_iff [of "lru_entries c" k] by (auto simp: lru_delete_def)
  show "access_order (snd (lru_delete k c)) = rest"
    using k(1,3) key_iff [of "lru_entries c" k] assms(2)
    by (auto simp: lru_delete_def forget_def intro!: filter_True)
qed

text \<open>In a well-formed cache the loop returns: every round removes an entry.\<close>

lemma evict_loop_returns:
  assumes "lru_wf c"
  shows "\<exists>c' n. evict_loop k c = Some c' \<and> lru_wf c' \<and> (has_room k c' \<or> lru_entries c' = []) \<and>
    access_order c' = drop n (access_order c) \<and> max_entries c' = max_entries c \<and> default_ttl c' = default_ttl c \<and>
    (\<forall>x. map_of (lru_entries c') x = (if x \<in> set (take n (access_order c)) then None else map_of (lru_entries c) x)) \<and>
    (has_room k c \<longrightarrow> n = 0)"
  using assms
proof (induction "length (lru_entries c)" arbitrary: c rule: less_induct)
  case less
  show ?case
  proof (cases "has_room k c")
    case True
    then show ?thesis
      using less(2) by (intro exI [of _ c] exI [of _ 0]) (simp add: evict_loop.simps)
  next
    case False
    show ?thesis
    proof (cases "access_order c")
      case Nil
      then have "lru_entries c = []"
        using less(2) by (simp add: lru_wf_def)
      then show ?thesis
        using False less(2) Nil by (intro exI [of _ c] exI [of _ 0]) (simp add: evict_loop.simps select_for_eviction_def)
    next
      case (Cons old rest)
      let ?c = "evict_one old c"
      have l: "length (lru_entries ?c) < length (lru_entries c)" "access_order ?c = rest"
        using delete_present [OF less(2) Cons] by (simp_all add: evict_one_def)
      have same: "max_entries ?c = max_entries c" "default_ttl ?c = default_ttl c"
        "map_of (lru_entries ?c) x = (if x = old then None else map_of (lru_entries c) x)" for x
        by (auto simp: evict_one_def lru_delete_def im.get_del split: option.split)
      obtain c' n where c': "evict_loop k ?c = Some c'" "lru_wf c'" "has_room k c' \<or> lru_entries c' = []"
        "access_order c' = drop n (access_order ?c)" "max_entries c' = max_entries ?c" "default_ttl c' = default_ttl ?c"
        "\<forall>x. map_of (lru_entries c') x = (if x \<in> set (take n (access_order ?c)) then None else map_of (lru_entries ?c) x)"
        using less(1) [OF l(1) lru_wf_evict [OF less(2)]] by blast
      have "evict_loop k c = Some c'"
        using False Cons c'(1) by (subst evict_loop.simps) (simp add: select_for_eviction_def)
      then show ?thesis
        using c' False l(2) same Cons by (intro exI [of _ c'] exI [of _ "Suc n"]) auto
    qed
  qed
qed

end
