(* ===== verification/Ttl_Cache.thy ===== *)
theory Ttl_Cache
  imports Complex_Main Lru_Cache
begin

text \<open>
  The TTL cache (\<open>cache/ttl.rs\<close>): every entry has its own time to live; reads remove an expired entry, a
  write into a full cache removes up to ten expired entries or else the entry created first.  Every
  operation holds the mutex of the entries throughout and is one step.  \<open>clock k\<close> is the clock reading made
  when the entry of \<open>k\<close> is tested, the other readings are arguments.  The size estimate is that of
  \<open>Lru_Cache\<close> (the two functions of the source are the same text).
\<close>

record ttl_entry =
  te_key :: string
  te_value :: json
  te_created_at :: nat
  te_accessed_at :: nat
  te_access_count :: nat
  te_ttl :: nat
  te_size :: nat

record ttl_stats =
  ts_hits :: nat
  ts_misses :: nat
  ts_writes :: nat
  ts_evictions :: nat
  ts_expirations :: nat
  ts_entry_count :: nat
  ts_size_bytes :: nat

record ttl_cache =
  ttl_entries :: "(string, ttl_entry) imap"
  ttl_default :: nat
  ttl_max_entries :: nat
  ttl_stats :: ttl_stats

definition new_ttl :: "nat option \<Rightarrow> nat option \<Rightarrow> ttl_cache" where
  "new_ttl ttl m =
     \<lparr>ttl_entries = [], ttl_default = unwrap_or 300000 ttl, ttl_max_entries = unwrap_or 5000 m,
      ttl_stats = \<lparr>ts_hits = 0, ts_misses = 0, ts_writes = 0, ts_evictions = 0, ts_expirations = 0,
        ts_entry_count = 0, ts_size_bytes = 0\<rparr>\<rparr>"

definition is_expired :: "nat \<Rightarrow> ttl_entry \<Rightarrow> bool" where
  "is_expired now e \<longleftrightarrow> te_ttl e < saturating_sub now (te_created_at e)"

definition entry_remaining :: "nat \<Rightarrow> ttl_entry \<Rightarrow> nat" where
  "entry_remaining now e = (let elapsed = saturating_sub now (te_created_at e) in saturating_sub (te_ttl e) elapsed)"

definition bump_ttl :: "(ttl_stats \<Rightarrow> ttl_stats) \<Rightarrow> ttl_cache \<Rightarrow> ttl_cache" where
  "bump_ttl f c = c\<lparr>ttl_stats := f (ttl_stats c)\<rparr>"

definition ttl_get :: "nat \<Rightarrow> nat \<Rightarrow> string \<Rightarrow> ttl_cache \<Rightarrow> json option \<times> ttl_cache" where
  "ttl_get now now' k c =
     (case map_of (ttl_entries c) k of
        None \<Rightarrow> (None, bump_ttl (\<lambda>s. s\<lparr>ts_misses := ts_misses s + 1\<rparr>) c)
      | Some e \<Rightarrow>
          if is_expired now e
          then (None, bump_ttl (\<lambda>s. s\<lparr>ts_expirations := ts_expirations s + 1, ts_misses := ts_misses s + 1\<rparr>)
                        (c\<lparr>ttl_entries := im_remove k (ttl_entries c)\<rparr>))
          else (Some (te_value e), bump_ttl (\<lambda>s. s\<lparr>ts_hits := ts_hits s + 1\<rparr>)
                 (c\<lparr>ttl_entries :=
                   im_insert k (e\<lparr>te_access_count := te_access_count e + 1, te_accessed_at := now'\<rparr>) (ttl_entries c)\<rparr>)))"

text \<open>\<open>min_by_key(|e| e.created_at_ms)\<close>: the first of several minima.\<close>

fun oldest_key :: "(string, ttl_entry) imap \<Rightarrow> string option" where
  "oldest_key [] = None"
| "oldest_key ((k, e) # m) =
     (case oldest_key m of
        None \<Rightarrow> Some k
      | Some k' \<Rightarrow> (case map_of m k' of
          None \<Rightarrow> Some k
        | Some e' \<Rightarrow> if te_created_at e \<le> te_created_at e' then Some k else Some k'))"

definition expired_keys :: "(string \<Rightarrow> nat) \<Rightarrow> (string, ttl_entry) imap \<Rightarrow> string list" where
  "expired_keys clock m = map fst (filter (\<lambda>(k, e). is_expired (clock k) e) m)"

definition make_room :: "(string \<Rightarrow> nat) \<Rightarrow> string \<Rightarrow> ttl_cache \<Rightarrow> ttl_cache" where
  "make_room clock k c =
     (if ttl_max_entries c \<le> length (ttl_entries c) \<and> map_of (ttl_entries c) k = None
      then let ks = take 10 (expired_keys clock (ttl_entries c))
           in if ks \<noteq> []
              then bump_ttl (\<lambda>s. s\<lparr>ts_expirations := ts_expirations s + length ks\<rparr>)
                     (c\<lparr>ttl_entries := fold im_remove ks (ttl_entries c)\<rparr>)
              else case oldest_key (ttl_entries c) of
                     None \<Rightarrow> c
                   | Some old \<Rightarrow> bump_ttl (\<lambda>s. s\<lparr>ts_evictions := ts_evictions s + 1\<rparr>)
                       (c\<lparr>ttl_entries := im_remove old (ttl_entries c)\<rparr>)
      else c)"

definition ttl_set :: "(string \<Rightarrow> nat) \<Rightarrow> nat \<Rightarrow> string \<Rightarrow> json \<Rightarrow> nat option \<Rightarrow> ttl_cache \<Rightarrow> json \<times> ttl_cache" where
  "ttl_set clock now k v ttl c =
     (let c = make_room clock k c;
          e = \<lparr>te_key = k, te_value = v, te_created_at = now, te_accessed_at = now, te_access_count = 0,
               te_ttl = unwrap_or (ttl_default c) ttl, te_size = estimate_size v\<rparr>
      in (v, bump_ttl (\<lambda>s. s\<lparr>ts_writes := ts_writes s + 1\<rparr>) (c\<lparr>ttl_entries := im_insert k e (ttl_entries c)\<rparr>)))"

definition ttl_delete :: "string \<Rightarrow> ttl_cache \<Rightarrow> bool \<times> ttl_cache" where
  "ttl_delete k c = (map_of (ttl_entries c) k \<noteq> None, c\<lparr>ttl_entries := im_remove k (ttl_entries c)\<rparr>)"

definition ttl_has :: "nat \<Rightarrow> string \<Rightarrow> ttl_cache \<Rightarrow> bool" where
  "ttl_has now k c = (case map_of (ttl_entries c) k of None \<Rightarrow> False | Some e \<Rightarrow> \<not> is_expired now e)"

definition get_or_compute_with ::
  "nat option \<Rightarrow> nat \<Rightarrow> nat \<Rightarrow> (string \<Rightarrow> nat) \<Rightarrow> nat \<Rightarrow> string \<Rightarrow> (unit \<Rightarrow> json) \<Rightarrow> ttl_cache \<Rightarrow> json \<times> ttl_cache" where
  "get_or_compute_with ttl now now' clock now'' k f c =
     (case ttl_get now now' k c of
        (Some v, c) \<Rightarrow> (v, c)
      | (None, c) \<Rightarrow> ttl_set clock now'' k (f ()) ttl c)"

definition ttl_get_or_compute ::
  "nat \<Rightarrow> nat \<Rightarrow> (string \<Rightarrow> nat) \<Rightarrow> nat \<Rightarrow> string \<Rightarrow> (unit \<Rightarrow> json) \<Rightarrow> ttl_cache \<Rightarrow> json \<times> ttl_cache" where
  "ttl_get_or_compute = get_or_compute_with None"

definition ttl_get_or_compute_with_ttl ::
  "nat \<Rightarrow> nat \<Rightarrow> nat \<Rightarrow> (string \<Rightarrow> nat) \<Rightarrow> nat \<Rightarrow> string \<Rightarrow> (unit \<Rightarrow> json) \<Rightarrow> ttl_cache \<Rightarrow> json \<times> ttl_cache" where
  "ttl_get_or_compute_with_ttl ttl = get_or_compute_with (Some ttl)"

definition remaining_ttl :: "nat \<Rightarrow> string \<Rightarrow> ttl_cache \<Rightarrow> nat option" where
  "remaining_ttl now k c = map_option (entry_remaining now) (map_of (ttl_entries c) k)"

definition cleanup_expired :: "(string \<Rightarrow> nat) \<Rightarrow> ttl_cache \<Rightarrow> nat \<times> ttl_cache" where
  "cleanup_expired clock c =
     (let ks = expired_keys clock (ttl_entries c); n = length ks
      in (n, bump_ttl (\<lambda>s. s\<lparr>ts_expirations := ts_expirations s + n\<rparr>)
               (c\<lparr>ttl_entries := fold im_remove ks (ttl_entries c)\<rparr>)))"

definition ttl_clear :: "ttl_cache \<Rightarrow> ttl_cache" where
  "ttl_clear c = c\<lparr>ttl_entries := []\<rparr>"

definition ttl_statistics :: "ttl_cache \<Rightarrow> ttl_stats" where
  "ttl_statistics c =
     (ttl_stats c)\<lparr>ts_entry_count := length (ttl_entries c),
        ts_size_bytes := sum_list (map te_size (im_values (ttl_entries c)))\<rparr>"

definition ttl_hit_rate :: "ttl_stats \<Rightarrow> rat" where
  "ttl_hit_rate s = (let n = ts_hits s + ts_misses s in if 0 < n then of_nat (ts_hits s) / of_nat n else 0)"


section \<open>Lemmas\<close>

definition ttl_value :: "ttl_cache \<Rightarrow> string \<Rightarrow> json option" where
  "ttl_value c k = map_option te_value (map_of (ttl_entries c) k)"

definition ttl_wf :: "ttl_cache \<Rightarrow> bool" where
  "ttl_wf c \<longleftrightarrow> im_wf (ttl_entries c)"

lemma bump_ttl_simps [simp]:
  "ttl_entries (bump_ttl f c) = ttl_entries c" "ttl_default (bump_ttl f c) = ttl_default c"
  "ttl_max_entries (bump_ttl f c) = ttl_max_entries c" "ttl_stats (bump_ttl f c) = f (ttl_stats c)"
  by (simp_all add: bump_ttl_def)

lemma im_wf_remove_all: "im_wf m \<Longrightarrow> im_wf (fold im_remove ks m)"
  by (induction ks arbitrary: m) (simp_all add: im_wf_remove)

lemma oldest_key_None: "oldest_key m = None \<longleftrightarrow> m = []"
  by (cases m rule: oldest_key.cases) (auto split: option.split if_split)

lemma oldest_key_Some:
  "oldest_key m = Some k \<Longrightarrow> im_wf m \<Longrightarrow>
   \<exists>e. map_of m k = Some e \<and> (\<forall>k' e'. map_of m k' = Some e' \<longrightarrow> te_created_at e \<le> te_created_at e')"
proof (induction m arbitrary: k rule: oldest_key.induct)
  case (2 a e m)
  then have fresh: "map_of m a = None" "im_wf m"
    by (auto simp: im_wf_def map_of_eq_None_iff)
  show ?case
  proof (cases "oldest_key m")
    case None
    then show ?thesis
      using "2.prems"(1) by (simp add: oldest_key_None)
  next
    case (Some k')
    obtain e' where e': "map_of m k' = Some e'"
      "\<forall>k'' e''. map_of m k'' = Some e'' \<longrightarrow> te_created_at e' \<le> te_created_at e''"
      using "2.IH" [OF Some fresh(2)] by blast
    have ne: "k' \<noteq> a"
      using e'(1) fresh(1) by auto
    show ?thesis
    proof (cases "te_created_at e \<le> te_created_at e'")
      case True
      then have "k = a"
        using "2.prems"(1) Some e'(1) by simp
      then show ?thesis
        using True e'(2) by (auto intro: order_trans)
    next
      case False
      then have "k = k'"
        using "2.prems"(1) Some e'(1) by simp
      then show ?thesis
        using False e' ne by auto
    qed
  qed
qed simp

text \<open>What the room-making keeps and removes.\<close>

lemma make_room_sub: "map_of (ttl_entries (make_room clock k c)) \<subseteq>\<^sub>m map_of (ttl_entries c)"
  by (auto simp: make_room_def Let_def map_le_def im.get_del_all im.get_del split: option.split)

lemma make_room_same [simp]:
  "ttl_max_entries (make_room clock k c) = ttl_max_entries c" "ttl_default (make_room clock k c) = ttl_default c"
  by (auto simp: make_room_def Let_def split: option.split)

lemma ttl_wf_make_room: "ttl_wf c \<Longrightarrow> ttl_wf (make_room clock k c)"
  by (auto simp: ttl_wf_def make_room_def Let_def im_wf_remove_all im_wf_remove split: option.split)

lemma ttl_wf_get: "ttl_wf c \<Longrightarrow> ttl_wf (snd (ttl_get now now' k c))"
  by (auto simp: ttl_wf_def ttl_get_def im_wf_remove im_wf_insert split: option.split)

lemma ttl_wf_set: "ttl_wf c \<Longrightarrow> ttl_wf (snd (ttl_set clock now k v ttl c))"
  using ttl_wf_make_room [of c clock k] by (simp add: ttl_set_def Let_def ttl_wf_def im_wf_insert)

lemma ttl_wf_delete: "ttl_wf c \<Longrightarrow> ttl_wf (snd (ttl_delete k c))"
  by (simp add: ttl_wf_def ttl_delete_def im_wf_remove)

lemma ttl_wf_cleanup: "ttl_wf c \<Longrightarrow> ttl_wf (snd (cleanup_expired clock c))"
  by (simp add: ttl_wf_def cleanup_expired_def Let_def im_wf_remove_all)

lemma length_remove: "im_wf m \<Longrightarrow> map_of m k \<noteq> None \<Longrightarrow> Suc (length (im_remove k m)) = length m"
  using im.length_del_mem [of m k] key_iff [of m k] by (simp add: im_wf_def)

lemma length_remove_all:
  "im_wf m \<Longrightarrow> distinct ks \<Longrightarrow> set ks \<subseteq> set (im_keys m) \<Longrightarrow> length (fold im_remove ks m) + length ks = length m"
proof (induction ks arbitrary: m)
  case (Cons k ks)
  have 1: "Suc (length (im_remove k m)) = length m"
    using Cons.prems key_iff [of m k] by (intro length_remove) auto
  have 2: "length (fold im_remove ks (im_remove k m)) + length ks = length (im_remove k m)"
    using Cons.prems by (intro Cons.IH im_wf_remove) auto
  show ?case
    using 1 2 by simp
qed simp

lemma expired_keys_props:
  assumes "im_wf m"
  shows "distinct (expired_keys clock m)" "set (expired_keys clock m) \<subseteq> set (im_keys m)"
    "k \<in> set (expired_keys clock m) \<longleftrightarrow> (\<exists>e. map_of m k = Some e \<and> is_expired (clock k) e)"
proof -
  show "distinct (expired_keys clock m)"
    using assms by (simp add: expired_keys_def im_wf_def distinct_map_filter)
  show "set (expired_keys clock m) \<subseteq> set (im_keys m)"
    by (auto simp: expired_keys_def)
  show "k \<in> set (expired_keys clock m) \<longleftrightarrow> (\<exists>e. map_of m k = Some e \<and> is_expired (clock k) e)"
    using assms by (force simp: expired_keys_def im_wf_def)
qed

lemma make_room_length:
  assumes "ttl_wf c" "map_of (ttl_entries c) k = None" "length (ttl_entries c) \<le> max 1 (ttl_max_entries c)"
  shows "length (ttl_entries (make_room clock k c)) < max 1 (ttl_max_entries c)"
proof (cases "ttl_max_entries c \<le> length (ttl_entries c) \<and> ttl_entries c \<noteq> []")
  case False
  then show ?thesis
    by (auto simp: make_room_def expired_keys_def)
next
  case True
  let ?m = "ttl_entries c" and ?ks = "take 10 (expired_keys clock (ttl_entries c))"
  have m: "im_wf ?m" "?m \<noteq> []"
    using assms True by (auto simp: ttl_wf_def)
  have ks: "distinct ?ks" "set ?ks \<subseteq> set (im_keys ?m)"
    using expired_keys_props(1) [OF m(1)]
      order_trans [OF set_take_subset expired_keys_props(2) [OF m(1), of clock]] by simp_all
  show ?thesis
  proof (cases "?ks = []")
    case False
    then have "0 < length ?ks"
      by blast
    then have "length (fold im_remove ?ks ?m) < length ?m"
      using length_remove_all [OF m(1) ks] by linarith
    then show ?thesis
      using True assms False by (simp add: make_room_def Let_def)
  next
    case none: True
    obtain old where old: "oldest_key ?m = Some old"
      using m(2) oldest_key_None by fastforce
    then have "Suc (length (im_remove old ?m)) = length ?m"
      using oldest_key_Some [OF old m(1)] by (intro length_remove [OF m(1)]) auto
    then show ?thesis
      using assms True old none by (simp add: make_room_def Let_def)
  qed
qed

end
