(* ===== verification/Cache_Props.thy ===== *)
theory Cache_Props
  imports Complex_Main Ttl_Cache
begin

text \<open>
  What both caches promise.  The locale \<open>value_cache\<close> is their common contract; inside it, every hit of a
  sequence of operations returns the value written last.  It is interpreted on the LRU and on the TTL cache.
  Then the bounds on the number of entries, the order in which the LRU cache evicts, the statistics, and
  what two threads can do to the LRU cache.
\<close>

section \<open>The contract\<close>

datatype 't cache_op = CGet 't string | CSet 't string json "nat option" | CDelete string

text \<open>The value written last to \<open>k\<close> and not deleted since; the newest operation is last.\<close>

fun last_written :: "'t cache_op \<Rightarrow> (string \<Rightarrow> json option) \<Rightarrow> string \<Rightarrow> json option" where
  "last_written (CGet t k) f = f"
| "last_written (CSet t k v ttl) f = f(k \<mapsto> v)"
| "last_written (CDelete k) f = f(k := None)"

fun cache_step ::
  "('t \<Rightarrow> string \<Rightarrow> 'c \<Rightarrow> json option \<times> 'c) \<Rightarrow> ('t \<Rightarrow> string \<Rightarrow> json \<Rightarrow> nat option \<Rightarrow> 'c \<Rightarrow> (json \<times> 'c) option) \<Rightarrow>
   (string \<Rightarrow> 'c \<Rightarrow> bool \<times> 'c) \<Rightarrow> 't cache_op \<Rightarrow> 'c \<Rightarrow> 'c option" where
  "cache_step get put del (CGet t k) c = Some (snd (get t k c))"
| "cache_step get put del (CSet t k v ttl) c = map_option snd (put t k v ttl c)"
| "cache_step get put del (CDelete k) c = Some (snd (del k c))"

fun run_all :: "('e \<Rightarrow> 'c \<Rightarrow> 'c option) \<Rightarrow> 'e list \<Rightarrow> 'c \<Rightarrow> 'c option" where
  "run_all f [] c = Some c"
| "run_all f (e # es) c = Option.bind (f e c) (run_all f es)"

locale value_cache =
  fixes get :: "'t \<Rightarrow> string \<Rightarrow> 'c \<Rightarrow> json option \<times> 'c"
    and put :: "'t \<Rightarrow> string \<Rightarrow> json \<Rightarrow> nat option \<Rightarrow> 'c \<Rightarrow> (json \<times> 'c) option"
    and del :: "string \<Rightarrow> 'c \<Rightarrow> bool \<times> 'c"
    and stored :: "'c \<Rightarrow> string \<Rightarrow> json option"
    and wf :: "'c \<Rightarrow> bool"
  assumes get_hit: "wf c \<Longrightarrow> fst (get t k c) = Some v \<Longrightarrow> stored c k = Some v"
    and get_sub: "wf c \<Longrightarrow> stored (snd (get t k c)) \<subseteq>\<^sub>m stored c"
    and get_wf: "wf c \<Longrightarrow> wf (snd (get t k c))"
    and put_returns: "wf c \<Longrightarrow> \<exists>c'. put t k v ttl c = Some (v, c')"
    and put_stored: "wf c \<Longrightarrow> put t k v ttl c = Some (w, c') \<Longrightarrow> stored c' k = Some v \<and> stored c' \<subseteq>\<^sub>m (stored c)(k \<mapsto> v)"
    and put_wf: "wf c \<Longrightarrow> put t k v ttl c = Some (w, c') \<Longrightarrow> wf c'"
    and del_stored: "wf c \<Longrightarrow> stored (snd (del k c)) = (stored c)(k := None)"
    and del_wf: "wf c \<Longrightarrow> wf (snd (del k c))"
begin

lemma step_ok:
  assumes "wf c" "stored c \<subseteq>\<^sub>m f"
  shows "\<exists>c'. cache_step get put del e c = Some c' \<and> wf c' \<and> stored c' \<subseteq>\<^sub>m last_written e f"
proof (cases e)
  case (CGet t k)
  then show ?thesis
    using map_le_trans [OF get_sub [OF assms(1)] assms(2)] get_wf [OF assms(1)] by simp
next
  case (CSet t k v ttl)
  obtain c' where c': "put t k v ttl c = Some (v, c')"
    using put_returns [OF assms(1)] by blast
  have "(stored c)(k \<mapsto> v) \<subseteq>\<^sub>m f(k \<mapsto> v)"
    using assms(2) by (rule map_le_upd)
  with put_stored [OF assms(1) c'] have "stored c' \<subseteq>\<^sub>m f(k \<mapsto> v)"
    by (metis map_le_trans)
  then show ?thesis
    using CSet c' put_wf [OF assms(1) c'] by simp
next
  case (CDelete k)
  have "(stored c)(k := None) \<subseteq>\<^sub>m f(k := None)"
    using assms(2) by (auto simp: map_le_def)
  then show ?thesis
    using CDelete del_wf [OF assms(1)] by (simp add: del_stored [OF assms(1)])
qed

lemma run_ok:
  "wf c \<Longrightarrow> stored c \<subseteq>\<^sub>m f \<Longrightarrow> \<exists>c'. run_all (cache_step get put del) es c = Some c' \<and> wf c' \<and> stored c' \<subseteq>\<^sub>m fold last_written es f"
proof (induction es arbitrary: c f)
  case (Cons e es)
  obtain c1 where c1: "cache_step get put del e c = Some c1" "wf c1" "stored c1 \<subseteq>\<^sub>m last_written e f"
    using step_ok [OF Cons.prems] by blast
  then show ?case
    using Cons.IH [OF c1(2,3)] by simp
qed simp

text \<open>Every operation returns, and a hit is the value written last.\<close>

lemma hits_are_last_written:
  assumes "wf c" "stored c = Map.empty"
  shows "\<exists>c'. run_all (cache_step get put del) es c = Some c' \<and> wf c' \<and>
    (\<forall>t k v. fst (get t k c') = Some v \<longrightarrow> fold last_written es Map.empty k = Some v)"
proof -
  obtain c' where c': "run_all (cache_step get put del) es c = Some c'" "wf c'" "stored c' \<subseteq>\<^sub>m fold last_written es Map.empty"
    using run_ok [of c Map.empty es] assms by auto
  then show ?thesis
    using get_hit [OF c'(2)] by (fastforce simp: map_le_def dom_def)
qed

end


section \<open>Both caches satisfy it\<close>

lemma stored_get: "stored_value (snd (lru_get now now' k c)) \<subseteq>\<^sub>m stored_value c"
  by (auto simp: stored_value_def lru_get_def get_entry_def map_le_def im.get_del im.get_ins split: option.split if_splits)

lemma lru_hit: "fst (lru_get now now' k c) = Some v \<Longrightarrow> stored_value c k = Some v"
  by (auto simp: stored_value_def lru_get_def get_entry_def split: option.splits if_splits)

lemma stored_delete: "stored_value (snd (lru_delete k c)) = (stored_value c)(k := None)"
  by (auto simp: stored_value_def lru_delete_def im.get_del fun_eq_iff split: option.split)

lemma stored_set:
  assumes "lru_wf c"
  shows "\<exists>c'. lru_set now k v ttl c = Some (v, c') \<and> lru_wf c' \<and> stored_value c' k = Some v \<and>
    stored_value c' \<subseteq>\<^sub>m (stored_value c)(k \<mapsto> v)"
proof -
  obtain c1 n where c1: "evict_loop k c = Some c1" "lru_wf c1"
    "\<forall>x. map_of (lru_entries c1) x = (if x \<in> set (take n (access_order c)) then None else map_of (lru_entries c) x)"
    using evict_loop_returns [OF assms, of k] by blast
  let ?c = "insert_entry now k v ttl c1"
  have "stored_value ?c x = (if x = k then Some v else stored_value c1 x)" for x
    by (simp add: stored_value_def insert_entry_def im.get_ins)
  moreover have "stored_value c1 \<subseteq>\<^sub>m stored_value c"
    using c1(3) by (auto simp: stored_value_def map_le_def)
  ultimately have "stored_value ?c k = Some v" "stored_value ?c \<subseteq>\<^sub>m (stored_value c)(k \<mapsto> v)"
    by (auto simp: map_le_def dom_def)
  then show ?thesis
    using c1(1) lru_wf_insert [OF c1(2)] by (simp add: lru_set_def)
qed

abbreviation lru_getter :: "nat \<times> nat \<Rightarrow> string \<Rightarrow> lru_cache \<Rightarrow> json option \<times> lru_cache" where
  "lru_getter t k c \<equiv> lru_get (fst t) (snd t) k c"

abbreviation lru_setter :: "nat \<times> nat \<Rightarrow> string \<Rightarrow> json \<Rightarrow> nat option \<Rightarrow> lru_cache \<Rightarrow> (json \<times> lru_cache) option" where
  "lru_setter t k v ttl c \<equiv> lru_set (snd t) k v ttl c"

interpretation lru: value_cache lru_getter lru_setter lru_delete stored_value lru_wf
proof unfold_locales
  fix c :: lru_cache and t :: "nat \<times> nat" and k v ttl w c'
  assume wf: "lru_wf c"
  show "fst (lru_getter t k c) = Some v \<Longrightarrow> stored_value c k = Some v"
    by (rule lru_hit)
  show "stored_value (snd (lru_getter t k c)) \<subseteq>\<^sub>m stored_value c"
    by (rule stored_get)
  show "lru_wf (snd (lru_getter t k c))" "lru_wf (snd (lru_delete k c))"
    using wf by (rule lru_wf_get lru_wf_delete)+
  show "stored_value (snd (lru_delete k c)) = (stored_value c)(k := None)"
    by (rule stored_delete)
  show "\<exists>c'. lru_setter t k v ttl c = Some (v, c')"
    using stored_set [OF wf] by blast
  show "lru_setter t k v ttl c = Some (w, c') \<Longrightarrow> stored_value c' k = Some v \<and> stored_value c' \<subseteq>\<^sub>m (stored_value c)(k \<mapsto> v)"
    "lru_setter t k v ttl c = Some (w, c') \<Longrightarrow> lru_wf c'"
    using stored_set [OF wf, of "snd t" k v ttl] by auto
qed

lemma ttl_get_sub: "ttl_value (snd (ttl_get now now' k c)) \<subseteq>\<^sub>m ttl_value c"
  by (auto simp: ttl_value_def ttl_get_def map_le_def im.get_del im.get_ins split: option.split if_splits)

lemma ttl_hit: "fst (ttl_get now now' k c) = Some v \<Longrightarrow> ttl_value c k = Some v"
  by (auto simp: ttl_value_def ttl_get_def split: option.splits if_splits)

lemma ttl_set_stored:
  "ttl_value (snd (ttl_set clock now k v ttl c)) k = Some v \<and>
   ttl_value (snd (ttl_set clock now k v ttl c)) \<subseteq>\<^sub>m (ttl_value c)(k \<mapsto> v)"
  using make_room_sub [of clock k c]
  by (fastforce simp: ttl_value_def ttl_set_def Let_def im.get_ins map_le_def dom_def)

text \<open>The readings of a TTL operation: those of the scan, and the two of the operation itself.\<close>

type_synonym ttl_times = "(string \<Rightarrow> nat) \<times> nat \<times> nat"

abbreviation ttl_getter :: "ttl_times \<Rightarrow> string \<Rightarrow> ttl_cache \<Rightarrow> json option \<times> ttl_cache" where
  "ttl_getter t k c \<equiv> ttl_get (fst (snd t)) (snd (snd t)) k c"

abbreviation ttl_setter :: "ttl_times \<Rightarrow> string \<Rightarrow> json \<Rightarrow> nat option \<Rightarrow> ttl_cache \<Rightarrow> (json \<times> ttl_cache) option" where
  "ttl_setter t k v ttl c \<equiv> Some (ttl_set (fst t) (snd (snd t)) k v ttl c)"

interpretation ttl: value_cache ttl_getter ttl_setter ttl_delete ttl_value ttl_wf
proof unfold_locales
  fix c :: ttl_cache and t :: ttl_times and k v ttl w c'
  assume wf: "ttl_wf c"
  show "fst (ttl_getter t k c) = Some v \<Longrightarrow> ttl_value c k = Some v"
    by (rule ttl_hit)
  show "ttl_value (snd (ttl_getter t k c)) \<subseteq>\<^sub>m ttl_value c"
    by (rule ttl_get_sub)
  show "ttl_wf (snd (ttl_getter t k c))" "ttl_wf (snd (ttl_delete k c))"
    using wf by (rule ttl_wf_get ttl_wf_delete)+
  show "ttl_value (snd (ttl_delete k c)) = (ttl_value c)(k := None)"
    by (auto simp: ttl_value_def ttl_delete_def im.get_del fun_eq_iff)
  show "\<exists>c'. ttl_setter t k v ttl c = Some (v, c')"
    by (simp add: ttl_set_def Let_def)
  show "ttl_setter t k v ttl c = Some (w, c') \<Longrightarrow> ttl_value c' k = Some v \<and> ttl_value c' \<subseteq>\<^sub>m (ttl_value c)(k \<mapsto> v)"
    using ttl_set_stored [of "fst t" "snd (snd t)" k v ttl c] by auto
  show "ttl_setter t k v ttl c = Some (w, c') \<Longrightarrow> ttl_wf c'"
    using ttl_wf_set [OF wf, of "fst t" "snd (snd t)" k v ttl] by auto
qed

abbreviation lru_run :: "(nat \<times> nat) cache_op list \<Rightarrow> lru_cache \<Rightarrow> lru_cache option" where
  "lru_run \<equiv> run_all (cache_step lru_getter lru_setter lru_delete)"

abbreviation ttl_run :: "ttl_times cache_op list \<Rightarrow> ttl_cache \<Rightarrow> ttl_cache option" where
  "ttl_run \<equiv> run_all (cache_step ttl_getter ttl_setter ttl_delete)"

text \<open>An invariant of every step holds after a run.\<close>

lemma run_all_inv:
  assumes "\<And>c e c'. I c \<Longrightarrow> f e c = Some c' \<Longrightarrow> I c'"
  shows "I c \<Longrightarrow> run_all f es c = Some c' \<Longrightarrow> I c'"
proof (induction es arbitrary: c)
  case (Cons e es)
  then show ?case
    using assms by (auto split: Option.bind_splits)
qed simp

section \<open>Sizes\<close>

definition lru_bounded :: "lru_cache \<Rightarrow> bool" where
  "lru_bounded c \<longleftrightarrow> lru_wf c \<and> length (lru_entries c) \<le> max 1 (max_entries c)"

lemma length_insert: "length (im_insert k v m) = (if map_of m k = None then Suc (length m) else length m)"
  by (induction m) auto

lemma length_remove_le: "length (im_remove k m) \<le> length m"
  by (induction m) auto

lemma lru_bounded_step:
  assumes "lru_bounded c" "cache_step lru_getter lru_setter lru_delete e c = Some c'"
  shows "lru_bounded c' \<and> max_entries c' = max_entries c"
proof (cases e)
  case (CGet t k)
  have "length (lru_entries (snd (lru_get (fst t) (snd t) k c))) \<le> length (lru_entries c)"
    using length_remove_le [of k "lru_entries c"]
    by (auto simp: lru_get_def get_entry_def length_insert split: option.split)
  moreover have "max_entries (snd (lru_get (fst t) (snd t) k c)) = max_entries c"
    by (auto simp: lru_get_def get_entry_def split: option.split)
  ultimately show ?thesis
    using assms CGet lru_wf_get [of c "fst t" "snd t" k] by (auto simp: lru_bounded_def)
next
  case (CSet t k v ttl)
  obtain c1 where c1: "evict_loop k c = Some c1" "lru_wf c1" "has_room k c1 \<or> lru_entries c1 = []"
    "max_entries c1 = max_entries c"
    using evict_loop_returns [of c k] assms(1) by (auto simp: lru_bounded_def)
  obtain n where n: "\<forall>x. map_of (lru_entries c1) x = (if x \<in> set (take n (access_order c)) then None else map_of (lru_entries c) x)"
    using evict_loop_returns [of c k] assms(1) c1(1) by (auto simp: lru_bounded_def)
  have "set (im_keys (lru_entries c1)) \<subseteq> set (im_keys (lru_entries c))"
    using n by (metis key_iff subsetI)
  then have "card (set (im_keys (lru_entries c1))) \<le> card (set (im_keys (lru_entries c)))"
    by (intro card_mono) simp_all
  then have "length (lru_entries c1) \<le> length (lru_entries c)"
    using assms(1) c1(2) distinct_card [of "im_keys (lru_entries c1)"] distinct_card [of "im_keys (lru_entries c)"]
    unfolding lru_bounded_def lru_wf_def im_wf_def by (simp only: length_map)
  then have "length (lru_entries (insert_entry (snd t) k v ttl c1)) \<le> max 1 (max_entries c)"
    using c1(3,4) assms(1) by (auto simp: insert_entry_def length_insert has_room_def lru_bounded_def)
  moreover have "c' = insert_entry (snd t) k v ttl c1"
    using assms(2) CSet c1(1) by (simp add: lru_set_def)
  ultimately show ?thesis
    using c1(4) lru_wf_insert [OF c1(2), of "snd t" k v ttl]
    by (simp add: lru_bounded_def) (simp add: insert_entry_def)
next
  case (CDelete k)
  then show ?thesis
    using assms length_remove_le [of k "lru_entries c"] lru_wf_delete [of c k]
    by (auto simp: lru_bounded_def lru_delete_def split: option.splits)
qed

lemma lru_bounded_new [simp]: "lru_bounded (new_lru m ttl)" "max_entries (new_lru m ttl) = unwrap_or 1000 m"
  by (simp_all add: lru_bounded_def) (simp_all add: new_lru_def)

definition ttl_bounded :: "ttl_cache \<Rightarrow> bool" where
  "ttl_bounded c \<longleftrightarrow> ttl_wf c \<and> length (ttl_entries c) \<le> max 1 (ttl_max_entries c)"

lemma ttl_bounded_new [simp]: "ttl_bounded (new_ttl ttl m)" "ttl_max_entries (new_ttl ttl m) = unwrap_or 5000 m"
  by (simp_all add: ttl_bounded_def new_ttl_def ttl_wf_def)

lemma ttl_bounded_step:
  assumes "ttl_bounded c" "cache_step ttl_getter ttl_setter ttl_delete e c = Some c'"
  shows "ttl_bounded c' \<and> ttl_max_entries c' = ttl_max_entries c"
proof (cases e)
  case (CGet t k)
  have "length (ttl_entries (snd (ttl_get (fst (snd t)) (snd (snd t)) k c))) \<le> length (ttl_entries c)"
    using length_remove_le [of k "ttl_entries c"] by (auto simp: ttl_get_def length_insert split: option.split)
  moreover have "ttl_max_entries (snd (ttl_get (fst (snd t)) (snd (snd t)) k c)) = ttl_max_entries c"
    by (auto simp: ttl_get_def split: option.split)
  ultimately show ?thesis
    using assms CGet ttl_wf_get [of c "fst (snd t)" "snd (snd t)" k] by (auto simp: ttl_bounded_def)
next
  case (CSet t k v ttl)
  let ?c1 = "make_room (fst t) k c"
  have c': "c' = snd (ttl_set (fst t) (snd (snd t)) k v ttl c)"
    using assms(2) CSet by simp
  have "length (ttl_entries c') \<le> max 1 (ttl_max_entries c)"
  proof (cases "map_of (ttl_entries c) k")
    case None
    then have "map_of (ttl_entries ?c1) k = None"
      using make_room_sub [of "fst t" k c] by (auto simp: map_le_def dom_def)
    then show ?thesis
      using make_room_length [of c k "fst t"] assms(1) None
      by (simp add: c' ttl_set_def Let_def ttl_bounded_def length_insert)
  next
    case (Some e)
    then have "?c1 = c"
      by (simp add: make_room_def)
    then show ?thesis
      using assms(1) Some by (simp add: c' ttl_set_def Let_def ttl_bounded_def length_insert)
  qed
  moreover have "ttl_max_entries c' = ttl_max_entries c"
    by (simp add: c' ttl_set_def Let_def)
  ultimately show ?thesis
    using assms(1) ttl_wf_set [of c "fst t" "snd (snd t)" k v ttl] by (simp add: ttl_bounded_def c')
next
  case (CDelete k)
  then show ?thesis
    using assms length_remove_le [of k "ttl_entries c"] ttl_wf_delete [of c k]
    by (auto simp: ttl_bounded_def ttl_delete_def ttl_wf_def im_wf_remove)
qed


section \<open>Properties\<close>

text \<open>
  In a new LRU cache and in a new TTL cache, after any sequence of gets, sets and deletes, every
  operation has returned, and a hit returns the value of the last set of its key, with no delete of the key
  since.\<close>
theorem cache_hits_last_written:
  "(\<exists>c. lru_run es (new_lru m ttl) = Some c \<and>
      (\<forall>now now' k v. fst (lru_get now now' k c) = Some v \<longrightarrow> fold last_written es Map.empty k = Some v)) \<and>
   (\<exists>c. ttl_run es' (new_ttl ttl m) = Some c \<and>
      (\<forall>now now' k v. fst (ttl_get now now' k c) = Some v \<longrightarrow> fold last_written es' Map.empty k = Some v))"
proof
  have e: "stored_value (new_lru m ttl) = Map.empty" "ttl_value (new_ttl ttl m) = Map.empty" "ttl_wf (new_ttl ttl m)"
    by (auto simp: stored_value_def new_lru_def ttl_value_def new_ttl_def ttl_wf_def)
  show "\<exists>c. lru_run es (new_lru m ttl) = Some c \<and>
      (\<forall>now now' k v. fst (lru_get now now' k c) = Some v \<longrightarrow> fold last_written es Map.empty k = Some v)"
    using lru.hits_are_last_written [OF lru_wf_new e(1), of es] by auto
  show "\<exists>c. ttl_run es' (new_ttl ttl m) = Some c \<and>
      (\<forall>now now' k v. fst (ttl_get now now' k c) = Some v \<longrightarrow> fold last_written es' Map.empty k = Some v)"
    using ttl.hits_are_last_written [OF e(3,2), of es'] by auto
qed

lemma cache_hits_last_written_witness:
  "fst (lru_get 6 6 ''k'' (the (lru_run [CSet (1, 1) ''k'' JNull None, CSet (2, 2) ''k'' (JBool True) None] (new_lru None None))))
     = Some (JBool True) \<and>
   fold last_written [CSet (1, 1) ''k'' JNull None, CSet (2, 2) ''k'' (JBool True) None] Map.empty ''k'' = Some (JBool True)"
proof -
  let ?es = "[CSet (1, 1) ''k'' JNull None, CSet (2, 2) ''k'' (JBool True) None] :: (nat \<times> nat) cache_op list"
  have h: "fst (lru_get 6 6 ''k'' (the (lru_run ?es (new_lru None None)))) = Some (JBool True)"
    by (simp add: lru_set_def evict_loop.simps has_room_def new_lru_def insert_entry_def bump_lru_def lru_get_def
        get_entry_def entry_expired_def or_else_def)
  then show ?thesis
    using cache_hits_last_written [of ?es None None "[]"] by auto
qed

text \<open>
  Neither cache ever holds more entries than its maximum, a maximum of zero counting as one.\<close>

theorem cache_size_bounded:
  "(lru_run es (new_lru m ttl) = Some c \<longrightarrow> length (lru_entries c) \<le> max 1 (unwrap_or 1000 m)) \<and>
   (ttl_run es' (new_ttl ttl m) = Some d \<longrightarrow> length (ttl_entries d) \<le> max 1 (unwrap_or 5000 m))"
proof (intro conjI impI)
  assume "lru_run es (new_lru m ttl) = Some c"
  then have "lru_bounded c \<and> max_entries c = unwrap_or 1000 m"
    by (rule run_all_inv [rotated 2, where I = "\<lambda>c. lru_bounded c \<and> max_entries c = unwrap_or 1000 m"])
      (auto dest: lru_bounded_step)
  then show "length (lru_entries c) \<le> max 1 (unwrap_or 1000 m)"
    by (auto simp: lru_bounded_def)
next
  assume "ttl_run es' (new_ttl ttl m) = Some d"
  then have "ttl_bounded d \<and> ttl_max_entries d = unwrap_or 5000 m"
    by (rule run_all_inv [rotated 2, where I = "\<lambda>c. ttl_bounded c \<and> ttl_max_entries c = unwrap_or 5000 m"])
      (auto dest: ttl_bounded_step)
  then show "length (ttl_entries d) \<le> max 1 (unwrap_or 5000 m)"
    by (auto simp: ttl_bounded_def)
qed

lemma cache_size_bounded_witness:
  "length (ttl_entries (snd (ttl_set (\<lambda>_. 0) 0 ''b'' JNull None
     (snd (ttl_set (\<lambda>_. 0) 0 ''a'' JNull None (new_ttl None (Some 0))))))) \<le> max 1 0"
  using cache_size_bounded [of "[]" "Some 0" None "new_lru (Some 0) None"
      "[CSet (\<lambda>_. 0, 0, 0) ''a'' JNull None, CSet (\<lambda>_. 0, 0, 0) ''b'' JNull None]"] by simp


text \<open>The keys in the order of their last operation that reads or writes them.\<close>

fun recency :: "'t cache_op \<Rightarrow> string list \<Rightarrow> string list" where
  "recency (CGet t k) xs = touch k xs"
| "recency (CSet t k v ttl) xs = touch k xs"
| "recency (CDelete k) xs = xs"

definition in_order :: "string list \<Rightarrow> lru_cache \<Rightarrow> bool" where
  "in_order xs c \<longleftrightarrow> lru_wf c \<and> access_order c = filter (\<lambda>k. map_of (lru_entries c) k \<noteq> None) xs \<and> distinct xs"

lemma drop_as_filter: "distinct xs \<Longrightarrow> drop n xs = filter (\<lambda>x. x \<notin> set (take n xs)) xs"
proof (induction xs arbitrary: n)
  case (Cons x xs)
  show ?case
  proof (cases n)
    case (Suc i)
    then show ?thesis
      using Cons by (auto intro!: filter_cong)
  qed simp
qed simp

lemma in_order_evicted:
  assumes "in_order xs c"
  shows "\<exists>c'. evict_loop k c = Some c' \<and> in_order xs c'"
proof -
  let ?P = "\<lambda>c k. map_of (lru_entries c) k \<noteq> None"
  obtain c' n where c': "evict_loop k c = Some c'" "lru_wf c'" "access_order c' = drop n (access_order c)"
    "\<forall>x. map_of (lru_entries c') x = (if x \<in> set (take n (access_order c)) then None else map_of (lru_entries c) x)"
    using evict_loop_returns [of c k] assms by (auto simp: in_order_def)
  have "distinct (access_order c)"
    using assms by (simp add: in_order_def lru_wf_def)
  then have "access_order c' = filter (\<lambda>x. x \<notin> set (take n (access_order c))) (filter (?P c) xs)"
    using c'(3) assms drop_as_filter by (metis in_order_def)
  also have "\<dots> = filter (?P c') xs"
    using c'(4) by (auto intro!: filter_cong)
  finally show ?thesis
    using assms c' by (auto simp: in_order_def)
qed

lemma filter_touch:
  "filter P (touch k xs) = (if P k then touch k (filter P xs) else filter P (forget k xs))"
  by (auto simp: touch_def forget_def intro!: filter_cong)

lemma in_order_insert: "in_order xs c \<Longrightarrow> in_order (touch k xs) (insert_entry now k v ttl c)"
  using lru_wf_insert [of c now k v ttl]
  by (auto simp: in_order_def touch_props filter_touch)
    (auto simp: insert_entry_def touch_def im.get_ins intro!: filter_cong)

lemma in_order_delete: "in_order xs c \<Longrightarrow> in_order xs (snd (lru_delete k c))"
  using lru_wf_delete [of c k]
  by (auto simp: in_order_def) (auto simp: lru_delete_def forget_def im.get_del intro!: filter_cong split: option.split)

lemma in_order_get: "in_order xs c \<Longrightarrow> in_order (touch k xs) (snd (lru_get now now' k c))"
  using lru_wf_get [of c now now' k]
  by (auto simp: in_order_def touch_props filter_touch)
    (auto simp: lru_get_def get_entry_def touch_def forget_def im.get_ins im.get_del intro!: filter_cong
      split: option.splits if_splits)

lemma in_order_step:
  "in_order xs c \<Longrightarrow> cache_step lru_getter lru_setter lru_delete e c = Some c' \<Longrightarrow> in_order (recency e xs) c'"
  using in_order_evicted [of xs c "case e of CSet t k v ttl \<Rightarrow> k | _ \<Rightarrow> []"]
  by (cases e) (auto simp: in_order_get in_order_delete lru_set_def in_order_insert)

lemma in_order_run: "in_order xs c \<Longrightarrow> lru_run es c = Some c' \<Longrightarrow> in_order (fold recency es xs) c'"
proof (induction es arbitrary: xs c)
  case (Cons e es)
  then show ?case
    using in_order_step [OF Cons.prems(1)] Cons.IH by (auto split: Option.bind_splits)
qed simp

text \<open>
  After any sequence of operations the access order of a new LRU cache lists its keys from the least to
  the most recently used; a set of a new key into a full cache removes the entry of the first of them and no
  other.\<close>

theorem lru_evicts_least_recent:
  assumes "lru_run es (new_lru m ttl) = Some c"
  shows "access_order c = filter (\<lambda>k. map_of (lru_entries c) k \<noteq> None) (fold recency es [])"
    "map_of (lru_entries c) k = None \<Longrightarrow> max_entries c = length (lru_entries c) \<Longrightarrow> lru_entries c \<noteq> [] \<Longrightarrow>
     \<exists>c'. lru_set now k v t c = Some (v, c') \<and> access_order c' = tl (access_order c) @ [k] \<and>
       (\<forall>x. x \<noteq> k \<longrightarrow> map_of (lru_entries c') x =
          (if x = hd (access_order c) then None else map_of (lru_entries c) x))"
proof -
  have "in_order [] (new_lru m ttl)"
    by (simp add: in_order_def) (simp add: new_lru_def)
  then have c: "in_order (fold recency es []) c"
    using assms by (rule in_order_run)
  then show "access_order c = filter (\<lambda>k. map_of (lru_entries c) k \<noteq> None) (fold recency es [])"
    by (simp add: in_order_def)
  assume k: "map_of (lru_entries c) k = None" "max_entries c = length (lru_entries c)" "lru_entries c \<noteq> []"
  have wf: "lru_wf c"
    using c by (simp add: in_order_def)
  then obtain old rest where order: "access_order c = old # rest"
    using k(3) by (cases "access_order c") (auto simp: lru_wf_def)
  let ?c = "evict_one old c"
  have len: "Suc (length (lru_entries ?c)) = length (lru_entries c)" "access_order ?c = rest"
    using delete_present [OF wf order] by (simp_all add: evict_one_def)
  have entries: "map_of (lru_entries ?c) x = (if x = old then None else map_of (lru_entries c) x)" for x
    by (auto simp: evict_one_def lru_delete_def im.get_del split: option.split)
  have "max_entries ?c = max_entries c"
    by (simp add: evict_one_def lru_delete_def split: option.split)
  then have "evict_loop k c = Some ?c"
    using k order len(1) by (simp add: evict_loop.simps has_room_def select_for_eviction_def)
  moreover have "k \<notin> set rest"
    using wf order k(1) key_iff [of "lru_entries c" k] by (auto simp: lru_wf_def)
  then have "access_order (insert_entry now k v t ?c) = rest @ [k]"
    using len(2) by (auto simp: insert_entry_def touch_def intro!: filter_True)
  ultimately show "\<exists>c'. lru_set now k v t c = Some (v, c') \<and> access_order c' = tl (access_order c) @ [k] \<and>
       (\<forall>x. x \<noteq> k \<longrightarrow> map_of (lru_entries c') x =
          (if x = hd (access_order c) then None else map_of (lru_entries c) x))"
    using order entries by (auto simp: lru_set_def) (auto simp: insert_entry_def im.get_ins)
qed

lemma lru_evicts_least_recent_witness:
  "\<exists>c c'. lru_run [CSet (1, 1) ''a'' JNull None, CSet (2, 2) ''b'' JNull None, CGet (3, 3) ''a''] (new_lru (Some 2) None) = Some c \<and>
     lru_set 4 ''d'' JNull None c = Some (JNull, c') \<and> access_order c' = [''a'', ''d'']"
proof -
  let ?es = "[CSet (1, 1) ''a'' JNull None, CSet (2, 2) ''b'' JNull None, CGet (3, 3) ''a''] :: (nat \<times> nat) cache_op list"
  obtain c where c: "lru_run ?es (new_lru (Some 2) None) = Some c" "map_of (lru_entries c) ''d'' = None"
    "max_entries c = length (lru_entries c)" "lru_entries c \<noteq> []" "access_order c = [''b'', ''a'']"
    by (simp add: lru_set_def evict_loop.simps has_room_def new_lru_def insert_entry_def bump_lru_def lru_get_def
        get_entry_def entry_expired_def or_else_def touch_def)
  show ?thesis
    using lru_evicts_least_recent(2) [OF c(1-4), of 4 JNull None] c(1,5) by auto
qed

text \<open>If the head of the access order has no entry, the deletion of the loop changes nothing and the loop does
  not return.\<close>

lemma evict_loop_stuck:
  assumes "evict_loop k c = Some c'" "access_order c = old # rest" "map_of (lru_entries c) old = None"
    "\<not> has_room k c"
  shows False
  using assms
proof (induction rule: evict_loop.raw_induct [rotated 1, consumes 1, case_names step])
  case (step f k c c')
  let ?c = "evict_one old c"
  have "access_order ?c = old # rest" "map_of (lru_entries ?c) old = None" "has_room k ?c = has_room k c"
    using step by (simp_all add: evict_one_def lru_delete_def has_room_def)
  then show ?case
    using step by (simp add: select_for_eviction_def)
qed

text \<open>
  A get and a delete of the same key by two threads can leave the key in the access order without an
  entry: if the delete runs between the two critical sections of the get.  With room for one entry, the
  second of the sets that follow then never returns.\<close>

theorem lru_get_delete_race:
  assumes "a \<noteq> k" "b \<noteq> k" "a \<noteq> b"
  shows "\<exists>c0 c1 out c2 c3 c4.
    lru_set 0 k v None (new_lru (Some 1) None) = Some (v, c0) \<and>
    get_entry 0 0 k c0 = (out, c1) \<and> lru_delete k c1 = (True, c2) \<and> get_touch k out c2 = (Some v, c3) \<and>
    lru_set 1 a w None c3 = Some (w, c4) \<and> lru_set 2 b x None c4 = None"
proof -
  define c0 where "c0 = insert_entry 0 k v None (new_lru (Some 1) None)"
  define c1 where "c1 = snd (get_entry 0 0 k c0)"
  define c2 where "c2 = snd (lru_delete k c1)"
  define c3 where "c3 = snd (get_touch k (Hit v) c2)"
  define c4 where "c4 = insert_entry 1 a w None c3"
  note defs = insert_entry_def bump_lru_def get_entry_def entry_expired_def lru_delete_def touch_def forget_def new_lru_def
  have 0: "lru_set 0 k v None (new_lru (Some 1) None) = Some (v, c0)"
    by (simp add: lru_set_def evict_loop.simps has_room_def c0_def) (simp add: new_lru_def)
  have 1: "get_entry 0 0 k c0 = (Hit v, c1)" "map_of (lru_entries c1) k \<noteq> None" "im_keys (lru_entries c1) = [k]"
    "max_entries c1 = 1" "access_order c1 = [k]"
    by (simp_all add: c0_def c1_def defs or_else_def)
  have 2: "lru_delete k c1 = (True, c2)" "lru_entries c2 = []" "max_entries c2 = 1" "access_order c2 = []"
    using 1 by (auto simp: c2_def lru_delete_def forget_def)
  have 3: "get_touch k (Hit v) c2 = (Some v, c3)" "lru_entries c3 = []" "max_entries c3 = 1" "access_order c3 = [k]"
    using 2 by (simp_all add: c3_def touch_def)
  have 4: "lru_set 1 a w None c3 = Some (w, c4)"
    using 3 by (simp add: lru_set_def evict_loop.simps has_room_def c4_def)
  have c4: "im_keys (lru_entries c4) = [a]" "max_entries c4 = 1" "access_order c4 = [k, a]"
    using 3 assms by (simp_all add: c4_def insert_entry_def touch_def)
  have gone: "map_of (lru_entries c4) k = None" "\<not> has_room b c4"
    using c4 assms key_iff [of "lru_entries c4" k] key_iff [of "lru_entries c4" b]
    by (auto simp: has_room_def dest: arg_cong [of _ _ length])
  have "evict_loop b c4 = None"
    using evict_loop_stuck [of b c4, OF _ c4(3) gone] by (cases "evict_loop b c4") auto
  then have "lru_set 2 b x None c4 = None"
    by (simp add: lru_set_def)
  then show ?thesis
    using 0 1(1) 2(1) 3(1) 4 by blast
qed

lemma lru_get_delete_race_witness:
  "\<exists>c0 c1 out c2 c3 c4.
    lru_set 0 ''k'' JNull None (new_lru (Some 1) None) = Some (JNull, c0) \<and>
    get_entry 0 0 ''k'' c0 = (out, c1) \<and> lru_delete ''k'' c1 = (True, c2) \<and> get_touch ''k'' out c2 = (Some JNull, c3) \<and>
    lru_set 1 ''a'' JNull None c3 = Some (JNull, c4) \<and> lru_set 2 ''b'' JNull None c4 = None"
  by (rule lru_get_delete_race) simp_all

text \<open>
  A set of a new key into a full TTL cache none of whose entries has expired removes the entry created
  first, whatever its remaining time to live, and no other.\<close>

theorem ttl_evicts_oldest:
  assumes "ttl_wf c" "map_of (ttl_entries c) k = None" "ttl_max_entries c \<le> length (ttl_entries c)"
    "ttl_entries c \<noteq> []" "\<And>x e. map_of (ttl_entries c) x = Some e \<Longrightarrow> \<not> is_expired (clock x) e"
  shows "\<exists>old e. map_of (ttl_entries c) old = Some e \<and>
    (\<forall>x e'. map_of (ttl_entries c) x = Some e' \<longrightarrow> te_created_at e \<le> te_created_at e') \<and>
    ttl_value (snd (ttl_set clock now k v ttl c)) = (ttl_value c)(old := None, k \<mapsto> v)"
proof -
  have m: "im_wf (ttl_entries c)"
    using assms(1) by (simp add: ttl_wf_def)
  have none: "expired_keys clock (ttl_entries c) = []"
    using expired_keys_props(3) [OF m, of "hd (expired_keys clock (ttl_entries c))" clock] assms(5) hd_in_set by blast
  obtain old where old: "oldest_key (ttl_entries c) = Some old"
    using assms(4) oldest_key_None by fastforce
  have "ttl_value (snd (ttl_set clock now k v ttl c)) = (ttl_value c)(old := None, k \<mapsto> v)"
    using assms(2,3) none old
    by (auto simp: ttl_set_def make_room_def Let_def ttl_value_def im.get_ins im.get_del fun_eq_iff)
  then show ?thesis
    using oldest_key_Some [OF old m] by blast
qed

lemma ttl_evicts_oldest_witness:
  "let c = snd (ttl_set (\<lambda>_. 1) 1 ''b'' JNull (Some 5) (snd (ttl_set (\<lambda>_. 0) 0 ''a'' JNull (Some 100) (new_ttl None (Some 2)))))
   in remaining_ttl 2 ''a'' c = Some 98 \<and> remaining_ttl 2 ''b'' c = Some 4 \<and>
      ttl_value (snd (ttl_set (\<lambda>_. 2) 2 ''k'' JNull None c)) = (ttl_value c)(''a'' := None, ''k'' \<mapsto> JNull)"
proof -
  define c where
    "c = snd (ttl_set (\<lambda>_. 1) 1 ''b'' JNull (Some 5) (snd (ttl_set (\<lambda>_. 0) 0 ''a'' JNull (Some 100) (new_ttl None (Some 2)))))"
  have c: "map fst (ttl_entries c) = [''a'', ''b'']" "map (te_created_at \<circ> snd) (ttl_entries c) = [0, 1]"
    "map (te_ttl \<circ> snd) (ttl_entries c) = [100, 5]" "ttl_max_entries c = 2"
    by (simp_all add: c_def new_ttl_def ttl_set_def make_room_def bump_ttl_def Let_def)
  then obtain ea eb where e: "ttl_entries c = [(''a'', ea), (''b'', eb)]" "te_created_at ea = 0" "te_created_at eb = 1"
    "te_ttl ea = 100" "te_ttl eb = 5"
    by (auto simp: map_eq_Cons_conv)
  have "\<exists>old e. map_of (ttl_entries c) old = Some e \<and>
    (\<forall>x e'. map_of (ttl_entries c) x = Some e' \<longrightarrow> te_created_at e \<le> te_created_at e') \<and>
    ttl_value (snd (ttl_set (\<lambda>_. 2) 2 ''k'' JNull None c)) = (ttl_value c)(old := None, ''k'' \<mapsto> JNull)"
    using e c(4) by (intro ttl_evicts_oldest) (auto simp: ttl_wf_def im_wf_def is_expired_def split: if_splits)
  then have "ttl_value (snd (ttl_set (\<lambda>_. 2) 2 ''k'' JNull None c)) = (ttl_value c)(''a'' := None, ''k'' \<mapsto> JNull)"
    using e by (fastforce split: if_splits)
  then show ?thesis
    unfolding c_def [symmetric] Let_def using e by (simp add: remaining_ttl_def entry_remaining_def)
qed

end
