(* ===== verification/Bounded_Bus.thy ===== *)
theory Bounded_Bus
  imports Complex_Main Prelude "HOL-Library.Sublist"
begin

text \<open>
  The bounded channels of the message bus (\<open>bus/bounded.rs\<close>): a dropping and a sliding buffer over a queue of
  the channel library, whose physical capacity is one more than the capacity of the strategy.  A send and a
  receive are one step each.  The sender holds a receiver of its own channel, so the channel is never
  disconnected and \<open>send\<close> has no error to map; \<open>None\<close> says that the queue is full and the send blocks.
\<close>

datatype buffer_strategy = Dropping nat | Sliding nat

fun capacity :: "buffer_strategy \<Rightarrow> nat" where
  "capacity (Dropping cap) = cap"
| "capacity (Sliding cap) = cap"

record 'm channel =
  strategy :: buffer_strategy
  queue :: "'m list"
  physical :: nat
  dropped_total :: "nat option"
  drop_hooks :: nat

text \<open>\<open>bounded_channel_full\<close>; \<open>bounded_channel\<close> has no counter.  \<open>drop_hooks\<close> counts the calls of the hook.\<close>

definition bounded_channel_full :: "buffer_strategy \<Rightarrow> nat option \<Rightarrow> 'm channel" where
  "bounded_channel_full st counter =
     \<lparr>strategy = st, queue = [], physical = capacity st + 1, dropped_total = counter, drop_hooks = 0\<rparr>"

definition bounded_channel :: "buffer_strategy \<Rightarrow> 'm channel" where
  "bounded_channel st = bounded_channel_full st None"

definition record_drop :: "'m channel \<Rightarrow> 'm channel" where
  "record_drop c = c\<lparr>dropped_total := map_option Suc (dropped_total c), drop_hooks := drop_hooks c + 1\<rparr>"

definition push :: "'m \<Rightarrow> 'm channel \<Rightarrow> 'm channel option" where
  "push m c = (if length (queue c) < physical c then Some (c\<lparr>queue := queue c @ [m]\<rparr>) else None)"

definition try_recv :: "'m channel \<Rightarrow> 'm option \<times> 'm channel" where
  "try_recv c = (case queue c of [] \<Rightarrow> (None, c) | m # ms \<Rightarrow> (Some m, c\<lparr>queue := ms\<rparr>))"

text \<open>\<open>while len >= capacity { if try_recv().is_ok() { record_drop() } else { break } }\<close>\<close>

function slide :: "'m channel \<Rightarrow> 'm channel" where
  "slide c =
     (if capacity (strategy c) \<le> length (queue c)
      then case try_recv c of (Some _, c') \<Rightarrow> slide (record_drop c') | (None, c') \<Rightarrow> c'
      else c)"
  by auto
termination
  by (relation "measure (\<lambda>c. length (queue c))") (auto simp: try_recv_def record_drop_def split: list.splits)

declare slide.simps [simp del]

definition send :: "'m \<Rightarrow> 'm channel \<Rightarrow> 'm channel option" where
  "send m c =
     (case strategy c of
        Dropping _ \<Rightarrow> if capacity (strategy c) \<le> length (queue c) then Some (record_drop c) else push m c
      | Sliding _ \<Rightarrow> push m (slide c))"

definition is_full :: "'m channel \<Rightarrow> bool" where
  "is_full c \<longleftrightarrow> capacity (strategy c) \<le> length (queue c)"


section \<open>Lemmas\<close>

lemma slide_queue:
  "slide c = (let n = Suc (length (queue c)) - capacity (strategy c); n = min n (length (queue c))
    in c\<lparr>queue := drop n (queue c), dropped_total := map_option ((+) n) (dropped_total c),
          drop_hooks := n + drop_hooks c\<rparr>)"
proof (induction "length (queue c)" arbitrary: c)
  case 0
  then show ?case
    by (subst slide.simps) (simp add: try_recv_def Let_def option.map_ident_strong)
next
  case (Suc n)
  show ?case
  proof (cases "capacity (strategy c) \<le> length (queue c)")
    case True
    obtain m ms where q: "queue c = m # ms"
      using Suc(2) by (cases "queue c") auto
    then have "slide c = slide (record_drop (c\<lparr>queue := ms\<rparr>))"
      using True by (subst slide.simps) (simp add: try_recv_def)
    then show ?thesis
      using Suc(1) [of "record_drop (c\<lparr>queue := ms\<rparr>)"] Suc(2) True q
      by (cases "dropped_total c") (auto simp: record_drop_def Let_def Suc_diff_le min_def)
  next
    case False
    then show ?thesis
      by (subst slide.simps) (simp add: Let_def option.map_ident_strong)
  qed
qed

datatype 'm channel_op = Send 'm | Receive

text \<open>A run: the channel, the messages sent and those received, in order.\<close>

fun channel_run :: "'m channel_op list \<Rightarrow> 'm channel \<times> 'm list \<times> 'm list \<Rightarrow> ('m channel \<times> 'm list \<times> 'm list) option" where
  "channel_run [] s = Some s"
| "channel_run (Send m # es) (c, sent, received) =
     Option.bind (send m c) (\<lambda>c. channel_run es (c, sent @ [m], received))"
| "channel_run (Receive # es) (c, sent, received) =
     (case try_recv c of (None, c) \<Rightarrow> channel_run es (c, sent, received)
      | (Some m, c) \<Rightarrow> channel_run es (c, sent, received @ [m]))"

text \<open>
  The state after a run: nothing is lost without being counted, what was received and what waits is in the
  order sent, and a sliding channel holds the newest messages.
\<close>

definition channel_ok :: "buffer_strategy \<Rightarrow> 'm channel \<times> 'm list \<times> 'm list \<Rightarrow> bool" where
  "channel_ok st = (\<lambda>(c, sent, received).
     strategy c = st \<and> physical c = capacity st + 1 \<and>
     length (queue c) \<le> (case st of Dropping cap \<Rightarrow> cap | Sliding cap \<Rightarrow> max 1 cap) \<and>
     length received + length (queue c) + drop_hooks c = length sent \<and>
     dropped_total c = map_option (\<lambda>_. drop_hooks c) (dropped_total c) \<and>
     subseq (received @ queue c) sent \<and>
     (case st of Sliding _ \<Rightarrow> suffix (queue c) sent | _ \<Rightarrow> True))"

lemma channel_ok_new [simp]: "n = None \<or> n = Some 0 \<Longrightarrow> channel_ok st (bounded_channel_full st n, [], [])"
  by (auto simp: channel_ok_def bounded_channel_full_def split: buffer_strategy.split)

lemma channel_ok_receive:
  assumes "channel_ok st (c, sent, received)" "try_recv c = (r, c')"
  shows "channel_ok st (c', sent, (case r of None \<Rightarrow> received | Some m \<Rightarrow> received @ [m]))"
  using assms
  by (auto simp: channel_ok_def try_recv_def dest: suffix_ConsD split: list.splits buffer_strategy.splits)

lemma channel_ok_send:
  assumes "channel_ok st (c, sent, received)"
  shows "\<exists>c'. send m c = Some c' \<and> channel_ok st (c', sent @ [m], received)"
proof (cases st)
  case (Dropping cap)
  have "subseq (received @ queue c) (sent @ [m])" "subseq (received @ queue c @ [m]) (sent @ [m])"
    using assms subseq_rev_drop_many [of "received @ queue c" sent "[m]"]
    by (simp_all add: channel_ok_def flip: append_assoc)
  then show ?thesis
    using assms Dropping
    by (cases "dropped_total c") (auto simp: channel_ok_def send_def record_drop_def push_def)
next
  case (Sliding cap)
  define n where "n = min (Suc (length (queue c)) - cap) (length (queue c))"
  have sl: "queue (slide c) = drop n (queue c)" "dropped_total (slide c) = map_option ((+) n) (dropped_total c)"
    "drop_hooks (slide c) = n + drop_hooks c" "strategy (slide c) = st" "physical (slide c) = cap + 1"
    using assms Sliding by (simp_all add: slide_queue Let_def n_def channel_ok_def)
  have "subseq (received @ drop n (queue c)) sent"
    using assms list_emb_append_mono [OF subseq_order.refl [of received] suffix_imp_subseq [OF suffix_drop [of n "queue c"]]]
      subseq_order.trans by (fastforce simp: channel_ok_def)
  then have sub: "subseq (received @ drop n (queue c) @ [m]) (sent @ [m])"
    by (simp flip: append_assoc)
  have "suffix (drop n (queue c)) sent"
    using assms Sliding suffix_order.trans [OF suffix_drop [of n "queue c"]] by (auto simp: channel_ok_def)
  then have suf: "suffix (drop n (queue c) @ [m]) (sent @ [m])"
    by (auto simp: suffix_def)
  have len: "length (queue c) - n < max 1 cap" "n \<le> length (queue c)"
    using assms Sliding by (auto simp: channel_ok_def n_def)
  then have "length (drop n (queue c)) < cap + 1"
    by auto
  then have "send m c = Some ((slide c)\<lparr>queue := drop n (queue c) @ [m]\<rparr>)"
    using assms Sliding sl by (simp add: send_def push_def channel_ok_def)
  then show ?thesis
    using assms Sliding sl sub suf len
    by (cases "dropped_total c") (auto simp: channel_ok_def)
qed

lemma channel_ok_run:
  "channel_ok st s \<Longrightarrow> \<exists>s'. channel_run es s = Some s' \<and> channel_ok st s'"
proof (induction es arbitrary: s)
  case (Cons e es)
  obtain c sent received where s: "s = (c, sent, received)"
    by (cases s)
  show ?case
  proof (cases e)
    case (Send m)
    then show ?thesis
      using channel_ok_send [of st c sent received m] Cons s by auto
  next
    case Receive
    obtain r c' where r: "try_recv c = (r, c')"
      by fastforce
    show ?thesis
      using channel_ok_receive [OF _ r] Cons s r Receive by (cases r) auto
  qed
qed simp

text \<open>
  A channel, dropping or sliding, never blocks a sender; its queue never exceeds the capacity (a
  sliding one always holds one message at least); every message is received, waiting or counted as dropped;
  messages come out in the order sent; what waits in a sliding channel are the newest messages.\<close>

theorem bounded_channel_accounted:
  "\<exists>c sent received. channel_run es (bounded_channel_full st (Some 0), [], []) = Some (c, sent, received) \<and>
     length (queue c) \<le> (case st of Dropping cap \<Rightarrow> cap | Sliding cap \<Rightarrow> max 1 cap) \<and>
     (\<exists>n. dropped_total c = Some n \<and> n = drop_hooks c \<and> length received + length (queue c) + n = length sent) \<and>
     subseq (received @ queue c) sent \<and>
     (case st of Sliding _ \<Rightarrow> suffix (queue c) sent | _ \<Rightarrow> True)"
proof -
  have ok: "channel_ok st (bounded_channel_full st (Some 0), [], [])"
    by simp
  obtain c sent received where r: "channel_run es (bounded_channel_full st (Some 0), [], []) = Some (c, sent, received)"
    "channel_ok st (c, sent, received)"
    using channel_ok_run [OF ok] by (metis prod_cases3)
  have "dropped_total (fst s') \<noteq> None" if "channel_run es s = Some s'" "dropped_total (fst s) \<noteq> None"
    for s s' :: "'a channel \<times> 'a list \<times> 'a list"
    using that
  proof (induction es s rule: channel_run.induct)
    case (2 m es c sent received)
    then show ?case
      by (force simp: send_def record_drop_def push_def slide_queue Let_def split: Option.bind_splits
          buffer_strategy.splits if_splits)
  next
    case (3 es c sent received)
    then show ?case
      by (auto simp: try_recv_def split: list.splits)
  qed simp
  from this [OF r(1)] r(2) have "dropped_total c = Some (drop_hooks c)"
    by (auto simp: bounded_channel_full_def channel_ok_def)
  then show ?thesis
    using r by (auto simp: channel_ok_def)
qed

end
