(* ===== verification/Bus_Messages.thy ===== *)
theory Bus_Messages
  imports Task_Types
begin

text \<open>
  The messages of the bus (\<open>anima-types/src/message.rs\<close>, built in \<open>bus/message.rs\<close>), the ids of the runtime
  records (\<open>agent/runtime_ids.rs\<close>) and the helpers on inbound messages and responses
  (\<open>agent/runtime_helpers.rs\<close>).  Fresh ids and the time are arguments.
\<close>

record inbound =
  in_id :: string
  in_channel :: string
  in_sender_id :: string
  in_chat_id :: "string option"
  in_content :: string
  in_session_key :: "string option"
  in_media :: "string list"
  in_metadata :: json

record make_inbound_input =
  mi_channel :: string
  mi_sender_id :: "string option"
  mi_chat_id :: "string option"
  mi_content :: string
  mi_session_key :: "string option"
  mi_media :: "string list option"
  mi_metadata :: "json option"

definition make_inbound :: "string \<Rightarrow> make_inbound_input \<Rightarrow> inbound" where
  "make_inbound fresh m =
     \<lparr>in_id = fresh, in_channel = mi_channel m, in_sender_id = unwrap_or ''unknown'' (mi_sender_id m),
      in_chat_id = mi_chat_id m, in_content = mi_content m, in_session_key = mi_session_key m,
      in_media = unwrap_or [] (mi_media m), in_metadata = unwrap_or (JObject []) (mi_metadata m)\<rparr>"

record outbound =
  out_id :: string
  out_channel :: string
  out_account_id :: string
  out_chat_id :: "string option"
  out_content :: string
  out_media :: "string list"
  out_stage :: string
  out_reply_target :: "string option"
  out_sender_id :: "string option"

record make_outbound_input =
  mo_channel :: string
  mo_account_id :: "string option"
  mo_chat_id :: "string option"
  mo_content :: string
  mo_media :: "string list option"
  mo_stage :: "string option"
  mo_reply_target :: "string option"
  mo_sender_id :: "string option"

definition make_outbound :: "string \<Rightarrow> make_outbound_input \<Rightarrow> outbound" where
  "make_outbound fresh m =
     \<lparr>out_id = fresh, out_channel = mo_channel m, out_account_id = unwrap_or ''default'' (mo_account_id m),
      out_chat_id = mo_chat_id m, out_content = mo_content m, out_media = unwrap_or [] (mo_media m),
      out_stage = unwrap_or ''final'' (mo_stage m), out_reply_target = mo_reply_target m,
      out_sender_id = mo_sender_id m\<rparr>"

datatype internal_type = InternalRequest | InternalResponse | InternalEvent

datatype internal_payload =
    PRuntimeEvent (re_event: string) (re_message_id: string) (re_channel: string) (re_chat_id: "string option")
      (re_sender_id: string) (re_payload: json)
  | PWorkerStatus string string string string string string "string option"
  | PRaw json

record internal_message =
  im_id :: string
  im_trace_id :: string
  im_source :: string
  im_target :: "string option"
  im_msg_type :: internal_type
  im_priority :: nat
  im_payload :: internal_payload
  im_metadata :: json
  im_timestamp :: nat
  im_ttl :: nat

record make_internal_input =
  mn_source :: string
  mn_target :: "string option"
  mn_msg_type :: "internal_type option"
  mn_priority :: "nat option"
  mn_payload :: internal_payload
  mn_metadata :: "json option"
  mn_ttl :: "nat option"
  mn_trace_id :: "string option"

definition make_internal :: "string \<Rightarrow> string \<Rightarrow> nat \<Rightarrow> make_internal_input \<Rightarrow> internal_message" where
  "make_internal fresh fresh_trace now m =
     \<lparr>im_id = fresh, im_trace_id = unwrap_or fresh_trace (mn_trace_id m), im_source = mn_source m,
      im_target = mn_target m, im_msg_type = unwrap_or InternalEvent (mn_msg_type m),
      im_priority = unwrap_or 5 (mn_priority m), im_payload = mn_payload m,
      im_metadata = unwrap_or (JObject []) (mn_metadata m), im_timestamp = now, im_ttl = unwrap_or 30000 (mn_ttl m)\<rparr>"

datatype control_signal = Shutdown | SigPause | SigResume | ScaleUp | ScaleDown | HealthCheck | ConfigReload

record control_message =
  cm_id :: string
  cm_signal :: control_signal
  cm_source :: string
  cm_payload :: json
  cm_timestamp :: nat

definition make_control :: "string \<Rightarrow> nat \<Rightarrow> control_signal \<Rightarrow> string \<Rightarrow> json option \<Rightarrow> control_message" where
  "make_control fresh now sig source p =
     \<lparr>cm_id = fresh, cm_signal = sig, cm_source = source, cm_payload = unwrap_or (JObject []) p, cm_timestamp = now\<rparr>"


section \<open>Ids of runtime records\<close>

datatype task_phase = PhaseMain | PhaseQuestion | PhaseToolPermission | PhaseFollowup | PhaseRequirement

definition runtime_run_id :: "string \<Rightarrow> string" where
  "runtime_run_id job = ''run_'' @ job"

definition runtime_turn_id :: "string \<Rightarrow> string \<Rightarrow> string" where
  "runtime_turn_id job source = ''turn_'' @ job @ ''_'' @ source"

fun phase_label :: "task_phase \<Rightarrow> string" where
  "phase_label PhaseMain = ''main''"
| "phase_label PhaseQuestion = ''question''"
| "phase_label PhaseToolPermission = ''tool_permission''"
| "phase_label PhaseFollowup = ''followup''"
| "phase_label PhaseRequirement = ''requirement''"

definition runtime_task_id :: "string \<Rightarrow> task_phase \<Rightarrow> string" where
  "runtime_task_id job phase = ''task_'' @ job @ ''_'' @ phase_label phase"

definition runtime_requirement_id :: "string \<Rightarrow> string" where
  "runtime_requirement_id job = ''requirement_'' @ job"

definition runtime_suspension_id :: "string \<Rightarrow> string" where
  "runtime_suspension_id question = ''suspension_'' @ question"


section \<open>Helpers\<close>

definition memory_key :: "inbound \<Rightarrow> string" where
  "memory_key m = in_channel m @ '':'' @ unwrap_or (in_id m) (in_chat_id m)"

definition truncate_preview :: "string \<Rightarrow> nat \<Rightarrow> string" where
  "truncate_preview s n = (let t = take_chars n s in if n < count_chars s then t @ utf8 [0xE2, 0x80, 0xA6] else t)"

definition infer_provider :: "json option \<Rightarrow> string option" where
  "infer_provider r = or_else (Option.bind r (json_str ''provider'')) (Some ''opencode'')"

definition infer_operation :: "json option \<Rightarrow> string option" where
  "infer_operation r =
     or_else (or_else (Option.bind r (json_str ''operation'')) (Option.bind r (json_str ''type''))) (Some ''send_prompt'')"

definition subtask_job_id :: "inbound \<Rightarrow> string option" where
  "subtask_job_id m = json_str ''subtask_id'' (in_metadata m)"

definition runtime_message_id :: "inbound \<Rightarrow> string" where
  "runtime_message_id m = unwrap_or (in_id m) (subtask_job_id m)"

text \<open>\<open>map.entry(k).or_insert(v)\<close> on a JSON object\<close>

fun json_default :: "string \<Rightarrow> json \<Rightarrow> json \<Rightarrow> json" where
  "json_default k v (JObject kvs) = JObject (if map_of kvs k = None then kvs @ [(k, v)] else kvs)"
| "json_default k v j = j"

definition merge_key :: "inbound \<Rightarrow> string \<Rightarrow> json \<Rightarrow> json" where
  "merge_key m k j = (case json_get k (in_metadata m) of None \<Rightarrow> j | Some v \<Rightarrow> json_default k v j)"

definition merge_runtime_metadata :: "inbound \<Rightarrow> json \<Rightarrow> json" where
  "merge_runtime_metadata m payload =
     (let j = (if is_object payload then payload else JObject [(''value'', payload)])
      in fold (merge_key m) [''parent_job_id'', ''subtask_id'', ''plan_id''] j)"

definition part_texts :: "string list \<Rightarrow> json list \<Rightarrow> string list" where
  "part_texts types parts = List.map_filter
     (\<lambda>p. case json_str ''type'' p of
        None \<Rightarrow> None
      | Some t \<Rightarrow> if t \<in> set types then json_str ''text'' p else None) parts"

definition reasoning_open :: string where
  "reasoning_open = utf8 [0xE3, 0x80, 0x90] @ ''Reasoning'' @ utf8 [0xE3, 0x80, 0x91] @ ''\<newline>''"

definition reasoning_close :: string where
  "reasoning_close = ''\<newline>'' @ utf8 [0xE3, 0x80, 0x90] @ ''End Reasoning'' @ utf8 [0xE3, 0x80, 0x91] @ ''\<newline>\<newline>''"

definition extract_response_text :: "(json \<Rightarrow> string) \<Rightarrow> json option \<Rightarrow> string" where
  "extract_response_text json_text response =
     (case response of
        None \<Rightarrow> []
      | Some r \<Rightarrow>
        (case Option.bind (json_get ''parts'' r) as_array of
           Some parts \<Rightarrow>
             (let reasoning = part_texts [''reasoning''] parts; txt = str_join ''\<newline>'' (part_texts [''text''] parts)
              in if reasoning = [] then txt else reasoning_open @ str_join ''\<newline>'' reasoning @ reasoning_close @ txt)
         | None \<Rightarrow>
        (case Option.bind (Option.bind (json_get ''data'' r) (json_get ''messages'')) as_array of
           Some messages \<Rightarrow>
             str_join ''\<newline>'' (concat (map (\<lambda>m.
               case Option.bind (json_get ''parts'' m) as_array of
                 None \<Rightarrow> []
               | Some parts \<Rightarrow> part_texts [''text'', ''reasoning''] parts) messages))
         | None \<Rightarrow>
        (case json_str ''text'' r of
           Some t \<Rightarrow> t
         | None \<Rightarrow>
        (case json_str ''content'' r of
           Some t \<Rightarrow> t
         | None \<Rightarrow> (case as_str r of Some t \<Rightarrow> t | None \<Rightarrow> json_text r))))))"


section \<open>Lemmas\<close>

lemma json_get_default:
  "is_object j \<Longrightarrow> json_get k' (json_default k v j) =
     (if k' = k \<and> json_get k j = None then Some v else json_get k' j)"
  by (cases j) (auto simp: map_add_def split: option.split)

lemma is_object_default [simp]: "is_object (json_default k v j) = is_object j"
  by (cases j) simp_all

lemma json_default_other [simp]: "\<not> is_object j \<Longrightarrow> json_default k v j = j"
  by (cases j) simp_all

lemma runtime_task_id_inject: "runtime_task_id job p = runtime_task_id job q \<longleftrightarrow> p = q"
  by (cases p; cases q) (simp_all add: runtime_task_id_def)

lemma runtime_run_id_inject [simp]: "runtime_run_id a = runtime_run_id b \<longleftrightarrow> a = b"
  by (simp add: runtime_run_id_def)

lemma runtime_suspension_id_inject [simp]: "runtime_suspension_id a = runtime_suspension_id b \<longleftrightarrow> a = b"
  by (simp add: runtime_suspension_id_def)

end
