(* ===== verification/Pending_Question.thy ===== *)
theory Pending_Question
  imports Bus_Messages Strings
begin

text \<open>
  Questions to the user (\<open>agent/suspension.rs\<close>, types and free functions): a question is read off the result
  of a task, classified by kind, and by the words of its prompt and options as one the agent may answer
  itself or as one the user must answer.  A fresh id and the time are arguments.
\<close>

datatype question_kind = Confirm | Choice | Input

datatype question_decision_mode = AutoAllowed | UserRequired

datatype question_risk_level = RiskLow | RiskHigh

datatype question_source_kind = UpstreamQuestion | ToolPermissionQuestion | SubtaskBlockedQuestion | PlanApproval

record pending_question =
  question_id :: string
  pq_job_id :: string
  pq_session_id :: string
  pq_kind :: question_kind
  pq_prompt :: string
  pq_options :: "string list"
  raw_question :: json
  decision_mode :: question_decision_mode
  risk_level :: question_risk_level
  requires_user_confirmation :: bool
  source_kind :: question_source_kind
  continuation_token :: "string option"
  asked_at :: nat
  answer_submitted :: bool
  answer_summary :: "string option"
  pq_resolution_source :: "string option"
  pq_inbound :: "inbound option"

record question_answer =
  qa_question_id :: string
  qa_source :: string
  qa_answer_type :: string
  qa_answer :: string

fun question_kind_str :: "question_kind \<Rightarrow> string" where
  "question_kind_str Confirm = ''confirm''"
| "question_kind_str Choice = ''choice''"
| "question_kind_str Input = ''input''"

fun question_decision_mode_str :: "question_decision_mode \<Rightarrow> string" where
  "question_decision_mode_str AutoAllowed = ''auto_allowed''"
| "question_decision_mode_str UserRequired = ''user_required''"

fun source_kind_str :: "question_source_kind \<Rightarrow> string" where
  "source_kind_str UpstreamQuestion = ''upstream_question''"
| "source_kind_str ToolPermissionQuestion = ''tool_permission''"
| "source_kind_str SubtaskBlockedQuestion = ''subtask_blocked''"
| "source_kind_str PlanApproval = ''plan_approval''"

fun question_risk_level_str :: "question_risk_level \<Rightarrow> string" where
  "question_risk_level_str RiskLow = ''low''"
| "question_risk_level_str RiskHigh = ''high''"


section \<open>Classification\<close>

definition confirmation_words :: "string list" where
  "confirmation_words =
     [''delete'', ''remove'', ''overwrite'', ''rollback'', ''force'', ''deploy'', ''production'', ''database'', ''sql'',
      ''drop table'', ''grant'', ''permission'', ''credential'', ''secret'', ''token'', ''send email'', ''send message'',
      ''post'', ''external'', ''write operation'']"

definition needs_user_confirmation :: "string \<Rightarrow> string list \<Rightarrow> bool" where
  "needs_user_confirmation prompt options =
     (let normalized = ascii_lower prompt @ '' '' @ ascii_lower (str_join '' '' options)
      in list_ex (\<lambda>w. str_contains w normalized) confirmation_words)"

definition classify_question_kind :: "json \<Rightarrow> string list \<Rightarrow> question_kind" where
  "classify_question_kind q options =
     (let k = json_str ''kind'' q in
      if k = Some ''confirm'' then Confirm
      else if k = Some ''choice'' then Choice
      else if k = Some ''input'' then Input
      else if options \<noteq> [] then Choice else Input)"

definition classify_question_decision_mode :: "string \<Rightarrow> string list \<Rightarrow> question_decision_mode" where
  "classify_question_decision_mode prompt options =
     (if needs_user_confirmation prompt options then UserRequired else AutoAllowed)"

definition classify_question_risk_level :: "string \<Rightarrow> string list \<Rightarrow> question_risk_level" where
  "classify_question_risk_level prompt options =
     (if needs_user_confirmation prompt options then RiskHigh else RiskLow)"


section \<open>Detection\<close>

definition option_text :: "json \<Rightarrow> string option" where
  "option_text v = or_else (or_else (json_str ''value'' v) (json_str ''label'' v)) (as_str v)"

definition question_prompt :: "json \<Rightarrow> string option" where
  "question_prompt q =
     Option.bind (or_else (or_else (json_get ''prompt'' q) (json_get ''message'' q)) (json_get ''text'' q)) as_str"

definition build_pending_question :: "string \<Rightarrow> nat \<Rightarrow> json \<Rightarrow> string \<Rightarrow> pending_question option" where
  "build_pending_question fresh now q session =
     (case question_prompt q of
        None \<Rightarrow> None
      | Some p \<Rightarrow>
         (let prompt = trim p;
              options = (case Option.bind (json_get ''options'' q) as_array of
                           None \<Rightarrow> [] | Some vs \<Rightarrow> List.map_filter option_text vs);
              k = classify_question_kind q options;
              mode = classify_question_decision_mode prompt options
          in Some
             \<lparr>question_id = unwrap_or fresh
                (Option.bind (or_else (json_get ''question_id'' q) (json_get ''id'' q)) as_str),
              pq_job_id = [], pq_session_id = session, pq_kind = k, pq_prompt = prompt, pq_options = options,
              raw_question = q, decision_mode = mode, risk_level = classify_question_risk_level prompt options,
              requires_user_confirmation = (mode = UserRequired \<or> k = Confirm),
              source_kind = (if json_str ''type'' q = Some ''tool_permission'' then ToolPermissionQuestion
                             else UpstreamQuestion),
              continuation_token = None, asked_at = now, answer_submitted = False, answer_summary = None,
              pq_resolution_source = None, pq_inbound = None\<rparr>))"

text \<open>Both branches of the source, with and without the type \<open>question\<close>, read the same field.\<close>

definition detect_pending_question :: "string \<Rightarrow> nat \<Rightarrow> json option \<Rightarrow> string \<Rightarrow> pending_question option" where
  "detect_pending_question fresh now result session =
     Option.bind result (\<lambda>r.
       Option.bind (json_get ''question'' r) (\<lambda>q. build_pending_question fresh now q session))"

text \<open>Whether a question is found does not depend on the fresh id, the time or the session.\<close>

definition asks_question :: "json option \<Rightarrow> bool" where
  "asks_question result =
     (case Option.bind result (json_get ''question'') of None \<Rightarrow> False | Some q \<Rightarrow> question_prompt q \<noteq> None)"

lemma detect_iff_asks: "detect_pending_question fresh now result session \<noteq> None \<longleftrightarrow> asks_question result"
  by (auto simp: detect_pending_question_def build_pending_question_def asks_question_def Let_def
      split: option.splits Option.bind_splits)

lemma needs_confirmation_iff:
  "needs_user_confirmation prompt options \<longleftrightarrow>
     (\<exists>w \<in> set confirmation_words. \<exists>u v. ascii_lower prompt @ '' '' @ ascii_lower (str_join '' '' options) = u @ w @ v)"
  by (simp add: needs_user_confirmation_def Let_def list_ex_iff str_contains_iff)

text \<open>A question is for the user exactly if it is high risk, and a confirmation always is the user's.\<close>

lemma detected_question:
  assumes "detect_pending_question fresh now result session = Some q"
  shows "risk_level q = RiskHigh \<longleftrightarrow> decision_mode q = UserRequired"
    "requires_user_confirmation q \<longleftrightarrow> decision_mode q = UserRequired \<or> pq_kind q = Confirm"
    "\<not> answer_submitted q" "pq_inbound q = None" "source_kind q \<in> {UpstreamQuestion, ToolPermissionQuestion}"
  using assms
  by (auto simp: detect_pending_question_def build_pending_question_def Let_def classify_question_risk_level_def
      classify_question_decision_mode_def split: option.splits Option.bind_splits if_splits)

end
