(* ===== verification/State_Rules.thy ===== *)
theory State_Rules
  imports Complex_Main Prelude "HOL-Library.State_Monad" "HOL-Library.Monad_Syntax"
begin

text \<open>
  Weakest preconditions for code written in the state monad of the library: \<open>wp m Q s\<close> says that \<open>m\<close>, run
  from \<open>s\<close>, ends with a result and a state that satisfy \<open>Q\<close>.  The rules \<open>wp_rules\<close> compute it along the
  code.  \<open>every m I\<close> says that \<open>m\<close> relates every state to one it may follow.
\<close>

definition wp :: "('s, 'a) state \<Rightarrow> ('a \<Rightarrow> 's \<Rightarrow> bool) \<Rightarrow> 's \<Rightarrow> bool" where
  "wp m Q s = (case run_state m s of (a, s') \<Rightarrow> Q a s')"

named_theorems wp_rules \<open>weakest preconditions, step by step\<close>

definition modify_state :: "('s \<Rightarrow> 's) \<Rightarrow> ('s, unit) state" where
  "modify_state f = State (\<lambda>s. ((), f s))"

lemma wp_return [wp_rules]: "wp (State_Monad.return a) Q s \<longleftrightarrow> Q a s"
  by (simp add: wp_def)

lemma wp_bind [wp_rules]: "wp (State_Monad.bind m f) Q s \<longleftrightarrow> wp m (\<lambda>a. wp (f a) Q) s"
  by (simp add: wp_def split: prod.split)

lemma wp_get [wp_rules]: "wp State_Monad.get Q s \<longleftrightarrow> Q s s"
  by (simp add: wp_def)

lemma wp_modify [wp_rules]: "wp (modify_state f) Q s \<longleftrightarrow> Q () (f s)"
  by (simp add: wp_def modify_state_def)

lemma wp_state [wp_rules]: "wp (State f) Q s \<longleftrightarrow> (case f s of (a, s') \<Rightarrow> Q a s')"
  by (simp add: wp_def)

lemma wp_if [wp_rules]: "wp (if b then m else n) Q s \<longleftrightarrow> (if b then wp m Q s else wp n Q s)"
  by simp

lemma wp_option [wp_rules]:
  "wp (case x of None \<Rightarrow> m | Some y \<Rightarrow> f y) Q s \<longleftrightarrow> (case x of None \<Rightarrow> wp m Q s | Some y \<Rightarrow> wp (f y) Q s)"
  by (cases x) simp_all

lemma wp_prod [wp_rules]: "wp (case x of (a, b) \<Rightarrow> f a b) Q s \<longleftrightarrow> (case x of (a, b) \<Rightarrow> wp (f a b) Q s)"
  by (cases x) simp

lemma wp_mono: "wp m P s \<Longrightarrow> (\<And>a s'. P a s' \<Longrightarrow> Q a s') \<Longrightarrow> wp m Q s"
  by (auto simp: wp_def)

lemma wp_seq: "wp m P s \<Longrightarrow> (\<And>a s'. P a s' \<Longrightarrow> wp (f a) Q s') \<Longrightarrow> wp (State_Monad.bind m f) Q s"
  by (simp add: wp_bind) (rule wp_mono)

lemma wp_conj: "wp m P s \<Longrightarrow> wp m Q s \<Longrightarrow> wp m (\<lambda>a s'. P a s' \<and> Q a s') s"
  by (auto simp: wp_def)

lemma wp_run: "wp m Q s \<longleftrightarrow> Q (fst (run_state m s)) (snd (run_state m s))"
  by (simp add: wp_def split: prod.split)

definition every :: "('s, 'a) state \<Rightarrow> ('s \<Rightarrow> 's \<Rightarrow> bool) \<Rightarrow> bool" where
  "every m R \<longleftrightarrow> (\<forall>s. wp m (\<lambda>_. R s) s)"

lemma everyD: "every m R \<Longrightarrow> wp m (\<lambda>_. R s) s"
  by (simp add: every_def)

text \<open>The loop over a list, with an accumulator.\<close>

fun fold_state :: "('a \<Rightarrow> 'b \<Rightarrow> ('s, 'b) state) \<Rightarrow> 'a list \<Rightarrow> 'b \<Rightarrow> ('s, 'b) state" where
  "fold_state f [] b = State_Monad.return b"
| "fold_state f (x # xs) b = do { b \<leftarrow> f x b; fold_state f xs b }"

fun for_each :: "('a \<Rightarrow> ('s, unit) state) \<Rightarrow> 'a list \<Rightarrow> ('s, unit) state" where
  "for_each f [] = State_Monad.return ()"
| "for_each f (x # xs) = do { f x; for_each f xs }"

fun map_state :: "('a \<Rightarrow> ('s, 'b) state) \<Rightarrow> 'a list \<Rightarrow> ('s, 'b list) state" where
  "map_state f [] = State_Monad.return []"
| "map_state f (x # xs) = do { y \<leftarrow> f x; ys \<leftarrow> map_state f xs; State_Monad.return (y # ys) }"

lemma wp_fold:
  assumes "\<And>x b s. x \<in> set xs \<Longrightarrow> I b s \<Longrightarrow> wp (f x b) I s" "I b s"
  shows "wp (fold_state f xs b) I s"
  using assms
proof (induction xs arbitrary: b s)
  case (Cons x xs)
  have "wp (f x b) I s"
    using Cons.prems by simp
  then show ?case
    using Cons.IH Cons.prems(1) by (auto simp: wp_bind intro: wp_mono)
qed (simp add: wp_return)

lemma wp_for_each:
  assumes "\<And>x s. x \<in> set xs \<Longrightarrow> I s \<Longrightarrow> wp (f x) (\<lambda>_. I) s" "I s"
  shows "wp (for_each f xs) (\<lambda>_. I) s"
  using assms
proof (induction xs arbitrary: s)
  case (Cons x xs)
  have "wp (f x) (\<lambda>_. I) s"
    using Cons.prems by simp
  then show ?case
    using Cons.IH Cons.prems(1) by (auto simp: wp_bind intro: wp_mono)
qed (simp add: wp_return)

end
