(* ===== verification/Orchestration.thy ===== *)
theory Orchestration
  imports Plan_Graph Parallel_Pool Specialist_Pool Runtime_State Provider Pending_Question State_Rules
begin

text \<open>
  The orchestrator (\<open>orchestrator/core.rs\<close>): its state, the records of plans and subtasks it keeps in the
  runtime state store, the decomposition of a request by the model (\<open>orchestrator/llm_decompose.rs\<close>) or
  into one generic subtask, and the lowering of subtasks to worker tasks.  The code is in the state monad.
  The worker pool, the clock, fresh ids and the model provider act on the world; the runtime state store is
  the abstract store of \<open>Runtime_State\<close>; the mutexes of the subtasks are the map \<open>oc_live\<close>; the closure
  \<open>publish_event\<close> is a log.  Decoding of the model's JSON (\<open>serde\<close>) is a parameter.
\<close>

section \<open>Data\<close>

record plan_progress =
  completed_count :: nat
  total_count :: nat
  failed_count :: nat

record orchestration_plan =
  op_id :: string
  op_trace_id :: string
  op_parent_job_id :: string
  op_request :: string
  matched_rule :: "string option"
  op_subtasks :: subtasks
  execution_order :: "string list"
  parallel_groups :: "string list list"
  op_progress :: plan_progress
  op_created_at :: nat

datatype lowering_primitive = ApiCall | Query | Transform

fun as_task_type :: "lowering_primitive \<Rightarrow> string" where
  "as_task_type ApiCall = ''api-call''"
| "as_task_type Query = ''query''"
| "as_task_type Transform = ''transform''"

fun primitive_result_kind :: "lowering_primitive \<Rightarrow> string" where
  "primitive_result_kind ApiCall = ''upstream''"
| "primitive_result_kind Query = ''query''"
| "primitive_result_kind Transform = ''transform''"

record lowered_task =
  lt_name :: string
  original_task_type :: string
  lowered_task_type :: string
  primitive :: lowering_primitive
  parallel_safe :: bool
  lt_task :: task

record execution_context =
  ec_request :: json
  ec_parent_job_id :: string
  ec_plan_id :: string
  ec_session_id :: string
  subtask_results :: json

definition new_execution_context :: "string \<Rightarrow> string \<Rightarrow> string \<Rightarrow> string \<Rightarrow> execution_context" where
  "new_execution_context request job plan session =
     \<lparr>ec_request = JString request, ec_parent_job_id = job, ec_plan_id = plan, ec_session_id = session,
      subtask_results = JObject []\<rparr>"

definition context_value :: "execution_context \<Rightarrow> json" where
  "context_value c = JObject
     [(''request'', ec_request c), (''parent_job_id'', JString (ec_parent_job_id c)),
      (''plan_id'', JString (ec_plan_id c)), (''session_id'', JString (ec_session_id c)),
      (''subtask_results'', subtask_results c)]"

record orchestrator_config =
  oc_timeout_ms :: nat
  max_retries :: nat
  enable_parallel :: bool

definition default_orchestrator_config :: orchestrator_config where
  "default_orchestrator_config = \<lparr>oc_timeout_ms = 60000, max_retries = 0, enable_parallel = True\<rparr>"

record orchestrator_metrics =
  plans_created :: nat
  plans_completed :: nat
  plans_failed :: nat
  subtasks_executed :: nat
  subtasks_failed :: nat
  om_duration_ms :: nat

definition zero_orchestrator_metrics :: orchestrator_metrics where
  "zero_orchestrator_metrics =
     \<lparr>plans_created = 0, plans_completed = 0, plans_failed = 0, subtasks_executed = 0, subtasks_failed = 0,
      om_duration_ms = 0\<rparr>"

record live_subtask =
  ls_result :: "task_result option"
  ls_started_at :: "nat option"
  ls_completed_at :: "nat option"

definition new_live :: live_subtask where
  "new_live = \<lparr>ls_result = None, ls_started_at = None, ls_completed_at = None\<rparr>"

record llm_subtask_spec =
  spec_name :: string
  spec_task_type :: string
  spec_specialist :: string
  spec_dependencies :: "string list"
  spec_description :: string

record infer_result =
  needs_question :: bool
  ir_prompt :: string
  ir_options :: "string list"

type_synonym 'w chat = "chat_request \<Rightarrow> 'w \<Rightarrow> (provider_error + chat_response) \<times> 'w"

record ('w, 'r) orch_env =
  oe_id :: string
  oe_pool :: "('w, 'r) pool_ops"
  oe_pools :: "nat \<Rightarrow> ('w, 'r) pool_ops"
  oe_config :: orchestrator_config
  oe_provider :: "'w chat option"
  task_decompose_prompt :: string
  context_infer_prompt :: string
  oe_json_text :: "json \<Rightarrow> string"
  parse_specs :: "string \<Rightarrow> llm_subtask_spec list option"
  parse_infer :: "string \<Rightarrow> infer_result option"

record 'w orch =
  oc_world :: 'w
  oc_store :: "nat \<times> snapshot"
  oc_live :: "(string, live_subtask) imap"
  oc_metrics :: orchestrator_metrics
  oc_running :: bool
  oc_specialists :: specialist_pool
  oc_events :: "(string \<times> json) list"

type_synonym ('w, 'a) orch_m = "('w orch, 'a) state"

definition new_orch :: "'w \<Rightarrow> nat \<times> snapshot \<Rightarrow> specialist_pool \<Rightarrow> 'w orch" where
  "new_orch w st sp = \<lparr>oc_world = w, oc_store = st, oc_live = [], oc_metrics = zero_orchestrator_metrics,
     oc_running = False, oc_specialists = sp, oc_events = []\<rparr>"


section \<open>The effects of the code\<close>

definition in_oworld :: "('w \<Rightarrow> 'a \<times> 'w) \<Rightarrow> ('w, 'a) orch_m" where
  "in_oworld f = State (\<lambda>s. (fst (f (oc_world s)), s\<lparr>oc_world := snd (f (oc_world s))\<rparr>))"

definition o_now :: "('w, 'r) orch_env \<Rightarrow> ('w, nat) orch_m" where
  "o_now E = in_oworld (pool_now (oe_pool E))"

definition o_uuid :: "('w, 'r) orch_env \<Rightarrow> ('w, string) orch_m" where
  "o_uuid E = in_oworld (fresh_uuid (oe_pool E))"

definition o_publish :: "string \<Rightarrow> json \<Rightarrow> ('w, unit) orch_m" where
  "o_publish event payload = modify_state (\<lambda>s. s\<lparr>oc_events := oc_events s @ [(event, payload)]\<rparr>)"

definition o_snapshot :: "('w, snapshot) orch_m" where
  "o_snapshot = do { s \<leftarrow> State_Monad.get; State_Monad.return (snd (oc_store s)) }"

definition o_append :: "('w, 'r) orch_env \<Rightarrow> domain_event \<Rightarrow> ('w, unit) orch_m" where
  "o_append E e = do {
     now \<leftarrow> o_now E;
     modify_state (\<lambda>s. s\<lparr>oc_store := spec_op (Append e now) (oc_store s)\<rparr>)
   }"

definition o_metric :: "(orchestrator_metrics \<Rightarrow> orchestrator_metrics) \<Rightarrow> ('w, unit) orch_m" where
  "o_metric f = modify_state (\<lambda>s. s\<lparr>oc_metrics := f (oc_metrics s)\<rparr>)"

definition live_of :: "'w orch \<Rightarrow> string \<Rightarrow> live_subtask" where
  "live_of s n = unwrap_or new_live (map_of (oc_live s) n)"

definition o_live :: "string \<Rightarrow> (live_subtask \<Rightarrow> live_subtask) \<Rightarrow> ('w, unit) orch_m" where
  "o_live n f = modify_state (\<lambda>s. s\<lparr>oc_live := im_insert n (f (live_of s n)) (oc_live s)\<rparr>)"

definition start_orchestrator :: "('w, unit) orch_m" where
  "start_orchestrator = modify_state (\<lambda>s. s\<lparr>oc_running := True\<rparr>)"

definition stop_orchestrator :: "('w, unit) orch_m" where
  "stop_orchestrator = modify_state (\<lambda>s. s\<lparr>oc_running := False\<rparr>)"


section \<open>Records of the runtime state\<close>

definition plan_record_id :: "string \<Rightarrow> string" where
  "plan_record_id p = ''task_plan_'' @ p"

definition subtask_record_id :: "string \<Rightarrow> string" where
  "subtask_record_id i = ''task_subtask_'' @ i"

definition turn_of_job :: "snapshot \<Rightarrow> string \<Rightarrow> string option" where
  "turn_of_job s job = Option.bind (map_of (runs s) (runtime_run_id job)) current_turn_id"

abbreviation jstrs :: "string list \<Rightarrow> json" where
  "jstrs xs \<equiv> JArray (map JString xs)"

definition finished_at :: "task_status \<Rightarrow> nat \<Rightarrow> task_record option \<Rightarrow> nat option" where
  "finished_at st now existing =
     (if st = Completed \<or> st = Failed then Some now else Option.bind existing completed_at)"

definition plan_record ::
  "orchestration_plan \<Rightarrow> task_status \<Rightarrow> string option \<Rightarrow> nat \<Rightarrow> task_record option \<Rightarrow> string option \<Rightarrow> task_record" where
  "plan_record p st err now existing turn =
     \<lparr>task_id = plan_record_id (op_id p), task_run_id = runtime_run_id (op_parent_job_id p), task_turn_id = turn,
      parent_task_id = None, task_trace_id = op_trace_id p, task_job_id = op_parent_job_id p,
      task_parent_job_id = None, plan_id = Some (op_id p), kind = Plan, task_name = ''orchestration_plan'',
      task_type = ''orchestration_plan'', task_record.description = op_request p, status = st,
      execution_mode = None, result_kind = Some ''orchestration_plan'', task_record.specialist_type = matched_rule p,
      task_record.dependencies = [],
      task_metadata = JObject [(''matched_rule'', opt_json JString (matched_rule p)),
        (''execution_order'', jstrs (execution_order p)), (''parallel_groups'', JArray (map jstrs (parallel_groups p)))],
      started_at = or_else (Option.bind existing started_at) (Some (op_created_at p)), updated_at = now,
      completed_at = finished_at st now existing, error = err\<rparr>"

definition upsert_plan :: "('w, 'r) orch_env \<Rightarrow> orchestration_plan \<Rightarrow> task_status \<Rightarrow> string option \<Rightarrow> ('w, unit) orch_m" where
  "upsert_plan E p st err = do {
     now \<leftarrow> o_now E;
     s \<leftarrow> o_snapshot;
     o_append E (TaskUpserted (plan_record p st err now (map_of (tasks s) (plan_record_id (op_id p)))
       (turn_of_job s (op_parent_job_id p))))
   }"

record group_position =
  gp_mode :: string
  gp_index :: nat
  gp_size :: nat

definition subtask_record ::
  "subtask \<Rightarrow> lowered_task \<Rightarrow> task_status \<Rightarrow> group_position option \<Rightarrow> string option \<Rightarrow> nat \<Rightarrow>
   task_record option \<Rightarrow> nat option \<Rightarrow> string option \<Rightarrow> task_record" where
  "subtask_record st l ts pos err now existing live_start turn =
     \<lparr>task_id = subtask_record_id (sub_id st), task_run_id = runtime_run_id (sub_parent_job_id st), task_turn_id = turn,
      parent_task_id = Some (plan_record_id (parent_id st)), task_trace_id = sub_trace_id st,
      task_job_id = sub_parent_job_id st, task_parent_job_id = Some (sub_parent_job_id st),
      plan_id = Some (parent_id st), kind = Subtask, task_name = sub_name st, task_type = original_task_type l,
      task_record.description = subtask.description st, status = ts, execution_mode = map_option gp_mode pos,
      result_kind = Some (primitive_result_kind (primitive l)),
      task_record.specialist_type = (if subtask.specialist_type st = [] then None else Some (subtask.specialist_type st)),
      task_record.dependencies = subtask.dependencies st,
      task_metadata = JObject [(''subtask_id'', JString (sub_id st)),
        (''parallel_group_index'', opt_json (\<lambda>p. jnat (gp_index p)) pos),
        (''parallel_group_size'', opt_json (\<lambda>p. jnat (gp_size p)) pos),
        (''original_task_type'', JString (original_task_type l)), (''lowered_task_type'', JString (lowered_task_type l)),
        (''parallel_safe'', JBool (parallel_safe l)), (''worker_task_id'', JString (tk_id (lt_task l)))],
      started_at = or_else (Option.bind existing started_at) live_start, updated_at = now,
      completed_at = finished_at ts now existing, error = err\<rparr>"

definition upsert_subtask ::
  "('w, 'r) orch_env \<Rightarrow> subtask \<Rightarrow> lowered_task \<Rightarrow> task_status \<Rightarrow> group_position option \<Rightarrow> string option \<Rightarrow> ('w, unit) orch_m" where
  "upsert_subtask E st l ts pos err = do {
     now \<leftarrow> o_now E;
     s \<leftarrow> State_Monad.get;
     let snap = snd (oc_store s);
     o_append E (TaskUpserted (subtask_record st l ts pos err now
       (map_of (tasks snap) (subtask_record_id (sub_id st))) (ls_started_at (live_of s (lt_name l)))
       (turn_of_job snap (sub_parent_job_id st))))
   }"

definition is_active :: "task_status \<Rightarrow> bool" where
  "is_active st \<longleftrightarrow> st = Pending \<or> st = Running \<or> st = Suspended"

definition active_subtask_ids :: "snapshot \<Rightarrow> string \<Rightarrow> string list" where
  "active_subtask_ids s p = map task_id (filter (\<lambda>t. is_active (status t)) (subtasks_for_plan s p))"

definition plan_progress_counts :: "snapshot \<Rightarrow> string \<Rightarrow> nat \<times> nat \<times> nat" where
  "plan_progress_counts s p =
     (let ts = subtasks_for_plan s p
      in (length ts, length (filter (\<lambda>t. status t = Completed) ts), length (filter (\<lambda>t. status t = Failed) ts)))"

definition plan_is_active :: "snapshot \<Rightarrow> string \<Rightarrow> bool" where
  "plan_is_active s p = (case Runtime_State.plan_task s p of None \<Rightarrow> False | Some t \<Rightarrow> is_active (status t))"

definition active_plan_count :: "snapshot \<Rightarrow> nat" where
  "active_plan_count s = length (filter (\<lambda>t. kind t = Plan \<and> is_active (status t)) (im_values (tasks s)))"

definition orchestrator_status :: "('w, 'r) orch_env \<Rightarrow> 'w orch \<Rightarrow> json" where
  "orchestrator_status E s =
     (let m = oc_metrics s; c = oe_config E
      in JObject
        [(''id'', JString (oe_id E)), (''running'', JBool (oc_running s)),
         (''active_plans'', jnat (active_plan_count (snd (oc_store s)))),
         (''config'', JObject [(''default_timeout_ms'', jnat (oc_timeout_ms c)), (''max_retries'', jnat (max_retries c)),
           (''enable_parallel'', JBool (enable_parallel c))]),
         (''metrics'', JObject [(''plans_created'', jnat (plans_created m)), (''plans_completed'', jnat (plans_completed m)),
           (''plans_failed'', jnat (plans_failed m)), (''subtasks_executed'', jnat (subtasks_executed m)),
           (''subtasks_failed'', jnat (subtasks_failed m)), (''total_duration_ms'', jnat (om_duration_ms m))])])"


section \<open>Decomposition\<close>

text \<open>The bracket count of \<open>extract_json_array\<close> and \<open>extract_json_object\<close>; brackets in strings count too.\<close>

fun close_at :: "char \<Rightarrow> char \<Rightarrow> int \<Rightarrow> string \<Rightarrow> nat option" where
  "close_at left right depth [] = None"
| "close_at left right depth (c # s) =
     (if c = left then map_option Suc (close_at left right (depth + 1) s)
      else if c = right then
        (if depth - 1 = 0 then Some 1 else map_option Suc (close_at left right (depth - 1) s))
      else map_option Suc (close_at left right depth s))"

definition extract_between :: "char \<Rightarrow> char \<Rightarrow> string \<Rightarrow> string option" where
  "extract_between left right s =
     Option.bind (find_char left s) (\<lambda>start.
       map_option (\<lambda>n. take n (drop start s)) (close_at left right 0 (drop start s)))"

definition extract_json_array :: "string \<Rightarrow> string option" where
  "extract_json_array = extract_between (CHR ''['') (CHR '']'')"

definition extract_json_object :: "string \<Rightarrow> string option" where
  "extract_json_object = extract_between (CHR ''{'') (CHR ''}'')"

definition first_text :: "chat_response \<Rightarrow> string" where
  "first_text r = (case block_texts (resp_content r) of [] \<Rightarrow> [] | t # _ \<Rightarrow> t)"

definition user_request :: "string \<Rightarrow> nat option \<Rightarrow> string \<Rightarrow> chat_request" where
  "user_request prompt limit session =
     (chat_request_from_text prompt)\<lparr>req_max_tokens := limit, req_metadata := JObject [(''session_id'', JString session)]\<rparr>"

definition try_llm_decompose :: "('w, 'r) orch_env \<Rightarrow> string \<Rightarrow> string \<Rightarrow> ('w, llm_subtask_spec list option) orch_m" where
  "try_llm_decompose E request session =
     (case oe_provider E of
        None \<Rightarrow> State_Monad.return None
      | Some chat \<Rightarrow> do {
          r \<leftarrow> in_oworld (chat (user_request (str_replace ''{request}'' request (task_decompose_prompt E)) (Some 4096) session));
          State_Monad.return (case r of
              Inl _ \<Rightarrow> None
            | Inr response \<Rightarrow>
                Option.bind (Option.bind (extract_json_array (trim (first_text response))) (parse_specs E))
                  (\<lambda>specs. if specs = [] then None else Some (take 6 specs)))
        })"

definition subtask_of_spec :: "string \<Rightarrow> string \<Rightarrow> string \<Rightarrow> string \<Rightarrow> string \<Rightarrow> llm_subtask_spec \<Rightarrow> subtask" where
  "subtask_of_spec fresh plan request trace job spec =
     \<lparr>sub_id = fresh, parent_id = plan, sub_parent_job_id = job, sub_trace_id = trace, sub_name = spec_name spec,
      sub_task_type = spec_task_type spec,
      subtask.description = (if spec_description spec = [] then spec_name spec @ '' for: '' @ request else spec_description spec),
      subtask.dependencies = remdups (spec_dependencies spec), sub_priority = 5,
      subtask.specialist_type = spec_specialist spec,
      sub_payload = JObject [(''request'', JString request), (''subtask'', JString (spec_name spec)),
        (''rule'', JString ''llm-decompose'')],
      sub_started_at = None, sub_completed_at = None\<rparr>"

definition new_plan ::
  "string \<Rightarrow> string \<Rightarrow> string \<Rightarrow> string \<Rightarrow> string option \<Rightarrow> subtasks \<Rightarrow> nat \<Rightarrow> orchestration_plan" where
  "new_plan pid request trace job rule m now =
     (let ord = topological_sort m; groups = compute_parallel_groups m ord
      in \<lparr>op_id = pid, op_trace_id = trace, op_parent_job_id = job, op_request = request, matched_rule = rule,
          op_subtasks = m, execution_order = ord, parallel_groups = groups,
          op_progress = \<lparr>completed_count = 0, total_count = length m, failed_count = 0\<rparr>, op_created_at = now\<rparr>)"

definition build_plan_from_llm_specs ::
  "('w, 'r) orch_env \<Rightarrow> llm_subtask_spec list \<Rightarrow> string \<Rightarrow> string \<Rightarrow> string \<Rightarrow> ('w, orchestration_plan) orch_m" where
  "build_plan_from_llm_specs E specs request trace job = do {
     pid \<leftarrow> o_uuid E;
     m \<leftarrow> fold_state (\<lambda>spec m. do {
         i \<leftarrow> o_uuid E;
         State_Monad.return (im_insert (spec_name spec) (subtask_of_spec i pid request trace job spec) m)
       }) specs [];
     now \<leftarrow> o_now E;
     State_Monad.return (new_plan pid request trace job (Some ''llm-decompose'') m now)
   }"

definition build_plan_from_parsed_specs ::
  "('w, 'r) orch_env \<Rightarrow> string \<Rightarrow> string \<Rightarrow> string \<Rightarrow> string \<Rightarrow> ('w, orchestration_plan option) orch_m" where
  "build_plan_from_parsed_specs E txt request trace job =
     (case parse_specs E txt of
        None \<Rightarrow> State_Monad.return None
      | Some specs \<Rightarrow>
          if specs = [] then State_Monad.return None
          else do {
            p \<leftarrow> build_plan_from_llm_specs E (take 6 specs) request trace job;
            State_Monad.return (Some p)
          })"

definition generic_subtask :: "string \<Rightarrow> string \<Rightarrow> string \<Rightarrow> string \<Rightarrow> string \<Rightarrow> subtask" where
  "generic_subtask fresh plan request trace job =
     \<lparr>sub_id = fresh, parent_id = plan, sub_parent_job_id = job, sub_trace_id = trace, sub_name = ''generic'',
      sub_task_type = ''generic'', subtask.description = ''Generic task: '' @ request, subtask.dependencies = [],
      sub_priority = 5, subtask.specialist_type = ''default'', sub_payload = JObject [(''request'', JString request)],
      sub_started_at = None, sub_completed_at = None\<rparr>"

definition decompose_task ::
  "('w, 'r) orch_env \<Rightarrow> string \<Rightarrow> string \<Rightarrow> string \<Rightarrow> string option \<Rightarrow> ('w, orchestration_plan) orch_m" where
  "decompose_task E request trace job session = do {
     specs \<leftarrow> (case session of None \<Rightarrow> State_Monad.return None | Some sid \<Rightarrow> try_llm_decompose E request sid);
     case specs of
       Some specs \<Rightarrow> build_plan_from_llm_specs E specs request trace job
     | None \<Rightarrow> do {
         pid \<leftarrow> o_uuid E;
         i \<leftarrow> o_uuid E;
         now \<leftarrow> o_now E;
         State_Monad.return (new_plan pid request trace job None [(''generic'', generic_subtask i pid request trace job)] now)
       }
   }"


section \<open>Lowering\<close>

definition determine_lowering_primitive :: "subtask \<Rightarrow> lowering_primitive" where
  "determine_lowering_primitive st =
     (if sub_task_type st = ''generic'' then Query
      else if sub_task_type st = ''reporting'' then Transform
      else ApiCall)"

definition lowering_instructions :: string where
  "lowering_instructions =
     ''You are executing exactly one orchestration subtask inside a larger plan. Focus only on this subtask and return the concrete result needed by downstream steps. '' @
     ''Do not re-decompose the whole project. Do not keep planning indefinitely. Do not create or manage todo lists unless the user explicitly asked for that exact output. '' @
     ''Do not use tools. Do not spawn subagents. Assume reasonable defaults for minor missing details when you can still produce a useful concrete result. '' @
     ''Only ask one focused question if a truly critical detail is missing and you cannot proceed without it. '' @
     ''Otherwise, produce a concise final deliverable for this subtask and stop after the result.''"

definition lowered_content :: "orchestration_plan \<Rightarrow> subtask \<Rightarrow> string" where
  "lowered_content p st =
     ''[orchestration/'' @ op_id p @ ''/'' @ sub_name st @ ''] original_task_type='' @ sub_task_type st @
     ''\<newline>parent_job_id='' @ sub_parent_job_id st @ ''\<newline>request='' @ op_request p @
     ''\<newline>subtask_description='' @ subtask.description st @ ''\<newline>\<newline>'' @ lowering_instructions"

definition subtask_ids :: "subtask \<Rightarrow> (string \<times> json) list" where
  "subtask_ids st =
     [(''parent_job_id'', JString (sub_parent_job_id st)), (''subtask_id'', JString (sub_id st)),
      (''plan_id'', JString (parent_id st)), (''subtask_name'', JString (sub_name st)),
      (''original_task_type'', JString (sub_task_type st))]"

fun lowered_payload :: "lowering_primitive \<Rightarrow> orchestration_plan \<Rightarrow> subtask \<Rightarrow> string \<Rightarrow> json" where
  "lowered_payload ApiCall p st session = JObject
     ([(''content'', JString (lowered_content p st)), (''opencode-session-id'', JString session)] @ subtask_ids st @
      [(''orchestration_subtask'', JBool True), (''streaming_observable'', JBool False)])"
| "lowered_payload Query p st session = JObject
     ([(''query'', jstrs [''request'']), (''context'', JNull)] @ subtask_ids st)"
| "lowered_payload Transform p st session = JObject
     ((''data'', JObject
        [(''request'', JString (op_request p)), (''plan_id'', JString (op_id p)),
         (''parent_job_id'', JString (op_parent_job_id p)), (''subtask_name'', JString (sub_name st)),
         (''original_task_type'', JString (sub_task_type st)), (''description'', JString (subtask.description st))])
      # subtask_ids st)"

definition lower_subtask ::
  "('w, 'r) orch_env \<Rightarrow> orchestration_plan \<Rightarrow> string \<Rightarrow> subtask \<Rightarrow> ('w, lowered_task) orch_m" where
  "lower_subtask E p session st = do {
     let prim = determine_lowering_primitive st;
     let safe = (prim = Query \<or> prim = Transform);
     i \<leftarrow> o_uuid E;
     let t = make_task i [] \<lparr>mt_trace_id = Some (sub_trace_id st), mt_type = as_task_type prim,
       mt_payload = Some (lowered_payload prim p st session), mt_priority = Some (sub_priority st mod 256),
       mt_timeout_ms = Some (oc_timeout_ms (oe_config E)),
       mt_metadata = Some (JObject
         [(''parent_job_id'', JString (sub_parent_job_id st)), (''subtask_id'', JString (sub_id st)),
          (''plan_id'', JString (parent_id st)), (''subtask_name'', JString (sub_name st)),
          (''specialist_type'', JString (subtask.specialist_type st)),
          (''original_task_type'', JString (sub_task_type st)), (''lowered_task_type'', JString (as_task_type prim)),
          (''parallel_safe'', JBool safe), (''result_kind'', JString (primitive_result_kind prim)),
          (''orchestration_rule'', opt_json JString (matched_rule p)), (''orchestration_subtask'', JBool True),
          (''streaming_observable'', JBool False)])\<rparr>;
     State_Monad.return
       \<lparr>lt_name = sub_name st, original_task_type = sub_task_type st, lowered_task_type = as_task_type prim,
        primitive = prim, parallel_safe = safe, lt_task = t\<rparr>
   }"

end
