(* ===== verification/Orchestration_Run.thy ===== *)
theory Orchestration_Run
  imports Orchestration
begin

text \<open>
  The execution of plans by the orchestrator (\<open>orchestrator/core.rs\<close>): the main chain
  (\<open>execute_orchestration_plan_impl\<close>) with its serial and parallel groups, the events and records of every
  subtask, the final result with the question about missing context (\<open>orchestrator/llm_context_infer.rs\<close>), and
  the older entry points (\<open>orchestrate\<close>, \<open>execute_plan\<close>).  A question of a result is only tested for, so its
  fresh id and time stamp are not drawn (\<open>asks_question\<close>).
\<close>

section \<open>Waiting for a task\<close>

record wait_context =
  wc_plan_id :: string
  wc_parent_job_id :: string
  wc_subtask_id :: string
  wc_subtask_name :: string
  wc_task_id :: string
  wc_task_type :: string
  wc_position :: group_position
  wait_reason :: string

definition wait_fields :: "wait_context \<Rightarrow> nat \<Rightarrow> (string \<times> json) list" where
  "wait_fields c started =
     [(''plan_id'', JString (wc_plan_id c)), (''parent_job_id'', JString (wc_parent_job_id c)),
      (''subtask_id'', JString (wc_subtask_id c)), (''subtask_name'', JString (wc_subtask_name c)),
      (''task_id'', JString (wc_task_id c)), (''task_type'', JString (wc_task_type c)),
      (''execution_mode'', JString (gp_mode (wc_position c))), (''parallel_group_index'', jnat (gp_index (wc_position c))),
      (''parallel_group_size'', jnat (gp_size (wc_position c))), (''started_at_ms'', jnat started),
      (''wait_reason'', JString (wait_reason c))]"

definition publish_wait_started :: "wait_context \<Rightarrow> nat \<Rightarrow> ('w, unit) orch_m" where
  "publish_wait_started c started = o_publish ''orchestration_wait_started'' (JObject (wait_fields c started))"

definition publish_wait_finished :: "wait_context \<Rightarrow> nat \<Rightarrow> nat \<Rightarrow> task_result \<Rightarrow> ('w, unit) orch_m" where
  "publish_wait_finished c started finished r =
     o_publish ''orchestration_wait_finished'' (JObject (wait_fields c started @
       [(''finished_at_ms'', jnat finished), (''wait_duration_ms'', jnat (saturating_sub finished started)),
        (''result_status'', JString (res_status r)), (''worker_id'', opt_json JString (res_worker_id r)),
        (''error'', opt_json JString (res_error r))]))"

definition o_submit :: "('w, 'r) orch_env \<Rightarrow> task \<Rightarrow> ('w, 'r) orch_m" where
  "o_submit E t = in_oworld (submit (oe_pool E) t)"

definition o_recv :: "('w, 'r) orch_env \<Rightarrow> 'r \<Rightarrow> ('w, task_result option) orch_m" where
  "o_recv E rx = in_oworld (recv (oe_pool E) rx)"

definition o_failure :: "('w, 'r) orch_env \<Rightarrow> string \<Rightarrow> ('w, task_result) orch_m" where
  "o_failure E msg = do {
     i \<leftarrow> o_uuid E;
     trace \<leftarrow> o_uuid E;
     State_Monad.return (make_task_result
       \<lparr>mr_task_id = i, mr_trace_id = trace, mr_status = ''failure'', mr_result = None, mr_error = Some msg,
        mr_duration_ms = 0, mr_worker_id = None\<rparr>)
   }"

definition wait_for_task :: "('w, 'r) orch_env \<Rightarrow> task \<Rightarrow> wait_context option \<Rightarrow> ('w, task_result) orch_m" where
  "wait_for_task E t ctx = do {
     rx \<leftarrow> o_submit E t;
     started \<leftarrow> o_now E;
     (case ctx of None \<Rightarrow> State_Monad.return () | Some c \<Rightarrow> publish_wait_started c started);
     answer \<leftarrow> o_recv E rx;
     let r = or_closed t answer;
     case ctx of None \<Rightarrow> State_Monad.return r
     | Some c \<Rightarrow> do {
         finished \<leftarrow> o_now E;
         publish_wait_finished c started finished r;
         State_Monad.return r
       }
   }"


section \<open>One subtask\<close>

definition prepare_lowered_task :: "lowered_task \<Rightarrow> execution_context \<Rightarrow> task" where
  "prepare_lowered_task l c =
     (let t = lt_task l in
      if is_object (tk_payload t) then
        (case primitive l of
           Query \<Rightarrow> t\<lparr>tk_payload := json_set ''context'' (context_value c) (tk_payload t)\<rparr>
         | Transform \<Rightarrow> t\<lparr>tk_payload := json_set ''data'' (JObject
             [(''request'', ec_request c), (''plan_id'', JString (ec_plan_id c)),
              (''parent_job_id'', JString (ec_parent_job_id c)), (''session_id'', JString (ec_session_id c)),
              (''subtask_name'', JString (lt_name l)),
              (''source'', get_or_null (lt_name l) (subtask_results c))]) (tk_payload t)\<rparr>
         | ApiCall \<Rightarrow> t)
      else t)"

definition subtask_event :: "subtask \<Rightarrow> lowered_task \<Rightarrow> group_position \<Rightarrow> (string \<times> json) list" where
  "subtask_event st l pos =
     [(''parent_job_id'', JString (sub_parent_job_id st)), (''subtask_id'', JString (sub_id st)),
      (''plan_id'', JString (parent_id st)), (''subtask_name'', JString (sub_name st)),
      (''original_task_type'', JString (original_task_type l)), (''lowered_task_type'', JString (lowered_task_type l)),
      (''parallel_safe'', JBool (parallel_safe l)), (''parallel_group_index'', jnat (gp_index pos)),
      (''parallel_group_size'', jnat (gp_size pos)), (''execution_mode'', JString (gp_mode pos)),
      (''result_kind'', JString (primitive_result_kind (primitive l))), (''task_id'', JString (tk_id (lt_task l)))]"

definition mark_subtask_started ::
  "('w, 'r) orch_env \<Rightarrow> subtask \<Rightarrow> lowered_task \<Rightarrow> group_position \<Rightarrow> ('w, unit) orch_m" where
  "mark_subtask_started E st l pos = do {
     now \<leftarrow> o_now E;
     o_live (lt_name l) (\<lambda>x. x\<lparr>ls_started_at := Some now\<rparr>);
     upsert_subtask E st l Running (Some pos) None;
     o_publish ''orchestration_subtask_started'' (JObject (subtask_event st l pos))
   }"

definition result_preview :: "(json \<Rightarrow> string) \<Rightarrow> task_result \<Rightarrow> string option" where
  "result_preview json_text r =
     or_else (Option.bind (res_result r) (json_str ''content''))
       (map_option (\<lambda>v. take_chars 160 (json_text v)) (res_result r))"

definition finalize_subtask_result ::
  "('w, 'r) orch_env \<Rightarrow> subtask \<Rightarrow> lowered_task \<Rightarrow> task_result \<Rightarrow> group_position \<Rightarrow> ('w, unit) orch_m" where
  "finalize_subtask_result E st l r pos = do {
     now \<leftarrow> o_now E;
     o_live (lt_name l) (\<lambda>x. x\<lparr>ls_completed_at := Some now, ls_result := Some r\<rparr>);
     o_metric (\<lambda>m. let m = m\<lparr>subtasks_executed := subtasks_executed m + 1\<rparr>
       in if \<not> succeeded r then m\<lparr>subtasks_failed := subtasks_failed m + 1\<rparr> else m);
     let payload = subtask_event st l pos @
       [(''status'', JString (res_status r)), (''worker_id'', opt_json JString (res_worker_id r)),
        (''task_duration_ms'', jnat (res_duration_ms r)),
        (''result_preview'', opt_json JString (result_preview (oe_json_text E) r))];
     if succeeded r then do {
       upsert_subtask E st l Completed (Some pos) None;
       o_publish ''orchestration_subtask_completed'' (JObject payload)
     } else do {
       upsert_subtask E st l Failed (Some pos) (res_error r);
       o_publish ''orchestration_subtask_failed'' (json_set ''error'' (opt_json JString (res_error r)) (JObject payload))
     }
   }"

definition context_entry :: "lowered_task \<Rightarrow> task_result \<Rightarrow> json" where
  "context_entry l r = JObject
     [(''status'', JString (res_status r)), (''result'', unwrap_or JNull (res_result r)),
      (''error'', opt_json JString (res_error r)), (''worker_id'', opt_json JString (res_worker_id r)),
      (''duration_ms'', jnat (res_duration_ms r)), (''lowered_task_type'', JString (lowered_task_type l)),
      (''original_task_type'', JString (original_task_type l)),
      (''result_kind'', JString (primitive_result_kind (primitive l))),
      (''blocked_reason'', unwrap_or JNull (res_blocked_reason r))]"

definition apply_subtask_result :: "lowered_task \<Rightarrow> task_result \<Rightarrow> execution_context \<Rightarrow> execution_context" where
  "apply_subtask_result l r c =
     (let results = (if is_object (subtask_results c) then subtask_results c else JObject [])
      in c\<lparr>subtask_results := json_set (lt_name l) (context_entry l r) results\<rparr>)"

definition execute_lowered_subtask ::
  "('w, 'r) orch_env \<Rightarrow> orchestration_plan \<Rightarrow> lowered_task \<Rightarrow> group_position \<Rightarrow> execution_context \<Rightarrow>
   ('w, task_result \<times> execution_context) orch_m" where
  "execute_lowered_subtask E p l pos c =
     (case map_of (op_subtasks p) (lt_name l) of
        None \<Rightarrow> do {
          r \<leftarrow> o_failure E (''Subtask not found: '' @ lt_name l);
          State_Monad.return (r, c)
        }
      | Some st \<Rightarrow> do {
          let t = prepare_lowered_task l c;
          mark_subtask_started E st l pos;
          r \<leftarrow> wait_for_task E t (Some
            \<lparr>wc_plan_id = parent_id st, wc_parent_job_id = sub_parent_job_id st, wc_subtask_id = sub_id st,
             wc_subtask_name = sub_name st, wc_task_id = tk_id t, wc_task_type = tk_type t, wc_position = pos,
             wait_reason = ''single_task''\<rparr>);
          finalize_subtask_result E st l r pos;
          State_Monad.return (r, if succeeded r then apply_subtask_result l r c else c)
        })"


section \<open>Groups\<close>

definition should_execute_group_in_parallel :: "('w, 'r) orch_env \<Rightarrow> lowered_task list \<Rightarrow> bool" where
  "should_execute_group_in_parallel E ls \<longleftrightarrow>
     enable_parallel (oe_config E) \<and> 1 < length ls \<and> list_all parallel_safe ls"

fun serial_loop ::
  "('w, 'r) orch_env \<Rightarrow> orchestration_plan \<Rightarrow> group_position \<Rightarrow> lowered_task list \<Rightarrow> execution_context \<Rightarrow>
   task_result option \<Rightarrow> ('w, task_result option \<times> execution_context) orch_m" where
  "serial_loop E p pos [] c last_success = State_Monad.return (last_success, c)"
| "serial_loop E p pos (l # ls) c last_success = do {
     (r, c) \<leftarrow> execute_lowered_subtask E p l pos c;
     if succeeded r then
       (if res_blocked_reason r \<noteq> None then State_Monad.return (Some r, c)
        else if primitive l = ApiCall \<and> asks_question (res_result r) then State_Monad.return (Some r, c)
        else serial_loop E p pos ls c (Some r))
     else State_Monad.return (Some r, c)
   }"

text \<open>The two loops of a parallel group: start and submit every task, then wait for each in turn.\<close>

fun submit_group ::
  "('w, 'r) orch_env \<Rightarrow> orchestration_plan \<Rightarrow> group_position \<Rightarrow> execution_context \<Rightarrow> lowered_task list \<Rightarrow>
   ('w, (lowered_task \<times> 'r) list) orch_m" where
  "submit_group E p pos c [] = State_Monad.return []"
| "submit_group E p pos c (l # ls) =
     (case map_of (op_subtasks p) (lt_name l) of
        None \<Rightarrow> submit_group E p pos c ls
      | Some st \<Rightarrow> do {
          mark_subtask_started E st l pos;
          rx \<leftarrow> o_submit E (prepare_lowered_task l c);
          rest \<leftarrow> submit_group E p pos c ls;
          State_Monad.return ((l, rx) # rest)
        })"

definition collect_one ::
  "('w, 'r) orch_env \<Rightarrow> subtask \<Rightarrow> lowered_task \<Rightarrow> 'r \<Rightarrow> group_position \<Rightarrow> ('w, task_result) orch_m" where
  "collect_one E st l rx pos = do {
     started \<leftarrow> o_now E;
     let wc = \<lparr>wc_plan_id = parent_id st, wc_parent_job_id = sub_parent_job_id st, wc_subtask_id = sub_id st,
       wc_subtask_name = sub_name st, wc_task_id = tk_id (lt_task l), wc_task_type = tk_type (lt_task l),
       wc_position = pos, wait_reason = ''parallel_group''\<rparr>;
     publish_wait_started wc started;
     answer \<leftarrow> o_recv E rx;
     let r = or_closed (lt_task l) answer;
     finished \<leftarrow> o_now E;
     publish_wait_finished wc started finished r;
     finalize_subtask_result E st l r pos;
     State_Monad.return r
   }"

fun collect_group ::
  "('w, 'r) orch_env \<Rightarrow> orchestration_plan \<Rightarrow> group_position \<Rightarrow> (lowered_task \<times> 'r) list \<Rightarrow> execution_context \<Rightarrow>
   task_result option \<Rightarrow> ('w, task_result option \<times> execution_context) orch_m" where
  "collect_group E p pos [] c last_success = State_Monad.return (last_success, c)"
| "collect_group E p pos ((l, rx) # rest) c last_success =
     (case map_of (op_subtasks p) (lt_name l) of
        None \<Rightarrow> collect_group E p pos rest c last_success
      | Some st \<Rightarrow> do {
          r \<leftarrow> collect_one E st l rx pos;
          if succeeded r then collect_group E p pos rest (apply_subtask_result l r c) (Some r)
          else State_Monad.return (Some r, c)
        })"

definition execute_group ::
  "('w, 'r) orch_env \<Rightarrow> orchestration_plan \<Rightarrow> lowered_task list \<Rightarrow> nat \<Rightarrow> execution_context \<Rightarrow>
   ('w, task_result option \<times> execution_context) orch_m" where
  "execute_group E p ls i c =
     (if should_execute_group_in_parallel E ls
      then do {
        let pos = \<lparr>gp_mode = ''whitelist_parallel'', gp_index = i, gp_size = length ls\<rparr>;
        rxs \<leftarrow> submit_group E p pos c ls;
        collect_group E p pos rxs c None
      }
      else serial_loop E p \<lparr>gp_mode = ''serial'', gp_index = i, gp_size = length ls\<rparr> ls c None)"


section \<open>The result of a plan\<close>

definition extract_result_text :: "(json \<Rightarrow> string) \<Rightarrow> json option \<Rightarrow> string" where
  "extract_result_text json_text value =
     (case value of
        None \<Rightarrow> []
      | Some v \<Rightarrow>
         (case json_str ''content'' v of
            Some s \<Rightarrow> s
          | None \<Rightarrow>
             (let chunks = (case Option.bind (json_get ''content'' v) as_array of
                    None \<Rightarrow> [] | Some parts \<Rightarrow> part_texts [''text''] parts)
              in if chunks \<noteq> [] then str_join ''\<newline>'' chunks
                 else case as_str v of Some s \<Rightarrow> s | None \<Rightarrow> json_text v)))"

definition outcome_line :: "(json \<Rightarrow> string) \<Rightarrow> execution_context \<Rightarrow> lowered_task \<Rightarrow> string" where
  "outcome_line json_text c l =
     (let entry = get_or_null (lt_name l) (subtask_results c);
          st = unwrap_or ''unknown'' (json_str ''status'' entry);
          txt = extract_result_text json_text (json_get ''result'' entry);
          preview = (if txt = [] then unwrap_or ''(no result)'' (json_str ''error'' entry)
                     else if 280 < count_chars txt then take_chars 280 txt @ utf8 [0xE2, 0x80, 0xA6]
                     else txt)
      in ''- '' @ lt_name l @ '' ['' @ original_task_type l @ '' / '' @ st @ '']: '' @ preview)"

definition orchestration_summary_text ::
  "(json \<Rightarrow> string) \<Rightarrow> orchestration_plan \<Rightarrow> lowered_task list \<Rightarrow> execution_context \<Rightarrow> string" where
  "orchestration_summary_text json_text p ls c =
     str_join ''\<newline>'' ([''Orchestration completed for request: '' @ op_request p, [], ''Subtask outcomes:''] @
       map (outcome_line json_text c) ls)"

definition blocked_entry :: "execution_context \<Rightarrow> lowered_task \<Rightarrow> json option" where
  "blocked_entry c l =
     Option.bind (json_get (lt_name l) (subtask_results c)) (\<lambda>entry.
       case json_get ''blocked_reason'' entry of
         None \<Rightarrow> None
       | Some reason \<Rightarrow>
           if reason = JNull then None
           else Some (JObject [(''subtask'', JString (lt_name l)), (''reason'', reason)]))"

definition collect_blocked_reasons :: "lowered_task list \<Rightarrow> execution_context \<Rightarrow> json option" where
  "collect_blocked_reasons ls c =
     (let blocked = List.map_filter (blocked_entry c) ls
      in if blocked = [] then None
         else Some (JObject [(''type'', JString ''subtask_blocked''), (''blocked_subtasks'', JArray blocked)]))"

definition context_question :: "orchestration_plan \<Rightarrow> string \<Rightarrow> string list \<Rightarrow> (string \<times> json) list \<Rightarrow> json" where
  "context_question p prompt options orchestration = JObject
     [(''type'', JString ''question''), (''question'', JObject
        [(''id'', JString (''orchestration-context-'' @ op_id p)), (''kind'', JString ''input''),
         (''prompt'', JString prompt), (''options'', jstrs options), (''orchestration'', JObject orchestration)])]"

definition infer_summaries :: "(json \<Rightarrow> string) \<Rightarrow> lowered_task list \<Rightarrow> json \<Rightarrow> string list" where
  "infer_summaries json_text ls results = List.map_filter
     (\<lambda>l. let txt = (case Option.bind (json_get (lt_name l) results) (json_get ''result'') of
                None \<Rightarrow> [] | Some r \<Rightarrow> extract_result_text json_text (Some r))
          in if txt = [] then None else Some (''['' @ lt_name l @ '']: '' @ txt)) ls"

definition try_llm_infer ::
  "('w, 'r) orch_env \<Rightarrow> 'w chat \<Rightarrow> orchestration_plan \<Rightarrow> lowered_task list \<Rightarrow> execution_context \<Rightarrow> ('w, json option) orch_m" where
  "try_llm_infer E chat p ls c =
     (let summaries = infer_summaries (oe_json_text E) ls (subtask_results c) in
      if summaries = [] then State_Monad.return None
      else do {
        r \<leftarrow> in_oworld (chat (user_request
          (str_replace ''{results}'' (str_join ''\<newline>\<newline>'' summaries)
            (str_replace ''{request}'' (op_request p) (context_infer_prompt E))) None (ec_session_id c)));
        State_Monad.return (case r of
            Inl _ \<Rightarrow> None
          | Inr response \<Rightarrow>
              Option.bind (Option.bind (extract_json_object (trim (first_text response))) (parse_infer E)) (\<lambda>infer.
                if \<not> needs_question infer \<or> ir_prompt infer = [] then None
                else Some (context_question p (ir_prompt infer) (ir_options infer)
                  [(''reason'', JString ''llm_inferred_missing_context''), (''subtasks'', jstrs (map lt_name ls))])))
      })"

text \<open>The words of the keyword match and the text of its question, in UTF-8.\<close>

definition missing_context_words :: "string list" where
  "missing_context_words =
     [utf8 [0xE5, 0x8F, 0xAA, 0xE9, 0x97, 0xAE, 0xE4, 0xB8, 0x80, 0xE4, 0xB8, 0xAA],
      utf8 [0xE8, 0x81, 0x9A, 0xE7, 0x84, 0xA6, 0xE9, 0x97, 0xAE, 0xE9, 0xA2, 0x98],
      utf8 [0xE5, 0x85, 0xB3, 0xE9, 0x94, 0xAE, 0xE9, 0x97, 0xAE, 0xE9, 0xA2, 0x98],
      ''what business'',
      ''business type'',
      utf8 [0xE6, 0xA0, 0xB8, 0xE5, 0xBF, 0x83, 0xE7, 0x94, 0xA8, 0xE6, 0x88, 0xB7, 0xE6, 0xB5, 0x81, 0xE7, 0xA8, 0x8B],
      utf8 [0xE6, 0xA0, 0xB8, 0xE5, 0xBF, 0x83, 0xE9, 0xA1, 0xB5, 0xE9, 0x9D, 0xA2],
      utf8 [0xE6, 0xA0, 0xB8, 0xE5, 0xBF, 0x83, 0xE5, 0xAE, 0x9E, 0xE4, 0xBD, 0x93]]"

definition missing_context_prompt :: string where
  "missing_context_prompt = utf8
     [0xE4, 0xB8, 0xBA, 0xE4, 0xBA, 0x86, 0xE7, 0xBB, 0xA7, 0xE7, 0xBB, 0xAD, 0xE5, 0xAE, 0x8C, 0xE6, 0x88, 0x90,
      0xE8, 0xBF, 0x99, 0xE4, 0xB8, 0xAA, 0xE5, 0xA4, 0x8D, 0xE6, 0x9D, 0x82, 0x20, 0x57, 0x65, 0x62, 0x20, 0x41,
      0x70, 0x70, 0x20, 0xE7, 0x9A, 0x84, 0xE6, 0x95, 0xB4, 0xE4, 0xBD, 0x93, 0xE6, 0x8B, 0x86, 0xE5, 0x88, 0x86,
      0xE4, 0xB8, 0x8E, 0xE6, 0x9C, 0x80, 0xE7, 0xBB, 0x88, 0xE4, 0xBA, 0xA4, 0xE4, 0xBB, 0x98, 0xEF, 0xBC, 0x8C,
      0xE6, 0x88, 0x91, 0xE9, 0x9C, 0x80, 0xE8, 0xA6, 0x81, 0xE4, 0xB8, 0x80, 0xE4, 0xB8, 0xAA, 0xE7, 0xBB, 0x9F,
      0xE4, 0xB8, 0x80, 0xE7, 0x9A, 0x84, 0xE4, 0xB8, 0x9A, 0xE5, 0x8A, 0xA1, 0xE4, 0xB8, 0x8A, 0xE4, 0xB8, 0x8B,
      0xE6, 0x96, 0x87, 0xEF, 0xBC, 0x9A, 0xE8, 0xAF, 0xB7, 0xE5, 0x91, 0x8A, 0xE8, 0xAF, 0x89, 0xE6, 0x88, 0x91,
      0xE4, 0xBA, 0xA7, 0xE5, 0x93, 0x81, 0xE7, 0xB1, 0xBB, 0xE5, 0x9E, 0x8B, 0xE3, 0x80, 0x81, 0xE6, 0xA0, 0xB8,
      0xE5, 0xBF, 0x83, 0xE7, 0x94, 0xA8, 0xE6, 0x88, 0xB7, 0xEF, 0xBC, 0x8C, 0xE4, 0xBB, 0xA5, 0xE5, 0x8F, 0x8A,
      0x20, 0x33, 0x2D, 0x35, 0x20, 0xE4, 0xB8, 0xAA, 0xE6, 0xA0, 0xB8, 0xE5, 0xBF, 0x83, 0xE5, 0x8A, 0x9F, 0xE8,
      0x83, 0xBD, 0xE3, 0x80, 0x82, 0xE8, 0x8B, 0xA5, 0xE6, 0x9C, 0x89, 0xE7, 0x89, 0xB9, 0xE6, 0xAE, 0x8A, 0xE9,
      0x9C, 0x80, 0xE6, 0xB1, 0x82, 0xEF, 0xBC, 0x8C, 0xE4, 0xB9, 0x9F, 0xE8, 0xAF, 0xB7, 0xE8, 0xA1, 0xA5, 0xE5,
      0x85, 0x85, 0xE6, 0x98, 0xAF, 0xE5, 0x90, 0xA6, 0xE9, 0x9C, 0x80, 0xE8, 0xA6, 0x81, 0xE7, 0x99, 0xBB, 0xE5,
      0xBD, 0x95, 0xE3, 0x80, 0x81, 0xE6, 0x94, 0xAF, 0xE4, 0xBB, 0x98, 0xE3, 0x80, 0x81, 0xE6, 0x96, 0x87, 0xE4,
      0xBB, 0xB6, 0xE4, 0xB8, 0x8A, 0xE4, 0xBC, 0xA0, 0xE3, 0x80, 0x81, 0xE5, 0xAE, 0x9E, 0xE6, 0x97, 0xB6, 0xE5,
      0x8A, 0x9F, 0xE8, 0x83, 0xBD, 0xE6, 0x88, 0x96, 0xE5, 0xA4, 0x9A, 0xE7, 0xA7, 0x9F, 0xE6, 0x88, 0xB7, 0xE3,
      0x80, 0x82]"

definition missing_context_options :: "string list" where
  "missing_context_options =
     [utf8 [0xE7, 0x94, 0xB5, 0xE5, 0x95, 0x86, 0xE5, 0xB9, 0xB3, 0xE5, 0x8F, 0xB0],
      utf8 [0xE9, 0xA1, 0xB9, 0xE7, 0x9B, 0xAE, 0xE7, 0xAE, 0xA1, 0xE7, 0x90, 0x86, 0xE7, 0xB3, 0xBB, 0xE7, 0xBB, 0x9F],
      ''AI SaaS'',
      utf8 [0xE5, 0x86, 0x85, 0xE5, 0xAE, 0xB9, 0xE7, 0xA4, 0xBE, 0xE5, 0x8C, 0xBA]]"

fun collect_prompts :: "(json \<Rightarrow> string) \<Rightarrow> json \<Rightarrow> lowered_task list \<Rightarrow> string list option" where
  "collect_prompts json_text results [] = Some []"
| "collect_prompts json_text results (l # ls) =
     Option.bind (Option.bind (json_get (lt_name l) results) (json_get ''result'')) (\<lambda>r.
       let content = extract_result_text json_text (Some r);
           asks = list_ex (\<lambda>w. str_contains w (ascii_lower content)) missing_context_words
       in map_option (\<lambda>ps. if asks then content # ps else ps) (collect_prompts json_text results ls))"

definition keyword_question ::
  "(json \<Rightarrow> string) \<Rightarrow> orchestration_plan \<Rightarrow> lowered_task list \<Rightarrow> execution_context \<Rightarrow> json option" where
  "keyword_question json_text p ls c =
     Option.bind (collect_prompts json_text (subtask_results c) ls) (\<lambda>prompts.
       if length prompts < 2 then None
       else Some (context_question p missing_context_prompt missing_context_options
         [(''reason'', JString ''multiple_subtasks_missing_shared_context''), (''subtasks'', jstrs (map lt_name ls)),
          (''collected_prompts'', jstrs prompts)]))"

definition infer_missing_context_question ::
  "('w, 'r) orch_env \<Rightarrow> orchestration_plan \<Rightarrow> lowered_task list \<Rightarrow> execution_context \<Rightarrow> ('w, json option) orch_m" where
  "infer_missing_context_question E p ls c = do {
     q \<leftarrow> (case oe_provider E of None \<Rightarrow> State_Monad.return None | Some chat \<Rightarrow> try_llm_infer E chat p ls c);
     State_Monad.return (case q of Some q \<Rightarrow> Some q | None \<Rightarrow> keyword_question (oe_json_text E) p ls c)
   }"

definition aggregated_result ::
  "('w, 'r) orch_env \<Rightarrow> orchestration_plan \<Rightarrow> lowered_task list \<Rightarrow> execution_context \<Rightarrow> ('w, json) orch_m" where
  "aggregated_result E p ls c =
     (case collect_blocked_reasons ls c of
        Some blocked \<Rightarrow> State_Monad.return blocked
      | None \<Rightarrow> do {
          q \<leftarrow> infer_missing_context_question E p ls c;
          State_Monad.return (case q of
              Some question \<Rightarrow> question
            | None \<Rightarrow> JObject
                [(''content'', JString (orchestration_summary_text (oe_json_text E) p ls c)),
                 (''plan_id'', JString (op_id p)), (''parent_job_id'', JString (op_parent_job_id p)),
                 (''subtask_results'', subtask_results c)])
        })"

definition first_blocked_reason :: "json \<Rightarrow> json option" where
  "first_blocked_reason v =
     (if json_str ''type'' v = Some ''subtask_blocked'' then
        (case Option.bind (json_get ''blocked_subtasks'' v) as_array of
           Some (entry # _) \<Rightarrow> json_get ''reason'' entry
         | _ \<Rightarrow> None)
      else None)"

definition build_final_result ::
  "('w, 'r) orch_env \<Rightarrow> orchestration_plan \<Rightarrow> lowered_task list \<Rightarrow> execution_context \<Rightarrow> task_result option \<Rightarrow>
   ('w, task_result) orch_m" where
  "build_final_result E p ls c last_success = do {
     v \<leftarrow> aggregated_result E p ls c;
     s \<leftarrow> o_snapshot;
     let (total, completed, failed) = plan_progress_counts s (op_id p);
     now \<leftarrow> o_now E;
     let v = with_fields [(''subtasks_total'', jnat total), (''subtasks_completed'', jnat completed),
       (''subtasks_failed'', jnat failed)] v;
     let r = make_task_result
       \<lparr>mr_task_id = op_id p, mr_trace_id = op_trace_id p, mr_status = ''success'', mr_result = Some v, mr_error = None,
        mr_duration_ms = saturating_sub now (op_created_at p), mr_worker_id = Option.bind last_success res_worker_id\<rparr>;
     let r = (case first_blocked_reason v of None \<Rightarrow> r | Some reason \<Rightarrow> r\<lparr>res_blocked_reason := Some reason\<rparr>);
     State_Monad.return (case last_success of
         None \<Rightarrow> r
       | Some l \<Rightarrow> r\<lparr>res_duration_ms := max (res_duration_ms r) (res_duration_ms l)\<rparr>)
   }"


section \<open>The main chain\<close>

definition lowered_json :: "lowered_task \<Rightarrow> json" where
  "lowered_json l = JObject
     [(''name'', JString (lt_name l)), (''original_task_type'', JString (original_task_type l)),
      (''lowered_task_type'', JString (lowered_task_type l)), (''parallel_safe'', JBool (parallel_safe l)),
      (''result_kind'', JString (primitive_result_kind (primitive l)))]"

definition plan_created_payload :: "orchestration_plan \<Rightarrow> lowered_task list \<Rightarrow> json" where
  "plan_created_payload p ls = JObject
     [(''parent_job_id'', JString (op_parent_job_id p)), (''plan_id'', JString (op_id p)),
      (''trace_id'', JString (op_trace_id p)), (''original_request'', JString (op_request p)),
      (''plan_rule'', opt_json JString (matched_rule p)), (''created_at_ms'', jnat (op_created_at p)),
      (''execution_order'', jstrs (execution_order p)), (''subtask_ids'', jstrs (map sub_id (im_values (op_subtasks p)))),
      (''subtask_count'', jnat (length ls)), (''parallel_groups'', JArray (map jstrs (parallel_groups p))),
      (''lowered_tasks'', JArray (map lowered_json ls))]"

definition finalize_plan :: "('w, 'r) orch_env \<Rightarrow> orchestration_plan \<Rightarrow> string \<Rightarrow> ('w, unit) orch_m" where
  "finalize_plan E p st = do {
     started \<leftarrow> o_now E;
     o_publish ''orchestration_plan_finalize_started'' (JObject
       [(''parent_job_id'', JString (op_parent_job_id p)), (''plan_id'', JString (op_id p)),
        (''started_at_ms'', jnat started), (''result_status'', JString st)]);
     s \<leftarrow> o_snapshot;
     let active = active_subtask_ids s (op_id p);
     let present = plan_is_active s (op_id p);
     (if active \<noteq> [] \<or> present
     then o_publish ''orchestration_plan_cleanup_incomplete'' (JObject
       [(''parent_job_id'', JString (op_parent_job_id p)), (''plan_id'', JString (op_id p)),
        (''result_status'', JString st), (''active_subtask_ids'', jstrs active),
        (''active_plan_present_before_cleanup'', JBool present), (''active_plan_present_after_cleanup'', JBool present)])
     else State_Monad.return ());
     finished \<leftarrow> o_now E;
     o_publish ''orchestration_plan_finalize_finished'' (JObject
       [(''parent_job_id'', JString (op_parent_job_id p)), (''plan_id'', JString (op_id p)),
        (''started_at_ms'', jnat started), (''finished_at_ms'', jnat finished),
        (''finalize_duration_ms'', jnat (saturating_sub finished started)), (''result_status'', JString st),
        (''active_plan_present_after_cleanup'', JBool present)])
   }"

datatype plan_outcome = PlanStopped task_result | PlanDone "task_result option"

definition tasks_of_group :: "lowered_task list \<Rightarrow> string list \<Rightarrow> lowered_task list" where
  "tasks_of_group ls names = List.map_filter (\<lambda>n. find (\<lambda>l. lt_name l = n) ls) names"

definition fail_plan ::
  "('w, 'r) orch_env \<Rightarrow> orchestration_plan \<Rightarrow> nat \<Rightarrow> task_result \<Rightarrow> ('w, unit) orch_m" where
  "fail_plan E p started r = do {
     upsert_plan E p Failed (res_error r);
     finalize_plan E p (res_status r);
     now \<leftarrow> o_now E;
     o_metric (\<lambda>m. m\<lparr>plans_failed := plans_failed m + 1, om_duration_ms := om_duration_ms m + saturating_sub now started\<rparr>)
   }"

fun run_groups ::
  "('w, 'r) orch_env \<Rightarrow> orchestration_plan \<Rightarrow> lowered_task list \<Rightarrow> nat \<Rightarrow> nat \<Rightarrow> string list list \<Rightarrow> execution_context \<Rightarrow>
   task_result option \<Rightarrow> ('w, plan_outcome \<times> execution_context) orch_m" where
  "run_groups E p ls started i [] c last_success = State_Monad.return (PlanDone last_success, c)"
| "run_groups E p ls started i (g # gs) c last_success =
     (let ts = tasks_of_group ls g in
      if ts = [] then run_groups E p ls started (Suc i) gs c last_success
      else do {
        (r, c) \<leftarrow> execute_group E p ts i c;
        case r of
          None \<Rightarrow> run_groups E p ls started (Suc i) gs c last_success
        | Some r \<Rightarrow>
            if succeeded r then
              (if asks_question (res_result r)
               then do { upsert_plan E p Completed None; State_Monad.return (PlanDone (Some r), c) }
               else run_groups E p ls started (Suc i) gs c (Some r))
            else do { fail_plan E p started r; State_Monad.return (PlanStopped r, c) }
      })"

definition annotate_result :: "orchestration_plan \<Rightarrow> lowered_task list \<Rightarrow> task_result \<Rightarrow> task_result" where
  "annotate_result p ls r = r\<lparr>res_result := map_option (with_fields
     [(''plan_id'', JString (op_id p)), (''parent_job_id'', JString (op_parent_job_id p)),
      (''orchestration'', JObject [(''plan_id'', JString (op_id p)), (''parent_job_id'', JString (op_parent_job_id p)),
        (''rule'', opt_json JString (matched_rule p)), (''subtasks'', JArray (map lowered_json ls))])]) (res_result r)\<rparr>"

record orchestration_result =
  or_result :: task_result
  or_lowered :: "lowered_task list"
  was_decomposed :: bool

definition complete_plan ::
  "('w, 'r) orch_env \<Rightarrow> orchestration_plan \<Rightarrow> lowered_task list \<Rightarrow> nat \<Rightarrow> execution_context \<Rightarrow> task_result option \<Rightarrow>
   ('w, orchestration_result) orch_m" where
  "complete_plan E p ls started c last_success = do {
     r \<leftarrow> (case last_success of
         Some r \<Rightarrow> if asks_question (res_result r) then State_Monad.return r
                    else build_final_result E p ls c last_success
       | None \<Rightarrow> build_final_result E p ls c last_success);
     let r = annotate_result p ls r;
     upsert_plan E p Completed None;
     finalize_plan E p (res_status r);
     now \<leftarrow> o_now E;
     o_metric (\<lambda>m. m\<lparr>plans_completed := plans_completed m + 1,
       om_duration_ms := om_duration_ms m + saturating_sub now started\<rparr>);
     State_Monad.return \<lparr>or_result = r, or_lowered = ls, was_decomposed = True\<rparr>
   }"

definition plan_subtask_list :: "orchestration_plan \<Rightarrow> subtask list" where
  "plan_subtask_list p = List.map_filter (map_of (op_subtasks p)) (execution_order p)"

definition execute_orchestration_plan_impl ::
  "('w, 'r) orch_env \<Rightarrow> orchestration_plan \<Rightarrow> string \<Rightarrow> string \<Rightarrow> string \<Rightarrow> ('w, orchestration_result) orch_m" where
  "execute_orchestration_plan_impl E p request job session = do {
     started \<leftarrow> o_now E;
     ls \<leftarrow> map_state (lower_subtask E p session) (plan_subtask_list p);
     upsert_plan E p Pending None;
     for_each (\<lambda>l. case map_of (op_subtasks p) (lt_name l) of
         None \<Rightarrow> State_Monad.return () | Some st \<Rightarrow> upsert_subtask E st l Pending None None) ls;
     o_publish ''orchestration_plan_created'' (plan_created_payload p ls);
     o_metric (\<lambda>m. m\<lparr>plans_created := plans_created m + 1\<rparr>);
     upsert_plan E p Running None;
     (out, c) \<leftarrow> run_groups E p ls started 0 (parallel_groups p) (new_execution_context request job (op_id p) session) None;
     case out of
       PlanStopped r \<Rightarrow> State_Monad.return \<lparr>or_result = r, or_lowered = ls, was_decomposed = True\<rparr>
     | PlanDone last_success \<Rightarrow> complete_plan E p ls started c last_success
   }"

datatype orchestration_error = OrchestrationForcedFallback | OrchestrationNoDecomposition

definition execute_orchestration_for_main_chain ::
  "('w, 'r) orch_env \<Rightarrow> string \<Rightarrow> string \<Rightarrow> string \<Rightarrow> string \<Rightarrow>
   ('w, orchestration_error + orchestration_result) orch_m" where
  "execute_orchestration_for_main_chain E request trace job session =
     (if str_contains ''[orchestration-fail]'' request then State_Monad.return (Inl OrchestrationForcedFallback)
      else do {
        p \<leftarrow> decompose_task E request trace job (Some session);
        if 1 < length (op_subtasks p) \<or> matched_rule p \<noteq> None
        then do {
          r \<leftarrow> execute_orchestration_plan_impl E p request job session;
          State_Monad.return (Inr r)
        }
        else State_Monad.return (Inl OrchestrationNoDecomposition)
      })"

definition execute_existing_plan ::
  "('w, 'r) orch_env \<Rightarrow> orchestration_plan \<Rightarrow> string \<Rightarrow> string \<Rightarrow> string \<Rightarrow> ('w, task_result) orch_m" where
  "execute_existing_plan E p request job session = do {
     r \<leftarrow> execute_orchestration_plan_impl E p request job session;
     State_Monad.return (or_result r)
   }"

end
