(* ===== verification/Orchestrate.thy ===== *)
theory Orchestrate
  imports Orchestration_Run
begin

text \<open>
  The older entry points of the orchestrator (\<open>orchestrator/core.rs\<close>, from \<open>orchestrate\<close> on): a plan run group
  by group without runtime records, single subtasks through the specialist pool, and execution plans of the
  classifier.
\<close>

definition subtask_task :: "('w, 'r) orch_env \<Rightarrow> subtask \<Rightarrow> ('w, task) orch_m" where
  "subtask_task E st = do {
     i \<leftarrow> o_uuid E;
     State_Monad.return (make_task i [] \<lparr>mt_trace_id = Some (sub_trace_id st), mt_type = sub_task_type st,
       mt_payload = Some (sub_payload st), mt_priority = Some (sub_priority st mod 256),
       mt_timeout_ms = Some (oc_timeout_ms (oe_config E)),
       mt_metadata = Some (JObject
         [(''parent_job_id'', JString (sub_parent_job_id st)), (''subtask_id'', JString (sub_id st)),
          (''plan_id'', JString (parent_id st)), (''subtask_name'', JString (sub_name st)),
          (''specialist_type'', JString (subtask.specialist_type st))])\<rparr>)
   }"

definition closed_result :: "string \<Rightarrow> string \<Rightarrow> task_result" where
  "closed_result tid trace = make_task_result
     \<lparr>mr_task_id = tid, mr_trace_id = trace, mr_status = ''failure'', mr_result = None,
      mr_error = Some ''Subtask channel closed'', mr_duration_ms = 0, mr_worker_id = None\<rparr>"

definition o_route :: "('w, 'r) orch_env \<Rightarrow> task \<Rightarrow> ('w, task_result) orch_m" where
  "o_route E t = State (\<lambda>s.
     case route_task (oe_pools E) t (oc_specialists s) (oc_world s) of
       (r, sp, w) \<Rightarrow> (r, s\<lparr>oc_specialists := sp, oc_world := w\<rparr>))"

definition count_subtask :: "task_result \<Rightarrow> ('w, unit) orch_m" where
  "count_subtask r = o_metric (\<lambda>m. let m = m\<lparr>subtasks_executed := subtasks_executed m + 1\<rparr>
     in if \<not> succeeded r then m\<lparr>subtasks_failed := subtasks_failed m + 1\<rparr> else m)"

definition execute_subtask :: "('w, 'r) orch_env \<Rightarrow> orchestration_plan \<Rightarrow> string \<Rightarrow> ('w, task_result) orch_m" where
  "execute_subtask E p n =
     (case map_of (op_subtasks p) n of
        None \<Rightarrow> o_failure E (''Subtask not found: '' @ n)
      | Some st \<Rightarrow> do {
          now \<leftarrow> o_now E;
          o_live n (\<lambda>x. x\<lparr>ls_started_at := Some now\<rparr>);
          t \<leftarrow> subtask_task E st;
          r \<leftarrow> (if subtask.specialist_type st \<noteq> [] then o_route E t
               else do {
                 rx \<leftarrow> o_submit E t;
                 answer \<leftarrow> o_recv E rx;
                 State_Monad.return (unwrap_or (closed_result (sub_id st) (sub_trace_id st)) answer)
               });
          now \<leftarrow> o_now E;
          o_live n (\<lambda>x. x\<lparr>ls_completed_at := Some now\<rparr>);
          count_subtask r;
          o_live n (\<lambda>x. x\<lparr>ls_result := Some r\<rparr>);
          State_Monad.return r
        })"

text \<open>One subtask after the other, until one fails; the failure is the result.\<close>

fun execute_names :: "('w, 'r) orch_env \<Rightarrow> orchestration_plan \<Rightarrow> string list \<Rightarrow> ('w, task_result option) orch_m" where
  "execute_names E p [] = State_Monad.return None"
| "execute_names E p (n # ns) = do {
     r \<leftarrow> execute_subtask E p n;
     if \<not> succeeded r then State_Monad.return (Some r) else execute_names E p ns
   }"

fun submit_names :: "('w, 'r) orch_env \<Rightarrow> orchestration_plan \<Rightarrow> string list \<Rightarrow> ('w, (string \<times> 'r) list) orch_m" where
  "submit_names E p [] = State_Monad.return []"
| "submit_names E p (n # ns) =
     (case map_of (op_subtasks p) n of
        None \<Rightarrow> submit_names E p ns
      | Some st \<Rightarrow> do {
          now \<leftarrow> o_now E;
          o_live n (\<lambda>x. x\<lparr>ls_started_at := Some now\<rparr>);
          t \<leftarrow> subtask_task E st;
          rx \<leftarrow> o_submit E t;
          rest \<leftarrow> submit_names E p ns;
          State_Monad.return ((n, rx) # rest)
        })"

text \<open>Every receiver is waited for; the first failure is kept.\<close>

fun collect_names ::
  "('w, 'r) orch_env \<Rightarrow> orchestration_plan \<Rightarrow> (string \<times> 'r) list \<Rightarrow> task_result option \<Rightarrow> ('w, task_result option) orch_m" where
  "collect_names E p [] failed = State_Monad.return failed"
| "collect_names E p ((n, rx) # rest) failed = do {
     answer \<leftarrow> o_recv E rx;
     r \<leftarrow> (case answer of
         Some r \<Rightarrow> State_Monad.return r
       | None \<Rightarrow> do { i \<leftarrow> o_uuid E; State_Monad.return (closed_result i (op_trace_id p)) });
     case map_of (op_subtasks p) n of
       None \<Rightarrow> collect_names E p rest failed
     | Some st \<Rightarrow> do {
         now \<leftarrow> o_now E;
         o_live n (\<lambda>x. x\<lparr>ls_completed_at := Some now\<rparr>);
         count_subtask r;
         o_live n (\<lambda>x. x\<lparr>ls_result := Some r\<rparr>);
         collect_names E p rest (if \<not> succeeded r \<and> failed = None then Some r else failed)
       }
   }"

fun execute_groups :: "('w, 'r) orch_env \<Rightarrow> orchestration_plan \<Rightarrow> string list list \<Rightarrow> ('w, task_result option) orch_m" where
  "execute_groups E p [] = State_Monad.return None"
| "execute_groups E p (g # gs) = do {
     failed \<leftarrow> (if length g = 1 \<or> \<not> enable_parallel (oe_config E) then execute_names E p g
       else do { rxs \<leftarrow> submit_names E p g; collect_names E p rxs None });
     case failed of Some r \<Rightarrow> State_Monad.return (Some r) | None \<Rightarrow> execute_groups E p gs
   }"

definition execute_orchestration_plan :: "('w, 'r) orch_env \<Rightarrow> orchestration_plan \<Rightarrow> ('w, task_result) orch_m" where
  "execute_orchestration_plan E p = do {
     failed \<leftarrow> execute_groups E p (parallel_groups p);
     case failed of
       Some r \<Rightarrow> State_Monad.return r
     | None \<Rightarrow> do {
         s \<leftarrow> o_snapshot;
         let (total, completed, failed) = plan_progress_counts s (op_id p);
         now \<leftarrow> o_now E;
         State_Monad.return (make_task_result
           \<lparr>mr_task_id = op_id p, mr_trace_id = op_trace_id p, mr_status = ''success'',
            mr_result = Some (JObject [(''plan_id'', JString (op_id p)), (''request'', JString (op_request p)),
              (''subtasks_total'', jnat total), (''subtasks_completed'', jnat completed), (''subtasks_failed'', jnat failed)]),
            mr_error = None, mr_duration_ms = saturating_sub now (op_created_at p), mr_worker_id = None\<rparr>)
       }
   }"

definition orchestrate :: "('w, 'r) orch_env \<Rightarrow> string \<Rightarrow> ('w, task_result) orch_m" where
  "orchestrate E request = do {
     trace \<leftarrow> o_uuid E;
     started \<leftarrow> o_now E;
     p \<leftarrow> decompose_task E request trace trace None;
     o_metric (\<lambda>m. m\<lparr>plans_created := plans_created m + 1\<rparr>);
     r \<leftarrow> execute_orchestration_plan E p;
     now \<leftarrow> o_now E;
     o_metric (\<lambda>m. let m = m\<lparr>om_duration_ms := om_duration_ms m + saturating_sub now started\<rparr>
       in if succeeded r then m\<lparr>plans_completed := plans_completed m + 1\<rparr>
          else m\<lparr>plans_failed := plans_failed m + 1\<rparr>);
     State_Monad.return r
   }"


section \<open>Execution plans\<close>

definition with_session :: "string \<Rightarrow> task \<Rightarrow> task" where
  "with_session session t =
     t\<lparr>tk_payload := json_set ''opencode-session-id'' (JString session)
         (if is_object (tk_payload t) then tk_payload t else JObject [])\<rparr>"

definition with_previous :: "json option \<Rightarrow> task \<Rightarrow> task" where
  "with_previous prev t =
     (case prev of None \<Rightarrow> t | Some v \<Rightarrow> t\<lparr>tk_payload := json_set ''previous-result'' v (tk_payload t)\<rparr>)"

fun execute_sequence ::
  "('w, 'r) orch_env \<Rightarrow> string \<Rightarrow> task list \<Rightarrow> json option \<Rightarrow> task_result option \<Rightarrow> ('w, task_result) orch_m" where
  "execute_sequence E session [] prev final =
     (case final of Some r \<Rightarrow> State_Monad.return r | None \<Rightarrow> o_failure E ''No tasks executed'')"
| "execute_sequence E session (t # ts) prev final = do {
     r \<leftarrow> wait_for_task E (with_previous prev (with_session session t)) None;
     if \<not> succeeded r then State_Monad.return r else execute_sequence E session ts (res_result r) (Some r)
   }"

definition execute_single_task :: "('w, 'r) orch_env \<Rightarrow> task \<Rightarrow> string \<Rightarrow> ('w, task_result) orch_m" where
  "execute_single_task E t session = wait_for_task E (with_session session t) None"

definition execute_specialist ::
  "(nat \<Rightarrow> ('w, 'r) pool_ops) \<Rightarrow> ('w, 'r) orch_env \<Rightarrow> specialist_pool \<Rightarrow> execution_plan \<Rightarrow> string \<Rightarrow> ('w, task_result) orch_m" where
  "execute_specialist Ps E sp p session =
     (case ep_tasks p of
        [] \<Rightarrow> o_failure E ''Empty task list in plan''
      | t # _ \<Rightarrow> in_oworld (execute_legacy Ps (unwrap_or ''default'' (ep_specialist p)) (with_session session t) sp))"

definition execute_plan :: "('w, 'r) orch_env \<Rightarrow> execution_plan \<Rightarrow> string \<Rightarrow> ('w, task_result) orch_m" where
  "execute_plan E p session =
     (case ep_kind p of
        PlanSingle \<Rightarrow>
          (case ep_tasks p of
             [] \<Rightarrow> o_failure E ''Empty task list in plan''
           | t # _ \<Rightarrow> execute_single_task E t session)
      | PlanSequential \<Rightarrow> execute_sequence E session (ep_tasks p) None None
      | PlanParallel \<Rightarrow> in_oworld (execute_parallel (oe_pool E) (ep_tasks p))
      | PlanSpecialistRoute \<Rightarrow> execute_specialist (\<lambda>_. oe_pool E) E (new_specialist_pool 0) p session
      | PlanDirect \<Rightarrow> do {
          i \<leftarrow> o_uuid E;
          trace \<leftarrow> o_uuid E;
          State_Monad.return (make_task_result
            \<lparr>mr_task_id = i, mr_trace_id = trace, mr_status = ''success'',
             mr_result = Some (JObject [(''message'', JString ''direct'')]), mr_error = None, mr_duration_ms = 0,
             mr_worker_id = None\<rparr>)
        })"

definition execute_plan_instance :: "('w, 'r) orch_env \<Rightarrow> execution_plan \<Rightarrow> string \<Rightarrow> ('w, task_result) orch_m" where
  "execute_plan_instance E p session =
     (if ep_kind p = PlanSpecialistRoute
      then do { s \<leftarrow> State_Monad.get; execute_specialist (oe_pools E) E (oc_specialists s) p session }
      else execute_plan E p session)"

end
