(* ===== verification/Orchestration_Rules.thy ===== *)
theory Orchestration_Rules
  imports Orchestrate
begin

text \<open>
  How to reason about the orchestrator's code: the effect of every primitive as a rule for \<open>wp\<close>, and
  \<open>keeps f m\<close>, which says that \<open>m\<close> does not change the part \<open>f\<close> of the state, with its rules.
\<close>

section \<open>The primitives\<close>

lemma wp_oworld [wp_rules]:
  "wp (in_oworld f) Q s \<longleftrightarrow> Q (fst (f (oc_world s))) (s\<lparr>oc_world := snd (f (oc_world s))\<rparr>)"
  by (simp add: in_oworld_def wp_state)

lemma wp_publish [wp_rules]:
  "wp (o_publish event payload) Q s \<longleftrightarrow> Q () (s\<lparr>oc_events := oc_events s @ [(event, payload)]\<rparr>)"
  by (simp add: o_publish_def wp_modify)

lemma wp_snapshot [wp_rules]: "wp o_snapshot Q s \<longleftrightarrow> Q (snd (oc_store s)) s"
  by (simp add: o_snapshot_def wp_rules)

lemma wp_now [wp_rules]:
  "wp (o_now E) Q s \<longleftrightarrow> Q (fst (pool_now (oe_pool E) (oc_world s))) (s\<lparr>oc_world := snd (pool_now (oe_pool E) (oc_world s))\<rparr>)"
  by (simp add: o_now_def wp_oworld)

lemma wp_uuid [wp_rules]:
  "wp (o_uuid E) Q s \<longleftrightarrow>
     Q (fst (fresh_uuid (oe_pool E) (oc_world s))) (s\<lparr>oc_world := snd (fresh_uuid (oe_pool E) (oc_world s))\<rparr>)"
  by (simp add: o_uuid_def wp_oworld)

lemma wp_metric [wp_rules]: "wp (o_metric f) Q s \<longleftrightarrow> Q () (s\<lparr>oc_metrics := f (oc_metrics s)\<rparr>)"
  by (simp add: o_metric_def wp_modify)

lemma wp_live [wp_rules]: "wp (o_live n f) Q s \<longleftrightarrow> Q () (s\<lparr>oc_live := im_insert n (f (live_of s n)) (oc_live s)\<rparr>)"
  by (simp add: o_live_def wp_modify)

lemma wp_append [wp_rules]:
  "wp (o_append E e) Q s \<longleftrightarrow>
     (let (now, w) = pool_now (oe_pool E) (oc_world s)
      in Q () (s\<lparr>oc_world := w, oc_store := spec_op (Append e now) (oc_store s)\<rparr>))"
  by (simp add: o_append_def wp_rules Let_def split: prod.split)

lemma tasks_append [simp]:
  "tasks (snd (spec_op (Append (TaskUpserted t) now) st)) = im_insert (task_id t) t (tasks (snd st))"
  by (cases st) (simp add: reduce_event_def Let_def)

definition o_tasks :: "'w orch \<Rightarrow> (string, task_record) imap" where
  "o_tasks s = tasks (snd (oc_store s))"


section \<open>What code keeps\<close>

definition keeps :: "('s \<Rightarrow> 'b) \<Rightarrow> ('s, 'a) state \<Rightarrow> bool" where
  "keeps f m \<longleftrightarrow> (\<forall>s. f (snd (run_state m s)) = f s)"

named_theorems keeps_rules \<open>what code does not change\<close>

lemma keepsD: "keeps f m \<Longrightarrow> run_state m s = (r, s') \<Longrightarrow> f s' = f s"
  unfolding keeps_def by (metis snd_conv)

lemma keeps_wp: "keeps f m \<Longrightarrow> wp m (\<lambda>_ s'. f s' = f s) s"
  by (simp add: keeps_def wp_run)

lemma keeps_return [keeps_rules]: "keeps f (State_Monad.return a)"
  by (simp add: keeps_def)

lemma keeps_bind [keeps_rules]: "keeps f m \<Longrightarrow> (\<And>a. keeps f (g a)) \<Longrightarrow> keeps f (State_Monad.bind m g)"
  unfolding keeps_def by (auto split: prod.split) (metis snd_conv)

lemma keeps_get [keeps_rules]: "keeps f State_Monad.get"
  by (simp add: keeps_def)

lemma keeps_modify: "(\<And>s. f (g s) = f s) \<Longrightarrow> keeps f (modify_state g)"
  by (simp add: keeps_def modify_state_def)

lemma keeps_if [keeps_rules]: "(b \<Longrightarrow> keeps f m) \<Longrightarrow> (\<not> b \<Longrightarrow> keeps f n) \<Longrightarrow> keeps f (if b then m else n)"
  by simp

lemma keeps_option [keeps_rules]:
  "(x = None \<Longrightarrow> keeps f m) \<Longrightarrow> (\<And>y. x = Some y \<Longrightarrow> keeps f (g y)) \<Longrightarrow>
   keeps f (case x of None \<Rightarrow> m | Some y \<Rightarrow> g y)"
  by (cases x) simp_all

lemma keeps_prod [keeps_rules]: "(\<And>a b. x = (a, b) \<Longrightarrow> keeps f (g a b)) \<Longrightarrow> keeps f (case x of (a, b) \<Rightarrow> g a b)"
  by (cases x) simp

lemma keeps_oworld: "(\<And>s w. f (s\<lparr>oc_world := w\<rparr>) = f s) \<Longrightarrow> keeps f (in_oworld g)"
  by (simp add: keeps_def in_oworld_def)

lemma keeps_map_state [keeps_rules]: "(\<And>x. keeps f (g x)) \<Longrightarrow> keeps f (map_state g xs)"
  by (induction xs) (auto intro!: keeps_return keeps_bind)

lemma keeps_for_each [keeps_rules]: "(\<And>x. keeps f (g x)) \<Longrightarrow> keeps f (for_each g xs)"
  by (induction xs) (auto intro!: keeps_return keeps_bind)

text \<open>The counters of plans, which only the main chain itself changes.\<close>

definition plan_counters :: "'w orch \<Rightarrow> nat \<times> nat \<times> nat" where
  "plan_counters s = (plans_created (oc_metrics s), plans_completed (oc_metrics s), plans_failed (oc_metrics s))"

lemma counters_keep [keeps_rules]:
  "keeps plan_counters (in_oworld g)" "keeps plan_counters (o_now E)" "keeps plan_counters (o_uuid E)"
  "keeps plan_counters (o_publish e j)" "keeps plan_counters (o_append E ev)" "keeps plan_counters o_snapshot"
  "keeps plan_counters (o_live n h)" "keeps plan_counters (upsert_plan E p st err)"
  "keeps plan_counters (upsert_subtask E sb l st pos err)"
  "keeps plan_counters (o_submit E t)" "keeps plan_counters (o_recv E rx)"
  unfolding upsert_plan_def upsert_subtask_def o_append_def o_snapshot_def o_now_def o_uuid_def o_publish_def o_live_def
    o_submit_def o_recv_def Let_def
  by (intro keeps_rules keeps_modify keeps_oworld; simp add: plan_counters_def)+

lemma counters_keep_subtask [keeps_rules]:
  "keeps plan_counters (finalize_subtask_result E st l r pos)" "keeps plan_counters (mark_subtask_started E st l pos)"
  "keeps plan_counters (wait_for_task E t ctx)" "keeps plan_counters (o_failure E msg)"
  unfolding finalize_subtask_result_def mark_subtask_started_def wait_for_task_def o_failure_def o_metric_def
    publish_wait_started_def publish_wait_finished_def Let_def
  by (intro keeps_rules keeps_modify; simp add: plan_counters_def)+

lemma counters_keep_lower [keeps_rules]: "keeps plan_counters (lower_subtask E p session st)"
  unfolding lower_subtask_def Let_def by (intro keeps_rules)

lemma counters_keep_lowered [keeps_rules]: "keeps plan_counters (execute_lowered_subtask E p l pos c)"
  unfolding execute_lowered_subtask_def Let_def by (intro keeps_rules)

lemma counters_keep_serial [keeps_rules]: "keeps plan_counters (serial_loop E p pos ls c r)"
  by (induction ls arbitrary: c r) (auto intro!: keeps_rules)

lemma counters_keep_submit [keeps_rules]: "keeps plan_counters (submit_group E p pos c ls)"
  by (induction ls) (auto intro!: keeps_rules)

lemma counters_keep_collect [keeps_rules]: "keeps plan_counters (collect_group E p pos rxs c r)"
proof (induction rxs arbitrary: c r)
  case (Cons x rxs)
  have "keeps plan_counters (collect_one E st l rx pos)" for st l rx
    unfolding collect_one_def publish_wait_started_def publish_wait_finished_def Let_def by (intro keeps_rules)
  then show ?case
    using Cons by (cases x) (auto intro!: keeps_rules)
qed (auto intro: keeps_rules)

lemma counters_keep_group [keeps_rules]: "keeps plan_counters (execute_group E p ls i c)"
  unfolding execute_group_def Let_def by (intro keeps_rules)

lemma counters_keep_finalize [keeps_rules]: "keeps plan_counters (finalize_plan E p st)"
  unfolding finalize_plan_def Let_def by (intro keeps_rules)

end
