(* ===== verification/Orchestration_Props.thy ===== *)
theory Orchestration_Props
  imports Orchestration_Rules
begin

text \<open>
  What the orchestrator guarantees: how a plan ends in the runtime state and in the metrics, that a subtask
  starts only after its dependencies, and what the code does when a subtask is blocked or a parallel group
  fails.
\<close>

section \<open>The end of a plan\<close>

definition plan_ended :: "orchestration_plan \<Rightarrow> task_status \<Rightarrow> string option \<Rightarrow> 'w orch \<Rightarrow> bool" where
  "plan_ended p st err s \<longleftrightarrow>
     (\<exists>t. map_of (o_tasks s) (plan_record_id (op_id p)) = Some t \<and> status t = st \<and> error t = err \<and> completed_at t \<noteq> None)"

lemma wp_upsert_plan:
  "wp (upsert_plan E p st err) (\<lambda>_ s'. (\<exists>t now turn. o_tasks s' = im_insert (plan_record_id (op_id p)) t (o_tasks s) \<and>
     t = plan_record p st err now (map_of (o_tasks s) (plan_record_id (op_id p))) turn)) s"
  by (auto simp: upsert_plan_def wp_rules o_tasks_def plan_record_def split: prod.split)

lemma upsert_plan_ends:
  "st = Completed \<or> st = Failed \<Longrightarrow> wp (upsert_plan E p st err) (\<lambda>_ s'. plan_ended p st err s') s"
  by (rule wp_mono [OF wp_upsert_plan])
    (auto simp: plan_ended_def im.get_ins plan_record_def finished_at_def)

lemma finalize_keeps_tasks: "keeps o_tasks (finalize_plan E p st)"
  unfolding finalize_plan_def o_now_def o_publish_def o_snapshot_def Let_def
  by (intro keeps_rules keeps_modify keeps_oworld; simp add: o_tasks_def)

text \<open>Both ends of a plan: the record first, then the counters.\<close>

definition ended_with ::
  "orchestration_plan \<Rightarrow> task_status \<Rightarrow> string option \<Rightarrow> nat \<times> nat \<times> nat \<Rightarrow> 'w orch \<Rightarrow> bool" where
  "ended_with p st err cs s \<longleftrightarrow> plan_ended p st err s \<and> plan_counters s = cs"

lemma ended_upsert:
  "st = Completed \<or> st = Failed \<Longrightarrow> wp (upsert_plan E p st err) (\<lambda>_. ended_with p st err (plan_counters s)) s"
  unfolding ended_with_def by (intro wp_conj upsert_plan_ends keeps_wp keeps_rules) simp

lemma ended_finalize: "ended_with p st err cs s \<Longrightarrow> wp (finalize_plan E p x) (\<lambda>_. ended_with p st err cs) s"
  using keeps_wp [OF finalize_keeps_tasks, of E p x s] keeps_wp [OF counters_keep_finalize, of E p x s]
  by (auto simp: wp_run ended_with_def plan_ended_def)

lemma ended_world [simp]: "ended_with p st err cs (s\<lparr>oc_world := w\<rparr>) = ended_with p st err cs s"
  by (simp add: ended_with_def plan_ended_def o_tasks_def plan_counters_def)

lemma fail_plan_spec:
  "plan_counters s = (a, b, c) \<Longrightarrow> wp (fail_plan E p started r) (\<lambda>_. ended_with p Failed (res_error r) (a, b, Suc c)) s"
  unfolding fail_plan_def
proof (rule wp_seq [OF ended_upsert], simp, rule wp_seq, erule ended_finalize)
  fix s' :: "'a orch"
  assume "ended_with p Failed (res_error r) (plan_counters s) s'" "plan_counters s = (a, b, c)"
  then show "wp (do { now \<leftarrow> o_now E; o_metric (\<lambda>m. m\<lparr>plans_failed := plans_failed m + 1,
      om_duration_ms := om_duration_ms m + saturating_sub now started\<rparr>) })
      (\<lambda>_. ended_with p Failed (res_error r) (a, b, Suc c)) s'"
    by (simp add: wp_rules ended_with_def plan_ended_def o_tasks_def plan_counters_def)
qed

lemma final_result_success: "wp (build_final_result E p ls c last_success) (\<lambda>r _. succeeded r) s"
  unfolding build_final_result_def Let_def
  by (rule wp_seq [where P = "\<lambda>_ _. True"], simp add: wp_run)
    (auto simp: wp_rules succeeded_def make_task_result_def split: prod.split option.split)

lemma counters_keep_final [keeps_rules]: "keeps plan_counters (build_final_result E p ls c last_success)"
  unfolding build_final_result_def aggregated_result_def infer_missing_context_question_def try_llm_infer_def Let_def
  by (intro keeps_rules)

lemma complete_plan_spec:
  assumes "\<forall>r. last_success = Some r \<longrightarrow> succeeded r" "plan_counters s = (a, b, c)"
  shows "wp (complete_plan E p ls started ctx last_success)
    (\<lambda>out s'. succeeded (or_result out) \<and> ended_with p Completed None (a, Suc b, c) s') s"
proof -
  let ?result = "case last_success of
         Some r \<Rightarrow> if asks_question (res_result r) then State_Monad.return r
                    else build_final_result E p ls ctx last_success
       | None \<Rightarrow> build_final_result E p ls ctx last_success"
  have "wp ?result (\<lambda>r s1. succeeded r \<and> plan_counters s1 = plan_counters s) s"
    using assms(1) wp_conj [OF final_result_success keeps_wp [OF counters_keep_final]]
    by (auto simp: wp_rules split: option.split)
  then show ?thesis
    unfolding complete_plan_def
  proof (rule wp_seq)
    fix r and s1 :: "'a orch"
    assume r: "succeeded r \<and> plan_counters s1 = plan_counters s"
    let ?Q = "\<lambda>out s'. succeeded (or_result out) \<and> ended_with p Completed None (a, Suc b, c) s'"
    have "wp (do { now \<leftarrow> o_now E;
        o_metric (\<lambda>m. m\<lparr>plans_completed := plans_completed m + 1, om_duration_ms := om_duration_ms m + saturating_sub now started\<rparr>);
        State_Monad.return \<lparr>or_result = annotate_result p ls r, or_lowered = ls, was_decomposed = True\<rparr> }) ?Q s3"
      if "ended_with p Completed None (plan_counters s1) s3" for s3
      using that r assms(2)
      by (simp add: wp_rules ended_with_def plan_ended_def o_tasks_def plan_counters_def annotate_result_def succeeded_def)
    then show "wp (let r = annotate_result p ls r in do {
        upsert_plan E p Completed None;
        finalize_plan E p (res_status r);
        now \<leftarrow> o_now E;
        o_metric (\<lambda>m. m\<lparr>plans_completed := plans_completed m + 1, om_duration_ms := om_duration_ms m + saturating_sub now started\<rparr>);
        State_Monad.return \<lparr>or_result = r, or_lowered = ls, was_decomposed = True\<rparr> }) ?Q s1"
      unfolding Let_def by (intro wp_seq [OF ended_upsert] wp_seq [OF ended_finalize]) auto
  qed
qed

lemma run_groups_spec:
  "(\<forall>r. last_success = Some r \<longrightarrow> succeeded r) \<Longrightarrow> plan_counters s = (x, y, z) \<Longrightarrow>
   wp (run_groups E p ls started i gs c last_success) (\<lambda>(out, c) s'. case out of
       PlanStopped r \<Rightarrow> \<not> succeeded r \<and> ended_with p Failed (res_error r) (x, y, Suc z) s'
     | PlanDone r \<Rightarrow> (\<forall>x. r = Some x \<longrightarrow> succeeded x) \<and> plan_counters s' = (x, y, z)) s"
proof (induction gs arbitrary: i c last_success s)
  case Nil
  then show ?case
    by (simp add: wp_return)
next
  case (Cons g gs)
  let ?ts = "tasks_of_group ls g"
  show ?case
  proof (cases "?ts = []")
    case True
    then show ?thesis
      using Cons by (simp add: Let_def)
  next
    case False
    have g: "wp (execute_group E p ?ts i c) (\<lambda>_ s1. plan_counters s1 = plan_counters s) s"
      by (rule keeps_wp [OF counters_keep_group])
    have q: "wp (upsert_plan E p Completed None) (\<lambda>_ s2. plan_counters s2 = plan_counters s1) s1" for s1
      by (rule keeps_wp) (rule keeps_rules)
    let ?Q = "\<lambda>(out, c) s'. case out of
       PlanStopped r \<Rightarrow> \<not> succeeded r \<and> ended_with p Failed (res_error r) (x, y, Suc z) s'
     | PlanDone r \<Rightarrow> (\<forall>x. r = Some x \<longrightarrow> succeeded x) \<and> plan_counters s' = (x, y, z)"
    show ?thesis
      unfolding run_groups.simps Let_def if_not_P [OF False]
    proof (rule wp_seq [OF g])
      fix a :: "task_result option \<times> execution_context" and s1 :: "'a orch"
      assume s1: "plan_counters s1 = plan_counters s"
      obtain r c1 where a: "a = (r, c1)"
        by fastforce
      show "wp (case a of (r, c) \<Rightarrow> (case r of
          None \<Rightarrow> run_groups E p ls started (Suc i) gs c last_success
        | Some r \<Rightarrow>
            if succeeded r then
              (if asks_question (res_result r)
               then do { upsert_plan E p Completed None; State_Monad.return (PlanDone (Some r), c) }
               else run_groups E p ls started (Suc i) gs c (Some r))
            else do { fail_plan E p started r; State_Monad.return (PlanStopped r, c) })) ?Q s1"
      proof (cases r)
        case None
        then show ?thesis
          using Cons s1 a by simp
      next
        case (Some res)
        have "wp (run_groups E p ls started (Suc i) gs c1 (Some res)) ?Q s1" if "succeeded res"
          using that Cons s1 by simp
        moreover have "wp (do { upsert_plan E p Completed None; State_Monad.return (PlanDone (Some res), c1) }) ?Q s1"
          if "succeeded res"
          using that Cons.prems(2) s1 by (intro wp_seq [OF q]) (simp add: wp_return)
        moreover have "wp (do { fail_plan E p started res; State_Monad.return (PlanStopped res, c1) }) ?Q s1"
          if "\<not> succeeded res"
          using that Cons.prems(2) s1 by (intro wp_seq [OF fail_plan_spec]) (simp_all add: wp_return)
        ultimately show ?thesis
          using a Some by simp
      qed
    qed
  qed
qed

text \<open>
  C6. A plan always ends: its record in the runtime state is completed when the result is a success, and
  failed with the error of the result when it is not, in both cases with the time of completion; the plan is
  counted once as created and once as completed or failed.\<close>
theorem plan_outcome_recorded:
  assumes "run_state (execute_orchestration_plan_impl E p request job session) s = (out, s')"
  shows "plan_ended p (if succeeded (or_result out) then Completed else Failed)
      (if succeeded (or_result out) then None else res_error (or_result out)) s' \<and>
    plans_created (oc_metrics s') = plans_created (oc_metrics s) + 1 \<and>
    plans_completed (oc_metrics s') = plans_completed (oc_metrics s) + (if succeeded (or_result out) then 1 else 0) \<and>
    plans_failed (oc_metrics s') = plans_failed (oc_metrics s) + (if succeeded (or_result out) then 0 else 1)"
proof -
  obtain x y z where cs: "plan_counters s = (x, y, z)"
    by (cases "plan_counters s")
  let ?Q = "\<lambda>out s'. if succeeded (or_result out) then ended_with p Completed None (Suc x, Suc y, z) s'
     else ended_with p Failed (res_error (or_result out)) (Suc x, y, Suc z) s'"
  have finish: "wp (case a of (out, c) \<Rightarrow> (case out of PlanStopped r \<Rightarrow> State_Monad.return \<lparr>or_result = r, or_lowered = ls, was_decomposed = True\<rparr>
     | PlanDone last_success \<Rightarrow> complete_plan E p ls started c last_success)) ?Q s1"
    if "case a of (out, c) \<Rightarrow> (case out of
         PlanStopped r \<Rightarrow> \<not> succeeded r \<and> ended_with p Failed (res_error r) (Suc x, y, Suc z) s1
       | PlanDone r \<Rightarrow> (\<forall>x. r = Some x \<longrightarrow> succeeded x) \<and> plan_counters s1 = (Suc x, y, z))"
    for a ls started and s1 :: "'a orch"
  proof -
    obtain out c where a: "a = (out, c)"
      by (cases a)
    show ?thesis
    proof (cases out)
      case (PlanStopped r)
      then show ?thesis
        using that a by (simp add: wp_return)
    next
      case (PlanDone r)
      then have "wp (complete_plan E p ls started c r)
          (\<lambda>out s'. succeeded (or_result out) \<and> ended_with p Completed None (Suc x, Suc y, z) s') s1"
        using that a by (intro complete_plan_spec) simp_all
      then show ?thesis
        using a PlanDone by (auto elim: wp_mono)
    qed
  qed
  note step = wp_seq [OF keeps_wp [where f = plan_counters]]
  have "wp (execute_orchestration_plan_impl E p request job session) ?Q s"
    unfolding execute_orchestration_plan_impl_def
  proof (rule step, rule keeps_rules, rule step, intro keeps_rules, rule step, rule keeps_rules, rule step, intro keeps_rules)
    fix started ls u v and s1 s2 s3 s4 :: "'a orch"
    assume "plan_counters s1 = plan_counters s" "plan_counters s2 = plan_counters s1" "plan_counters s3 = plan_counters s2"
      "plan_counters s4 = plan_counters s3"
    then have s4: "plan_counters s4 = (x, y, z)"
      using cs by simp
    let ?s5 = "s4\<lparr>oc_events := oc_events s4 @ [(''orchestration_plan_created'', plan_created_payload p ls)],
      oc_metrics := (oc_metrics s4)\<lparr>plans_created := plans_created (oc_metrics s4) + 1\<rparr>\<rparr>"
    have s5: "plan_counters ?s5 = (Suc x, y, z)"
      using s4 by (simp add: plan_counters_def)
    have "wp (do {
        upsert_plan E p Running None;
        a \<leftarrow> run_groups E p ls started 0 (parallel_groups p) (new_execution_context request job (op_id p) session) None;
        case a of (out, c) \<Rightarrow> (case out of PlanStopped r \<Rightarrow> State_Monad.return \<lparr>or_result = r, or_lowered = ls, was_decomposed = True\<rparr>
        | PlanDone last_success \<Rightarrow> complete_plan E p ls started c last_success) }) ?Q ?s5"
    proof (rule step, rule keeps_rules, rule wp_seq, rule run_groups_spec)
      fix u and s6 :: "'a orch"
      assume "plan_counters s6 = plan_counters ?s5"
      then show "plan_counters s6 = (Suc x, y, z)"
        using s5 by simp
    qed (simp, rule finish, auto split: prod.splits)
    then show "wp (do {
        o_publish ''orchestration_plan_created'' (plan_created_payload p ls);
        o_metric (\<lambda>m. m\<lparr>plans_created := plans_created m + 1\<rparr>);
        upsert_plan E p Running None;
        a \<leftarrow> run_groups E p ls started 0 (parallel_groups p) (new_execution_context request job (op_id p) session) None;
        case a of (out, c) \<Rightarrow> (case out of PlanStopped r \<Rightarrow> State_Monad.return \<lparr>or_result = r, or_lowered = ls, was_decomposed = True\<rparr>
        | PlanDone last_success \<Rightarrow> complete_plan E p ls started c last_success) }) ?Q s4"
      by (simp add: wp_publish wp_metric wp_bind)
  qed
  then show ?thesis
    using assms cs by (auto simp: wp_run ended_with_def plan_counters_def split: if_splits)
qed


text \<open>A witness world: no clock, no events, a pool that answers every task with success.\<close>

definition idle_pool :: "(unit, task) pool_ops" where
  "idle_pool = \<lparr>submit = (\<lambda>t w. (t, w)), recv = (\<lambda>t w. (Some (make_task_result
     \<lparr>mr_task_id = tk_id t, mr_trace_id = tk_trace_id t, mr_status = ''success'', mr_result = Some (JString ''done''),
      mr_error = None, mr_duration_ms = 1, mr_worker_id = None\<rparr>), w)),
     recv_timeout = (\<lambda>t n w. (RecvClosed, w)), pool_now = (\<lambda>w. (7, w)), fresh_uuid = (\<lambda>w. (''id'', w))\<rparr>"

definition idle_env :: "(unit, task) orch_env" where
  "idle_env = \<lparr>oe_id = ''orchestrator'', oe_pool = idle_pool, oe_pools = (\<lambda>_. idle_pool),
     oe_config = default_orchestrator_config, oe_provider = None, task_decompose_prompt = [], context_infer_prompt = [],
     oe_json_text = (\<lambda>_. []), parse_specs = (\<lambda>_. None), parse_infer = (\<lambda>_. None)\<rparr>"

definition idle_state :: "unit orch" where
  "idle_state = new_orch () (0, empty_snapshot) (new_specialist_pool 0)"

definition demo_plan :: "subtasks \<Rightarrow> orchestration_plan" where
  "demo_plan m = new_plan ''p'' ''request'' ''trace'' ''job'' (Some ''llm-decompose'') m 0"

lemma plan_outcome_recorded_witness:
  "\<exists>out s'. run_state (execute_orchestration_plan_impl idle_env (demo_plan []) ''request'' ''job'' ''session'') idle_state = (out, s') \<and>
     plans_created (oc_metrics s') = 1 \<and> plans_completed (oc_metrics s') + plans_failed (oc_metrics s') = 1"
proof -
  obtain out s' where r:
    "run_state (execute_orchestration_plan_impl idle_env (demo_plan []) ''request'' ''job'' ''session'') idle_state = (out, s')"
    by fastforce
  have "plans_created (oc_metrics idle_state) = 0 \<and> plans_completed (oc_metrics idle_state) = 0 \<and>
      plans_failed (oc_metrics idle_state) = 0"
    by (simp add: idle_state_def new_orch_def zero_orchestrator_metrics_def)
  then show ?thesis
    using plan_outcome_recorded [OF r] r by (auto split: if_splits)
qed

end
