(* ===== verification/Orchestration_Order.thy ===== *)
theory Orchestration_Order
  imports Orchestration_Props "HOL-Library.Sublist"
begin

text \<open>
  The order in which a plan runs its subtasks, read off the events the orchestrator publishes: started
  subtasks follow the parallel groups, and each starts after all of its dependencies have completed.
\<close>

section \<open>Reading the log\<close>

type_synonym orch_log = "(string \<times> json) list"

definition subject :: "string \<times> json \<Rightarrow> string option" where
  "subject e = json_str ''subtask_name'' (snd e)"

definition started_names :: "orch_log \<Rightarrow> string list" where
  "started_names es = List.map_filter (\<lambda>e. if fst e = ''orchestration_subtask_started'' then subject e else None) es"

definition completed_names :: "orch_log \<Rightarrow> string list" where
  "completed_names es = List.map_filter (\<lambda>e. if fst e = ''orchestration_subtask_completed'' then subject e else None) es"

definition ordered_log :: "subtasks \<Rightarrow> orch_log \<Rightarrow> bool" where
  "ordered_log m es \<longleftrightarrow>
     (\<forall>us e vs. es = us @ e # vs \<longrightarrow> (\<forall>n \<in> set (started_names [e]). set (deps_of m n) \<subseteq> set (completed_names us)))"

lemma names_simps [simp]:
  "started_names [] = []" "started_names (es @ fs) = started_names es @ started_names fs"
  "completed_names [] = []" "completed_names (es @ fs) = completed_names es @ completed_names fs"
  by (simp_all add: started_names_def completed_names_def List.map_filter_def)

lemma ordered_log_Nil [simp]: "ordered_log m []"
  by (simp add: ordered_log_def)

lemma ordered_log_snoc:
  "ordered_log m (es @ [e]) \<longleftrightarrow>
     ordered_log m es \<and> (\<forall>n \<in> set (started_names [e]). set (deps_of m n) \<subseteq> set (completed_names es))"
proof
  assume l: "ordered_log m (es @ [e])"
  have "ordered_log m es"
    unfolding ordered_log_def
  proof (intro allI impI)
    fix us f vs
    assume "es = us @ f # vs"
    then have "es @ [e] = us @ f # (vs @ [e])"
      by simp
    then show "\<forall>n \<in> set (started_names [f]). set (deps_of m n) \<subseteq> set (completed_names us)"
      using l unfolding ordered_log_def by blast
  qed
  then show "ordered_log m es \<and> (\<forall>n \<in> set (started_names [e]). set (deps_of m n) \<subseteq> set (completed_names es))"
    using l unfolding ordered_log_def by blast
next
  assume l: "ordered_log m es \<and> (\<forall>n \<in> set (started_names [e]). set (deps_of m n) \<subseteq> set (completed_names es))"
  show "ordered_log m (es @ [e])"
    unfolding ordered_log_def
  proof (intro allI impI)
    fix us f vs
    assume e: "es @ [e] = us @ f # vs"
    show "\<forall>n \<in> set (started_names [f]). set (deps_of m n) \<subseteq> set (completed_names us)"
    proof (cases vs rule: rev_cases)
      case Nil
      then show ?thesis
        using e l by simp
    next
      case (snoc ws x)
      then have "es = us @ f # ws"
        using e by simp
      then show ?thesis
        using l unfolding ordered_log_def by blast
    qed
  qed
qed

text \<open>The log after a piece of code: what it started and completed, in order.\<close>

definition quiet :: "string \<times> json \<Rightarrow> bool" where
  "quiet e \<longleftrightarrow> fst e \<noteq> ''orchestration_subtask_started'' \<and> fst e \<noteq> ''orchestration_subtask_completed''"

lemma quiet_names: "list_all quiet es \<Longrightarrow> started_names es = [] \<and> completed_names es = []"
  by (induction es) (auto simp: started_names_def completed_names_def List.map_filter_def quiet_def)

lemma ordered_log_quiet: "list_all quiet fs \<Longrightarrow> ordered_log m (es @ fs) \<longleftrightarrow> ordered_log m es"
proof (induction fs rule: rev_induct)
  case (snoc f fs)
  then show ?case
    using quiet_names [of "[f]"] by (simp add: ordered_log_snoc flip: append_assoc)
qed simp


section \<open>The events of one subtask\<close>

definition silent :: "('w orch, 'a) state \<Rightarrow> bool" where
  "silent m \<longleftrightarrow> keeps oc_events m"

lemma events_keep [keeps_rules]:
  "keeps oc_events (in_oworld g)" "keeps oc_events (o_now E)" "keeps oc_events (o_uuid E)" "keeps oc_events (o_append E ev)"
  "keeps oc_events o_snapshot" "keeps oc_events (o_live n h)" "keeps oc_events (o_metric k)"
  "keeps oc_events (upsert_plan E p st err)" "keeps oc_events (upsert_subtask E sb l st pos err)"
  "keeps oc_events (o_submit E t)" "keeps oc_events (o_recv E rx)" "keeps oc_events (o_failure E msg)"
  unfolding upsert_plan_def upsert_subtask_def o_append_def o_snapshot_def o_now_def o_uuid_def o_live_def o_metric_def
    o_submit_def o_recv_def o_failure_def Let_def
  by (intro keeps_rules keeps_modify keeps_oworld; simp)+

lemmas event_step = wp_seq [OF keeps_wp [where f = oc_events]]

lemma wp_started:
  "wp (mark_subtask_started E st l pos)
     (\<lambda>_ s'. \<exists>j. oc_events s' = oc_events s @ [(''orchestration_subtask_started'', j)] \<and> json_str ''subtask_name'' j = Some (sub_name st)) s"
  unfolding mark_subtask_started_def
  by (rule event_step, rule keeps_rules, rule event_step, rule keeps_rules, rule event_step, rule keeps_rules)
    (simp add: wp_publish subtask_event_def)

lemma wp_finalized:
  "wp (finalize_subtask_result E st l r pos)
     (\<lambda>_ s'. \<exists>j. oc_events s' = oc_events s @ [(if succeeded r then ''orchestration_subtask_completed''
        else ''orchestration_subtask_failed'', j)] \<and> json_str ''subtask_name'' j = Some (sub_name st)) s"
proof -
  have "wp (if succeeded r then do {
       upsert_subtask E st l Completed (Some pos) None;
       o_publish ''orchestration_subtask_completed'' (JObject payload)
     } else do {
       upsert_subtask E st l Failed (Some pos) (res_error r);
       o_publish ''orchestration_subtask_failed'' (json_set ''error'' (opt_json JString (res_error r)) (JObject payload))
     }) (\<lambda>_ s'. \<exists>j. oc_events s' = oc_events s @ [(if succeeded r then ''orchestration_subtask_completed''
        else ''orchestration_subtask_failed'', j)] \<and> json_str ''subtask_name'' j = Some (sub_name st)) s1"
    if "oc_events s1 = oc_events s" "map_of payload ''subtask_name'' = Some (JString (sub_name st))"
    for s1 :: "'a orch" and payload
  proof -
    have j: "json_str ''subtask_name'' (JObject payload) = Some (sub_name st)"
      "json_str ''subtask_name'' (json_set ''error'' v (JObject payload)) = Some (sub_name st)" for v
      using that(2) json_get_set [of "JObject payload" "''subtask_name''" "''error''" v]
      by (simp_all add: json_str_def del: json_str_simps)
    show ?thesis
    proof (cases "succeeded r")
      case True
      have "wp (do { upsert_subtask E st l Completed (Some pos) None;
          o_publish ''orchestration_subtask_completed'' (JObject payload) })
          (\<lambda>_ s'. \<exists>j. oc_events s' = oc_events s @ [(''orchestration_subtask_completed'', j)] \<and>
             json_str ''subtask_name'' j = Some (sub_name st)) s1"
        using that(1) j(1) by (intro event_step keeps_rules) (auto simp: wp_publish)
      then show ?thesis
        using True by simp
    next
      case False
      have "wp (do { upsert_subtask E st l Failed (Some pos) (res_error r);
          o_publish ''orchestration_subtask_failed'' (json_set ''error'' (opt_json JString (res_error r)) (JObject payload)) })
          (\<lambda>_ s'. \<exists>j. oc_events s' = oc_events s @ [(''orchestration_subtask_failed'', j)] \<and>
             json_str ''subtask_name'' j = Some (sub_name st)) s1"
        using that(1) j(2) by (intro event_step keeps_rules) (auto simp: wp_publish)
      then show ?thesis
        using False by simp
    qed
  qed
  then show ?thesis
    unfolding finalize_subtask_result_def Let_def
    by (intro event_step keeps_rules) (simp add: subtask_event_def)
qed

text \<open>Answers of the pool without a blocked reason.\<close>

definition unblocked :: "('w, 'r) orch_env \<Rightarrow> bool" where
  "unblocked E \<longleftrightarrow> (\<forall>rx w r. fst (recv (oe_pool E) rx w) = Some r \<longrightarrow> res_blocked_reason r = None)"

lemma unblocked_answer: "unblocked E \<Longrightarrow> res_blocked_reason (or_closed t (fst (recv (oe_pool E) rx w))) = None"
  by (cases "fst (recv (oe_pool E) rx w)")
    (auto simp: unblocked_def or_closed_def task_failure_def make_task_result_def)

lemma wp_waited:
  "unblocked E \<Longrightarrow> wp (wait_for_task E t (Some c))
     (\<lambda>r s'. \<exists>fs. oc_events s' = oc_events s @ fs \<and> list_all quiet fs \<and> res_blocked_reason r = None) s"
  unfolding wait_for_task_def
  by (simp add: wp_rules o_submit_def o_recv_def publish_wait_started_def publish_wait_finished_def Let_def quiet_def
      unblocked_answer)

definition plan_wf :: "orchestration_plan \<Rightarrow> bool" where
  "plan_wf p \<longleftrightarrow> im_wf (op_subtasks p) \<and> execution_order p = topological_sort (op_subtasks p) \<and>
     parallel_groups p = compute_parallel_groups (op_subtasks p) (execution_order p) \<and>
     (\<forall>n st. map_of (op_subtasks p) n = Some st \<longrightarrow> sub_name st = n)"

text \<open>
  \<open>advances m ns all s s'\<close>: from \<open>s\<close> to \<open>s'\<close> an initial part of \<open>ns\<close> was started, in order, and all of it
  started and completed if \<open>all\<close>.
\<close>

definition advances :: "subtasks \<Rightarrow> string list \<Rightarrow> bool \<Rightarrow> 'w orch \<Rightarrow> 'w orch \<Rightarrow> bool" where
  "advances m ns full s s' \<longleftrightarrow>
     ordered_log m (oc_events s') \<and> set (completed_names (oc_events s)) \<subseteq> set (completed_names (oc_events s')) \<and>
     (\<exists>pre. prefix pre ns \<and> started_names (oc_events s') = started_names (oc_events s) @ pre) \<and>
     (full \<longrightarrow> started_names (oc_events s') = started_names (oc_events s) @ ns \<and> set ns \<subseteq> set (completed_names (oc_events s')))"

lemma advances_none: "ordered_log m (oc_events s) \<Longrightarrow> advances m [] b s s"
  by (simp add: advances_def)

lemma advances_stop: "advances m ns b s s' \<Longrightarrow> advances m ns False s s'"
  by (auto simp: advances_def)

lemma advances_stay: "ordered_log m (oc_events s) \<Longrightarrow> advances m ns False s s"
  unfolding advances_def by auto

lemma advances_append:
  assumes "advances m ns True s s1" "advances m ns' b s1 s2"
  shows "advances m (ns @ ns') b s s2"
proof -
  obtain pre where pre: "prefix pre ns'" "started_names (oc_events s2) = started_names (oc_events s1) @ pre"
    using assms(2) by (auto simp: advances_def)
  have "prefix (ns @ pre) (ns @ ns')" "started_names (oc_events s2) = started_names (oc_events s) @ ns @ pre"
    using assms(1) pre by (simp_all add: advances_def)
  then show ?thesis
    using assms unfolding advances_def by (intro conjI exI) auto
qed

lemma advances_extend: "advances m ns b s s1 \<Longrightarrow> advances m (ns @ ns') False s s1"
  unfolding advances_def by (auto intro: prefix_prefix)

lemma one_subtask:
  assumes "unblocked E" "map_of (op_subtasks p) (lt_name l) = Some st" "sub_name st = lt_name l"
    "ordered_log m (oc_events s)" "set (deps_of m (lt_name l)) \<subseteq> set (completed_names (oc_events s))"
  shows "wp (execute_lowered_subtask E p l pos c)
    (\<lambda>a s'. res_blocked_reason (fst a) = None \<and> advances m [lt_name l] (succeeded (fst a)) s s') s"
proof -
  have "advances m [lt_name l] (succeeded r) s s'"
    if "oc_events s' = ((oc_events s @ [(''orchestration_subtask_started'', j)]) @ fs) @
        [(if succeeded r then ''orchestration_subtask_completed'' else ''orchestration_subtask_failed'', j')]"
      "json_str ''subtask_name'' j = Some (lt_name l)" "json_str ''subtask_name'' j' = Some (lt_name l)" "list_all quiet fs"
    for j fs r j' and s' :: "'a orch"
  proof -
    have e: "started_names [(''orchestration_subtask_started'', j)] = [lt_name l]"
      "completed_names [(''orchestration_subtask_started'', j)] = []"
      "started_names [(if succeeded r then ''orchestration_subtask_completed'' else ''orchestration_subtask_failed'', j')] = []"
      "completed_names [(if succeeded r then ''orchestration_subtask_completed'' else ''orchestration_subtask_failed'', j')] =
         (if succeeded r then [lt_name l] else [])"
      using that(2,3) by (simp_all add: started_names_def completed_names_def List.map_filter_def subject_def)
    have "ordered_log m (oc_events s')"
      unfolding that(1) by (subst ordered_log_snoc, subst ordered_log_quiet [OF that(4)], subst ordered_log_snoc)
        (use assms(4,5) e in auto)
    moreover have "started_names (oc_events s') = started_names (oc_events s) @ [lt_name l]"
      "completed_names (oc_events s') = completed_names (oc_events s) @ (if succeeded r then [lt_name l] else [])"
      unfolding that(1) names_simps using e quiet_names [OF that(4)] by (simp_all only: append_Nil append_Nil2 if_cancel)
    ultimately show ?thesis
      unfolding advances_def by auto
  qed note adv = this
  show ?thesis
    unfolding execute_lowered_subtask_def Let_def assms(2) option.case
    by (rule wp_seq [OF wp_started], rule wp_seq [OF wp_waited [OF assms(1)]], rule wp_seq [OF wp_finalized])
      (auto simp: wp_return assms(3) intro!: adv)
qed


section \<open>Groups\<close>

text \<open>The group went through: there is no result, or a success that asks nothing.\<close>

definition went_through :: "task_result option \<Rightarrow> bool" where
  "went_through r \<longleftrightarrow> (case r of None \<Rightarrow> True | Some x \<Rightarrow> succeeded x \<and> \<not> asks_question (res_result x))"

definition ready :: "subtasks \<Rightarrow> 'w orch \<Rightarrow> lowered_task list \<Rightarrow> bool" where
  "ready m s ls \<longleftrightarrow> ordered_log m (oc_events s) \<and>
     (\<forall>l \<in> set ls. (\<exists>st. map_of m (lt_name l) = Some st \<and> sub_name st = lt_name l) \<and>
        set (deps_of m (lt_name l)) \<subseteq> set (completed_names (oc_events s)))"

lemma ready_advances: "ready m s (l # ls) \<Longrightarrow> advances m ns b s s' \<Longrightarrow> ready m s' ls"
  unfolding ready_def advances_def by (auto dest: bspec)

lemma serial_advances:
  assumes "unblocked E"
  shows "ready (op_subtasks p) s ls \<Longrightarrow> wp (serial_loop E p pos ls c last_success)
    (\<lambda>a s'. advances (op_subtasks p) (map lt_name ls) (went_through (fst a)) s s') s"
proof (induction ls arbitrary: s c last_success)
  case Nil
  then show ?case
    by (simp add: wp_return advances_none ready_def)
next
  case (Cons l ls)
  let ?m = "op_subtasks p"
  let ?Q = "\<lambda>a s'. advances ?m (map lt_name (l # ls)) (went_through (fst a)) s s'"
  obtain st where st: "map_of ?m (lt_name l) = Some st" "sub_name st = lt_name l" "ordered_log ?m (oc_events s)"
    "set (deps_of ?m (lt_name l)) \<subseteq> set (completed_names (oc_events s))"
    using Cons.prems by (auto simp: ready_def)
  show ?case
    unfolding serial_loop.simps
  proof (rule wp_seq [OF one_subtask [OF assms st(1-4)]])
    fix a :: "task_result \<times> execution_context" and s1 :: "'a orch"
    assume a: "res_blocked_reason (fst a) = None \<and> advances ?m [lt_name l] (succeeded (fst a)) s s1"
    obtain r c1 where rc: "a = (r, c1)"
      by (cases a)
    have stop: "?Q (Some r, c1) s1" if "\<not> went_through (Some r)"
      using a that advances_extend [of ?m "[lt_name l]" "succeeded r" s s1 "map lt_name ls"] rc by simp
    have go: "wp (serial_loop E p pos ls c1 (Some r)) ?Q s1" if "succeeded r"
    proof -
      have "ready ?m s1 ls"
        using a rc ready_advances [OF Cons.prems, of "[lt_name l]" "succeeded r" s1] by simp
      then have "wp (serial_loop E p pos ls c1 (Some r))
          (\<lambda>a s'. advances ?m (map lt_name ls) (went_through (fst a)) s1 s') s1"
        by (rule Cons.IH)
      then show ?thesis
        using advances_append [of ?m "[lt_name l]" s s1 "map lt_name ls"] a rc that by (auto elim: wp_mono)
    qed
    show "wp (case a of (r, c) \<Rightarrow>
        if succeeded r then
          (if res_blocked_reason r \<noteq> None then State_Monad.return (Some r, c)
           else if primitive l = ApiCall \<and> asks_question (res_result r) then State_Monad.return (Some r, c)
           else serial_loop E p pos ls c (Some r))
        else State_Monad.return (Some r, c)) ?Q s1"
      using a rc stop go by (auto simp: wp_return went_through_def)
  qed
qed

lemma submit_advances:
  "ready (op_subtasks p) s ls \<Longrightarrow> wp (submit_group E p pos c ls)
    (\<lambda>rxs s'. map fst rxs = ls \<and> ordered_log (op_subtasks p) (oc_events s') \<and>
       completed_names (oc_events s') = completed_names (oc_events s) \<and>
       started_names (oc_events s') = started_names (oc_events s) @ map lt_name ls) s"
proof (induction ls arbitrary: s)
  case Nil
  then show ?case
    by (simp add: wp_return ready_def)
next
  case (Cons l ls)
  let ?m = "op_subtasks p"
  obtain st where st: "map_of ?m (lt_name l) = Some st" "sub_name st = lt_name l" "ordered_log ?m (oc_events s)"
    "set (deps_of ?m (lt_name l)) \<subseteq> set (completed_names (oc_events s))"
    using Cons.prems by (auto simp: ready_def)
  show ?case
    unfolding submit_group.simps st(1) option.case
  proof (rule wp_seq [OF wp_started], rule event_step, rule keeps_rules)
    fix u rx and s1 s2 :: "'a orch"
    assume "\<exists>j. oc_events s1 = oc_events s @ [(''orchestration_subtask_started'', j)] \<and> json_str ''subtask_name'' j = Some (sub_name st)"
      and s2: "oc_events s2 = oc_events s1"
    then obtain j where j: "oc_events s2 = oc_events s @ [(''orchestration_subtask_started'', j)]"
      "started_names [(''orchestration_subtask_started'', j)] = [lt_name l]" "completed_names [(''orchestration_subtask_started'', j)] = []"
      using st(2) by (auto simp: started_names_def completed_names_def List.map_filter_def subject_def)
    have o: "ordered_log ?m (oc_events s2)" "completed_names (oc_events s2) = completed_names (oc_events s)"
      "started_names (oc_events s2) = started_names (oc_events s) @ [lt_name l]"
      using st(3,4) j by (simp_all add: ordered_log_snoc)
    then have "ready ?m s2 ls"
      using Cons.prems by (simp add: ready_def)
    then show "wp (do { rest \<leftarrow> submit_group E p pos c ls; State_Monad.return ((l, rx) # rest) })
      (\<lambda>rxs s'. map fst rxs = l # ls \<and> ordered_log ?m (oc_events s') \<and> completed_names (oc_events s') = completed_names (oc_events s) \<and>
         started_names (oc_events s') = started_names (oc_events s) @ map lt_name (l # ls)) s2"
      by (rule wp_seq [OF Cons.IH]) (simp add: wp_return o)
  qed
qed

lemma one_collected:
  assumes "sub_name st = lt_name l"
  shows "wp (collect_one E st l rx pos) (\<lambda>r s'. \<exists>fs. oc_events s' = oc_events s @ fs \<and> started_names fs = [] \<and>
    completed_names fs = (if succeeded r then [lt_name l] else []) \<and> (ordered_log m (oc_events s) \<longrightarrow> ordered_log m (oc_events s'))) s"
proof -
  have fin: "\<exists>gs. oc_events s' = oc_events s @ gs \<and> started_names gs = [] \<and>
      completed_names gs = (if succeeded r then [lt_name l] else []) \<and> (ordered_log m (oc_events s) \<longrightarrow> ordered_log m (oc_events s'))"
    if "oc_events s' = (oc_events s @ fs) @ [(if succeeded r then ''orchestration_subtask_completed'' else ''orchestration_subtask_failed'', j)]"
      "json_str ''subtask_name'' j = Some (lt_name l)" "list_all quiet fs" for fs r j and s' :: "'a orch"
  proof -
    let ?e = "(if succeeded r then ''orchestration_subtask_completed'' else ''orchestration_subtask_failed'', j)"
    have e: "started_names [?e] = []" "completed_names [?e] = (if succeeded r then [lt_name l] else [])"
      using that(2) by (simp_all add: started_names_def completed_names_def List.map_filter_def subject_def)
    then have "ordered_log m (oc_events s) \<longrightarrow> ordered_log m (oc_events s')"
      unfolding that(1) by (simp only: ordered_log_snoc ordered_log_quiet [OF that(3)] e) simp
    moreover have "started_names (fs @ [?e]) = []" "completed_names (fs @ [?e]) = (if succeeded r then [lt_name l] else [])"
      unfolding names_simps e using quiet_names [OF that(3)] by simp_all
    ultimately show ?thesis
      using that(1) by (intro exI [of _ "fs @ [?e]"]) simp
  qed
  have ev: "wp (finalize_subtask_result E st l r pos) (\<lambda>_ s'. \<exists>gs. oc_events s' = oc_events s @ gs \<and> started_names gs = [] \<and>
      completed_names gs = (if succeeded r then [lt_name l] else []) \<and> (ordered_log m (oc_events s) \<longrightarrow> ordered_log m (oc_events s'))) s2"
    if "oc_events s2 = oc_events s @ fs" "list_all quiet fs" for s2 r fs
    using that assms by (intro wp_mono [OF wp_finalized]) (elim exE conjE, rule fin, simp_all)
  show ?thesis
    unfolding collect_one_def Let_def publish_wait_started_def publish_wait_finished_def
    by (simp add: wp_bind wp_now wp_publish o_recv_def wp_oworld)
      (rule wp_mono [OF ev], simp, simp add: quiet_def, simp add: wp_return)
qed

lemma collect_advances:
  assumes "\<forall>l \<in> set (map fst rxs). \<exists>st. map_of (op_subtasks p) (lt_name l) = Some st \<and> sub_name st = lt_name l"
  shows "wp (collect_group E p pos rxs c last_success) (\<lambda>a s'. started_names (oc_events s') = started_names (oc_events s) \<and>
      set (completed_names (oc_events s)) \<subseteq> set (completed_names (oc_events s')) \<and>
      (ordered_log m (oc_events s) \<longrightarrow> ordered_log m (oc_events s')) \<and>
      (went_through (fst a) \<longrightarrow> lt_name ` set (map fst rxs) \<subseteq> set (completed_names (oc_events s')))) s"
  using assms
proof (induction rxs arbitrary: s c last_success)
  case Nil
  then show ?case
    by (simp add: wp_return)
next
  case (Cons x rxs)
  obtain l rx where x: "x = (l, rx)"
    by (cases x)
  obtain st where st: "map_of (op_subtasks p) (lt_name l) = Some st" "sub_name st = lt_name l"
    using Cons.prems x by auto
  let ?Q = "\<lambda>a s'. started_names (oc_events s') = started_names (oc_events s) \<and>
      set (completed_names (oc_events s)) \<subseteq> set (completed_names (oc_events s')) \<and>
      (ordered_log m (oc_events s) \<longrightarrow> ordered_log m (oc_events s')) \<and>
      (went_through (fst a) \<longrightarrow> lt_name ` set (map fst (x # rxs)) \<subseteq> set (completed_names (oc_events s')))"
  show ?case
    unfolding x collect_group.simps st(1) option.case
  proof (rule wp_seq [OF one_collected [where m = m, OF st(2)]])
    fix r and s1 :: "'b orch"
    assume "\<exists>fs. oc_events s1 = oc_events s @ fs \<and> started_names fs = [] \<and>
      completed_names fs = (if succeeded r then [lt_name l] else []) \<and> (ordered_log m (oc_events s) \<longrightarrow> ordered_log m (oc_events s1))"
    then have s1: "started_names (oc_events s1) = started_names (oc_events s)"
      "completed_names (oc_events s1) = completed_names (oc_events s) @ (if succeeded r then [lt_name l] else [])"
      "ordered_log m (oc_events s) \<longrightarrow> ordered_log m (oc_events s1)"
      by auto
    show "wp (if succeeded r then collect_group E p pos rxs (apply_subtask_result l r c) (Some r)
        else State_Monad.return (Some r, c)) (\<lambda>a s'. started_names (oc_events s') = started_names (oc_events s) \<and>
      set (completed_names (oc_events s)) \<subseteq> set (completed_names (oc_events s')) \<and>
      (ordered_log m (oc_events s) \<longrightarrow> ordered_log m (oc_events s')) \<and>
      (went_through (fst a) \<longrightarrow> lt_name ` set (map fst ((l, rx) # rxs)) \<subseteq> set (completed_names (oc_events s')))) s1"
    proof (cases "succeeded r")
      case True
      have "wp (collect_group E p pos rxs (apply_subtask_result l r c) (Some r)) (\<lambda>a s'.
          started_names (oc_events s') = started_names (oc_events s1) \<and>
          set (completed_names (oc_events s1)) \<subseteq> set (completed_names (oc_events s')) \<and>
          (ordered_log m (oc_events s1) \<longrightarrow> ordered_log m (oc_events s')) \<and>
          (went_through (fst a) \<longrightarrow> lt_name ` set (map fst rxs) \<subseteq> set (completed_names (oc_events s')))) s1"
        using Cons.prems by (intro Cons.IH) simp
      then show ?thesis
        using True s1 by (auto elim!: wp_mono)
    next
      case False
      then show ?thesis
        using s1 by (simp add: wp_return went_through_def)
    qed
  qed
qed

lemma group_advances:
  assumes "unblocked E" "ready (op_subtasks p) s ls"
  shows "wp (execute_group E p ls i c) (\<lambda>a s'. advances (op_subtasks p) (map lt_name ls) (went_through (fst a)) s s') s"
proof (cases "should_execute_group_in_parallel E ls")
  case False
  then show ?thesis
    unfolding execute_group_def by (simp add: serial_advances [OF assms])
next
  case True
  let ?m = "op_subtasks p"
  have known: "\<forall>l \<in> set ls. \<exists>st. map_of ?m (lt_name l) = Some st \<and> sub_name st = lt_name l"
    using assms(2) by (auto simp: ready_def)
  have "wp (collect_group E p pos rxs c None) (\<lambda>a s'. advances ?m (map lt_name ls) (went_through (fst a)) s s') s1"
    if "map fst rxs = ls" "ordered_log ?m (oc_events s1)" "completed_names (oc_events s1) = completed_names (oc_events s)"
      "started_names (oc_events s1) = started_names (oc_events s) @ map lt_name ls" for rxs pos and s1 :: "'a orch"
    using known that
    by (intro wp_mono [OF collect_advances [where m = ?m]]) (auto simp: advances_def)
  then show ?thesis
    unfolding execute_group_def Let_def if_P [OF True]
    by (intro wp_seq [OF submit_advances [OF assms(2)]]) simp
qed


section \<open>The whole plan\<close>

text \<open>The lowered tasks are those of the subtasks, in the execution order.\<close>

lemma lowered_names:
  "wp (map_state (lower_subtask E p session) sts) (\<lambda>ls s'. map lt_name ls = map sub_name sts \<and> oc_events s' = oc_events s) s"
proof (induction sts arbitrary: s)
  case Nil
  then show ?case
    by (simp add: wp_return)
next
  case (Cons st sts)
  have "wp (lower_subtask E p session st) (\<lambda>l s'. lt_name l = sub_name st \<and> oc_events s' = oc_events s) s"
    by (simp add: lower_subtask_def wp_rules Let_def)
  then show ?case
    unfolding map_state.simps
  proof (rule wp_seq)
    fix l :: lowered_task and s1 :: "'a orch"
    assume l: "lt_name l = sub_name st \<and> oc_events s1 = oc_events s"
    show "wp (do { ys \<leftarrow> map_state (lower_subtask E p session) sts; State_Monad.return (l # ys) })
        (\<lambda>ls s'. map lt_name ls = map sub_name (st # sts) \<and> oc_events s' = oc_events s) s1"
      by (rule wp_seq [OF Cons.IH]) (simp add: wp_return l)
  qed
qed

definition covers :: "lowered_task list \<Rightarrow> string list \<Rightarrow> bool" where
  "covers ls ns \<longleftrightarrow> set ns \<subseteq> lt_name ` set ls"

lemma tasks_of_group_names: "covers ls g \<Longrightarrow> map lt_name (tasks_of_group ls g) = g"
proof (induction g)
  case (Cons n g)
  then obtain l where "l \<in> set ls" "lt_name l = n"
    by (auto simp: covers_def)
  then obtain l' where "find (\<lambda>l. lt_name l = n) ls = Some l'"
    using find_None_iff [of "\<lambda>l. lt_name l = n" ls] by (cases "find (\<lambda>l. lt_name l = n) ls") auto
  then have "lt_name l' = n"
    by (auto simp: find_Some_iff)
  then show ?case
    using Cons \<open>find (\<lambda>l. lt_name l = n) ls = Some l'\<close>
    by (simp add: tasks_of_group_def covers_def map_filter_simps)
qed (simp add: tasks_of_group_def List.map_filter_def)

text \<open>The groups still to run, with the names of those that ran: their dependencies have completed.\<close>

fun groups_ready :: "subtasks \<Rightarrow> string set \<Rightarrow> string list list \<Rightarrow> bool" where
  "groups_ready m D [] = True"
| "groups_ready m D (g # gs) \<longleftrightarrow> (\<forall>n \<in> set g. known m n \<and> set (deps_of m n) \<subseteq> D) \<and> groups_ready m (D \<union> set g) gs"

lemma groups_ready_mono: "groups_ready m D gs \<Longrightarrow> D \<subseteq> D' \<Longrightarrow> groups_ready m D' gs"
proof (induction gs arbitrary: D D')
  case (Cons g gs)
  then show ?case
    using Cons.IH [of "D \<union> set g" "D' \<union> set g"] by (fastforce intro: subsetD)
qed simp

lemma groups_ready_nth:
  "(\<And>i n. i < length gs \<Longrightarrow> n \<in> set (gs ! i) \<Longrightarrow>
     known m n \<and> (\<forall>d \<in> set (deps_of m n). d \<in> D \<or> (\<exists>j < i. d \<in> set (gs ! j)))) \<Longrightarrow> groups_ready m D gs"
proof (induction gs arbitrary: D)
  case (Cons g gs)
  have "known m n \<and> set (deps_of m n) \<subseteq> D" if "n \<in> set g" for n
    using Cons.prems [of 0 n] that by auto
  moreover have "groups_ready m (D \<union> set g) gs"
  proof (rule Cons.IH)
    fix i n
    assume "i < length gs" "n \<in> set (gs ! i)"
    then have k: "known m n \<and> (\<forall>d \<in> set (deps_of m n). d \<in> D \<or> (\<exists>j < Suc i. d \<in> set ((g # gs) ! j)))"
      using Cons.prems [of "Suc i" n] by simp
    have "d \<in> D \<union> set g \<or> (\<exists>j < i. d \<in> set (gs ! j))" if "d \<in> set (deps_of m n)" for d
      using k that by (auto simp: less_Suc_eq_0_disj)
    then show "known m n \<and> (\<forall>d \<in> set (deps_of m n). d \<in> D \<union> set g \<or> (\<exists>j < i. d \<in> set (gs ! j)))"
      using k by blast
  qed
  ultimately show ?case
    by simp
qed simp

lemma advances_log:
  "advances m ns b s s' \<Longrightarrow> oc_events s1 = oc_events s \<Longrightarrow> oc_events s2 = oc_events s' \<Longrightarrow> advances m ns b s1 s2"
  by (simp add: advances_def)

lemma silent_finish:
  "wp (fail_plan E p started r) (\<lambda>_ s'. \<exists>fs. oc_events s' = oc_events s @ fs \<and> list_all quiet fs) s"
  "wp (finalize_plan E p st) (\<lambda>_ s'. \<exists>fs. oc_events s' = oc_events s @ fs \<and> list_all quiet fs) s"
proof -
  show fin: "wp (finalize_plan E p st) (\<lambda>_ s'. \<exists>fs. oc_events s' = oc_events s @ fs \<and> list_all quiet fs) s" for st and s :: "'a orch"
    by (auto simp: finalize_plan_def wp_rules Let_def quiet_def)
  have "wp (do { finalize_plan E p (res_status r); now \<leftarrow> o_now E; o_metric (f now) })
      (\<lambda>_ s'. \<exists>fs. oc_events s' = oc_events s @ fs \<and> list_all quiet fs) s1" if "oc_events s1 = oc_events s" for f and s1 :: "'a orch"
    by (rule wp_seq [OF fin]) (use that in \<open>auto simp: wp_now wp_metric wp_bind\<close>)
  note rest = this
  show "wp (fail_plan E p started r) (\<lambda>_ s'. \<exists>fs. oc_events s' = oc_events s @ fs \<and> list_all quiet fs) s"
    unfolding fail_plan_def by (rule event_step, rule keeps_rules, rule rest)
qed

lemma advances_quiet:
  "advances m ns b s s1 \<Longrightarrow> \<exists>fs. oc_events s2 = oc_events s1 @ fs \<and> list_all quiet fs \<Longrightarrow> advances m ns b s s2"
  using quiet_names by (auto simp: advances_def ordered_log_quiet)

definition plan_went_through :: "plan_outcome \<Rightarrow> bool" where
  "plan_went_through out \<longleftrightarrow> (case out of PlanStopped r \<Rightarrow> False | PlanDone r \<Rightarrow> went_through r)"

lemma run_groups_advances:
  assumes "unblocked E" "\<forall>n st. map_of (op_subtasks p) n = Some st \<longrightarrow> sub_name st = n" "covers ls (concat gs)"
  shows "ordered_log (op_subtasks p) (oc_events s) \<Longrightarrow> groups_ready (op_subtasks p) (set (completed_names (oc_events s))) gs \<Longrightarrow>
    wp (run_groups E p ls started i gs c last_success)
      (\<lambda>a s'. advances (op_subtasks p) (concat gs) (plan_went_through (fst a)) s s') s"
  using assms(3)
proof (induction gs arbitrary: i c last_success s)
  case Nil
  then show ?case
    by (simp add: wp_return advances_none)
next
  case (Cons g gs)
  let ?m = "op_subtasks p" and ?ts = "tasks_of_group ls g"
  let ?Q = "\<lambda>a s'. advances ?m (concat (g # gs)) (plan_went_through (fst a)) s s'"
  have names: "map lt_name ?ts = g" and cov: "covers ls (concat gs)"
    using Cons.prems(3) by (auto simp: covers_def intro: tasks_of_group_names)
  have ready: "ready ?m s ?ts"
    unfolding ready_def
  proof (intro conjI ballI)
    fix l
    assume "l \<in> set ?ts"
    then have "lt_name l \<in> set g"
      using names by (metis image_eqI set_map)
    then show "\<exists>st. map_of ?m (lt_name l) = Some st \<and> sub_name st = lt_name l"
      "set (deps_of ?m (lt_name l)) \<subseteq> set (completed_names (oc_events s))"
      using Cons.prems(2) assms(2) by (auto simp: known_def)
  qed (rule Cons.prems(1))
  have go: "wp (run_groups E p ls started (Suc i) gs c' r') ?Q s1"
    if "advances ?m g True s s1" for c' r' and s1 :: "'a orch"
  proof -
    have "groups_ready ?m (set (completed_names (oc_events s1))) gs"
      using that Cons.prems(2) by (auto simp: advances_def elim: groups_ready_mono)
    then have "wp (run_groups E p ls started (Suc i) gs c' r')
        (\<lambda>a s'. advances ?m (concat gs) (plan_went_through (fst a)) s1 s') s1"
      using that cov by (intro Cons.IH) (simp_all add: advances_def)
    then show ?thesis
      using advances_append [OF that] by (auto elim: wp_mono)
  qed
  show ?case
  proof (cases "?ts = []")
    case True
    then show ?thesis
      using go [of s c last_success] names Cons.prems(1) by (simp add: Let_def advances_none)
  next
    case False
    show ?thesis
      unfolding run_groups.simps Let_def if_not_P [OF False]
    proof (rule wp_seq [OF group_advances [OF assms(1) ready]])
      fix a :: "task_result option \<times> execution_context" and s1 :: "'a orch"
      assume adv: "advances ?m (map lt_name ?ts) (went_through (fst a)) s s1"
      obtain r c1 where a: "a = (r, c1)"
        by fastforce
      have stop: "advances ?m (concat (g # gs)) False s s2"
        if "\<exists>fs. oc_events s2 = oc_events s1 @ fs \<and> list_all quiet fs" for s2 :: "'a orch"
        using advances_quiet [OF advances_extend [OF adv, of "concat gs"] that] names by simp
      have q: "wp (upsert_plan E p Completed None) (\<lambda>_ s2. oc_events s2 = oc_events s1) s1"
        by (rule keeps_wp) (rule keeps_rules)
      show "wp (case a of (r, c) \<Rightarrow> (case r of
          None \<Rightarrow> run_groups E p ls started (Suc i) gs c last_success
        | Some r \<Rightarrow>
            if succeeded r then
              (if asks_question (res_result r)
               then do { upsert_plan E p Completed None; State_Monad.return (PlanDone (Some r), c) }
               else run_groups E p ls started (Suc i) gs c (Some r))
            else do { fail_plan E p started r; State_Monad.return (PlanStopped r, c) })) ?Q s1"
      proof (cases r)
        case None
        then show ?thesis
          using go adv a names by (simp add: went_through_def)
      next
        case (Some x)
        have "wp (run_groups E p ls started (Suc i) gs c1 (Some x)) ?Q s1" if "succeeded x" "\<not> asks_question (res_result x)"
          using go adv a names that Some by (simp add: went_through_def)
        moreover have "wp (do { upsert_plan E p Completed None; State_Monad.return (PlanDone (Some x), c1) }) ?Q s1"
          if "asks_question (res_result x)"
          using that stop by (intro wp_seq [OF q]) (auto simp: wp_return plan_went_through_def went_through_def)
        moreover have "wp (do { fail_plan E p started x; State_Monad.return (PlanStopped x, c1) }) ?Q s1"
          using stop by (intro wp_seq [OF silent_finish(1)]) (simp add: wp_return plan_went_through_def)
        ultimately show ?thesis
          using a Some by simp
      qed
    qed
  qed
qed


lemma plan_groups_ready:
  assumes "plan_wf p" "list_all (resolvable (op_subtasks p)) (im_keys (op_subtasks p))"
  shows "groups_ready (op_subtasks p) D (parallel_groups p)"
    "set (concat (parallel_groups p)) = set (im_keys (op_subtasks p))" "distinct (concat (parallel_groups p))"
proof -
  let ?m = "op_subtasks p"
  have m: "im_wf ?m" and g: "parallel_groups p = compute_parallel_groups ?m (topological_sort ?m)"
    using assms(1) by (simp_all add: plan_wf_def)
  note spec = parallel_groups_spec [OF m, folded g]
  have ms: "mset (concat (parallel_groups p)) = mset (im_keys ?m)"
    using spec by blast
  then show keys: "set (concat (parallel_groups p)) = set (im_keys ?m)"
    by (rule mset_eq_setD)
  show "distinct (concat (parallel_groups p))"
    using ms m unfolding im_wf_def by (metis mset_eq_imp_distinct_iff)
  have each: "known ?m n \<and> (\<forall>d \<in> set (deps_of ?m n). \<exists>j < i. d \<in> set (parallel_groups p ! j))"
    if "i < length (parallel_groups p)" "n \<in> set (parallel_groups p ! i)" for i n
  proof -
    have "n \<in> set (im_keys ?m)"
      using that keys nth_mem [OF that(1)] by auto
    then have "known ?m n" "resolvable ?m n"
      using assms(2) by (auto simp: known_keys list_all_iff)
    then show ?thesis
      using spec that by metis
  qed
  show "groups_ready ?m D (parallel_groups p)"
    by (rule groups_ready_nth) (use each in blast)
qed

lemma completed_asks:
  "wp (complete_plan E p ls started c last_success) (\<lambda>out s'.
     (\<exists>fs. oc_events s' = oc_events s @ fs \<and> list_all quiet fs) \<and>
     (\<not> asks_question (res_result (or_result out)) \<longrightarrow> (\<forall>r. last_success = Some r \<longrightarrow> \<not> asks_question (res_result r)))) s"
proof -
  have ann: "asks_question (res_result r) \<Longrightarrow> asks_question (res_result (annotate_result p ls r))" for r
  proof -
    assume a: "asks_question (res_result r)"
    then obtain v where v: "res_result r = Some v" "json_get ''question'' v \<noteq> None"
      by (cases "res_result r") (auto simp: asks_question_def split: option.splits)
    then have "is_object v"
      by (cases v) simp_all
    then show ?thesis
      using a v by (simp add: asks_question_def annotate_result_def json_get_set)
  qed
  let ?result = "case last_success of
         Some r \<Rightarrow> if asks_question (res_result r) then State_Monad.return r
                    else build_final_result E p ls c last_success
       | None \<Rightarrow> build_final_result E p ls c last_success"
  have k: "keeps oc_events (build_final_result E p ls c last_success)"
    unfolding build_final_result_def aggregated_result_def infer_missing_context_question_def try_llm_infer_def Let_def
    by (intro keeps_rules)
  have "wp ?result (\<lambda>r s1. oc_events s1 = oc_events s \<and>
      (\<forall>x. last_success = Some x \<longrightarrow> asks_question (res_result x) \<longrightarrow> r = x)) s"
    using keeps_wp [OF k, of s] by (cases last_success) (auto simp: wp_return elim: wp_mono)
  then show ?thesis
    unfolding complete_plan_def
  proof (rule wp_seq)
    fix r and s1 :: "'a orch"
    assume r: "oc_events s1 = oc_events s \<and> (\<forall>x. last_success = Some x \<longrightarrow> asks_question (res_result x) \<longrightarrow> r = x)"
    show "wp (let r = annotate_result p ls r in do {
        upsert_plan E p Completed None;
        finalize_plan E p (res_status r);
        now \<leftarrow> o_now E;
        o_metric (\<lambda>m. m\<lparr>plans_completed := plans_completed m + 1, om_duration_ms := om_duration_ms m + saturating_sub now started\<rparr>);
        State_Monad.return \<lparr>or_result = r, or_lowered = ls, was_decomposed = True\<rparr> }) (\<lambda>out s'.
     (\<exists>fs. oc_events s' = oc_events s @ fs \<and> list_all quiet fs) \<and>
     (\<not> asks_question (res_result (or_result out)) \<longrightarrow> (\<forall>r. last_success = Some r \<longrightarrow> \<not> asks_question (res_result r)))) s1"
      unfolding Let_def
    proof (rule event_step, rule keeps_rules, rule wp_seq, rule silent_finish(2))
      fix u v and s2 s3 :: "'a orch"
      assume "oc_events s2 = oc_events s1" "\<exists>fs. oc_events s3 = oc_events s2 @ fs \<and> list_all quiet fs"
      then show "wp (do { now \<leftarrow> o_now E;
          o_metric (\<lambda>m. m\<lparr>plans_completed := plans_completed m + 1, om_duration_ms := om_duration_ms m + saturating_sub now started\<rparr>);
          State_Monad.return \<lparr>or_result = annotate_result p ls r, or_lowered = ls, was_decomposed = True\<rparr> }) (\<lambda>out s'.
        (\<exists>fs. oc_events s' = oc_events s @ fs \<and> list_all quiet fs) \<and>
        (\<not> asks_question (res_result (or_result out)) \<longrightarrow> (\<forall>r. last_success = Some r \<longrightarrow> \<not> asks_question (res_result r)))) s3"
        using r ann by (auto simp: wp_rules)
    qed
  qed
qed

text \<open>The parts of the theorem below: the lowered tasks cover the groups, the end of the plan, and its body.\<close>

abbreviation end_plan where
  "end_plan E p ls started a \<equiv>
     (case a of (out, c) \<Rightarrow> (case out of
        PlanStopped r \<Rightarrow> State_Monad.return \<lparr>or_result = r, or_lowered = ls, was_decomposed = True\<rparr>
      | PlanDone last_success \<Rightarrow> complete_plan E p ls started c last_success))"

abbreviation plan_advances where
  "plan_advances p s \<equiv> (\<lambda>out s'. advances (op_subtasks p) (concat (parallel_groups p))
     (succeeded (or_result out) \<and> \<not> asks_question (res_result (or_result out))) s s')"

lemma lowered_cover_groups:
  assumes "plan_wf p" "list_all (resolvable (op_subtasks p)) (im_keys (op_subtasks p))"
    "map lt_name ls = map sub_name (plan_subtask_list p)"
  shows "covers ls (concat (parallel_groups p))"
proof -
  have "n \<in> lt_name ` set ls" if n: "n \<in> set (im_keys (op_subtasks p))" for n
  proof -
    obtain st where st: "map_of (op_subtasks p) n = Some st"
      using n map_of_eq_None_iff [of "op_subtasks p" n] by auto
    have "n \<in> set (execution_order p)"
      using n assms(1) topological_sort_spec [of "op_subtasks p"] by (auto simp: plan_wf_def)
    then have "st \<in> set (plan_subtask_list p)"
      using st by (force simp: plan_subtask_list_def List.map_filter_def)
    then have "sub_name st \<in> set (map lt_name ls)"
      unfolding assms(3) by auto
    then show ?thesis
      using assms(1) st by (auto simp: plan_wf_def)
  qed
  then show ?thesis
    using plan_groups_ready(2) [OF assms(1,2)] unfolding covers_def by blast
qed

lemma end_plan_advances:
  assumes adv: "advances (op_subtasks p) (concat (parallel_groups p)) (plan_went_through (fst a)) s s2"
    and stop: "case fst a of PlanStopped r \<Rightarrow> \<not> succeeded r | PlanDone r \<Rightarrow> (\<forall>x. r = Some x \<longrightarrow> succeeded x)"
  shows "wp (end_plan E p ls started a) (plan_advances p s) s2"
proof (cases a)
  case a: (Pair o1 c)
  show ?thesis
  proof (cases o1)
    case (PlanStopped r)
    then show ?thesis
      using adv stop a by (simp add: wp_return plan_went_through_def)
  next
    case (PlanDone r)
    have "plan_advances p s out s3"
      if s3: "(\<exists>fs. oc_events s3 = oc_events s2 @ fs \<and> list_all quiet fs) \<and>
        (\<not> asks_question (res_result (or_result out)) \<longrightarrow> (\<forall>x. r = Some x \<longrightarrow> \<not> asks_question (res_result x)))" for out s3
    proof -
      have "advances (op_subtasks p) (concat (parallel_groups p)) (plan_went_through o1) s s3"
        using advances_quiet s3 adv a by fastforce
      moreover have "\<not> asks_question (res_result (or_result out)) \<Longrightarrow> plan_went_through o1"
        using s3 stop PlanDone a by (auto simp: plan_went_through_def went_through_def split: option.split)
      ultimately show ?thesis
        by (cases "asks_question (res_result (or_result out))") (auto simp: advances_def)
    qed
    then have "wp (complete_plan E p ls started c r) (plan_advances p s) s2"
      by (intro wp_mono [OF completed_asks])
    then show ?thesis
      using a PlanDone by simp
  qed
qed

lemma plan_body_advances:
  fixes E :: "('a, 'b) orch_env" and s1 s :: "'a orch"
  assumes "unblocked E" "plan_wf p" "list_all (resolvable (op_subtasks p)) (im_keys (op_subtasks p))"
    "oc_events s = []" "map lt_name ls = map sub_name (plan_subtask_list p)" "oc_events s1 = []"
  shows "wp (do {
        o_publish ''orchestration_plan_created'' (plan_created_payload p ls);
        o_metric (\<lambda>m. m\<lparr>plans_created := plans_created m + 1\<rparr>);
        upsert_plan E p Running None;
        a \<leftarrow> run_groups E p ls started 0 (parallel_groups p) c None;
        end_plan E p ls started a }) (plan_advances p s) s1"
proof -
  let ?m = "op_subtasks p" and ?gs = "parallel_groups p"
  let ?run = "run_groups E p ls started 0 ?gs c None"
  let ?s2 = "s1\<lparr>oc_events := oc_events s1 @ [(''orchestration_plan_created'', plan_created_payload p ls)],
    oc_metrics := (oc_metrics s1)\<lparr>plans_created := plans_created (oc_metrics s1) + 1\<rparr>\<rparr>"
  have names: "\<forall>n st. map_of ?m n = Some st \<longrightarrow> sub_name st = n"
    using assms(2) by (simp add: plan_wf_def)
  have "wp (do { upsert_plan E p Running None; a \<leftarrow> ?run; end_plan E p ls started a }) (plan_advances p s) ?s2"
  proof (rule event_step, rule keeps_rules)
    fix u and s3 :: "'a orch"
    assume "oc_events s3 = oc_events ?s2"
    then have "oc_events s3 = [] @ [(''orchestration_plan_created'', plan_created_payload p ls)]"
      using assms(6) by simp
    then have o: "ordered_log ?m (oc_events s3)" "started_names (oc_events s3) = []" "completed_names (oc_events s3) = []"
      using ordered_log_quiet [of "oc_events s3" ?m "[]"] quiet_names [of "oc_events s3"] by (simp_all add: quiet_def)
    obtain x y z where cs: "plan_counters s3 = (x, y, z)"
      by (cases "plan_counters s3")
    have adv: "wp ?run (\<lambda>a s'. advances ?m (concat ?gs) (plan_went_through (fst a)) s3 s') s3"
      using plan_groups_ready(1) [OF assms(2,3)]
      by (intro run_groups_advances assms(1) names lowered_cover_groups assms(2,3,5) o(1)) simp_all
    have stop: "wp ?run
        (\<lambda>a s'. case fst a of PlanStopped r \<Rightarrow> \<not> succeeded r | PlanDone r \<Rightarrow> (\<forall>x. r = Some x \<longrightarrow> succeeded x)) s3"
      by (rule wp_mono [OF run_groups_spec [OF _ cs]]) (auto split: plan_outcome.splits)
    show "wp (do { a \<leftarrow> ?run; end_plan E p ls started a }) (plan_advances p s) s3"
      by (rule wp_seq [OF wp_conj [OF adv stop]], rule end_plan_advances)
        (use o assms(4) in \<open>simp_all add: advances_def\<close>)
  qed
  then show ?thesis
    by (simp add: wp_publish wp_metric wp_bind)
qed

text \<open>
  C5. With a pool whose answers carry no blocked reason, and a plan all of whose dependencies name subtasks of
  the plan and form no cycle, the events of the plan show that the subtasks are started in the order of the
  parallel groups, each at most once, and each only after all the subtasks it depends on have completed; if
  the plan succeeds and its result is no question, then every subtask was started and has completed.
  Outside these provisos the code does start subtasks early: after a blocked subtask
  (\<open>blocked_subtask_skips_group\<close>) and behind a dependency that cannot be resolved
  (\<open>unknown_dependency_shares_group\<close>).\<close>
theorem subtasks_after_dependencies:
  assumes "unblocked E" "plan_wf p" "list_all (resolvable (op_subtasks p)) (im_keys (op_subtasks p))"
    "oc_events s = []" "run_state (execute_orchestration_plan_impl E p request job session) s = (out, s')"
  shows "prefix (started_names (oc_events s')) (concat (parallel_groups p)) \<and> distinct (started_names (oc_events s')) \<and>
    ordered_log (op_subtasks p) (oc_events s') \<and>
    (succeeded (or_result out) \<and> \<not> asks_question (res_result (or_result out)) \<longrightarrow>
       set (im_keys (op_subtasks p)) \<subseteq> set (completed_names (oc_events s')))"
proof -
  have "wp (execute_orchestration_plan_impl E p request job session) (plan_advances p s) s"
    unfolding execute_orchestration_plan_impl_def
    by (rule event_step, rule keeps_rules, rule wp_seq [OF lowered_names], rule event_step, rule keeps_rules,
        rule event_step, intro keeps_rules, rule plan_body_advances) (simp_all add: assms)
  then have adv: "plan_advances p s out s'"
    using assms(5) by (simp add: wp_run)
  then have p: "prefix (started_names (oc_events s')) (concat (parallel_groups p))"
    using assms(4) by (auto simp: advances_def)
  then have "distinct (started_names (oc_events s'))"
    using plan_groups_ready(3) [OF assms(2,3)] by (auto simp: prefix_def)
  then show ?thesis
    using adv p plan_groups_ready(2) [OF assms(2,3)] unfolding advances_def by blast
qed


lemma subtasks_after_dependencies_witness:
  "\<exists>out s'. run_state (execute_orchestration_plan_impl idle_env (demo_plan [Plan_Graph.plan_task ''b'' [''a''], Plan_Graph.plan_task ''a'' []])
       ''request'' ''job'' ''session'') idle_state = (out, s') \<and>
     prefix (started_names (oc_events s')) [''a'', ''b'']"
proof -
  let ?m = "[Plan_Graph.plan_task ''b'' [''a''], Plan_Graph.plan_task ''a'' []]"
  obtain out s' where r: "run_state (execute_orchestration_plan_impl idle_env (demo_plan ?m) ''request'' ''job'' ''session'') idle_state = (out, s')"
    by fastforce
  have "unblocked idle_env"
    by (auto simp: unblocked_def idle_env_def idle_pool_def make_task_result_def)
  moreover have m: "im_wf ?m" "list_all (resolvable ?m) (im_keys ?m)"
    by (auto simp: im_wf_def known_def deps_of_def Plan_Graph.plan_task_def resolvable_simps [of _ "''b''"]
        resolvable_simps [of _ "''a''"])
  moreover have "plan_wf (demo_plan ?m)"
    using m(1) by (auto simp: plan_wf_def demo_plan_def new_plan_def Let_def Plan_Graph.plan_task_def split: if_splits)
  moreover have "concat (parallel_groups (demo_plan ?m)) = [''a'', ''b'']"
    unfolding demo_plan_def new_plan_def Let_def by code_simp
  ultimately show ?thesis
    using subtasks_after_dependencies [OF _ _ _ _ r] r
    by (auto simp: idle_state_def new_orch_def demo_plan_def new_plan_def Let_def)
qed

end
