(* ===== verification/Orchestration_Faults.thy ===== *)
theory Orchestration_Faults
  imports Orchestration_Order
begin

text \<open>
  Where the orchestrator departs from its plan: a blocked subtask lets the later groups run although the rest
  of its group was skipped, a failure in a parallel group leaves the tasks still running unobserved, and
  \<open>orchestrate\<close> counts subtasks it never recorded.
\<close>

text \<open>
  A subtask that answers with success and a blocked reason ends its serial group, but not the plan: the
  subtasks after it in the group are never started, and the next group runs at once.\<close>

theorem blocked_subtask_skips_group:
  assumes "tasks_of_group ls g = l # rest" "\<not> should_execute_group_in_parallel E (l # rest)"
    "run_state (execute_lowered_subtask E p l \<lparr>gp_mode = ''serial'', gp_index = i, gp_size = length (l # rest)\<rparr> c) s = ((r, c1), s1)"
    "succeeded r" "res_blocked_reason r \<noteq> None" "\<not> asks_question (res_result r)"
  shows "run_state (run_groups E p ls started i (g # gs) c last_success) s =
    run_state (run_groups E p ls started (Suc i) gs c1 (Some r)) s1"
  using assms(2-6) by (simp add: Let_def assms(1) execute_group_def)

definition blocked_pool :: "(unit, task) pool_ops" where
  "blocked_pool = idle_pool\<lparr>recv := (\<lambda>t w. (Some ((make_task_result
     \<lparr>mr_task_id = tk_id t, mr_trace_id = tk_trace_id t, mr_status = ''success'', mr_result = None, mr_error = None,
      mr_duration_ms = 1, mr_worker_id = None\<rparr>)\<lparr>res_blocked_reason := Some (JString ''need'')\<rparr>), w))\<rparr>"

definition blocked_env :: "(unit, task) orch_env" where
  "blocked_env = idle_env\<lparr>oe_pool := blocked_pool\<rparr>"

definition demo_lowered :: "string \<Rightarrow> lowered_task" where
  "demo_lowered n = \<lparr>lt_name = n, original_task_type = ''design'', lowered_task_type = ''api-call'', primitive = ApiCall,
     parallel_safe = False, lt_task = \<lparr>tk_id = n, tk_trace_id = ''trace'', tk_type = ''api-call'', tk_payload = JObject [],
       tk_priority = 5, tk_timeout_ms = 60000, tk_metadata = JNull\<rparr>\<rparr>"

lemma wp_trivial: "wp m (\<lambda>_ _. True) s"
  by (simp add: wp_run)

text \<open>The result of a subtask is the answer of the pool.\<close>

lemma subtask_answer:
  assumes "map_of (op_subtasks p) (lt_name l) = Some st" "\<And>rx w. Q (or_closed (prepare_lowered_task l c) (fst (recv (oe_pool E) rx w)))"
  shows "wp (execute_lowered_subtask E p l pos c) (\<lambda>a _. Q (fst a)) s"
  unfolding execute_lowered_subtask_def Let_def assms(1) option.case
proof (rule wp_seq [OF wp_trivial], rule wp_seq [where P = "\<lambda>r _. Q r"])
  show "wp (wait_for_task E (prepare_lowered_task l c) (Some wc)) (\<lambda>r _. Q r) s'" for wc and s' :: "'b orch"
    using assms(2) by (simp add: wait_for_task_def wp_rules o_submit_def o_recv_def publish_wait_started_def
        publish_wait_finished_def Let_def)
qed (rule wp_seq [OF wp_trivial], simp add: wp_return)

lemma blocked_subtask_skips_group_witness:
  "\<exists>a s1. run_state (run_groups blocked_env (demo_plan [Plan_Graph.plan_task ''a'' [], Plan_Graph.plan_task ''b'' []])
       [demo_lowered ''a'', demo_lowered ''b'', demo_lowered ''c''] 0 0 [[''a'', ''b''], [''c'']] c None) s =
     run_state (run_groups blocked_env (demo_plan [Plan_Graph.plan_task ''a'' [], Plan_Graph.plan_task ''b'' []])
       [demo_lowered ''a'', demo_lowered ''b'', demo_lowered ''c''] 0 1 [[''c'']] (snd a) (Some (fst a))) s1"
proof -
  let ?p = "demo_plan [Plan_Graph.plan_task ''a'' [], Plan_Graph.plan_task ''b'' []]"
  let ?ls = "[demo_lowered ''a'', demo_lowered ''b'', demo_lowered ''c'']"
  let ?pos = "\<lparr>gp_mode = ''serial'', gp_index = 0, gp_size = length [demo_lowered ''a'', demo_lowered ''b'']\<rparr>"
  obtain r c1 s1 where run: "run_state (execute_lowered_subtask blocked_env ?p (demo_lowered ''a'') ?pos c) s = ((r, c1), s1)"
    by (metis prod.collapse)
  obtain st where st: "map_of (op_subtasks ?p) (lt_name (demo_lowered ''a'')) = Some st"
    by (simp add: demo_plan_def new_plan_def Let_def Plan_Graph.plan_task_def demo_lowered_def)
  have "wp (execute_lowered_subtask blocked_env ?p (demo_lowered ''a'') ?pos c)
      (\<lambda>a _. succeeded (fst a) \<and> res_blocked_reason (fst a) \<noteq> None \<and> \<not> asks_question (res_result (fst a))) s"
    by (rule subtask_answer [OF st])
      (simp add: blocked_env_def blocked_pool_def or_closed_def make_task_result_def succeeded_def asks_question_def)
  then have "succeeded r" "res_blocked_reason r \<noteq> None" "\<not> asks_question (res_result r)"
    using run by (simp_all add: wp_run)
  moreover have "tasks_of_group ?ls [''a'', ''b''] = demo_lowered ''a'' # [demo_lowered ''b'']"
    by (simp add: tasks_of_group_def demo_lowered_def map_filter_simps)
  moreover have "\<not> should_execute_group_in_parallel blocked_env (demo_lowered ''a'' # [demo_lowered ''b''])"
    by (simp add: should_execute_group_in_parallel_def demo_lowered_def)
  ultimately show ?thesis
    using blocked_subtask_skips_group [of ?ls "[''a'', ''b'']" "demo_lowered ''a''" "[demo_lowered ''b'']" blocked_env ?p 0 c s r c1 s1 0
        "[[''c'']]" None] run
    by (intro exI [of _ "(r, c1)"] exI [of _ s1]) simp
qed

text \<open>
  In a parallel group the results are awaited in order, and the first failure ends the group: the answers
  of the tasks after it are not awaited, so that nothing records their end, and the plan is failed while the
  worker pool still runs them.\<close>

theorem parallel_failure_abandons_rest:
  assumes "map_of (op_subtasks p) (lt_name l) = Some st" "run_state (collect_one E st l rx pos) s = (r, s1)" "\<not> succeeded r"
  shows "run_state (collect_group E p pos ((l, rx) # rest) c last_success) s = ((Some r, c), s1) \<and>
    (\<forall>l' st'. sub_id st' \<noteq> sub_id st \<longrightarrow>
       map_of (o_tasks s1) (subtask_record_id (sub_id st')) = map_of (o_tasks s) (subtask_record_id (sub_id st')))"
proof -
  have ne: "subtask_record_id i \<noteq> subtask_record_id (sub_id st)" if "i \<noteq> sub_id st" for i
    using that by (simp add: subtask_record_id_def)
  have up: "wp (upsert_subtask E st l ts (Some pos) err) (\<lambda>_ s'. \<forall>i. i \<noteq> sub_id st \<longrightarrow>
      map_of (o_tasks s') (subtask_record_id i) = map_of (o_tasks s2) (subtask_record_id i)) s2" for ts err s2
    using ne by (simp add: upsert_subtask_def wp_rules Let_def o_tasks_def subtask_record_def im.get_ins split: prod.split)
  have fin: "wp (finalize_subtask_result E st l x pos) (\<lambda>_ s'. \<forall>i. i \<noteq> sub_id st \<longrightarrow>
      map_of (o_tasks s') (subtask_record_id i) = map_of (o_tasks s2) (subtask_record_id i)) s2" for x s2
    unfolding finalize_subtask_result_def Let_def
    by (simp add: wp_bind wp_now wp_live wp_metric wp_if wp_publish)
      (auto intro!: wp_mono [OF up] simp: o_tasks_def wp_publish)
  have "wp (collect_one E st l rx pos) (\<lambda>_ s'. \<forall>i. i \<noteq> sub_id st \<longrightarrow>
      map_of (o_tasks s') (subtask_record_id i) = map_of (o_tasks s) (subtask_record_id i)) s"
    unfolding collect_one_def Let_def publish_wait_started_def publish_wait_finished_def
    by (simp add: wp_bind wp_now wp_publish o_recv_def wp_oworld)
      (rule wp_mono [OF fin], simp add: wp_return o_tasks_def)
  then show ?thesis
    using assms by (simp add: wp_run)
qed


definition failing_pool :: "(unit, task) pool_ops" where
  "failing_pool = idle_pool\<lparr>recv := (\<lambda>t w. (None, w))\<rparr>"

lemma parallel_failure_abandons_rest_witness:
  "\<exists>r s1. run_state (collect_group (idle_env\<lparr>oe_pool := failing_pool\<rparr>) (demo_plan [Plan_Graph.plan_task ''a'' []]) pos
      [(demo_lowered ''a'', t), (demo_lowered ''b'', t)] c None) idle_state = ((Some r, c), s1) \<and>
      map_of (o_tasks s1) (subtask_record_id ''b'') = map_of (o_tasks idle_state) (subtask_record_id ''b'')"
proof -
  let ?E = "idle_env\<lparr>oe_pool := failing_pool\<rparr>"
  let ?p = "demo_plan [Plan_Graph.plan_task ''a'' []]"
  obtain st where st: "map_of (op_subtasks ?p) (lt_name (demo_lowered ''a'')) = Some st" "sub_id st \<noteq> ''b''"
    by (simp add: demo_plan_def new_plan_def Let_def Plan_Graph.plan_task_def demo_lowered_def)
  obtain r s1 where run: "run_state (collect_one ?E st (demo_lowered ''a'') t pos) idle_state = (r, s1)"
    by fastforce
  have "wp (collect_one ?E st (demo_lowered ''a'') t pos) (\<lambda>r _. \<not> succeeded r) idle_state"
    unfolding collect_one_def Let_def publish_wait_started_def publish_wait_finished_def
    by (simp add: wp_bind wp_now wp_publish o_recv_def wp_oworld)
      (rule wp_mono [OF wp_trivial], simp add: wp_return failing_pool_def or_closed_def task_failure_def make_task_result_def succeeded_def)
  then have "\<not> succeeded r"
    using run by (simp add: wp_run)
  from parallel_failure_abandons_rest [OF st(1) run this]
  have "run_state (collect_group ?E ?p pos [(demo_lowered ''a'', t), (demo_lowered ''b'', t)] c None) idle_state = ((Some r, c), s1)"
    "map_of (o_tasks s1) (subtask_record_id (sub_id (st\<lparr>sub_id := ''b''\<rparr>))) =
       map_of (o_tasks idle_state) (subtask_record_id (sub_id (st\<lparr>sub_id := ''b''\<rparr>)))"
    using st(2) by (metis subtask.select_convs(1) subtask.surjective subtask.update_convs(1))+
  then show ?thesis
    by auto
qed


section \<open>The older entry point\<close>

lemma store_keep [keeps_rules]:
  "keeps oc_store (in_oworld g)" "keeps oc_store (o_now E)" "keeps oc_store (o_uuid E)"
  "keeps oc_store (o_live n h)" "keeps oc_store (o_metric f)" "keeps oc_store o_snapshot"
  "keeps oc_store (count_subtask r)" "keeps oc_store (o_submit E t)" "keeps oc_store (o_recv E rx)"
  "keeps oc_store (subtask_task E st)" "keeps oc_store (o_failure E msg)"
  unfolding o_snapshot_def o_now_def o_uuid_def o_live_def o_metric_def count_subtask_def o_submit_def o_recv_def
    subtask_task_def o_failure_def Let_def
  by (intro keeps_rules keeps_modify keeps_oworld; simp)+

lemma store_keep_route [keeps_rules]: "keeps oc_store (o_route E t)"
  by (simp add: keeps_def o_route_def split: prod.split)

lemma store_keep_subtask [keeps_rules]: "keeps oc_store (execute_subtask E p n)"
  unfolding execute_subtask_def by (intro keeps_rules)

lemma store_keep_names [keeps_rules]:
  "keeps oc_store (execute_names E p ns)" "keeps oc_store (submit_names E p ns)"
  by (induction ns) (auto intro!: keeps_rules)

lemma store_keep_collect [keeps_rules]: "keeps oc_store (collect_names E p rxs failed)"
proof (induction rxs arbitrary: failed)
  case (Cons x rxs)
  then show ?case
    by (cases x) (auto intro!: keeps_rules)
qed (auto intro: keeps_rules)

lemma store_keep_groups [keeps_rules]: "keeps oc_store (execute_groups E p gs)"
  by (induction gs) (auto intro!: keeps_rules)

lemma store_keep_decompose [keeps_rules]: "keeps oc_store (decompose_task E request trace job None)"
  unfolding decompose_task_def by (simp, intro keeps_rules)

text \<open>
  The older entry point runs a plan without recording it, and reports progress from the records: it leaves
  the runtime state as it was, and a plan that succeeded is reported with the subtasks an earlier state knew
  under its id, which are none when the id is fresh, however many it has run.\<close>

theorem unrecorded_plan_reports_nothing:
  assumes "tasks_for_plan (snd (oc_store s)) (op_id p) = []"
    "run_state (execute_groups E p (parallel_groups p)) s = (None, s1)"
  shows "case run_state (execute_orchestration_plan E p) s of (r, s2) \<Rightarrow>
    oc_store s2 = oc_store s \<and> succeeded r \<and>
    (\<forall>n \<in> {''subtasks_total'', ''subtasks_completed'', ''subtasks_failed''}.
       Option.bind (res_result r) (json_get n) = Some (jnat 0))"
proof -
  have "oc_store s1 = oc_store s"
    by (rule keepsD [OF _ assms(2)]) (rule keeps_rules)
  moreover have "wp (execute_groups E p (parallel_groups p)) (\<lambda>r s'. r = None \<and> s' = s1) s"
    using assms(2) by (simp add: wp_run)
  ultimately have "wp (execute_orchestration_plan E p) (\<lambda>r s2. oc_store s2 = oc_store s \<and> succeeded r \<and>
      (\<forall>n \<in> {''subtasks_total'', ''subtasks_completed'', ''subtasks_failed''}.
         Option.bind (res_result r) (json_get n) = Some (jnat 0))) s"
    unfolding execute_orchestration_plan_def
    by (elim wp_seq) (auto simp: wp_rules plan_progress_counts_def subtasks_for_plan_def assms(1)
        make_task_result_def succeeded_def)
  then show ?thesis
    by (auto simp: wp_run split: prod.split)
qed

lemma unrecorded_plan_reports_nothing_witness:
  "\<exists>s1. run_state (execute_groups idle_env (demo_plan [(''a'', (generic_subtask ''i'' ''p'' ''request'' ''trace'' ''job'')\<lparr>subtask.specialist_type := []\<rparr>)])
        (parallel_groups (demo_plan [(''a'', (generic_subtask ''i'' ''p'' ''request'' ''trace'' ''job'')\<lparr>subtask.specialist_type := []\<rparr>)]))) idle_state = (None, s1) \<and>
     (case run_state (execute_orchestration_plan idle_env (demo_plan [(''a'', (generic_subtask ''i'' ''p'' ''request'' ''trace'' ''job'')\<lparr>subtask.specialist_type := []\<rparr>)])) idle_state of (r, s2) \<Rightarrow>
      Option.bind (res_result r) (json_get ''subtasks_total'') = Some (jnat 0))"
proof -
  let ?p = "demo_plan [(''a'', (generic_subtask ''i'' ''p'' ''request'' ''trace'' ''job'')\<lparr>subtask.specialist_type := []\<rparr>)]"
  have "parallel_groups ?p = [[''a'']]"
    by code_simp
  moreover obtain st where "map_of (op_subtasks ?p) ''a'' = Some st" "subtask.specialist_type st = []"
    by (simp add: demo_plan_def new_plan_def Let_def generic_subtask_def)
  ultimately have "wp (execute_groups idle_env ?p (parallel_groups ?p)) (\<lambda>r _. r = None) idle_state"
    by (simp add: execute_subtask_def wp_rules subtask_task_def o_submit_def o_recv_def count_subtask_def Let_def
        idle_env_def idle_pool_def succeeded_def make_task_result_def)
  then obtain s1 where "run_state (execute_groups idle_env ?p (parallel_groups ?p)) idle_state = (None, s1)"
    by (cases "run_state (execute_groups idle_env ?p (parallel_groups ?p)) idle_state") (simp add: wp_run)
  moreover have "tasks_for_plan (snd (oc_store idle_state)) (op_id ?p) = []"
    by (simp add: tasks_for_plan_def idle_state_def new_orch_def empty_snapshot_def empty_index_def unwrap_or_def)
  ultimately show ?thesis
    using unrecorded_plan_reports_nothing by (fastforce split: prod.splits)
qed

end
