(* ===== verification/Event_Emitter.thy ===== *)
theory Event_Emitter
  imports Runtime_State Pending_Question Runtime_Error Agentic_Loop Worker_Pool State_Rules
begin

text \<open>
  The event emitter of the agent (\<open>agent/event_emitter.rs\<close>): runtime events go to the bus and to a bounded
  timeline, summaries and failures are kept, and runs, turns, tasks, suspensions and messages are written to
  the runtime state.  The clock and fresh ids are read from the world; the messages given to the bus are
  recorded in order.  The record is extended by the coordinator of questions (theory \<open>Suspension\<close>).
\<close>

section \<open>State\<close>

record failure_snapshot =
  fs_error_code :: string
  fs_error_stage :: string
  fs_message_id :: string
  fs_channel :: string
  fs_chat_id :: "string option"
  fs_occurred_at :: nat
  fs_internal_message :: string

record failure_status =
  last_failure :: "failure_snapshot option"
  counts_by_error_code :: "(string, nat) imap"

record timeline_event =
  te_event :: string
  te_trace_id :: string
  te_message_id :: string
  te_channel :: string
  te_chat_id :: "string option"
  te_sender_id :: string
  te_recorded_at :: nat
  te_payload :: json

record stage_durations =
  context_ms :: nat
  session_ms :: nat
  classify_ms :: nat
  execute_ms :: nat
  total_ms :: nat

record execution_summary =
  es_trace_id :: string
  es_message_id :: string
  es_channel :: string
  es_chat_id :: "string option"
  es_plan_type :: string
  es_status :: string
  es_cache_hit :: bool
  es_worker_id :: "string option"
  es_error_code :: "string option"
  es_error_stage :: "string option"
  es_task_duration_ms :: nat
  es_stages :: stage_durations

record 'w agent_env =
  ae_now :: "'w \<Rightarrow> nat \<times> 'w"
  ae_uuid :: "'w \<Rightarrow> string \<times> 'w"
  ae_json_text :: "json \<Rightarrow> string"
  ae_plan_json :: "execution_plan \<Rightarrow> json"
  ae_parse_plan :: "json \<Rightarrow> string + execution_plan"

record 'w emitter =
  em_store :: "nat \<times> snapshot"
  em_timeline :: "timeline_event list"
  em_failures :: failure_status
  em_summaries :: "execution_summary list"
  em_bus :: "internal_message list"
  em_world :: 'w

type_synonym ('w, 'z, 'a) em_m = "(('w, 'z) emitter_scheme, 'a) state"

definition new_emitter :: "nat \<times> snapshot \<Rightarrow> 'w \<Rightarrow> 'w emitter" where
  "new_emitter store w =
     \<lparr>em_store = store, em_timeline = [], em_failures = \<lparr>last_failure = None, counts_by_error_code = []\<rparr>,
      em_summaries = [], em_bus = [], em_world = w\<rparr>"

definition e_now :: "'w agent_env \<Rightarrow> ('w, 'z, nat) em_m" where
  "e_now E = State (\<lambda>s. case ae_now E (em_world s) of (n, w) \<Rightarrow> (n, s\<lparr>em_world := w\<rparr>))"

definition e_uuid :: "'w agent_env \<Rightarrow> ('w, 'z, string) em_m" where
  "e_uuid E = State (\<lambda>s. case ae_uuid E (em_world s) of (i, w) \<Rightarrow> (i, s\<lparr>em_world := w\<rparr>))"

definition e_snapshot :: "('w, 'z, snapshot) em_m" where
  "e_snapshot = do { s \<leftarrow> State_Monad.get; State_Monad.return (snd (em_store s)) }"

definition e_append :: "'w agent_env \<Rightarrow> domain_event \<Rightarrow> ('w, 'z, unit) em_m" where
  "e_append E ev = do {
     now \<leftarrow> e_now E;
     modify_state (\<lambda>s. s\<lparr>em_store := spec_op (Append ev now) (em_store s)\<rparr>)
   }"


section \<open>Events\<close>

definition timeline_limit :: nat where "timeline_limit = 50"

definition summary_limit :: nat where "summary_limit = 20"

text \<open>Push to the end and drop the excess from the front.\<close>

definition push_bounded :: "nat \<Rightarrow> 'a \<Rightarrow> 'a list \<Rightarrow> 'a list" where
  "push_bounded n x xs = (let ys = xs @ [x] in if n < length ys then drop (length ys - n) ys else ys)"

definition record_timeline :: "'w agent_env \<Rightarrow> string \<Rightarrow> inbound \<Rightarrow> json \<Rightarrow> ('w, 'z, unit) em_m" where
  "record_timeline E event m payload = do {
     now \<leftarrow> e_now E;
     modify_state (\<lambda>s. s\<lparr>em_timeline := push_bounded timeline_limit
       \<lparr>te_event = event, te_trace_id = in_id m, te_message_id = runtime_message_id m, te_channel = in_channel m,
        te_chat_id = in_chat_id m, te_sender_id = in_sender_id m, te_recorded_at = now, te_payload = payload\<rparr>
       (em_timeline s)\<rparr>)
   }"

definition publish_internal :: "'w agent_env \<Rightarrow> inbound \<Rightarrow> internal_payload \<Rightarrow> ('w, 'z, unit) em_m" where
  "publish_internal E m p = do {
     i \<leftarrow> e_uuid E;
     now \<leftarrow> e_now E;
     modify_state (\<lambda>s. s\<lparr>em_bus := em_bus s @ [make_internal i [] now
       \<lparr>mn_source = ''core-agent'', mn_target = None, mn_msg_type = None, mn_priority = None, mn_payload = p,
        mn_metadata = None, mn_ttl = None, mn_trace_id = Some (in_id m)\<rparr>]\<rparr>)
   }"

definition publish :: "'w agent_env \<Rightarrow> string \<Rightarrow> inbound \<Rightarrow> json \<Rightarrow> ('w, 'z, unit) em_m" where
  "publish E event m payload =
     (let p = merge_runtime_metadata m payload in do {
        record_timeline E event m p;
        publish_internal E m (PRuntimeEvent event (runtime_message_id m) (in_channel m) (in_chat_id m) (in_sender_id m) p)
      })"

definition worker_event_status :: "string \<Rightarrow> worker_status \<Rightarrow> string" where
  "worker_event_status event w =
     (if event = ''task_start'' \<and> ws_status w = ''busy'' then ''busy''
      else if event = ''task_end'' then ''idle'' else ws_status w)"

definition publish_worker ::
  "'w agent_env \<Rightarrow> string \<Rightarrow> inbound \<Rightarrow> worker_status list \<Rightarrow> string \<Rightarrow> ('w, 'z, unit) em_m" where
  "publish_worker E event m ws ttype = for_each (\<lambda>w. publish_internal E m
     (PWorkerStatus (''worker_'' @ event) (ws_id w) (worker_event_status event w) ttype (in_channel m) (in_id m) (in_chat_id m))) ws"

definition tool_lifecycle_payload :: "Tool_Execution.tool_invocation_record \<Rightarrow> json \<Rightarrow> json" where
  "tool_lifecycle_payload iv details =
     (case invocation_json iv of JObject kvs \<Rightarrow> JObject (kvs @ [(''details'', details)]) | j \<Rightarrow> j)"

definition publish_tool_lifecycle :: "'w agent_env \<Rightarrow> string \<Rightarrow> inbound \<Rightarrow> json \<Rightarrow> ('w, 'z, unit) em_m" where
  "publish_tool_lifecycle E event m payload = publish E event m payload"

definition record_failure :: "'w agent_env \<Rightarrow> inbound \<Rightarrow> error_info \<Rightarrow> ('w, 'z, unit) em_m" where
  "record_failure E m e = do {
     now \<leftarrow> e_now E;
     modify_state (\<lambda>s. s\<lparr>em_failures :=
       \<lparr>last_failure = Some \<lparr>fs_error_code = info_code e, fs_error_stage = info_stage e, fs_message_id = in_id m,
          fs_channel = in_channel m, fs_chat_id = in_chat_id m, fs_occurred_at = now,
          fs_internal_message = info_internal_message e\<rparr>,
        counts_by_error_code = im_entry (info_code e) 0 Suc (counts_by_error_code (em_failures s))\<rparr>\<rparr>)
   }"


section \<open>Hints and summaries\<close>

definition record_projection_hint :: "'w agent_env \<Rightarrow> string \<Rightarrow> string \<Rightarrow> string \<Rightarrow> json \<Rightarrow> ('w, 'z, unit) em_m" where
  "record_projection_hint E run scope k v = e_append E (ProjectionHintRecorded run scope k v)"

definition run_of_job :: "snapshot \<Rightarrow> string \<Rightarrow> string" where
  "run_of_job s job = unwrap_or job (map_of (run_ids_by_job_id (index s)) job)"

definition record_job_lifecycle_hint :: "'w agent_env \<Rightarrow> string \<Rightarrow> string \<Rightarrow> string \<Rightarrow> ('w, 'z, unit) em_m" where
  "record_job_lifecycle_hint E job label step = do {
     s \<leftarrow> e_snapshot;
     record_projection_hint E (run_of_job s job) ''job'' ''lifecycle'' (JObject
       [(''status'', JString label), (''status_label'', JString label), (''current_step'', JString step)])
   }"

definition summary_json :: "execution_summary \<Rightarrow> json" where
  "summary_json x = JObject
     [(''trace_id'', JString (es_trace_id x)), (''message_id'', JString (es_message_id x)),
      (''channel'', JString (es_channel x)), (''chat_id'', Task_Types.opt_json JString (es_chat_id x)),
      (''plan_type'', JString (es_plan_type x)), (''status'', JString (es_status x)),
      (''cache_hit'', JBool (es_cache_hit x)), (''worker_id'', Task_Types.opt_json JString (es_worker_id x)),
      (''error_code'', Task_Types.opt_json JString (es_error_code x)),
      (''error_stage'', Task_Types.opt_json JString (es_error_stage x)),
      (''task_duration_ms'', jnat (es_task_duration_ms x)),
      (''stages'', JObject
        [(''context_ms'', jnat (context_ms (es_stages x))), (''session_ms'', jnat (session_ms (es_stages x))),
         (''classify_ms'', jnat (classify_ms (es_stages x))), (''execute_ms'', jnat (execute_ms (es_stages x))),
         (''total_ms'', jnat (total_ms (es_stages x)))])]"

definition record_summary :: "'w agent_env \<Rightarrow> execution_summary \<Rightarrow> ('w, 'z, unit) em_m" where
  "record_summary E x = do {
     s \<leftarrow> e_snapshot;
     e_append E (ProjectionHintRecorded (run_of_job s (es_message_id x)) ''execution'' ''summary'' (summary_json x));
     modify_state (\<lambda>s. s\<lparr>em_summaries := push_bounded summary_limit x (em_summaries s)\<rparr>)
   }"

definition latest_summary :: "inbound \<Rightarrow> ('w, 'z) emitter_scheme \<Rightarrow> execution_summary option" where
  "latest_summary m s =
     find (\<lambda>x. es_trace_id x = in_id m \<or> es_message_id x = runtime_message_id m) (rev (em_summaries s))"


section \<open>Records of the runtime state\<close>

definition upsert_run :: "'w agent_env \<Rightarrow> inbound \<Rightarrow> run_status \<Rightarrow> string option \<Rightarrow> ('w, 'z, unit) em_m" where
  "upsert_run E m st turn = do {
     s \<leftarrow> e_snapshot;
     created \<leftarrow> (case map_of (runs s) (runtime_run_id (in_id m)) of
         Some r \<Rightarrow> State_Monad.return (run_created_at r) | None \<Rightarrow> e_now E);
     updated \<leftarrow> e_now E;
     e_append E (RunUpserted
       \<lparr>run_id = runtime_run_id (in_id m), run_trace_id = in_id m, run_job_id = in_id m, run_chat_id = in_chat_id m,
        run_channel = in_channel m, run_status = st, current_turn_id = turn, latest_error = None,
        run_created_at = created, run_updated_at = updated, run_completed_at = None\<rparr>)
   }"

definition upsert_turn :: "'w agent_env \<Rightarrow> inbound \<Rightarrow> string \<Rightarrow> turn_status \<Rightarrow> ('w, 'z, string) em_m" where
  "upsert_turn E m source st =
     (let t = runtime_turn_id (in_id m) source in do {
        s \<leftarrow> e_snapshot;
        started \<leftarrow> (case map_of (turns s) t of Some r \<Rightarrow> State_Monad.return (turn_started_at r) | None \<Rightarrow> e_now E);
        updated \<leftarrow> e_now E;
        e_append E (TurnUpserted
          \<lparr>turn_id = t, turn_run_id = runtime_run_id (in_id m), turn_source = source, turn_status = st,
           transcript_checkpoint = length (transcript s), turn_requirement_id = Some (runtime_requirement_id (in_id m)),
           turn_suspension_id = None, turn_started_at = started, turn_updated_at = updated, turn_completed_at = None\<rparr>);
        upsert_run E m RunRunning (Some t);
        State_Monad.return t
      })"

fun phase_kind :: "task_phase \<Rightarrow> task_kind" where
  "phase_kind PhaseMain = Main"
| "phase_kind PhaseQuestion = Question"
| "phase_kind PhaseToolPermission = ToolInvocation"
| "phase_kind PhaseFollowup = Followup"
| "phase_kind PhaseRequirement = Requirement"

definition current_turn :: "snapshot \<Rightarrow> inbound \<Rightarrow> string option" where
  "current_turn s m = Option.bind (map_of (runs s) (runtime_run_id (in_id m))) current_turn_id"

definition upsert_task ::
  "'w agent_env \<Rightarrow> inbound \<Rightarrow> task_phase \<Rightarrow> task_status \<Rightarrow> string \<Rightarrow> string option \<Rightarrow> ('w, 'z, string) em_m" where
  "upsert_task E m ph st descr err =
     (let i = runtime_task_id (in_id m) ph in do {
        s \<leftarrow> e_snapshot;
        let existing = map_of (tasks s) i;
        updated \<leftarrow> e_now E;
        e_append E (TaskUpserted
          \<lparr>task_id = i, task_run_id = runtime_run_id (in_id m), task_turn_id = current_turn s m, parent_task_id = None,
           task_trace_id = in_id m, task_job_id = in_id m, task_parent_job_id = None, plan_id = None,
           kind = phase_kind ph, task_name = phase_label ph, task_type = phase_label ph, description = descr,
           status = st, execution_mode = None, result_kind = Option.bind existing result_kind, specialist_type = None,
           dependencies = (case existing of None \<Rightarrow> [] | Some t \<Rightarrow> dependencies t),
           task_metadata = JObject [(''channel'', JString (in_channel m)),
             (''chat_id'', Task_Types.opt_json JString (in_chat_id m))],
           started_at = or_else (Option.bind existing started_at) (Some updated), updated_at = updated,
           completed_at = Option.bind existing completed_at, error = err\<rparr>);
        State_Monad.return i
      })"

text \<open>The stored payload: the question as asked, completed with what is needed to rebuild it.\<close>

definition suspension_payload :: "inbound \<Rightarrow> pending_question \<Rightarrow> json" where
  "suspension_payload m q =
     (let j = json_default ''sender_id'' (JString (in_sender_id m))
           (json_default ''original_user_request'' (JString (in_content m))
             (json_default ''opencode_session_id'' (JString (pq_session_id q)) (raw_question q)));
          j = (case in_chat_id m of None \<Rightarrow> j | Some c \<Rightarrow> json_default ''chat_id'' (JString c) j)
      in json_default ''channel'' (JString (in_channel m)) j)"

definition upsert_suspension ::
  "'w agent_env \<Rightarrow> inbound \<Rightarrow> pending_question \<Rightarrow> string option \<Rightarrow> string option \<Rightarrow> suspension_kind \<Rightarrow> suspension_status \<Rightarrow>
   ('w, 'z, string) em_m" where
  "upsert_suspension E m q tid iid k st =
     (let i = runtime_suspension_id (question_id q) in do {
        s \<leftarrow> e_snapshot;
        updated \<leftarrow> e_now E;
        resolved \<leftarrow> (if answer_submitted q then do { n \<leftarrow> e_now E; State_Monad.return (Some n) }
                      else State_Monad.return None);
        e_append E (SuspensionUpserted
          \<lparr>suspension_id = i, susp_run_id = runtime_run_id (in_id m),
           susp_turn_id = unwrap_or (runtime_turn_id (in_id m) ''initial'') (current_turn s m), susp_task_id = tid,
           susp_question_id = Some (question_id q), susp_invocation_id = iid, susp_kind = k, susp_status = st,
           susp_prompt = Some (pq_prompt q), susp_options = pq_options q, susp_raw_payload = suspension_payload m q,
           resolution_source = pq_resolution_source q, susp_answer_summary = answer_summary q,
           susp_created_at = (case map_of (suspensions s) i of None \<Rightarrow> asked_at q | Some r \<Rightarrow> susp_created_at r),
           susp_updated_at = updated, susp_resolved_at = resolved, susp_cleared_at = None\<rparr>);
        State_Monad.return i
      })"

definition append_transcript_message :: "'w agent_env \<Rightarrow> inbound \<Rightarrow> internal_msg \<Rightarrow> ('w, 'z, unit) em_m" where
  "append_transcript_message E m x = do {
     s \<leftarrow> e_snapshot;
     now \<leftarrow> e_now E;
     e_append E (MessageAppended (from_internal (runtime_run_id (in_id m)) (current_turn s m) now x))
   }"

definition append_transcript_messages :: "'w agent_env \<Rightarrow> inbound \<Rightarrow> internal_msg list \<Rightarrow> ('w, 'z, unit) em_m" where
  "append_transcript_messages E m xs = for_each (append_transcript_message E m) xs"

datatype blocked_reason =
    MissingParameter string string
  | MissingContext string
  | MultipleOptions "string list" string
  | NeedsDecision string

fun blocked_json :: "blocked_reason \<Rightarrow> json" where
  "blocked_json (MissingParameter n d) =
     JObject [(''kind'', JString ''missing_parameter''), (''name'', JString n), (''description'', JString d)]"
| "blocked_json (MissingContext w) = JObject [(''kind'', JString ''missing_context''), (''what_needed'', JString w)]"
| "blocked_json (MultipleOptions opts p) =
     JObject [(''kind'', JString ''multiple_options''), (''options'', JArray (map JString opts)), (''prompt'', JString p)]"
| "blocked_json (NeedsDecision r) = JObject [(''kind'', JString ''needs_decision''), (''reason'', JString r)]"

definition append_subtask_blocked_transcript ::
  "'w agent_env \<Rightarrow> inbound \<Rightarrow> blocked_reason \<Rightarrow> bool \<Rightarrow> ('w, 'z, unit) em_m" where
  "append_subtask_blocked_transcript E m reason auto =
     (let label = (if auto then ''subtask_auto_resolved'' else ''subtask_blocked'') in
      append_transcript_message E m
        \<lparr>msg_role = System, blocks = [Text (''['' @ label @ ''] '' @ ae_json_text E (blocked_json reason))],
         message_id = runtime_message_id m @ ''-'' @ label, tool_use_id = None, filtered = False,
         metadata = JObject [(''subtask_blocked'', JBool True), (''auto_resolved'', JBool auto)]\<rparr>)"

end
