(* ===== verification/Suspension.thy ===== *)
theory Suspension
  imports Event_Emitter
begin

text \<open>
  The coordinator of questions (\<open>SuspensionCoordinator\<close> of \<open>agent/suspension.rs\<close>): a question to the user is
  recorded as an active suspension of the runtime state and cached under its job, a suspended tool call under
  its question.  Both caches are rebuilt from the runtime state when it knows the run or the question.
\<close>

section \<open>State\<close>

record suspended_state =
  ss_suspension :: agentic_loop_suspension
  ss_inbound :: inbound
  ss_session_id :: string

record 'w coordinator = "'w emitter" +
  pending_questions :: "(string, pending_question) imap"
  suspended_invocations :: "(string, suspended_state) imap"

type_synonym ('w, 'z, 'a) co_m = "(('w, 'z) coordinator_scheme, 'a) state"

datatype agent_error =
    ArcMutationConflict string
  | ExecutionFailed string
  | ContinuationFailed string
  | NoPendingQuestion string
  | QuestionIdMismatch string string string
  | MissingInboundContext string
  | ForcedFallback
  | NoDecomposition
  | BelowThreshold rat rat
  | BusSendFailed string

definition new_coordinator :: "nat \<times> snapshot \<Rightarrow> 'w \<Rightarrow> 'w coordinator" where
  "new_coordinator store w = emitter.extend (new_emitter store w) (coordinator.fields [] [])"

definition invocation_of :: "suspended_state \<Rightarrow> Tool_Execution.tool_invocation_record" where
  "invocation_of st = st_invocation (suspended_tool (ss_suspension st))"

definition request_of :: "suspended_state \<Rightarrow> permission_request" where
  "request_of st = st_permission_request (suspended_tool (ss_suspension st))"

abbreviation suspended_tool_name :: "suspended_state \<Rightarrow> string" where
  "suspended_tool_name st \<equiv> st_tool_name (suspended_tool (ss_suspension st))"

abbreviation suspended_use_id :: "suspended_state \<Rightarrow> string" where
  "suspended_use_id st \<equiv> st_tool_use_id (suspended_tool (ss_suspension st))"

fun permission_risk_to_question_risk :: "permission_risk_level \<Rightarrow> question_risk_level" where
  "permission_risk_to_question_risk permission_risk_level.Low = RiskLow"
| "permission_risk_to_question_risk permission_risk_level.High = RiskHigh"

definition cache_question :: "string \<Rightarrow> pending_question \<Rightarrow> ('w, 'z, unit) co_m" where
  "cache_question job q = modify_state (\<lambda>s. s\<lparr>pending_questions := im_insert job q (pending_questions s)\<rparr>)"


section \<open>Asking\<close>

fun kind_of_source :: "question_source_kind \<Rightarrow> suspension_kind" where
  "kind_of_source ToolPermissionQuestion = ToolPermission"
| "kind_of_source SubtaskBlockedQuestion = SubtaskBlocked"
| "kind_of_source PlanApproval = HumanApproval"
| "kind_of_source UpstreamQuestion = SQuestion"

definition store_question :: "'w agent_env \<Rightarrow> string \<Rightarrow> pending_question \<Rightarrow> ('w, 'z, unit) co_m" where
  "store_question E job q =
     (let phase = (if source_kind q = ToolPermissionQuestion then PhaseToolPermission else PhaseQuestion) in do {
        (case pq_inbound q of
           None \<Rightarrow> State_Monad.return ()
         | Some m \<Rightarrow> do {
             tid \<leftarrow> upsert_task E m phase task_status.Suspended (pq_prompt q) None;
             upsert_suspension E m q (Some tid) (json_str ''invocation_id'' (raw_question q)) (kind_of_source (source_kind q)) SActive;
             State_Monad.return ()
           });
        cache_question job q
      })"

definition plan_approval_prompt :: "string \<Rightarrow> nat \<Rightarrow> string" where
  "plan_approval_prompt summary n = (utf8 [0xE6, 0x89, 0xA7, 0xE8, 0xA1, 0x8C, 0xE8, 0xAE, 0xA1, 0xE5, 0x88, 0x92, 0xE5, 0xBE, 0x85, 0xE5, 0xAE, 0xA1, 0xE6, 0x89, 0xB9, 0xEF, 0xBC, 0x9A] @ summary @ utf8 [0xEF, 0xBC, 0x88, 0xE5, 0x85, 0xB1] @ '' '' @ dec n @ '' '' @ utf8 [0xE4, 0xB8, 0xAA, 0xE5, 0xAD, 0x90, 0xE4, 0xBB, 0xBB, 0xE5, 0x8A, 0xA1, 0xEF, 0xBC, 0x89])"

definition ask_user ::
  "'w agent_env \<Rightarrow> string \<Rightarrow> inbound \<Rightarrow> pending_question \<Rightarrow> suspension_kind \<Rightarrow> ('w, 'z, unit) co_m" where
  "ask_user E job m q k = do {
     tid \<leftarrow> upsert_task E m PhaseQuestion task_status.Suspended (pq_prompt q) None;
     upsert_suspension E m q (Some tid) None k SActive;
     cache_question job q
   }"

record plan_proposal =
  proposal_id :: string
  prop_job_id :: string
  prop_plan :: execution_plan
  prop_summary :: string
  proposed_at :: nat

definition register_plan_approval ::
  "'w agent_env \<Rightarrow> string \<Rightarrow> inbound \<Rightarrow> string \<Rightarrow> plan_proposal \<Rightarrow> ('w, 'z, unit) co_m" where
  "register_plan_approval E job m session p = do {
     i \<leftarrow> e_uuid E;
     now \<leftarrow> e_now E;
     ask_user E job m
       \<lparr>question_id = i, pq_job_id = job, pq_session_id = session, pq_kind = Confirm,
        pq_prompt = plan_approval_prompt (prop_summary p) (length (ep_tasks (prop_plan p))),
        pq_options = [''approved'', ''rejected''],
        raw_question = JObject [(''type'', JString ''plan_approval''), (''proposal_id'', JString (proposal_id p)),
          (''plan'', ae_plan_json E (prop_plan p)), (''summary'', JString (prop_summary p))],
        decision_mode = UserRequired, risk_level = RiskHigh, requires_user_confirmation = True, source_kind = PlanApproval,
        continuation_token = Some i, asked_at = now, answer_submitted = False, answer_summary = None,
        pq_resolution_source = None, pq_inbound = Some m\<rparr> HumanApproval
   }"

fun blocked_prompt :: "blocked_reason \<Rightarrow> string" where
  "blocked_prompt (MissingParameter n d) = utf8 [0xE5, 0xAD, 0x90, 0xE4, 0xBB, 0xBB, 0xE5, 0x8A, 0xA1, 0xE9, 0x9C, 0x80, 0xE8, 0xA6, 0x81, 0xE5, 0x8F, 0x82, 0xE6, 0x95, 0xB0] @ '' `'' @ n @ ''`: '' @ d"
| "blocked_prompt (MissingContext w) = utf8 [0xE5, 0xAD, 0x90, 0xE4, 0xBB, 0xBB, 0xE5, 0x8A, 0xA1, 0xE7, 0xBC, 0xBA, 0xE5, 0xB0, 0x91, 0xE4, 0xB8, 0x8A, 0xE4, 0xB8, 0x8B, 0xE6, 0x96, 0x87] @ '': '' @ w"
| "blocked_prompt (MultipleOptions opts p) = p"
| "blocked_prompt (NeedsDecision r) = utf8 [0xE5, 0xAD, 0x90, 0xE4, 0xBB, 0xBB, 0xE5, 0x8A, 0xA1, 0xE9, 0x9C, 0x80, 0xE8, 0xA6, 0x81, 0xE5, 0x86, 0xB3, 0xE7, 0xAD, 0x96] @ '': '' @ r"

fun blocked_options :: "blocked_reason \<Rightarrow> string list" where
  "blocked_options (MultipleOptions opts p) = opts"
| "blocked_options _ = []"

fun blocked_kind :: "blocked_reason \<Rightarrow> question_kind" where
  "blocked_kind (MultipleOptions opts p) = Choice"
| "blocked_kind _ = Input"

definition register_subtask_blocked ::
  "'w agent_env \<Rightarrow> string \<Rightarrow> inbound \<Rightarrow> string \<Rightarrow> blocked_reason \<Rightarrow> ('w, 'z, unit) co_m" where
  "register_subtask_blocked E job m session reason = do {
     i \<leftarrow> e_uuid E;
     now \<leftarrow> e_now E;
     ask_user E job m
       \<lparr>question_id = i, pq_job_id = job, pq_session_id = session, pq_kind = blocked_kind reason,
        pq_prompt = blocked_prompt reason, pq_options = blocked_options reason, raw_question = blocked_json reason,
        decision_mode = UserRequired, risk_level = RiskLow, requires_user_confirmation = True,
        source_kind = SubtaskBlockedQuestion, continuation_token = Some i, asked_at = now, answer_submitted = False,
        answer_summary = None, pq_resolution_source = None, pq_inbound = Some m\<rparr> SubtaskBlocked
   }"

definition upsert_runtime_tool_invocation ::
  "'w agent_env \<Rightarrow> inbound \<Rightarrow> Tool_Execution.tool_invocation_record \<Rightarrow> string option \<Rightarrow> ('w, 'z, unit) co_m" where
  "upsert_runtime_tool_invocation E m iv preview = do {
     s \<leftarrow> e_snapshot;
     e_append E (ToolInvocationUpserted
       \<lparr>Task_Records.tool_invocation_record.invocation_id = Tool_Execution.tool_invocation_record.invocation_id iv, inv_run_id = runtime_run_id (in_id m),
        inv_turn_id = current_turn s m, inv_task_id = Some (runtime_task_id (in_id m) PhaseToolPermission),
        Task_Records.tool_invocation_record.inv_tool_name = Tool_Execution.tool_invocation_record.inv_tool_name iv,
        Task_Records.tool_invocation_record.inv_tool_use_id = Tool_Execution.tool_invocation_record.inv_tool_use_id iv,
        inv_phase = phase_name (phase iv), inv_permission_state = permission_state_name (permission_state iv),
        inv_input_preview = preview, inv_result_summary = result_summary iv, inv_error_summary = error_summary iv,
        inv_started_at = started_at_ms iv, inv_finished_at = finished_at_ms iv\<rparr>)
   }"

definition tool_question :: "string \<Rightarrow> nat \<Rightarrow> suspended_state \<Rightarrow> json \<Rightarrow> question_risk_level \<Rightarrow> pending_question" where
  "tool_question i now st raw risk =
     \<lparr>question_id = i, pq_job_id = runtime_message_id (ss_inbound st), pq_session_id = ss_session_id st, pq_kind = Confirm,
      pq_prompt = prompt (request_of st), pq_options = [''allow'', ''deny''], raw_question = raw,
      decision_mode = UserRequired, risk_level = risk, requires_user_confirmation = True,
      source_kind = ToolPermissionQuestion, continuation_token = Some i, asked_at = now, answer_submitted = False,
      answer_summary = None, pq_resolution_source = None, pq_inbound = Some (ss_inbound st)\<rparr>"

definition store_tool_invocation :: "'w agent_env \<Rightarrow> string \<Rightarrow> suspended_state \<Rightarrow> ('w, 'z, unit) co_m" where
  "store_tool_invocation E i st = do {
     upsert_task E (ss_inbound st) PhaseToolPermission task_status.Suspended
       (''awaiting permission for tool '' @ suspended_tool_name st) None;
     now \<leftarrow> e_now E;
     upsert_suspension E (ss_inbound st)
       (tool_question i now st (JObject
         [(''type'', JString ''tool_permission''), (''tool_name'', JString (suspended_tool_name st)),
          (''tool_use_id'', JString (suspended_use_id st)),
          (''tool_input'', st_tool_input (suspended_tool (ss_suspension st))), (''raw_input'', raw_input (request_of st)),
          (''prompt'', JString (prompt (request_of st))), (''input_preview'', JString (input_preview (request_of st))),
          (''invocation_id'', JString (Tool_Execution.tool_invocation_record.invocation_id (invocation_of st)))])
        (permission_risk_to_question_risk (permission_request.risk_level (request_of st))))
       (Some (runtime_task_id (runtime_message_id (ss_inbound st)) PhaseToolPermission))
       (Some (Tool_Execution.tool_invocation_record.invocation_id (invocation_of st))) ToolPermission SActive;
     upsert_runtime_tool_invocation E (ss_inbound st) (invocation_of st) (Some (input_preview (request_of st)));
     modify_state (\<lambda>s. s\<lparr>suspended_invocations := im_insert i st (suspended_invocations s)\<rparr>)
   }"



section \<open>Rebuilding from the runtime state\<close>

definition payload_str :: "string \<Rightarrow> string \<Rightarrow> suspension_record \<Rightarrow> string" where
  "payload_str d k r = unwrap_or d (json_str k (susp_raw_payload r))"

definition rebuilt_session :: "suspension_record \<Rightarrow> string" where
  "rebuilt_session r = unwrap_or [] (or_else (json_str ''opencode_session_id'' (susp_raw_payload r))
     (json_str ''session_id'' (susp_raw_payload r)))"

definition rebuilt_inbound :: "string \<Rightarrow> run_record \<Rightarrow> suspension_record \<Rightarrow> inbound" where
  "rebuilt_inbound i run r =
     \<lparr>in_id = i, in_channel = payload_str ''unknown'' ''channel'' r, in_sender_id = payload_str ''unknown'' ''sender_id'' r,
      in_chat_id = run_chat_id run, in_content = payload_str [] ''original_user_request'' r, in_session_key = None,
      in_media = [], in_metadata = JObject []\<rparr>"

definition rebuilt_source :: "suspension_record \<Rightarrow> question_source_kind" where
  "rebuilt_source r =
     (if susp_kind r = ToolPermission \<or> json_str ''type'' (susp_raw_payload r) = Some ''tool_permission''
      then ToolPermissionQuestion
      else if susp_kind r = HumanApproval \<or> json_str ''type'' (susp_raw_payload r) = Some ''plan_approval''
      then PlanApproval
      else UpstreamQuestion)"

definition rebuilt_question :: "string \<Rightarrow> string \<Rightarrow> run_record \<Rightarrow> suspension_record \<Rightarrow> pending_question" where
  "rebuilt_question job q run r =
     (let source = rebuilt_source r;
          risk = (if json_str ''risk_level'' (susp_raw_payload r) = Some ''low'' then RiskLow else RiskHigh)
      in \<lparr>question_id = q, pq_job_id = job, pq_session_id = rebuilt_session r,
          pq_kind = (if 2 < length (susp_options r) then Choice else Confirm),
          pq_prompt = unwrap_or [] (susp_prompt r), pq_options = susp_options r, raw_question = susp_raw_payload r,
          decision_mode = (if risk = RiskLow then AutoAllowed else UserRequired), risk_level = risk,
          requires_user_confirmation = (source = ToolPermissionQuestion \<or>
            unwrap_or True (json_bool ''requires_user_confirmation'' (susp_raw_payload r))),
          source_kind = source, continuation_token = Some (suspension_id r), asked_at = susp_created_at r,
          answer_submitted = (susp_status r = Resolved),
          answer_summary = json_str ''answer_summary'' (susp_raw_payload r),
          pq_resolution_source = json_str ''resolution_source'' (susp_raw_payload r),
          pq_inbound = Some (rebuilt_inbound job run r)\<rparr>)"

definition rebuild_question :: "snapshot \<Rightarrow> string \<Rightarrow> pending_question option" where
  "rebuild_question s job =
     (case map_of (runs s) (runtime_run_id job) of
        None \<Rightarrow> None
      | Some run \<Rightarrow>
          (case active_suspension s (run_id run) of
             None \<Rightarrow> None
           | Some r \<Rightarrow> map_option (\<lambda>q. rebuilt_question job q run r) (susp_question_id r)))"

definition turn_of_suspension :: "snapshot \<Rightarrow> suspension_record \<Rightarrow> string option" where
  "turn_of_suspension s r =
     (if susp_turn_id r = [] then Option.bind (map_of (runs s) (susp_run_id r)) current_turn_id else Some (susp_turn_id r))"

definition rebuild_turn_messages :: "snapshot \<Rightarrow> suspension_record \<Rightarrow> internal_msg list" where
  "rebuild_turn_messages s r =
     (let t = turn_of_suspension s r;
          checkpoint = (case Option.bind t (map_of (turns s)) of None \<Rightarrow> 0 | Some x \<Rightarrow> transcript_checkpoint x)
      in map to_internal (filter (\<lambda>m. msg_run_id m = susp_run_id r \<and> msg_turn_id m = t) (drop checkpoint (transcript s))))"

text \<open>Reading a phase or permission state back from its name; the names are those that were written.\<close>

definition parse_phase :: "string \<Rightarrow> tool_invocation_phase option" where
  "parse_phase n = find (\<lambda>p. phase_name p = n)
     [Detected, ValidatingInput, PermissionChecking, PermissionRequested, PermissionResolved, tool_invocation_phase.Executing,
      tool_invocation_phase.Completed, tool_invocation_phase.Failed, ResultRecorded]"

definition parse_permission_state :: "string \<Rightarrow> tool_permission_state option" where
  "parse_permission_state n = find (\<lambda>p. permission_state_name p = n) [NotRequired, Checking, Requested, Allowed, Denied]"

definition suspension_of_question :: "snapshot \<Rightarrow> string \<Rightarrow> suspension_record option" where
  "suspension_of_question s q = Option.bind (map_of (suspension_ids_by_question_id (index s)) q) (map_of (suspensions s))"

definition rebuilt_invocation ::
  "string \<Rightarrow> Task_Records.tool_invocation_record \<Rightarrow> Tool_Execution.tool_invocation_record" where
  "rebuilt_invocation i iv =
     \<lparr>Tool_Execution.tool_invocation_record.invocation_id = i, Tool_Execution.tool_invocation_record.inv_tool_name = Task_Records.tool_invocation_record.inv_tool_name iv,
      phase = unwrap_or Detected (parse_phase (inv_phase iv)),
      permission_state = unwrap_or Checking (parse_permission_state (inv_permission_state iv)),
      started_at_ms = inv_started_at iv, finished_at_ms = inv_finished_at iv,
      Tool_Execution.tool_invocation_record.inv_tool_use_id = Some (unwrap_or [] (Task_Records.tool_invocation_record.inv_tool_use_id iv)),
      result_summary = inv_result_summary iv, error_summary = inv_error_summary iv\<rparr>"

definition rebuilt_tool_input :: "suspension_record \<Rightarrow> json" where
  "rebuilt_tool_input r = unwrap_or JNull (or_else (json_get ''tool_input'' (susp_raw_payload r))
     (json_get ''raw_input'' (susp_raw_payload r)))"

definition rebuilt_suspension ::
  "snapshot \<Rightarrow> suspension_record \<Rightarrow> string \<Rightarrow> string \<Rightarrow> Task_Records.tool_invocation_record \<Rightarrow> run_record \<Rightarrow> suspended_state" where
  "rebuilt_suspension s r i use iv run =
     \<lparr>ss_suspension =
        \<lparr>suspended_tool =
           \<lparr>st_tool_use_id = use, st_tool_name = Task_Records.tool_invocation_record.inv_tool_name iv, st_tool_input = rebuilt_tool_input r,
            st_permission_request =
              \<lparr>req_tool_name = Task_Records.tool_invocation_record.inv_tool_name iv, prompt = unwrap_or [] (susp_prompt r), options = susp_options r,
               permission_request.risk_level = (if json_str ''risk_level'' (susp_raw_payload r) = Some ''low''
                 then permission_risk_level.Low else permission_risk_level.High),
               permission_request.requires_user_confirmation = True, raw_input = rebuilt_tool_input r,
               input_preview = unwrap_or [] (inv_input_preview iv)\<rparr>,
            st_invocation = rebuilt_invocation i iv\<rparr>,
         sus_messages = rebuild_turn_messages s r, sus_iterations = 0, sus_compact_count = 0\<rparr>,
      ss_inbound = rebuilt_inbound (run_job_id run) run r, ss_session_id = rebuilt_session r\<rparr>"

definition rebuild_tool_invocation :: "snapshot \<Rightarrow> string \<Rightarrow> suspended_state option" where
  "rebuild_tool_invocation s q = do {
     r \<leftarrow> suspension_of_question s q;
     if susp_status r \<noteq> SActive then None else do {
       i \<leftarrow> susp_invocation_id r;
       iv \<leftarrow> map_of (tool_invocations s) i;
       run \<leftarrow> map_of (runs s) (susp_run_id r);
       use \<leftarrow> or_else (Task_Records.tool_invocation_record.inv_tool_use_id iv) (json_str ''tool_use_id'' (susp_raw_payload r));
       Some (rebuilt_suspension s r i use iv run)
     }
   }"


section \<open>Looking up\<close>

definition question_state :: "string \<Rightarrow> bool \<Rightarrow> ('w, 'z, pending_question option) co_m" where
  "question_state job hydrate = do {
     s \<leftarrow> e_snapshot;
     c \<leftarrow> State_Monad.get;
     if map_of (run_ids_by_job_id (index s)) job \<noteq> None then do {
       let rebuilt = rebuild_question s job;
       (case rebuilt of
          Some q \<Rightarrow> if hydrate then cache_question job q else State_Monad.return ()
        | None \<Rightarrow> modify_state (\<lambda>s. s\<lparr>pending_questions := im_remove job (pending_questions s)\<rparr>));
       State_Monad.return rebuilt
     }
     else State_Monad.return (map_of (pending_questions c) job)
   }"

definition tool_invocation_state :: "string \<Rightarrow> ('w, 'z, suspended_state option) co_m" where
  "tool_invocation_state q = do {
     s \<leftarrow> e_snapshot;
     c \<leftarrow> State_Monad.get;
     if map_of (suspension_ids_by_question_id (index s)) q \<noteq> None then do {
       let rebuilt = rebuild_tool_invocation s q;
       modify_state (\<lambda>s. s\<lparr>suspended_invocations := (case rebuilt of
           Some st \<Rightarrow> im_insert q st (suspended_invocations s) | None \<Rightarrow> im_remove q (suspended_invocations s))\<rparr>);
       State_Monad.return rebuilt
     }
     else State_Monad.return (map_of (suspended_invocations c) q)
   }"


section \<open>Clearing and answering\<close>

definition clear_question :: "'w agent_env \<Rightarrow> string \<Rightarrow> ('w, 'z, unit) co_m" where
  "clear_question E job = do {
     c \<leftarrow> State_Monad.get;
     let removed = map_of (pending_questions c) job;
     modify_state (\<lambda>s. s\<lparr>pending_questions := im_remove job (pending_questions s)\<rparr>);
     s \<leftarrow> e_snapshot;
     (case or_else removed (rebuild_question s job) of
        None \<Rightarrow> State_Monad.return ()
      | Some q \<Rightarrow>
          (case pq_inbound q of
             None \<Rightarrow> State_Monad.return ()
           | Some m \<Rightarrow> do {
               upsert_task E m PhaseQuestion task_status.Completed (pq_prompt q) None;
               upsert_suspension E m q (Some (runtime_task_id job PhaseQuestion)) None
                 (if source_kind q = SubtaskBlockedQuestion then SubtaskBlocked else SQuestion) Cleared;
               State_Monad.return ()
             }))
   }"

definition clear_tool_invocation :: "'w agent_env \<Rightarrow> string \<Rightarrow> ('w, 'z, unit) co_m" where
  "clear_tool_invocation E q = do {
     s \<leftarrow> e_snapshot;
     c \<leftarrow> State_Monad.get;
     let existing = suspension_of_question s q;
     let removed = map_of (suspended_invocations c) q;
     modify_state (\<lambda>s. s\<lparr>suspended_invocations := im_remove q (suspended_invocations s)\<rparr>);
     (case or_else removed (rebuild_tool_invocation s q) of
        None \<Rightarrow> State_Monad.return ()
      | Some st \<Rightarrow> do {
          now \<leftarrow> e_now E;
          upsert_suspension E (ss_inbound st)
            ((tool_question q now st (JObject
               [(''type'', JString ''tool_permission''), (''tool_name'', JString (suspended_tool_name st)),
                (''tool_use_id'', JString (suspended_use_id st))]) RiskHigh)
              \<lparr>answer_submitted := (case existing of None \<Rightarrow> False | Some r \<Rightarrow> susp_answer_summary r \<noteq> None),
               answer_summary := Option.bind existing susp_answer_summary,
               pq_resolution_source := Option.bind existing resolution_source\<rparr>)
            (Some (runtime_task_id (runtime_message_id (ss_inbound st)) PhaseToolPermission))
            (Some (Tool_Execution.tool_invocation_record.invocation_id (invocation_of st))) ToolPermission Cleared;
          State_Monad.return ()
        })
   }"

definition submit_answer ::
  "'w agent_env \<Rightarrow> string \<Rightarrow> question_answer \<Rightarrow> string \<Rightarrow> ('w, 'z, agent_error + pending_question) co_m" where
  "submit_answer E job a summary = do {
     found \<leftarrow> question_state job True;
     (case found of
        None \<Rightarrow> State_Monad.return (Inl (NoPendingQuestion job))
      | Some q \<Rightarrow>
          if question_id q \<noteq> qa_question_id a
          then State_Monad.return (Inl (QuestionIdMismatch job (question_id q) (qa_question_id a)))
          else do {
            let q = q\<lparr>answer_submitted := True, answer_summary := Some summary, pq_resolution_source := Some (qa_source a)\<rparr>;
            cache_question job q;
            (case pq_inbound q of
               None \<Rightarrow> State_Monad.return (Inl (MissingInboundContext job))
             | Some m \<Rightarrow>
                 if source_kind q = ToolPermissionQuestion then State_Monad.return (Inr q)
                 else do {
                   upsert_suspension E m q (Some (runtime_task_id job PhaseQuestion)) None (kind_of_source (source_kind q)) Resolved;
                   upsert_task E m PhaseQuestion task_status.Completed (''question answered: '' @ pq_prompt q) None;
                   State_Monad.return (Inr q)
                 })
          })
   }"


section \<open>Announcing\<close>

definition asked_fields ::
  "string \<Rightarrow> pending_question \<Rightarrow> string option \<Rightarrow> nat \<Rightarrow> nat \<Rightarrow> bool \<Rightarrow> string \<Rightarrow> json" where
  "asked_fields key q worker latency duration cached plan = JObject
     [(''memory_key'', JString key), (''plan_type'', JString plan), (''cached'', JBool cached),
      (''worker_id'', Task_Types.opt_json JString worker), (''task_duration_ms'', jnat duration),
      (''message_latency_ms'', jnat latency), (''question_id'', JString (question_id q)),
      (''question_kind'', JString (question_kind_str (pq_kind q))), (''prompt'', JString (pq_prompt q)),
      (''options'', JArray (map JString (pq_options q))),
      (''decision_mode'', JString (question_decision_mode_str (decision_mode q))),
      (''risk_level'', JString (question_risk_level_str (pending_question.risk_level q))),
      (''requires_user_confirmation'', JBool (pending_question.requires_user_confirmation q)),
      (''opencode_session_id'', JString (pq_session_id q)), (''raw_question'', raw_question q),
      (''source_kind'', JString (source_kind_str (source_kind q)))]"

definition publish_question_asked ::
  "'w agent_env \<Rightarrow> inbound \<Rightarrow> string \<Rightarrow> pending_question \<Rightarrow> string option \<Rightarrow> nat \<Rightarrow> nat \<Rightarrow> bool \<Rightarrow> string \<Rightarrow> ('w, 'z, unit) co_m" where
  "publish_question_asked E m key q worker latency duration cached plan = do {
     (if decision_mode q = UserRequired
      then publish E ''question_escalated_to_user'' m (asked_fields key q worker latency duration cached plan)
      else State_Monad.return ());
     publish E ''question_asked'' m (asked_fields key q worker latency duration cached plan)
   }"

end
