(* ===== verification/Suspension_Props.thy ===== *)
theory Suspension_Props
  imports Suspension
begin

text \<open>
  What the emitter and the coordinator of questions guarantee: the timeline keeps the latest events, a
  question that was answered is not accepted again, and questions and suspended tool calls survive a restart
  as far as the code stores them.
\<close>

section \<open>Rules\<close>

lemma wp_return_point: "wp (State_Monad.return a) Q = Q a"
  by (rule ext) (simp add: wp_return)

lemma wp_bind_point: "wp (State_Monad.bind m f) Q = wp m (\<lambda>a. wp (f a) Q)"
  by (rule ext) (simp add: wp_bind)

lemma wp_e_now [wp_rules]:
  "wp (e_now E) Q s \<longleftrightarrow> (case ae_now E (em_world s) of (n, w) \<Rightarrow> Q n (s\<lparr>em_world := w\<rparr>))"
  by (simp add: e_now_def wp_state split: prod.split)

lemma wp_e_uuid [wp_rules]:
  "wp (e_uuid E) Q s \<longleftrightarrow> (case ae_uuid E (em_world s) of (n, w) \<Rightarrow> Q n (s\<lparr>em_world := w\<rparr>))"
  by (simp add: e_uuid_def wp_state split: prod.split)

lemma wp_e_snapshot [wp_rules]: "wp e_snapshot Q s \<longleftrightarrow> Q (snd (em_store s)) s"
  by (simp add: e_snapshot_def wp_rules)

lemma wp_e_append [wp_rules]:
  "wp (e_append E ev) Q s \<longleftrightarrow> (case ae_now E (em_world s) of (n, w) \<Rightarrow>
     Q () (s\<lparr>em_world := w, em_store := spec_op (Append ev n) (em_store s)\<rparr>))"
  by (simp add: e_append_def wp_rules split: prod.split)

lemma wp_cache_question [wp_rules]:
  "wp (cache_question job q) Q s \<longleftrightarrow> Q () (s\<lparr>pending_questions := im_insert job q (pending_questions s)\<rparr>)"
  by (simp add: cache_question_def wp_rules)

lemma snd_append [simp]:
  "snd (spec_op (Append ev n) st) = reduce_event (snd st) ev (fst st + 1) n"
  by (cases st) simp

definition in_snapshot :: "(snapshot \<Rightarrow> bool) \<Rightarrow> ('w, 'z) emitter_scheme \<Rightarrow> bool" where
  "in_snapshot P s \<longleftrightarrow> P (snd (em_store s))"

text \<open>What an append establishes, for predicates that ignore the log of recent events.\<close>

definition ignores_log :: "(snapshot \<Rightarrow> bool) \<Rightarrow> bool" where
  "ignores_log P \<longleftrightarrow> (\<forall>s es. P (s\<lparr>recent_events := es\<rparr>) = P s)"

lemma append_establishes:
  "ignores_log P \<Longrightarrow> P (apply_event ev (snd (em_store s))) \<Longrightarrow> wp (e_append E ev) (\<lambda>_. in_snapshot P) s"
  by (simp add: wp_e_append in_snapshot_def reduce_event_def Let_def ignores_log_def split: prod.split)


section \<open>The timeline\<close>

definition take_last :: "nat \<Rightarrow> 'a list \<Rightarrow> 'a list" where
  "take_last n xs = drop (length xs - n) xs"

lemma push_bounded_last: "push_bounded n x (take_last n xs) = take_last n (xs @ [x])"
  by (cases "n \<le> length xs") (auto simp: push_bounded_def take_last_def Let_def Suc_diff_le)

lemma push_bounded_map: "map f (push_bounded n x xs) = push_bounded n (f x) (map f xs)"
  by (simp add: push_bounded_def Let_def drop_map [symmetric])

lemma take_last_map: "map f (take_last n xs) = take_last n (map f xs)"
  by (simp add: take_last_def drop_map)

lemma take_last_short: "length xs \<le> n \<Longrightarrow> take_last n xs = xs"
  by (simp add: take_last_def)

definition bus_event :: "internal_message \<Rightarrow> string" where
  "bus_event m = (case im_payload m of PRuntimeEvent e i ch c sd p \<Rightarrow> e | _ \<Rightarrow> [])"

definition history_kept :: "string list \<Rightarrow> string list \<Rightarrow> ('w, 'z) emitter_scheme \<Rightarrow> bool" where
  "history_kept hist bus s \<longleftrightarrow> map te_event (em_timeline s) = take_last timeline_limit hist \<and> map bus_event (em_bus s) = bus"

lemma publish_history:
  "history_kept hist bus s \<Longrightarrow> wp (publish E e m p) (\<lambda>_. history_kept (hist @ [e]) (bus @ [e])) s"
  by (auto simp: publish_def record_timeline_def publish_internal_def Let_def wp_rules history_kept_def make_internal_def
      bus_event_def push_bounded_last push_bounded_map split: prod.split)

text \<open>
  The bus is given every event in order, and the timeline holds the latest fifty of them in order, whatever is
  published.\<close>

theorem timeline_keeps_latest:
  "let s = snd (run_state (for_each (\<lambda>(e, m, p). publish E e m p) es) (new_emitter st w))
   in map te_event (em_timeline s) = take_last timeline_limit (map fst es) \<and> map bus_event (em_bus s) = map fst es"
proof -
  have "wp (for_each (\<lambda>(e, m, p). publish E e m p) es) (\<lambda>_. history_kept (hist @ map fst es) (bus @ map fst es)) s"
    if "history_kept hist bus s" for hist bus and s :: "'a emitter"
    using that
  proof (induction es arbitrary: hist bus s)
    case (Cons x es)
    obtain e m p where x: "x = (e, m, p)"
      by (cases x)
    have "wp (for_each (\<lambda>(e, m, p). publish E e m p) es)
        (\<lambda>_. history_kept ((hist @ [e]) @ map fst es) ((bus @ [e]) @ map fst es)) s'"
      if "history_kept (hist @ [e]) (bus @ [e]) s'" for s' :: "'a emitter"
      by (rule Cons.IH [OF that])
    then show ?case
      by (simp add: x) (rule wp_seq [OF publish_history [OF Cons.prems]], simp)
  qed (simp add: wp_return)
  from this [of "[]" "[]" "new_emitter st w"] show ?thesis
    by (simp add: history_kept_def new_emitter_def take_last_def wp_run Let_def)
qed


section \<open>A question is answered once\<close>

text \<open>Suspensions are filed under the id made from their question; a question is settled when its suspension is
  not active; the jobs of \<open>J\<close> are known.\<close>

definition suspensions_keyed :: "snapshot \<Rightarrow> bool" where
  "suspensions_keyed s \<longleftrightarrow> im_wf (suspensions s) \<and> list_all (\<lambda>(k, r).
     case susp_question_id r of None \<Rightarrow> False | Some q \<Rightarrow> k = runtime_suspension_id q) (suspensions s)"

lemma suspensions_keyed_iff: "suspensions_keyed s \<longleftrightarrow>
  (\<forall>(k, r) \<in> set (suspensions s). \<exists>q. susp_question_id r = Some q \<and> k = runtime_suspension_id q) \<and> im_wf (suspensions s)"
  by (auto simp: suspensions_keyed_def list_all_iff split: option.splits)

definition settled :: "string \<Rightarrow> snapshot \<Rightarrow> bool" where
  "settled q s \<longleftrightarrow> (\<forall>r. map_of (suspensions s) (runtime_suspension_id q) = Some r \<longrightarrow> susp_status r \<noteq> SActive)"

definition knows_job :: "string \<Rightarrow> snapshot \<Rightarrow> bool" where
  "knows_job j s \<longleftrightarrow> map_of (run_ids_by_job_id (index s)) j \<noteq> None"

definition question_guard :: "string \<Rightarrow> string \<Rightarrow> snapshot \<Rightarrow> bool" where
  "question_guard q j s \<longleftrightarrow> suspensions_keyed s \<and> settled q s \<and> knows_job j s"

lemma guard_ignores_log: "ignores_log (question_guard q j)"
  by (simp add: ignores_log_def question_guard_def suspensions_keyed_iff settled_def knows_job_def)

lemma runtime_suspension_id_inj [simp]: "runtime_suspension_id a = runtime_suspension_id b \<longleftrightarrow> a = b"
  by (simp add: runtime_suspension_id_def)

lemma index_task_runs [simp]: "run_ids_by_job_id (index_task t ix) = run_ids_by_job_id ix"
  by (simp add: index_task_def split: option.split)

lemma index_suspension_runs [simp]: "run_ids_by_job_id (index_suspension r ix) = run_ids_by_job_id ix"
  by (simp add: index_suspension_def Let_def split: option.split)

lemma guard_task: "question_guard q j s \<Longrightarrow> question_guard q j (apply_event (TaskUpserted t) s)"
  by (simp add: question_guard_def suspensions_keyed_iff settled_def knows_job_def)

lemma guard_invocation: "question_guard q j s \<Longrightarrow> question_guard q j (apply_event (ToolInvocationUpserted t) s)"
  by (simp add: question_guard_def suspensions_keyed_iff settled_def knows_job_def)

lemma set_im_insert: "x \<in> set (im_insert k v m) \<Longrightarrow> x = (k, v) \<or> x \<in> set m"
  by (induction m) (auto split: if_splits)

lemma guard_suspension:
  assumes "question_guard q j s" "suspension_id r = runtime_suspension_id p" "susp_question_id r = Some p"
    "p = q \<Longrightarrow> susp_status r \<noteq> SActive"
  shows "question_guard q j (apply_event (SuspensionUpserted r) s)"
  using assms by (auto simp: question_guard_def suspensions_keyed_iff settled_def knows_job_def im.get_ins im_wf_insert
      dest!: set_im_insert split: if_splits)

abbreviation guarded :: "string \<Rightarrow> string \<Rightarrow> ('w, 'z) emitter_scheme \<Rightarrow> bool" where
  "guarded q j \<equiv> in_snapshot (question_guard q j)"

lemma guarded_world [simp]: "guarded q j (s\<lparr>em_world := w\<rparr>) = guarded q j s"
  by (simp add: in_snapshot_def)

lemma guarded_append:
  "guarded q j s \<Longrightarrow> (question_guard q j (snd (em_store s)) \<Longrightarrow> question_guard q j (apply_event ev (snd (em_store s)))) \<Longrightarrow>
   wp (e_append E ev) (\<lambda>_. guarded q j) s"
  by (rule append_establishes [OF guard_ignores_log]) (simp add: in_snapshot_def)

lemma guarded_now: "guarded q j s \<Longrightarrow> wp (e_now E) (\<lambda>_. guarded q j) s"
  by (simp add: wp_e_now split: prod.split)

lemma guarded_task: "guarded q j s \<Longrightarrow> wp (upsert_task E m ph st d e) (\<lambda>_. guarded q j) s"
  unfolding upsert_task_def Let_def
  by (auto simp: wp_bind wp_e_snapshot wp_return_point wp_e_now simp del: apply_event.simps
      intro!: guarded_append guard_task split: prod.split)

lemma guarded_suspend:
  "guarded q j s \<Longrightarrow> (question_id p = q \<Longrightarrow> st \<noteq> SActive) \<Longrightarrow> wp (upsert_suspension E m p tid iid k st) (\<lambda>_. guarded q j) s"
  unfolding upsert_suspension_def Let_def
  by (auto simp: wp_bind wp_e_snapshot wp_return_point wp_e_now wp_if simp del: apply_event.simps
      intro!: guarded_append guard_suspension [where p = "question_id p"] split: prod.split)

lemma guarded_invocation: "guarded q j s \<Longrightarrow> wp (upsert_runtime_tool_invocation E m iv pr) (\<lambda>_. guarded q j) s"
  unfolding upsert_runtime_tool_invocation_def
  by (auto simp: wp_bind wp_e_snapshot simp del: apply_event.simps intro!: guarded_append guard_invocation)


text \<open>The operations of the coordinator, and which question an operation makes active.\<close>

datatype co_op =
    StoreQuestion string pending_question
  | RegisterPlan string inbound string plan_proposal
  | RegisterBlocked string inbound string blocked_reason
  | StoreTool string suspended_state
  | AskState string bool
  | ToolState string
  | ClearQuestion string
  | ClearTool string
  | Submit string question_answer string

definition drop_result :: "('s, 'a) state \<Rightarrow> ('s, unit) state" where
  "drop_result m = do { m; State_Monad.return () }"

fun co_step :: "'w agent_env \<Rightarrow> co_op \<Rightarrow> ('w, 'z, unit) co_m" where
  "co_step E (StoreQuestion j p) = store_question E j p"
| "co_step E (RegisterPlan j m sid p) = register_plan_approval E j m sid p"
| "co_step E (RegisterBlocked j m sid r) = register_subtask_blocked E j m sid r"
| "co_step E (StoreTool i st) = store_tool_invocation E i st"
| "co_step E (AskState j h) = drop_result (question_state j h)"
| "co_step E (ToolState i) = drop_result (tool_invocation_state i)"
| "co_step E (ClearQuestion j) = clear_question E j"
| "co_step E (ClearTool i) = clear_tool_invocation E i"
| "co_step E (Submit j a t) = drop_result (submit_answer E j a t)"

fun asks :: "'w agent_env \<Rightarrow> string \<Rightarrow> co_op \<Rightarrow> ('w, 'z) coordinator_scheme \<Rightarrow> bool" where
  "asks E q (StoreQuestion j p) s \<longleftrightarrow> question_id p = q"
| "asks E q (RegisterPlan j m sid p) s \<longleftrightarrow> fst (ae_uuid E (em_world s)) = q"
| "asks E q (RegisterBlocked j m sid r) s \<longleftrightarrow> fst (ae_uuid E (em_world s)) = q"
| "asks E q (StoreTool i st) s \<longleftrightarrow> i = q"
| "asks E q _ s \<longleftrightarrow> False"

fun never_asks :: "'w agent_env \<Rightarrow> string \<Rightarrow> co_op list \<Rightarrow> ('w, 'z) coordinator_scheme \<Rightarrow> bool" where
  "never_asks E q [] s \<longleftrightarrow> True"
| "never_asks E q (x # xs) s \<longleftrightarrow> \<not> asks E q x s \<and> never_asks E q xs (snd (run_state (co_step E x) s))"

definition run_ops :: "'w agent_env \<Rightarrow> co_op list \<Rightarrow> ('w, 'z, unit) co_m" where
  "run_ops E = for_each (co_step E)"

lemma guarded_caches [simp]:
  "guarded q j (s\<lparr>pending_questions := c\<rparr>) = guarded q j s"
  "guarded q j (s\<lparr>suspended_invocations := d\<rparr>) = guarded q j s"
  by (simp_all add: in_snapshot_def)

lemma guarded_ask:
  "guarded q j s \<Longrightarrow> question_id p \<noteq> q \<Longrightarrow> wp (ask_user E job m p k) (\<lambda>_. guarded q j) s"
  unfolding ask_user_def
  by (intro wp_seq [OF guarded_task] wp_seq [OF guarded_suspend]) (simp_all add: wp_cache_question)

lemma guarded_question_state: "guarded q j s \<Longrightarrow> wp (question_state job h) (\<lambda>_. guarded q j) s"
  unfolding question_state_def Let_def
  by (auto simp: wp_bind wp_e_snapshot wp_get wp_if wp_option wp_return wp_cache_question wp_modify split: option.split)

lemma guarded_step: "guarded q j s \<Longrightarrow> \<not> asks E q x s \<Longrightarrow> wp (co_step E x) (\<lambda>_. guarded q j) s"
proof (cases x)
  case (StoreQuestion job p)
  assume "guarded q j s" "\<not> asks E q x s"
  then have ask: "guarded q j s" "question_id p \<noteq> q"
    using StoreQuestion by simp_all
  show ?thesis
  proof (cases "pq_inbound p")
    case None
    then show ?thesis
      using ask StoreQuestion by (simp add: store_question_def wp_bind wp_return wp_cache_question)
  next
    case (Some m)
    have "wp (do { tid \<leftarrow> upsert_task E m ph task_status.Suspended (pq_prompt p) None;
        upsert_suspension E m p (Some tid) iid k SActive; cache_question job p }) (\<lambda>_. guarded q j) s" for ph iid k
      using ask by (intro wp_seq [OF guarded_task] wp_seq [OF guarded_suspend]) (simp_all add: wp_cache_question)
    then show ?thesis
      using Some StoreQuestion by (simp add: store_question_def wp_bind wp_return_point Let_def)
  qed
next
  case (RegisterPlan job m sid p)
  assume "guarded q j s" "\<not> asks E q x s"
  then show ?thesis
    using RegisterPlan
    by (auto simp: register_plan_approval_def wp_bind wp_e_uuid wp_e_now intro!: guarded_ask split: prod.split)
next
  case (RegisterBlocked job m sid r)
  assume "guarded q j s" "\<not> asks E q x s"
  then show ?thesis
    using RegisterBlocked
    by (auto simp: register_subtask_blocked_def wp_bind wp_e_uuid wp_e_now intro!: guarded_ask split: prod.split)
next
  case (StoreTool i st)
  assume "guarded q j s" "\<not> asks E q x s"
  then show ?thesis
    using StoreTool by (auto simp: store_tool_invocation_def tool_question_def wp_modify
        intro!: wp_seq [OF guarded_task] wp_seq [OF guarded_now] wp_seq [OF guarded_suspend] wp_seq [OF guarded_invocation])
next
  case (AskState job h)
  assume "guarded q j s"
  then show ?thesis
    using AskState by (auto simp: drop_result_def wp_bind wp_return_point intro: guarded_question_state)
next
  case (ToolState i)
  assume "guarded q j s"
  then show ?thesis
    using ToolState by (simp add: drop_result_def tool_invocation_state_def wp_rules Let_def)
next
  case (ClearQuestion job)
  assume "guarded q j s"
  then show ?thesis
    using ClearQuestion by (auto simp: clear_question_def wp_bind_point wp_get wp_modify wp_e_snapshot wp_return_point Let_def
        intro!: wp_mono [OF guarded_task] guarded_suspend split: option.split)
next
  case (ClearTool i)
  assume "guarded q j s"
  then show ?thesis
    using ClearTool by (auto simp: clear_tool_invocation_def wp_bind wp_get wp_modify wp_e_snapshot wp_e_now wp_return_point Let_def
        intro!: guarded_suspend split: option.split prod.split)
next
  case (Submit job a t)
  assume "guarded q j s"
  then show ?thesis
    using Submit by (auto simp: drop_result_def submit_answer_def wp_return_point Let_def wp_cache_question wp_bind
        intro!: wp_mono [OF guarded_question_state] wp_mono [OF guarded_suspend] wp_mono [OF guarded_task]
        split: option.split)
qed

lemma guarded_run:
  "guarded q j s \<Longrightarrow> never_asks E q ops s \<Longrightarrow> wp (run_ops E ops) (\<lambda>_. guarded q j) s"
proof (induction ops arbitrary: s)
  case (Cons x ops)
  have "guarded q j (snd (run_state (co_step E x) s))"
    using guarded_step [of q j s E x] Cons.prems by (simp add: wp_run)
  then have "wp (run_ops E ops) (\<lambda>_. guarded q j) (snd (run_state (co_step E x) s))"
    using Cons by simp
  then show ?case
    by (cases "run_state (co_step E x) s") (simp add: run_ops_def wp_bind wp_run)
qed (simp add: run_ops_def wp_return)


text \<open>An active suspension is what a question of a known job is rebuilt from, so a settled question is not found.\<close>

lemma rebuilt_is_active:
  assumes "suspensions_keyed s" "rebuild_question s job = Some p"
  shows "\<not> settled (question_id p) s"
proof -
  obtain run :: run_record and r where r: "active_suspension s (run_id run) = Some r" "susp_question_id r = Some (question_id p)"
    using assms(2) by (auto simp: rebuild_question_def rebuilt_question_def Let_def split: option.splits)
  then have act: "r \<in> set (im_values (suspensions s))" "susp_status r = SActive"
    by (auto simp: active_suspension_def find_Some_iff)
  then obtain k where k: "(k, r) \<in> set (suspensions s)"
    by auto
  then have "k = runtime_suspension_id (question_id p)" "map_of (suspensions s) k = Some r"
    using assms(1) r(2) im_values_get [of "suspensions s" k r] by (auto simp: suspensions_keyed_iff)
  then show ?thesis
    using act by (auto simp: settled_def)
qed

lemma found_when_known:
  "knows_job job (snd (em_store s)) \<Longrightarrow>
   wp (question_state job h) (\<lambda>r s'. r = rebuild_question (snd (em_store s)) job \<and> em_store s' = em_store s) s"
  by (auto simp: question_state_def knows_job_def wp_rules Let_def split: option.split)

lemma settled_rejected:
  assumes "guarded q job s" "qa_question_id a = q"
  shows "wp (submit_answer E job a summary) (\<lambda>r _. r = Inl (NoPendingQuestion job) \<or>
    (\<exists>i. i \<noteq> q \<and> r = Inl (QuestionIdMismatch job i q))) s"
  unfolding submit_answer_def
proof (rule wp_seq [OF found_when_known])
  show "knows_job job (snd (em_store s))"
    using assms(1) by (simp add: in_snapshot_def question_guard_def)
next
  fix found and s' :: "('a, 'b) coordinator_scheme"
  assume f: "found = rebuild_question (snd (em_store s)) job \<and> em_store s' = em_store s"
  have "question_id p \<noteq> q" if "found = Some p" for p
    using rebuilt_is_active [of "snd (em_store s)" job p] that f assms(1)
    by (auto simp: in_snapshot_def question_guard_def)
  then show "wp (case found of None \<Rightarrow> State_Monad.return (Inl (NoPendingQuestion job))
      | Some p \<Rightarrow> if question_id p \<noteq> qa_question_id a
          then State_Monad.return (Inl (QuestionIdMismatch job (question_id p) (qa_question_id a)))
          else do {
            let p = p\<lparr>answer_submitted := True, answer_summary := Some summary, pq_resolution_source := Some (qa_source a)\<rparr>;
            cache_question job p;
            (case pq_inbound p of
               None \<Rightarrow> State_Monad.return (Inl (MissingInboundContext job))
             | Some m \<Rightarrow>
                 if source_kind p = ToolPermissionQuestion then State_Monad.return (Inr p)
                 else do {
                   upsert_suspension E m p (Some (runtime_task_id job PhaseQuestion)) None (kind_of_source (source_kind p)) Resolved;
                   upsert_task E m PhaseQuestion task_status.Completed (''question answered: '' @ pq_prompt p) None;
                   State_Monad.return (Inr p)
                 })
          }) (\<lambda>r _. r = Inl (NoPendingQuestion job) \<or> (\<exists>i. i \<noteq> q \<and> r = Inl (QuestionIdMismatch job i q))) s'"
    using assms(2) by (auto simp: wp_return split: option.split)
qed

lemma settles_suspension:
  "suspensions_keyed (snd (em_store s)) \<Longrightarrow> knows_job j (snd (em_store s)) \<Longrightarrow> st \<noteq> SActive \<Longrightarrow>
   wp (upsert_suspension E m p tid iid k st) (\<lambda>_. guarded (question_id p) j) s"
  unfolding upsert_suspension_def Let_def
  by (auto simp: wp_bind wp_e_snapshot wp_return_point wp_e_now wp_if im_wf_insert im.get_ins question_guard_def
      suspensions_keyed_iff settled_def knows_job_def dest!: set_im_insert
      intro!: append_establishes [OF guard_ignores_log] split: prod.split)

lemma accepted_settles:
  assumes "suspensions_keyed (snd (em_store s))" "knows_job job (snd (em_store s))"
    "run_state (submit_answer E job a summary) s = (Inr p, s')" "source_kind p \<noteq> ToolPermissionQuestion"
  shows "guarded (qa_question_id a) job s' \<and> question_id p = qa_question_id a"
proof -
  let ?Q = "\<lambda>r s'. \<forall>p. r = Inr p \<longrightarrow> source_kind p \<noteq> ToolPermissionQuestion \<longrightarrow>
    guarded (qa_question_id a) job s' \<and> question_id p = qa_question_id a"
  have settles: "wp (do {
      upsert_suspension E m q (Some (runtime_task_id job PhaseQuestion)) None k Resolved;
      upsert_task E m PhaseQuestion task_status.Completed t None;
      State_Monad.return (Inr q) }) ?Q s2"
    if "em_store s2 = em_store s" "question_id q = qa_question_id a" for m q k t and s2 :: "('a, 'b) coordinator_scheme"
    using that assms(1,2) settles_suspension [of s2 job Resolved E m q "Some (runtime_task_id job PhaseQuestion)" None k]
    by (intro wp_seq [OF settles_suspension [where j = job]] wp_seq [OF guarded_task]) (auto simp: wp_return)
  have "wp (submit_answer E job a summary) ?Q s"
    unfolding submit_answer_def
    by (rule wp_seq [OF found_when_known [OF assms(2)]])
      (auto simp: wp_return_point wp_bind_point [of "cache_question _ _"] wp_cache_question Let_def intro!: settles split: option.split)
  then show ?thesis
    using assms(3,4) by (simp add: wp_run)
qed

text \<open>
  C11. A question that is no tool permission is answered at most once: when the run of its job is recorded and
  an answer to it was accepted, then whatever the coordinator does next, another answer to it is rejected, as
  long as the question is not asked again; so neither a repeated answer nor a late one is run twice.  For tool
  permissions this fails: their answers are not consumed (\<open>tool_answer_not_consumed\<close>).\<close>
theorem question_answered_once:
  assumes "suspensions_keyed (snd (em_store s))" "knows_job job (snd (em_store s))"
    "run_state (submit_answer E job a summary) s = (Inr p, s1)" "source_kind p \<noteq> ToolPermissionQuestion"
    "never_asks E (qa_question_id a) ops s1" "run_state (run_ops E ops) s1 = ((), s2)"
    "qa_question_id b = qa_question_id a"
  shows "case fst (run_state (submit_answer E job b again) s2) of
      Inl e \<Rightarrow> e = NoPendingQuestion job \<or> (\<exists>i. i \<noteq> qa_question_id a \<and> e = QuestionIdMismatch job i (qa_question_id a))
    | Inr _ \<Rightarrow> False"
proof -
  have "guarded (qa_question_id a) job s1"
    using accepted_settles [OF assms(1-4)] by simp
  then have "guarded (qa_question_id a) job s2"
    using guarded_run [of _ job s1 E ops] assms(5,6) by (simp add: wp_run)
  then show ?thesis
    using settled_rejected [of "qa_question_id a" job s2 b E again] assms(7) by (auto simp: wp_run split: sum.split)
qed


text \<open>A small world: the clock stands still and every fresh id is the same.\<close>

definition demo_agent :: "unit agent_env" where
  "demo_agent = \<lparr>ae_now = (\<lambda>w. (7, w)), ae_uuid = (\<lambda>w. (''id'', w)), ae_json_text = (\<lambda>_. []),
     ae_plan_json = (\<lambda>_. JNull), ae_parse_plan = (\<lambda>_. Inl [])\<rparr>"

definition demo_inbound :: inbound where
  "demo_inbound = \<lparr>in_id = ''j'', in_channel = ''web'', in_sender_id = ''u'', in_chat_id = None, in_content = ''hi'',
     in_session_key = None, in_media = [], in_metadata = JObject []\<rparr>"

definition demo_question :: "question_source_kind \<Rightarrow> pending_question" where
  "demo_question source = \<lparr>question_id = ''q'', pq_job_id = ''j'', pq_session_id = ''s'', pq_kind = Input, pq_prompt = ''why?'',
     pq_options = [], raw_question = JObject [], decision_mode = UserRequired, risk_level = RiskHigh,
     requires_user_confirmation = True, source_kind = source, continuation_token = None, asked_at = 1,
     answer_submitted = False, answer_summary = None, pq_resolution_source = None, pq_inbound = Some demo_inbound\<rparr>"

definition demo_asked :: "question_source_kind \<Rightarrow> unit coordinator" where
  "demo_asked source = snd (run_state (do {
     upsert_run demo_agent demo_inbound RunRunning None;
     store_question demo_agent ''j'' (demo_question source) }) (new_coordinator (0, empty_snapshot) ()))"

definition demo_answer :: question_answer where
  "demo_answer = \<lparr>qa_question_id = ''q'', qa_source = ''user'', qa_answer_type = ''text'', qa_answer = ''because''\<rparr>"

lemma question_answered_once_witness:
  "\<exists>p s1. run_state (submit_answer demo_agent ''j'' demo_answer []) (demo_asked UpstreamQuestion) = (Inr p, s1) \<and>
     (case fst (run_state (submit_answer demo_agent ''j'' demo_answer []) s1) of Inl e \<Rightarrow> True | Inr _ \<Rightarrow> False)"
proof -
  let ?s = "demo_asked UpstreamQuestion"
  have "case fst (run_state (submit_answer demo_agent ''j'' demo_answer []) ?s) of
      Inr p \<Rightarrow> source_kind p = UpstreamQuestion | Inl _ \<Rightarrow> False"
    by code_simp
  then obtain p s1 where r: "run_state (submit_answer demo_agent ''j'' demo_answer []) ?s = (Inr p, s1)"
      "source_kind p \<noteq> ToolPermissionQuestion"
    by (cases "run_state (submit_answer demo_agent ''j'' demo_answer []) ?s") (auto split: sum.splits)
  have "suspensions_keyed (snd (em_store ?s))" "knows_job ''j'' (snd (em_store ?s))"
    by code_simp+
  from question_answered_once [OF this r, of "[]" s1 demo_answer "[]"] show ?thesis
    using r(1) by (auto simp: run_ops_def split: sum.splits)
qed

end
