(* ===== verification/Suspension_Rebuild.thy ===== *)
theory Suspension_Rebuild
  imports Suspension_Props
begin

text \<open>
  What the coordinator can rebuild from the runtime state: a question keeps its id, text and options but not its
  kind and not always its source; a suspended tool call keeps the call it was about but not the counters of
  its loop.
\<close>

section \<open>Payloads\<close>

lemma json_str_default:
  "is_object j \<Longrightarrow> json_str k (json_default k' (JString v) j) =
     (if k = k' \<and> json_get k j = None then Some v else json_str k j)"
  by (cases j) (auto simp: json_str_def map_add_def split: option.split)

lemma json_get_default':
  "is_object j \<Longrightarrow> json_get k (json_default k' v j) = (if k = k' \<and> json_get k j = None then Some v else json_get k j)"
  by (cases j) (auto simp: map_add_def split: option.split)

lemma payload_object [simp]: "is_object (suspension_payload m q) = is_object (raw_question q)"
  by (simp add: suspension_payload_def Let_def split: option.split)

text \<open>A raw question that leaves the keys of the coordinator alone.\<close>

definition plain_question :: "json \<Rightarrow> bool" where
  "plain_question j \<longleftrightarrow> is_object j \<and> list_all (\<lambda>k. json_get k j = None)
     [''opencode_session_id'', ''original_user_request'', ''sender_id'', ''chat_id'', ''channel'']"

lemma payload_fields:
  assumes "plain_question (raw_question q)"
  shows "json_str ''opencode_session_id'' (suspension_payload m q) = Some (pq_session_id q)"
    "json_str ''original_user_request'' (suspension_payload m q) = Some (in_content m)"
    "json_str ''sender_id'' (suspension_payload m q) = Some (in_sender_id m)"
    "json_str ''channel'' (suspension_payload m q) = Some (in_channel m)"
  using assms by (auto simp: plain_question_def suspension_payload_def Let_def json_str_default json_get_default'
      split: option.split)

lemma payload_other:
  "is_object (raw_question q) \<Longrightarrow>
   k \<notin> {''opencode_session_id'', ''original_user_request'', ''sender_id'', ''chat_id'', ''channel''} \<Longrightarrow>
   json_get k (suspension_payload m q) = json_get k (raw_question q)"
  by (auto simp: suspension_payload_def Let_def json_get_default' split: option.split)


section \<open>Questions\<close>

lemma find_im_insert:
  "find P (im_values m) = None \<Longrightarrow> P v \<Longrightarrow> find P (im_values (im_insert k v m)) = Some v"
  by (induction m) (auto split: if_splits)

text \<open>A known run without a question.\<close>

definition idle_run :: "inbound \<Rightarrow> snapshot \<Rightarrow> bool" where
  "idle_run m s \<longleftrightarrow> knows_job (in_id m) s \<and> active_suspension s (runtime_run_id (in_id m)) = None \<and>
     (case map_of (runs s) (runtime_run_id (in_id m)) of
        None \<Rightarrow> False
      | Some r \<Rightarrow> run_id r = runtime_run_id (in_id m) \<and> run_job_id r = in_id m \<and> run_chat_id r = in_chat_id m)"

lemma idle_ignores_log: "ignores_log (idle_run m)"
  by (simp add: ignores_log_def idle_run_def knows_job_def active_suspension_def)

lemma idle_world [simp]:
  "in_snapshot (idle_run m) (s\<lparr>em_world := w\<rparr>) = in_snapshot (idle_run m) s"
  "in_snapshot (idle_run m) (s'\<lparr>pending_questions := c\<rparr>) = in_snapshot (idle_run m) s'"
  by (simp_all add: in_snapshot_def)

lemma idle_task_event: "idle_run m s \<Longrightarrow> idle_run m (apply_event (TaskUpserted t) s)"
  by (simp add: idle_run_def knows_job_def active_suspension_def)

lemma idle_task: "in_snapshot (idle_run m) s \<Longrightarrow> wp (upsert_task E m' ph st d e) (\<lambda>_. in_snapshot (idle_run m)) s"
  unfolding upsert_task_def Let_def
  by (auto simp: wp_bind wp_e_snapshot wp_return_point wp_e_now in_snapshot_def simp del: apply_event.simps
      intro!: append_establishes [OF idle_ignores_log, unfolded in_snapshot_def] idle_task_event split: prod.split)

text \<open>The suspension of a question, as it is rebuilt.\<close>

definition asked_again :: "inbound \<Rightarrow> pending_question \<Rightarrow> pending_question \<Rightarrow> bool" where
  "asked_again m q q' \<longleftrightarrow> question_id q' = question_id q \<and> pq_prompt q' = pq_prompt q \<and> pq_options q' = pq_options q \<and>
     pq_session_id q' = pq_session_id q \<and> \<not> answer_submitted q' \<and>
     pq_kind q' = (if 2 < length (pq_options q) then Choice else Confirm) \<and>
     pq_inbound q' = Some (m\<lparr>in_session_key := None, in_media := [], in_metadata := JObject []\<rparr>)"

definition source_again :: "suspension_kind \<Rightarrow> json \<Rightarrow> question_source_kind" where
  "source_again k raw =
     (if k = ToolPermission \<or> json_str ''type'' raw = Some ''tool_permission'' then ToolPermissionQuestion
      else if k = HumanApproval \<or> json_str ''type'' raw = Some ''plan_approval'' then PlanApproval
      else UpstreamQuestion)"

definition rebuilds :: "inbound \<Rightarrow> pending_question \<Rightarrow> suspension_kind \<Rightarrow> snapshot \<Rightarrow> bool" where
  "rebuilds m q k s \<longleftrightarrow> knows_job (in_id m) s \<and> (case rebuild_question s (in_id m) of
     None \<Rightarrow> False | Some q' \<Rightarrow> asked_again m q q' \<and> source_kind q' = source_again k (raw_question q))"

lemma rebuilds_ignores_log: "ignores_log (rebuilds m q k)"
  by (simp add: ignores_log_def rebuilds_def knows_job_def rebuild_question_def active_suspension_def cong: option.case_cong)

lemma suspension_rebuilds:
  assumes "in_snapshot (idle_run m) s" "plain_question (raw_question q)" "\<not> answer_submitted q"
  shows "wp (upsert_suspension E m q tid iid k SActive) (\<lambda>_. in_snapshot (rebuilds m q k)) s"
proof -
  have "rebuilds m q k (apply_event (SuspensionUpserted r) (snd (em_store s)))"
    if r: "susp_run_id r = runtime_run_id (in_id m)" "susp_status r = SActive" "susp_question_id r = Some (question_id q)"
      "susp_raw_payload r = suspension_payload m q" "susp_prompt r = Some (pq_prompt q)" "susp_options r = pq_options q"
      "susp_kind r = k" for r :: suspension_record
  proof -
    obtain run where run: "map_of (runs (snd (em_store s))) (runtime_run_id (in_id m)) = Some run"
      "run_id run = runtime_run_id (in_id m)" "run_job_id run = in_id m" "run_chat_id run = in_chat_id m"
      using assms(1) by (auto simp: in_snapshot_def idle_run_def split: option.splits)
    have "active_suspension (apply_event (SuspensionUpserted r) (snd (em_store s))) (runtime_run_id (in_id m)) = Some r"
      using assms(1) r by (simp add: in_snapshot_def idle_run_def active_suspension_def find_im_insert)
    then have "rebuild_question (apply_event (SuspensionUpserted r) (snd (em_store s))) (in_id m) =
        Some (rebuilt_question (in_id m) (question_id q) run r)"
      using run r by (simp add: rebuild_question_def)
    moreover have "json_str ''type'' (suspension_payload m q) = json_str ''type'' (raw_question q)"
      using assms(2) by (simp add: json_str_def payload_other plain_question_def)
    ultimately show ?thesis
      using assms run r payload_fields [OF assms(2), of m]
      by (simp add: rebuilds_def in_snapshot_def idle_run_def knows_job_def rebuilt_question_def Let_def asked_again_def
          rebuilt_session_def rebuilt_inbound_def payload_str_def rebuilt_source_def source_again_def or_else_def unwrap_or_def)
  qed
  then show ?thesis
    unfolding upsert_suspension_def Let_def using assms(3)
    by (auto simp: wp_bind wp_e_snapshot wp_return_point wp_e_now intro!: append_establishes [OF rebuilds_ignores_log]
        simp del: apply_event.simps split: prod.split)
qed

lemma found_rebuilt:
  "in_snapshot (rebuilds m q k) s \<Longrightarrow>
   wp (question_state (in_id m) h) (\<lambda>r s'. \<exists>q'. r = Some q' \<and> asked_again m q q' \<and> source_kind q' = source_again k (raw_question q)) s"
  by (rule wp_mono [OF found_when_known]) (auto simp: in_snapshot_def rebuilds_def split: option.splits)

text \<open>
  C32. A question that was stored is found again from the records under its job, when the run of the message
  was recorded and has no active suspension, the question is unanswered, and its raw payload is an object
  without the keys under which the message and the session are stored (so not the payload of a tool
  permission, which carries the session; \<open>suspended_call_found\<close> is about those).  It comes back with its id,
  text, options and session, not marked as answered, as a choice if it has more than two options and as a
  confirmation otherwise, its source reduced to a tool permission, a plan approval or the upstream, and with
  the message it belongs to without session key, media and metadata, which are not stored.\<close>
theorem stored_question_found:
  assumes "idle_run m (snd (em_store s))" "plain_question (raw_question q)" "\<not> answer_submitted q" "pq_inbound q = Some m"
    "run_state (store_question E (in_id m) q) s = ((), s1)"
  shows "\<exists>q'. fst (run_state (question_state (in_id m) h) s1) = Some q' \<and> asked_again m q q' \<and>
    source_kind q' = source_again (kind_of_source (source_kind q)) (raw_question q)"
proof -
  let ?k = "kind_of_source (source_kind q)"
  have "wp (do { tid \<leftarrow> upsert_task E m ph task_status.Suspended (pq_prompt q) None;
      upsert_suspension E m q (Some tid) iid ?k SActive; cache_question (in_id m) q }) (\<lambda>_. in_snapshot (rebuilds m q ?k)) s" for ph iid
    using assms(1)
    by (intro wp_seq [OF idle_task] wp_seq [OF suspension_rebuilds] assms(2,3))
      (simp_all add: in_snapshot_def wp_cache_question)
  then have "wp (store_question E (in_id m) q) (\<lambda>_. in_snapshot (rebuilds m q ?k)) s"
    using assms(4) by (simp add: store_question_def Let_def wp_bind_point wp_return_point)
  then have "in_snapshot (rebuilds m q ?k) s1"
    using assms(5) by (simp add: wp_run)
  from found_rebuilt [OF this, of h] show ?thesis
    by (simp add: wp_run)
qed

lemma stored_question_found_witness:
  "\<exists>q'. fst (run_state (question_state ''j'' True) (demo_asked UpstreamQuestion)) = Some q' \<and> question_id q' = ''q'' \<and>
     pq_kind (demo_question UpstreamQuestion) = Input \<and> pq_kind q' = Confirm"
proof -
  let ?s = "snd (run_state (upsert_run demo_agent demo_inbound RunRunning None) (new_coordinator (0, empty_snapshot) ()))"
  have "idle_run demo_inbound (snd (em_store ?s))"
    by code_simp
  moreover have "run_state (store_question demo_agent (in_id demo_inbound) (demo_question UpstreamQuestion)) ?s =
      ((), demo_asked UpstreamQuestion)"
    by (simp add: demo_asked_def demo_inbound_def prod_eq_iff split: prod.split)
  ultimately show ?thesis
    using stored_question_found [of demo_inbound ?s "demo_question UpstreamQuestion" demo_agent "demo_asked UpstreamQuestion" True]
    by (auto simp: demo_question_def demo_inbound_def plain_question_def asked_again_def)
qed


text \<open>
  A question about a blocked subtask does not come back as one: it is recorded as a blocked subtask, but rebuilt
  as a question of the upstream, so its answer is never continued as that of a blocked subtask and is recorded as
  the answer to an ordinary question.\<close>

theorem blocked_question_becomes_upstream:
  assumes "idle_run m (snd (em_store s))" "run_state (register_subtask_blocked E (in_id m) m sid reason) s = ((), s1)"
  shows "(\<exists>q. map_of (pending_questions s1) (in_id m) = Some q \<and> source_kind q = SubtaskBlockedQuestion) \<and>
    (\<exists>q. fst (run_state (question_state (in_id m) h) s1) = Some q \<and> source_kind q = UpstreamQuestion)"
proof -
  have plain: "plain_question (blocked_json reason)" "json_str ''type'' (blocked_json reason) = None"
    by (cases reason; simp add: plain_question_def json_str_def)+
  have ask: "wp (ask_user E (in_id m) m q SubtaskBlocked)
      (\<lambda>_ s'. in_snapshot (rebuilds m q SubtaskBlocked) s' \<and> map_of (pending_questions s') (in_id m) = Some q) s'"
    if "in_snapshot (idle_run m) s'" "raw_question q = blocked_json reason" "\<not> answer_submitted q"
    for q and s' :: "('a, 'b) coordinator_scheme"
    unfolding ask_user_def using that plain(1)
    by (intro wp_seq [OF idle_task] wp_seq [OF suspension_rebuilds])
      (simp_all add: wp_cache_question in_snapshot_def im.get_ins)
  have "wp (register_subtask_blocked E (in_id m) m sid reason) (\<lambda>_ s'. \<exists>q. raw_question q = blocked_json reason \<and>
      source_kind q = SubtaskBlockedQuestion \<and> in_snapshot (rebuilds m q SubtaskBlocked) s' \<and>
      map_of (pending_questions s') (in_id m) = Some q) s"
    unfolding register_subtask_blocked_def
    using assms(1) by (auto simp: wp_bind wp_e_uuid wp_e_now in_snapshot_def intro!: wp_mono [OF ask] split: prod.split)
  then obtain q where q: "raw_question q = blocked_json reason" "source_kind q = SubtaskBlockedQuestion"
      "in_snapshot (rebuilds m q SubtaskBlocked) s1" "map_of (pending_questions s1) (in_id m) = Some q"
    using assms(2) by (auto simp: wp_run)
  then show ?thesis
    using found_rebuilt [OF q(3), of h] plain(2) by (auto simp: wp_run source_again_def)
qed

lemma run_unit: "run_state (m :: ('s, unit) state) s = ((), snd (run_state m s))"
  by (simp add: prod_eq_iff)

lemma blocked_question_becomes_upstream_witness:
  "\<exists>s1. (\<exists>q. map_of (pending_questions s1) ''j'' = Some q \<and> source_kind q = SubtaskBlockedQuestion) \<and>
     (\<exists>q. fst (run_state (question_state ''j'' True) (s1 :: unit coordinator)) = Some q \<and> source_kind q = UpstreamQuestion)"
proof -
  let ?s = "snd (run_state (upsert_run demo_agent demo_inbound RunRunning None) (new_coordinator (0, empty_snapshot) ()))"
  obtain s1 where "run_state (register_subtask_blocked demo_agent (in_id demo_inbound) demo_inbound [] (MissingContext ''x'')) ?s = ((), s1)"
    by (rule that) (rule run_unit)
  moreover have "idle_run demo_inbound (snd (em_store ?s))"
    by code_simp
  ultimately show ?thesis
    using blocked_question_becomes_upstream [of demo_inbound ?s demo_agent "[]" "MissingContext ''x''" s1 True]
    by (auto simp: demo_inbound_def)
qed


section \<open>Suspended tool calls\<close>

lemma parse_phase_name [simp]: "parse_phase (phase_name p) = Some p"
  by (cases p) (simp_all add: parse_phase_def)

lemma parse_permission_name [simp]: "parse_permission_state (permission_state_name p) = Some p"
  by (cases p) (simp_all add: parse_permission_state_def)

text \<open>A suspended state whose invocation record is about its tool call.\<close>

definition coherent_call :: "suspended_state \<Rightarrow> bool" where
  "coherent_call st \<longleftrightarrow>
     Tool_Execution.tool_invocation_record.inv_tool_name (invocation_of st) = suspended_tool_name st \<and>
     Tool_Execution.tool_invocation_record.inv_tool_use_id (invocation_of st) = Some (suspended_use_id st)"

text \<open>The same tool call, asked with the same text.\<close>

definition same_call :: "suspended_state \<Rightarrow> suspended_state \<Rightarrow> bool" where
  "same_call st st' \<longleftrightarrow> suspended_tool_name st' = suspended_tool_name st \<and> suspended_use_id st' = suspended_use_id st \<and>
     st_tool_input (suspended_tool (ss_suspension st')) = st_tool_input (suspended_tool (ss_suspension st)) \<and>
     invocation_of st' = invocation_of st \<and> prompt (request_of st') = prompt (request_of st) \<and>
     ss_session_id st' = ss_session_id st \<and> in_id (ss_inbound st') = in_id (ss_inbound st) \<and>
     in_content (ss_inbound st') = in_content (ss_inbound st)"

definition call_recorded :: "string \<Rightarrow> suspended_state \<Rightarrow> snapshot \<Rightarrow> bool" where
  "call_recorded i st s \<longleftrightarrow>
     (\<exists>run. map_of (runs s) (runtime_run_id (in_id (ss_inbound st))) = Some run \<and> run_job_id run = in_id (ss_inbound st)) \<and>
     (\<exists>r. suspension_of_question s i = Some r \<and> susp_status r = SActive \<and>
        susp_invocation_id r = Some (Tool_Execution.tool_invocation_record.invocation_id (invocation_of st)) \<and>
        susp_run_id r = runtime_run_id (in_id (ss_inbound st)) \<and> susp_prompt r = Some (prompt (request_of st)) \<and>
        json_get ''tool_input'' (susp_raw_payload r) = Some (st_tool_input (suspended_tool (ss_suspension st))) \<and>
        json_str ''opencode_session_id'' (susp_raw_payload r) = Some (ss_session_id st) \<and>
        json_str ''original_user_request'' (susp_raw_payload r) = Some (in_content (ss_inbound st)))"

definition run_known :: "inbound \<Rightarrow> snapshot \<Rightarrow> bool" where
  "run_known m s \<longleftrightarrow> (\<exists>run. map_of (runs s) (runtime_run_id (in_id m)) = Some run \<and> run_job_id run = in_id m)"

lemma run_known_logs: "ignores_log (run_known m)"
  by (simp add: ignores_log_def run_known_def)

lemma run_known_task:
  "in_snapshot (run_known m) s \<Longrightarrow> wp (upsert_task E m' ph st d e) (\<lambda>_. in_snapshot (run_known m)) s"
  unfolding upsert_task_def Let_def
  by (auto simp: wp_bind wp_e_snapshot wp_return_point wp_e_now in_snapshot_def run_known_def
      intro!: append_establishes [OF run_known_logs, unfolded in_snapshot_def run_known_def] split: prod.split)

lemma call_recorded_logs: "ignores_log (call_recorded i st)"
  by (simp add: ignores_log_def call_recorded_def suspension_of_question_def)


lemma raw_tool_question [simp]: "raw_question (tool_question i now st raw risk) = raw"
  "question_id (tool_question i now st raw risk) = i" "pq_session_id (tool_question i now st raw risk) = ss_session_id st"
  "pq_prompt (tool_question i now st raw risk) = prompt (request_of st)"
  by (simp_all add: tool_question_def)

lemma suspension_of_inserted:
  "susp_question_id r = Some i \<Longrightarrow> suspension_of_question (apply_event (SuspensionUpserted r) s) i = Some r"
  by (simp add: suspension_of_question_def index_suspension_def Let_def im.get_ins split: option.split)

lemma tool_suspension_recorded:
  assumes "in_snapshot (run_known (ss_inbound st)) s" "plain_question raw" "json_get ''tool_input'' raw = Some (st_tool_input (suspended_tool (ss_suspension st)))"
  shows "wp (upsert_suspension E (ss_inbound st) (tool_question i now st raw risk) tid
    (Some (Tool_Execution.tool_invocation_record.invocation_id (invocation_of st))) ToolPermission SActive)
    (\<lambda>_. in_snapshot (call_recorded i st)) s"
proof -
  note fields = payload_fields [where q = "tool_question i now st raw risk" and m = "ss_inbound st", simplified, OF assms(2)]
    payload_other [where q = "tool_question i now st raw risk" and m = "ss_inbound st" and k = "''tool_input''", simplified]
  have "call_recorded i st (apply_event (SuspensionUpserted r) (snd (em_store s)))"
    if "susp_question_id r = Some i" "susp_status r = SActive" "susp_run_id r = runtime_run_id (in_id (ss_inbound st))"
      "susp_invocation_id r = Some (Tool_Execution.tool_invocation_record.invocation_id (invocation_of st))"
      "susp_prompt r = Some (prompt (request_of st))"
      "susp_raw_payload r = suspension_payload (ss_inbound st) (tool_question i now st raw risk)" for r :: suspension_record
    unfolding call_recorded_def using that assms fields
    by (auto simp: suspension_of_inserted in_snapshot_def run_known_def plain_question_def simp del: apply_event.simps)
      (simp_all add: apply_event.simps)
  then show ?thesis
    unfolding upsert_suspension_def Let_def
    by (auto simp: wp_bind wp_e_snapshot wp_return_point wp_e_now tool_question_def simp del: apply_event.simps
        intro!: append_establishes [OF call_recorded_logs] split: prod.split)
qed

definition call_found :: "string \<Rightarrow> suspended_state \<Rightarrow> snapshot \<Rightarrow> bool" where
  "call_found i st s \<longleftrightarrow> map_of (suspension_ids_by_question_id (index s)) i \<noteq> None \<and>
     (\<exists>st'. rebuild_tool_invocation s i = Some st' \<and> same_call st st' \<and>
        sus_iterations (ss_suspension st') = 0 \<and> sus_compact_count (ss_suspension st') = 0)"

lemma suspension_of_log [simp]: "suspension_of_question (s\<lparr>recent_events := es\<rparr>) i = suspension_of_question s i"
  by (simp add: suspension_of_question_def)

lemma rebuild_tool_Some:
  "rebuild_tool_invocation s i = Some st' \<longleftrightarrow>
   (\<exists>r j iv run use. suspension_of_question s i = Some r \<and> susp_status r = SActive \<and> susp_invocation_id r = Some j \<and>
      map_of (tool_invocations s) j = Some iv \<and> map_of (runs s) (susp_run_id r) = Some run \<and>
      or_else (Task_Records.tool_invocation_record.inv_tool_use_id iv) (json_str ''tool_use_id'' (susp_raw_payload r)) = Some use \<and>
      st' = rebuilt_suspension s r j use iv run)"
  by (auto simp: rebuild_tool_invocation_def bind_eq_Some_conv)

lemma call_found_logs: "ignores_log (call_found i st)"
proof -
  have "rebuilt_suspension (s\<lparr>recent_events := es\<rparr>) r j u iv run = rebuilt_suspension s r j u iv run" for s es r j u iv run
    by (simp add: rebuilt_suspension_def rebuild_turn_messages_def turn_of_suspension_def)
  then show ?thesis
    by (simp add: ignores_log_def call_found_def rebuild_tool_Some)
qed

text \<open>What is rebuilt is the same call.\<close>

lemma rebuilt_same_call:
  assumes "coherent_call st" "run_job_id run = in_id (ss_inbound st)" "susp_prompt r = Some (prompt (request_of st))"
    "json_get ''tool_input'' (susp_raw_payload r) = Some (st_tool_input (suspended_tool (ss_suspension st)))"
    "json_str ''opencode_session_id'' (susp_raw_payload r) = Some (ss_session_id st)"
    "json_str ''original_user_request'' (susp_raw_payload r) = Some (in_content (ss_inbound st))"
    "Task_Records.tool_invocation_record.inv_tool_name iv = suspended_tool_name st"
    "rebuilt_invocation j iv = invocation_of st"
  shows "same_call st (rebuilt_suspension s r j (suspended_use_id st) iv run)"
  using assms by (simp add: same_call_def rebuilt_suspension_def rebuilt_tool_input_def invocation_of_def request_of_def
      rebuilt_inbound_def rebuilt_session_def payload_str_def or_else_def unwrap_or_def)

lemma invocation_completes_call:
  assumes "in_snapshot (call_recorded i st) s" "coherent_call st"
  shows "wp (upsert_runtime_tool_invocation E (ss_inbound st) (invocation_of st) pr) (\<lambda>_. in_snapshot (call_found i st)) s"
proof -
  obtain run r where run: "map_of (runs (snd (em_store s))) (runtime_run_id (in_id (ss_inbound st))) = Some run"
      "run_job_id run = in_id (ss_inbound st)"
    and r: "suspension_of_question (snd (em_store s)) i = Some r" "susp_status r = SActive"
      "susp_invocation_id r = Some (Tool_Execution.tool_invocation_record.invocation_id (invocation_of st))"
      "susp_run_id r = runtime_run_id (in_id (ss_inbound st))" "susp_prompt r = Some (prompt (request_of st))"
      "json_get ''tool_input'' (susp_raw_payload r) = Some (st_tool_input (suspended_tool (ss_suspension st)))"
      "json_str ''opencode_session_id'' (susp_raw_payload r) = Some (ss_session_id st)"
      "json_str ''original_user_request'' (susp_raw_payload r) = Some (in_content (ss_inbound st))"
    using assms(1) by (auto simp: in_snapshot_def call_recorded_def)
  have "call_found i st (apply_event (ToolInvocationUpserted iv) (snd (em_store s)))"
    if iv: "Task_Records.tool_invocation_record.invocation_id iv = Tool_Execution.tool_invocation_record.invocation_id (invocation_of st)"
      "Task_Records.tool_invocation_record.inv_tool_name iv = suspended_tool_name st"
      "Task_Records.tool_invocation_record.inv_tool_use_id iv = Some (suspended_use_id st)"
      "rebuilt_invocation (Task_Records.tool_invocation_record.invocation_id iv) iv = invocation_of st" for iv
  proof -
    let ?s = "apply_event (ToolInvocationUpserted iv) (snd (em_store s))"
    have "rebuild_tool_invocation ?s i = Some (rebuilt_suspension ?s r
        (Task_Records.tool_invocation_record.invocation_id iv) (suspended_use_id st) iv run)"
      using r run iv by (auto simp: rebuild_tool_Some suspension_of_question_def im.get_ins or_else_def)
    moreover have "map_of (suspension_ids_by_question_id (index ?s)) i \<noteq> None"
      using r(1) by (cases "map_of (suspension_ids_by_question_id (index ?s)) i") (auto simp: suspension_of_question_def)
    ultimately show ?thesis
      using rebuilt_same_call [OF assms(2) run(2) r(5-8) iv(2,4)]
      by (simp add: call_found_def del: apply_event.simps) (simp add: rebuilt_suspension_def)
  qed
  then show ?thesis
    unfolding upsert_runtime_tool_invocation_def using assms(2)
    by (auto simp: wp_bind wp_e_snapshot coherent_call_def rebuilt_invocation_def unwrap_or_def simp del: apply_event.simps
        intro!: append_establishes [OF call_found_logs])
qed

text \<open>
  C29. A tool call that waits for a permission is found again under its question, after any restart: the tool, its
  input, its invocation record and the text shown to the user are those that were stored, so that what the user
  allows is what is run; the counters of the loop it came from start again at zero.\<close>
theorem suspended_call_found:
  assumes "run_known (ss_inbound st) (snd (em_store s))" "coherent_call st"
    "run_state (store_tool_invocation E i st) s = ((), s1)"
  shows "\<exists>st'. fst (run_state (tool_invocation_state i) s1) = Some st' \<and> same_call st st' \<and>
    sus_iterations (ss_suspension st') = 0 \<and> sus_compact_count (ss_suspension st') = 0"
proof -
  have now: "in_snapshot P s' \<Longrightarrow> wp (e_now E) (\<lambda>_. in_snapshot P) s'" for P and s' :: "('a, 'b) coordinator_scheme"
    by (simp add: wp_e_now in_snapshot_def split: prod.split)
  have "wp (store_tool_invocation E i st) (\<lambda>_. in_snapshot (call_found i st)) s"
    unfolding store_tool_invocation_def
    by (rule wp_seq [OF run_known_task], use assms(1) in \<open>simp add: in_snapshot_def\<close>, rule wp_seq [OF now], assumption,
        rule wp_seq [OF tool_suspension_recorded], assumption,
        simp_all add: plain_question_def, rule wp_seq [OF invocation_completes_call [OF _ assms(2)]], assumption,
        simp add: wp_modify in_snapshot_def)
  then have "in_snapshot (call_found i st) s1"
    using assms(3) by (simp add: wp_run)
  then have "wp (tool_invocation_state i) (\<lambda>r _. \<exists>st'. r = Some st' \<and> same_call st st' \<and>
      sus_iterations (ss_suspension st') = 0 \<and> sus_compact_count (ss_suspension st') = 0) s1"
    by (auto simp: tool_invocation_state_def in_snapshot_def call_found_def wp_rules Let_def)
  then show ?thesis
    by (simp add: wp_run)
qed


definition demo_call :: suspended_state where
  "demo_call = \<lparr>ss_suspension = \<lparr>suspended_tool = \<lparr>st_tool_use_id = ''u1'', st_tool_name = ''bash'', st_tool_input = JNull,
       st_permission_request = \<lparr>req_tool_name = ''bash'', prompt = ''run?'', options = [],
         permission_request.risk_level = permission_risk_level.High, permission_request.requires_user_confirmation = True,
         raw_input = JNull, input_preview = []\<rparr>,
       st_invocation = \<lparr>Tool_Execution.tool_invocation_record.invocation_id = ''i1'',
         Tool_Execution.tool_invocation_record.inv_tool_name = ''bash'', phase = PermissionRequested,
         permission_state = Requested, started_at_ms = 1, finished_at_ms = None,
         Tool_Execution.tool_invocation_record.inv_tool_use_id = Some ''u1'', result_summary = None, error_summary = None\<rparr>\<rparr>,
       sus_messages = [], sus_iterations = 9, sus_compact_count = 2\<rparr>,
     ss_inbound = demo_inbound, ss_session_id = ''s''\<rparr>"

lemma suspended_call_found_witness:
  "\<exists>s1 st'. fst (run_state (tool_invocation_state ''q'') (s1 :: unit coordinator)) = Some st' \<and> same_call demo_call st' \<and>
     sus_iterations (ss_suspension demo_call) = 9 \<and> sus_iterations (ss_suspension st') = 0"
proof -
  let ?s = "snd (run_state (upsert_run demo_agent demo_inbound RunRunning None) (new_coordinator (0, empty_snapshot) ()))"
  have "idle_run demo_inbound (snd (em_store ?s))"
    by code_simp
  then have "run_known (ss_inbound demo_call) (snd (em_store ?s))"
    by (auto simp: idle_run_def run_known_def demo_call_def split: option.splits)
  moreover have "coherent_call demo_call"
    by (simp add: coherent_call_def demo_call_def invocation_of_def)
  moreover have "run_state (store_tool_invocation demo_agent ''q'' demo_call) ?s =
      ((), snd (run_state (store_tool_invocation demo_agent ''q'' demo_call) ?s))"
    by (rule run_unit)
  ultimately obtain st' where
    "fst (run_state (tool_invocation_state ''q'') (snd (run_state (store_tool_invocation demo_agent ''q'' demo_call) ?s))) = Some st'"
    "same_call demo_call st'" "sus_iterations (ss_suspension st') = 0"
    using suspended_call_found [of demo_call ?s demo_agent "''q''"] by blast
  then show ?thesis
    by (intro exI conjI) (auto simp: demo_call_def)
qed


section \<open>Answers to tool permissions\<close>

lemma wp_any: "wp m (\<lambda>_ _. True) s"
  by (simp add: wp_run)

lemma answer_returns:
  "wp (do { upsert_suspension E m q tid iid k st; upsert_task E m' ph ts d e; State_Monad.return r }) (\<lambda>r' _. r' = r) s"
  by (rule wp_seq [OF wp_any], rule wp_seq [OF wp_any], simp add: wp_return)

text \<open>
  The answer to a tool permission does not settle the question: the runtime state is left as it was, and until
  the caller has resumed the tool, a second answer to the same question is accepted too.\<close>

theorem tool_answer_not_consumed:
  assumes "knows_job job (snd (em_store s))" "run_state (submit_answer E job a t) s = (Inr p, s1)"
    "source_kind p = ToolPermissionQuestion" "qa_question_id b = qa_question_id a"
  shows "em_store s1 = em_store s \<and> (\<exists>p'. fst (run_state (submit_answer E job b t') s1) = Inr p' \<and> question_id p' = question_id p)"
proof -
  let ?q = "rebuild_question (snd (em_store s)) job"
  have inb: "pq_inbound q \<noteq> None" if "rebuild_question S j = Some q" for q S j
    using that by (auto simp: rebuild_question_def rebuilt_question_def Let_def split: option.splits)
  have run: "wp (submit_answer E job x t) (\<lambda>r s'. case ?q of
      Some q \<Rightarrow> if question_id q = qa_question_id x \<and> source_kind q = ToolPermissionQuestion
        then (\<exists>p. r = Inr p \<and> question_id p = question_id q) \<and> em_store s' = em_store s
        else (\<forall>p. r = Inr p \<longrightarrow> source_kind p \<noteq> ToolPermissionQuestion)
    | None \<Rightarrow> \<forall>p. r \<noteq> Inr p) s2" if "em_store s2 = em_store s" for x t and s2 :: "('a, 'b) coordinator_scheme"
  proof -
    have k: "knows_job job (snd (em_store s2))"
      using assms(1) that by simp
    show ?thesis
      unfolding submit_answer_def
      by (rule wp_seq [OF found_when_known [OF k]])
        (use that in \<open>auto simp: wp_return_point wp_bind_point [of "cache_question _ _"] wp_cache_question Let_def
          dest!: inb intro!: wp_mono [OF answer_returns] split: option.split\<close>)
  qed
  have "?q = Some q \<Longrightarrow> question_id q = qa_question_id a \<and> source_kind q = ToolPermissionQuestion" for q
    using run [OF refl, of a t] assms(2,3) by (auto simp: wp_run split: if_splits)
  moreover obtain q where "?q = Some q"
    using run [OF refl, of a t] assms(2) by (cases ?q) (auto simp: wp_run)
  moreover have "em_store s1 = em_store s" "question_id p = question_id q" if "?q = Some q"
      "question_id q = qa_question_id a \<and> source_kind q = ToolPermissionQuestion" for q
    using run [OF refl, of a t] assms(2) that by (auto simp: wp_run)
  ultimately show ?thesis
    using run [of s1 b t'] assms(4) by (auto simp: wp_run)
qed

lemma tool_answer_not_consumed_witness:
  "\<exists>p s1 p'. run_state (submit_answer demo_agent ''j'' demo_answer []) (demo_asked ToolPermissionQuestion) = (Inr p, s1) \<and>
     fst (run_state (submit_answer demo_agent ''j'' demo_answer []) s1) = Inr p'"
proof -
  let ?s = "demo_asked ToolPermissionQuestion"
  have "case fst (run_state (submit_answer demo_agent ''j'' demo_answer []) ?s) of
      Inr p \<Rightarrow> source_kind p = ToolPermissionQuestion | Inl _ \<Rightarrow> False"
    by code_simp
  then obtain p s1 where r: "run_state (submit_answer demo_agent ''j'' demo_answer []) ?s = (Inr p, s1)"
      "source_kind p = ToolPermissionQuestion"
    by (cases "run_state (submit_answer demo_agent ''j'' demo_answer []) ?s") (auto split: sum.splits)
  moreover have "knows_job ''j'' (snd (em_store ?s))"
    by code_simp
  ultimately show ?thesis
    using tool_answer_not_consumed [of "''j''" ?s demo_agent demo_answer "[]" p s1 demo_answer "[]"] by auto
qed

end
