(* ===== verification/Requirement_Judge.thy ===== *)
theory Requirement_Judge
  imports Pending_Question Event_Emitter
begin

text \<open>
  Does a result satisfy the request?  The judge (\<open>execution/requirement_judge.rs\<close>) looks for a question, an
  empty or repeated result, a status tag, the verdict of a model, and key words, in this order; beside it the
  assembly of the context of a turn (\<open>execution/context_assembly.rs\<close>) and the data of the branches of a turn
  (\<open>execution/turn_coordinator.rs\<close>).
\<close>

section \<open>Texts\<close>

text \<open>\<open>str::find\<close> and \<open>str::rfind\<close> of a pattern: the byte position of its first and last occurrence.\<close>

fun find_str :: "string \<Rightarrow> string \<Rightarrow> nat option" where
  "find_str p [] = (if p = [] then Some 0 else None)"
| "find_str p (c # s) = (if starts_with (c # s) p then Some 0 else map_option Suc (find_str p s))"

fun rfind_str :: "string \<Rightarrow> string \<Rightarrow> nat option" where
  "rfind_str p [] = (if p = [] then Some 0 else None)"
| "rfind_str p (c # s) =
     (case rfind_str p s of
        Some n \<Rightarrow> Some (Suc n)
      | None \<Rightarrow> if starts_with (c # s) p then Some 0 else None)"

text \<open>All characters that are not white space.\<close>

fun drop_white_from :: "nat \<Rightarrow> string \<Rightarrow> string" where
  "drop_white_from skip [] = []"
| "drop_white_from (Suc k) (c # s) = drop_white_from k s"
| "drop_white_from 0 (c # s) =
     (case find (starts_with (c # s)) white_space of
        None \<Rightarrow> c # drop_white_from 0 s
      | Some w \<Rightarrow> drop_white_from (length w - 1) s)"

record prompts_config =
  task_decompose :: string
  context_infer :: string
  escalation_resolve :: string
  requirement_judge :: string
  question_followup :: string
  result_followup :: string
  agentic_loop_system :: string
  tool_resume_system :: string
  message_classifier :: string
  identity :: string


section \<open>The judge\<close>

record agent_followup_plan =
  fp_reason :: string
  fp_missing :: "string list"
  fp_prompt :: string
  fp_fingerprint :: string

record user_input_requirement =
  ui_reason :: string
  ui_missing :: "string list"
  ui_question :: pending_question

datatype requirement_judgement =
    Satisfied
  | NeedsAgentFollowup agent_followup_plan
  | NeedsUserInput user_input_requirement

record judge_context =
  jc_request :: string
  jc_job_id :: string
  jc_trace_id :: string
  jc_chat_id :: "string option"
  jc_session_id :: string
  jc_result :: "json option"
  jc_attempted :: nat
  jc_max_rounds :: nat
  jc_previous :: "string option"

record progress_state =
  pg_request :: string
  pg_attempted :: nat
  pg_max_rounds :: nat
  pg_fingerprint :: "string option"
  pg_reason :: "string option"

definition default_max_rounds :: nat where "default_max_rounds = 3"

definition new_progress :: "string \<Rightarrow> progress_state" where
  "new_progress request =
     \<lparr>pg_request = request, pg_attempted = 0, pg_max_rounds = default_max_rounds, pg_fingerprint = None, pg_reason = None\<rparr>"

definition fingerprint_result :: "(json \<Rightarrow> string) \<Rightarrow> json option \<Rightarrow> string" where
  "fingerprint_result jt result =
     (let compact = drop_white_from 0 (jt (unwrap_or JNull result))
      in if 240 < length compact then take_chars 240 compact else compact)"

definition build_question_followup_prompt :: "string \<Rightarrow> pending_question \<Rightarrow> string option \<Rightarrow> string" where
  "build_question_followup_prompt request q template =
     (let options = (if pq_options q = [] then [] else str_join '', '' (pq_options q)) in
      case template of
        Some t \<Rightarrow> str_replace ''{options}'' options (str_replace ''{question}'' (pq_prompt q) (str_replace ''{request}'' request t))
      | None \<Rightarrow>
          (let display = (if pq_options q = [] then [] else ''\<newline>'' @ utf8 [0xE5, 0x8F, 0xAF, 0xE9, 0x80, 0x89, 0xE9, 0xA1, 0xB9] @ '': '' @ options)
           in utf8 [0xE7, 0x94, 0xA8, 0xE6, 0x88, 0xB7, 0xE5, 0x8E, 0x9F, 0xE5, 0xA7, 0x8B, 0xE8, 0xAF, 0xB7, 0xE6, 0xB1, 0x82] @ '': '' @ request @ ''\<newline>\<newline>'' @ utf8 [0xE4, 0xB8, 0x8A, 0xE6, 0xB8, 0xB8, 0xE6, 0x8F, 0x90, 0xE5, 0x87, 0xBA, 0xE4, 0xBA, 0x86, 0xE4, 0xB8, 0x80, 0xE4, 0xB8, 0xAA, 0xE9, 0x97, 0xAE, 0xE9, 0xA2, 0x98] @ '': '' @ pq_prompt q @ display @
             ''\<newline>\<newline>'' @ utf8 [0xE8, 0xAF, 0xB7, 0xE6, 0xA0, 0xB9, 0xE6, 0x8D, 0xAE, 0xE7, 0x94, 0xA8, 0xE6, 0x88, 0xB7, 0xE5, 0x8E, 0x9F, 0xE5, 0xA7, 0x8B, 0xE8, 0xAF, 0xB7, 0xE6, 0xB1, 0x82, 0xE7, 0x9A, 0x84, 0xE4, 0xB8, 0x8A, 0xE4, 0xB8, 0x8B, 0xE6, 0x96, 0x87, 0xEF, 0xBC, 0x8C, 0xE5, 0xB0, 0x9D, 0xE8, 0xAF, 0x95, 0xE6, 0x8E, 0xA8, 0xE6, 0x96, 0xAD, 0xE5, 0x87, 0xBA, 0xE5, 0x90, 0x88, 0xE7, 0x90, 0x86, 0xE7, 0xAD, 0x94, 0xE6, 0xA1, 0x88, 0xE5, 0xB9, 0xB6, 0xE7, 0xBB, 0xA7, 0xE7, 0xBB, 0xAD, 0xE6, 0x89, 0xA7, 0xE8, 0xA1, 0x8C, 0xE3, 0x80, 0x82, 0xE5, 0xA6, 0x82, 0xE6, 0x9E, 0x9C, 0xE7, 0xA1, 0xAE, 0xE5, 0xAE, 0x9E, 0xE6, 0x97, 0xA0, 0xE6, 0xB3, 0x95, 0xE6, 0x8E, 0xA8, 0xE6, 0x96, 0xAD, 0xEF, 0xBC, 0x8C, 0xE8, 0xAF, 0xB7, 0xE8, 0xBF, 0x94, 0xE5, 0x9B, 0x9E, 0xE7, 0xBB, 0x93, 0xE6, 0x9E, 0x84, 0xE5, 0x8C, 0x96] @ '' question '' @ utf8 [0xE7, 0xBB, 0x99, 0xE7, 0x94, 0xA8, 0xE6, 0x88, 0xB7, 0xE3, 0x80, 0x82]))"

definition build_result_followup_prompt :: "string \<Rightarrow> string \<Rightarrow> string \<Rightarrow> string option \<Rightarrow> string" where
  "build_result_followup_prompt request response instruction template =
     (let preview = take_chars 300 response in
      case template of
        Some t \<Rightarrow> str_replace ''{instruction}'' instruction (str_replace ''{result_preview}'' preview (str_replace ''{request}'' request t))
      | None \<Rightarrow> utf8 [0xE7, 0x94, 0xA8, 0xE6, 0x88, 0xB7, 0xE5, 0x8E, 0x9F, 0xE5, 0xA7, 0x8B, 0xE8, 0xAF, 0xB7, 0xE6, 0xB1, 0x82] @ '': '' @ request @ ''\<newline>\<newline>'' @ utf8 [0xE4, 0xB8, 0x8A, 0xE4, 0xB8, 0x80, 0xE8, 0xBD, 0xAE, 0xE7, 0xBB, 0x93, 0xE6, 0x9E, 0x9C, 0xE6, 0x91, 0x98, 0xE8, 0xA6, 0x81] @ '': '' @ preview @ ''\<newline>\<newline>'' @ instruction)"

definition normalize_text :: "string \<Rightarrow> string" where
  "normalize_text s = str_replace (utf8 [0xE3, 0x80, 0x82]) ''.'' (str_replace (utf8 [0xEF, 0xBC, 0x8C]) '','' (ascii_lower s))"

definition unsatisfied_hints :: "string list" where
  "unsatisfied_hints =
     [''need more info'', ''need more information'', ''need user input'', ''need confirmation'', ''please confirm'',
      ''please choose'', ''i need'', ''cannot complete'', ''can'' @ [CHR 0x27] @ ''t complete'', ''unable to complete'',
      ''not enough information'', ''could you provide'', ''could you clarify'', ''please provide'',
      utf8 [0xE9, 0x9C, 0x80, 0xE8, 0xA6, 0x81, 0xE6, 0x9B, 0xB4, 0xE5, 0xA4, 0x9A, 0xE4, 0xBF, 0xA1, 0xE6, 0x81, 0xAF], utf8 [0xE8, 0xAF, 0xB7, 0xE6, 0x8F, 0x90, 0xE4, 0xBE, 0x9B], utf8 [0xE8, 0xAF, 0xB7, 0xE7, 0xA1, 0xAE, 0xE8, 0xAE, 0xA4], utf8 [0xE8, 0xAF, 0xB7, 0xE9, 0x80, 0x89, 0xE6, 0x8B, 0xA9], utf8 [0xE6, 0x97, 0xA0, 0xE6, 0xB3, 0x95, 0xE5, 0xAE, 0x8C, 0xE6, 0x88, 0x90], utf8 [0xE4, 0xB8, 0x8D, 0xE8, 0x83, 0xBD, 0xE5, 0xAE, 0x8C, 0xE6, 0x88, 0x90], utf8 [0xE4, 0xBF, 0xA1, 0xE6, 0x81, 0xAF, 0xE4, 0xB8, 0x8D, 0xE8, 0xB6, 0xB3], utf8 [0xE8, 0xBF, 0x98, 0xE4, 0xB8, 0x8D, 0xE8, 0x83, 0xBD], utf8 [0xE7, 0xBB, 0xA7, 0xE7, 0xBB, 0xAD, 0xE5, 0x88, 0xA4, 0xE6, 0x96, 0xAD],
      utf8 [0xE7, 0xBB, 0xA7, 0xE7, 0xBB, 0xAD, 0xE5, 0xA4, 0x84, 0xE7, 0x90, 0x86]]"

definition looks_unsatisfied :: "string \<Rightarrow> bool" where
  "looks_unsatisfied s \<longleftrightarrow> list_ex (\<lambda>h. str_contains h s) unsatisfied_hints"

definition infer_missing_requirements :: "string \<Rightarrow> string list" where
  "infer_missing_requirements response =
     (let items =
        (if str_contains (utf8 [0xE7, 0xA1, 0xAE, 0xE8, 0xAE, 0xA4]) response \<or> str_contains ''confirm'' (ascii_lower response)
         then [utf8 [0xE7, 0xBC, 0xBA, 0xE5, 0xB0, 0x91, 0xE5, 0xAF, 0xB9, 0xE5, 0x85, 0xB3, 0xE9, 0x94, 0xAE, 0xE5, 0x86, 0xB3, 0xE7, 0xAD, 0x96, 0xE7, 0x9A, 0x84, 0xE6, 0x98, 0x8E, 0xE7, 0xA1, 0xAE, 0xE7, 0xA1, 0xAE, 0xE8, 0xAE, 0xA4]] else []) @
        (if str_contains (utf8 [0xE9, 0x80, 0x89, 0xE6, 0x8B, 0xA9]) response \<or> str_contains ''choose'' (ascii_lower response)
         then [utf8 [0xE7, 0xBC, 0xBA, 0xE5, 0xB0, 0x91, 0xE5, 0x85, 0xB7, 0xE4, 0xBD, 0x93, 0xE9, 0x80, 0x89, 0xE6, 0x8B, 0xA9, 0xE6, 0x88, 0x96, 0xE7, 0xBB, 0xA7, 0xE7, 0xBB, 0xAD, 0xE6, 0x89, 0xA7, 0xE8, 0xA1, 0x8C, 0xE6, 0x89, 0x80, 0xE9, 0x9C, 0x80, 0xE5, 0x88, 0x86, 0xE6, 0x94, 0xAF, 0xE5, 0x88, 0xA4, 0xE6, 0x96, 0xAD]] else []) @
        (if str_contains (utf8 [0xE4, 0xBF, 0xA1, 0xE6, 0x81, 0xAF]) response \<or> str_contains ''information'' (ascii_lower response)
         then [utf8 [0xE5, 0xBD, 0x93, 0xE5, 0x89, 0x8D, 0xE7, 0xBB, 0x93, 0xE6, 0x9E, 0x9C, 0xE6, 0xB2, 0xA1, 0xE6, 0x9C, 0x89, 0xE5, 0xBD, 0xA2, 0xE6, 0x88, 0x90, 0xE8, 0xB6, 0xB3, 0xE5, 0xA4, 0x9F, 0xE5, 0xAE, 0x8C, 0xE6, 0x95, 0xB4, 0xE7, 0x9A, 0x84, 0xE6, 0x9C, 0x80, 0xE7, 0xBB, 0x88, 0xE7, 0xAD, 0x94, 0xE5, 0xA4, 0x8D]] else [])
      in if items = [] then [utf8 [0xE5, 0xBD, 0x93, 0xE5, 0x89, 0x8D, 0xE5, 0x9B, 0x9E, 0xE5, 0xA4, 0x8D, 0xE4, 0xBB, 0x8D, 0xE5, 0x81, 0x9C, 0xE7, 0x95, 0x99, 0xE5, 0x9C, 0xA8, 0xE4, 0xB8, 0xAD, 0xE9, 0x97, 0xB4, 0xE6, 0x80, 0x81, 0xEF, 0xBC, 0x8C, 0xE6, 0x9C, 0xAA, 0xE6, 0x98, 0x8E, 0xE7, 0xA1, 0xAE, 0xE6, 0xBB, 0xA1, 0xE8, 0xB6, 0xB3, 0xE5, 0x8E, 0x9F, 0xE5, 0xA7, 0x8B, 0xE9, 0x9C, 0x80, 0xE6, 0xB1, 0x82]] else items)"

definition requirement_unsatisfied_payload :: "string \<Rightarrow> string list \<Rightarrow> json option \<Rightarrow> json" where
  "requirement_unsatisfied_payload reason missing raw =
     JObject [(''reason'', JString reason), (''missing_requirements'', JArray (map JString missing)),
       (''raw_result'', unwrap_or JNull raw)]"

definition status_open :: string where "status_open = ''<completion_status>''"

definition status_close :: string where "status_close = ''</completion_status>''"

definition extract_completion_status :: "string \<Rightarrow> string option" where
  "extract_completion_status s =
     (case rfind_str status_open s of
        None \<Rightarrow> None
      | Some n \<Rightarrow>
          (let rest = drop (n + length status_open) s in
           case find_str status_close rest of
             None \<Rightarrow> None
           | Some k \<Rightarrow> (let v = trim (take k rest) in if v = [] then None else Some v)))"

text \<open>The verdict of the model, \<open>None\<close> when the call fails or its answer cannot be read.\<close>

definition first_object :: "string \<Rightarrow> string option" where
  "first_object s =
     (case find_char CHR 0x7B s of
        None \<Rightarrow> None
      | Some n \<Rightarrow> map_option (\<lambda>k. take (k + 1) (drop n s)) (find_char CHR 0x7D (drop n s)))"

definition judge_prompt :: "string \<Rightarrow> string \<Rightarrow> string option \<Rightarrow> string" where
  "judge_prompt request response template =
     (let preview = take_chars 500 response in
      case template of
        Some t \<Rightarrow> str_replace ''{reply_preview}'' preview (str_replace ''{request}'' request t)
      | None \<Rightarrow>
          utf8 [0xE4, 0xBD, 0xA0, 0xE6, 0x98, 0xAF, 0xE9, 0x9C, 0x80, 0xE6, 0xB1, 0x82, 0xE5, 0xAE, 0x8C, 0xE6, 0x88, 0x90, 0xE5, 0xBA, 0xA6, 0xE8, 0xAF, 0x84, 0xE4, 0xBC, 0xB0, 0xE5, 0x99, 0xA8, 0xE3, 0x80, 0x82, 0xE5, 0x88, 0xA4, 0xE6, 0x96, 0xAD, 0xE4, 0xBB, 0xA5, 0xE4, 0xB8, 0x8B] @ '' AI '' @ utf8 [0xE5, 0x9B, 0x9E, 0xE5, 0xA4, 0x8D, 0xE6, 0x98, 0xAF, 0xE5, 0x90, 0xA6, 0xE5, 0xAE, 0x8C, 0xE6, 0x95, 0xB4, 0xE6, 0xBB, 0xA1, 0xE8, 0xB6, 0xB3, 0xE4, 0xBA, 0x86, 0xE7, 0x94, 0xA8, 0xE6, 0x88, 0xB7, 0xE7, 0x9A, 0x84, 0xE5, 0x8E, 0x9F, 0xE5, 0xA7, 0x8B, 0xE8, 0xAF, 0xB7, 0xE6, 0xB1, 0x82, 0xE3, 0x80, 0x82] @ ''\<newline>\<newline>'' @ utf8 [0xE7, 0x94, 0xA8, 0xE6, 0x88, 0xB7, 0xE8, 0xAF, 0xB7, 0xE6, 0xB1, 0x82, 0xEF, 0xBC, 0x9A] @ request @
          ''\<newline>\<newline>AI '' @ utf8 [0xE5, 0x9B, 0x9E, 0xE5, 0xA4, 0x8D, 0xE6, 0x91, 0x98, 0xE8, 0xA6, 0x81, 0xEF, 0xBC, 0x88, 0xE5, 0x89, 0x8D] @ '' 500 '' @ utf8 [0xE5, 0xAD, 0x97, 0xEF, 0xBC, 0x89, 0xEF, 0xBC, 0x9A] @ preview @
          ''\<newline>\<newline>'' @ utf8 [0xE5, 0x8F, 0xAA, 0xE5, 0x9B, 0x9E, 0xE5, 0xA4, 0x8D] @ '' JSON'' @ utf8 [0xEF, 0xBC, 0x9A] @ ''{'' @ [CHR 0x22] @ ''satisfied'' @ [CHR 0x22] @ '': true/false, '' @ [CHR 0x22] @ ''reason'' @ [CHR 0x22] @
          '': '' @ [CHR 0x22] @ utf8 [0xE4, 0xB8, 0x80, 0xE5, 0x8F, 0xA5, 0xE8, 0xAF, 0x9D, 0xE5, 0x8E, 0x9F, 0xE5, 0x9B, 0xA0] @ [CHR 0x22] @ ''}'')"

definition judge_request :: "string \<Rightarrow> chat_request" where
  "judge_request p =
     default_chat_request\<lparr>req_messages := [\<lparr>chat_role = ChatUser, chat_content = [Text p]\<rparr>],
       req_max_tokens := Some 128, req_metadata := JObject []\<rparr>"

definition llm_judge_requirement ::
  "json_parser \<Rightarrow> 'w provider \<Rightarrow> string \<Rightarrow> string \<Rightarrow> string option \<Rightarrow> 'w \<Rightarrow> bool option \<times> 'w" where
  "llm_judge_requirement parse p request response template w =
     (case chat p (judge_request (judge_prompt request response template)) w of
        (Inl err, w') \<Rightarrow> (None, w')
      | (Inr r, w') \<Rightarrow>
          (Option.bind (first_object (chat_response_text r)) (\<lambda>t.
             case parse t of Inl e \<Rightarrow> None | Inr j \<Rightarrow> json_bool ''satisfied'' j), w'))"

text \<open>A question the user must answer; all others the agent may answer itself.\<close>

definition question_for_user :: "pending_question \<Rightarrow> bool" where
  "question_for_user q \<longleftrightarrow>
     pending_question.requires_user_confirmation q \<or> pq_kind q = Input \<or> pq_kind q = Confirm \<or>
     needs_user_confirmation (pq_prompt q) (pq_options q)"

definition judge_question :: "(json \<Rightarrow> string) \<Rightarrow> judge_context \<Rightarrow> prompts_config option \<Rightarrow> pending_question \<Rightarrow> requirement_judgement" where
  "judge_question jt c prompts q =
     (if question_for_user q then
        NeedsUserInput \<lparr>ui_reason = utf8 [0xE4, 0xB8, 0x8A, 0xE6, 0xB8, 0xB8, 0xE8, 0xBF, 0x94, 0xE5, 0x9B, 0x9E, 0xE4, 0xBA, 0x86, 0xE9, 0x9C, 0x80, 0xE8, 0xA6, 0x81, 0xE5, 0xA4, 0x96, 0xE9, 0x83, 0xA8, 0xE7, 0x94, 0xA8, 0xE6, 0x88, 0xB7, 0xE4, 0xBF, 0xA1, 0xE6, 0x81, 0xAF, 0xE7, 0x9A, 0x84, 0xE7, 0xBB, 0x93, 0xE6, 0x9E, 0x84, 0xE5, 0x8C, 0x96, 0xE9, 0x97, 0xAE, 0xE9, 0xA2, 0x98], ui_missing = [pq_prompt q], ui_question = q\<rparr>
      else
        NeedsAgentFollowup \<lparr>fp_reason = utf8 [0xE4, 0xB8, 0x8A, 0xE6, 0xB8, 0xB8, 0xE8, 0xBF, 0x94, 0xE5, 0x9B, 0x9E, 0xE4, 0xBA, 0x86, 0xE5, 0x8F, 0xAF, 0xE7, 0x94, 0xB1, 0xE4, 0xB8, 0xBB] @ '' agent '' @ utf8 [0xE7, 0xBB, 0xA7, 0xE7, 0xBB, 0xAD, 0xE5, 0xA4, 0x84, 0xE7, 0x90, 0x86, 0xE7, 0x9A, 0x84, 0xE7, 0xBB, 0x93, 0xE6, 0x9E, 0x84, 0xE5, 0x8C, 0x96, 0xE9, 0x97, 0xAE, 0xE9, 0xA2, 0x98], fp_missing = [pq_prompt q],
          fp_prompt = build_question_followup_prompt (jc_request c) q (map_option question_followup prompts),
          fp_fingerprint = fingerprint_result jt (jc_result c)\<rparr>)"

text \<open>The plan for a follow-up on a result, with its reason, what is missing, and the instruction.\<close>

definition followup_on_result ::
  "(json \<Rightarrow> string) \<Rightarrow> judge_context \<Rightarrow> prompts_config option \<Rightarrow> string \<Rightarrow> string list \<Rightarrow> string \<Rightarrow> requirement_judgement" where
  "followup_on_result jt c prompts reason missing instruction =
     NeedsAgentFollowup \<lparr>fp_reason = reason, fp_missing = missing,
       fp_prompt = build_result_followup_prompt (jc_request c) (extract_response_text jt (jc_result c)) instruction
         (map_option result_followup prompts),
       fp_fingerprint = fingerprint_result jt (jc_result c)\<rparr>"

text \<open>What is left when no status tag decides: the model, then the key words.\<close>

definition judge_by_model ::
  "json_parser \<Rightarrow> (json \<Rightarrow> string) \<Rightarrow> judge_context \<Rightarrow> 'w provider option \<Rightarrow> prompts_config option \<Rightarrow> 'w \<Rightarrow> requirement_judgement \<times> 'w" where
  "judge_by_model parse jt c provider prompts w =
     (let response = extract_response_text jt (jc_result c);
          (verdict, w') = (case provider of
             None \<Rightarrow> (None, w)
           | Some p \<Rightarrow> llm_judge_requirement parse p (jc_request c) response (map_option requirement_judge prompts) w)
      in (case verdict of
            Some True \<Rightarrow> Satisfied
          | Some False \<Rightarrow> followup_on_result jt c prompts (''LLM '' @ utf8 [0xE8, 0xAF, 0x84, 0xE4, 0xBC, 0xB0, 0xE5, 0x88, 0xA4, 0xE5, 0xAE, 0x9A, 0xE9, 0x9C, 0x80, 0xE6, 0xB1, 0x82, 0xE5, 0xB0, 0x9A, 0xE6, 0x9C, 0xAA, 0xE6, 0xBB, 0xA1, 0xE8, 0xB6, 0xB3])
              (infer_missing_requirements response) (utf8 [0xE8, 0xAF, 0xB7, 0xE7, 0xBB, 0xA7, 0xE7, 0xBB, 0xAD, 0xE6, 0x8E, 0xA8, 0xE8, 0xBF, 0x9B, 0xEF, 0xBC, 0x8C, 0xE7, 0x9B, 0xB4, 0xE5, 0x88, 0xB0, 0xE5, 0xAE, 0x8C, 0xE6, 0x95, 0xB4, 0xE6, 0xBB, 0xA1, 0xE8, 0xB6, 0xB3, 0xE7, 0x94, 0xA8, 0xE6, 0x88, 0xB7, 0xE7, 0x9A, 0x84, 0xE5, 0x8E, 0x9F, 0xE5, 0xA7, 0x8B, 0xE8, 0xAF, 0xB7, 0xE6, 0xB1, 0x82, 0xE3, 0x80, 0x82])
          | None \<Rightarrow>
              if looks_unsatisfied (normalize_text response)
              then followup_on_result jt c prompts (utf8 [0xE4, 0xB8, 0x8A, 0xE6, 0xB8, 0xB8, 0xE5, 0x9B, 0x9E, 0xE5, 0xA4, 0x8D, 0xE8, 0xA1, 0xA8, 0xE6, 0x98, 0x8E, 0xE9, 0x9C, 0x80, 0xE6, 0xB1, 0x82, 0xE5, 0xB0, 0x9A, 0xE6, 0x9C, 0xAA, 0xE7, 0x9C, 0x9F, 0xE6, 0xAD, 0xA3, 0xE6, 0xBB, 0xA1, 0xE8, 0xB6, 0xB3])
                (infer_missing_requirements response)
                (utf8 [0xE8, 0xAF, 0xB7, 0xE4, 0xB8, 0x8D, 0xE8, 0xA6, 0x81, 0xE5, 0x8F, 0xAA, 0xE6, 0x8F, 0x8F, 0xE8, 0xBF, 0xB0, 0xE9, 0x99, 0x90, 0xE5, 0x88, 0xB6, 0xE6, 0x88, 0x96, 0xE4, 0xBF, 0x9D, 0xE5, 0xAE, 0x88, 0xE7, 0xBB, 0x93, 0xE8, 0xAE, 0xBA, 0xE3, 0x80, 0x82, 0xE8, 0x8B, 0xA5, 0xE8, 0x83, 0xBD, 0xE7, 0xBB, 0xA7, 0xE7, 0xBB, 0xAD, 0xE5, 0x88, 0x86, 0xE6, 0x9E, 0x90] @ ''/'' @ utf8 [0xE6, 0x89, 0xA7, 0xE8, 0xA1, 0x8C, 0xEF, 0xBC, 0x8C, 0xE8, 0xAF, 0xB7, 0xE7, 0xBB, 0xA7, 0xE7, 0xBB, 0xAD, 0xE6, 0x8E, 0xA8, 0xE8, 0xBF, 0x9B, 0xEF, 0xBC, 0x9B, 0xE5, 0x8F, 0xAA, 0xE6, 0x9C, 0x89, 0xE7, 0xA1, 0xAE, 0xE5, 0xAE, 0x9E, 0xE7, 0xBC, 0xBA, 0xE5, 0xB0, 0x91, 0xE7, 0x94, 0xA8, 0xE6, 0x88, 0xB7, 0xE5, 0xA4, 0x96, 0xE9, 0x83, 0xA8, 0xE4, 0xBF, 0xA1, 0xE6, 0x81, 0xAF, 0xE6, 0x97, 0xB6, 0xE6, 0x89, 0x8D, 0xE8, 0xBF, 0x94, 0xE5, 0x9B, 0x9E, 0xE7, 0xBB, 0x93, 0xE6, 0x9E, 0x84, 0xE5, 0x8C, 0x96] @ '' question'' @ utf8 [0xE3, 0x80, 0x82])
              else Satisfied, w'))"

definition judge_requirement ::
  "json_parser \<Rightarrow> (json \<Rightarrow> string) \<Rightarrow> string \<Rightarrow> nat \<Rightarrow> judge_context \<Rightarrow> 'w provider option \<Rightarrow> prompts_config option \<Rightarrow> 'w \<Rightarrow>
   requirement_judgement \<times> 'w" where
  "judge_requirement parse jt fresh now c provider prompts w =
     (case detect_pending_question fresh now (jc_result c) (jc_session_id c) of
        Some q \<Rightarrow> (judge_question jt c prompts q, w)
      | None \<Rightarrow>
         (let response = extract_response_text jt (jc_result c);
              tag = extract_completion_status response in
          if trim response = [] then
            (followup_on_result jt c prompts (utf8 [0xE4, 0xB8, 0x8A, 0xE6, 0xB8, 0xB8, 0xE6, 0x88, 0x90, 0xE5, 0x8A, 0x9F, 0xE8, 0xBF, 0x94, 0xE5, 0x9B, 0x9E, 0xEF, 0xBC, 0x8C, 0xE4, 0xBD, 0x86, 0xE7, 0xBC, 0xBA, 0xE5, 0xB0, 0x91, 0xE5, 0x8F, 0xAF, 0xE4, 0xBA, 0xA4, 0xE4, 0xBB, 0x98, 0xE7, 0xBB, 0x93, 0xE6, 0x9E, 0x9C])
               [utf8 [0xE7, 0xBB, 0x99, 0xE5, 0x87, 0xBA, 0xE5, 0x8F, 0xAF, 0xE9, 0xAA, 0x8C, 0xE8, 0xAF, 0x81, 0xE7, 0x9A, 0x84, 0xE6, 0x9C, 0x80, 0xE7, 0xBB, 0x88, 0xE7, 0xBB, 0x93, 0xE6, 0x9E, 0x9C, 0xE6, 0x88, 0x96, 0xE6, 0x98, 0x8E, 0xE7, 0xA1, 0xAE, 0xE7, 0x9A, 0x84, 0xE4, 0xB8, 0x8B, 0xE4, 0xB8, 0x80, 0xE6, 0xAD, 0xA5, 0xE7, 0xBB, 0x93, 0xE8, 0xAE, 0xBA]]
               (utf8 [0xE8, 0xAF, 0xB7, 0xE7, 0xBB, 0xA7, 0xE7, 0xBB, 0xAD, 0xE6, 0x8E, 0xA8, 0xE8, 0xBF, 0x9B, 0xEF, 0xBC, 0x8C, 0xE7, 0x9B, 0xB4, 0xE5, 0x88, 0xB0, 0xE6, 0x98, 0x8E, 0xE7, 0xA1, 0xAE, 0xE8, 0xAF, 0xB4, 0xE6, 0x98, 0x8E, 0xE9, 0x9C, 0x80, 0xE6, 0xB1, 0x82, 0xE6, 0x98, 0xAF, 0xE5, 0x90, 0xA6, 0xE5, 0xB7, 0xB2, 0xE7, 0xBB, 0x8F, 0xE5, 0xAE, 0x8C, 0xE6, 0x88, 0x90, 0xEF, 0xBC, 0x9B, 0xE8, 0x8B, 0xA5, 0xE4, 0xBB, 0x8D, 0xE7, 0xBC, 0xBA, 0xE4, 0xBF, 0xA1, 0xE6, 0x81, 0xAF, 0xEF, 0xBC, 0x8C, 0xE5, 0x8F, 0xAA, 0xE5, 0x9C, 0xA8, 0xE7, 0xA1, 0xAE, 0xE5, 0xAE, 0x9E, 0xE5, 0xBF, 0x85, 0xE9, 0xA1, 0xBB, 0xE4, 0xBE, 0x9D, 0xE8, 0xB5, 0x96, 0xE7, 0x94, 0xA8, 0xE6, 0x88, 0xB7, 0xE6, 0x97, 0xB6, 0xE6, 0x8F, 0x90, 0xE5, 0x87, 0xBA, 0xE7, 0xBB, 0x93, 0xE6, 0x9E, 0x84, 0xE5, 0x8C, 0x96] @ '' question'' @ utf8 [0xE3, 0x80, 0x82]), w)
          else if jc_previous c = Some (fingerprint_result jt (jc_result c)) then
            (followup_on_result jt c prompts (utf8 [0xE8, 0x87, 0xAA, 0xE5, 0x8A, 0xA8] @ '' follow-up '' @ utf8 [0xE5, 0xBE, 0x97, 0xE5, 0x88, 0xB0, 0xE4, 0xBA, 0x86, 0xE9, 0x87, 0x8D, 0xE5, 0xA4, 0x8D, 0xE7, 0xBB, 0x93, 0xE6, 0x9E, 0x9C, 0xEF, 0xBC, 0x8C, 0xE5, 0xB0, 0x9A, 0xE6, 0x9C, 0xAA, 0xE6, 0x94, 0xB6, 0xE6, 0x95, 0x9B])
               [utf8 [0xE9, 0x81, 0xBF, 0xE5, 0x85, 0x8D, 0xE9, 0x87, 0x8D, 0xE5, 0xA4, 0x8D, 0xE5, 0x89, 0x8D, 0xE4, 0xB8, 0x80, 0xE8, 0xBD, 0xAE, 0xE8, 0xBE, 0x93, 0xE5, 0x87, 0xBA, 0xEF, 0xBC, 0x8C, 0xE7, 0xBB, 0xA7, 0xE7, 0xBB, 0xAD, 0xE7, 0xBB, 0x99, 0xE5, 0x87, 0xBA, 0xE7, 0x9C, 0x9F, 0xE6, 0xAD, 0xA3, 0xE6, 0x8E, 0xA8, 0xE8, 0xBF, 0x9B, 0xE7, 0xBB, 0x93, 0xE6, 0x9E, 0x9C]]
               (utf8 [0xE4, 0xBD, 0xA0, 0xE5, 0x88, 0x9A, 0xE5, 0x88, 0x9A, 0xE9, 0x87, 0x8D, 0xE5, 0xA4, 0x8D, 0xE4, 0xBA, 0x86, 0xE5, 0x89, 0x8D, 0xE4, 0xB8, 0x80, 0xE8, 0xBD, 0xAE, 0xE7, 0xBB, 0x93, 0xE6, 0x9E, 0x9C, 0xE3, 0x80, 0x82, 0xE8, 0xAF, 0xB7, 0xE5, 0x9F, 0xBA, 0xE4, 0xBA, 0x8E, 0xE5, 0x8E, 0x9F, 0xE5, 0xA7, 0x8B, 0xE9, 0x9C, 0x80, 0xE6, 0xB1, 0x82, 0xE7, 0xBB, 0xA7, 0xE7, 0xBB, 0xAD, 0xE6, 0x8E, 0xA8, 0xE8, 0xBF, 0x9B, 0xEF, 0xBC, 0x8C, 0xE8, 0xBE, 0x93, 0xE5, 0x87, 0xBA, 0xE6, 0x96, 0xB0, 0xE5, 0xA2, 0x9E, 0xE7, 0xBB, 0x93, 0xE8, 0xAE, 0xBA, 0xEF, 0xBC, 0x9B, 0xE5, 0xA6, 0x82, 0xE6, 0x9E, 0x9C, 0xE5, 0xBF, 0x85, 0xE9, 0xA1, 0xBB, 0xE4, 0xBE, 0x9D, 0xE8, 0xB5, 0x96, 0xE7, 0x94, 0xA8, 0xE6, 0x88, 0xB7, 0xEF, 0xBC, 0x8C, 0xE8, 0xAF, 0xB7, 0xE8, 0xBF, 0x94, 0xE5, 0x9B, 0x9E, 0xE7, 0xBB, 0x93, 0xE6, 0x9E, 0x84, 0xE5, 0x8C, 0x96] @ '' question'' @ utf8 [0xE3, 0x80, 0x82]), w)
          else if tag = Some ''complete'' then (Satisfied, w)
          else if tag = Some ''needs_input'' \<or> tag = Some ''partial'' then
            (followup_on_result jt c prompts
               (''completion_status='' @ unwrap_or [] tag @ utf8 [0xEF, 0xBC, 0x8C, 0xE4, 0xBB, 0xBB, 0xE5, 0x8A, 0xA1, 0xE5, 0xB0, 0x9A, 0xE6, 0x9C, 0xAA, 0xE5, 0xAE, 0x8C, 0xE6, 0x88, 0x90])
               (infer_missing_requirements response) (utf8 [0xE8, 0xAF, 0xB7, 0xE7, 0xBB, 0xA7, 0xE7, 0xBB, 0xAD, 0xE6, 0x8E, 0xA8, 0xE8, 0xBF, 0x9B, 0xEF, 0xBC, 0x8C, 0xE7, 0x9B, 0xB4, 0xE5, 0x88, 0xB0, 0xE4, 0xBB, 0xBB, 0xE5, 0x8A, 0xA1, 0xE5, 0xAE, 0x8C, 0xE6, 0x95, 0xB4, 0xE5, 0xAE, 0x8C, 0xE6, 0x88, 0x90, 0xE3, 0x80, 0x82]), w)
          else judge_by_model parse jt c provider prompts w))"


section \<open>The context of a turn\<close>

datatype assembly_mode = AssembleInitial | AssembleQuestion | AssembleBlocked | AssembleFollowup

record requirement_snapshot =
  rs_request :: string
  rs_attempted :: nat
  rs_max_rounds :: nat
  rs_previous :: "string option"
  rs_question_prompt :: "string option"
  rs_answer_summary :: "string option"
  rs_summary_status :: "string option"

record assembly_metadata =
  am_memory_key :: string
  am_history_id :: string
  am_session_id :: string

record assembly_request =
  ar_mode :: assembly_mode
  ar_inbound_id :: string
  ar_channel :: string
  ar_chat_id :: "string option"
  ar_user_request :: string
  ar_session_id :: string
  ar_question :: "pending_question option"
  ar_summary :: "execution_summary option"
  ar_attempted :: nat
  ar_max_rounds :: nat
  ar_previous :: "string option"
  ar_followup_prompt :: "string option"

record assembly_result =
  as_prompt_text :: string
  as_snapshot :: requirement_snapshot
  as_metadata :: assembly_metadata

definition build_question_continuation_prompt :: "assembly_request \<Rightarrow> string" where
  "build_question_continuation_prompt r =
     (case ar_question r of
        None \<Rightarrow> ar_user_request r
      | Some q \<Rightarrow>
          (case answer_summary q of
             Some a \<Rightarrow> if trim a \<noteq> [] then a else ar_user_request r
           | None \<Rightarrow> ar_user_request r))"

definition build_prompt_text :: "assembly_request \<Rightarrow> string" where
  "build_prompt_text r =
     (case ar_followup_prompt r of
        Some p \<Rightarrow> p
      | None \<Rightarrow>
          (case ar_mode r of
             AssembleInitial \<Rightarrow> ar_user_request r
           | AssembleQuestion \<Rightarrow> build_question_continuation_prompt r
           | AssembleBlocked \<Rightarrow> ar_user_request r
           | AssembleFollowup \<Rightarrow> ar_user_request r))"

definition assemble_context :: "assembly_request \<Rightarrow> assembly_result" where
  "assemble_context r =
     (let history = unwrap_or (ar_inbound_id r) (ar_chat_id r) in
      \<lparr>as_prompt_text = build_prompt_text r,
       as_snapshot = \<lparr>rs_request = ar_user_request r, rs_attempted = ar_attempted r, rs_max_rounds = ar_max_rounds r,
         rs_previous = ar_previous r, rs_question_prompt = map_option pq_prompt (ar_question r),
         rs_answer_summary = Option.bind (ar_question r) answer_summary,
         rs_summary_status = map_option es_status (ar_summary r)\<rparr>,
       as_metadata = \<lparr>am_memory_key = ar_channel r @ '':'' @ history, am_history_id = history,
         am_session_id = ar_session_id r\<rparr>\<rparr>)"


section \<open>The branches of a turn\<close>

datatype turn_source = SourceInitial | SourceQuestion | SourceFollowup

fun source_label :: "turn_source \<Rightarrow> string" where
  "source_label SourceInitial = ''initial''"
| "source_label SourceQuestion = ''question_continuation''"
| "source_label SourceFollowup = ''agent_followup''"

fun assembly_mode_for_source :: "turn_source \<Rightarrow> assembly_mode" where
  "assembly_mode_for_source SourceInitial = AssembleInitial"
| "assembly_mode_for_source SourceQuestion = AssembleQuestion"
| "assembly_mode_for_source SourceFollowup = AssembleFollowup"

record evaluation_preparation =
  ep_source_label :: string
  ep_assembly_mode :: assembly_mode
  ep_assembly :: assembly_result
  ep_judge_context :: judge_context

definition build_requirement_judge_context ::
  "assembly_result \<Rightarrow> string \<Rightarrow> string \<Rightarrow> string option \<Rightarrow> json option \<Rightarrow> judge_context" where
  "build_requirement_judge_context a job tid ch raw =
     \<lparr>jc_request = rs_request (as_snapshot a), jc_job_id = job, jc_trace_id = tid, jc_chat_id = ch,
      jc_session_id = am_session_id (as_metadata a), jc_result = raw, jc_attempted = rs_attempted (as_snapshot a),
      jc_max_rounds = rs_max_rounds (as_snapshot a), jc_previous = rs_previous (as_snapshot a)\<rparr>"

definition prepare_requirement_evaluation ::
  "turn_source \<Rightarrow> assembly_result \<Rightarrow> string \<Rightarrow> string \<Rightarrow> string option \<Rightarrow> json option \<Rightarrow> evaluation_preparation" where
  "prepare_requirement_evaluation src a job tid ch raw =
     \<lparr>ep_source_label = source_label src, ep_assembly_mode = assembly_mode_for_source src, ep_assembly = a,
      ep_judge_context = build_requirement_judge_context a job tid ch raw\<rparr>"

datatype turn_outcome_plan =
    TurnComplete bool
  | AskUserInput bool user_input_requirement
  | ScheduleFollowup agent_followup_plan

fun plan_turn_outcome :: "requirement_judgement \<Rightarrow> bool \<Rightarrow> turn_outcome_plan" where
  "plan_turn_outcome Satisfied resolved = TurnComplete resolved"
| "plan_turn_outcome (NeedsUserInput r) resolved = AskUserInput resolved r"
| "plan_turn_outcome (NeedsAgentFollowup p) resolved = ScheduleFollowup p"

definition resolved_question_to_publish :: "bool \<Rightarrow> pending_question option \<Rightarrow> pending_question option" where
  "resolved_question_to_publish b q = (if b then q else None)"

definition prepare_pending_question_for_storage :: "pending_question \<Rightarrow> inbound \<Rightarrow> pending_question" where
  "prepare_pending_question_for_storage q m = q\<lparr>pq_job_id := in_id m, pq_inbound := Some m\<rparr>"

record completion_data =
  cd_response_text :: string
  cd_assistant_entry :: json
  cd_status :: string

definition prepare_completion_data :: "string \<Rightarrow> completion_data" where
  "prepare_completion_data t =
     \<lparr>cd_response_text = t,
      cd_assistant_entry = JObject [(''role'', JString ''assistant''), (''content'', JString t)],
      cd_status = ''success''\<rparr>"

record waiting_data =
  wd_question :: pending_question
  wd_status :: string

definition prepare_waiting_user_input_data :: "pending_question \<Rightarrow> inbound \<Rightarrow> waiting_data" where
  "prepare_waiting_user_input_data q m =
     \<lparr>wd_question = prepare_pending_question_for_storage q m, wd_status = ''waiting_user_input''\<rparr>"

record summary_input =
  si_status :: string
  si_worker_id :: "string option"
  si_error_code :: "string option"
  si_error_stage :: "string option"
  si_duration_ms :: nat
  si_stages :: stage_durations

definition prepare_summary_input :: "string \<Rightarrow> string option \<Rightarrow> nat \<Rightarrow> stage_durations \<Rightarrow> summary_input" where
  "prepare_summary_input st worker duration stages =
     \<lparr>si_status = st, si_worker_id = worker, si_error_code = None, si_error_stage = None, si_duration_ms = duration,
      si_stages = stages\<rparr>"

definition response_preview :: "string \<Rightarrow> string" where
  "response_preview t = (if 120 < count_chars t then take_chars 120 t @ utf8 [0xE2, 0x80, 0xA6] else t)"

record message_completed =
  mc_status :: string
  mc_preview :: string
  mc_text :: string

definition prepare_message_completed_payload :: "string \<Rightarrow> message_completed" where
  "prepare_message_completed_payload t = \<lparr>mc_status = ''success'', mc_preview = response_preview t, mc_text = t\<rparr>"

record input_required =
  ir_reason :: string
  ir_missing :: "string list"
  ir_question_id :: string
  ir_prompt :: string

definition prepare_user_input_required_payload :: "user_input_requirement \<Rightarrow> input_required" where
  "prepare_user_input_required_payload r =
     \<lparr>ir_reason = ui_reason r, ir_missing = ui_missing r, ir_question_id = question_id (ui_question r),
      ir_prompt = pq_prompt (ui_question r)\<rparr>"

record question_resolved =
  qr_question_id :: string
  qr_answer_summary :: "string option"
  qr_resolution_source :: "string option"
  qr_session_id :: string

definition prepare_question_resolved_payload :: "pending_question \<Rightarrow> question_resolved" where
  "prepare_question_resolved_payload q =
     \<lparr>qr_question_id = question_id q, qr_answer_summary = answer_summary q,
      qr_resolution_source = pq_resolution_source q, qr_session_id = pq_session_id q\<rparr>"

record response_observed =
  ro_worker_id :: "string option"
  ro_task_type :: string
  ro_provider :: "string option"
  ro_operation :: "string option"
  ro_session_id :: string
  ro_preview :: string
  ro_result :: "json option"

record followup_scheduled =
  fo_attempted :: nat
  fo_max_rounds :: nat
  fo_reason :: string
  fo_missing :: "string list"
  fo_prompt :: string

record followup_exhausted =
  fx_attempted :: nat
  fx_max_rounds :: nat
  fx_reason :: string
  fx_missing :: "string list"
  fx_fingerprint :: string

record completed_branch =
  cb_resolved :: "question_resolved option"
  cb_completion :: completion_data
  cb_summary :: summary_input
  cb_message :: message_completed
  cb_preview :: string

definition prepare_completed_branch_data ::
  "pending_question option \<Rightarrow> bool \<Rightarrow> string \<Rightarrow> string option \<Rightarrow> nat \<Rightarrow> stage_durations \<Rightarrow> completed_branch" where
  "prepare_completed_branch_data q resolve t worker duration stages =
     (let c = prepare_completion_data t in
      \<lparr>cb_resolved = map_option prepare_question_resolved_payload (resolved_question_to_publish resolve q),
       cb_completion = c, cb_summary = prepare_summary_input (cd_status c) worker duration stages,
       cb_message = prepare_message_completed_payload t, cb_preview = response_preview t\<rparr>)"

record waiting_branch =
  wb_resolved :: "question_resolved option"
  wb_unsatisfied :: json
  wb_required :: input_required
  wb_waiting :: waiting_data
  wb_summary :: summary_input

definition prepare_waiting_user_input_branch_data ::
  "pending_question option \<Rightarrow> bool \<Rightarrow> user_input_requirement \<Rightarrow> inbound \<Rightarrow> string option \<Rightarrow> nat \<Rightarrow> stage_durations \<Rightarrow>
   json option \<Rightarrow> waiting_branch" where
  "prepare_waiting_user_input_branch_data q resolve r m worker duration stages raw =
     (let waiting = prepare_waiting_user_input_data (ui_question r) m in
      \<lparr>wb_resolved = map_option prepare_question_resolved_payload (resolved_question_to_publish resolve q),
       wb_unsatisfied = requirement_unsatisfied_payload (ui_reason r) (ui_missing r) raw,
       wb_required = prepare_user_input_required_payload r, wb_waiting = waiting,
       wb_summary = prepare_summary_input (wd_status waiting) worker duration stages\<rparr>)"

record followup_branch =
  fb_unsatisfied :: json
  fb_pending :: summary_input
  fb_exhausted_summary :: summary_input
  fb_scheduled :: followup_scheduled
  fb_exhausted :: followup_exhausted

definition prepare_followup_branch_data ::
  "agent_followup_plan \<Rightarrow> nat \<Rightarrow> nat \<Rightarrow> string option \<Rightarrow> nat \<Rightarrow> stage_durations \<Rightarrow> followup_branch" where
  "prepare_followup_branch_data p k n worker duration stages =
     \<lparr>fb_unsatisfied = requirement_unsatisfied_payload (fp_reason p) (fp_missing p) None,
      fb_pending = prepare_summary_input ''followup_pending'' worker duration stages,
      fb_exhausted_summary = \<lparr>si_status = ''followup_exhausted'', si_worker_id = worker,
        si_error_code = Some ''requirement_followup_exhausted'', si_error_stage = Some ''requirement_judge'',
        si_duration_ms = duration, si_stages = stages\<rparr>,
      fb_scheduled = \<lparr>fo_attempted = k, fo_max_rounds = n, fo_reason = fp_reason p, fo_missing = fp_missing p,
        fo_prompt = fp_prompt p\<rparr>,
      fb_exhausted = \<lparr>fx_attempted = k, fx_max_rounds = n, fx_reason = fp_reason p, fx_missing = fp_missing p,
        fx_fingerprint = fp_fingerprint p\<rparr>\<rparr>"


section \<open>What the judge promises\<close>

lemma followup_not_satisfied [simp]:
  "followup_on_result jt c prompts r m i \<noteq> Satisfied" "judge_question jt c prompts q \<noteq> Satisfied"
  by (simp_all add: followup_on_result_def judge_question_def)

definition model_verdict ::
  "json_parser \<Rightarrow> (json \<Rightarrow> string) \<Rightarrow> judge_context \<Rightarrow> 'w provider option \<Rightarrow> prompts_config option \<Rightarrow> 'w \<Rightarrow> bool option" where
  "model_verdict parse jt c provider prompts w =
     Option.bind provider (\<lambda>p. fst (llm_judge_requirement parse p (jc_request c)
       (extract_response_text jt (jc_result c)) (map_option requirement_judge prompts) w))"

lemma judge_by_model_satisfied:
  "fst (judge_by_model parse jt c provider prompts w) = Satisfied \<longleftrightarrow>
     (case model_verdict parse jt c provider prompts w of
        Some b \<Rightarrow> b
      | None \<Rightarrow> \<not> looks_unsatisfied (normalize_text (extract_response_text jt (jc_result c))))"
  by (auto simp: judge_by_model_def model_verdict_def Let_def split: option.split bool.split prod.split)

text \<open>
  C19. A request counts as satisfied exactly when the result asks nothing, is neither empty nor a repetition, and its
  status tag says so or, without a telling tag, the model says so or, without a verdict, no key word speaks
  against it.\<close>
theorem satisfied_exact:
  "fst (judge_requirement parse jt fresh now c provider prompts w) = Satisfied \<longleftrightarrow>
     \<not> asks_question (jc_result c) \<and>
     (let response = extract_response_text jt (jc_result c); tag = extract_completion_status response in
      trim response \<noteq> [] \<and> jc_previous c \<noteq> Some (fingerprint_result jt (jc_result c)) \<and>
      (tag = Some ''complete'' \<or>
       tag \<notin> {Some ''needs_input'', Some ''partial''} \<and>
       (case model_verdict parse jt c provider prompts w of
          Some b \<Rightarrow> b | None \<Rightarrow> \<not> looks_unsatisfied (normalize_text response))))"
proof (cases "detect_pending_question fresh now (jc_result c) (jc_session_id c)")
  case None
  then have "\<not> asks_question (jc_result c)"
    using detect_iff_asks by blast
  then show ?thesis
    using None by (auto simp: judge_requirement_def Let_def judge_by_model_satisfied)
next
  case (Some q)
  then have "asks_question (jc_result c)"
    using detect_iff_asks by blast
  then show ?thesis
    using Some by (simp add: judge_requirement_def)
qed

text \<open>A pattern is not found before its first character.\<close>

lemma not_starts_other: "x \<noteq> c \<Longrightarrow> \<not> starts_with (x # s) (c # p)"
  by (simp add: starts_with_def)

lemma str_contains_skip: "c \<notin> set u \<Longrightarrow> str_contains (c # p) (u @ s) = str_contains (c # p) s"
  by (induction u) (auto simp: not_starts_other)

lemma find_str_skip: "c \<notin> set u \<Longrightarrow> find_str (c # p) (u @ s) = map_option ((+) (length u)) (find_str (c # p) s)"
  by (cases "find_str (c # p) s"; induction u) (auto simp: not_starts_other)

lemma find_str_here: "find_str (c # p) (c # p @ s) = Some 0"
  by (simp add: starts_with_def)

lemma rfind_str_None: "\<not> str_contains p s \<Longrightarrow> rfind_str p s = None"
  by (induction s) auto

lemma rfind_str_last: "\<not> str_contains (c # p) (p @ v) \<Longrightarrow> rfind_str (c # p) (u @ (c # p) @ v) = Some (length u)"
  by (induction u) (simp_all add: rfind_str_None starts_with_def)

text \<open>
  The last status tag of a response is the one that is read: whatever stands before it, a tag without brackets
  or outer white space and with no further tag behind it is found again.\<close>

theorem status_tag_roundtrip:
  assumes "CHR ''<'' \<notin> set v" "trim v = v" "v \<noteq> []" "\<not> str_contains status_open suffix"
  shows "extract_completion_status (prefix @ status_open @ v @ status_close @ suffix) = Some v"
proof -
  define p q where "p = tl status_open" and "q = tl status_close"
  have tags: "status_open = CHR ''<'' # p" "status_close = CHR ''<'' # q" "CHR ''<'' \<notin> set p" "CHR ''<'' \<notin> set q"
    by (simp_all add: p_def q_def status_open_def status_close_def)
  have "\<not> starts_with (status_close @ suffix) status_open"
    by (simp add: starts_with_def status_open_def status_close_def)
  then have "\<not> str_contains status_open (status_close @ suffix)"
    using assms(4) str_contains_skip [OF tags(4), of p suffix] by (simp add: tags(2) flip: tags(1))
  then have "\<not> str_contains status_open (p @ v @ status_close @ suffix)"
    unfolding tags(1) by (simp only: str_contains_skip [OF tags(3)] str_contains_skip [OF assms(1)] not_False_eq_True)
  then have "rfind_str status_open (prefix @ status_open @ v @ status_close @ suffix) = Some (length prefix)"
    unfolding tags(1) by (rule rfind_str_last)
  moreover have "find_str status_close (v @ status_close @ suffix) = Some (length v)"
    using assms(1) find_str_here [of _ q suffix] by (simp add: tags(2) find_str_skip)
  ultimately show ?thesis
    using assms by (simp add: extract_completion_status_def Let_def)
qed

theorem status_tag_roundtrip_witness:
  "extract_completion_status (''Done. '' @ status_open @ ''complete'' @ status_close @ '' bye'') = Some ''complete''"
  by (rule status_tag_roundtrip) code_simp+

end
