(* ===== verification/Sessions.thy ===== *)
theory Sessions
  imports Strings
begin

text \<open>
  The sessions of users on channels (\<open>channel/session.rs\<close>, keys of \<open>channel/message.rs\<close>): sessions by id,
  with an index by routing key and one by channel and account.  Each method holds the lock throughout; fresh
  ids and the time are arguments.  \<open>find_or_create_session\<close> is its sequence of lookups for one caller.
\<close>

section \<open>Routing keys\<close>

definition session_prefix :: string where "session_prefix = ''anima.session.''"

definition make_session_routing_key :: "string \<Rightarrow> string" where
  "make_session_routing_key i = session_prefix @ i"

definition extract_session_id :: "string \<Rightarrow> string option" where
  "extract_session_id rk = strip_prefix session_prefix rk"

definition extract_user_id :: "string \<Rightarrow> string option" where
  "extract_user_id rk = strip_prefix ''anima.user.'' rk"

definition make_user_routing_key :: "string \<Rightarrow> string" where
  "make_user_routing_key i = ''anima.user.'' @ i"

definition make_channel_routing_key :: "string \<Rightarrow> string" where
  "make_channel_routing_key c = ''anima.channel.'' @ c"


section \<open>State\<close>

record session =
  sn_id :: string
  sn_channel :: string
  sn_routing_key :: string
  sn_context :: json
  sn_metadata :: json
  sn_created_at :: nat
  sn_last_active :: nat

record session_create_options =
  sc_id :: "string option"
  sc_routing_key :: "string option"
  sc_context :: "json option"
  sc_metadata :: "json option"
  sc_account_id :: "string option"

record find_session_options =
  fs_session_id :: "string option"
  fs_routing_key :: "string option"
  fs_account_id :: "string option"

record session_stats =
  sx_total :: nat
  sx_by_channel :: "(string, nat) imap"
  sx_active_last_hour :: nat

record session_store =
  sessions :: "(string, session) imap"
  by_routing_key :: "(string, string) imap"
  by_channel :: "(string, (string, string list) imap) imap"

definition new_session_store :: session_store where
  "new_session_store = \<lparr>sessions = [], by_routing_key = [], by_channel = []\<rparr>"


section \<open>Operations\<close>

definition create_session ::
  "string \<Rightarrow> nat \<Rightarrow> string \<Rightarrow> session_create_options \<Rightarrow> session_store \<Rightarrow> session \<times> session_store" where
  "create_session fresh now channel opts st =
     (let i = unwrap_or fresh (sc_id opts);
          rk = unwrap_or (make_session_routing_key i) (sc_routing_key opts);
          account = unwrap_or ''default'' (sc_account_id opts);
          s = \<lparr>sn_id = i, sn_channel = channel, sn_routing_key = rk, sn_context = unwrap_or (JObject []) (sc_context opts),
               sn_metadata = unwrap_or (JObject []) (sc_metadata opts), sn_created_at = now, sn_last_active = now\<rparr>
      in (s, st\<lparr>sessions := im_insert i s (sessions st),
                by_routing_key := im_insert rk i (by_routing_key st),
                by_channel := im_entry channel [] (im_entry account [] (\<lambda>ids. ids @ [i])) (by_channel st)\<rparr>))"

definition get_session :: "session_store \<Rightarrow> string \<Rightarrow> session option" where
  "get_session st i = map_of (sessions st) i"

definition get_session_by_routing_key :: "session_store \<Rightarrow> string \<Rightarrow> session option" where
  "get_session_by_routing_key st rk = Option.bind (map_of (by_routing_key st) rk) (get_session st)"

definition get_sessions_by_channel :: "session_store \<Rightarrow> string \<Rightarrow> string option \<Rightarrow> session list" where
  "get_sessions_by_channel st channel account =
     (case map_of (by_channel st) channel of
        None \<Rightarrow> []
      | Some accounts \<Rightarrow>
          List.map_filter (get_session st) (unwrap_or [] (map_of accounts (unwrap_or ''default'' account))))"

definition get_all_sessions :: "session_store \<Rightarrow> session list" where
  "get_all_sessions st = im_values (sessions st)"

definition session_exists :: "session_store \<Rightarrow> string \<Rightarrow> bool" where
  "session_exists st i \<longleftrightarrow> get_session st i \<noteq> None"

definition session_count :: "session_store \<Rightarrow> nat" where
  "session_count st = length (sessions st)"

text \<open>\<open>if let Some(s) = sessions.get_mut(id) { f(s); s.last_active = now }\<close>\<close>

definition update_session ::
  "nat \<Rightarrow> string \<Rightarrow> (session \<Rightarrow> session) \<Rightarrow> session_store \<Rightarrow> session option \<times> session_store" where
  "update_session now i f st =
     (case get_session st i of
        None \<Rightarrow> (None, st)
      | Some s \<Rightarrow> (let s' = (f s)\<lparr>sn_last_active := now\<rparr> in (Some s', st\<lparr>sessions := im_insert i s' (sessions st)\<rparr>)))"

fun merge_json_object :: "json \<Rightarrow> json \<Rightarrow> json" where
  "merge_json_object (JObject kvs) (JObject us) = JObject (fold (\<lambda>(k, v). im_insert k v) us kvs)"
| "merge_json_object _ u = u"

definition update_session_context :: "nat \<Rightarrow> string \<Rightarrow> json \<Rightarrow> session_store \<Rightarrow> session option \<times> session_store" where
  "update_session_context now i u = update_session now i (\<lambda>s. s\<lparr>sn_context := merge_json_object (sn_context s) u\<rparr>)"

definition set_session_context :: "nat \<Rightarrow> string \<Rightarrow> json \<Rightarrow> session_store \<Rightarrow> session option \<times> session_store" where
  "set_session_context now i c = update_session now i (\<lambda>s. s\<lparr>sn_context := c\<rparr>)"

definition history_of :: "json \<Rightarrow> json list" where
  "history_of c = unwrap_or [] (Option.bind (json_get ''history'' c) as_array)"

definition push_history :: "json \<Rightarrow> json \<Rightarrow> json" where
  "push_history m c =
     (let kvs = (case c of JObject kvs \<Rightarrow> kvs | _ \<Rightarrow> [])
      in JObject (im_insert ''history'' (JArray (history_of (JObject kvs) @ [m])) kvs))"

definition add_to_history :: "nat \<Rightarrow> string \<Rightarrow> json \<Rightarrow> session_store \<Rightarrow> session option \<times> session_store" where
  "add_to_history now i m = update_session now i (\<lambda>s. s\<lparr>sn_context := push_history m (sn_context s)\<rparr>)"

definition get_history :: "session_store \<Rightarrow> string \<Rightarrow> json list" where
  "get_history st i = (case get_session st i of None \<Rightarrow> [] | Some s \<Rightarrow> history_of (sn_context s))"

definition touch_session :: "nat \<Rightarrow> string \<Rightarrow> session_store \<Rightarrow> session option \<times> session_store" where
  "touch_session now i = update_session now i id"

definition drop_from_accounts :: "string \<Rightarrow> (string, string list) imap \<Rightarrow> (string, string list) imap" where
  "drop_from_accounts i accounts =
     filter (\<lambda>(a, ids). ids \<noteq> []) (map (\<lambda>(a, ids). (a, filter (\<lambda>x. x \<noteq> i) ids)) accounts)"

definition close_session :: "string \<Rightarrow> session_store \<Rightarrow> session option \<times> session_store" where
  "close_session i st =
     (case get_session st i of
        None \<Rightarrow> (None, st)
      | Some s \<Rightarrow> (Some s, st\<lparr>sessions := im_remove i (sessions st),
          by_routing_key := im_remove (sn_routing_key s) (by_routing_key st),
          by_channel := im_modify (sn_channel s) (drop_from_accounts i) (by_channel st)\<rparr>))"

definition close_all_sessions :: "session_store \<Rightarrow> nat \<times> session_store" where
  "close_all_sessions st = (length (sessions st), new_session_store)"

definition session_count_by_channel :: "session_store \<Rightarrow> string \<Rightarrow> string option \<Rightarrow> nat" where
  "session_count_by_channel st channel account =
     (case map_of (by_channel st) channel of
        None \<Rightarrow> 0
      | Some accounts \<Rightarrow>
          (case account of
             Some a \<Rightarrow> length (unwrap_or [] (map_of accounts a))
           | None \<Rightarrow> sum_list (map length (im_values accounts))))"

definition get_stats :: "nat \<Rightarrow> session_store \<Rightarrow> session_stats" where
  "get_stats now st =
     (let one_hour_ago = saturating_sub now 3600000 in
      \<lparr>sx_total = length (sessions st),
       sx_by_channel = fold (\<lambda>s. im_entry (sn_channel s) 0 Suc) (im_values (sessions st)) [],
       sx_active_last_hour = length (filter (\<lambda>s. one_hour_ago < sn_last_active s) (im_values (sessions st)))\<rparr>)"

text \<open>The session the options name, by id, by routing key, or by the id inside the routing key.\<close>

definition find_session :: "find_session_options \<Rightarrow> session_store \<Rightarrow> session option" where
  "find_session opts st =
     or_else (or_else (Option.bind (fs_session_id opts) (get_session st))
                      (Option.bind (fs_routing_key opts) (get_session_by_routing_key st)))
             (Option.bind (fs_routing_key opts) (\<lambda>rk. Option.bind (extract_session_id rk) (get_session st)))"

definition find_or_create_session ::
  "string \<Rightarrow> nat \<Rightarrow> string \<Rightarrow> find_session_options \<Rightarrow> session_store \<Rightarrow> session \<times> session_store" where
  "find_or_create_session fresh now channel opts st =
     (case find_session opts st of
        Some s \<Rightarrow> (s, st)
      | None \<Rightarrow> create_session fresh now channel
          \<lparr>sc_id = None, sc_routing_key = fs_routing_key opts, sc_context = None, sc_metadata = None,
           sc_account_id = fs_account_id opts\<rparr> st)"


section \<open>The indices are exact\<close>

definition channel_ids :: "session_store \<Rightarrow> string \<Rightarrow> string list" where
  "channel_ids st channel = concat (map snd (unwrap_or [] (map_of (by_channel st) channel)))"

definition sessions_wf :: "session_store \<Rightarrow> bool" where
  "sessions_wf st \<longleftrightarrow>
     (\<forall>i s. get_session st i = Some s \<longrightarrow> sn_id s = i) \<and>
     (\<forall>rk i. map_of (by_routing_key st) rk = Some i \<longleftrightarrow> (\<exists>s. get_session st i = Some s \<and> sn_routing_key s = rk)) \<and>
     (\<forall>channel. distinct (channel_ids st channel) \<and>
        set (channel_ids st channel) = {i. \<exists>s. get_session st i = Some s \<and> sn_channel s = channel})"

datatype session_op =
    FindOrCreate string nat string find_session_options
  | MergeContext nat string json
  | SetContext nat string json
  | AddHistory nat string json
  | Touch nat string
  | Close string
  | CloseAll

fun session_step :: "session_op \<Rightarrow> session_store \<Rightarrow> session_store" where
  "session_step (FindOrCreate fresh now channel opts) st = snd (find_or_create_session fresh now channel opts st)"
| "session_step (MergeContext now i c) st = snd (update_session_context now i c st)"
| "session_step (SetContext now i c) st = snd (set_session_context now i c st)"
| "session_step (AddHistory now i m) st = snd (add_to_history now i m st)"
| "session_step (Touch now i) st = snd (touch_session now i st)"
| "session_step (Close i) st = snd (close_session i st)"
| "session_step CloseAll st = snd (close_all_sessions st)"

text \<open>A generated id was never used, neither as an id nor inside a routing key.\<close>

fun fresh_op :: "session_op \<Rightarrow> session_store \<Rightarrow> bool" where
  "fresh_op (FindOrCreate fresh now channel opts) st \<longleftrightarrow>
     get_session st fresh = None \<and> map_of (by_routing_key st) (make_session_routing_key fresh) = None"
| "fresh_op _ st \<longleftrightarrow> True"

fun fresh_ops :: "session_op list \<Rightarrow> session_store \<Rightarrow> bool" where
  "fresh_ops [] st \<longleftrightarrow> True"
| "fresh_ops (x # xs) st \<longleftrightarrow> fresh_op x st \<and> fresh_ops xs (session_step x st)"

lemma get_session_simps [simp]:
  "get_session (st\<lparr>sessions := im_insert i s (sessions st)\<rparr>) j = (if j = i then Some s else get_session st j)"
  "get_session (st\<lparr>by_routing_key := r\<rparr>) j = get_session st j"
  "get_session (st\<lparr>by_channel := b\<rparr>) j = get_session st j"
  by (simp_all add: get_session_def im.get_ins)

lemma channel_ids_simps [simp]:
  "channel_ids (st\<lparr>sessions := m\<rparr>) channel = channel_ids st channel"
  "channel_ids (st\<lparr>by_routing_key := r\<rparr>) channel = channel_ids st channel"
  by (simp_all add: channel_ids_def)

lemma update_session_wf:
  assumes "sessions_wf st" "\<And>s. sn_id (f s) = sn_id s" "\<And>s. sn_channel (f s) = sn_channel s"
    "\<And>s. sn_routing_key (f s) = sn_routing_key s"
  shows "sessions_wf (snd (update_session now i f st))"
proof (cases "get_session st i")
  case None
  then show ?thesis
    using assms(1) by (simp add: update_session_def)
next
  case (Some s)
  show ?thesis
    using assms(1) unfolding sessions_wf_def update_session_def Some Let_def option.case snd_conv
    by (simp add: assms(2-4)) (auto simp: Some)
qed

lemma mset_entry_append:
  "mset (concat (map snd (im_entry a [] (\<lambda>ids. ids @ [i]) m))) = add_mset i (mset (concat (map snd m)))"
  by (induction m) (auto simp: im_entry_def)

lemma channel_ids_create:
  "mset (channel_ids (st\<lparr>by_channel := im_entry c [] (im_entry a [] (\<lambda>ids. ids @ [i])) (by_channel st)\<rparr>) channel) =
     (if channel = c then add_mset i (mset (channel_ids st channel)) else mset (channel_ids st channel))"
proof (cases "map_of (by_channel st) c")
  case None
  then show ?thesis
    using mset_entry_append [of a i "[]"] by (simp add: channel_ids_def im_get_entry)
qed (simp add: channel_ids_def im_get_entry mset_entry_append)

lemma create_session_wf:
  assumes "sessions_wf st" "get_session st i = None" "map_of (by_routing_key st) rk = None"
    "i = unwrap_or fresh (sc_id opts)" "rk = unwrap_or (make_session_routing_key i) (sc_routing_key opts)"
  shows "sessions_wf (snd (create_session fresh now channel opts st))"
proof -
  define s where "s = \<lparr>sn_id = i, sn_channel = channel, sn_routing_key = rk, sn_context = unwrap_or (JObject []) (sc_context opts),
    sn_metadata = unwrap_or (JObject []) (sc_metadata opts), sn_created_at = now, sn_last_active = now\<rparr>"
  define st' where "st' = snd (create_session fresh now channel opts st)"
  have st': "st' = st\<lparr>sessions := im_insert i s (sessions st), by_routing_key := im_insert rk i (by_routing_key st),
      by_channel := im_entry channel [] (im_entry (unwrap_or ''default'' (sc_account_id opts)) [] (\<lambda>ids. ids @ [i])) (by_channel st)\<rparr>"
    by (simp add: st'_def s_def create_session_def Let_def assms(4,5))
  have get: "get_session st' j = (if j = i then Some s else get_session st j)" for j
    by (simp add: st' get_session_def im.get_ins)
  have routing: "map_of (by_routing_key st') k = (if k = rk then Some i else map_of (by_routing_key st) k)" for k
    by (simp add: st' im.get_ins)
  have ids: "mset (channel_ids st' c) = (if c = channel then mset (i # channel_ids st c) else mset (channel_ids st c))" for c
    using channel_ids_create [of channel "unwrap_or ''default'' (sc_account_id opts)" i st c] by (simp add: st' channel_ids_def)
  have fields: "sn_id s = i" "sn_channel s = channel" "sn_routing_key s = rk"
    by (simp_all add: s_def)
  have "distinct (channel_ids st' c) \<and> set (channel_ids st' c) = {j. \<exists>s. get_session st' j = Some s \<and> sn_channel s = c}" for c
  proof -
    have old: "distinct (channel_ids st c)" "set (channel_ids st c) = {j. \<exists>s. get_session st j = Some s \<and> sn_channel s = c}"
      using assms(1) by (simp_all add: sessions_wf_def)
    show ?thesis
    proof (cases "c = channel")
      case True
      then have "mset (channel_ids st' c) = mset (i # channel_ids st c)"
        using ids by simp
      then have "distinct (channel_ids st' c) = distinct (i # channel_ids st c)" "set (channel_ids st' c) = set (i # channel_ids st c)"
        by (rule mset_eq_imp_distinct_iff, metis mset_eq_setD)
      then show ?thesis
        using old assms(2) True by (auto simp: get fields)
    next
      case False
      then have "mset (channel_ids st' c) = mset (channel_ids st c)"
        using ids by simp
      then have "distinct (channel_ids st' c) = distinct (channel_ids st c)" "set (channel_ids st' c) = set (channel_ids st c)"
        by (rule mset_eq_imp_distinct_iff, metis mset_eq_setD)
      then show ?thesis
        using old assms(2) False by (auto simp: get fields)
    qed
  qed
  moreover have "map_of (by_routing_key st') k = Some j \<longleftrightarrow> (\<exists>s. get_session st' j = Some s \<and> sn_routing_key s = k)" for k j
  proof -
    have key: "map_of (by_routing_key st) k = Some j \<longleftrightarrow> (\<exists>s. get_session st j = Some s \<and> sn_routing_key s = k)" for k j
      using assms(1) by (simp add: sessions_wf_def)
    have "sn_routing_key x \<noteq> rk" if "get_session st j = Some x" for x
      using key that assms(3) by (metis option.distinct(1))
    then show ?thesis
      using key assms(2,3) by (auto simp: get routing fields)
  qed
  moreover have "get_session st' j = Some x \<Longrightarrow> sn_id x = j" for j x
    using assms(1) fields(1) by (cases "j = i") (auto simp: get sessions_wf_def)
  ultimately show ?thesis
    unfolding sessions_wf_def st'_def [symmetric] by blast
qed

lemma find_or_create_wf:
  assumes "sessions_wf st" "get_session st fresh = None" "map_of (by_routing_key st) (make_session_routing_key fresh) = None"
  shows "sessions_wf (snd (find_or_create_session fresh now channel opts st))"
proof (cases "find_session opts st")
  case None
  have "map_of (by_routing_key st) rk = None" if "fs_routing_key opts = Some rk" for rk
    using None that assms(1)
    by (auto simp: find_session_def or_else_def get_session_by_routing_key_def sessions_wf_def
        split: option.splits Option.bind_splits)
  then have "map_of (by_routing_key st) (unwrap_or (make_session_routing_key fresh) (fs_routing_key opts)) = None"
    using assms(3) by (cases "fs_routing_key opts") auto
  then show ?thesis
    using None assms by (auto simp: find_or_create_session_def intro!: create_session_wf)
qed (simp add: find_or_create_session_def assms)

lemma drop_from_accounts_ids: "concat (map snd (drop_from_accounts i m)) = filter (\<lambda>x. x \<noteq> i) (concat (map snd m))"
  by (induction m) (auto simp: drop_from_accounts_def)

lemma close_session_wf:
  assumes "sessions_wf st"
  shows "sessions_wf (snd (close_session i st))"
proof (cases "get_session st i")
  case (Some s)
  define st' where "st' = snd (close_session i st)"
  have st': "st' = st\<lparr>sessions := im_remove i (sessions st), by_routing_key := im_remove (sn_routing_key s) (by_routing_key st),
      by_channel := im_modify (sn_channel s) (drop_from_accounts i) (by_channel st)\<rparr>"
    by (simp add: st'_def close_session_def Some)
  have get: "get_session st' j = (if j = i then None else get_session st j)" for j
    by (simp add: st' get_session_def im.get_del)
  have routing: "map_of (by_routing_key st') k = (if k = sn_routing_key s then None else map_of (by_routing_key st) k)" for k
    by (simp add: st' im.get_del)
  have old: "distinct (channel_ids st c)" "set (channel_ids st c) = {j. \<exists>s. get_session st j = Some s \<and> sn_channel s = c}" for c
    using assms by (simp_all add: sessions_wf_def)
  have "channel_ids st' c = filter (\<lambda>x. x \<noteq> i) (channel_ids st c)" for c
  proof (cases "c = sn_channel s")
    case True
    then show ?thesis
      by (cases "map_of (by_channel st) c") (simp_all add: st' channel_ids_def im_get_modify drop_from_accounts_ids)
  next
    case False
    then have "i \<notin> set (channel_ids st c)"
      using old Some by auto
    then show ?thesis
      using False by (auto simp: st' channel_ids_def im_get_modify intro!: filter_True [symmetric])
  qed
  then have "distinct (channel_ids st' c) \<and> set (channel_ids st' c) = {j. \<exists>s. get_session st' j = Some s \<and> sn_channel s = c}" for c
    using old by (auto simp: get)
  moreover have "map_of (by_routing_key st') k = Some j \<longleftrightarrow> (\<exists>s. get_session st' j = Some s \<and> sn_routing_key s = k)" for k j
  proof -
    have key: "map_of (by_routing_key st) k = Some j \<longleftrightarrow> (\<exists>s. get_session st j = Some s \<and> sn_routing_key s = k)" for k j
      using assms by (simp add: sessions_wf_def)
    have "map_of (by_routing_key st) (sn_routing_key s) = Some i"
      using key Some by blast
    then have uniq: "j = i" if "get_session st j = Some x" "sn_routing_key x = sn_routing_key s" for x
      using key that by (metis option.inject)
    show ?thesis
    proof (cases "k = sn_routing_key s")
      case True
      then show ?thesis
        using uniq by (auto simp: get routing)
    next
      case False
      then show ?thesis
        using key [of k j] Some by (simp add: get routing)
    qed
  qed
  moreover have "get_session st' j = Some x \<Longrightarrow> sn_id x = j" for j x
    using assms by (auto simp: get sessions_wf_def split: if_splits)
  ultimately show ?thesis
    unfolding sessions_wf_def st'_def [symmetric] by blast
qed (simp add: close_session_def assms)

lemma new_session_store_wf: "sessions_wf new_session_store"
  by (simp add: sessions_wf_def new_session_store_def get_session_def channel_ids_def)

lemma session_step_wf: "sessions_wf st \<Longrightarrow> fresh_op x st \<Longrightarrow> sessions_wf (session_step x st)"
  by (cases x) (auto simp: update_session_context_def set_session_context_def add_to_history_def touch_session_def
      close_all_sessions_def new_session_store_wf intro: find_or_create_wf close_session_wf intro!: update_session_wf)

text \<open>
  After every sequence of operations the indices say exactly which sessions there are: a routing key leads to
  the one session that has it, and a channel lists each of its sessions once.\<close>

theorem session_indices_exact:
  assumes "fresh_ops xs new_session_store"
  shows "sessions_wf (fold session_step xs new_session_store)"
proof -
  have "sessions_wf st \<Longrightarrow> fresh_ops xs st \<Longrightarrow> sessions_wf (fold session_step xs st)" for st
    by (induction xs arbitrary: st) (auto intro: session_step_wf)
  then show ?thesis
    using assms new_session_store_wf by blast
qed

definition no_options :: find_session_options where
  "no_options = \<lparr>fs_session_id = None, fs_routing_key = None, fs_account_id = None\<rparr>"

theorem session_indices_exact_witness:
  "sessions_wf (fold session_step
     [FindOrCreate ''s1'' 1 ''web'' no_options, FindOrCreate ''s2'' 2 ''web'' (no_options\<lparr>fs_routing_key := Some ''k''\<rparr>),
      AddHistory 3 ''s1'' JNull, Close ''s1'', FindOrCreate ''s3'' 4 ''cli'' no_options] new_session_store)"
  by (rule session_indices_exact) code_simp


section \<open>A session id the store does not know\<close>

text \<open>
  A message that names a session the store does not have gets a new session under another id each time, and
  what is added to the history of the named session is lost.\<close>

theorem unknown_session_multiplies:
  assumes "c \<notin> set ids" "distinct ids"
  shows "let st = fold (\<lambda>i st. snd (add_to_history now c m (snd (find_or_create_session i now channel
             (no_options\<lparr>fs_session_id := Some c\<rparr>) st)))) ids new_session_store
         in session_count st = length ids \<and> get_history st c = []"
proof -
  define step where "step i st = snd (add_to_history now c m (snd (find_or_create_session i now channel
     (no_options\<lparr>fs_session_id := Some c\<rparr>) st)))" for i st
  have "im_keys (sessions (fold step ids st)) = im_keys (sessions st) @ ids"
    if "c \<notin> set (im_keys (sessions st))" "set ids \<inter> set (im_keys (sessions st)) = {}" for st
    using that assms
  proof (induction ids arbitrary: st)
    case (Cons i ids)
    have none: "get_session st c = None"
      using Cons.prems(1) by (simp add: get_session_def map_of_eq_None_iff)
    then have find: "find_session (no_options\<lparr>fs_session_id := Some c\<rparr>) st = None"
      by (simp add: find_session_def no_options_def)
    then have "step i st = snd (add_to_history now c m (snd (create_session i now channel
        \<lparr>sc_id = None, sc_routing_key = None, sc_context = None, sc_metadata = None, sc_account_id = None\<rparr> st)))"
      by (simp add: step_def find_or_create_session_def) (simp add: no_options_def)
    then have keys: "im_keys (sessions (step i st)) = im_keys (sessions st) @ [i]"
      using Cons.prems none
      by (auto simp: create_session_def Let_def add_to_history_def update_session_def get_session_def im.get_ins update_im_keys)
    have "im_keys (sessions (fold step ids (step i st))) = im_keys (sessions (step i st)) @ ids"
      using Cons.prems by (intro Cons.IH) (auto simp: keys)
    then show ?case
      by (simp add: keys)
  qed simp
  from this [of new_session_store] have keys: "im_keys (sessions (fold step ids new_session_store)) = ids"
    by (simp add: new_session_store_def)
  then have "get_session (fold step ids new_session_store) c = None"
    using assms(1) unfolding get_session_def by (metis list.set_map map_of_eq_None_iff)
  moreover have "session_count (fold step ids new_session_store) = length ids"
    using keys unfolding session_count_def by (metis length_map)
  ultimately show ?thesis
    by (simp add: get_history_def step_def [abs_def])
qed

theorem unknown_session_multiplies_witness:
  "let st = fold (\<lambda>i st. snd (add_to_history 0 ''chat'' JNull (snd (find_or_create_session i 0 ''web''
             (no_options\<lparr>fs_session_id := Some ''chat''\<rparr>) st)))) [''u1'', ''u2'', ''u3''] new_session_store
   in session_count st = length [''u1'', ''u2'', ''u3''] \<and> get_history st ''chat'' = []"
  by (rule unknown_session_multiplies) simp_all
end
