(* ===== verification/Context_Manager.thy ===== *)
theory Context_Manager
  imports Strings
begin

text \<open>
  The context manager (\<open>context/manager.rs\<close>): values by key with counters, snapshots that can be restored, the
  history of a session under a key made from its id; and the key patterns of \<open>context/utils.rs\<close>.  Fresh ids
  and the time are arguments.
\<close>

section \<open>State\<close>

record context_snapshot =
  cs_id :: string
  cs_key :: string
  cs_value :: json
  cs_source_tier :: string
  cs_timestamp :: nat

record context_stats =
  cx_reads :: nat
  cx_writes :: nat
  cx_deletes :: nat
  cx_touches :: nat
  cx_promotions :: nat
  cx_demotions :: nat
  cx_gc_runs :: nat
  cx_snapshots :: nat
  cx_entries :: nat

definition zero_context_stats :: context_stats where
  "zero_context_stats = \<lparr>cx_reads = 0, cx_writes = 0, cx_deletes = 0, cx_touches = 0, cx_promotions = 0,
     cx_demotions = 0, cx_gc_runs = 0, cx_snapshots = 0, cx_entries = 0\<rparr>"

record manager_status =
  ms_id :: string
  ms_status :: string
  ms_stats :: context_stats

definition max_snapshots :: nat where "max_snapshots = 500"

definition snapshot_max_age :: nat where "snapshot_max_age = 3600000"

record context_manager =
  xm_id :: string
  xm_contexts :: "(string, json) imap"
  xm_snapshots :: "(string, context_snapshot) imap"
  xm_stats :: context_stats
  xm_gc_running :: bool

definition new_context_manager :: "string \<Rightarrow> bool option \<Rightarrow> context_manager" where
  "new_context_manager fresh gc =
     \<lparr>xm_id = fresh, xm_contexts = [], xm_snapshots = [], xm_stats = zero_context_stats, xm_gc_running = unwrap_or True gc\<rparr>"


section \<open>Values\<close>

abbreviation bump :: "(context_stats \<Rightarrow> context_stats) \<Rightarrow> context_manager \<Rightarrow> context_manager" where
  "bump f s \<equiv> s\<lparr>xm_stats := f (xm_stats s)\<rparr>"

definition get_context :: "string \<Rightarrow> context_manager \<Rightarrow> json option \<times> context_manager" where
  "get_context k s =
     (case map_of (xm_contexts s) k of
        None \<Rightarrow> (None, s)
      | Some v \<Rightarrow> (Some v, bump (\<lambda>c. c\<lparr>cx_reads := cx_reads c + 1\<rparr>) s))"

definition set_context :: "string \<Rightarrow> json \<Rightarrow> context_manager \<Rightarrow> context_manager" where
  "set_context k v s =
     (let m = im_insert k v (xm_contexts s)
      in bump (\<lambda>c. c\<lparr>cx_writes := cx_writes c + 1, cx_entries := length m\<rparr>) (s\<lparr>xm_contexts := m\<rparr>))"

definition delete_context :: "string \<Rightarrow> context_manager \<Rightarrow> bool \<times> context_manager" where
  "delete_context k s =
     (case map_of (xm_contexts s) k of
        None \<Rightarrow> (False, s)
      | Some v \<Rightarrow>
          (let m = im_remove k (xm_contexts s)
           in (True, bump (\<lambda>c. c\<lparr>cx_deletes := cx_deletes c + 1, cx_entries := length m\<rparr>) (s\<lparr>xm_contexts := m\<rparr>))))"

definition get_or_create :: "string \<Rightarrow> json \<Rightarrow> context_manager \<Rightarrow> json \<times> context_manager" where
  "get_or_create k d s =
     (case get_context k s of
        (Some v, s1) \<Rightarrow> (v, s1)
      | (None, s1) \<Rightarrow> (d, set_context k d s1))"

definition list_keys :: "string \<Rightarrow> context_manager \<Rightarrow> string list" where
  "list_keys pattern s =
     (let p = unwrap_or pattern (strip_suffix ''*'' pattern) in filter (\<lambda>k. starts_with k p) (im_keys (xm_contexts s)))"


section \<open>Snapshots\<close>

definition snapshot_expired :: "nat \<Rightarrow> context_snapshot \<Rightarrow> bool" where
  "snapshot_expired now x \<longleftrightarrow> snapshot_max_age \<le> saturating_sub now (cs_timestamp x)"

definition make_room :: "nat \<Rightarrow> (string, context_snapshot) imap \<Rightarrow> (string, context_snapshot) imap" where
  "make_room now m =
     (if length m < max_snapshots then m
      else
        (let expired = map fst (filter (\<lambda>(k, x). snapshot_expired now x) m) in
         if expired \<noteq> [] then fold im_remove expired m
         else (case m of [] \<Rightarrow> m | (k, x) # rest \<Rightarrow> im_remove k m)))"

definition take_snapshot ::
  "string \<Rightarrow> nat \<Rightarrow> string \<Rightarrow> context_manager \<Rightarrow> context_snapshot option \<times> context_manager" where
  "take_snapshot fresh now k s =
     (case get_context k s of
        (None, s1) \<Rightarrow> (None, s1)
      | (Some v, s1) \<Rightarrow>
          (let x = \<lparr>cs_id = fresh, cs_key = k, cs_value = v, cs_source_tier = ''l1'', cs_timestamp = now\<rparr>;
               m = im_insert fresh x (make_room now (xm_snapshots s1))
           in (Some x, bump (\<lambda>c. c\<lparr>cx_snapshots := length m\<rparr>) (s1\<lparr>xm_snapshots := m\<rparr>))))"

definition restore_snapshot :: "string \<Rightarrow> context_manager \<Rightarrow> context_snapshot option \<times> context_manager" where
  "restore_snapshot i s =
     (case map_of (xm_snapshots s) i of
        None \<Rightarrow> (None, s)
      | Some x \<Rightarrow> (Some x, set_context (cs_key x) (cs_value x) s))"

definition gc_old_snapshots :: "nat \<Rightarrow> context_manager \<Rightarrow> nat \<times> context_manager" where
  "gc_old_snapshots now s =
     (let m = filter (\<lambda>(k, x). \<not> snapshot_expired now x) (xm_snapshots s); n = length (xm_snapshots s) - length m
      in (n, (if 0 < n then bump (\<lambda>c. c\<lparr>cx_gc_runs := cx_gc_runs c + 1, cx_snapshots := length m\<rparr>) else id)
             (s\<lparr>xm_snapshots := m\<rparr>)))"


section \<open>Sessions\<close>

definition history_key :: "string \<Rightarrow> string" where
  "history_key i = ''session:'' @ i @ '':history''"

definition add_to_session_history :: "string \<Rightarrow> json \<Rightarrow> context_manager \<Rightarrow> context_manager" where
  "add_to_session_history i e s =
     (case get_context (history_key i) s of
        (v, s1) \<Rightarrow>
          (let xs = (case v of Some (JArray xs) \<Rightarrow> xs | _ \<Rightarrow> []) in set_context (history_key i) (JArray (xs @ [e])) s1))"

definition get_session_history :: "string \<Rightarrow> context_manager \<Rightarrow> json list \<times> context_manager" where
  "get_session_history i s =
     (case get_context (history_key i) s of (v, s1) \<Rightarrow> (unwrap_or [] (Option.bind v as_array), s1))"

definition clear_session_context :: "string \<Rightarrow> context_manager \<Rightarrow> context_manager" where
  "clear_session_context i s =
     fold (\<lambda>k s. snd (delete_context k s)) (list_keys (''session:'' @ i @ ''*'') s) s"

definition close_manager :: "context_manager \<Rightarrow> context_manager" where
  "close_manager s =
     bump (\<lambda>c. c\<lparr>cx_entries := 0, cx_snapshots := 0\<rparr>)
       (s\<lparr>xm_gc_running := False, xm_contexts := [], xm_snapshots := []\<rparr>)"

definition manager_status :: "context_manager \<Rightarrow> manager_status" where
  "manager_status s =
     \<lparr>ms_id = xm_id s, ms_status = (if xm_gc_running s then ''running'' else ''stopped''),
      ms_stats = (xm_stats s)\<lparr>cx_entries := length (xm_contexts s), cx_snapshots := length (xm_snapshots s)\<rparr>\<rparr>"


section \<open>Key patterns\<close>

fun split_colon :: "string \<Rightarrow> string list" where
  "split_colon [] = [[]]"
| "split_colon (c # s) =
     (if c = CHR '':'' then [] # split_colon s else (case split_colon s of [] \<Rightarrow> [[c]] | p # ps \<Rightarrow> (c # p) # ps))"

definition key_parts :: "string \<Rightarrow> string list" where "key_parts = split_colon"

definition key_prefix :: "string \<Rightarrow> string option" where
  "key_prefix k =
     (case split_colon k of [] \<Rightarrow> None | p # ps \<Rightarrow> if p \<noteq> [] \<and> CHR '':'' \<in> set k then Some p else None)"

function matches_pattern :: "string \<Rightarrow> string \<Rightarrow> bool" where
  "matches_pattern k [] \<longleftrightarrow> k = []"
| "matches_pattern k (p # ps) \<longleftrightarrow>
     (if p = CHR ''*'' then
        matches_pattern k ps \<or> (case k of [] \<Rightarrow> False | c # cs \<Rightarrow> matches_pattern cs (p # ps))
      else (case k of [] \<Rightarrow> False | c # cs \<Rightarrow> (p = CHR ''?'' \<or> p = c) \<and> matches_pattern cs ps))"
  by pat_completeness auto
termination
  by (relation "measure (\<lambda>(k, p). length k + length p)") auto

datatype context_type = SessionContext | TaskContext | AgentContext | CacheContext | UnknownContext

definition context_type :: "string \<Rightarrow> context_type" where
  "context_type k =
     (case key_prefix k of
        None \<Rightarrow> UnknownContext
      | Some p \<Rightarrow>
          if p = ''session'' then SessionContext else if p = ''task'' then TaskContext
          else if p = ''agent'' then AgentContext else if p = ''cache'' then CacheContext else UnknownContext)"


section \<open>What the manager promises\<close>

lemma contexts_bump [simp]: "xm_contexts (bump f s) = xm_contexts s"
  by simp

lemma contexts_get [simp]: "xm_contexts (snd (get_context k s)) = xm_contexts s" "fst (get_context k s) = map_of (xm_contexts s) k"
  by (simp_all add: get_context_def split: option.split)

lemma contexts_set [simp]: "map_of (xm_contexts (set_context k v s)) = (map_of (xm_contexts s))(k \<mapsto> v)"
  by (simp add: set_context_def Let_def im.get_ins)

lemma contexts_delete [simp]: "map_of (xm_contexts (snd (delete_context k s))) = (map_of (xm_contexts s))(k := None)"
  by (auto simp: delete_context_def Let_def im.get_del fun_eq_iff split: option.split)

definition history_list :: "context_manager \<Rightarrow> string \<Rightarrow> json list" where
  "history_list s i = fst (get_session_history i s)"

lemma history_list_alt:
  "history_list s i = (case map_of (xm_contexts s) (history_key i) of Some (JArray xs) \<Rightarrow> xs | _ \<Rightarrow> [])"
  by (auto simp: history_list_def get_session_history_def get_context_def split: option.split json.split)

lemma history_key_inject [simp]: "history_key a = history_key b \<longleftrightarrow> a = b"
  by (simp add: history_key_def)

lemma history_list_add: "history_list (add_to_session_history i e s) j = history_list s j @ (if j = i then [e] else [])"
  by (auto simp: history_list_alt add_to_session_history_def get_context_def Let_def split: option.split json.split)

text \<open>
  The history of a session is what was added to it, in order, whatever was there before under other keys.\<close>

theorem session_histories_kept:
  "history_list (fold (\<lambda>(i, e). add_to_session_history i e) es s) j
     = history_list s j @ map snd (filter (\<lambda>(i, e). i = j) es)"
  by (induction es arbitrary: s) (auto simp: history_list_add)

text \<open>
  Clearing a session deletes every key that begins with its id, so also the histories of all sessions whose id
  begins with the same characters.\<close>

theorem clear_reaches_longer_ids:
  "history_list (clear_session_context i s) (i @ rest) = []"
proof -
  have fold: "map_of (xm_contexts (fold (\<lambda>k s. snd (delete_context k s)) ks s)) k
      = (if k \<in> set ks then None else map_of (xm_contexts s) k)" for ks k s
    by (induction ks arbitrary: s) auto
  have "strip_suffix ''*'' (''session:'' @ i @ ''*'') = Some (''session:'' @ i)"
    by (simp add: strip_suffix_def)
  then have "list_keys (''session:'' @ i @ ''*'') s = filter (\<lambda>k. starts_with k (''session:'' @ i)) (im_keys (xm_contexts s))"
    by (simp add: list_keys_def)
  moreover have "starts_with (history_key (i @ rest)) (''session:'' @ i)"
    by (simp add: starts_with_def history_key_def)
  ultimately have "map_of (xm_contexts (clear_session_context i s)) (history_key (i @ rest)) = None"
    unfolding clear_session_context_def fold by (auto simp: map_of_eq_None_iff)
  then show ?thesis
    by (simp add: history_list_alt)
qed

text \<open>\<open>*\<close> stands for any characters, \<open>?\<close> for one, everything else for itself.\<close>

theorem pattern_star: "matches_pattern k (''*'' @ p) \<longleftrightarrow> (\<exists>u v. k = u @ v \<and> matches_pattern v p)"
proof (induction k)
  case Nil
  then show ?case
    by simp
next
  case (Cons c k)
  show ?case
  proof
    assume "matches_pattern (c # k) (''*'' @ p)"
    then consider "matches_pattern (c # k) p" | "matches_pattern k (''*'' @ p)"
      by auto
    then show "\<exists>u v. c # k = u @ v \<and> matches_pattern v p"
      using Cons.IH by cases (metis append_Nil, metis append_Cons)
  next
    assume "\<exists>u v. c # k = u @ v \<and> matches_pattern v p"
    then obtain u v where uv: "c # k = u @ v" "matches_pattern v p"
      by blast
    then show "matches_pattern (c # k) (''*'' @ p)"
      using Cons.IH by (cases u) auto
  qed
qed
end
