(* ===== verification/Context_Storage.thy ===== *)
theory Context_Storage
  imports Strings
begin

text \<open>
  The tiered storage of contexts (\<open>context/storage.rs\<close>): a memory tier with LRU eviction, a file tier with one
  JSON file per key, and their combination with promotion and demotion.  Each operation is taken as one step
  that reads the clock once (\<open>now\<close>); the files are a map from names to contents of a type \<open>'f\<close>, printed and
  parsed by \<open>io_print\<close> and \<open>io_parse\<close>, and a write succeeds or not (\<open>ok\<close>).
\<close>

section \<open>Entries\<close>

datatype storage_tier = L1 | L2

record context_entry =
  en_key :: string
  en_value :: json
  en_tier :: storage_tier
  en_created :: nat
  en_accessed :: nat
  en_count :: nat
  en_size :: nat
  en_ttl :: "nat option"

definition entry_expired :: "nat \<Rightarrow> context_entry \<Rightarrow> bool" where
  "entry_expired now e = (case en_ttl e of None \<Rightarrow> False | Some ttl \<Rightarrow> ttl < saturating_sub now (en_created e))"

fun estimate_size :: "json \<Rightarrow> nat" where
  "estimate_size JNull = 0"
| "estimate_size (JBool b) = 1"
| "estimate_size (JNumber n) = 8"
| "estimate_size (JString s) = length s"
| "estimate_size (JArray xs) = sum_list (map estimate_size xs)"
| "estimate_size (JObject kvs) = sum_list (map (\<lambda>(k, v). length k + estimate_size v) kvs)"

definition fresh_entry :: "nat \<Rightarrow> string \<Rightarrow> json \<Rightarrow> storage_tier \<Rightarrow> nat option \<Rightarrow> context_entry" where
  "fresh_entry now k v t ttl = \<lparr>en_key = k, en_value = v, en_tier = t, en_created = now, en_accessed = now,
     en_count = 0, en_size = estimate_size v, en_ttl = ttl\<rparr>"


section \<open>The memory tier\<close>

record memory_storage =
  mt_entries :: "(string, context_entry) imap"
  mt_order :: "string list"
  mt_max :: nat

definition new_memory :: "nat option \<Rightarrow> memory_storage" where
  "new_memory n = \<lparr>mt_entries = [], mt_order = [], mt_max = unwrap_or 10000 n\<rparr>"

definition forget_key :: "string \<Rightarrow> string list \<Rightarrow> string list" where
  "forget_key k ks = filter (\<lambda>x. x \<noteq> k) ks"

definition touch_lru :: "string \<Rightarrow> memory_storage \<Rightarrow> memory_storage" where
  "touch_lru k m = m\<lparr>mt_order := forget_key k (mt_order m) @ [k]\<rparr>"

definition evict_lru :: "memory_storage \<Rightarrow> memory_storage" where
  "evict_lru m =
     (case mt_order m of
        [] \<Rightarrow> m
      | k # ks \<Rightarrow> m\<lparr>mt_entries := im_remove k (mt_entries m), mt_order := ks\<rparr>)"

definition drop_entry :: "string \<Rightarrow> memory_storage \<Rightarrow> memory_storage" where
  "drop_entry k m = m\<lparr>mt_entries := im_remove k (mt_entries m), mt_order := forget_key k (mt_order m)\<rparr>"

definition l1_get :: "nat \<Rightarrow> string \<Rightarrow> memory_storage \<Rightarrow> context_entry option \<times> memory_storage" where
  "l1_get now k m =
     (case map_of (mt_entries m) k of
        None \<Rightarrow> (None, m)
      | Some e \<Rightarrow>
          if entry_expired now e then (None, drop_entry k m)
          else
            (let e' = e\<lparr>en_count := en_count e + 1, en_accessed := now\<rparr>
             in (Some e', touch_lru k (m\<lparr>mt_entries := im_insert k e' (mt_entries m)\<rparr>))))"

definition l1_set :: "nat \<Rightarrow> string \<Rightarrow> json \<Rightarrow> nat option \<Rightarrow> memory_storage \<Rightarrow> context_entry \<times> memory_storage" where
  "l1_set now k v ttl m =
     (let m1 = (if mt_max m \<le> length (mt_entries m) \<and> map_of (mt_entries m) k = None then evict_lru m else m);
          e = fresh_entry now k v L1 ttl
      in (e, touch_lru k (m1\<lparr>mt_entries := im_insert k e (mt_entries m1)\<rparr>)))"

definition l1_delete :: "string \<Rightarrow> memory_storage \<Rightarrow> bool \<times> memory_storage" where
  "l1_delete k m = (if map_of (mt_entries m) k = None then (False, m) else (True, drop_entry k m))"

definition l1_has :: "nat \<Rightarrow> string \<Rightarrow> memory_storage \<Rightarrow> bool" where
  "l1_has now k m = (case map_of (mt_entries m) k of None \<Rightarrow> False | Some e \<Rightarrow> \<not> entry_expired now e)"

definition l1_keys :: "string \<Rightarrow> memory_storage \<Rightarrow> string list" where
  "l1_keys p m = filter (\<lambda>k. starts_with k p) (im_keys (mt_entries m))"

definition l1_clear :: "memory_storage \<Rightarrow> memory_storage" where
  "l1_clear m = m\<lparr>mt_entries := [], mt_order := []\<rparr>"


section \<open>The file tier\<close>

record 'f json_io =
  io_print :: "json \<Rightarrow> 'f"
  io_parse :: "'f \<Rightarrow> string + json"

record 'f file_storage =
  fl_path :: string
  fl_files :: "(string, 'f) imap"
  fl_cache :: "(string, context_entry) imap"

definition new_file_storage :: "string \<Rightarrow> 'f file_storage" where
  "new_file_storage p = \<lparr>fl_path = p, fl_files = [], fl_cache = []\<rparr>"

definition key_to_filename :: "string \<Rightarrow> string" where
  "key_to_filename k = str_replace '':'' ''_COLON_'' (str_replace [CHR 0x5C] ''_BSLASH_'' (str_replace ''/'' ''_SLASH_'' k))"

definition filename_to_key :: "string \<Rightarrow> string" where
  "filename_to_key f = str_replace ''_COLON_'' '':'' (str_replace ''_BSLASH_'' [CHR 0x5C] (str_replace ''_SLASH_'' ''/'' f))"

definition file_name :: "string \<Rightarrow> string" where
  "file_name k = key_to_filename k @ ''.json''"

definition stored_json :: "nat \<Rightarrow> string \<Rightarrow> json \<Rightarrow> nat option \<Rightarrow> json" where
  "stored_json now k v ttl = JObject
     [(''key'', JString k), (''value'', v), (''created_at_ms'', JNumber (int now)), (''access_count'', JNumber 0),
      (''size'', JNumber (int (estimate_size v))), (''ttl_ms'', case ttl of None \<Rightarrow> JNull | Some n \<Rightarrow> JNumber (int n))]"

definition json_nat :: "string \<Rightarrow> json \<Rightarrow> nat option" where
  "json_nat k j = Option.bind (json_get k j) as_u64"

definition decode_entry :: "nat \<Rightarrow> json \<Rightarrow> context_entry option" where
  "decode_entry now j =
     Option.bind (json_str ''key'' j) (\<lambda>k. Option.bind (json_get ''value'' j) (\<lambda>v.
       Option.bind (json_nat ''created_at_ms'' j) (\<lambda>created. Option.bind (json_get ''access_count'' j) (\<lambda>c.
         Option.bind (json_nat ''size'' j) (\<lambda>sz.
           Some \<lparr>en_key = k, en_value = v, en_tier = L2, en_created = created, en_accessed = now,
                 en_count = unwrap_or 0 (as_u64 c) + 1, en_size = sz, en_ttl = json_nat ''ttl_ms'' j\<rparr>)))))"

definition read_entry :: "'f json_io \<Rightarrow> nat \<Rightarrow> string \<Rightarrow> 'f file_storage \<Rightarrow> context_entry option" where
  "read_entry io now k f =
     (case map_of (fl_files f) (file_name k) of
        None \<Rightarrow> None
      | Some c \<Rightarrow> (case io_parse io c of Inl err \<Rightarrow> None | Inr j \<Rightarrow> decode_entry now j))"

definition remove_file :: "string \<Rightarrow> 'f file_storage \<Rightarrow> 'f file_storage" where
  "remove_file k f = f\<lparr>fl_files := im_remove (file_name k) (fl_files f)\<rparr>"

definition l2_get :: "'f json_io \<Rightarrow> nat \<Rightarrow> string \<Rightarrow> 'f file_storage \<Rightarrow> context_entry option \<times> 'f file_storage" where
  "l2_get io now k f =
     (case read_entry io now k f of
        None \<Rightarrow> (None, f)
      | Some e \<Rightarrow>
          if entry_expired now e then (None, remove_file k f)
          else (Some e, f\<lparr>fl_cache := im_insert k e (fl_cache f)\<rparr>))"

definition l2_set ::
  "'f json_io \<Rightarrow> bool \<Rightarrow> nat \<Rightarrow> string \<Rightarrow> json \<Rightarrow> nat option \<Rightarrow> 'f file_storage \<Rightarrow> context_entry \<times> 'f file_storage" where
  "l2_set io ok now k v ttl f =
     (let e = fresh_entry now k v L2 ttl;
          files = (if ok then im_insert (file_name k) (io_print io (stored_json now k v ttl)) (fl_files f) else fl_files f)
      in (e, f\<lparr>fl_files := files, fl_cache := im_insert k e (fl_cache f)\<rparr>))"

definition l2_delete :: "string \<Rightarrow> 'f file_storage \<Rightarrow> bool \<times> 'f file_storage" where
  "l2_delete k f =
     (map_of (fl_files f) (file_name k) \<noteq> None, (remove_file k f)\<lparr>fl_cache := im_remove k (fl_cache f)\<rparr>)"

definition stored_expired :: "nat \<Rightarrow> json \<Rightarrow> bool" where
  "stored_expired now j =
     (case (json_nat ''ttl_ms'' j, json_nat ''created_at_ms'' j) of
        (Some ttl, Some created) \<Rightarrow> ttl < saturating_sub now created
      | _ \<Rightarrow> False)"

definition l2_has :: "'f json_io \<Rightarrow> nat \<Rightarrow> string \<Rightarrow> 'f file_storage \<Rightarrow> bool \<times> 'f file_storage" where
  "l2_has io now k f =
     (case map_of (fl_files f) (file_name k) of
        None \<Rightarrow> (False, f)
      | Some c \<Rightarrow>
          (case io_parse io c of
             Inl err \<Rightarrow> (True, f)
           | Inr j \<Rightarrow> if stored_expired now j then (False, remove_file k f) else (True, f)))"

definition l2_keys :: "string \<Rightarrow> 'f file_storage \<Rightarrow> string list" where
  "l2_keys p f =
     filter (\<lambda>k. starts_with k p) (map filename_to_key (List.map_filter (strip_suffix ''.json'') (im_keys (fl_files f))))"

definition l2_clear :: "'f file_storage \<Rightarrow> 'f file_storage" where
  "l2_clear f = f\<lparr>fl_files := filter (\<lambda>(n, c). \<not> ends_with n ''.json'') (fl_files f), fl_cache := []\<rparr>"

definition l2_entry_count :: "'f file_storage \<Rightarrow> nat" where
  "l2_entry_count f = length (filter (\<lambda>n. ends_with n ''.json'') (im_keys (fl_files f)))"


section \<open>Both tiers\<close>

record 'f tiered_storage =
  td_l1 :: memory_storage
  td_l2 :: "'f file_storage option"
  td_promotion_threshold :: nat
  td_demotion_ms :: nat
  td_promotions :: nat
  td_demotions :: nat

record tiered_config =
  tc_l1_max :: "nat option"
  tc_l2_path :: "string option"
  tc_enable_l2 :: "bool option"
  tc_promotion_threshold :: "nat option"
  tc_demotion_ms :: "nat option"

definition default_tiered_config :: tiered_config where
  "default_tiered_config = \<lparr>tc_l1_max = None, tc_l2_path = None, tc_enable_l2 = None, tc_promotion_threshold = None,
     tc_demotion_ms = None\<rparr>"

definition new_tiered :: "tiered_config \<Rightarrow> 'f tiered_storage" where
  "new_tiered c =
     \<lparr>td_l1 = new_memory (tc_l1_max c),
      td_l2 = (if unwrap_or True (tc_enable_l2 c) then Some (new_file_storage (unwrap_or ''.opencode/context'' (tc_l2_path c)))
               else None),
      td_promotion_threshold = unwrap_or 5 (tc_promotion_threshold c),
      td_demotion_ms = unwrap_or (30 * 60 * 1000) (tc_demotion_ms c), td_promotions = 0, td_demotions = 0\<rparr>"

definition tiered_get :: "'f json_io \<Rightarrow> nat \<Rightarrow> string \<Rightarrow> 'f tiered_storage \<Rightarrow> json option \<times> 'f tiered_storage" where
  "tiered_get io now k t =
     (case l1_get now k (td_l1 t) of
        (Some e, m) \<Rightarrow> (Some (en_value e), t\<lparr>td_l1 := m\<rparr>)
      | (None, m) \<Rightarrow>
          (case td_l2 t of
             None \<Rightarrow> (None, t\<lparr>td_l1 := m\<rparr>)
           | Some f \<Rightarrow>
               (case l2_get io now k f of
                  (None, f') \<Rightarrow> (None, t\<lparr>td_l1 := m, td_l2 := Some f'\<rparr>)
                | (Some e, f') \<Rightarrow>
                    if td_promotion_threshold t \<le> en_count e
                    then (Some (en_value e), t\<lparr>td_l1 := snd (l1_set now k (en_value e) (en_ttl e) m), td_l2 := Some f',
                      td_promotions := td_promotions t + 1\<rparr>)
                    else (Some (en_value e), t\<lparr>td_l1 := m, td_l2 := Some f'\<rparr>))))"

definition tiered_set ::
  "'f json_io \<Rightarrow> bool \<Rightarrow> nat \<Rightarrow> string \<Rightarrow> json \<Rightarrow> nat option \<Rightarrow> 'f tiered_storage \<Rightarrow> context_entry \<times> 'f tiered_storage" where
  "tiered_set io ok now k v ttl t =
     (case l1_set now k v ttl (td_l1 t) of
        (e, m) \<Rightarrow> (e, t\<lparr>td_l1 := m, td_l2 := map_option (\<lambda>f. snd (l2_set io ok now k v ttl f)) (td_l2 t)\<rparr>))"

definition tiered_delete :: "string \<Rightarrow> 'f tiered_storage \<Rightarrow> bool \<times> 'f tiered_storage" where
  "tiered_delete k t =
     (case l1_delete k (td_l1 t) of
        (b1, m) \<Rightarrow>
          (b1 \<or> (case td_l2 t of None \<Rightarrow> False | Some f \<Rightarrow> fst (l2_delete k f)),
           t\<lparr>td_l1 := m, td_l2 := map_option (\<lambda>f. snd (l2_delete k f)) (td_l2 t)\<rparr>))"

definition demote_one ::
  "'f json_io \<Rightarrow> bool \<Rightarrow> nat \<Rightarrow> string \<Rightarrow> nat \<times> 'f tiered_storage \<Rightarrow> nat \<times> 'f tiered_storage" where
  "demote_one io ok now k p =
     (case p of (n, t) \<Rightarrow>
       (case l1_get now k (td_l1 t) of
          (None, m) \<Rightarrow> (n, t\<lparr>td_l1 := m\<rparr>)
        | (Some e, m) \<Rightarrow>
            (n + 1, t\<lparr>td_l1 := snd (l1_delete k m),
               td_l2 := map_option (\<lambda>f. snd (l2_set io ok now k (en_value e) (en_ttl e) f)) (td_l2 t)\<rparr>)))"

definition cold_keys :: "nat \<Rightarrow> 'f tiered_storage \<Rightarrow> string list" where
  "cold_keys now t =
     map fst (filter (\<lambda>(k, e). td_demotion_ms t < saturating_sub now (en_accessed e)) (mt_entries (td_l1 t)))"

definition demote_cold_entries :: "'f json_io \<Rightarrow> bool \<Rightarrow> nat \<Rightarrow> 'f tiered_storage \<Rightarrow> nat \<times> 'f tiered_storage" where
  "demote_cold_entries io ok now t =
     (case fold (demote_one io ok now) (cold_keys now t) (0, t) of
        (n, t') \<Rightarrow> (n, t'\<lparr>td_demotions := td_demotions t' + n\<rparr>))"

definition promote :: "'f json_io \<Rightarrow> nat \<Rightarrow> string \<Rightarrow> 'f tiered_storage \<Rightarrow> bool \<times> 'f tiered_storage" where
  "promote io now k t =
     (case td_l2 t of
        None \<Rightarrow> (False, t)
      | Some f \<Rightarrow>
          (case l2_get io now k f of
             (None, f') \<Rightarrow> (False, t\<lparr>td_l2 := Some f'\<rparr>)
           | (Some e, f') \<Rightarrow>
               (True, t\<lparr>td_l1 := snd (l1_set now k (en_value e) (en_ttl e) (td_l1 t)), td_l2 := Some (snd (l2_delete k f')),
                  td_promotions := td_promotions t + 1\<rparr>)))"

definition demote :: "'f json_io \<Rightarrow> bool \<Rightarrow> nat \<Rightarrow> string \<Rightarrow> 'f tiered_storage \<Rightarrow> bool \<times> 'f tiered_storage" where
  "demote io ok now k t =
     (case td_l2 t of
        None \<Rightarrow> (False, t)
      | Some f \<Rightarrow>
          (case l1_get now k (td_l1 t) of
             (None, m) \<Rightarrow> (False, t\<lparr>td_l1 := m\<rparr>)
           | (Some e, m) \<Rightarrow>
               (True, t\<lparr>td_l1 := snd (l1_delete k m), td_l2 := Some (snd (l2_set io ok now k (en_value e) (en_ttl e) f)),
                  td_demotions := td_demotions t + 1\<rparr>)))"

definition get_tier :: "'f json_io \<Rightarrow> nat \<Rightarrow> string \<Rightarrow> 'f tiered_storage \<Rightarrow> storage_tier option \<times> 'f tiered_storage" where
  "get_tier io now k t =
     (if l1_has now k (td_l1 t) then (Some L1, t)
      else
        (case td_l2 t of
           None \<Rightarrow> (None, t)
         | Some f \<Rightarrow> (case l2_has io now k f of (b, f') \<Rightarrow> (if b then Some L2 else None, t\<lparr>td_l2 := Some f'\<rparr>))))"

definition should_promote :: "'f tiered_storage \<Rightarrow> context_entry \<Rightarrow> bool" where
  "should_promote t e \<longleftrightarrow> td_promotion_threshold t \<le> en_count e"

definition should_demote :: "nat \<Rightarrow> 'f tiered_storage \<Rightarrow> context_entry \<Rightarrow> bool" where
  "should_demote now t e \<longleftrightarrow> td_demotion_ms t < saturating_sub now (en_accessed e)"
end
