(* ===== verification/Context_Storage_Props.thy ===== *)
theory Context_Storage_Props
  imports Context_Storage
begin

text \<open>
  What the tiered storage promises: without expiry it answers as one map, as long as the files of its keys
  differ and can be written; where it does not keep its word: hot entries are never promoted by reading, an
  entry that was promoted by hand can be lost, demotion restarts the time to live, and two keys can share a
  file.
\<close>

section \<open>The tiers as maps\<close>

definition l1v :: "memory_storage \<Rightarrow> string \<Rightarrow> json option" where
  "l1v m k = map_option en_value (map_of (mt_entries m) k)"

definition no_ttl :: "memory_storage \<Rightarrow> bool" where
  "no_ttl m \<longleftrightarrow> (\<forall>k e. map_of (mt_entries m) k = Some e \<longrightarrow> en_ttl e = None)"

lemma not_expired [simp]: "en_ttl e = None \<Longrightarrow> \<not> entry_expired now e"
  by (simp add: entry_expired_def)

lemma l1_get_hit:
  assumes "no_ttl m" "l1_get now k m = (r, m')"
  shows "map_option en_value r = l1v m k" "l1v m' = l1v m" "no_ttl m'" "r = Some e \<Longrightarrow> en_ttl e = None"
  using assms
  by (auto simp: l1_get_def l1v_def no_ttl_def touch_lru_def Let_def im.get_ins fun_eq_iff split: option.splits if_splits)

lemma l1_set_le:
  assumes "no_ttl m" "l1_set now k v None m = (e, m')"
  shows "l1v m' \<subseteq>\<^sub>m (l1v m)(k \<mapsto> v)" "no_ttl m'"
proof -
  define m1 where "m1 = (if mt_max m \<le> length (mt_entries m) \<and> map_of (mt_entries m) k = None then evict_lru m else m)"
  have m1: "map_of (mt_entries m1) \<subseteq>\<^sub>m map_of (mt_entries m)"
    by (auto simp: m1_def evict_lru_def map_le_def im.get_del split: list.split)
  have m': "m' = touch_lru k (m1\<lparr>mt_entries := im_insert k (fresh_entry now k v L1 None) (mt_entries m1)\<rparr>)"
    using arg_cong [OF assms(2), of snd] by (simp only: l1_set_def Let_def m1_def snd_conv)
  show "l1v m' \<subseteq>\<^sub>m (l1v m)(k \<mapsto> v)"
    using m1 by (auto simp: m' touch_lru_def l1v_def fresh_entry_def im.get_ins map_le_def dom_def)
  have "en_ttl x = None" if "map_of (mt_entries m1) j = Some x" for j x
    using that m1 assms(1) by (metis domI map_le_def no_ttl_def)
  then show "no_ttl m'"
    by (auto simp: m' touch_lru_def no_ttl_def fresh_entry_def im.get_ins split: if_splits)
qed

lemma l1_delete_gone:
  assumes "no_ttl m"
  shows "l1v (snd (l1_delete k m)) = (l1v m)(k := None)" "no_ttl (snd (l1_delete k m))"
  using assms
  by (auto simp: l1_delete_def drop_entry_def l1v_def no_ttl_def im.get_del fun_eq_iff split: if_splits)

definition l2v :: "'f json_io \<Rightarrow> 'f file_storage \<Rightarrow> string \<Rightarrow> json option" where
  "l2v io f k = map_option en_value (read_entry io 0 k f)"

definition files_no_ttl :: "'f json_io \<Rightarrow> 'f file_storage \<Rightarrow> bool" where
  "files_no_ttl io f \<longleftrightarrow> (\<forall>now k e. read_entry io now k f = Some e \<longrightarrow> en_ttl e = None)"

lemma decode_now: "map_option en_value (decode_entry now j) = map_option en_value (decode_entry now' j)"
  by (auto simp: decode_entry_def bind_eq_None_conv split: Option.bind_splits)

lemma read_value: "read_entry io now k f = Some e \<Longrightarrow> l2v io f k = Some (en_value e)"
proof -
  assume "read_entry io now k f = Some e"
  moreover have "map_option en_value (read_entry io now k f) = map_option en_value (read_entry io 0 k f)"
    unfolding read_entry_def by (auto split: option.split sum.split intro: decode_now)
  ultimately show ?thesis
    by (simp add: l2v_def)
qed

lemma read_none: "read_entry io now k f = None \<Longrightarrow> l2v io f k = None"
proof -
  assume "read_entry io now k f = None"
  moreover have "map_option en_value (read_entry io now k f) = map_option en_value (read_entry io 0 k f)"
    unfolding read_entry_def by (auto split: option.split sum.split intro: decode_now)
  ultimately show ?thesis
    by (simp add: l2v_def)
qed

lemma read_cache [simp]: "read_entry io now k (f\<lparr>fl_cache := c\<rparr>) = read_entry io now k f"
  by (simp add: read_entry_def)

lemma l2v_cache [simp]: "l2v io (f\<lparr>fl_cache := c\<rparr>) = l2v io f" "files_no_ttl io (f\<lparr>fl_cache := c\<rparr>) = files_no_ttl io f"
  by (simp_all add: l2v_def fun_eq_iff files_no_ttl_def)

lemma l2_get_hit:
  assumes "files_no_ttl io f" "l2_get io now k f = (r, f')"
  shows "map_option en_value r = l2v io f k \<and> l2v io f' = l2v io f \<and> files_no_ttl io f' \<and> (\<forall>e. r = Some e \<longrightarrow> en_ttl e = None)"
proof (cases "read_entry io now k f")
  case None
  then show ?thesis
    using assms read_none [OF None] by (auto simp: l2_get_def)
next
  case (Some x)
  then have "en_ttl x = None"
    using assms(1) by (simp add: files_no_ttl_def)
  then have "r = Some x" "f' = f\<lparr>fl_cache := im_insert k x (fl_cache f)\<rparr>"
    using assms(2) Some by (simp_all add: l2_get_def)
  then show ?thesis
    using assms(1) \<open>en_ttl x = None\<close> read_value [OF Some] by simp
qed

lemma decode_stored:
  "decode_entry now (stored_json t k v ttl) =
     Some \<lparr>en_key = k, en_value = v, en_tier = L2, en_created = t, en_accessed = now, en_count = 1,
           en_size = estimate_size v, en_ttl = ttl\<rparr>"
  by (cases ttl) (simp_all add: decode_entry_def stored_json_def json_nat_def)

lemma l2_set_read:
  assumes "\<And>j. io_parse io (io_print io j) = Inr j"
  shows "read_entry io now j (snd (l2_set io True t k v ttl f)) =
     (if file_name j = file_name k
      then Some \<lparr>en_key = k, en_value = v, en_tier = L2, en_created = t, en_accessed = now, en_count = 1,
                 en_size = estimate_size v, en_ttl = ttl\<rparr>
      else read_entry io now j f)"
  by (simp add: read_entry_def l2_set_def Let_def im.get_ins assms decode_stored)

lemma l2_delete_read:
  "read_entry io now j (snd (l2_delete k f)) = (if file_name j = file_name k then None else read_entry io now j f)"
  by (simp add: read_entry_def l2_delete_def remove_file_def im.get_del)


section \<open>One map\<close>

datatype tier_op =
    TGet nat string
  | TSet bool nat string json "nat option"
  | TDelete string
  | TDemoteCold bool nat
  | TDemote bool nat string

fun tier_step :: "'f json_io \<Rightarrow> tier_op \<Rightarrow> 'f tiered_storage \<Rightarrow> json option list \<times> 'f tiered_storage" where
  "tier_step io (TGet now k) t = (case tiered_get io now k t of (r, t') \<Rightarrow> ([r], t'))"
| "tier_step io (TSet ok now k v ttl) t = ([], snd (tiered_set io ok now k v ttl t))"
| "tier_step io (TDelete k) t = ([], snd (tiered_delete k t))"
| "tier_step io (TDemoteCold ok now) t = ([], snd (demote_cold_entries io ok now t))"
| "tier_step io (TDemote ok now k) t = ([], snd (demote io ok now k t))"

fun run_tiers :: "'f json_io \<Rightarrow> tier_op list \<Rightarrow> 'f tiered_storage \<Rightarrow> json option list \<times> 'f tiered_storage" where
  "run_tiers io [] t = ([], t)"
| "run_tiers io (x # xs) t =
     (case tier_step io x t of (rs, t1) \<Rightarrow> (case run_tiers io xs t1 of (rs', t2) \<Rightarrow> (rs @ rs', t2)))"

declare run_tiers.simps(2) [simp del]

lemma run_tiers_fst [simp]:
  "fst (run_tiers io (x # xs) t) = fst (tier_step io x t) @ fst (run_tiers io xs (snd (tier_step io x t)))"
  by (simp add: run_tiers.simps(2) split: prod.split)

text \<open>The same operations on one map.\<close>

fun run_map :: "tier_op list \<Rightarrow> (string \<rightharpoonup> json) \<Rightarrow> json option list" where
  "run_map [] m = []"
| "run_map (TGet now k # xs) m = m k # run_map xs m"
| "run_map (TSet ok now k v ttl # xs) m = run_map xs (m(k \<mapsto> v))"
| "run_map (TDelete k # xs) m = run_map xs (m(k := None))"
| "run_map (TDemoteCold ok now # xs) m = run_map xs m"
| "run_map (TDemote ok now k # xs) m = run_map xs m"

text \<open>No time to live is given and no write fails.\<close>

fun plain_op :: "tier_op \<Rightarrow> bool" where
  "plain_op (TSet ok now k v ttl) \<longleftrightarrow> ok \<and> ttl = None"
| "plain_op (TDemoteCold ok now) \<longleftrightarrow> ok"
| "plain_op (TDemote ok now k) \<longleftrightarrow> ok"
| "plain_op _ \<longleftrightarrow> True"

fun op_keys :: "tier_op \<Rightarrow> string list" where
  "op_keys (TGet now k) = [k]"
| "op_keys (TSet ok now k v ttl) = [k]"
| "op_keys (TDelete k) = [k]"
| "op_keys (TDemoteCold ok now) = []"
| "op_keys (TDemote ok now k) = [k]"

definition all_keys :: "tier_op list \<Rightarrow> string list" where
  "all_keys xs = concat (map op_keys xs)"

definition tier_inv :: "'f json_io \<Rightarrow> string set \<Rightarrow> (string \<rightharpoonup> json) \<Rightarrow> 'f tiered_storage \<Rightarrow> bool" where
  "tier_inv io K m t \<longleftrightarrow>
     no_ttl (td_l1 t) \<and> l1v (td_l1 t) \<subseteq>\<^sub>m m \<and> dom m \<subseteq> K \<and>
     (\<exists>f. td_l2 t = Some f \<and> files_no_ttl io f \<and> (\<forall>k \<in> K. l2v io f k = m k))"

lemma tier_get:
  assumes "tier_inv io K m t" "k \<in> K" "tiered_get io now k t = (r, t')"
  shows "r = m k \<and> tier_inv io K m t'"
proof -
  obtain f where f: "td_l2 t = Some f" "files_no_ttl io f" "\<And>k. k \<in> K \<Longrightarrow> l2v io f k = m k"
    using assms(1) by (auto simp: tier_inv_def)
  have l1: "no_ttl (td_l1 t)" "l1v (td_l1 t) \<subseteq>\<^sub>m m" "dom m \<subseteq> K"
    using assms(1) by (auto simp: tier_inv_def)
  obtain re m1 where g1: "l1_get now k (td_l1 t) = (re, m1)"
    by fastforce
  note h1 = l1_get_hit [OF l1(1) g1]
  show ?thesis
  proof (cases re)
    case (Some e)
    then have "l1v (td_l1 t) k = Some (en_value e)"
      using h1(1) by simp
    then have "m k = Some (en_value e)"
      using l1(2) by (metis domI map_le_def)
    then show ?thesis
      using assms(3) Some g1 h1 l1 f by (auto simp: tiered_get_def tier_inv_def)
  next
    case None
    obtain r2 f' where g2: "l2_get io now k f = (r2, f')"
      by fastforce
    have h2: "map_option en_value r2 = l2v io f k" "l2v io f' = l2v io f" "files_no_ttl io f'" "\<And>e. r2 = Some e \<Longrightarrow> en_ttl e = None"
      using l2_get_hit [OF f(2) g2] by auto
    have inv: "tier_inv io K m (t\<lparr>td_l1 := m1, td_l2 := Some f'\<rparr>)"
      using h1 h2 l1 f by (simp add: tier_inv_def)
    show ?thesis
    proof (cases r2)
      case None
      then show ?thesis
        using assms(2,3) \<open>re = None\<close> g1 g2 f h2(1) inv by (auto simp: tiered_get_def)
    next
      case (Some e)
      have v: "m k = Some (en_value e)" "en_ttl e = None"
        using h2(1,4) f(3) assms(2) Some by auto
      obtain x m2 where s: "l1_set now k (en_value e) None m1 = (x, m2)"
        by fastforce
      have "l1v m2 \<subseteq>\<^sub>m (l1v m1)(k \<mapsto> en_value e)" "no_ttl m2"
        using l1_set_le [OF h1(3) s] by auto
      moreover have "(l1v m1)(k \<mapsto> en_value e) \<subseteq>\<^sub>m m"
        using l1(2) v(1) h1(2) by (auto simp: map_le_def)
      ultimately have "tier_inv io K m (t\<lparr>td_l1 := m2, td_l2 := Some f', td_promotions := n\<rparr>)" for n
        using inv map_le_trans by (auto simp: tier_inv_def)
      then show ?thesis
        using assms(3) \<open>re = None\<close> Some g1 g2 f inv v s by (auto simp: tiered_get_def split: if_splits)
    qed
  qed
qed

lemma tier_set:
  assumes "tier_inv io K m t" "k \<in> K" "inj_on file_name K" "\<And>j. io_parse io (io_print io j) = Inr j"
  shows "tier_inv io K (m(k \<mapsto> v)) (snd (tiered_set io True now k v None t))"
proof -
  obtain f where f: "td_l2 t = Some f" "files_no_ttl io f" "\<And>k. k \<in> K \<Longrightarrow> l2v io f k = m k"
    using assms(1) by (auto simp: tier_inv_def)
  have l1: "no_ttl (td_l1 t)" "l1v (td_l1 t) \<subseteq>\<^sub>m m" "dom m \<subseteq> K"
    using assms(1) by (auto simp: tier_inv_def)
  obtain e m1 where s: "l1_set now k v None (td_l1 t) = (e, m1)"
    by fastforce
  have "l1v m1 \<subseteq>\<^sub>m (l1v (td_l1 t))(k \<mapsto> v)" "no_ttl m1"
    using l1_set_le [OF l1(1) s] by auto
  moreover have "(l1v (td_l1 t))(k \<mapsto> v) \<subseteq>\<^sub>m m(k \<mapsto> v)"
    using l1(2) by (auto simp: map_le_def)
  moreover have "files_no_ttl io (snd (l2_set io True now k v None f))"
    using f(2) by (simp add: files_no_ttl_def l2_set_read [OF assms(4)])
  moreover have "l2v io (snd (l2_set io True now k v None f)) j = (m(k \<mapsto> v)) j" if "j \<in> K" for j
    using f(3) [OF that] by (simp add: l2v_def l2_set_read [OF assms(4)] inj_on_eq_iff [OF assms(3) that assms(2)])
  ultimately show ?thesis
    using l1 assms(2) f(1) s map_le_trans by (fastforce simp: tier_inv_def tiered_set_def)
qed

lemma tier_delete:
  assumes "tier_inv io K m t" "k \<in> K" "inj_on file_name K"
  shows "tier_inv io K (m(k := None)) (snd (tiered_delete k t))"
proof -
  obtain f where f: "td_l2 t = Some f" "files_no_ttl io f" "\<And>k. k \<in> K \<Longrightarrow> l2v io f k = m k"
    using assms(1) by (auto simp: tier_inv_def)
  have l1: "no_ttl (td_l1 t)" "l1v (td_l1 t) \<subseteq>\<^sub>m m" "dom m \<subseteq> K"
    using assms(1) by (auto simp: tier_inv_def)
  have "(l1v (td_l1 t))(k := None) \<subseteq>\<^sub>m m(k := None)"
    using l1(2) by (auto simp: map_le_def)
  moreover have "files_no_ttl io (snd (l2_delete k f))"
    using f(2) by (simp add: files_no_ttl_def l2_delete_read)
  moreover have "l2v io (snd (l2_delete k f)) j = (m(k := None)) j" if "j \<in> K" for j
    using f(3) [OF that] by (simp add: l2v_def l2_delete_read inj_on_eq_iff [OF assms(3) that assms(2)])
  ultimately show ?thesis
    using l1 f(1) l1_delete_gone [OF l1(1), of k]
    by (auto simp: tier_inv_def tiered_delete_def split: prod.split)
qed

text \<open>Demotion of one key: it leaves memory and stays in its file.\<close>

lemma tier_demoted:
  assumes "tier_inv io K m t" "td_l2 t = Some f" "l1_get now k (td_l1 t) = (Some e, m1)" "inj_on file_name K"
    "\<And>j. io_parse io (io_print io j) = Inr j"
  shows "tier_inv io K m (t\<lparr>td_l1 := snd (l1_delete k m1), td_l2 := Some (snd (l2_set io True now k (en_value e) (en_ttl e) f))\<rparr>)"
proof -
  have f: "files_no_ttl io f" "\<And>k. k \<in> K \<Longrightarrow> l2v io f k = m k" and l1: "no_ttl (td_l1 t)" "l1v (td_l1 t) \<subseteq>\<^sub>m m" "dom m \<subseteq> K"
    using assms(1,2) by (auto simp: tier_inv_def)
  note h1 = l1_get_hit [OF l1(1) assms(3)]
  have "l1v (td_l1 t) k = Some (en_value e)"
    using h1(1) by simp
  then have k: "m k = Some (en_value e)" "k \<in> K" "en_ttl e = None"
    using l1 h1(4) by (auto simp: map_le_def dom_def subset_iff)
  have "(l1v (td_l1 t))(k := None) \<subseteq>\<^sub>m m"
    using l1(2) by (auto simp: map_le_def)
  moreover have "files_no_ttl io (snd (l2_set io True now k (en_value e) (en_ttl e) f))"
    using f(1) k(3) by (simp add: files_no_ttl_def l2_set_read [OF assms(5)])
  moreover have "l2v io (snd (l2_set io True now k (en_value e) (en_ttl e) f)) j = m j" if "j \<in> K" for j
    using f(2) [OF that] k(1) by (simp add: l2v_def l2_set_read [OF assms(5)] inj_on_eq_iff [OF assms(4) that k(2)])
  ultimately show ?thesis
    using l1 h1 l1_delete_gone [OF h1(3), of k] by (simp add: tier_inv_def)
qed

lemma tier_kept: "tier_inv io K m t \<Longrightarrow> l1_get now k (td_l1 t) = (r, m1) \<Longrightarrow> tier_inv io K m (t\<lparr>td_l1 := m1\<rparr>)"
  by (auto simp: tier_inv_def l1_get_hit)

lemma tier_inv_counters [simp]: "tier_inv io K m (t\<lparr>td_demotions := n\<rparr>) = tier_inv io K m t"
  by (simp add: tier_inv_def)

lemma tier_demote_cold:
  assumes "inj_on file_name K" "\<And>j. io_parse io (io_print io j) = Inr j" "tier_inv io K m t"
  shows "tier_inv io K m (snd (demote_cold_entries io True now t))"
proof -
  have step: "tier_inv io K m (snd (demote_one io True now k p))" if inv: "tier_inv io K m (snd p)" for k p
  proof (cases "l1_get now k (td_l1 (snd p))")
    case (Pair r m1)
    obtain f where f: "td_l2 (snd p) = Some f"
      using inv by (auto simp: tier_inv_def)
    show ?thesis
      using tier_kept [OF inv Pair] tier_demoted [OF inv f, of now k _ m1] assms(1,2) Pair f
      by (cases r) (auto simp: demote_one_def split: prod.split)
  qed
  have "tier_inv io K m (snd p) \<Longrightarrow> tier_inv io K m (snd (fold (demote_one io True now) ks p))" for ks p
    by (induction ks arbitrary: p) (simp_all add: step)
  from this [of "(0, t)"] show ?thesis
    using assms(3) by (simp add: demote_cold_entries_def case_prod_beta)
qed

lemma tier_demote:
  assumes "inj_on file_name K" "\<And>j. io_parse io (io_print io j) = Inr j" "tier_inv io K m t"
  shows "tier_inv io K m (snd (demote io True now k t))"
proof (cases "l1_get now k (td_l1 t)")
  case (Pair r m1)
  obtain f where f: "td_l2 t = Some f"
    using assms(3) by (auto simp: tier_inv_def)
  show ?thesis
    using tier_kept [OF assms(3) Pair] tier_demoted [OF assms(3) f, of now k _ m1] assms(1,2) Pair f
    by (cases r) (auto simp: demote_def)
qed

text \<open>
  While every write succeeds, nothing has a time to live and no two keys in use share a file, the two tiers
  with eviction and demotion answer every read as one map does.\<close>

theorem tiers_are_one_map:
  assumes "\<And>j. io_parse io (io_print io j) = Inr j" "tc_enable_l2 c \<noteq> Some False" "list_all plain_op xs"
    "inj_on file_name (set (all_keys xs))"
  shows "fst (run_tiers io xs (new_tiered c)) = run_map xs Map.empty"
proof -
  define K where "K = set (all_keys xs)"
  have "fst (run_tiers io ys t) = run_map ys m" if "tier_inv io K m t" "set (all_keys ys) \<subseteq> K" "list_all plain_op ys" for ys m t
    using that
  proof (induction ys arbitrary: m t)
    case (Cons y ys)
    have ks: "set (op_keys y) \<subseteq> K" "set (all_keys ys) \<subseteq> K" "list_all plain_op ys" "plain_op y" "inj_on file_name K"
      using Cons.prems assms(4) by (auto simp: all_keys_def K_def)
    show ?case
    proof (cases y)
      case (TGet now k)
      obtain r t' where g: "tiered_get io now k t = (r, t')"
        by fastforce
      then have "r = m k" "tier_inv io K m t'"
        using tier_get [OF Cons.prems(1) _ g] ks TGet by auto
      then show ?thesis
        using Cons.IH [of m t'] ks TGet g by simp
    next
      case (TSet ok now k v ttl)
      have "tier_inv io K (m(k \<mapsto> v)) (snd (tiered_set io True now k v None t))"
        using ks TSet by (intro tier_set [OF Cons.prems(1)]) (simp_all add: assms(1))
      then show ?thesis
        using Cons.IH [of "m(k \<mapsto> v)"] ks TSet by (simp del: fun_upd_apply)
    next
      case (TDelete k)
      have "tier_inv io K (m(k := None)) (snd (tiered_delete k t))"
        using ks TDelete by (intro tier_delete [OF Cons.prems(1)]) simp_all
      then show ?thesis
        using Cons.IH [of "m(k := None)"] ks TDelete by (simp del: fun_upd_apply)
    next
      case (TDemoteCold ok now)
      then show ?thesis
        using Cons.IH ks tier_demote_cold [OF ks(5) assms(1) Cons.prems(1)] by simp
    next
      case (TDemote ok now k)
      then show ?thesis
        using Cons.IH ks tier_demote [OF ks(5) assms(1) Cons.prems(1)] by simp
    qed
  qed simp
  moreover have "tier_inv io K Map.empty (new_tiered c)"
    using assms(2) by (auto simp: tier_inv_def new_tiered_def new_memory_def new_file_storage_def no_ttl_def l1v_def
        files_no_ttl_def l2v_def read_entry_def map_le_def unwrap_or_def split: option.split)
  ultimately show ?thesis
    using assms(3) by (simp add: K_def)
qed

definition plain_io :: "json json_io" where
  "plain_io = \<lparr>io_print = id, io_parse = Inr\<rparr>"

theorem tiers_are_one_map_witness:
  "fst (run_tiers plain_io
     [TSet True 1 ''a:b'' JNull None, TSet True 2 ''c'' (JBool True) None, TGet 3 ''a:b'', TDemoteCold True 9999999, TGet 9999999 ''c'',
      TDelete ''c'', TGet 9999999 ''c'', TDemote True 9999999 ''a:b'', TGet 9999999 ''a:b'']
     (new_tiered (default_tiered_config\<lparr>tc_l1_max := Some 1\<rparr>)))
   = run_map
     [TSet True 1 ''a:b'' JNull None, TSet True 2 ''c'' (JBool True) None, TGet 3 ''a:b'', TDemoteCold True 9999999, TGet 9999999 ''c'',
      TDelete ''c'', TGet 9999999 ''c'', TDemote True 9999999 ''a:b'', TGet 9999999 ''a:b''] Map.empty"
proof (rule tiers_are_one_map)
  have "file_name ''a:b'' \<noteq> file_name ''c''"
    by code_simp
  then show "inj_on file_name (set (all_keys
     [TSet True 1 ''a:b'' JNull None, TSet True 2 ''c'' (JBool True) None, TGet 3 ''a:b'', TDemoteCold True 9999999, TGet 9999999 ''c'',
      TDelete ''c'', TGet 9999999 ''c'', TDemote True 9999999 ''a:b'', TGet 9999999 ''a:b'']))"
    by (auto simp: all_keys_def inj_on_def)
qed (simp_all add: plain_io_def default_tiered_config_def)


section \<open>Promotion\<close>

text \<open>The file of a key always says that it was never accessed: a read counts only in memory.\<close>

definition never_counted :: "'f json_io \<Rightarrow> 'f file_storage \<Rightarrow> bool" where
  "never_counted io f \<longleftrightarrow> (\<forall>now k e. read_entry io now k f = Some e \<longrightarrow> en_count e = 1)"

definition promotion_inv :: "'f json_io \<Rightarrow> 'f tiered_storage \<Rightarrow> bool" where
  "promotion_inv io t \<longleftrightarrow> td_promotions t = 0 \<and> 2 \<le> td_promotion_threshold t \<and>
     (case td_l2 t of None \<Rightarrow> True | Some f \<Rightarrow> never_counted io f)"

lemma never_counted_cache [simp]: "never_counted io (f\<lparr>fl_cache := c\<rparr>) = never_counted io f"
  by (simp add: never_counted_def)

lemma remove_file_read: "read_entry io now j (remove_file k f) = (if file_name j = file_name k then None else read_entry io now j f)"
  by (simp add: read_entry_def remove_file_def im.get_del)

lemma l2_get_counted: "never_counted io f \<Longrightarrow> l2_get io now k f = (r, f') \<Longrightarrow>
   never_counted io f' \<and> (\<forall>e. r = Some e \<longrightarrow> en_count e = 1)"
  by (auto simp: l2_get_def split: option.splits if_splits) (auto simp: never_counted_def remove_file_read)

lemma l2_set_counted:
  assumes "\<And>j. io_parse io (io_print io j) = Inr j" "never_counted io f"
  shows "never_counted io (snd (l2_set io ok now k v ttl f))"
proof (cases ok)
  case True
  then show ?thesis
    using assms(2) by (simp add: never_counted_def l2_set_read [OF assms(1)])
next
  case False
  then show ?thesis
    using assms(2) by (simp add: l2_set_def Let_def never_counted_def read_entry_def)
qed

lemma l2_delete_counted: "never_counted io f \<Longrightarrow> never_counted io (snd (l2_delete k f))"
  by (simp add: never_counted_def l2_delete_read)

lemma demote_one_promotions:
  assumes "\<And>j. io_parse io (io_print io j) = Inr j" "promotion_inv io (snd p)"
  shows "promotion_inv io (snd (demote_one io ok now k p))"
  using assms(2)
  by (auto simp: demote_one_def promotion_inv_def l2_set_counted [OF assms(1)] split: prod.split option.splits)

lemma get_promotions:
  assumes "promotion_inv io t"
  shows "promotion_inv io (snd (tiered_get io now k t))"
proof -
  obtain r m where g: "l1_get now k (td_l1 t) = (r, m)"
    by fastforce
  show ?thesis
  proof (cases "td_l2 t")
    case (Some f)
    obtain r2 f' where g2: "l2_get io now k f = (r2, f')"
      by fastforce
    have "never_counted io f" "2 \<le> td_promotion_threshold t"
      using assms Some by (simp_all add: promotion_inv_def)
    then have "never_counted io f'" "\<And>e. r2 = Some e \<Longrightarrow> \<not> td_promotion_threshold t \<le> en_count e"
      using l2_get_counted [OF _ g2] by auto
    then show ?thesis
      using assms Some g g2 by (cases r; cases r2) (simp_all add: tiered_get_def promotion_inv_def)
  qed (use assms g in \<open>cases r; simp add: tiered_get_def promotion_inv_def\<close>)
qed

lemma step_promotions:
  assumes "\<And>j. io_parse io (io_print io j) = Inr j" "promotion_inv io t"
  shows "promotion_inv io (snd (tier_step io x t))"
proof (cases x)
  case (TGet now k)
  then show ?thesis
    using get_promotions [OF assms(2)] by (simp add: case_prod_beta)
next
  case (TSet ok now k v ttl)
  then show ?thesis
    using assms(2) by (auto simp: tiered_set_def promotion_inv_def l2_set_counted [OF assms(1)] split: prod.splits option.splits)
next
  case (TDelete k)
  then show ?thesis
    using assms(2) by (auto simp: tiered_delete_def promotion_inv_def l2_delete_counted split: prod.splits option.splits)
next
  case (TDemoteCold ok now)
  have "promotion_inv io (snd p) \<Longrightarrow> promotion_inv io (snd (fold (demote_one io ok now) ks p))" for ks p
    by (induction ks arbitrary: p) (simp_all add: demote_one_promotions [OF assms(1)])
  from this [of "(0, t)"] show ?thesis
    using assms(2) TDemoteCold by (simp add: demote_cold_entries_def case_prod_beta promotion_inv_def)
next
  case (TDemote ok now k)
  then show ?thesis
    using assms(2) by (auto simp: demote_def promotion_inv_def l2_set_counted [OF assms(1)] split: prod.splits option.splits)
qed

text \<open>
  However often a key is read from its file, reading never promotes it to memory: with a threshold of at least
  two (the default is five) the count of promotions stays zero.\<close>

theorem reading_never_promotes:
  assumes "\<And>j. io_parse io (io_print io j) = Inr j" "2 \<le> unwrap_or 5 (tc_promotion_threshold c)"
  shows "td_promotions (snd (run_tiers io xs (new_tiered c))) = 0"
proof -
  have "promotion_inv io t \<Longrightarrow> promotion_inv io (snd (run_tiers io xs t))" for t
    by (induction xs arbitrary: t) (simp_all add: run_tiers.simps(2) step_promotions [OF assms(1)] case_prod_beta)
  moreover have "promotion_inv io (new_tiered c)"
    using assms(2) by (simp add: promotion_inv_def new_tiered_def new_file_storage_def never_counted_def read_entry_def)
  ultimately show ?thesis
    by (simp add: promotion_inv_def)
qed

theorem reading_never_promotes_witness:
  "td_promotions (snd (run_tiers plain_io (TSet True 0 ''k'' JNull None # TDemote True 1 ''k'' # replicate 20 (TGet 2 ''k''))
     (new_tiered default_tiered_config))) = 0"
  by (rule reading_never_promotes) (simp_all add: plain_io_def default_tiered_config_def)



section \<open>Promotion by hand, demotion and files\<close>

abbreviation one_entry :: "string \<Rightarrow> context_entry \<Rightarrow> nat \<Rightarrow> memory_storage" where
  "one_entry k e n \<equiv> \<lparr>mt_entries = [(k, e)], mt_order = [k], mt_max = n\<rparr>"

abbreviation no_entry :: "nat \<Rightarrow> memory_storage" where
  "no_entry n \<equiv> \<lparr>mt_entries = [], mt_order = [], mt_max = n\<rparr>"

lemma l1_single [simp]:
  "l1_set now k v ttl (no_entry n) = (fresh_entry now k v L1 ttl, one_entry k (fresh_entry now k v L1 ttl) n)"
  "\<not> entry_expired now e \<Longrightarrow> l1_get now k (one_entry k e n) =
     (Some (e\<lparr>en_count := en_count e + 1, en_accessed := now\<rparr>), one_entry k (e\<lparr>en_count := en_count e + 1, en_accessed := now\<rparr>) n)"
  "l1_get now k (no_entry n) = (None, no_entry n)"
  "j \<noteq> k \<Longrightarrow> l1_get now j (one_entry k e n) = (None, one_entry k e n)"
  "snd (l1_delete k (one_entry k e n)) = no_entry n"
  "j \<noteq> k \<Longrightarrow> l1_set now j v ttl (one_entry k e (Suc 0)) = (fresh_entry now j v L1 ttl, one_entry j (fresh_entry now j v L1 ttl) (Suc 0))"
  by (simp_all add: l1_set_def l1_get_def l1_delete_def touch_lru_def evict_lru_def forget_key_def drop_entry_def Let_def)

lemma fresh_entry_simps [simp]: "en_value (fresh_entry now k v t ttl) = v" "en_ttl (fresh_entry now k v t ttl) = ttl"
  by (simp_all add: fresh_entry_def)

lemma set_then_demote:
  assumes "\<not> entry_expired t1 (fresh_entry t0 k v L1 ttl)" "td_l1 t = no_entry n" "td_l2 t = Some f"
  shows "snd (run_tiers io [TSet True t0 k v ttl, TDemote True t1 k] t) =
    t\<lparr>td_l1 := no_entry n, td_l2 := Some (snd (l2_set io True t1 k v ttl (snd (l2_set io True t0 k v ttl f)))),
      td_demotions := td_demotions t + 1\<rparr>"
  using assms by (simp add: run_tiers.simps(2) tiered_set_def demote_def)

lemma l2_get_read: "read_entry io now k f = Some e \<Longrightarrow> \<not> entry_expired now e \<Longrightarrow>
    l2_get io now k f = (Some e, f\<lparr>fl_cache := im_insert k e (fl_cache f)\<rparr>)"
  by (simp add: l2_get_def)

text \<open>
  Promotion by hand removes the file of the key: when memory is full, the next new key evicts the promoted one,
  and its value is gone.\<close>

theorem promoted_entry_lost:
  assumes "\<And>j. io_parse io (io_print io j) = Inr j" "file_name j \<noteq> file_name k"
  shows "let t = snd (run_tiers io [TSet True 0 k v None, TDemote True 0 k] (new_tiered (default_tiered_config\<lparr>tc_l1_max := Some 1\<rparr>)));
             (promoted, t1) = promote io 0 k t
         in promoted \<and> fst (run_tiers io [TSet True 0 j w None, TGet 0 k] t1) = [None]"
proof -
  define t where "t = (new_tiered (default_tiered_config\<lparr>tc_l1_max := Some 1\<rparr>) :: 'a tiered_storage)"
  define f where "f = snd (l2_set io True 0 k v None (snd (l2_set io True 0 k v None (new_file_storage ''.opencode/context''))))"
  have t: "td_l1 t = no_entry 1" "td_l2 t = Some (new_file_storage ''.opencode/context'')"
    by (simp_all add: t_def new_tiered_def new_memory_def default_tiered_config_def)
  have t1: "snd (run_tiers io [TSet True 0 k v None, TDemote True 0 k] t) =
      t\<lparr>td_l1 := no_entry 1, td_l2 := Some f, td_demotions := td_demotions t + 1\<rparr>"
    using set_then_demote [OF _ t, of 0 0 k v None io] by (simp add: f_def)
  obtain e where e: "read_entry io 0 k f = Some e" "en_value e = v" "en_ttl e = None"
    by (simp add: f_def l2_set_read [OF assms(1)])
  define g where "g = snd (l2_delete k (f\<lparr>fl_cache := im_insert k e (fl_cache f)\<rparr>))"
  have g: "read_entry io now k (snd (l2_set io True 0 j w None g)) = None" for now
    using assms(2) by (simp add: l2_set_read [OF assms(1)] g_def l2_delete_read)
  have prom: "promote io 0 k (snd (run_tiers io [TSet True 0 k v None, TDemote True 0 k] t)) =
      (True, t\<lparr>td_l1 := one_entry k (fresh_entry 0 k v L1 None) 1, td_l2 := Some g, td_promotions := td_promotions t + 1,
        td_demotions := td_demotions t + 1\<rparr>)"
    by (simp add: t1 promote_def l2_get_read [OF e(1)] e g_def)
  have "j \<noteq> k"
    using assms(2) by blast
  then show ?thesis
    unfolding Let_def t_def [symmetric] prom prod.case
    by (simp add: run_tiers.simps(2) tiered_set_def tiered_get_def l2_get_def g case_prod_beta)
qed

theorem promoted_entry_lost_witness:
  "let t = snd (run_tiers plain_io [TSet True 0 ''a'' JNull None, TDemote True 0 ''a''] (new_tiered (default_tiered_config\<lparr>tc_l1_max := Some 1\<rparr>)));
       (promoted, t1) = promote plain_io 0 ''a'' t
   in promoted \<and> fst (run_tiers plain_io [TSet True 0 ''b'' JNull None, TGet 0 ''a''] t1) = [None]"
proof (rule promoted_entry_lost)
  show "file_name ''b'' \<noteq> file_name ''a''"
    by code_simp
qed (simp add: plain_io_def)

lemma read_demoted:
  assumes "\<And>j. io_parse io (io_print io j) = Inr j" "\<not> entry_expired t1 (fresh_entry t0 k v L1 ttl)"
    "file_name j = file_name k" "\<not> entry_expired t2 (fresh_entry t1 k v L2 ttl)"
  shows "fst (run_tiers io [TSet True t0 k v ttl, TDemote True t1 k, TGet t2 j] (new_tiered default_tiered_config)) = [Some v]"
proof -
  have run: "fst (run_tiers io [TSet True t0 k v ttl, TDemote True t1 k, TGet t2 j] t) =
      [fst (tiered_get io t2 j (snd (run_tiers io [TSet True t0 k v ttl, TDemote True t1 k] t)))]" for t
    by (simp add: run_tiers.simps(2) case_prod_beta)
  have live: "\<not> entry_expired t2 \<lparr>en_key = k, en_value = v, en_tier = L2, en_created = t1, en_accessed = t2, en_count = 1,
      en_size = estimate_size v, en_ttl = ttl\<rparr>"
    using assms(4) by (simp add: entry_expired_def fresh_entry_def split: option.splits)
  have new: "td_l1 (new_tiered default_tiered_config) = no_entry 10000"
    "td_l2 (new_tiered default_tiered_config) = Some (new_file_storage ''.opencode/context'')"
    "td_promotion_threshold (new_tiered default_tiered_config) = 5"
    by (simp_all add: new_tiered_def new_memory_def default_tiered_config_def)
  show ?thesis
    unfolding run set_then_demote [OF assms(2) new(1,2)]
    using live new(3) by (simp add: tiered_get_def l2_get_def l2_set_read [OF assms(1)] assms(3))
qed

text \<open>
  Demotion writes the entry as new: an entry demoted before its time to live has passed is still read long after
  it, counted from when it was set.\<close>

theorem demotion_restarts_ttl:
  assumes "\<And>j. io_parse io (io_print io j) = Inr j" "t1 \<le> t0 + ttl" "t2 \<le> t1 + ttl"
  shows "fst (run_tiers io [TSet True t0 k v (Some ttl), TDemote True t1 k, TGet t2 k] (new_tiered default_tiered_config)) = [Some v]"
  by (rule read_demoted [OF assms(1)]) (use assms in \<open>auto simp: entry_expired_def fresh_entry_def\<close>)

theorem demotion_restarts_ttl_witness:
  "fst (run_tiers plain_io [TSet True 0 ''k'' JNull (Some 10), TDemote True 9 ''k'', TGet 19 ''k''] (new_tiered default_tiered_config))
     = [Some JNull]"
  by (rule demotion_restarts_ttl) (simp_all add: plain_io_def)

text \<open>
  Two keys whose escaped names agree share a file: one reads the value of the other.\<close>

theorem escaped_names_collide:
  assumes "\<And>j. io_parse io (io_print io j) = Inr j" "key_to_filename j = key_to_filename k"
  shows "fst (run_tiers io [TSet True 0 k v None, TDemote True 0 k, TGet 0 j] (new_tiered default_tiered_config)) = [Some v]"
  by (rule read_demoted [OF assms(1)]) (use assms in \<open>auto simp: entry_expired_def fresh_entry_def file_name_def\<close>)

theorem escaped_names_collide_witness:
  "fst (run_tiers plain_io [TSet True 0 ''a/b'' JNull None, TDemote True 0 ''a/b'', TGet 0 ''a_SLASH_b''] (new_tiered default_tiered_config))
     = [Some JNull]"
proof (rule escaped_names_collide)
  show "key_to_filename ''a_SLASH_b'' = key_to_filename ''a/b''"
    by code_simp
qed (simp add: plain_io_def)

end
