(* ===== verification/Metrics.thy ===== *)
theory Metrics
  imports Json
begin

text \<open>
  The metrics of the agent (\<open>metrics.rs\<close>): counters, gauges and histograms by name, and their text for a
  metrics page.  Summaries hold floating-point values and are left out; gauge functions are arguments.
\<close>

record histogram_value =
  hv_buckets :: "nat list"
  hv_counts :: "nat list"
  hv_sum :: nat
  hv_count :: nat

record metrics =
  mx_prefix :: string
  mx_counters :: "(string, nat) imap"
  mx_gauges :: "(string, int) imap"
  mx_histograms :: "(string, histogram_value) imap"

definition new_metrics :: "string option \<Rightarrow> metrics" where
  "new_metrics p = \<lparr>mx_prefix = unwrap_or ''anima'' p, mx_counters = [], mx_gauges = [], mx_histograms = []\<rparr>"

text \<open>\<open>entry(k).or_insert(v)\<close>\<close>

definition or_insert :: "'k \<Rightarrow> 'v \<Rightarrow> ('k, 'v) imap \<Rightarrow> ('k, 'v) imap" where
  "or_insert k v m = im_entry k v id m"

definition empty_histogram :: "nat list \<Rightarrow> histogram_value" where
  "empty_histogram bs = \<lparr>hv_buckets = bs, hv_counts = replicate (length bs + 1) 0, hv_sum = 0, hv_count = 0\<rparr>"

definition agent_counters :: "string list" where
  "agent_counters =
     [''messages_received'', ''messages_processed'', ''messages_failed'', ''tasks_submitted'', ''tasks_completed'',
      ''tasks_failed'', ''cache_hits'', ''cache_misses'', ''cache_evictions'', ''workers_tasks_total'',
      ''bus_inbound_dropped_total'', ''bus_outbound_dropped_total'', ''bus_internal_dropped_total'',
      ''bus_control_dropped_total'']"

definition agent_gauges :: "string list" where
  "agent_gauges =
     [''sessions_active'', ''workers_active'', ''workers_idle'', ''bus_inbound_queue_depth'', ''bus_outbound_queue_depth'',
      ''bus_internal_queue_depth'', ''bus_control_queue_depth'']"

definition register_agent_metrics :: "metrics \<Rightarrow> metrics" where
  "register_agent_metrics s = s\<lparr>mx_counters := fold (\<lambda>k. or_insert k 0) agent_counters (mx_counters s),
     mx_gauges := fold (\<lambda>k. or_insert k 0) agent_gauges (mx_gauges s),
     mx_histograms := or_insert ''task_duration'' (empty_histogram [100, 500, 1000, 5000, 10000, 30000, 60000])
       (or_insert ''message_latency'' (empty_histogram [10, 50, 100, 250, 500, 1000, 2500, 5000]) (mx_histograms s))\<rparr>"

definition counter_add :: "string \<Rightarrow> nat \<Rightarrow> metrics \<Rightarrow> metrics" where
  "counter_add k n s = s\<lparr>mx_counters := im_entry k 0 (\<lambda>c. c + n) (mx_counters s)\<rparr>"

definition counter_inc :: "string \<Rightarrow> metrics \<Rightarrow> metrics" where
  "counter_inc k s = s\<lparr>mx_counters := im_entry k 0 Suc (mx_counters s)\<rparr>"

fun bucket_index :: "nat list \<Rightarrow> nat \<Rightarrow> nat" where
  "bucket_index [] v = 0"
| "bucket_index (b # bs) v = (if v \<le> b then 0 else Suc (bucket_index bs v))"

text \<open>\<open>resize(n, 0)\<close> when the list is shorter\<close>

definition grow_to :: "nat \<Rightarrow> nat list \<Rightarrow> nat list" where
  "grow_to n xs = (if length xs < n then xs @ replicate (n - length xs) 0 else xs)"

definition record_value :: "nat \<Rightarrow> histogram_value \<Rightarrow> histogram_value" where
  "record_value v h =
     (let counts = (if hv_counts h = [] then replicate (length (hv_buckets h) + 1) 0 else hv_counts h);
          i = bucket_index (hv_buckets h) v;
          counts = grow_to (i + 1) counts
      in h\<lparr>hv_counts := counts[i := counts ! i + 1], hv_sum := hv_sum h + v, hv_count := hv_count h + 1\<rparr>)"

definition histogram_record :: "string \<Rightarrow> nat \<Rightarrow> metrics \<Rightarrow> metrics" where
  "histogram_record k v s =
     s\<lparr>mx_histograms := im_entry k (empty_histogram []) (record_value v) (mx_histograms s)\<rparr>"

definition update_session_gauge :: "nat \<Rightarrow> metrics \<Rightarrow> metrics" where
  "update_session_gauge n s = s\<lparr>mx_gauges := im_insert ''sessions_active'' (int n) (mx_gauges s)\<rparr>"

definition update_worker_gauges :: "nat \<Rightarrow> nat \<Rightarrow> metrics \<Rightarrow> metrics" where
  "update_worker_gauges active idle s =
     s\<lparr>mx_gauges := im_insert ''workers_idle'' (int idle) (im_insert ''workers_active'' (int active) (mx_gauges s))\<rparr>"

text \<open>The gauges of a snapshot: the stored ones, overwritten by the values of the gauge functions.\<close>

definition snapshot_gauges :: "(string \<times> int) list \<Rightarrow> metrics \<Rightarrow> (string, int) imap" where
  "snapshot_gauges fs s = fold (\<lambda>(k, v). im_insert k v) fs (mx_gauges s)"


section \<open>The metrics page\<close>

definition int_text :: "int \<Rightarrow> string" where
  "int_text n = (if n < 0 then ''-'' @ dec (nat (- n)) else dec (nat n))"

definition type_line :: "string \<Rightarrow> string \<Rightarrow> string" where
  "type_line metric kind = ''# TYPE '' @ metric @ '' '' @ kind"

definition bucket_line :: "string \<Rightarrow> string \<Rightarrow> nat \<Rightarrow> string" where
  "bucket_line metric le n = metric @ ''_bucket{le='' @ [CHR 0x22] @ le @ [CHR 0x22] @ ''} '' @ dec n"

text \<open>The cumulative counts of the buckets from a start value, and the total after the last one.\<close>

fun cumulative :: "nat \<Rightarrow> nat \<Rightarrow> nat list \<Rightarrow> nat list \<Rightarrow> (nat \<times> nat) list \<times> nat" where
  "cumulative acc i counts [] = ([], acc)"
| "cumulative acc i counts (b # bs) =
     (let acc' = acc + (if i < length counts then counts ! i else 0);
          (rest, n) = cumulative acc' (i + 1) counts bs
      in ((b, acc') # rest, n))"

definition inf_count :: "histogram_value \<Rightarrow> nat" where
  "inf_count h = snd (cumulative 0 0 (hv_counts h) (hv_buckets h)) + (if hv_counts h = [] then 0 else last (hv_counts h))"

definition histogram_lines :: "string \<Rightarrow> histogram_value \<Rightarrow> string list" where
  "histogram_lines metric h =
     [type_line metric ''histogram''] @
     map (\<lambda>(b, n). bucket_line metric (dec b) n) (fst (cumulative 0 0 (hv_counts h) (hv_buckets h))) @
     [bucket_line metric ''+Inf'' (inf_count h), metric @ ''_sum '' @ dec (hv_sum h), metric @ ''_count '' @ dec (hv_count h)]"

definition render_prometheus :: "(string \<times> int) list \<Rightarrow> metrics \<Rightarrow> string" where
  "render_prometheus fs s =
     (let metric = (\<lambda>k. mx_prefix s @ ''_'' @ k) in
      str_join ''\<newline>''
        (concat (map (\<lambda>(k, v). [type_line (metric k) ''counter'', metric k @ '' '' @ dec v]) (mx_counters s)) @
         concat (map (\<lambda>(k, v). [type_line (metric k) ''gauge'', metric k @ '' '' @ int_text v]) (snapshot_gauges fs s)) @
         concat (map (\<lambda>(k, h). histogram_lines (metric k) h) (mx_histograms s))))"


section \<open>Histograms count every value once\<close>

lemma bucket_index_le: "bucket_index bs v \<le> length bs"
  by (induction bs) auto

lemma bucket_index_first:
  "(\<forall>j < bucket_index bs v. bs ! j < v) \<and> (bucket_index bs v < length bs \<longrightarrow> v \<le> bs ! bucket_index bs v)"
proof (induction bs)
  case (Cons b bs)
  then show ?case
    by (auto simp: less_Suc_eq_0_disj)
qed simp

text \<open>A histogram filled from empty counts in each bucket the values that fall into it.\<close>

lemma histogram_exact:
  "fold record_value vs (empty_histogram bs) =
     \<lparr>hv_buckets = bs, hv_counts = map (\<lambda>i. length (filter (\<lambda>v. bucket_index bs v = i) vs)) [0..<Suc (length bs)],
      hv_sum = sum_list vs, hv_count = length vs\<rparr>"
proof (induction vs rule: rev_induct)
  case Nil
  then show ?case
    by (simp add: empty_histogram_def map_replicate_const del: upt_Suc)
next
  case (snoc v vs)
  have "bucket_index bs v < length bs + 1"
    using bucket_index_le [of bs v] by simp
  then show ?case
    using snoc by (auto simp: record_value_def Let_def grow_to_def nth_list_update simp del: upt_Suc intro!: nth_equalityI)
qed

lemma cumulative_sum:
  "i + length bs \<le> length counts \<Longrightarrow> snd (cumulative acc i counts bs) = acc + sum_list (take (length bs) (drop i counts))"
proof (induction bs arbitrary: acc i)
  case (Cons b bs)
  then have "drop i counts = counts ! i # drop (Suc i) counts"
    by (simp add: Cons_nth_drop_Suc)
  then show ?case
    using Cons by (simp add: Let_def case_prod_beta)
qed simp

lemma sum_of_parts:
  "\<forall>v \<in> set vs. f v < n \<Longrightarrow> sum_list (map (\<lambda>i. length (filter (\<lambda>v. f v = i) vs)) [0..<n]) = length vs"
proof (induction vs)
  case (Cons v vs)
  have "sum_list (map (\<lambda>i. length (filter (\<lambda>v. f v = i) (v # vs))) [0..<n]) =
      sum_list (map (\<lambda>i. (if f v = i then 1 else 0) + length (filter (\<lambda>v. f v = i) vs)) [0..<n])"
    by (rule arg_cong [where f = sum_list]) simp
  also have "\<dots> = sum_list (map (\<lambda>i. if f v = i then 1 else 0) [0..<n]) + length vs"
    using Cons by (simp add: sum_list_addf)
  also have "sum_list (map (\<lambda>i. if f v = i then 1 else 0) [0..<n]) = (1::nat)"
    using Cons.prems by (simp add: interv_sum_list_conv_sum_set_nat sum.delta)
  finally show ?case
    by simp
qed (simp add: map_replicate_const)

text \<open>
  A histogram filled from empty counts every value in one bucket, and its page shows the number of values
  in the last, unbounded bucket.\<close>

theorem histogram_page_total:
  "inf_count (fold record_value vs (empty_histogram bs)) = length vs"
proof -
  define counts where "counts = map (\<lambda>i. length (filter (\<lambda>v. bucket_index bs v = i) vs)) [0..<Suc (length bs)]"
  have l: "length counts = Suc (length bs)" "counts \<noteq> []"
    by (simp_all add: counts_def)
  have "sum_list counts = length vs"
    unfolding counts_def by (rule sum_of_parts) (simp add: less_Suc_eq_le bucket_index_le)
  moreover have "counts = take (length bs) counts @ [last counts]"
    using l by (metis append_butlast_last_id butlast_conv_take diff_Suc_1)
  ultimately have "sum_list (take (length bs) counts) + last counts = length vs"
    by (metis add.right_neutral sum_list.Cons sum_list.Nil sum_list_append)
  then show ?thesis
    using l by (simp add: histogram_exact inf_count_def cumulative_sum counts_def [symmetric] del: upt_Suc)
qed

end
