(* ===== verification/State_Frames.thy ===== *)
theory State_Frames
  imports State_Rules
begin

text \<open>
  Frame rules for code in the state monad: what a reflexive and transitive relation between the state before
  and the state after says of the parts of a program, it says of the program.
\<close>

locale state_frame =
  fixes R :: "'s \<Rightarrow> 's \<Rightarrow> bool"
  assumes frame_refl: "R s s"
    and frame_trans: "R a b \<Longrightarrow> R b c \<Longrightarrow> R a c"
begin

lemma frame_return: "every (State_Monad.return a) R"
  by (simp add: every_def wp_return frame_refl)

lemma frame_bind:
  assumes "every m R" "\<And>a. every (f a) R"
  shows "every (State_Monad.bind m f) R"
proof -
  have "wp (f a) (\<lambda>_. R s) s'" if "R s s'" for a s s'
    by (rule wp_mono [OF everyD [OF assms(2)]]) (rule frame_trans [OF that])
  then show ?thesis
    unfolding every_def by (blast intro: wp_seq [OF everyD [OF assms(1)]])
qed

lemma frame_get: "every State_Monad.get R"
  by (simp add: every_def wp_get frame_refl)

lemma frame_modify: "(\<And>s. R s (f s)) \<Longrightarrow> every (modify_state f) R"
  by (simp add: every_def wp_modify)

lemma frame_state: "(\<And>s. R s (snd (f s))) \<Longrightarrow> every (State f) R"
  by (simp add: every_def wp_run)

lemma frame_if: "(b \<Longrightarrow> every m R) \<Longrightarrow> (\<not> b \<Longrightarrow> every n R) \<Longrightarrow> every (if b then m else n) R"
  by simp

lemma frame_option:
  "(x = None \<Longrightarrow> every m R) \<Longrightarrow> (\<And>y. x = Some y \<Longrightarrow> every (f y) R) \<Longrightarrow>
   every (case x of None \<Rightarrow> m | Some y \<Rightarrow> f y) R"
  by (cases x) simp_all

lemma frame_sum:
  "(\<And>y. x = Inl y \<Longrightarrow> every (m y) R) \<Longrightarrow> (\<And>y. x = Inr y \<Longrightarrow> every (f y) R) \<Longrightarrow>
   every (case x of Inl y \<Rightarrow> m y | Inr y \<Rightarrow> f y) R"
  by (cases x) simp_all

lemma frame_prod: "(\<And>a b. every (f a b) R) \<Longrightarrow> every (case x of (a, b) \<Rightarrow> f a b) R"
  by (cases x) simp

lemma frame_for_each: "(\<And>x. every (f x) R) \<Longrightarrow> every (for_each f xs) R"
  by (induction xs) (auto intro: frame_return frame_bind)

lemmas frame_rules = frame_return frame_bind frame_get frame_if frame_option frame_sum frame_prod frame_for_each

end

end
