(* ===== verification/Requirement_Progress.thy ===== *)
theory Requirement_Progress
  imports Suspension_Props Requirement_Judge State_Frames
begin

text \<open>
  The coordinator of requirements (\<open>agent/requirement.rs\<close>): how many follow-up rounds a job has used.  The
  progress of a job is read from the runtime state when it knows the requirement, and from a cache otherwise.
  The record extends that of the coordinator of questions, for both work on the same emitter and store.
\<close>

section \<open>Operations\<close>

record 'w tracker = "'w coordinator" +
  requirement_progress :: "(string, progress_state) imap"

type_synonym ('w, 'z, 'a) rq_m = "(('w, 'z) tracker_scheme, 'a) state"

definition cache_progress :: "string \<Rightarrow> progress_state \<Rightarrow> ('w, 'z, unit) rq_m" where
  "cache_progress job p = modify_state (\<lambda>s. s\<lparr>requirement_progress := im_insert job p (requirement_progress s)\<rparr>)"

definition rebuild_progress :: "snapshot \<Rightarrow> string \<Rightarrow> progress_state option" where
  "rebuild_progress s job = map_option (\<lambda>r.
     \<lparr>pg_request = original_user_request r, pg_attempted = attempted_rounds r, pg_max_rounds = max_rounds r,
      pg_fingerprint = last_result_fingerprint r, pg_reason = last_reason r\<rparr>)
     (map_of (requirements s) (runtime_requirement_id job))"

definition requirement_state :: "string \<Rightarrow> bool \<Rightarrow> ('w, 'z, progress_state option) rq_m" where
  "requirement_state job hydrate = do {
     s \<leftarrow> e_snapshot;
     c \<leftarrow> State_Monad.get;
     if map_of (requirements s) (runtime_requirement_id job) \<noteq> None then do {
       let rebuilt = rebuild_progress s job;
       (case rebuilt of
          Some p \<Rightarrow> if hydrate then cache_progress job p else State_Monad.return ()
        | None \<Rightarrow> modify_state (\<lambda>s. s\<lparr>requirement_progress := im_remove job (requirement_progress s)\<rparr>));
       State_Monad.return rebuilt
     }
     else State_Monad.return (map_of (requirement_progress c) job)
   }"

definition upsert_runtime_requirement ::
  "'w agent_env \<Rightarrow> inbound \<Rightarrow> progress_state \<Rightarrow> requirement_status \<Rightarrow> ('w, 'z, string) rq_m" where
  "upsert_runtime_requirement E m p st =
     (let i = runtime_requirement_id (in_id m) in do {
        s \<leftarrow> e_snapshot;
        created \<leftarrow> (case map_of (requirements s) i of
            Some r \<Rightarrow> State_Monad.return (req_created_at r) | None \<Rightarrow> e_now E);
        updated \<leftarrow> e_now E;
        e_append E (RequirementUpserted
          \<lparr>requirement_id = i, req_run_id = runtime_run_id (in_id m), req_turn_id = current_turn s m,
           req_job_id = in_id m, original_user_request = pg_request p, attempted_rounds = pg_attempted p,
           max_rounds = pg_max_rounds p, last_result_fingerprint = pg_fingerprint p, last_reason = pg_reason p,
           req_status = st, req_created_at = created, req_updated_at = updated\<rparr>);
        State_Monad.return i
      })"

definition ensure_requirement :: "'w agent_env \<Rightarrow> inbound \<Rightarrow> nat \<Rightarrow> ('w, 'z, progress_state) rq_m" where
  "ensure_requirement E m rounds = do {
     known \<leftarrow> requirement_state (in_id m) True;
     let entry = (case known of
         Some p \<Rightarrow> p
       | None \<Rightarrow> \<lparr>pg_request = in_content m, pg_attempted = 0, pg_max_rounds = rounds, pg_fingerprint = None,
                  pg_reason = None\<rparr>);
     cache_progress (in_id m) entry;
     upsert_task E m PhaseRequirement task_status.Running ''evaluating requirement progress'' None;
     upsert_runtime_requirement E m entry RActive;
     State_Monad.return entry
   }"

definition inbound_from_snapshot :: "snapshot \<Rightarrow> string \<Rightarrow> progress_state \<Rightarrow> inbound option" where
  "inbound_from_snapshot s job p = map_option (\<lambda>run.
     \<lparr>in_id = job, in_channel = run_channel run, in_sender_id = [], in_chat_id = run_chat_id run,
      in_content = pg_request p, in_session_key = None, in_media = [], in_metadata = JObject []\<rparr>)
     (map_of (runs s) (runtime_run_id job))"

definition update_requirement ::
  "'w agent_env \<Rightarrow> string \<Rightarrow> nat \<Rightarrow> string option \<Rightarrow> string option \<Rightarrow> ('w, 'z, unit) rq_m" where
  "update_requirement E job attempted fp reason = do {
     known \<leftarrow> requirement_state job True;
     (case known of
        None \<Rightarrow> State_Monad.return ()
      | Some p \<Rightarrow> do {
          let p = p\<lparr>pg_attempted := attempted, pg_fingerprint := fp, pg_reason := reason\<rparr>;
          cache_progress job p;
          s \<leftarrow> e_snapshot;
          (case inbound_from_snapshot s job p of
             None \<Rightarrow> State_Monad.return ()
           | Some m \<Rightarrow> do { upsert_runtime_requirement E m p FollowupScheduled; State_Monad.return () })
        })
   }"

definition clear_requirement :: "string \<Rightarrow> ('w, 'z, unit) rq_m" where
  "clear_requirement job = modify_state (\<lambda>s. s\<lparr>requirement_progress := im_remove job (requirement_progress s)\<rparr>)"


section \<open>What the operations keep\<close>

text \<open>
  The progress of a job as the runtime state has it, and whether its run is known.  Most of the agent leaves
  the requirements alone and forgets no run: \<open>calm m\<close>.
\<close>

definition recorded_progress :: "string \<Rightarrow> ('w, 'z) emitter_scheme \<Rightarrow> progress_state option" where
  "recorded_progress job s = rebuild_progress (snd (em_store s)) job"

definition run_exists :: "string \<Rightarrow> snapshot \<Rightarrow> bool" where
  "run_exists job s \<longleftrightarrow> map_of (runs s) (runtime_run_id job) \<noteq> None"

definition calm_snapshot :: "snapshot \<Rightarrow> snapshot \<Rightarrow> bool" where
  "calm_snapshot s s' \<longleftrightarrow> requirements s' = requirements s \<and> (\<forall>job. run_exists job s \<longrightarrow> run_exists job s')"

definition calm_rel :: "('w, 'z) emitter_scheme \<Rightarrow> ('w, 'z) emitter_scheme \<Rightarrow> bool" where
  "calm_rel s s' \<longleftrightarrow> calm_snapshot (snd (em_store s)) (snd (em_store s'))"

abbreviation calm :: "(('w, 'z) emitter_scheme, 'a) state \<Rightarrow> bool" where
  "calm m \<equiv> every m calm_rel"

interpretation calm: state_frame "calm_rel :: ('w, 'z) emitter_scheme \<Rightarrow> _"
  by unfold_locales (auto simp: calm_rel_def calm_snapshot_def)

named_theorems calm_intros \<open>operations that leave the requirements alone\<close>

lemmas calm_frames [calm_intros] = calm.frame_rules

lemma calm_same_store: "em_store s' = em_store s \<Longrightarrow> calm_rel s s'"
  by (simp add: calm_rel_def calm_snapshot_def)

lemmas calm_modify = calm.frame_modify [OF calm_same_store]

lemmas calm_state = calm.frame_state [OF calm_same_store]

lemma calm_now [calm_intros]: "calm (e_now E)"
  unfolding e_now_def by (rule calm_state) (simp split: prod.split)

lemma calm_uuid [calm_intros]: "calm (e_uuid E)"
  unfolding e_uuid_def by (rule calm_state) (simp split: prod.split)

lemma calm_snapshot_read [calm_intros]: "calm e_snapshot"
  unfolding e_snapshot_def by (intro calm_intros)

lemma calm_append: "(\<And>s. calm_snapshot s (apply_event ev s)) \<Longrightarrow> calm (e_append E ev)"
  by (simp add: every_def wp_e_append reduce_event_def Let_def calm_rel_def calm_snapshot_def run_exists_def
      split: prod.split)

lemma calm_events:
  "calm_snapshot s (apply_event (RunUpserted r) s)" "calm_snapshot s (apply_event (TurnUpserted t) s)"
  "calm_snapshot s (apply_event (TaskUpserted x) s)" "calm_snapshot s (apply_event (SuspensionUpserted p) s)"
  "calm_snapshot s (apply_event (ToolInvocationUpserted i) s)" "calm_snapshot s (apply_event (MessageAppended g) s)"
  "calm_snapshot s (apply_event (ProjectionHintRecorded a b c d) s)"
  by (auto simp: calm_snapshot_def run_exists_def update_conv' im_get_modify)
lemma calm_record [calm_intros]:
  "calm (e_append E (RunUpserted r))" "calm (e_append E (TurnUpserted t))" "calm (e_append E (TaskUpserted x))"
  "calm (e_append E (SuspensionUpserted p))" "calm (e_append E (ToolInvocationUpserted i))"
  "calm (e_append E (MessageAppended g))" "calm (e_append E (ProjectionHintRecorded a b c d))"
  by (intro calm_append calm_events)+

lemma calm_publish [calm_intros]: "calm (publish E e m p)"
  unfolding publish_def record_timeline_def publish_internal_def Let_def by (intro calm_intros calm_modify) simp_all

lemma calm_publish_internal [calm_intros]: "calm (publish_internal E m p)"
  unfolding publish_internal_def by (intro calm_intros calm_modify) simp

lemma calm_lifecycle [calm_intros]: "calm (publish_tool_lifecycle E e m p)" "calm (publish_worker E e m ws t)"
  unfolding publish_tool_lifecycle_def publish_worker_def by (intro calm_intros)+

lemma calm_failure [calm_intros]: "calm (record_failure E m e)"
  unfolding record_failure_def by (intro calm_intros calm_modify) simp

lemma calm_hints [calm_intros]: "calm (record_job_lifecycle_hint E job l st)" "calm (record_summary E x)"
  unfolding record_job_lifecycle_hint_def record_projection_hint_def record_summary_def
  by (intro calm_intros calm_modify, simp?)+

lemma calm_upserts [calm_intros]:
  "calm (upsert_run E m rst turn)" "calm (upsert_turn E m source tst)" "calm (upsert_task E m ph st d err)"
  "calm (upsert_suspension E m q tid iid k sst)" "calm (append_transcript_message E m x)"
  unfolding upsert_turn_def upsert_run_def upsert_task_def upsert_suspension_def append_transcript_message_def Let_def
  by (intro calm_intros)+

lemma calm_transcript [calm_intros]:
  "calm (append_transcript_messages E m xs)" "calm (append_subtask_blocked_transcript E m r b)"
  unfolding append_transcript_messages_def append_subtask_blocked_transcript_def Let_def by (intro calm_intros)+

lemma calm_caches [calm_intros]: "calm (cache_question job q)" "calm (cache_progress job p)" "calm (clear_requirement job)"
  unfolding cache_question_def cache_progress_def clear_requirement_def by (rule calm_modify, simp)+

lemma calm_questions [calm_intros]:
  "calm (store_question E job q)" "calm (ask_user E job m q k)" "calm (question_state job h)"
  "calm (upsert_runtime_tool_invocation E m iv pr)"
  unfolding store_question_def ask_user_def question_state_def upsert_runtime_tool_invocation_def Let_def
  by (intro calm_intros calm_modify, simp?)+

lemma calm_coordinator [calm_intros]:
  "calm (register_subtask_blocked E job m sid r)" "calm (register_plan_approval E job m sid pp)"
  "calm (clear_question E job)" "calm (publish_question_asked E m key q w l d c pl)"
  unfolding register_subtask_blocked_def register_plan_approval_def clear_question_def publish_question_asked_def Let_def
  by (intro calm_intros calm_modify, simp?)+

lemma calm_requirement_state [calm_intros]: "calm (requirement_state job h)"
  unfolding requirement_state_def Let_def by (intro calm_intros calm_modify) simp


section \<open>The recorded progress\<close>

lemma calmD:
  "calm m \<Longrightarrow> wp m (\<lambda>_ s'. recorded_progress job s' = recorded_progress job s \<and>
     (run_exists job (snd (em_store s)) \<longrightarrow> run_exists job (snd (em_store s')))) s"
  by (simp add: every_def wp_run calm_rel_def calm_snapshot_def recorded_progress_def rebuild_progress_def)

lemma requirement_id_inj [simp]: "runtime_requirement_id a = runtime_requirement_id b \<longleftrightarrow> a = b"
  by (simp add: runtime_requirement_id_def)

lemma recorded_world [simp]: "recorded_progress job (s\<lparr>em_world := w\<rparr>) = recorded_progress job s"
  by (simp add: recorded_progress_def)

text \<open>Writing the requirement of a job records the progress, and leaves other jobs and the runs alone.\<close>

lemma upsert_requirement_spec:
  "wp (upsert_runtime_requirement E m p st) (\<lambda>i s'.
     recorded_progress job s' = (if job = in_id m then Some p else recorded_progress job s) \<and>
     runs (snd (em_store s')) = runs (snd (em_store s)) \<and>
     map_option req_status (map_of (requirements (snd (em_store s'))) (runtime_requirement_id (in_id m))) = Some st) s"
  by (auto simp: upsert_runtime_requirement_def Let_def wp_rules recorded_progress_def rebuild_progress_def reduce_event_def
      update_conv' split: prod.split option.split)

lemma requirement_state_spec:
  "wp (requirement_state job h) (\<lambda>r s'. em_store s' = em_store s \<and> r = (case recorded_progress job s of
       None \<Rightarrow> map_of (requirement_progress s) job | Some p \<Rightarrow> Some p)) s"
  by (auto simp: requirement_state_def Let_def wp_rules recorded_progress_def rebuild_progress_def cache_progress_def
      split: option.split)

lemma cache_progress_spec: "wp (cache_progress job p) (\<lambda>_ s'. em_store s' = em_store s) s"
  by (simp add: cache_progress_def wp_rules)

lemma ensure_requirement_spec:
  "wp (ensure_requirement E m n) (\<lambda>p s'. recorded_progress (in_id m) s' = Some p \<and>
     (run_exists job (snd (em_store s)) \<longrightarrow> run_exists job (snd (em_store s'))) \<and>
     p = (case recorded_progress (in_id m) s of
            Some q \<Rightarrow> q
          | None \<Rightarrow> unwrap_or \<lparr>pg_request = in_content m, pg_attempted = 0, pg_max_rounds = n, pg_fingerprint = None,
              pg_reason = None\<rparr> (map_of (requirement_progress s) (in_id m)))) s"
  unfolding ensure_requirement_def Let_def
  apply (rule wp_seq [OF requirement_state_spec])
  apply (rule wp_seq [OF cache_progress_spec])
  apply (rule wp_seq [OF calmD [where job = job and m = "upsert_task _ _ _ _ _ _"]], rule calm_intros)
  apply (rule wp_seq [OF upsert_requirement_spec [where job = "in_id m"]])
  apply (auto simp: wp_return recorded_progress_def run_exists_def unwrap_or_def split: option.splits)
  done

lemma update_requirement_spec:
  assumes "recorded_progress job s = Some p" "run_exists job (snd (em_store s))"
  shows "wp (update_requirement E job k fp reason) (\<lambda>_ s'.
    recorded_progress job s' = Some (p\<lparr>pg_attempted := k, pg_fingerprint := fp, pg_reason := reason\<rparr>) \<and>
    run_exists job (snd (em_store s'))) s"
proof -
  let ?p = "p\<lparr>pg_attempted := k, pg_fingerprint := fp, pg_reason := reason\<rparr>"
  have known: "wp (requirement_state job True) (\<lambda>r s'. em_store s' = em_store s \<and> r = Some p) s"
    using requirement_state_spec [of job True s] assms(1) by simp
  have "wp (do {
      s \<leftarrow> e_snapshot;
      (case inbound_from_snapshot s job ?p of
         None \<Rightarrow> State_Monad.return ()
       | Some m \<Rightarrow> do { upsert_runtime_requirement E m ?p FollowupScheduled; State_Monad.return () })
    }) (\<lambda>_ s'. recorded_progress job s' = Some ?p \<and> run_exists job (snd (em_store s'))) s'"
    if same: "em_store s' = em_store s" for s'
  proof -
    obtain run where "map_of (runs (snd (em_store s'))) (runtime_run_id job) = Some run"
      using assms(2) same by (auto simp: run_exists_def)
    then obtain m where m: "inbound_from_snapshot (snd (em_store s')) job ?p = Some m" "in_id m = job"
      by (simp add: inbound_from_snapshot_def)
    have "wp (upsert_runtime_requirement E m ?p FollowupScheduled)
        (\<lambda>_ s''. recorded_progress job s'' = Some ?p \<and> run_exists job (snd (em_store s''))) s'"
      by (rule wp_mono [OF upsert_requirement_spec [where job = job]]) (use m(2) same assms(2) in \<open>auto simp: run_exists_def\<close>)
    then show ?thesis
      by (simp add: wp_bind wp_e_snapshot m(1) wp_return_point)
  qed
  note rest = this
  show ?thesis
    unfolding update_requirement_def Let_def
    apply (rule wp_seq [OF known])
    apply (elim conjE)
    apply (simp only: option.case)
    apply (rule wp_seq [OF cache_progress_spec])
    apply (rule rest)
    apply simp
    done
qed

text \<open>
  The budget of follow-up rounds survives a restart: progress written for a job whose run is known is read
  back from the runtime state by a coordinator with any caches, before the next round.\<close>

theorem rounds_survive_restart:
  assumes "recorded_progress (in_id m) s = Some p" "run_exists (in_id m) (snd (em_store s))"
    "em_store s2 = em_store (snd (run_state (update_requirement E (in_id m) k fp reason) s))"
  shows "fst (run_state (ensure_requirement E m n) s2) =
    p\<lparr>pg_attempted := k, pg_fingerprint := fp, pg_reason := reason\<rparr>"
proof -
  have "recorded_progress (in_id m) s2 = Some (p\<lparr>pg_attempted := k, pg_fingerprint := fp, pg_reason := reason\<rparr>)"
    using update_requirement_spec [OF assms(1,2), of E k fp reason] assms(3) by (simp add: wp_run recorded_progress_def)
  then show ?thesis
    using ensure_requirement_spec [of E m n _ s2] by (simp add: wp_run)
qed

definition new_tracker :: "nat \<times> snapshot \<Rightarrow> 'w \<Rightarrow> 'w tracker" where
  "new_tracker store w = coordinator.extend (new_coordinator store w) (tracker.fields [])"

lemma rounds_survive_restart_witness:
  "let s1 = snd (run_state (do {
         upsert_run demo_agent demo_inbound RunRunning None; ensure_requirement demo_agent demo_inbound 3 })
         (new_tracker (0, empty_snapshot) ()));
       s2 = snd (run_state (update_requirement demo_agent ''j'' 2 (Some ''f'') None) s1)
   in pg_attempted (fst (run_state (ensure_requirement demo_agent demo_inbound 3) (new_tracker (em_store s2) ()))) = 2"
proof -
  let ?s = "snd (run_state (do {
         upsert_run demo_agent demo_inbound RunRunning None; ensure_requirement demo_agent demo_inbound 3 })
         (new_tracker (0, empty_snapshot) ()))"
  have "recorded_progress (in_id demo_inbound) ?s = Some \<lparr>pg_request = ''hi'', pg_attempted = 0, pg_max_rounds = 3,
      pg_fingerprint = None, pg_reason = None\<rparr>" "run_exists (in_id demo_inbound) (snd (em_store ?s))"
    by code_simp+
  moreover have "em_store (new_tracker st ()) = st" for st :: "nat \<times> snapshot"
    by (simp add: new_tracker_def new_coordinator_def new_emitter_def emitter.defs coordinator.defs)
  ultimately show ?thesis
    using rounds_survive_restart [of demo_inbound ?s _ "new_tracker (em_store (snd (run_state
        (update_requirement demo_agent ''j'' 2 (Some ''f'') None) ?s))) ()" demo_agent 2 "Some ''f''" None 3]
    by (simp add: Let_def demo_inbound_def)
qed

end
