(* ===== verification/Prompt_Assembly.thy ===== *)
theory Prompt_Assembly
  imports Strings "HOL-Library.Multiset"
begin

text \<open>
  The system prompt (\<open>prompt/assembly.rs\<close>, \<open>sections.rs\<close>, \<open>types.rs\<close>): sections with a weight, sorted by it
  and joined with an empty line.
\<close>

record prompt_section =
  sec_id :: string
  sec_content :: string
  sec_order :: int

record system_prompt =
  sp_text :: string
  sp_section_ids :: "string list"

record environment_info =
  ei_platform :: "string option"
  ei_working_dir :: "string option"
  ei_custom :: "(string \<times> string) list"

definition add_section :: "prompt_section \<Rightarrow> prompt_section list \<Rightarrow> prompt_section list" where
  "add_section x xs = xs @ [x]"

definition add_text :: "string \<Rightarrow> string \<Rightarrow> int \<Rightarrow> prompt_section list \<Rightarrow> prompt_section list" where
  "add_text i c n xs = xs @ [\<lparr>sec_id = i, sec_content = c, sec_order = n\<rparr>]"

definition build_prompt :: "prompt_section list \<Rightarrow> system_prompt" where
  "build_prompt xs =
     (let sorted = sort_key sec_order xs in
      \<lparr>sp_text = str_join ''\<newline>\<newline>'' (map sec_content sorted), sp_section_ids = map sec_id sorted\<rparr>)"

definition default_identity_prompt :: string where
  "default_identity_prompt = ''You are {agent_name}, an AI assistant powered by Anima runtime. '' @
     ''Follow user instructions carefully and use available tools when needed.''"

definition identity_section :: "string \<Rightarrow> prompt_section" where
  "identity_section n =
     \<lparr>sec_id = ''identity'', sec_content = str_replace ''{agent_name}'' n default_identity_prompt, sec_order = 0\<rparr>"

definition tool_usage_section :: "string list \<Rightarrow> prompt_section" where
  "tool_usage_section names =
     \<lparr>sec_id = ''tools_guidance'',
      sec_content = (if names = [] then ''No tools are currently available.''
        else ''You have access to the following tools: '' @ str_join '', '' names @ ''. '' @
          ''Use them when appropriate to accomplish the user'' @ utf8 [0x27] @ ''s request.''),
      sec_order = 100\<rparr>"

definition completion_status_section :: prompt_section where
  "completion_status_section =
     \<lparr>sec_id = ''completion_status'',
      sec_content = utf8 [0xE5, 0x9C, 0xA8, 0xE6, 0xAF, 0x8F, 0xE6, 0xAC, 0xA1, 0xE5, 0x9B, 0x9E, 0xE5, 0xA4, 0x8D, 0xE7, 0x9A, 0x84, 0xE6, 0x9C, 0x80, 0xE6, 0x9C, 0xAB, 0xE5, 0xB0, 0xBE, 0xEF, 0xBC, 0x8C, 0xE9, 0x99, 0x84, 0xE5, 0x8A, 0xA0, 0xE4, 0xB8, 0x80, 0xE4, 0xB8, 0xAA] @ '' XML '' @ utf8 [0xE6, 0xA0, 0x87, 0xE8, 0xAE, 0xB0, 0xE8, 0xA1, 0xA8, 0xE7, 0xA4, 0xBA, 0xE4, 0xBB, 0xBB, 0xE5, 0x8A, 0xA1, 0xE5, 0xAE, 0x8C, 0xE6, 0x88, 0x90, 0xE7, 0x8A, 0xB6, 0xE6, 0x80, 0x81, 0xEF, 0xBC, 0x9A] @ ''\<newline>- <completion_status>complete</completion_status> '' @ utf8 [0xE2, 0x80, 0x94] @ '' '' @ utf8 [0xE5, 0xB7, 0xB2, 0xE5, 0xAE, 0x8C, 0xE6, 0x95, 0xB4, 0xE6, 0xBB, 0xA1, 0xE8, 0xB6, 0xB3, 0xE7, 0x94, 0xA8, 0xE6, 0x88, 0xB7, 0xE8, 0xAF, 0xB7, 0xE6, 0xB1, 0x82] @ ''\<newline>- <completion_status>partial</completion_status> '' @ utf8 [0xE2, 0x80, 0x94] @ '' '' @ utf8 [0xE9, 0x83, 0xA8, 0xE5, 0x88, 0x86, 0xE5, 0xAE, 0x8C, 0xE6, 0x88, 0x90, 0xEF, 0xBC, 0x8C, 0xE4, 0xBB, 0x8D, 0xE9, 0x9C, 0x80, 0xE7, 0xBB, 0xA7, 0xE7, 0xBB, 0xAD] @ ''\<newline>- <completion_status>needs_input</completion_status> '' @ utf8 [0xE2, 0x80, 0x94] @ '' '' @ utf8 [0xE9, 0x9C, 0x80, 0xE8, 0xA6, 0x81, 0xE7, 0x94, 0xA8, 0xE6, 0x88, 0xB7, 0xE6, 0x8F, 0x90, 0xE4, 0xBE, 0x9B, 0xE9, 0xA2, 0x9D, 0xE5, 0xA4, 0x96, 0xE4, 0xBF, 0xA1, 0xE6, 0x81, 0xAF] @ ''\<newline>'' @ utf8 [0xE6, 0xAD, 0xA4, 0xE6, 0xA0, 0x87, 0xE8, 0xAE, 0xB0, 0xE5, 0xBF, 0x85, 0xE9, 0xA1, 0xBB, 0xE5, 0x87, 0xBA, 0xE7, 0x8E, 0xB0, 0xE5, 0x9C, 0xA8, 0xE5, 0x9B, 0x9E, 0xE5, 0xA4, 0x8D, 0xE6, 0xAD, 0xA3, 0xE6, 0x96, 0x87, 0xE4, 0xB9, 0x8B, 0xE5, 0x90, 0x8E, 0xEF, 0xBC, 0x8C, 0xE4, 0xB8, 0x8D, 0xE8, 0xA6, 0x81, 0xE7, 0x9C, 0x81, 0xE7, 0x95, 0xA5, 0xE3, 0x80, 0x82],
      sec_order = 300\<rparr>"

definition environment_section :: "environment_info \<Rightarrow> prompt_section" where
  "environment_section e =
     (let parts = (case ei_platform e of None \<Rightarrow> [] | Some p \<Rightarrow> [''Platform: '' @ p]) @
            (case ei_working_dir e of None \<Rightarrow> [] | Some d \<Rightarrow> [''Working directory: '' @ d]) @
            map (\<lambda>(k, v). k @ '': '' @ v) (ei_custom e)
      in \<lparr>sec_id = ''environment'',
          sec_content = (if parts = [] then ''No environment information available.''
            else ''# Environment\<newline>'' @ str_join ''\<newline>'' parts),
          sec_order = 200\<rparr>)"

text \<open>The prompt of the loops: the configured text, then how to mark the completion.\<close>

definition system_text :: "string \<Rightarrow> string" where
  "system_text t = sp_text (build_prompt (add_section completion_status_section (add_text ''identity'' t 0 [])))"

lemma system_text_parts: "system_text t = t @ ''\<newline>\<newline>'' @ sec_content completion_status_section"
  by (simp add: system_text_def build_prompt_def add_section_def add_text_def completion_status_section_def)

text \<open>
  The order of the sections of a prompt depends on the order in which they are added only among sections of
  equal weight.\<close>

theorem prompt_ignores_insertion_order:
  assumes "\<And>n. filter (\<lambda>x. sec_order x = n) xs = filter (\<lambda>x. sec_order x = n) ys"
  shows "build_prompt xs = build_prompt ys"
proof -
  have "mset xs = mset ys"
  proof (rule multiset_eqI)
    fix x :: prompt_section
    have "count (mset zs) x = count (mset (filter (\<lambda>y. sec_order y = sec_order x) zs)) x" for zs
      by simp
    then show "count (mset xs) x = count (mset ys) x"
      using assms by metis
  qed
  moreover have f: "filter (\<lambda>x. sec_order k = sec_order x) zs = filter (\<lambda>x. sec_order x = sec_order k) zs"
    for k :: prompt_section and zs :: "prompt_section list"
    by (rule filter_cong) auto
  ultimately have "sort_key sec_order xs = sort_key sec_order ys"
    by (intro properties_for_sort_key) (simp_all add: sort_key_stable assms f)
  then show ?thesis
    by (simp add: build_prompt_def)
qed

lemma prompt_ignores_insertion_order_witness:
  "build_prompt [identity_section ''a'', completion_status_section] =
   build_prompt [completion_status_section, identity_section ''a'']"
  by (rule prompt_ignores_insertion_order) (simp add: identity_section_def completion_status_section_def)

end
