(* ===== verification/Agent_Core.thy ===== *)
theory Agent_Core
  imports Requirement_Progress Sessions Context_Manager Metrics Lru_Cache Prompt_Assembly
begin

text \<open>
  The state of the agent and the helpers its flows share (\<open>agent/core.rs\<close>, \<open>agent/context_types.rs\<close>), the
  sessions with the upstream (\<open>agent/session_bootstrap.rs\<close>), calls through the worker pool
  (\<open>execution/driver.rs\<close>, \<open>execute_api_call_request\<close> of \<open>agent/initial_execution.rs\<close>) and the model's answer to
  a blocked subtask (\<open>agent/escalation.rs\<close>).

  The state extends that of the coordinators: conversations in memory, sessions, contexts, metrics, the cache
  of results, and the messages handed to the bus for the channels.  The worker pool is what it answers to a
  task (\<open>submit_task(t).recv()\<close>, \<open>None\<close> when the channel is closed); the events a worker publishes meanwhile
  are those of theory \<open>Worker\<close>.  Provider, tools, hooks and pool act on the world and cannot reach the agent.
\<close>

section \<open>State\<close>

record session_context =
  mem_session_id :: "string option"
  mem_chat_id :: string
  mem_channel :: string
  mem_history :: "json list"

record 'w core_agent = "'w tracker" +
  ag_memory :: "(string, session_context) imap"
  ag_sessions :: session_store
  ag_contexts :: context_manager
  ag_metrics :: metrics
  ag_cache :: lru_cache
  ag_outbox :: "outbound list"

type_synonym ('w, 'a) ag_m = "('w core_agent, 'a) state"

record 'w core_env =
  ce_env :: "'w agent_env"
  ce_provider :: "'w provider"
  ce_judge :: "'w provider option"
  ce_tools :: "'w tool_registry"
  ce_checker :: "permission_checker option"
  ce_hooks :: "'w hook_registry option"
  ce_thread_panic :: "parsed_tool_use \<Rightarrow> 'w \<Rightarrow> 'w option"
  ce_prompts :: prompts_config
  ce_parse :: json_parser
  ce_lower :: "string \<Rightarrow> string"
  ce_submit :: "task \<Rightarrow> 'w \<Rightarrow> task_result option \<times> 'w"

record execution_ctx =
  xc_memory_key :: string
  xc_history_id :: string
  xc_session_id :: string
  xc_plan_type :: string
  xc_stages :: stage_durations
  xc_cache_hit :: bool

datatype success_source = FromInitial | FromQuestion | FromFollowup

fun turn_source_from_success :: "success_source \<Rightarrow> turn_source" where
  "turn_source_from_success FromInitial = SourceInitial"
| "turn_source_from_success FromQuestion = SourceQuestion"
| "turn_source_from_success FromFollowup = SourceFollowup"

definition on_world :: "('w \<Rightarrow> 'a \<times> 'w) \<Rightarrow> ('w, 'z, 'a) em_m" where
  "on_world f = State (\<lambda>s. case f (em_world s) of (a, w) \<Rightarrow> (a, s\<lparr>em_world := w\<rparr>))"

definition max_sessions :: nat where "max_sessions = 1000"

definition max_session_history :: nat where "max_session_history = 200"

definition max_requirement_rounds :: nat where "max_requirement_rounds = 3"


section \<open>Conversations\<close>

definition conversation_id :: "inbound \<Rightarrow> string" where
  "conversation_id m = unwrap_or (in_id m) (in_chat_id m)"

text \<open>A new conversation evicts the oldest one when there are too many.\<close>

definition ensure_memory :: "inbound \<Rightarrow> string \<Rightarrow> (string, session_context) imap \<Rightarrow> (string, session_context) imap" where
  "ensure_memory m key mem =
     (let mem = (if key \<notin> set (im_keys mem) \<and> max_sessions \<le> length mem then tl mem else mem)
      in or_insert key \<lparr>mem_session_id = None, mem_chat_id = conversation_id m, mem_channel = in_channel m, mem_history = []\<rparr> mem)"

definition account_of :: "inbound \<Rightarrow> string option" where
  "account_of m = json_str ''account-id'' (in_metadata m)"

definition ensure_context :: "'w core_env \<Rightarrow> inbound \<Rightarrow> string \<Rightarrow> ('w, unit) ag_m" where
  "ensure_context C m key = do {
     modify_state (\<lambda>s. s\<lparr>ag_memory := ensure_memory m key (ag_memory s)\<rparr>);
     i \<leftarrow> e_uuid (ce_env C);
     now \<leftarrow> e_now (ce_env C);
     modify_state (\<lambda>s. s\<lparr>ag_sessions := snd (find_or_create_session i now (in_channel m)
       \<lparr>fs_session_id = in_chat_id m, fs_routing_key = in_session_key m, fs_account_id = account_of m\<rparr> (ag_sessions s))\<rparr>)
   }"

definition append_history :: "string \<Rightarrow> json \<Rightarrow> ('w, unit) ag_m" where
  "append_history key x = modify_state (\<lambda>s. s\<lparr>ag_memory :=
     im_modify key (\<lambda>c. c\<lparr>mem_history := push_bounded max_session_history x (mem_history c)\<rparr>) (ag_memory s)\<rparr>)"

definition append_session_store_history :: "'w core_env \<Rightarrow> string \<Rightarrow> json \<Rightarrow> ('w, unit) ag_m" where
  "append_session_store_history C i x = do {
     now \<leftarrow> e_now (ce_env C);
     modify_state (\<lambda>s. s\<lparr>ag_sessions := snd (add_to_history now i x (ag_sessions s))\<rparr>)
   }"

definition append_context_history :: "string \<Rightarrow> json \<Rightarrow> ('w, unit) ag_m" where
  "append_context_history i x = modify_state (\<lambda>s. s\<lparr>ag_contexts := add_to_session_history i x (ag_contexts s)\<rparr>)"

definition count_metric :: "string \<Rightarrow> ('w, unit) ag_m" where
  "count_metric k = modify_state (\<lambda>s. s\<lparr>ag_metrics := counter_inc k (ag_metrics s)\<rparr>)"


section \<open>Responses\<close>

definition publish_outbound :: "'w core_env \<Rightarrow> make_outbound_input \<Rightarrow> ('w, outbound) ag_m" where
  "publish_outbound C m = do {
     i \<leftarrow> e_uuid (ce_env C);
     let out = make_outbound i m;
     modify_state (\<lambda>s. s\<lparr>ag_outbox := ag_outbox s @ [out]\<rparr>);
     State_Monad.return out
   }"

definition send_response :: "'w core_env \<Rightarrow> inbound \<Rightarrow> string \<Rightarrow> ('w, outbound) ag_m" where
  "send_response C m t = publish_outbound C
     \<lparr>mo_channel = in_channel m, mo_account_id = account_of m, mo_chat_id = in_chat_id m, mo_content = t, mo_media = None,
      mo_stage = Some ''final'', mo_reply_target = Some (in_sender_id m), mo_sender_id = None\<rparr>"

definition send_error_response :: "'w core_env \<Rightarrow> inbound \<Rightarrow> error_info \<Rightarrow> ('w, outbound) ag_m" where
  "send_error_response C m e = publish_outbound C
     \<lparr>mo_channel = in_channel m, mo_account_id = None, mo_chat_id = in_chat_id m,
      mo_content = ''Error ['' @ info_code e @ '']: '' @ info_user_message e, mo_media = None,
      mo_stage = Some ''final'', mo_reply_target = Some (in_sender_id m), mo_sender_id = None\<rparr>"

definition assemble_turn_context ::
  "'w core_env \<Rightarrow> inbound \<Rightarrow> assembly_mode \<Rightarrow> string \<Rightarrow> pending_question option \<Rightarrow> string option \<Rightarrow>
   ('w, assembly_result) ag_m" where
  "assemble_turn_context C m md sid q fp = do {
     p \<leftarrow> ensure_requirement (ce_env C) m max_requirement_rounds;
     s \<leftarrow> State_Monad.get;
     State_Monad.return (assemble_context
       \<lparr>ar_mode = md, ar_inbound_id = in_id m, ar_channel = in_channel m, ar_chat_id = in_chat_id m,
        ar_user_request = pg_request p, ar_session_id = sid, ar_question = q, ar_summary = latest_summary m s,
        ar_attempted = pg_attempted p, ar_max_rounds = pg_max_rounds p, ar_previous = pg_fingerprint p,
        ar_followup_prompt = fp\<rparr>)
   }"


section \<open>Calls through the worker pool\<close>

datatype execution_kind = KindInitial | KindQuestion | KindFollowup

fun execution_kind_label :: "execution_kind \<Rightarrow> string" where
  "execution_kind_label KindInitial = ''initial''"
| "execution_kind_label KindQuestion = ''question_continuation''"
| "execution_kind_label KindFollowup = ''followup''"

fun execution_kind_debug :: "execution_kind \<Rightarrow> string" where
  "execution_kind_debug KindInitial = ''Initial''"
| "execution_kind_debug KindQuestion = ''QuestionContinuation''"
| "execution_kind_debug KindFollowup = ''Followup''"

record api_request =
  rq_trace_id :: string
  rq_session_id :: string
  rq_content :: string
  rq_kind :: execution_kind
  rq_metadata :: "json option"

text \<open>The text of a closed channel's error.\<close>

definition recv_error_text :: string where
  "recv_error_text = ''receiving on an empty and disconnected channel''"

definition build_api_call_task :: "'w core_env \<Rightarrow> api_request \<Rightarrow> ('w, task) ag_m" where
  "build_api_call_task C r = do {
     i \<leftarrow> e_uuid (ce_env C);
     State_Monad.return (make_task i []
       \<lparr>mt_trace_id = Some (rq_trace_id r), mt_type = ''api-call'',
        mt_payload = Some (JObject [(''opencode-session-id'', JString (rq_session_id r)), (''content'', JString (rq_content r))]),
        mt_priority = None, mt_timeout_ms = None, mt_metadata = rq_metadata r\<rparr>)
   }"

definition execute_api_call :: "'w core_env \<Rightarrow> api_request \<Rightarrow> ('w, runtime_error + task_result) ag_m" where
  "execute_api_call C r = do {
     t \<leftarrow> build_api_call_task C r;
     answer \<leftarrow> on_world (ce_submit C t);
     State_Monad.return (case answer of
         Some x \<Rightarrow> Inr x
       | None \<Rightarrow> Inl (runtime_error TaskExecutionFailed PlanExecute
           (''Failed to receive '' @ execution_kind_debug (rq_kind r) @ '' result: '' @ recv_error_text)))
   }"

definition assigned_payload :: "string \<Rightarrow> string \<Rightarrow> task \<Rightarrow> api_request \<Rightarrow> string \<Rightarrow> json" where
  "assigned_payload key plan t r summary = JObject
     [(''memory_key'', JString key), (''plan_type'', JString plan), (''task_id'', JString (tk_id t)),
      (''task_type'', JString ''api-call''), (''execution_kind'', JString (execution_kind_label (rq_kind r))),
      (''task_summary'', JString summary), (''task_preview'', JString (truncate_preview (rq_content r) 160)),
      (''opencode_session_id'', JString (rq_session_id r))]"

definition api_call_payload :: "string \<Rightarrow> string \<Rightarrow> task \<Rightarrow> api_request \<Rightarrow> (string \<times> json) list \<Rightarrow> json" where
  "api_call_payload key plan t r extra = JObject
     [(''memory_key'', JString key), (''plan_type'', JString plan), (''task_id'', JString (tk_id t)),
      (''task_type'', JString ''api-call''), (''execution_kind'', JString (execution_kind_label (rq_kind r))),
      (''request_preview'', JString (truncate_preview (rq_content r) 160)),
      (''opencode_session_id'', JString (rq_session_id r)),
      (''question_id'', get_or_null ''question_id'' (JObject extra))]"

definition execute_api_call_request ::
  "'w core_env \<Rightarrow> inbound \<Rightarrow> string \<Rightarrow> string \<Rightarrow> api_request \<Rightarrow> string \<Rightarrow> (string \<times> json) list \<Rightarrow>
   ('w, runtime_error + task_result) ag_m" where
  "execute_api_call_request C m key plan r summary extra = do {
     t \<leftarrow> build_api_call_task C r;
     publish (ce_env C) ''worker_task_assigned'' m (with_fields extra (assigned_payload key plan t r summary));
     publish (ce_env C) ''api_call_started'' m (api_call_payload key plan t r extra);
     execute_api_call C r
   }"


section \<open>Upstream sessions\<close>

definition existing_session_id :: "string \<Rightarrow> ('w, string option) ag_m" where
  "existing_session_id key = do {
     s \<leftarrow> State_Monad.get;
     State_Monad.return (Option.bind (map_of (ag_memory s) key) mem_session_id)
   }"

definition store_session_id :: "string \<Rightarrow> string \<Rightarrow> ('w, unit) ag_m" where
  "store_session_id key i = modify_state (\<lambda>s. s\<lparr>ag_memory :=
     im_modify key (\<lambda>c. c\<lparr>mem_session_id := Some i\<rparr>) (ag_memory s)\<rparr>)"

text \<open>The error of a failed creation, by the classification of its text.\<close>

definition session_error :: "string \<Rightarrow> runtime_error" where
  "session_error t =
     (let info = classify_runtime_error (Some t) (Some (stage_str SessionCreate)) in
      runtime_error
        (if info_code info = ''worker_unavailable'' then WorkerUnavailable
         else if info_code info = ''worker_capacity_exhausted'' then WorkerCapacityExhausted
         else SessionCreateFailed)
        (if info_stage info = ''worker_pool'' then WorkerPool else SessionCreate) t)"

definition request_new_session :: "'w core_env \<Rightarrow> inbound \<Rightarrow> string \<Rightarrow> ('w, runtime_error + task_result) ag_m" where
  "request_new_session C m key = do {
     i \<leftarrow> e_uuid (ce_env C);
     let t = make_task i [] \<lparr>mt_trace_id = Some (in_id m), mt_type = ''session-create'', mt_payload = Some (JObject []),
       mt_priority = None, mt_timeout_ms = None, mt_metadata = None\<rparr>;
     publish (ce_env C) ''worker_task_assigned'' m (JObject
       [(''memory_key'', JString key), (''plan_type'', JString ''session-create''), (''task_id'', JString (tk_id t)),
        (''task_type'', JString (tk_type t)), (''task_summary'', JString (utf8 [0xE4, 0xB8, 0xBA, 0xE5, 0xBD, 0x93, 0xE5, 0x89, 0x8D] @ '' job '' @ utf8 [0xE5, 0x88, 0x9B, 0xE5, 0xBB, 0xBA, 0xE4, 0xB8, 0x8A, 0xE6, 0xB8, 0xB8, 0xE4, 0xBC, 0x9A, 0xE8, 0xAF, 0x9D])),
        (''task_preview'', JString (utf8 [0xE5, 0x88, 0x9B, 0xE5, 0xBB, 0xBA, 0xE6, 0x96, 0xB0, 0xE7, 0x9A, 0x84, 0xE4, 0xB8, 0x8A, 0xE6, 0xB8, 0xB8, 0xE4, 0xBC, 0x9A, 0xE8, 0xAF, 0x9D]))]);
     answer \<leftarrow> on_world (ce_submit C t);
     State_Monad.return (case answer of
         Some x \<Rightarrow> Inr x
       | None \<Rightarrow> Inl (session_error (''Failed to receive session-create result: '' @ recv_error_text)))
   }"

definition extract_created_session_id :: "task_result \<Rightarrow> runtime_error + string" where
  "extract_created_session_id r =
     (if res_status r \<noteq> ''success'' then
        Inl (session_error (unwrap_or (''Failed to create session: task status='' @ res_status r) (res_error r)))
      else (case res_error r of
              Some t \<Rightarrow> Inl (session_error t)
            | None \<Rightarrow>
                (case Option.bind (res_result r) (json_str ''opencode-session-id'') of
                   Some i \<Rightarrow> Inr i
                 | None \<Rightarrow> Inl (runtime_error SessionCreateFailed SessionCreate ''Failed to create session: no ID returned''))))"

definition get_or_create_session :: "'w core_env \<Rightarrow> inbound \<Rightarrow> string \<Rightarrow> ('w, runtime_error + string) ag_m" where
  "get_or_create_session C m key = do {
     known \<leftarrow> existing_session_id key;
     (case known of
        Some i \<Rightarrow> State_Monad.return (Inr i)
      | None \<Rightarrow> do {
          result \<leftarrow> request_new_session C m key;
          (case result of
             Inl e \<Rightarrow> State_Monad.return (Inl e)
           | Inr r \<Rightarrow>
               (case extract_created_session_id r of
                  Inl e \<Rightarrow> State_Monad.return (Inl e)
                | Inr i \<Rightarrow> do { store_session_id key i; State_Monad.return (Inr i) }))
        })
   }"


section \<open>Blocked subtasks\<close>

fun escalation_reason :: "blocked_reason \<Rightarrow> string" where
  "escalation_reason (MissingParameter n d) = utf8 [0xE7, 0xBC, 0xBA, 0xE5, 0xB0, 0x91, 0xE5, 0x8F, 0x82, 0xE6, 0x95, 0xB0] @ '' `'' @ n @ ''`: '' @ d"
| "escalation_reason (MissingContext w) = utf8 [0xE7, 0xBC, 0xBA, 0xE5, 0xB0, 0x91, 0xE4, 0xB8, 0x8A, 0xE4, 0xB8, 0x8B, 0xE6, 0x96, 0x87] @ '': '' @ w"
| "escalation_reason (NeedsDecision r) = utf8 [0xE9, 0x9C, 0x80, 0xE8, 0xA6, 0x81, 0xE5, 0x86, 0xB3, 0xE7, 0xAD, 0x96] @ '': '' @ r"
| "escalation_reason (MultipleOptions opts p) = utf8 [0xE5, 0xA4, 0x9A, 0xE9, 0x80, 0x89, 0xE9, 0xA1, 0xB9] @ '': '' @ p @ ''\<newline>'' @ utf8 [0xE9, 0x80, 0x89, 0xE9, 0xA1, 0xB9] @ '': '' @ str_join '', '' opts"

text \<open>The first text of a response, trimmed; nothing when it is empty or refuses.\<close>

definition resolving_text :: "content_block list \<Rightarrow> string option" where
  "resolving_text bs =
     (let t = trim (case block_texts bs of [] \<Rightarrow> [] | t # ts \<Rightarrow> t) in
      if t = [] \<or> str_contains ''CANNOT_RESOLVE'' t then None else Some t)"

definition try_llm_resolve_blocked :: "'w core_env \<Rightarrow> inbound \<Rightarrow> execution_ctx \<Rightarrow> blocked_reason \<Rightarrow> ('w, string option) ag_m" where
  "try_llm_resolve_blocked C m x reason = do {
     let p = str_replace ''{reason}'' (escalation_reason reason)
       (str_replace ''{request}'' (in_content m) (escalation_resolve (ce_prompts C)));
     r \<leftarrow> on_world (chat (ce_provider C) (default_chat_request\<lparr>
       req_messages := [\<lparr>chat_role = ChatUser, chat_content = [Text p]\<rparr>],
       req_metadata := JObject [(''session_id'', JString (xc_session_id x))]\<rparr>));
     State_Monad.return (case r of Inl e \<Rightarrow> None | Inr resp \<Rightarrow> resolving_text (resp_content resp))
   }"

definition try_auto_resolve_blocked :: "'w core_env \<Rightarrow> inbound \<Rightarrow> blocked_reason \<Rightarrow> string option" where
  "try_auto_resolve_blocked C m reason =
     (if trim (in_content m) = [] then None
      else (case reason of
              MissingParameter n d \<Rightarrow>
                if str_contains (ce_lower C n) (ce_lower C (in_content m))
                then Some (utf8 [0xE5, 0x8F, 0x82, 0xE6, 0x95, 0xB0] @ '' `'' @ n @ ''` '' @ utf8 [0xE5, 0x8F, 0xAF, 0xE4, 0xBB, 0x8E, 0xE7, 0x94, 0xA8, 0xE6, 0x88, 0xB7, 0xE5, 0x8E, 0x9F, 0xE5, 0xA7, 0x8B, 0xE8, 0xAF, 0xB7, 0xE6, 0xB1, 0x82, 0xE4, 0xB8, 0xAD, 0xE8, 0x8E, 0xB7, 0xE5, 0x8F, 0x96] @ '': '' @ in_content m) else None
            | MissingContext w \<Rightarrow>
                if str_contains (ce_lower C w) (ce_lower C (in_content m))
                then Some (utf8 [0xE6, 0x89, 0x80, 0xE9, 0x9C, 0x80, 0xE4, 0xB8, 0x8A, 0xE4, 0xB8, 0x8B, 0xE6, 0x96, 0x87] @ '' `'' @ w @ ''` '' @ utf8 [0xE5, 0x8F, 0xAF, 0xE4, 0xBB, 0x8E, 0xE7, 0x94, 0xA8, 0xE6, 0x88, 0xB7, 0xE5, 0x8E, 0x9F, 0xE5, 0xA7, 0x8B, 0xE8, 0xAF, 0xB7, 0xE6, 0xB1, 0x82, 0xE4, 0xB8, 0xAD, 0xE8, 0x8E, 0xB7, 0xE5, 0x8F, 0x96] @ '': '' @ in_content m) else None
            | _ \<Rightarrow> None))"

text \<open>\<open>serde_json::from_value\<close> of a blocked reason: the tag, then the fields of its variant.\<close>

fun json_strings :: "json list \<Rightarrow> string list option" where
  "json_strings [] = Some []"
| "json_strings (JString t # js) = map_option ((#) t) (json_strings js)"
| "json_strings (j # js) = None"

definition parse_blocked :: "json \<Rightarrow> blocked_reason option" where
  "parse_blocked j = do {
     k \<leftarrow> json_str ''kind'' j;
     if k = ''missing_parameter'' then do {
       n \<leftarrow> json_str ''name'' j; d \<leftarrow> json_str ''description'' j; Some (MissingParameter n d) }
     else if k = ''missing_context'' then map_option MissingContext (json_str ''what_needed'' j)
     else if k = ''multiple_options'' then do {
       opts \<leftarrow> (case json_get ''options'' j of Some (JArray js) \<Rightarrow> json_strings js | _ \<Rightarrow> None);
       p \<leftarrow> json_str ''prompt'' j; Some (MultipleOptions opts p) }
     else if k = ''needs_decision'' then map_option NeedsDecision (json_str ''reason'' j)
     else None
   }"

lemma json_strings_of [simp]: "json_strings (map JString xs) = Some xs"
  by (induction xs) auto

lemma blocked_roundtrip: "parse_blocked (blocked_json r) = Some r"
  by (cases r) (simp_all add: parse_blocked_def json_str_def)

end
