(* ===== verification/Upstream.thy ===== *)
theory Upstream
  imports Agent_Core
begin

text \<open>
  What the agent does with the result of an execution (\<open>agent/upstream_resolution.rs\<close>): a blocked subtask is
  resolved from the request, by the model, or by the user; any other result is judged, and the turn completes,
  waits for the user, or schedules a follow-up, whose result comes back here.  The follow-up runs the agentic
  loop when there are tools (\<open>run_agentic_loop_for_followup\<close> of \<open>agent/agentic_loop_runner.rs\<close>) and a call
  through the worker pool otherwise.  The functions that lead back to \<open>handle_upstream_result\<close> take it as
  their last argument; it is tied with fuel, and \<open>None\<close> means that the fuel is used up.
\<close>

type_synonym 'w again = "execution_ctx \<Rightarrow> task_result \<Rightarrow> ('w, (agent_error + pending_question option) option) ag_m"


section \<open>The loop of a follow-up\<close>

fun loop_to_runtime_error :: "agentic_loop_error \<Rightarrow> runtime_error" where
  "loop_to_runtime_error (ApiCall e) = runtime_error
     (case pe_kind e of ProviderTimeout \<Rightarrow> UpstreamTimeout | StreamFailed \<Rightarrow> UpstreamStreamFailed
        | Network \<Rightarrow> SessionCreateFailed | _ \<Rightarrow> TaskExecutionFailed) PlanExecute (pe_message e)"
| "loop_to_runtime_error (ResponseParse t) = runtime_error ResponseParseFailed PlanExecute t"
| "loop_to_runtime_error (ToolExecutionError e) = from_tool_error e PlanExecute"
| "loop_to_runtime_error (AllToolsFailed t) = runtime_error ToolExecutionFailed PlanExecute t"

definition loop_env :: "'w agent_env \<Rightarrow> 'w env" where
  "loop_env E = \<lparr>Tool_Execution.env.now_ms = ae_now E, Tool_Execution.env.uuid_v4 = ae_uuid E, Tool_Execution.env.json_text = ae_json_text E\<rparr>"

definition user_text_message :: "string \<Rightarrow> string \<Rightarrow> internal_msg" where
  "user_text_message i t =
     \<lparr>msg_role = User, blocks = [Text t], message_id = i, tool_use_id = None, filtered = False, metadata = JObject []\<rparr>"

definition followup_runtime :: "'w core_env \<Rightarrow> inbound \<Rightarrow> string \<Rightarrow> 'w runtime" where
  "followup_runtime C m sid =
     \<lparr>rt_env = loop_env (ce_env C), rt_json_parse = ce_parse C, rt_provider = ce_provider C, rt_tools = ce_tools C,
      rt_checker = ce_checker C, rt_hooks = ce_hooks C, rt_thread_panic = ce_thread_panic C,
      rt_config = default_loop_config\<lparr>max_iterations := 10, cfg_session_id := sid, cfg_trace_id := in_id m,
        system_prompt := Some (system_text (agentic_loop_system (ce_prompts C))),
        cfg_tool_definitions := Some (tool_definitions (ce_tools C)), streaming := True\<rparr>\<rparr>"

definition finalize_completed_loop ::
  "'w core_env \<Rightarrow> inbound \<Rightarrow> nat \<Rightarrow> agentic_loop_result \<Rightarrow> ('w, task_result) ag_m" where
  "finalize_completed_loop C m started r = do {
     append_transcript_messages (ce_env C) m (case res_messages r of
         x # xs \<Rightarrow> if msg_role x = User then xs else x # xs | [] \<Rightarrow> []);
     now \<leftarrow> e_now (ce_env C);
     i \<leftarrow> e_uuid (ce_env C);
     State_Monad.return (make_task_result
       \<lparr>mr_task_id = i, mr_trace_id = in_id m, mr_status = ''success'',
        mr_result = Some (JObject [(''text'', JString (final_text r)), (''iterations'', jnat (res_iterations r)),
          (''hit_limit'', JBool (hit_limit r))]),
        mr_error = None, mr_duration_ms = now - started, mr_worker_id = None\<rparr>)
   }"

definition failed_loop_result :: "'w core_env \<Rightarrow> inbound \<Rightarrow> nat \<Rightarrow> string \<Rightarrow> ('w, task_result) ag_m" where
  "failed_loop_result C m started e = do {
     now \<leftarrow> e_now (ce_env C);
     i \<leftarrow> e_uuid (ce_env C);
     State_Monad.return (make_task_result
       \<lparr>mr_task_id = i, mr_trace_id = in_id m, mr_status = ''error'', mr_result = None, mr_error = Some e,
        mr_duration_ms = now - started, mr_worker_id = None\<rparr>)
   }"

definition run_loop_for_followup :: "'w core_env \<Rightarrow> inbound \<Rightarrow> string \<Rightarrow> string \<Rightarrow> ('w, task_result) ag_m" where
  "run_loop_for_followup C m sid p = do {
     started \<leftarrow> e_now (ce_env C);
     i \<leftarrow> e_uuid (ce_env C);
     outcome \<leftarrow> on_world (run_agentic_loop (followup_runtime C m sid) [user_text_message i p]);
     (case outcome of
        Inl e \<Rightarrow> failed_loop_result C m started (internal_message (loop_to_runtime_error e))
      | Inr out \<Rightarrow>
          (case out of
             LoopCompleted r \<Rightarrow> finalize_completed_loop C m started r
           | LoopSuspended sus \<Rightarrow> failed_loop_result C m started ''followup suspended on tool permission''))
   }"


section \<open>Events\<close>

definition opt_str :: "string option \<Rightarrow> json" where
  "opt_str = Task_Types.opt_json JString"

definition strings_json :: "string list \<Rightarrow> json" where
  "strings_json xs = JArray (map JString xs)"

definition publish_requirement_satisfied ::
  "'w core_env \<Rightarrow> inbound \<Rightarrow> execution_ctx \<Rightarrow> string option \<Rightarrow> nat \<Rightarrow> string \<Rightarrow> ('w, unit) ag_m" where
  "publish_requirement_satisfied C m x worker duration t = publish (ce_env C) ''requirement_satisfied'' m (JObject
     [(''memory_key'', JString (xc_memory_key x)), (''plan_type'', JString (xc_plan_type x)),
      (''cached'', JBool (xc_cache_hit x)), (''worker_id'', opt_str worker), (''task_duration_ms'', jnat duration),
      (''message_latency_ms'', jnat (total_ms (xc_stages x))), (''response_preview'', JString (response_preview t))])"

definition publish_resolved_question ::
  "'w core_env \<Rightarrow> inbound \<Rightarrow> execution_ctx \<Rightarrow> pending_question \<Rightarrow> question_resolved \<Rightarrow> ('w, unit) ag_m" where
  "publish_resolved_question C m x q p = publish (ce_env C) ''question_resolved'' m (JObject
     [(''memory_key'', JString (xc_memory_key x)), (''question_id'', JString (qr_question_id p)),
      (''question_kind'', JString (question_kind_str (pq_kind q))), (''answer_summary'', opt_str (qr_answer_summary p)),
      (''resolution_source'', opt_str (qr_resolution_source p)), (''opencode_session_id'', JString (qr_session_id p))])"

definition record_execution_summary ::
  "'w core_env \<Rightarrow> inbound \<Rightarrow> execution_ctx \<Rightarrow> summary_input \<Rightarrow> ('w, unit) ag_m" where
  "record_execution_summary C m x i = record_summary (ce_env C)
     \<lparr>es_trace_id = in_id m, es_message_id = in_id m, es_channel = in_channel m, es_chat_id = in_chat_id m,
      es_plan_type = xc_plan_type x, es_status = si_status i, es_cache_hit = xc_cache_hit x, es_worker_id = si_worker_id i,
      es_error_code = si_error_code i, es_error_stage = si_error_stage i, es_task_duration_ms = si_duration_ms i,
      es_stages = si_stages i\<rparr>"

definition publish_response_observed :: "'w core_env \<Rightarrow> inbound \<Rightarrow> execution_ctx \<Rightarrow> task_result \<Rightarrow> ('w, unit) ag_m" where
  "publish_response_observed C m x r = publish (ce_env C) ''upstream_response_observed'' m (JObject
     [(''memory_key'', JString (xc_memory_key x)), (''plan_type'', JString (xc_plan_type x)),
      (''worker_id'', opt_str (res_worker_id r)), (''task_type'', JString ''api-call''),
      (''provider'', opt_str (infer_provider (res_result r))), (''operation'', opt_str (infer_operation (res_result r))),
      (''task_duration_ms'', jnat (res_duration_ms r)), (''message_latency_ms'', jnat (total_ms (xc_stages x))),
      (''opencode_session_id'', JString (xc_session_id x)),
      (''response_preview'', JString (truncate_preview (extract_response_text (ae_json_text (ce_env C)) (res_result r)) 200)),
      (''raw_result'', unwrap_or JNull (res_result r))])"


section \<open>Judging\<close>

definition prepare_requirement_context ::
  "'w core_env \<Rightarrow> inbound \<Rightarrow> execution_ctx \<Rightarrow> task_result \<Rightarrow> success_source \<Rightarrow> pending_question option \<Rightarrow>
   ('w, turn_outcome_plan \<times> string) ag_m" where
  "prepare_requirement_context C m x r src q =
     (let ts = turn_source_from_success src in do {
        a \<leftarrow> assemble_turn_context C m (assembly_mode_for_source ts) (xc_session_id x) q None;
        let prep = prepare_requirement_evaluation ts a (in_id m) (in_id m) (in_chat_id m) (res_result r);
        publish (ce_env C) ''requirement_evaluation_started'' m (JObject
          [(''memory_key'', JString (xc_memory_key x)), (''plan_type'', JString (xc_plan_type x)),
           (''worker_id'', opt_str (res_worker_id r)), (''task_duration_ms'', jnat (res_duration_ms r)),
           (''message_latency_ms'', jnat (total_ms (xc_stages x))), (''source'', JString (ep_source_label prep))]);
        i \<leftarrow> e_uuid (ce_env C);
        now \<leftarrow> e_now (ce_env C);
        judgement \<leftarrow> on_world (judge_requirement (ce_parse C) (ae_json_text (ce_env C)) i now (ep_judge_context prep)
          (ce_judge C) (Some (ce_prompts C)));
        State_Monad.return (plan_turn_outcome judgement (q \<noteq> None), source_label ts)
      })"


section \<open>The three outcomes of a turn\<close>

definition publish_resolution ::
  "'w core_env \<Rightarrow> inbound \<Rightarrow> execution_ctx \<Rightarrow> pending_question option \<Rightarrow> question_resolved option \<Rightarrow> ('w, unit) ag_m" where
  "publish_resolution C m x q p =
     (case p of
        None \<Rightarrow> State_Monad.return ()
      | Some p \<Rightarrow> (case q of None \<Rightarrow> State_Monad.return () | Some q \<Rightarrow> publish_resolved_question C m x q p))"

definition completed_step :: string where
  "completed_step = utf8 [0xE4, 0xB8, 0xBB] @ '' agent '' @ utf8 [0xE5, 0xB7, 0xB2, 0xE7, 0xA1, 0xAE, 0xE8, 0xAE, 0xA4, 0xE7, 0xBB, 0x93, 0xE6, 0x9E, 0x9C, 0xE6, 0xBB, 0xA1, 0xE8, 0xB6, 0xB3, 0xE9, 0x9C, 0x80, 0xE6, 0xB1, 0x82]"

definition handle_complete ::
  "'w core_env \<Rightarrow> inbound \<Rightarrow> execution_ctx \<Rightarrow> task_result \<Rightarrow> pending_question option \<Rightarrow> string \<Rightarrow> completed_branch \<Rightarrow>
   ('w, (agent_error + pending_question option) option) ag_m" where
  "handle_complete C m x r q label b =
     (let E = ce_env C; entry = cd_assistant_entry (cb_completion b) in do {
        publish_resolution C m x q (cb_resolved b);
        progress \<leftarrow> requirement_state (in_id m) False;
        clear_question E (in_id m);
        clear_requirement (in_id m);
        t \<leftarrow> upsert_turn E m label TurnCompleted;
        upsert_run E m RunCompleted (Some t);
        upsert_task E m PhaseMain task_status.Completed ''upstream result completed successfully'' None;
        (case progress of
           None \<Rightarrow> State_Monad.return ()
         | Some p \<Rightarrow> do { upsert_runtime_requirement E m p requirement_status.Satisfied; State_Monad.return () });
        append_history (xc_memory_key x) entry;
        append_session_store_history C (xc_history_id x) entry;
        append_context_history (xc_history_id x) entry;
        count_metric ''messages_processed'';
        record_execution_summary C m x (cb_summary b);
        publish_requirement_satisfied C m x (res_worker_id r) (res_duration_ms r) (cd_response_text (cb_completion b));
        record_job_lifecycle_hint E (in_id m) ''completed'' completed_step;
        publish E ''message_completed'' m (JObject
          [(''memory_key'', JString (xc_memory_key x)), (''plan_type'', JString (xc_plan_type x)),
           (''status'', JString (mc_status (cb_message b))), (''cached'', JBool (xc_cache_hit x)),
           (''worker_id'', opt_str (res_worker_id r)), (''task_duration_ms'', jnat (res_duration_ms r)),
           (''message_latency_ms'', jnat (total_ms (xc_stages x))),
           (''response_preview'', JString (mc_preview (cb_message b))),
           (''response_text'', JString (mc_text (cb_message b)))]);
        send_response C m (cd_response_text (cb_completion b));
        State_Monad.return (Some (Inr q))
      })"

definition handle_waiting ::
  "'w core_env \<Rightarrow> inbound \<Rightarrow> execution_ctx \<Rightarrow> task_result \<Rightarrow> pending_question option \<Rightarrow> string \<Rightarrow> waiting_branch \<Rightarrow>
   ('w, (agent_error + pending_question option) option) ag_m" where
  "handle_waiting C m x r q label b =
     (let E = ce_env C; asked = wd_question (wb_waiting b) in do {
        publish_resolution C m x q (wb_resolved b);
        publish E ''requirement_unsatisfied'' m (JObject
          [(''memory_key'', JString (xc_memory_key x)), (''plan_type'', JString (xc_plan_type x)),
           (''cached'', JBool (xc_cache_hit x)), (''worker_id'', opt_str (res_worker_id r)),
           (''task_duration_ms'', jnat (res_duration_ms r)), (''message_latency_ms'', jnat (total_ms (xc_stages x))),
           (''payload'', wb_unsatisfied b)]);
        publish E ''user_input_required'' m (JObject
          [(''memory_key'', JString (xc_memory_key x)), (''plan_type'', JString (xc_plan_type x)),
           (''reason'', JString (ir_reason (wb_required b))),
           (''missing_requirements'', strings_json (ir_missing (wb_required b))),
           (''question_id'', JString (ir_question_id (wb_required b))),
           (''question_kind'', JString (question_kind_str (pq_kind asked))),
           (''prompt'', JString (input_required.ir_prompt (wb_required b)))]);
        record_job_lifecycle_hint E (in_id m) ''waiting_user_input'' (input_required.ir_prompt (wb_required b));
        store_question E (in_id m) asked;
        t \<leftarrow> upsert_turn E m label TurnWaiting;
        upsert_run E m RunRunning (Some t);
        upsert_task E m PhaseMain task_status.Suspended ''waiting for required user input'' None;
        progress \<leftarrow> requirement_state (in_id m) False;
        (case progress of
           None \<Rightarrow> State_Monad.return ()
         | Some p \<Rightarrow> do { upsert_runtime_requirement E m p WaitingUserInput; State_Monad.return () });
        record_execution_summary C m x (wb_summary b);
        publish_question_asked E m (xc_memory_key x) asked (res_worker_id r) (total_ms (xc_stages x)) (res_duration_ms r)
          (xc_cache_hit x) (xc_plan_type x);
        State_Monad.return (Some (Inr (Some asked)))
      })"


section \<open>Follow-ups\<close>

record followup_preparation =
  fu_progress :: progress_state
  fu_next_round :: nat
  fu_fingerprint :: string
  fu_branch :: followup_branch

definition prepare_agent_followup ::
  "'w core_env \<Rightarrow> inbound \<Rightarrow> execution_ctx \<Rightarrow> task_result \<Rightarrow> agent_followup_plan \<Rightarrow> ('w, followup_preparation) ag_m" where
  "prepare_agent_followup C m x r plan =
     (let E = ce_env C in do {
        p \<leftarrow> ensure_requirement E m max_requirement_rounds;
        let b = prepare_followup_branch_data plan (pg_attempted p + 1) (pg_max_rounds p) (res_worker_id r)
          (res_duration_ms r) (xc_stages x);
        upsert_turn E m ''agent_followup'' TurnRunning;
        upsert_task E m PhaseFollowup task_status.Running (''followup scheduled: '' @ fp_reason plan) None;
        upsert_runtime_requirement E m p FollowupScheduled;
        publish E ''requirement_unsatisfied'' m (JObject
          [(''memory_key'', JString (xc_memory_key x)), (''plan_type'', JString (xc_plan_type x)),
           (''cached'', JBool (xc_cache_hit x)), (''worker_id'', opt_str (res_worker_id r)),
           (''task_duration_ms'', jnat (res_duration_ms r)), (''message_latency_ms'', jnat (total_ms (xc_stages x))),
           (''attempted_rounds'', jnat (pg_attempted p)), (''max_rounds'', jnat (pg_max_rounds p)),
           (''result_fingerprint'', JString (fp_fingerprint plan)), (''payload'', fb_unsatisfied b)]);
        State_Monad.return \<lparr>fu_progress = p, fu_next_round = pg_attempted p + 1, fu_fingerprint = fp_fingerprint plan,
          fu_branch = b\<rparr>
      })"

definition update_followup_progress ::
  "'w core_env \<Rightarrow> inbound \<Rightarrow> agent_followup_plan \<Rightarrow> followup_preparation \<Rightarrow> ('w, unit) ag_m" where
  "update_followup_progress C m plan prep =
     update_requirement (ce_env C) (in_id m) (fu_next_round prep) (Some (fu_fingerprint prep)) (Some (fp_reason plan))"

definition stalled_step :: string where
  "stalled_step = utf8 [0xE8, 0xA7, 0x84, 0xE5, 0x88, 0x92, 0xE5, 0xB7, 0xB2, 0xE5, 0xAE, 0x8C, 0xE6, 0x88, 0x90, 0xEF, 0xBC, 0x8C, 0xE4, 0xBD, 0x86, 0xE9, 0x95, 0xBF, 0xE6, 0x97, 0xB6, 0xE9, 0x97, 0xB4, 0xE6, 0xB2, 0xA1, 0xE6, 0x9C, 0x89, 0xE6, 0x96, 0xB0, 0xE7, 0x9A, 0x84, 0xE8, 0xBF, 0x90, 0xE8, 0xA1, 0x8C, 0xE6, 0x97, 0xB6, 0xE8, 0xBF, 0x9B, 0xE5, 0xB1, 0x95]"

definition publish_followup_exhausted ::
  "'w core_env \<Rightarrow> inbound \<Rightarrow> execution_ctx \<Rightarrow> task_result \<Rightarrow> agent_followup_plan \<Rightarrow> followup_preparation \<Rightarrow> ('w, unit) ag_m" where
  "publish_followup_exhausted C m x r plan prep =
     (let E = ce_env C; fx = fb_exhausted (fu_branch prep) in do {
        publish E ''requirement_followup_exhausted'' m (JObject
          [(''memory_key'', JString (xc_memory_key x)), (''plan_type'', JString (xc_plan_type x)),
           (''cached'', JBool (xc_cache_hit x)), (''worker_id'', opt_str (res_worker_id r)),
           (''task_duration_ms'', jnat (res_duration_ms r)), (''message_latency_ms'', jnat (total_ms (xc_stages x))),
           (''attempted_rounds'', jnat (fx_attempted fx)), (''max_rounds'', jnat (fx_max_rounds fx)),
           (''reason'', JString (fx_reason fx)), (''missing_requirements'', strings_json (fx_missing fx)),
           (''result_fingerprint'', JString (fx_fingerprint fx))]);
        record_job_lifecycle_hint E (in_id m) ''stalled'' stalled_step;
        publish E ''message_failed'' m (JObject
          [(''memory_key'', JString (xc_memory_key x)), (''plan_type'', JString (xc_plan_type x)),
           (''status'', JString ''followup_exhausted''), (''cached'', JBool (xc_cache_hit x)),
           (''worker_id'', opt_str (res_worker_id r)), (''task_duration_ms'', jnat (res_duration_ms r)),
           (''message_latency_ms'', jnat (total_ms (xc_stages x))),
           (''error_code'', JString ''requirement_followup_exhausted''), (''error_stage'', JString ''requirement_judge''),
           (''error'', JString (fp_reason plan))])
      })"

definition exhausted_error :: "agent_followup_plan \<Rightarrow> error_info" where
  "exhausted_error plan =
     \<lparr>info_code = ''requirement_followup_exhausted'', info_stage = ''requirement_judge'',
      info_user_message = utf8 [0xE4, 0xB8, 0xBB] @ '' agent '' @ utf8 [0xE5, 0xA4, 0x9A, 0xE8, 0xBD, 0xAE, 0xE8, 0x87, 0xAA, 0xE5, 0x8A, 0xA8, 0xE8, 0xA1, 0xA5, 0xE5, 0x85, 0x85, 0xE5, 0x90, 0x8E, 0xE4, 0xBB, 0x8D, 0xE6, 0x9C, 0xAA, 0xE8, 0x83, 0xBD, 0xE7, 0xA1, 0xAE, 0xE8, 0xAE, 0xA4, 0xE9, 0x9C, 0x80, 0xE6, 0xB1, 0x82, 0xE5, 0xB7, 0xB2, 0xE6, 0xBB, 0xA1, 0xE8, 0xB6, 0xB3, 0xEF, 0xBC, 0x8C, 0xE8, 0xAF, 0xB7, 0xE6, 0x9F, 0xA5, 0xE7, 0x9C, 0x8B, 0xE4, 0xBB, 0xBB, 0xE5, 0x8A, 0xA1, 0xE4, 0xBA, 0x8B, 0xE4, 0xBB, 0xB6, 0xE8, 0xAF, 0x8A, 0xE6, 0x96, 0xAD, 0xE5, 0x8E, 0x9F, 0xE5, 0x9B, 0xA0, 0xE3, 0x80, 0x82],
      info_internal_message = fp_reason plan\<rparr>"

definition handle_exhausted_followup ::
  "'w core_env \<Rightarrow> inbound \<Rightarrow> execution_ctx \<Rightarrow> task_result \<Rightarrow> agent_followup_plan \<Rightarrow> followup_preparation \<Rightarrow> ('w, unit) ag_m" where
  "handle_exhausted_followup C m x r plan prep =
     (let E = ce_env C in do {
        update_followup_progress C m plan prep;
        record_execution_summary C m x (fb_exhausted_summary (fu_branch prep));
        publish_followup_exhausted C m x r plan prep;
        upsert_task E m PhaseFollowup task_status.Failed ''followup exhausted'' (Some (fp_reason plan));
        upsert_runtime_requirement E m (fu_progress prep) Exhausted;
        upsert_turn E m ''agent_followup'' TurnFailed;
        send_error_response C m (exhausted_error plan);
        State_Monad.return ()
      })"

definition build_followup_request ::
  "'w core_env \<Rightarrow> inbound \<Rightarrow> execution_ctx \<Rightarrow> string \<Rightarrow> ('w, api_request) ag_m" where
  "build_followup_request C m x p = do {
     a \<leftarrow> assemble_turn_context C m AssembleFollowup (xc_session_id x) None (Some p);
     State_Monad.return \<lparr>rq_trace_id = in_id m, rq_session_id = am_session_id (as_metadata a),
       rq_content = as_prompt_text a, rq_kind = KindFollowup, rq_metadata = Some (JObject [])\<rparr>
   }"

definition handle_followup_failure ::
  "'w core_env \<Rightarrow> inbound \<Rightarrow> execution_ctx \<Rightarrow> task_result \<Rightarrow> error_info \<Rightarrow> ('w, unit) ag_m" where
  "handle_followup_failure C m x r e =
     (let E = ce_env C in do {
        record_failure E m e;
        publish E ''message_failed'' m (JObject
          [(''memory_key'', JString (xc_memory_key x)), (''plan_type'', JString (xc_plan_type x)),
           (''status'', JString (res_status r)), (''cached'', JBool False), (''worker_id'', opt_str (res_worker_id r)),
           (''task_duration_ms'', jnat (res_duration_ms r)),
           (''message_latency_ms'', jnat (total_ms (xc_stages x) + res_duration_ms r)),
           (''error_code'', JString (info_code e)), (''error_stage'', JString (info_stage e)),
           (''error'', JString (info_internal_message e))]);
        upsert_task E m PhaseFollowup task_status.Failed ''followup request failed'' (Some (info_internal_message e));
        upsert_turn E m ''agent_followup'' TurnFailed;
        send_error_response C m e;
        State_Monad.return ()
      })"

text \<open>The follow-up is run by the loop, or by a worker.\<close>

definition followup_task_text :: string where
  "followup_task_text = utf8 [0xE4, 0xB8, 0xBB] @ '' agent '' @ utf8 [0xE8, 0xA7, 0xA6, 0xE5, 0x8F, 0x91, 0xE8, 0x87, 0xAA, 0xE5, 0x8A, 0xA8] @ '' followup'' @ utf8 [0xEF, 0xBC, 0x8C, 0xE6, 0xB4, 0xBE, 0xE5, 0x8F, 0x91, 0xE7, 0xBB, 0x99] @ '' worker '' @ utf8 [0xE7, 0xBB, 0xA7, 0xE7, 0xBB, 0xAD, 0xE6, 0x8E, 0xA8, 0xE8, 0xBF, 0x9B]"

definition followup_result :: "'w core_env \<Rightarrow> inbound \<Rightarrow> execution_ctx \<Rightarrow> agent_followup_plan \<Rightarrow>
   ('w, runtime_error + task_result) ag_m" where
  "followup_result C m x plan =
     (if ce_tools C \<noteq> [] then do {
        r \<leftarrow> run_loop_for_followup C m (xc_session_id x) (fp_prompt plan);
        State_Monad.return (Inr r)
      }
      else do {
        rq \<leftarrow> build_followup_request C m x (fp_prompt plan);
        execute_api_call_request C m (xc_memory_key x) (xc_plan_type x) rq
          followup_task_text []
      })"

definition followup_ctx :: "execution_ctx \<Rightarrow> nat \<Rightarrow> execution_ctx" where
  "followup_ctx x d = x\<lparr>xc_cache_hit := False,
     xc_stages := (xc_stages x)\<lparr>execute_ms := execute_ms (xc_stages x) + d, total_ms := total_ms (xc_stages x) + d\<rparr>\<rparr>"

definition publish_followup_scheduled ::
  "'w core_env \<Rightarrow> inbound \<Rightarrow> execution_ctx \<Rightarrow> followup_branch \<Rightarrow> ('w, unit) ag_m" where
  "publish_followup_scheduled C m x b = publish (ce_env C) ''requirement_followup_scheduled'' m (JObject
     [(''memory_key'', JString (xc_memory_key x)), (''plan_type'', JString (xc_plan_type x)),
      (''cached'', JBool (xc_cache_hit x)), (''worker_id'', opt_str (si_worker_id (fb_pending b))),
      (''task_duration_ms'', jnat (si_duration_ms (fb_pending b))),
      (''message_latency_ms'', jnat (total_ms (xc_stages x))), (''attempted_rounds'', jnat (fo_attempted (fb_scheduled b))),
      (''max_rounds'', jnat (fo_max_rounds (fb_scheduled b))), (''reason'', JString (fo_reason (fb_scheduled b))),
      (''missing_requirements'', strings_json (fo_missing (fb_scheduled b))),
      (''followup_prompt'', JString (fo_prompt (fb_scheduled b)))])"

definition execute_scheduled_followup ::
  "'w core_env \<Rightarrow> inbound \<Rightarrow> execution_ctx \<Rightarrow> agent_followup_plan \<Rightarrow> followup_preparation \<Rightarrow> 'w again \<Rightarrow>
   ('w, (agent_error + unit) option) ag_m" where
  "execute_scheduled_followup C m x plan prep again = do {
     update_followup_progress C m plan prep;
     record_execution_summary C m x (fb_pending (fu_branch prep));
     publish_followup_scheduled C m x (fu_branch prep);
     upsert_task (ce_env C) m PhaseFollowup task_status.Running ''executing followup request'' None;
     result \<leftarrow> followup_result C m x plan;
     (case result of
        Inl e \<Rightarrow> State_Monad.return (Some (Inl (ExecutionFailed (internal_message e))))
      | Inr r \<Rightarrow>
          if res_status r \<noteq> ''success'' then do {
            handle_followup_failure C m x r (classify_runtime_error (res_error r) (Some ''plan_execute''));
            State_Monad.return (Some (Inr ()))
          }
          else do {
            out \<leftarrow> again (followup_ctx x (res_duration_ms r)) r;
            State_Monad.return (map_option (map_sum id (\<lambda>_. ())) out)
          })
   }"

definition followup_over :: "followup_preparation \<Rightarrow> bool" where
  "followup_over prep \<longleftrightarrow>
     pg_max_rounds (fu_progress prep) < fu_next_round prep \<or>
     pg_fingerprint (fu_progress prep) = Some (fu_fingerprint prep)"

definition schedule_followup ::
  "'w core_env \<Rightarrow> inbound \<Rightarrow> execution_ctx \<Rightarrow> task_result \<Rightarrow> pending_question option \<Rightarrow> agent_followup_plan \<Rightarrow> 'w again \<Rightarrow>
   ('w, (agent_error + pending_question option) option) ag_m" where
  "schedule_followup C m x r q plan again = do {
     prep \<leftarrow> prepare_agent_followup C m x r plan;
     out \<leftarrow> (if followup_over prep then do {
               handle_exhausted_followup C m x r plan prep;
               State_Monad.return (Some (Inr ()))
             }
             else execute_scheduled_followup C m x plan prep again);
     State_Monad.return (map_option (map_sum id (\<lambda>_. q)) out)
   }"

definition dispatch_turn_plan ::
  "'w core_env \<Rightarrow> inbound \<Rightarrow> execution_ctx \<Rightarrow> task_result \<Rightarrow> pending_question option \<Rightarrow> string \<Rightarrow> turn_outcome_plan \<Rightarrow>
   'w again \<Rightarrow> ('w, (agent_error + pending_question option) option) ag_m" where
  "dispatch_turn_plan C m x r q label plan again =
     (case plan of
        TurnComplete resolve \<Rightarrow> handle_complete C m x r q label
          (prepare_completed_branch_data q resolve (extract_response_text (ae_json_text (ce_env C)) (res_result r))
            (res_worker_id r) (res_duration_ms r) (xc_stages x))
      | AskUserInput resolve req \<Rightarrow> handle_waiting C m x r q label
          (prepare_waiting_user_input_branch_data q resolve req m (res_worker_id r) (res_duration_ms r) (xc_stages x)
            (res_result r))
      | ScheduleFollowup p \<Rightarrow> schedule_followup C m x r q p again)"


section \<open>Blocked subtasks\<close>

fun blocked_description :: "blocked_reason \<Rightarrow> string" where
  "blocked_description (MissingParameter n d) = utf8 [0xE7, 0xBC, 0xBA, 0xE5, 0xA4, 0xB1, 0xE5, 0x8F, 0x82, 0xE6, 0x95, 0xB0] @ '' `'' @ n @ ''`''"
| "blocked_description (MissingContext w) = utf8 [0xE7, 0xBC, 0xBA, 0xE5, 0xA4, 0xB1, 0xE4, 0xB8, 0x8A, 0xE4, 0xB8, 0x8B, 0xE6, 0x96, 0x87] @ '': '' @ w"
| "blocked_description _ = utf8 [0xE5, 0xAD, 0x90, 0xE4, 0xBB, 0xBB, 0xE5, 0x8A, 0xA1, 0xE9, 0x98, 0xBB, 0xE5, 0xA1, 0x9E]"

definition resolved_prompt :: "blocked_reason \<Rightarrow> string \<Rightarrow> string" where
  "resolved_prompt reason t =
     ''['' @ utf8 [0xE5, 0xAD, 0x90, 0xE4, 0xBB, 0xBB, 0xE5, 0x8A, 0xA1, 0xE9, 0x98, 0xBB, 0xE5, 0xA1, 0x9E, 0xE8, 0x87, 0xAA, 0xE5, 0x8A, 0xA8, 0xE6, 0x81, 0xA2, 0xE5, 0xA4, 0x8D] @ ''] '' @ utf8 [0xE5, 0x8E, 0x9F, 0xE5, 0x9B, 0xA0] @ '': '' @ blocked_description reason @ ''\<newline>'' @ utf8 [0xE8, 0xA1, 0xA5, 0xE5, 0x85, 0x85, 0xE4, 0xBF, 0xA1, 0xE6, 0x81, 0xAF] @ '': '' @ t @ ''\<newline>'' @ utf8 [0xE8, 0xAF, 0xB7, 0xE5, 0x9F, 0xBA, 0xE4, 0xBA, 0x8E, 0xE6, 0xAD, 0xA4, 0xE4, 0xBF, 0xA1, 0xE6, 0x81, 0xAF, 0xE7, 0xBB, 0xA7, 0xE7, 0xBB, 0xAD, 0xE6, 0x89, 0xA7, 0xE8, 0xA1, 0x8C, 0xE3, 0x80, 0x82]"

definition resolved_task_text :: string where
  "resolved_task_text = utf8 [0xE5, 0xAD, 0x90, 0xE4, 0xBB, 0xBB, 0xE5, 0x8A, 0xA1, 0xE9, 0x98, 0xBB, 0xE5, 0xA1, 0x9E, 0xE8, 0x87, 0xAA, 0xE5, 0x8A, 0xA8, 0xE6, 0x81, 0xA2, 0xE5, 0xA4, 0x8D]"

definition fresh_ctx :: "assembly_metadata \<Rightarrow> nat \<Rightarrow> execution_ctx" where
  "fresh_ctx a d =
     \<lparr>xc_memory_key = am_memory_key a, xc_history_id = am_history_id a, xc_session_id = am_session_id a,
      xc_plan_type = ''single'',
      xc_stages = \<lparr>context_ms = 0, session_ms = 0, classify_ms = 0, execute_ms = d, total_ms = d\<rparr>, xc_cache_hit = False\<rparr>"

definition continue_with_auto_resolved ::
  "'w core_env \<Rightarrow> inbound \<Rightarrow> execution_ctx \<Rightarrow> blocked_reason \<Rightarrow> string \<Rightarrow> 'w again \<Rightarrow>
   ('w, (agent_error + pending_question option) option) ag_m" where
  "continue_with_auto_resolved C m x reason t again = do {
     a \<leftarrow> assemble_turn_context C m AssembleBlocked (xc_session_id x) None (Some (resolved_prompt reason t));
     result \<leftarrow> execute_api_call_request C m (memory_key m) ''single''
       \<lparr>rq_trace_id = in_id m, rq_session_id = am_session_id (as_metadata a), rq_content = as_prompt_text a,
        rq_kind = KindQuestion, rq_metadata = Some (JObject [])\<rparr>
       resolved_task_text [(''auto_resolved'', JBool True)];
     (case result of
        Inl e \<Rightarrow> State_Monad.return (Some (Inl (ExecutionFailed (internal_message e))))
      | Inr r \<Rightarrow>
          if res_status r \<noteq> ''success'' then
            State_Monad.return (Some (Inl (ExecutionFailed
              (unwrap_or ''Auto-resolved continuation failed'' (res_error r)))))
          else again (fresh_ctx (as_metadata a) (res_duration_ms r)) r)
   }"

definition handle_blocked ::
  "'w core_env \<Rightarrow> inbound \<Rightarrow> execution_ctx \<Rightarrow> blocked_reason \<Rightarrow> 'w again \<Rightarrow>
   ('w, (agent_error + pending_question option) option) ag_m" where
  "handle_blocked C m x reason again =
     (case try_auto_resolve_blocked C m reason of
        Some t \<Rightarrow> do {
          append_subtask_blocked_transcript (ce_env C) m reason True;
          continue_with_auto_resolved C m x reason t again
        }
      | None \<Rightarrow> do {
          append_subtask_blocked_transcript (ce_env C) m reason False;
          resolved \<leftarrow> try_llm_resolve_blocked C m x reason;
          (case resolved of
             Some t \<Rightarrow> do {
               append_subtask_blocked_transcript (ce_env C) m reason True;
               continue_with_auto_resolved C m x reason t again
             }
           | None \<Rightarrow> do {
               register_subtask_blocked (ce_env C) (in_id m) m (xc_session_id x) reason;
               q \<leftarrow> question_state (in_id m) False;
               State_Monad.return (Some (Inr q))
             })
        })"


section \<open>One result\<close>

definition handle_result ::
  "'w core_env \<Rightarrow> inbound \<Rightarrow> execution_ctx \<Rightarrow> task_result \<Rightarrow> success_source \<Rightarrow> pending_question option \<Rightarrow> 'w again \<Rightarrow>
   ('w, (agent_error + pending_question option) option) ag_m" where
  "handle_result C m x r src q again = do {
     publish_response_observed C m x r;
     pl \<leftarrow> prepare_requirement_context C m x r src q;
     upsert_turn (ce_env C) m (snd pl) TurnRunning;
     upsert_task (ce_env C) m PhaseMain task_status.Running (''handling upstream result via '' @ snd pl) None;
     dispatch_turn_plan C m x r q (snd pl) (fst pl) again
   }"

definition blocked_of :: "task_result \<Rightarrow> blocked_reason option" where
  "blocked_of r = Option.bind (res_blocked_reason r) parse_blocked"

fun handle_upstream_result ::
  "nat \<Rightarrow> 'w core_env \<Rightarrow> inbound \<Rightarrow> execution_ctx \<Rightarrow> task_result \<Rightarrow> success_source \<Rightarrow> pending_question option \<Rightarrow>
   ('w, (agent_error + pending_question option) option) ag_m" where
  "handle_upstream_result 0 C m x r src q = State_Monad.return None"
| "handle_upstream_result (Suc n) C m x r src q =
     (case blocked_of r of
        Some reason \<Rightarrow> handle_blocked C m x reason (\<lambda>x' r'. handle_upstream_result n C m x' r' FromQuestion None)
      | None \<Rightarrow> handle_result C m x r src q (\<lambda>x' r'. handle_upstream_result n C m x' r' FromFollowup None))"

end
