(* ===== verification/Upstream_Props.thy ===== *)
theory Upstream_Props
  imports Upstream
begin

text \<open>
  What the handling of results guarantees (theory \<open>Upstream\<close>): the follow-ups end within the rounds that are
  recorded for the job unless workers report blocked subtasks, blocked subtasks that the request seems to answer are
  retried without end, and what is recorded and sent at the end of a turn.
\<close>

section \<open>Frames\<close>

lemma calm_world [calm_intros]: "calm (on_world f)"
  unfolding on_world_def by (rule calm_state) (simp split: prod.split)

lemma calm_agent [calm_intros]:
  "calm (append_history key j)" "calm (append_session_store_history C i j)" "calm (append_context_history i j)"
  "calm (count_metric k)" "calm (store_session_id key i)" "calm (publish_outbound C mo)"
  unfolding append_history_def append_session_store_history_def append_context_history_def count_metric_def
    store_session_id_def publish_outbound_def Let_def
  by (intro calm_intros calm_modify, simp?)+

lemma calm_send [calm_intros]: "calm (send_response C m t)" "calm (send_error_response C m e)"
  unfolding send_response_def send_error_response_def by (intro calm_intros)+

lemma calm_calls [calm_intros]:
  "calm (build_api_call_task C rq)" "calm (execute_api_call C rq)" "calm (execute_api_call_request C m key plan rq t extra)"
  unfolding build_api_call_task_def execute_api_call_def execute_api_call_request_def by (intro calm_intros)+

lemma calm_outcome [calm_intros]:
  "(\<And>r. calm (f r)) \<Longrightarrow> (\<And>r. calm (g r)) \<Longrightarrow> calm (case out of LoopCompleted r \<Rightarrow> f r | LoopSuspended r \<Rightarrow> g r)"
  by (cases out) simp_all

lemma calm_loop [calm_intros]: "calm (run_loop_for_followup C m sid p)"
  unfolding run_loop_for_followup_def finalize_completed_loop_def failed_loop_result_def by (intro calm_intros)

lemma calm_events' [calm_intros]:
  "calm (publish_requirement_satisfied C m x w d t)" "calm (publish_resolved_question C m x pq qr)"
  "calm (record_execution_summary C m x si)" "calm (publish_response_observed C m x r)"
  "calm (publish_followup_scheduled C m x fb)" "calm (publish_resolution C m x q rs)"
  "calm (publish_followup_exhausted C m x r plan prep)" "calm (handle_followup_failure C m x r e)"
  unfolding publish_requirement_satisfied_def publish_resolved_question_def record_execution_summary_def
    publish_response_observed_def publish_followup_scheduled_def publish_resolution_def publish_followup_exhausted_def
    handle_followup_failure_def Let_def
  by (intro calm_intros)+

lemma calm_resolve [calm_intros]: "calm (try_llm_resolve_blocked C m x reason)"
  unfolding try_llm_resolve_blocked_def Let_def by (intro calm_intros)


section \<open>Rounds\<close>

text \<open>The progress of a job is recorded, its run may be.\<close>

definition at_round :: "inbound \<Rightarrow> progress_state \<Rightarrow> ('w, 'z) emitter_scheme \<Rightarrow> bool" where
  "at_round m p s \<longleftrightarrow> recorded_progress (in_id m) s = Some p"

definition with_run :: "inbound \<Rightarrow> progress_state \<Rightarrow> ('w, 'z) emitter_scheme \<Rightarrow> bool" where
  "with_run m p s \<longleftrightarrow> at_round m p s \<and> run_exists (in_id m) (snd (em_store s))"

lemma calm_at_round: "calm f \<Longrightarrow> at_round m p s \<Longrightarrow> wp f (\<lambda>_. at_round m p) s"
  by (rule wp_mono [OF calmD [where job = "in_id m"]]) (auto simp: at_round_def)

lemma calm_with_run: "calm f \<Longrightarrow> with_run m p s \<Longrightarrow> wp f (\<lambda>_. with_run m p) s"
  by (rule wp_mono [OF calmD [where job = "in_id m"]]) (auto simp: with_run_def at_round_def)

lemma ensure_round:
  "at_round m p s \<Longrightarrow> wp (ensure_requirement E m n) (\<lambda>q s'. q = p \<and> at_round m p s') s"
  by (rule wp_mono [OF ensure_requirement_spec]) (auto simp: at_round_def)

lemma ensure_with_run:
  "with_run m p s \<Longrightarrow> wp (ensure_requirement E m n) (\<lambda>q s'. q = p \<and> with_run m p s') s"
  by (rule wp_mono [OF ensure_requirement_spec [where job = "in_id m"]]) (auto simp: at_round_def with_run_def)

lemma assemble_with_run:
  "with_run m p s \<Longrightarrow> wp (assemble_turn_context C m md sid q fp) (\<lambda>_. with_run m p) s"
  unfolding assemble_turn_context_def
  by (rule wp_seq [OF ensure_with_run]) (auto simp: wp_bind wp_get wp_return)

lemma assemble_round:
  "at_round m p s \<Longrightarrow> wp (assemble_turn_context C m md sid q fp) (\<lambda>_. at_round m p) s"
  unfolding assemble_turn_context_def
  by (rule wp_seq [OF ensure_round]) (auto simp: wp_bind wp_get wp_return)

lemma upsert_requirement_with_run:
  "with_run m p s \<Longrightarrow> wp (upsert_runtime_requirement E m p st) (\<lambda>_. with_run m p) s"
  by (rule wp_mono [OF upsert_requirement_spec [where job = "in_id m"]]) (auto simp: with_run_def at_round_def run_exists_def)

text \<open>A turn makes its run known.\<close>

lemma upsert_run_exists: "wp (upsert_run E m st t) (\<lambda>_ s'. run_exists (in_id m) (snd (em_store s'))) s"
  by (auto simp: upsert_run_def wp_rules reduce_event_def Let_def run_exists_def update_conv' split: prod.split option.split)

lemma upsert_turn_with_run:
  assumes "at_round m p s"
  shows "wp (upsert_turn E m src st) (\<lambda>_. with_run m p) s"
proof -
  have "wp (upsert_turn E m src st) (\<lambda>_ s'. run_exists (in_id m) (snd (em_store s'))) s"
    by (auto simp: upsert_turn_def Let_def wp_bind_point wp_return_point wp_rules upsert_run_def reduce_event_def run_exists_def
        update_conv' split: prod.split option.split)
  then show ?thesis
    using calm_at_round [OF calm_upserts(2) assms] by (auto simp: wp_run with_run_def)
qed

lemma prepare_followup_spec:
  assumes "at_round m p s"
  shows "wp (prepare_agent_followup C m x r plan) (\<lambda>prep s'. with_run m p s' \<and> fu_progress prep = p \<and>
    fu_next_round prep = pg_attempted p + 1) s"
  unfolding prepare_agent_followup_def Let_def
  apply (rule wp_seq [OF ensure_round [OF assms]])
  apply (elim conjE)
  apply (rule wp_seq [OF upsert_turn_with_run], assumption)
  apply (rule wp_seq [OF calm_with_run], rule calm_intros, assumption)
  apply (simp only:)
  apply (rule wp_seq [OF upsert_requirement_with_run], assumption)
  apply (rule wp_seq [OF calm_with_run], rule calm_intros, assumption)
  apply (simp add: wp_return)
  done

section \<open>Follow-ups end\<close>

text \<open>No worker reports a blocked subtask.  The loop never does.\<close>

definition answers_unblocked :: "'w core_env \<Rightarrow> bool" where
  "answers_unblocked C \<longleftrightarrow> (\<forall>t w r. fst (ce_submit C t w) = Some r \<longrightarrow> blocked_of r = None)"

definition unblocked :: "runtime_error + task_result \<Rightarrow> bool" where
  "unblocked res \<longleftrightarrow> (\<forall>r. res = Inr r \<longrightarrow> blocked_of r = None)"

lemma wp_on_world: "wp (on_world f) Q s \<longleftrightarrow> (case f (em_world s) of (a, w) \<Rightarrow> Q a (s\<lparr>em_world := w\<rparr>))"
  by (simp add: on_world_def wp_state split: prod.split)

lemma wp_true: "wp m (\<lambda>_ _. True) s"
  by (simp add: wp_run)

lemma wp_ignore: "(\<And>a s'. wp (f a) Q s') \<Longrightarrow> wp (State_Monad.bind m f) Q s"
  by (rule wp_seq [OF wp_true])

lemma api_call_unblocked:
  assumes "answers_unblocked C"
  shows "wp (execute_api_call C rq) (\<lambda>res _. unblocked res) s"
proof -
  have open_answer: "blocked_of r = None" if "ce_submit C t w = (Some r, w')" for t w r w'
    using assms that by (metis answers_unblocked_def fst_conv)
  show ?thesis
    unfolding execute_api_call_def
    by (rule wp_ignore) (auto simp: unblocked_def wp_bind wp_on_world wp_return split: prod.split option.split
        dest: open_answer)
qed

lemma api_request_unblocked:
  "answers_unblocked C \<Longrightarrow> wp (execute_api_call_request C m key plan rq t extra) (\<lambda>res _. unblocked res) s"
  unfolding execute_api_call_request_def by (intro wp_ignore api_call_unblocked)

lemma made_unblocked [simp]: "blocked_of (make_task_result t) = None"
  by (simp add: make_task_result_def blocked_of_def)

lemma loop_unblocked: "wp (run_loop_for_followup C m sid p) (\<lambda>r _. blocked_of r = None) s"
proof -
  have "wp (failed_loop_result C m n e) (\<lambda>r _. blocked_of r = None) s" for n e s
    unfolding failed_loop_result_def by (intro wp_ignore) (simp add: wp_return)
  moreover have "wp (finalize_completed_loop C m n res) (\<lambda>r _. blocked_of r = None) s" for n res s
    unfolding finalize_completed_loop_def by (intro wp_ignore) (simp add: wp_return)
  ultimately show ?thesis
    unfolding run_loop_for_followup_def by (intro wp_ignore) (auto split: sum.split agentic_loop_outcome.split)
qed

lemma followup_result_cases:
  "wp (followup_result C m x plan) Q s \<longleftrightarrow>
     (if ce_tools C \<noteq> [] then wp (run_loop_for_followup C m (xc_session_id x) (fp_prompt plan)) (\<lambda>r. Q (Inr r)) s
      else wp (build_followup_request C m x (fp_prompt plan)) (\<lambda>rq. wp (execute_api_call_request C m (xc_memory_key x)
        (xc_plan_type x) rq followup_task_text []) Q) s)"
  by (simp add: followup_result_def wp_bind wp_return_point)

lemma followup_result_unblocked:
  assumes "answers_unblocked C"
  shows "wp (followup_result C m x plan) (\<lambda>res _. unblocked res) s"
proof -
  have "wp (build_followup_request C m x (fp_prompt plan)) (\<lambda>rq. wp (execute_api_call_request C m (xc_memory_key x)
        (xc_plan_type x) rq followup_task_text []) (\<lambda>res _. unblocked res)) s"
    by (rule wp_mono [OF wp_true]) (rule api_request_unblocked [OF assms])
  moreover have "wp (run_loop_for_followup C m (xc_session_id x) (fp_prompt plan)) (\<lambda>r _. unblocked (Inr r)) s"
    by (rule wp_mono [OF loop_unblocked]) (simp add: unblocked_def)
  ultimately show ?thesis
    by (simp add: followup_result_cases)
qed

lemma followup_result_with_run:
  assumes "with_run m p s"
  shows "wp (followup_result C m x plan) (\<lambda>_. with_run m p) s"
proof -
  have "wp (build_followup_request C m x (fp_prompt plan)) (\<lambda>rq. wp (execute_api_call_request C m (xc_memory_key x)
        (xc_plan_type x) rq followup_task_text []) (\<lambda>_. with_run m p)) s"
    unfolding build_followup_request_def
    by (rule wp_seq [OF assemble_with_run [OF assms]])
      (auto simp: wp_return intro: calm_with_run [OF calm_calls(3)])
  then show ?thesis
    by (simp add: followup_result_cases calm_with_run [OF calm_loop assms])
qed

definition rounds_left :: "progress_state \<Rightarrow> nat" where
  "rounds_left p = pg_max_rounds p - pg_attempted p"

definition returned :: "'a option \<Rightarrow> bool" where
  "returned out \<longleftrightarrow> out \<noteq> None"

lemma returned_simps [simp]: "returned (Some a)" "returned (map_option f out) = returned out"
  by (simp_all add: returned_def)

text \<open>The recursive call returns for results that are not blocked, with fewer rounds left than \<open>p\<close> has.\<close>

definition returns_below :: "inbound \<Rightarrow> progress_state \<Rightarrow> 'w again \<Rightarrow> bool" where
  "returns_below m p again \<longleftrightarrow> (\<forall>x r s q. blocked_of r = None \<longrightarrow> at_round m q s \<longrightarrow> rounds_left q < rounds_left p \<longrightarrow>
     wp (again x r) (\<lambda>out _. returned out) s)"

lemma execute_followup_returns:
  assumes "answers_unblocked C" "with_run m p s" "fu_progress prep = p" "fu_next_round prep = pg_attempted p + 1"
    "\<not> followup_over prep"
    and again: "returns_below m p again"
  shows "wp (execute_scheduled_followup C m x plan prep again) (\<lambda>out _. returned out) s"
proof -
  let ?q = "p\<lparr>pg_attempted := fu_next_round prep, pg_fingerprint := Some (fu_fingerprint prep), pg_reason := Some (fp_reason plan)\<rparr>"
  have left: "rounds_left ?q < rounds_left p"
    using assms(3-5) by (auto simp: rounds_left_def followup_over_def)
  have update: "wp (update_followup_progress C m plan prep) (\<lambda>_. with_run m ?q) s"
    unfolding update_followup_progress_def
    by (rule wp_mono [OF update_requirement_spec]) (use assms(2) in \<open>auto simp: with_run_def at_round_def\<close>)
  have result: "wp (followup_result C m x plan) (\<lambda>res s'. unblocked res \<and> with_run m ?q s') s'"
    if "with_run m ?q s'" for s'
    by (rule wp_conj [OF followup_result_unblocked [OF assms(1)] followup_result_with_run [OF that]])
  have rest: "wp (case res of
        Inl e \<Rightarrow> State_Monad.return (Some (Inl (ExecutionFailed (internal_message e))))
      | Inr r \<Rightarrow>
          if res_status r \<noteq> ''success'' then do {
            handle_followup_failure C m x r (classify_runtime_error (res_error r) (Some ''plan_execute''));
            State_Monad.return (Some (Inr ()))
          }
          else do {
            out \<leftarrow> again (followup_ctx x (res_duration_ms r)) r;
            State_Monad.return (map_option (map_sum id (\<lambda>_. ())) out)
          }) (\<lambda>out _. returned out) s'" if "unblocked res" "with_run m ?q s'" for res s'
  proof (cases res)
    case (Inr r)
    have "wp (again (followup_ctx x (res_duration_ms r)) r) (\<lambda>out _. returned out) s'"
      using again left that Inr by (auto simp: returns_below_def unblocked_def with_run_def)
    then show ?thesis
      by (auto simp: Inr intro!: wp_ignore elim!: wp_seq simp: wp_return)
  qed (simp add: wp_return)
  show ?thesis
    unfolding execute_scheduled_followup_def
    apply (rule wp_seq [OF update])
    apply (rule wp_seq [OF calm_with_run], rule calm_intros, assumption)+
    apply (rule wp_seq [OF result], assumption)
    apply (elim conjE, rule rest)
     apply assumption+
    done
qed

lemma wp_returns: "(\<And>a. returned (f a)) \<Longrightarrow> wp (State_Monad.bind m (\<lambda>a. State_Monad.return (f a))) (\<lambda>out _. returned out) s"
  by (rule wp_ignore) (simp add: wp_return)

lemma complete_returns: "wp (handle_complete C m x r q label b) (\<lambda>out _. returned out) s"
  unfolding handle_complete_def Let_def by (intro wp_ignore) (simp add: wp_return)

lemma waiting_returns: "wp (handle_waiting C m x r q label b) (\<lambda>out _. returned out) s"
  unfolding handle_waiting_def Let_def by (intro wp_ignore) (simp add: wp_return)

lemma schedule_returns:
  assumes "answers_unblocked C" "at_round m p s"
    and again: "returns_below m p again"
  shows "wp (schedule_followup C m x r q plan again) (\<lambda>out _. returned out) s"
proof -
  have body: "wp (if followup_over prep then do {
               handle_exhausted_followup C m x r plan prep;
               State_Monad.return (Some (Inr ()))
             }
             else execute_scheduled_followup C m x plan prep again) (\<lambda>out _. returned out) s'"
    if "with_run m p s' \<and> fu_progress prep = p \<and> fu_next_round prep = pg_attempted p + 1" for prep s'
  proof (cases "followup_over prep")
    case True
    then show ?thesis
      by (simp add: wp_returns)
  next
    case False
    have "wp (execute_scheduled_followup C m x plan prep again) (\<lambda>out _. returned out) s'"
      by (rule execute_followup_returns [OF assms(1)]) (use that False again in auto)
    then show ?thesis
      by (simp add: False)
  qed
  show ?thesis
    unfolding schedule_followup_def
    apply (rule wp_seq [OF prepare_followup_spec [OF assms(2)]])
    apply (rule wp_seq, erule body)
    apply (simp add: wp_return)
    done
qed

lemma requirement_context_round:
  assumes "at_round m p s"
  shows "wp (prepare_requirement_context C m x r src q) (\<lambda>_. at_round m p) s"
  unfolding prepare_requirement_context_def Let_def
  apply (rule wp_seq [OF assemble_round [OF assms]])
  apply (rule calm_at_round)
   apply (intro calm_intros)
  apply assumption
  done

lemma result_returns:
  assumes "answers_unblocked C" "at_round m p s"
    and again: "returns_below m p again"
  shows "wp (handle_result C m x r src q again) (\<lambda>out _. returned out) s"
proof -
  have "wp (dispatch_turn_plan C m x r q label plan again) (\<lambda>out _. returned out) s'" if "at_round m p s'" for label plan s'
    by (simp add: dispatch_turn_plan_def complete_returns waiting_returns schedule_returns [OF assms(1) that again]
        split: turn_outcome_plan.split)
  then show ?thesis
    unfolding handle_result_def
    apply -
    apply (rule wp_seq [OF calm_at_round [OF calm_events'(4) assms(2)]])
    apply (rule wp_seq [OF requirement_context_round], assumption)
    apply (rule wp_seq [OF calm_at_round], rule calm_intros, assumption)+
    apply blast
    done
qed

lemma unblocked_returns:
  "answers_unblocked C \<Longrightarrow> blocked_of r = None \<Longrightarrow> at_round m p s \<Longrightarrow> rounds_left p < n \<Longrightarrow>
   wp (handle_upstream_result n C m x r src q) (\<lambda>out _. returned out) s"
proof (induction n arbitrary: x r src q s p)
  case (Suc n)
  have "returns_below m p (\<lambda>x' r'. handle_upstream_result n C m x' r' FromFollowup None)"
    using Suc.IH [OF Suc.prems(1)] Suc.prems(4) by (auto simp: returns_below_def)
  then show ?case
    using result_returns [OF Suc.prems(1,3)] Suc.prems(2) by simp
qed simp

lemma blocked_returns:
  assumes "answers_unblocked C" "at_round m p s"
    and again: "\<And>x' r' s'. blocked_of r' = None \<Longrightarrow> at_round m p s' \<Longrightarrow> wp (again x' r') (\<lambda>out _. returned out) s'"
  shows "wp (handle_blocked C m x reason again) (\<lambda>out _. returned out) s"
proof -
  have continue: "wp (continue_with_auto_resolved C m x reason t again) (\<lambda>out _. returned out) s'" if "at_round m p s'" for t s'
    unfolding continue_with_auto_resolved_def
    apply (rule wp_seq [OF assemble_round [OF that]])
    apply (rule wp_seq [OF wp_conj [OF api_request_unblocked [OF assms(1)] calm_at_round [OF calm_calls(3)]]], assumption)
    apply (auto simp: wp_return unblocked_def split: sum.split intro: again)
    done
  show ?thesis
  proof (cases "try_auto_resolve_blocked C m reason")
    case None
    have "wp (case res of
           Some t \<Rightarrow> do {
             append_subtask_blocked_transcript (ce_env C) m reason True;
             continue_with_auto_resolved C m x reason t again
           }
         | None \<Rightarrow> do {
             register_subtask_blocked (ce_env C) (in_id m) m (xc_session_id x) reason;
             q \<leftarrow> question_state (in_id m) False;
             State_Monad.return (Some (Inr q))
           }) (\<lambda>out _. returned out) s'" if "at_round m p s'" for res s'
      by (cases res) (auto intro!: wp_ignore wp_returns wp_seq [OF calm_at_round [OF calm_transcript(2) that]] continue)
    then show ?thesis
      unfolding handle_blocked_def
      apply (simp only: None option.case)
      apply (rule wp_seq [OF calm_at_round [OF calm_transcript(2) assms(2)]])
      apply (rule wp_seq [OF calm_at_round [OF calm_resolve]], assumption)
      apply blast
      done
  next
    case (Some t)
    show ?thesis
      unfolding handle_blocked_def
      by (simp add: Some) (rule wp_seq [OF calm_at_round [OF calm_transcript(2) assms(2)]], erule continue)
  qed
qed

text \<open>
  C18. Follow-ups end: when no worker reports a blocked subtask, the handling of a result returns, after at most
  as many follow-ups as the job has rounds left; one more step is needed when the result itself is blocked.\<close>
theorem followups_terminate:
  assumes "answers_unblocked C" "recorded_progress (in_id m) s = Some p" "pg_max_rounds p - pg_attempted p + 2 \<le> n"
  shows "fst (run_state (handle_upstream_result n C m x r src q) s) \<noteq> None"
proof -
  have s: "at_round m p s"
    using assms(2) by (simp add: at_round_def)
  have "wp (handle_upstream_result n C m x r src q) (\<lambda>out _. returned out) s"
  proof (cases "blocked_of r")
    case None
    then show ?thesis
      using unblocked_returns [OF assms(1) None s] assms(3) by (simp add: rounds_left_def)
  next
    case (Some reason)
    obtain k where k: "n = Suc k" "rounds_left p < k"
      using assms(3) by (cases n) (auto simp: rounds_left_def)
    have "wp (handle_blocked C m x reason (\<lambda>x' r'. handle_upstream_result k C m x' r' FromQuestion None))
        (\<lambda>out _. returned out) s"
      by (rule blocked_returns [OF assms(1) s]) (rule unblocked_returns [OF assms(1) _ _ k(2)])
    then show ?thesis
      by (simp add: k(1) Some)
  qed
  then show ?thesis
    by (simp add: wp_run returned_def)
qed


section \<open>Blocked subtasks are retried without end\<close>

definition keeps_blocking :: "'w core_env \<Rightarrow> blocked_reason \<Rightarrow> bool" where
  "keeps_blocking C reason \<longleftrightarrow> (\<forall>t w. case fst (ce_submit C t w) of
     None \<Rightarrow> False | Some r \<Rightarrow> res_status r = ''success'' \<and> blocked_of r = Some reason)"

lemma blocking_answer:
  assumes "keeps_blocking C reason"
  shows "wp (execute_api_call_request C m key plan rq t extra)
    (\<lambda>res _. \<exists>r. res = Inr r \<and> res_status r = ''success'' \<and> blocked_of r = Some reason) s"
proof -
  have answer: "\<exists>r w'. ce_submit C t w = (Some r, w') \<and> res_status r = ''success'' \<and> blocked_of r = Some reason" for t w
  proof -
    have "case fst (ce_submit C t w) of None \<Rightarrow> False | Some r \<Rightarrow> res_status r = ''success'' \<and> blocked_of r = Some reason"
      using assms by (simp add: keeps_blocking_def)
    then show ?thesis
      by (cases "ce_submit C t w") (auto split: option.splits)
  qed
  have "wp (execute_api_call C rq) (\<lambda>res _. \<exists>r. res = Inr r \<and> res_status r = ''success'' \<and> blocked_of r = Some reason) s" for s
  proof -
    have asked: "wp (on_world (ce_submit C t)) (\<lambda>a _. \<exists>r. a = Some r \<and> res_status r = ''success'' \<and> blocked_of r = Some reason) s'" for t s'
      using answer [of t "em_world s'"] by (auto simp: wp_on_world)
    show ?thesis
      unfolding execute_api_call_def
      by (rule wp_ignore, rule wp_seq [OF asked]) (auto simp: wp_return)
  qed
  then show ?thesis
    unfolding execute_api_call_request_def by (intro wp_ignore)
qed

text \<open>
  When the workers keep reporting a subtask as blocked on something that the user's request mentions, the
  handling of the result never returns: every resolution from the request is followed by the same report.\<close>

theorem blocked_answers_never_end:
  assumes "blocked_of r = Some reason" "try_auto_resolve_blocked C m reason \<noteq> None" "keeps_blocking C reason"
  shows "fst (run_state (handle_upstream_result n C m x r src q) s) = None"
proof -
  have "wp (handle_upstream_result n C m x r src q) (\<lambda>out _. out = None) s"
    using assms(1)
  proof (induction n arbitrary: x r src q s)
    case (Suc n)
    obtain t where t: "try_auto_resolve_blocked C m reason = Some t"
      using assms(2) by blast
    show ?case
      apply (simp add: Suc.prems handle_blocked_def t continue_with_auto_resolved_def)
      apply (rule wp_ignore)
      apply (rule wp_ignore)
      apply (rule wp_seq [OF blocking_answer [OF assms(3)]])
      apply (auto intro: Suc.IH)
      done
  qed (simp add: wp_return)
  then show ?thesis
    by (simp add: wp_run)
qed


section \<open>One answer to a message\<close>

text \<open>Most of the agent sends nothing: \<open>mute\<close>.  Handling a result sends at most one message: \<open>once\<close>.\<close>

definition mute_rel :: "'w core_agent \<Rightarrow> 'w core_agent \<Rightarrow> bool" where
  "mute_rel s s' \<longleftrightarrow> ag_outbox s' = ag_outbox s"

abbreviation mute :: "('w, 'a) ag_m \<Rightarrow> bool" where
  "mute m \<equiv> every m mute_rel"

interpretation mute: state_frame "mute_rel :: 'w core_agent \<Rightarrow> _"
  by unfold_locales (simp_all add: mute_rel_def)

named_theorems mute_intros \<open>operations that send nothing\<close>

lemmas mute_frames [mute_intros] = mute.frame_rules

lemma mute_same: "ag_outbox s' = ag_outbox s \<Longrightarrow> mute_rel s s'"
  by (simp add: mute_rel_def)

lemmas mute_modify = mute.frame_modify [OF mute_same]

lemmas mute_state = mute.frame_state [OF mute_same]

lemma mute_reads [mute_intros]: "mute (e_now E)" "mute (e_uuid E)" "mute e_snapshot" "mute (on_world f)"
  unfolding e_now_def e_uuid_def e_snapshot_def on_world_def
  by (intro mute_intros mute_state, simp split: prod.split | intro mute_intros)+

lemma mute_append [mute_intros]: "mute (e_append E ev)"
  unfolding e_append_def by (intro mute_intros mute_modify) simp

lemma mute_events [mute_intros]:
  "mute (publish E e m j)" "mute (record_failure E m i)" "mute (record_job_lifecycle_hint E job l st)" "mute (record_summary E z)"
  unfolding publish_def record_timeline_def publish_internal_def record_failure_def record_job_lifecycle_hint_def
    record_projection_hint_def record_summary_def Let_def
  by (intro mute_intros mute_modify; simp)+

lemma mute_upserts [mute_intros]:
  "mute (upsert_run E m rst turn)" "mute (upsert_turn E m source tst)" "mute (upsert_task E m ph st d err)"
  "mute (upsert_suspension E m q tid iid k sst)" "mute (append_transcript_message E m y)"
  unfolding upsert_turn_def upsert_run_def upsert_task_def upsert_suspension_def append_transcript_message_def Let_def
  by (intro mute_intros)+

lemma mute_transcript [mute_intros]:
  "mute (append_transcript_messages E m xs)" "mute (append_subtask_blocked_transcript E m r b)"
  unfolding append_transcript_messages_def append_subtask_blocked_transcript_def Let_def by (intro mute_intros)+

lemma mute_caches [mute_intros]: "mute (cache_question job q)" "mute (cache_progress job p)" "mute (clear_requirement job)"
  unfolding cache_question_def cache_progress_def clear_requirement_def by (rule mute_modify, simp)+

lemma mute_questions [mute_intros]:
  "mute (store_question E job q)" "mute (ask_user E job m q k)" "mute (question_state job h)"
  "mute (clear_question E job)" "mute (publish_question_asked E m key q w l d c pl)"
  unfolding store_question_def ask_user_def question_state_def clear_question_def publish_question_asked_def Let_def
  by (intro mute_intros mute_modify; simp)+

lemma mute_blocked [mute_intros]: "mute (register_subtask_blocked E job m sid reason)"
  unfolding register_subtask_blocked_def by (intro mute_intros)

lemma mute_requirements [mute_intros]:
  "mute (requirement_state job h)" "mute (upsert_runtime_requirement E m p rs)"
  unfolding requirement_state_def upsert_runtime_requirement_def Let_def by (intro mute_intros mute_modify; simp)+

lemma mute_progress [mute_intros]: "mute (ensure_requirement E m n)" "mute (update_requirement E job k fp reason)"
  unfolding ensure_requirement_def update_requirement_def Let_def by (intro mute_intros)+

lemma mute_agent [mute_intros]:
  "mute (append_history key j)" "mute (append_session_store_history C i j)" "mute (append_context_history i j)"
  "mute (count_metric k)" "mute (assemble_turn_context C m md sid q fp)"
  unfolding append_history_def append_session_store_history_def append_context_history_def count_metric_def
    assemble_turn_context_def
  by (intro mute_intros mute_modify; simp)+

lemma mute_calls [mute_intros]:
  "mute (build_api_call_task C rq)" "mute (execute_api_call C rq)" "mute (execute_api_call_request C m key plan rq t extra)"
  unfolding build_api_call_task_def execute_api_call_def execute_api_call_request_def by (intro mute_intros)+

lemma mute_outcome [mute_intros]:
  "(\<And>r. mute (f r)) \<Longrightarrow> (\<And>r. mute (g r)) \<Longrightarrow> mute (case out of LoopCompleted r \<Rightarrow> f r | LoopSuspended r \<Rightarrow> g r)"
  by (cases out) simp_all

lemma mute_loop [mute_intros]: "mute (run_loop_for_followup C m sid p)"
  unfolding run_loop_for_followup_def finalize_completed_loop_def failed_loop_result_def by (intro mute_intros)

lemma mute_publications [mute_intros]:
  "mute (publish_requirement_satisfied C m x w d t)" "mute (publish_resolved_question C m x pq qr)"
  "mute (record_execution_summary C m x si)" "mute (publish_response_observed C m x r)"
  "mute (publish_followup_scheduled C m x fb)" "mute (publish_resolution C m x q rs)"
  "mute (publish_followup_exhausted C m x r plan prep)" "mute (update_followup_progress C m plan prep)"
  unfolding publish_requirement_satisfied_def publish_resolved_question_def record_execution_summary_def
    publish_response_observed_def publish_followup_scheduled_def publish_resolution_def publish_followup_exhausted_def
    update_followup_progress_def Let_def
  by (intro mute_intros)+

lemma mute_parts [mute_intros]:
  "mute (prepare_agent_followup C m x r plan)" "mute (followup_result C m x plan)"
  "mute (prepare_requirement_context C m x r src q)" "mute (try_llm_resolve_blocked C m x reason)"
  unfolding prepare_agent_followup_def followup_result_def build_followup_request_def prepare_requirement_context_def
    try_llm_resolve_blocked_def Let_def
  by (intro mute_intros)+

definition answers :: "inbound \<Rightarrow> outbound \<Rightarrow> bool" where
  "answers m out \<longleftrightarrow> out_stage out = ''final'' \<and> out_channel out = in_channel m \<and> out_chat_id out = in_chat_id m \<and>
     out_reply_target out = Some (in_sender_id m)"

definition once_rel :: "inbound \<Rightarrow> 'w core_agent \<Rightarrow> 'w core_agent \<Rightarrow> bool" where
  "once_rel m s s' \<longleftrightarrow> ag_outbox s' = ag_outbox s \<or> (\<exists>out. ag_outbox s' = ag_outbox s @ [out] \<and> answers m out)"

abbreviation once :: "inbound \<Rightarrow> ('w, 'a) ag_m \<Rightarrow> bool" where
  "once m f \<equiv> every f (once_rel m)"

lemma once_mute: "mute f \<Longrightarrow> once m f"
  by (auto simp: every_def wp_run mute_rel_def once_rel_def)

lemma once_later: "mute f \<Longrightarrow> (\<And>a. once m (g a)) \<Longrightarrow> once m (State_Monad.bind f g)"
  unfolding every_def by (auto simp: wp_run mute_rel_def once_rel_def split: prod.split) (metis snd_conv)+

lemma once_before: "once m f \<Longrightarrow> once m (State_Monad.bind f (\<lambda>a. State_Monad.return (g a)))"
  by (simp add: every_def wp_bind wp_return_point)

lemma once_send: "once m (send_response C m t)" "once m (send_error_response C m e)"
  by (auto simp: send_response_def send_error_response_def publish_outbound_def Let_def every_def wp_bind e_uuid_def
      wp_state wp_modify wp_return once_rel_def make_outbound_def answers_def split: prod.split)

lemma once_complete: "once m (handle_complete C m x r q label b)"
  unfolding handle_complete_def Let_def by (intro once_later mute_intros once_before once_send)

lemma once_waiting: "once m (handle_waiting C m x r q label b)"
  unfolding handle_waiting_def Let_def by (intro once_mute mute_intros)

lemma once_exhausted: "once m (handle_exhausted_followup C m x r plan prep)"
  unfolding handle_exhausted_followup_def Let_def by (intro once_later mute_intros once_before once_send)

lemma once_failure: "once m (handle_followup_failure C m x r e)"
  unfolding handle_followup_failure_def Let_def by (intro once_later mute_intros once_before once_send)

lemma once_return: "once m (State_Monad.return a)"
  by (intro once_mute mute_intros)

lemma once_scheduled:
  assumes "\<And>x r. once m (again x r)"
  shows "once m (schedule_followup C m x r q plan again)"
proof -
  have "once m (execute_scheduled_followup C m x plan prep again)" for prep
    unfolding execute_scheduled_followup_def
    by (intro once_later mute_intros) (auto split: sum.split intro: once_before once_failure once_return assms)
  then show ?thesis
    unfolding schedule_followup_def
    by (intro once_later mute_intros once_before) (simp add: once_before once_exhausted)
qed

lemma once_result:
  assumes "\<And>x r. once m (again x r)"
  shows "once m (handle_result C m x r src q again)"
  unfolding handle_result_def dispatch_turn_plan_def
  by (intro once_later mute_intros)
    (simp split: turn_outcome_plan.split add: once_complete once_waiting once_scheduled assms)

lemma once_blocked:
  assumes "\<And>x r. once m (again x r)"
  shows "once m (handle_blocked C m x reason again)"
proof -
  have continue: "once m (continue_with_auto_resolved C m x reason t again)" for t
    unfolding continue_with_auto_resolved_def
    by (intro once_later mute_intros) (simp split: sum.split add: once_return assms)
  have "once m (case res of
           Some t \<Rightarrow> do {
             append_subtask_blocked_transcript (ce_env C) m reason True;
             continue_with_auto_resolved C m x reason t again
           }
         | None \<Rightarrow> do {
             register_subtask_blocked (ce_env C) (in_id m) m (xc_session_id x) reason;
             q \<leftarrow> question_state (in_id m) False;
             State_Monad.return (Some (Inr q))
           })" for res
    by (cases res) (simp_all, (intro once_later mute_intros continue once_return)+)
  then show ?thesis
    unfolding handle_blocked_def
    by (cases "try_auto_resolve_blocked C m reason") (simp_all, (intro once_later mute_intros continue | assumption)+)
qed

text \<open>
  C21. However a result is handled, with all its follow-ups and resolutions, the user is sent at most one message:
  a final one, on the channel and the chat the request came from.\<close>
theorem one_final_answer:
  "let s' = snd (run_state (handle_upstream_result n C m x r src q) s)
   in ag_outbox s' = ag_outbox s \<or> (\<exists>out. ag_outbox s' = ag_outbox s @ [out] \<and> answers m out)"
proof -
  have "once m (handle_upstream_result n C m x r src q)"
  proof (induction n arbitrary: x r src q)
    case (Suc n)
    show ?case
      by (simp add: once_blocked once_result Suc split: option.split)
  qed (simp add: once_return)
  then show ?thesis
    by (simp add: every_def wp_run once_rel_def Let_def)
qed


section \<open>A completed turn\<close>

text \<open>The run, the turn and the main task of a job are completed; most operations leave the tables alone: \<open>still\<close>.\<close>

definition turn_closed :: "inbound \<Rightarrow> string \<Rightarrow> snapshot \<Rightarrow> bool" where
  "turn_closed m label s \<longleftrightarrow>
     map_option turn_status (map_of (turns s) (runtime_turn_id (in_id m) label)) = Some TurnCompleted"

definition run_closed :: "inbound \<Rightarrow> snapshot \<Rightarrow> bool" where
  "run_closed m s \<longleftrightarrow> map_option run_status (map_of (runs s) (runtime_run_id (in_id m))) = Some RunCompleted"

definition task_closed :: "inbound \<Rightarrow> snapshot \<Rightarrow> bool" where
  "task_closed m s \<longleftrightarrow>
     map_option status (map_of (tasks s) (runtime_task_id (in_id m) PhaseMain)) = Some task_status.Completed"

definition requirement_closed :: "inbound \<Rightarrow> snapshot \<Rightarrow> bool" where
  "requirement_closed m s \<longleftrightarrow>
     map_option req_status (map_of (requirements s) (runtime_requirement_id (in_id m))) = Some requirement_status.Satisfied"

definition job_closed :: "inbound \<Rightarrow> string \<Rightarrow> snapshot \<Rightarrow> bool" where
  "job_closed m label s \<longleftrightarrow> turn_closed m label s \<and> run_closed m s \<and> task_closed m s"

definition still_rel :: "('w, 'z) emitter_scheme \<Rightarrow> ('w, 'z) emitter_scheme \<Rightarrow> bool" where
  "still_rel s s' \<longleftrightarrow> runs (snd (em_store s')) = runs (snd (em_store s)) \<and> turns (snd (em_store s')) = turns (snd (em_store s)) \<and>
     tasks (snd (em_store s')) = tasks (snd (em_store s))"

abbreviation still :: "(('w, 'z) emitter_scheme, 'a) state \<Rightarrow> bool" where
  "still f \<equiv> every f still_rel"

interpretation still: state_frame "still_rel :: ('w, 'z) emitter_scheme \<Rightarrow> _"
  by unfold_locales (simp_all add: still_rel_def)

named_theorems still_intros \<open>operations that leave runs, turns and tasks alone\<close>

lemmas still_frames [still_intros] = still.frame_rules

lemma still_same: "em_store s' = em_store s \<Longrightarrow> still_rel s s'"
  by (simp add: still_rel_def)

lemmas still_modify = still.frame_modify [OF still_same]

lemmas still_state = still.frame_state [OF still_same]

lemma still_reads [still_intros]: "still (e_now E)" "still (e_uuid E)" "still e_snapshot"
  unfolding e_now_def e_uuid_def e_snapshot_def
  by (intro still_intros still_state, simp split: prod.split | intro still_intros)+

lemma still_append [still_intros]: "still (e_append E (ProjectionHintRecorded a b c d))" "still (e_append E (RequirementUpserted q))"
  by (simp_all add: every_def wp_e_append reduce_event_def Let_def still_rel_def split: prod.split)

lemma still_events [still_intros]:
  "still (publish E e m j)" "still (record_job_lifecycle_hint E job l st)" "still (record_summary E z)"
  unfolding publish_def record_timeline_def publish_internal_def record_job_lifecycle_hint_def record_projection_hint_def
    record_summary_def Let_def
  by (intro still_intros still_modify; simp)+

lemma still_requirement [still_intros]: "still (upsert_runtime_requirement E m p rs)"
  unfolding upsert_runtime_requirement_def Let_def by (intro still_intros)

lemma still_agent [still_intros]:
  "still (append_history key j)" "still (append_session_store_history C i j)" "still (append_context_history i j)"
  "still (count_metric k)" "still (publish_outbound C mo)"
  unfolding append_history_def append_session_store_history_def append_context_history_def count_metric_def
    publish_outbound_def Let_def
  by (intro still_intros still_modify; simp)+

lemma still_publications [still_intros]:
  "still (publish_requirement_satisfied C m x w d t)" "still (record_execution_summary C m x si)" "still (send_response C m t)"
  unfolding publish_requirement_satisfied_def record_execution_summary_def send_response_def by (intro still_intros)+

lemma still_closed: "still f \<Longrightarrow> job_closed m label (snd (em_store s)) \<Longrightarrow> wp f (\<lambda>_ s'. job_closed m label (snd (em_store s'))) s"
  by (auto simp: every_def wp_run still_rel_def job_closed_def turn_closed_def run_closed_def task_closed_def)

lemma calm_requirement_closed:
  "calm f \<Longrightarrow> requirement_closed m (snd (em_store s)) \<Longrightarrow> wp f (\<lambda>_ s'. requirement_closed m (snd (em_store s'))) s"
  by (auto simp: every_def wp_run calm_rel_def calm_snapshot_def requirement_closed_def)

lemma upsert_turn_closes:
  "wp (upsert_turn E m label TurnCompleted) (\<lambda>_ s'. turn_closed m label (snd (em_store s'))) s"
  by (auto simp: upsert_turn_def Let_def wp_bind_point wp_return_point wp_rules upsert_run_def reduce_event_def turn_closed_def
      update_conv' split: prod.split option.split)

lemma upsert_run_closes:
  "turn_closed m label (snd (em_store s)) \<Longrightarrow> wp (upsert_run E m RunCompleted t) (\<lambda>_ s'.
     turn_closed m label (snd (em_store s')) \<and> run_closed m (snd (em_store s'))) s"
  by (auto simp: upsert_run_def wp_rules reduce_event_def Let_def turn_closed_def run_closed_def update_conv'
      split: prod.split option.split)

lemma upsert_task_closes:
  "turn_closed m label (snd (em_store s)) \<and> run_closed m (snd (em_store s)) \<Longrightarrow>
   wp (upsert_task E m PhaseMain task_status.Completed d err) (\<lambda>_ s'. job_closed m label (snd (em_store s'))) s"
  by (auto simp: upsert_task_def wp_rules reduce_event_def Let_def job_closed_def turn_closed_def run_closed_def
      task_closed_def update_conv' split: prod.split option.split)

lemma complete_closes_job:
  "wp (handle_complete C m x r q label b) (\<lambda>_ s'. job_closed m label (snd (em_store s'))) s"
  unfolding handle_complete_def Let_def
  apply (rule wp_ignore)
  apply (rule wp_ignore)
  apply (rule wp_ignore)
  apply (rule wp_ignore)
  apply (rule wp_seq [OF upsert_turn_closes [where label = label]])
  apply (rule wp_seq [OF upsert_run_closes [where label = label]], assumption)
  apply (rule wp_seq [OF upsert_task_closes [where label = label]], assumption)
  apply (rule still_closed)
   apply (intro still_intros)
  apply assumption
  done

lemma complete_closes_requirement:
  assumes "recorded_progress (in_id m) s = Some p"
  shows "wp (handle_complete C m x r q label b) (\<lambda>_ s'. requirement_closed m (snd (em_store s'))) s"
proof -
  have at: "at_round m p s"
    using assms by (simp add: at_round_def)
  have known: "wp (requirement_state (in_id m) False) (\<lambda>res _. res = Some p) s'" if "at_round m p s'" for s' :: "'a core_agent"
    by (rule wp_mono [OF requirement_state_spec]) (use that in \<open>simp add: at_round_def\<close>)
  have satisfied: "wp (upsert_runtime_requirement E m p requirement_status.Satisfied)
      (\<lambda>_ s'. requirement_closed m (snd (em_store s'))) s'" for E and s' :: "'a core_agent"
    by (rule wp_mono [OF upsert_requirement_spec [where job = "in_id m"]]) (simp add: requirement_closed_def)
  show ?thesis
    unfolding handle_complete_def Let_def
    apply (rule wp_seq [OF calm_at_round [OF calm_events'(6) at]])
    apply (rule wp_seq [OF known], assumption)
    apply (simp only: option.case)
    apply (rule wp_ignore)
    apply (rule wp_ignore)
    apply (rule wp_ignore)
    apply (rule wp_ignore)
    apply (rule wp_ignore)
    apply (rule wp_seq [where P = "\<lambda>_ s'. requirement_closed m (snd (em_store s'))"])
     apply (rule wp_seq [OF satisfied])
     apply (simp add: wp_return)
    apply (rule calm_requirement_closed)
     apply (intro calm_intros)
    apply assumption
    done
qed

text \<open>
  C38. A turn that completes leaves its job closed: the turn, the run and the main task are recorded as completed,
  the requirement as satisfied when it was recorded, and the question that was answered is handed back.\<close>
theorem completed_turn_recorded:
  "let (out, s') = run_state (handle_complete C m x r q label b) s
   in out = Some (Inr q) \<and> job_closed m label (snd (em_store s')) \<and>
      (recorded_progress (in_id m) s = None \<or> requirement_closed m (snd (em_store s')))"
proof -
  have "wp (handle_complete C m x r q label b) (\<lambda>out _. out = Some (Inr q)) s"
    unfolding handle_complete_def Let_def by (intro wp_ignore) (simp add: wp_return)
  moreover note complete_closes_job [of C m x r q label b s]
  moreover have "recorded_progress (in_id m) s = None \<or>
      wp (handle_complete C m x r q label b) (\<lambda>_ s'. requirement_closed m (snd (em_store s'))) s"
    by (cases "recorded_progress (in_id m) s") (simp_all add: complete_closes_requirement)
  ultimately show ?thesis
    by (auto simp: wp_run case_prod_beta)
qed


section \<open>An exhausted follow-up forgets its round\<close>

definition exhausted_with :: "inbound \<Rightarrow> progress_state \<Rightarrow> ('w, 'z) emitter_scheme \<Rightarrow> bool" where
  "exhausted_with m p s \<longleftrightarrow> recorded_progress (in_id m) s = Some p \<and>
     map_option req_status (map_of (requirements (snd (em_store s))) (runtime_requirement_id (in_id m))) = Some Exhausted"

lemma calm_exhausted: "calm f \<Longrightarrow> exhausted_with m p s \<Longrightarrow> wp f (\<lambda>_. exhausted_with m p) s"
  by (auto simp: every_def wp_run calm_rel_def calm_snapshot_def exhausted_with_def recorded_progress_def rebuild_progress_def)

lemma exhausted_written: "wp (upsert_runtime_requirement E m p Exhausted) (\<lambda>_. exhausted_with m p) s"
  by (rule wp_mono [OF upsert_requirement_spec [where job = "in_id m"]]) (simp add: exhausted_with_def)

text \<open>
  When the rounds of a job are used up, the requirement is recorded as exhausted, but with the progress from
  before the last update: the round and the fingerprint that were just written are overwritten.\<close>

theorem exhausted_requirement_keeps_old_round:
  "exhausted_with m (fu_progress prep) (snd (run_state (handle_exhausted_followup C m x r plan prep) s))"
proof -
  have "wp (handle_exhausted_followup C m x r plan prep) (\<lambda>_. exhausted_with m (fu_progress prep)) s"
    unfolding handle_exhausted_followup_def Let_def
    apply (rule wp_ignore)
    apply (rule wp_ignore)
    apply (rule wp_ignore)
    apply (rule wp_ignore)
    apply (rule wp_seq [OF exhausted_written])
    apply (rule calm_exhausted)
     apply (intro calm_intros)
    apply assumption
    done
  then show ?thesis
    by (simp add: wp_run)
qed


section \<open>A small agent\<close>

definition fresh_agent :: "nat \<times> snapshot \<Rightarrow> 'w \<Rightarrow> 'w core_agent" where
  "fresh_agent store w = tracker.extend (new_tracker store w)
     (core_agent.fields [] new_session_store (new_context_manager [] None) (new_metrics None) (new_lru None None) [])"

text \<open>Workers that answer every call with the given result, and a model that cannot be reached.\<close>

definition demo_core :: "task_result \<Rightarrow> unit core_env" where
  "demo_core r = \<lparr>ce_env = demo_agent,
     ce_provider = \<lparr>chat = (\<lambda>rq w. (Inl (internal_error []), w)), chat_stream = (\<lambda>rq w. (Inl (internal_error []), w))\<rparr>,
     ce_judge = None, ce_tools = [], ce_checker = None, ce_hooks = None, ce_thread_panic = (\<lambda>_ _. None),
     ce_prompts = \<lparr>task_decompose = [], context_infer = [], escalation_resolve = [], requirement_judge = [],
       question_followup = [], result_followup = [], agentic_loop_system = [], tool_resume_system = [],
       message_classifier = [], identity = []\<rparr>,
     ce_parse = (\<lambda>_. Inl []), ce_lower = ascii_lower, ce_submit = (\<lambda>t w. (Some r, w))\<rparr>"

definition demo_result :: "json option \<Rightarrow> json option \<Rightarrow> task_result" where
  "demo_result j blocked = (make_task_result \<lparr>mr_task_id = ''t'', mr_trace_id = ''j'', mr_status = ''success'', mr_result = j,
     mr_error = None, mr_duration_ms = 1, mr_worker_id = None\<rparr>)\<lparr>res_blocked_reason := blocked\<rparr>"

definition demo_ctx :: execution_ctx where
  "demo_ctx = fresh_ctx \<lparr>am_memory_key = ''web:j'', am_history_id = ''j'', am_session_id = ''s''\<rparr> 0"

definition demo_ensured :: "unit core_agent" where
  "demo_ensured = snd (run_state (ensure_requirement demo_agent demo_inbound max_requirement_rounds) (fresh_agent (0, empty_snapshot) ()))"

lemma fresh_agent_parts: "em_store (fresh_agent store w) = store" "requirement_progress (fresh_agent store w) = []"
  by (simp_all add: fresh_agent_def new_tracker_def new_coordinator_def new_emitter_def emitter.defs coordinator.defs
      tracker.defs core_agent.defs)

lemma demo_ensured_progress:
  "recorded_progress (in_id demo_inbound) demo_ensured =
     Some \<lparr>pg_request = ''hi'', pg_attempted = 0, pg_max_rounds = 3, pg_fingerprint = None, pg_reason = None\<rparr>"
proof -
  let ?s = "fresh_agent (0, empty_snapshot) ()"
  have "recorded_progress (in_id demo_inbound) ?s = None"
    by (simp add: recorded_progress_def rebuild_progress_def fresh_agent_parts empty_snapshot_def)
  then show ?thesis
    using ensure_requirement_spec [of demo_agent demo_inbound max_requirement_rounds _ ?s]
    by (simp add: wp_run demo_ensured_def fresh_agent_parts max_requirement_rounds_def demo_inbound_def)
qed

lemma followups_terminate_witness:
  "fst (run_state (handle_upstream_result 5 (demo_core (demo_result None None)) demo_inbound demo_ctx (demo_result None None)
     FromInitial None) demo_ensured) \<noteq> None"
proof (rule followups_terminate)
  show "answers_unblocked (demo_core (demo_result None None))"
    by (simp add: answers_unblocked_def demo_core_def demo_result_def blocked_of_def make_task_result_def)
  show "recorded_progress (in_id demo_inbound) demo_ensured =
      Some \<lparr>pg_request = ''hi'', pg_attempted = 0, pg_max_rounds = 3, pg_fingerprint = None, pg_reason = None\<rparr>"
    by (rule demo_ensured_progress)
qed simp

text \<open>The request \<open>hi\<close> mentions what the worker says it needs.\<close>

lemma blocked_answers_never_end_witness:
  "fst (run_state (handle_upstream_result 1000 (demo_core (demo_result None (Some (blocked_json (MissingContext ''hi'')))))
     demo_inbound demo_ctx (demo_result None (Some (blocked_json (MissingContext ''hi'')))) FromInitial None) demo_ensured) = None"
proof (rule blocked_answers_never_end)
  show b: "blocked_of (demo_result None (Some (blocked_json (MissingContext ''hi'')))) = Some (MissingContext ''hi'')"
    by (simp add: blocked_of_def demo_result_def blocked_roundtrip del: blocked_json.simps)
  show "keeps_blocking (demo_core (demo_result None (Some (blocked_json (MissingContext ''hi''))))) (MissingContext ''hi'')"
    using b by (simp add: keeps_blocking_def demo_core_def del: blocked_json.simps)
      (simp add: demo_result_def make_task_result_def)
  show "try_auto_resolve_blocked (demo_core (demo_result None (Some (blocked_json (MissingContext ''hi''))))) demo_inbound
      (MissingContext ''hi'') \<noteq> None"
    by code_simp
qed

end
