(* ===== verification/Spec2Isabelle.thy ===== *)
theory Spec2Isabelle
  imports Compaction Loop_Turns Streaming Circuit_Breaker Balancer_Policies Plan_Graph Dispatch_Runs Sqlite_Restart
    Pool_Liveness Specialist_Props Cache_Props Bounded_Bus Orchestration_Faults Suspension_Rebuild Requirement_Judge Sessions Context_Manager Context_Storage_Props Metrics Upstream_Props
begin

text \<open>
Verification of the core of \<open>anima-runtime\<close> (\<open>src/crates/anima-runtime/src\<close>, below written without that
  prefix), the runtime of an agent that talks to a language model, runs the tools it asks for, and distributes
  work over workers and channels.

  \<^bold>\<open>How the program is put together.\<close>  A message enters through a channel and the bus; the agent keeps a
  conversation, asks a model provider, and runs the tools the model calls in the agentic loop: every call
  passes hooks, validation and the permission checker, and a call that needs permission suspends the loop.
  Larger requests are split by the orchestrator into a plan of subtasks that run on a pool of workers, in
  parallel groups.  Questions are kept by a coordinator until the user answers.  Everything that happens is
  published by the emitter and written to a runtime state that two back ends keep durable.  Answers leave
  through the dispatcher: a priority queue, load balancers over targets, circuit breakers, retries.

  \<^bold>\<open>Theories, from the bottom up.\<close>
  \<^item> \<open>Prelude\<close>: maps as association lists (\<open>im_insert\<close>, \<open>im_remove\<close>, locale \<open>key_map\<close>), UTF-8 text,
    decimal printing, list lemmas.  \<open>Json\<close>, \<open>Strings\<close>: \<open>serde_json::Value\<close> and the string methods used.
    \<open>State_Rules\<close>: weakest preconditions \<open>wp\<close> for code written in the state monad.
  \<^item> \<open>Messages\<close> (\<open>messages/types.rs\<close>, \<open>normalize.rs\<close>, \<open>lookup.rs\<close>, \<open>pairing.rs\<close>) and \<open>Compaction\<close>
    (\<open>messages/compact.rs\<close>): the conversation, the pairing of tool uses with results, and its compaction.
    The lemmas give exact token accounting, the protection of recent turns and what is cleared.
  \<^item> \<open>Permissions\<close> (\<open>permissions/\<close>), \<open>Tools\<close> (\<open>tools/result.rs\<close>, \<open>definition.rs\<close>, \<open>registry.rs\<close>,
    \<open>hooks/\<close>), \<open>Tool_Execution\<close> (\<open>tools/execution.rs\<close>): one tool invocation; nothing runs unless admitted,
    and its record tells what happened.
  \<^item> \<open>Provider\<close> (\<open>provider/types.rs\<close>, \<open>error.rs\<close>, \<open>mod.rs\<close>), \<open>Agentic_Loop\<close> and \<open>Loop_Turns\<close>
    (\<open>execution/agentic_loop.rs\<close>), \<open>Streaming\<close> and \<open>Stream_Lines\<close> (\<open>streaming/\<close>): the loop always comes to a
    result and calls the model at most as often as its limit allows, answers every tool use once, in order
    but for panicking threads, and streamed responses agree with plain ones.
  \<^item> \<open>Circuit\<close>, \<open>Circuit_Breaker\<close>, \<open>Router\<close>, \<open>Balancer\<close>, \<open>Balancer_Policies\<close>, \<open>Dispatch_Queue\<close>,
    \<open>Channel_Registry\<close>, \<open>Dispatcher\<close>, \<open>Dispatch_Runs\<close> (\<open>dispatcher/\<close>, \<open>channel/registry.rs\<close>,
    \<open>adapter.rs\<close>, \<open>dispatch.rs\<close>): selection of targets, protection by open circuits, the queue as a
    refinement of an abstract priority queue, the end of every drain and the restored load accounting.
  \<^item> \<open>Task_Types\<close>, \<open>Task_Records\<close>, \<open>Runtime_State\<close>, \<open>Runtime_Store\<close>, \<open>Sqlite_Restart\<close>
    (\<open>anima-types/src/task.rs\<close>, \<open>tasks/\<close>, \<open>transcript/\<close>, \<open>runtime/\<close>, \<open>anima-store/src/sqlite.rs\<close>): the
    tables, the reducer of events with its invariant, and the two back ends as refinements of the abstract
    store \<open>spec_op\<close>; what a restart restores.
  \<^item> \<open>Runtime_Error\<close>, \<open>Worker\<close>, \<open>Worker_Calls\<close>, \<open>Worker_Events\<close>, \<open>Worker_Pool\<close>, \<open>Pool_Safety\<close>,
    \<open>Pool_Properties\<close>, \<open>Pool_Liveness\<close>, \<open>Parallel_Pool\<close>, \<open>Specialist_Pool\<close>, \<open>Specialist_Props\<close> (\<open>agent/runtime_error.rs\<close>,
    \<open>worker/core.rs\<close>, \<open>orchestrator/parallel_pool.rs\<close>, \<open>specialist_pool.rs\<close>): what a worker publishes and
    returns, mutual exclusion and exact accounting under every interleaving, the completion of accepted
    tasks in every fair run.
  \<^item> \<open>Lru_Cache\<close>, \<open>Ttl_Cache\<close>, \<open>Cache_Props\<close> (\<open>cache/\<close>), \<open>Bounded_Bus\<close> (\<open>bus/bounded.rs\<close>),
    \<open>Bus_Messages\<close> (\<open>anima-types/src/message.rs\<close>, \<open>bus/message.rs\<close>, \<open>agent/runtime_ids.rs\<close>,
    \<open>agent/runtime_helpers.rs\<close>): the caches under one contract (locale \<open>value_cache\<close>), the buffers under
    another.
  \<^item> \<open>Plan_Graph\<close>, \<open>Orchestration\<close>, \<open>Orchestration_Run\<close>, \<open>Orchestration_Rules\<close>, \<open>Orchestration_Props\<close>,
    \<open>Orchestration_Order\<close>, \<open>Orchestration_Faults\<close>, \<open>Orchestrate\<close> (\<open>orchestrator/core.rs\<close>,
    \<open>llm_decompose.rs\<close>, \<open>llm_context_infer.rs\<close>): plans as graphs, their execution with records, events and
    metrics; dependencies before dependents when they can be resolved and nothing blocks, and how a plan ends.
  \<^item> \<open>Pending_Question\<close>, \<open>Event_Emitter\<close>, \<open>Suspension\<close>, \<open>Suspension_Props\<close>, \<open>Suspension_Rebuild\<close>
    (\<open>agent/suspension.rs\<close>, \<open>agent/event_emitter.rs\<close>): questions, the emitter, the coordinator; an answered
    question stays answered unless it is a tool permission, and what can be rebuilt after a restart.
  \<^item> \<open>Requirement_Judge\<close> (\<open>execution/requirement_judge.rs\<close>, \<open>context_assembly.rs\<close>, \<open>turn_coordinator.rs\<close>): when a
    result satisfies the request, the follow-up that is planned otherwise, and the data of each branch of a turn.
  \<^item> \<open>Sessions\<close> (\<open>channel/session.rs\<close>, \<open>channel/message.rs\<close>), \<open>Context_Manager\<close> (\<open>context/manager.rs\<close>,
    \<open>utils.rs\<close>), \<open>Context_Storage\<close>, \<open>Context_Storage_Props\<close> (\<open>context/storage.rs\<close>), \<open>Metrics\<close> (\<open>metrics.rs\<close>):
    the sessions with exact indices, the contexts of sessions, the tiers as one map, and exact histograms.
  \<^item> \<open>State_Frames\<close> (frame rules, locale \<open>state_frame\<close>), \<open>Requirement_Progress\<close> (\<open>agent/requirement.rs\<close>),
    \<open>Prompt_Assembly\<close> (\<open>prompt/\<close>), \<open>Agent_Core\<close> (state and helpers of \<open>agent/core.rs\<close>, \<open>context_types.rs\<close>,
    \<open>session_bootstrap.rs\<close>, \<open>escalation.rs\<close>, \<open>execution/driver.rs\<close>), \<open>Upstream\<close>, \<open>Upstream_Props\<close>
    (\<open>agent/upstream_resolution.rs\<close>, follow-up loop of \<open>agentic_loop_runner.rs\<close>): what becomes of a result; the
    follow-ups end, at most one final message is sent, and a completed turn closes its records.

  \<^bold>\<open>How the code is translated.\<close>  Structs are records, enums are datatypes.  Counters, lengths and time stamps
  (\<open>u64\<close>, \<open>usize\<close>) are naturals with the saturating operations of the source written out (round-robin
  counters do not wrap); hashes are 64-bit words; the ratios of \<open>f64\<close> thresholds are exact rationals.
  \<open>IndexMap\<close> and \<open>HashMap\<close> are association lists in insertion order (for a \<open>HashMap\<close> one of its unspecified
  orders); objects of JSON are read by key.  A \<open>String\<close> is its UTF-8 bytes.  Printing and parsing JSON,
  serde decoding of records, fresh ids and the clock are parameters, or act on an abstract world; so do
  tools, hooks, providers, executors and channels, which are trait objects in the source.  Codecs carry the
  hypothesis \<open>codec_ok\<close> (decode inverts encode).  Results are sums or options.  A panic is modelled where the
  code can reach it with its own arguments (\<open>chunks(0)\<close>), and where it catches one: in the threads of the
  tool calls (\<open>rt_thread_panic\<close>) and of the workers (\<open>pe_panic\<close>), parameters that say when the code behind
  the trait objects panics.  Shared objects (balancers, workers, specialists)
  live behind addresses.  A method that holds its lock throughout is one step; where it releases the lock in
  between (LRU \<open>get\<close>, \<open>submit_task\<close>, routes of specialists), it is several, and the invariants are proved for
  every interleaving of a step relation.  Events handed to a publisher are recorded as a log.

  \<^bold>\<open>Loops and fuel.\<close>  The agentic loop recurses on the iterations that are left (a \<open>measure\<close>); the drain of
  the dispatcher has fuel, and \<open>drain_terminates\<close> gives a bound that is always enough; the eviction loop of
  the LRU cache is a \<open>partial_function (option)\<close> shown to return.  The handling of results recurses with fuel:
  \<open>followups_terminate\<close> gives the rounds left of the job plus two as enough when no worker reports a blocked subtask
  (a job is created with three rounds, so five), and \<open>blocked_answers_never_end\<close> a case where no fuel is.

  \<^bold>\<open>Not modelled.\<close>  HTTP, terminal, file and process access (providers, executors, built-in tools, web server,
  SDK, command line, frontend), the threads of bus and channels, logging, and serde itself; a panic that unwinds
  out of the agentic loop.  Not reached: the
  preparation and first execution of an inbound message (\<open>agent/inbound_pipeline.rs\<close>, \<open>initial_execution.rs\<close>)
  and the resumption after an answer (\<open>question_continuation.rs\<close>), the classifier with its
  floating-point scores, the floating-point summaries of the metrics, and the views of \<open>runtime/projection.rs\<close> and
  \<open>anima-web\<close> on the modelled state.
\<close>

end
